(* ===== verification/Prelude.thy ===== *)
theory Prelude imports Main "HOL-Library.While_Combinator" "HOL-Library.Monad_Syntax"
  "HOL-Library.Word" begin

text \<open>
  Shared vocabulary of the development: the machine integer types of the C sources, the
  conventions for partial operations, the loop rule for pointer chains, and the ring-buffer
  arithmetic that several components use.

  Conventions.  A value of type \<open>'a option\<close> that models a C call is \<open>None\<close> where the C code has
  no defined result: a null dereference, an access outside an allocated block, or a loop that does
  not end.  A C pointer that may be null is an \<open>option\<close> inside such a result.  Error codes are the
  negative integers of the kernel headers.
\<close>

type_synonym u8 = "8 word"
type_synonym u16 = "16 word"
type_synonym u32 = "32 word"

section \<open>Fixed-width arithmetic on natural numbers and integers\<close>

text \<open>The conversions a C assignment performs, on unbounded numbers.\<close>

definition to_u8 :: "int \<Rightarrow> nat" where
  "to_u8 x = nat (x mod 256)"

definition to_u32 :: "int \<Rightarrow> nat" where
  "to_u32 x = nat (x mod 4294967296)"

definition to_i32 :: "int \<Rightarrow> int" where
  "to_i32 x = (x + 2147483648) mod 4294967296 - 2147483648"

definition INT32_MAX :: int where "INT32_MAX = 2147483647"

definition i32_range :: "int \<Rightarrow> bool" where
  "i32_range x \<longleftrightarrow> - 2147483648 \<le> x \<and> x \<le> 2147483647"

lemma to_i32_id [simp]: "i32_range x \<Longrightarrow> to_i32 x = x"
  by (simp add: to_i32_def i32_range_def)

lemma to_i32_range [simp]: "i32_range (to_i32 x)"
  using pos_mod_bound [of "4294967296" "x + 2147483648"]
    pos_mod_sign [of "4294967296" "x + 2147483648"]
  by (simp add: to_i32_def i32_range_def)

lemma to_u8_id: "0 \<le> x \<Longrightarrow> x < 256 \<Longrightarrow> to_u8 x = nat x"
  by (simp add: to_u8_def)

lemma to_u8_bound [simp]: "to_u8 x < 256"
  by (simp add: to_u8_def nat_less_iff)

lemma to_u32_bound [simp]: "to_u32 x < 4294967296"
  by (simp add: to_u32_def nat_less_iff)

lemma to_u32_id: "0 \<le> x \<Longrightarrow> x < 4294967296 \<Longrightarrow> to_u32 x = nat x"
  by (simp add: to_u32_def)

lemma nth_list_update_fun:
  "i < length xs \<Longrightarrow> (!) (xs[i := v]) = ((!) xs)(i := v)"
  by (auto simp: fun_eq_iff)

text \<open>A checked array access.\<close>

definition at :: "'a list \<Rightarrow> nat \<Rightarrow> 'a option" where
  "at xs i = (if i < length xs then Some (xs ! i) else None)"

lemma at_simp [simp]: "i < length xs \<Longrightarrow> at xs i = Some (xs ! i)"
  by (simp add: at_def)

definition set_at :: "'a list \<Rightarrow> nat \<Rightarrow> 'a \<Rightarrow> 'a list option" where
  "set_at xs i v = (if i < length xs then Some (xs[i := v]) else None)"

section \<open>Loops over a chain\<close>

text \<open>
  The loop of a traversal consumes a list of cells, one per turn.  \<open>I ys s\<close> says that the loop
  state \<open>s\<close> has the cells \<open>ys\<close> still before it; from that the loop ends and reaches a state with
  nothing left.
\<close>

lemma while_option_list:
  assumes step: "\<And>y ys s. I (y # ys) s \<Longrightarrow> b s \<and> I ys (c s)"
    and stop: "\<And>s. I [] s \<Longrightarrow> \<not> b s"
    and start: "I xs s"
  shows "\<exists>t. while_option b c s = Some t \<and> I [] t"
  using start
proof (induction xs arbitrary: s)
  case Nil
  then show ?case
    using stop by (auto simp: while_option_unfold)
next
  case (Cons x xs)
  from step [OF Cons.prems] have b: "b s" and I: "I xs (c s)"
    by auto
  from Cons.IH [OF I] b show ?case
    by (simp add: while_option_unfold [of b c s])
qed

text \<open>The same rule when the loop may also break out early with a result that satisfies \<open>Q\<close>.\<close>

lemma while_option_list_break:
  assumes step: "\<And>y ys s. I (y # ys) s \<Longrightarrow> (\<not> b s \<and> Q s) \<or> (b s \<and> I ys (c s))"
    and stop: "\<And>s. I [] s \<Longrightarrow> \<not> b s \<and> Q s"
    and start: "I xs s"
  shows "\<exists>t. while_option b c s = Some t \<and> Q t"
  using start
proof (induction xs arbitrary: s)
  case Nil
  then show ?case
    using stop [of s] by (auto simp: while_option_unfold [of b c s])
next
  case (Cons x xs)
  from step [OF Cons.prems] consider "\<not> b s" "Q s" | "b s" "I xs (c s)"
    by blast
  then show ?case
  proof cases
    case 1
    then show ?thesis by (auto simp: while_option_unfold [of b c s])
  next
    case 2
    from Cons.IH [OF 2(2)] 2(1) show ?thesis
      by (simp add: while_option_unfold [of b c s])
  qed
qed

section \<open>Ring buffers\<close>

text \<open>
  The live part of a ring of \<open>N\<close> slots that starts at slot \<open>h\<close> and holds \<open>n\<close> elements; \<open>f\<close> reads a
  slot.
\<close>

definition ring_list :: "(nat \<Rightarrow> 'a) \<Rightarrow> nat \<Rightarrow> nat \<Rightarrow> nat \<Rightarrow> 'a list" where
  "ring_list f N h n = map (\<lambda>i. f ((h + i) mod N)) [0..<n]"

lemma ring_list_length [simp]: "length (ring_list f N h n) = n"
  by (simp add: ring_list_def)

lemma ring_list_0 [simp]: "ring_list f N h 0 = []"
  by (simp add: ring_list_def)

lemma ring_slot_inj:
  assumes "i < N" "j < N" "(h + i) mod N = (h + j) mod (N::nat)"
  shows "i = j"
proof -
  have "(int h + int i) mod int N = (int h + int j) mod int N"
    using assms(3) by (metis of_nat_add zmod_int)
  then have "int i mod int N = int j mod int N"
    by (metis add_diff_cancel_left' mod_diff_cong)
  then show ?thesis using assms(1,2) by (simp flip: zmod_int)
qed

lemma ring_list_put:
  assumes "n < N"
  shows "ring_list (f((h + n) mod N := x)) N h (Suc n) = ring_list f N h n @ [x]"
proof -
  have "(h + i) mod N \<noteq> (h + n) mod N" if "i < n" for i
    using that assms ring_slot_inj [of i N n h] by auto
  then show ?thesis
    by (simp add: ring_list_def)
qed

lemma ring_list_take:
  "ring_list f N h (Suc n) = f (h mod N) # ring_list f N (Suc h mod N) n"
proof -
  have "[0..<Suc n] = 0 # map Suc [0..<n]"
    by (simp add: map_Suc_upt upt_conv_Cons)
  then show ?thesis
    by (simp add: ring_list_def comp_def mod_simps)
qed

lemma ring_list_nth:
  "i < n \<Longrightarrow> ring_list f N h n ! i = f ((h + i) mod N)"
  by (simp add: ring_list_def)

lemma ring_list_other:
  assumes "\<And>i. i < n \<Longrightarrow> (h + i) mod N \<noteq> k"
  shows "ring_list (f(k := x)) N h n = ring_list f N h n"
  using assms by (auto simp: ring_list_def)

lemma ring_list_append:
  "ring_list f N h (n + m) = ring_list f N h n @ ring_list f N ((h + n) mod N) m"
proof -
  have "map g [0..<n + m] = map g [0..<n] @ map (\<lambda>i. g (n + i)) [0..<m]" for g :: "nat \<Rightarrow> 'a"
    by (rule nth_equalityI) (auto simp: nth_append)
  then show ?thesis
    by (simp add: ring_list_def mod_simps add.assoc)
qed

lemma ring_list_eqI:
  assumes "n = length xs" and "\<And>i. i < n \<Longrightarrow> f ((h + i) mod N) = xs ! i"
  shows "ring_list f N h n = xs"
  using assms by (auto intro: nth_equalityI simp: ring_list_nth)

lemma ring_list_cong:
  assumes "\<And>i. i < n \<Longrightarrow> f ((h + i) mod N) = g ((h + i) mod N)"
  shows "ring_list f N h n = ring_list g N h n"
  using assms by (simp add: ring_list_def)

text \<open>Writing a block behind the live part, given cell by cell.\<close>

lemma ring_list_put_block:
  assumes room: "n + length xs \<le> N"
    and new: "\<And>i. i < length xs \<Longrightarrow> g ((h + n + i) mod N) = xs ! i"
    and old: "\<And>k. k < N \<Longrightarrow> (\<And>i. i < length xs \<Longrightarrow> k \<noteq> (h + n + i) mod N) \<Longrightarrow> g k = f k"
  shows "ring_list g N h (n + length xs) = ring_list f N h n @ xs"
proof -
  have "g ((h + i) mod N) = f ((h + i) mod N)" if i: "i < n" for i
  proof (rule old)
    show "(h + i) mod N < N" using room i by simp
    show "(h + i) mod N \<noteq> (h + n + j) mod N" if "j < length xs" for j
      using ring_slot_inj [of i N "n + j" h] room i that by (auto simp: add.assoc)
  qed
  then have "ring_list g N h n = ring_list f N h n"
    by (rule ring_list_cong)
  moreover have "ring_list g N ((h + n) mod N) (length xs) = xs"
    by (rule ring_list_eqI) (use new in \<open>simp_all add: mod_simps\<close>)
  ultimately show ?thesis by (simp add: ring_list_append)
qed

section \<open>Counting the threads at a program point\<close>

definition count_pc :: "('a \<Rightarrow> bool) \<Rightarrow> 'a list \<Rightarrow> nat" where
  "count_pc P xs = length (filter P xs)"

lemma count_pc_update:
  "i < length xs \<Longrightarrow>
   count_pc P (xs[i := y]) + (if P (xs ! i) then 1 else 0) =
   count_pc P xs + (if P y then 1 else 0)"
proof (induction xs arbitrary: i)
  case Nil
  then show ?case by simp
next
  case (Cons x xs)
  show ?case
  proof (cases i)
    case 0
    then show ?thesis by (simp add: count_pc_def)
  next
    case (Suc k)
    with Cons.prems Cons.IH [of k] show ?thesis
      by (auto simp: count_pc_def split: if_splits)
  qed
qed

lemma count_pc_pos: "i < length xs \<Longrightarrow> P (xs ! i) \<Longrightarrow> 0 < count_pc P xs"
  using nth_mem [of i xs] by (auto simp: count_pc_def filter_empty_conv)

lemma count_pc_replicate [simp]: "\<not> P x \<Longrightarrow> count_pc P (replicate n x) = 0"
  by (simp add: count_pc_def)

end
