(* ===== verification/IntVector.thy ===== *)
theory IntVector imports Prelude begin

text \<open>
  lib_common/IntVector.c: a vector of at most \<open>MAX_ELEMENTS\<close> integers in a fixed array.  The array
  accesses are checked in the model: an index outside the array is \<open>None\<close>, since the C access has
  no defined result there.
\<close>

definition MAX_ELEMENTS :: int where "MAX_ELEMENTS = 32"

record int_vector =
  count :: int
  elements :: "int list"

definition rd :: "int list \<Rightarrow> int \<Rightarrow> int option" where
  "rd es i = (if 0 \<le> i \<and> i < MAX_ELEMENTS then Some (es ! nat i) else None)"

definition wr :: "int list \<Rightarrow> int \<Rightarrow> int \<Rightarrow> int list option" where
  "wr es i x = (if 0 \<le> i \<and> i < MAX_ELEMENTS then Some (es[nat i := x]) else None)"

definition IntVector_Init :: "int_vector \<Rightarrow> int_vector" where
  "IntVector_Init self = self\<lparr>count := 0\<rparr>"

function shift_loop :: "int \<Rightarrow> int list \<Rightarrow> int \<Rightarrow> int list option" where
  "shift_loop n es i =
     (if i < n then do { x \<leftarrow> rd es (i + 1); es' \<leftarrow> wr es i x; shift_loop n es' (i + 1) }
      else Some es)"
  by pat_completeness auto
termination by (relation "measure (\<lambda>(n, es, i). nat (n - i))") auto

declare shift_loop.simps [simp del]

definition shiftLeftFrom :: "int_vector \<Rightarrow> int \<Rightarrow> int_vector option" where
  "shiftLeftFrom self index =
     do { es \<leftarrow> shift_loop (count self) (elements self) index; Some (self\<lparr>elements := es\<rparr>) }"

definition IntVector_Add :: "int_vector \<Rightarrow> int \<Rightarrow> int_vector option" where
  "IntVector_Add self element =
     do { es \<leftarrow> wr (elements self) (count self) element;
          Some (self\<lparr>elements := es, count := count self + 1\<rparr>) }"

function find_loop :: "int \<Rightarrow> int list \<Rightarrow> int \<Rightarrow> int \<Rightarrow> int option" where
  "find_loop n es element i =
     (if i < n then do { x \<leftarrow> rd es i; if x = element then Some i else find_loop n es element (i + 1) }
      else Some (- 1))"
  by pat_completeness auto
termination by (relation "measure (\<lambda>(n, es, element, i). nat (n - i))") auto

declare find_loop.simps [simp del]

definition find_index :: "int_vector \<Rightarrow> int \<Rightarrow> int option" where
  "find_index self element = find_loop (count self) (elements self) element 0"

definition IntVector_MoveBack :: "int_vector \<Rightarrow> int \<Rightarrow> int_vector option" where
  "IntVector_MoveBack self element =
     do { index \<leftarrow> find_index self element;
          self' \<leftarrow> shiftLeftFrom self index;
          es \<leftarrow> wr (elements self') (count self' - 1) element;
          Some (self'\<lparr>elements := es\<rparr>) }"

definition IntVector_Remove :: "int_vector \<Rightarrow> int \<Rightarrow> int_vector option" where
  "IntVector_Remove self element =
     do { self' \<leftarrow> IntVector_MoveBack self element; Some (self'\<lparr>count := count self' - 1\<rparr>) }"

definition IntVector_IsIn :: "int_vector \<Rightarrow> int \<Rightarrow> bool option" where
  "IntVector_IsIn self element = do { i \<leftarrow> find_index self element; Some (i \<noteq> - 1) }"

function revert_loop :: "int_vector \<Rightarrow> int \<Rightarrow> int_vector option" where
  "revert_loop self i =
     (if 0 \<le> i then do { x \<leftarrow> rd (elements self) i;
                         self' \<leftarrow> IntVector_MoveBack self x; revert_loop self' (i - 1) }
      else Some self)"
  by pat_completeness auto
termination by (relation "measure (\<lambda>(self, i). nat (i + 1))") auto

declare revert_loop.simps [simp del]

definition IntVector_Revert :: "int_vector \<Rightarrow> int_vector option" where
  "IntVector_Revert self = revert_loop self (count self - 1)"

function copy_loop :: "int \<Rightarrow> int list \<Rightarrow> int list \<Rightarrow> int \<Rightarrow> int list option" where
  "copy_loop n src dst i =
     (if i < n then do { x \<leftarrow> rd src i; dst' \<leftarrow> wr dst i x; copy_loop n src dst' (i + 1) }
      else Some dst)"
  by pat_completeness auto
termination by (relation "measure (\<lambda>(n, src, dst, i). nat (n - i))") auto

declare copy_loop.simps [simp del]

definition IntVector_Copy :: "int_vector \<Rightarrow> int_vector \<Rightarrow> int_vector option" where
  "IntVector_Copy src dst =
     do { es \<leftarrow> copy_loop (count src) (elements src) (elements dst) 0;
          Some (dst\<lparr>count := count src, elements := es\<rparr>) }"

section \<open>The vector as a list\<close>

definition vec_ok :: "int_vector \<Rightarrow> bool" where
  "vec_ok v \<longleftrightarrow> 0 \<le> count v \<and> count v \<le> MAX_ELEMENTS \<and> length (elements v) = nat MAX_ELEMENTS"

definition vec_list :: "int_vector \<Rightarrow> int list" where
  "vec_list v = take (nat (count v)) (elements v)"

lemma vec_okD:
  assumes "vec_ok v"
  shows "0 \<le> count v" "count v \<le> 32" "length (elements v) = 32"
  using assms by (auto simp: vec_ok_def MAX_ELEMENTS_def)

lemma rd_nat: "i < 32 \<Longrightarrow> rd es (int i) = Some (es ! i)"
  by (simp add: rd_def MAX_ELEMENTS_def)

lemma wr_nat: "i < 32 \<Longrightarrow> wr es (int i) x = Some (es[i := x])"
  by (simp add: wr_def MAX_ELEMENTS_def)

lemma shift_loop_eq:
  "j \<le> n \<Longrightarrow> n < 32 \<Longrightarrow> length es = 32 \<Longrightarrow>
   shift_loop (int n) es (int j) = Some (take j es @ take (n - j) (drop (Suc j) es) @ drop n es)"
proof (induction "n - j" arbitrary: j es)
  case 0
  then show ?case by (simp add: shift_loop.simps)
next
  case (Suc k)
  then have j: "j < n" by simp
  let ?es = "es[j := es ! Suc j]"
  have "shift_loop (int n) es (int j) = shift_loop (int n) ?es (int (Suc j))"
    using j Suc.prems rd_nat [of "Suc j" es] wr_nat [of j es "es ! Suc j"]
    by (subst shift_loop.simps) (simp add: algebra_simps)
  also have "\<dots> = Some (take (Suc j) ?es @ take (n - Suc j) (drop (Suc (Suc j)) ?es) @ drop n ?es)"
    using Suc j by (intro Suc.hyps(1)) auto
  also have "take (Suc j) ?es = take j es @ [es ! Suc j]"
    using j Suc.prems by (simp add: take_Suc_conv_app_nth)
  also have "drop (Suc (Suc j)) ?es = drop (Suc (Suc j)) es" by simp
  also have "drop n ?es = drop n es" using j by simp
  finally have e: "shift_loop (int n) es (int j) =
      Some (take j es @ es ! Suc j # take (n - Suc j) (drop (Suc (Suc j)) es) @ drop n es)"
    by simp
  have "n - j = Suc (n - Suc j)" using j by simp
  moreover have "drop (Suc j) es = es ! Suc j # drop (Suc (Suc j)) es"
    using j Suc.prems by (simp add: Cons_nth_drop_Suc)
  ultimately have "take (n - j) (drop (Suc j) es) = es ! Suc j # take (n - Suc j) (drop (Suc (Suc j)) es)"
    by simp
  with e show ?case by simp
qed

lemma shift_loop_found:
  assumes es: "es = pre @ x # post @ drop n es" and n: "n = Suc (length pre + length post)"
    and "n < 32" "length es = 32"
  shows "shift_loop (int n) es (int (length pre)) = Some (pre @ post @ take 1 (drop n es) @ drop n es)"
proof -
  define tl where "tl = drop n es"
  have e: "es = pre @ x # post @ tl" using es by (simp add: tl_def)
  have "take (length pre) es = pre" by (simp add: e)
  moreover have "take (n - length pre) (drop (Suc (length pre)) es) = post @ take 1 tl"
    by (simp add: e n)
  ultimately show ?thesis
    using shift_loop_eq [of "length pre" n es] assms(3,4) n by (simp add: tl_def)
qed

lemma shift_loop_overflow:
  "j < n \<Longrightarrow> 32 \<le> n \<Longrightarrow> j < 32 \<Longrightarrow> shift_loop (int n) es (int j) = None"
proof (induction "32 - j" arbitrary: j es)
  case 0
  then show ?case by simp
next
  case (Suc k)
  show ?case
  proof (cases "j = 31")
    case True
    with Suc.prems show ?thesis
      by (subst shift_loop.simps) (simp add: rd_def MAX_ELEMENTS_def)
  next
    case False
    with Suc.prems have "shift_loop (int n) (es[j := es ! Suc j]) (int (Suc j)) = None"
      by (intro Suc.hyps(1)) (use Suc.hyps(2) in auto)
    with False Suc.prems show ?thesis
      using rd_nat [of "Suc j" es] wr_nat [of j es "es ! Suc j"]
      by (subst shift_loop.simps) (simp add: algebra_simps)
  qed
qed

lemma find_loop_eq:
  "i \<le> n \<Longrightarrow> n \<le> 32 \<Longrightarrow> length es = 32 \<Longrightarrow>
   find_loop (int n) es x (int i) =
     Some (if x \<in> set (drop i (take n es)) then int i + int (length (takeWhile (\<lambda>y. y \<noteq> x) (drop i (take n es)))) else - 1)"
proof (induction "n - i" arbitrary: i)
  case 0
  then show ?case by (simp add: find_loop.simps)
next
  case (Suc k)
  then have i: "i < n" by simp
  have d: "drop i (take n es) = es ! i # drop (Suc i) (take n es)"
    using i Suc.prems by (simp add: Cons_nth_drop_Suc [symmetric])
  have "find_loop (int n) es x (int i) =
      (if es ! i = x then Some (int i) else find_loop (int n) es x (int (Suc i)))"
    using i Suc.prems rd_nat [of i es] by (subst find_loop.simps) (simp add: algebra_simps)
  moreover have "find_loop (int n) es x (int (Suc i)) =
      Some (if x \<in> set (drop (Suc i) (take n es)) then int (Suc i) + int (length (takeWhile (\<lambda>y. y \<noteq> x) (drop (Suc i) (take n es)))) else - 1)"
    using i Suc by (intro Suc.hyps(1)) auto
  ultimately show ?case unfolding d by simp
qed

lemma find_index_eq:
  "vec_ok v \<Longrightarrow> find_index v x =
     Some (if x \<in> set (vec_list v) then int (length (takeWhile (\<lambda>y. y \<noteq> x) (vec_list v))) else - 1)"
  using find_loop_eq [of 0 "nat (count v)" "elements v" x] vec_okD [of v]
  by (simp add: find_index_def vec_list_def)

lemma split_first:
  "x \<in> set xs \<Longrightarrow> \<exists>pre post. xs = pre @ x # post \<and> x \<notin> set pre \<and> takeWhile (\<lambda>y. y \<noteq> x) xs = pre
     \<and> remove1 x xs = pre @ post"
proof -
  assume "x \<in> set xs"
  then obtain pre post where "xs = pre @ x # post" "x \<notin> set pre"
    using split_list_first [of x xs] by blast
  then show ?thesis by (auto simp: remove1_append takeWhile_append)
qed

lemma length_takeWhile_less: "x \<in> set xs \<Longrightarrow> length (takeWhile (\<lambda>y. y \<noteq> x) xs) < length xs"
  by (induction xs) auto

text \<open>The effect of moving an element back: its first occurrence goes to the end.\<close>

lemma MoveBack_list:
  assumes v: "vec_ok v" and c: "count v < 32" and x: "x \<in> set (vec_list v)"
  shows "\<exists>v'. IntVector_MoveBack v x = Some v' \<and> vec_ok v' \<and> count v' = count v
    \<and> vec_list v' = remove1 x (vec_list v) @ [x]"
proof -
  define n where "n = nat (count v)"
  note len = vec_okD [OF v]
  have n: "count v = int n" "n < 32" using len c by (auto simp: n_def)
  obtain pre post where sp: "vec_list v = pre @ x # post" "takeWhile (\<lambda>y. y \<noteq> x) (vec_list v) = pre"
    "remove1 x (vec_list v) = pre @ post"
    using split_first [OF x] by blast
  let ?j = "length pre"
  have es: "elements v = pre @ x # post @ drop n (elements v)"
  proof -
    have "elements v = vec_list v @ drop n (elements v)" by (simp add: vec_list_def n_def)
    then show ?thesis unfolding sp(1) append_assoc append_Cons .
  qed
  have "length (vec_list v) = n" using len n by (simp add: vec_list_def)
  with sp(1) have lp: "n = Suc (?j + length post)" by simp
  have sh: "shift_loop (int n) (elements v) (int ?j) = Some (pre @ post @ take 1 (drop n (elements v)) @ drop n (elements v))"
    by (rule shift_loop_found [OF es lp n(2) len(3)])
  have l1: "length (take 1 (drop n (elements v))) = 1" using len n by simp
  then obtain z where z: "take 1 (drop n (elements v)) = [z]"
    using length_Suc_conv [of "take 1 (drop n (elements v))" 0] by auto
  have "IntVector_MoveBack v x = Some (v\<lparr>elements := pre @ post @ x # drop n (elements v)\<rparr>)"
    using x sh n z wr_nat [of "n - 1" _ x] lp
    by (simp add: IntVector_MoveBack_def find_index_eq [OF v] sp(2) shiftLeftFrom_def list_update_append
        of_nat_diff)
  moreover have "length (pre @ post @ x # drop n (elements v)) = 32"
    using len n lp by simp
  moreover have "nat (count v) = Suc (?j + length post)" using lp by (simp add: n)
  ultimately show ?thesis
    using len sp(3) by (auto simp: vec_ok_def MAX_ELEMENTS_def vec_list_def)
qed

lemma MoveBack_full:
  assumes v: "vec_ok v" and c: "count v = 32" and x: "x \<in> set (vec_list v)"
  shows "IntVector_MoveBack v x = None"
proof -
  have "length (takeWhile (\<lambda>y. y \<noteq> x) (vec_list v)) < length (vec_list v)"
    using length_takeWhile_less [OF x] .
  then have "length (takeWhile (\<lambda>y. y \<noteq> x) (vec_list v)) < 32"
    using vec_okD [OF v] c by (simp add: vec_list_def)
  then show ?thesis
    using x c shift_loop_overflow [of "length (takeWhile (\<lambda>y. y \<noteq> x) (vec_list v))" 32 "elements v"]
    by (simp add: IntVector_MoveBack_def find_index_eq [OF v] shiftLeftFrom_def)
qed

lemma MoveBack_absent:
  assumes v: "vec_ok v" and x: "x \<notin> set (vec_list v)"
  shows "IntVector_MoveBack v x = None"
  using x vec_okD [OF v]
  by (simp add: IntVector_MoveBack_def find_index_eq [OF v] shiftLeftFrom_def
      shift_loop.simps [of _ _ "- 1"] wr_def rd_def MAX_ELEMENTS_def)

lemma Remove_list:
  assumes "vec_ok v" "count v < 32" "x \<in> set (vec_list v)"
  shows "\<exists>v'. IntVector_Remove v x = Some v' \<and> vec_ok v' \<and> vec_list v' = remove1 x (vec_list v)"
proof -
  obtain v' where v': "IntVector_MoveBack v x = Some v'" "vec_ok v'" "count v' = count v"
    "vec_list v' = remove1 x (vec_list v) @ [x]"
    using MoveBack_list [OF assms] by blast
  from v'(3) vec_okD [OF assms(1)] assms(3) have c: "0 < count v'"
    by (cases "count v' = 0") (auto simp: vec_list_def)
  have "length (vec_list v') = nat (count v')"
    using vec_okD [OF v'(2)] by (simp add: vec_list_def)
  with v'(4) have "nat (count v' - 1) = length (remove1 x (vec_list v))"
    using c by (simp add: nat_diff_distrib)
  moreover have "vec_list (v'\<lparr>count := count v' - 1\<rparr>) = take (nat (count v' - 1)) (vec_list v')"
    using c by (simp add: vec_list_def min_def)
  ultimately show ?thesis
    using v' c by (auto simp: IntVector_Remove_def vec_ok_def)
qed

lemma Add_list:
  assumes "vec_ok v" "count v < 32"
  shows "\<exists>v'. IntVector_Add v x = Some v' \<and> vec_ok v' \<and> vec_list v' = vec_list v @ [x]"
  using vec_okD [OF assms(1)] assms(2)
  by (auto simp: IntVector_Add_def wr_def MAX_ELEMENTS_def vec_ok_def vec_list_def
      nat_add_distrib take_Suc_conv_app_nth)

lemma revert_loop_list:
  "vec_ok v \<Longrightarrow> count v < 32 \<Longrightarrow> distinct (vec_list v) \<Longrightarrow> vec_list v = xs @ ys \<Longrightarrow>
   \<exists>v'. revert_loop v (int (length xs) - 1) = Some v' \<and> vec_ok v' \<and> count v' = count v
     \<and> vec_list v' = ys @ rev xs"
proof (induction xs arbitrary: v ys rule: rev_induct)
  case Nil
  then show ?case by (simp add: revert_loop.simps)
next
  case (snoc x xs)
  have l: "length xs < length (vec_list v)" using snoc.prems by simp
  have "elements v ! length xs = vec_list v ! length xs"
    using l by (simp add: vec_list_def)
  also have "\<dots> = x" using snoc.prems by (simp add: nth_append)
  finally have el: "elements v ! length xs = x" .
  have "length (vec_list v) = nat (count v)"
    using vec_okD [OF snoc.prems(1)] by (simp add: vec_list_def)
  then have l32: "length xs < 32" using l snoc.prems(2) by simp
  have "x \<in> set (vec_list v)" using snoc.prems by simp
  then obtain v' where v': "IntVector_MoveBack v x = Some v'" "vec_ok v'" "count v' = count v"
    "vec_list v' = remove1 x (vec_list v) @ [x]"
    using MoveBack_list [OF snoc.prems(1,2)] by blast
  have "remove1 x (vec_list v) = xs @ ys"
    using snoc.prems by (auto simp: remove1_append)
  then have v2: "vec_list v' = xs @ (ys @ [x])" using v' by simp
  then have "distinct (vec_list v')" using snoc.prems by auto
  from snoc.IH [OF v'(2) _ this v2] v'(3) snoc.prems(2)
  obtain w where w: "revert_loop v' (int (length xs) - 1) = Some w" "vec_ok w" "count w = count v'"
    "vec_list w = (ys @ [x]) @ rev xs" by auto
  have "revert_loop v (int (length (xs @ [x])) - 1) = revert_loop v' (int (length xs) - 1)"
    using v'(1) el l32 by (subst revert_loop.simps) (simp add: rd_nat)
  with w v'(3) show ?case by simp
qed

lemma copy_loop_eq:
  "i \<le> n \<Longrightarrow> n \<le> 32 \<Longrightarrow> length src = 32 \<Longrightarrow> length dst = 32 \<Longrightarrow>
   copy_loop (int n) src dst (int i) = Some (take i dst @ drop i (take n src) @ drop n dst)"
proof (induction "n - i" arbitrary: i dst)
  case 0
  then show ?case by (simp add: copy_loop.simps)
next
  case (Suc k)
  then have i: "i < n" by simp
  have "copy_loop (int n) src dst (int i) = copy_loop (int n) src (dst[i := src ! i]) (int (Suc i))"
    using i Suc.prems rd_nat [of i src] wr_nat [of i dst "src ! i"]
    by (subst copy_loop.simps) (simp add: algebra_simps)
  also have "\<dots> = Some (take (Suc i) (dst[i := src ! i]) @ drop (Suc i) (take n src) @ drop n (dst[i := src ! i]))"
    using i Suc by (intro Suc.hyps(1)) auto
  also have "take (Suc i) (dst[i := src ! i]) = take i dst @ [src ! i]"
    using i Suc.prems by (simp add: take_Suc_conv_app_nth)
  finally show ?case
    using i Suc.prems by (simp add: Cons_nth_drop_Suc [symmetric])
qed

lemma Copy_list:
  assumes "vec_ok v" "vec_ok w"
  shows "\<exists>w'. IntVector_Copy v w = Some w' \<and> vec_ok w' \<and> vec_list w' = vec_list v"
  using copy_loop_eq [of 0 "nat (count v)" "elements v" "elements w"] vec_okD [OF assms(1)] vec_okD [OF assms(2)]
  by (auto simp: IntVector_Copy_def vec_ok_def vec_list_def MAX_ELEMENTS_def min_def)

section \<open>Properties\<close>

lemma IsIn_list: "vec_ok v \<Longrightarrow> IntVector_IsIn v x = Some (x \<in> set (vec_list v))"
  using find_index_eq [of v x] by (simp add: IntVector_IsIn_def)

lemma Add_full: "vec_ok v \<Longrightarrow> count v = MAX_ELEMENTS \<Longrightarrow> IntVector_Add v x = None"
  by (simp add: IntVector_Add_def wr_def)

text \<open>When a move to the back, and so a removal, stays inside the array.\<close>

definition movable :: "int_vector \<Rightarrow> int \<Rightarrow> bool" where
  "movable v x \<longleftrightarrow> x \<in> set (vec_list v) \<and> count v < MAX_ELEMENTS"

lemma MoveBack_not_movable: "vec_ok v \<Longrightarrow> \<not> movable v x \<Longrightarrow> IntVector_MoveBack v x = None"
  using MoveBack_absent [of v x] MoveBack_full [of v x] vec_okD [of v]
  by (cases "count v = 32") (auto simp: movable_def MAX_ELEMENTS_def)

text \<open>C38: The vector is a list of at most \<open>MAX_ELEMENTS\<close> integers, the empty and the full vector and
  the elements it does not hold included.  \<open>IntVector_IsIn\<close> is membership.  \<open>IntVector_Add\<close> appends
  below the capacity, and writes behind the array at the capacity.  \<open>IntVector_MoveBack\<close> moves the
  first occurrence of an element to the end and \<open>IntVector_Remove\<close> deletes it when the vector holds
  the element and is not full; in every other case both access the array outside its bounds.
  \<open>IntVector_Init\<close> gives the empty list and \<open>IntVector_Copy\<close> the list of its source.\<close>

theorem int_vector_is_list:
  assumes "vec_ok v"
  shows "IntVector_IsIn v x = Some (x \<in> set (vec_list v))
    \<and> (if count v < MAX_ELEMENTS
       then \<exists>a. IntVector_Add v x = Some a \<and> vec_ok a \<and> vec_list a = vec_list v @ [x]
       else IntVector_Add v x = None)
    \<and> (if x \<in> set (vec_list v) \<and> count v < MAX_ELEMENTS
       then (\<exists>m. IntVector_MoveBack v x = Some m \<and> vec_ok m \<and> vec_list m = remove1 x (vec_list v) @ [x])
         \<and> (\<exists>r. IntVector_Remove v x = Some r \<and> vec_ok r \<and> vec_list r = remove1 x (vec_list v))
       else IntVector_MoveBack v x = None \<and> IntVector_Remove v x = None)
    \<and> vec_ok (IntVector_Init v) \<and> vec_list (IntVector_Init v) = []
    \<and> (\<forall>w. vec_ok w \<longrightarrow> (\<exists>w'. IntVector_Copy v w = Some w' \<and> vec_ok w' \<and> vec_list w' = vec_list v))"
proof (intro conjI)
  show "IntVector_IsIn v x = Some (x \<in> set (vec_list v))" by (rule IsIn_list [OF assms])
  show "if count v < MAX_ELEMENTS
       then \<exists>a. IntVector_Add v x = Some a \<and> vec_ok a \<and> vec_list a = vec_list v @ [x]
       else IntVector_Add v x = None"
    using Add_list [OF assms, of x] Add_full [OF assms, of x] vec_okD [OF assms]
    by (auto simp: MAX_ELEMENTS_def)
  show "if x \<in> set (vec_list v) \<and> count v < MAX_ELEMENTS
       then (\<exists>m. IntVector_MoveBack v x = Some m \<and> vec_ok m \<and> vec_list m = remove1 x (vec_list v) @ [x])
         \<and> (\<exists>r. IntVector_Remove v x = Some r \<and> vec_ok r \<and> vec_list r = remove1 x (vec_list v))
       else IntVector_MoveBack v x = None \<and> IntVector_Remove v x = None"
    using MoveBack_list [OF assms, of x] Remove_list [OF assms, of x] MoveBack_not_movable [OF assms, of x]
    by (auto simp: movable_def MAX_ELEMENTS_def IntVector_Remove_def)
  show "vec_ok (IntVector_Init v)" "vec_list (IntVector_Init v) = []"
    using assms by (auto simp: IntVector_Init_def vec_ok_def vec_list_def MAX_ELEMENTS_def)
  show "\<forall>w. vec_ok w \<longrightarrow> (\<exists>w'. IntVector_Copy v w = Some w' \<and> vec_ok w' \<and> vec_list w' = vec_list v)"
    using Copy_list [OF assms] by blast
qed

lemma int_vector_is_list_witness:
  "(\<exists>r. IntVector_Remove \<lparr>count = 3, elements = [7, 8, 9] @ replicate 29 0\<rparr> 8 = Some r \<and> vec_list r = [7, 9])
    \<and> IntVector_IsIn \<lparr>count = 3, elements = [7, 8, 9] @ replicate 29 0\<rparr> 8 = Some True"
  using int_vector_is_list [of "\<lparr>count = 3, elements = [7, 8, 9] @ replicate 29 0\<rparr>" 8]
  by (auto simp: vec_ok_def vec_list_def MAX_ELEMENTS_def)

text \<open>\<open>IntVector_Revert\<close>, written as repeated moves to the back, reverses a vector of distinct
  elements that is not full.\<close>

theorem int_vector_revert:
  assumes "vec_ok v" "count v < MAX_ELEMENTS" "distinct (vec_list v)"
  shows "\<exists>v'. IntVector_Revert v = Some v' \<and> vec_ok v' \<and> vec_list v' = rev (vec_list v)"
proof -
  have "int (length (vec_list v)) = count v"
    using vec_okD [OF assms(1)] by (auto simp: vec_list_def min_def)
  then show ?thesis
    using revert_loop_list [of v "vec_list v" "[]"] assms
    by (auto simp: IntVector_Revert_def MAX_ELEMENTS_def)
qed

lemma int_vector_revert_witness:
  "\<exists>v'. IntVector_Revert \<lparr>count = 3, elements = [7, 8, 9] @ replicate 29 0\<rparr> = Some v' \<and> vec_list v' = [9, 8, 7]"
  using int_vector_revert [of "\<lparr>count = 3, elements = [7, 8, 9] @ replicate 29 0\<rparr>"]
  by (auto simp: vec_ok_def vec_list_def MAX_ELEMENTS_def)

text \<open>On a full vector every \<open>IntVector_MoveBack\<close> of a contained element, and so every
  \<open>IntVector_Remove\<close>, reads one element past the array; moving an element the vector does not hold writes before it.\<close>

theorem int_vector_out_of_bounds:
  assumes "vec_ok v"
  shows "(if x \<in> set (vec_list v) then count v = MAX_ELEMENTS else True) \<longleftrightarrow> IntVector_Remove v x = None"
proof (cases "x \<in> set (vec_list v)")
  case True
  then show ?thesis
    using Remove_list [of v x] MoveBack_full [of v x] assms vec_okD [OF assms(1)]
    by (cases "count v = 32") (auto simp: IntVector_Remove_def MAX_ELEMENTS_def)
next
  case False
  then show ?thesis using MoveBack_absent [OF assms] by (simp add: IntVector_Remove_def)
qed

lemma int_vector_out_of_bounds_witness:
  "IntVector_Remove \<lparr>count = 32, elements = replicate 32 5\<rparr> 5 = None"
  using int_vector_out_of_bounds [of "\<lparr>count = 32, elements = replicate 32 5\<rparr>" 5]
  by (auto simp: vec_ok_def vec_list_def MAX_ELEMENTS_def)

end
