(* ===== verification/Fifo_Spec.thy ===== *)
theory Fifo_Spec imports Prelude begin

text \<open>
  The contract of a first-in first-out store, as the callers of the queues of this code use it.
  \<open>enq\<close> either refuses (\<open>None\<close>, the store is as it was) or stores behind everything else;
  \<open>deq\<close> takes the oldest element, and is \<open>None\<close> only on an empty store.  The bounded contract adds
  when \<open>enq\<close> refuses: every element has a cost and the store a capacity that no operation changes.

  The software FIFO of lib_common, the mail list of the kernel modules and the shared-memory
  mailbox are interpretations.
\<close>

datatype 'a fifo_op = Enq 'a | Deq

text \<open>A run of operations: the elements accepted, the elements delivered and the final store.\<close>

fun fifo_run :: "('a \<Rightarrow> 'q \<Rightarrow> 'q option) \<Rightarrow> ('q \<Rightarrow> ('a \<times> 'q) option) \<Rightarrow> 'a fifo_op list \<Rightarrow> 'q
    \<Rightarrow> 'a list \<times> 'a list \<times> 'q" where
  "fifo_run enq deq [] q = ([], [], q)"
| "fifo_run enq deq (Enq x # ops) q =
     (case enq x q of
        None \<Rightarrow> fifo_run enq deq ops q
      | Some q' \<Rightarrow> (let (acc, out, r) = fifo_run enq deq ops q' in (x # acc, out, r)))"
| "fifo_run enq deq (Deq # ops) q =
     (case deq q of
        None \<Rightarrow> fifo_run enq deq ops q
      | Some (x, q') \<Rightarrow> (let (acc, out, r) = fifo_run enq deq ops q' in (acc, x # out, r)))"

definition enqueued :: "'a fifo_op list \<Rightarrow> 'a set" where
  "enqueued ops = {x. Enq x \<in> set ops}"

lemma enqueued_simps [simp]:
  "enqueued [] = {}"
  "enqueued (Enq x # ops) = insert x (enqueued ops)"
  "enqueued (Deq # ops) = enqueued ops"
  by (auto simp: enqueued_def)

locale fifo_spec =
  fixes inv :: "'q \<Rightarrow> bool"
    and content :: "'q \<Rightarrow> 'a list"
    and ok :: "'a \<Rightarrow> bool"
    and enq :: "'a \<Rightarrow> 'q \<Rightarrow> 'q option"
    and deq :: "'q \<Rightarrow> ('a \<times> 'q) option"
  assumes enq_law: "inv q \<Longrightarrow> ok x \<Longrightarrow> enq x q = Some q' \<Longrightarrow> inv q' \<and> content q' = content q @ [x]"
    and deq_law: "inv q \<Longrightarrow> content q = x # xs \<Longrightarrow> \<exists>q'. deq q = Some (x, q') \<and> inv q' \<and> content q' = xs"
    and deq_empty: "inv q \<Longrightarrow> content q = [] \<Longrightarrow> deq q = None"
begin

lemma deq_cases:
  assumes "inv q"
  obtains (empty) "content q = []" "deq q = None"
  | (taken) x xs q' where "content q = x # xs" "deq q = Some (x, q')" "inv q'" "content q' = xs"
proof (cases "content q")
  case Nil
  show ?thesis by (rule empty [OF Nil deq_empty [OF assms Nil]])
next
  case (Cons x xs)
  from deq_law [OF assms Cons] obtain q' where "deq q = Some (x, q')" "inv q'" "content q' = xs"
    by blast
  then show ?thesis by (rule taken [OF Cons])
qed

text \<open>Whatever the interleaving, the delivered elements are the accepted ones, in their order.\<close>

lemma run_order:
  "inv q \<Longrightarrow> (\<And>x. x \<in> enqueued ops \<Longrightarrow> ok x) \<Longrightarrow> fifo_run enq deq ops q = (acc, out, r)
   \<Longrightarrow> inv r \<and> content q @ acc = out @ content r"
proof (induction ops arbitrary: q acc out r)
  case Nil
  then show ?case by simp
next
  case (Cons a ops)
  show ?case
  proof (cases a)
    case (Enq x)
    show ?thesis
    proof (cases "enq x q")
      case None
      with Cons Enq show ?thesis by simp
    next
      case (Some q')
      with Cons.prems Enq have q': "inv q'" "content q' = content q @ [x]"
        using enq_law [of q x q'] by auto
      from Cons.prems(3) Enq Some obtain acc' where
        "acc = x # acc'" "fifo_run enq deq ops q' = (acc', out, r)"
        by (auto split: prod.splits)
      with Cons.IH [OF q'(1), of acc' out r] q'(2) Cons.prems(2) Enq show ?thesis by simp
    qed
  next
    case Deq
    from Cons.prems(1) show ?thesis
    proof (cases rule: deq_cases)
      case empty
      with Cons.prems Deq Cons.IH [of q acc out r] show ?thesis by simp
    next
      case (taken x xs q')
      from Cons.prems(3) Deq taken obtain out' where
        "out = x # out'" "fifo_run enq deq ops q' = (acc, out', r)"
        by (auto split: prod.splits)
      with Cons.IH [OF taken(3), of acc out' r] taken Cons.prems(2) Deq show ?thesis by simp
    qed
  qed
qed

end

locale bounded_fifo_spec = fifo_spec +
  fixes cost :: "'a \<Rightarrow> nat" and capacity :: "'q \<Rightarrow> nat"
  assumes enq_room: "inv q \<Longrightarrow> ok x \<Longrightarrow>
      (\<exists>q'. enq x q = Some q') \<longleftrightarrow> sum_list (map cost (content q)) + cost x \<le> capacity q"
    and enq_capacity: "enq x q = Some q' \<Longrightarrow> capacity q' = capacity q"
    and deq_capacity: "deq q = Some (x, q') \<Longrightarrow> capacity q' = capacity q"
begin

lemma run_capacity: "fifo_run enq deq ops q = (acc, out, r) \<Longrightarrow> capacity r = capacity q"
proof (induction ops arbitrary: q acc out r)
  case Nil
  then show ?case by simp
next
  case (Cons a ops)
  show ?case
  proof (cases a)
    case (Enq x)
    with Cons show ?thesis
      by (auto split: option.splits prod.splits dest!: enq_capacity)
  next
    case Deq
    with Cons show ?thesis
      by (auto split: option.splits prod.splits dest!: deq_capacity)
  qed
qed

text \<open>A store within its capacity stays within it.\<close>

lemma enq_fits:
  assumes "inv q" "ok x" "enq x q = Some q'"
  shows "sum_list (map cost (content q')) \<le> capacity q'"
proof -
  from assms have "sum_list (map cost (content q)) + cost x \<le> capacity q"
    using enq_room by blast
  moreover from assms have "content q' = content q @ [x]" "capacity q' = capacity q"
    using enq_law enq_capacity by blast+
  ultimately show ?thesis by simp
qed

text \<open>An element that fits is accepted, and once it is, that many dequeues bring it out.\<close>

lemma fill_then_drain:
  assumes "inv q" "ok x" "sum_list (map cost (content q)) + cost x \<le> capacity q"
  shows "\<exists>r. fifo_run enq deq (Enq x # replicate (Suc (length (content q))) Deq) q
             = ([x], content q @ [x], r) \<and> content r = []"
proof -
  from assms obtain q' where q': "enq x q = Some q'"
    using enq_room by blast
  with assms have i: "inv q'" "content q' = content q @ [x]"
    using enq_law by blast+
  have drain: "\<exists>r. fifo_run enq deq (replicate (length (content s)) Deq) s = ([], content s, r)
      \<and> content r = []" if "inv s" for s
    using that
  proof (induction "length (content s)" arbitrary: s)
    case 0
    then show ?case by simp
  next
    case (Suc n)
    from Suc.prems show ?case
    proof (cases rule: deq_cases)
      case empty
      with Suc.hyps(2) show ?thesis by simp
    next
      case (taken y ys s')
      with Suc.hyps(1) [of s'] Suc.hyps(2) show ?thesis by auto
    qed
  qed
  from drain [OF i(1)] i(2) q' show ?thesis by auto
qed

end

end
