(* ===== verification/Fifo.thy ===== *)
theory Fifo imports Fifo_Spec begin

text \<open>
  lib_common/Fifo.c: the bounded queue the encoder and decoder threads exchange pointers through.
  A ring of \<open>zMaxElem\<close> slots (one more than the capacity), a counting semaphore for the elements, one
  for the free slots, and a mutex around the ring.

  First the operations as one thread runs them (a semaphore that is zero is a wait that times
  out); then any number of threads, each operation in the three atomic steps the semaphores and
  the mutex leave: wait, critical section, release.
\<close>

record 'a AL_TFifo =
  zMaxElem :: nat
  zTail :: nat
  zHead :: nat
  ElemBuffer :: "'a list"
  hCountSem :: nat
  hSpaceSem :: nat

text \<open>
  \<open>junk\<close> is the byte pattern the fresh buffer is filled with; the three flags say which of the
  allocation of the buffer, of the counting semaphore and of the space semaphore succeed.
  The size is that of a FIFO the code can allocate: \<open>zMax + 1\<close> is taken not to wrap \<open>size_t\<close>, which it
  would do for \<open>zMax = SIZE_MAX\<close> alone.
\<close>

definition AL_Fifo_Init :: "'a \<Rightarrow> bool \<Rightarrow> bool \<Rightarrow> bool \<Rightarrow> nat \<Rightarrow> 'a AL_TFifo option" where
  "AL_Fifo_Init junk malloc_ok count_ok space_ok zMax =
     (let zMaxElem' = zMax + 1 in
      if \<not> malloc_ok then None
      else if \<not> count_ok then None
      else if \<not> space_ok then None
      else Some \<lparr>zMaxElem = zMaxElem', zTail = 0, zHead = 0, ElemBuffer = replicate zMaxElem' junk,
                 hCountSem = 0, hSpaceSem = zMax\<rparr>)"

definition fifo_write :: "'a \<Rightarrow> 'a AL_TFifo \<Rightarrow> 'a AL_TFifo" where
  "fifo_write pElem f =
     f\<lparr>ElemBuffer := (ElemBuffer f)[zTail f := pElem], zTail := (zTail f + 1) mod zMaxElem f\<rparr>"

definition fifo_read :: "'a AL_TFifo \<Rightarrow> 'a \<times> 'a AL_TFifo" where
  "fifo_read f = (ElemBuffer f ! zHead f, f\<lparr>zHead := (zHead f + 1) mod zMaxElem f\<rparr>)"

definition AL_Fifo_Queue :: "'a \<Rightarrow> 'a AL_TFifo \<Rightarrow> 'a AL_TFifo option" where
  "AL_Fifo_Queue pElem f =
     (if hSpaceSem f = 0 then None
      else (let f1 = f\<lparr>hSpaceSem := hSpaceSem f - 1\<rparr>;
                f2 = fifo_write pElem f1
            in Some (f2\<lparr>hCountSem := hCountSem f2 + 1\<rparr>)))"

definition AL_Fifo_Dequeue :: "'a AL_TFifo \<Rightarrow> ('a \<times> 'a AL_TFifo) option" where
  "AL_Fifo_Dequeue f =
     (if hCountSem f = 0 then None
      else (let f1 = f\<lparr>hCountSem := hCountSem f - 1\<rparr>;
                (pElem, f2) = fifo_read f1
            in Some (pElem, f2\<lparr>hSpaceSem := hSpaceSem f2 + 1\<rparr>)))"

section \<open>The ring as a list\<close>

definition ring_ok :: "'a AL_TFifo \<Rightarrow> nat \<Rightarrow> bool" where
  "ring_ok f n \<longleftrightarrow> n < zMaxElem f \<and> length (ElemBuffer f) = zMaxElem f \<and> zHead f < zMaxElem f
     \<and> zTail f = (zHead f + n) mod zMaxElem f"

definition ring_content :: "'a AL_TFifo \<Rightarrow> nat \<Rightarrow> 'a list" where
  "ring_content f n = ring_list ((!) (ElemBuffer f)) (zMaxElem f) (zHead f) n"

lemma fifo_write_ring:
  assumes "ring_ok f n" "Suc n < zMaxElem f"
  shows "ring_ok (fifo_write x f) (Suc n)"
    and "ring_content (fifo_write x f) (Suc n) = ring_content f n @ [x]"
proof -
  have t: "zTail f < length (ElemBuffer f)"
    using assms by (simp add: ring_ok_def)
  show "ring_ok (fifo_write x f) (Suc n)"
    using assms by (auto simp: ring_ok_def fifo_write_def mod_Suc_eq)
  show "ring_content (fifo_write x f) (Suc n) = ring_content f n @ [x]"
    using assms t
    by (simp add: ring_content_def fifo_write_def nth_list_update_fun ring_list_put ring_ok_def)
qed

lemma fifo_read_ring:
  assumes "ring_ok f (Suc n)"
  shows "ring_ok (snd (fifo_read f)) n"
    and "ring_content f (Suc n) = fst (fifo_read f) # ring_content (snd (fifo_read f)) n"
  using assms
  by (auto simp: ring_ok_def fifo_read_def ring_content_def ring_list_take mod_simps)

lemma ring_frame [simp]:
  "ring_ok (f\<lparr>hSpaceSem := s\<rparr>) n = ring_ok f n" "ring_ok (f\<lparr>hCountSem := c\<rparr>) n = ring_ok f n"
  "ring_content (f\<lparr>hSpaceSem := s\<rparr>) n = ring_content f n"
  "ring_content (f\<lparr>hCountSem := c\<rparr>) n = ring_content f n"
  by (simp_all add: ring_ok_def ring_content_def)

lemma fifo_write_frame [simp]:
  "hCountSem (fifo_write x f) = hCountSem f" "hSpaceSem (fifo_write x f) = hSpaceSem f"
  "zMaxElem (fifo_write x f) = zMaxElem f"
  by (simp_all add: fifo_write_def)

lemma fifo_read_frame [simp]:
  "hCountSem (snd (fifo_read f)) = hCountSem f" "hSpaceSem (snd (fifo_read f)) = hSpaceSem f"
  "zMaxElem (snd (fifo_read f)) = zMaxElem f"
  by (simp_all add: fifo_read_def)

text \<open>At rest the two semaphores count the ring exactly.\<close>

definition fifo_inv :: "'a AL_TFifo \<Rightarrow> bool" where
  "fifo_inv f \<longleftrightarrow> ring_ok f (hCountSem f) \<and> hCountSem f + hSpaceSem f + 1 = zMaxElem f"

definition fifo_content :: "'a AL_TFifo \<Rightarrow> 'a list" where
  "fifo_content f = ring_content f (hCountSem f)"

lemma fifo_content_length [simp]: "length (fifo_content f) = hCountSem f"
  by (simp add: fifo_content_def ring_content_def)

lemma fifo_Init_inv:
  "AL_Fifo_Init junk a b c zMax = Some f \<Longrightarrow> fifo_inv f \<and> fifo_content f = [] \<and> zMaxElem f = zMax + 1"
  by (auto simp: AL_Fifo_Init_def fifo_inv_def ring_ok_def fifo_content_def ring_content_def
      split: if_splits)

lemma Queue_law:
  assumes "fifo_inv f" "AL_Fifo_Queue x f = Some f'"
  shows "fifo_inv f' \<and> fifo_content f' = fifo_content f @ [x]"
proof -
  let ?f1 = "f\<lparr>hSpaceSem := hSpaceSem f - 1\<rparr>"
  from assms have s: "0 < hSpaceSem f" and f': "f' = (fifo_write x ?f1)\<lparr>hCountSem := hCountSem f + 1\<rparr>"
    by (auto simp: AL_Fifo_Queue_def Let_def split: if_splits)
  have "ring_ok ?f1 (hCountSem f)" "Suc (hCountSem f) < zMaxElem ?f1"
    using assms(1) s by (auto simp: fifo_inv_def)
  from fifo_write_ring [OF this, of x] assms(1) s show ?thesis
    by (simp add: f' fifo_inv_def fifo_content_def)
qed

lemma Dequeue_law:
  assumes "fifo_inv f" "fifo_content f = x # xs"
  shows "\<exists>f'. AL_Fifo_Dequeue f = Some (x, f') \<and> fifo_inv f' \<and> fifo_content f' = xs"
proof -
  from assms(2) fifo_content_length [of f] obtain n where n: "hCountSem f = Suc n"
    by (cases "hCountSem f") auto
  let ?f1 = "f\<lparr>hCountSem := n\<rparr>"
  have "ring_ok ?f1 (Suc n)" using assms(1) n by (simp add: fifo_inv_def)
  from fifo_read_ring [OF this] assms n show ?thesis
    by (simp add: AL_Fifo_Dequeue_def Let_def fifo_inv_def fifo_content_def case_prod_beta)
qed

lemma Dequeue_empty: "fifo_inv f \<Longrightarrow> fifo_content f = [] \<Longrightarrow> AL_Fifo_Dequeue f = None"
  using fifo_content_length [of f] by (simp add: AL_Fifo_Dequeue_def)

interpretation al_fifo: bounded_fifo_spec fifo_inv fifo_content "\<lambda>_. True" AL_Fifo_Queue AL_Fifo_Dequeue
  "\<lambda>_. 1" "\<lambda>f. zMaxElem f - 1"
proof
  show "fifo_inv q \<Longrightarrow> True \<Longrightarrow>
      (\<exists>q'. AL_Fifo_Queue x q = Some q') = (sum_list (map (\<lambda>_. 1) (fifo_content q)) + 1 \<le> zMaxElem q - 1)"
    for q :: "'a AL_TFifo" and x
    by (auto simp: sum_list_triv AL_Fifo_Queue_def Let_def fifo_inv_def)
qed (auto simp: AL_Fifo_Queue_def AL_Fifo_Dequeue_def Let_def fifo_read_def fifo_write_def
    dest: Queue_law Dequeue_law Dequeue_empty split: if_splits)

section \<open>Concurrent producers and consumers\<close>

text \<open>
  A thread is between operations, or in one of the two places inside each operation where another
  thread may run: after its wait on the semaphore, and after the critical section.
\<close>

datatype 'a fifo_pc = FIdle | QHasSpace 'a | QWritten | DHasCount | DRead 'a

record 'a fifo_sys =
  fifo :: "'a AL_TFifo"
  pcs :: "'a fifo_pc list"
  sent :: "'a list"
  recv :: "'a list"

text \<open>\<open>sent\<close> and \<open>recv\<close> record the elements in the order the critical sections write and read them.\<close>

inductive fifo_step :: "'a fifo_sys \<Rightarrow> 'a fifo_sys \<Rightarrow> bool" where
  queue_wait: "i < length (pcs s) \<Longrightarrow> pcs s ! i = FIdle \<Longrightarrow> 0 < hSpaceSem (fifo s) \<Longrightarrow>
     fifo_step s (s\<lparr>fifo := (fifo s)\<lparr>hSpaceSem := hSpaceSem (fifo s) - 1\<rparr>,
                    pcs := (pcs s)[i := QHasSpace x]\<rparr>)"
| queue_write: "i < length (pcs s) \<Longrightarrow> pcs s ! i = QHasSpace x \<Longrightarrow>
     fifo_step s (s\<lparr>fifo := fifo_write x (fifo s), pcs := (pcs s)[i := QWritten],
                    sent := sent s @ [x]\<rparr>)"
| queue_signal: "i < length (pcs s) \<Longrightarrow> pcs s ! i = QWritten \<Longrightarrow>
     fifo_step s (s\<lparr>fifo := (fifo s)\<lparr>hCountSem := hCountSem (fifo s) + 1\<rparr>,
                    pcs := (pcs s)[i := FIdle]\<rparr>)"
| dequeue_wait: "i < length (pcs s) \<Longrightarrow> pcs s ! i = FIdle \<Longrightarrow> 0 < hCountSem (fifo s) \<Longrightarrow>
     fifo_step s (s\<lparr>fifo := (fifo s)\<lparr>hCountSem := hCountSem (fifo s) - 1\<rparr>,
                    pcs := (pcs s)[i := DHasCount]\<rparr>)"
| dequeue_read: "i < length (pcs s) \<Longrightarrow> pcs s ! i = DHasCount \<Longrightarrow> fifo_read (fifo s) = (x, f') \<Longrightarrow>
     fifo_step s (s\<lparr>fifo := f', pcs := (pcs s)[i := DRead x], recv := recv s @ [x]\<rparr>)"
| dequeue_signal: "i < length (pcs s) \<Longrightarrow> pcs s ! i = DRead x \<Longrightarrow>
     fifo_step s (s\<lparr>fifo := (fifo s)\<lparr>hSpaceSem := hSpaceSem (fifo s) + 1\<rparr>,
                    pcs := (pcs s)[i := FIdle]\<rparr>)"

definition fifo_start :: "'a AL_TFifo \<Rightarrow> nat \<Rightarrow> 'a fifo_sys" where
  "fifo_start f n = \<lparr>fifo = f, pcs = replicate n FIdle, sent = [], recv = []\<rparr>"

inductive fifo_reach :: "'a fifo_sys \<Rightarrow> 'a fifo_sys \<Rightarrow> bool" for s0 where
  start: "fifo_reach s0 s0"
| step: "fifo_reach s0 s \<Longrightarrow> fifo_step s t \<Longrightarrow> fifo_reach s0 t"

fun has_space :: "'a fifo_pc \<Rightarrow> bool" where
  "has_space (QHasSpace x) = True" | "has_space _ = False"

fun has_read :: "'a fifo_pc \<Rightarrow> bool" where
  "has_read (DRead x) = True" | "has_read _ = False"

fun is_written :: "'a fifo_pc \<Rightarrow> bool" where
  "is_written QWritten = True" | "is_written _ = False"

fun has_count :: "'a fifo_pc \<Rightarrow> bool" where
  "has_count DHasCount = True" | "has_count _ = False"

text \<open>
  The elements in the ring are those the counting semaphore announces, those written but not yet
  announced, and those a consumer has claimed but not yet read; together with the free and the
  reserved slots they make up the capacity.
\<close>

definition live :: "'a fifo_sys \<Rightarrow> nat" where
  "live s = hCountSem (fifo s) + count_pc is_written (pcs s) + count_pc has_count (pcs s)"

definition fifo_sys_inv :: "'a fifo_sys \<Rightarrow> bool" where
  "fifo_sys_inv s \<longleftrightarrow>
     ring_ok (fifo s) (live s)
     \<and> live s + hSpaceSem (fifo s) + count_pc has_space (pcs s) + count_pc has_read (pcs s) + 1
         = zMaxElem (fifo s)
     \<and> sent s = recv s @ ring_content (fifo s) (live s)"

lemma fifo_start_inv: "fifo_inv f \<Longrightarrow> fifo_content f = [] \<Longrightarrow> fifo_sys_inv (fifo_start f n)"
  using fifo_content_length [of f]
  by (simp add: fifo_sys_inv_def fifo_start_def live_def fifo_inv_def fifo_content_def)

lemma count_pc_step:
  "i < length ps \<Longrightarrow> ps ! i = p \<Longrightarrow>
   count_pc P (ps[i := q]) + (if P p then 1 else 0) = count_pc P ps + (if P q then 1 else 0)"
  using count_pc_update [of i ps P q] by simp

lemmas pc_counts =
  count_pc_step [where P = has_space] count_pc_step [where P = has_read]
  count_pc_step [where P = is_written] count_pc_step [where P = has_count]

text \<open>A step that only moves a count between the semaphores and the program points.\<close>

lemma fifo_inv_frame:
  assumes "fifo_sys_inv s"
    and "live t = live s" "zMaxElem (fifo t) = zMaxElem (fifo s)"
    and "ring_ok (fifo t) (live s) = ring_ok (fifo s) (live s)"
    and "ring_content (fifo t) (live s) = ring_content (fifo s) (live s)"
    and "sent t = sent s" "recv t = recv s"
    and "hSpaceSem (fifo t) + count_pc has_space (pcs t) + count_pc has_read (pcs t)
         = hSpaceSem (fifo s) + count_pc has_space (pcs s) + count_pc has_read (pcs s)"
  shows "fifo_sys_inv t"
  using assms by (simp add: fifo_sys_inv_def)

lemma fifo_step_inv: "fifo_step s t \<Longrightarrow> fifo_sys_inv s \<Longrightarrow> fifo_sys_inv t"
proof (induction rule: fifo_step.induct)
  case (queue_wait i s x)
  note c = pc_counts [OF queue_wait(1,2), of "QHasSpace x"]
  show ?case
    by (rule fifo_inv_frame [OF queue_wait(4)]) (use queue_wait(3) c in \<open>auto simp: live_def\<close>)
next
  case (queue_write i s x)
  note c = pc_counts [OF queue_write(1,2), of QWritten]
  let ?t = "s\<lparr>fifo := fifo_write x (fifo s), pcs := (pcs s)[i := QWritten], sent := sent s @ [x]\<rparr>"
  have l: "live ?t = Suc (live s)" using c by (simp add: live_def)
  have "0 < count_pc has_space (pcs s)"
    using queue_write by (intro count_pc_pos [of i]) auto
  then have "Suc (live s) < zMaxElem (fifo s)" "ring_ok (fifo s) (live s)"
    using queue_write(3) by (auto simp: fifo_sys_inv_def)
  note w = fifo_write_ring [OF this(2,1), of x]
  have "count_pc has_space (pcs s) = Suc (count_pc has_space (pcs ?t))"
    "count_pc has_read (pcs ?t) = count_pc has_read (pcs s)"
    using c(1,2) by simp_all
  with w queue_write(3) show ?case
    unfolding fifo_sys_inv_def l by simp
next
  case (queue_signal i s)
  note c = pc_counts [OF queue_signal(1,2), of FIdle]
  show ?case
    by (rule fifo_inv_frame [OF queue_signal(3)]) (use c in \<open>auto simp: live_def\<close>)
next
  case (dequeue_wait i s)
  note c = pc_counts [OF dequeue_wait(1,2), of DHasCount]
  show ?case
    by (rule fifo_inv_frame [OF dequeue_wait(4)]) (use dequeue_wait(3) c in \<open>auto simp: live_def\<close>)
next
  case (dequeue_read i s x f')
  note c = pc_counts [OF dequeue_read(1,2), of "DRead x"]
  let ?t = "s\<lparr>fifo := f', pcs := (pcs s)[i := DRead x], recv := recv s @ [x]\<rparr>"
  have f': "x = fst (fifo_read (fifo s))" "f' = snd (fifo_read (fifo s))"
    using dequeue_read(3) by auto
  have "0 < count_pc has_count (pcs s)"
    using dequeue_read by (intro count_pc_pos [of i]) auto
  then have l: "live s = Suc (live ?t)" using c f' by (simp add: live_def)
  have "ring_ok (fifo s) (Suc (live ?t))"
    using dequeue_read(4) unfolding fifo_sys_inv_def l by simp
  note r = fifo_read_ring [OF this]
  have "count_pc has_space (pcs ?t) = count_pc has_space (pcs s)"
    "count_pc has_read (pcs ?t) = Suc (count_pc has_read (pcs s))"
    using c(1,2) by simp_all
  with r dequeue_read(4) f' show ?case
    unfolding fifo_sys_inv_def l by simp
next
  case (dequeue_signal i s x)
  note c = pc_counts [OF dequeue_signal(1,2), of FIdle]
  show ?case
    by (rule fifo_inv_frame [OF dequeue_signal(3)]) (use c in \<open>auto simp: live_def\<close>)
qed

lemma fifo_reach_inv: "fifo_reach s0 s \<Longrightarrow> fifo_sys_inv s0 \<Longrightarrow> fifo_sys_inv s"
  by (induction rule: fifo_reach.induct) (auto intro: fifo_step_inv)

lemma fifo_reach_size: "fifo_reach s0 s \<Longrightarrow> zMaxElem (fifo s) = zMaxElem (fifo s0)"
proof (induction rule: fifo_reach.induct)
  case (step s t)
  from step(2) have "zMaxElem (fifo t) = zMaxElem (fifo s)"
    by cases (auto simp: fifo_read_def)
  with step show ?case by simp
qed simp

section \<open>Properties\<close>

text \<open>C8: Any number of threads on one FIFO, in any interleaving of the semaphore waits, the
  critical sections and the releases: what the consumers read is, in order, a prefix of what the
  producers wrote; what is in between sits in the ring, and never more than the capacity.\<close>

theorem fifo_concurrent_order:
  assumes "AL_Fifo_Init junk True True True zMax = Some f" "fifo_reach (fifo_start f n) s"
  shows "sent s = recv s @ ring_content (fifo s) (live s)
    \<and> length (sent s) \<le> length (recv s) + zMax"
proof -
  from fifo_Init_inv [OF assms(1)] have "fifo_sys_inv (fifo_start f n)" and z: "zMaxElem f = zMax + 1"
    by (auto intro: fifo_start_inv)
  with fifo_reach_inv [OF assms(2)] have i: "fifo_sys_inv s" by blast
  have "zMaxElem (fifo s) = zMax + 1"
    using fifo_reach_size [OF assms(2)] z by (simp add: fifo_start_def)
  with i show ?thesis by (auto simp: fifo_sys_inv_def ring_content_def)
qed

lemma fifo_concurrent_order_witness:
  "\<exists>f s. AL_Fifo_Init (0::nat) True True True 3 = Some f \<and> fifo_reach (fifo_start f 2) s
     \<and> sent s = [7] \<and> sent s = recv s @ ring_content (fifo s) (live s)"
proof -
  obtain f where f: "AL_Fifo_Init (0::nat) True True True 3 = Some f" and sp: "hSpaceSem f = 3"
    by (simp add: AL_Fifo_Init_def)
  let ?s = "fifo_start f 2"
  have st: "fifo_step ?s (?s\<lparr>fifo := (fifo ?s)\<lparr>hSpaceSem := hSpaceSem (fifo ?s) - 1\<rparr>,
      pcs := (pcs ?s)[0 := QHasSpace 7]\<rparr>)" (is "fifo_step _ ?t")
    by (rule queue_wait) (simp_all add: fifo_start_def sp)
  have tu: "fifo_step ?t (?t\<lparr>fifo := fifo_write 7 (fifo ?t), pcs := (pcs ?t)[0 := QWritten],
      sent := sent ?t @ [7]\<rparr>)" (is "fifo_step _ ?u")
    by (rule queue_write) (simp_all add: fifo_start_def)
  have r: "fifo_reach ?s ?u" by (rule fifo_reach.step [OF fifo_reach.step [OF fifo_reach.start st] tu])
  have "sent ?u = [7]" by (simp add: fifo_start_def)
  with fifo_concurrent_order [OF f r] f r show ?thesis by blast
qed

text \<open>C19: The FIFO is bounded and drains completely: from any state at rest, an element is
  accepted exactly while the content is below the capacity, and after it that many dequeues bring
  out the old content and then the element.\<close>

theorem fifo_fill_drain:
  assumes "fifo_inv f"
  shows "if length (fifo_content f) < zMaxElem f - 1
    then \<exists>r. fifo_run AL_Fifo_Queue AL_Fifo_Dequeue
           (Enq x # replicate (Suc (length (fifo_content f))) Deq) f = ([x], fifo_content f @ [x], r)
         \<and> fifo_content r = []
    else AL_Fifo_Queue x f = None"
  using al_fifo.fill_then_drain [OF assms, of x] al_fifo.enq_room [OF assms, of x]
  by (auto simp: sum_list_triv)

lemma fifo_fill_drain_witness:
  "AL_Fifo_Queue (1::nat) \<lparr>zMaxElem = 2, zTail = 1, zHead = 0, ElemBuffer = [5, 6], hCountSem = 1, hSpaceSem = 0\<rparr> = None"
  using fifo_fill_drain [of "\<lparr>zMaxElem = 2, zTail = 1, zHead = 0, ElemBuffer = [5, 6], hCountSem = 1, hSpaceSem = 0\<rparr>" "1::nat"]
  by (simp add: fifo_inv_def ring_ok_def)

end
