(* ===== verification/Mail.thy ===== *)
theory Mail imports Prelude begin

unbundle bit_operations_syntax

text \<open>
  vcu-modules/common/al_mail.c and al_codec_mails.c: the messages exchanged with the
  microcontroller (MCU).  A mail is one allocated block: a header structure and, right behind it,
  the body.  The model keeps the body's bytes in the mail; \<open>kmalloc\<close> is a parameter that gives
  either no block or a block of unspecified bytes.
\<close>

definition ENOMEM :: int where "ENOMEM = 12"
definition EAGAIN :: int where "EAGAIN = 11"
definition EINVAL :: int where "EINVAL = 22"
definition EINTR :: int where "EINTR = 4"
definition EPERM :: int where "EPERM = 1"

record al5_mail =
  body_offset :: u32
  msg_uid :: u16
  body_size :: u16
  body :: "u8 list"

type_synonym kmalloc = "nat \<Rightarrow> u8 list option"

text \<open>The contract of the kernel allocator: a block it gives has the size asked for.\<close>

definition kmalloc_ok :: "kmalloc \<Rightarrow> bool" where
  "kmalloc_ok km \<longleftrightarrow> (\<forall>n blk. km n = Some blk \<longrightarrow> length blk = n)"

section \<open>al_mail.c\<close>

text \<open>On the 64-bit target the structure has a 4-byte, two 2-byte and one 8-byte member.\<close>

definition get_mail_struct_size :: nat where
  "get_mail_struct_size = (16 + 3) div 4 * 4"

definition al5_get_mail_alloc_size :: "u32 \<Rightarrow> nat" where
  "al5_get_mail_alloc_size content_size = get_mail_struct_size + unat content_size"

definition al5_mail_init :: "u8 list \<Rightarrow> u32 \<Rightarrow> u32 \<Rightarrow> al5_mail" where
  "al5_mail_init blk uid content_size =
     \<lparr>body_offset = 0, msg_uid = ucast uid, body_size = ucast content_size,
      body = drop get_mail_struct_size blk\<rparr>"

definition al5_mail_create :: "kmalloc \<Rightarrow> u32 \<Rightarrow> u32 \<Rightarrow> al5_mail option" where
  "al5_mail_create km uid content_size =
     (case km (al5_get_mail_alloc_size content_size) of
        None \<Rightarrow> None
      | Some blk \<Rightarrow> Some (al5_mail_init blk uid content_size))"

text \<open>\<open>memcpy\<close> into the body; past the end of the block it has no defined result.\<close>

definition al5_mail_write :: "al5_mail \<Rightarrow> u8 list \<Rightarrow> al5_mail option" where
  "al5_mail_write mail content =
     (let off = unat (body_offset mail); n = length content in
      if off + n \<le> length (body mail)
      then Some (mail\<lparr>body := take off (body mail) @ content @ drop (off + n) (body mail),
                      body_offset := body_offset mail + of_nat n\<rparr>)
      else None)"

definition word_bytes :: "u32 \<Rightarrow> u8 list" where
  "word_bytes w = [ucast w, ucast (drop_bit 8 w), ucast (drop_bit 16 w), ucast (drop_bit 24 w)]"

definition bytes_word :: "u8 list \<Rightarrow> u32" where
  "bytes_word bs = ucast (bs ! 0) OR push_bit 8 (ucast (bs ! 1)) OR push_bit 16 (ucast (bs ! 2))
     OR push_bit 24 (ucast (bs ! 3))"

definition al5_mail_write_word :: "al5_mail \<Rightarrow> u32 \<Rightarrow> al5_mail option" where
  "al5_mail_write_word mail w = al5_mail_write mail (word_bytes w)"

definition al5_mail_get_uid :: "al5_mail \<Rightarrow> u32" where
  "al5_mail_get_uid mail = ucast (msg_uid mail)"

definition al5_mail_get_size :: "al5_mail \<Rightarrow> u32" where
  "al5_mail_get_size mail = ucast (body_size mail)"

definition al5_mail_get_body :: "al5_mail \<Rightarrow> u8 list" where
  "al5_mail_get_body mail = body mail"

definition al5_mail_get_word :: "al5_mail \<Rightarrow> nat \<Rightarrow> u32 option" where
  "al5_mail_get_word mail word_offset =
     (if 4 * word_offset + 4 \<le> length (body mail)
      then Some (bytes_word (take 4 (drop (4 * word_offset) (body mail)))) else None)"

text \<open>The copy is written through without a test of the allocation: a failed one is dereferenced.\<close>

definition al5_mail_create_copy :: "kmalloc \<Rightarrow> al5_mail \<Rightarrow> al5_mail option" where
  "al5_mail_create_copy km mail =
     do { copy \<leftarrow> al5_mail_create km (ucast (msg_uid mail)) (ucast (body_size mail));
          al5_mail_write copy (take (unat (body_size mail)) (body mail)) }"

section \<open>al_codec_mails.c\<close>

text \<open>The message identifiers, in the order of the C enumeration.\<close>

definition AL_MCU_MSG_INIT :: u32 where "AL_MCU_MSG_INIT = 0"
definition AL_MCU_MSG_CREATE_CHANNEL :: u32 where "AL_MCU_MSG_CREATE_CHANNEL = 5"
definition AL_MCU_MSG_DESTROY_CHANNEL :: u32 where "AL_MCU_MSG_DESTROY_CHANNEL = 6"
definition AL_MCU_MSG_ENCODE_ONE_FRM :: u32 where "AL_MCU_MSG_ENCODE_ONE_FRM = 7"
definition AL_MCU_MSG_DECODE_ONE_FRM :: u32 where "AL_MCU_MSG_DECODE_ONE_FRM = 8"
definition AL_MCU_MSG_SEARCH_START_CODE :: u32 where "AL_MCU_MSG_SEARCH_START_CODE = 9"
definition AL_MCU_MSG_QUIET_DESTROY_CHANNEL :: u32 where "AL_MCU_MSG_QUIET_DESTROY_CHANNEL = 10"
definition AL_MCU_MSG_GET_RECONSTRUCTED_PICTURE :: u32 where
  "AL_MCU_MSG_GET_RECONSTRUCTED_PICTURE = 16"
definition AL_MCU_MSG_RELEASE_RECONSTRUCTED_PICTURE :: u32 where
  "AL_MCU_MSG_RELEASE_RECONSTRUCTED_PICTURE = 17"
definition AL_MCU_MSG_TRACE :: u32 where "AL_MCU_MSG_TRACE = 19"

lemmas msg_uids = AL_MCU_MSG_INIT_def AL_MCU_MSG_CREATE_CHANNEL_def AL_MCU_MSG_DESTROY_CHANNEL_def
  AL_MCU_MSG_ENCODE_ONE_FRM_def AL_MCU_MSG_DECODE_ONE_FRM_def AL_MCU_MSG_SEARCH_START_CODE_def
  AL_MCU_MSG_QUIET_DESTROY_CHANNEL_def AL_MCU_MSG_GET_RECONSTRUCTED_PICTURE_def
  AL_MCU_MSG_RELEASE_RECONSTRUCTED_PICTURE_def AL_MCU_MSG_TRACE_def

record mcu_init_msg =
  addr :: u32
  init_size :: u32
  l2_size_in_bits :: u32
  l2_color_bitdepth :: u32
  num_cores :: u32
  core_frequency :: u32
  plugin_enabled :: u32

definition init_msg_bytes :: "mcu_init_msg \<Rightarrow> u8 list" where
  "init_msg_bytes m = concat (map word_bytes [addr m, init_size m, l2_size_in_bits m,
     l2_color_bitdepth m, num_cores m, core_frequency m, plugin_enabled m])"

text \<open>The inner option is the returned pointer.\<close>

definition create_init_msg :: "kmalloc \<Rightarrow> u32 \<Rightarrow> mcu_init_msg \<Rightarrow> al5_mail option option" where
  "create_init_msg km chan_uid msg =
     (case al5_mail_create km AL_MCU_MSG_INIT (4 + 28) of
        None \<Rightarrow> Some None
      | Some mail \<Rightarrow> do { mail1 \<leftarrow> al5_mail_write_word mail chan_uid;
                          mail2 \<leftarrow> al5_mail_write mail1 (init_msg_bytes msg);
                          Some (Some mail2) })"

definition al5_create_empty_mail :: "kmalloc \<Rightarrow> u32 \<Rightarrow> u32 \<Rightarrow> al5_mail option option" where
  "al5_create_empty_mail km sender_uid uid =
     (case al5_mail_create km uid 4 of
        None \<Rightarrow> None
      | Some mail \<Rightarrow> do { mail1 \<leftarrow> al5_mail_write_word mail sender_uid; Some (Some mail1) })"

definition create_destroy_channel_msg :: "kmalloc \<Rightarrow> u32 \<Rightarrow> al5_mail option option" where
  "create_destroy_channel_msg km chan_uid = al5_create_empty_mail km chan_uid AL_MCU_MSG_DESTROY_CHANNEL"

definition create_quiet_destroy_channel_msg :: "kmalloc \<Rightarrow> u32 \<Rightarrow> al5_mail option option" where
  "create_quiet_destroy_channel_msg km chan_uid =
     al5_create_empty_mail km chan_uid AL_MCU_MSG_QUIET_DESTROY_CHANNEL"

definition al5_create_classic_mail :: "kmalloc \<Rightarrow> u32 \<Rightarrow> u32 \<Rightarrow> u8 list \<Rightarrow> al5_mail option option" where
  "al5_create_classic_mail km sender_uid uid msg =
     (case al5_mail_create km uid (4 + of_nat (length msg)) of
        None \<Rightarrow> Some None
      | Some mail \<Rightarrow> do { mail1 \<leftarrow> al5_mail_write_word mail sender_uid;
                          mail2 \<leftarrow> al5_mail_write mail1 msg;
                          Some (Some mail2) })"

definition al5_mail_get_chan_uid :: "al5_mail \<Rightarrow> u32 option" where
  "al5_mail_get_chan_uid mail =
     (let mail_uid = al5_mail_get_uid mail in
      if mail_uid = AL_MCU_MSG_INIT \<or> mail_uid = AL_MCU_MSG_SEARCH_START_CODE \<or> mail_uid = AL_MCU_MSG_TRACE
      then Some (- 1) else al5_mail_get_word mail 0)"

section \<open>Lemmas\<close>

text \<open>The bytes a reader of the mail sees.\<close>

definition payload :: "al5_mail \<Rightarrow> u8 list" where
  "payload mail = take (unat (body_size mail)) (body mail)"

definition mail_ok :: "al5_mail \<Rightarrow> bool" where
  "mail_ok mail \<longleftrightarrow> unat (body_size mail) \<le> length (body mail)"

lemma payload_length [simp]: "mail_ok m \<Longrightarrow> length (payload m) = unat (body_size m)"
  by (simp add: payload_def mail_ok_def)

lemma unat_u16_up [simp]: "unat (ucast (w :: u16) :: u32) = unat w"
  using unsigned_less [of w, where 'a = nat] by (simp add: unsigned_ucast_eq unsigned_take_bit_eq take_bit_eq_mod)

lemma ucast_u16_up [simp]: "ucast (ucast (w :: u16) :: u32) = w"
  by (rule bit_word_eqI) (auto simp: bit_simps)

lemma word_bytes_length [simp]: "length (word_bytes w) = 4"
  by (simp add: word_bytes_def)

lemma init_msg_bytes_length [simp]: "length (init_msg_bytes m) = 28"
  by (simp add: init_msg_bytes_def)

lemma bytes_word_bytes [simp]: "bytes_word (word_bytes w) = w"
proof (rule bit_word_eqI)
  fix n assume "n < LENGTH(32)"
  then consider "n < 8" | "8 \<le> n" "n < 16" | "16 \<le> n" "n < 24" | "24 \<le> n" "n < 32"
    by fastforce
  then show "bit (bytes_word (word_bytes w)) n = bit w n"
    by cases (auto simp: bytes_word_def word_bytes_def bit_simps)
qed

lemma mask_0xFF: "(255 :: u16) = mask 8"
  by (simp add: mask_eq_exp_minus_1)

lemma mail_create_fields:
  assumes "kmalloc_ok km" "al5_mail_create km uid n = Some m"
  shows "body_offset m = 0" "msg_uid m = ucast uid" "body_size m = ucast n"
    "length (body m) = unat n"
  using assms
  by (auto simp: al5_mail_create_def al5_mail_init_def al5_get_mail_alloc_size_def kmalloc_ok_def
      split: option.splits)

lemma mail_write_some:
  assumes "unat (body_offset m) + length c \<le> length (body m)"
  shows "al5_mail_write m c = Some (m\<lparr>body := take (unat (body_offset m)) (body m) @ c
     @ drop (unat (body_offset m) + length c) (body m), body_offset := body_offset m + of_nat (length c)\<rparr>)"
  using assms by (simp add: al5_mail_write_def Let_def)

lemma mail_write_word_first:
  assumes "body_offset m = 0" "4 \<le> length (body m)"
  shows "al5_mail_write_word m w =
    Some (m\<lparr>body := word_bytes w @ drop 4 (body m), body_offset := 4\<rparr>)"
  using assms by (simp add: al5_mail_write_word_def al5_mail_write_def)

lemma get_word_0 [simp]: "body m = word_bytes w @ rest \<Longrightarrow> al5_mail_get_word m 0 = Some w"
  by (simp add: al5_mail_get_word_def)

text \<open>A mail built by the classic constructor carries its sender and then the message.\<close>

lemma classic_mail_payload:
  assumes "kmalloc_ok km" "length msg + 4 < 65536"
    and "al5_create_classic_mail km sender uid msg = Some (Some m)"
  shows "payload m = word_bytes sender @ msg" "msg_uid m = ucast uid" "mail_ok m"
proof -
  let ?n = "4 + of_nat (length msg) :: u32"
  have "unat (of_nat (length msg) :: u32) = length msg"
    using assms(2) by (simp add: unat_of_nat take_bit_eq_mod)
  then have n: "unat ?n = length msg + 4"
    using assms(2) by (simp add: unat_word_ariths)
  have ns: "unat (ucast ?n :: u16) = length msg + 4"
    using n assms(2) by (simp add: unsigned_ucast_eq unsigned_take_bit_eq take_bit_eq_mod)
  obtain m0 where m0: "al5_mail_create km uid ?n = Some m0"
    using assms(3) by (auto simp: al5_create_classic_mail_def split: option.splits)
  note f = mail_create_fields [OF assms(1) m0]
  let ?m1 = "m0\<lparr>body := word_bytes sender @ drop 4 (body m0), body_offset := 4\<rparr>"
  have "al5_mail_write ?m1 msg = Some m"
    using assms(3) m0 f n
    by (simp add: al5_create_classic_mail_def mail_write_word_first split: bind_split_asm)
  then have "m = ?m1\<lparr>body := word_bytes sender @ msg, body_offset := 4 + of_nat (length msg)\<rparr>"
    using f n by (simp add: al5_mail_write_def Let_def)
  with f ns show "payload m = word_bytes sender @ msg" "msg_uid m = ucast uid" "mail_ok m"
    by (simp_all add: payload_def mail_ok_def)
qed

lemma classic_mail_created:
  assumes "kmalloc_ok km" "length msg + 4 < 65536" "km (16 + (4 + length msg)) = Some blk"
  shows "\<exists>m. al5_create_classic_mail km sender uid msg = Some (Some m)"
proof -
  let ?n = "4 + of_nat (length msg) :: u32"
  have "unat (of_nat (length msg) :: u32) = length msg"
    using assms(2) by (simp add: unat_of_nat take_bit_eq_mod)
  then have n: "unat ?n = 4 + length msg"
    using assms(2) by (simp add: unat_word_ariths)
  then have "al5_mail_create km uid ?n = Some (al5_mail_init blk uid ?n)"
    using assms(3) by (simp add: al5_mail_create_def al5_get_mail_alloc_size_def get_mail_struct_size_def)
  moreover have "length (drop 16 blk) = 4 + length msg"
    using assms(1,3) by (auto simp: kmalloc_ok_def)
  ultimately show ?thesis
    by (simp add: al5_create_classic_mail_def al5_mail_init_def mail_write_word_first
        get_mail_struct_size_def al5_mail_write_def Let_def)
qed

lemma empty_mail_null: "km 20 = None \<Longrightarrow> al5_create_empty_mail km chan uid = None"
  by (simp add: al5_create_empty_mail_def al5_mail_create_def al5_get_mail_alloc_size_def
      get_mail_struct_size_def)

lemma empty_mail_some:
  assumes "kmalloc_ok km" "km 20 = Some blk"
  shows "\<exists>m. al5_create_empty_mail km chan uid = Some (Some m) \<and> payload m = word_bytes chan
    \<and> msg_uid m = ucast uid \<and> body_size m = 4 \<and> mail_ok m"
proof -
  have "length (drop 16 blk) = 4" using assms by (auto simp: kmalloc_ok_def)
  then show ?thesis
    using assms(2)
    by (simp add: al5_create_empty_mail_def al5_mail_create_def al5_get_mail_alloc_size_def
        get_mail_struct_size_def al5_mail_init_def mail_write_word_first payload_def mail_ok_def)
qed

end
