(* ===== verification/MailQueue.thy ===== *)
theory MailQueue imports Mail Fifo_Spec begin

text \<open>
  vcu-modules/common/al_list.c and al_queue.c: the linked list of mails, and the wait queue built
  on it.  The list is the sequence of its cells; the pointer \<open>*l\<close> a caller holds is the suffix it
  points at.  \<open>alloc\<close> says whether the allocation of the new cell succeeds.
\<close>

section \<open>al_list.c\<close>

type_synonym 'm al5_list = "'m list"

definition al5_list_init :: "'m al5_list" where
  "al5_list_init = []"

definition al5_list_empty :: "'m al5_list \<Rightarrow> bool" where
  "al5_list_empty l \<longleftrightarrow> l = []"

text \<open>\<open>while ((*l)->next != NULL) *l = (*l)->next\<close>: the caller's pointer itself moves.  The cells it
  has passed are those before the suffix it points at; the new cell is linked behind the cell it
  stops at.\<close>

fun walk_to_last :: "'m al5_list \<Rightarrow> 'm al5_list" where
  "walk_to_last (m # n # rest) = walk_to_last (n # rest)"
| "walk_to_last l = l"

definition al5_list_push :: "bool \<Rightarrow> 'm al5_list \<Rightarrow> 'm \<Rightarrow> int \<times> 'm al5_list" where
  "al5_list_push alloc l mail =
     (let first_pos = l in
      if al5_list_empty l then (if alloc then (0, [mail]) else (- ENOMEM, []))
      else (let cur = walk_to_last l in
            if \<not> alloc then (- ENOMEM, cur)
            else (0, take (length first_pos - length cur) first_pos @ hd cur # [mail])))"

definition al5_list_pop :: "'m al5_list \<Rightarrow> 'm option \<times> 'm al5_list" where
  "al5_list_pop l = (case l of [] \<Rightarrow> (None, []) | mail # next \<Rightarrow> (Some mail, next))"

text \<open>Pops until the list is empty; the freed mails are collected.\<close>

fun al5_list_empty_and_destroy :: "'m al5_list \<Rightarrow> 'm list" where
  "al5_list_empty_and_destroy [] = []"
| "al5_list_empty_and_destroy (m # l) = m # al5_list_empty_and_destroy l"

lemma walk_to_last_eq: "l \<noteq> [] \<Longrightarrow> walk_to_last l = [last l]"
  by (induction l rule: walk_to_last.induct) auto

lemma list_push_ok: "al5_list_push True l m = (0, l @ [m])"
  by (cases l rule: rev_cases) (simp_all add: al5_list_push_def al5_list_empty_def Let_def walk_to_last_eq)

lemma list_push_fail:
  "al5_list_push False l m = (- ENOMEM, if l = [] then [] else [last l])"
  by (simp add: al5_list_push_def al5_list_empty_def Let_def walk_to_last_eq)

lemma destroy_all: "al5_list_empty_and_destroy l = l"
  by (induction l) auto

section \<open>al_queue.c\<close>

record 'm al5_queue =
  qlist :: "'m al5_list"
  locked :: bool

definition al5_queue_init :: "'m al5_queue" where
  "al5_queue_init = \<lparr>qlist = al5_list_init, locked = True\<rparr>"

text \<open>What the sleeping readers of the queue wait for.\<close>

definition mail_is_available :: "'m al5_queue \<Rightarrow> bool" where
  "mail_is_available q \<longleftrightarrow> \<not> al5_list_empty (qlist q) \<or> \<not> locked q"

text \<open>\<open>wait\<close> is what the interruptible wait returned: 0 on a timeout, positive when the condition held,
  \<open>- ERESTARTSYS\<close> when a signal came.\<close>

definition ERESTARTSYS :: int where "ERESTARTSYS = 512"

definition al5_queue_pop_timeout :: "int \<Rightarrow> 'm al5_queue \<Rightarrow> int \<times> 'm option \<times> 'm al5_queue" where
  "al5_queue_pop_timeout wait q =
     (let err = (if wait = 0 then - EINVAL else if wait > 0 then 0
                 else if wait = - ERESTARTSYS then - EINTR else wait);
          (mail, l) = al5_list_pop (qlist q);
          err' = (if mail \<noteq> None then 0 else if err \<noteq> 0 then err else - EINVAL)
      in (err', mail, q\<lparr>qlist := l\<rparr>))"

text \<open>The part of the pop after the wait; the wait itself returns early on a signal.\<close>

definition al5_queue_pop :: "'m al5_queue \<Rightarrow> 'm option \<times> 'm al5_queue" where
  "al5_queue_pop q = (let (mail, l) = al5_list_pop (qlist q) in (mail, q\<lparr>qlist := l\<rparr>))"

definition al5_queue_push :: "bool \<Rightarrow> 'm al5_queue \<Rightarrow> 'm \<Rightarrow> int \<times> 'm al5_queue" where
  "al5_queue_push alloc q mail =
     (let (err, l) = al5_list_push alloc (qlist q) mail in (err, q\<lparr>qlist := l\<rparr>))"

definition al5_queue_unlock :: "'m al5_queue \<Rightarrow> 'm al5_queue" where
  "al5_queue_unlock q = q\<lparr>locked := False\<rparr>"

definition al5_queue_lock :: "'m al5_queue \<Rightarrow> 'm al5_queue" where
  "al5_queue_lock q = q\<lparr>locked := True\<rparr>"

lemma queue_pop_timeout_success:
  "al5_queue_pop_timeout wait q = (err, mail, q') \<Longrightarrow> (err = 0 \<longleftrightarrow> mail \<noteq> None)"
  by (auto simp: al5_queue_pop_timeout_def Let_def EINVAL_def EINTR_def split: prod.splits if_splits)

lemma queue_push_ok: "al5_queue_push True q m = (0, q\<lparr>qlist := qlist q @ [m]\<rparr>)"
  by (simp add: al5_queue_push_def list_push_ok)

section \<open>The queue as a FIFO\<close>

text \<open>A push that finds memory, and a pop after its wait, as the FIFO contract has them.\<close>

definition queue_enq :: "'m \<Rightarrow> 'm al5_queue \<Rightarrow> 'm al5_queue option" where
  "queue_enq m q = (case al5_queue_push True q m of (err, q') \<Rightarrow> if err = 0 then Some q' else None)"

definition queue_deq :: "'m al5_queue \<Rightarrow> ('m \<times> 'm al5_queue) option" where
  "queue_deq q = (case al5_queue_pop q of (None, q') \<Rightarrow> None | (Some m, q') \<Rightarrow> Some (m, q'))"

interpretation mail_queue: fifo_spec "\<lambda>_. True" qlist "\<lambda>_. True" queue_enq queue_deq
  by unfold_locales
    (auto simp: queue_enq_def queue_deq_def queue_push_ok al5_queue_pop_def al5_list_pop_def)

section \<open>Properties\<close>

text \<open>\<open>al5_list_push\<close> appends when its cell is allocated; when the allocation fails it returns
  \<open>-ENOMEM\<close> but has already moved the caller's list pointer, so that every queued mail except the
  last is lost.\<close>

theorem list_push_result:
  "al5_list_push alloc l m =
     (if alloc then (0, l @ [m]) else (- ENOMEM, drop (length l - 1) l))"
proof (cases "l = []")
  case False
  then show ?thesis
    by (cases l rule: rev_cases) (auto simp: list_push_ok list_push_fail)
qed (auto simp: list_push_ok list_push_fail)

text \<open>Whatever sequence of pushes that find memory and of pops, the mails come out of the wait
  queue in the order they went in.\<close>

lemma mail_queue_run_order:
  "fifo_run queue_enq queue_deq ops q = (acc, out, q') \<Longrightarrow> qlist q @ acc = out @ qlist q'"
  using mail_queue.run_order [of ops q acc out q'] by simp

end
