(* ===== verification/MailListHeap.thy ===== *)
theory MailListHeap imports MailQueue "HOL-Library.Sublist" begin

text \<open>
  vcu-modules/common/al_list.c and al_queue.c once more, one level down: the list as the chain of
  its kmalloc'ed cells.  The heap maps an address to the cell allocated there, 0 is NULL.  An access
  through NULL or to a freed cell, and a second kfree, are \<open>None\<close>, and so is a walk that never
  reaches the end of the chain.  The address kmalloc returned is an argument of the operations: 0
  for a failure.

  The operations refine those of the theory MailQueue, which read the same code over the sequence
  of the mails: \<open>list_at h p as xs\<close> says that from \<open>p\<close> the chain of the cells \<open>as\<close> carries the mails
  \<open>xs\<close>.
\<close>

section \<open>Cells and heap\<close>

record 'm al5_list_cell =
  cell_mail :: 'm
  cell_next :: nat

type_synonym 'm cells = "nat \<rightharpoonup> 'm al5_list_cell"

definition kfree_cell :: "nat \<Rightarrow> 'm cells \<Rightarrow> 'm cells option" where
  "kfree_cell a h = (if a = 0 then Some h else if h a = None then None else Some (h(a := None)))"

section \<open>al_list.c\<close>

definition heap_list_init :: nat where
  "heap_list_init = 0"

definition heap_list_empty :: "nat \<Rightarrow> bool" where
  "heap_list_empty l \<longleftrightarrow> l = 0"

text \<open>\<open>while ((*l)->next != NULL) *l = (*l)->next\<close>.\<close>

partial_function (option) heap_walk :: "'m cells \<Rightarrow> nat \<Rightarrow> nat option" where
  "heap_walk h l =
     do { c \<leftarrow> h l;
          if cell_next c \<noteq> 0 then heap_walk h (cell_next c) else Some l }"

declare heap_walk.simps [code]

text \<open>\<open>a\<close> is what kmalloc returns for the new cell.  The result is the error code, the heap and the
  pointer \<open>*l\<close> the caller holds afterwards.\<close>

definition heap_list_push :: "nat \<Rightarrow> 'm \<Rightarrow> 'm cells \<Rightarrow> nat \<Rightarrow> (int \<times> 'm cells \<times> nat) option" where
  "heap_list_push a m h l =
     (let first_pos = l in
      if l = 0 then
        (if a = 0 then Some (- ENOMEM, h, 0)
         else Some (0, h(a \<mapsto> \<lparr>cell_mail = m, cell_next = 0\<rparr>), a))
      else
        do { cur \<leftarrow> heap_walk h l;
             c \<leftarrow> h cur;
             let h1 = h(cur \<mapsto> c\<lparr>cell_next := a\<rparr>);
             if a = 0 then Some (- ENOMEM, h1, cur)
             else Some (0, h1(a \<mapsto> \<lparr>cell_mail = m, cell_next = 0\<rparr>), first_pos) })"

definition heap_list_pop :: "'m cells \<Rightarrow> nat \<Rightarrow> ('m option \<times> 'm cells \<times> nat) option" where
  "heap_list_pop h l =
     (if l = 0 then Some (None, h, l)
      else do { c \<leftarrow> h l;
                h1 \<leftarrow> kfree_cell l h;
                Some (Some (cell_mail c), h1, cell_next c) })"

text \<open>The mails handed to \<open>al5_free_mail\<close>, the heap and the pointer left.\<close>

partial_function (option) heap_destroy_loop ::
  "'m cells \<Rightarrow> nat \<Rightarrow> 'm list \<Rightarrow> ('m list \<times> 'm cells \<times> nat) option" where
  "heap_destroy_loop h l freed =
     (if heap_list_empty l then Some (freed, h, l)
      else do { (m, h1, l1) \<leftarrow> heap_list_pop h l;
                heap_destroy_loop h1 l1 (freed @ (case m of None \<Rightarrow> [] | Some x \<Rightarrow> [x])) })"

declare heap_destroy_loop.simps [code]

definition heap_list_empty_and_destroy :: "'m cells \<Rightarrow> nat \<Rightarrow> ('m list \<times> 'm cells) option" where
  "heap_list_empty_and_destroy h l =
     do { (freed, h1, l1) \<leftarrow> heap_destroy_loop h l [];
          h2 \<leftarrow> kfree_cell l1 h1;
          Some (freed, h2) }"

section \<open>The chain of cells\<close>

fun list_at :: "'m cells \<Rightarrow> nat \<Rightarrow> nat list \<Rightarrow> 'm list \<Rightarrow> bool" where
  "list_at h p [] [] \<longleftrightarrow> p = 0"
| "list_at h p (a # as) (m # ms) \<longleftrightarrow>
     p = a \<and> a \<noteq> 0 \<and> a \<notin> set as \<and> (\<exists>n. h a = Some \<lparr>cell_mail = m, cell_next = n\<rparr> \<and> list_at h n as ms)"
| "list_at h p _ _ \<longleftrightarrow> False"

lemma list_at_length: "list_at h p as ms \<Longrightarrow> length as = length ms"
  by (induction h p as ms rule: list_at.induct) auto

lemma list_at_nonzero: "list_at h p as ms \<Longrightarrow> 0 \<notin> set as"
  by (induction h p as ms rule: list_at.induct) auto

lemma list_at_in_heap: "list_at h p as ms \<Longrightarrow> set as \<subseteq> dom h"
  by (induction h p as ms rule: list_at.induct) auto

lemma list_at_null: "list_at h 0 as ms \<longleftrightarrow> as = [] \<and> ms = []"
  by (cases as; cases ms) auto

lemma list_at_frame:
  "\<forall>a \<in> set as. h' a = h a \<Longrightarrow> list_at h' p as ms = list_at h p as ms"
  by (induction h p as ms rule: list_at.induct) auto

lemma list_at_upd [simp]: "a \<notin> set as \<Longrightarrow> list_at (h(a := c)) p as ms = list_at h p as ms"
  by (rule list_at_frame) auto

text \<open>The walk stops at the last cell, whose \<open>next\<close> is NULL; overwriting that \<open>next\<close> with a new cell
  lengthens the chain by one.\<close>

lemma heap_walk_last:
  "list_at h p as ms \<Longrightarrow> as \<noteq> [] \<Longrightarrow>
   heap_walk h p = Some (last as) \<and> h (last as) = Some \<lparr>cell_mail = last ms, cell_next = 0\<rparr>"
proof (induction h p as ms rule: list_at.induct)
  case (2 h p a as m ms)
  then obtain n where n: "h a = Some \<lparr>cell_mail = m, cell_next = n\<rparr>" "list_at h n as ms" "p = a"
    by auto
  show ?case
  proof (cases as)
    case Nil
    with n(2) have "ms = []" "n = 0" by (cases ms; simp)+
    with n Nil show ?thesis by (subst heap_walk.simps) simp
  next
    case (Cons b bs)
    with n(2) have "n = b" "b \<noteq> 0" "ms \<noteq> []" by (cases ms; simp)+
    moreover from "2.IH" [OF n(2)] Cons have "heap_walk h n = Some (last as)"
      "h (last as) = Some \<lparr>cell_mail = last ms, cell_next = 0\<rparr>" by simp_all
    ultimately show ?thesis using n Cons by (subst heap_walk.simps) simp
  qed
qed auto

lemma list_at_append:
  "list_at h p as ms \<Longrightarrow> as \<noteq> [] \<Longrightarrow> b \<noteq> 0 \<Longrightarrow> b \<notin> set as \<Longrightarrow>
   list_at (h(last as \<mapsto> \<lparr>cell_mail = last ms, cell_next = b\<rparr>, b \<mapsto> \<lparr>cell_mail = m, cell_next = 0\<rparr>))
     p (as @ [b]) (ms @ [m])"
proof (induction h p as ms rule: list_at.induct)
  case (2 h p a as x ms)
  then obtain n where n: "h a = Some \<lparr>cell_mail = x, cell_next = n\<rparr>" "list_at h n as ms"
    by auto
  show ?case
  proof (cases as)
    case Nil
    with n(2) have "ms = []" by (cases ms) simp_all
    with 2 n Nil show ?thesis by simp
  next
    case (Cons c cs)
    with n(2) have "ms \<noteq> []" by (cases ms) simp_all
    with 2 n Cons show ?thesis by auto
  qed
qed auto

text \<open>Two chains of one heap from one pointer are the same.\<close>

lemma list_at_unique: "list_at h p as ms \<Longrightarrow> list_at h p as' ms' \<Longrightarrow> as' = as \<and> ms' = ms"
proof (induction h p as ms arbitrary: as' ms' rule: list_at.induct)
  case (1 h p)
  then show ?case by (simp add: list_at_null)
next
  case (2 h p a as m ms)
  then show ?case by (cases as'; cases ms') auto
qed auto

section \<open>Refinement of the sequence operations\<close>

text \<open>A push refines \<open>al5_list_push\<close>: same error, and the chain left carries the sequence left.  Cells
  of other chains are untouched; only the new cell is added.\<close>

lemma heap_push_refines:
  assumes "list_at h p as xs" "a = 0 \<or> h a = None" "al5_list_push (a \<noteq> 0) xs m = (err, xs')"
  obtains h' p' as' where "heap_list_push a m h p = Some (err, h', p')" "list_at h' p' as' xs'"
    "\<forall>b. b \<notin> set as \<and> (a = 0 \<or> b \<noteq> a) \<longrightarrow> h' b = h b"
    "a \<noteq> 0 \<Longrightarrow> set as' = insert a (set as)" "a = 0 \<Longrightarrow> set as' \<subseteq> set as"
proof (cases "as = []")
  case True
  with assms(1) have e: "xs = []" "p = 0" using list_at_length by fastforce+
  show ?thesis
  proof (cases "a = 0")
    case a: True
    with assms(3) e have r: "err = - ENOMEM" "xs' = []" by (auto simp: list_push_fail)
    show ?thesis
      by (rule that [of h 0 "[]"]) (simp_all add: heap_list_push_def e a r True)
  next
    case a: False
    with assms(3) e have r: "err = 0" "xs' = [m]" by (auto simp: list_push_ok)
    show ?thesis
      by (rule that [of "h(a \<mapsto> \<lparr>cell_mail = m, cell_next = 0\<rparr>)" a "[a]"])
        (simp_all add: heap_list_push_def e a r True)
  qed
next
  case False
  note walk = heap_walk_last [OF assms(1) False]
  have ne: "xs \<noteq> []" using False list_at_length [OF assms(1)] by auto
  have pn: "p \<noteq> 0" using assms(1) False list_at_null by metis
  have la: "last as \<noteq> 0" "last as \<in> set as" using False list_at_nonzero [OF assms(1)] last_in_set [of as] by metis+
  show ?thesis
  proof (cases "a = 0")
    case a: True
    with assms(3) ne have r: "err = - ENOMEM" "xs' = [last xs]" by (auto simp: list_push_fail)
    have "heap_list_push a m h p = Some (- ENOMEM, h(last as \<mapsto> \<lparr>cell_mail = last xs, cell_next = 0\<rparr>), last as)"
      using walk ne pn a by (simp add: heap_list_push_def)
    then show ?thesis
      by (rule that [of _ _ "[last as]", unfolded r]) (use la a in auto)
  next
    case a: False
    with assms(2) list_at_in_heap [OF assms(1)] have fresh: "a \<notin> set as" by auto
    from a assms(3) have r: "err = 0" "xs' = xs @ [m]" by (auto simp: list_push_ok)
    have "heap_list_push a m h p = Some (0, h(last as \<mapsto> \<lparr>cell_mail = last xs, cell_next = a\<rparr>,
        a \<mapsto> \<lparr>cell_mail = m, cell_next = 0\<rparr>), p)"
      using walk ne pn a by (simp add: heap_list_push_def)
    then show ?thesis
      by (rule that [of _ _ "as @ [a]", unfolded r])
        (use la a fresh list_at_append [OF assms(1) False a fresh] in auto)
  qed
qed

lemma heap_pop_refines:
  assumes "list_at h p as xs" "al5_list_pop xs = (mo, xs')"
  obtains h' p' as' where "heap_list_pop h p = Some (mo, h', p')" "list_at h' p' as' xs'"
    "as' = tl as" "h' = (if as = [] then h else h(hd as := None))"
proof (cases as)
  case Nil
  with assms have "xs = []" "p = 0" "mo = None" "xs' = []" 
    using list_at_length [OF assms(1)] by (auto simp: al5_list_pop_def)
  with Nil show ?thesis by (intro that [of h 0 "[]"]) (simp_all add: heap_list_pop_def)
next
  case (Cons a bs)
  with assms(1) obtain x ys n where x: "xs = x # ys" "h a = Some \<lparr>cell_mail = x, cell_next = n\<rparr>" "list_at h n bs ys"
    "p = a" "a \<noteq> 0" "a \<notin> set bs" by (cases xs) auto
  with assms(2) have "mo = Some x" "xs' = ys" by (auto simp: al5_list_pop_def)
  with x Cons show ?thesis
    by (intro that [of "h(a := None)" n bs]) (simp_all add: heap_list_pop_def kfree_cell_def)
qed

text \<open>The destruction frees every cell of the chain and nothing else, and every mail, in order.\<close>

lemma heap_destroy_loop_eq:
  "list_at h p as xs \<Longrightarrow> heap_destroy_loop h p freed = Some (freed @ xs, h |` (- set as), 0)"
proof (induction as arbitrary: h p xs freed)
  case Nil
  then have "xs = []" "p = 0" using list_at_length by fastforce+
  then show ?case by (subst heap_destroy_loop.simps) (simp add: heap_list_empty_def restrict_map_def)
next
  case (Cons a as)
  then obtain x ys n where x: "xs = x # ys" "h a = Some \<lparr>cell_mail = x, cell_next = n\<rparr>" "list_at h n as ys"
    "p = a" "a \<noteq> 0" "a \<notin> set as" by (cases xs) auto
  have "heap_destroy_loop h p freed = heap_destroy_loop (h(a := None)) n (freed @ [x])"
    using x by (subst heap_destroy_loop.simps)
      (simp add: heap_list_empty_def heap_list_pop_def kfree_cell_def)
  also have "list_at (h(a := None)) n as ys" by (rule iffD2 [OF list_at_upd [OF x(6)] x(3)])
  then have "heap_destroy_loop (h(a := None)) n (freed @ [x]) = Some ((freed @ [x]) @ ys, (h(a := None)) |` (- set as), 0)"
    by (rule Cons.IH)
  also have "(h(a := None)) |` (- set as) = h |` (- set (a # as))"
    by (rule ext) (simp add: restrict_map_def)
  finally show ?case using x by simp
qed

lemma heap_destroy_refines:
  "list_at h p as xs \<Longrightarrow>
   heap_list_empty_and_destroy h p = Some (al5_list_empty_and_destroy xs, h |` (- set as))"
  by (simp add: heap_list_empty_and_destroy_def heap_destroy_loop_eq kfree_cell_def destroy_all)

section \<open>al_queue.c over the heap\<close>

record heap_queue =
  hq_list :: nat
  hq_locked :: bool

definition heap_queue_init :: heap_queue where
  "heap_queue_init = \<lparr>hq_list = heap_list_init, hq_locked = True\<rparr>"

definition heap_queue_push ::
  "nat \<Rightarrow> 'm \<Rightarrow> 'm cells \<Rightarrow> heap_queue \<Rightarrow> (int \<times> 'm cells \<times> heap_queue) option" where
  "heap_queue_push a m h q =
     do { (err, h1, l) \<leftarrow> heap_list_push a m h (hq_list q); Some (err, h1, q\<lparr>hq_list := l\<rparr>) }"

definition heap_queue_pop ::
  "'m cells \<Rightarrow> heap_queue \<Rightarrow> ('m option \<times> 'm cells \<times> heap_queue) option" where
  "heap_queue_pop h q =
     do { (mo, h1, l) \<leftarrow> heap_list_pop h (hq_list q); Some (mo, h1, q\<lparr>hq_list := l\<rparr>) }"

text \<open>A run of pushes (\<open>Enq\<close>) and pops (\<open>Deq\<close>) with what each of them returned.  \<open>kmalloc i h\<close> is the
  address kmalloc gives in the heap \<open>h\<close> when \<open>i\<close> operations are left; it may fail at any time.\<close>

datatype 'm queue_res = Pushed 'm nat int | Popped "'m option"

fun heap_queue_run :: "(nat \<Rightarrow> 'm cells \<Rightarrow> nat) \<Rightarrow> 'm fifo_op list \<Rightarrow> 'm cells \<Rightarrow> heap_queue
    \<Rightarrow> ('m queue_res list \<times> 'm cells \<times> heap_queue) option" where
  "heap_queue_run kmalloc [] h q = Some ([], h, q)"
| "heap_queue_run kmalloc (Enq m # ops) h q =
     do { let a = kmalloc (length ops) h;
          (err, h1, q1) \<leftarrow> heap_queue_push a m h q;
          (rs, h2, q2) \<leftarrow> heap_queue_run kmalloc ops h1 q1;
          Some (Pushed m a err # rs, h2, q2) }"
| "heap_queue_run kmalloc (Deq # ops) h q =
     do { (mo, h1, q1) \<leftarrow> heap_queue_pop h q;
          (rs, h2, q2) \<leftarrow> heap_queue_run kmalloc ops h1 q1;
          Some (Popped mo # rs, h2, q2) }"

text \<open>The contract: a push appends, a pop takes the head and answers NULL only on the empty queue.\<close>

fun fifo_results :: "'m queue_res list \<Rightarrow> 'm list \<Rightarrow> 'm list option" where
  "fifo_results [] xs = Some xs"
| "fifo_results (Pushed m a err # rs) xs = (if err = 0 then fifo_results rs (xs @ [m]) else None)"
| "fifo_results (Popped mo # rs) xs =
     (case xs of
        [] \<Rightarrow> if mo = None then fifo_results rs [] else None
      | x # ys \<Rightarrow> if mo = Some x then fifo_results rs ys else None)"

fun op_of :: "'m queue_res \<Rightarrow> 'm fifo_op" where
  "op_of (Pushed m a err) = Enq m"
| "op_of (Popped mo) = Deq"

definition accepted :: "'m queue_res list \<Rightarrow> 'm list" where
  "accepted rs = concat (map (\<lambda>r. case r of Pushed m a err \<Rightarrow> if err = 0 then [m] else [] | Popped mo \<Rightarrow> []) rs)"

definition delivered :: "'m queue_res list \<Rightarrow> 'm list" where
  "delivered rs = concat (map (\<lambda>r. case r of Popped (Some m) \<Rightarrow> [m] | _ \<Rightarrow> []) rs)"

text \<open>A push reports \<open>-ENOMEM\<close> exactly when kmalloc gave no cell.\<close>

definition errors_right :: "'m queue_res list \<Rightarrow> bool" where
  "errors_right rs \<longleftrightarrow> (\<forall>r \<in> set rs. case r of Pushed m a err \<Rightarrow> err = (if a = 0 then - ENOMEM else 0) | Popped mo \<Rightarrow> True)"

definition memory_found :: "'m queue_res list \<Rightarrow> bool" where
  "memory_found rs \<longleftrightarrow> (\<forall>r \<in> set rs. case r of Pushed m a err \<Rightarrow> a \<noteq> 0 | Popped mo \<Rightarrow> True)"

lemma result_simps [simp]:
  "accepted [] = []" "delivered [] = []" "errors_right []" "memory_found []"
  "accepted (Pushed m a err # rs) = (if err = 0 then m # accepted rs else accepted rs)"
  "accepted (Popped mo # rs) = accepted rs"
  "delivered (Pushed m a err # rs) = delivered rs"
  "delivered (Popped mo # rs) = (case mo of None \<Rightarrow> delivered rs | Some x \<Rightarrow> x # delivered rs)"
  "errors_right (Pushed m a err # rs) \<longleftrightarrow> err = (if a = 0 then - ENOMEM else 0) \<and> errors_right rs"
  "errors_right (Popped mo # rs) \<longleftrightarrow> errors_right rs"
  "memory_found (Pushed m a err # rs) \<longleftrightarrow> a \<noteq> 0 \<and> memory_found rs"
  "memory_found (Popped mo # rs) \<longleftrightarrow> memory_found rs"
  by (auto simp: accepted_def delivered_def errors_right_def memory_found_def split: option.splits)

lemma fifo_results_order: "fifo_results rs xs = Some ys \<Longrightarrow> xs @ accepted rs = delivered rs @ ys"
  by (induction rs xs rule: fifo_results.induct) (auto split: if_splits list.splits)

lemma subseq_drop: "subseq (drop n xs) xs"
  using subseq_drop_many [of "drop n xs" "drop n xs" "take n xs"] by simp

text \<open>What a run from the chain \<open>as\<close> of \<open>xs\<close> has to leave behind.\<close>

definition run_ok :: "'m fifo_op list \<Rightarrow> 'm cells \<Rightarrow> nat list \<Rightarrow> 'm list \<Rightarrow> 'm queue_res list
    \<Rightarrow> 'm cells \<Rightarrow> heap_queue \<Rightarrow> nat list \<Rightarrow> 'm list \<Rightarrow> bool" where
  "run_ok ops h as xs rs h' q' as' xs' \<longleftrightarrow>
     map op_of rs = ops \<and> errors_right rs \<and> list_at h' (hq_list q') as' xs'
     \<and> subseq (delivered rs @ xs') (xs @ accepted rs)
     \<and> (memory_found rs \<longrightarrow> fifo_results rs xs = Some xs' \<and> h' |` (- set as') = h |` (- set as))
     \<and> (\<forall>b \<in> dom h - set as. h' b = h b)"

lemma run_ok_frame: "run_ok ops h as xs rs h' q' as' xs' \<Longrightarrow> b \<notin> set as \<Longrightarrow> h b = Some c \<Longrightarrow> h' b = Some c"
  unfolding run_ok_def by (metis DiffI domI)

lemma run_ok_Push:
  assumes push: "a = 0 \<or> h a = None" "al5_list_push (a \<noteq> 0) xs m = (err, xs1)"
    "\<forall>b. b \<notin> set as \<and> (a = 0 \<or> b \<noteq> a) \<longrightarrow> h1 b = h b"
    "a \<noteq> 0 \<Longrightarrow> set as1 = insert a (set as)" "a = 0 \<Longrightarrow> set as1 \<subseteq> set as"
    and run: "run_ok ops h1 as1 xs1 rs h' q' as' xs'"
  shows "run_ok (Enq m # ops) h as xs (Pushed m a err # rs) h' q' as' xs'"
proof -
  have err: "err = (if a = 0 then - ENOMEM else 0)"
    and xs1: "xs1 = (if a = 0 then drop (length xs - 1) xs else xs @ [m])"
    using push(2) list_push_result [of "a \<noteq> 0" xs m] by (auto split: if_splits)
  have sub: "subseq (delivered rs @ xs') (xs1 @ accepted rs)" using run by (simp add: run_ok_def)
  have "subseq (delivered rs @ xs') (xs @ accepted (Pushed m a err # rs))"
  proof (cases "a = 0")
    case True
    have "subseq (xs1 @ accepted rs) (xs @ accepted rs)"
      using True xs1 subseq_drop by simp
    with sub have "subseq (delivered rs @ xs') (xs @ accepted rs)" by (rule subseq_order.trans)
    with True err show ?thesis by (simp add: ENOMEM_def)
  qed (use sub err xs1 in simp)
  moreover have "h1 |` (- set as1) = h |` (- set as)" if "a \<noteq> 0"
  proof
    fix b
    show "(h1 |` (- set as1)) b = (h |` (- set as)) b"
      using push(1,3) push(4) [OF that] that by (cases "b = a") (auto simp: restrict_map_def)
  qed
  moreover have "h' b = h b" if "b \<in> dom h - set as" for b
  proof -
    from that push(1) have ba: "a = 0 \<or> b \<noteq> a" by auto
    with that push(3) have "h1 b = h b" by simp
    moreover have "b \<notin> set as1" using that push(4,5) ba by (cases "a = 0") auto
    ultimately show ?thesis using run_ok_frame [OF run, of b] that by auto
  qed
  moreover have "fifo_results rs (xs @ [m]) = Some xs'" if "a \<noteq> 0" "memory_found rs"
    using run xs1 that by (simp add: run_ok_def)
  ultimately show ?thesis using run err by (simp add: run_ok_def)
qed

lemma run_ok_Pop:
  assumes pop: "list_at h p as xs" "al5_list_pop xs = (mo, xs1)"
    "as1 = tl as" "h1 = (if as = [] then h else h(hd as := None))"
    and run: "run_ok ops h1 as1 xs1 rs h' q' as' xs'"
  shows "run_ok (Deq # ops) h as xs (Popped mo # rs) h' q' as' xs'"
proof (cases as)
  case Nil
  then have "xs = []" using list_at_length [OF pop(1)] by simp
  with pop Nil run show ?thesis by (auto simp: run_ok_def al5_list_pop_def)
next
  case (Cons a bs)
  then obtain x ys where x: "xs = x # ys" "a \<notin> set bs"
    using pop(1) by (cases xs) auto
  with pop(2) have mo: "mo = Some x" "xs1 = ys" by (simp_all add: al5_list_pop_def)
  have "h1 |` (- set bs) = h |` (- set as)"
    using pop(4) Cons x(2) by (auto simp: restrict_map_def)
  moreover have "h' b = h b" if "b \<in> dom h - set as" for b
    using run that pop(3,4) Cons by (auto simp: run_ok_def dom_def)
  ultimately show ?thesis using run pop(3) Cons x mo by (auto simp: run_ok_def)
qed

lemma heap_queue_run_ok:
  assumes fresh: "\<forall>i h. kmalloc i h = 0 \<or> h (kmalloc i h) = None"
  shows "list_at h (hq_list q) as xs \<Longrightarrow>
    \<exists>rs h' q' as' xs'. heap_queue_run kmalloc ops h q = Some (rs, h', q') \<and> run_ok ops h as xs rs h' q' as' xs'"
proof (induction ops arbitrary: h q as xs)
  case Nil
  then show ?case
    by (intro exI [of _ "[]"] exI [of _ h] exI [of _ q] exI [of _ as] exI [of _ xs]) (simp add: run_ok_def)
next
  case (Cons x ops)
  show ?case
  proof (cases x)
    case (Enq m)
    let ?a = "kmalloc (length ops) h"
    obtain err xs1 where sp: "al5_list_push (?a \<noteq> 0) xs m = (err, xs1)" by fastforce
    have fr: "?a = 0 \<or> h ?a = None" by (rule fresh [rule_format])
    from heap_push_refines [OF Cons.prems fr sp]
    obtain h1 p1 as1 where p: "heap_list_push ?a m h (hq_list q) = Some (err, h1, p1)" "list_at h1 p1 as1 xs1"
      "\<forall>b. b \<notin> set as \<and> (?a = 0 \<or> b \<noteq> ?a) \<longrightarrow> h1 b = h b"
      "?a \<noteq> 0 \<Longrightarrow> set as1 = insert ?a (set as)" "?a = 0 \<Longrightarrow> set as1 \<subseteq> set as"
      by metis
    let ?q = "q\<lparr>hq_list := p1\<rparr>"
    from p(2) have "list_at h1 (hq_list ?q) as1 xs1" by simp
    from Cons.IH [OF this] obtain rs h' q' as' xs' where
      r: "heap_queue_run kmalloc ops h1 ?q = Some (rs, h', q')" "run_ok ops h1 as1 xs1 rs h' q' as' xs'"
      by blast
    have "heap_queue_run kmalloc (x # ops) h q = Some (Pushed m ?a err # rs, h', q')"
      using p(1) r(1) Enq by (simp add: heap_queue_push_def Let_def)
    moreover have "run_ok (x # ops) h as xs (Pushed m ?a err # rs) h' q' as' xs'"
      unfolding Enq by (rule run_ok_Push [OF fr sp p(3-5) r(2)])
    ultimately show ?thesis by blast
  next
    case Deq
    obtain mo xs1 where sp: "al5_list_pop xs = (mo, xs1)" by fastforce
    from heap_pop_refines [OF Cons.prems sp]
    obtain h1 p1 as1 where p: "heap_list_pop h (hq_list q) = Some (mo, h1, p1)" "list_at h1 p1 as1 xs1"
      "as1 = tl as" "h1 = (if as = [] then h else h(hd as := None))"
      by metis
    let ?q = "q\<lparr>hq_list := p1\<rparr>"
    from p(2) have "list_at h1 (hq_list ?q) as1 xs1" by simp
    from Cons.IH [OF this] obtain rs h' q' as' xs' where
      r: "heap_queue_run kmalloc ops h1 ?q = Some (rs, h', q')" "run_ok ops h1 as1 xs1 rs h' q' as' xs'"
      by blast
    have "heap_queue_run kmalloc (x # ops) h q = Some (Popped mo # rs, h', q')"
      using p(1) r(1) Deq by (simp add: heap_queue_pop_def)
    moreover have "run_ok (x # ops) h as xs (Popped mo # rs) h' q' as' xs'"
      unfolding Deq by (rule run_ok_Pop [OF Cons.prems sp p(3,4) r(2)])
    ultimately show ?thesis by blast
  qed
qed

section \<open>Property\<close>

text \<open>C37: Any sequence of pushes and pops on the wait queue runs without touching NULL, a freed cell
  or an endless chain, whatever addresses kmalloc gives and whenever it fails, from any chain
  of cells \<open>as\<close> that carries the mails \<open>xs\<close>.  A push returns \<open>-ENOMEM\<close> exactly when kmalloc failed.  While
  no kmalloc fails, every push stores its mail behind all the others, every pop returns the oldest
  mail, and NULL only from the empty queue, so the mails come out in the order they went in, and
  the cells allocated are those of the chain left: none is lost and none is freed twice.  When
  some kmalloc fails, mails can be lost, but those that come out keep their order.  The cells of
  other chains are never changed.\<close>

theorem mail_queue_order:
  assumes "list_at h (hq_list q) as xs" "\<forall>i h. kmalloc i h = 0 \<or> h (kmalloc i h) = None"
  shows "\<exists>rs h' q' as' xs'. heap_queue_run kmalloc ops h q = Some (rs, h', q')
    \<and> map op_of rs = ops \<and> errors_right rs \<and> list_at h' (hq_list q') as' xs'
    \<and> subseq (delivered rs @ xs') (xs @ accepted rs)
    \<and> (memory_found rs \<longrightarrow> fifo_results rs xs = Some xs' \<and> xs @ accepted rs = delivered rs @ xs'
         \<and> h' |` (- set as') = h |` (- set as))
    \<and> (\<forall>b \<in> dom h - set as. h' b = h b)"
  using heap_queue_run_ok [OF assms(2,1), of ops] fifo_results_order unfolding run_ok_def by blast

definition first_free :: "nat \<Rightarrow> 'm cells \<Rightarrow> nat" where
  "first_free i h = (if h (Suc i) = None then Suc i else 0)"

lemma mail_queue_order_witness:
  "\<exists>h' q' as'. heap_queue_run first_free [Enq 4, Enq (5::nat), Deq] Map.empty heap_queue_init
      = Some ([Pushed 4 3 0, Pushed 5 2 0, Popped (Some 4)], h', q')
    \<and> list_at h' (hq_list q') as' [5]"
proof -
  have start: "list_at (Map.empty :: nat cells) (hq_list heap_queue_init) [] []"
    by (simp add: heap_queue_init_def heap_list_init_def)
  have "\<exists>h' q'. heap_queue_run first_free [Enq 4, Enq (5::nat), Deq] Map.empty heap_queue_init
      = Some ([Pushed 4 3 0, Pushed 5 2 0, Popped (Some 4)], h', q')"
    by (simp add: first_free_def heap_queue_init_def heap_list_init_def heap_queue_push_def heap_list_push_def
        heap_walk.simps heap_queue_pop_def heap_list_pop_def kfree_cell_def Let_def)
  then obtain h0 q0 where run: "heap_queue_run first_free [Enq 4, Enq (5::nat), Deq] Map.empty heap_queue_init
      = Some ([Pushed 4 3 0, Pushed 5 2 0, Popped (Some 4)], h0, q0)" by blast
  have "\<forall>i h. first_free i h = 0 \<or> (h :: nat cells) (first_free i h) = None" by (simp add: first_free_def)
  from mail_queue_order [OF start this, of "[Enq 4, Enq 5, Deq]"] run
  obtain as' xs' where "list_at h0 (hq_list q0) as' xs'"
    "fifo_results [Pushed 4 3 0, Pushed 5 2 0, Popped (Some (4::nat))] [] = Some xs'"
    by (auto simp del: heap_queue_run.simps fifo_results.simps)
  with run show ?thesis by (auto simp del: heap_queue_run.simps)
qed

end
