(* ===== verification/Mailbox.thy ===== *)
theory Mailbox imports Mail Fifo_Spec begin

text \<open>
  vcu-modules/common/al_mailbox.c, the copy loops of mcu_utils.c and the transfer functions of
  mcu_interface.c: the shared-memory ring through which the driver and the MCU exchange mails.
  A mail travels as a 4-byte header (body size and message identifier, little-endian) and its
  body, both padded to whole 32-bit words, since the bus only allows 32-bit accesses.

  The ring memory, the head and the tail registers are fields of the state; \<open>local_tail\<close> is the
  16-bit copy of the tail the writer works on.
\<close>

record mailbox =
  mb_size :: nat
  mb_data :: "u8 list"
  mb_tail :: u32
  mb_head :: u32
  local_tail :: u16

section \<open>mcu_utils.c: copies by 32-bit accesses\<close>

definition ld32 :: "u8 list \<Rightarrow> nat \<Rightarrow> u8 list option" where
  "ld32 buf off = (if off + 4 \<le> length buf then Some (take 4 (drop off buf)) else None)"

definition st32 :: "u8 list \<Rightarrow> nat \<Rightarrow> u8 list \<Rightarrow> u8 list option" where
  "st32 buf off w = (if off + 4 \<le> length buf then Some (take off buf @ w @ drop (off + 4) buf) else None)"

function copy32 :: "nat \<Rightarrow> nat \<Rightarrow> u8 list \<Rightarrow> nat \<Rightarrow> u8 list \<Rightarrow> nat \<Rightarrow> u8 list option" where
  "copy32 i n dst doff src soff =
     (if i < n
      then do { w \<leftarrow> ld32 src (soff + 4 * i); dst' \<leftarrow> st32 dst (doff + 4 * i) w;
                copy32 (i + 1) n dst' doff src soff }
      else Some dst)"
  by pat_completeness auto
termination by (relation "measure (\<lambda>(i, n, dst, doff, src, soff). n - i)") auto

declare copy32.simps [simp del]

definition memcpy_toio_32 :: "u8 list \<Rightarrow> nat \<Rightarrow> u8 list \<Rightarrow> nat \<Rightarrow> u8 list option" where
  "memcpy_toio_32 pdst doff psrc n = copy32 0 (n div 4) pdst doff psrc 0"

definition memcpy_fromio_32 :: "u8 list \<Rightarrow> nat \<Rightarrow> u8 list \<Rightarrow> nat \<Rightarrow> nat \<Rightarrow> u8 list option" where
  "memcpy_fromio_32 pdst doff psrc soff n = copy32 0 (n div 4) pdst doff psrc soff"

section \<open>al_mailbox.c\<close>

definition header_size :: nat where "header_size = 4"

text \<open>The sizes are of type \<open>size_t\<close>, of 64 bits: the difference wraps when more is used than there is.\<close>

definition not_enough_space_in_mailbox :: "nat \<Rightarrow> nat \<Rightarrow> nat \<Rightarrow> bool" where
  "not_enough_space_in_mailbox mailbox_size used_size data_size \<longleftrightarrow>
     (int data_size + 4) mod 2 ^ 64 > (int mailbox_size - int used_size) mod 2 ^ 64"

lemma not_enough_space:
  assumes "used \<le> sz" "sz < 2 ^ 64" "n + 4 < 2 ^ 64"
  shows "not_enough_space_in_mailbox sz used n \<longleftrightarrow> sz < used + (n + 4)"
proof -
  have "(int sz - int used) mod 2 ^ 64 = int sz - int used" using assms(1,2) by (intro mod_pos_pos_trivial) auto
  moreover have "(int n + 4) mod 2 ^ 64 = int n + 4" using assms(3) by (intro mod_pos_pos_trivial) auto
  ultimately show ?thesis by (auto simp: not_enough_space_in_mailbox_def)
qed

definition mailbox_is_wrapping :: "nat \<Rightarrow> nat \<Rightarrow> nat \<Rightarrow> bool" where
  "mailbox_is_wrapping mailbox_size tail_value data_size \<longleftrightarrow> tail_value + data_size > mailbox_size"

text \<open>The bytes that fit before the end of the ring; the rest of the data, from the start of the ring.\<close>

definition write_in_mailbox_until_wrap ::
    "mailbox \<Rightarrow> nat \<Rightarrow> nat \<Rightarrow> u8 list \<Rightarrow> (mailbox \<times> nat \<times> nat \<times> u8 list) option" where
  "write_in_mailbox_until_wrap box memcpy_size tail data =
     (let space_left_before_wrapping = mb_size box - tail in
      do { d \<leftarrow> memcpy_toio_32 (mb_data box) tail data space_left_before_wrapping;
           Some (box\<lparr>mb_data := d\<rparr>, memcpy_size - space_left_before_wrapping, 0,
                 drop space_left_before_wrapping data) })"

definition read_in_mailbox_until_wrap ::
    "mailbox \<Rightarrow> nat \<Rightarrow> nat \<Rightarrow> u8 list \<Rightarrow> nat \<Rightarrow> (u8 list \<times> nat \<times> nat \<times> nat) option" where
  "read_in_mailbox_until_wrap box memcpy_size head out iter =
     (let space_left_before_wrapping = mb_size box - head in
      do { o' \<leftarrow> memcpy_fromio_32 out iter (mb_data box) head space_left_before_wrapping;
           Some (o', memcpy_size - space_left_before_wrapping, 0, iter + space_left_before_wrapping) })"

definition al5_mailbox_init :: "u8 list \<Rightarrow> nat \<Rightarrow> mailbox" where
  "al5_mailbox_init memory data_size =
     \<lparr>mb_size = data_size, mb_data = take data_size memory, mb_tail = 0, mb_head = 0, local_tail = 0\<rparr>"

definition unserialize_msg_uid :: "u8 list \<Rightarrow> u16" where
  "unserialize_msg_uid header = ucast (header ! 2) + push_bit 8 (ucast (header ! 3))"

definition unserialize_body_size :: "u8 list \<Rightarrow> u16" where
  "unserialize_body_size header = ucast (header ! 0) + push_bit 8 (ucast (header ! 1))"

definition serialize_header :: "u16 \<Rightarrow> u16 \<Rightarrow> u8 list" where
  "serialize_header uid sz =
     [ucast (sz AND 0x00ff), ucast (drop_bit 8 sz), ucast (uid AND 0x00ff), ucast (drop_bit 8 uid)]"

definition pull_tail :: "mailbox \<Rightarrow> mailbox" where
  "pull_tail box = box\<lparr>local_tail := ucast (mb_tail box)\<rparr>"

definition push_tail :: "mailbox \<Rightarrow> mailbox" where
  "push_tail box = box\<lparr>mb_tail := ucast (local_tail box)\<rparr>"

definition write_data :: "mailbox \<Rightarrow> u8 list \<Rightarrow> nat \<Rightarrow> mailbox option" where
  "write_data box in_data n =
     do { (box1, n1, t1, in1) \<leftarrow>
            (if mailbox_is_wrapping (mb_size box) (unat (local_tail box)) n
             then write_in_mailbox_until_wrap box n (unat (local_tail box)) in_data
             else Some (box, n, unat (local_tail box), in_data));
          d \<leftarrow> memcpy_toio_32 (mb_data box1) t1 in1 n1;
          Some (box1\<lparr>mb_data := d,
                     local_tail := of_nat (((t1 + n1 + 3) div 4 * 4) mod mb_size box1)\<rparr>) }"

text \<open>\<open>out_data\<close> is the caller's buffer; the result is its content after the read.\<close>

definition read_data :: "mailbox \<Rightarrow> u8 list \<Rightarrow> nat \<Rightarrow> (u8 list \<times> mailbox) option" where
  "read_data box out_data n =
     do { (o1, n1, h1, it1) \<leftarrow>
            (if mailbox_is_wrapping (mb_size box) (unat (mb_head box)) n
             then read_in_mailbox_until_wrap box n (unat (mb_head box)) out_data 0
             else Some (out_data, n, unat (mb_head box), 0));
          o2 \<leftarrow> memcpy_fromio_32 o1 it1 (mb_data box) h1 n1;
          Some (o2, box\<lparr>mb_head := of_nat (((h1 + n1 + 3) div 4 * 4) mod mb_size box)\<rparr>) }"

definition used_size :: "mailbox \<Rightarrow> nat" where
  "used_size box =
     (let head_value = unat (mb_head box); tail_value = unat (mb_tail box) in
      if tail_value \<ge> head_value then tail_value - head_value
      else mb_size box + tail_value - head_value)"

definition al5_mailbox_write :: "mailbox \<Rightarrow> al5_mail \<Rightarrow> (int \<times> mailbox) option" where
  "al5_mailbox_write box mail =
     (let mail_size = unat (al5_mail_get_size mail); total_size = mail_size + header_size in
      if not_enough_space_in_mailbox (mb_size box) (used_size box) total_size then Some (- EAGAIN, box)
      else do { let header = serialize_header (ucast (al5_mail_get_uid mail)) (of_nat mail_size);
                box1 \<leftarrow> write_data (pull_tail box) header header_size;
                box2 \<leftarrow> write_data box1 (al5_mail_get_body mail) mail_size;
                Some (0, push_tail box2) })"

text \<open>\<open>blk\<close> is the block the caller allocated for the mail, of \<open>mail_size\<close> bytes; \<open>junk\<close> the header
  buffer on the stack.  The inner option is the boolean result with the mail.\<close>

definition al5_mailbox_read ::
    "u8 list \<Rightarrow> mailbox \<Rightarrow> u8 list \<Rightarrow> nat \<Rightarrow> (al5_mail option \<times> mailbox) option" where
  "al5_mailbox_read junk box blk mail_size =
     do { (header, box1) \<leftarrow> read_data box junk header_size;
          let uid = unserialize_msg_uid header;
          let sz = unserialize_body_size header;
          let real_mail_size = al5_get_mail_alloc_size (ucast sz);
          (if mail_size < real_mail_size then Some (None, box1)
           else do { let mail = al5_mail_init blk (ucast uid) (ucast sz);
                     (b, box2) \<leftarrow> read_data box1 (body mail) (unat sz);
                     Some (Some (mail\<lparr>body := b, body_offset := body_offset mail + ucast sz\<rparr>), box2) }) }"

section \<open>mcu_interface.c\<close>

record mcu_mailbox_interface =
  mcu_to_cpu :: mailbox
  cpu_to_mcu :: mailbox
  interrupts :: nat

text \<open>\<open>interrupts\<close> counts the writes to the register that wakes the MCU.\<close>

definition al5_mcu_interface_create ::
    "bool \<Rightarrow> u8 list \<Rightarrow> nat \<Rightarrow> u8 list \<Rightarrow> nat \<Rightarrow> int \<times> mcu_mailbox_interface option" where
  "al5_mcu_interface_create alloc cmd_mem cmd_size status_mem status_size =
     (if \<not> alloc then (- ENOMEM, None)
      else (0, Some \<lparr>mcu_to_cpu = al5_mailbox_init status_mem status_size,
                     cpu_to_mcu = al5_mailbox_init cmd_mem cmd_size, interrupts = 0\<rparr>))"

definition al5_mcu_send :: "mcu_mailbox_interface \<Rightarrow> al5_mail \<Rightarrow> (int \<times> mcu_mailbox_interface) option" where
  "al5_mcu_send mcu mail =
     do { (error, box) \<leftarrow> al5_mailbox_write (cpu_to_mcu mcu) mail; Some (error, mcu\<lparr>cpu_to_mcu := box\<rparr>) }"

definition mcu_mail_size :: nat where
  "mcu_mail_size = al5_get_mail_alloc_size (128 * 4)"

definition al5_mcu_recv ::
    "kmalloc \<Rightarrow> u8 list \<Rightarrow> mcu_mailbox_interface \<Rightarrow> (al5_mail option \<times> mcu_mailbox_interface) option" where
  "al5_mcu_recv km junk mcu =
     (case km mcu_mail_size of
        None \<Rightarrow> Some (None, mcu)
      | Some blk \<Rightarrow> do { (mail, box) \<leftarrow> al5_mailbox_read junk (mcu_to_cpu mcu) blk mcu_mail_size;
                        Some (mail, mcu\<lparr>mcu_to_cpu := box\<rparr>) })"

definition mailbox_empty :: "mailbox \<Rightarrow> bool" where
  "mailbox_empty box \<longleftrightarrow> mb_head box = mb_tail box"

definition al5_mcu_is_empty :: "mcu_mailbox_interface \<Rightarrow> bool" where
  "al5_mcu_is_empty mcu \<longleftrightarrow> mailbox_empty (mcu_to_cpu mcu)"

definition al5_signal_mcu :: "mcu_mailbox_interface \<Rightarrow> mcu_mailbox_interface" where
  "al5_signal_mcu mcu = mcu\<lparr>interrupts := interrupts mcu + 1\<rparr>"

definition al5_mcu_get_virtual_address :: "u32 \<Rightarrow> u32" where
  "al5_mcu_get_virtual_address physicalAddress = physicalAddress + 0x80000000"

section \<open>Headers\<close>

lemma header_length [simp]: "length (serialize_header uid sz) = 4"
  by (simp add: serialize_header_def)

lemma split_u16:
  "ucast (ucast ((w :: u16) AND 0x00FF) :: u8) + push_bit 8 (ucast (ucast (drop_bit 8 w) :: u8)) = w"
  (is "?l + ?r = w")
proof -
  have "?l + ?r = ?l OR ?r"
    by (rule disjunctive_add) (auto simp: mask_0xFF bit_simps)
  moreover have "bit (?l OR ?r) n = bit w n" if "n < LENGTH(16)" for n
  proof -
    from that consider "n < 8" | "8 \<le> n" "n < 16" by fastforce
    then show ?thesis by cases (auto simp: mask_0xFF bit_simps)
  qed
  ultimately show ?thesis by (metis bit_word_eqI)
qed

lemma unserialize_serialize [simp]:
  "unserialize_msg_uid (serialize_header uid sz) = uid"
  "unserialize_body_size (serialize_header uid sz) = sz"
  using split_u16 [of uid] split_u16 [of sz]
  by (simp_all add: unserialize_msg_uid_def unserialize_body_size_def serialize_header_def)

end
