(* ===== verification/MailboxProofs.thy ===== *)
theory MailboxProofs imports Mailbox begin

text \<open>
  The mailbox as a FIFO of messages.  First the block copies cell by cell, then the two transfer
  functions as a block put behind, and a block taken from the front of, the live part of the ring;
  then the frames of the messages, and the interpretation of the bounded FIFO contract.
\<close>

section \<open>Block copies\<close>

lemma copy32_eq:
  "i \<le> n \<Longrightarrow> doff + 4 * n \<le> length dst \<Longrightarrow> soff + 4 * n \<le> length src \<Longrightarrow>
   copy32 i n dst doff src soff =
     Some (take (doff + 4 * i) dst @ take (4 * (n - i)) (drop (soff + 4 * i) src) @ drop (doff + 4 * n) dst)"
proof (induction "n - i" arbitrary: i dst)
  case 0
  then show ?case by (simp add: copy32.simps)
next
  case (Suc k)
  then have i: "i < n" by simp
  let ?w = "take 4 (drop (soff + 4 * i) src)"
  let ?d = "take (doff + 4 * i) dst @ ?w @ drop (doff + 4 * i + 4) dst"
  have lw: "length ?w = 4" using Suc.prems i by simp
  have ld: "length ?d = length dst" using Suc.prems i lw by simp
  have "copy32 i n dst doff src soff = copy32 (Suc i) n ?d doff src soff"
    using i Suc.prems by (subst copy32.simps) (simp add: ld32_def st32_def add.assoc)
  also have "\<dots> = Some (take (doff + 4 * Suc i) ?d
      @ take (4 * (n - Suc i)) (drop (soff + 4 * Suc i) src) @ drop (doff + 4 * n) ?d)"
    using Suc i ld by (intro Suc.hyps(1)) auto
  also have "take (doff + 4 * Suc i) ?d = take (doff + 4 * i) dst @ ?w"
    using Suc.prems i lw by simp
  also have "drop (doff + 4 * n) ?d = drop (doff + 4 * n) dst"
    using Suc.prems i lw by (simp add: add.commute)
  also have "(take (doff + 4 * i) dst @ ?w) @ take (4 * (n - Suc i)) (drop (soff + 4 * Suc i) src)
      @ drop (doff + 4 * n) dst
    = take (doff + 4 * i) dst @ take (4 * (n - i)) (drop (soff + 4 * i) src) @ drop (doff + 4 * n) dst"
  proof -
    have "4 * (n - i) = 4 + 4 * (n - Suc i)" using i by simp
    then have "take (4 * (n - i)) (drop (soff + 4 * i) src)
        = ?w @ take (4 * (n - Suc i)) (drop (soff + 4 * Suc i) src)"
      by (simp only: take_add drop_drop) (simp add: algebra_simps)
    then show ?thesis by simp
  qed
  finally show ?case .
qed

lemma copy32_block:
  assumes "4 dvd n" "doff + n \<le> length dst" "soff + n \<le> length src"
  shows "\<exists>r. copy32 0 (n div 4) dst doff src soff = Some r \<and> length r = length dst
    \<and> (\<forall>k < length dst. r ! k = (if doff \<le> k \<and> k < doff + n then src ! (soff + (k - doff)) else dst ! k))"
proof -
  from assms(1) obtain m where m: "n = 4 * m" ..
  let ?r = "take doff dst @ take n (drop soff src) @ drop (doff + n) dst"
  have "copy32 0 (n div 4) dst doff src soff = Some ?r"
    using copy32_eq [of 0 m doff dst soff src] assms m by simp
  moreover have "length ?r = length dst" using assms by simp
  moreover have "?r ! k = (if doff \<le> k \<and> k < doff + n then src ! (soff + (k - doff)) else dst ! k)"
    if "k < length dst" for k
    using assms that by (auto simp: nth_append)
  ultimately show ?thesis by blast
qed

lemma toio_block:
  assumes "4 dvd n" "doff + n \<le> length dst" "n \<le> length src"
  obtains r where "memcpy_toio_32 dst doff src n = Some r" "length r = length dst"
    "\<And>k. k < length dst \<Longrightarrow> r ! k = (if doff \<le> k \<and> k < doff + n then src ! (k - doff) else dst ! k)"
proof -
  from copy32_block [of n doff dst 0 src] assms that show ?thesis
    by (auto simp: memcpy_toio_32_def)
qed

lemma fromio_block:
  assumes "4 dvd n" "doff + n \<le> length dst" "soff + n \<le> length src"
  obtains r where "memcpy_fromio_32 dst doff src soff n = Some r" "length r = length dst"
    "\<And>k. k < length dst \<Longrightarrow> r ! k = (if doff \<le> k \<and> k < doff + n then src ! (soff + (k - doff)) else dst ! k)"
proof -
  from copy32_block [of n doff dst soff src] assms that show ?thesis
    by (auto simp: memcpy_fromio_32_def)
qed

section \<open>The transfer functions on the ring\<close>

definition ring_geom :: "mailbox \<Rightarrow> bool" where
  "ring_geom box \<longleftrightarrow> 4 dvd mb_size box \<and> mb_size box \<le> 65536 \<and> length (mb_data box) = mb_size box"

lemma aligned_round: "4 dvd x \<Longrightarrow> (x + 3) div 4 * 4 = (x :: nat)"
  by (auto elim!: dvdE)

lemma wrap_mod: "t < N \<Longrightarrow> i < n \<Longrightarrow> t + n \<le> N + t \<Longrightarrow> (t + i) mod N = (if t + i < N then t + i else t + i - N)"
  for t i n N :: nat
  by (simp add: le_mod_geq)

lemma write_data_ring:
  assumes g: "ring_geom box" and t: "unat (local_tail box) = t" "t < mb_size box" "4 dvd t"
    and n: "4 dvd n" "n \<le> mb_size box" "n \<le> length xs"
  shows "\<exists>d. write_data box xs n = Some (box\<lparr>mb_data := d, local_tail := of_nat ((t + n) mod mb_size box)\<rparr>)
    \<and> length d = mb_size box
    \<and> (\<forall>i < n. d ! ((t + i) mod mb_size box) = xs ! i)
    \<and> (\<forall>k < mb_size box. (\<forall>i < n. k \<noteq> (t + i) mod mb_size box) \<longrightarrow> d ! k = mb_data box ! k)"
proof -
  let ?N = "mb_size box"
  have N: "4 dvd ?N" "length (mb_data box) = ?N" using g by (auto simp: ring_geom_def)
  show ?thesis
  proof (cases "t + n > ?N")
    case False
    have "t + n \<le> length (mb_data box)" using False N by simp
    from toio_block [OF n(1) this n(3)]
    obtain d where d: "memcpy_toio_32 (mb_data box) t xs n = Some d" "length d = ?N"
      "\<And>k. k < ?N \<Longrightarrow> d ! k = (if t \<le> k \<and> k < t + n then xs ! (k - t) else mb_data box ! k)"
      unfolding N(2) by blast
    have w: "write_data box xs n = Some (box\<lparr>mb_data := d, local_tail := of_nat ((t + n) mod ?N)\<rparr>)"
      using d False t n by (simp add: write_data_def mailbox_is_wrapping_def aligned_round)
    have m: "(t + i) mod ?N = t + i" if "i < n" for i using False that t by simp
    have "d ! k = mb_data box ! k" if k: "k < ?N" and o: "\<forall>i < n. k \<noteq> (t + i) mod ?N" for k
    proof -
      have "\<not> (t \<le> k \<and> k < t + n)"
        using o m by (metis add_diff_cancel_left' le_add_diff_inverse nat_add_left_cancel_less)
      with d(3) [OF k] show ?thesis by auto
    qed
    moreover have "d ! ((t + i) mod ?N) = xs ! i" if i: "i < n" for i
      using d(3) [of "t + i"] m [OF i] i False by simp
    ultimately show ?thesis using w d(2) by blast
  next
    case True
    let ?l = "?N - t"
    have l: "4 dvd ?l" "4 dvd n - ?l" "?l < n" "n - ?l \<le> t" using N t n True by auto
    have "t + ?l \<le> length (mb_data box)" "?l \<le> length xs" using N t l n by auto
    from toio_block [OF l(1) this]
    obtain d1 where d1: "memcpy_toio_32 (mb_data box) t xs ?l = Some d1" "length d1 = ?N"
      "\<And>k. k < ?N \<Longrightarrow> d1 ! k = (if t \<le> k \<and> k < t + ?l then xs ! (k - t) else mb_data box ! k)"
      unfolding N(2) by blast
    have "0 + (n - ?l) \<le> length d1" "n - ?l \<le> length (drop ?l xs)" using d1(2) n t by auto
    from toio_block [OF l(2) this]
    obtain d where d: "memcpy_toio_32 d1 0 (drop ?l xs) (n - ?l) = Some d" "length d = ?N"
      "\<And>k. k < ?N \<Longrightarrow> d ! k = (if 0 \<le> k \<and> k < 0 + (n - ?l) then drop ?l xs ! (k - 0) else d1 ! k)"
      unfolding d1(2) by blast
    have md: "(t + n) mod ?N = (n - ?l) mod ?N"
      using True t by (simp add: le_mod_geq add.commute)
    have w: "write_data box xs n = Some (box\<lparr>mb_data := d, local_tail := of_nat ((t + n) mod ?N)\<rparr>)"
    proof -
      have "(0 + (n - ?l) + 3) div 4 * 4 = n - ?l" using aligned_round [OF l(2)] by simp
      then show ?thesis
        unfolding md using d(1) d1(1) True t(1)
        by (simp add: write_data_def mailbox_is_wrapping_def write_in_mailbox_until_wrap_def Let_def
            del: diff_diff_right Nat.diff_diff_right)
    qed
    have m: "(t + i) mod ?N = (if i < ?l then t + i else i - ?l)" if "i < n" for i
      using that l t n by (auto simp: le_mod_geq)
    have "d ! k = mb_data box ! k" if k: "k < ?N" and o: "\<forall>i < n. k \<noteq> (t + i) mod ?N" for k
    proof -
      have "\<not> k < n - ?l"
      proof
        assume "k < n - ?l"
        with o m [of "k + ?l"] show False by (metis add_diff_cancel_right' less_diff_conv not_add_less2)
      qed
      moreover have "\<not> t \<le> k"
      proof
        assume "t \<le> k"
        with k l have a: "k - t < ?l" "k - t < n" "t + (k - t) = k" by auto
        have "(t + (k - t)) mod ?N = k" using m [OF a(2)] a(1,3) by (simp only: if_True)
        with o a(2) show False by metis
      qed
      ultimately show ?thesis using d(3) [OF k] d1(3) [OF k] by simp
    qed
    moreover have "d ! ((t + i) mod ?N) = xs ! i" if i: "i < n" for i
    proof (cases "i < ?l")
      case True
      with m [OF i] d(3) [of "t + i"] d1(3) [of "t + i"] l i n t show ?thesis by simp
    next
      case False
      then obtain j where j: "i = ?l + j" by (metis le_add_diff_inverse not_less)
      with i have jl: "j < n - ?l" "j < ?N" using l t by auto
      have "(t + i) mod ?N = j" using m [OF i] j by simp
      moreover have "d ! j = xs ! i" using d(3) [OF jl(2)] jl(1) j n by (simp add: add.commute)
      ultimately show ?thesis by simp
    qed
    ultimately show ?thesis using w d(2) by blast
  qed
qed

lemma read_data_ring:
  assumes g: "ring_geom box" and h: "unat (mb_head box) = h" "h < mb_size box" "4 dvd h"
    and n: "4 dvd n" "n \<le> mb_size box" "n \<le> length out"
  shows "read_data box out n =
    Some (ring_list ((!) (mb_data box)) (mb_size box) h n @ drop n out,
          box\<lparr>mb_head := of_nat ((h + n) mod mb_size box)\<rparr>)"
proof -
  let ?N = "mb_size box" and ?D = "mb_data box"
  let ?res = "ring_list ((!) ?D) ?N h n @ drop n out"
  have N: "4 dvd ?N" "length ?D = ?N" using g by (auto simp: ring_geom_def)
  have lr: "length ?res = length out" using n by simp
  show ?thesis
  proof (cases "h + n > ?N")
    case False
    have "0 + n \<le> length out" "h + n \<le> length ?D" using False n N by auto
    from fromio_block [OF n(1) this]
    obtain r where r: "memcpy_fromio_32 out 0 ?D h n = Some r" "length r = length out"
      "\<And>k. k < length out \<Longrightarrow> r ! k = (if 0 \<le> k \<and> k < 0 + n then ?D ! (h + (k - 0)) else out ! k)"
      by blast
    have "r = ?res"
    proof (rule nth_equalityI)
      show "length r = length ?res" using r lr by simp
      show "r ! k = ?res ! k" if "k < length r" for k
        using that r False n by (auto simp: nth_append ring_list_nth)
    qed
    with r False h n show ?thesis
      by (simp add: read_data_def mailbox_is_wrapping_def aligned_round)
  next
    case True
    let ?l = "?N - h"
    have l: "4 dvd ?l" "4 dvd n - ?l" "?l < n" "n - ?l \<le> h" using N h n True by auto
    have "0 + ?l \<le> length out" "h + ?l \<le> length ?D" using l n N h by auto
    from fromio_block [OF l(1) this]
    obtain r1 where r1: "memcpy_fromio_32 out 0 ?D h ?l = Some r1" "length r1 = length out"
      "\<And>k. k < length out \<Longrightarrow> r1 ! k = (if 0 \<le> k \<and> k < 0 + ?l then ?D ! (h + (k - 0)) else out ! k)"
      by blast
    have "?l + (n - ?l) \<le> length r1" "0 + (n - ?l) \<le> length ?D" using l n N h r1(2) by auto
    from fromio_block [OF l(2) this]
    obtain r where r: "memcpy_fromio_32 r1 ?l ?D 0 (n - ?l) = Some r" "length r = length out"
      "\<And>k. k < length out \<Longrightarrow> r ! k = (if ?l \<le> k \<and> k < ?l + (n - ?l) then ?D ! (0 + (k - ?l)) else r1 ! k)"
      unfolding r1(2) by blast
    have md: "(h + n) mod ?N = (n - ?l) mod ?N"
      using True h by (simp add: le_mod_geq add.commute)
    have "r = ?res"
    proof (rule nth_equalityI)
      show "length r = length ?res" using r lr by simp
      fix k assume k: "k < length r"
      have "(h + k) mod ?N = (if k < ?l then h + k else k - ?l)" if "k < n"
        using that l h n by (auto simp: le_mod_geq)
      then show "r ! k = ?res ! k"
        using k r r1 l n by (auto simp: nth_append ring_list_nth)
    qed
    moreover have "(0 + (n - ?l) + 3) div 4 * 4 = n - ?l" using aligned_round [OF l(2)] by simp
    ultimately show ?thesis
      unfolding md using r(1) r1(1) True h(1)
      by (simp add: read_data_def mailbox_is_wrapping_def read_in_mailbox_until_wrap_def Let_def
          del: diff_diff_right Nat.diff_diff_right)
  qed
qed

section \<open>Messages in the ring\<close>

text \<open>A message is an identifier and a body of whole 32-bit words; its frame is what travels.\<close>

type_synonym message = "u16 \<times> u8 list"

definition msg_ok :: "message \<Rightarrow> bool" where
  "msg_ok m \<longleftrightarrow> 4 dvd length (snd m) \<and> length (snd m) \<le> 512"

definition frame :: "message \<Rightarrow> u8 list" where
  "frame m = serialize_header (fst m) (of_nat (length (snd m))) @ snd m"

fun parse :: "nat \<Rightarrow> u8 list \<Rightarrow> message list" where
  "parse 0 bs = []"
| "parse (Suc k) bs =
     (if bs = [] then []
      else (let n = unat (unserialize_body_size bs)
            in (unserialize_msg_uid bs, take n (drop 4 bs)) # parse k (drop (4 + n) bs)))"

definition ring_bytes :: "mailbox \<Rightarrow> u8 list" where
  "ring_bytes box = ring_list ((!) (mb_data box)) (mb_size box) (unat (mb_head box)) (used_size box)"

definition mb_content :: "mailbox \<Rightarrow> message list" where
  "mb_content box = parse (length (ring_bytes box)) (ring_bytes box)"

definition mb_inv :: "mailbox \<Rightarrow> bool" where
  "mb_inv box \<longleftrightarrow> ring_geom box \<and> unat (mb_head box) < mb_size box \<and> unat (mb_tail box) < mb_size box
     \<and> 4 dvd unat (mb_head box) \<and> 4 dvd unat (mb_tail box)
     \<and> (\<exists>ms. (\<forall>m \<in> set ms. msg_ok m) \<and> ring_bytes box = concat (map frame ms))"

lemma frame_length [simp]: "length (frame m) = 4 + length (snd m)"
  by (simp add: frame_def)

lemma unserialize_append [simp]:
  "unserialize_msg_uid (serialize_header uid sz @ bs) = uid"
  "unserialize_body_size (serialize_header uid sz @ bs) = sz"
proof -
  have "unserialize_msg_uid (serialize_header uid sz @ bs) = unserialize_msg_uid (serialize_header uid sz)"
    "unserialize_body_size (serialize_header uid sz @ bs) = unserialize_body_size (serialize_header uid sz)"
    by (simp_all add: unserialize_msg_uid_def unserialize_body_size_def nth_append)
  then show "unserialize_msg_uid (serialize_header uid sz @ bs) = uid"
    "unserialize_body_size (serialize_header uid sz @ bs) = sz" by simp_all
qed

lemma unat_u16_small: "n \<le> 512 \<Longrightarrow> unat (of_nat n :: u16) = n"
  by (simp add: unat_of_nat take_bit_eq_mod)

lemma parse_frames:
  "\<forall>m \<in> set ms. msg_ok m \<Longrightarrow> length (concat (map frame ms)) \<le> k \<Longrightarrow> parse k (concat (map frame ms)) = ms"
proof (induction ms arbitrary: k)
  case Nil
  then show ?case by (cases k) auto
next
  case (Cons m ms)
  then obtain k' where k: "k = Suc k'" by (cases k) auto
  obtain uid b where m: "m = (uid, b)" by force
  with Cons.prems have b: "length b \<le> 512" by (simp add: msg_ok_def)
  have f: "frame (uid, b) = serialize_header uid (of_nat (length b)) @ b" by (simp add: frame_def)
  have "serialize_header uid (of_nat (length b)) \<noteq> []" by (simp add: serialize_header_def)
  then show ?case
    using Cons b unfolding k m by (simp add: f unat_u16_small Let_def)
qed

lemma mb_content_eq:
  "\<forall>m \<in> set ms. msg_ok m \<Longrightarrow> ring_bytes box = concat (map frame ms) \<Longrightarrow> mb_content box = ms"
  by (simp add: mb_content_def parse_frames)

lemma used_size_lt:
  "unat (mb_head box) < mb_size box \<Longrightarrow> unat (mb_tail box) < mb_size box \<Longrightarrow> used_size box < mb_size box"
  by (auto simp: used_size_def Let_def)

lemma tail_of_used:
  "unat (mb_head box) < mb_size box \<Longrightarrow> unat (mb_tail box) < mb_size box \<Longrightarrow>
   unat (mb_tail box) = (unat (mb_head box) + used_size box) mod mb_size box"
  by (auto simp: used_size_def Let_def le_mod_geq)

lemma used_of_tail:
  assumes "unat (mb_head box) < mb_size box" "u < mb_size box"
    and "unat (mb_tail box) = (unat (mb_head box) + u) mod mb_size box"
  shows "used_size box = u"
  using assms by (auto simp: used_size_def Let_def mod_if split: if_splits)

lemma ring_bytes_length [simp]: "length (ring_bytes box) = used_size box"
  by (simp add: ring_bytes_def)

lemma used_size_cost:
  "mb_inv box \<Longrightarrow> used_size box = sum_list (map (\<lambda>m. 4 + length (snd m)) (mb_content box))"
proof -
  assume "mb_inv box"
  then obtain ms where ms: "\<forall>m \<in> set ms. msg_ok m" "ring_bytes box = concat (map frame ms)"
    by (auto simp: mb_inv_def)
  have "used_size box = length (concat (map frame ms))"
    using ms(2) ring_bytes_length by metis
  then show ?thesis
    using mb_content_eq [OF ms] by (simp add: length_concat comp_def)
qed

section \<open>Sending\<close>

lemma pull_push_frame [simp]:
  "mb_size (pull_tail box) = mb_size box" "mb_data (pull_tail box) = mb_data box"
  "mb_head (pull_tail box) = mb_head box" "mb_size (push_tail box) = mb_size box"
  "mb_data (push_tail box) = mb_data box" "mb_head (push_tail box) = mb_head box"
  by (simp_all add: pull_tail_def push_tail_def)

text \<open>Putting a block behind the live part, with the tail in the 16-bit register copy.\<close>

lemma write_data_put:
  assumes g: "ring_geom box" and h: "unat (mb_head box) = h" "h < mb_size box"
    and t: "unat (local_tail box) = (h + u) mod mb_size box" "4 dvd h + u"
    and n: "4 dvd length xs" "u + length xs < mb_size box" "length xs \<le> length ys" "take (length xs) ys = xs"
  shows "\<exists>d. write_data box ys (length xs) = Some (box\<lparr>mb_data := d, local_tail := of_nat ((h + u + length xs) mod mb_size box)\<rparr>)
    \<and> length d = mb_size box
    \<and> unat (of_nat ((h + u + length xs) mod mb_size box) :: u16) = (h + (u + length xs)) mod mb_size box
    \<and> ring_list ((!) d) (mb_size box) h (u + length xs) = ring_list ((!) (mb_data box)) (mb_size box) h u @ xs"
proof -
  let ?N = "mb_size box" and ?t = "unat (local_tail box)"
  have N: "4 dvd ?N" "?N \<le> 65536" using g by (auto simp: ring_geom_def)
  have "?t < ?N" "4 dvd ?t" using t N h by (simp_all add: dvd_mod_iff)
  with write_data_ring [OF g refl this n(1) _ n(3)] n(2)
  obtain d where d: "write_data box ys (length xs) = Some (box\<lparr>mb_data := d, local_tail := of_nat ((?t + length xs) mod ?N)\<rparr>)"
    "length d = ?N" "\<And>i. i < length xs \<Longrightarrow> d ! ((?t + i) mod ?N) = ys ! i"
    "\<And>k. k < ?N \<Longrightarrow> (\<forall>i < length xs. k \<noteq> (?t + i) mod ?N) \<Longrightarrow> d ! k = mb_data box ! k"
    by auto
  have e: "(?t + i) mod ?N = (h + u + i) mod ?N" for i using t by (simp add: mod_simps)
  have ys: "ys ! i = xs ! i" if "i < length xs" for i using n(4) that by (metis nth_take)
  have "ring_list ((!) d) ?N h (u + length xs) = ring_list ((!) (mb_data box)) ?N h u @ xs"
    by (rule ring_list_put_block) (use n d e ys in auto)
  moreover have "(h + u + length xs) mod ?N < 65536"
    using N h pos_mod_bound by (metis le_less_trans less_le_trans mod_less_divisor not_less_zero zero_less_iff_neq_zero)
  then have "unat (of_nat ((h + u + length xs) mod ?N) :: u16) = (h + (u + length xs)) mod ?N"
    by (simp add: unat_of_nat take_bit_eq_mod add.assoc)
  ultimately show ?thesis using d(1,2) e by auto
qed

text \<open>The geometry part of the invariant, without what the bytes mean.\<close>

definition regs_ok :: "mailbox \<Rightarrow> bool" where
  "regs_ok box \<longleftrightarrow> ring_geom box \<and> unat (mb_head box) < mb_size box \<and> unat (mb_tail box) < mb_size box
     \<and> 4 dvd unat (mb_head box) \<and> 4 dvd unat (mb_tail box)"

lemma mb_invI:
  "regs_ok box \<Longrightarrow> \<forall>m \<in> set ms. msg_ok m \<Longrightarrow> ring_bytes box = concat (map frame ms) \<Longrightarrow> mb_inv box"
  by (auto simp: mb_inv_def regs_ok_def)

lemma mb_invE:
  assumes "mb_inv box"
  obtains "regs_ok box" "\<forall>m \<in> set (mb_content box). msg_ok m"
    "ring_bytes box = concat (map frame (mb_content box))"
proof -
  from assms obtain ms where "regs_ok box" "\<forall>m \<in> set ms. msg_ok m" "ring_bytes box = concat (map frame ms)"
    by (auto simp: mb_inv_def regs_ok_def)
  with mb_content_eq that show thesis by metis
qed

lemma dvd_used: "regs_ok box \<Longrightarrow> 4 dvd unat (mb_head box) + used_size box"
  by (auto simp: regs_ok_def used_size_def Let_def ring_geom_def)

lemma unat_word_inverse: "of_nat (unat (w :: u16)) = w"
  by simp

text \<open>
  A write in progress: the ring holds the bytes \<open>bs\<close> up to the writer's own tail, which the reader
  does not see yet.
\<close>

definition staged :: "mailbox \<Rightarrow> u8 list \<Rightarrow> bool" where
  "staged box bs \<longleftrightarrow> ring_geom box \<and> unat (mb_head box) < mb_size box \<and> 4 dvd unat (mb_head box)
     \<and> 4 dvd unat (mb_head box) + length bs \<and> length bs < mb_size box
     \<and> unat (local_tail box) = (unat (mb_head box) + length bs) mod mb_size box
     \<and> ring_list ((!) (mb_data box)) (mb_size box) (unat (mb_head box)) (length bs) = bs"

lemma staged_pull:
  assumes "regs_ok box"
  shows "staged (pull_tail box) (ring_bytes box)"
proof -
  have h: "unat (mb_head box) < mb_size box" and t: "unat (mb_tail box) < mb_size box"
    and N: "mb_size box \<le> 65536" and g: "ring_geom box"
    using assms by (auto simp: regs_ok_def ring_geom_def)
  have "unat (local_tail (pull_tail box)) = unat (mb_tail box)"
    using t N by (simp add: pull_tail_def unsigned_ucast_eq unsigned_take_bit_eq take_bit_eq_mod)
  then have "unat (local_tail (pull_tail box)) = (unat (mb_head box) + used_size box) mod mb_size box"
    using tail_of_used [OF h t] by simp
  moreover have "4 dvd unat (mb_head box)" using assms by (simp add: regs_ok_def)
  ultimately show ?thesis
    using h g used_size_lt [OF h t] dvd_used [OF assms]
    by (simp add: staged_def ring_geom_def ring_bytes_def)
qed

lemma staged_write:
  assumes s: "staged box bs" and n: "4 dvd length xs" "length bs + length xs < mb_size box"
    "length xs \<le> length ys" "take (length xs) ys = xs"
  shows "\<exists>box'. write_data box ys (length xs) = Some box' \<and> staged box' (bs @ xs)
    \<and> mb_size box' = mb_size box \<and> mb_head box' = mb_head box \<and> mb_tail box' = mb_tail box"
proof -
  let ?h = "unat (mb_head box)"
  from s have g: "ring_geom box" "?h < mb_size box" "4 dvd ?h + length bs"
    "unat (local_tail box) = (?h + length bs) mod mb_size box"
    "ring_list ((!) (mb_data box)) (mb_size box) ?h (length bs) = bs"
    by (auto simp: staged_def)
  from write_data_put [OF g(1) refl g(2) g(4) g(3) n] obtain d where d:
    "write_data box ys (length xs)
       = Some (box\<lparr>mb_data := d, local_tail := of_nat ((?h + length bs + length xs) mod mb_size box)\<rparr>)"
    "length d = mb_size box"
    "unat (of_nat ((?h + length bs + length xs) mod mb_size box) :: u16)
       = (?h + (length bs + length xs)) mod mb_size box"
    "ring_list ((!) d) (mb_size box) ?h (length bs + length xs) = bs @ xs"
    unfolding g(5) by blast
  have g6: "4 dvd ?h" using s by (simp add: staged_def)
  have "4 dvd ?h + (length bs + length xs)"
    using g(3) n(1) by (simp add: add.assoc [symmetric])
  with d(2,4) g(1,2) n(2) g6
  have "staged (box\<lparr>mb_data := d, local_tail := lt\<rparr>) (bs @ xs)"
    if "unat lt = (?h + (length bs + length xs)) mod mb_size box" for lt
    using that by (simp add: staged_def ring_geom_def)
  from this [OF d(3)] d(1) show ?thesis by auto
qed

lemma staged_push:
  assumes s: "staged box bs"
  shows "regs_ok (push_tail box)" "ring_bytes (push_tail box) = bs"
proof -
  have N: "4 dvd mb_size box" using s by (simp add: staged_def ring_geom_def)
  have h: "unat (mb_head (push_tail box)) < mb_size (push_tail box)"
    and b: "length bs < mb_size (push_tail box)" using s by (auto simp: staged_def)
  have t: "unat (mb_tail (push_tail box)) = (unat (mb_head (push_tail box)) + length bs) mod mb_size (push_tail box)"
    using s by (simp add: staged_def push_tail_def)
  have u: "used_size (push_tail box) = length bs" by (rule used_of_tail [OF h b t])
  have "4 dvd unat (mb_tail (push_tail box))"
    unfolding t using s N by (simp add: staged_def dvd_mod_iff)
  moreover have "unat (mb_tail (push_tail box)) < mb_size (push_tail box)"
    unfolding t using h by simp
  ultimately show "regs_ok (push_tail box)"
    using s by (simp add: regs_ok_def staged_def ring_geom_def)
  show "ring_bytes (push_tail box) = bs"
    using s u by (simp add: ring_bytes_def staged_def)
qed

lemma room_test:
  assumes "regs_ok box" "mail_ok mail"
  shows "not_enough_space_in_mailbox (mb_size box) (used_size box) (length (payload mail) + 4)
    \<longleftrightarrow> used_size box + (length (payload mail) + 4) + 4 > mb_size box"
proof -
  have "used_size box < mb_size box" "mb_size box \<le> 65536"
    using assms(1) used_size_lt by (auto simp: regs_ok_def ring_geom_def)
  moreover have "length (payload mail) < 65536"
    using payload_length [OF assms(2)] unsigned_less [of "body_size mail"] by simp
  ultimately show ?thesis
    using not_enough_space [of "used_size box" "mb_size box" "length (payload mail) + 4"] by auto
qed

lemma mailbox_write_put:
  assumes r: "regs_ok box" and m: "mail_ok mail" "msg_ok (msg_uid mail, payload mail)"
    and room: "used_size box + (length (payload mail) + 4) + 4 \<le> mb_size box"
  shows "\<exists>box'. al5_mailbox_write box mail = Some (0, box') \<and> regs_ok box'
    \<and> ring_bytes box' = ring_bytes box @ frame (msg_uid mail, payload mail) \<and> mb_size box' = mb_size box"
proof -
  let ?hdr = "serialize_header (msg_uid mail) (body_size mail)"
  have bs: "unat (body_size mail) = length (payload mail)" using payload_length [OF m(1)] by simp
  have b: "4 dvd length (payload mail)" using m(2) by (simp add: msg_ok_def)
  have "length (ring_bytes box) + length ?hdr < mb_size (pull_tail box)" using room by simp
  from staged_write [OF staged_pull [OF r] _ this, of ?hdr] obtain box1 where b1:
    "write_data (pull_tail box) ?hdr 4 = Some box1" "staged box1 (ring_bytes box @ ?hdr)"
    "mb_size box1 = mb_size box"
    by auto
  have "length (ring_bytes box @ ?hdr) + length (payload mail) < mb_size box1"
    using room b1(3) by simp
  moreover have "length (payload mail) \<le> length (body mail)"
    "take (length (payload mail)) (body mail) = payload mail"
    using m(1) by (simp_all add: payload_def mail_ok_def)
  ultimately obtain box2 where b2: "write_data box1 (body mail) (length (payload mail)) = Some box2"
    "staged box2 ((ring_bytes box @ ?hdr) @ payload mail)" "mb_size box2 = mb_size box"
    using staged_write [OF b1(2) b] b1(3) by metis
  have sz: "of_nat (length (payload mail)) = body_size mail"
    using bs by (metis unat_word_inverse)
  have "\<not> not_enough_space_in_mailbox (mb_size box) (used_size box) (length (payload mail) + 4)"
    using room_test [OF r, of mail] room m(1) by simp
  then have "al5_mailbox_write box mail = Some (0, push_tail box2)"
    using b1(1) b2(1)
    by (simp add: al5_mailbox_write_def al5_mail_get_size_def
        al5_mail_get_uid_def al5_mail_get_body_def header_size_def bs sz Let_def)
  moreover from sz have "ring_bytes (push_tail box2) = ring_bytes box @ frame (msg_uid mail, payload mail)"
    using staged_push(2) [OF b2(2)] by (simp add: frame_def)
  ultimately show ?thesis using staged_push(1) [OF b2(2)] b2(3) by auto
qed

lemma mailbox_write_full:
  assumes "regs_ok box" "mail_ok mail" "used_size box + (length (payload mail) + 4) + 4 > mb_size box"
  shows "al5_mailbox_write box mail = Some (- EAGAIN, box)"
  using room_test [OF assms(1,2)] assms(3) payload_length [OF assms(2)]
  by (simp add: al5_mailbox_write_def al5_mail_get_size_def header_size_def Let_def)

section \<open>Receiving\<close>

lemma read_data_take:
  assumes r: "regs_ok box" and b: "ring_bytes box = xs @ rest"
    and n: "4 dvd length xs" "length xs \<le> length out"
  shows "\<exists>box'. read_data box out (length xs) = Some (xs @ drop (length xs) out, box') \<and> regs_ok box'
    \<and> ring_bytes box' = rest \<and> mb_size box' = mb_size box \<and> mb_tail box' = mb_tail box
    \<and> unat (mb_head box') = (unat (mb_head box) + length xs) mod mb_size box"
proof -
  let ?N = "mb_size box" and ?h = "unat (mb_head box)" and ?n = "length xs"
  from r have g: "ring_geom box" and h: "?h < ?N" "4 dvd ?h" and t: "unat (mb_tail box) < ?N"
    by (auto simp: regs_ok_def)
  have N: "?N \<le> 65536" "4 dvd ?N" using g by (auto simp: ring_geom_def)
  have u: "used_size box = ?n + length rest" using b ring_bytes_length [of box] by simp
  then have le: "?n \<le> ?N" using used_size_lt [OF h(1) t] by simp
  have sp: "xs = ring_list ((!) (mb_data box)) ?N ?h ?n"
    "rest = ring_list ((!) (mb_data box)) ?N ((?h + ?n) mod ?N) (length rest)"
    using b unfolding ring_bytes_def u ring_list_append by (auto simp: append_eq_append_conv)
  have rd: "read_data box out ?n =
      Some (xs @ drop ?n out, box\<lparr>mb_head := of_nat ((?h + ?n) mod ?N)\<rparr>)"
    using read_data_ring [OF g refl h n(1) le n(2)] sp(1) by simp
  have lt: "(?h + ?n) mod ?N < ?N" using h by simp
  have hd: "unat (of_nat ((?h + ?n) mod ?N) :: u32) = (?h + ?n) mod ?N"
    using lt N by (simp add: unat_of_nat take_bit_eq_mod)
  have d: "4 dvd (?h + ?n) mod ?N" using h n N by (simp add: dvd_mod_iff)
  have main: "regs_ok (box\<lparr>mb_head := hw\<rparr>) \<and> ring_bytes (box\<lparr>mb_head := hw\<rparr>) = rest"
    if hw: "unat hw = (?h + ?n) mod ?N" for hw
  proof -
    let ?b = "box\<lparr>mb_head := hw\<rparr>"
    have "unat (mb_tail ?b) = (unat (mb_head ?b) + length rest) mod mb_size ?b"
      using tail_of_used [OF h(1) t] u hw by (simp add: mod_simps add.assoc)
    moreover have "unat (mb_head ?b) < mb_size ?b" "length rest < mb_size ?b"
      using hw lt u used_size_lt [OF h(1) t] by simp_all
    ultimately have "used_size ?b = length rest" by (intro used_of_tail)
    then have "ring_bytes ?b = rest" using sp(2) hw by (simp add: ring_bytes_def)
    moreover have "regs_ok ?b" using r hw lt d by (simp add: regs_ok_def ring_geom_def)
    ultimately show ?thesis by blast
  qed
  from main [OF hd] rd hd show ?thesis by auto
qed

text \<open>Reading the oldest message; and what happens to one too big for the caller's block.\<close>

lemma mailbox_read_take:
  assumes r: "regs_ok box" and b: "ring_bytes box = frame (uid, d) @ rest" and m: "msg_ok (uid, d)"
    and j: "length junk = 4" and blk: "length blk = mail_size" "16 + length d \<le> mail_size"
  shows "\<exists>mail box'. al5_mailbox_read junk box blk mail_size = Some (Some mail, box')
    \<and> msg_uid mail = uid \<and> payload mail = d \<and> mail_ok mail
    \<and> regs_ok box' \<and> ring_bytes box' = rest \<and> mb_size box' = mb_size box"
proof -
  let ?hdr = "serialize_header uid (of_nat (length d))"
  have d: "4 dvd length d" "length d \<le> 512" using m by (auto simp: msg_ok_def)
  have "ring_bytes box = ?hdr @ d @ rest" using b by (simp add: frame_def)
  from read_data_take [OF r this, of junk] j obtain box1 where b1:
    "read_data box junk 4 = Some (?hdr, box1)" "regs_ok box1" "ring_bytes box1 = d @ rest"
    "mb_size box1 = mb_size box" by auto
  have "length d \<le> length (drop 16 blk)" using blk by simp
  from read_data_take [OF b1(2,3) d(1) this] obtain box2 where b2:
    "read_data box1 (drop 16 blk) (length d) = Some (d @ drop (length d) (drop 16 blk), box2)"
    "regs_ok box2" "ring_bytes box2 = rest" "mb_size box2 = mb_size box1" by auto
  have u: "unat (of_nat (length d) :: u16) = length d" by (rule unat_u16_small [OF d(2)])
  let ?mail = "\<lparr>body_offset = 0 + ucast (of_nat (length d) :: u16), msg_uid = uid,
    body_size = of_nat (length d), body = d @ drop (length d) (drop 16 blk)\<rparr>"
  have "al5_mailbox_read junk box blk mail_size = Some (Some ?mail, box2)"
    using b1(1) b2(1) blk(2)
    by (simp add: al5_mailbox_read_def header_size_def al5_get_mail_alloc_size_def
        get_mail_struct_size_def u al5_mail_init_def Let_def)
  moreover have "payload ?mail = d" "mail_ok ?mail" by (simp_all add: payload_def mail_ok_def u)
  ultimately show ?thesis using b2 b1(4) by fastforce
qed

lemma mailbox_read_oversize:
  assumes r: "regs_ok box" and b: "ring_bytes box = frame (uid, d) @ rest" and m: "msg_ok (uid, d)"
    and j: "length junk = 4" and big: "mail_size < 16 + length d"
  shows "\<exists>box'. al5_mailbox_read junk box blk mail_size = Some (None, box') \<and> regs_ok box'
    \<and> ring_bytes box' = d @ rest"
proof -
  let ?hdr = "serialize_header uid (of_nat (length d))"
  have "ring_bytes box = ?hdr @ d @ rest" using b by (simp add: frame_def)
  from read_data_take [OF r this, of junk] j obtain box1 where b1:
    "read_data box junk 4 = Some (?hdr, box1)" "regs_ok box1" "ring_bytes box1 = d @ rest" by auto
  have u: "unat (of_nat (length d) :: u16) = length d"
    using m by (intro unat_u16_small) (simp add: msg_ok_def)
  have "al5_mailbox_read junk box blk mail_size = Some (None, box1)"
    using b1(1) big
    by (simp add: al5_mailbox_read_def header_size_def al5_get_mail_alloc_size_def
        get_mail_struct_size_def u Let_def)
  with b1 show ?thesis by auto
qed

section \<open>The FIFO contract\<close>

definition mail_of :: "message \<Rightarrow> al5_mail" where
  "mail_of m = \<lparr>body_offset = of_nat (length (snd m)), msg_uid = fst m, body_size = of_nat (length (snd m)),
                body = snd m\<rparr>"

lemma mail_of_ok: "msg_ok m \<Longrightarrow> mail_ok (mail_of m) \<and> payload (mail_of m) = snd m \<and> msg_uid (mail_of m) = fst m"
  by (simp add: mail_of_def mail_ok_def payload_def msg_ok_def unat_u16_small)

text \<open>
  One side sends, the other receives: the write of \<open>al5_mcu_send\<close> and the read of \<open>al5_mcu_recv\<close>
  after the test \<open>al5_mcu_is_empty\<close>, on a block of the size that function allocates.
\<close>

definition mailbox_enq :: "message \<Rightarrow> mailbox \<Rightarrow> mailbox option" where
  "mailbox_enq m box =
     (case al5_mailbox_write box (mail_of m) of
        Some (err, box') \<Rightarrow> if err = 0 then Some box' else None
      | None \<Rightarrow> None)"

definition mailbox_deq :: "mailbox \<Rightarrow> (message \<times> mailbox) option" where
  "mailbox_deq box =
     (if mailbox_empty box then None
      else (case al5_mailbox_read (replicate 4 0) box (replicate mcu_mail_size 0) mcu_mail_size of
              Some (Some mail, box') \<Rightarrow> Some ((msg_uid mail, payload mail), box')
            | _ \<Rightarrow> None))"

lemma mailbox_empty_iff:
  assumes "mb_inv box"
  shows "mailbox_empty box \<longleftrightarrow> mb_content box = []"
proof -
  from assms have r: "unat (mb_head box) < mb_size box" "unat (mb_tail box) < mb_size box"
    by (auto simp: mb_inv_def)
  have "mailbox_empty box \<longleftrightarrow> used_size box = 0"
    using r by (auto simp: mailbox_empty_def used_size_def Let_def word_unat_eq_iff)
  moreover have "used_size box = 0 \<longleftrightarrow> mb_content box = []"
    using used_size_cost [OF assms] by (cases "mb_content box") auto
  ultimately show ?thesis by simp
qed

lemma mcu_mail_size_eq: "mcu_mail_size = 528"
  by (simp add: mcu_mail_size_def al5_get_mail_alloc_size_def get_mail_struct_size_def)

lemma mailbox_write_law:
  assumes i: "mb_inv box" and m: "mail_ok mail" "msg_ok (msg_uid mail, payload mail)"
    and room: "used_size box + (length (payload mail) + 4) + 4 \<le> mb_size box"
  shows "\<exists>box'. al5_mailbox_write box mail = Some (0, box') \<and> mb_inv box'
    \<and> mb_content box' = mb_content box @ [(msg_uid mail, payload mail)] \<and> mb_size box' = mb_size box"
proof -
  from i obtain r: "regs_ok box" and ms: "\<forall>m \<in> set (mb_content box). msg_ok m"
    and b: "ring_bytes box = concat (map frame (mb_content box))"
    by (rule mb_invE)
  from mailbox_write_put [OF r m room] obtain box' where b':
    "al5_mailbox_write box mail = Some (0, box')" "regs_ok box'" "mb_size box' = mb_size box"
    "ring_bytes box' = ring_bytes box @ frame (msg_uid mail, payload mail)" by blast
  let ?ms = "mb_content box @ [(msg_uid mail, payload mail)]"
  have "\<forall>m \<in> set ?ms. msg_ok m" "ring_bytes box' = concat (map frame ?ms)"
    using ms m b b'(4) by auto
  with b' mb_content_eq [OF this] mb_invI [OF b'(2) this] show ?thesis by auto
qed

lemma mailbox_read_law:
  assumes i: "mb_inv box" and c: "mb_content box = (uid, d) # ms"
    and j: "length junk = 4" and blk: "length blk = mail_size" "16 + length d \<le> mail_size"
  shows "\<exists>mail box'. al5_mailbox_read junk box blk mail_size = Some (Some mail, box')
    \<and> msg_uid mail = uid \<and> payload mail = d \<and> mail_ok mail
    \<and> mb_inv box' \<and> mb_content box' = ms \<and> mb_size box' = mb_size box"
proof -
  from i obtain r: "regs_ok box" and ok: "\<forall>m \<in> set (mb_content box). msg_ok m"
    and b: "ring_bytes box = concat (map frame (mb_content box))"
    by (rule mb_invE)
  from ok c have ok': "msg_ok (uid, d)" "\<forall>m \<in> set ms. msg_ok m" by auto
  have "ring_bytes box = frame (uid, d) @ concat (map frame ms)" using b c by simp
  from mailbox_read_take [OF r this ok'(1) j blk] obtain mail box' where
    "al5_mailbox_read junk box blk mail_size = Some (Some mail, box')" "msg_uid mail = uid"
    "payload mail = d" "mail_ok mail" "regs_ok box'" "ring_bytes box' = concat (map frame ms)"
    "mb_size box' = mb_size box" by blast
  with mb_invI [OF _ ok'(2)] mb_content_eq [OF ok'(2)] show ?thesis by blast
qed

lemma mailbox_deq_law:
  assumes i: "mb_inv box" and c: "mb_content box = m # ms"
  shows "\<exists>box'. mailbox_deq box = Some (m, box') \<and> mb_inv box' \<and> mb_content box' = ms
    \<and> mb_size box' = mb_size box"
proof -
  obtain uid d where m: "m = (uid, d)" by force
  have "msg_ok m" using i c by (auto elim!: mb_invE)
  then have "16 + length d \<le> mcu_mail_size" by (simp add: m msg_ok_def mcu_mail_size_eq)
  with mailbox_read_law [OF i, of uid d ms "replicate 4 0" "replicate mcu_mail_size 0" mcu_mail_size] c m
  obtain mail box' where "al5_mailbox_read (replicate 4 0) box (replicate mcu_mail_size 0) mcu_mail_size = Some (Some mail, box')"
    "msg_uid mail = uid" "payload mail = d" "mb_inv box'" "mb_content box' = ms" "mb_size box' = mb_size box"
    by auto
  with mailbox_empty_iff [OF i] c m show ?thesis by (simp add: mailbox_deq_def)
qed

text \<open>Every accepted message costs its frame, and 4 bytes of the ring always stay free.\<close>

lemma mailbox_enq_law:
  assumes "mb_inv box" "msg_ok m"
  shows "if used_size box + (4 + length (snd m)) \<le> mb_size box - 4
         then \<exists>box'. mailbox_enq m box = Some box' \<and> mb_inv box' \<and> mb_content box' = mb_content box @ [m]
           \<and> mb_size box' = mb_size box
         else mailbox_enq m box = None"
proof -
  have o: "mail_ok (mail_of m)" "payload (mail_of m) = snd m" "msg_uid (mail_of m) = fst m"
    using mail_of_ok [OF assms(2)] by auto
  have N: "4 \<le> mb_size box"
    using assms(1) by (auto simp: mb_inv_def ring_geom_def elim!: dvdE)
  show ?thesis
  proof (cases "used_size box + (4 + length (snd m)) \<le> mb_size box - 4")
    case True
    with mailbox_write_law [OF assms(1) o(1)] o assms(2) N show ?thesis
      by (fastforce simp: mailbox_enq_def)
  next
    case False
    have "regs_ok box" using assms(1) by (rule mb_invE)
    with False mailbox_write_full [OF _ o(1), of box] o N show ?thesis
      by (simp add: mailbox_enq_def EAGAIN_def)
  qed
qed

lemma write_data_size: "write_data box xs n = Some box' \<Longrightarrow> mb_size box' = mb_size box"
  by (auto simp: write_data_def write_in_mailbox_until_wrap_def Let_def
      split: if_splits bind_splits prod.splits)

lemma read_data_size: "read_data box out n = Some (o', box') \<Longrightarrow> mb_size box' = mb_size box"
  by (auto simp: read_data_def split: if_splits bind_splits prod.splits)

lemma mailbox_enq_size: "mailbox_enq m box = Some box' \<Longrightarrow> mb_size box' = mb_size box"
  by (auto simp: mailbox_enq_def al5_mailbox_write_def Let_def EAGAIN_def
      split: option.splits if_splits bind_splits dest!: write_data_size)

lemma mailbox_deq_size: "mailbox_deq box = Some (m, box') \<Longrightarrow> mb_size box' = mb_size box"
  by (auto simp: mailbox_deq_def al5_mailbox_read_def Let_def
      split: option.splits if_splits bind_splits prod.splits dest!: read_data_size)

interpretation mailbox_fifo: bounded_fifo_spec mb_inv mb_content msg_ok mailbox_enq mailbox_deq
  "\<lambda>m. 4 + length (snd m)" "\<lambda>box. mb_size box - 4"
proof
  fix q q' :: mailbox and x y :: message and xs
  show "mb_inv q \<Longrightarrow> msg_ok x \<Longrightarrow> mailbox_enq x q = Some q' \<Longrightarrow> mb_inv q' \<and> mb_content q' = mb_content q @ [x]"
    using mailbox_enq_law [of q x] by (auto split: if_splits)
  show "mb_inv q \<Longrightarrow> mb_content q = x # xs \<Longrightarrow> \<exists>q'. mailbox_deq q = Some (x, q') \<and> mb_inv q' \<and> mb_content q' = xs"
    using mailbox_deq_law by blast
  show "mb_inv q \<Longrightarrow> mb_content q = [] \<Longrightarrow> mailbox_deq q = None"
    by (simp add: mailbox_deq_def mailbox_empty_iff)
  show "mb_inv q \<Longrightarrow> msg_ok x \<Longrightarrow> (\<exists>q'. mailbox_enq x q = Some q') =
      (sum_list (map (\<lambda>m. 4 + length (snd m)) (mb_content q)) + (4 + length (snd x)) \<le> mb_size q - 4)"
    using mailbox_enq_law [of q x] used_size_cost [of q] by (auto split: if_splits)
  show "mailbox_enq x q = Some q' \<Longrightarrow> mb_size q' - 4 = mb_size q - 4"
    by (simp add: mailbox_enq_size)
  show "mailbox_deq q = Some (x, q') \<Longrightarrow> mb_size q' - 4 = mb_size q - 4"
    by (simp add: mailbox_deq_size)
qed

text \<open>A mailbox just initialised on memory of a legal size is empty and in the invariant.\<close>

lemma mailbox_init_inv:
  assumes "4 dvd n" "0 < n" "n \<le> 65536" "n \<le> length memory"
  shows "mb_inv (al5_mailbox_init memory n) \<and> mb_content (al5_mailbox_init memory n) = []"
proof -
  let ?b = "al5_mailbox_init memory n"
  have r: "regs_ok ?b" using assms by (simp add: regs_ok_def ring_geom_def al5_mailbox_init_def)
  have "used_size ?b = 0" by (simp add: used_size_def al5_mailbox_init_def)
  then have "ring_bytes ?b = concat (map frame [])" by (simp add: ring_bytes_def)
  with mb_invI [OF r, of "[]"] mb_content_eq [of "[]" ?b] show ?thesis by simp
qed

lemma mailbox_init_64:
  "mb_inv (al5_mailbox_init (replicate 64 0) 64)" "mb_content (al5_mailbox_init (replicate 64 0) 64) = []"
  "used_size (al5_mailbox_init (replicate 64 0) 64) = 0" "mb_size (al5_mailbox_init (replicate 64 0) 64) = 64"
  using mailbox_init_inv [of 64 "replicate 64 0"]
  by (simp_all add: used_size_def al5_mailbox_init_def)

lemma mailbox_init_1024:
  "mb_inv (al5_mailbox_init (replicate 1024 0) 1024)"
  "mb_content (al5_mailbox_init (replicate 1024 0) 1024) = []"
  "mb_size (al5_mailbox_init (replicate 1024 0) 1024) = 1024"
  using mailbox_init_inv [of 1024 "replicate 1024 0"] by (simp_all add: al5_mailbox_init_def)

lemma small_msg_ok: "msg_ok (uid, [1, 2, 3, 4])"
  by (simp add: msg_ok_def eval_nat_numeral)

text \<open>A mailbox that holds one small mail, for the concrete runs below.\<close>

lemma mailbox_one_mail:
  obtains b where "mailbox_enq (6, [1, 2, 3, 4]) (al5_mailbox_init (replicate 64 0) 64) = Some b"
    "mb_inv b" "mb_content b = [(6, [1, 2, 3, 4])]"
  using mailbox_enq_law [OF mailbox_init_64(1) small_msg_ok, of 6] mailbox_init_64 by auto

section \<open>Properties\<close>

text \<open>C7: Whatever sequence of sends and receives runs on a mailbox, the mails received are the mails
  accepted, complete and in their order; what is left is still in the ring.\<close>

theorem mailbox_exchange_order:
  assumes "mb_inv box" "\<And>m. m \<in> enqueued ops \<Longrightarrow> msg_ok m"
    and "fifo_run mailbox_enq mailbox_deq ops box = (acc, out, box')"
  shows "mb_inv box' \<and> mb_content box @ acc = out @ mb_content box'"
  using assms by (rule mailbox_fifo.run_order)

lemma mailbox_exchange_order_witness:
  "\<exists>acc out box'. fifo_run mailbox_enq mailbox_deq [Enq (5, [1, 2, 3, 4]), Deq, Deq]
       (al5_mailbox_init (replicate 64 0) 64) = (acc, out, box') \<and> acc = out @ mb_content box'"
proof -
  obtain acc out box' where r: "fifo_run mailbox_enq mailbox_deq [Enq (5, [1, 2, 3, 4]), Deq, Deq]
       (al5_mailbox_init (replicate 64 0) 64) = (acc, out, box')"
    by (metis prod_cases3)
  have "msg_ok m" if "m \<in> enqueued [Enq (5, [1, 2, 3, 4]), Deq, Deq]" for m
    using that small_msg_ok by simp
  from mailbox_exchange_order [OF mailbox_init_64(1) this r] mailbox_init_64(2) r show ?thesis
    by (intro exI [of _ acc] exI [of _ out] exI [of _ box']) simp
qed

text \<open>C9: A send is all or nothing: when the mail fits with a word to spare, \<open>al5_mcu_send\<close> returns 0
  and the mail stands behind the others; otherwise it returns \<open>-EAGAIN\<close> and no word of the ring, no
  register changes.\<close>

theorem mcu_send_all_or_nothing:
  assumes "mb_inv (cpu_to_mcu mcu)" "mail_ok mail" "msg_ok (msg_uid mail, payload mail)"
  shows "if used_size (cpu_to_mcu mcu) + length (payload mail) + 8 \<le> mb_size (cpu_to_mcu mcu)
    then \<exists>box. al5_mcu_send mcu mail = Some (0, mcu\<lparr>cpu_to_mcu := box\<rparr>) \<and> mb_inv box
           \<and> mb_content box = mb_content (cpu_to_mcu mcu) @ [(msg_uid mail, payload mail)]
    else al5_mcu_send mcu mail = Some (- EAGAIN, mcu)"
proof (cases "used_size (cpu_to_mcu mcu) + length (payload mail) + 8 \<le> mb_size (cpu_to_mcu mcu)")
  case True
  then obtain box where "al5_mailbox_write (cpu_to_mcu mcu) mail = Some (0, box)" "mb_inv box"
    "mb_content box = mb_content (cpu_to_mcu mcu) @ [(msg_uid mail, payload mail)]"
    using mailbox_write_law [OF assms] by auto
  with True show ?thesis by (auto simp: al5_mcu_send_def intro!: exI [of _ box])
next
  case False
  moreover have "regs_ok (cpu_to_mcu mcu)" using assms(1) by (rule mb_invE)
  ultimately show ?thesis
    using mailbox_write_full [OF _ assms(2), of "cpu_to_mcu mcu"] by (simp add: al5_mcu_send_def)
qed

lemma mcu_send_all_or_nothing_witness:
  "\<exists>box. al5_mcu_send \<lparr>mcu_to_cpu = al5_mailbox_init [] 0, cpu_to_mcu = al5_mailbox_init (replicate 64 0) 64,
       interrupts = 0\<rparr> \<lparr>body_offset = 4, msg_uid = 6, body_size = 4, body = [1, 2, 3, 4]\<rparr>
     = Some (0, \<lparr>mcu_to_cpu = al5_mailbox_init [] 0, cpu_to_mcu = box, interrupts = 0\<rparr>)
     \<and> mb_content box = [(6, [1, 2, 3, 4])]"
proof -
  let ?m = "\<lparr>mcu_to_cpu = al5_mailbox_init [] 0, cpu_to_mcu = al5_mailbox_init (replicate 64 0) 64,
     interrupts = 0\<rparr>"
  let ?mail = "\<lparr>body_offset = 4, msg_uid = 6, body_size = 4, body = [1, 2, 3, 4]\<rparr>"
  have "mail_ok ?mail" by (simp add: mail_ok_def)
  moreover have "msg_ok (msg_uid ?mail, payload ?mail)"
    using small_msg_ok [of 6] by (simp add: payload_def)
  moreover have "mb_inv (cpu_to_mcu ?m)" by (simp add: mailbox_init_64)
  ultimately have "\<exists>box. al5_mcu_send ?m ?mail = Some (0, ?m\<lparr>cpu_to_mcu := box\<rparr>) \<and> mb_inv box
      \<and> mb_content box = mb_content (cpu_to_mcu ?m) @ [(msg_uid ?mail, payload ?mail)]"
    using mcu_send_all_or_nothing [of ?m ?mail]
    by (simp add: mailbox_init_64 payload_def split: if_split_asm)
  then show ?thesis by (simp add: mailbox_init_64 payload_def) blast
qed

text \<open>A receive with memory for the mail takes the oldest mail out of the ring, complete.\<close>

theorem mcu_recv_oldest:
  assumes "mb_inv (mcu_to_cpu mcu)" "mb_content (mcu_to_cpu mcu) = (uid, d) # ms"
    and "kmalloc_ok km" "km 528 = Some blk" "length junk = 4"
  shows "\<exists>mail box. al5_mcu_recv km junk mcu = Some (Some mail, mcu\<lparr>mcu_to_cpu := box\<rparr>)
    \<and> msg_uid mail = uid \<and> payload mail = d \<and> mb_inv box \<and> mb_content box = ms"
proof -
  have "length d \<le> 512"
    using assms(1,2) by (auto elim!: mb_invE simp: msg_ok_def)
  then show ?thesis
    using mailbox_read_law [OF assms(1,2,5), of blk 528] assms(3,4)
    by (auto simp: al5_mcu_recv_def mcu_mail_size_eq kmalloc_ok_def)
qed

lemma mcu_recv_oldest_witness:
  "\<exists>mail box. al5_mcu_recv (\<lambda>n. Some (replicate n 0)) [0, 0, 0, 0]
       \<lparr>mcu_to_cpu = the (mailbox_enq (6, [1, 2, 3, 4]) (al5_mailbox_init (replicate 64 0) 64)),
        cpu_to_mcu = al5_mailbox_init [] 0, interrupts = 0\<rparr>
     = Some (Some mail, \<lparr>mcu_to_cpu = box, cpu_to_mcu = al5_mailbox_init [] 0, interrupts = 0\<rparr>)
     \<and> msg_uid mail = 6 \<and> payload mail = [1, 2, 3, 4]"
proof -
  from mailbox_one_mail obtain b' where
    "mailbox_enq (6, [1, 2, 3, 4]) (al5_mailbox_init (replicate 64 0) 64) = Some b'" "mb_inv b'"
    "mb_content b' = [(6, [1, 2, 3, 4])]" .
  then show ?thesis
    using mcu_recv_oldest [of "\<lparr>mcu_to_cpu = b', cpu_to_mcu = al5_mailbox_init [] 0, interrupts = 0\<rparr>"
        6 "[1, 2, 3, 4]" "[]" "\<lambda>n. Some (replicate n 0)" "replicate 528 0" "[0, 0, 0, 0]"]
    by (auto simp: kmalloc_ok_def)
qed

text \<open>A mail too big for the reader's block is reported as such, but only its header leaves the
  ring: its body stays in front, and the next read takes the body's first word for a header.\<close>

theorem mailbox_oversize_desynchronises:
  assumes "mb_inv box" "mb_content box = (uid, d) # ms" "length junk = 4" "mail_size < 16 + length d"
  shows "\<exists>box'. al5_mailbox_read junk box blk mail_size = Some (None, box')
    \<and> ring_bytes box' = d @ concat (map frame ms)"
proof -
  from assms(1) show ?thesis
  proof (rule mb_invE)
    assume "regs_ok box" "\<forall>m \<in> set (mb_content box). msg_ok m"
      "ring_bytes box = concat (map frame (mb_content box))"
    with assms(2) mailbox_read_oversize [of box uid d "concat (map frame ms)" junk mail_size blk] assms(3,4)
    show ?thesis by auto
  qed
qed

lemma mailbox_oversize_desynchronises_witness:
  "\<exists>b box'. mailbox_enq (6, [1, 2, 3, 4]) (al5_mailbox_init (replicate 64 0) 64) = Some b
     \<and> al5_mailbox_read [0, 0, 0, 0] b [] 16 = Some (None, box') \<and> ring_bytes box' = [1, 2, 3, 4]"
proof -
  from mailbox_one_mail obtain b' where
    "mailbox_enq (6, [1, 2, 3, 4]) (al5_mailbox_init (replicate 64 0) 64) = Some b'" "mb_inv b'"
    "mb_content b' = [(6, [1, 2, 3, 4])]" .
  then show ?thesis
    using mailbox_oversize_desynchronises [of b' 6 "[1, 2, 3, 4]" "[]" "[0, 0, 0, 0]" 16 "[]"]
    by auto
qed

text \<open>C18: End to end: a mail built by \<open>al5_create_classic_mail\<close>, sent by one side and received by the
  other through an empty mailbox, arrives with its identifier, and its first word is the sender.\<close>

theorem classic_mail_end_to_end:
  assumes "kmalloc_ok km" "al5_create_classic_mail km sender uid msg = Some (Some m)"
    and "4 dvd length msg" "length msg \<le> 508"
    and "mb_inv (cpu_to_mcu mcu)" "mb_content (cpu_to_mcu mcu) = []" "520 \<le> mb_size (cpu_to_mcu mcu)"
    and "kmalloc_ok km'" "km' 528 = Some blk" "length junk = 4"
  shows "\<exists>mcu' mail mcu''. al5_mcu_send mcu m = Some (0, mcu')
    \<and> al5_mcu_recv km' junk (mcu'\<lparr>mcu_to_cpu := cpu_to_mcu mcu'\<rparr>) = Some (Some mail, mcu'')
    \<and> msg_uid mail = ucast uid \<and> payload mail = word_bytes sender @ msg
    \<and> al5_mail_get_word mail 0 = Some sender"
proof -
  have l: "length msg + 4 < 65536" using assms(4) by simp
  note m = classic_mail_payload [OF assms(1) l assms(2)]
  have ok: "msg_ok (msg_uid m, payload m)"
    using assms(3,4) m(1) by (simp add: msg_ok_def)
  have "used_size (cpu_to_mcu mcu) = 0"
    using used_size_cost [OF assms(5)] assms(6) by simp
  then have "used_size (cpu_to_mcu mcu) + (length (payload m) + 4) + 4 \<le> mb_size (cpu_to_mcu mcu)"
    using assms(4,7) m(1) by simp
  from mailbox_write_law [OF assms(5) m(3) ok this] assms(6) m obtain box where b:
    "al5_mailbox_write (cpu_to_mcu mcu) m = Some (0, box)" "mb_inv box"
    "mb_content box = [(ucast uid, word_bytes sender @ msg)]" by auto
  from mailbox_read_law [OF b(2,3) assms(10), of blk 528] assms(4,8,9)
  obtain mail box' where r: "al5_mailbox_read junk box blk 528 = Some (Some mail, box')"
    "msg_uid mail = ucast uid" "payload mail = word_bytes sender @ msg" "mail_ok mail"
    by (auto simp: kmalloc_ok_def)
  have n: "4 + length msg = unat (body_size mail)"
    using r(3) payload_length [OF r(4)] by simp
  have "take 4 (body mail) = take 4 (payload mail)"
    using n by (simp add: payload_def min_def flip: n)
  then have "al5_mail_get_word mail 0 = Some sender"
    using r(3,4) payload_length [OF r(4)]
    by (simp add: al5_mail_get_word_def mail_ok_def)
  with b r assms(9) show ?thesis
    by (simp add: al5_mcu_send_def al5_mcu_recv_def mcu_mail_size_eq)
qed

lemma classic_mail_end_to_end_witness:
  "\<exists>m mail mcu' mcu''.
     al5_create_classic_mail (\<lambda>n. Some (replicate n 0)) 3 7 [1, 2, 3, 4] = Some (Some m)
     \<and> al5_mcu_send \<lparr>mcu_to_cpu = al5_mailbox_init [] 0,
         cpu_to_mcu = al5_mailbox_init (replicate 1024 0) 1024, interrupts = 0\<rparr> m = Some (0, mcu')
     \<and> al5_mcu_recv (\<lambda>n. Some (replicate n 0)) [0, 0, 0, 0]
         (mcu'\<lparr>mcu_to_cpu := cpu_to_mcu mcu'\<rparr>) = Some (Some mail, mcu'')
     \<and> al5_mail_get_word mail 0 = Some 3"
proof -
  have k: "kmalloc_ok (\<lambda>n. Some (replicate n 0))" by (simp add: kmalloc_ok_def)
  obtain m where m: "al5_create_classic_mail (\<lambda>n. Some (replicate n 0)) 3 7 [1, 2, 3, 4] = Some (Some m)"
    using classic_mail_created [OF k, of "[1, 2, 3, 4]" _ 3 7] by auto
  let ?m = "\<lparr>mcu_to_cpu = al5_mailbox_init [] 0,
     cpu_to_mcu = al5_mailbox_init (replicate 1024 0) 1024, interrupts = 0\<rparr>"
  have "mb_inv (cpu_to_mcu ?m)" "mb_content (cpu_to_mcu ?m) = []" "520 \<le> mb_size (cpu_to_mcu ?m)"
    by (simp_all add: mailbox_init_1024)
  moreover have "4 dvd length [1, 2, 3, 4 :: u8]" by (simp add: eval_nat_numeral)
  moreover have "length [1, 2, 3, 4 :: u8] \<le> 508"
    "length [0, 0, 0, 0 :: u8] = 4" by simp_all
  ultimately obtain mcu' mail mcu'' where "al5_mcu_send ?m m = Some (0, mcu')"
    "al5_mcu_recv (\<lambda>n. Some (replicate n 0)) [0, 0, 0, 0] (mcu'\<lparr>mcu_to_cpu := cpu_to_mcu mcu'\<rparr>) = Some (Some mail, mcu'')"
    "al5_mail_get_word mail 0 = Some 3"
    using classic_mail_end_to_end [OF k m _ _ _ _ _ k refl] by metis
  with m show ?thesis by blast
qed

end
