(* ===== verification/Dll.thy ===== *)
theory Dll imports Prelude begin

text \<open>
  Doubly linked lists threaded through an array by index, with 255 for the end, as the decoded
  picture buffer has three of them.  \<open>links\<close> relates the next and previous fields to the list of
  indices; \<open>walk\<close> and \<open>walk_saved\<close> are the two shapes of loop that traverse such a list; the locale
  \<open>linked_list\<close> proves removal and insertion once for any pair of link fields.
\<close>

definition uEndOfList :: nat where "uEndOfList = 255"

definition first :: "nat list \<Rightarrow> nat \<Rightarrow> nat" where
  "first xs q = (case xs of [] \<Rightarrow> q | x # _ \<Rightarrow> x)"

definition final :: "nat \<Rightarrow> nat list \<Rightarrow> nat" where
  "final p xs = (if xs = [] then p else last xs)"

lemma first_simps [simp]: "first [] q = q" "first (x # xs) q = x" "first (xs @ ys) q = first xs (first ys q)"
  by (simp_all add: first_def split: list.splits)

lemma final_simps [simp]:
  "final p [] = p" "final p (x # xs) = final x xs" "final p (xs @ ys) = final (final p xs) ys"
  by (simp_all add: final_def)

lemma first_in: "xs \<noteq> [] \<Longrightarrow> first xs q \<in> set xs"
  by (cases xs) auto

lemma final_in: "xs \<noteq> [] \<Longrightarrow> final p xs \<in> set xs"
  by (simp add: final_def)

fun links :: "(nat \<Rightarrow> nat) \<Rightarrow> (nat \<Rightarrow> nat) \<Rightarrow> nat \<Rightarrow> nat list \<Rightarrow> nat \<Rightarrow> bool" where
  "links nx pv p [] q \<longleftrightarrow> True"
| "links nx pv p (x # xs) q \<longleftrightarrow> pv x = p \<and> nx x = first xs q \<and> links nx pv x xs q"

definition dll :: "nat \<Rightarrow> (nat \<Rightarrow> nat) \<Rightarrow> (nat \<Rightarrow> nat) \<Rightarrow> nat list \<Rightarrow> bool" where
  "dll h nx pv xs \<longleftrightarrow> h = first xs uEndOfList \<and> links nx pv uEndOfList xs uEndOfList
     \<and> distinct xs \<and> uEndOfList \<notin> set xs"

lemma links_append [simp]:
  "links nx pv p (xs @ ys) q \<longleftrightarrow> links nx pv p xs (first ys q) \<and> links nx pv (final p xs) ys q"
  by (induction xs arbitrary: p) auto

lemma links_cong:
  "(\<And>x. x \<in> set xs \<Longrightarrow> nx x = nx' x) \<Longrightarrow> (\<And>x. x \<in> set xs \<Longrightarrow> pv x = pv' x) \<Longrightarrow>
   links nx pv p xs q = links nx' pv' p xs q"
  by (induction xs arbitrary: p) auto

lemma dll_cong:
  "(\<And>x. x \<in> set xs \<Longrightarrow> nx x = nx' x) \<Longrightarrow> (\<And>x. x \<in> set xs \<Longrightarrow> pv x = pv' x) \<Longrightarrow>
   dll h nx pv xs = dll h nx' pv' xs"
  unfolding dll_def using links_cong [of xs nx nx' pv pv'] by blast

lemma links_other [simp]:
  "n \<notin> set xs \<Longrightarrow> links (nx(n := v)) pv p xs q = links nx pv p xs q"
  "n \<notin> set xs \<Longrightarrow> links nx (pv(n := v)) p xs q = links nx pv p xs q"
  by (auto intro!: links_cong)

lemma links_set_end:
  "distinct xs \<Longrightarrow> xs \<noteq> [] \<Longrightarrow> links nx pv p xs q \<Longrightarrow> links (nx(last xs := q')) pv p xs q'"
proof (induction xs arbitrary: p)
  case (Cons x xs)
  show ?case
  proof (cases "xs = []")
    case True
    with Cons.prems show ?thesis by simp
  next
    case False
    then have "x \<noteq> last xs" "first xs q = first xs q'"
      using Cons.prems(1) by (auto simp: first_def split: list.splits)
    with Cons False show ?thesis by auto
  qed
qed simp

lemma links_set_start:
  "distinct xs \<Longrightarrow> xs \<noteq> [] \<Longrightarrow> links nx pv p xs q \<Longrightarrow> links nx (pv(first xs q := p')) p' xs q"
  by (cases xs) auto

lemma links_nx: "links nx pv p (xs @ x # ys) q \<Longrightarrow> nx x = first ys q"
  by simp

lemma links_pv: "links nx pv p (xs @ x # ys) q \<Longrightarrow> pv x = final p xs"
  by simp

section \<open>Removal and insertion\<close>

locale linked_list =
  fixes head :: "'s \<Rightarrow> nat" and set_head :: "nat \<Rightarrow> 's \<Rightarrow> 's"
    and nx :: "'s \<Rightarrow> nat \<Rightarrow> nat" and set_nx :: "nat \<Rightarrow> nat \<Rightarrow> 's \<Rightarrow> 's"
    and pv :: "'s \<Rightarrow> nat \<Rightarrow> nat" and set_pv :: "nat \<Rightarrow> nat \<Rightarrow> 's \<Rightarrow> 's"
  assumes head_laws [simp]: "head (set_head h s) = h" "head (set_nx a v s) = head s"
      "head (set_pv a v s) = head s"
    and nx_laws [simp]: "nx (set_head h s) = nx s" "nx (set_nx a v s) = (nx s)(a := v)"
      "nx (set_pv a v s) = nx s"
    and pv_laws [simp]: "pv (set_head h s) = pv s" "pv (set_nx a v s) = pv s"
      "pv (set_pv a v s) = (pv s)(a := v)"
begin

definition unlink :: "nat \<Rightarrow> 's \<Rightarrow> 's" where
  "unlink n s =
     (let p = pv s n; q = nx s n;
          s1 = (if head s = n then set_head q s else s);
          s2 = (if p \<noteq> uEndOfList then set_nx p q s1 else s1)
      in if q \<noteq> uEndOfList then set_pv q p s2 else s2)"

definition insert_before :: "nat \<Rightarrow> nat \<Rightarrow> 's \<Rightarrow> 's" where
  "insert_before c n s =
     (let p = pv s c;
          s1 = set_pv c n (set_nx n c (set_pv n p s));
          s2 = (if p \<noteq> uEndOfList then set_nx p n s1 else s1)
      in if c = head s then set_head n s2 else s2)"

definition insert_after_last :: "nat \<Rightarrow> nat \<Rightarrow> 's \<Rightarrow> 's" where
  "insert_after_last c n s = set_nx c n (set_pv n c (set_nx n uEndOfList s))"

lemma unlink_dll:
  assumes "dll (head s) (nx s) (pv s) (ys @ n # zs)"
  shows "dll (head (unlink n s)) (nx (unlink n s)) (pv (unlink n s)) (ys @ zs)"
proof -
  from assms have d: "distinct ys" "distinct zs" "set ys \<inter> set zs = {}" "n \<notin> set ys" "n \<notin> set zs"
    "uEndOfList \<notin> set ys" "uEndOfList \<notin> set zs"
    and l: "links (nx s) (pv s) uEndOfList ys n" "links (nx s) (pv s) n zs uEndOfList"
      "pv s n = final uEndOfList ys" "nx s n = first zs uEndOfList" and h: "head s = first ys n"
    by (auto simp: dll_def)
  let ?p = "pv s n" and ?q = "nx s n"
  let ?nx = "if ?p \<noteq> uEndOfList then (nx s)(?p := ?q) else nx s"
  let ?pv = "if ?q \<noteq> uEndOfList then (pv s)(?q := ?p) else pv s"
  have ys: "links ?nx (pv s) uEndOfList ys ?q"
  proof (cases "ys = []")
    case False
    then have "?p = last ys" using l(3) by (simp add: final_def)
    moreover have "last ys \<noteq> uEndOfList" using last_in_set [OF False] d(6) by metis
    ultimately show ?thesis
      using links_set_end [OF d(1) False l(1)] by simp
  qed simp
  have zs: "links (nx s) ?pv ?p zs uEndOfList"
  proof (cases "zs = []")
    case False
    then have "?q \<noteq> uEndOfList" using l(4) d(7) first_in [OF False, of uEndOfList] by auto
    with links_set_start [OF d(2) False l(2), of ?p] l(4) show ?thesis by simp
  qed simp
  have p: "?p \<notin> set zs"
    using l(3) d(3,6,7) final_in [of ys uEndOfList] by (cases "ys = []") auto
  have q: "?q \<notin> set ys"
    using l(4) d(3,6,7) first_in [of zs uEndOfList] by (cases "zs = []") auto
  have "links ?nx ?pv uEndOfList (ys @ zs) uEndOfList"
    using ys zs p q l(3,4) by (auto split: if_splits)
  moreover have "nx (unlink n s) = ?nx" "pv (unlink n s) = ?pv"
    by (simp_all add: unlink_def Let_def)
  moreover have "head (unlink n s) = first (ys @ zs) uEndOfList"
  proof (cases "ys = []")
    case False
    then have "head s \<noteq> n" using h d(4) first_in [of ys n] by auto
    with False h show ?thesis by (simp add: unlink_def Let_def first_def split: list.splits)
  qed (use h l in \<open>simp add: unlink_def Let_def\<close>)
  ultimately show ?thesis using d by (simp add: dll_def)
qed

lemma insert_before_dll:
  assumes "dll (head s) (nx s) (pv s) (ys @ c # zs)" "n \<notin> set (ys @ c # zs)" "n \<noteq> uEndOfList"
  shows "dll (head (insert_before c n s)) (nx (insert_before c n s)) (pv (insert_before c n s))
    (ys @ n # c # zs)"
proof -
  from assms have d: "distinct ys" "distinct zs" "set ys \<inter> set zs = {}" "c \<notin> set ys" "c \<notin> set zs"
    "uEndOfList \<notin> set ys" "uEndOfList \<notin> set zs" "n \<notin> set ys" "n \<notin> set zs" "n \<noteq> c" "c \<noteq> uEndOfList"
    and l: "links (nx s) (pv s) uEndOfList ys c" "links (nx s) (pv s) c zs uEndOfList"
      "pv s c = final uEndOfList ys" "nx s c = first zs uEndOfList" and h: "head s = first ys c"
    by (auto simp: dll_def)
  let ?p = "pv s c"
  let ?nx = "if ?p \<noteq> uEndOfList then (nx s)(n := c, ?p := n) else (nx s)(n := c)"
  let ?pv = "(pv s)(n := ?p, c := n)"
  have p: "?p \<notin> set zs" "?p \<noteq> c" "?p \<noteq> n"
    using l(3) d(3,4,6,7,8,11) assms(3) final_in [of ys uEndOfList] by (cases "ys = []"; force)+
  have ys: "links ?nx (pv s) uEndOfList ys n"
  proof (cases "ys = []")
    case False
    then have "?p = last ys" using l(3) by (simp add: final_def)
    moreover have "last ys \<noteq> uEndOfList" using last_in_set [OF False] d(6) by metis
    moreover have "n \<noteq> last ys" using last_in_set [OF False] d(8) by metis
    ultimately show ?thesis
      using links_set_end [OF d(1) False l(1), of n] d(8)
      by (simp add: fun_upd_twist [of n "last ys" "nx s" c n])
  qed simp
  have full: "links ?nx ?pv uEndOfList (ys @ n # c # zs) uEndOfList"
    using ys p l d by (auto split: if_splits)
  have eqs: "nx (insert_before c n s) = ?nx" "pv (insert_before c n s) = ?pv"
    by (simp_all add: insert_before_def Let_def)
  have he: "head (insert_before c n s) = first (ys @ n # c # zs) uEndOfList"
  proof (cases "ys = []")
    case False
    then have "head s \<noteq> c" using h d(4) first_in [of ys c] by auto
    with False h show ?thesis by (simp add: insert_before_def Let_def first_def split: list.splits)
  qed (use h l in \<open>simp add: insert_before_def Let_def\<close>)
  have "distinct (ys @ n # c # zs) \<and> uEndOfList \<notin> set (ys @ n # c # zs)"
    using d assms(3) by auto
  with full show ?thesis unfolding dll_def eqs he by blast
qed

lemma insert_after_last_dll:
  assumes "dll (head s) (nx s) (pv s) (ys @ [c])" "n \<notin> set (ys @ [c])" "n \<noteq> uEndOfList"
  shows "dll (head (insert_after_last c n s)) (nx (insert_after_last c n s)) (pv (insert_after_last c n s))
    (ys @ [c, n])"
proof -
  have "links ((nx s)(n := uEndOfList, c := n)) (pv s) uEndOfList (ys @ [c]) n"
    using links_set_end [of "ys @ [c]" "(nx s)(n := uEndOfList)" "pv s" uEndOfList uEndOfList n] assms
    by (auto simp: dll_def)
  then show ?thesis
    using assms by (auto simp: dll_def insert_after_last_def)
qed

end

section \<open>Loops over a list\<close>

text \<open>\<open>while(u != end) { body; if(stop) break; u = next(u); }\<close>\<close>

partial_function (option) walk ::
    "(nat \<Rightarrow> 's \<Rightarrow> nat option) \<Rightarrow> (nat \<Rightarrow> 's \<Rightarrow> (bool \<times> 's) option) \<Rightarrow> nat \<Rightarrow> 's \<Rightarrow> (nat \<times> 's) option" where
  "walk next body u s =
     (if u = uEndOfList then Some (u, s)
      else do { r \<leftarrow> body u s;
                if fst r then Some (u, snd r)
                else do { v \<leftarrow> next u (snd r); walk next body v (snd r) } })"

text \<open>\<open>while(u != end && cond) { v = next(u); body; u = v; }\<close>\<close>

partial_function (option) walk_saved ::
    "(nat \<Rightarrow> 's \<Rightarrow> nat option) \<Rightarrow> ('s \<Rightarrow> bool) \<Rightarrow> (nat \<Rightarrow> 's \<Rightarrow> 's option) \<Rightarrow> nat \<Rightarrow> 's \<Rightarrow> 's option" where
  "walk_saved next cond body u s =
     (if u = uEndOfList \<or> \<not> cond s then Some s
      else do { v \<leftarrow> next u s; t \<leftarrow> body u s; walk_saved next cond body v t })"

lemma walk_end [simp]: "walk next body uEndOfList s = Some (uEndOfList, s)"
  by (simp add: walk.simps)

lemma walk_saved_end [simp]: "walk_saved next cond body uEndOfList s = Some s"
  by (simp add: walk_saved.simps)

text \<open>A walk without break, under an invariant over the cells still to visit.\<close>

lemma walk_list:
  assumes step: "\<And>x ys s. I (x # ys) s \<Longrightarrow>
      \<exists>t. body x s = Some (False, t) \<and> next x t = Some (first ys uEndOfList) \<and> I ys t"
    and "I xs s" "uEndOfList \<notin> set xs"
  shows "\<exists>t. walk next body (first xs uEndOfList) s = Some (uEndOfList, t) \<and> I [] t"
  using assms(2,3)
proof (induction xs arbitrary: s)
  case (Cons x xs)
  from step [OF Cons.prems(1)] obtain t where
    "body x s = Some (False, t)" "next x t = Some (first xs uEndOfList)" "I xs t" by blast
  with Cons.IH [of t] Cons.prems(2) show ?case by (simp add: walk.simps [of _ _ x])
qed simp

text \<open>A walk that folds a function which leaves the links alone.\<close>

lemma walk_fold:
  assumes "\<And>x s. x \<in> set xs \<Longrightarrow> P s \<Longrightarrow> body x s = Some (False, f x s) \<and> P (f x s)"
    and "\<And>ys x zs s. xs = ys @ x # zs \<Longrightarrow> P s \<Longrightarrow> next x s = Some (first zs uEndOfList)"
    and "P s" "uEndOfList \<notin> set xs"
  shows "walk next body (first xs uEndOfList) s = Some (uEndOfList, fold f xs s) \<and> P (fold f xs s)"
  using assms
proof (induction xs arbitrary: s)
  case (Cons x xs)
  have b: "body x s = Some (False, f x s)" "P (f x s)" using Cons.prems(1) [of x s] Cons.prems(3) by auto
  have n: "next x (f x s) = Some (first xs uEndOfList)" using Cons.prems(2) [of "[]" x xs] b by simp
  have "walk next body (first xs uEndOfList) (f x s) = Some (uEndOfList, fold f xs (f x s))
      \<and> P (fold f xs (f x s))"
    by (rule Cons.IH) (use Cons.prems b in \<open>auto intro: Cons.prems(2) [of "x # _", simplified]\<close>)
  with b n Cons.prems(4) show ?case by (simp add: walk.simps [of _ _ x])
qed simp

text \<open>A walk that stops at the first cell with a property, doing nothing before it.\<close>

lemma walk_find:
  assumes "xs = ys @ z # zs" "\<And>y. y \<in> set ys \<Longrightarrow> body y s = Some (False, s)" "body z s = Some (True, t)"
    and "\<And>ys x zs. xs = ys @ x # zs \<Longrightarrow> next x s = Some (first zs uEndOfList)" "uEndOfList \<notin> set xs"
  shows "walk next body (first xs uEndOfList) s = Some (z, t)"
  using assms
proof (induction ys arbitrary: xs)
  case Nil
  then show ?case by (auto simp: walk.simps [of _ _ z])
next
  case (Cons y ys)
  have n: "next y s = Some (first (ys @ z # zs) uEndOfList)" using Cons.prems(4) [of "[]" y] Cons.prems(1) by simp
  have "walk next body (first (ys @ z # zs) uEndOfList) s = Some (z, t)"
    by (rule Cons.IH)
      (use Cons.prems in \<open>auto intro: Cons.prems(4) [of "y # _", simplified Cons.prems(1), simplified]\<close>)
  with n Cons.prems show ?case by (simp add: walk.simps [of _ _ y])
qed

lemma walk_none:
  assumes "\<And>y. y \<in> set xs \<Longrightarrow> body y s = Some (False, s)"
    and "\<And>ys x zs. xs = ys @ x # zs \<Longrightarrow> next x s = Some (first zs uEndOfList)" "uEndOfList \<notin> set xs"
  shows "walk next body (first xs uEndOfList) s = Some (uEndOfList, s)"
  using walk_fold [of xs "\<lambda>t. t = s" body "\<lambda>_ t. t" "next" s] assms by (simp add: fold_id)

end
