(* ===== verification/Dpb.thy ===== *)
theory Dpb imports Dll begin

text \<open>
  lib_parsing/DPB.c and DPB.h: the decoded picture buffer.  An array of \<open>MAX_DPB_SIZE\<close> nodes, threaded by
  three doubly linked lists (increasing picture order count, increasing POC lsb, decoding order),
  a pool of picture identifiers, the queue of frames to display and the two rings of buffers whose
  release is deferred.

  \<open>node\<close> and \<open>upd\<close> are the checked accesses to the array: an index outside it is \<open>None\<close>, as is a failed
  assertion and a loop that does not end.  The calls of the picture manager's callbacks are recorded
  in \<open>calls\<close> in their order.  Indices and 8-bit identifiers are natural numbers, 8-bit counters are
  words; 32-bit signed differences wrap.  The mutex makes every exported function atomic.
\<close>

definition MAX_REF :: nat where "MAX_REF = 16"
definition MAX_DPB_SIZE :: nat where "MAX_DPB_SIZE = MAX_REF + 16 + 1 + 1"
definition FRM_BUF_POOL_SIZE :: nat where "FRM_BUF_POOL_SIZE = MAX_DPB_SIZE + MAX_REF"
definition PIC_ID_POOL_SIZE :: nat where "PIC_ID_POOL_SIZE = MAX_REF"
definition UndefID :: nat where "UndefID = 255"

lemmas dpb_sizes = MAX_REF_def MAX_DPB_SIZE_def FRM_BUF_POOL_SIZE_def PIC_ID_POOL_SIZE_def

datatype AL_EMarkingRef = SHORT_TERM_REF | LONG_TERM_REF | UNUSED_FOR_REF | NON_EXISTING_REF
datatype AL_EPicStatus = AL_NOT_NEEDED_FOR_OUTPUT | AL_NOT_READY_FOR_OUTPUT | AL_READY_FOR_OUTPUT
datatype AL_EDpbMode = AL_DPB_NORMAL | AL_DPB_NO_REORDERING

definition AL_NUT_ERR :: nat where "AL_NUT_ERR = 4294967295"
definition AL_AVC_NUT_VCL_IDR :: nat where "AL_AVC_NUT_VCL_IDR = 5"

definition AL_AVC_IsIDR :: "nat \<Rightarrow> bool" where
  "AL_AVC_IsIDR eNUT \<longleftrightarrow> eNUT = AL_AVC_NUT_VCL_IDR"

datatype dpb_call = IncrementFrmBuf nat | DecrementFrmBuf nat | OutputFrmBuf nat
  | IncrementMvBuf nat | DecrementMvBuf nat

record AL_TDispFifo =
  pFrmIDs :: "nat \<Rightarrow> nat"
  pPicLatency :: "nat \<Rightarrow> u32"
  pFrmStatus :: "nat \<Rightarrow> AL_EPicStatus"
  uFirstFrm :: nat
  uNumFrm :: nat

record AL_TDpbNode =
  uNodeID :: nat
  uFrmID :: nat
  uMvID :: nat
  uPicID :: nat
  uPrevPOC :: nat
  uNextPOC :: nat
  uPrevPocLsb :: nat
  uNextPocLsb :: nat
  uPrevDecOrder :: nat
  uNextDecOrder :: nat
  iFramePOC :: int
  slice_pic_order_cnt_lsb :: nat
  eMarking_flag :: AL_EMarkingRef
  iFrame_num :: int
  iSlice_frame_num :: int
  iFrame_num_wrap :: int
  iLong_term_frame_idx :: int
  iLong_term_pic_num :: int
  iPic_num :: int
  pic_output_flag :: bool
  bIsReset :: bool
  bIsDisplayed :: bool
  uPicLatency :: u32
  non_existing :: bool
  eNUT :: nat

record AL_TDpb =
  Nodes :: "nat \<Rightarrow> AL_TDpbNode"
  DispFifo :: AL_TDispFifo
  PicId2NodeId :: "nat \<Rightarrow> nat"
  PicId2FrmId :: "nat \<Rightarrow> nat"
  PicId2MvId :: "nat \<Rightarrow> nat"
  FreePicIDs :: "nat \<Rightarrow> nat"
  FreePicIdCnt :: nat
  bPicWaiting :: bool
  uNodeWaiting :: nat
  uFrmWaiting :: nat
  uMvWaiting :: nat
  pDltFrmIDLst :: "nat \<Rightarrow> nat"
  pDltMvIDLst :: "nat \<Rightarrow> nat"
  iDltFrmLstHead :: nat
  iDltFrmLstTail :: nat
  iDltMvLstHead :: nat
  iDltMvLstTail :: nat
  iNumDltPic :: nat
  iLastDisplayedPOC :: int
  uNumOutputPic :: u8
  bNewSeq :: bool
  uNumRef :: u8
  uHeadPOC :: nat
  uHeadPocLsb :: nat
  uLastPOC :: nat
  uHeadDecOrder :: nat
  uCurRef :: nat
  uCountRef :: u8
  uCountPic :: u8
  MaxLongTermFrameIdx :: int
  bLastHasMMCO5 :: bool
  eMode :: AL_EDpbMode
  calls :: "dpb_call list"

text \<open>The fields of the slice header and of its sequence parameter set that the marking reads.\<close>

record AL_TAvcSliceHdr =
  frame_num :: int
  nal_ref_idc :: nat
  nal_unit_type :: nat
  memory_management_control_operation :: "nat list"
  difference_of_pic_nums_minus1 :: "int list"
  long_term_pic_num :: "int list"
  long_term_frame_idx :: "int list"
  max_long_term_frame_idx_plus1 :: "int list"
  long_term_reference_flag :: bool
  adaptive_ref_pic_marking_mode_flag :: bool
  max_num_ref_frames :: u32
  log2_max_frame_num_minus4 :: nat

definition node :: "AL_TDpb \<Rightarrow> nat \<Rightarrow> AL_TDpbNode option" where
  "node d n = (if n < MAX_DPB_SIZE then Some (Nodes d n) else None)"

definition upd :: "nat \<Rightarrow> (AL_TDpbNode \<Rightarrow> AL_TDpbNode) \<Rightarrow> AL_TDpb \<Rightarrow> AL_TDpb" where
  "upd n f d = d\<lparr>Nodes := (Nodes d)(n := f (Nodes d n))\<rparr>"

definition set_node :: "nat \<Rightarrow> (AL_TDpbNode \<Rightarrow> AL_TDpbNode) \<Rightarrow> AL_TDpb \<Rightarrow> AL_TDpb option" where
  "set_node n f d = (if n < MAX_DPB_SIZE then Some (upd n f d) else None)"

definition nextPOC :: "nat \<Rightarrow> AL_TDpb \<Rightarrow> nat option" where
  "nextPOC u d = do { nd \<leftarrow> node d u; Some (uNextPOC nd) }"

definition nextPocLsb :: "nat \<Rightarrow> AL_TDpb \<Rightarrow> nat option" where
  "nextPocLsb u d = do { nd \<leftarrow> node d u; Some (uNextPocLsb nd) }"

definition nextDec :: "nat \<Rightarrow> AL_TDpb \<Rightarrow> nat option" where
  "nextDec u d = do { nd \<leftarrow> node d u; Some (uNextDecOrder nd) }"

definition call_back :: "dpb_call \<Rightarrow> AL_TDpb \<Rightarrow> AL_TDpb" where
  "call_back c d = d\<lparr>calls := calls d @ [c]\<rparr>"

section \<open>The display queue\<close>

definition DispFifo_Init :: "AL_TDispFifo \<Rightarrow> AL_TDispFifo" where
  "DispFifo_Init f =
     f\<lparr>pFrmIDs := (\<lambda>i. if i < FRM_BUF_POOL_SIZE then UndefID else pFrmIDs f i),
       pFrmStatus := (\<lambda>i. if i < FRM_BUF_POOL_SIZE then AL_NOT_NEEDED_FOR_OUTPUT else pFrmStatus f i),
       uFirstFrm := 0, uNumFrm := 0\<rparr>"

definition DispFifo_IsEmpty :: "AL_TDispFifo \<Rightarrow> bool" where
  "DispFifo_IsEmpty f \<longleftrightarrow>
     uFirstFrm f = (uFirstFrm f + uNumFrm f) mod FRM_BUF_POOL_SIZE \<and> uNumFrm f \<noteq> FRM_BUF_POOL_SIZE"

definition DispFifo_Queue :: "nat \<Rightarrow> u32 \<Rightarrow> AL_TDispFifo \<Rightarrow> AL_TDispFifo option" where
  "DispFifo_Queue frm lat f =
     (if frm < FRM_BUF_POOL_SIZE
      then let uID = (uFirstFrm f + uNumFrm f) mod 256 in
           Some (f\<lparr>uNumFrm := (uNumFrm f + 1) mod 256,
                   pFrmIDs := (pFrmIDs f)(uID mod FRM_BUF_POOL_SIZE := frm),
                   pPicLatency := (pPicLatency f)(frm := lat)\<rparr>)
      else None)"

definition DispFifo_Peek :: "AL_TDispFifo \<Rightarrow> nat" where
  "DispFifo_Peek f = pFrmIDs f (uFirstFrm f)"

definition DispFifo_Dequeue :: "AL_TDispFifo \<Rightarrow> (nat \<times> AL_TDispFifo) option" where
  "DispFifo_Dequeue f =
     (let frm = pFrmIDs f (uFirstFrm f) in
      if frm \<noteq> UndefID
      then (if frm < FRM_BUF_POOL_SIZE
            then Some (frm, f\<lparr>pFrmIDs := (pFrmIDs f)(uFirstFrm f := UndefID),
                              uFirstFrm := (uFirstFrm f + 1) mod FRM_BUF_POOL_SIZE,
                              uNumFrm := (uNumFrm f + 255) mod 256,
                              pFrmStatus := (pFrmStatus f)(frm := AL_NOT_NEEDED_FOR_OUTPUT)\<rparr>)
            else None)
      else Some (frm, f))"

definition DispFifo_GetStatus :: "nat \<Rightarrow> AL_TDispFifo \<Rightarrow> AL_EPicStatus option" where
  "DispFifo_GetStatus frm f = (if frm < FRM_BUF_POOL_SIZE then Some (pFrmStatus f frm) else None)"

definition DispFifo_SetStatus :: "nat \<Rightarrow> AL_EPicStatus \<Rightarrow> AL_TDispFifo \<Rightarrow> AL_TDispFifo option" where
  "DispFifo_SetStatus frm st f =
     (if frm < FRM_BUF_POOL_SIZE then Some (f\<lparr>pFrmStatus := (pFrmStatus f)(frm := st)\<rparr>) else None)"

section \<open>Nodes and picture identifiers\<close>

definition AL_Dpb_sResetWaiting :: "AL_TDpb \<Rightarrow> AL_TDpb" where
  "AL_Dpb_sResetWaiting d =
     d\<lparr>uNodeWaiting := uEndOfList, uFrmWaiting := UndefID, uMvWaiting := UndefID, bPicWaiting := False\<rparr>"

definition reset_node :: "AL_TDpbNode \<Rightarrow> AL_TDpbNode" where
  "reset_node nd =
     nd\<lparr>iFramePOC := - 1, slice_pic_order_cnt_lsb := 4294967295, uNodeID := uEndOfList,
        uPrevPOC := uEndOfList, uNextPOC := uEndOfList, uPrevPocLsb := uEndOfList,
        uNextPocLsb := uEndOfList, uPrevDecOrder := uEndOfList, uNextDecOrder := uEndOfList,
        uFrmID := UndefID, uMvID := UndefID, eMarking_flag := UNUSED_FOR_REF, bIsReset := True,
        pic_output_flag := False, bIsDisplayed := False, uPicLatency := 0,
        iPic_num := INT32_MAX, iFrame_num_wrap := INT32_MAX, iLong_term_pic_num := INT32_MAX,
        iLong_term_frame_idx := INT32_MAX, iSlice_frame_num := INT32_MAX, non_existing := False,
        eNUT := AL_NUT_ERR\<rparr>"

definition AL_Dpb_sResetNodeInfo :: "nat \<Rightarrow> AL_TDpb \<Rightarrow> AL_TDpb option" where
  "AL_Dpb_sResetNodeInfo n d =
     do { nd \<leftarrow> node d n;
          set_node n reset_node (if uNodeID nd = uNodeWaiting d then AL_Dpb_sResetWaiting d else d) }"

definition AL_Dpb_sReleasePicID :: "nat \<Rightarrow> AL_TDpb \<Rightarrow> AL_TDpb option" where
  "AL_Dpb_sReleasePicID pic d =
     (if pic \<noteq> UndefID
      then (if pic < PIC_ID_POOL_SIZE \<and> FreePicIdCnt d < PIC_ID_POOL_SIZE
            then Some (d\<lparr>PicId2NodeId := (PicId2NodeId d)(pic := UndefID),
                         FreePicIDs := (FreePicIDs d)(FreePicIdCnt d := pic),
                         FreePicIdCnt := FreePicIdCnt d + 1\<rparr>)
            else None)
      else Some d)"

definition AL_Dpb_sAddToDisplayList :: "nat \<Rightarrow> AL_TDpb \<Rightarrow> AL_TDpb option" where
  "AL_Dpb_sAddToDisplayList n d =
     do { nd \<leftarrow> node d n;
          q \<leftarrow> DispFifo_Queue (uFrmID nd) (uPicLatency nd) (DispFifo d);
          Some (call_back (OutputFrmBuf (uFrmID nd))
                 (call_back (IncrementFrmBuf (uFrmID nd)) (d\<lparr>DispFifo := q\<rparr>))) }"

definition AL_Dpb_sReleaseUnusedBuf_step :: "AL_TDpb \<Rightarrow> AL_TDpb" where
  "AL_Dpb_sReleaseUnusedBuf_step d =
     (let d1 = call_back (DecrementFrmBuf (pDltFrmIDLst d (iDltFrmLstHead d))) d;
          d2 = call_back (DecrementMvBuf (pDltMvIDLst d (iDltMvLstHead d))) d1
      in d2\<lparr>iDltFrmLstHead := (iDltFrmLstHead d + 1) mod FRM_BUF_POOL_SIZE,
            iDltMvLstHead := (iDltMvLstHead d + 1) mod MAX_DPB_SIZE,
            iNumDltPic := iNumDltPic d - 1\<rparr>)"

definition AL_Dpb_sReleaseUnusedBuf :: "bool \<Rightarrow> AL_TDpb \<Rightarrow> AL_TDpb" where
  "AL_Dpb_sReleaseUnusedBuf bAll d =
     (let iNum = (if iNumDltPic d \<noteq> 0 then (if bAll then iNumDltPic d else 1) else 0)
      in (AL_Dpb_sReleaseUnusedBuf_step ^^ iNum) d)"

definition AL_Dpb_sFillWaitingPicture :: "AL_TDpb \<Rightarrow> AL_TDpb option" where
  "AL_Dpb_sFillWaitingPicture d =
     do { nd \<leftarrow> node d (uNodeWaiting d);
          (pic, d1) \<leftarrow> (if non_existing nd then Some (uEndOfList, d)
                       else if FreePicIdCnt d = 0 then None
                       else Some (FreePicIDs d (FreePicIdCnt d - 1), d\<lparr>FreePicIdCnt := FreePicIdCnt d - 1\<rparr>));
          d2 \<leftarrow> set_node (uNodeWaiting d) (\<lambda>nd. nd\<lparr>uPicID := pic\<rparr>) d1;
          d3 \<leftarrow> (if pic \<noteq> uEndOfList
                then (if pic < PIC_ID_POOL_SIZE
                      then Some (d2\<lparr>PicId2NodeId := (PicId2NodeId d2)(pic := uNodeWaiting d),
                                    PicId2FrmId := (PicId2FrmId d2)(pic := uFrmWaiting d),
                                    PicId2MvId := (PicId2MvId d2)(pic := uMvWaiting d)\<rparr>)
                      else None)
                else Some d2);
          Some (d3\<lparr>uNodeWaiting := uEndOfList, uFrmWaiting := uEndOfList, uMvWaiting := uEndOfList,
                   bPicWaiting := False\<rparr>) }"

text \<open>\<open>d\<close> is the memory before the call: what the function does not set keeps its value.\<close>

definition AL_Dpb_Init :: "u8 \<Rightarrow> AL_EDpbMode \<Rightarrow> AL_TDpb \<Rightarrow> AL_TDpb" where
  "AL_Dpb_Init numRef mode d =
     (let pool = (\<lambda>v old i. if i < PIC_ID_POOL_SIZE then v i else old i);
          d1 = AL_Dpb_sResetWaiting
                 (d\<lparr>FreePicIDs := pool (\<lambda>i. i) (FreePicIDs d),
                    PicId2NodeId := pool (\<lambda>_. uEndOfList) (PicId2NodeId d),
                    PicId2FrmId := pool (\<lambda>_. uEndOfList) (PicId2FrmId d),
                    PicId2MvId := pool (\<lambda>_. uEndOfList) (PicId2MvId d),
                    eMode := mode, FreePicIdCnt := PIC_ID_POOL_SIZE, bNewSeq := True\<rparr>)
      in d1\<lparr>Nodes := (\<lambda>i. if i < MAX_DPB_SIZE then reset_node ((Nodes d i)\<lparr>uNodeID := UndefID\<rparr>) else Nodes d i),
            uNumRef := numRef,
            uHeadDecOrder := uEndOfList, uHeadPOC := uEndOfList, uLastPOC := uEndOfList,
            uCountRef := 0, uCountPic := 0, uCurRef := 0, uNumOutputPic := 0,
            iLastDisplayedPOC := - 2147483648,
            iDltFrmLstHead := 0, iDltFrmLstTail := 0, iDltMvLstHead := 0, iDltMvLstTail := 0,
            iNumDltPic := 0, DispFifo := DispFifo_Init (DispFifo d)\<rparr>)"

definition AL_Dpb_Terminate :: "AL_TDpb \<Rightarrow> AL_TDpb" where
  "AL_Dpb_Terminate d = AL_Dpb_sReleaseUnusedBuf True d"

section \<open>Accessors\<close>

definition AL_Dpb_GetRefCount :: "AL_TDpb \<Rightarrow> u8" where "AL_Dpb_GetRefCount d = uCountRef d"
definition AL_Dpb_GetPicCount :: "AL_TDpb \<Rightarrow> u8" where "AL_Dpb_GetPicCount d = uCountPic d"
definition AL_Dpb_GetHeadPOC :: "AL_TDpb \<Rightarrow> nat" where "AL_Dpb_GetHeadPOC d = uHeadPOC d"
definition AL_Dpb_GetNextPOC :: "nat \<Rightarrow> AL_TDpb \<Rightarrow> nat option" where "AL_Dpb_GetNextPOC n d = nextPOC n d"

definition AL_Dpb_GetOutputFlag :: "nat \<Rightarrow> AL_TDpb \<Rightarrow> bool option" where
  "AL_Dpb_GetOutputFlag n d = do { nd \<leftarrow> node d n; Some (pic_output_flag nd) }"

definition AL_Dpb_GetNumOutputPict :: "AL_TDpb \<Rightarrow> u8" where "AL_Dpb_GetNumOutputPict d = uNumOutputPic d"

definition AL_Dpb_GetMarkingFlag :: "nat \<Rightarrow> AL_TDpb \<Rightarrow> AL_EMarkingRef option" where
  "AL_Dpb_GetMarkingFlag n d = do { nd \<leftarrow> node d n; Some (eMarking_flag nd) }"

definition AL_Dpb_GetPicLatency_FromNode :: "nat \<Rightarrow> AL_TDpb \<Rightarrow> u32 option" where
  "AL_Dpb_GetPicLatency_FromNode n d = do { nd \<leftarrow> node d n; Some (uPicLatency nd) }"

definition AL_Dpb_GetPicID_FromNode :: "nat \<Rightarrow> AL_TDpb \<Rightarrow> nat option" where
  "AL_Dpb_GetPicID_FromNode n d =
     (if n = uEndOfList then Some UndefID else do { nd \<leftarrow> node d n; Some (uPicID nd) })"

definition AL_Dpb_GetMvID_FromNode :: "nat \<Rightarrow> AL_TDpb \<Rightarrow> nat option" where
  "AL_Dpb_GetMvID_FromNode n d =
     (if n = uEndOfList then Some UndefID else do { nd \<leftarrow> node d n; Some (uMvID nd) })"

definition AL_Dpb_GetFrmID_FromNode :: "nat \<Rightarrow> AL_TDpb \<Rightarrow> nat option" where
  "AL_Dpb_GetFrmID_FromNode n d =
     (if n = uEndOfList then Some UndefID else do { nd \<leftarrow> node d n; Some (uFrmID nd) })"

text \<open>\<open>while(next(u) != end) u = next(u)\<close>\<close>

partial_function (option) last_by :: "(nat \<Rightarrow> AL_TDpb \<Rightarrow> nat option) \<Rightarrow> AL_TDpb \<Rightarrow> nat \<Rightarrow> nat option" where
  "last_by next d u = do { v \<leftarrow> next u d; if v \<noteq> uEndOfList then last_by next d v else Some u }"

definition AL_Dpb_GetLastPicID :: "AL_TDpb \<Rightarrow> nat option" where
  "AL_Dpb_GetLastPicID d =
     (if uHeadPOC d = uEndOfList then Some (uHeadPOC d)
      else do { u \<leftarrow> last_by nextPOC d (uHeadPOC d); nd \<leftarrow> node d u; Some (uPicID nd) })"

definition AL_Dpb_GetNumRef :: "AL_TDpb \<Rightarrow> u8" where "AL_Dpb_GetNumRef d = uNumRef d"
definition AL_Dpb_SetNumRef :: "u8 \<Rightarrow> AL_TDpb \<Rightarrow> AL_TDpb" where "AL_Dpb_SetNumRef m d = d\<lparr>uNumRef := m\<rparr>"

definition AL_Dpb_SetMarkingFlag :: "nat \<Rightarrow> AL_EMarkingRef \<Rightarrow> AL_TDpb \<Rightarrow> AL_TDpb option" where
  "AL_Dpb_SetMarkingFlag n m d = set_node n (\<lambda>nd. nd\<lparr>eMarking_flag := m\<rparr>) d"

definition AL_Dpb_ResetOutputFlag :: "nat \<Rightarrow> AL_TDpb \<Rightarrow> AL_TDpb option" where
  "AL_Dpb_ResetOutputFlag n d =
     do { d1 \<leftarrow> set_node n (\<lambda>nd. nd\<lparr>pic_output_flag := False\<rparr>) d;
          Some (d1\<lparr>uNumOutputPic := uNumOutputPic d1 - 1\<rparr>) }"

definition AL_Dpb_IncrementPicLatency :: "nat \<Rightarrow> int \<Rightarrow> AL_TDpb \<Rightarrow> AL_TDpb option" where
  "AL_Dpb_IncrementPicLatency n poc d =
     do { nd \<leftarrow> node d n;
          if iFramePOC nd > poc then set_node n (\<lambda>nd. nd\<lparr>uPicLatency := uPicLatency nd + 1\<rparr>) d else Some d }"

definition AL_Dpb_DecrementPicLatency :: "nat \<Rightarrow> AL_TDpb \<Rightarrow> AL_TDpb option" where
  "AL_Dpb_DecrementPicLatency n d = set_node n (\<lambda>nd. nd\<lparr>uPicLatency := uPicLatency nd - 1\<rparr>) d"

definition AL_Dpb_BeginNewSeq :: "AL_TDpb \<Rightarrow> AL_TDpb" where
  "AL_Dpb_BeginNewSeq d = d\<lparr>bNewSeq := True, iLastDisplayedPOC := - 2147483648\<rparr>"

definition AL_Dpb_NodeIsReset :: "nat \<Rightarrow> AL_TDpb \<Rightarrow> bool option" where
  "AL_Dpb_NodeIsReset n d = do { nd \<leftarrow> node d n; Some (bIsReset nd) }"

definition AL_Dpb_LastHasMMCO5 :: "AL_TDpb \<Rightarrow> bool" where "AL_Dpb_LastHasMMCO5 d = bLastHasMMCO5 d"
definition AL_Dpb_SetMMCO5 :: "AL_TDpb \<Rightarrow> AL_TDpb" where "AL_Dpb_SetMMCO5 d = d\<lparr>bLastHasMMCO5 := True\<rparr>"
definition AL_Dpb_ResetMMCO5 :: "AL_TDpb \<Rightarrow> AL_TDpb" where "AL_Dpb_ResetMMCO5 d = d\<lparr>bLastHasMMCO5 := False\<rparr>"

definition AL_Dpb_ConvertPicIDToNodeID :: "nat \<Rightarrow> AL_TDpb \<Rightarrow> nat option" where
  "AL_Dpb_ConvertPicIDToNodeID pic d = (if pic < PIC_ID_POOL_SIZE then Some (PicId2NodeId d pic) else None)"

partial_function (option) free_node_loop :: "AL_TDpb \<Rightarrow> nat \<Rightarrow> nat option" where
  "free_node_loop d u =
     do { nd \<leftarrow> node d u;
          if eMarking_flag nd \<noteq> UNUSED_FOR_REF \<or> pic_output_flag nd
          then free_node_loop d ((u + 1) mod MAX_DPB_SIZE) else Some u }"

definition AL_Dpb_GetNextFreeNode :: "AL_TDpb \<Rightarrow> nat option" where
  "AL_Dpb_GetNextFreeNode d = free_node_loop d 0"

section \<open>Searches\<close>

definition AL_Dpb_SearchPocLsb :: "nat \<Rightarrow> AL_TDpb \<Rightarrow> nat option" where
  "AL_Dpb_SearchPocLsb poc_lsb d =
     do { (u, _) \<leftarrow> walk nextPocLsb
            (\<lambda>u d. do { nd \<leftarrow> node d u;
                        Some (slice_pic_order_cnt_lsb nd = poc_lsb \<and> eMarking_flag nd \<noteq> UNUSED_FOR_REF, d) })
            (uHeadPocLsb d) d;
          Some u }"

definition AL_Dpb_SearchPOC :: "int \<Rightarrow> AL_TDpb \<Rightarrow> nat option" where
  "AL_Dpb_SearchPOC iPOC d =
     do { (u, _) \<leftarrow> walk nextPOC
            (\<lambda>u d. do { nd \<leftarrow> node d u;
                        Some (iFramePOC nd = iPOC \<and> eMarking_flag nd \<noteq> UNUSED_FOR_REF \<and> \<not> non_existing nd, d) })
            (uHeadPOC d) d;
          Some u }"

definition Dpb_GetNodeFromFrmID :: "nat \<Rightarrow> AL_TDpb \<Rightarrow> nat option" where
  "Dpb_GetNodeFromFrmID frm d =
     do { (u, _) \<leftarrow> walk nextDec (\<lambda>u d. do { nd \<leftarrow> node d u; Some (uFrmID nd = frm, d) }) (uHeadDecOrder d) d;
          Some u }"

end
