(* ===== verification/DpbOps.thy ===== *)
theory DpbOps imports Dpb begin

text \<open>
  lib_parsing/DPB.c: the operations that move pictures: insertion, display, removal, flush and
  clean-up.  The insertion loops and the recursion of \<open>AL_Dpb_Display\<close> are partial functions, \<open>None\<close>
  when they do not return.
\<close>

section \<open>Display\<close>

text \<open>The end of \<open>AL_Dpb_Display\<close>: the picture itself, after its predecessors.\<close>

definition display_node :: "nat \<Rightarrow> AL_TDpb \<Rightarrow> AL_TDpb option" where
  "display_node n d =
     do { nd \<leftarrow> node d n;
          if pic_output_flag nd
          then do { d1 \<leftarrow> (if \<not> non_existing nd
                          then do { d0 \<leftarrow> AL_Dpb_sAddToDisplayList n d;
                                    Some (d0\<lparr>iLastDisplayedPOC := iFramePOC nd\<rparr>) }
                          else Some d);
                    d2 \<leftarrow> set_node n (\<lambda>nd. nd\<lparr>bIsDisplayed := True, pic_output_flag := False\<rparr>) d1;
                    Some (d2\<lparr>bNewSeq := False, uNumOutputPic := uNumOutputPic d2 - 1\<rparr>) }
          else Some d }"

text \<open>The function from the turn of its loop at \<open>uParse\<close> on.\<close>

partial_function (option) display_from :: "nat \<Rightarrow> nat \<Rightarrow> AL_TDpb \<Rightarrow> AL_TDpb option" where
  "display_from uParse n d =
     (if uParse \<noteq> n
      then do { nd \<leftarrow> node d uParse;
                d1 \<leftarrow> (if pic_output_flag nd then display_from (uHeadPOC d) uParse d else Some d);
                display_from (uNextPOC nd) n d1 }
      else display_node n d)"

definition AL_Dpb_Display :: "nat \<Rightarrow> AL_TDpb \<Rightarrow> AL_TDpb option" where
  "AL_Dpb_Display n d = display_from (uHeadPOC d) n d"

definition AL_Dpb_GetDisplayBuffer :: "AL_TDpb \<Rightarrow> nat option" where
  "AL_Dpb_GetDisplayBuffer d =
     (if \<not> DispFifo_IsEmpty (DispFifo d)
      then (let frm = DispFifo_Peek (DispFifo d) in
            do { st \<leftarrow> DispFifo_GetStatus frm (DispFifo d);
                 Some (if st \<noteq> AL_READY_FOR_OUTPUT then UndefID else frm) })
      else Some UndefID)"

definition AL_Dpb_ReleaseDisplayBuffer :: "AL_TDpb \<Rightarrow> (nat \<times> AL_TDpb) option" where
  "AL_Dpb_ReleaseDisplayBuffer d =
     do { (frm, f) \<leftarrow> DispFifo_Dequeue (DispFifo d);
          let d1 = d\<lparr>DispFifo := f\<rparr>;
          Some (frm, if frm \<noteq> UndefID then call_back (DecrementFrmBuf frm) d1 else d1) }"

definition AL_Dpb_ClearOutput :: "AL_TDpb \<Rightarrow> AL_TDpb option" where
  "AL_Dpb_ClearOutput d =
     do { (_, d1) \<leftarrow> walk nextPOC
            (\<lambda>u d. do { d' \<leftarrow> set_node u (\<lambda>nd. nd\<lparr>pic_output_flag := False\<rparr>) d; Some (False, d') })
            (uHeadPOC d) d;
          Some (d1\<lparr>uNumOutputPic := 0\<rparr>) }"

section \<open>Removal\<close>

definition RemoveFromPocList :: "nat \<Rightarrow> AL_TDpb \<Rightarrow> AL_TDpb option" where
  "RemoveFromPocList n d =
     do { nd \<leftarrow> node d n;
          let uPrev = uPrevPOC nd;
          let uNext = uNextPOC nd;
          let d1 = (if uHeadPOC d = n then d\<lparr>uHeadPOC := uNext\<rparr> else d);
          d2 \<leftarrow> (if uPrev \<noteq> uEndOfList then set_node uPrev (\<lambda>nd. nd\<lparr>uNextPOC := uNext\<rparr>) d1 else Some d1);
          (if uNext \<noteq> uEndOfList then set_node uNext (\<lambda>nd. nd\<lparr>uPrevPOC := uPrev\<rparr>) d2
           else Some (d2\<lparr>uLastPOC := uPrev\<rparr>)) }"

definition RemoveFromPocLsbList :: "nat \<Rightarrow> AL_TDpb \<Rightarrow> AL_TDpb option" where
  "RemoveFromPocLsbList n d =
     do { nd \<leftarrow> node d n;
          let uPrev = uPrevPocLsb nd;
          let uNext = uNextPocLsb nd;
          let d1 = (if uHeadPocLsb d = n then d\<lparr>uHeadPocLsb := uNext\<rparr> else d);
          d2 \<leftarrow> (if uPrev \<noteq> uEndOfList then set_node uPrev (\<lambda>nd. nd\<lparr>uNextPocLsb := uNext\<rparr>) d1 else Some d1);
          (if uNext \<noteq> uEndOfList then set_node uNext (\<lambda>nd. nd\<lparr>uPrevPocLsb := uPrev\<rparr>) d2 else Some d2) }"

definition RemoveFromDecOrderList :: "nat \<Rightarrow> AL_TDpb \<Rightarrow> AL_TDpb option" where
  "RemoveFromDecOrderList n d =
     do { nd \<leftarrow> node d n;
          let uPrev = uPrevDecOrder nd;
          let uNext = uNextDecOrder nd;
          let d1 = (if uHeadDecOrder d = n then d\<lparr>uHeadDecOrder := uNext\<rparr> else d);
          d2 \<leftarrow> (if uPrev \<noteq> uEndOfList then set_node uPrev (\<lambda>nd. nd\<lparr>uNextDecOrder := uNext\<rparr>) d1 else Some d1);
          (if uNext \<noteq> uEndOfList then set_node uNext (\<lambda>nd. nd\<lparr>uPrevDecOrder := uPrev\<rparr>) d2 else Some d2) }"

definition fill_if_waiting :: "AL_TDpb \<Rightarrow> AL_TDpb option" where
  "fill_if_waiting d =
     (if bPicWaiting d \<and> FreePicIdCnt d \<noteq> 0 then AL_Dpb_sFillWaitingPicture d else Some d)"

definition defer_release :: "nat \<Rightarrow> nat \<Rightarrow> AL_TDpb \<Rightarrow> AL_TDpb" where
  "defer_release frm mv d =
     d\<lparr>pDltFrmIDLst := (pDltFrmIDLst d)(iDltFrmLstTail d := frm),
       pDltMvIDLst := (pDltMvIDLst d)(iDltMvLstTail d := mv),
       iDltFrmLstTail := (iDltFrmLstTail d + 1) mod FRM_BUF_POOL_SIZE,
       iDltMvLstTail := (iDltMvLstTail d + 1) mod MAX_DPB_SIZE,
       iNumDltPic := iNumDltPic d + 1\<rparr>"

definition AL_Dpb_Remove :: "nat \<Rightarrow> AL_TDpb \<Rightarrow> (nat \<times> AL_TDpb) option" where
  "AL_Dpb_Remove n d =
     (if n = uEndOfList then Some (UndefID, d)
      else do { nd \<leftarrow> node d n;
                d1 \<leftarrow> RemoveFromPocList n d;
                d2 \<leftarrow> RemoveFromPocLsbList n d1;
                d3 \<leftarrow> RemoveFromDecOrderList n d2;
                d4 \<leftarrow> AL_Dpb_sReleasePicID (uPicID nd) d3;
                let d5 = (if eMarking_flag nd \<noteq> UNUSED_FOR_REF then d4\<lparr>uCountRef := uCountRef d4 - 1\<rparr> else d4);
                d6 \<leftarrow> AL_Dpb_sResetNodeInfo n (d5\<lparr>uCountPic := uCountPic d5 - 1\<rparr>);
                d7 \<leftarrow> fill_if_waiting d6;
                Some (uFrmID nd, if \<not> non_existing nd then defer_release (uFrmID nd) (uMvID nd) d7 else d7) })"

definition AL_Dpb_RemoveHead :: "AL_TDpb \<Rightarrow> (nat \<times> AL_TDpb) option" where
  "AL_Dpb_RemoveHead d =
     do { out \<leftarrow> AL_Dpb_GetOutputFlag (uHeadPOC d) d;
          d1 \<leftarrow> (if out then AL_Dpb_Display (uHeadPOC d) d else Some d);
          AL_Dpb_Remove (uHeadPOC d1) d1 }"

partial_function (option) AL_Dpb_Flush :: "AL_TDpb \<Rightarrow> AL_TDpb option" where
  "AL_Dpb_Flush d =
     (if uHeadPOC d \<noteq> uEndOfList
      then do { out \<leftarrow> AL_Dpb_GetOutputFlag (uHeadPOC d) d;
                d1 \<leftarrow> (if out then AL_Dpb_Display (uHeadPOC d) d else Some d);
                (_, d2) \<leftarrow> AL_Dpb_RemoveHead d1;
                AL_Dpb_Flush d2 }
      else Some d)"

partial_function (option) hevc_cleanup_loop :: "u32 \<Rightarrow> u8 \<Rightarrow> nat \<Rightarrow> AL_TDpb \<Rightarrow> AL_TDpb option" where
  "hevc_cleanup_loop uMaxLatency maxNumOutput u d =
     (if u = uEndOfList then Some d
      else do { nd \<leftarrow> node d u;
                d1 \<leftarrow> (if pic_output_flag nd
                         \<and> (uPicLatency nd \<ge> uMaxLatency \<or> AL_Dpb_GetNumOutputPict d > maxNumOutput)
                      then AL_Dpb_Display u d else Some d);
                nd1 \<leftarrow> node d1 u;
                d2 \<leftarrow> (if eMarking_flag nd1 = UNUSED_FOR_REF \<and> \<not> pic_output_flag nd1
                      then map_option snd (AL_Dpb_Remove u d1) else Some d1);
                hevc_cleanup_loop uMaxLatency maxNumOutput (uNextPOC nd1) d2 })"

definition AL_Dpb_HEVC_Cleanup :: "u32 \<Rightarrow> u8 \<Rightarrow> AL_TDpb \<Rightarrow> AL_TDpb option" where
  "AL_Dpb_HEVC_Cleanup uMaxLatency maxNumOutput d =
     hevc_cleanup_loop uMaxLatency maxNumOutput (uHeadPOC d) d"

definition remove_useless :: "nat \<Rightarrow> AL_TDpb \<Rightarrow> AL_TDpb option" where
  "remove_useless u d =
     do { m \<leftarrow> AL_Dpb_GetMarkingFlag u d;
          out \<leftarrow> AL_Dpb_GetOutputFlag u d;
          if m = UNUSED_FOR_REF \<and> \<not> out then map_option snd (AL_Dpb_Remove u d) else Some d }"

definition display_and_remove :: "nat \<Rightarrow> AL_TDpb \<Rightarrow> AL_TDpb option" where
  "display_and_remove u d =
     do { m \<leftarrow> AL_Dpb_GetMarkingFlag u d;
          if m = UNUSED_FOR_REF
          then do { d1 \<leftarrow> AL_Dpb_Display u d; map_option snd (AL_Dpb_Remove u d1) } else Some d }"

definition dpb_overfull :: "AL_TDpb \<Rightarrow> bool" where
  "dpb_overfull d \<longleftrightarrow> AL_Dpb_GetRefCount d > AL_Dpb_GetNumRef d \<or> AL_Dpb_GetPicCount d > AL_Dpb_GetNumRef d"

definition AL_Dpb_AVC_Cleanup :: "AL_TDpb \<Rightarrow> AL_TDpb option" where
  "AL_Dpb_AVC_Cleanup d =
     do { d1 \<leftarrow> walk_saved nextPOC (\<lambda>_. True) remove_useless (uHeadPOC d) d;
          d2 \<leftarrow> walk_saved nextPOC dpb_overfull display_and_remove (uHeadPOC d1) d1;
          fill_if_waiting d2 }"

section \<open>Insertion\<close>

text \<open>The two sorted insertions: the turns of the loop up to the one that links the node.\<close>

partial_function (option) insert_poc :: "nat \<Rightarrow> int \<Rightarrow> nat \<Rightarrow> AL_TDpb \<Rightarrow> AL_TDpb option" where
  "insert_poc cur poc n d =
     do { c \<leftarrow> node d cur;
          if iFramePOC c > poc
          then do { let uPrev = uPrevPOC c;
                    d1 \<leftarrow> set_node n (\<lambda>nd. nd\<lparr>uPrevPOC := uPrev, uNextPOC := cur\<rparr>) d;
                    d2 \<leftarrow> set_node cur (\<lambda>nd. nd\<lparr>uPrevPOC := n\<rparr>) d1;
                    d3 \<leftarrow> (if uPrev \<noteq> uEndOfList then set_node uPrev (\<lambda>nd. nd\<lparr>uNextPOC := n\<rparr>) d2 else Some d2);
                    Some (if cur = uHeadPOC d3 then d3\<lparr>uHeadPOC := n\<rparr> else d3) }
          else if uNextPOC c = uEndOfList
          then do { d1 \<leftarrow> set_node n (\<lambda>nd. nd\<lparr>uNextPOC := uEndOfList, uPrevPOC := cur\<rparr>) d;
                    d2 \<leftarrow> set_node cur (\<lambda>nd. nd\<lparr>uNextPOC := n\<rparr>) d1;
                    Some (d2\<lparr>uLastPOC := n\<rparr>) }
          else insert_poc (uNextPOC c) poc n d }"

partial_function (option) insert_lsb :: "nat \<Rightarrow> nat \<Rightarrow> nat \<Rightarrow> AL_TDpb \<Rightarrow> AL_TDpb option" where
  "insert_lsb cur lsb n d =
     do { c \<leftarrow> node d cur;
          if slice_pic_order_cnt_lsb c > lsb
          then do { let uPrev = uPrevPocLsb c;
                    d1 \<leftarrow> set_node n (\<lambda>nd. nd\<lparr>uPrevPocLsb := uPrev, uNextPocLsb := cur\<rparr>) d;
                    d2 \<leftarrow> set_node cur (\<lambda>nd. nd\<lparr>uPrevPocLsb := n\<rparr>) d1;
                    d3 \<leftarrow> (if uPrev \<noteq> uEndOfList then set_node uPrev (\<lambda>nd. nd\<lparr>uNextPocLsb := n\<rparr>) d2 else Some d2);
                    Some (if cur = uHeadPocLsb d3 then d3\<lparr>uHeadPocLsb := n\<rparr> else d3) }
          else if uNextPocLsb c = uEndOfList
          then do { d1 \<leftarrow> set_node n (\<lambda>nd. nd\<lparr>uNextPocLsb := uEndOfList, uPrevPocLsb := cur\<rparr>) d;
                    set_node cur (\<lambda>nd. nd\<lparr>uNextPocLsb := n\<rparr>) d1 }
          else insert_lsb (uNextPocLsb c) lsb n d }"

definition insert_dec :: "nat \<Rightarrow> AL_TDpb \<Rightarrow> AL_TDpb option" where
  "insert_dec n d =
     do { cur \<leftarrow> last_by nextDec d (uHeadDecOrder d);
          d1 \<leftarrow> set_node n (\<lambda>nd. nd\<lparr>uPrevDecOrder := cur, uNextDecOrder := uEndOfList\<rparr>) d;
          set_node cur (\<lambda>nd. nd\<lparr>uNextDecOrder := n\<rparr>) d1 }"

definition insert_first :: "nat \<Rightarrow> AL_TDpb \<Rightarrow> AL_TDpb option" where
  "insert_first n d =
     do { d1 \<leftarrow> set_node n (\<lambda>nd. nd\<lparr>uPrevPOC := uEndOfList, uNextPOC := uEndOfList,
              uPrevPocLsb := uEndOfList, uNextPocLsb := uEndOfList,
              uPrevDecOrder := uEndOfList, uNextDecOrder := uEndOfList\<rparr>) d;
          Some (d1\<lparr>uHeadPOC := n, uLastPOC := n, uHeadPocLsb := n, uHeadDecOrder := n\<rparr>) }"

definition assign_pic_id :: "nat \<Rightarrow> nat \<Rightarrow> nat \<Rightarrow> bool \<Rightarrow> AL_TDpb \<Rightarrow> (nat \<times> AL_TDpb) option" where
  "assign_pic_id n frm mv nonExisting d =
     (if nonExisting then Some (uEndOfList, d)
      else if FreePicIdCnt d \<noteq> 0
      then (let d1 = d\<lparr>FreePicIdCnt := FreePicIdCnt d - 1\<rparr>;
                pic = FreePicIDs d1 (FreePicIdCnt d1)
            in if pic < PIC_ID_POOL_SIZE
               then Some (pic, d1\<lparr>PicId2NodeId := (PicId2NodeId d1)(pic := n),
                                  PicId2FrmId := (PicId2FrmId d1)(pic := frm),
                                  PicId2MvId := (PicId2MvId d1)(pic := mv)\<rparr>)
               else None)
      else Some (uEndOfList, d\<lparr>bPicWaiting := True, uNodeWaiting := n, uFrmWaiting := frm, uMvWaiting := mv\<rparr>))"

definition AL_Dpb_Insert ::
    "int \<Rightarrow> nat \<Rightarrow> nat \<Rightarrow> nat \<Rightarrow> nat \<Rightarrow> bool \<Rightarrow> AL_EMarkingRef \<Rightarrow> bool \<Rightarrow> nat \<Rightarrow> AL_TDpb \<Rightarrow> AL_TDpb option" where
  "AL_Dpb_Insert poc lsb n frm mv out mark nonExisting nut d =
     do { (pic, d1) \<leftarrow> assign_pic_id n frm mv nonExisting d;
          d2 \<leftarrow> set_node n (\<lambda>nd. nd\<lparr>iFramePOC := poc, slice_pic_order_cnt_lsb := lsb, uFrmID := frm,
                  uMvID := mv, uPicID := pic, eMarking_flag := mark, uNodeID := n,
                  pic_output_flag := out, bIsReset := False, non_existing := nonExisting, eNUT := nut\<rparr>)
                  (d1\<lparr>uCurRef := n\<rparr>);
          f \<leftarrow> (if frm \<noteq> uEndOfList
               then DispFifo_SetStatus frm (if out then AL_NOT_READY_FOR_OUTPUT else AL_NOT_NEEDED_FOR_OUTPUT)
                      (DispFifo d2)
               else Some (DispFifo d2));
          let d3 = d2\<lparr>DispFifo := f\<rparr>;
          d4 \<leftarrow> (if uHeadPOC d3 = uEndOfList then insert_first n d3
                else do { e1 \<leftarrow> insert_poc (uHeadPOC d3) poc n d3;
                          e2 \<leftarrow> insert_lsb (uHeadPocLsb d3) lsb n e1;
                          insert_dec n e2 });
          let d5 = (if mark \<noteq> UNUSED_FOR_REF then d4\<lparr>uCountRef := uCountRef d4 + 1\<rparr> else d4);
          let d6 = d5\<lparr>uCountPic := uCountPic d5 + 1\<rparr>;
          let d7 = (if out then d6\<lparr>uNumOutputPic := uNumOutputPic d6 + 1\<rparr> else d6);
          let d8 = (if frm \<noteq> uEndOfList then call_back (IncrementFrmBuf frm) d7 else d7);
          Some (if mv \<noteq> uEndOfList then call_back (IncrementMvBuf mv) d8 else d8) }"

definition AL_Dpb_sIsNoReordering :: "AL_TDpb \<Rightarrow> bool" where
  "AL_Dpb_sIsNoReordering d \<longleftrightarrow> eMode d = AL_DPB_NO_REORDERING"

definition AL_Dpb_EndDecoding :: "nat \<Rightarrow> AL_TDpb \<Rightarrow> AL_TDpb option" where
  "AL_Dpb_EndDecoding frm d =
     do { let d1 = AL_Dpb_sReleaseUnusedBuf False d;
          st \<leftarrow> DispFifo_GetStatus frm (DispFifo d1);
          if st = AL_NOT_READY_FOR_OUTPUT
          then do { f \<leftarrow> DispFifo_SetStatus frm AL_READY_FOR_OUTPUT (DispFifo d1);
                    let d2 = d1\<lparr>DispFifo := f\<rparr>;
                    if AL_Dpb_sIsNoReordering d2
                    then do { u \<leftarrow> Dpb_GetNodeFromFrmID frm d2;
                              if u \<noteq> uEndOfList
                              then do { out \<leftarrow> AL_Dpb_GetOutputFlag u d2;
                                        if out then AL_Dpb_Display u d2 else Some d2 }
                              else Some d2 }
                    else Some d2 }
          else Some d1 }"

end
