(* ===== verification/DpbMark.thy ===== *)
theory DpbMark imports DpbOps begin

text \<open>
  lib_parsing/DPB.c: the reference picture marking of AVC (sliding window and memory management
  control operations) and the construction and modification of the reference lists.  A reference
  list is the list of its node identifiers.
\<close>

section \<open>Sliding window\<close>

record sw_scan =
  sw_pos :: nat
  sw_min :: int
  sw_short :: nat
  sw_long :: nat

definition sw_body :: "AL_TDpb \<Rightarrow> nat \<Rightarrow> sw_scan \<Rightarrow> (bool \<times> sw_scan) option" where
  "sw_body d u a =
     do { nd \<leftarrow> node d u;
          let a1 = (if eMarking_flag nd = SHORT_TERM_REF then a\<lparr>sw_short := sw_short a + 1\<rparr>
                    else if eMarking_flag nd = LONG_TERM_REF then a\<lparr>sw_long := sw_long a + 1\<rparr> else a);
          Some (False,
            if iFrame_num_wrap nd < sw_min a1 \<and> eMarking_flag nd = SHORT_TERM_REF
            then a1\<lparr>sw_min := iFrame_num_wrap nd, sw_pos := u\<rparr> else a1) }"

definition AL_Dpb_sSlidingWindowMarking :: "AL_TAvcSliceHdr \<Rightarrow> AL_TDpb \<Rightarrow> AL_TDpb option" where
  "AL_Dpb_sSlidingWindowMarking sl d =
     do { (_, a) \<leftarrow> walk (\<lambda>u _. nextDec u d) (sw_body d) (uHeadDecOrder d)
            \<lparr>sw_pos = 0, sw_min = INT32_MAX, sw_short = 0, sw_long = 0\<rparr>;
          if sw_short a + sw_long a > min (unat (uNumRef d)) (unat (max_num_ref_frames sl))
          then do { nd \<leftarrow> node d (sw_pos a);
                    let d1 = upd (sw_pos a) (\<lambda>nd. nd\<lparr>eMarking_flag := UNUSED_FOR_REF\<rparr>) d;
                    let d2 = d1\<lparr>uCountRef := uCountRef d1 - 1\<rparr>;
                    if non_existing nd then map_option snd (AL_Dpb_Remove (sw_pos a) d2)
                    else do { d3 \<leftarrow> AL_Dpb_sReleasePicID (uPicID nd) d2;
                              set_node (sw_pos a) (\<lambda>nd. nd\<lparr>uPicID := UndefID\<rparr>) d3 } }
          else Some d }"

section \<open>Memory management control operations\<close>

definition AL_Dpb_sSetPicToUnused :: "nat \<Rightarrow> AL_TDpb \<Rightarrow> AL_TDpb option" where
  "AL_Dpb_sSetPicToUnused n d =
     do { d1 \<leftarrow> set_node n (\<lambda>nd. nd\<lparr>eMarking_flag := UNUSED_FOR_REF\<rparr>) d;
          d2 \<leftarrow> AL_Dpb_sReleasePicID (uPicID (Nodes d1 n)) (d1\<lparr>uCountRef := uCountRef d1 - 1\<rparr>);
          set_node n (\<lambda>nd. nd\<lparr>uPicID := UndefID\<rparr>) d2 }"

definition AL_Dpb_sShortTermToUnused :: "AL_TAvcSliceHdr \<Rightarrow> nat \<Rightarrow> AL_TDpb \<Rightarrow> AL_TDpb option" where
  "AL_Dpb_sShortTermToUnused sl idx d =
     do { cur \<leftarrow> node d (uCurRef d);
          diff \<leftarrow> at (difference_of_pic_nums_minus1 sl) idx;
          let iPicNumX = to_i32 (iPic_num cur - (diff + 1));
          (_, d') \<leftarrow> walk nextDec
            (\<lambda>u d. do { nd \<leftarrow> node d u;
                        if iPic_num nd = iPicNumX \<and> eMarking_flag nd = SHORT_TERM_REF
                        then do { d1 \<leftarrow> AL_Dpb_sSetPicToUnused u d; Some (True, d1) }
                        else Some (False, d) })
            (uHeadDecOrder d) d;
          Some d' }"

definition AL_Dpb_sLongTermToUnused :: "AL_TAvcSliceHdr \<Rightarrow> nat \<Rightarrow> AL_TDpb \<Rightarrow> AL_TDpb option" where
  "AL_Dpb_sLongTermToUnused sl idx d =
     do { num \<leftarrow> at (long_term_pic_num sl) idx;
          (_, d') \<leftarrow> walk nextDec
            (\<lambda>u d. do { nd \<leftarrow> node d u;
                        d1 \<leftarrow> (if iLong_term_pic_num nd = num \<and> eMarking_flag nd = LONG_TERM_REF
                              then AL_Dpb_sSetPicToUnused u d else Some d);
                        Some (False, d1) })
            (uHeadDecOrder d) d;
          Some d' }"

text \<open>\<open>uPrev\<close> and \<open>uNext\<close> are read once, before the loop.\<close>

definition AL_Dpb_sSwitchLongTermPlace :: "nat \<Rightarrow> AL_TDpb \<Rightarrow> AL_TDpb option" where
  "AL_Dpb_sSwitchLongTermPlace iRef d =
     do { r \<leftarrow> node d iRef;
          let uPrev = uPrevDecOrder r;
          let uNext = uNextDecOrder r;
          (_, d') \<leftarrow> walk nextDec
            (\<lambda>u d. do { nd \<leftarrow> node d u;
                        rf \<leftarrow> node d iRef;
                        if eMarking_flag nd = LONG_TERM_REF \<and> u \<noteq> iRef
                           \<and> iLong_term_pic_num nd > iLong_term_pic_num rf
                        then do { d1 \<leftarrow> (if uPrev \<noteq> uEndOfList
                                        then set_node uPrev (\<lambda>nd. nd\<lparr>uNextDecOrder := uNext\<rparr>) d else Some d);
                                  d2 \<leftarrow> (if uNext \<noteq> uEndOfList
                                        then set_node uNext (\<lambda>nd. nd\<lparr>uPrevDecOrder := uPrev\<rparr>) d1 else Some d1);
                                  nd2 \<leftarrow> node d2 u;
                                  let uPrevNode = uPrevDecOrder nd2;
                                  d3 \<leftarrow> (if uPrevNode \<noteq> uEndOfList
                                        then set_node uPrevNode (\<lambda>nd. nd\<lparr>uNextDecOrder := iRef\<rparr>) d2 else Some d2);
                                  d4 \<leftarrow> set_node iRef (\<lambda>nd. nd\<lparr>uPrevDecOrder := uPrevNode\<rparr>) d3;
                                  d5 \<leftarrow> set_node u (\<lambda>nd. nd\<lparr>uPrevDecOrder := iRef\<rparr>) d4;
                                  d6 \<leftarrow> set_node iRef (\<lambda>nd. nd\<lparr>uNextDecOrder := u\<rparr>) d5;
                                  Some (True, if u = uHeadDecOrder d6 then d6\<lparr>uHeadDecOrder := iRef\<rparr> else d6) }
                        else Some (False, d) })
            (uHeadDecOrder d) d;
          Some d' }"

definition mark_long_term :: "nat \<Rightarrow> int \<Rightarrow> AL_TDpb \<Rightarrow> AL_TDpb option" where
  "mark_long_term n idx d =
     do { d1 \<leftarrow> set_node n (\<lambda>nd. nd\<lparr>eMarking_flag := LONG_TERM_REF, iLong_term_frame_idx := idx,
                                     iLong_term_pic_num := idx\<rparr>) d;
          AL_Dpb_sSwitchLongTermPlace n d1 }"

definition AL_Dpb_sLongTermFrameIdxToAShortTerm ::
    "AL_TAvcSliceHdr \<Rightarrow> nat \<Rightarrow> nat \<Rightarrow> AL_TDpb \<Rightarrow> AL_TDpb option" where
  "AL_Dpb_sLongTermFrameIdxToAShortTerm sl idx_long idx_diff d =
     do { diff \<leftarrow> at (difference_of_pic_nums_minus1 sl) idx_diff;
          idx \<leftarrow> at (long_term_frame_idx sl) idx_long;
          cur \<leftarrow> node d (uCurRef d);
          let iPicNumX = to_i32 (iPic_num cur - (diff + 1));
          (_, frame, num) \<leftarrow> walk (\<lambda>u _. nextDec u d)
            (\<lambda>u (frame, num). do { nd \<leftarrow> node d u;
                 Some (False, if iLong_term_frame_idx nd = idx then u else frame,
                              if iPic_num nd = iPicNumX then u else num) })
            (uHeadDecOrder d) (uEndOfList, uEndOfList);
          d1 \<leftarrow> (if frame \<noteq> uEndOfList \<and> num \<noteq> uEndOfList \<and> frame \<noteq> num
                then do { nd \<leftarrow> node d frame;
                          if eMarking_flag nd \<noteq> UNUSED_FOR_REF then AL_Dpb_sSetPicToUnused frame d else Some d }
                else Some d);
          (if num \<noteq> uEndOfList then mark_long_term num idx d1 else Some d1) }"

definition AL_Dpb_sDecodingMaxLongTermFrameIdx :: "AL_TAvcSliceHdr \<Rightarrow> nat \<Rightarrow> AL_TDpb \<Rightarrow> AL_TDpb option" where
  "AL_Dpb_sDecodingMaxLongTermFrameIdx sl idx d =
     do { mx \<leftarrow> at (max_long_term_frame_idx_plus1 sl) idx;
          (_, d1) \<leftarrow> walk nextDec
            (\<lambda>u d. do { nd \<leftarrow> node d u;
                        d1 \<leftarrow> (if iLong_term_frame_idx nd < INT32_MAX \<and> iLong_term_frame_idx nd > mx - 1
                                 \<and> eMarking_flag nd = LONG_TERM_REF
                              then AL_Dpb_sSetPicToUnused u d else Some d);
                        Some (False, d1) })
            (uHeadDecOrder d) d;
          Some (d1\<lparr>MaxLongTermFrameIdx := if mx \<noteq> 0 then mx - 1 else INT32_MAX\<rparr>) }"

definition AL_Dpb_sSetAllPicAsUnused :: "AL_TAvcSliceHdr \<Rightarrow> AL_TDpb \<Rightarrow> AL_TDpb option" where
  "AL_Dpb_sSetAllPicAsUnused sl d =
     do { let iCurRef = uCurRef d;
          d1 \<leftarrow> walk_saved nextDec (\<lambda>_. True)
            (\<lambda>u d. if u \<noteq> iCurRef
                   then do { nd \<leftarrow> node d u;
                             d1 \<leftarrow> (if \<not> non_existing nd then AL_Dpb_Display u d else Some d);
                             map_option snd (AL_Dpb_Remove u d1) }
                   else Some d)
            (uHeadDecOrder d) d;
          d2 \<leftarrow> set_node iCurRef (\<lambda>nd. nd\<lparr>iFramePOC := 0, iSlice_frame_num := 0, eNUT := AL_NUT_ERR\<rparr>) d1;
          let d3 = d2\<lparr>MaxLongTermFrameIdx := INT32_MAX\<rparr>;
          Some (AL_Dpb_BeginNewSeq (if nal_ref_idc sl \<noteq> 0 then AL_Dpb_SetMMCO5 d3 else d3)) }"

definition AL_Dpb_sAssignLongTermFrameIdx :: "AL_TAvcSliceHdr \<Rightarrow> nat \<Rightarrow> AL_TDpb \<Rightarrow> AL_TDpb option" where
  "AL_Dpb_sAssignLongTermFrameIdx sl i d =
     do { x \<leftarrow> at (long_term_frame_idx sl) i;
          let idx = x mod 256;
          let uCurPos = uCurRef d;
          (_, d1) \<leftarrow> walk nextDec
            (\<lambda>u d. do { nd \<leftarrow> node d u;
                        d1 \<leftarrow> (if iLong_term_frame_idx nd = idx \<and> eMarking_flag nd = LONG_TERM_REF
                              then AL_Dpb_sSetPicToUnused u d else Some d);
                        Some (False, d1) })
            (uHeadDecOrder d) d;
          mark_long_term uCurPos idx d1 }"

text \<open>
  The four indices into the operands of the operations; \<open>i\<close> is the operation's own index.  The loop
  ends after an operation 0; past the 32nd operation it leaves the array.
\<close>

partial_function (option) mmco_loop ::
    "AL_TAvcSliceHdr \<Rightarrow> nat \<Rightarrow> nat \<Rightarrow> nat \<Rightarrow> nat \<Rightarrow> nat \<Rightarrow> AL_TDpb \<Rightarrow> AL_TDpb option" where
  "mmco_loop sl i idx1 idx2 idx3 idx4 d =
     do { op \<leftarrow> at (memory_management_control_operation sl) i;
          d' \<leftarrow> (if op = 1 then AL_Dpb_sShortTermToUnused sl idx1 d
                else if op = 2 then AL_Dpb_sLongTermToUnused sl idx2 d
                else if op = 3 then AL_Dpb_sLongTermFrameIdxToAShortTerm sl idx3 idx1 d
                else if op = 4 then AL_Dpb_sDecodingMaxLongTermFrameIdx sl idx4 d
                else if op = 5 then AL_Dpb_sSetAllPicAsUnused sl d
                else if op = 6 then AL_Dpb_sAssignLongTermFrameIdx sl idx3 d
                else Some d);
          if op \<noteq> 0
          then mmco_loop sl (i + 1) (if op = 1 \<or> op = 3 then idx1 + 1 else idx1)
                 (if op = 2 then idx2 + 1 else idx2) (if op = 3 \<or> op = 6 then idx3 + 1 else idx3)
                 (if op = 4 then idx4 + 1 else idx4) d'
          else Some d' }"

definition AL_Dpb_sAdaptiveMemoryControlMarking :: "AL_TAvcSliceHdr \<Rightarrow> AL_TDpb \<Rightarrow> AL_TDpb option" where
  "AL_Dpb_sAdaptiveMemoryControlMarking sl d = mmco_loop sl 0 0 0 0 0 d"

definition number_node :: "AL_TAvcSliceHdr \<Rightarrow> AL_TDpbNode \<Rightarrow> AL_TDpbNode" where
  "number_node sl nd =
     (let uMaxFrameNum = 2 ^ (log2_max_frame_num_minus4 sl + 4) in
      if eMarking_flag nd = SHORT_TERM_REF
      then (let wrap = (if iSlice_frame_num nd > frame_num sl
                        then to_i32 (iSlice_frame_num nd - uMaxFrameNum) else iSlice_frame_num nd)
            in nd\<lparr>iFrame_num := iSlice_frame_num nd, iFrame_num_wrap := wrap, iPic_num := wrap\<rparr>)
      else if eMarking_flag nd = LONG_TERM_REF
      then nd\<lparr>iLong_term_pic_num := iLong_term_frame_idx nd\<rparr>
      else nd)"

definition AL_Dpb_PictNumberProcess :: "AL_TAvcSliceHdr \<Rightarrow> AL_TDpb \<Rightarrow> AL_TDpb option" where
  "AL_Dpb_PictNumberProcess sl d =
     do { (_, d') \<leftarrow> walk nextDec (\<lambda>u d. do { d1 \<leftarrow> set_node u (number_node sl) d; Some (False, d1) })
            (uHeadDecOrder d) d;
          Some d' }"

definition AL_Dpb_MarkingProcess :: "AL_TAvcSliceHdr \<Rightarrow> AL_TDpb \<Rightarrow> AL_TDpb option" where
  "AL_Dpb_MarkingProcess sl d =
     do { let uCurPos = uCurRef d;
          d1 \<leftarrow> set_node uCurPos (\<lambda>nd. nd\<lparr>iSlice_frame_num := frame_num sl, uNodeID := uCurPos\<rparr>) d;
          if AL_AVC_IsIDR (nal_unit_type sl)
          then (if \<not> long_term_reference_flag sl then Some (d1\<lparr>MaxLongTermFrameIdx := INT32_MAX\<rparr>)
                else do { d2 \<leftarrow> set_node uCurPos (\<lambda>nd. nd\<lparr>iLong_term_frame_idx := 0\<rparr>) d1;
                          Some (d2\<lparr>MaxLongTermFrameIdx := 0\<rparr>) })
          else do { d2 \<leftarrow> AL_Dpb_PictNumberProcess sl d1;
                    d3 \<leftarrow> (if adaptive_ref_pic_marking_mode_flag sl
                          then AL_Dpb_sAdaptiveMemoryControlMarking sl d2 else Some d2);
                    d4 \<leftarrow> AL_Dpb_sSlidingWindowMarking sl d3;
                    cur \<leftarrow> node d4 uCurPos;
                    if 6 \<in> set (take 32 (memory_management_control_operation sl)) \<and> eMarking_flag cur \<noteq> LONG_TERM_REF
                    then set_node uCurPos (\<lambda>nd. nd\<lparr>eMarking_flag := SHORT_TERM_REF,
                                                    iLong_term_frame_idx := INT32_MAX\<rparr>) d4
                    else Some d4 } }"

definition AL_Dpb_sPicNumF :: "AL_TDpb \<Rightarrow> AL_TAvcSliceHdr \<Rightarrow> nat \<Rightarrow> int option" where
  "AL_Dpb_sPicNumF d sl n =
     (let iMaxFrameNum = 2 ^ (log2_max_frame_num_minus4 sl + 4) in
      if n = uEndOfList then Some iMaxFrameNum
      else do { nd \<leftarrow> node d n; Some (if eMarking_flag nd = SHORT_TERM_REF then iPic_num nd else iMaxFrameNum) })"

definition AL_Dpb_sLongTermPicNumF :: "AL_TDpb \<Rightarrow> nat \<Rightarrow> int option" where
  "AL_Dpb_sLongTermPicNumF d n =
     (let none = to_i32 (2 * (MaxLongTermFrameIdx d + 1)) in
      if n = uEndOfList then Some none
      else do { nd \<leftarrow> node d n; Some (if eMarking_flag nd = LONG_TERM_REF then iLong_term_pic_num nd else none) })"

section \<open>Reference lists\<close>

text \<open>The nodes of a traversal that a condition selects, as node identifiers, in their order.\<close>

definition collect :: "(nat \<Rightarrow> AL_TDpb \<Rightarrow> nat option) \<Rightarrow> (AL_TDpbNode \<Rightarrow> bool) \<Rightarrow> nat \<Rightarrow> AL_TDpb \<Rightarrow> nat list option" where
  "collect next P h d =
     do { (_, ids) \<leftarrow> walk (\<lambda>u _. next u d)
            (\<lambda>u ids. do { nd \<leftarrow> node d u;
                 if P nd then (if length ids < 16 then Some (False, ids @ [uNodeID nd]) else None)
                 else Some (False, ids) })
            h [];
          Some ids }"

text \<open>
  The short-term references fill their 16 slots from the end, so they come out in reverse order; a
  17th reference of a kind would leave the array.  \<open>overwrite\<close> stores a list at the front of the
  caller's array.
\<close>

definition overwrite :: "nat list \<Rightarrow> nat list \<Rightarrow> nat list" where
  "overwrite xs old = xs @ drop (length xs) old"

definition AL_Dpb_InitPSlice_RefList :: "AL_TDpb \<Rightarrow> nat list \<Rightarrow> nat list option" where
  "AL_Dpb_InitPSlice_RefList d pRefList =
     do { short \<leftarrow> collect nextDec (\<lambda>nd. eMarking_flag nd = SHORT_TERM_REF) (uHeadDecOrder d) d;
          long \<leftarrow> collect nextDec (\<lambda>nd. eMarking_flag nd \<noteq> UNUSED_FOR_REF \<and> eMarking_flag nd \<noteq> SHORT_TERM_REF)
                   (uHeadDecOrder d) d;
          let xs = rev short @ long;
          if length xs \<le> length pRefList then Some (overwrite xs pRefList) else None }"

definition AL_Dpb_InitBSlice_RefList ::
    "AL_TDpb \<Rightarrow> int \<Rightarrow> nat list \<Rightarrow> nat list \<Rightarrow> (nat list \<times> nat list) option" where
  "AL_Dpb_InitBSlice_RefList d poc l0 l1 =
     do { less \<leftarrow> collect nextPOC (\<lambda>nd. eMarking_flag nd = SHORT_TERM_REF \<and> iFramePOC nd < poc) (uHeadPOC d) d;
          great \<leftarrow> collect nextPOC (\<lambda>nd. eMarking_flag nd = SHORT_TERM_REF \<and> \<not> iFramePOC nd < poc) (uHeadPOC d) d;
          long \<leftarrow> collect nextDec (\<lambda>nd. eMarking_flag nd = LONG_TERM_REF) (uHeadDecOrder d) d;
          let xs = rev less @ great @ long;
          let ys = great @ rev less @ long;
          if length xs \<le> length l0 \<and> length ys \<le> length l1
          then (if length xs > 1 \<and> xs = ys
                then do { first \<leftarrow> at ys 0;
                          second \<leftarrow> at ys 1;
                          nd \<leftarrow> node d (first mod 64);
                          Some (overwrite xs l0, overwrite (second # uNodeID nd # drop 2 ys) l1) }
                else Some (overwrite xs l0, overwrite ys l1))
          else None }"

text \<open>\<open>for(u = uNumRef; u > ref; --u) list[u] = list[u - 1]\<close>\<close>

definition shift_up :: "nat \<Rightarrow> nat \<Rightarrow> nat list \<Rightarrow> nat list option" where
  "shift_up numRef ref xs =
     (if numRef \<le> ref then Some xs
      else if numRef < length xs
      then Some (take (ref + 1) xs @ take (numRef - ref) (drop ref xs) @ drop (numRef + 1) xs)
      else None)"

text \<open>\<open>for(u = ref; u <= uNumRef; ++u) if(F(list[u]) != num) list[idx++] = list[u]\<close>\<close>

function compact_loop ::
    "(nat \<Rightarrow> int option) \<Rightarrow> int \<Rightarrow> nat \<Rightarrow> nat \<Rightarrow> nat \<Rightarrow> nat list \<Rightarrow> nat list option" where
  "compact_loop F num numRef u idx xs =
     (if u \<le> numRef
      then do { x \<leftarrow> at xs u;
                v \<leftarrow> F x;
                if v \<noteq> num then compact_loop F num numRef (u + 1) (idx + 1) (xs[idx := x])
                else compact_loop F num numRef (u + 1) idx xs }
      else Some xs)"
  by pat_completeness auto
termination by (relation "measure (\<lambda>(F, num, numRef, u, idx, xs). numRef + 1 - u)") auto

declare compact_loop.simps [simp del]

definition place_ref ::
    "(AL_TDpbNode \<Rightarrow> bool) \<Rightarrow> (nat \<Rightarrow> int option) \<Rightarrow> int \<Rightarrow> nat \<Rightarrow> AL_TDpb \<Rightarrow> nat \<Rightarrow> nat list \<Rightarrow> (nat \<times> nat list) option" where
  "place_ref P F num numRef d ref xs =
     do { (u, _) \<leftarrow> walk (\<lambda>u _. nextDec u d) (\<lambda>u (_ :: unit). do { nd \<leftarrow> node d u; Some (P nd, ()) })
            (uHeadDecOrder d) ();
          if u = uEndOfList then Some (ref, xs)
          else do { nd \<leftarrow> node d u;
                    if ref < length xs
                    then do { ys \<leftarrow> compact_loop F num numRef (ref + 1) (ref + 1) (xs[ref := uNodeID nd]);
                              Some (ref + 1, ys) }
                    else None } }"

definition AL_Dpb_ModifShortTerm ::
    "AL_TDpb \<Rightarrow> AL_TAvcSliceHdr \<Rightarrow> bool \<Rightarrow> int \<Rightarrow> nat \<Rightarrow> nat \<Rightarrow> int \<Rightarrow> nat list \<Rightarrow> (nat \<times> int \<times> nat list) option" where
  "AL_Dpb_ModifShortTerm d sl idc abs_diff_pic_num_minus1 numRef ref pred xs =
     do { let iMaxFrameNum = 2 ^ (log2_max_frame_num_minus4 sl + 4);
          let iDiffPicNum = abs_diff_pic_num_minus1 + 1;
          let iPicNumNoWrap =
            (if \<not> idc then (if pred - iDiffPicNum < 0 then pred - iDiffPicNum + iMaxFrameNum else pred - iDiffPicNum)
             else (if pred + iDiffPicNum \<ge> iMaxFrameNum then pred + iDiffPicNum - iMaxFrameNum else pred + iDiffPicNum));
          let iPicNum = (if iPicNumNoWrap > frame_num sl then iPicNumNoWrap - iMaxFrameNum else iPicNumNoWrap);
          ys \<leftarrow> shift_up numRef ref xs;
          (ref', zs) \<leftarrow> place_ref (\<lambda>nd. iPic_num nd = iPicNum \<and> eMarking_flag nd = SHORT_TERM_REF)
                         (AL_Dpb_sPicNumF d sl) iPicNum numRef d ref ys;
          Some (ref', iPicNumNoWrap, zs) }"

definition AL_Dpb_ModifLongTerm ::
    "AL_TDpb \<Rightarrow> AL_TAvcSliceHdr \<Rightarrow> int \<Rightarrow> nat \<Rightarrow> nat \<Rightarrow> nat list \<Rightarrow> (nat \<times> nat list) option" where
  "AL_Dpb_ModifLongTerm d sl iLongTermPicNum numRef ref xs =
     do { ys \<leftarrow> shift_up numRef ref xs;
          place_ref (\<lambda>nd. iLong_term_pic_num nd = iLongTermPicNum \<and> eMarking_flag nd = LONG_TERM_REF)
            (AL_Dpb_sLongTermPicNumF d) iLongTermPicNum numRef d ref ys }"

text \<open>One list up to its end marker; without one the loop leaves the array.\<close>

fun count_existing :: "AL_TDpb \<Rightarrow> nat list \<Rightarrow> nat option" where
  "count_existing d [] = None"
| "count_existing d (n # ns) =
     (if n = uEndOfList then Some 0
      else do { nd \<leftarrow> node d n; k \<leftarrow> count_existing d ns; Some (if non_existing nd then k else k + 1) })"

definition AL_Dpb_GetNumExistingRef :: "AL_TDpb \<Rightarrow> nat list \<Rightarrow> nat list \<Rightarrow> nat option" where
  "AL_Dpb_GetNumExistingRef d l0 l1 =
     do { a \<leftarrow> count_existing d l0; b \<leftarrow> count_existing d l1; Some (a + b) }"

text \<open>One step of the loop of \<open>AL_Dpb_FillList\<close> over the \<open>MAX_REF\<close> first references; \<open>acc\<close> holds the POC
  list and the flags.\<close>

definition fill_one :: "AL_TDpb \<Rightarrow> nat \<Rightarrow> int list \<times> u32 \<Rightarrow> (int list \<times> u32) option" where
  "fill_one d n acc =
     (if n = uEndOfList then Some acc
      else do { nd \<leftarrow> node d n;
                if non_existing nd then Some acc
                else if uPicID nd < length (fst acc) \<and> uPicID nd < 16
                then (let f1 = (if eMarking_flag nd = LONG_TERM_REF then set_bit (uPicID nd) (snd acc) else snd acc)
                      in Some ((fst acc)[uPicID nd := iFramePOC nd], set_bit (16 + uPicID nd) f1))
                else None })"

fun fill_all :: "AL_TDpb \<Rightarrow> nat list \<Rightarrow> int list \<times> u32 \<Rightarrow> (int list \<times> u32) option" where
  "fill_all d [] acc = Some acc"
| "fill_all d (n # ns) acc = do { a \<leftarrow> fill_one d n acc; fill_all d ns a }"

definition AL_Dpb_FillList :: "AL_TDpb \<Rightarrow> nat list \<Rightarrow> int list \<Rightarrow> u32 \<Rightarrow> (int list \<times> u32) option" where
  "AL_Dpb_FillList d listRef pPocList longTermList = fill_all d (take MAX_REF listRef) (pPocList, longTermList)"

end
