(* ===== verification/DpbLists.thy ===== *)
theory DpbLists imports DpbOps "HOL-Library.Multiset" begin

text \<open>
  The three linked lists of the decoded picture buffer: the interface \<open>linked_list\<close> interpreted on
  each of them, and the effect of the removal and insertion functions on the lists.
\<close>

section \<open>Projections of the nodes\<close>

definition proj :: "(AL_TDpbNode \<Rightarrow> 'a) \<Rightarrow> (nat \<Rightarrow> AL_TDpbNode) \<Rightarrow> nat \<Rightarrow> 'a" where
  "proj g N = (\<lambda>n. g (N n))"

lemma proj_apply [simp]: "proj g N n = g (N n)"
  by (simp add: proj_def)

lemma proj_upd [simp]: "proj g (N(n := v)) = (proj g N)(n := g v)"
  by (auto simp: proj_def)

lemma proj_triv [simp]: "(proj g N)(n := g (N n)) = proj g N"
  by (auto simp: proj_def)

lemma Nodes_upd [simp]: "Nodes (upd n f d) = (Nodes d)(n := f (Nodes d n))"
  by (simp add: upd_def)

lemma node_in [simp]: "n < 34 \<Longrightarrow> node d n = Some (Nodes d n)"
  by (simp add: node_def dpb_sizes)

lemma set_node_in [simp]: "n < 34 \<Longrightarrow> set_node n f d = Some (upd n f d)"
  by (simp add: set_node_def dpb_sizes)

lemma upd_frame [simp]:
  "DispFifo (upd n f d) = DispFifo d" "uHeadPOC (upd n f d) = uHeadPOC d"
  "uHeadPocLsb (upd n f d) = uHeadPocLsb d" "uLastPOC (upd n f d) = uLastPOC d"
  "uHeadDecOrder (upd n f d) = uHeadDecOrder d" "uCountRef (upd n f d) = uCountRef d"
  "uCountPic (upd n f d) = uCountPic d" "uNumOutputPic (upd n f d) = uNumOutputPic d"
  "FreePicIDs (upd n f d) = FreePicIDs d" "FreePicIdCnt (upd n f d) = FreePicIdCnt d"
  "PicId2NodeId (upd n f d) = PicId2NodeId d" "uNodeWaiting (upd n f d) = uNodeWaiting d"
  "bPicWaiting (upd n f d) = bPicWaiting d" "calls (upd n f d) = calls d"
  "uCurRef (upd n f d) = uCurRef d" "uNumRef (upd n f d) = uNumRef d"
  by (simp_all add: upd_def)

lemma eol_not_small [simp]: "\<not> uEndOfList < 34"
  by (simp add: uEndOfList_def)

section \<open>The interface\<close>

interpretation poc: linked_list uHeadPOC "\<lambda>h d. d\<lparr>uHeadPOC := h\<rparr>"
  "\<lambda>d. proj uNextPOC (Nodes d)" "\<lambda>n v d. upd n (\<lambda>nd. nd\<lparr>uNextPOC := v\<rparr>) d"
  "\<lambda>d. proj uPrevPOC (Nodes d)" "\<lambda>n v d. upd n (\<lambda>nd. nd\<lparr>uPrevPOC := v\<rparr>) d"
  by unfold_locales simp_all

interpretation lsb: linked_list uHeadPocLsb "\<lambda>h d. d\<lparr>uHeadPocLsb := h\<rparr>"
  "\<lambda>d. proj uNextPocLsb (Nodes d)" "\<lambda>n v d. upd n (\<lambda>nd. nd\<lparr>uNextPocLsb := v\<rparr>) d"
  "\<lambda>d. proj uPrevPocLsb (Nodes d)" "\<lambda>n v d. upd n (\<lambda>nd. nd\<lparr>uPrevPocLsb := v\<rparr>) d"
  by unfold_locales simp_all

interpretation dec: linked_list uHeadDecOrder "\<lambda>h d. d\<lparr>uHeadDecOrder := h\<rparr>"
  "\<lambda>d. proj uNextDecOrder (Nodes d)" "\<lambda>n v d. upd n (\<lambda>nd. nd\<lparr>uNextDecOrder := v\<rparr>) d"
  "\<lambda>d. proj uPrevDecOrder (Nodes d)" "\<lambda>n v d. upd n (\<lambda>nd. nd\<lparr>uPrevDecOrder := v\<rparr>) d"
  by unfold_locales simp_all

text \<open>What a list operation leaves alone: everything but the links and the heads.\<close>

definition strip :: "AL_TDpbNode \<Rightarrow> AL_TDpbNode" where
  "strip nd = nd\<lparr>uPrevPOC := 0, uNextPOC := 0, uPrevPocLsb := 0, uNextPocLsb := 0,
                  uPrevDecOrder := 0, uNextDecOrder := 0\<rparr>"

definition core :: "AL_TDpb \<Rightarrow> AL_TDpb" where
  "core d = d\<lparr>Nodes := proj strip (Nodes d), uHeadPOC := 0, uHeadPocLsb := 0, uLastPOC := 0,
              uHeadDecOrder := 0\<rparr>"

lemma strip_simps [simp]:
  "strip (nd\<lparr>uPrevPOC := v\<rparr>) = strip nd" "strip (nd\<lparr>uNextPOC := v\<rparr>) = strip nd"
  "strip (nd\<lparr>uPrevPocLsb := v\<rparr>) = strip nd" "strip (nd\<lparr>uNextPocLsb := v\<rparr>) = strip nd"
  "strip (nd\<lparr>uPrevDecOrder := v\<rparr>) = strip nd" "strip (nd\<lparr>uNextDecOrder := v\<rparr>) = strip nd"
  by (simp_all add: strip_def)

lemma core_simps [simp]:
  "core (d\<lparr>uHeadPOC := h\<rparr>) = core d" "core (d\<lparr>uHeadPocLsb := h\<rparr>) = core d"
  "core (d\<lparr>uLastPOC := h\<rparr>) = core d" "core (d\<lparr>uHeadDecOrder := h\<rparr>) = core d"
  "strip (f (Nodes d n)) = strip (Nodes d n) \<Longrightarrow> core (upd n f d) = core d"
  by (simp_all add: core_def upd_def)

lemma core_eqD:
  assumes "core e = core d"
  shows "DispFifo e = DispFifo d" "PicId2NodeId e = PicId2NodeId d" "PicId2FrmId e = PicId2FrmId d"
    "PicId2MvId e = PicId2MvId d" "FreePicIDs e = FreePicIDs d" "FreePicIdCnt e = FreePicIdCnt d"
    "bPicWaiting e = bPicWaiting d" "uNodeWaiting e = uNodeWaiting d" "uFrmWaiting e = uFrmWaiting d"
    "uMvWaiting e = uMvWaiting d" "pDltFrmIDLst e = pDltFrmIDLst d" "pDltMvIDLst e = pDltMvIDLst d"
    "iDltFrmLstHead e = iDltFrmLstHead d" "iDltFrmLstTail e = iDltFrmLstTail d"
    "iDltMvLstHead e = iDltMvLstHead d" "iDltMvLstTail e = iDltMvLstTail d" "iNumDltPic e = iNumDltPic d"
    "uNumOutputPic e = uNumOutputPic d" "uNumRef e = uNumRef d" "uCurRef e = uCurRef d"
    "uCountRef e = uCountRef d" "uCountPic e = uCountPic d" "calls e = calls d" "eMode e = eMode d"
    "strip (Nodes e n) = strip (Nodes d n)"
  using assms by (cases d; cases e; auto simp: core_def proj_def fun_eq_iff)+

lemma strip_eqD:
  assumes "strip a = strip b"
  shows "uNodeID a = uNodeID b" "uFrmID a = uFrmID b" "uMvID a = uMvID b" "uPicID a = uPicID b"
    "iFramePOC a = iFramePOC b" "slice_pic_order_cnt_lsb a = slice_pic_order_cnt_lsb b"
    "eMarking_flag a = eMarking_flag b" "pic_output_flag a = pic_output_flag b"
    "uPicLatency a = uPicLatency b" "non_existing a = non_existing b" "iPic_num a = iPic_num b"
    "iFrame_num_wrap a = iFrame_num_wrap b" "iLong_term_pic_num a = iLong_term_pic_num b"
    "iLong_term_frame_idx a = iLong_term_frame_idx b" "bIsReset a = bIsReset b"
  using assms by (cases a; cases b; simp add: strip_def)+

section \<open>The three lists of a buffer\<close>

text \<open>
  \<open>ps\<close>, \<open>ls\<close> and \<open>ds\<close> are the nodes in the order of the POC list, of the POC lsb list and of the
  decoding order list.  The head of the lsb list has no value before the first insertion.
\<close>

definition dpb_links :: "AL_TDpb \<Rightarrow> nat list \<Rightarrow> nat list \<Rightarrow> nat list \<Rightarrow> bool" where
  "dpb_links d ps ls ds \<longleftrightarrow>
     dll (uHeadPOC d) (proj uNextPOC (Nodes d)) (proj uPrevPOC (Nodes d)) ps
     \<and> (if ps = [] then ls = []
        else dll (uHeadPocLsb d) (proj uNextPocLsb (Nodes d)) (proj uPrevPocLsb (Nodes d)) ls)
     \<and> dll (uHeadDecOrder d) (proj uNextDecOrder (Nodes d)) (proj uPrevDecOrder (Nodes d)) ds
     \<and> set ls = set ps \<and> set ds = set ps \<and> (\<forall>n \<in> set ps. n < 34)
     \<and> uLastPOC d = final uEndOfList ps"

lemma dll_remove1:
  assumes "dll h nx pv xs" "n \<in> set xs"
  obtains ys zs where "xs = ys @ n # zs" "remove1 n xs = ys @ zs" "n \<notin> set ys"
proof -
  from assms obtain ys zs where "xs = ys @ n # zs" "n \<notin> set ys"
    using split_list_first by fastforce
  with that show thesis by (simp add: remove1_append)
qed

lemma dll_range:
  assumes "dll h (proj g N) (proj g' N) xs" "n \<in> set xs" "\<forall>n \<in> set xs. n < 34"
  shows "g (N n) = uEndOfList \<or> g (N n) < 34" "g' (N n) = uEndOfList \<or> g' (N n) < 34"
proof -
  from split_list [OF assms(2)] obtain ys zs where xs: "xs = ys @ n # zs" by blast
  with assms(1) have "g (N n) = first zs uEndOfList" "g' (N n) = final uEndOfList ys"
    by (auto simp: dll_def)
  with assms(3) xs show "g (N n) = uEndOfList \<or> g (N n) < 34" "g' (N n) = uEndOfList \<or> g' (N n) < 34"
    by (auto simp: final_def first_def split: list.splits)
qed

lemma RemoveFromPocList_eq:
  assumes "dll (uHeadPOC d) (proj uNextPOC (Nodes d)) (proj uPrevPOC (Nodes d)) ps" "n \<in> set ps"
    "\<forall>n \<in> set ps. n < 34"
  shows "RemoveFromPocList n d = Some (let e = poc.unlink n d in
     if uNextPOC (Nodes d n) = uEndOfList then e\<lparr>uLastPOC := uPrevPOC (Nodes d n)\<rparr> else e)"
  using dll_range [OF assms] assms(2,3)
  by (auto simp: RemoveFromPocList_def poc.unlink_def Let_def)

lemma RemoveFromPocLsbList_eq:
  assumes "dll (uHeadPocLsb d) (proj uNextPocLsb (Nodes d)) (proj uPrevPocLsb (Nodes d)) ps" "n \<in> set ps"
    "\<forall>n \<in> set ps. n < 34"
  shows "RemoveFromPocLsbList n d = Some (lsb.unlink n d)"
  using dll_range [OF assms] assms(2,3)
  by (auto simp: RemoveFromPocLsbList_def lsb.unlink_def Let_def)

lemma RemoveFromDecOrderList_eq:
  assumes "dll (uHeadDecOrder d) (proj uNextDecOrder (Nodes d)) (proj uPrevDecOrder (Nodes d)) ps" "n \<in> set ps"
    "\<forall>n \<in> set ps. n < 34"
  shows "RemoveFromDecOrderList n d = Some (dec.unlink n d)"
  using dll_range [OF assms] assms(2,3)
  by (auto simp: RemoveFromDecOrderList_def dec.unlink_def Let_def)

lemma unlink_frames [simp]:
  "core (poc.unlink n d) = core d" "core (lsb.unlink n d) = core d" "core (dec.unlink n d) = core d"
  "uHeadPocLsb (poc.unlink n d) = uHeadPocLsb d" "uHeadDecOrder (poc.unlink n d) = uHeadDecOrder d"
  "uHeadPOC (lsb.unlink n d) = uHeadPOC d" "uHeadDecOrder (lsb.unlink n d) = uHeadDecOrder d"
  "uHeadPOC (dec.unlink n d) = uHeadPOC d" "uHeadPocLsb (dec.unlink n d) = uHeadPocLsb d"
  "uLastPOC (lsb.unlink n d) = uLastPOC d" "uLastPOC (dec.unlink n d) = uLastPOC d"
  "uLastPOC (poc.unlink n d) = uLastPOC d"
  by (simp_all add: poc.unlink_def lsb.unlink_def dec.unlink_def Let_def)

lemma unlink_projs [simp]:
  "proj uNextPocLsb (Nodes (poc.unlink n d)) = proj uNextPocLsb (Nodes d)"
  "proj uPrevPocLsb (Nodes (poc.unlink n d)) = proj uPrevPocLsb (Nodes d)"
  "proj uNextDecOrder (Nodes (poc.unlink n d)) = proj uNextDecOrder (Nodes d)"
  "proj uPrevDecOrder (Nodes (poc.unlink n d)) = proj uPrevDecOrder (Nodes d)"
  "proj uNextPOC (Nodes (lsb.unlink n d)) = proj uNextPOC (Nodes d)"
  "proj uPrevPOC (Nodes (lsb.unlink n d)) = proj uPrevPOC (Nodes d)"
  "proj uNextDecOrder (Nodes (lsb.unlink n d)) = proj uNextDecOrder (Nodes d)"
  "proj uPrevDecOrder (Nodes (lsb.unlink n d)) = proj uPrevDecOrder (Nodes d)"
  "proj uNextPOC (Nodes (dec.unlink n d)) = proj uNextPOC (Nodes d)"
  "proj uPrevPOC (Nodes (dec.unlink n d)) = proj uPrevPOC (Nodes d)"
  "proj uNextPocLsb (Nodes (dec.unlink n d)) = proj uNextPocLsb (Nodes d)"
  "proj uPrevPocLsb (Nodes (dec.unlink n d)) = proj uPrevPocLsb (Nodes d)"
  by (simp_all add: poc.unlink_def lsb.unlink_def dec.unlink_def Let_def)

text \<open>The three removals together.\<close>

lemma remove_links:
  assumes "dpb_links d ps ls ds" "n \<in> set ps"
  shows "\<exists>d1 d2 d3. RemoveFromPocList n d = Some d1 \<and> RemoveFromPocLsbList n d1 = Some d2
    \<and> RemoveFromDecOrderList n d2 = Some d3 \<and> core d3 = core d
    \<and> dpb_links d3 (remove1 n ps) (remove1 n ls) (remove1 n ds)"
proof -
  let ?N = "Nodes d"
  from assms have P: "dll (uHeadPOC d) (proj uNextPOC ?N) (proj uPrevPOC ?N) ps"
    and Q: "dll (uHeadPocLsb d) (proj uNextPocLsb ?N) (proj uPrevPocLsb ?N) ls"
    and D: "dll (uHeadDecOrder d) (proj uNextDecOrder ?N) (proj uPrevDecOrder ?N) ds"
    and s: "set ls = set ps" "set ds = set ps" and r: "\<forall>n \<in> set ps. n < 34"
    and last: "uLastPOC d = final uEndOfList ps"
    by (auto simp: dpb_links_def split: if_splits)
  define d1 where "d1 = (let e = poc.unlink n d in
     if uNextPOC (?N n) = uEndOfList then e\<lparr>uLastPOC := uPrevPOC (?N n)\<rparr> else e)"
  define d2 where "d2 = lsb.unlink n d1"
  define d3 where "d3 = dec.unlink n d2"
  have r1: "RemoveFromPocList n d = Some d1"
    using RemoveFromPocList_eq [OF P assms(2) r] by (simp add: d1_def)
  have N1: "proj uNextPocLsb (Nodes d1) = proj uNextPocLsb ?N" "proj uPrevPocLsb (Nodes d1) = proj uPrevPocLsb ?N"
    "proj uNextDecOrder (Nodes d1) = proj uNextDecOrder ?N" "proj uPrevDecOrder (Nodes d1) = proj uPrevDecOrder ?N"
    "uHeadPocLsb d1 = uHeadPocLsb d" "uHeadDecOrder d1 = uHeadDecOrder d"
    by (simp_all add: d1_def Let_def)
  have r2: "RemoveFromPocLsbList n d1 = Some d2"
    using RemoveFromPocLsbList_eq [of d1 ls n] Q N1 s r assms(2) by (simp add: d2_def)
  have r3: "RemoveFromDecOrderList n d2 = Some d3"
    using RemoveFromDecOrderList_eq [of d2 ds n] D N1 s r assms(2) by (simp add: d2_def d3_def)
  obtain pa pb where p: "ps = pa @ n # pb" "remove1 n ps = pa @ pb"
    using dll_remove1 [OF P assms(2)] by metis
  obtain la lb where l: "ls = la @ n # lb" "remove1 n ls = la @ lb"
    using dll_remove1 [OF Q] assms(2) s by metis
  obtain da db where q: "ds = da @ n # db" "remove1 n ds = da @ db"
    using dll_remove1 [OF D] assms(2) s by metis
  have nxt: "uNextPOC (?N n) = first pb uEndOfList" "uPrevPOC (?N n) = final uEndOfList pa"
    using P p(1) by (auto simp: dll_def)
  have P3: "dll (uHeadPOC d3) (proj uNextPOC (Nodes d3)) (proj uPrevPOC (Nodes d3)) (pa @ pb)"
    using poc.unlink_dll [of d pa n pb] P p(1) by (simp add: d1_def d2_def d3_def Let_def)
  have Q3: "dll (uHeadPocLsb d3) (proj uNextPocLsb (Nodes d3)) (proj uPrevPocLsb (Nodes d3)) (la @ lb)"
    using lsb.unlink_dll [of d1 la n lb] Q l(1) N1 by (simp add: d2_def d3_def)
  have D3: "dll (uHeadDecOrder d3) (proj uNextDecOrder (Nodes d3)) (proj uPrevDecOrder (Nodes d3)) (da @ db)"
    using dec.unlink_dll [of d2 da n db] D q(1) N1 by (simp add: d2_def d3_def)
  have "set (pa @ pb) = set ps - {n}" "set (la @ lb) = set ls - {n}" "set (da @ db) = set ds - {n}"
    using P Q D p(1) l(1) q(1) by (auto simp: dll_def)
  then have sets: "set (la @ lb) = set (pa @ pb)" "set (da @ db) = set (pa @ pb)" "\<forall>n \<in> set (pa @ pb). n < 34"
    using s r by auto
  have "uLastPOC d3 = final uEndOfList (pa @ pb)"
  proof (cases "pb = []")
    case True
    with nxt show ?thesis by (simp add: d1_def d2_def d3_def Let_def)
  next
    case False
    then have "first pb uEndOfList \<noteq> uEndOfList"
      using first_in [OF False, of uEndOfList] P p(1) by (auto simp: dll_def)
    with nxt last p(1) False show ?thesis by (simp add: d1_def d2_def d3_def Let_def final_def)
  qed
  moreover have "pa @ pb = [] \<Longrightarrow> la @ lb = []" using sets(1) by (metis set_empty)
  ultimately have "dpb_links d3 (remove1 n ps) (remove1 n ls) (remove1 n ds)"
    using P3 Q3 D3 sets unfolding p(2) l(2) q(2) dpb_links_def by simp
  moreover have "core d3 = core d" by (simp add: d1_def d2_def d3_def Let_def)
  ultimately show ?thesis using r1 r2 r3 by blast
qed

section \<open>Insertion\<close>

text \<open>Insertion behind the elements whose key is not greater.\<close>

definition place :: "(nat \<Rightarrow> 'k :: linorder) \<Rightarrow> 'k \<Rightarrow> nat \<Rightarrow> nat list \<Rightarrow> nat list" where
  "place f k n xs = takeWhile (\<lambda>x. f x \<le> k) xs @ n # dropWhile (\<lambda>x. f x \<le> k) xs"

lemma set_place [simp]: "set (place f k n xs) = insert n (set xs)"
proof -
  have "set xs = set (takeWhile (\<lambda>x. f x \<le> k) xs) \<union> set (dropWhile (\<lambda>x. f x \<le> k) xs)"
    by (metis set_append takeWhile_dropWhile_id)
  then show ?thesis by (simp add: place_def)
qed

lemma place_not_Nil [simp]: "place f k n xs \<noteq> []"
  by (simp add: place_def)

lemma mset_place [simp]: "mset (place f k n xs) = add_mset n (mset xs)"
  unfolding place_def by (metis mset_append mset.simps(2) takeWhile_dropWhile_id union_mset_add_mset_right)

lemma place_sorted:
  "sorted (map f xs) \<Longrightarrow> f n = k \<Longrightarrow> sorted (map f (place f k n xs))"
proof (induction xs)
  case (Cons x xs)
  then show ?case
  proof (cases "f x \<le> k")
    case True
    then have "place f k n (x # xs) = x # place f k n xs" by (simp add: place_def)
    moreover have "\<forall>y \<in> set (place f k n xs). f x \<le> f y" using Cons.prems True by auto
    ultimately show ?thesis using Cons by simp
  next
    case False
    then show ?thesis using Cons.prems by (auto simp: place_def)
  qed
qed (simp add: place_def)

lemma place_cong:
  "(\<And>x. x \<in> set xs \<Longrightarrow> f x = g x) \<Longrightarrow> place f k n xs = place g k n xs"
  unfolding place_def by (metis (mono_tags, lifting) dropWhile_cong takeWhile_cong)

lemma upd_upd [simp]: "upd n f (upd n g d) = upd n (\<lambda>nd. f (g nd)) d"
  by (simp add: upd_def)

lemma insert_poc_eq:
  "dll (uHeadPOC d) (proj uNextPOC (Nodes d)) (proj uPrevPOC (Nodes d)) (ys @ zs) \<Longrightarrow> zs \<noteq> [] \<Longrightarrow>
   \<forall>x \<in> set (ys @ zs). x < 34 \<Longrightarrow> n < 34 \<Longrightarrow> n \<notin> set (ys @ zs) \<Longrightarrow>
   insert_poc (first zs uEndOfList) k n d = Some
     (case dropWhile (\<lambda>x. iFramePOC (Nodes d x) \<le> k) zs of
        [] \<Rightarrow> (poc.insert_after_last (last zs) n d)\<lparr>uLastPOC := n\<rparr>
      | c # _ \<Rightarrow> poc.insert_before c n d)"
proof (induction zs arbitrary: ys)
  case (Cons c zs)
  have c: "c < 34" "n \<noteq> c" "n < 34" using Cons.prems by auto
  have l: "uNextPOC (Nodes d c) = first zs uEndOfList" "uPrevPOC (Nodes d c) = final uEndOfList ys"
    using Cons.prems(1) by (auto simp: dll_def)
  show ?case
  proof (cases "iFramePOC (Nodes d c) \<le> k")
    case False
    have p: "final uEndOfList ys = uEndOfList \<or> final uEndOfList ys < 34"
      using Cons.prems(3) final_in [of ys uEndOfList] by (cases "ys = []") auto
    show ?thesis
      using False c l p by (subst insert_poc.simps) (auto simp: poc.insert_before_def Let_def)
  next
    case le: True
    show ?thesis
    proof (cases "zs = []")
      case True
      then show ?thesis
        using le c l by (subst insert_poc.simps) (auto simp: poc.insert_after_last_def)
    next
      case False
      then have "first zs uEndOfList \<noteq> uEndOfList"
        using first_in [OF False, of uEndOfList] Cons.prems(1) by (auto simp: dll_def)
      moreover have "insert_poc (first zs uEndOfList) k n d = Some
         (case dropWhile (\<lambda>x. iFramePOC (Nodes d x) \<le> k) zs of
            [] \<Rightarrow> (poc.insert_after_last (last zs) n d)\<lparr>uLastPOC := n\<rparr>
          | c # _ \<Rightarrow> poc.insert_before c n d)"
        by (rule Cons.IH [of "ys @ [c]"]) (use Cons.prems False in auto)
      ultimately show ?thesis using le c l False by (subst insert_poc.simps) (cases "dropWhile (\<lambda>x. iFramePOC (Nodes d x) \<le> k) zs"; simp del: dropWhile_eq_Nil_conv)
    qed
  qed
qed simp

lemma insert_lsb_eq:
  "dll (uHeadPocLsb d) (proj uNextPocLsb (Nodes d)) (proj uPrevPocLsb (Nodes d)) (ys @ zs) \<Longrightarrow> zs \<noteq> [] \<Longrightarrow>
   \<forall>x \<in> set (ys @ zs). x < 34 \<Longrightarrow> n < 34 \<Longrightarrow> n \<notin> set (ys @ zs) \<Longrightarrow>
   insert_lsb (first zs uEndOfList) k n d = Some
     (case dropWhile (\<lambda>x. slice_pic_order_cnt_lsb (Nodes d x) \<le> k) zs of
        [] \<Rightarrow> lsb.insert_after_last (last zs) n d
      | c # _ \<Rightarrow> lsb.insert_before c n d)"
proof (induction zs arbitrary: ys)
  case (Cons c zs)
  have c: "c < 34" "n \<noteq> c" "n < 34" using Cons.prems by auto
  have l: "uNextPocLsb (Nodes d c) = first zs uEndOfList" "uPrevPocLsb (Nodes d c) = final uEndOfList ys"
    using Cons.prems(1) by (auto simp: dll_def)
  show ?case
  proof (cases "slice_pic_order_cnt_lsb (Nodes d c) \<le> k")
    case False
    have p: "final uEndOfList ys = uEndOfList \<or> final uEndOfList ys < 34"
      using Cons.prems(3) final_in [of ys uEndOfList] by (cases "ys = []") auto
    show ?thesis
      using False c l p by (subst insert_lsb.simps) (auto simp: lsb.insert_before_def Let_def)
  next
    case le: True
    show ?thesis
    proof (cases "zs = []")
      case True
      then show ?thesis
        using le c l by (subst insert_lsb.simps) (auto simp: lsb.insert_after_last_def)
    next
      case False
      then have "first zs uEndOfList \<noteq> uEndOfList"
        using first_in [OF False, of uEndOfList] Cons.prems(1) by (auto simp: dll_def)
      moreover have "insert_lsb (first zs uEndOfList) k n d = Some
         (case dropWhile (\<lambda>x. slice_pic_order_cnt_lsb (Nodes d x) \<le> k) zs of
            [] \<Rightarrow> lsb.insert_after_last (last zs) n d
          | c # _ \<Rightarrow> lsb.insert_before c n d)"
        by (rule Cons.IH [of "ys @ [c]"]) (use Cons.prems False in auto)
      ultimately show ?thesis using le c l False by (subst insert_lsb.simps) (cases "dropWhile (\<lambda>x. slice_pic_order_cnt_lsb (Nodes d x) \<le> k) zs"; simp del: dropWhile_eq_Nil_conv)
    qed
  qed
qed simp

lemma last_by_eq:
  assumes "\<And>ys x zs. xs = ys @ x # zs \<Longrightarrow> next x d = Some (first zs uEndOfList)"
    and "xs \<noteq> []" "uEndOfList \<notin> set xs"
  shows "last_by next d (first xs uEndOfList) = Some (last xs)"
  using assms
proof (induction xs)
  case (Cons x xs)
  have n: "next x d = Some (first xs uEndOfList)" using Cons.prems(1) [of "[]"] by simp
  show ?case
  proof (cases "xs = []")
    case True
    with n show ?thesis by (subst last_by.simps) simp
  next
    case False
    then have "first xs uEndOfList \<noteq> uEndOfList"
      using first_in [OF False, of uEndOfList] Cons.prems(3) by auto
    moreover have "last_by next d (first xs uEndOfList) = Some (last xs)"
      by (rule Cons.IH) (use Cons.prems False in \<open>auto intro: Cons.prems(1) [of "x # _", simplified]\<close>)
    ultimately show ?thesis using n False by (subst last_by.simps) simp
  qed
qed simp

lemma next_dll:
  assumes "dll h (proj uNextPOC (Nodes d)) pv (ys @ x # zs)" "x < 34"
  shows "nextPOC x d = Some (first zs uEndOfList)"
  using assms by (auto simp: nextPOC_def dll_def)

lemma next_dec_dll:
  assumes "dll h (proj uNextDecOrder (Nodes d)) pv (ys @ x # zs)" "x < 34"
  shows "nextDec x d = Some (first zs uEndOfList)"
  using assms by (auto simp: nextDec_def dll_def)

lemma next_lsb_dll:
  assumes "dll h (proj uNextPocLsb (Nodes d)) pv (ys @ x # zs)" "x < 34"
  shows "nextPocLsb x d = Some (first zs uEndOfList)"
  using assms by (auto simp: nextPocLsb_def dll_def)

lemma insert_dec_eq:
  assumes D: "dll (uHeadDecOrder d) (proj uNextDecOrder (Nodes d)) (proj uPrevDecOrder (Nodes d)) ds"
    and "ds \<noteq> []" and r: "\<forall>x \<in> set ds. x < 34" and n: "n < 34" "n \<notin> set ds"
  shows "insert_dec n d = Some (dec.insert_after_last (last ds) n d)"
proof -
  have "nextDec x d = Some (first zs uEndOfList)" if "ds = ys @ x # zs" for ys x zs
    using that next_dec_dll [of "uHeadDecOrder d" d _ ys x zs] D r by auto
  then have "last_by nextDec d (first ds uEndOfList) = Some (last ds)"
    using D assms(2) by (intro last_by_eq) (auto simp: dll_def)
  moreover have "uHeadDecOrder d = first ds uEndOfList" using D by (simp add: dll_def)
  moreover have "last ds < 34" "last ds \<noteq> n" using assms last_in_set [of ds] by auto
  ultimately show ?thesis
    using n by (cases "Nodes d n") (simp add: insert_dec_def dec.insert_after_last_def upd_def [of n] del: upd_upd)
qed

lemma insert_frames [simp]:
  "core (poc.insert_before c n d) = core d" "core (poc.insert_after_last c n d) = core d"
  "core (lsb.insert_before c n d) = core d" "core (lsb.insert_after_last c n d) = core d"
  "core (dec.insert_after_last c n d) = core d"
  "uHeadPocLsb (poc.insert_before c n d) = uHeadPocLsb d" "uHeadDecOrder (poc.insert_before c n d) = uHeadDecOrder d"
  "uHeadPocLsb (poc.insert_after_last c n d) = uHeadPocLsb d"
  "uHeadDecOrder (poc.insert_after_last c n d) = uHeadDecOrder d"
  "uHeadPOC (lsb.insert_before c n d) = uHeadPOC d" "uHeadDecOrder (lsb.insert_before c n d) = uHeadDecOrder d"
  "uHeadPOC (lsb.insert_after_last c n d) = uHeadPOC d" "uHeadDecOrder (lsb.insert_after_last c n d) = uHeadDecOrder d"
  "uHeadPOC (dec.insert_after_last c n d) = uHeadPOC d" "uHeadPocLsb (dec.insert_after_last c n d) = uHeadPocLsb d"
  "uLastPOC (poc.insert_before c n d) = uLastPOC d"
  "uLastPOC (lsb.insert_before c n d) = uLastPOC d" "uLastPOC (lsb.insert_after_last c n d) = uLastPOC d"
  "uLastPOC (dec.insert_after_last c n d) = uLastPOC d"
  by (simp_all add: poc.insert_before_def lsb.insert_before_def poc.insert_after_last_def
      lsb.insert_after_last_def dec.insert_after_last_def Let_def)

lemma insert_projs [simp]:
  "proj uNextPocLsb (Nodes (poc.insert_before c n d)) = proj uNextPocLsb (Nodes d)"
  "proj uPrevPocLsb (Nodes (poc.insert_before c n d)) = proj uPrevPocLsb (Nodes d)"
  "proj uNextDecOrder (Nodes (poc.insert_before c n d)) = proj uNextDecOrder (Nodes d)"
  "proj uPrevDecOrder (Nodes (poc.insert_before c n d)) = proj uPrevDecOrder (Nodes d)"
  "proj uNextPocLsb (Nodes (poc.insert_after_last c n d)) = proj uNextPocLsb (Nodes d)"
  "proj uPrevPocLsb (Nodes (poc.insert_after_last c n d)) = proj uPrevPocLsb (Nodes d)"
  "proj uNextDecOrder (Nodes (poc.insert_after_last c n d)) = proj uNextDecOrder (Nodes d)"
  "proj uPrevDecOrder (Nodes (poc.insert_after_last c n d)) = proj uPrevDecOrder (Nodes d)"
  "proj uNextPOC (Nodes (lsb.insert_before c n d)) = proj uNextPOC (Nodes d)"
  "proj uPrevPOC (Nodes (lsb.insert_before c n d)) = proj uPrevPOC (Nodes d)"
  "proj uNextDecOrder (Nodes (lsb.insert_before c n d)) = proj uNextDecOrder (Nodes d)"
  "proj uPrevDecOrder (Nodes (lsb.insert_before c n d)) = proj uPrevDecOrder (Nodes d)"
  "proj uNextPOC (Nodes (lsb.insert_after_last c n d)) = proj uNextPOC (Nodes d)"
  "proj uPrevPOC (Nodes (lsb.insert_after_last c n d)) = proj uPrevPOC (Nodes d)"
  "proj uNextDecOrder (Nodes (lsb.insert_after_last c n d)) = proj uNextDecOrder (Nodes d)"
  "proj uPrevDecOrder (Nodes (lsb.insert_after_last c n d)) = proj uPrevDecOrder (Nodes d)"
  "proj uNextPOC (Nodes (dec.insert_after_last c n d)) = proj uNextPOC (Nodes d)"
  "proj uPrevPOC (Nodes (dec.insert_after_last c n d)) = proj uPrevPOC (Nodes d)"
  "proj uNextPocLsb (Nodes (dec.insert_after_last c n d)) = proj uNextPocLsb (Nodes d)"
  "proj uPrevPocLsb (Nodes (dec.insert_after_last c n d)) = proj uPrevPocLsb (Nodes d)"
  by (simp_all add: poc.insert_before_def lsb.insert_before_def poc.insert_after_last_def
      lsb.insert_after_last_def dec.insert_after_last_def Let_def)

text \<open>The three insertions into lists that are not empty.\<close>

lemma place_cases:
  assumes "dropWhile (\<lambda>x. f x \<le> k) xs = []"
  shows "place f k n xs = xs @ [n]"
  using assms by (auto simp: place_def takeWhile_eq_all_conv dropWhile_eq_Nil_conv)

lemma split_place:
  assumes "dropWhile (\<lambda>x. f x \<le> k) xs = c # cs"
  obtains ys where "xs = ys @ c # cs" "place f k n xs = ys @ n # c # cs"
proof
  show "xs = takeWhile (\<lambda>x. f x \<le> k) xs @ c # cs"
    using assms takeWhile_dropWhile_id [of "\<lambda>x. f x \<le> k" xs] by simp
  show "place f k n xs = takeWhile (\<lambda>x. f x \<le> k) xs @ n # c # cs"
    by (simp add: place_def assms)
qed

lemma insert_links:
  assumes "dpb_links d ps ls ds" "ps \<noteq> []" "n \<notin> set ps" "n < 34"
  shows "\<exists>e1 e2 e3. insert_poc (uHeadPOC d) k n d = Some e1 \<and> insert_lsb (uHeadPocLsb d) l n e1 = Some e2
    \<and> insert_dec n e2 = Some e3 \<and> core e3 = core d
    \<and> dpb_links e3 (place (\<lambda>x. iFramePOC (Nodes d x)) k n ps)
        (place (\<lambda>x. slice_pic_order_cnt_lsb (Nodes d x)) l n ls) (ds @ [n])"
proof -
  let ?N = "Nodes d"
  from assms have P: "dll (uHeadPOC d) (proj uNextPOC ?N) (proj uPrevPOC ?N) ps"
    and Q: "dll (uHeadPocLsb d) (proj uNextPocLsb ?N) (proj uPrevPocLsb ?N) ls"
    and D: "dll (uHeadDecOrder d) (proj uNextDecOrder ?N) (proj uPrevDecOrder ?N) ds"
    and s: "set ls = set ps" "set ds = set ps" and r: "\<forall>n \<in> set ps. n < 34"
    and last: "uLastPOC d = final uEndOfList ps"
    by (auto simp: dpb_links_def)
  have ne: "ls \<noteq> []" "ds \<noteq> []" using s assms(2) by (metis set_empty)+
  have nl: "n \<notin> set ls" using s assms(3) by simp
  have n: "n \<noteq> uEndOfList" using assms(4) by (auto simp: uEndOfList_def)
  have h: "uHeadPOC d = first ps uEndOfList" "uHeadPocLsb d = first ls uEndOfList"
    using P Q by (simp_all add: dll_def)
  define e1 where "e1 = (case dropWhile (\<lambda>x. iFramePOC (?N x) \<le> k) ps of
     [] \<Rightarrow> (poc.insert_after_last (last ps) n d)\<lparr>uLastPOC := n\<rparr> | c # _ \<Rightarrow> poc.insert_before c n d)"
  have i1: "insert_poc (uHeadPOC d) k n d = Some e1"
    unfolding h e1_def using insert_poc_eq [of d "[]" ps n k] P assms(2-4) r by simp
  have c1: "core e1 = core d" and
    N1: "proj uNextPocLsb (Nodes e1) = proj uNextPocLsb ?N" "proj uPrevPocLsb (Nodes e1) = proj uPrevPocLsb ?N"
    "proj uNextDecOrder (Nodes e1) = proj uNextDecOrder ?N" "proj uPrevDecOrder (Nodes e1) = proj uPrevDecOrder ?N"
    "uHeadPocLsb e1 = uHeadPocLsb d" "uHeadDecOrder e1 = uHeadDecOrder d"
    by (simp_all add: e1_def split: list.split)
  have P1: "dll (uHeadPOC e1) (proj uNextPOC (Nodes e1)) (proj uPrevPOC (Nodes e1)) (place (\<lambda>x. iFramePOC (?N x)) k n ps)
      \<and> uLastPOC e1 = final uEndOfList (place (\<lambda>x. iFramePOC (?N x)) k n ps)"
  proof (cases "dropWhile (\<lambda>x. iFramePOC (?N x) \<le> k) ps")
    case Nil
    then have e1: "e1 = (poc.insert_after_last (last ps) n d)\<lparr>uLastPOC := n\<rparr>"
      by (simp add: e1_def del: dropWhile_eq_Nil_conv)
    have "ps = butlast ps @ [last ps]" using assms(2) by simp
    with poc.insert_after_last_dll [of d "butlast ps" "last ps" n] P assms(3) n
    show ?thesis
      by (simp add: e1 place_cases [OF Nil] final_def) (metis append_Cons append_Nil append_assoc)
  next
    case (Cons c cs)
    then have e1: "e1 = poc.insert_before c n d" by (simp add: e1_def)
    from split_place [OF Cons] obtain ys where ys: "ps = ys @ c # cs"
      "place (\<lambda>x. iFramePOC (?N x)) k n ps = ys @ n # c # cs" .
    with poc.insert_before_dll [of d ys c cs n] P assms(3) n last show ?thesis
      by (simp add: e1 final_def)
  qed
  have key: "slice_pic_order_cnt_lsb (Nodes e1 x) = slice_pic_order_cnt_lsb (?N x)" for x
    using strip_eqD(6) [OF core_eqD(25) [OF c1]] .
  define e2 where "e2 = (case dropWhile (\<lambda>x. slice_pic_order_cnt_lsb (Nodes e1 x) \<le> l) ls of
     [] \<Rightarrow> lsb.insert_after_last (last ls) n e1 | c # _ \<Rightarrow> lsb.insert_before c n e1)"
  have i2: "insert_lsb (uHeadPocLsb d) l n e1 = Some e2"
    unfolding h e2_def using insert_lsb_eq [of e1 "[]" ls n l] Q N1 assms(3,4) r s ne by simp
  have c2: "core e2 = core d" and
    N2: "proj uNextPOC (Nodes e2) = proj uNextPOC (Nodes e1)" "proj uPrevPOC (Nodes e2) = proj uPrevPOC (Nodes e1)"
    "proj uNextDecOrder (Nodes e2) = proj uNextDecOrder ?N" "proj uPrevDecOrder (Nodes e2) = proj uPrevDecOrder ?N"
    "uHeadPOC e2 = uHeadPOC e1" "uHeadDecOrder e2 = uHeadDecOrder d" "uLastPOC e2 = uLastPOC e1"
    using N1 c1 by (simp_all add: e2_def split: list.split)
  have Q2: "dll (uHeadPocLsb e2) (proj uNextPocLsb (Nodes e2)) (proj uPrevPocLsb (Nodes e2))
      (place (\<lambda>x. slice_pic_order_cnt_lsb (?N x)) l n ls)"
  proof (cases "dropWhile (\<lambda>x. slice_pic_order_cnt_lsb (?N x) \<le> l) ls")
    case Nil
    then have e2: "e2 = lsb.insert_after_last (last ls) n e1"
      by (simp add: e2_def key del: dropWhile_eq_Nil_conv)
    have "ls = butlast ls @ [last ls]" using ne by simp
    with lsb.insert_after_last_dll [of e1 "butlast ls" "last ls" n] Q N1 assms(3) n s
    show ?thesis
      by (simp add: e2 place_cases [OF Nil]) (metis append_Cons append_Nil append_assoc)
  next
    case (Cons c cs)
    then have e2: "e2 = lsb.insert_before c n e1" by (simp add: e2_def key)
    from split_place [OF Cons] obtain ys where ys: "ls = ys @ c # cs"
      "place (\<lambda>x. slice_pic_order_cnt_lsb (?N x)) l n ls = ys @ n # c # cs" .
    with lsb.insert_before_dll [of e1 ys c cs n] Q N1 nl n show ?thesis
      by (simp add: e2)
  qed
  define e3 where "e3 = dec.insert_after_last (last ds) n e2"
  have i3: "insert_dec n e2 = Some e3"
    unfolding e3_def using insert_dec_eq [of e2 ds n] D N2 assms(3,4) r s ne by simp
  have "ds = butlast ds @ [last ds]" using ne by simp
  then have D3: "dll (uHeadDecOrder e3) (proj uNextDecOrder (Nodes e3)) (proj uPrevDecOrder (Nodes e3)) (ds @ [n])"
    using dec.insert_after_last_dll [of e2 "butlast ds" "last ds" n] D N2 assms(3) n s
    by (simp add: e3_def) (metis append_Cons append_Nil append_assoc)
  have "dpb_links e3 (place (\<lambda>x. iFramePOC (?N x)) k n ps)
      (place (\<lambda>x. slice_pic_order_cnt_lsb (?N x)) l n ls) (ds @ [n])"
    using P1 Q2 D3 N2 s r assms(4) by (simp add: dpb_links_def e3_def)
  moreover have "core e3 = core d" using c2 by (simp add: e3_def)
  ultimately show ?thesis using i1 i2 i3 by blast
qed

lemma insert_first_links:
  assumes "dpb_links d [] ls ds" "n < 34"
  shows "\<exists>e. insert_first n d = Some e \<and> core e = core d \<and> dpb_links e [n] [n] [n]"
proof -
  have "n \<noteq> uEndOfList" using assms(2) by (auto simp: uEndOfList_def)
  then show ?thesis
    using assms(2) by (simp add: insert_first_def dpb_links_def dll_def core_def strip_def upd_def proj_def fun_eq_iff)
qed

end
