(* ===== verification/DpbInv.thy ===== *)
theory DpbInv imports DpbLists begin

text \<open>
  The invariant of the decoded picture buffer, and its preservation by initialisation, insertion and
  removal: the three lists hold the same nodes, two of them sorted; the counters count; a picture
  identifier is either free or held by exactly one node; the deferred releases form a queue.
\<close>

section \<open>The pool of picture identifiers\<close>

text \<open>\<open>F\<close> and \<open>c\<close> are the stack of free identifiers, \<open>u\<close> the identifier of a node, \<open>M\<close> the nodes in use and
  \<open>P\<close> the node of an identifier.\<close>

definition freeset :: "(nat \<Rightarrow> nat) \<Rightarrow> nat \<Rightarrow> nat multiset" where
  "freeset F c = mset (map F [0..<c])"

definition held :: "(nat \<Rightarrow> nat) \<Rightarrow> nat multiset \<Rightarrow> nat multiset" where
  "held u M = filter_mset (\<lambda>i. i \<noteq> UndefID) (image_mset u M)"

definition pool_ok :: "(nat \<Rightarrow> nat) \<Rightarrow> nat \<Rightarrow> (nat \<Rightarrow> nat) \<Rightarrow> nat multiset \<Rightarrow> (nat \<Rightarrow> nat) \<Rightarrow> bool" where
  "pool_ok F c u M P \<longleftrightarrow> freeset F c + held u M = mset [0..<16]
     \<and> (\<forall>n \<in># M. u n \<noteq> UndefID \<longrightarrow> P (u n) = n)"

lemma freeset_push [simp]: "freeset (F(c := p)) (Suc c) = add_mset p (freeset F c)"
  by (simp add: freeset_def)

lemma freeset_Suc: "freeset F (Suc c) = add_mset (F c) (freeset F c)"
  by (simp add: freeset_def)

lemma held_cong: "(\<And>n. n \<in># M \<Longrightarrow> u n = v n) \<Longrightarrow> held u M = held v M"
  unfolding held_def by (metis image_mset_cong)

lemma held_other [simp]: "n \<notin># M \<Longrightarrow> held (u(n := v)) M = held u M"
  by (rule held_cong) auto

lemma held_add: "held u (add_mset n M) = (if u n = UndefID then held u M else add_mset (u n) (held u M))"
  by (simp add: held_def)

lemma held_in: "m \<in># M \<Longrightarrow> u m \<noteq> UndefID \<Longrightarrow> u m \<in># held u M"
  by (simp add: held_def)

lemma pool_cong:
  assumes "\<And>n. n \<in># M \<Longrightarrow> u n = v n"
  shows "pool_ok F c u M P = pool_ok F c v M P"
  using held_cong [of M u v] assms by (auto simp: pool_ok_def)

lemma pool_count:
  assumes "freeset F c + held u M = mset [0..<16]"
  shows "count (freeset F c) i + count (held u M) i = (if i < 16 then 1 else 0)"
proof -
  have "count (freeset F c) i + count (held u M) i = count (mset [0..<16]) i"
    using assms by (metis count_union)
  also have "\<dots> = (if i < 16 then 1 else 0)"
    by (simp add: distinct_count_atmost_1)
  finally show ?thesis .
qed

lemma pool_size:
  assumes "freeset F c + held u M = mset [0..<16]"
  shows "c + size (held u M) = 16"
proof -
  have "size (freeset F c) + size (held u M) = size (mset [0..<16])"
    using assms by (metis size_union)
  then show ?thesis by (simp add: freeset_def)
qed

text \<open>A node gives its identifier back.\<close>

lemma pool_release:
  assumes "pool_ok F c u (add_mset n M) P" "n \<notin># M" "u n \<noteq> UndefID"
  shows "u n < 16" "c < 16" "pool_ok (F(c := u n)) (Suc c) u M (P(u n := UndefID))"
    "pool_ok (F(c := u n)) (Suc c) (u(n := UndefID)) (add_mset n M) (P(u n := UndefID))"
proof -
  let ?p = "u n"
  from assms(1,3) have e: "freeset F c + add_mset ?p (held u M) = mset [0..<16]"
    by (simp add: pool_ok_def held_add)
  have hc: "held u (add_mset n M) = add_mset ?p (held u M)" using assms(3) by (simp add: held_add)
  have "count (freeset F c) ?p + count (held u (add_mset n M)) ?p = (if ?p < 16 then 1 else 0)"
    using pool_count [of F c u "add_mset n M" ?p] assms(1) by (simp add: pool_ok_def)
  then show p: "?p < 16" by (auto simp: hc split: if_splits)
  then have c0: "count (held u M) ?p = 0"
    using \<open>count (freeset F c) ?p + _ = _\<close> by (auto simp: hc split: if_splits)
  show "c < 16" using pool_size [of F c u "add_mset n M"] assms(1) by (simp add: pool_ok_def hc)
  have other: "u m \<noteq> ?p" if "m \<in># M" for m
  proof
    assume m: "u m = ?p"
    with held_in [OF that, of u] assms(3) have "?p \<in># held u M" by metis
    with c0 show False by (simp add: not_in_iff [symmetric])
  qed
  have e2: "freeset (F(c := ?p)) (Suc c) + held u M = mset [0..<16]" using e by simp
  have P: "\<forall>m \<in># M. u m \<noteq> UndefID \<longrightarrow> (P(?p := UndefID)) (u m) = m"
    using assms(1) other by (auto simp: pool_ok_def)
  show "pool_ok (F(c := ?p)) (Suc c) u M (P(?p := UndefID))"
    using e2 P unfolding pool_ok_def by blast
  have h: "held (u(n := UndefID)) (add_mset n M) = held u M"
    using assms(2) by (auto simp: held_add)
  have "(u(n := UndefID)) m = u m" if "m \<in># M" for m using assms(2) that by auto
  with P have "\<forall>m \<in># add_mset n M. (u(n := UndefID)) m \<noteq> UndefID \<longrightarrow> (P(?p := UndefID)) ((u(n := UndefID)) m) = m"
    by auto
  then show "pool_ok (F(c := ?p)) (Suc c) (u(n := UndefID)) (add_mset n M) (P(?p := UndefID))"
    using e2 unfolding pool_ok_def h by blast
qed

lemma pool_drop: "u n = UndefID \<Longrightarrow> pool_ok F c u (add_mset n M) P = pool_ok F c u M P"
  by (auto simp: pool_ok_def held_add)

text \<open>A node without identifier takes one.\<close>

lemma pool_take:
  assumes "pool_ok F (Suc c) u M P" "n \<notin># M"
  shows "F c < 16" "pool_ok F c (u(n := F c)) (add_mset n M) (P(F c := n))"
proof -
  let ?p = "F c" and ?v = "u(n := F c)"
  from assms(1) have e: "add_mset ?p (freeset F c) + held u M = mset [0..<16]"
    by (simp add: pool_ok_def freeset_Suc)
  have k: "count (freeset F (Suc c)) ?p + count (held u M) ?p = (if ?p < 16 then 1 else 0)"
    using pool_count [of F "Suc c" u M ?p] assms(1) by (simp add: pool_ok_def)
  then show p: "?p < 16" by (auto simp: freeset_Suc split: if_splits)
  then have c0: "count (held u M) ?p = 0" using k by (simp add: freeset_Suc)
  have other: "u m \<noteq> ?p" if "m \<in># M" for m
  proof
    assume m: "u m = ?p"
    have "?p \<noteq> UndefID" using p by (simp add: UndefID_def)
    with m held_in [OF that, of u] have "?p \<in># held u M" by metis
    with c0 show False by (simp add: not_in_iff [symmetric])
  qed
  have ne: "?p \<noteq> UndefID" using p by (simp add: UndefID_def)
  have "held ?v (add_mset n M) = add_mset ?p (held u M)"
    using assms(2) ne by (auto simp: held_add)
  moreover have "\<forall>m \<in># add_mset n M. ?v m \<noteq> UndefID \<longrightarrow> (P(?p := n)) (?v m) = m"
    using assms other by (auto simp: pool_ok_def)
  ultimately show "pool_ok F c ?v (add_mset n M) (P(?p := n))"
    using e unfolding pool_ok_def by simp
qed

section \<open>The deferred releases\<close>

definition deferred :: "AL_TDpb \<Rightarrow> (nat \<times> nat) list" where
  "deferred d = zip (ring_list (pDltFrmIDLst d) 50 (iDltFrmLstHead d) (iNumDltPic d))
                    (ring_list (pDltMvIDLst d) 34 (iDltMvLstHead d) (iNumDltPic d))"

definition deferred_ok :: "AL_TDpb \<Rightarrow> bool" where
  "deferred_ok d \<longleftrightarrow> iNumDltPic d \<le> 34 \<and> iDltFrmLstHead d < 50 \<and> iDltMvLstHead d < 34
     \<and> iDltFrmLstTail d = (iDltFrmLstHead d + iNumDltPic d) mod 50
     \<and> iDltMvLstTail d = (iDltMvLstHead d + iNumDltPic d) mod 34"

lemma deferred_length [simp]: "length (deferred d) = iNumDltPic d"
  by (simp add: deferred_def)

lemma defer_release_queue:
  assumes "deferred_ok d" "iNumDltPic d < 34"
  shows "deferred_ok (defer_release frm mv d)" "deferred (defer_release frm mv d) = deferred d @ [(frm, mv)]"
proof -
  show "deferred_ok (defer_release frm mv d)"
    using assms by (simp add: deferred_ok_def defer_release_def dpb_sizes mod_simps)
  show "deferred (defer_release frm mv d) = deferred d @ [(frm, mv)]"
    using assms ring_list_put [of "iNumDltPic d" 50 "pDltFrmIDLst d" "iDltFrmLstHead d" frm]
      ring_list_put [of "iNumDltPic d" 34 "pDltMvIDLst d" "iDltMvLstHead d" mv]
    by (simp add: deferred_ok_def defer_release_def deferred_def zip_append)
qed

lemma defer_release_frame [simp]:
  "Nodes (defer_release frm mv d) = Nodes d" "core (defer_release frm mv d) = defer_release frm mv (core d)"
  "uHeadPOC (defer_release frm mv d) = uHeadPOC d" "uHeadPocLsb (defer_release frm mv d) = uHeadPocLsb d"
  "uHeadDecOrder (defer_release frm mv d) = uHeadDecOrder d" "uLastPOC (defer_release frm mv d) = uLastPOC d"
  "calls (defer_release frm mv d) = calls d" "DispFifo (defer_release frm mv d) = DispFifo d"
  "uCountPic (defer_release frm mv d) = uCountPic d" "uCountRef (defer_release frm mv d) = uCountRef d"
  "uNumOutputPic (defer_release frm mv d) = uNumOutputPic d"
  "FreePicIDs (defer_release frm mv d) = FreePicIDs d" "FreePicIdCnt (defer_release frm mv d) = FreePicIdCnt d"
  "PicId2NodeId (defer_release frm mv d) = PicId2NodeId d" "bPicWaiting (defer_release frm mv d) = bPicWaiting d"
  "uNodeWaiting (defer_release frm mv d) = uNodeWaiting d" "uNumRef (defer_release frm mv d) = uNumRef d"
  "uCurRef (defer_release frm mv d) = uCurRef d"
  by (simp_all add: defer_release_def core_def)

section \<open>The invariant\<close>

definition waiting_ok :: "AL_TDpb \<Rightarrow> nat list \<Rightarrow> bool" where
  "waiting_ok d ps \<longleftrightarrow> bPicWaiting d \<longrightarrow> uNodeWaiting d \<in> set ps \<and> uPicID (Nodes d (uNodeWaiting d)) = UndefID"

definition ids_ok :: "AL_TDpb \<Rightarrow> nat list \<Rightarrow> bool" where
  "ids_ok d ps \<longleftrightarrow> pool_ok (FreePicIDs d) (FreePicIdCnt d) (\<lambda>n. uPicID (Nodes d n)) (mset ps) (PicId2NodeId d)
     \<and> waiting_ok d ps"

definition outputs :: "AL_TDpb \<Rightarrow> nat list \<Rightarrow> nat list" where
  "outputs d ps = filter (\<lambda>n. pic_output_flag (Nodes d n)) ps"

definition refs :: "AL_TDpb \<Rightarrow> nat list \<Rightarrow> nat list" where
  "refs d ps = filter (\<lambda>n. eMarking_flag (Nodes d n) \<noteq> UNUSED_FOR_REF) ps"

definition nodes_ok :: "AL_TDpb \<Rightarrow> nat list \<Rightarrow> bool" where
  "nodes_ok d ps \<longleftrightarrow>
     (\<forall>n \<in> set ps. uNodeID (Nodes d n) = n \<and> (\<not> non_existing (Nodes d n) \<longrightarrow> uFrmID (Nodes d n) < 50))
     \<and> (\<forall>n < 34. n \<notin> set ps \<longrightarrow> eMarking_flag (Nodes d n) = UNUSED_FOR_REF \<and> \<not> pic_output_flag (Nodes d n))"

definition dpb_base :: "AL_TDpb \<Rightarrow> nat list \<Rightarrow> nat list \<Rightarrow> nat list \<Rightarrow> bool" where
  "dpb_base d ps ls ds \<longleftrightarrow> dpb_links d ps ls ds \<and> nodes_ok d ps
     \<and> sorted (map (\<lambda>n. iFramePOC (Nodes d n)) ps)
     \<and> sorted (map (\<lambda>n. slice_pic_order_cnt_lsb (Nodes d n)) ls)
     \<and> uCountPic d = of_nat (length ps) \<and> uNumOutputPic d = of_nat (length (outputs d ps))"

definition dpb_inv :: "AL_TDpb \<Rightarrow> nat list \<Rightarrow> nat list \<Rightarrow> nat list \<Rightarrow> bool" where
  "dpb_inv d ps ls ds \<longleftrightarrow> dpb_base d ps ls ds \<and> ids_ok d ps"

text \<open>\<open>AL_Dpb_SetMarkingFlag\<close> does not keep the count of references; the AVC marking does.\<close>

definition refs_counted :: "AL_TDpb \<Rightarrow> nat list \<Rightarrow> bool" where
  "refs_counted d ps \<longleftrightarrow> uCountRef d = of_nat (length (refs d ps))"

lemma links_distinct:
  assumes "dpb_links d ps ls ds"
  shows "distinct ps" "distinct ds" "set ds = set ps" "set ls = set ps" "distinct ls" "\<forall>n \<in> set ps. n < 34"
    "uEndOfList \<notin> set ps" "uHeadPOC d = first ps uEndOfList" "uHeadDecOrder d = first ds uEndOfList"
  using assms by (auto simp: dpb_links_def dll_def split: if_splits)

lemma Init_inv: "dpb_inv (AL_Dpb_Init numRef mode d) [] [] []"
proof -
  have "map (FreePicIDs (AL_Dpb_Init numRef mode d)) [0..<16] = [0..<16]"
    by (rule map_idI) (auto simp: AL_Dpb_Init_def AL_Dpb_sResetWaiting_def Let_def dpb_sizes)
  then have "freeset (FreePicIDs (AL_Dpb_Init numRef mode d)) 16 = mset [0..<16]"
    unfolding freeset_def by (rule arg_cong)
  then have "pool_ok (FreePicIDs (AL_Dpb_Init numRef mode d)) 16 u {#} P" for u P
    by (simp add: pool_ok_def held_def)
  then show ?thesis
    by (simp add: dpb_inv_def dpb_base_def dpb_links_def dll_def nodes_ok_def ids_ok_def waiting_ok_def outputs_def
        AL_Dpb_Init_def AL_Dpb_sResetWaiting_def reset_node_def Let_def dpb_sizes)
qed

lemma Init_deferred: "deferred_ok (AL_Dpb_Init numRef mode d)" "deferred (AL_Dpb_Init numRef mode d) = []"
  by (simp_all add: deferred_ok_def deferred_def AL_Dpb_Init_def AL_Dpb_sResetWaiting_def Let_def)

end
