(* ===== verification/DpbUpdate.thy ===== *)
theory DpbUpdate imports DpbInv begin

text \<open>Removal and insertion keep the invariant.\<close>

section \<open>What the picture identifiers do not touch\<close>

definition info :: "AL_TDpbNode \<Rightarrow> AL_TDpbNode" where
  "info nd = (strip nd)\<lparr>uPicID := 0\<rparr>"

lemma info_eqD:
  assumes "info a = info b"
  shows "uNodeID a = uNodeID b" "uFrmID a = uFrmID b" "uMvID a = uMvID b"
    "iFramePOC a = iFramePOC b" "slice_pic_order_cnt_lsb a = slice_pic_order_cnt_lsb b"
    "eMarking_flag a = eMarking_flag b" "pic_output_flag a = pic_output_flag b"
    "uPicLatency a = uPicLatency b" "non_existing a = non_existing b" "iPic_num a = iPic_num b"
    "iFrame_num_wrap a = iFrame_num_wrap b" "iLong_term_pic_num a = iLong_term_pic_num b"
    "iLong_term_frame_idx a = iLong_term_frame_idx b"
  using assms by (cases a; cases b; simp add: info_def strip_def)+

lemma info_strip: "strip a = strip b \<Longrightarrow> info a = info b"
  by (simp add: info_def)

definition picless :: "AL_TDpb \<Rightarrow> AL_TDpb" where
  "picless d = d\<lparr>Nodes := proj (\<lambda>nd. nd\<lparr>uPicID := 0\<rparr>) (Nodes d), FreePicIDs := \<lambda>_. 0, FreePicIdCnt := 0,
     PicId2NodeId := \<lambda>_. 0, PicId2FrmId := \<lambda>_. 0, PicId2MvId := \<lambda>_. 0, bPicWaiting := False,
     uNodeWaiting := 0, uFrmWaiting := 0, uMvWaiting := 0\<rparr>"

lemma picless_simps [simp]:
  "picless (d\<lparr>FreePicIDs := a\<rparr>) = picless d" "picless (d\<lparr>FreePicIdCnt := b\<rparr>) = picless d"
  "picless (d\<lparr>PicId2NodeId := a\<rparr>) = picless d" "picless (d\<lparr>PicId2FrmId := a\<rparr>) = picless d"
  "picless (d\<lparr>PicId2MvId := a\<rparr>) = picless d" "picless (d\<lparr>bPicWaiting := w\<rparr>) = picless d"
  "picless (d\<lparr>uNodeWaiting := b\<rparr>) = picless d" "picless (d\<lparr>uFrmWaiting := b\<rparr>) = picless d"
  "picless (d\<lparr>uMvWaiting := b\<rparr>) = picless d"
  "picless (upd n (\<lambda>nd. nd\<lparr>uPicID := b\<rparr>) d) = picless d"
  by (simp_all add: picless_def upd_def fun_eq_iff proj_def)

lemma picless_eqD:
  assumes "picless e = picless d"
  shows "DispFifo e = DispFifo d" "pDltFrmIDLst e = pDltFrmIDLst d" "pDltMvIDLst e = pDltMvIDLst d"
    "iDltFrmLstHead e = iDltFrmLstHead d" "iDltFrmLstTail e = iDltFrmLstTail d"
    "iDltMvLstHead e = iDltMvLstHead d" "iDltMvLstTail e = iDltMvLstTail d" "iNumDltPic e = iNumDltPic d"
    "uNumOutputPic e = uNumOutputPic d" "uNumRef e = uNumRef d" "uCurRef e = uCurRef d"
    "uCountRef e = uCountRef d" "uCountPic e = uCountPic d" "calls e = calls d" "eMode e = eMode d"
    "uHeadPOC e = uHeadPOC d" "uHeadPocLsb e = uHeadPocLsb d" "uLastPOC e = uLastPOC d"
    "uHeadDecOrder e = uHeadDecOrder d"
    "(Nodes e n)\<lparr>uPicID := 0\<rparr> = (Nodes d n)\<lparr>uPicID := 0\<rparr>"
  using assms by (cases d; cases e; auto simp: picless_def proj_def fun_eq_iff)+

lemma nopic_eqD:
  assumes "a\<lparr>uPicID := 0\<rparr> = b\<lparr>uPicID := 0\<rparr>"
  shows "info a = info b" "uPrevPOC a = uPrevPOC b" "uNextPOC a = uNextPOC b"
    "uPrevPocLsb a = uPrevPocLsb b" "uNextPocLsb a = uNextPocLsb b"
    "uPrevDecOrder a = uPrevDecOrder b" "uNextDecOrder a = uNextDecOrder b"
  using assms by (cases a; cases b; simp add: info_def strip_def)+

lemma picless_node:
  assumes "picless e = picless d"
  shows "info (Nodes e n) = info (Nodes d n)"
  by (rule nopic_eqD(1) [OF picless_eqD(20) [OF assms]])

lemma picless_links:
  assumes "picless e = picless d"
  shows "dpb_links e ps ls ds = dpb_links d ps ls ds"
  using picless_eqD(16-19) [OF assms] nopic_eqD(2-7) [OF picless_eqD(20) [OF assms]]
  by (simp add: dpb_links_def proj_def)

lemma info_lists:
  assumes "\<And>n. info (Nodes e n) = info (Nodes d n)"
  shows "nodes_ok e ps = nodes_ok d ps" "outputs e ps = outputs d ps" "refs e ps = refs d ps"
  using info_eqD [OF assms] by (simp_all add: nodes_ok_def outputs_def refs_def)

lemma picless_base:
  assumes "picless e = picless d"
  shows "dpb_base e ps ls ds = dpb_base d ps ls ds" "refs_counted e ps = refs_counted d ps"
    "deferred e = deferred d" "deferred_ok e = deferred_ok d"
  using picless_links [OF assms] info_lists [of e d, OF picless_node [OF assms]]
    info_eqD(4,5) [OF picless_node [OF assms]] picless_eqD [OF assms]
  by (simp_all add: dpb_base_def refs_counted_def deferred_def deferred_ok_def)

lemma dpb_links_upd [simp]:
  assumes "n \<notin> set ps"
  shows "dpb_links (upd n f d) ps ls ds = dpb_links d ps ls ds"
proof -
  have "dll h (g(n := v)) (k(n := w)) xs = dll h g k xs" if "set xs = set ps" for h g k v w xs
    using that assms by (intro dll_cong) auto
  then show ?thesis
    by (auto simp: dpb_links_def simp del: proj_triv)
qed

lemma dpb_links_fields [simp]:
  "dpb_links (d\<lparr>FreePicIDs := a\<rparr>) ps ls ds = dpb_links d ps ls ds"
  "dpb_links (d\<lparr>FreePicIdCnt := b\<rparr>) ps ls ds = dpb_links d ps ls ds"
  "dpb_links (d\<lparr>PicId2NodeId := a\<rparr>) ps ls ds = dpb_links d ps ls ds"
  "dpb_links (d\<lparr>uCountPic := c\<rparr>) ps ls ds = dpb_links d ps ls ds"
  "dpb_links (d\<lparr>uCountRef := c\<rparr>) ps ls ds = dpb_links d ps ls ds"
  "dpb_links (d\<lparr>uNumOutputPic := c\<rparr>) ps ls ds = dpb_links d ps ls ds"
  "dpb_links (defer_release frm mv d) ps ls ds = dpb_links d ps ls ds"
  "dpb_links (AL_Dpb_sResetWaiting d) ps ls ds = dpb_links d ps ls ds"
  "dpb_links (call_back cb d) ps ls ds = dpb_links d ps ls ds"
  "dpb_links (d\<lparr>DispFifo := ff\<rparr>) ps ls ds = dpb_links d ps ls ds"
  "dpb_links (d\<lparr>uCurRef := b\<rparr>) ps ls ds = dpb_links d ps ls ds"
  by (simp_all add: dpb_links_def defer_release_def AL_Dpb_sResetWaiting_def call_back_def)

lemma base_D:
  assumes "dpb_base d ps ls ds"
  shows "dpb_links d ps ls ds" "nodes_ok d ps" "sorted (map (\<lambda>n. iFramePOC (Nodes d n)) ps)"
    "sorted (map (\<lambda>n. slice_pic_order_cnt_lsb (Nodes d n)) ls)" "uCountPic d = of_nat (length ps)"
    "uNumOutputPic d = of_nat (length (outputs d ps))" "distinct ps" "\<And>n. n \<in> set ps \<Longrightarrow> n < 34"
  using assms links_distinct [of d ps ls ds] by (auto simp: dpb_base_def)

section \<open>Picture identifiers\<close>

lemma mset_split:
  assumes "n \<in> set ps" "distinct ps"
  shows "mset ps = add_mset n (mset (remove1 n ps))" "n \<notin># mset (remove1 n ps)"
  using assms by (simp, simp only: set_mset_mset, simp)

lemma fill_if_waiting_ids:
  assumes "ids_ok d ps" "distinct ps" "\<forall>n \<in> set ps. n < 34"
  shows "\<exists>e. fill_if_waiting d = Some e \<and> ids_ok e ps \<and> picless e = picless d"
proof (cases "bPicWaiting d \<and> FreePicIdCnt d \<noteq> 0")
  case False
  then show ?thesis using assms by (auto simp: fill_if_waiting_def)
next
  case True
  let ?w = "uNodeWaiting d"
  from True assms have w: "?w \<in> set ps" "uPicID (Nodes d ?w) = UndefID" "?w < 34"
    by (auto simp: ids_ok_def waiting_ok_def)
  from True obtain c where c: "FreePicIdCnt d = Suc c" by (cases "FreePicIdCnt d") auto
  define M where "M = mset (remove1 ?w ps)"
  have M: "mset ps = add_mset ?w M" and nM: "?w \<notin># M"
    using mset_split [OF w(1) assms(2)] by (simp_all add: M_def)
  have pool: "pool_ok (FreePicIDs d) (Suc c) (\<lambda>n. uPicID (Nodes d n)) M (PicId2NodeId d)"
    "pool_ok (FreePicIDs d) (Suc c) (\<lambda>n. uPicID (Nodes d n)) (mset ps) (PicId2NodeId d)"
    using assms(1) c M pool_drop [of "\<lambda>n. uPicID (Nodes d n)" ?w] w(2) by (auto simp: ids_ok_def)
  note take = pool_take [OF pool(1) nM]
  show ?thesis
  proof (cases "non_existing (Nodes d ?w)")
    case ne: True
    have "(\<lambda>m. uPicID (((Nodes d)(?w := Nodes d ?w\<lparr>uPicID := uEndOfList\<rparr>)) m)) = (\<lambda>m. uPicID (Nodes d m))"
      using w(2) by (auto simp: fun_eq_iff uEndOfList_def UndefID_def)
    with ne True w pool(2) c show ?thesis
      by (simp add: fill_if_waiting_def AL_Dpb_sFillWaitingPicture_def ids_ok_def waiting_ok_def)
  next
    case False
    have "FreePicIDs d c \<noteq> uEndOfList" using take(1) by (simp add: uEndOfList_def)
    moreover have "(\<lambda>m. uPicID (((Nodes d)(?w := Nodes d ?w\<lparr>uPicID := FreePicIDs d c\<rparr>)) m))
        = (\<lambda>m. uPicID (Nodes d m))(?w := FreePicIDs d c)"
      by (auto simp: fun_eq_iff)
    ultimately show ?thesis
      using False True w take c M
      by (simp add: fill_if_waiting_def AL_Dpb_sFillWaitingPicture_def ids_ok_def waiting_ok_def
          PIC_ID_POOL_SIZE_def MAX_REF_def)
  qed
qed

lemma release_pic_ids:
  assumes "ids_ok d ps" "n \<in> set ps" "distinct ps" "core e = core d"
  shows "\<exists>f. AL_Dpb_sReleasePicID (uPicID (Nodes d n)) e = Some f \<and> picless f = picless e \<and> Nodes f = Nodes e
    \<and> uNodeWaiting f = uNodeWaiting d \<and> bPicWaiting f = bPicWaiting d
    \<and> pool_ok (FreePicIDs f) (FreePicIdCnt f) (\<lambda>m. uPicID (Nodes d m)) (mset (remove1 n ps)) (PicId2NodeId f)
    \<and> pool_ok (FreePicIDs f) (FreePicIdCnt f) ((\<lambda>m. uPicID (Nodes d m))(n := UndefID)) (mset ps) (PicId2NodeId f)"
proof -
  note c = core_eqD [OF assms(4)]
  define M where "M = mset (remove1 n ps)"
  have M: "mset ps = add_mset n M" "n \<notin># M"
    using mset_split [OF assms(2,3)] by (simp_all add: M_def)
  let ?u = "\<lambda>m. uPicID (Nodes d m)"
  have p: "pool_ok (FreePicIDs d) (FreePicIdCnt d) ?u (add_mset n M) (PicId2NodeId d)"
    using assms(1) M(1) by (simp add: ids_ok_def)
  show ?thesis
  proof (cases "?u n = UndefID")
    case True
    then have u: "?u(n := UndefID) = ?u" by (auto simp: fun_eq_iff)
    show ?thesis
      using True p pool_drop [of ?u n] c
      unfolding u M_def [symmetric] M(1) by (simp add: AL_Dpb_sReleasePicID_def)
  next
    case False
    from pool_release [OF p M(2) False] False c show ?thesis
      unfolding M_def [symmetric] M(1) by (simp add: AL_Dpb_sReleasePicID_def PIC_ID_POOL_SIZE_def MAX_REF_def)
  qed
qed

section \<open>Removal\<close>

lemma filter_remove1_len:
  assumes "distinct ps" "n \<in> set ps" "\<And>m. m \<noteq> n \<Longrightarrow> P m = Q m" "Q n"
  shows "length (filter Q ps) = Suc (length (filter P (remove1 n ps)))"
proof -
  from split_list [OF assms(2)] obtain ys zs where ps: "ps = ys @ n # zs" by blast
  with assms(1) have "n \<notin> set ys" "n \<notin> set zs" by auto
  moreover from this have "filter P ys = filter Q ys" "filter P zs = filter Q zs"
    by (metis (mono_tags, lifting) filter_cong assms(3))+
  ultimately show ?thesis using ps assms(4) by (simp add: remove1_append)
qed

lemma filter_remove1_eq:
  assumes "distinct ps" "n \<in> set ps" "\<And>m. m \<noteq> n \<Longrightarrow> P m = Q m" "\<not> Q n"
  shows "filter P (remove1 n ps) = filter Q ps"
proof -
  from split_list [OF assms(2)] obtain ys zs where ps: "ps = ys @ n # zs" by blast
  with assms(1) have "n \<notin> set ys" "n \<notin> set zs" by auto
  moreover from this have "filter P ys = filter Q ys" "filter P zs = filter Q zs"
    by (metis (mono_tags, lifting) filter_cong assms(3))+
  ultimately show ?thesis using ps assms(4) by (simp add: remove1_append)
qed

lemma sorted_remove1_cong:
  assumes "sorted (map f xs)" "\<And>m. m \<in> set xs \<Longrightarrow> m \<noteq> n \<Longrightarrow> g m = f m" "distinct xs"
  shows "sorted (map g (remove1 n xs))"
proof -
  have "map g (remove1 n xs) = map f (remove1 n xs)"
    using assms(2,3) by (intro map_cong) (auto dest: notin_set_remove1)
  with sorted_map_remove1 [OF assms(1), of n] show ?thesis by metis
qed

text \<open>The state after the node left the lists and was reset, before a waiting picture is served.\<close>

lemma removed_base:
  assumes b: "dpb_base d ps ls ds" and n: "n \<in> set ps" "\<not> pic_output_flag (Nodes d n)"
    and l: "dpb_links e (remove1 n ps) (remove1 n ls) (remove1 n ds)"
    and nodes: "\<And>m. m \<noteq> n \<Longrightarrow> info (Nodes e m) = info (Nodes d m)"
    and rst: "eMarking_flag (Nodes e n) = UNUSED_FOR_REF" "\<not> pic_output_flag (Nodes e n)"
    and cnt: "uCountPic e = uCountPic d - 1" "uNumOutputPic e = uNumOutputPic d"
  shows "dpb_base e (remove1 n ps) (remove1 n ls) (remove1 n ds)"
proof -
  note D = base_D [OF b]
  note i = info_eqD [OF nodes]
  have "outputs e (remove1 n ps) = outputs d ps"
    unfolding outputs_def by (rule filter_remove1_eq) (use D n i in auto)
  moreover have "nodes_ok e (remove1 n ps)"
    unfolding nodes_ok_def
  proof (intro conjI ballI allI impI)
    fix m assume "m \<in> set (remove1 n ps)"
    then have "m \<in> set ps" "m \<noteq> n" using D(7) by (auto dest: notin_set_remove1)
    with D(2) i show "uNodeID (Nodes e m) = m" "\<not> non_existing (Nodes e m) \<Longrightarrow> uFrmID (Nodes e m) < 50"
      by (auto simp: nodes_ok_def)
  next
    fix m :: nat assume "m < 34" "m \<notin> set (remove1 n ps)"
    then show "eMarking_flag (Nodes e m) = UNUSED_FOR_REF" "\<not> pic_output_flag (Nodes e m)"
      using D(2,7) rst i by (cases "m = n"; auto simp: nodes_ok_def)+
  qed
  moreover have "length ps = Suc (length (remove1 n ps))"
    using length_pos_if_in_set [OF n(1)] n(1) by (simp add: length_remove1)
  moreover have "distinct ls" using D(1) by (auto dest: links_distinct)
  moreover have "sorted (map (\<lambda>n. iFramePOC (Nodes e n)) (remove1 n ps))"
    by (rule sorted_remove1_cong [OF D(3)]) (use i D(7) in auto)
  moreover have "sorted (map (\<lambda>n. slice_pic_order_cnt_lsb (Nodes e n)) (remove1 n ls))"
    by (rule sorted_remove1_cong [OF D(4)]) (use i \<open>distinct ls\<close> in auto)
  ultimately show ?thesis
    using l D(5,6) cnt by (simp add: dpb_base_def del: length_remove1)
qed

lemma Remove_inv:
  assumes i: "dpb_inv d ps ls ds" and n: "n \<in> set ps" "\<not> pic_output_flag (Nodes d n)"
  shows "\<exists>d'. AL_Dpb_Remove n d = Some (uFrmID (Nodes d n), d')
    \<and> dpb_inv d' (remove1 n ps) (remove1 n ls) (remove1 n ds)
    \<and> (refs_counted d ps \<longrightarrow> refs_counted d' (remove1 n ps))
    \<and> (\<forall>m. m \<noteq> n \<longrightarrow> info (Nodes d' m) = info (Nodes d m))
    \<and> calls d' = calls d \<and> DispFifo d' = DispFifo d \<and> uCurRef d' = uCurRef d \<and> uNumRef d' = uNumRef d
    \<and> (deferred_ok d \<and> (non_existing (Nodes d n) \<or> iNumDltPic d < 34) \<longrightarrow> deferred_ok d'
       \<and> deferred d' = deferred d @ (if non_existing (Nodes d n) then []
                                     else [(uFrmID (Nodes d n), uMvID (Nodes d n))]))
    \<and> uCountRef d' = (if eMarking_flag (Nodes d n) \<noteq> UNUSED_FOR_REF then uCountRef d - 1 else uCountRef d)"
proof -
  from i have b: "dpb_base d ps ls ds" and ids: "ids_ok d ps" by (simp_all add: dpb_inv_def)
  note D = base_D [OF b]
  let ?nd = "Nodes d n"
  let ?ps = "remove1 n ps" and ?ls = "remove1 n ls" and ?ds = "remove1 n ds"
  have n34: "n < 34" using D(8) n(1) .
  have nps: "n \<notin> set ?ps" using D(7) by simp
  from remove_links [OF D(1) n(1)] obtain d1 d2 d3 where
    r: "RemoveFromPocList n d = Some d1" "RemoveFromPocLsbList n d1 = Some d2" "RemoveFromDecOrderList n d2 = Some d3"
    and c3: "core d3 = core d" and l3: "dpb_links d3 ?ps ?ls ?ds" by blast
  note c = core_eqD [OF c3]
  from release_pic_ids [OF ids n(1) D(7) c3] obtain d4 where
    d4: "AL_Dpb_sReleasePicID (uPicID ?nd) d3 = Some d4" "picless d4 = picless d3" "Nodes d4 = Nodes d3"
      "uNodeWaiting d4 = uNodeWaiting d" "bPicWaiting d4 = bPicWaiting d"
    and pool: "pool_ok (FreePicIDs d4) (FreePicIdCnt d4) (\<lambda>m. uPicID (Nodes d m)) (mset ?ps) (PicId2NodeId d4)"
    by blast
  note p4 = picless_eqD [OF d4(2)]
  define d5 where "d5 = (if eMarking_flag ?nd \<noteq> UNUSED_FOR_REF then d4\<lparr>uCountRef := uCountRef d4 - 1\<rparr> else d4)"
  define d6 where "d6 = d5\<lparr>uCountPic := uCountPic d5 - 1\<rparr>"
  define d7 where "d7 = upd n reset_node (if n = uNodeWaiting d then AL_Dpb_sResetWaiting d6 else d6)"
  have id3: "uNodeID (Nodes d3 n) = n"
    using strip_eqD(1) [OF c(25) [of n]] D(2) n(1) by (simp add: nodes_ok_def)
  have N6: "Nodes d6 = Nodes d3" "uNodeWaiting d6 = uNodeWaiting d" by (simp_all add: d6_def d5_def d4)
  then have reset: "AL_Dpb_sResetNodeInfo n d6 = Some d7"
    using n34 id3 by (simp add: AL_Dpb_sResetNodeInfo_def d7_def)
  have l4: "dpb_links d4 ?ps ?ls ?ds" using l3 picless_links [OF d4(2)] by simp
  have f7: "Nodes d7 = (Nodes d3)(n := reset_node (Nodes d3 n))" "uCountPic d7 = uCountPic d - 1"
    "uNumOutputPic d7 = uNumOutputPic d" "calls d7 = calls d" "DispFifo d7 = DispFifo d"
    "FreePicIDs d7 = FreePicIDs d4" "FreePicIdCnt d7 = FreePicIdCnt d4" "PicId2NodeId d7 = PicId2NodeId d4"
    "uCountRef d7 = (if eMarking_flag ?nd \<noteq> UNUSED_FOR_REF then uCountRef d - 1 else uCountRef d)"
    "uCurRef d7 = uCurRef d" "uNumRef d7 = uNumRef d"
    "bPicWaiting d7 = (bPicWaiting d \<and> n \<noteq> uNodeWaiting d)"
    "bPicWaiting d7 \<Longrightarrow> uNodeWaiting d7 = uNodeWaiting d"
    using N6 p4 c d4 by (auto simp: d7_def d6_def d5_def AL_Dpb_sResetWaiting_def)
  have g7: "deferred d7 = deferred d" "deferred_ok d7 = deferred_ok d" "iNumDltPic d7 = iNumDltPic d"
    using p4 c by (auto simp: d7_def d6_def d5_def AL_Dpb_sResetWaiting_def upd_def deferred_def deferred_ok_def)
  have nodes7: "Nodes d7 m = Nodes d3 m" if "m \<noteq> n" for m using that f7(1) by simp
  have info7: "info (Nodes d7 m) = info (Nodes d m)" if "m \<noteq> n" for m
    using nodes7 [OF that] info_strip [OF c(25) [of m]] by simp
  have b7: "dpb_base d7 ?ps ?ls ?ds"
  proof (rule removed_base [OF b n])
    show "dpb_links d7 ?ps ?ls ?ds" using l4 nps by (auto simp: d7_def d6_def d5_def)
    show "info (Nodes d7 m) = info (Nodes d m)" if "m \<noteq> n" for m by (rule info7 [OF that])
  qed (simp_all add: f7 reset_node_def)
  have ids7: "ids_ok d7 ?ps"
  proof -
    have pic: "uPicID (Nodes d7 m) = uPicID (Nodes d m)" if "m \<noteq> n" for m
      using nodes7 [OF that] strip_eqD(4) [OF c(25) [of m]] by simp
    then have "pool_ok (FreePicIDs d7) (FreePicIdCnt d7) (\<lambda>m. uPicID (Nodes d7 m)) (mset ?ps) (PicId2NodeId d7)"
      using pool pool_cong [of "mset ?ps" "\<lambda>m. uPicID (Nodes d7 m)" "\<lambda>m. uPicID (Nodes d m)"] nps
      unfolding f7(6-8) by (metis set_mset_mset)
    moreover have "waiting_ok d7 ?ps"
      using ids f7(12,13) pic D(7) by (auto simp: ids_ok_def waiting_ok_def)
    ultimately show ?thesis by (simp add: ids_ok_def)
  qed
  have dist: "distinct ?ps" "\<forall>n \<in> set ?ps. n < 34"
    using D(7,8) by (auto dest: notin_set_remove1)
  from fill_if_waiting_ids [OF ids7 dist] obtain d8 where
    d8: "fill_if_waiting d7 = Some d8" "ids_ok d8 ?ps" "picless d8 = picless d7" by blast
  note p8 = picless_eqD [OF d8(3)] and q8 = picless_base [OF d8(3)]
  define d9 where "d9 = (if \<not> non_existing ?nd then defer_release (uFrmID ?nd) (uMvID ?nd) d8 else d8)"
  have R: "AL_Dpb_Remove n d = Some (uFrmID ?nd, d9)"
    using n34 r d4(1) reset d8(1) by (auto simp: AL_Dpb_Remove_def d9_def d6_def d5_def)
  have b9: "dpb_base d9 ?ps ?ls ?ds"
    using q8(1) b7 by (simp add: d9_def dpb_base_def nodes_ok_def outputs_def)
  have i9: "ids_ok d9 ?ps" using d8(2) by (simp add: d9_def ids_ok_def waiting_ok_def)
  have N9: "info (Nodes d9 m) = info (Nodes d m)" if "m \<noteq> n" for m
    using picless_node [OF d8(3), of m] info7 [OF that] by (simp add: d9_def)
  have c9: "uCountRef d9 = (if eMarking_flag ?nd \<noteq> UNUSED_FOR_REF then uCountRef d - 1 else uCountRef d)"
    using p8 f7(9) by (simp add: d9_def)
  have "refs_counted d9 ?ps" if "refs_counted d ps"
  proof -
    note e = info_eqD(6) [OF N9]
    show ?thesis
    proof (cases "eMarking_flag ?nd = UNUSED_FOR_REF")
      case True
      have "refs d9 ?ps = refs d ps"
        unfolding refs_def by (rule filter_remove1_eq) (use D(7) n(1) True e in auto)
      with that c9 True show ?thesis by (simp add: refs_counted_def)
    next
      case False
      have "length (refs d ps) = Suc (length (refs d9 ?ps))"
        unfolding refs_def by (rule filter_remove1_len) (use D(7) n(1) False e in auto)
      with that c9 False show ?thesis by (simp add: refs_counted_def)
    qed
  qed
  moreover have "deferred_ok d9 \<and> deferred d9 = deferred d @ (if non_existing ?nd then [] else [(uFrmID ?nd, uMvID ?nd)])"
    if "deferred_ok d" "non_existing ?nd \<or> iNumDltPic d < 34"
    using that g7 q8 p8 defer_release_queue [of d8 "uFrmID ?nd" "uMvID ?nd"] by (auto simp: d9_def)
  moreover have "calls d9 = calls d" "DispFifo d9 = DispFifo d" "uCurRef d9 = uCurRef d" "uNumRef d9 = uNumRef d"
    using p8 f7 by (simp_all add: d9_def)
  ultimately show ?thesis
    using R b9 i9 N9 c9 by (intro exI [of _ d9]) (simp add: dpb_inv_def)
qed

section \<open>Insertion\<close>

text \<open>Where the new node stands, by POC and by POC lsb.\<close>

definition place_poc :: "AL_TDpb \<Rightarrow> int \<Rightarrow> nat \<Rightarrow> nat list \<Rightarrow> nat list" where
  "place_poc d k n ps = place (\<lambda>x. iFramePOC (Nodes d x)) k n ps"

definition place_lsb :: "AL_TDpb \<Rightarrow> nat \<Rightarrow> nat \<Rightarrow> nat list \<Rightarrow> nat list" where
  "place_lsb d k n ls = place (\<lambda>x. slice_pic_order_cnt_lsb (Nodes d x)) k n ls"

lemma assign_pic_id_ids:
  assumes "ids_ok d ps" "distinct ps" "n \<notin> set ps"
  shows "\<exists>pic e. assign_pic_id n frm mv ne d = Some (pic, e) \<and> picless e = picless d \<and> Nodes e = Nodes d
    \<and> pool_ok (FreePicIDs e) (FreePicIdCnt e) ((\<lambda>m. uPicID (Nodes d m))(n := pic)) (add_mset n (mset ps)) (PicId2NodeId e)
    \<and> (bPicWaiting e \<longrightarrow> uNodeWaiting e = n \<and> pic = UndefID
        \<or> bPicWaiting d \<and> uNodeWaiting e = uNodeWaiting d)"
proof -
  let ?u = "\<lambda>m. uPicID (Nodes d m)"
  have nM: "n \<notin># mset ps" using assms(3) by simp
  have p: "pool_ok (FreePicIDs d) (FreePicIdCnt d) ?u (mset ps) (PicId2NodeId d)"
    using assms(1) by (simp add: ids_ok_def)
  have none: "pool_ok (FreePicIDs d) (FreePicIdCnt d) (?u(n := UndefID)) (add_mset n (mset ps)) (PicId2NodeId d)"
  proof -
    have "pool_ok (FreePicIDs d) (FreePicIdCnt d) (?u(n := UndefID)) (mset ps) (PicId2NodeId d)"
      using p assms(3) by (subst pool_cong [where v = ?u]) auto
    then show ?thesis by (subst pool_drop) simp_all
  qed
  show ?thesis
  proof (cases "ne \<or> FreePicIdCnt d = 0")
    case True
    with none show ?thesis by (auto simp: assign_pic_id_def UndefID_def uEndOfList_def)
  next
    case False
    then obtain c where c: "FreePicIdCnt d = Suc c" by (cases "FreePicIdCnt d") auto
    from pool_take [OF _ nM] p c have "FreePicIDs d c < 16"
      "pool_ok (FreePicIDs d) c (?u(n := FreePicIDs d c)) (add_mset n (mset ps)) ((PicId2NodeId d)(FreePicIDs d c := n))"
      by simp_all
    with False c show ?thesis
      by (simp add: assign_pic_id_def Let_def PIC_ID_POOL_SIZE_def MAX_REF_def)
  qed
qed

lemma Insert_inv:
  assumes i: "dpb_inv d ps ls ds" and n: "n < 34" "n \<notin> set ps"
    and frm: "frm < 50 \<or> frm = uEndOfList \<and> ne"
  shows "\<exists>d'. AL_Dpb_Insert k l n frm mv out mark ne nut d = Some d'
    \<and> dpb_inv d' (place_poc d k n ps) (place_lsb d l n ls) (ds @ [n])
    \<and> (refs_counted d ps \<longrightarrow> refs_counted d' (place_poc d k n ps))
    \<and> (\<forall>m. m \<noteq> n \<longrightarrow> info (Nodes d' m) = info (Nodes d m))
    \<and> iFramePOC (Nodes d' n) = k \<and> uFrmID (Nodes d' n) = frm \<and> uMvID (Nodes d' n) = mv
    \<and> pic_output_flag (Nodes d' n) = out \<and> eMarking_flag (Nodes d' n) = mark \<and> non_existing (Nodes d' n) = ne
    \<and> calls d' = calls d @ (if frm \<noteq> uEndOfList then [IncrementFrmBuf frm] else [])
                       @ (if mv \<noteq> uEndOfList then [IncrementMvBuf mv] else [])
    \<and> deferred d' = deferred d \<and> deferred_ok d' = deferred_ok d \<and> uCurRef d' = n \<and> uNumRef d' = uNumRef d"
proof -
  from i have b: "dpb_base d ps ls ds" and ids: "ids_ok d ps" by (simp_all add: dpb_inv_def)
  note D = base_D [OF b]
  from assign_pic_id_ids [OF ids D(7) n(2), of frm mv ne] obtain pic d1 where
    d1: "assign_pic_id n frm mv ne d = Some (pic, d1)" "picless d1 = picless d" "Nodes d1 = Nodes d"
    and pool: "pool_ok (FreePicIDs d1) (FreePicIdCnt d1) ((\<lambda>m. uPicID (Nodes d m))(n := pic)) (add_mset n (mset ps)) (PicId2NodeId d1)"
    and wait: "bPicWaiting d1 \<longrightarrow> uNodeWaiting d1 = n \<and> pic = UndefID
        \<or> bPicWaiting d \<and> uNodeWaiting d1 = uNodeWaiting d" by blast
  note p1 = picless_eqD [OF d1(2)]
  define f where "f = (\<lambda>nd :: AL_TDpbNode. nd\<lparr>iFramePOC := k, slice_pic_order_cnt_lsb := l, uFrmID := frm,
                  uMvID := mv, uPicID := pic, eMarking_flag := mark, uNodeID := n,
                  pic_output_flag := out, bIsReset := False, non_existing := ne, eNUT := nut\<rparr>)"
  define d2 where "d2 = upd n f (d1\<lparr>uCurRef := n\<rparr>)"
  obtain ff where ff: "(if frm \<noteq> uEndOfList
      then DispFifo_SetStatus frm (if out then AL_NOT_READY_FOR_OUTPUT else AL_NOT_NEEDED_FOR_OUTPUT) (DispFifo d2)
      else Some (DispFifo d2)) = Some ff"
    using frm by (cases "frm = uEndOfList") (auto simp: DispFifo_SetStatus_def dpb_sizes)
  define d3 where "d3 = d2\<lparr>DispFifo := ff\<rparr>"
  have N3: "Nodes d3 = (Nodes d)(n := f (Nodes d n))" by (simp add: d3_def d2_def d1)
  have l3: "dpb_links d3 ps ls ds"
    using D(1) picless_links [OF d1(2)] n(2) by (simp add: d3_def d2_def)
  have links: "\<exists>d4. (if uHeadPOC d3 = uEndOfList then insert_first n d3
                else do { e1 \<leftarrow> insert_poc (uHeadPOC d3) k n d3;
                          e2 \<leftarrow> insert_lsb (uHeadPocLsb d3) l n e1;
                          insert_dec n e2 }) = Some d4
      \<and> core d4 = core d3 \<and> dpb_links d4 (place_poc d k n ps) (place_lsb d l n ls) (ds @ [n])"
  proof (cases "ps = []")
    case True
    then have e: "ls = []" "ds = []" using D(1) by (simp_all add: dpb_links_def)
    have h: "uHeadPOC d3 = uEndOfList" using links_distinct(8) [OF l3] True by simp
    from insert_first_links [of d3 ls ds n] l3 True n(1) obtain d4 where
      "insert_first n d3 = Some d4" "core d4 = core d3" "dpb_links d4 [n] [n] [n]" by auto
    with h True e show ?thesis by (simp add: place_poc_def place_lsb_def place_def)
  next
    case False
    have h: "uHeadPOC d3 \<noteq> uEndOfList"
      using links_distinct(7,8) [OF l3] first_in [OF False, of uEndOfList] by auto
    from insert_links [OF l3 False n(2,1), of k l] obtain e1 e2 e3 where
      "insert_poc (uHeadPOC d3) k n d3 = Some e1" "insert_lsb (uHeadPocLsb d3) l n e1 = Some e2"
      "insert_dec n e2 = Some e3" "core e3 = core d3"
      "dpb_links e3 (place (\<lambda>x. iFramePOC (Nodes d3 x)) k n ps)
        (place (\<lambda>x. slice_pic_order_cnt_lsb (Nodes d3 x)) l n ls) (ds @ [n])" by blast
    moreover have "place (\<lambda>x. iFramePOC (Nodes d3 x)) k n ps = place_poc d k n ps"
      unfolding place_poc_def by (rule place_cong) (use n(2) N3 in auto)
    moreover have "place (\<lambda>x. slice_pic_order_cnt_lsb (Nodes d3 x)) l n ls = place_lsb d l n ls"
      unfolding place_lsb_def by (rule place_cong) (use n(2) N3 D(1) in \<open>auto dest: links_distinct(4)\<close>)
    ultimately show ?thesis using h by auto
  qed
  then obtain d4 where d4: "(if uHeadPOC d3 = uEndOfList then insert_first n d3
                else do { e1 \<leftarrow> insert_poc (uHeadPOC d3) k n d3;
                          e2 \<leftarrow> insert_lsb (uHeadPocLsb d3) l n e1;
                          insert_dec n e2 }) = Some d4"
    "core d4 = core d3" "dpb_links d4 (place_poc d k n ps) (place_lsb d l n ls) (ds @ [n])" by blast
  note c = core_eqD [OF d4(2)]
  define d5 where "d5 = (if mark \<noteq> UNUSED_FOR_REF then d4\<lparr>uCountRef := uCountRef d4 + 1\<rparr> else d4)"
  define d6 where "d6 = d5\<lparr>uCountPic := uCountPic d5 + 1\<rparr>"
  define d7 where "d7 = (if out then d6\<lparr>uNumOutputPic := uNumOutputPic d6 + 1\<rparr> else d6)"
  define d8 where "d8 = (if frm \<noteq> uEndOfList then call_back (IncrementFrmBuf frm) d7 else d7)"
  define d9 where "d9 = (if mv \<noteq> uEndOfList then call_back (IncrementMvBuf mv) d8 else d8)"
  have R: "AL_Dpb_Insert k l n frm mv out mark ne nut d = Some d9"
    using d1(1) n(1) ff d4(1)
    by (simp add: AL_Dpb_Insert_def d9_def d8_def d7_def d6_def d5_def d3_def d2_def f_def cong: if_cong)
  note unf = d9_def d8_def d7_def d6_def d5_def call_back_def
  have N9: "Nodes d9 = Nodes d4" by (simp add: unf)
  have strip9: "strip (Nodes d9 m) = strip (Nodes d3 m)" for m using c(25) N9 by simp
  have inf: "info (Nodes d9 m) = info (Nodes d m)" if "m \<noteq> n" for m
    using info_strip [OF strip9 [of m]] that N3 by simp
  note new = strip_eqD [OF strip9 [of n]]
  have nn: "uNodeID (Nodes d9 n) = n" "iFramePOC (Nodes d9 n) = k" "uFrmID (Nodes d9 n) = frm"
    "uMvID (Nodes d9 n) = mv" "slice_pic_order_cnt_lsb (Nodes d9 n) = l" "uPicID (Nodes d9 n) = pic"
    "pic_output_flag (Nodes d9 n) = out" "eMarking_flag (Nodes d9 n) = mark" "non_existing (Nodes d9 n) = ne"
    by (simp_all add: new N3 f_def)
  have pic9: "(\<lambda>m. uPicID (Nodes d9 m)) = (\<lambda>m. uPicID (Nodes d m))(n := pic)"
    using strip_eqD(4) [OF strip9] N3 nn(6) by (auto simp: fun_eq_iff)
  have f9: "uCountPic d9 = uCountPic d + 1" "uNumOutputPic d9 = (if out then uNumOutputPic d + 1 else uNumOutputPic d)"
    "uCountRef d9 = (if mark \<noteq> UNUSED_FOR_REF then uCountRef d + 1 else uCountRef d)"
    "FreePicIDs d9 = FreePicIDs d1" "FreePicIdCnt d9 = FreePicIdCnt d1" "PicId2NodeId d9 = PicId2NodeId d1"
    "bPicWaiting d9 = bPicWaiting d1" "uNodeWaiting d9 = uNodeWaiting d1" "uCurRef d9 = n" "uNumRef d9 = uNumRef d"
    using c p1 by (auto simp: unf d3_def d2_def upd_def)
  have i9: "ids_ok d9 (place_poc d k n ps)"
  proof -
    have "waiting_ok d9 (place_poc d k n ps)"
      using wait ids n(2) nn(6) fun_cong [OF pic9] unfolding waiting_ok_def ids_ok_def f9
      by (auto simp: place_poc_def split: if_splits)
    with pool show ?thesis unfolding ids_ok_def f9 pic9 place_poc_def by simp
  qed
  have in_ps: "m \<in> set ps \<Longrightarrow> m \<noteq> n" for m using n(2) by auto
  note old = info_eqD [OF inf]
  have "nodes_ok d9 (place_poc d k n ps)"
    unfolding nodes_ok_def
  proof (intro conjI ballI allI impI)
    fix m assume m: "m \<in> set (place_poc d k n ps)"
    show "uNodeID (Nodes d9 m) = m" "\<not> non_existing (Nodes d9 m) \<Longrightarrow> uFrmID (Nodes d9 m) < 50"
      using m D(2) old nn frm by (cases "m = n"; auto simp: nodes_ok_def place_poc_def)+
  next
    fix m :: nat assume m: "m < 34" "m \<notin> set (place_poc d k n ps)"
    then show "eMarking_flag (Nodes d9 m) = UNUSED_FOR_REF" "\<not> pic_output_flag (Nodes d9 m)"
      using D(2) old by (auto simp: nodes_ok_def place_poc_def)
  qed
  moreover have "sorted (map (\<lambda>m. iFramePOC (Nodes d9 m)) (place_poc d k n ps))"
  proof -
    have "place_poc d k n ps = place (\<lambda>m. iFramePOC (Nodes d9 m)) k n ps"
      unfolding place_poc_def by (rule place_cong) (use old in_ps in auto)
    moreover have "sorted (map (\<lambda>m. iFramePOC (Nodes d9 m)) ps)"
      using D(3) old in_ps by (metis (no_types, lifting) map_eq_conv)
    ultimately show ?thesis using place_sorted nn(2) by metis
  qed
  moreover have "sorted (map (\<lambda>m. slice_pic_order_cnt_lsb (Nodes d9 m)) (place_lsb d l n ls))"
  proof -
    have in_ls: "m \<in> set ls \<Longrightarrow> m \<noteq> n" for m using in_ps links_distinct(4) [OF D(1)] by auto
    have "place_lsb d l n ls = place (\<lambda>m. slice_pic_order_cnt_lsb (Nodes d9 m)) l n ls"
      unfolding place_lsb_def by (rule place_cong) (use old in_ls in auto)
    moreover have "sorted (map (\<lambda>m. slice_pic_order_cnt_lsb (Nodes d9 m)) ls)"
      using D(4) old in_ls by (metis (no_types, lifting) map_eq_conv)
    ultimately show ?thesis using place_sorted nn(5) by metis
  qed
  moreover have len: "length (place_poc d k n ps) = Suc (length ps)"
    unfolding place_poc_def by (metis mset_place size_add_mset size_mset)
  moreover have "length (filter P (place_poc d k n ps)) = (if P n then 1 else 0) + length (filter Q ps)"
    if "\<And>m. m \<in> set ps \<Longrightarrow> P m = Q m" for P Q
  proof -
    have "length (filter P (place_poc d k n ps)) = size (filter_mset P (add_mset n (mset ps)))"
      unfolding place_poc_def by (metis mset_filter mset_place size_mset)
    moreover have "filter P ps = filter Q ps" using that by (rule filter_cong [OF refl])
    ultimately show ?thesis by (simp flip: mset_filter)
  qed
  note count = this
  have "length (outputs d9 (place_poc d k n ps)) = (if out then 1 else 0) + length (outputs d ps)"
    unfolding outputs_def using count old(7) in_ps nn(7) by simp
  moreover have "length (refs d9 (place_poc d k n ps)) = (if mark \<noteq> UNUSED_FOR_REF then 1 else 0) + length (refs d ps)"
    unfolding refs_def using count old(6) in_ps nn(8) by simp
  moreover have "dpb_links d9 (place_poc d k n ps) (place_lsb d l n ls) (ds @ [n])"
    using d4(3) by (simp add: d9_def d8_def d7_def d6_def d5_def)
  ultimately have "dpb_base d9 (place_poc d k n ps) (place_lsb d l n ls) (ds @ [n])"
    "refs_counted d ps \<Longrightarrow> refs_counted d9 (place_poc d k n ps)"
    using D(5,6) f9(1-3) by (simp_all add: dpb_base_def refs_counted_def)
  moreover have "calls d9 = calls d @ (if frm \<noteq> uEndOfList then [IncrementFrmBuf frm] else [])
      @ (if mv \<noteq> uEndOfList then [IncrementMvBuf mv] else [])"
    using c p1 by (simp add: unf d3_def d2_def)
  moreover have "deferred d9 = deferred d" "deferred_ok d9 = deferred_ok d"
    using c p1 by (simp_all add: unf d3_def d2_def upd_def deferred_def deferred_ok_def)
  ultimately show ?thesis
    using R i9 inf nn f9(9,10) by (intro exI [of _ d9]) (simp add: dpb_inv_def)
qed

end
