(* ===== verification/DpbOutput.thy ===== *)
theory DpbOutput imports DpbUpdate begin

text \<open>
  Output order: \<open>AL_Dpb_Display\<close> shows the picture and every picture before it in POC order that still
  waits, and \<open>AL_Dpb_Flush\<close> empties the buffer in POC order.
\<close>

section \<open>The display queue as a list\<close>

definition disp_list :: "AL_TDispFifo \<Rightarrow> nat list" where
  "disp_list q = ring_list (pFrmIDs q) 50 (uFirstFrm q) (uNumFrm q)"

definition disp_ok :: "AL_TDispFifo \<Rightarrow> bool" where
  "disp_ok q \<longleftrightarrow> uFirstFrm q < 50 \<and> uNumFrm q \<le> 50 \<and> (\<forall>f \<in> set (disp_list q). f < 50)
     \<and> (\<forall>k < 50. (\<forall>i < uNumFrm q. k \<noteq> (uFirstFrm q + i) mod 50) \<longrightarrow> pFrmIDs q k = UndefID)"

definition queued :: "nat \<Rightarrow> u32 \<Rightarrow> AL_TDispFifo \<Rightarrow> AL_TDispFifo" where
  "queued frm lat q = the (DispFifo_Queue frm lat q)"

lemma disp_list_length [simp]: "length (disp_list q) = uNumFrm q"
  by (simp add: disp_list_def)

lemma Queue_some: "frm < 50 \<Longrightarrow> DispFifo_Queue frm lat q = Some (queued frm lat q)"
  by (simp add: queued_def DispFifo_Queue_def dpb_sizes Let_def)

lemma queued_list:
  assumes "disp_ok q" "uNumFrm q < 50" "frm < 50"
  shows "disp_ok (queued frm lat q)" "disp_list (queued frm lat q) = disp_list q @ [frm]"
    "uNumFrm (queued frm lat q) = uNumFrm q + 1"
proof -
  from assms have b: "uFirstFrm q < 50" "uNumFrm q < 50" by (auto simp: disp_ok_def)
  have q: "queued frm lat q = q\<lparr>uNumFrm := uNumFrm q + 1,
      pFrmIDs := (pFrmIDs q)((uFirstFrm q + uNumFrm q) mod 50 := frm), pPicLatency := (pPicLatency q)(frm := lat)\<rparr>"
    using b assms(3) by (simp add: queued_def DispFifo_Queue_def dpb_sizes Let_def)
  show l: "disp_list (queued frm lat q) = disp_list q @ [frm]"
    using ring_list_put [of "uNumFrm q" 50 "pFrmIDs q" "uFirstFrm q" frm] b by (simp add: disp_list_def q)
  show "uNumFrm (queued frm lat q) = uNumFrm q + 1" by (simp add: q)
  have "pFrmIDs (queued frm lat q) k = UndefID"
    if "k < 50" "\<forall>i < uNumFrm q + 1. k \<noteq> (uFirstFrm q + i) mod 50" for k
    using that assms(1) by (auto simp: q disp_ok_def)
  then show "disp_ok (queued frm lat q)"
    using assms l b by (simp add: disp_ok_def) (simp add: q)
qed

lemma IsEmpty_iff: "disp_ok q \<Longrightarrow> DispFifo_IsEmpty q \<longleftrightarrow> disp_list q = []"
proof -
  assume q: "disp_ok q"
  have "disp_list q = [] \<longleftrightarrow> uNumFrm q = 0" by (metis disp_list_length length_0_conv)
  moreover have "uFirstFrm q = (uFirstFrm q + uNumFrm q) mod 50 \<Longrightarrow> uNumFrm q \<noteq> 50 \<Longrightarrow> uNumFrm q = 0"
    using q ring_slot_inj [of 0 50 "uNumFrm q" "uFirstFrm q"] by (auto simp: disp_ok_def)
  ultimately show ?thesis
    using q by (auto simp: DispFifo_IsEmpty_def dpb_sizes disp_ok_def)
qed

lemma Dequeue_list:
  assumes "disp_ok q"
  shows "case disp_list q of
      [] \<Rightarrow> DispFifo_Dequeue q = Some (UndefID, q)
    | f # fs \<Rightarrow> \<exists>q'. DispFifo_Dequeue q = Some (f, q') \<and> disp_ok q' \<and> disp_list q' = fs
        \<and> pFrmStatus q' f = AL_NOT_NEEDED_FOR_OUTPUT"
proof (cases "uNumFrm q")
  case 0
  then have "pFrmIDs q (uFirstFrm q) = UndefID" using assms by (simp add: disp_ok_def)
  with 0 show ?thesis by (simp add: disp_list_def DispFifo_Dequeue_def)
next
  case (Suc n)
  from assms have b: "uFirstFrm q < 50" "uNumFrm q \<le> 50" by (auto simp: disp_ok_def)
  let ?f = "pFrmIDs q (uFirstFrm q)" and ?h = "(uFirstFrm q + 1) mod 50"
  have l: "disp_list q = ?f # ring_list (pFrmIDs q) 50 ?h n"
    using Suc b by (simp add: disp_list_def ring_list_take)
  then have f: "?f < 50" using assms by (auto simp: disp_ok_def)
  have "(?h + i) mod 50 \<noteq> uFirstFrm q" if "i < n" for i
  proof
    assume "(?h + i) mod 50 = uFirstFrm q"
    then have "(uFirstFrm q + (1 + i)) mod 50 = (uFirstFrm q + 0) mod 50" using b by (simp add: mod_simps)
    then show False using ring_slot_inj [of "1 + i" 50 0 "uFirstFrm q"] that Suc b by simp
  qed
  note other = ring_list_other [where f = "pFrmIDs q" and N = 50, OF this]
  define q' where "q' = q\<lparr>pFrmIDs := (pFrmIDs q)(uFirstFrm q := UndefID), uFirstFrm := ?h, uNumFrm := n,
      pFrmStatus := (pFrmStatus q)(?f := AL_NOT_NEEDED_FOR_OUTPUT)\<rparr>"
  have D: "DispFifo_Dequeue q = Some (?f, q')"
    using f Suc b by (simp add: DispFifo_Dequeue_def Let_def q'_def dpb_sizes UndefID_def)
  have l': "disp_list q' = ring_list (pFrmIDs q) 50 ?h n"
    using other [of n] by (simp add: disp_list_def q'_def)
  have "pFrmIDs q' k = UndefID" if k: "k < 50" "\<forall>i < n. k \<noteq> (?h + i) mod 50" for k
  proof (cases "k = uFirstFrm q")
    case False
    have "k \<noteq> (uFirstFrm q + i) mod 50" if "i < uNumFrm q" for i
      using that k(2) False b Suc by (cases i) (auto simp: mod_simps)
    with k(1) assms have "pFrmIDs q k = UndefID" by (simp add: disp_ok_def)
    with False show ?thesis by (simp add: q'_def)
  qed (simp add: q'_def)
  moreover have "\<forall>x \<in> set (disp_list q'). x < 50" using assms l l' by (auto simp: disp_ok_def)
  moreover have "uFirstFrm q' = ?h" "uNumFrm q' = n" by (simp_all add: q'_def)
  ultimately have "disp_ok q'" using b Suc by (simp add: disp_ok_def)
  with l l' D show ?thesis by (simp add: q'_def)
qed

section \<open>Showing one picture\<close>

definition shown :: "nat \<Rightarrow> AL_TDpb \<Rightarrow> AL_TDpb" where
  "shown n d = the (display_node n d)"

definition visible :: "AL_TDpb \<Rightarrow> nat \<Rightarrow> bool" where
  "visible d n \<longleftrightarrow> pic_output_flag (Nodes d n) \<and> \<not> non_existing (Nodes d n)"

text \<open>What showing a picture keeps of a node.\<close>

definition kept :: "AL_TDpbNode \<Rightarrow> AL_TDpbNode" where
  "kept nd = nd\<lparr>bIsDisplayed := False, pic_output_flag := False\<rparr>"

lemma display_node_some:
  assumes "n < 34" "\<not> non_existing (Nodes d n) \<Longrightarrow> uFrmID (Nodes d n) < 50"
  shows "display_node n d = Some (shown n d)"
  using assms by (auto simp: shown_def display_node_def AL_Dpb_sAddToDisplayList_def Queue_some)

lemma shown_eq:
  assumes "n < 34" "\<not> non_existing (Nodes d n) \<Longrightarrow> uFrmID (Nodes d n) < 50"
  shows "shown n d = (if pic_output_flag (Nodes d n)
    then (let f = uFrmID (Nodes d n);
              d1 = (if non_existing (Nodes d n) then d
                    else (call_back (OutputFrmBuf f) (call_back (IncrementFrmBuf f)
                            (d\<lparr>DispFifo := queued f (uPicLatency (Nodes d n)) (DispFifo d)\<rparr>)))
                         \<lparr>iLastDisplayedPOC := iFramePOC (Nodes d n)\<rparr>)
          in (upd n (\<lambda>nd. nd\<lparr>bIsDisplayed := True, pic_output_flag := False\<rparr>) d1)
               \<lparr>bNewSeq := False, uNumOutputPic := uNumOutputPic d - 1\<rparr>)
    else d)"
  using assms
  by (auto simp: shown_def display_node_def AL_Dpb_sAddToDisplayList_def Queue_some call_back_def upd_def Let_def)

lemma shown_frame:
  assumes "n < 34" "\<not> non_existing (Nodes d n) \<Longrightarrow> uFrmID (Nodes d n) < 50"
  shows "kept (Nodes (shown n d) m) = kept (Nodes d m)"
    "pic_output_flag (Nodes (shown n d) m) = (pic_output_flag (Nodes d m) \<and> m \<noteq> n)"
    "uHeadPOC (shown n d) = uHeadPOC d" "uHeadPocLsb (shown n d) = uHeadPocLsb d"
    "uHeadDecOrder (shown n d) = uHeadDecOrder d" "uLastPOC (shown n d) = uLastPOC d"
    "uCountPic (shown n d) = uCountPic d" "uCountRef (shown n d) = uCountRef d"
    "FreePicIDs (shown n d) = FreePicIDs d" "FreePicIdCnt (shown n d) = FreePicIdCnt d"
    "PicId2NodeId (shown n d) = PicId2NodeId d" "bPicWaiting (shown n d) = bPicWaiting d"
    "uNodeWaiting (shown n d) = uNodeWaiting d" "uCurRef (shown n d) = uCurRef d"
    "uNumRef (shown n d) = uNumRef d" "iNumDltPic (shown n d) = iNumDltPic d"
    "deferred (shown n d) = deferred d" "deferred_ok (shown n d) = deferred_ok d"
    "uNumOutputPic (shown n d) = (if pic_output_flag (Nodes d n) then uNumOutputPic d - 1 else uNumOutputPic d)"
    "DispFifo (shown n d) = (if visible d n then queued (uFrmID (Nodes d n)) (uPicLatency (Nodes d n)) (DispFifo d)
                             else DispFifo d)"
    "calls (shown n d) = calls d @ (if visible d n
       then [IncrementFrmBuf (uFrmID (Nodes d n)), OutputFrmBuf (uFrmID (Nodes d n))] else [])"
  using assms
  by (auto simp: shown_eq Let_def upd_def kept_def visible_def call_back_def deferred_def deferred_ok_def)

lemma kept_eqD:
  assumes "kept a = kept b"
  shows "uNextPOC a = uNextPOC b" "uPrevPOC a = uPrevPOC b" "uNextPocLsb a = uNextPocLsb b"
    "uPrevPocLsb a = uPrevPocLsb b" "uNextDecOrder a = uNextDecOrder b" "uPrevDecOrder a = uPrevDecOrder b"
    "uNodeID a = uNodeID b" "uFrmID a = uFrmID b" "uMvID a = uMvID b" "uPicID a = uPicID b"
    "iFramePOC a = iFramePOC b" "slice_pic_order_cnt_lsb a = slice_pic_order_cnt_lsb b"
    "eMarking_flag a = eMarking_flag b" "non_existing a = non_existing b" "uPicLatency a = uPicLatency b"
  using assms by (cases a; cases b; simp add: kept_def)+

text \<open>A state that differs from another only by pictures that were shown.\<close>

definition same_but_shown :: "AL_TDpb \<Rightarrow> AL_TDpb \<Rightarrow> bool" where
  "same_but_shown e d \<longleftrightarrow> (\<forall>m. kept (Nodes e m) = kept (Nodes d m))
     \<and> uHeadPOC e = uHeadPOC d \<and> uHeadPocLsb e = uHeadPocLsb d \<and> uHeadDecOrder e = uHeadDecOrder d
     \<and> uLastPOC e = uLastPOC d \<and> uCountPic e = uCountPic d \<and> uCountRef e = uCountRef d
     \<and> FreePicIDs e = FreePicIDs d \<and> FreePicIdCnt e = FreePicIdCnt d \<and> PicId2NodeId e = PicId2NodeId d
     \<and> bPicWaiting e = bPicWaiting d \<and> uNodeWaiting e = uNodeWaiting d \<and> uCurRef e = uCurRef d
     \<and> uNumRef e = uNumRef d \<and> iNumDltPic e = iNumDltPic d \<and> deferred e = deferred d \<and> deferred_ok e = deferred_ok d"

lemma same_but_shown_refl [simp]: "same_but_shown d d"
  by (simp add: same_but_shown_def)

lemma same_but_shown_trans: "same_but_shown f e \<Longrightarrow> same_but_shown e d \<Longrightarrow> same_but_shown f d"
  by (simp add: same_but_shown_def)

lemma same_but_shown_lists:
  assumes "same_but_shown e d"
  shows "dpb_links e ps ls ds = dpb_links d ps ls ds" "ids_ok e ps = ids_ok d ps"
    "refs e ps = refs d ps" "refs_counted e ps = refs_counted d ps"
proof -
  have k: "kept (Nodes e m) = kept (Nodes d m)" for m using assms by (simp add: same_but_shown_def)
  note f = kept_eqD [OF k]
  show "dpb_links e ps ls ds = dpb_links d ps ls ds" "ids_ok e ps = ids_ok d ps" "refs e ps = refs d ps"
    using assms f by (simp_all add: dpb_links_def proj_def ids_ok_def waiting_ok_def refs_def same_but_shown_def)
  then show "refs_counted e ps = refs_counted d ps"
    using assms by (simp add: refs_counted_def same_but_shown_def)
qed

section \<open>Showing a run of pictures\<close>

definition frames_of :: "AL_TDpb \<Rightarrow> nat list \<Rightarrow> nat list" where
  "frames_of d xs = map (\<lambda>n. uFrmID (Nodes d n)) (filter (visible d) xs)"

definition show_calls :: "nat list \<Rightarrow> dpb_call list" where
  "show_calls fs = concat (map (\<lambda>f. [IncrementFrmBuf f, OutputFrmBuf f]) fs)"

definition showable :: "AL_TDpb \<Rightarrow> nat list \<Rightarrow> bool" where
  "showable d xs \<longleftrightarrow> (\<forall>n \<in> set xs. n < 34 \<and> (\<not> non_existing (Nodes d n) \<longrightarrow> uFrmID (Nodes d n) < 50))"

lemma show_calls_Cons [simp]:
  "show_calls [] = []" "show_calls (f # fs) = IncrementFrmBuf f # OutputFrmBuf f # show_calls fs"
  by (simp_all add: show_calls_def)

lemma show_all:
  "distinct xs \<Longrightarrow> showable d xs \<Longrightarrow>
   same_but_shown (fold shown xs d) d
   \<and> (\<forall>m. pic_output_flag (Nodes (fold shown xs d) m) = (pic_output_flag (Nodes d m) \<and> m \<notin> set xs))
   \<and> uNumOutputPic (fold shown xs d) = uNumOutputPic d - of_nat (length (outputs d xs))
   \<and> calls (fold shown xs d) = calls d @ show_calls (frames_of d xs)
   \<and> (disp_ok (DispFifo d) \<and> uNumFrm (DispFifo d) + length (frames_of d xs) \<le> 50 \<longrightarrow>
        disp_ok (DispFifo (fold shown xs d))
        \<and> disp_list (DispFifo (fold shown xs d)) = disp_list (DispFifo d) @ frames_of d xs)"
proof (induction xs arbitrary: d)
  case Nil
  then show ?case by (simp add: outputs_def frames_of_def)
next
  case (Cons x xs)
  from Cons.prems have x: "x < 34" "\<not> non_existing (Nodes d x) \<Longrightarrow> uFrmID (Nodes d x) < 50" "x \<notin> set xs"
    by (auto simp: showable_def)
  let ?e = "shown x d"
  note s = shown_frame [OF x(1,2)]
  note k = kept_eqD [OF s(1)]
  have same: "same_but_shown ?e d" using s by (simp add: same_but_shown_def)
  have "showable ?e xs" using Cons.prems(2) k(8,14) by (auto simp: showable_def)
  note IH = Cons.IH [OF _ this]
  have d: "distinct xs" using Cons.prems by simp
  have out: "outputs ?e xs = outputs d xs" "frames_of ?e xs = frames_of d xs"
    using x(3) s(2) k(8,14) unfolding outputs_def frames_of_def visible_def
    by (auto intro!: filter_cong arg_cong [where f = "map _"])
  have fr: "frames_of d (x # xs) = (if visible d x then [uFrmID (Nodes d x)] else []) @ frames_of d xs"
    by (simp add: frames_of_def)
  have "same_but_shown (fold shown xs ?e) d" using IH [OF d] same same_but_shown_trans by blast
  moreover have "uNumOutputPic (fold shown xs ?e) = uNumOutputPic d - of_nat (length (outputs d (x # xs)))"
    using IH [OF d] out(1) s(19) by (simp add: outputs_def)
  moreover have "calls (fold shown xs ?e) = calls d @ show_calls (frames_of d (x # xs))"
    using IH [OF d] out(2) s(21) fr by simp
  moreover have "disp_ok (DispFifo (fold shown xs ?e))
      \<and> disp_list (DispFifo (fold shown xs ?e)) = disp_list (DispFifo d) @ frames_of d (x # xs)"
    if p: "disp_ok (DispFifo d)" "uNumFrm (DispFifo d) + length (frames_of d (x # xs)) \<le> 50"
  proof (cases "visible d x")
    case True
    then have f: "uFrmID (Nodes d x) < 50" using x(2) by (simp add: visible_def)
    have "uNumFrm (DispFifo d) < 50" using p(2) fr True by simp
    from queued_list [OF p(1) this f, of "uPicLatency (Nodes d x)"] IH [OF d] True out p(2) fr s(20)
    show ?thesis by simp
  next
    case False
    with IH [OF d] out p fr s(20) show ?thesis by simp
  qed
  ultimately show ?case using IH [OF d] s(2) by auto
qed

lemma shown_hidden: "n < 34 \<Longrightarrow> \<not> pic_output_flag (Nodes d n) \<Longrightarrow> shown n d = d"
  by (simp add: shown_def display_node_def)

lemma fold_shown_hidden:
  "(\<forall>n \<in> set xs. n < 34 \<and> \<not> pic_output_flag (Nodes d n)) \<Longrightarrow> fold shown xs d = d"
  by (induction xs) (simp_all add: shown_hidden)

text \<open>The walk from a point behind which nothing waits.\<close>

lemma display_skip:
  "dll (uHeadPOC d) (proj uNextPOC (Nodes d)) (proj uPrevPOC (Nodes d)) (as @ us @ n # zs) \<Longrightarrow>
   (\<forall>m \<in> set us. m < 34 \<and> \<not> pic_output_flag (Nodes d m)) \<Longrightarrow>
   display_from (first us n) n d = display_node n d"
proof (induction us arbitrary: as)
  case Nil
  then show ?case by (simp add: display_from.simps)
next
  case (Cons u us)
  from Cons.prems(1) have n: "uNextPOC (Nodes d u) = first us n" "u \<noteq> n"
    by (auto simp: dll_def)
  have "display_from (first us n) n d = display_node n d"
    by (rule Cons.IH [of "as @ [u]"]) (use Cons.prems in auto)
  then show ?case using n Cons.prems(2) by (simp add: display_from.simps [of u])
qed

lemma display_run:
  "dll (uHeadPOC d) (proj uNextPOC (Nodes d)) (proj uPrevPOC (Nodes d)) (as @ us @ n # zs) \<Longrightarrow>
   showable d (as @ us @ [n]) \<Longrightarrow> (\<forall>m \<in> set as. \<not> pic_output_flag (Nodes d m)) \<Longrightarrow>
   display_from (first us n) n d = Some (fold shown (us @ [n]) d)"
proof (induction us arbitrary: as d)
  case Nil
  then show ?case by (simp add: display_from.simps display_node_some showable_def)
next
  case (Cons u us)
  let ?e = "shown u d"
  from Cons.prems(1) have n: "uNextPOC (Nodes d u) = first us n" "u \<noteq> n"
    and h: "uHeadPOC d = first as u" by (auto simp: dll_def)
  from Cons.prems(2) have u: "u < 34" "\<not> non_existing (Nodes d u) \<Longrightarrow> uFrmID (Nodes d u) < 50"
    by (auto simp: showable_def)
  note s = shown_frame [OF u]
  note k = kept_eqD [OF s(1)]
  have "proj uNextPOC (Nodes ?e) = proj uNextPOC (Nodes d)" "proj uPrevPOC (Nodes ?e) = proj uPrevPOC (Nodes d)"
    using k by (simp_all add: proj_def)
  then have dl: "dll (uHeadPOC ?e) (proj uNextPOC (Nodes ?e)) (proj uPrevPOC (Nodes ?e)) ((as @ [u]) @ us @ n # zs)"
    using Cons.prems(1) s(3) by (simp del: proj_apply)
  have IH: "display_from (first us n) n ?e = Some (fold shown (us @ [n]) ?e)"
    by (rule Cons.IH [OF dl]) (use Cons.prems(2,3) k(8,14) s(2) in \<open>auto simp: showable_def\<close>)
  have "display_from (uHeadPOC d) u d = Some ?e" if "pic_output_flag (Nodes d u)"
    unfolding h using display_skip [of d "[]" as u "us @ n # zs"] Cons.prems display_node_some [OF u] that
    by (simp add: showable_def del: proj_apply)
  moreover have "?e = d" if "\<not> pic_output_flag (Nodes d u)"
    using shown_hidden [OF u(1) that] .
  ultimately show ?case using n u(1) IH by (auto simp: display_from.simps [of u])
qed

lemma Display_eq:
  assumes "dpb_links d (ys @ n # zs) ls ds" "showable d (ys @ [n])"
  shows "AL_Dpb_Display n d = Some (fold shown (ys @ [n]) d)"
  using display_run [of d "[]" ys n zs] assms by (auto simp: AL_Dpb_Display_def dpb_links_def dll_def)

text \<open>Showing keeps the invariant.\<close>

lemma show_all_inv:
  assumes i: "dpb_inv d ps ls ds" and xs: "distinct xs" "set xs \<subseteq> set ps"
  shows "dpb_inv (fold shown xs d) ps ls ds"
    "outputs (fold shown xs d) ps = filter (\<lambda>n. n \<notin> set xs) (outputs d ps)"
proof -
  let ?e = "fold shown xs d"
  from i have b: "dpb_base d ps ls ds" and ids: "ids_ok d ps" by (simp_all add: dpb_inv_def)
  note D = base_D [OF b]
  have sh: "showable d xs" using D(2,8) xs(2) by (auto simp: showable_def nodes_ok_def)
  note A = show_all [OF xs(1) sh]
  from A have same: "same_but_shown ?e d" by blast
  note L = same_but_shown_lists [OF same]
  from same have "kept (Nodes ?e m) = kept (Nodes d m)" for m by (simp add: same_but_shown_def)
  note k = kept_eqD [OF this]
  show o: "outputs ?e ps = filter (\<lambda>n. n \<notin> set xs) (outputs d ps)"
    using A by (auto simp: outputs_def intro!: filter_cong)
  have "length (outputs d ps) = length (outputs d xs) + length (outputs ?e ps)"
  proof -
    have "set (outputs d ps) = set (outputs d xs) \<union> set (outputs ?e ps)" "set (outputs d xs) \<inter> set (outputs ?e ps) = {}"
      using A xs(2) by (auto simp: outputs_def)
    moreover have "distinct (outputs d ps)" "distinct (outputs d xs)" "distinct (outputs ?e ps)"
      using D(7) xs(1) by (auto simp: outputs_def)
    ultimately show ?thesis by (metis List.finite_set card_Un_disjoint distinct_card)
  qed
  then have "uNumOutputPic ?e = of_nat (length (outputs ?e ps))"
    using A D(6) by (simp add: o)
  moreover have "nodes_ok ?e ps"
    using D(2) A k by (auto simp: nodes_ok_def)
  moreover have "uCountPic ?e = of_nat (length ps)" using same D(5) by (simp add: same_but_shown_def)
  ultimately show "dpb_inv ?e ps ls ds"
    using D(1,3,4) ids k L by (simp add: dpb_inv_def dpb_base_def)
qed

end
