(* ===== verification/DpbClean.thy ===== *)
theory DpbClean imports DpbOutput begin

text \<open>
  \<open>AL_Dpb_Flush\<close> and \<open>AL_Dpb_AVC_Cleanup\<close>: they return, keep the invariant, and what they output are the
  waiting pictures in POC order.
\<close>

definition releases :: "AL_TDpb \<Rightarrow> nat list \<Rightarrow> (nat \<times> nat) list" where
  "releases d xs = map (\<lambda>n. (uFrmID (Nodes d n), uMvID (Nodes d n))) (filter (\<lambda>n. \<not> non_existing (Nodes d n)) xs)"

lemma frames_of_simps [simp]:
  "frames_of d [] = []" "frames_of d (x # xs) = (if visible d x then [uFrmID (Nodes d x)] else []) @ frames_of d xs"
  "frames_of d (xs @ ys) = frames_of d xs @ frames_of d ys"
  by (simp_all add: frames_of_def)

lemma releases_simps [simp]:
  "releases d [] = []"
  "releases d (x # xs) = (if non_existing (Nodes d x) then [] else [(uFrmID (Nodes d x), uMvID (Nodes d x))]) @ releases d xs"
  by (simp_all add: releases_def)

lemma frames_cong:
  assumes "\<And>n. n \<in> set xs \<Longrightarrow> info (Nodes e n) = info (Nodes d n)"
  shows "frames_of e xs = frames_of d xs" "releases e xs = releases d xs"
proof -
  note f = info_eqD [OF assms]
  have "filter (visible e) xs = filter (visible d) xs"
    "filter (\<lambda>n. \<not> non_existing (Nodes e n)) xs = filter (\<lambda>n. \<not> non_existing (Nodes d n)) xs"
    using f by (auto simp: visible_def intro!: filter_cong)
  then show "frames_of e xs = frames_of d xs" "releases e xs = releases d xs"
    using f by (auto simp: frames_of_def releases_def)
qed

lemma frames_hidden: "(\<And>n. n \<in> set xs \<Longrightarrow> \<not> pic_output_flag (Nodes d n)) \<Longrightarrow> frames_of d xs = []"
  by (induction xs) (auto simp: visible_def)

text \<open>The room the outputs and the deferred releases of the nodes need.\<close>

definition room :: "AL_TDpb \<Rightarrow> nat list \<Rightarrow> bool" where
  "room d ps \<longleftrightarrow> disp_ok (DispFifo d) \<and> uNumFrm (DispFifo d) + length (frames_of d ps) \<le> 50
     \<and> deferred_ok d \<and> iNumDltPic d + length ps \<le> 34"

lemma showable_inv: "dpb_inv d ps ls ds \<Longrightarrow> set xs \<subseteq> set ps \<Longrightarrow> showable d xs"
  using base_D(2,8) [of d ps ls ds] by (auto simp: showable_def nodes_ok_def dpb_inv_def)

text \<open>Showing a prefix of the POC list and then removing its last node.\<close>

lemma show_and_remove:
  assumes i: "dpb_inv d (as @ n # bs) ls ds" and r: "room d (as @ n # bs)"
  shows "\<exists>d'. AL_Dpb_Remove n (fold shown (as @ [n]) d) = Some (uFrmID (Nodes d n), d')
    \<and> dpb_inv d' (as @ bs) (remove1 n ls) (remove1 n ds) \<and> room d' (as @ bs)
    \<and> (refs_counted d (as @ n # bs) \<longrightarrow> refs_counted d' (as @ bs))
    \<and> (\<forall>m. m \<noteq> n \<longrightarrow> eMarking_flag (Nodes d' m) = eMarking_flag (Nodes d m)
          \<and> (pic_output_flag (Nodes d' m) \<longleftrightarrow> pic_output_flag (Nodes d m) \<and> m \<notin> set as)
          \<and> uFrmID (Nodes d' m) = uFrmID (Nodes d m) \<and> uMvID (Nodes d' m) = uMvID (Nodes d m)
          \<and> non_existing (Nodes d' m) = non_existing (Nodes d m))
    \<and> disp_list (DispFifo d') = disp_list (DispFifo d) @ frames_of d (as @ [n])
    \<and> calls d' = calls d @ show_calls (frames_of d (as @ [n]))
    \<and> deferred d' = deferred d @ releases d [n] \<and> uCurRef d' = uCurRef d \<and> uNumRef d' = uNumRef d
    \<and> frames_of d' bs = frames_of d bs
    \<and> uCountRef d' = (if eMarking_flag (Nodes d n) \<noteq> UNUSED_FOR_REF then uCountRef d - 1 else uCountRef d)"
proof -
  let ?xs = "as @ [n]" let ?ps = "as @ n # bs" let ?e = "fold shown (as @ [n]) d"
  have D: "distinct ?ps" using i base_D(7) unfolding dpb_inv_def by blast
  have xs: "distinct ?xs" "set ?xs \<subseteq> set ?ps" using D by auto
  note sh = showable_inv [OF i xs(2)]
  note A = show_all [OF xs(1) sh]
  have ie: "dpb_inv ?e ?ps ls ds" by (rule show_all_inv(1) [OF i xs])
  have out: "\<not> pic_output_flag (Nodes ?e n)" using A by simp
  have same: "same_but_shown ?e d" using A by blast
  have k: "kept (Nodes ?e m) = kept (Nodes d m)" for m using same by (simp add: same_but_shown_def)
  note kd = kept_eqD [OF k]
  from r have room: "disp_ok (DispFifo d)" "uNumFrm (DispFifo d) + length (frames_of d ?xs) \<le> 50"
    "deferred_ok d" "iNumDltPic d < 34" by (auto simp: room_def)
  have n: "n \<in> set ?ps" by simp
  from Remove_inv [OF ie n out] obtain d' where
    R: "AL_Dpb_Remove n ?e = Some (uFrmID (Nodes ?e n), d')"
    and i': "dpb_inv d' (remove1 n ?ps) (remove1 n ls) (remove1 n ds)"
    and c': "refs_counted ?e ?ps \<longrightarrow> refs_counted d' (remove1 n ?ps)"
    and N': "\<forall>m. m \<noteq> n \<longrightarrow> info (Nodes d' m) = info (Nodes ?e m)"
    and f': "calls d' = calls ?e" "DispFifo d' = DispFifo ?e" "uCurRef d' = uCurRef ?e" "uNumRef d' = uNumRef ?e"
    and q': "deferred_ok ?e \<and> (non_existing (Nodes ?e n) \<or> iNumDltPic ?e < 34) \<longrightarrow> deferred_ok d'
       \<and> deferred d' = deferred ?e @ (if non_existing (Nodes ?e n) then [] else [(uFrmID (Nodes ?e n), uMvID (Nodes ?e n))])"
    and u': "uCountRef d' = (if eMarking_flag (Nodes ?e n) \<noteq> UNUSED_FOR_REF then uCountRef ?e - 1 else uCountRef ?e)"
    by blast
  have rm: "remove1 n ?ps = as @ bs" using D by (simp add: remove1_append)
  have nodes: "eMarking_flag (Nodes d' m) = eMarking_flag (Nodes d m)
      \<and> (pic_output_flag (Nodes d' m) \<longleftrightarrow> pic_output_flag (Nodes d m) \<and> m \<notin> set as)
      \<and> uFrmID (Nodes d' m) = uFrmID (Nodes d m) \<and> uMvID (Nodes d' m) = uMvID (Nodes d m)
      \<and> non_existing (Nodes d' m) = non_existing (Nodes d m)" if "m \<noteq> n" for m
    using info_eqD [OF N' [rule_format, OF that]] kd A that by auto
  have disp: "disp_ok (DispFifo d')" "disp_list (DispFifo d') = disp_list (DispFifo d) @ frames_of d ?xs"
    using A room f' by auto
  have num: "uNumFrm (DispFifo d') = uNumFrm (DispFifo d) + length (frames_of d ?xs)"
    using disp(2) by (metis disp_list_length length_append)
  have def: "deferred_ok d'" "deferred d' = deferred d @ releases d [n]"
    using q' same room kd by (auto simp: same_but_shown_def)
  have nd: "iNumDltPic d' \<le> iNumDltPic d + 1"
    using arg_cong [OF def(2), of length] by (simp split: if_splits)
  have hid: "frames_of d' as = []"
  proof (rule frames_hidden)
    fix m assume m: "m \<in> set as"
    with D have "m \<noteq> n" by auto
    from nodes [OF this] m show "\<not> pic_output_flag (Nodes d' m)" by blast
  qed
  have bs: "frames_of d' bs = frames_of d bs"
  proof -
    have v: "visible d' m = visible d m \<and> uFrmID (Nodes d' m) = uFrmID (Nodes d m)" if "m \<in> set bs" for m
    proof -
      from that D have "m \<noteq> n" "m \<notin> set as" by auto
      with nodes [of m] show ?thesis by (simp add: visible_def)
    qed
    then have "filter (visible d') bs = filter (visible d) bs" by (intro filter_cong) auto
    with v show ?thesis by (auto simp: frames_of_def)
  qed
  have "room d' (as @ bs)"
    using disp(1) num def(1) nd r hid bs by (auto simp: room_def)
  moreover have "refs_counted ?e ?ps = refs_counted d ?ps" by (rule same_but_shown_lists(4) [OF same])
  ultimately show ?thesis
    using R i' c' disp(2) A f' nodes def(2) same rm bs kd(8) u' kd
    by (intro exI [of _ d']) (simp add: same_but_shown_def)
qed

section \<open>Flush\<close>

lemma Flush_inv:
  "dpb_inv d ps ls ds \<Longrightarrow> room d ps \<Longrightarrow>
   \<exists>d'. AL_Dpb_Flush d = Some d' \<and> dpb_inv d' [] [] [] \<and> room d' []
     \<and> disp_list (DispFifo d') = disp_list (DispFifo d) @ frames_of d ps
     \<and> calls d' = calls d @ show_calls (frames_of d ps)
     \<and> deferred d' = deferred d @ releases d ps \<and> (refs_counted d ps \<longrightarrow> refs_counted d' [])"
proof (induction ps arbitrary: d ls ds)
  case Nil
  then have "uHeadPOC d = uEndOfList" "ls = []" "ds = []"
    by (auto simp: dpb_inv_def dpb_base_def dpb_links_def dll_def)
  with Nil show ?case by (simp add: AL_Dpb_Flush.simps)
next
  case (Cons n ns)
  let ?e = "shown n d"
  from Cons.prems(1) have b: "dpb_base d (n # ns) ls ds" by (simp add: dpb_inv_def)
  note D = base_D [OF b]
  have n: "n < 34" "uHeadPOC d = n" "n \<noteq> uEndOfList"
    using D(8) links_distinct(7,8) [OF D(1)] by auto
  have sh: "showable d [n]" by (rule showable_inv [OF Cons.prems(1)]) simp
  have ie: "dpb_inv ?e (n # ns) ls ds" using show_all_inv(1) [OF Cons.prems(1), of "[n]"] by simp
  have he: "uHeadPOC ?e = n"
    using ie links_distinct(8) by (auto simp: dpb_inv_def dpb_base_def)
  have A: "\<not> pic_output_flag (Nodes ?e n)" using show_all [OF _ sh] by simp
  have first: "(if pic_output_flag (Nodes d n) then AL_Dpb_Display n d else Some d) = Some ?e"
    using Display_eq [of d "[]" n ns ls ds] D(1) sh shown_hidden [OF n(1)] by simp
  from show_and_remove [of d "[]" n ns ls ds] Cons.prems obtain d' where d':
    "AL_Dpb_Remove n ?e = Some (uFrmID (Nodes d n), d')"
    "dpb_inv d' ns (remove1 n ls) (remove1 n ds)" "room d' ns"
    "refs_counted d (n # ns) \<longrightarrow> refs_counted d' ns"
    "\<forall>m. m \<noteq> n \<longrightarrow> uFrmID (Nodes d' m) = uFrmID (Nodes d m) \<and> uMvID (Nodes d' m) = uMvID (Nodes d m)
        \<and> non_existing (Nodes d' m) = non_existing (Nodes d m)"
    "disp_list (DispFifo d') = disp_list (DispFifo d) @ frames_of d [n]"
    "calls d' = calls d @ show_calls (frames_of d [n])"
    "deferred d' = deferred d @ releases d [n]" "frames_of d' ns = frames_of d ns"
    by auto
  have "releases d' ns = releases d ns"
  proof -
    have "filter (\<lambda>m. \<not> non_existing (Nodes d' m)) ns = filter (\<lambda>m. \<not> non_existing (Nodes d m)) ns"
      using d'(5) D(7) by (intro filter_cong) auto
    then show ?thesis using d'(5) D(7) by (auto simp: releases_def)
  qed
  moreover have "AL_Dpb_RemoveHead ?e = Some (uFrmID (Nodes d n), d')"
    using d'(1) he A n(1) by (simp add: AL_Dpb_RemoveHead_def AL_Dpb_GetOutputFlag_def)
  then have "AL_Dpb_Flush d = AL_Dpb_Flush d'"
    using first n by (subst AL_Dpb_Flush.simps) (auto simp: AL_Dpb_GetOutputFlag_def split: if_splits)
  ultimately show ?case
    using Cons.IH [OF d'(2,3)] d'(4,6-9) by (auto simp: show_calls_def)
qed

section \<open>Clean-up after an AVC picture\<close>

definition keep :: "AL_TDpb \<Rightarrow> nat \<Rightarrow> bool" where
  "keep d n \<longleftrightarrow> eMarking_flag (Nodes d n) \<noteq> UNUSED_FOR_REF \<or> pic_output_flag (Nodes d n)"

lemma inv_next:
  assumes "dpb_inv d (as @ n # bs) ls ds"
  shows "nextPOC n d = Some (first bs uEndOfList)" "n < 34" "n \<noteq> uEndOfList"
    "distinct (as @ n # bs)" "uHeadPOC d = first (as @ n # bs) uEndOfList"
proof -
  have b: "dpb_base d (as @ n # bs) ls ds" using assms by (simp add: dpb_inv_def)
  note D = base_D [OF b]
  show n: "n < 34" using D(8) by simp
  then show "n \<noteq> uEndOfList" by (auto simp: uEndOfList_def)
  show "distinct (as @ n # bs)" using D(7) .
  from D(1) have "dll (uHeadPOC d) (proj uNextPOC (Nodes d)) (proj uPrevPOC (Nodes d)) (as @ n # bs)"
    by (simp add: dpb_links_def)
  then show "nextPOC n d = Some (first bs uEndOfList)" by (rule next_dll) (rule n)
  show "uHeadPOC d = first (as @ n # bs) uEndOfList" using links_distinct(8) [OF D(1)] .
qed

lemma avc_first_loop:
  "dpb_inv d (as @ bs) ls ds \<Longrightarrow> room d (as @ bs) \<Longrightarrow>
   \<exists>d' ls' ds'. walk_saved nextPOC (\<lambda>_. True) remove_useless (first bs uEndOfList) d = Some d'
     \<and> dpb_inv d' (as @ filter (keep d) bs) ls' ds' \<and> room d' (as @ filter (keep d) bs)
     \<and> (refs_counted d (as @ bs) \<longrightarrow> refs_counted d' (as @ filter (keep d) bs))
     \<and> (\<forall>m \<in> set (as @ filter (keep d) bs). info (Nodes d' m) = info (Nodes d m))
     \<and> DispFifo d' = DispFifo d \<and> calls d' = calls d \<and> uNumRef d' = uNumRef d \<and> uCurRef d' = uCurRef d
     \<and> uCountRef d' = uCountRef d
     \<and> deferred d' = deferred d @ releases d (filter (\<lambda>n. \<not> keep d n) bs)"
proof (induction bs arbitrary: d as ls ds)
  case Nil
  then show ?case by auto
next
  case (Cons n bs)
  note nx = inv_next [OF Cons.prems(1)]
  show ?case
  proof (cases "keep d n")
    case True
    then have "remove_useless n d = Some d"
      using nx(2) by (auto simp: remove_useless_def AL_Dpb_GetMarkingFlag_def AL_Dpb_GetOutputFlag_def keep_def)
    then have "walk_saved nextPOC (\<lambda>_. True) remove_useless n d
        = walk_saved nextPOC (\<lambda>_. True) remove_useless (first bs uEndOfList) d"
      using nx by (subst walk_saved.simps) simp
    moreover have "dpb_inv d ((as @ [n]) @ bs) ls ds" "room d ((as @ [n]) @ bs)"
      using Cons.prems by simp_all
    note Cons.IH [OF this]
    ultimately show ?thesis using True by simp
  next
    case False
    let ?ps = "as @ n # bs"
    have n: "n \<in> set ?ps" "\<not> pic_output_flag (Nodes d n)" using False by (auto simp: keep_def)
    have rm: "remove1 n ?ps = as @ bs" using nx(4) by (simp add: remove1_append)
    from Remove_inv [OF Cons.prems(1) n] obtain d' where
      R: "AL_Dpb_Remove n d = Some (uFrmID (Nodes d n), d')"
      and i': "dpb_inv d' (as @ bs) (remove1 n ls) (remove1 n ds)"
      and c': "refs_counted d ?ps \<longrightarrow> refs_counted d' (as @ bs)"
      and N': "\<forall>m. m \<noteq> n \<longrightarrow> info (Nodes d' m) = info (Nodes d m)"
      and f': "calls d' = calls d" "DispFifo d' = DispFifo d" "uCurRef d' = uCurRef d" "uNumRef d' = uNumRef d"
      and q': "deferred_ok d \<and> (non_existing (Nodes d n) \<or> iNumDltPic d < 34) \<longrightarrow> deferred_ok d'
         \<and> deferred d' = deferred d @ (if non_existing (Nodes d n) then [] else [(uFrmID (Nodes d n), uMvID (Nodes d n))])"
      and u0: "uCountRef d' = (if eMarking_flag (Nodes d n) \<noteq> UNUSED_FOR_REF then uCountRef d - 1 else uCountRef d)"
      unfolding rm by blast
    have u': "uCountRef d' = uCountRef d" using u0 False by (simp add: keep_def)
    have "remove_useless n d = Some d'"
      using False nx(2) R by (auto simp: remove_useless_def AL_Dpb_GetMarkingFlag_def AL_Dpb_GetOutputFlag_def keep_def)
    then have w: "walk_saved nextPOC (\<lambda>_. True) remove_useless n d
        = walk_saved nextPOC (\<lambda>_. True) remove_useless (first bs uEndOfList) d'"
      using nx by (subst walk_saved.simps) simp
    have nin: "m \<in> set (as @ bs) \<Longrightarrow> m \<noteq> n" for m using nx(4) by auto
    have k: "filter (keep d') bs = filter (keep d) bs" "filter (\<lambda>n. \<not> keep d' n) bs = filter (\<lambda>n. \<not> keep d n) bs"
      using info_eqD(6,7) [OF N' [rule_format]] nin by (auto simp: keep_def intro!: filter_cong)
    have q: "deferred_ok d'" "deferred d' = deferred d @ releases d [n]"
      using q' Cons.prems(2) by (auto simp: room_def)
    have nd: "iNumDltPic d' \<le> iNumDltPic d + 1"
      using arg_cong [OF q(2), of length] by (simp split: if_splits)
    have fr: "frames_of d' (as @ bs) = frames_of d (as @ bs)"
      by (rule frames_cong(1)) (use N' nin in auto)
    have "room d' (as @ bs)"
      using Cons.prems(2) q(1) nd fr f'(2) n(2) by (auto simp: room_def visible_def)
    note IH = Cons.IH [OF i' this]
    have rel: "releases d' (filter (\<lambda>n. \<not> keep d n) bs) = releases d (filter (\<lambda>n. \<not> keep d n) bs)"
      by (rule frames_cong(2)) (use N' nin in auto)
    from IH obtain d2 ls2 ds2 where
      "walk_saved nextPOC (\<lambda>_. True) remove_useless (first bs uEndOfList) d' = Some d2"
      "dpb_inv d2 (as @ filter (keep d) bs) ls2 ds2" "room d2 (as @ filter (keep d) bs)"
      "refs_counted d' (as @ bs) \<longrightarrow> refs_counted d2 (as @ filter (keep d) bs)"
      and i2: "\<forall>m \<in> set (as @ filter (keep d) bs). info (Nodes d2 m) = info (Nodes d' m)"
      and "DispFifo d2 = DispFifo d'" "calls d2 = calls d'" "uNumRef d2 = uNumRef d'" "uCurRef d2 = uCurRef d'"
      "uCountRef d2 = uCountRef d'"
      "deferred d2 = deferred d' @ releases d' (filter (\<lambda>n. \<not> keep d n) bs)"
      unfolding k by blast
    moreover have "\<forall>m \<in> set (as @ filter (keep d) bs). info (Nodes d2 m) = info (Nodes d m)"
      using i2 N' nin by auto
    ultimately show ?thesis
      using w False c' f' q(2) rel u' by (intro exI [of _ d2] exI [of _ ls2] exI [of _ ds2]) auto
  qed
qed

lemma frames_same:
  "(\<And>m. m \<in> set xs \<Longrightarrow> visible e m = visible d m \<and> uFrmID (Nodes e m) = uFrmID (Nodes d m)) \<Longrightarrow> frames_of e xs = frames_of d xs"
  by (induction xs) auto

text \<open>The second loop removes further pictures, outputting first what stands before them.\<close>

text \<open>How many pictures stand over the size of the buffer: all of them when there are more references than the
  size (the removals do not change that), otherwise those beyond the size.\<close>

definition excess :: "AL_TDpb \<Rightarrow> nat list \<Rightarrow> nat" where
  "excess d xs = (if AL_Dpb_GetRefCount d > AL_Dpb_GetNumRef d then length xs
                  else length xs - unat (AL_Dpb_GetNumRef d))"

definition unused :: "AL_TDpb \<Rightarrow> nat \<Rightarrow> bool" where
  "unused d n \<longleftrightarrow> eMarking_flag (Nodes d n) = UNUSED_FOR_REF"

text \<open>A list without its first \<open>k\<close> elements with a property, and its beginning up to the last of these.\<close>

fun drop_first :: "nat \<Rightarrow> ('a \<Rightarrow> bool) \<Rightarrow> 'a list \<Rightarrow> 'a list" where
  "drop_first k P [] = []"
| "drop_first k P (x # xs) =
     (if k = 0 then x # xs else if P x then drop_first (k - 1) P xs else x # drop_first k P xs)"

fun upto_nth :: "nat \<Rightarrow> ('a \<Rightarrow> bool) \<Rightarrow> 'a list \<Rightarrow> 'a list" where
  "upto_nth k P [] = []"
| "upto_nth k P (x # xs) =
     (if k = 0 then [] else if P x then x # upto_nth (k - 1) P xs
      else if upto_nth k P xs = [] then [] else x # upto_nth k P xs)"

lemma drop_first_0 [simp]: "drop_first 0 P xs = xs"
  by (cases xs) auto

lemma upto_nth_0 [simp]: "upto_nth 0 P xs = []"
  by (cases xs) auto

lemma upto_nth_subset: "set (upto_nth k P xs) \<subseteq> set xs"
  by (induction k P xs rule: upto_nth.induct) auto

lemma upto_nth_cong:
  "(\<And>x. x \<in> set xs \<Longrightarrow> P x = Q x) \<Longrightarrow> drop_first k P xs = drop_first k Q xs \<and> upto_nth k P xs = upto_nth k Q xs"
  by (induction k P xs rule: upto_nth.induct) auto

lemma overfull_excess:
  assumes "dpb_inv d ps ls ds" "ps \<noteq> []"
  shows "dpb_overfull d \<longleftrightarrow> 0 < excess d ps"
proof -
  note D = base_D [of d ps ls ds]
  have b: "dpb_base d ps ls ds" using assms(1) by (simp add: dpb_inv_def)
  have "distinct ps" "\<forall>n \<in> set ps. n < 34" using D(7,8) [OF b] by auto
  then have "length ps \<le> 34" using card_mono [of "{..<34}" "set ps"] distinct_card [of ps] by auto
  moreover have "uCountPic d = of_nat (length ps)" using b by (simp add: dpb_base_def)
  ultimately have "unat (uCountPic d) = length ps" by (simp add: unat_of_nat)
  then show ?thesis
    using assms(2) by (auto simp: dpb_overfull_def excess_def AL_Dpb_GetPicCount_def word_less_nat_alt)
qed

lemma avc_second_loop:
  "dpb_inv d (as @ bs) ls ds \<Longrightarrow> room d (as @ bs) \<Longrightarrow>
   (\<forall>m \<in> set as. eMarking_flag (Nodes d m) \<noteq> UNUSED_FOR_REF) \<Longrightarrow> (\<forall>m \<in> set bs. keep d m) \<Longrightarrow>
   \<exists>d' ps' ls' ds' fs. walk_saved nextPOC dpb_overfull display_and_remove (first bs uEndOfList) d = Some d'
     \<and> dpb_inv d' ps' ls' ds' \<and> room d' ps' \<and> (refs_counted d (as @ bs) \<longrightarrow> refs_counted d' ps')
     \<and> (\<forall>m \<in> set ps'. keep d' m) \<and> set ps' \<subseteq> set (as @ bs)
     \<and> (\<forall>m \<in> set (as @ bs). eMarking_flag (Nodes d m) \<noteq> UNUSED_FOR_REF \<longrightarrow> m \<in> set ps')
     \<and> (dpb_overfull d' \<longrightarrow> (\<forall>m \<in> set ps'. eMarking_flag (Nodes d' m) \<noteq> UNUSED_FOR_REF))
     \<and> disp_list (DispFifo d') = disp_list (DispFifo d) @ fs \<and> frames_of d (as @ bs) = fs @ frames_of d' ps'
     \<and> calls d' = calls d @ show_calls fs \<and> uNumRef d' = uNumRef d \<and> uCurRef d' = uCurRef d
     \<and> ps' = as @ drop_first (excess d (as @ bs)) (unused d) bs
     \<and> fs = (if upto_nth (excess d (as @ bs)) (unused d) bs = [] then []
             else frames_of d (as @ upto_nth (excess d (as @ bs)) (unused d) bs))"
proof (induction bs arbitrary: d as ls ds)
  case Nil
  then show ?case
    by (intro exI [of _ d] exI [of _ as] exI [of _ ls] exI [of _ ds] exI [of _ "[]"]) (auto simp: keep_def)
next
  case (Cons n bs)
  note nx = inv_next [OF Cons.prems(1)]
  let ?ps = "as @ n # bs"
  have over: "dpb_overfull d \<longleftrightarrow> 0 < excess d ?ps" by (rule overfull_excess [OF Cons.prems(1)]) simp
  consider (stop) "\<not> dpb_overfull d"
    | (ref) "dpb_overfull d" "eMarking_flag (Nodes d n) \<noteq> UNUSED_FOR_REF"
    | (expel) "dpb_overfull d" "eMarking_flag (Nodes d n) = UNUSED_FOR_REF" by blast
  then show ?case
  proof cases
    case stop
    then have "walk_saved nextPOC dpb_overfull display_and_remove (first (n # bs) uEndOfList) d = Some d"
      by (subst walk_saved.simps) simp
    moreover from stop over have "excess d ?ps = 0" by simp
    ultimately show ?thesis using Cons.prems stop
      by (intro exI [of _ d] exI [of _ ?ps] exI [of _ ls] exI [of _ ds] exI [of _ "[]"]) (auto simp: keep_def)
  next
    case ref
    then have "display_and_remove n d = Some d"
      using nx(2) by (simp add: display_and_remove_def AL_Dpb_GetMarkingFlag_def)
    then have w: "walk_saved nextPOC dpb_overfull display_and_remove (first (n # bs) uEndOfList) d
        = walk_saved nextPOC dpb_overfull display_and_remove (first bs uEndOfList) d"
      using nx ref by (subst walk_saved.simps) simp
    have "dpb_inv d ((as @ [n]) @ bs) ls ds" "room d ((as @ [n]) @ bs)"
      "\<forall>m \<in> set (as @ [n]). eMarking_flag (Nodes d m) \<noteq> UNUSED_FOR_REF" "\<forall>m \<in> set bs. keep d m"
      using Cons.prems ref by auto
    note IH = Cons.IH [OF this]
    have k: "excess d ?ps \<noteq> 0" "\<not> unused d n" using ref over by (simp_all add: unused_def)
    have ps: "(as @ [n]) @ bs = ?ps" by simp
    have dr: "drop_first (excess d ?ps) (unused d) (n # bs) = n # drop_first (excess d ?ps) (unused d) bs"
      "upto_nth (excess d ?ps) (unused d) (n # bs)
        = (if upto_nth (excess d ?ps) (unused d) bs = [] then [] else n # upto_nth (excess d ?ps) (unused d) bs)"
      using k by simp_all
    show ?thesis
    proof (cases "upto_nth (excess d ?ps) (unused d) bs = []")
      case True
      from IH show ?thesis unfolding w dr ps True if_P [OF refl] by simp
    next
      case False
      from IH show ?thesis unfolding w dr ps if_not_P [OF False] by simp
    qed
  next
    case expel
    let ?e = "fold shown (as @ [n]) d"
    from show_and_remove [OF Cons.prems(1,2)] obtain d1 where
      R: "AL_Dpb_Remove n ?e = Some (uFrmID (Nodes d n), d1)"
      and i1: "dpb_inv d1 (as @ bs) (remove1 n ls) (remove1 n ds)" and r1: "room d1 (as @ bs)"
      and c1: "refs_counted d ?ps \<longrightarrow> refs_counted d1 (as @ bs)"
      and N1: "\<forall>m. m \<noteq> n \<longrightarrow> eMarking_flag (Nodes d1 m) = eMarking_flag (Nodes d m)
          \<and> (pic_output_flag (Nodes d1 m) \<longleftrightarrow> pic_output_flag (Nodes d m) \<and> m \<notin> set as)
          \<and> uFrmID (Nodes d1 m) = uFrmID (Nodes d m) \<and> non_existing (Nodes d1 m) = non_existing (Nodes d m)"
      and u1: "uCountRef d1 = (if eMarking_flag (Nodes d n) \<noteq> UNUSED_FOR_REF then uCountRef d - 1 else uCountRef d)"
      and f1: "disp_list (DispFifo d1) = disp_list (DispFifo d) @ frames_of d (as @ [n])"
        "calls d1 = calls d @ show_calls (frames_of d (as @ [n]))" "uCurRef d1 = uCurRef d" "uNumRef d1 = uNumRef d"
        "frames_of d1 bs = frames_of d bs"
      by blast
    have l: "dpb_links d ?ps ls ds" using Cons.prems(1) by (simp add: dpb_inv_def dpb_base_def)
    have "showable d (as @ [n])" by (rule showable_inv [OF Cons.prems(1)]) auto
    from Display_eq [OF l this] R have "display_and_remove n d = Some d1"
      using expel nx(2) by (simp add: display_and_remove_def AL_Dpb_GetMarkingFlag_def)
    then have w: "walk_saved nextPOC dpb_overfull display_and_remove (first (n # bs) uEndOfList) d
        = walk_saved nextPOC dpb_overfull display_and_remove (first bs uEndOfList) d1"
      using nx expel by (subst walk_saved.simps) simp
    have nin: "m \<in> set (as @ bs) \<Longrightarrow> m \<noteq> n" "m \<in> set bs \<Longrightarrow> m \<notin> set as" for m using nx(4) by auto
    have "\<forall>m \<in> set as. eMarking_flag (Nodes d1 m) \<noteq> UNUSED_FOR_REF" "\<forall>m \<in> set bs. keep d1 m"
      using Cons.prems(3,4) N1 nin by (auto simp: keep_def)
    from Cons.IH [OF i1 r1 this] obtain d2 ps2 ls2 ds2 fs where
      d2: "walk_saved nextPOC dpb_overfull display_and_remove (first bs uEndOfList) d1 = Some d2"
      "dpb_inv d2 ps2 ls2 ds2" "room d2 ps2" "refs_counted d1 (as @ bs) \<longrightarrow> refs_counted d2 ps2"
      "\<forall>m \<in> set ps2. keep d2 m" "set ps2 \<subseteq> set (as @ bs)"
      and k2: "\<forall>m \<in> set (as @ bs). eMarking_flag (Nodes d1 m) \<noteq> UNUSED_FOR_REF \<longrightarrow> m \<in> set ps2"
      and e2: "dpb_overfull d2 \<longrightarrow> (\<forall>m \<in> set ps2. eMarking_flag (Nodes d2 m) \<noteq> UNUSED_FOR_REF)"
      "disp_list (DispFifo d2) = disp_list (DispFifo d1) @ fs" "frames_of d1 (as @ bs) = fs @ frames_of d2 ps2"
      "calls d2 = calls d1 @ show_calls fs" "uNumRef d2 = uNumRef d1" "uCurRef d2 = uCurRef d1"
      and exact: "ps2 = as @ drop_first (excess d1 (as @ bs)) (unused d1) bs"
      "fs = (if upto_nth (excess d1 (as @ bs)) (unused d1) bs = [] then []
             else frames_of d1 (as @ upto_nth (excess d1 (as @ bs)) (unused d1) bs))" by blast
    have hid: "frames_of d1 as = []" using N1 nin by (intro frames_hidden) auto
    have "m \<in> set ps2" if "m \<in> set ?ps" "eMarking_flag (Nodes d m) \<noteq> UNUSED_FOR_REF" for m
    proof -
      from that expel have "m \<noteq> n" "m \<in> set (as @ bs)" by auto
      with that k2 N1 show ?thesis by auto
    qed
    then have x1: "\<forall>m \<in> set ?ps. eMarking_flag (Nodes d m) \<noteq> UNUSED_FOR_REF \<longrightarrow> m \<in> set ps2"
      by blast
    have x2: "frames_of d ?ps = (frames_of d (as @ [n]) @ fs) @ frames_of d2 ps2"
      using e2(3) hid f1(5) by simp
    have x3: "calls d2 = calls d @ show_calls (frames_of d (as @ [n]) @ fs)"
      using e2(4) f1(2) by (simp add: show_calls_def)
    have x4: "disp_list (DispFifo d2) = disp_list (DispFifo d) @ (frames_of d (as @ [n]) @ fs)"
      using e2(2) f1(1) by simp
    have x5: "refs_counted d ?ps \<longrightarrow> refs_counted d2 ps2" using c1 d2(4) by blast
    have x6: "set ps2 \<subseteq> set ?ps" using d2(6) by auto
    have x7: "uNumRef d2 = uNumRef d" "uCurRef d2 = uCurRef d" using e2(5,6) f1(3,4) by simp_all
    have x8: "walk_saved nextPOC dpb_overfull display_and_remove (first (n # bs) uEndOfList) d = Some d2"
      unfolding w by (rule d2(1))
    have kn: "excess d ?ps \<noteq> 0" "unused d n" using expel over by (simp_all add: unused_def)
    have k1: "excess d1 (as @ bs) = excess d ?ps - 1"
      using u1 expel(2) f1(4) by (simp add: excess_def AL_Dpb_GetRefCount_def AL_Dpb_GetNumRef_def)
    have un: "unused d1 m = unused d m" if "m \<in> set bs" for m using N1 nin(1) [of m] that by (simp add: unused_def)
    note cg = upto_nth_cong [of bs "unused d1" "unused d", OF un]
    have x9: "ps2 = as @ drop_first (excess d ?ps) (unused d) (n # bs)"
      using exact(1) kn k1 cg by simp
    have "frames_of d1 (upto_nth (excess d ?ps - 1) (unused d) bs) = frames_of d (upto_nth (excess d ?ps - 1) (unused d) bs)"
    proof (rule frames_same)
      fix m assume "m \<in> set (upto_nth (excess d ?ps - 1) (unused d) bs)"
      then have "m \<in> set bs" by (rule subsetD [OF upto_nth_subset])
      then show "visible d1 m = visible d m \<and> uFrmID (Nodes d1 m) = uFrmID (Nodes d m)"
        using N1 nin by (auto simp: visible_def)
    qed
    then have "fs = frames_of d (upto_nth (excess d ?ps - 1) (unused d) bs)"
      using exact(2) k1 cg hid by auto
    then have x10: "frames_of d (as @ [n]) @ fs = (if upto_nth (excess d ?ps) (unused d) (n # bs) = [] then []
        else frames_of d (as @ upto_nth (excess d ?ps) (unused d) (n # bs)))"
      using kn by simp
    show ?thesis
      by (intro exI [of _ d2] exI [of _ ps2] exI [of _ ls2] exI [of _ ds2]
          exI [of _ "frames_of d (as @ [n]) @ fs"] conjI)
        (fact x8 d2(2) d2(3) x5 d2(5) x6 x1 e2(1) x4 x2 x3 x7 x9 x10)+
  qed
qed

lemma AVC_Cleanup_inv:
  assumes i: "dpb_inv d ps ls ds" and r: "room d ps"
  shows "\<exists>d' ps' ls' ds' fs. AL_Dpb_AVC_Cleanup d = Some d'
     \<and> dpb_inv d' ps' ls' ds' \<and> room d' ps' \<and> (refs_counted d ps \<longrightarrow> refs_counted d' ps')
     \<and> (\<forall>m \<in> set ps'. keep d' m) \<and> set ps' \<subseteq> set ps
     \<and> (\<forall>m \<in> set ps. eMarking_flag (Nodes d m) \<noteq> UNUSED_FOR_REF \<longrightarrow> m \<in> set ps')
     \<and> (dpb_overfull d' \<longrightarrow> (\<forall>m \<in> set ps'. eMarking_flag (Nodes d' m) \<noteq> UNUSED_FOR_REF))
     \<and> disp_list (DispFifo d') = disp_list (DispFifo d) @ fs \<and> frames_of d ps = fs @ frames_of d' ps'
     \<and> calls d' = calls d @ show_calls fs
     \<and> ps' = drop_first (excess d (filter (keep d) ps)) (unused d) (filter (keep d) ps)
     \<and> fs = frames_of d (upto_nth (excess d (filter (keep d) ps)) (unused d) (filter (keep d) ps))"
proof -
  have head: "uHeadPOC e = first xs uEndOfList" if "dpb_inv e xs us vs" for e xs us vs
    using that links_distinct(8) by (auto simp: dpb_inv_def dpb_base_def)
  let ?qs = "filter (keep d) ps"
  from avc_first_loop [of d "[]" ps ls ds] i r obtain d1 ls1 ds1 where
    w1: "walk_saved nextPOC (\<lambda>_. True) remove_useless (uHeadPOC d) d = Some d1"
    and i1: "dpb_inv d1 ?qs ls1 ds1" and r1: "room d1 ?qs" and c1: "refs_counted d ps \<longrightarrow> refs_counted d1 ?qs"
    and N1: "\<forall>m \<in> set ?qs. info (Nodes d1 m) = info (Nodes d m)"
    and f1: "DispFifo d1 = DispFifo d" "calls d1 = calls d"
    and g1: "uNumRef d1 = uNumRef d" "uCountRef d1 = uCountRef d"
    unfolding head [OF i] by auto
  have e1: "eMarking_flag (Nodes d1 m) = eMarking_flag (Nodes d m)
      \<and> pic_output_flag (Nodes d1 m) = pic_output_flag (Nodes d m)" if "m \<in> set ?qs" for m
    using info_eqD(6,7) [OF N1 [rule_format, OF that]] by blast
  have k1: "\<forall>m \<in> set ?qs. keep d1 m" using e1 by (auto simp: keep_def)
  have "\<forall>m \<in> set []. eMarking_flag (Nodes d1 m) \<noteq> UNUSED_FOR_REF" by simp
  from avc_second_loop [of d1 "[]" ?qs ls1 ds1, unfolded append_Nil, OF i1 r1 this k1, folded head [OF i1]] obtain d2 ps2 ls2 ds2 fs where
    w2: "walk_saved nextPOC dpb_overfull display_and_remove (uHeadPOC d1) d1 = Some d2"
    and i2: "dpb_inv d2 ps2 ls2 ds2" and r2: "room d2 ps2" and c2: "refs_counted d1 ?qs \<longrightarrow> refs_counted d2 ps2"
    and k2: "\<forall>m \<in> set ps2. keep d2 m" "set ps2 \<subseteq> set ?qs"
    and m2: "\<forall>m \<in> set ?qs. eMarking_flag (Nodes d1 m) \<noteq> UNUSED_FOR_REF \<longrightarrow> m \<in> set ps2"
    and o2: "dpb_overfull d2 \<longrightarrow> (\<forall>m \<in> set ps2. eMarking_flag (Nodes d2 m) \<noteq> UNUSED_FOR_REF)"
    and f2: "disp_list (DispFifo d2) = disp_list (DispFifo d1) @ fs" "frames_of d1 ?qs = fs @ frames_of d2 ps2"
      "calls d2 = calls d1 @ show_calls fs" "uNumRef d2 = uNumRef d1" "uCurRef d2 = uCurRef d1"
    and x2: "ps2 = drop_first (excess d1 ?qs) (unused d1) ?qs"
      "fs = (if upto_nth (excess d1 ?qs) (unused d1) ?qs = [] then [] else frames_of d1 (upto_nth (excess d1 ?qs) (unused d1) ?qs))"
    by (elim exE conjE) (rule that)
  have ex: "excess d1 ?qs = excess d ?qs" using g1 by (simp add: excess_def AL_Dpb_GetRefCount_def AL_Dpb_GetNumRef_def)
  have "unused d1 m = unused d m" if "m \<in> set ?qs" for m using e1 [OF that] by (simp add: unused_def)
  note cg = upto_nth_cong [of ?qs "unused d1" "unused d", OF this]
  have ps2: "ps2 = drop_first (excess d ?qs) (unused d) ?qs" using x2(1) ex cg by simp
  have "frames_of d1 (upto_nth (excess d ?qs) (unused d) ?qs) = frames_of d (upto_nth (excess d ?qs) (unused d) ?qs)"
    by (rule frames_cong, rule N1 [rule_format], erule subsetD [OF upto_nth_subset])
  then have fs: "fs = frames_of d (upto_nth (excess d ?qs) (unused d) ?qs)" using x2(2) ex cg by auto
  have b2: "dpb_base d2 ps2 ls2 ds2" "ids_ok d2 ps2" using i2 by (simp_all add: dpb_inv_def)
  from fill_if_waiting_ids [OF b2(2) base_D(7) [OF b2(1)]] base_D(8) [OF b2(1)] obtain d3 where
    w3: "fill_if_waiting d2 = Some d3" "ids_ok d3 ps2" "picless d3 = picless d2" by auto
  note p = picless_base [OF w3(3)] and q = picless_eqD [OF w3(3)]
  note N3 = info_eqD [OF picless_node [OF w3(3)]]
  have fr3: "frames_of d3 ps2 = frames_of d2 ps2" by (rule frames_cong) (rule picless_node [OF w3(3)])
  have "frames_of d1 ?qs = frames_of d ?qs" by (rule frames_cong) (use N1 in auto)
  moreover have "frames_of d ?qs = frames_of d ps"
    unfolding frames_of_def by (auto intro!: arg_cong [where f = "map _"] filter_cong simp: visible_def keep_def)
  moreover have "\<forall>m \<in> set ps. eMarking_flag (Nodes d m) \<noteq> UNUSED_FOR_REF \<longrightarrow> m \<in> set ps2"
    using m2 e1 by (auto simp: keep_def)
  moreover have "dpb_overfull d3 = dpb_overfull d2"
    using q by (simp add: dpb_overfull_def AL_Dpb_GetRefCount_def AL_Dpb_GetNumRef_def AL_Dpb_GetPicCount_def)
  moreover have "room d3 ps2" using r2 p(4) q fr3 by (simp add: room_def)
  moreover have "AL_Dpb_AVC_Cleanup d = Some d3" using w1 w2 w3(1) by (simp add: AL_Dpb_AVC_Cleanup_def)
  moreover have "dpb_inv d3 ps2 ls2 ds2" using b2(1) p(1) w3(2) by (simp add: dpb_inv_def)
  moreover have "refs_counted d ps \<longrightarrow> refs_counted d3 ps2" using c1 c2 p(2) by simp
  moreover have "\<forall>m \<in> set ps2. keep d3 m" using k2(1) N3(6,7) by (simp add: keep_def)
  moreover have "set ps2 \<subseteq> set ps" using k2(2) by auto
  moreover have "disp_list (DispFifo d3) = disp_list (DispFifo d) @ fs" using f1 f2 q(1) by simp
  moreover have "calls d3 = calls d @ show_calls fs" using f1 f2 q(14) by simp
  moreover have "dpb_overfull d3 \<longrightarrow> (\<forall>m \<in> set ps2. eMarking_flag (Nodes d3 m) \<noteq> UNUSED_FOR_REF)"
    using o2 calculation(4) N3(6) by simp
  moreover have "frames_of d ps = fs @ frames_of d3 ps2" using calculation(1,2) f2(2) fr3 by simp
  moreover note ps2 fs
  ultimately show ?thesis by blast
qed

text \<open>After a clean-up a node that looks free is free.\<close>

lemma free_node_loop_some:
  assumes "free_node_loop d u = Some n"
  shows "u < 34 \<longrightarrow> n < 34 \<and> eMarking_flag (Nodes d n) = UNUSED_FOR_REF \<and> \<not> pic_output_flag (Nodes d n)"
proof (rule free_node_loop.raw_induct [OF _ assms])
  fix loop d u n
  assume IH: "\<And>d u n. loop d u = Some n \<Longrightarrow>
      u < 34 \<longrightarrow> n < 34 \<and> eMarking_flag (Nodes d n) = UNUSED_FOR_REF \<and> \<not> pic_output_flag (Nodes d n)"
    and e: "do { nd \<leftarrow> node d u;
                 if eMarking_flag nd \<noteq> UNUSED_FOR_REF \<or> pic_output_flag nd
                 then loop d ((u + 1) mod MAX_DPB_SIZE) else Some u } = Some n"
  have "(u + 1) mod MAX_DPB_SIZE < 34" by (simp add: dpb_sizes)
  with e IH show "u < 34 \<longrightarrow> n < 34 \<and> eMarking_flag (Nodes d n) = UNUSED_FOR_REF \<and> \<not> pic_output_flag (Nodes d n)"
    by (auto split: bind_split_asm if_splits)
qed

end
