(* ===== verification/DpbMarkProofs.thy ===== *)
theory DpbMarkProofs imports DpbMark DpbClean begin

text \<open>
  Marking and reference lists on the lists of the invariant: the traversals as folds and filters, the
  sliding window, and what \<open>AL_Dpb_sSwitchLongTermPlace\<close> does to the head of the decoding order list.
\<close>

section \<open>Traversals\<close>

lemma inv_dec:
  assumes "dpb_links d ps ls ds"
  shows "uHeadDecOrder d = first ds uEndOfList" "uEndOfList \<notin> set ds" "\<And>n. n \<in> set ds \<Longrightarrow> n < 34"
    "\<And>ys x zs. ds = ys @ x # zs \<Longrightarrow> nextDec x d = Some (first zs uEndOfList)"
proof -
  note D = links_distinct [OF assms]
  show "uHeadDecOrder d = first ds uEndOfList" using D(9) .
  show "uEndOfList \<notin> set ds" "\<And>n. n \<in> set ds \<Longrightarrow> n < 34" using D(3,6,7) by auto
  fix ys x zs assume "ds = ys @ x # zs"
  then show "nextDec x d = Some (first zs uEndOfList)"
    using assms D(3,6) next_dec_dll [of "uHeadDecOrder d" d _ ys x zs] by (auto simp: dpb_links_def simp del: proj_apply)
qed

lemma inv_poc:
  assumes "dpb_links d ps ls ds"
  shows "uHeadPOC d = first ps uEndOfList" "uEndOfList \<notin> set ps" "\<And>n. n \<in> set ps \<Longrightarrow> n < 34"
    "\<And>ys x zs. ps = ys @ x # zs \<Longrightarrow> nextPOC x d = Some (first zs uEndOfList)"
proof -
  note D = links_distinct [OF assms]
  show "uHeadPOC d = first ps uEndOfList" using D(8) .
  show "uEndOfList \<notin> set ps" "\<And>n. n \<in> set ps \<Longrightarrow> n < 34" using D(3,6,7) by auto
  fix ys x zs assume "ps = ys @ x # zs"
  then show "nextPOC x d = Some (first zs uEndOfList)"
    using assms D(3,6) next_dll [of "uHeadPOC d" d _ ys x zs] by (auto simp: dpb_links_def simp del: proj_apply)
qed

text \<open>A read-only traversal: the list seen through a condition.\<close>

lemma collect_eq:
  assumes "\<And>ys x zs. xs = ys @ x # zs \<Longrightarrow> next x d = Some (first zs uEndOfList)"
    and "uEndOfList \<notin> set xs" "\<And>n. n \<in> set xs \<Longrightarrow> n < 34"
    and "length (filter (\<lambda>n. P (Nodes d n)) xs) \<le> 16"
  shows "collect next P (first xs uEndOfList) d
    = Some (map (\<lambda>n. uNodeID (Nodes d n)) (filter (\<lambda>n. P (Nodes d n)) xs))"
proof -
  let ?body = "\<lambda>u ids. do { nd \<leftarrow> node d u;
     if P nd then (if length ids < 16 then Some (False, ids @ [uNodeID nd]) else None) else Some (False, ids) }"
  let ?f = "\<lambda>xs. map (\<lambda>n. uNodeID (Nodes d n)) (filter (\<lambda>n. P (Nodes d n)) xs)"
  let ?I = "\<lambda>ys ids. \<exists>as. xs = as @ ys \<and> ids = ?f as"
  have "\<exists>t. walk (\<lambda>u _. next u d) ?body (first xs uEndOfList) [] = Some (uEndOfList, t) \<and> ?I [] t"
  proof (rule walk_list [where I = ?I])
    fix x ys s assume "?I (x # ys) s"
    then obtain as where as: "xs = as @ x # ys" "s = ?f as" by auto
    have "length (?f (as @ [x])) \<le> length (?f xs)" by (simp add: as(1))
    then have room: "P (Nodes d x) \<Longrightarrow> length s < 16" using assms(4) as(2) by simp
    have "xs = (as @ [x]) @ ys" by (simp add: as(1))
    then show "\<exists>t. ?body x s = Some (False, t) \<and> next x d = Some (first ys uEndOfList) \<and> ?I ys t"
      using assms(1) [OF as(1)] assms(3) [of x] as room by (auto intro!: exI [of _ "as @ [x]"])
  qed (use assms(2) in auto)
  then show ?thesis by (auto simp: collect_def)
qed

lemma set_node_fun: "n < 34 \<Longrightarrow> set_node n f = (\<lambda>d. Some (upd n f d))"
  by auto

section \<open>Picture identifiers given back by the marking\<close>

lemma refs_counted_drop:
  assumes "refs_counted d ps" "distinct ps" "n \<in> set ps" "eMarking_flag (Nodes d n) \<noteq> UNUSED_FOR_REF"
    and "\<And>m. m \<noteq> n \<Longrightarrow> eMarking_flag (Nodes e m) = eMarking_flag (Nodes d m)"
    and "eMarking_flag (Nodes e n) = UNUSED_FOR_REF" "uCountRef e = uCountRef d - 1"
  shows "refs_counted e ps"
proof -
  from split_list [OF assms(3)] obtain ys zs where ps: "ps = ys @ n # zs" by blast
  with assms(2) have "n \<notin> set ys" "n \<notin> set zs" by auto
  then have "refs e ys = refs d ys" "refs e zs = refs d zs"
    using assms(5) unfolding refs_def by (metis (mono_tags, lifting) filter_cong)+
  then have "length (refs d ps) = Suc (length (refs e ps))"
    using ps assms(4,6) by (simp add: refs_def)
  with assms(1,7) show ?thesis by (simp add: refs_counted_def)
qed

text \<open>What marking a picture as unused keeps of the nodes.\<close>

definition unmark :: "AL_TDpbNode \<Rightarrow> AL_TDpbNode" where
  "unmark nd = (info nd)\<lparr>eMarking_flag := UNUSED_FOR_REF\<rparr>"

definition marked_unused :: "nat \<Rightarrow> AL_TDpb \<Rightarrow> AL_TDpb" where
  "marked_unused n d =
     (let d1 = upd n (\<lambda>nd. nd\<lparr>eMarking_flag := UNUSED_FOR_REF\<rparr>) d in d1\<lparr>uCountRef := uCountRef d1 - 1\<rparr>)"

lemma marked_unused_simps [simp]:
  "Nodes (marked_unused n d) = (Nodes d)(n := (Nodes d n)\<lparr>eMarking_flag := UNUSED_FOR_REF\<rparr>)"
  "calls (marked_unused n d) = calls d" "DispFifo (marked_unused n d) = DispFifo d"
  "uCurRef (marked_unused n d) = uCurRef d" "uNumRef (marked_unused n d) = uNumRef d"
  "deferred (marked_unused n d) = deferred d" "deferred_ok (marked_unused n d) = deferred_ok d"
  "uCountRef (marked_unused n d) = uCountRef d - 1" "iNumDltPic (marked_unused n d) = iNumDltPic d"
  "dpb_links (marked_unused n d) ps ls ds = dpb_links d ps ls ds"
  by (simp_all add: marked_unused_def Let_def upd_def deferred_def deferred_ok_def dpb_links_def)

lemma marked_unused_inv:
  assumes i: "dpb_inv d ps ls ds" and n: "n \<in> set ps" "eMarking_flag (Nodes d n) \<noteq> UNUSED_FOR_REF"
  shows "dpb_inv (marked_unused n d) ps ls ds" "refs_counted d ps \<Longrightarrow> refs_counted (marked_unused n d) ps"
    "m \<noteq> n \<Longrightarrow> info (Nodes (marked_unused n d) m) = info (Nodes d m)"
    "unmark (Nodes (marked_unused n d) n) = unmark (Nodes d n)"
proof -
  let ?e = "marked_unused n d"
  from i have b: "dpb_base d ps ls ds" and ids: "ids_ok d ps" by (simp_all add: dpb_inv_def)
  note D = base_D [OF b]
  have pic: "(\<lambda>m. uPicID (Nodes ?e m)) = (\<lambda>m. uPicID (Nodes d m))" by (auto simp: fun_eq_iff)
  have "ids_ok ?e ps"
    using ids unfolding ids_ok_def waiting_ok_def pic by (auto simp: marked_unused_def Let_def)
  moreover have "nodes_ok ?e ps" using D(2) by (auto simp: nodes_ok_def)
  moreover have "outputs ?e ps = outputs d ps" by (auto simp: outputs_def intro!: filter_cong)
  moreover have "iFramePOC (Nodes ?e m) = iFramePOC (Nodes d m)"
    "slice_pic_order_cnt_lsb (Nodes ?e m) = slice_pic_order_cnt_lsb (Nodes d m)" for m by simp_all
  moreover have "uCountPic ?e = uCountPic d" "uNumOutputPic ?e = uNumOutputPic d"
    by (simp_all add: marked_unused_def Let_def)
  ultimately show "dpb_inv ?e ps ls ds" using D(1,3-6) by (simp add: dpb_inv_def dpb_base_def)
  show "refs_counted ?e ps" if "refs_counted d ps"
    by (rule refs_counted_drop [OF that D(7) n]) simp_all
  show "info (Nodes ?e m) = info (Nodes d m)" if "m \<noteq> n" using that by simp
  show "unmark (Nodes ?e n) = unmark (Nodes d n)" by (simp add: unmark_def info_def strip_def)
qed

lemma SetPicToUnused_eq:
  "n < 34 \<Longrightarrow> AL_Dpb_sSetPicToUnused n d = do {
     d3 \<leftarrow> AL_Dpb_sReleasePicID (uPicID (Nodes d n)) (marked_unused n d);
     Some (upd n (\<lambda>nd. nd\<lparr>uPicID := UndefID\<rparr>) d3) }"
  by (simp add: AL_Dpb_sSetPicToUnused_def marked_unused_def Let_def)

lemma SetPicToUnused_inv:
  assumes i: "dpb_inv d ps ls ds" and n: "n \<in> set ps" "eMarking_flag (Nodes d n) \<noteq> UNUSED_FOR_REF"
  shows "\<exists>d'. AL_Dpb_sSetPicToUnused n d = Some d' \<and> dpb_inv d' ps ls ds
    \<and> (refs_counted d ps \<longrightarrow> refs_counted d' ps)
    \<and> eMarking_flag (Nodes d' n) = UNUSED_FOR_REF \<and> uPicID (Nodes d' n) = UndefID
    \<and> (\<forall>m. m \<noteq> n \<longrightarrow> info (Nodes d' m) = info (Nodes d m)) \<and> unmark (Nodes d' n) = unmark (Nodes d n)
    \<and> calls d' = calls d \<and> DispFifo d' = DispFifo d \<and> uCurRef d' = uCurRef d \<and> uNumRef d' = uNumRef d
    \<and> deferred d' = deferred d \<and> deferred_ok d' = deferred_ok d"
proof -
  let ?e = "marked_unused n d"
  note M = marked_unused_inv [OF assms]
  from M(1) have b: "dpb_base ?e ps ls ds" and ids: "ids_ok ?e ps" by (simp_all add: dpb_inv_def)
  note D = base_D [OF b]
  have n34: "n < 34" using D(8) n(1) .
  from release_pic_ids [OF ids n(1) D(7) refl] obtain d3 where
    d3: "AL_Dpb_sReleasePicID (uPicID (Nodes ?e n)) ?e = Some d3" "picless d3 = picless ?e" "Nodes d3 = Nodes ?e"
      "uNodeWaiting d3 = uNodeWaiting ?e" "bPicWaiting d3 = bPicWaiting ?e"
    and pool: "pool_ok (FreePicIDs d3) (FreePicIdCnt d3) ((\<lambda>m. uPicID (Nodes ?e m))(n := UndefID)) (mset ps) (PicId2NodeId d3)"
    by blast
  define d4 where "d4 = upd n (\<lambda>nd. nd\<lparr>uPicID := UndefID\<rparr>) d3"
  have R: "AL_Dpb_sSetPicToUnused n d = Some d4"
    using d3(1) by (simp add: SetPicToUnused_eq [OF n34] d4_def)
  have p4: "picless d4 = picless ?e" using d3(2) by (simp add: d4_def)
  note q = picless_eqD [OF p4] and i4 = picless_node [OF p4]
  have u4: "(\<lambda>m. uPicID (Nodes d4 m)) = (\<lambda>m. uPicID (Nodes ?e m))(n := UndefID)"
    unfolding d4_def Nodes_upd d3(3) by (auto simp: fun_eq_iff)
  have "waiting_ok d4 ps"
    using ids d3(4,5) fun_cong [OF u4] unfolding ids_ok_def waiting_ok_def by (auto simp: d4_def)
  moreover have "FreePicIDs d4 = FreePicIDs d3" "FreePicIdCnt d4 = FreePicIdCnt d3" "PicId2NodeId d4 = PicId2NodeId d3"
    by (simp_all add: d4_def)
  ultimately have "ids_ok d4 ps" using pool u4 unfolding ids_ok_def by simp
  moreover have "dpb_base d4 ps ls ds" using b picless_base(1) [OF p4] by simp
  ultimately have "dpb_inv d4 ps ls ds" by (simp add: dpb_inv_def)
  moreover have "refs_counted d ps \<longrightarrow> refs_counted d4 ps"
    using M(2) picless_base(2) [OF p4] by simp
  moreover have "eMarking_flag (Nodes d4 n) = UNUSED_FOR_REF" "uPicID (Nodes d4 n) = UndefID"
    using info_eqD(6) [OF i4 [of n]] by (simp_all add: d4_def)
  moreover have "\<forall>m. m \<noteq> n \<longrightarrow> info (Nodes d4 m) = info (Nodes d m)" using i4 M(3) by simp
  moreover have "unmark (Nodes d4 n) = unmark (Nodes d n)" using i4 [of n] M(4) by (simp add: unmark_def)
  moreover have "deferred d4 = deferred d" "deferred_ok d4 = deferred_ok d"
    using picless_base(3,4) [OF p4] by simp_all
  moreover have "calls d4 = calls d" "DispFifo d4 = DispFifo d" "uCurRef d4 = uCurRef d" "uNumRef d4 = uNumRef d"
    using q by simp_all
  ultimately show ?thesis using R by blast
qed

section \<open>Sliding window\<close>

text \<open>The scan over the pictures in decoding order.\<close>

definition sw_step :: "AL_TDpb \<Rightarrow> nat \<Rightarrow> sw_scan \<Rightarrow> sw_scan" where
  "sw_step d u a = snd (the (sw_body d u a))"

lemma sw_scan_fold:
  assumes l: "dpb_links d ps ls ds"
  shows "walk (\<lambda>u _. nextDec u d) (sw_body d) (uHeadDecOrder d) a = Some (uEndOfList, fold (sw_step d) ds a)"
proof -
  have "sw_body d x s = Some (False, sw_step d x s) \<and> True" if "x \<in> set ds" for x s
    using inv_dec(3) [OF l that] by (simp add: sw_step_def sw_body_def Let_def)
  then show ?thesis
    unfolding inv_dec(1) [OF l] using inv_dec(2,4) [OF l]
    by (intro walk_fold [where P = "\<lambda>_. True", THEN conjunct1]) auto
qed

lemma sw_step_eq:
  "n < 34 \<Longrightarrow> sw_step d n a =
    (case eMarking_flag (Nodes d n) of
       SHORT_TERM_REF \<Rightarrow> (if iFrame_num_wrap (Nodes d n) < sw_min a
          then a\<lparr>sw_short := sw_short a + 1, sw_min := iFrame_num_wrap (Nodes d n), sw_pos := n\<rparr>
          else a\<lparr>sw_short := sw_short a + 1\<rparr>)
     | LONG_TERM_REF \<Rightarrow> a\<lparr>sw_long := sw_long a + 1\<rparr>
     | _ \<Rightarrow> a)"
  by (cases "eMarking_flag (Nodes d n)") (simp_all add: sw_step_def sw_body_def Let_def)

definition shorts :: "AL_TDpb \<Rightarrow> nat list \<Rightarrow> nat list" where
  "shorts d xs = filter (\<lambda>n. eMarking_flag (Nodes d n) = SHORT_TERM_REF) xs"

definition longs :: "AL_TDpb \<Rightarrow> nat list \<Rightarrow> nat list" where
  "longs d xs = filter (\<lambda>n. eMarking_flag (Nodes d n) = LONG_TERM_REF) xs"

text \<open>The scan starts from the smallest \<open>FrameNumWrap\<close> being \<open>INT32_MAX\<close>, so that a reference with this value,
  the one \<open>AL_Dpb_sResetNodeInfo\<close> sets, is never chosen.\<close>

lemma sw_fold:
  assumes "\<forall>n \<in> set ds. n < 34"
  shows "let a = fold (sw_step d) ds \<lparr>sw_pos = 0, sw_min = INT32_MAX, sw_short = 0, sw_long = 0\<rparr> in
     sw_short a = length (shorts d ds) \<and> sw_long a = length (longs d ds)
     \<and> (if \<exists>n \<in> set (shorts d ds). iFrame_num_wrap (Nodes d n) < INT32_MAX
        then sw_pos a \<in> set (shorts d ds) \<and> sw_min a = iFrame_num_wrap (Nodes d (sw_pos a)) \<and> iFrame_num_wrap (Nodes d (sw_pos a)) < INT32_MAX
          \<and> (\<forall>n \<in> set (shorts d ds). iFrame_num_wrap (Nodes d (sw_pos a)) \<le> iFrame_num_wrap (Nodes d n))
        else sw_min a = INT32_MAX)"
  using assms
proof (induction ds rule: rev_induct)
  case Nil
  then show ?case by (simp add: shorts_def longs_def)
next
  case (snoc n ds)
  let ?a = "fold (sw_step d) ds \<lparr>sw_pos = 0, sw_min = INT32_MAX, sw_short = 0, sw_long = 0\<rparr>"
  have n: "n < 34" using snoc.prems by auto
  have IH: "sw_short ?a = length (shorts d ds)" "sw_long ?a = length (longs d ds)"
    "if \<exists>n \<in> set (shorts d ds). iFrame_num_wrap (Nodes d n) < INT32_MAX
     then sw_pos ?a \<in> set (shorts d ds) \<and> sw_min ?a = iFrame_num_wrap (Nodes d (sw_pos ?a)) \<and> iFrame_num_wrap (Nodes d (sw_pos ?a)) < INT32_MAX
       \<and> (\<forall>n \<in> set (shorts d ds). iFrame_num_wrap (Nodes d (sw_pos ?a)) \<le> iFrame_num_wrap (Nodes d n))
     else sw_min ?a = INT32_MAX"
  proof -
    have "\<forall>n \<in> set ds. n < 34" using snoc.prems by simp
    from snoc.IH [OF this, unfolded Let_def] show "sw_short ?a = length (shorts d ds)" "sw_long ?a = length (longs d ds)"
      "if \<exists>n \<in> set (shorts d ds). iFrame_num_wrap (Nodes d n) < INT32_MAX
       then sw_pos ?a \<in> set (shorts d ds) \<and> sw_min ?a = iFrame_num_wrap (Nodes d (sw_pos ?a)) \<and> iFrame_num_wrap (Nodes d (sw_pos ?a)) < INT32_MAX
         \<and> (\<forall>n \<in> set (shorts d ds). iFrame_num_wrap (Nodes d (sw_pos ?a)) \<le> iFrame_num_wrap (Nodes d n))
       else sw_min ?a = INT32_MAX" by blast+
  qed
  show ?case
  proof (cases "eMarking_flag (Nodes d n) = SHORT_TERM_REF")
    case True
    then have s: "shorts d (ds @ [n]) = shorts d ds @ [n]" "longs d (ds @ [n]) = longs d ds"
      by (simp_all add: shorts_def longs_def)
    show ?thesis
    proof (cases "\<exists>n \<in> set (shorts d ds). iFrame_num_wrap (Nodes d n) < INT32_MAX")
      case low: True
      with IH(3) have "sw_pos ?a \<in> set (shorts d ds)" "sw_min ?a = iFrame_num_wrap (Nodes d (sw_pos ?a))"
        "iFrame_num_wrap (Nodes d (sw_pos ?a)) < INT32_MAX"
        "\<forall>n \<in> set (shorts d ds). iFrame_num_wrap (Nodes d (sw_pos ?a)) \<le> iFrame_num_wrap (Nodes d n)" by simp_all
      with low IH(1,2) n True show ?thesis unfolding s by (auto simp: sw_step_eq Let_def)
    next
      case high: False
      with IH(3) have "sw_min ?a = INT32_MAX" by simp
      with high IH(1,2) n True show ?thesis unfolding s by (auto simp: sw_step_eq Let_def not_less)
    qed
  next
    case False
    then have s: "shorts d (ds @ [n]) = shorts d ds" by (simp add: shorts_def)
    show ?thesis
      using IH n False unfolding s
      by (cases "eMarking_flag (Nodes d n)") (auto simp: sw_step_eq Let_def longs_def)
  qed
qed

definition over_limit :: "AL_TAvcSliceHdr \<Rightarrow> AL_TDpb \<Rightarrow> nat list \<Rightarrow> bool" where
  "over_limit sl d ds \<longleftrightarrow>
     length (shorts d ds) + length (longs d ds) > min (unat (uNumRef d)) (unat (max_num_ref_frames sl))"

lemma SlidingWindow_eq:
  assumes i: "dpb_inv d ps ls ds" and w: "\<exists>n \<in> set (shorts d ds). iFrame_num_wrap (Nodes d n) < INT32_MAX"
  shows "\<exists>v \<in> set (shorts d ds).
    (\<forall>n \<in> set (shorts d ds). iFrame_num_wrap (Nodes d v) \<le> iFrame_num_wrap (Nodes d n))
    \<and> AL_Dpb_sSlidingWindowMarking sl d =
        (if \<not> over_limit sl d ds then Some d
         else if non_existing (Nodes d v) then map_option snd (AL_Dpb_Remove v (marked_unused v d))
         else AL_Dpb_sSetPicToUnused v d)"
proof -
  have l: "dpb_links d ps ls ds" using i by (simp add: dpb_inv_def dpb_base_def)
  let ?a = "fold (sw_step d) ds \<lparr>sw_pos = 0, sw_min = INT32_MAX, sw_short = 0, sw_long = 0\<rparr>"
  have "\<forall>n \<in> set ds. n < 34" using inv_dec(3) [OF l] by blast
  from sw_fold [OF this, of d] w have a: "sw_short ?a = length (shorts d ds)" "sw_long ?a = length (longs d ds)"
    "sw_pos ?a \<in> set (shorts d ds)"
    "\<forall>n \<in> set (shorts d ds). iFrame_num_wrap (Nodes d (sw_pos ?a)) \<le> iFrame_num_wrap (Nodes d n)"
    by (simp_all add: Let_def)
  have v: "sw_pos ?a < 34" using a(3) inv_dec(3) [OF l] by (auto simp: shorts_def)
  have "AL_Dpb_sSlidingWindowMarking sl d =
      (if \<not> over_limit sl d ds then Some d
       else if non_existing (Nodes d (sw_pos ?a)) then map_option snd (AL_Dpb_Remove (sw_pos ?a) (marked_unused (sw_pos ?a) d))
       else AL_Dpb_sSetPicToUnused (sw_pos ?a) d)"
    using v a(1,2) set_node_fun [OF v]
    by (simp add: AL_Dpb_sSlidingWindowMarking_def sw_scan_fold [OF l] over_limit_def SetPicToUnused_eq
        marked_unused_def Let_def)
  with a(3,4) show ?thesis by blast
qed

text \<open>The oldest short-term picture goes, and with it its picture identifier.\<close>

lemma SlidingWindow_inv:
  assumes i: "dpb_inv d ps ls ds" and w: "\<exists>n \<in> set (shorts d ds). iFrame_num_wrap (Nodes d n) < INT32_MAX"
    and o: "over_limit sl d ds"
    and hidden: "\<forall>n \<in> set ds. non_existing (Nodes d n) \<longrightarrow> \<not> pic_output_flag (Nodes d n)"
  shows "\<exists>v d'. v \<in> set (shorts d ds)
    \<and> (\<forall>n \<in> set (shorts d ds). iFrame_num_wrap (Nodes d v) \<le> iFrame_num_wrap (Nodes d n))
    \<and> AL_Dpb_sSlidingWindowMarking sl d = Some d'
    \<and> (\<forall>m. m \<noteq> v \<longrightarrow> info (Nodes d' m) = info (Nodes d m))
    \<and> (if non_existing (Nodes d v)
       then dpb_inv d' (remove1 v ps) (remove1 v ls) (remove1 v ds)
         \<and> (refs_counted d ps \<longrightarrow> refs_counted d' (remove1 v ps))
       else dpb_inv d' ps ls ds \<and> (refs_counted d ps \<longrightarrow> refs_counted d' ps)
         \<and> eMarking_flag (Nodes d' v) = UNUSED_FOR_REF \<and> uPicID (Nodes d' v) = UndefID)"
proof -
  from SlidingWindow_eq [OF i w, of sl] obtain v where v: "v \<in> set (shorts d ds)"
    "\<forall>n \<in> set (shorts d ds). iFrame_num_wrap (Nodes d v) \<le> iFrame_num_wrap (Nodes d n)"
    and e: "AL_Dpb_sSlidingWindowMarking sl d =
        (if non_existing (Nodes d v) then map_option snd (AL_Dpb_Remove v (marked_unused v d))
         else AL_Dpb_sSetPicToUnused v d)" using o by auto
  have l: "dpb_links d ps ls ds" using i by (simp add: dpb_inv_def dpb_base_def)
  have vp: "v \<in> set ps" "v \<in> set ds" "eMarking_flag (Nodes d v) \<noteq> UNUSED_FOR_REF"
    using v(1) links_distinct(3) [OF l] by (auto simp: shorts_def)
  note M = marked_unused_inv [OF i vp(1,3)]
  show ?thesis
  proof (cases "non_existing (Nodes d v)")
    case True
    then have "\<not> pic_output_flag (Nodes (marked_unused v d) v)" using hidden vp(2) by simp
    from Remove_inv [OF M(1) vp(1) this] obtain d' where
      "AL_Dpb_Remove v (marked_unused v d) = Some (uFrmID (Nodes (marked_unused v d) v), d')"
      "dpb_inv d' (remove1 v ps) (remove1 v ls) (remove1 v ds)"
      "refs_counted (marked_unused v d) ps \<longrightarrow> refs_counted d' (remove1 v ps)"
      "\<forall>m. m \<noteq> v \<longrightarrow> info (Nodes d' m) = info (Nodes (marked_unused v d) m)" by blast
    with e True M(2,3) v show ?thesis by (intro exI [of _ v] exI [of _ d']) simp
  next
    case False
    from SetPicToUnused_inv [OF i vp(1,3)] obtain d' where
      "AL_Dpb_sSetPicToUnused v d = Some d'" "dpb_inv d' ps ls ds" "refs_counted d ps \<longrightarrow> refs_counted d' ps"
      "eMarking_flag (Nodes d' v) = UNUSED_FOR_REF" "uPicID (Nodes d' v) = UndefID"
      "\<forall>m. m \<noteq> v \<longrightarrow> info (Nodes d' m) = info (Nodes d m)" by blast
    with e False v show ?thesis by (intro exI [of _ v] exI [of _ d']) simp
  qed
qed

section \<open>Reference list initialisation\<close>

lemma InitPSlice_eq:
  assumes i: "dpb_inv d ps ls ds"
    and n: "length (refs d ds) \<le> 16" "length (refs d ds) \<le> length old"
    and e: "\<forall>n \<in> set ds. eMarking_flag (Nodes d n) \<noteq> NON_EXISTING_REF"
  shows "AL_Dpb_InitPSlice_RefList d old = Some (overwrite (rev (shorts d ds) @ longs d ds) old)"
proof -
  have b: "dpb_base d ps ls ds" using i by (simp add: dpb_inv_def)
  note D = base_D [OF b] and l = inv_dec [OF base_D(1) [OF b]]
  have id: "map (\<lambda>n. uNodeID (Nodes d n)) xs = xs" if "set xs \<subseteq> set ps" for xs
    by (rule map_idI) (use D(2) that in \<open>auto simp: nodes_ok_def\<close>)
  have sets: "set (shorts d ds) \<subseteq> set ps" "set (longs d ds) \<subseteq> set ps"
    using links_distinct(3) [OF D(1)] by (auto simp: shorts_def longs_def)
  have len: "length (shorts d ds) + length (longs d ds) = length (refs d ds)"
    unfolding refs_def shorts_def longs_def using e
  proof (induction ds)
    case (Cons x xs)
    then show ?case by (cases "eMarking_flag (Nodes d x)") auto
  qed simp
  have long: "filter (\<lambda>n. eMarking_flag (Nodes d n) \<noteq> UNUSED_FOR_REF \<and> eMarking_flag (Nodes d n) \<noteq> SHORT_TERM_REF) ds
      = longs d ds"
    unfolding longs_def
  proof (rule filter_cong [OF refl])
    fix x assume "x \<in> set ds"
    with e show "(eMarking_flag (Nodes d x) \<noteq> UNUSED_FOR_REF \<and> eMarking_flag (Nodes d x) \<noteq> SHORT_TERM_REF)
        = (eMarking_flag (Nodes d x) = LONG_TERM_REF)"
      by (cases "eMarking_flag (Nodes d x)") auto
  qed
  have "collect nextDec (\<lambda>nd. eMarking_flag nd = SHORT_TERM_REF) (uHeadDecOrder d) d = Some (shorts d ds)"
    using collect_eq [of ds nextDec d "\<lambda>nd. eMarking_flag nd = SHORT_TERM_REF", OF l(4) l(2,3)] len n(1) id [OF sets(1)]
    by (simp add: l(1) shorts_def)
  moreover have "collect nextDec (\<lambda>nd. eMarking_flag nd \<noteq> UNUSED_FOR_REF \<and> eMarking_flag nd \<noteq> SHORT_TERM_REF)
      (uHeadDecOrder d) d = Some (longs d ds)"
    using collect_eq [of ds nextDec d "\<lambda>nd. eMarking_flag nd \<noteq> UNUSED_FOR_REF \<and> eMarking_flag nd \<noteq> SHORT_TERM_REF",
        OF l(4) l(2,3)] len n(1) id [OF sets(2)] by (simp add: l(1) long)
  ultimately show ?thesis using len n(2) by (simp add: AL_Dpb_InitPSlice_RefList_def)
qed

end
