(* ===== verification/DpbProps.thy ===== *)
theory DpbProps imports DpbMarkProofs begin

text \<open>
  The properties of the decoded picture buffer, stated over its operations.
\<close>

section \<open>A concrete buffer\<close>

text \<open>A node, an empty buffer and two insertions, for the concrete instances below.\<close>

definition blank_node :: AL_TDpbNode where
  "blank_node = reset_node \<lparr>uNodeID = 255, uFrmID = 255, uMvID = 255, uPicID = 255, uPrevPOC = 255, uNextPOC = 255,
     uPrevPocLsb = 255, uNextPocLsb = 255, uPrevDecOrder = 255, uNextDecOrder = 255, iFramePOC = 0,
     slice_pic_order_cnt_lsb = 0, eMarking_flag = UNUSED_FOR_REF, iFrame_num = 0, iSlice_frame_num = 0,
     iFrame_num_wrap = 0, iLong_term_frame_idx = 0, iLong_term_pic_num = 0, iPic_num = 0,
     pic_output_flag = False, bIsReset = True, bIsDisplayed = False, uPicLatency = 0, non_existing = False,
     eNUT = 0\<rparr>"

definition blank_dpb :: AL_TDpb where
  "blank_dpb = AL_Dpb_Init 4 AL_DPB_NORMAL
     \<lparr>Nodes = \<lambda>_. blank_node, DispFifo = \<lparr>pFrmIDs = \<lambda>_. 255, pPicLatency = \<lambda>_. 0,
        pFrmStatus = \<lambda>_. AL_NOT_NEEDED_FOR_OUTPUT, uFirstFrm = 0, uNumFrm = 0\<rparr>,
      PicId2NodeId = \<lambda>_. 255, PicId2FrmId = \<lambda>_. 255, PicId2MvId = \<lambda>_. 255, FreePicIDs = \<lambda>i. i, FreePicIdCnt = 0,
      bPicWaiting = False, uNodeWaiting = 255, uFrmWaiting = 255, uMvWaiting = 255,
      pDltFrmIDLst = \<lambda>_. 0, pDltMvIDLst = \<lambda>_. 0, iDltFrmLstHead = 0, iDltFrmLstTail = 0,
      iDltMvLstHead = 0, iDltMvLstTail = 0, iNumDltPic = 0, iLastDisplayedPOC = 0, uNumOutputPic = 0,
      bNewSeq = True, uNumRef = 4, uHeadPOC = 255, uHeadPocLsb = 255, uLastPOC = 255, uHeadDecOrder = 255,
      uCurRef = 0, uCountRef = 0, uCountPic = 0, MaxLongTermFrameIdx = 0, bLastHasMMCO5 = False,
      eMode = AL_DPB_NORMAL, calls = []\<rparr>"

lemma blank_inv: "dpb_inv blank_dpb [] [] []" "refs_counted blank_dpb []" "calls blank_dpb = []"
  "disp_ok (DispFifo blank_dpb)" "disp_list (DispFifo blank_dpb) = []" "uNumFrm (DispFifo blank_dpb) = 0"
  "deferred_ok blank_dpb" "deferred blank_dpb = []" "iNumDltPic blank_dpb = 0" "uNumRef blank_dpb = 4"
proof -
  show "dpb_inv blank_dpb [] [] []" unfolding blank_dpb_def by (rule Init_inv)
  show "deferred_ok blank_dpb" "deferred blank_dpb = []"
    unfolding blank_dpb_def by (rule Init_deferred)+
  show "refs_counted blank_dpb []" "calls blank_dpb = []"
    "disp_ok (DispFifo blank_dpb)" "disp_list (DispFifo blank_dpb) = []" "uNumFrm (DispFifo blank_dpb) = 0"
    "iNumDltPic blank_dpb = 0" "uNumRef blank_dpb = 4"
    by (simp_all add: blank_dpb_def AL_Dpb_Init_def AL_Dpb_sResetWaiting_def Let_def refs_counted_def refs_def
        disp_ok_def disp_list_def DispFifo_Init_def dpb_sizes)
qed

text \<open>A buffer that holds one displayed-later reference, then a second one with a smaller POC.\<close>

lemma one_picture:
  obtains d where "AL_Dpb_Insert 8 0 0 5 6 True SHORT_TERM_REF False 1 blank_dpb = Some d"
    "dpb_inv d [0] [0] [0]" "refs_counted d [0]" "iFramePOC (Nodes d 0) = 8" "uFrmID (Nodes d 0) = 5"
    "uMvID (Nodes d 0) = 6" "pic_output_flag (Nodes d 0)" "eMarking_flag (Nodes d 0) = SHORT_TERM_REF"
    "\<not> non_existing (Nodes d 0)" "deferred d = []" "deferred_ok d" "uNumRef d = 4"
proof -
  from Insert_inv [OF blank_inv(1), of 0 5 False 8 0 6 True SHORT_TERM_REF 1] obtain d where
    "AL_Dpb_Insert 8 0 0 5 6 True SHORT_TERM_REF False 1 blank_dpb = Some d"
    "dpb_inv d (place_poc blank_dpb 8 0 []) (place_lsb blank_dpb 0 0 []) ([] @ [0])"
    "refs_counted blank_dpb [] \<longrightarrow> refs_counted d (place_poc blank_dpb 8 0 [])"
    "iFramePOC (Nodes d 0) = 8" "uFrmID (Nodes d 0) = 5"
    "uMvID (Nodes d 0) = 6" "pic_output_flag (Nodes d 0)" "eMarking_flag (Nodes d 0) = SHORT_TERM_REF"
    "\<not> non_existing (Nodes d 0)" "deferred d = deferred blank_dpb" "deferred_ok d = deferred_ok blank_dpb"
    "uNumRef d = uNumRef blank_dpb" by auto
  with that [of d] blank_inv show thesis by (simp add: place_poc_def place_lsb_def place_def)
qed

section \<open>Insertion, removal and output\<close>

text \<open>C20: inserting a picture in a node that is not in use keeps the invariant of the buffer: the node enters
  the POC list and the POC lsb list behind the entries that are not larger, and the decoding order
  list at its end; the other nodes keep their content, the identifiers stay conserved (every one is
  free or held by one node) and the frame and motion-vector buffers are referenced once.\<close>

theorem dpb_insert:
  assumes "dpb_inv d ps ls ds" "n < 34" "n \<notin> set ps" "frm < 50 \<or> frm = uEndOfList \<and> ne"
  shows "\<exists>d'. AL_Dpb_Insert k l n frm mv out mark ne nut d = Some d'
    \<and> dpb_inv d' (place_poc d k n ps) (place_lsb d l n ls) (ds @ [n])
    \<and> (refs_counted d ps \<longrightarrow> refs_counted d' (place_poc d k n ps))
    \<and> (\<forall>m. m \<noteq> n \<longrightarrow> info (Nodes d' m) = info (Nodes d m))
    \<and> iFramePOC (Nodes d' n) = k \<and> uFrmID (Nodes d' n) = frm \<and> pic_output_flag (Nodes d' n) = out
    \<and> eMarking_flag (Nodes d' n) = mark
    \<and> calls d' = calls d @ (if frm \<noteq> uEndOfList then [IncrementFrmBuf frm] else [])
                       @ (if mv \<noteq> uEndOfList then [IncrementMvBuf mv] else [])"
  using Insert_inv [OF assms] by blast

theorem dpb_insert_witness:
  "\<exists>d'. AL_Dpb_Insert 8 0 0 5 6 True SHORT_TERM_REF False 1 blank_dpb = Some d' \<and> dpb_inv d' [0] [0] [0]
     \<and> calls d' = [IncrementFrmBuf 5, IncrementMvBuf 6]"
proof -
  have p: "place_poc blank_dpb 8 0 [] = [0]" "place_lsb blank_dpb 0 0 [] = [0]"
    by (simp_all add: place_poc_def place_lsb_def place_def)
  from dpb_insert [OF blank_inv(1), of 0 5 False 8 0 6 True SHORT_TERM_REF 1]
  show ?thesis by (auto simp: p blank_inv(3) uEndOfList_def)
qed

text \<open>C25: removing a picture that is not awaiting output unlinks it from the three lists, keeps the invariant
  and the content of the other nodes, gives its picture identifier back, reports its frame and, unless
  it was a non-existing frame, queues its two buffers for a deferred release (when the rings have room).\<close>

theorem dpb_remove:
  assumes "dpb_inv d ps ls ds" "n \<in> set ps" "\<not> pic_output_flag (Nodes d n)"
  shows "\<exists>d'. AL_Dpb_Remove n d = Some (uFrmID (Nodes d n), d')
    \<and> dpb_inv d' (remove1 n ps) (remove1 n ls) (remove1 n ds)
    \<and> (refs_counted d ps \<longrightarrow> refs_counted d' (remove1 n ps))
    \<and> (\<forall>m. m \<noteq> n \<longrightarrow> info (Nodes d' m) = info (Nodes d m))
    \<and> (deferred_ok d \<and> (non_existing (Nodes d n) \<or> iNumDltPic d < 34) \<longrightarrow> deferred_ok d'
       \<and> deferred d' = deferred d @ (if non_existing (Nodes d n) then []
                                     else [(uFrmID (Nodes d n), uMvID (Nodes d n))]))"
  using Remove_inv [OF assms] by blast

lemma one_shown:
  obtains d where "dpb_inv (shown 0 d) [0] [0] [0]" "\<not> pic_output_flag (Nodes (shown 0 d) 0)"
    "uFrmID (Nodes (shown 0 d) 0) = 5"
proof -
  from one_picture obtain d where d: "dpb_inv d [0] [0] [0]" "uFrmID (Nodes d 0) = 5" by metis
  have "showable d [0]" by (rule showable_inv [OF d(1)]) simp
  from show_all [of "[0]", OF _ this] have "\<not> pic_output_flag (Nodes (shown 0 d) 0)"
    "same_but_shown (shown 0 d) d" by simp_all
  moreover have "dpb_inv (shown 0 d) [0] [0] [0]" using show_all_inv(1) [OF d(1), of "[0]"] by simp
  moreover from \<open>same_but_shown (shown 0 d) d\<close> have "kept (Nodes (shown 0 d) 0) = kept (Nodes d 0)"
    by (simp add: same_but_shown_def)
  then have "uFrmID (Nodes (shown 0 d) 0) = 5" using d(2) kept_eqD by metis
  ultimately show thesis using that by blast
qed

theorem dpb_remove_witness:
  "\<exists>d d'. dpb_inv d [0] [0] [0] \<and> AL_Dpb_Remove 0 d = Some (5, d') \<and> dpb_inv d' [] [] []"
proof -
  obtain d where d: "dpb_inv (shown 0 d) [0] [0] [0]" "\<not> pic_output_flag (Nodes (shown 0 d) 0)"
    "uFrmID (Nodes (shown 0 d) 0) = 5" by (rule one_shown)
  from dpb_remove [OF d(1) _ d(2)] d(3) obtain d' where
    "AL_Dpb_Remove 0 (shown 0 d) = Some (5, d')" "dpb_inv d' [] [] []" by auto
  with d(1) show ?thesis by blast
qed

text \<open>C23: \<open>AL_Dpb_Display\<close> outputs, in increasing POC order, exactly the pictures up to the given node that are
  still flagged for output and exist: each is appended to the display queue, referenced and reported;
  their output flags are cleared, the later pictures are untouched and the invariant is kept.\<close>

theorem dpb_display:
  assumes "dpb_inv d (ys @ n # zs) ls ds"
  shows "\<exists>d'. AL_Dpb_Display n d = Some d' \<and> dpb_inv d' (ys @ n # zs) ls ds
    \<and> (\<forall>m. pic_output_flag (Nodes d' m) \<longleftrightarrow> pic_output_flag (Nodes d m) \<and> m \<notin> set (ys @ [n]))
    \<and> calls d' = calls d @ show_calls (frames_of d (ys @ [n]))
    \<and> (disp_ok (DispFifo d) \<and> uNumFrm (DispFifo d) + length (frames_of d (ys @ [n])) \<le> 50 \<longrightarrow>
        disp_list (DispFifo d') = disp_list (DispFifo d) @ frames_of d (ys @ [n]))"
proof -
  have D: "distinct (ys @ n # zs)" "dpb_links d (ys @ n # zs) ls ds"
    using assms base_D(1,7) unfolding dpb_inv_def by blast+
  have xs: "distinct (ys @ [n])" "set (ys @ [n]) \<subseteq> set (ys @ n # zs)" using D(1) by auto
  note sh = showable_inv [OF assms xs(2)]
  show ?thesis
    by (rule exI [of _ "fold shown (ys @ [n]) d"], intro conjI)
      (use Display_eq [OF D(2) sh] show_all [OF xs(1) sh] show_all_inv(1) [OF assms xs] in \<open>simp_all del: fold_append\<close>)
qed

theorem dpb_display_witness:
  "\<exists>d d'. dpb_inv d [0] [0] [0] \<and> frames_of d [0] = [5] \<and> AL_Dpb_Display 0 d = Some d'
     \<and> calls d' = calls d @ [IncrementFrmBuf 5, OutputFrmBuf 5] \<and> \<not> pic_output_flag (Nodes d' 0)"
proof -
  obtain d where d: "dpb_inv d ([] @ 0 # []) [0] [0]" "frames_of d [0] = [5]"
    by (rule one_picture) (auto simp: visible_def)
  from dpb_display [OF d(1)] obtain d' where e: "AL_Dpb_Display 0 d = Some d'"
    "calls d' = calls d @ show_calls (frames_of d ([] @ [0]))" "\<not> pic_output_flag (Nodes d' 0)" by fastforce
  moreover have "show_calls (frames_of d [0]) = [IncrementFrmBuf 5, OutputFrmBuf 5]" by (simp only: d(2) show_calls_Cons)
  ultimately have "calls d' = calls d @ [IncrementFrmBuf 5, OutputFrmBuf 5]" by (simp only: append_Nil)
  moreover have "dpb_inv d [0] [0] [0]" using d(1) by (simp only: append_Nil)
  ultimately show ?thesis using d(2) e(1,3) by blast
qed

text \<open>C24: \<open>AL_Dpb_Flush\<close> empties the buffer: all pictures awaiting output leave in increasing POC order, every
  node is unlinked, all picture identifiers are free again, and the buffers of all pictures are queued
  for release in that order, none lost (when the display queue and the release rings have room).\<close>

theorem dpb_flush:
  assumes "dpb_inv d ps ls ds" "room d ps"
  shows "\<exists>d'. AL_Dpb_Flush d = Some d' \<and> dpb_inv d' [] [] [] \<and> FreePicIdCnt d' = 16
     \<and> disp_list (DispFifo d') = disp_list (DispFifo d) @ frames_of d ps
     \<and> calls d' = calls d @ show_calls (frames_of d ps)
     \<and> deferred d' = deferred d @ releases d ps"
proof -
  from Flush_inv [OF assms] obtain d' where d': "AL_Dpb_Flush d = Some d'" "dpb_inv d' [] [] []"
    "disp_list (DispFifo d') = disp_list (DispFifo d) @ frames_of d ps"
    "calls d' = calls d @ show_calls (frames_of d ps)" "deferred d' = deferred d @ releases d ps" by blast
  from d'(2) have "freeset (FreePicIDs d') (FreePicIdCnt d') + held (\<lambda>n. uPicID (Nodes d' n)) {#} = mset [0..<16]"
    by (simp add: dpb_inv_def ids_ok_def pool_ok_def)
  from pool_size [OF this] have "FreePicIdCnt d' = 16" by (simp add: held_def)
  with d' show ?thesis by blast
qed

lemma one_room:
  obtains d where "dpb_inv d [0] [0] [0]" "room d [0]" "frames_of d [0] = [5]" "releases d [0] = [(5, 6)]"
    "refs_counted d [0]" "eMarking_flag (Nodes d 0) = SHORT_TERM_REF"
proof -
  from Insert_inv [OF blank_inv(1), of 0 5 False 8 0 6 True SHORT_TERM_REF 1] obtain d where
    d: "AL_Dpb_Insert 8 0 0 5 6 True SHORT_TERM_REF False 1 blank_dpb = Some d" by auto
  have f: "DispFifo d = (DispFifo blank_dpb)\<lparr>pFrmStatus := (pFrmStatus (DispFifo blank_dpb))(5 := AL_NOT_READY_FOR_OUTPUT)\<rparr>"
    "iNumDltPic d = 0"
    using d by (auto simp: AL_Dpb_Insert_def Let_def assign_pic_id_def set_node_def DispFifo_SetStatus_def dpb_sizes
        insert_first_def blank_dpb_def AL_Dpb_Init_def AL_Dpb_sResetWaiting_def upd_def call_back_def uEndOfList_def)
  then have "disp_ok (DispFifo d)" "uNumFrm (DispFifo d) = 0"
    using blank_inv(4,6) by (simp_all add: disp_ok_def disp_list_def)
  moreover from one_picture d have "dpb_inv d [0] [0] [0]" "refs_counted d [0]" "uFrmID (Nodes d 0) = 5"
    "uMvID (Nodes d 0) = 6" "pic_output_flag (Nodes d 0)" "eMarking_flag (Nodes d 0) = SHORT_TERM_REF"
    "\<not> non_existing (Nodes d 0)" "deferred_ok d" by (metis option.inject)+
  ultimately show thesis using f(2) that [of d] by (simp add: room_def visible_def)
qed

theorem dpb_flush_witness:
  "\<exists>d d'. dpb_inv d [0] [0] [0] \<and> AL_Dpb_Flush d = Some d' \<and> dpb_inv d' [] [] []
     \<and> disp_list (DispFifo d') = disp_list (DispFifo d) @ [5] \<and> deferred d' = deferred d @ [(5, 6)]"
proof -
  obtain d where d: "dpb_inv d [0] [0] [0]" "room d [0]" "frames_of d [0] = [5]" "releases d [0] = [(5, 6)]"
    by (rule one_room)
  from dpb_flush [OF d(1,2)] d show ?thesis by auto
qed

section \<open>Clean-up and free nodes\<close>

text \<open>C22: the clean-up after an AVC picture first removes every picture that is neither a reference nor awaiting
  output.  It then expels exactly as many of the remaining non-reference pictures, first in POC order, as
  stand over the size of the buffer (all of them when the references alone are over the size), and none
  when the buffer is within its size.  What is output is what awaits output up to the last expelled
  picture, in POC order: what left and what remains is the POC order of before.  References are never
  removed, the invariant is kept, and an overfull buffer holds references only.\<close>

theorem dpb_avc_cleanup:
  assumes "dpb_inv d ps ls ds" "room d ps"
  shows "\<exists>d' ps' ls' ds' fs. AL_Dpb_AVC_Cleanup d = Some d'
     \<and> dpb_inv d' ps' ls' ds' \<and> room d' ps' \<and> (refs_counted d ps \<longrightarrow> refs_counted d' ps')
     \<and> (\<forall>m \<in> set ps'. keep d' m) \<and> set ps' \<subseteq> set ps
     \<and> (\<forall>m \<in> set ps. eMarking_flag (Nodes d m) \<noteq> UNUSED_FOR_REF \<longrightarrow> m \<in> set ps')
     \<and> (dpb_overfull d' \<longrightarrow> (\<forall>m \<in> set ps'. eMarking_flag (Nodes d' m) \<noteq> UNUSED_FOR_REF))
     \<and> disp_list (DispFifo d') = disp_list (DispFifo d) @ fs \<and> frames_of d ps = fs @ frames_of d' ps'
     \<and> calls d' = calls d @ show_calls fs
     \<and> ps' = drop_first (excess d (filter (keep d) ps)) (unused d) (filter (keep d) ps)
     \<and> fs = frames_of d (upto_nth (excess d (filter (keep d) ps)) (unused d) (filter (keep d) ps))"
  using AVC_Cleanup_inv [OF assms] .

theorem dpb_avc_cleanup_witness:
  "\<exists>d d' ls' ds'. dpb_inv d [0] [0] [0] \<and> AL_Dpb_AVC_Cleanup d = Some d' \<and> dpb_inv d' [0] ls' ds'"
proof -
  obtain d where d: "dpb_inv d [0] [0] [0]" "room d [0]" "eMarking_flag (Nodes d 0) = SHORT_TERM_REF"
    by (rule one_room)
  from dpb_avc_cleanup [OF d(1,2)] obtain d' ps' ls' ds' where
    e: "AL_Dpb_AVC_Cleanup d = Some d'" "dpb_inv d' ps' ls' ds'" "set ps' \<subseteq> {0}"
    "\<forall>m \<in> {0 :: nat}. eMarking_flag (Nodes d m) \<noteq> UNUSED_FOR_REF \<longrightarrow> m \<in> set ps'" by auto
  have "distinct ps'" using e(2) base_D(7) unfolding dpb_inv_def by blast
  moreover have "set ps' = {0}" using e(3,4) d(3) by auto
  ultimately have "ps' = [0]" by (cases ps'; cases "tl ps'") auto
  with d(1) e show ?thesis by blast
qed

lemma free_node_loop_ends:
  assumes "n < 34" "eMarking_flag (Nodes d n) = UNUSED_FOR_REF" "\<not> pic_output_flag (Nodes d n)" "u \<le> n"
  shows "\<exists>k. free_node_loop d u = Some k"
  using assms(4)
proof (induction "n - u" arbitrary: u)
  case 0
  then have "u = n" by simp
  with assms(1-3) show ?case by (subst free_node_loop.simps) simp
next
  case (Suc i)
  then have "\<exists>k. free_node_loop d (u + 1) = Some k" "(u + 1) mod MAX_DPB_SIZE = u + 1" "u < 34"
    using assms(1) Suc.hyps(1) [of "u + 1"] by (auto simp: dpb_sizes)
  then show ?case by (subst free_node_loop.simps) simp
qed

text \<open>C28: the search for a free node ends exactly when a node is free, and then returns one that is in none of
  the lists; with all 34 nodes in use it does not end.  (The pictures left by a clean-up are references
  or awaiting output, which is what the search looks at.)\<close>

theorem dpb_free_node:
  assumes "dpb_inv d ps ls ds" "\<forall>m \<in> set ps. keep d m"
  shows "(AL_Dpb_GetNextFreeNode d = None \<longleftrightarrow> length ps = 34)
    \<and> (\<forall>n. AL_Dpb_GetNextFreeNode d = Some n \<longrightarrow> n < 34 \<and> n \<notin> set ps)"
proof -
  have D: "distinct ps" "\<forall>n \<in> set ps. n < 34" "nodes_ok d ps"
    using assms(1) base_D [of d ps ls ds] unfolding dpb_inv_def by blast+
  have sub: "set ps \<subseteq> {..<34}" using D(2) by auto
  have got: "AL_Dpb_GetNextFreeNode d = Some n \<Longrightarrow> n < 34 \<and> n \<notin> set ps" for n
    using free_node_loop_some [of d 0 n] assms(2) by (auto simp: AL_Dpb_GetNextFreeNode_def keep_def)
  have "AL_Dpb_GetNextFreeNode d = None \<longleftrightarrow> length ps = 34"
  proof
    assume none: "AL_Dpb_GetNextFreeNode d = None"
    have "m \<in> set ps" if "m < 34" for m
      using free_node_loop_ends [of m d 0] that D(3) none by (auto simp: nodes_ok_def AL_Dpb_GetNextFreeNode_def)
    with sub have "set ps = {..<34}" by auto
    then show "length ps = 34" using distinct_card [OF D(1)] by simp
  next
    assume "length ps = 34"
    then have "card (set ps) = card {..<34 :: nat}" using distinct_card [OF D(1)] by simp
    then have "set ps = {..<34}" using sub card_subset_eq [of "{..<34}" "set ps"] by simp
    with got show "AL_Dpb_GetNextFreeNode d = None" by (cases "AL_Dpb_GetNextFreeNode d") auto
  qed
  with got show ?thesis by blast
qed

theorem dpb_free_node_witness:
  "\<exists>d n. dpb_inv d [0] [0] [0] \<and> AL_Dpb_GetNextFreeNode d = Some n \<and> n \<noteq> 0"
proof -
  obtain d where d: "dpb_inv d [0] [0] [0]" "eMarking_flag (Nodes d 0) = SHORT_TERM_REF"
    by (rule one_picture)
  then have k: "\<forall>m \<in> set [0]. keep d m" by (simp add: keep_def)
  from dpb_free_node [OF d(1) k] obtain n where "AL_Dpb_GetNextFreeNode d = Some n" "n \<notin> {0}" by auto
  with d(1) show ?thesis by auto
qed

text \<open>C21: one picture of an AVC stream: clean-up, search for a node and insertion.  When the pictures that stay
  leave a node, the three steps succeed in a row, the invariant holds again, and the POC order of the
  pictures that left followed by that of the pictures that stay is the order of before.\<close>

theorem dpb_store_picture:
  assumes "dpb_inv d ps ls ds" "room d ps" "length ps < 34" "frm < 50"
  shows "\<exists>d1 n d' ps' ls' ds' fs. AL_Dpb_AVC_Cleanup d = Some d1 \<and> AL_Dpb_GetNextFreeNode d1 = Some n
     \<and> AL_Dpb_Insert k l n frm mv out mark False nut d1 = Some d'
     \<and> dpb_inv d' (place_poc d1 k n ps') ls' ds' \<and> last ds' = n
     \<and> (refs_counted d ps \<longrightarrow> refs_counted d' (place_poc d1 k n ps'))
     \<and> frames_of d ps = fs @ frames_of d1 ps' \<and> disp_list (DispFifo d1) = disp_list (DispFifo d) @ fs"
proof -
  from AVC_Cleanup_inv [OF assms(1,2)] obtain d1 ps' ls' ds' fs where
    c: "AL_Dpb_AVC_Cleanup d = Some d1" "dpb_inv d1 ps' ls' ds'" "refs_counted d ps \<longrightarrow> refs_counted d1 ps'"
      "\<forall>m \<in> set ps'. keep d1 m" "set ps' \<subseteq> set ps" "frames_of d ps = fs @ frames_of d1 ps'"
      "disp_list (DispFifo d1) = disp_list (DispFifo d) @ fs" by blast
  have "distinct ps" "distinct ps'"
    using assms(1) c(2) base_D(7) unfolding dpb_inv_def by blast+
  then have "length ps' \<le> length ps" using card_mono [OF finite_set c(5)] by (simp add: distinct_card)
  then have l: "length ps' \<noteq> 34" using assms(3) by simp
  from l free_node_loop_ends obtain n where n: "AL_Dpb_GetNextFreeNode d1 = Some n" "n < 34" "n \<notin> set ps'"
  proof -
    have "card (set ps') < card {..<34 :: nat}"
      using l \<open>distinct ps'\<close> \<open>length ps' \<le> length ps\<close> assms(3) by (simp add: distinct_card)
    then obtain m where m: "m < 34" "m \<notin> set ps'"
      using card_mono [OF finite_set, of "{..<34}" ps'] by (metis lessThan_iff linorder_not_less subsetI)
    moreover have "nodes_ok d1 ps'" using c(2) base_D(2) unfolding dpb_inv_def by blast
    ultimately obtain n where "AL_Dpb_GetNextFreeNode d1 = Some n"
      using free_node_loop_ends [of m d1 0] by (auto simp: nodes_ok_def AL_Dpb_GetNextFreeNode_def)
    then show thesis using that free_node_loop_some [of d1 0 n] c(4)
      by (auto simp: AL_Dpb_GetNextFreeNode_def keep_def)
  qed
  from Insert_inv [OF c(2) n(2,3), of frm False k l mv out mark nut] assms(4) obtain d' where
    "AL_Dpb_Insert k l n frm mv out mark False nut d1 = Some d'"
    "dpb_inv d' (place_poc d1 k n ps') (place_lsb d1 l n ls') (ds' @ [n])"
    "refs_counted d1 ps' \<longrightarrow> refs_counted d' (place_poc d1 k n ps')" by blast
  with c n(1) show ?thesis by (metis last_snoc)
qed

theorem dpb_store_picture_witness:
  "\<exists>d d1 n d'. AL_Dpb_AVC_Cleanup d = Some d1 \<and> AL_Dpb_GetNextFreeNode d1 = Some n
     \<and> AL_Dpb_Insert 4 0 n 7 8 True SHORT_TERM_REF False 1 d1 = Some d'"
proof -
  obtain d where d: "dpb_inv d [0] [0] [0]" "room d [0]" by (rule one_room)
  from dpb_store_picture [OF d, of 7 4 0 8 True SHORT_TERM_REF 1] show ?thesis by auto
qed

section \<open>Marking and reference lists\<close>

text \<open>C26: the sliding window.  When the buffer holds more references than the stream allows, some short-term one
  among them has a \<open>FrameNumWrap\<close> below \<open>INT32_MAX\<close> (the value of a node that was never given one), and no
  non-existing frame awaits output, exactly one picture stops being a reference: a short-term one with
  the smallest \<open>FrameNumWrap\<close>.  Its picture identifier is given back (a non-existing frame is removed
  from the buffer), no other picture changes and the count of references stays right.\<close>

theorem dpb_sliding_window:
  assumes "dpb_inv d ps ls ds" "\<exists>n \<in> set (shorts d ds). iFrame_num_wrap (Nodes d n) < INT32_MAX"
    and "over_limit sl d ds"
    and "\<forall>n \<in> set ds. non_existing (Nodes d n) \<longrightarrow> \<not> pic_output_flag (Nodes d n)"
  shows "\<exists>v d'. v \<in> set (shorts d ds)
    \<and> (\<forall>n \<in> set (shorts d ds). iFrame_num_wrap (Nodes d v) \<le> iFrame_num_wrap (Nodes d n))
    \<and> AL_Dpb_sSlidingWindowMarking sl d = Some d'
    \<and> (\<forall>m. m \<noteq> v \<longrightarrow> info (Nodes d' m) = info (Nodes d m))
    \<and> (if non_existing (Nodes d v)
       then dpb_inv d' (remove1 v ps) (remove1 v ls) (remove1 v ds)
         \<and> (refs_counted d ps \<longrightarrow> refs_counted d' (remove1 v ps))
       else dpb_inv d' ps ls ds \<and> (refs_counted d ps \<longrightarrow> refs_counted d' ps)
         \<and> eMarking_flag (Nodes d' v) = UNUSED_FOR_REF \<and> uPicID (Nodes d' v) = UndefID)"
  using SlidingWindow_inv [OF assms] .

definition some_slice :: AL_TAvcSliceHdr where
  "some_slice = \<lparr>frame_num = 0, nal_ref_idc = 1, nal_unit_type = 1, memory_management_control_operation = [],
     difference_of_pic_nums_minus1 = [], long_term_pic_num = [], long_term_frame_idx = [],
     max_long_term_frame_idx_plus1 = [], long_term_reference_flag = False,
     adaptive_ref_pic_marking_mode_flag = False, max_num_ref_frames = 0, log2_max_frame_num_minus4 = 0\<rparr>"

lemma one_numbered:
  obtains d where "dpb_inv d [0] [0] [0]" "eMarking_flag (Nodes d 0) = SHORT_TERM_REF"
    "iFrame_num_wrap (Nodes d 0) = 3" "\<not> non_existing (Nodes d 0)"
proof -
  obtain d where d: "dpb_inv d [0] [0] [0]" "eMarking_flag (Nodes d 0) = SHORT_TERM_REF" "\<not> non_existing (Nodes d 0)"
    by (rule one_picture)
  let ?e = "upd 0 (\<lambda>nd. nd\<lparr>iFrame_num_wrap := 3\<rparr>) d"
  have "dpb_inv ?e [0] [0] [0]"
    using d(1) by (simp add: dpb_inv_def dpb_base_def dpb_links_def nodes_ok_def ids_ok_def waiting_ok_def outputs_def
        upd_def pool_ok_def held_def proj_def dll_def) metis
  then show thesis using that [of ?e] d by (simp add: upd_def)
qed

theorem dpb_sliding_window_witness:
  "\<exists>d d'. dpb_inv d [0] [0] [0] \<and> eMarking_flag (Nodes d 0) = SHORT_TERM_REF
     \<and> AL_Dpb_sSlidingWindowMarking some_slice d = Some d' \<and> eMarking_flag (Nodes d' 0) = UNUSED_FOR_REF"
proof -
  obtain d where d: "dpb_inv d [0] [0] [0]" "eMarking_flag (Nodes d 0) = SHORT_TERM_REF"
    "iFrame_num_wrap (Nodes d 0) = 3" "\<not> non_existing (Nodes d 0)" by (rule one_numbered)
  from dpb_sliding_window [OF d(1), of some_slice] d(2-4) obtain d' where
    "AL_Dpb_sSlidingWindowMarking some_slice d = Some d'" "eMarking_flag (Nodes d' 0) = UNUSED_FOR_REF"
    by (auto simp: shorts_def longs_def over_limit_def some_slice_def INT32_MAX_def)
  with d(1,2) show ?thesis by blast
qed

text \<open>C27: the initial reference list of a P slice holds the short-term references in reverse decoding order
  followed by the long-term references in decoding order, and keeps the tail of the list it overwrites.\<close>

theorem dpb_init_p_list:
  assumes "dpb_inv d ps ls ds" "length (refs d ds) \<le> 16" "length (refs d ds) \<le> length old"
    and "\<forall>n \<in> set ds. eMarking_flag (Nodes d n) \<noteq> NON_EXISTING_REF"
  shows "AL_Dpb_InitPSlice_RefList d old = Some (overwrite (rev (shorts d ds) @ longs d ds) old)"
  using InitPSlice_eq [OF assms] .

theorem dpb_init_p_list_witness:
  "\<exists>d. dpb_inv d [0] [0] [0] \<and> AL_Dpb_InitPSlice_RefList d [255, 254] = Some [0, 254]"
proof -
  obtain d where d: "dpb_inv d [0] [0] [0]" "eMarking_flag (Nodes d 0) = SHORT_TERM_REF"
    by (rule one_picture)
  have "AL_Dpb_InitPSlice_RefList d [255, 254] = Some (overwrite (rev (shorts d [0]) @ longs d [0]) [255, 254])"
    by (rule dpb_init_p_list [OF d(1)]) (simp_all add: refs_def d(2))
  with d show ?thesis by (auto simp: shorts_def longs_def overwrite_def)
qed

text \<open>C29: \<open>AL_Dpb_sSwitchLongTermPlace\<close>, called for the picture at the head of the decoding order list when a
  later long-term picture has a greater number, moves that picture in front of it without making the
  next picture the head: the traversals from the head then skip every picture in between, although
  they are still in the buffer.\<close>

theorem dpb_switch_long_term_loses:
  assumes "dpb_links d ps ls (a # ms @ c # rs)" "ms \<noteq> []"
    and "eMarking_flag (Nodes d c) = LONG_TERM_REF" "iLong_term_pic_num (Nodes d c) > iLong_term_pic_num (Nodes d a)"
    and "\<forall>m \<in> set ms. \<not> (eMarking_flag (Nodes d m) = LONG_TERM_REF
                        \<and> iLong_term_pic_num (Nodes d m) > iLong_term_pic_num (Nodes d a))"
  shows "\<exists>d'. AL_Dpb_sSwitchLongTermPlace a d = Some d' \<and> uHeadDecOrder d' = a
    \<and> (\<forall>ys x zs. a # c # rs = ys @ x # zs \<longrightarrow> nextDec x d' = Some (first zs uEndOfList))
    \<and> set ms \<inter> set (a # c # rs) = {} \<and> uHeadPOC d' = uHeadPOC d
    \<and> (\<forall>n. eMarking_flag (Nodes d' n) = eMarking_flag (Nodes d n) \<and> uNextPOC (Nodes d' n) = uNextPOC (Nodes d n))"
proof -
  let ?ds = "a # ms @ c # rs" and ?l = "last ms" and ?f = "hd ms"
  note L = inv_dec [OF assms(1)]
  have dst: "distinct ?ds" using links_distinct(2) [OF assms(1)] .
  have in34: "a < 34" "c < 34" "?l < 34" "?f < 34" using L(3) assms(2) by auto
  have ne: "?l \<noteq> a" "?l \<noteq> c" "a \<noteq> c" "?f \<noteq> a" "?f \<noteq> c" "?f \<noteq> uEndOfList" "?l \<noteq> uEndOfList" "c \<noteq> uEndOfList"
    using dst assms(2) in34 by (auto simp: uEndOfList_def)
  have lnk: "links (proj uNextDecOrder (Nodes d)) (proj uPrevDecOrder (Nodes d)) uEndOfList ?ds uEndOfList"
    using assms(1) by (simp add: dpb_links_def dll_def)
  have hd: "uHeadDecOrder d = a" using L(1) by simp
  have a: "uPrevDecOrder (Nodes d a) = uEndOfList" "uNextDecOrder (Nodes d a) = ?f"
    using lnk assms(2) by (auto simp: neq_Nil_conv)
  have c: "uPrevDecOrder (Nodes d c) = ?l" using lnk assms(2) by (simp add: final_def)
  define d' where "d' = upd a (\<lambda>nd. nd\<lparr>uNextDecOrder := c\<rparr>) (upd c (\<lambda>nd. nd\<lparr>uPrevDecOrder := a\<rparr>)
    (upd a (\<lambda>nd. nd\<lparr>uPrevDecOrder := ?l\<rparr>) (upd ?l (\<lambda>nd. nd\<lparr>uNextDecOrder := a\<rparr>)
    (upd ?f (\<lambda>nd. nd\<lparr>uPrevDecOrder := uEndOfList\<rparr>) d))))"
  let ?body = "\<lambda>u d. do { nd \<leftarrow> node d u; rf \<leftarrow> node d a;
     if eMarking_flag nd = LONG_TERM_REF \<and> u \<noteq> a \<and> iLong_term_pic_num nd > iLong_term_pic_num rf
     then do { d1 \<leftarrow> Some d;
               d2 \<leftarrow> set_node ?f (\<lambda>nd. nd\<lparr>uPrevDecOrder := uEndOfList\<rparr>) d1;
               nd2 \<leftarrow> node d2 u;
               let uPrevNode = uPrevDecOrder nd2;
               d3 \<leftarrow> (if uPrevNode \<noteq> uEndOfList
                     then set_node uPrevNode (\<lambda>nd. nd\<lparr>uNextDecOrder := a\<rparr>) d2 else Some d2);
               d4 \<leftarrow> set_node a (\<lambda>nd. nd\<lparr>uPrevDecOrder := uPrevNode\<rparr>) d3;
               d5 \<leftarrow> set_node u (\<lambda>nd. nd\<lparr>uPrevDecOrder := a\<rparr>) d4;
               d6 \<leftarrow> set_node a (\<lambda>nd. nd\<lparr>uNextDecOrder := u\<rparr>) d5;
               Some (True, if u = uHeadDecOrder d6 then d6\<lparr>uHeadDecOrder := a\<rparr> else d6) }
     else Some (False, d) }"
  have "walk nextDec ?body (first ?ds uEndOfList) d = Some (c, d')"
  proof (rule walk_find [where ys = "a # ms" and zs = rs])
    show "?body y d = Some (False, d)" if "y \<in> set (a # ms)" for y
      using that assms(5) L(3) [of y] in34 by auto
    show "?body c d = Some (True, d')"
      using assms(3,4) in34 ne c hd by (auto simp: d'_def upd_def set_node_def Let_def dpb_sizes node_def)
  qed (use L(2,4) in auto)
  then have run: "AL_Dpb_sSwitchLongTermPlace a d = Some d'"
    using in34 ne a hd by (simp add: AL_Dpb_sSwitchLongTermPlace_def Let_def cong: if_cong)
  have chain: "nextDec x d' = Some (first zs uEndOfList)" if e: "a # c # rs = ys @ x # zs" for ys x zs
  proof (cases ys)
    case Nil
    with e in34 ne show ?thesis by (auto simp: d'_def upd_def nextDec_def)
  next
    case (Cons y ws)
    with e have r: "c # rs = ws @ x # zs" by simp
    then have "?ds = (a # ms @ ws) @ x # zs" by simp
    note L(4) [OF this]
    moreover
    have x: "x \<in> set (c # rs)" using r by simp
    have "?l \<notin> set (c # rs)" using dst last_in_set [OF assms(2)] by (metis disjoint_iff distinct.simps(2) distinct_append)
    with x have "x \<noteq> ?l" by metis
    moreover from x have "x \<noteq> a" "x < 34" using dst L(3) by auto
    ultimately show ?thesis by (auto simp: d'_def upd_def nextDec_def)
  qed
  have hd': "uHeadDecOrder d' = a" "uHeadPOC d' = uHeadPOC d" using hd by (simp_all add: d'_def upd_def)
  have N: "eMarking_flag (Nodes d' n) = eMarking_flag (Nodes d n) \<and> uNextPOC (Nodes d' n) = uNextPOC (Nodes d n)" for n
    by (simp add: d'_def upd_def)
  show ?thesis
    by (intro exI [of _ d'] conjI allI impI) (use run chain hd' N dst in auto)
qed

definition three_nodes :: AL_TDpb where
  "three_nodes = blank_dpb\<lparr>uHeadPOC := 0, uHeadPocLsb := 0, uHeadDecOrder := 0, uLastPOC := 2,
     Nodes := (Nodes blank_dpb)
       (0 := blank_node\<lparr>uNextPOC := 1, uNextPocLsb := 1, uNextDecOrder := 1, eMarking_flag := LONG_TERM_REF,
               iLong_term_pic_num := 0\<rparr>,
        1 := blank_node\<lparr>uPrevPOC := 0, uPrevPocLsb := 0, uPrevDecOrder := 0, uNextPOC := 2, uNextPocLsb := 2,
               uNextDecOrder := 2, eMarking_flag := SHORT_TERM_REF\<rparr>,
        2 := blank_node\<lparr>uPrevPOC := 1, uPrevPocLsb := 1, uPrevDecOrder := 1, eMarking_flag := LONG_TERM_REF,
               iLong_term_pic_num := 5\<rparr>)\<rparr>"

theorem dpb_switch_long_term_loses_witness:
  "\<exists>d'. AL_Dpb_sSwitchLongTermPlace 0 three_nodes = Some d' \<and> uHeadDecOrder d' = 0
     \<and> nextDec 0 d' = Some 2 \<and> nextDec 2 d' = Some uEndOfList
     \<and> eMarking_flag (Nodes three_nodes 1) = SHORT_TERM_REF"
proof -
  have b: "uPrevPOC blank_node = 255" "uNextPOC blank_node = 255" "uPrevPocLsb blank_node = 255"
    "uNextPocLsb blank_node = 255" "uPrevDecOrder blank_node = 255" "uNextDecOrder blank_node = 255"
    by (simp_all add: blank_node_def reset_node_def uEndOfList_def)
  have l: "dpb_links three_nodes [0, 1, 2] [0, 1, 2] (0 # [1] @ 2 # [])"
    by (simp add: three_nodes_def dpb_links_def dll_def uEndOfList_def b)
  from dpb_switch_long_term_loses [OF l] obtain d' where
    d': "AL_Dpb_sSwitchLongTermPlace 0 three_nodes = Some d'" "uHeadDecOrder d' = 0"
    "\<forall>ys x zs. [0, 2] = ys @ x # zs \<longrightarrow> nextDec x d' = Some (first zs uEndOfList)"
    by (auto simp: three_nodes_def)
  from d'(3) [rule_format, of "[]" 0 "[2]"] d'(3) [rule_format, of "[0]" 2 "[]"] d'(1,2)
  show ?thesis by (simp add: three_nodes_def)
qed

end
