(* ===== verification/Utils.thy ===== *)
theory Utils imports Prelude "HOL-Library.Signed_Division" begin

text \<open>
  lib_common/Utils.h and Utils.c: the arithmetic helpers.  C division truncates (\<open>sdiv\<close>); a division
  by zero and a failed assertion are \<open>None\<close>.  Values of type int are integers, unsigned ones natural
  numbers.
\<close>

definition BitsToBytes :: "nat \<Rightarrow> nat" where "BitsToBytes zBits = (zBits + 7) div 8"
definition BytesToBits :: "nat \<Rightarrow> nat" where "BytesToBits zBytes = zBytes * 8"

definition Clip3 :: "int \<Rightarrow> int \<Rightarrow> int \<Rightarrow> int" where
  "Clip3 iVal iMin iMax = (if iVal < iMin then iMin else if iVal > iMax then iMax else iVal)"

definition Max_int :: "int \<Rightarrow> int \<Rightarrow> int" where
  "Max_int iVal1 iVal2 = (if iVal1 < iVal2 then iVal2 else iVal1)"

definition UnsignedMax :: "nat \<Rightarrow> nat \<Rightarrow> nat" where
  "UnsignedMax iVal1 iVal2 = (if iVal1 < iVal2 then iVal2 else iVal1)"

definition UnsignedMin :: "nat \<Rightarrow> nat \<Rightarrow> nat" where
  "UnsignedMin iVal1 iVal2 = (if iVal1 > iVal2 then iVal2 else iVal1)"

definition Min_int :: "int \<Rightarrow> int \<Rightarrow> int" where
  "Min_int iVal1 iVal2 = (if iVal1 > iVal2 then iVal2 else iVal1)"

definition Abs_int :: "int \<Rightarrow> int" where "Abs_int iVal = (if iVal > 0 then iVal else - iVal)"

definition Sign :: "int \<Rightarrow> int" where
  "Sign iVal = (if iVal > 0 then 1 else if iVal < 0 then - 1 else 0)"

definition RoundUp :: "int \<Rightarrow> int \<Rightarrow> int option" where
  "RoundUp iVal iRnd =
     (if iRnd = 0 then None
      else Some (if iVal \<ge> 0 then ((iVal + iRnd - 1) sdiv iRnd) * iRnd else (iVal sdiv iRnd) * iRnd))"

definition RoundDown :: "int \<Rightarrow> int \<Rightarrow> int option" where
  "RoundDown iVal iRnd =
     (if iRnd = 0 then None
      else Some (if iVal \<ge> 0 then (iVal sdiv iRnd) * iRnd else ((iVal - iRnd + 1) sdiv iRnd) * iRnd))"

definition UnsignedRoundUp :: "nat \<Rightarrow> nat \<Rightarrow> nat option" where
  "UnsignedRoundUp zVal zRnd = (if zRnd = 0 then None else Some (((zVal + zRnd - 1) div zRnd) * zRnd))"

definition UnsignedRoundDown :: "nat \<Rightarrow> nat \<Rightarrow> nat option" where
  "UnsignedRoundDown zVal zRnd = (if zRnd = 0 then None else Some ((zVal div zRnd) * zRnd))"

definition tab_ceil_log2 :: "int list" where
  "tab_ceil_log2 =
    [0, 0, 1, 2, 2, 3, 3, 3,
     3, 4, 4, 4, 4, 4, 4, 4,
     4, 5, 5, 5, 5, 5, 5, 5,
     5, 5, 5, 5, 5, 5, 5, 5]"

text \<open>\<open>while(n != 0) \<open>{\<close> n >>= 1; ++v; \<open>}\<close>\<close>\<close>

fun count_bits :: "nat \<Rightarrow> int \<Rightarrow> int" where
  "count_bits n v = (if n \<noteq> 0 then count_bits (n div 2) (v + 1) else v)"

declare count_bits.simps [simp del]

definition ceil_log2 :: "nat \<Rightarrow> int option" where
  "ceil_log2 n =
     (if n > 0 then Some (if n < 32 then tab_ceil_log2 ! n else count_bits (n - 1) 0) else None)"

definition floor_log2 :: "nat \<Rightarrow> int" where
  "floor_log2 n = count_bits n (- 1)"

section \<open>Lemmas\<close>

lemma count_bits_shift: "count_bits n v = v + count_bits n 0"
proof (induction n arbitrary: v rule: less_induct)
  case (less n)
  show ?case
  proof (cases "n = 0")
    case False
    then have "n div 2 < n" by simp
    from less [OF this, of "v + 1"] less [OF this, of 1] False show ?thesis
      by (simp add: count_bits.simps [of n])
  qed (simp add: count_bits.simps)
qed

lemma count_bits_bounds: "n > 0 \<Longrightarrow> \<exists>k. count_bits n 0 = int k + 1 \<and> 2 ^ k \<le> n \<and> n < 2 ^ (k + 1)"
proof (induction n rule: less_induct)
  case (less n)
  show ?case
  proof (cases "n = 1")
    case True
    then show ?thesis by (simp add: count_bits.simps exI [of _ 0])
  next
    case False
    with less.prems have "0 < n div 2" "n div 2 < n" by auto
    with less.IH obtain k where k: "count_bits (n div 2) 0 = int k + 1" "2 ^ k \<le> n div 2" "n div 2 < 2 ^ (k + 1)"
      by blast
    have "count_bits n 0 = int (Suc k) + 1"
      using less.prems k(1) count_bits_shift [of "n div 2" 1] by (simp add: count_bits.simps [of n])
    moreover have "2 ^ Suc k \<le> n" "n < 2 ^ (Suc k + 1)" using k(2,3) by auto
    ultimately show ?thesis by blast
  qed
qed

lemma tab_ceil_log2_ok:
  assumes "0 < n" "n < 32"
  shows "\<exists>k. tab_ceil_log2 ! n = int k \<and> n \<le> 2 ^ k \<and> (k = 0 \<or> 2 ^ (k - 1) < n)"
proof -
  have "list_all (\<lambda>n. let k = nat (tab_ceil_log2 ! n) in
      0 \<le> tab_ceil_log2 ! n \<and> n \<le> 2 ^ k \<and> (k = 0 \<or> 2 ^ (k - 1) < n)) [1..<32]"
    by code_simp
  moreover have "n \<in> set [1..<32]" using assms by simp
  ultimately show ?thesis
    by (intro exI [of _ "nat (tab_ceil_log2 ! n)"]) (auto simp: list_all_iff Let_def)
qed

text \<open>\<open>ceil_log2\<close> of a positive number is the least exponent whose power of two reaches it and
  \<open>floor_log2\<close> the greatest whose power does not exceed it: the table and the shift loop agree with
  that definition for every argument, and only zero is refused.\<close>

theorem log2_correct:
  "(ceil_log2 n = None \<longleftrightarrow> n = 0)
   \<and> (\<forall>v. ceil_log2 n = Some v \<longrightarrow> (\<exists>k. v = int k \<and> n \<le> 2 ^ k \<and> (\<forall>j < k. 2 ^ j < n)))
   \<and> (n > 0 \<longrightarrow> (\<exists>k. floor_log2 n = int k \<and> 2 ^ k \<le> n \<and> (\<forall>j > k. n < 2 ^ j)))"
proof (intro conjI allI impI)
  show "ceil_log2 n = None \<longleftrightarrow> n = 0" by (simp add: ceil_log2_def)
  fix v assume "ceil_log2 n = Some v"
  then have n: "n > 0" and v: "v = (if n < 32 then tab_ceil_log2 ! n else count_bits (n - 1) 0)"
    by (auto simp: ceil_log2_def split: if_splits)
  have "\<exists>k. v = int k \<and> n \<le> 2 ^ k \<and> (k = 0 \<or> 2 ^ (k - 1) < n)"
  proof (cases "n < 32")
    case True
    with tab_ceil_log2_ok [OF n] v show ?thesis by auto
  next
    case False
    then obtain k where "count_bits (n - 1) 0 = int k + 1" "2 ^ k \<le> n - 1" "n - 1 < 2 ^ (k + 1)"
      using count_bits_bounds [of "n - 1"] by auto
    with False v show ?thesis by (intro exI [of _ "k + 1"]) auto
  qed
  then obtain k where k: "v = int k" "n \<le> 2 ^ k" "k = 0 \<or> 2 ^ (k - 1) < n" by blast
  have "2 ^ j < n" if "j < k" for j
  proof -
    have "j \<le> k - 1" "k \<noteq> 0" using that by simp_all
    then have "2 ^ j \<le> (2 :: nat) ^ (k - 1)" by (intro power_increasing) simp_all
    with k(3) \<open>k \<noteq> 0\<close> show ?thesis by linarith
  qed
  with k show "\<exists>k. v = int k \<and> n \<le> 2 ^ k \<and> (\<forall>j < k. 2 ^ j < n)" by blast
next
  assume "n > 0"
  from count_bits_bounds [OF this] obtain k where
    k: "count_bits n 0 = int k + 1" "2 ^ k \<le> n" "n < 2 ^ (k + 1)" by blast
  have "n < 2 ^ j" if "j > k" for j
    using k(3) that power_increasing [of "k + 1" j "2 :: nat"] by auto
  with k count_bits_shift [of n "- 1"] show "\<exists>k. floor_log2 n = int k \<and> 2 ^ k \<le> n \<and> (\<forall>j > k. n < 2 ^ j)"
    by (auto simp: floor_log2_def intro!: exI [of _ k])
qed

theorem log2_correct_witness:
  "(\<exists>k. floor_log2 40 = int k \<and> 2 ^ k \<le> (40 :: nat) \<and> (\<forall>j > k. (40 :: nat) < 2 ^ j)) \<and> ceil_log2 40 = Some 6"
proof -
  have "ceil_log2 40 = Some 6" by (simp add: ceil_log2_def count_bits.simps)
  with log2_correct [of 40] show ?thesis by simp
qed

lemma unsigned_round_up:
  assumes "r > 0"
  obtains z where "UnsignedRoundUp v r = Some z" "v \<le> z" "z < v + r" "r dvd z"
proof -
  let ?q = "(v + r - 1) div r"
  have "?q * r + (v + r - 1) mod r = v + r - 1" "(v + r - 1) mod r < r" using assms by simp_all
  then have "v \<le> ?q * r" "?q * r < v + r" using assms by linarith+
  with assms that show thesis by (auto simp: UnsignedRoundUp_def)
qed

end
