(* ===== verification/Levels.thy ===== *)
theory Levels imports Utils begin

text \<open>
  lib_common/LevelLimit.c, AvcLevelsLimit.c and HevcLevelsLimit.c: the tables of the levels of AVC and
  HEVC and the level a stream requires.  A table is a list of limits; a \<open>switch\<close> is a chain of
  conditions in the order of its cases.  Levels are integers (ten times the level number), unsigned
  32-bit values natural numbers; unsigned 32-bit products wrap.
\<close>

record AL_TLevelLimit =
  uLimit :: nat
  uLevel :: nat

definition limits :: "(nat \<times> nat) list \<Rightarrow> AL_TLevelLimit list" where
  "limits xs = map (\<lambda>(l, v). \<lparr>uLimit = l, uLevel = v\<rparr>) xs"

fun AL_GetRequiredLevel :: "nat \<Rightarrow> AL_TLevelLimit list \<Rightarrow> nat" where
  "AL_GetRequiredLevel uVal [] = 255"
| "AL_GetRequiredLevel uVal (l # ls) = (if uVal \<le> uLimit l then uLevel l else AL_GetRequiredLevel uVal ls)"

section \<open>AVC\<close>

definition AL_AVC_CheckLevel :: "int \<Rightarrow> bool" where
  "AL_AVC_CheckLevel level \<longleftrightarrow>
     level \<ge> 10 \<and> level \<le> 13 \<or> level \<ge> 20 \<and> level \<le> 22 \<or> level \<ge> 30 \<and> level \<le> 32
     \<or> level \<ge> 40 \<and> level \<le> 42 \<or> level \<ge> 50 \<and> level \<le> 52 \<or> level \<ge> 60 \<and> level \<le> 62"

definition AL_AVC_GetMaxMBperSec :: "int \<Rightarrow> nat" where
  "AL_AVC_GetMaxMBperSec level =
     (if level \<in> {9, 10} then 1485
      else if level = 11 then 3000
      else if level = 12 then 6000
      else if level \<in> {13, 20} then 11880
      else if level = 21 then 19800
      else if level = 22 then 20250
      else if level = 30 then 40500
      else if level = 31 then 108000
      else if level = 32 then 216000
      else if level \<in> {40, 41} then 245760
      else if level = 42 then 522240
      else if level = 50 then 589824
      else if level = 51 then 983040
      else if level = 52 then 2073600
      else if level = 60 then 4177920
      else if level = 61 then 8355840
      else 16711680)"

definition AL_AVC_GetSliceRate :: "int \<Rightarrow> nat" where
  "AL_AVC_GetSliceRate level =
     (if level \<in> {9, 10, 11, 12, 13, 20, 21, 22} then 0
      else if level = 30 then 22
      else if level \<in> {31, 32, 40} then 60
      else 24)"

definition BASELINE :: int where "BASELINE = 66"
definition CONSTRAINED_BASELINE :: int where "CONSTRAINED_BASELINE = 67"
definition EXTENDED :: int where "EXTENDED = 88"

definition AL_AVC_GetMaxNumberOfSlices :: "int \<Rightarrow> int \<Rightarrow> int \<Rightarrow> int \<Rightarrow> int \<Rightarrow> nat option" where
  "AL_AVC_GetMaxNumberOfSlices profile level numUnitInTicks timeScale numMbsInPic =
     (let maxMBPS = AL_AVC_GetMaxMBperSec level;
          sliceRate = AL_AVC_GetSliceRate level
      in if sliceRate = 0 then Some (to_u32 numMbsInPic)
         else if profile = BASELINE \<or> profile = CONSTRAINED_BASELINE \<or> profile = EXTENDED
         then Some (to_u32 numMbsInPic)
         else if to_u32 timeScale = 0 then None
         else Some (to_u32 (Min_int
                (to_i32 (int (to_u32 (int maxMBPS * 2 * numUnitInTicks) div to_u32 timeScale div sliceRate)))
                numMbsInPic)))"

definition AL_AVC_GetMaxCPBSize :: "int \<Rightarrow> nat" where
  "AL_AVC_GetMaxCPBSize level =
     (if level = 10 then 175
      else if level = 9 then 350
      else if level = 11 then 500
      else if level = 12 then 1000
      else if level = 13 then 2000
      else if level = 20 then 2000
      else if level = 21 then 4000
      else if level = 22 then 4000
      else if level = 30 then 10000
      else if level = 31 then 14000
      else if level = 32 then 20000
      else if level = 40 then 25000
      else if level = 41 then 62500
      else if level = 42 then 62500
      else if level = 50 then 135000
      else if level = 51 then 240000
      else if level = 52 then 240000
      else if level = 60 then 240000
      else if level = 61 then 480000
      else 800000)"

definition getMaxDpbMBs :: "int \<Rightarrow> int" where
  "getMaxDpbMBs iLevel =
     (if iLevel \<in> {9, 10} then 396
      else if iLevel = 11 then 900
      else if iLevel \<in> {12, 13, 20} then 2376
      else if iLevel = 21 then 4752
      else if iLevel \<in> {22, 30} then 8100
      else if iLevel = 31 then 18000
      else if iLevel = 32 then 20480
      else if iLevel \<in> {40, 41} then 32768
      else if iLevel = 42 then 34816
      else if iLevel = 50 then 110400
      else if iLevel \<in> {51, 52} then 184320
      else 696320)"

definition AL_AVC_GetMaxDPBSize :: "int \<Rightarrow> int \<Rightarrow> int \<Rightarrow> nat option" where
  "AL_AVC_GetMaxDPBSize iLevel iWidth iHeight =
     (if iWidth = 0 \<or> iHeight = 0 then None
      else let iMaxDpbMbs = getMaxDpbMBs iLevel;
               iNumMbs = (iWidth sdiv 16) * (iHeight sdiv 16)
           in if iNumMbs = 0 then None else Some (nat (Clip3 (iMaxDpbMbs sdiv iNumMbs) 2 16)))"

definition AVC_MAX_FRAME_MB :: "AL_TLevelLimit list" where
  "AVC_MAX_FRAME_MB = limits
    [(99, 10), (396, 11), (792, 21), (1620, 22), (3600, 31), (5120, 32),
     (8192, 40), (8704, 42), (22080, 50), (36864, 51), (139264, 60)]"

definition AVC_MAX_MB_RATE :: "AL_TLevelLimit list" where
  "AVC_MAX_MB_RATE = limits
    [(1485, 10), (3000, 11), (6000, 12), (11880, 13), (19800, 21), (20250, 22),
     (40500, 30), (108000, 31), (216000, 32), (245760, 40), (522240, 42), (589824, 50),
     (983040, 51), (2073600, 52), (4177920, 60), (8355840, 61), (16711680, 62)]"

definition AVC_MAX_VIDEO_BITRATE :: "AL_TLevelLimit list" where
  "AVC_MAX_VIDEO_BITRATE = limits
    [(64, 10), (128, 9), (192, 11), (384, 12), (768, 13), (2000, 20),
     (4000, 21), (10000, 30), (14000, 31), (20000, 32), (50000, 41), (135000, 50),
     (240000, 51), (480000, 61), (800000, 62)]"

definition AVC_MAX_VIDEO_DPB_SIZE :: "AL_TLevelLimit list" where
  "AVC_MAX_VIDEO_DPB_SIZE = limits
    [(396, 10), (900, 11), (2376, 12), (4752, 21), (8100, 22), (18000, 31),
     (20480, 32), (32768, 40), (34816, 42), (110400, 50), (184320, 51), (696320, 60)]"

definition AL_AVC_GetLevelFromFrameSize :: "int \<Rightarrow> nat" where
  "AL_AVC_GetLevelFromFrameSize x = AL_GetRequiredLevel (to_u32 x) AVC_MAX_FRAME_MB"

definition AL_AVC_GetLevelFromMBRate :: "int \<Rightarrow> nat" where
  "AL_AVC_GetLevelFromMBRate x = AL_GetRequiredLevel (to_u32 x) AVC_MAX_MB_RATE"

definition AL_AVC_GetLevelFromBitrate :: "int \<Rightarrow> nat" where
  "AL_AVC_GetLevelFromBitrate x = AL_GetRequiredLevel (to_u32 x) AVC_MAX_VIDEO_BITRATE"

definition AL_AVC_GetLevelFromDPBSize :: "int \<Rightarrow> nat" where
  "AL_AVC_GetLevelFromDPBSize x = AL_GetRequiredLevel (to_u32 x) AVC_MAX_VIDEO_DPB_SIZE"

section \<open>HEVC\<close>

definition AL_HEVC_CheckLevel :: "int \<Rightarrow> bool" where
  "AL_HEVC_CheckLevel level \<longleftrightarrow>
     level = 10 \<or> level \<ge> 20 \<and> level \<le> 21 \<or> level \<ge> 30 \<and> level \<le> 31 \<or> level \<ge> 40 \<and> level \<le> 41
     \<or> level \<ge> 50 \<and> level \<le> 52 \<or> level \<ge> 60 \<and> level \<le> 62"

definition AL_HEVC_GetMaxNumberOfSlices :: "int \<Rightarrow> nat" where
  "AL_HEVC_GetMaxNumberOfSlices level =
     (if level \<in> {10, 20} then 16
      else if level = 21 then 20
      else if level = 30 then 30
      else if level = 31 then 40
      else if level \<in> {40, 41} then 75
      else if level \<in> {50, 51, 52} then 200
      else 600)"

definition AL_HEVC_GetMaxCPBSize :: "int \<Rightarrow> int \<Rightarrow> nat" where
  "AL_HEVC_GetMaxCPBSize level tier =
     (if tier = 1 then
      (if level = 10 then 350
      else if level = 20 then 1500
      else if level = 21 then 3000
      else if level = 30 then 6000
      else if level = 31 then 10000
      else if level = 40 then 30000
      else if level = 41 then 50000
      else if level = 50 then 100000
      else if level = 51 then 160000
      else if level = 52 then 240000
      else if level = 60 then 240000
      else if level = 61 then 480000
      else 800000)
     else
      (if level = 10 then 350
      else if level = 20 then 1500
      else if level = 21 then 3000
      else if level = 30 then 6000
      else if level = 31 then 10000
      else if level = 40 then 12000
      else if level = 41 then 20000
      else if level = 50 then 25000
      else if level = 51 then 40000
      else if level = 52 then 60000
      else if level = 60 then 60000
      else if level = 61 then 120000
      else 240000))"

definition getMaxLumaPS :: "int \<Rightarrow> int" where
  "getMaxLumaPS iLevel =
     (if iLevel = 10 then 36864
      else if iLevel = 20 then 122880
      else if iLevel = 21 then 245760
      else if iLevel = 30 then 552960
      else if iLevel = 31 then 983040
      else if iLevel \<in> {40, 41} then 2228224
      else if iLevel \<in> {60, 61, 62} then 35651584
      else 8912896)"

definition AL_HEVC_GetMaxDPBSize :: "int \<Rightarrow> int \<Rightarrow> int \<Rightarrow> nat" where
  "AL_HEVC_GetMaxDPBSize iLevel iWidth iHeight =
     (let iMaxLumaPS = getMaxLumaPS iLevel;
          iPictSizeY = to_i32 (iWidth * iHeight)
      in if iPictSizeY \<le> iMaxLumaPS sdiv 4 then 16
         else if iPictSizeY \<le> iMaxLumaPS sdiv 2 then 12
         else if iPictSizeY \<le> (iMaxLumaPS * 2) sdiv 3 then 9
         else if iPictSizeY \<le> (3 * iMaxLumaPS) sdiv 4 then 8
         else 6)"

definition AL_HEVC_MAX_PIX_PER_FRAME :: "AL_TLevelLimit list" where
  "AL_HEVC_MAX_PIX_PER_FRAME = limits
    [(36864, 10), (122880, 20), (245760, 21), (552960, 30), (983040, 31), (2228224, 40),
     (8912896, 50), (35651584, 60)]"

definition HEVC_MAX_PIX_RATE :: "AL_TLevelLimit list" where
  "HEVC_MAX_PIX_RATE = limits
    [(552960, 10), (3686400, 20), (7372800, 21), (16588800, 30), (33177600, 31), (66846720, 40),
     (133693440, 41), (267386880, 50), (534773760, 51), (1069547520, 52), (2139095040, 61), (4278190080, 62)]"

definition HEVC_MAX_VIDEO_BITRATE_HIGH :: "AL_TLevelLimit list" where
  "HEVC_MAX_VIDEO_BITRATE_HIGH = limits
    [(128, 10), (1500, 20), (3000, 21), (6000, 30), (10000, 31), (30000, 40),
     (50000, 41), (100000, 50), (160000, 51), (240000, 52), (480000, 61), (800000, 62)]"

definition HEVC_MAX_VIDEO_BITRATE_MAIN :: "AL_TLevelLimit list" where
  "HEVC_MAX_VIDEO_BITRATE_MAIN = limits
    [(128, 10), (1500, 20), (3000, 21), (6000, 30), (10000, 31), (12000, 40),
     (20000, 41), (25000, 50), (40000, 51), (60000, 52), (120000, 61), (240000, 62)]"

definition HEVC_MAX_TILE_COLS :: "AL_TLevelLimit list" where
  "HEVC_MAX_TILE_COLS = limits
    [(1, 10), (2, 30), (3, 31), (5, 40), (10, 50), (20, 60)]"

definition AL_HEVC_GetLevelFromFrameSize :: "int \<Rightarrow> nat" where
  "AL_HEVC_GetLevelFromFrameSize x = AL_GetRequiredLevel (to_u32 x) AL_HEVC_MAX_PIX_PER_FRAME"

definition AL_HEVC_GetLevelFromPixRate :: "int \<Rightarrow> nat" where
  "AL_HEVC_GetLevelFromPixRate x = AL_GetRequiredLevel (to_u32 x) HEVC_MAX_PIX_RATE"

definition AL_HEVC_GetLevelFromTileCols :: "int \<Rightarrow> nat" where
  "AL_HEVC_GetLevelFromTileCols x = AL_GetRequiredLevel (to_u32 x) HEVC_MAX_TILE_COLS"

definition AL_HEVC_GetLevelFromBitrate :: "int \<Rightarrow> int \<Rightarrow> nat" where
  "AL_HEVC_GetLevelFromBitrate bitrate tier =
     AL_GetRequiredLevel (to_u32 bitrate) (if tier \<noteq> 0 then HEVC_MAX_VIDEO_BITRATE_HIGH else HEVC_MAX_VIDEO_BITRATE_MAIN)"

definition AL_HEVC_GetMaxDpbPicBuf :: "int \<Rightarrow> int \<Rightarrow> int" where
  "AL_HEVC_GetMaxDpbPicBuf maxPixRate numPixPerFrame =
     (if numPixPerFrame \<le> drop_bit 2 maxPixRate then 16
      else if numPixPerFrame \<le> drop_bit 1 maxPixRate then 12
      else if numPixPerFrame \<le> drop_bit 2 (3 * maxPixRate) then 8
      else 6)"

fun dpb_level_loop :: "int \<Rightarrow> int \<Rightarrow> AL_TLevelLimit list \<Rightarrow> nat" where
  "dpb_level_loop dpbSize pixRate [] = 255"
| "dpb_level_loop dpbSize pixRate (l # ls) =
     (if dpbSize \<le> AL_HEVC_GetMaxDpbPicBuf (to_i32 (int (uLimit l))) pixRate then uLevel l
      else dpb_level_loop dpbSize pixRate ls)"

definition AL_HEVC_GetLevelFromDPBSize :: "int \<Rightarrow> int \<Rightarrow> nat" where
  "AL_HEVC_GetLevelFromDPBSize dpbSize pixRate = dpb_level_loop dpbSize pixRate AL_HEVC_MAX_PIX_PER_FRAME"

section \<open>Properties\<close>

text \<open>In a table with increasing limits and levels, a level is enough exactly up to its own limit.\<close>

fun limit_of :: "AL_TLevelLimit list \<Rightarrow> nat \<Rightarrow> nat option" where
  "limit_of [] L = None"
| "limit_of (l # ls) L =
     (if uLevel l \<le> L then (case limit_of ls L of None \<Rightarrow> Some (uLimit l) | Some m \<Rightarrow> Some m) else None)"

fun increasing :: "AL_TLevelLimit list \<Rightarrow> bool" where
  "increasing [] \<longleftrightarrow> True"
| "increasing (l # ls) \<longleftrightarrow> list_all (\<lambda>q. uLimit l \<le> uLimit q \<and> uLevel l \<le> uLevel q) ls \<and> increasing ls"

lemma limit_of_in: "limit_of xs L = Some m \<Longrightarrow> m \<in> uLimit ` set xs"
  by (induction xs arbitrary: m) (force split: if_splits option.splits)+

lemma required_level_high: "\<forall>p \<in> set xs. L < uLevel p \<Longrightarrow> L < 255 \<Longrightarrow> \<not> AL_GetRequiredLevel v xs \<le> L"
  by (induction xs) auto

lemma required_level_exact:
  "increasing xs \<Longrightarrow> L < 255 \<Longrightarrow> limit_of xs L = Some m \<Longrightarrow> AL_GetRequiredLevel v xs \<le> L \<longleftrightarrow> v \<le> m"
proof (induction xs arbitrary: m)
  case (Cons p xs)
  from Cons.prems have s: "\<forall>q \<in> set xs. uLimit p \<le> uLimit q" and x: "uLevel p \<le> L"
    by (auto simp: list_all_iff split: if_splits)
  show ?case
  proof (cases "limit_of xs L")
    case None
    have "\<not> AL_GetRequiredLevel v xs \<le> L"
    proof (cases xs)
      case (Cons q ys)
      with None Cons.prems(1) have "\<not> uLevel q \<le> L" by (auto split: option.splits if_splits)
      with \<open>increasing (p # xs)\<close> Cons have "\<forall>r \<in> set xs. L < uLevel r" by (auto simp: list_all_iff)
      from required_level_high [OF this \<open>L < 255\<close>] show ?thesis .
    qed (use \<open>L < 255\<close> in simp)
    with None Cons.prems x show ?thesis by auto
  next
    case (Some k)
    with limit_of_in [OF Some] s have "uLimit p \<le> k" by auto
    with Some x Cons show ?thesis by auto
  qed
qed simp

text \<open>The levels the checks accept.\<close>

definition avc_levels :: "nat list" where
  "avc_levels = [10..<14] @ [20..<23] @ [30..<33] @ [40..<43] @ [50..<53] @ [60..<63]"

definition hevc_levels :: "nat list" where
  "hevc_levels = [10] @ [20..<22] @ [30..<32] @ [40..<42] @ [50..<53] @ [60..<63]"

lemma numeral_le_of_nat: "(numeral k \<le> int L) = (numeral k \<le> L)"
  by simp

lemma avc_levels_iff: "AL_AVC_CheckLevel (int L) \<longleftrightarrow> L \<in> set avc_levels"
proof -
  have "(int L \<le> 13) = (L < 14)" "(int L \<le> 22) = (L < 23)" "(int L \<le> 32) = (L < 33)" "(int L \<le> 42) = (L < 43)"
    "(int L \<le> 52) = (L < 53)" "(int L \<le> 62) = (L < 63)" by auto
  then show ?thesis by (simp only: AL_AVC_CheckLevel_def avc_levels_def set_append set_upt Un_iff
        atLeastLessThan_iff numeral_le_of_nat)
qed

lemma hevc_levels_iff: "AL_HEVC_CheckLevel (int L) \<longleftrightarrow> L \<in> set hevc_levels"
proof -
  have "(int L \<le> 21) = (L < 22)" "(int L \<le> 31) = (L < 32)" "(int L \<le> 41) = (L < 42)"
    "(int L \<le> 52) = (L < 53)" "(int L \<le> 62) = (L < 63)" "(int L = 10) = (L = 10)" by auto
  then show ?thesis by (simp only: AL_HEVC_CheckLevel_def hevc_levels_def set_append set_upt Un_iff
        atLeastLessThan_iff numeral_le_of_nat list.set insert_iff empty_iff) blast
qed

lemma tables_increasing:
  "increasing AVC_MAX_MB_RATE" "increasing AVC_MAX_VIDEO_DPB_SIZE" "increasing AL_HEVC_MAX_PIX_PER_FRAME"
  by (simp_all add: AVC_MAX_MB_RATE_def AVC_MAX_VIDEO_DPB_SIZE_def AL_HEVC_MAX_PIX_PER_FRAME_def limits_def)

lemma avc_limits:
  "list_all (\<lambda>L. limit_of AVC_MAX_MB_RATE L = Some (AL_AVC_GetMaxMBperSec (int L))
     \<and> map_option int (limit_of AVC_MAX_VIDEO_DPB_SIZE L) = Some (getMaxDpbMBs (int L)) \<and> L < 255) avc_levels"
  by (simp add: avc_levels_def AVC_MAX_MB_RATE_def AVC_MAX_VIDEO_DPB_SIZE_def limits_def upt_rec_numeral
      AL_AVC_GetMaxMBperSec_def getMaxDpbMBs_def)

lemma hevc_limits:
  "list_all (\<lambda>L. map_option int (limit_of AL_HEVC_MAX_PIX_PER_FRAME L) = Some (getMaxLumaPS (int L)) \<and> L < 255) hevc_levels"
  by (simp add: hevc_levels_def AL_HEVC_MAX_PIX_PER_FRAME_def limits_def upt_rec_numeral getMaxLumaPS_def)

text \<open>C35: the two ways the code states a level's limits agree.  For every level the AVC (HEVC) check
  accepts, a stream's macroblock rate, its decoded picture buffer in macroblocks, and for HEVC its
  picture size require at most that level exactly when they do not exceed the limit the level's own
  table gives: the level computed from a value is the least sufficient one.\<close>

theorem level_tables_agree:
  assumes "0 \<le> v" "v \<le> INT32_MAX"
  shows "(AL_AVC_CheckLevel (int L) \<longrightarrow>
            (AL_AVC_GetLevelFromMBRate v \<le> L \<longleftrightarrow> v \<le> int (AL_AVC_GetMaxMBperSec (int L)))
          \<and> (AL_AVC_GetLevelFromDPBSize v \<le> L \<longleftrightarrow> v \<le> getMaxDpbMBs (int L)))
       \<and> (AL_HEVC_CheckLevel (int L) \<longrightarrow>
            (AL_HEVC_GetLevelFromFrameSize v \<le> L \<longleftrightarrow> v \<le> getMaxLumaPS (int L)))"
proof -
  obtain n where n: "v = int n" using assms(1) by (metis zero_le_imp_eq_int)
  with assms(2) have u: "to_u32 (int n) = n" by (simp add: to_u32_def INT32_MAX_def)
  note defs = AL_AVC_GetLevelFromMBRate_def AL_AVC_GetLevelFromDPBSize_def AL_HEVC_GetLevelFromFrameSize_def
  have avc: "(AL_GetRequiredLevel n AVC_MAX_MB_RATE \<le> L \<longleftrightarrow> int n \<le> int (AL_AVC_GetMaxMBperSec (int L)))
      \<and> (AL_GetRequiredLevel n AVC_MAX_VIDEO_DPB_SIZE \<le> L \<longleftrightarrow> int n \<le> getMaxDpbMBs (int L))"
    if "L \<in> set avc_levels"
  proof -
    from that avc_limits obtain m where m: "limit_of AVC_MAX_MB_RATE L = Some (AL_AVC_GetMaxMBperSec (int L))"
      "limit_of AVC_MAX_VIDEO_DPB_SIZE L = Some m" "getMaxDpbMBs (int L) = int m" "L < 255"
      unfolding list_all_iff by (fastforce dest: bspec)
    show ?thesis
      unfolding m(3) of_nat_le_iff required_level_exact [OF tables_increasing(1) m(4,1)]
        required_level_exact [OF tables_increasing(2) m(4,2)] by simp
  qed
  have hevc: "AL_GetRequiredLevel n AL_HEVC_MAX_PIX_PER_FRAME \<le> L \<longleftrightarrow> int n \<le> getMaxLumaPS (int L)"
    if "L \<in> set hevc_levels"
  proof -
    from that hevc_limits obtain m where m: "limit_of AL_HEVC_MAX_PIX_PER_FRAME L = Some m"
      "getMaxLumaPS (int L) = int m" "L < 255"
      unfolding list_all_iff by (fastforce dest: bspec)
    show ?thesis
      unfolding m(2) of_nat_le_iff required_level_exact [OF tables_increasing(3) m(3,1)] by simp
  qed
  show ?thesis unfolding avc_levels_iff hevc_levels_iff n defs u using avc hevc by blast
qed

theorem level_tables_agree_witness:
  "AL_AVC_GetLevelFromMBRate 245760 \<le> 40 \<and> \<not> AL_AVC_GetLevelFromMBRate 245761 \<le> 41"
proof -
  have "AL_AVC_CheckLevel (int 40)" "AL_AVC_CheckLevel (int 41)" by (simp_all add: AL_AVC_CheckLevel_def)
  with level_tables_agree [of 245760 40] level_tables_agree [of 245761 41] show ?thesis
    by (simp add: INT32_MAX_def AL_AVC_GetMaxMBperSec_def)
qed

text \<open>C36: the bound on the number of slices of an AVC picture is computed in 32 bits.  While the product of
  the macroblock rate and the clock fits, it is the quotient the standard asks for, capped by the
  picture; at level 6.2 with the clock 60000/1001 the product has wrapped and the bound is 2355
  instead of 23233.  A zero time scale divides by zero.\<close>

theorem max_slices:
  assumes "0 < numUnitInTicks" "0 < timeScale" "timeScale \<le> INT32_MAX"
    and "0 \<le> numMbsInPic" "numMbsInPic \<le> INT32_MAX" "AL_AVC_GetSliceRate level \<noteq> 0"
    and "profile \<notin> {BASELINE, CONSTRAINED_BASELINE, EXTENDED}"
  shows "(int (AL_AVC_GetMaxMBperSec level) * 2 * numUnitInTicks < 4294967296 \<longrightarrow>
      AL_AVC_GetMaxNumberOfSlices profile level numUnitInTicks timeScale numMbsInPic
        = Some (nat (min (int (AL_AVC_GetMaxMBperSec level) * 2 * numUnitInTicks div timeScale
                           div int (AL_AVC_GetSliceRate level)) numMbsInPic)))
    \<and> AL_AVC_GetMaxNumberOfSlices 100 62 1001 60000 139264 = Some 2355
    \<and> int (AL_AVC_GetMaxMBperSec 62) * 2 * 1001 div 60000 div int (AL_AVC_GetSliceRate 62) = 23233
    \<and> AL_AVC_GetMaxNumberOfSlices profile level numUnitInTicks 0 numMbsInPic = None"
proof (intro conjI impI)
  let ?p = "int (AL_AVC_GetMaxMBperSec level) * 2 * numUnitInTicks"
  let ?r = "AL_AVC_GetSliceRate level"
  let ?q = "?p div timeScale div int ?r"
  assume fits: "?p < 4294967296"
  have p: "0 \<le> ?p" using assms(1) by simp
  have r: "?r \<ge> 2" using assms(6) by (auto simp: AL_AVC_GetSliceRate_def split: if_splits)
  have t: "0 \<le> ?p div timeScale" "?p div timeScale \<le> ?p"
    using p assms(2) zdiv_mono2 [of ?p 1 timeScale] by (simp_all add: pos_imp_zdiv_nonneg_iff)
  then have q: "0 \<le> ?q" "?q \<le> ?p div timeScale div 2"
    using r zdiv_mono2 [of "?p div timeScale" 2 "int ?r"] by (simp_all add: pos_imp_zdiv_nonneg_iff)
  have q31: "?q < 2147483648" using q(2) t(2) fits by linarith
  have "int (to_u32 ?p div to_u32 timeScale div ?r) = ?q"
    using p fits assms(2,3) by (simp add: to_u32_id INT32_MAX_def zdiv_int)
  moreover have "to_i32 ?q = ?q" using q(1) q31 by (intro to_i32_id) (simp add: i32_range_def)
  moreover have "0 \<le> min ?q numMbsInPic" "min ?q numMbsInPic < 4294967296"
    using q(1) q31 assms(4,5) by (auto simp: INT32_MAX_def)
  then have "to_u32 (min ?q numMbsInPic) = nat (min ?q numMbsInPic)" by (rule to_u32_id)
  moreover have "Min_int ?q numMbsInPic = min ?q numMbsInPic" by (simp add: Min_int_def min_def)
  moreover have "to_u32 timeScale \<noteq> 0" using assms(2,3) by (simp add: to_u32_id INT32_MAX_def)
  ultimately show "AL_AVC_GetMaxNumberOfSlices profile level numUnitInTicks timeScale numMbsInPic
      = Some (nat (min ?q numMbsInPic))"
    using assms(6,7) by (simp add: AL_AVC_GetMaxNumberOfSlices_def Let_def)
qed (use assms(6,7) in \<open>simp_all add: AL_AVC_GetMaxNumberOfSlices_def AL_AVC_GetMaxMBperSec_def
    AL_AVC_GetSliceRate_def to_u32_def to_i32_def Min_int_def Let_def
    BASELINE_def CONSTRAINED_BASELINE_def EXTENDED_def\<close>)

theorem max_slices_witness:
  "AL_AVC_GetMaxNumberOfSlices 100 40 1 60 8160 = Some 136"
proof -
  have "100 \<notin> {BASELINE, CONSTRAINED_BASELINE, EXTENDED}"
    by (simp add: BASELINE_def CONSTRAINED_BASELINE_def EXTENDED_def)
  with max_slices [of 1 60 8160 40 100] show ?thesis
    by (simp add: AL_AVC_GetSliceRate_def AL_AVC_GetMaxMBperSec_def INT32_MAX_def)
qed

text \<open>the size of the AVC decoded picture buffer is between 2 and 16 whenever it is defined, does not
  shrink when the picture gets smaller, and is undefined (a division by zero) for a picture narrower
  or lower than a macroblock.\<close>

theorem avc_dpb_size_bounds:
  assumes "0 < w" "0 < h"
  shows "(AL_AVC_GetMaxDPBSize level w h = None \<longleftrightarrow> w < 16 \<or> h < 16)
    \<and> (\<forall>n. AL_AVC_GetMaxDPBSize level w h = Some n \<longrightarrow> 2 \<le> n \<and> n \<le> 16
        \<and> (\<forall>w' h' m. w \<le> w' \<and> h \<le> h' \<and> AL_AVC_GetMaxDPBSize level w' h' = Some m \<longrightarrow> m \<le> n))"
proof -
  have sd: "a sdiv b = a div b" if "0 \<le> a" "0 < b" for a b :: int
    using that by (simp add: signed_divide_int_def sgn_if)
  have M: "0 \<le> getMaxDpbMBs level" by (simp add: getMaxDpbMBs_def)
  have val: "AL_AVC_GetMaxDPBSize level x y = (if x < 16 \<or> y < 16 then None
      else Some (nat (Clip3 (getMaxDpbMBs level div ((x div 16) * (y div 16))) 2 16)))" if "0 < x" "0 < y" for x y
  proof (cases "x < 16 \<or> y < 16")
    case True
    with that have "x div 16 = 0 \<or> y div 16 = 0" by (auto simp: div_pos_pos_trivial)
    with True that show ?thesis by (auto simp: AL_AVC_GetMaxDPBSize_def Let_def sd)
  next
    case False
    then have "0 < x div 16" "0 < y div 16" by (simp_all add: pos_imp_zdiv_pos_iff)
    then have "0 < (x div 16) * (y div 16)" by simp
    with False that M show ?thesis by (auto simp: AL_AVC_GetMaxDPBSize_def Let_def sd)
  qed
  have mono: "getMaxDpbMBs level div ((x div 16) * (y div 16)) \<le> getMaxDpbMBs level div ((w div 16) * (h div 16))"
    if "w \<le> x" "h \<le> y" "\<not> w < 16" "\<not> h < 16" for x y
  proof -
    have "0 < w div 16" "0 < h div 16" using that by (simp_all add: pos_imp_zdiv_pos_iff)
    moreover have "w div 16 \<le> x div 16" "h div 16 \<le> y div 16" using that by (simp_all add: zdiv_mono1)
    ultimately show ?thesis using M by (intro zdiv_mono2 mult_mono) auto
  qed
  show ?thesis
  proof (cases "w < 16 \<or> h < 16")
    case False
    let ?c = "\<lambda>x y. Clip3 (getMaxDpbMBs level div ((x div 16) * (y div 16))) 2 16"
    have c: "2 \<le> ?c x y" "?c x y \<le> 16" for x y by (simp_all add: Clip3_def)
    have "m \<le> nat (?c w h)" if "w \<le> x" "h \<le> y" "AL_AVC_GetMaxDPBSize level x y = Some m" for x y m
    proof -
      have "m = nat (?c x y)" using that(3) val [of x y] that(1,2) assms by (auto split: if_splits)
      moreover have "?c x y \<le> ?c w h" using mono [OF that(1,2)] False by (auto simp: Clip3_def)
      ultimately show ?thesis by (metis nat_mono)
    qed
    moreover have "AL_AVC_GetMaxDPBSize level w h = Some (nat (?c w h))" using False assms by (simp add: val)
    moreover have "2 \<le> nat (?c w h)" "nat (?c w h) \<le> 16" using c [of w h] by linarith+
    ultimately show ?thesis using False by auto
  qed (use assms val [of w h] in auto)
qed

theorem avc_dpb_size_bounds_witness: "\<exists>n. AL_AVC_GetMaxDPBSize 40 1920 1080 = Some n \<and> 2 \<le> n \<and> n \<le> 16"
  using avc_dpb_size_bounds [of 1920 1080 40] by (cases "AL_AVC_GetMaxDPBSize 40 1920 1080") auto

lemma size_steps:
  assumes "a \<le> b" "b \<le> c" "c \<le> (d :: int)"
  shows "int (if p \<le> a then 16 else if p \<le> b then 12 else if p \<le> c then 9 else if p \<le> d then 8 else 6)
      \<noteq> (if p \<le> a then 16 else if p \<le> b then 12 else if p \<le> d then 8 else 6) \<longleftrightarrow> b < p \<and> p \<le> c"
  using assms by (cases "p \<le> a"; cases "p \<le> b"; cases "p \<le> c"; cases "p \<le> d") auto

text \<open>the two HEVC functions that relate picture size and buffer size do not agree: for a picture between
  half and two thirds of the level's luma limit one allows 9 pictures and the other 8, so a buffer of 9
  pictures the first accepts at a level makes the second require a higher level; everywhere else the
  allowed sizes are the same.\<close>

theorem hevc_dpb_size_mismatch:
  assumes "0 \<le> w" "0 \<le> h" "w * h \<le> INT32_MAX"
  shows "int (AL_HEVC_GetMaxDPBSize level w h) \<noteq> AL_HEVC_GetMaxDpbPicBuf (getMaxLumaPS level) (w * h)
    \<longleftrightarrow> getMaxLumaPS level div 2 < w * h \<and> w * h \<le> getMaxLumaPS level * 2 div 3"
proof -
  have sd: "a sdiv b = a div b" if "0 \<le> a" "0 < b" for a b :: int
    using that by (simp add: signed_divide_int_def sgn_if)
  have "0 \<le> w * h" using assms by simp
  then have i: "to_i32 (w * h) = w * h" using assms(3) by (intro to_i32_id) (simp add: i32_range_def INT32_MAX_def)
  have M: "0 \<le> getMaxLumaPS level" by (simp add: getMaxLumaPS_def)
  let ?M = "getMaxLumaPS level" and ?p = "w * h"
  have a: "?M div 4 \<le> ?M div 2" "?M div 2 \<le> ?M * 2 div 3" "?M * 2 div 3 \<le> 3 * ?M div 4"
    using M by linarith+
  have "drop_bit 2 ?M = ?M div 4" "drop_bit 1 ?M = ?M div 2" "drop_bit 2 (3 * ?M) = 3 * ?M div 4"
    by (simp_all add: drop_bit_eq_div)
  then have p: "AL_HEVC_GetMaxDpbPicBuf ?M ?p
      = (if ?p \<le> ?M div 4 then 16 else if ?p \<le> ?M div 2 then 12 else if ?p \<le> 3 * ?M div 4 then 8 else 6)"
    by (simp only: AL_HEVC_GetMaxDpbPicBuf_def)
  have q: "AL_HEVC_GetMaxDPBSize level w h
      = (if ?p \<le> ?M div 4 then 16 else if ?p \<le> ?M div 2 then 12 else if ?p \<le> ?M * 2 div 3 then 9
         else if ?p \<le> 3 * ?M div 4 then 8 else 6)"
    using M by (simp add: AL_HEVC_GetMaxDPBSize_def i sd Let_def)
  show ?thesis unfolding p q by (rule size_steps [OF a])
qed

theorem hevc_dpb_size_mismatch_witness:
  "AL_HEVC_GetMaxDPBSize 41 1280 1080 = 9 \<and> AL_HEVC_GetMaxDpbPicBuf (getMaxLumaPS 41) (1280 * 1080) \<noteq> 9
   \<and> AL_HEVC_GetLevelFromDPBSize 9 (1280 * 1080) = 50"
proof -
  have v: "AL_HEVC_GetMaxDPBSize 41 1280 1080 = 9"
    by (simp add: AL_HEVC_GetMaxDPBSize_def getMaxLumaPS_def Let_def to_i32_def signed_divide_int_def)
  moreover have "AL_HEVC_GetLevelFromDPBSize 9 (1280 * 1080) = 50"
    by (simp add: AL_HEVC_GetLevelFromDPBSize_def AL_HEVC_MAX_PIX_PER_FRAME_def AL_HEVC_GetMaxDpbPicBuf_def to_i32_def
        drop_bit_eq_div limits_def)
  moreover have "int (AL_HEVC_GetMaxDPBSize 41 1280 1080) \<noteq> AL_HEVC_GetMaxDpbPicBuf (getMaxLumaPS 41) (1280 * 1080)"
    using hevc_dpb_size_mismatch [of 1280 1080 41] by (simp add: INT32_MAX_def getMaxLumaPS_def)
  ultimately show ?thesis by simp
qed

end
