(* ===== verification/BitStream.thy ===== *)
theory BitStream imports Utils begin

text \<open>
  lib_bitstream/BitStreamLite.c: the bit writer of the encoder.

  \<open>pData\<close> is the memory block behind the stream; an access outside it is \<open>None\<close>, as is a failed
  assertion, a shift by the width or more and a loop that does not end.  The limit \<open>iMaxBits\<close> is the
  code's own guard.  Values are 32-bit words; counts of bits are natural numbers (a stream of 2^31 bits
  is not considered).
\<close>

unbundle bit_operations_syntax

record AL_TBitStreamLite =
  pData :: "u8 list"
  iBitCount :: nat
  iMaxBits :: nat
  isOverflow :: bool

definition AL_BitStreamLite_Init :: "u8 list \<Rightarrow> nat \<Rightarrow> AL_TBitStreamLite" where
  "AL_BitStreamLite_Init pBuf iMaxSize =
     \<lparr>pData = pBuf, iBitCount = 0, iMaxBits = iMaxSize * 8, isOverflow = False\<rparr>"

definition AL_BitStreamLite_Deinit :: "AL_TBitStreamLite \<Rightarrow> AL_TBitStreamLite" where
  "AL_BitStreamLite_Deinit pBS = pBS\<lparr>pData := [], iBitCount := 0\<rparr>"

definition AL_BitStreamLite_Reset :: "AL_TBitStreamLite \<Rightarrow> AL_TBitStreamLite" where
  "AL_BitStreamLite_Reset pBS = pBS\<lparr>iBitCount := 0\<rparr>"

definition AL_BitStreamLite_GetData :: "AL_TBitStreamLite \<Rightarrow> u8 list" where
  "AL_BitStreamLite_GetData pBS = pData pBS"

text \<open>The pointer to the current byte is its index.\<close>

definition AL_BitStreamLite_GetCurData :: "AL_TBitStreamLite \<Rightarrow> nat" where
  "AL_BitStreamLite_GetCurData pBS = iBitCount pBS div 8"

definition AL_BitStreamLite_GetBitsCount :: "AL_TBitStreamLite \<Rightarrow> nat" where
  "AL_BitStreamLite_GetBitsCount pBS = iBitCount pBS"

definition writeData :: "nat \<Rightarrow> u32 \<Rightarrow> AL_TBitStreamLite \<Rightarrow> AL_TBitStreamLite option" where
  "writeData iNumBits uValue pBS =
     (let byteNum = iBitCount pBS div 8;
          byteOffset = iBitCount pBS mod 8
      in if byteOffset + iNumBits \<le> 8 \<and> byteNum < length (pData pBS)
         then Some (if byteOffset = 0
                    then pBS\<lparr>pData := (pData pBS)[byteNum := ucast (push_bit (8 - iNumBits) uValue)]\<rparr>
                    else let bitsLeft = 8 - byteOffset
                         in pBS\<lparr>pData := (pData pBS)[byteNum := pData pBS ! byteNum
                                                       + ucast (push_bit (bitsLeft - iNumBits) uValue)]\<rparr>)
         else None)"

definition PutInByte :: "nat \<Rightarrow> u32 \<Rightarrow> AL_TBitStreamLite \<Rightarrow> AL_TBitStreamLite option" where
  "PutInByte iNumBits uValue pBS =
     do { bs \<leftarrow> (if iBitCount pBS + iNumBits \<le> iMaxBits pBS then writeData iNumBits uValue pBS
                else Some (pBS\<lparr>isOverflow := True\<rparr>));
          Some (bs\<lparr>iBitCount := iBitCount bs + iNumBits\<rparr>) }"

text \<open>The loop over whole bytes; \<open>byteValue\<close> is a \<open>uint8_t\<close>.\<close>

function put_loop :: "nat \<Rightarrow> u32 \<Rightarrow> AL_TBitStreamLite \<Rightarrow> AL_TBitStreamLite option" where
  "put_loop iNumBits uValue pBS =
     (let numBitsToWrite = 8 - iBitCount pBS mod 8 in
      if iNumBits > numBitsToWrite
      then let byteValue = ucast (ucast (drop_bit (iNumBits - numBitsToWrite) uValue) :: u8)
           in do { bs \<leftarrow> PutInByte numBitsToWrite byteValue pBS;
                   put_loop (iNumBits - numBitsToWrite) (uValue AND drop_bit numBitsToWrite 0xffffffff) bs }
      else PutInByte iNumBits uValue pBS)"
  by pat_completeness auto
termination by (relation "measure (\<lambda>(n, v, bs). n)") (auto intro: diff_less)

declare put_loop.simps [simp del]

definition AL_BitStreamLite_PutBits :: "nat \<Rightarrow> u32 \<Rightarrow> AL_TBitStreamLite \<Rightarrow> AL_TBitStreamLite option" where
  "AL_BitStreamLite_PutBits iNumBits uValue pBS =
     (if iNumBits = 32 \<or> iNumBits < 32 \<and> drop_bit iNumBits uValue = 0 then put_loop iNumBits uValue pBS else None)"

definition AL_BitStreamLite_PutU :: "nat \<Rightarrow> u32 \<Rightarrow> AL_TBitStreamLite \<Rightarrow> AL_TBitStreamLite option" where
  "AL_BitStreamLite_PutU iNumBits uValue pBS = AL_BitStreamLite_PutBits (iNumBits mod 256) uValue pBS"

definition AL_BitStreamLite_PutBit :: "u32 \<Rightarrow> AL_TBitStreamLite \<Rightarrow> AL_TBitStreamLite option" where
  "AL_BitStreamLite_PutBit iBit pBS =
     (if iBit = 0 \<or> iBit = 1 then AL_BitStreamLite_PutBits 1 iBit pBS else None)"

text \<open>The loop ends when the count reaches a byte boundary; each turn adds one bit.\<close>

fun align_loop :: "nat \<Rightarrow> u32 \<Rightarrow> AL_TBitStreamLite \<Rightarrow> AL_TBitStreamLite option" where
  "align_loop 0 iBit pBS = None"
| "align_loop (Suc fuel) iBit pBS =
     (if iBitCount pBS mod 8 \<noteq> 0
      then do { bs \<leftarrow> AL_BitStreamLite_PutBit iBit pBS; align_loop fuel iBit bs } else Some pBS)"

definition AL_BitStreamLite_AlignWithBits :: "u32 \<Rightarrow> AL_TBitStreamLite \<Rightarrow> AL_TBitStreamLite option" where
  "AL_BitStreamLite_AlignWithBits iBit pBS = align_loop 8 iBit pBS"

definition AL_BitStreamLite_EndOfSEIPayload :: "AL_TBitStreamLite \<Rightarrow> AL_TBitStreamLite option" where
  "AL_BitStreamLite_EndOfSEIPayload pBS =
     (if iBitCount pBS mod 8 \<noteq> 0
      then do { bs \<leftarrow> AL_BitStreamLite_PutBits 1 1 pBS; AL_BitStreamLite_AlignWithBits 0 bs }
      else Some pBS)"

definition AL_BitStreamLite_SkipBits :: "nat \<Rightarrow> AL_TBitStreamLite \<Rightarrow> AL_TBitStreamLite" where
  "AL_BitStreamLite_SkipBits numBits pBS =
     (let bs = pBS\<lparr>iBitCount := iBitCount pBS + numBits\<rparr>
      in if iBitCount bs > iMaxBits bs then bs\<lparr>isOverflow := True\<rparr> else bs)"

text \<open>\<open>uInfoLength\<close> is the width of a shift of an \<open>int\<close>.\<close>

definition putVclBits :: "nat \<Rightarrow> u32 \<Rightarrow> AL_TBitStreamLite \<Rightarrow> AL_TBitStreamLite option" where
  "putVclBits uCodeLength uValue pBS =
     (if uCodeLength = 1 then AL_BitStreamLite_PutU 1 1 pBS
      else let uInfoLength = (uCodeLength - 1) div 2;
               iBits = uValue + 1 - push_bit uInfoLength 1
           in if uInfoLength > 30 then None
              else do { bs1 \<leftarrow> AL_BitStreamLite_PutBits uInfoLength 0 pBS;
                        bs2 \<leftarrow> AL_BitStreamLite_PutBits 1 1 bs1;
                        AL_BitStreamLite_PutBits uInfoLength iBits bs2 })"

text \<open>The arithmetic shift of a negative number never reaches zero.\<close>

partial_function (option) bit_scan_reverse :: "int \<Rightarrow> int \<Rightarrow> int option" where
  "bit_scan_reverse NN i = (if NN \<noteq> 0 then bit_scan_reverse (NN div 2) (i + 1) else Some i)"

definition AL_BitStreamLite_PutUE :: "u32 \<Rightarrow> AL_TBitStreamLite \<Rightarrow> AL_TBitStreamLite option" where
  "AL_BitStreamLite_PutUE uValue pBS =
     do { r \<leftarrow> bit_scan_reverse (sint (uValue + 1)) (- 1);
          let uCodeLength = to_u32 (1 + 2 * r);
          putVclBits uCodeLength uValue pBS }"

definition AL_BitStreamLite_PutSE :: "int \<Rightarrow> AL_TBitStreamLite \<Rightarrow> AL_TBitStreamLite option" where
  "AL_BitStreamLite_PutSE iValue pBS =
     AL_BitStreamLite_PutUE
       (word_of_int (2 * (if iValue > 0 then iValue else - iValue) - (if iValue > 0 then 1 else 0))) pBS"

end
