(* ===== verification/BitStreamProofs.thy ===== *)
theory BitStreamProofs imports BitStream begin

text \<open>
  The bit writer against its contract: a sink to which fields of bits are appended.  \<open>written\<close> is the
  sequence of bits of a stream, most significant bit of each byte first; the contract is the locale
  \<open>bit_sink\<close>, and the fields of the Exp-Golomb codes are derived inside it.
\<close>

section \<open>Fields\<close>

definition field :: "nat \<Rightarrow> u32 \<Rightarrow> bool list" where
  "field n v = map (bit v) (rev [0..<n])"

lemma field_length [simp]: "length (field n v) = n"
  by (simp add: field_def)

lemma field_0 [simp]: "field 0 v = []"
  by (simp add: field_def)

lemma field_Suc: "field (Suc n) v = bit v n # field n v"
  by (simp add: field_def)

lemma field_nth: "i < n \<Longrightarrow> field n v ! i = bit v (n - 1 - i)"
  by (simp add: field_def rev_nth)

lemma field_split: "m \<le> n \<Longrightarrow> field n v = field (n - m) (drop_bit m v) @ field m v"
  by (rule nth_equalityI) (auto simp: field_nth nth_append bit_drop_bit_eq intro!: arg_cong2 [where f = bit])

lemma field_cong: "(\<And>i. i < n \<Longrightarrow> bit v i = bit w i) \<Longrightarrow> field n v = field n w"
  by (auto simp: field_def)

lemma small_bits: "drop_bit n (v :: u32) = 0 \<longleftrightarrow> (\<forall>i. bit v i \<longrightarrow> i < n)"
proof
  assume z: "drop_bit n v = 0"
  show "\<forall>i. bit v i \<longrightarrow> i < n"
  proof (intro allI impI, rule ccontr)
    fix i assume "bit v i" "\<not> i < n"
    then have "bit (drop_bit n v) (i - n)" by (simp add: bit_drop_bit_eq)
    with z show False by simp
  qed
next
  assume "\<forall>i. bit v i \<longrightarrow> i < n"
  then have "\<not> bit v (n + i)" for i by (metis not_add_less1)
  then show "drop_bit n v = 0" by (intro bit_eqI) (simp add: bit_drop_bit_eq)
qed

section \<open>The contract\<close>

fun put_all :: "(nat \<Rightarrow> u32 \<Rightarrow> 's \<Rightarrow> 's option) \<Rightarrow> (nat \<times> u32) list \<Rightarrow> 's \<Rightarrow> 's option" where
  "put_all put [] s = Some s"
| "put_all put ((n, v) # fs) s = do { t \<leftarrow> put n v s; put_all put fs t }"

definition fields :: "(nat \<times> u32) list \<Rightarrow> bool list" where
  "fields fs = concat (map (\<lambda>(n, v). field n v) fs)"

lemma fields_simps [simp]: "fields [] = []" "fields ((n, v) # fs) = field n v @ fields fs"
  "fields (fs @ gs) = fields fs @ fields gs"
  by (simp_all add: fields_def)

definition field_ok :: "nat \<times> u32 \<Rightarrow> bool" where
  "field_ok = (\<lambda>(n, v). 0 < n \<and> n \<le> 32 \<and> (n = 32 \<or> drop_bit n v = 0))"

locale bit_sink =
  fixes inv :: "'s \<Rightarrow> bool"
    and content :: "'s \<Rightarrow> bool list"
    and room :: "'s \<Rightarrow> nat"
    and put :: "nat \<Rightarrow> u32 \<Rightarrow> 's \<Rightarrow> 's option"
  assumes put_law: "inv s \<Longrightarrow> field_ok (n, v) \<Longrightarrow> n \<le> room s \<Longrightarrow>
    \<exists>t. put n v s = Some t \<and> inv t \<and> content t = content s @ field n v \<and> room t + n = room s"
begin

lemma put_all_law:
  "inv s \<Longrightarrow> \<forall>f \<in> set fs. field_ok f \<Longrightarrow> length (fields fs) \<le> room s \<Longrightarrow>
   \<exists>t. put_all put fs s = Some t \<and> inv t \<and> content t = content s @ fields fs
     \<and> room t + length (fields fs) = room s"
proof (induction fs arbitrary: s)
  case (Cons f fs)
  obtain n v where f: "f = (n, v)" by (cases f)
  with Cons.prems put_law [of s n v] obtain t where
    t: "put n v s = Some t" "inv t" "content t = content s @ field n v" "room t + n = room s" by auto
  with Cons f obtain u where "put_all put fs t = Some u" "inv u" "content u = content t @ fields fs"
    "room u + length (fields fs) = room t" by fastforce
  with t f show ?case by auto
qed simp

text \<open>Bytes are fields of eight bits.\<close>

lemma put_bytes_law:
  "inv s \<Longrightarrow> 8 * length bs \<le> room s \<Longrightarrow>
   \<exists>t. put_all put (map (\<lambda>b. (8, ucast (b :: u8))) bs) s = Some t \<and> inv t
     \<and> content t = content s @ fields (map (\<lambda>b. (8, ucast b)) bs) \<and> room t + 8 * length bs = room s"
proof -
  assume s: "inv s" "8 * length bs \<le> room s"
  have ok: "\<forall>f \<in> set (map (\<lambda>b. (8, ucast b)) bs). field_ok f"
    by (auto simp: field_ok_def small_bits bit_ucast_iff dest: bit_imp_le_length)
  have l: "length (fields (map (\<lambda>b. (8, ucast b)) bs)) = 8 * length bs" by (induction bs) auto
  from put_all_law [OF s(1) ok] s(2) l show ?thesis by simp
qed

end

section \<open>The stream\<close>

definition bit_at :: "u8 list \<Rightarrow> nat \<Rightarrow> bool" where
  "bit_at d k = bit (d ! (k div 8)) (7 - k mod 8)"

definition written :: "AL_TBitStreamLite \<Rightarrow> bool list" where
  "written bs = map (bit_at (pData bs)) [0..<iBitCount bs]"

text \<open>The bits of the current byte behind the written ones are zero, which the addition in
  \<open>writeData\<close> relies on.\<close>

definition bs_ok :: "AL_TBitStreamLite \<Rightarrow> bool" where
  "bs_ok bs \<longleftrightarrow> \<not> isOverflow bs \<and> 8 dvd iMaxBits bs \<and> iMaxBits bs \<le> 8 * length (pData bs)
     \<and> iBitCount bs \<le> iMaxBits bs
     \<and> (iBitCount bs mod 8 \<noteq> 0 \<longrightarrow> (\<forall>i < 8 - iBitCount bs mod 8. \<not> bit (pData bs ! (iBitCount bs div 8)) i))"

definition bs_room :: "AL_TBitStreamLite \<Rightarrow> nat" where
  "bs_room bs = iMaxBits bs - iBitCount bs"

lemma add_disjoint: "(\<And>i. \<not> (bit (a :: u8) i \<and> bit b i)) \<Longrightarrow> a + b = a OR b"
  by (rule disjunctive_add_eq_or) (auto simp: bit_eq_iff bit_and_iff)

text \<open>One piece of a byte.\<close>

lemma byte_piece:
  assumes "off + n \<le> 8" "off = 0 \<or> (\<forall>i < 8 - off. \<not> bit old i)" "off = 0 \<or> (\<forall>i. bit v i \<longrightarrow> i < n)"
    and new: "new = (if off = 0 then ucast (push_bit (8 - n) v) else (old :: u8) + ucast (push_bit (8 - off - n) (v :: u32)))"
  shows "bit new i \<longleftrightarrow> i < 8 \<and> (if 8 - off \<le> i then bit old i else if 8 - off - n \<le> i then bit v (i - (8 - off - n)) else False)"
proof (cases "off = 0")
  case True
  with assms show ?thesis
    by (auto simp: bit_ucast_iff bit_push_bit_iff dest: bit_imp_le_length)
next
  case False
  let ?w = "ucast (push_bit (8 - off - n) v) :: u8"
  have w: "bit ?w i \<longleftrightarrow> i < 8 \<and> 8 - off - n \<le> i \<and> bit v (i - (8 - off - n))" for i
    by (auto simp: bit_ucast_iff bit_push_bit_iff)
  have "\<not> (bit old i \<and> bit ?w i)" for i
  proof
    assume b: "bit old i \<and> bit ?w i"
    with False assms(2) have "8 - off \<le> i" by (meson linorder_not_less)
    moreover from b False assms(3) w have "i - (8 - off - n) < n" by blast
    ultimately show False using assms(1) by auto
  qed
  then have "new = old OR ?w" using new False add_disjoint by simp
  then have "bit new i \<longleftrightarrow> bit old i \<or> bit ?w i" by (simp add: bit_or_iff)
  also have "\<dots> \<longleftrightarrow> i < 8 \<and> (if 8 - off \<le> i then bit old i else if 8 - off - n \<le> i then bit v (i - (8 - off - n)) else False)"
  proof (cases "8 - off \<le> i")
    case True
    with False assms(1,3) have "\<not> bit ?w i" unfolding w by force
    with True show ?thesis using bit_imp_le_length [of old i] by auto
  next
    case F: False
    with False assms(2) have "\<not> bit old i" by auto
    with F show ?thesis unfolding w by auto
  qed
  finally show ?thesis .
qed


lemma count_split:
  assumes "c mod 8 + n \<le> (8 :: nat)" "j < n"
  shows "(c + j) div 8 = c div 8" "(c + j) mod 8 = c mod 8 + j"
proof -
  obtain q r where c: "c = 8 * q + r" "r < 8" by (metis div_mod_decomp mult.commute mod_less_divisor zero_less_numeral)
  with assms have "r + j < 8" by simp
  with c show "(c + j) div 8 = c div 8" "(c + j) mod 8 = c mod 8 + j" by (simp_all add: add.assoc)
qed

lemma piece_end:
  assumes "c mod 8 + n \<le> (8 :: nat)" "(c + n) mod 8 \<noteq> 0"
  shows "(c + n) div 8 = c div 8" "(c + n) mod 8 = c mod 8 + n"
proof -
  obtain q r where c: "c = 8 * q + r" "r < 8" by (metis div_mod_decomp mult.commute mod_less_divisor zero_less_numeral)
  with assms(1) have "r + n \<le> 8" by simp
  moreover have "r + n \<noteq> 8"
  proof
    assume "r + n = 8"
    with c have "c + n = 8 * (q + 1)" by simp
    with assms(2) show False by (metis mod_mult_self1_is_0)
  qed
  ultimately show "(c + n) div 8 = c div 8" "(c + n) mod 8 = c mod 8 + n"
    using c by (simp_all add: add.assoc)
qed

lemma same_byte: "k div 8 = c div 8 \<Longrightarrow> k < c \<Longrightarrow> k mod 8 < c mod (8 :: nat)"
  by (metis div_mult_mod_eq nat_add_left_cancel_less)

lemma to_boundary: "(c + (8 - c mod 8)) mod 8 = (0 :: nat)"
proof -
  obtain q r where c: "c = 8 * q + r" "r < 8" by (metis div_mod_decomp mult.commute mod_less_divisor zero_less_numeral)
  then have "c + (8 - c mod 8) = 8 * (q + 1)" by simp
  then show ?thesis by (metis mod_mult_self1_is_0)
qed

lemma all_ones: "i < 32 \<Longrightarrow> bit (0xffffffff :: u32) i"
proof -
  have "(0xffffffff :: u32) = mask 32" by (simp add: mask_eq_exp_minus_1)
  then show "i < 32 \<Longrightarrow> bit (0xffffffff :: u32) i" by (simp only: bit_mask_iff) simp
qed

lemma PutInByte_law:
  assumes ok: "bs_ok bs" and n: "iBitCount bs mod 8 + n \<le> 8" "0 < n" "n \<le> bs_room bs"
    and v: "iBitCount bs mod 8 = 0 \<or> (\<forall>i. bit v i \<longrightarrow> i < n)"
  shows "\<exists>t. PutInByte n v bs = Some t \<and> bs_ok t \<and> written t = written bs @ field n v
    \<and> iBitCount t = iBitCount bs + n \<and> iMaxBits t = iMaxBits bs \<and> length (pData t) = length (pData bs)"
proof -
  let ?c = "iBitCount bs" and ?d = "pData bs"
  let ?off = "?c mod 8" and ?b = "?c div 8"
  have room: "?c + n \<le> iMaxBits bs" using n(2,3) unfolding bs_room_def by linarith
  have b: "?b < length ?d" using room ok n(2) by (auto simp: bs_ok_def)
  define new where "new = (if ?off = 0 then ucast (push_bit (8 - n) v)
    else ?d ! ?b + ucast (push_bit (8 - ?off - n) v))"
  let ?t = "bs\<lparr>pData := ?d[?b := new], iBitCount := ?c + n\<rparr>"
  have "\<forall>i < 8 - ?off. \<not> bit (?d ! ?b) i" if "?off \<noteq> 0" using ok that by (auto simp: bs_ok_def)
  then have old: "?off = 0 \<or> (\<forall>i < 8 - ?off. \<not> bit (?d ! ?b) i)" by blast
  note piece = byte_piece [OF n(1) old v new_def]
  have run: "PutInByte n v bs = Some ?t"
    using room b n(1) by (auto simp: PutInByte_def writeData_def new_def Let_def)
  have new_at: "?d[?b := new] ! ?b = new" using b by simp
  have before: "bit_at (?d[?b := new]) k = bit_at ?d k" if "k < ?c" for k
  proof (cases "k div 8 = ?b")
    case True
    with that have "k mod 8 < ?off" by (intro same_byte)
    then have "8 - ?off \<le> 7 - k mod 8" "7 - k mod 8 < 8" by linarith+
    with True new_at show ?thesis unfolding bit_at_def True new_at piece by simp
  next
    case False
    then show ?thesis by (simp add: bit_at_def)
  qed
  have after: "bit_at (?d[?b := new]) (?c + j) = field n v ! j" if "j < n" for j
  proof -
    from count_split [OF n(1) that] new_at have "bit_at (?d[?b := new]) (?c + j) = bit new (7 - (?off + j))"
      by (simp add: bit_at_def)
    also have "\<dots> = bit v (7 - (?off + j) - (8 - ?off - n))" unfolding piece using that n(1) le_less_trans [of "7 - (?off + j)" 7 8] by (auto simp: diff_le_self)
    also have "7 - (?off + j) - (8 - ?off - n) = n - 1 - j" using that n(1) by simp
    finally show ?thesis using that by (simp add: field_nth)
  qed
  have "written ?t = written bs @ field n v"
  proof (rule nth_equalityI)
    show "length (written ?t) = length (written bs @ field n v)" by (simp add: written_def)
    fix i assume "i < length (written ?t)"
    then have i: "i < ?c + n" by (simp add: written_def)
    show "written ?t ! i = (written bs @ field n v) ! i"
    proof (cases "i < ?c")
      case True
      with before i show ?thesis by (simp add: written_def nth_append)
    next
      case False
      with i after [of "i - ?c"] show ?thesis by (simp add: written_def nth_append)
    qed
  qed
  moreover have "bs_ok ?t"
  proof -
    have "\<not> bit (?d[?b := new] ! ((?c + n) div 8)) i" if "(?c + n) mod 8 \<noteq> 0" "i < 8 - (?c + n) mod 8" for i
    proof -
      have e: "(?c + n) div 8 = ?b" "(?c + n) mod 8 = ?off + n" using piece_end [OF n(1) that(1)] .
      have "\<not> 8 - ?off \<le> i" "\<not> 8 - ?off - n \<le> i" using that(2) n(2) unfolding e(2) by linarith+
      then show ?thesis unfolding e new_at piece by simp
    qed
    with ok room show ?thesis by (simp add: bs_ok_def)
  qed
  ultimately show ?thesis using run by simp
qed

lemma put_loop_law:
  "bs_ok bs \<Longrightarrow> 0 < n \<Longrightarrow> n \<le> 32 \<Longrightarrow> n \<le> bs_room bs \<Longrightarrow> iBitCount bs mod 8 = 0 \<or> (\<forall>i. bit v i \<longrightarrow> i < n) \<Longrightarrow>
   \<exists>t. put_loop n v bs = Some t \<and> bs_ok t \<and> written t = written bs @ field n v
    \<and> iBitCount t = iBitCount bs + n \<and> iMaxBits t = iMaxBits bs \<and> length (pData t) = length (pData bs)"
proof (induction n v bs rule: put_loop.induct)
  case (1 n v bs)
  let ?k = "8 - iBitCount bs mod 8"
  show ?case
  proof (cases "n > ?k")
    case False
    then have "put_loop n v bs = PutInByte n v bs" by (subst put_loop.simps) (simp add: Let_def)
    moreover from False have "iBitCount bs mod 8 + n \<le> 8" by simp
    ultimately show ?thesis using PutInByte_law [of bs n v] "1.prems" by simp
  next
    case True
    let ?byte = "ucast (ucast (drop_bit (n - ?k) v) :: u8) :: u32"
    let ?v = "v AND drop_bit ?k 0xffffffff"
    have k: "0 < ?k" "iBitCount bs mod 8 + ?k \<le> 8" by (simp_all add: mod_less_divisor)
    have byte: "bit ?byte i \<longleftrightarrow> i < 8 \<and> bit v (n - ?k + i)" for i
      by (auto simp: bit_ucast_iff bit_drop_bit_eq dest: bit_imp_le_length)
    have small: "iBitCount bs mod 8 = 0 \<or> (\<forall>i. bit ?byte i \<longrightarrow> i < ?k)"
    proof (cases "iBitCount bs mod 8 = 0")
      case False
      with "1.prems"(5) have "\<forall>i. bit v i \<longrightarrow> i < n" by blast
      have "i < ?k" if "bit ?byte i" for i
      proof -
        have "n - ?k + i < n" using that byte \<open>\<forall>i. bit v i \<longrightarrow> i < n\<close> by blast
        with True show ?thesis by linarith
      qed
      then show ?thesis by blast
    qed simp
    from PutInByte_law [OF "1.prems"(1) k(2,1) _ small] True "1.prems"(4) obtain t where
      t: "PutInByte ?k ?byte bs = Some t" "bs_ok t" "written t = written bs @ field ?k ?byte"
        "iBitCount t = iBitCount bs + ?k" "iMaxBits t = iMaxBits bs" "length (pData t) = length (pData bs)" by auto
    have al: "iBitCount t mod 8 = 0" unfolding t(4) by (rule to_boundary)
    have "field ?k ?byte = field ?k (drop_bit (n - ?k) v)"
    proof (rule field_cong)
      fix i assume "i < ?k"
      then have "i < 8" by linarith
      then show "bit ?byte i = bit (drop_bit (n - ?k) v) i" unfolding byte bit_drop_bit_eq by simp
    qed
    moreover have "field (n - ?k) ?v = field (n - ?k) v"
    proof (rule field_cong)
      fix i assume "i < n - ?k"
      with "1.prems"(3) have "?k + i < 32" by linarith
      then show "bit ?v i = bit v i" using all_ones [of "?k + i"] unfolding bit_and_iff bit_drop_bit_eq o_apply by (simp only: simp_thms)
    qed
    moreover have "field n v = field ?k (drop_bit (n - ?k) v) @ field (n - ?k) v"
      using field_split [of "n - ?k" n v] True by simp
    ultimately have f: "field n v = field ?k ?byte @ field (n - ?k) ?v" by simp
    have p: "0 < n - ?k" "n - ?k \<le> 32" "n - ?k \<le> bs_room t"
      using True "1.prems"(3,4) unfolding bs_room_def t(4,5) by linarith+
    from al have "iBitCount t mod 8 = 0 \<or> (\<forall>i. bit ?v i \<longrightarrow> i < n - ?k)" by blast
    from "1.IH" [OF refl True refl t(1,2) p this] obtain u where
      u: "put_loop (n - ?k) ?v t = Some u" "bs_ok u" "written u = written t @ field (n - ?k) ?v"
      "iBitCount u = iBitCount t + (n - ?k)" "iMaxBits u = iMaxBits t" "length (pData u) = length (pData t)"
      by blast
    have "iBitCount u = iBitCount bs + n" using True unfolding u(4) t(4) by linarith
    moreover have "put_loop n v bs = put_loop (n - ?k) ?v t"
      using True t(1) by (subst put_loop.simps) (simp add: Let_def)
    ultimately show ?thesis using t u f by simp
  qed
qed


lemma PutBits_law:
  assumes "bs_ok bs" "field_ok (n, v)" "n \<le> bs_room bs"
  shows "\<exists>t. AL_BitStreamLite_PutBits n v bs = Some t \<and> bs_ok t \<and> written t = written bs @ field n v
    \<and> iBitCount t = iBitCount bs + n \<and> iMaxBits t = iMaxBits bs \<and> length (pData t) = length (pData bs)"
proof -
  from assms(2) have n: "0 < n" "n \<le> 32" "n = 32 \<or> drop_bit n v = 0" by (auto simp: field_ok_def)
  have "\<forall>i. bit v i \<longrightarrow> i < n"
    using n(3) by (auto simp: small_bits dest: bit_imp_le_length)
  moreover have "AL_BitStreamLite_PutBits n v bs = put_loop n v bs"
    using n(2,3) by (auto simp: AL_BitStreamLite_PutBits_def)
  ultimately show ?thesis using put_loop_law [OF assms(1) n(1,2) assms(3)] by simp
qed

text \<open>The bit writer of the code is a bit sink.\<close>

interpretation bs: bit_sink bs_ok written bs_room AL_BitStreamLite_PutBits
proof unfold_locales
  fix s :: AL_TBitStreamLite and n v
  assume "bs_ok s" "field_ok (n, v)" "n \<le> bs_room s"
  with PutBits_law show "\<exists>t. AL_BitStreamLite_PutBits n v s = Some t \<and> bs_ok t
      \<and> written t = written s @ field n v \<and> bs_room t + n = bs_room s"
    by (fastforce simp: bs_room_def)
qed

section \<open>Beyond the end\<close>

definition bs_fit :: "AL_TBitStreamLite \<Rightarrow> bool" where
  "bs_fit bs \<longleftrightarrow> iMaxBits bs \<le> 8 * length (pData bs)"

lemma PutInByte_fit:
  assumes "bs_fit bs" "iBitCount bs mod 8 + n \<le> 8" "0 < n"
  shows "\<exists>t. PutInByte n v bs = Some t \<and> bs_fit t \<and> iBitCount t = iBitCount bs + n \<and> iMaxBits t = iMaxBits bs
    \<and> length (pData t) = length (pData bs) \<and> (isOverflow t \<longleftrightarrow> isOverflow bs \<or> iBitCount bs + n > iMaxBits bs)"
proof (cases "iBitCount bs + n \<le> iMaxBits bs")
  case True
  with assms have "iBitCount bs div 8 < length (pData bs)" by (auto simp: bs_fit_def)
  with True assms show ?thesis by (auto simp: PutInByte_def writeData_def bs_fit_def Let_def)
next
  case False
  with assms show ?thesis by (auto simp: PutInByte_def bs_fit_def)
qed

lemma put_loop_fit:
  "bs_fit bs \<Longrightarrow> 0 < n \<Longrightarrow>
   \<exists>t. put_loop n v bs = Some t \<and> bs_fit t \<and> iBitCount t = iBitCount bs + n \<and> iMaxBits t = iMaxBits bs
    \<and> length (pData t) = length (pData bs) \<and> (isOverflow t \<longleftrightarrow> isOverflow bs \<or> iBitCount bs + n > iMaxBits bs)"
proof (induction n v bs rule: put_loop.induct)
  case (1 n v bs)
  let ?k = "8 - iBitCount bs mod 8"
  show ?case
  proof (cases "n > ?k")
    case False
    then have "put_loop n v bs = PutInByte n v bs" by (subst put_loop.simps) (simp add: Let_def)
    moreover from False have "iBitCount bs mod 8 + n \<le> 8" by simp
    ultimately show ?thesis using PutInByte_fit [of bs n v] "1.prems" by simp
  next
    case True
    let ?byte = "ucast (ucast (drop_bit (n - ?k) v) :: u8) :: u32"
    have k: "0 < ?k" "iBitCount bs mod 8 + ?k \<le> 8" by (simp_all add: mod_less_divisor)
    from PutInByte_fit [OF "1.prems"(1) k(2,1), of ?byte] obtain t where
      t: "PutInByte ?k ?byte bs = Some t" "bs_fit t" "iBitCount t = iBitCount bs + ?k" "iMaxBits t = iMaxBits bs"
        "length (pData t) = length (pData bs)" "isOverflow t \<longleftrightarrow> isOverflow bs \<or> iBitCount bs + ?k > iMaxBits bs"
      by blast
    from True have p: "0 < n - ?k" by linarith
    from "1.IH" [OF refl True refl t(1,2) p] obtain u where
      u: "put_loop (n - ?k) (v AND drop_bit ?k 0xffffffff) t = Some u" "bs_fit u"
      "iBitCount u = iBitCount t + (n - ?k)" "iMaxBits u = iMaxBits t" "length (pData u) = length (pData t)"
      "isOverflow u \<longleftrightarrow> isOverflow t \<or> iBitCount t + (n - ?k) > iMaxBits t"
      by blast
    have c: "iBitCount t + (n - ?k) = iBitCount bs + n" using True unfolding t(3) by linarith
    have "iBitCount bs + ?k > iMaxBits bs \<longrightarrow> iBitCount bs + n > iMaxBits bs" using True by linarith
    moreover have "put_loop n v bs = Some u"
      using True t(1) u(1) by (subst put_loop.simps) (simp add: Let_def)
    ultimately show ?thesis using t u c by auto
  qed
qed

text \<open>C30: \<open>AL_BitStreamLite_PutBits\<close> with 1 to 32 bits of a value that fits never leaves the memory block:
  it advances the count by the number of bits and raises the overflow flag exactly when the count
  passes the limit.  As long as it does not, the stream is its old bits followed by the bits of the
  value, most significant first, whatever the alignment and the old content of the block.\<close>

theorem put_bits_correct:
  assumes "0 < n" "n \<le> 32" "n = 32 \<or> drop_bit n v = 0" "bs_fit bs"
  shows "\<exists>t. AL_BitStreamLite_PutBits n v bs = Some t \<and> iBitCount t = iBitCount bs + n
    \<and> length (pData t) = length (pData bs) \<and> iMaxBits t = iMaxBits bs
    \<and> (isOverflow t \<longleftrightarrow> isOverflow bs \<or> iBitCount bs + n > iMaxBits bs)
    \<and> (bs_ok bs \<and> iBitCount bs + n \<le> iMaxBits bs \<longrightarrow> bs_ok t \<and> written t = written bs @ field n v)"
proof -
  have run: "AL_BitStreamLite_PutBits n v bs = put_loop n v bs"
    using assms(2,3) by (auto simp: AL_BitStreamLite_PutBits_def)
  from put_loop_fit [OF assms(4,1), of v] obtain t where
    t: "put_loop n v bs = Some t" "iBitCount t = iBitCount bs + n" "iMaxBits t = iMaxBits bs"
      "length (pData t) = length (pData bs)" "isOverflow t \<longleftrightarrow> isOverflow bs \<or> iBitCount bs + n > iMaxBits bs"
    by blast
  have "bs_ok t \<and> written t = written bs @ field n v" if "bs_ok bs" "iBitCount bs + n \<le> iMaxBits bs"
  proof -
    have "field_ok (n, v)" "n \<le> bs_room bs" using assms(1-3) that(2) by (auto simp: field_ok_def bs_room_def)
    from PutBits_law [OF that(1) this] run t(1) show ?thesis by auto
  qed
  with t run show ?thesis by auto
qed

lemma init_ok: "8 * m \<le> 8 * length d \<Longrightarrow> bs_ok (AL_BitStreamLite_Init d m)"
  "written (AL_BitStreamLite_Init d m) = []" "bs_room (AL_BitStreamLite_Init d m) = 8 * m"
  by (simp_all add: bs_ok_def AL_BitStreamLite_Init_def written_def bs_room_def)

theorem put_bits_correct_witness:
  "\<exists>t. AL_BitStreamLite_PutBits 12 0xabc (AL_BitStreamLite_Init [1, 2, 3] 3) = Some t
    \<and> written t = field 12 0xabc \<and> \<not> isOverflow t"
proof -
  have s: "drop_bit 12 (0xabc :: u32) = 0" by (simp add: drop_bit_eq_div)
  from put_bits_correct [of 12 "0xabc" "AL_BitStreamLite_Init [1, 2, 3] 3"] s init_ok(1) [of 3 "[1, 2, 3]"]
  show ?thesis by (auto simp: bs_fit_def AL_BitStreamLite_Init_def written_def)
qed

text \<open>the documented call with no bits at all writes one byte behind the block when the stream is full.\<close>

theorem put_no_bits_out_of_bounds:
  assumes "iBitCount bs = 8 * length (pData bs)" "iMaxBits bs = 8 * length (pData bs)"
  shows "AL_BitStreamLite_PutBits 0 0 bs = None"
  using assms by (simp add: AL_BitStreamLite_PutBits_def put_loop.simps Let_def PutInByte_def writeData_def)

theorem put_no_bits_out_of_bounds_witness:
  "\<exists>t. AL_BitStreamLite_PutBits 8 1 (AL_BitStreamLite_Init [0] 1) = Some t \<and> AL_BitStreamLite_PutBits 0 0 t = None"
proof -
  have "drop_bit 8 (1 :: u32) = 0" by (simp add: drop_bit_eq_div)
  with put_bits_correct [of 8 1 "AL_BitStreamLite_Init [0] 1"] obtain t where
    t: "AL_BitStreamLite_PutBits 8 1 (AL_BitStreamLite_Init [0] 1) = Some t" "iBitCount t = 8" "length (pData t) = 1"
      "iMaxBits t = 8" by (auto simp: bs_fit_def AL_BitStreamLite_Init_def)
  with put_no_bits_out_of_bounds [of t] show ?thesis by simp
qed

end
