(* ===== verification/ExpGolomb.thy ===== *)
theory ExpGolomb imports BitStreamProofs begin

text \<open>
  The Exp-Golomb codes of the writer: the code of a value is as many zeros as its successor has bits
  after the first, followed by the successor; which values the writer can encode and where it hangs.
\<close>

section \<open>The code\<close>

definition ue_bits :: "nat \<Rightarrow> bool list" where
  "ue_bits v = replicate (nat (floor_log2 (v + 1))) False @ field (nat (floor_log2 (v + 1)) + 1) (of_nat (v + 1))"

definition se_code :: "int \<Rightarrow> nat" where
  "se_code i = nat (if i > 0 then 2 * i - 1 else - 2 * i)"

lemma floor_log2_bounds:
  assumes "n > 0"
  shows "2 ^ nat (floor_log2 n) \<le> n" "n < 2 ^ (nat (floor_log2 n) + 1)" "0 \<le> floor_log2 n"
proof -
  from count_bits_bounds [OF assms] obtain k where
    k: "count_bits n 0 = int k + 1" "2 ^ k \<le> n" "n < 2 ^ (k + 1)" by blast
  have "floor_log2 n = int k" using k(1) count_bits_shift [of n "- 1"] by (simp add: floor_log2_def)
  with k show "2 ^ nat (floor_log2 n) \<le> n" "n < 2 ^ (nat (floor_log2 n) + 1)" "0 \<le> floor_log2 n" by simp_all
qed

lemma floor_log2_less: "0 < n \<Longrightarrow> n < 2 ^ k \<Longrightarrow> nat (floor_log2 n) < k"
proof -
  assume "0 < n" "n < 2 ^ k"
  with floor_log2_bounds(1) [of n] have "2 ^ nat (floor_log2 n) < (2 :: nat) ^ k" by linarith
  then show ?thesis by simp
qed

section \<open>Number of bits of the code\<close>

lemma bit_scan_reverse_nat: "bit_scan_reverse (int n) i = Some (count_bits n i)"
proof (induction n arbitrary: i rule: less_induct)
  case (less n)
  show ?case
  proof (cases "n = 0")
    case True
    then show ?thesis by (simp add: bit_scan_reverse.simps count_bits.simps)
  next
    case False
    then have "bit_scan_reverse (int (n div 2)) (i + 1) = Some (count_bits (n div 2) (i + 1))"
      by (intro less) simp
    with False show ?thesis
      by (simp add: bit_scan_reverse.simps [of "int n"] count_bits.simps [of n] zdiv_int)
  qed
qed

lemma bit_scan_reverse_nonneg:
  assumes "bit_scan_reverse NN i = Some r"
  shows "0 \<le> NN"
proof (rule bit_scan_reverse.raw_induct [OF _ assms])
  fix f NN i r
  assume IH: "\<And>NN i r. f NN i = Some r \<Longrightarrow> 0 \<le> (NN :: int)"
    and e: "(if NN \<noteq> 0 then f (NN div 2) (i + 1) else Some i) = Some r"
  show "0 \<le> NN"
  proof (cases "NN = 0")
    case False
    with IH [of "NN div 2" "i + 1" r] e show ?thesis by simp
  qed simp
qed

lemma bit_scan_reverse_negative: "NN < 0 \<Longrightarrow> bit_scan_reverse NN i = None"
  using bit_scan_reverse_nonneg [of NN i] by (cases "bit_scan_reverse NN i") auto

section \<open>Writing\<close>

lemma unat_suc: "unat (v :: u32) < 4294967295 \<Longrightarrow> unat (v + 1) = unat v + 1"
  using unat_add_lem [of v 1] by simp

lemma field_top:
  assumes "2 ^ k \<le> unat w" "unat w < 2 ^ (k + 1)" "k < 32"
  shows "bit (w :: u32) k" "field k (w - push_bit k 1) = field k w" "drop_bit k (w - push_bit k 1) = 0"
proof -
  have "bit (unat w) k"
  proof -
    have "unat w div 2 ^ k = 1" using assms(1,2) by (intro div_nat_eqI) simp_all
    then show ?thesis by (simp add: bit_iff_odd)
  qed
  then show b: "bit w k" by (simp add: bit_unsigned_iff)
  have e: "w = push_bit k 1 OR take_bit k w"
  proof (rule bit_word_eqI)
    fix i assume "i < LENGTH(32)"
    have "\<not> bit w i" if "k < i"
    proof -
      have "unat w < 2 ^ i" using assms(2) power_increasing [of "k + 1" i "2 :: nat"] that by simp
      then have "\<not> bit (unat w) i" by (simp add: bit_iff_odd)
      then show ?thesis using \<open>i < LENGTH(32)\<close> by (simp add: bit_unsigned_iff)
    qed
    then consider "i < k" | "i = k" "i < 32" | "k < i" "\<not> bit w i" using \<open>i < LENGTH(32)\<close> by fastforce
    then show "bit w i = bit (push_bit k 1 OR take_bit k w) i"
      by cases (use b in \<open>auto simp: bit_or_iff bit_push_bit_iff bit_take_bit_iff bit_exp_iff\<close>)
  qed
  have "push_bit k 1 + take_bit k w = push_bit k 1 OR take_bit k w"
    by (rule disjunctive_add_eq_or) (rule bit_eqI, auto simp: bit_and_iff bit_push_bit_iff bit_take_bit_iff bit_exp_iff)
  with e have r: "w - push_bit k 1 = take_bit k w" by (metis add_diff_cancel_left')
  show "field k (w - push_bit k 1) = field k w"
    unfolding r by (rule field_cong) (simp add: bit_take_bit_iff)
  show "drop_bit k (w - push_bit k 1) = 0"
    unfolding r by (rule bit_eqI) (auto simp: bit_drop_bit_eq bit_take_bit_iff)
qed


lemma field_zero [simp]: "field n 0 = replicate n False"
  by (rule nth_equalityI) (simp_all add: field_nth)

lemma field_one: "field 1 1 = [True]"
  by (simp add: field_def bit_1_iff)

lemma PutVcl_law:
  assumes "bs_ok bs" "2 ^ k \<le> unat v + 1" "unat v + 1 < 2 ^ (k + 1)" "k \<le> 30" "2 * k + 1 \<le> bs_room bs"
  shows "\<exists>t. putVclBits (1 + 2 * k) v bs = Some t \<and> bs_ok t \<and> bs_room t + (2 * k + 1) = bs_room bs
    \<and> written t = written bs @ replicate k False @ field (k + 1) (v + 1)"
proof -
  have "(2 :: nat) ^ (k + 1) \<le> 2 ^ 31" using assms(4) by (intro power_increasing) auto
  then have u: "unat (v + 1) = unat v + 1" using assms(3) by (intro unat_suc) simp
  note T = field_top [of k "v + 1", unfolded u, OF assms(2,3)] 
  have top: "bit (v + 1) k" "field k (v + 1 - push_bit k 1) = field k (v + 1)" "drop_bit k (v + 1 - push_bit k 1) = 0"
    using T assms(4) by simp_all
  have one: "field_ok (1, 1)" by (simp add: field_ok_def small_bits bit_1_iff)
  show ?thesis
  proof (cases "k = 0")
    case True
    with assms(2,3) have v: "v = 0" by (simp add: unat_eq_0)
    from bs.put_law [OF assms(1) one] assms(5) True obtain t where
      "AL_BitStreamLite_PutBits 1 1 bs = Some t" "bs_ok t" "written t = written bs @ field 1 1" "bs_room t + 1 = bs_room bs"
      by auto
    with True v show ?thesis by (simp add: putVclBits_def AL_BitStreamLite_PutU_def field_one)
  next
    case False
    let ?fs = "[(k, 0), (1, 1), (k, v + 1 - push_bit k 1)]"
    have ok: "\<forall>f \<in> set ?fs. field_ok f" using False assms(4) one top(3) by (auto simp: field_ok_def)
    have e: "fields ?fs = replicate k False @ field (k + 1) (v + 1)"
      using top(1,2) by (simp add: field_Suc field_one)
    have l: "length (fields ?fs) = 2 * k + 1" unfolding e by simp
    from bs.put_all_law [OF assms(1) ok] assms(5) obtain t where
      t: "put_all AL_BitStreamLite_PutBits ?fs bs = Some t" "bs_ok t" "written t = written bs @ fields ?fs"
        "bs_room t + length (fields ?fs) = bs_room bs" unfolding l by auto
    have "putVclBits (1 + 2 * k) v bs = Some t"
      using t(1) False assms(4) by (auto simp: putVclBits_def Let_def split: bind_split bind_split_asm)
    with t show ?thesis unfolding e by simp
  qed
qed

lemma PutUE_law:
  assumes "bs_ok bs" "unat v < 2147483647" "length (ue_bits (unat v)) \<le> bs_room bs"
  shows "\<exists>t. AL_BitStreamLite_PutUE v bs = Some t \<and> bs_ok t \<and> written t = written bs @ ue_bits (unat v)
    \<and> bs_room t + length (ue_bits (unat v)) = bs_room bs"
proof -
  let ?m = "unat v + 1" let ?k = "nat (floor_log2 ?m)"
  have u: "unat (v + 1) = ?m" using assms(2) by (intro unat_suc) simp
  have b: "2 ^ ?k \<le> ?m" "?m < 2 ^ (?k + 1)" "0 \<le> floor_log2 ?m" using floor_log2_bounds [of ?m] by simp_all
  have "?k < 31" using assms(2) by (intro floor_log2_less) simp_all
  then have k: "?k \<le> 30" by simp
  have s: "sint (v + 1) = int ?m"
  proof -
    have "uint (v + 1) = int ?m" using u by (metis uint_nat)
    moreover have "int ?m < 2147483648" using assms(2) by linarith
    ultimately show ?thesis by (simp only: sint_uint) (simp add: signed_take_bit_int_eq_self_iff)
  qed
  have bs: "bit_scan_reverse (sint (v + 1)) (- 1) = Some (int ?k)"
    unfolding s bit_scan_reverse_nat using b(3) by (simp add: floor_log2_def)
  have l: "length (ue_bits (unat v)) = 2 * ?k + 1" by (simp add: ue_bits_def)
  have "to_u32 (1 + 2 * int ?k) = 1 + 2 * ?k" using k by (subst to_u32_id) auto
  with bs have run: "AL_BitStreamLite_PutUE v bs = putVclBits (1 + 2 * ?k) v bs"
    by (simp add: AL_BitStreamLite_PutUE_def Let_def)
  have e: "ue_bits (unat v) = replicate ?k False @ field (?k + 1) (v + 1)"
    using u by (simp add: ue_bits_def add.commute)
  from PutVcl_law [OF assms(1) b(1,2) k assms(3) [unfolded l]] obtain t where
    "putVclBits (1 + 2 * ?k) v bs = Some t" "bs_ok t" "bs_room t + (2 * ?k + 1) = bs_room bs"
    "written t = written bs @ replicate ?k False @ field (?k + 1) (v + 1)" by (elim exE conjE)
  then show ?thesis unfolding run l unfolding e by (intro exI [of _ t] conjI)
qed


lemma PutUE_hangs:
  assumes "2147483647 \<le> unat v"
  shows "AL_BitStreamLite_PutUE v bs = None"
proof (cases "unat v = 4294967295")
  case True
  then have "unat (v + 1) = 0" by (simp add: unat_word_ariths)
  then have "v + 1 = 0" by (simp only: unat_eq_0)
  then show ?thesis
    by (simp add: AL_BitStreamLite_PutUE_def bit_scan_reverse.simps putVclBits_def to_u32_def Let_def)
next
  case False
  moreover have "unat v < 4294967296" using unsigned_less [of v] by simp
  ultimately have u: "unat (v + 1) = unat v + 1" by (intro unat_suc) simp
  then have "uint (v + 1) = int (unat v + 1)" by (metis uint_nat)
  moreover have "bit (uint (v + 1)) 31"
  proof -
    have "unat v + 1 < 4294967296" using False \<open>unat v < 4294967296\<close> by simp
    with assms have "(unat v + 1) div 2 ^ 31 = 1" by (intro div_nat_eqI) simp_all
    then have "bit (unat v + 1) 31" by (simp add: bit_iff_odd)
    then have "bit (unat (v + 1)) 31" unfolding u .
    then show ?thesis by (simp only: bit_unsigned_iff) simp
  qed
  ultimately have "sint (v + 1) < 0"
    by (simp only: sint_uint) (simp add: signed_take_bit_negative_iff)
  then show ?thesis by (simp add: AL_BitStreamLite_PutUE_def bit_scan_reverse_negative)
qed

lemma PutSE_eq:
  assumes "\<bar>i\<bar> < 2147483648"
  shows "AL_BitStreamLite_PutSE i bs = AL_BitStreamLite_PutUE (of_nat (se_code i)) bs"
    "unat (of_nat (se_code i) :: u32) = se_code i"
proof -
  have "se_code i < 4294967296" using assms by (auto simp: se_code_def)
  then show "unat (of_nat (se_code i) :: u32) = se_code i" by (simp add: unat_of_nat)
  have "2 * (if i > 0 then i else - i) - (if i > 0 then 1 else 0) = int (se_code i)"
    by (auto simp: se_code_def)
  then show "AL_BitStreamLite_PutSE i bs = AL_BitStreamLite_PutUE (of_nat (se_code i)) bs"
    by (simp add: AL_BitStreamLite_PutSE_def)
qed

text \<open>C31: \<open>AL_BitStreamLite_PutUE\<close> appends the Exp-Golomb code of every value below \<open>2^31 - 1\<close> and
  \<open>AL_BitStreamLite_PutSE\<close> that of the mapped value of every integer of magnitude below \<open>2^30\<close>, when
  there is room; from \<open>2^31 - 1\<close> on the search for the code length does not end (or shifts out of
  range), because the successor is shifted as a negative number.\<close>

theorem exp_golomb_written:
  assumes "bs_ok bs"
  shows "(unat v < 2147483647 \<and> length (ue_bits (unat v)) \<le> bs_room bs \<longrightarrow>
      (\<exists>t. AL_BitStreamLite_PutUE v bs = Some t \<and> bs_ok t \<and> written t = written bs @ ue_bits (unat v)))
    \<and> (\<bar>i\<bar> < 1073741824 \<and> length (ue_bits (se_code i)) \<le> bs_room bs \<longrightarrow>
      (\<exists>t. AL_BitStreamLite_PutSE i bs = Some t \<and> bs_ok t \<and> written t = written bs @ ue_bits (se_code i)))
    \<and> (2147483647 \<le> unat v \<longrightarrow> AL_BitStreamLite_PutUE v bs = None)"
proof (intro conjI impI)
  assume "unat v < 2147483647 \<and> length (ue_bits (unat v)) \<le> bs_room bs"
  with PutUE_law [OF assms] show "\<exists>t. AL_BitStreamLite_PutUE v bs = Some t \<and> bs_ok t
      \<and> written t = written bs @ ue_bits (unat v)" by blast
next
  assume a: "\<bar>i\<bar> < 1073741824 \<and> length (ue_bits (se_code i)) \<le> bs_room bs"
  then have i: "\<bar>i\<bar> < 2147483648" by simp
  have "se_code i < 2147483647" using a by (auto simp: se_code_def)
  with a show "\<exists>t. AL_BitStreamLite_PutSE i bs = Some t \<and> bs_ok t \<and> written t = written bs @ ue_bits (se_code i)"
    using PutUE_law [OF assms, of "of_nat (se_code i)"] unfolding PutSE_eq [OF i] by auto
qed (rule PutUE_hangs)

theorem exp_golomb_written_witness:
  "\<exists>t. AL_BitStreamLite_PutUE 4 (AL_BitStreamLite_Init [0, 0] 2) = Some t
    \<and> written t = [False, False, True, False, True]"
proof -
  have u: "ue_bits 4 = [False, False, True, False, True]"
    by code_simp
  from exp_golomb_written [OF init_ok(1) [of 2 "[0, 0]"], of 4 0] u show ?thesis
    by (auto simp: init_ok)
qed

end
