(* ===== verification/IpStream.thy ===== *)
theory IpStream imports BitStream begin

text \<open>
  lib_encode/IP_Stream.c and lib_bitstream/RbspEncod.c: the NAL unit around an RBSP (start code, header,
  emulation prevention) and the SEI messages every codec shares.

  \<open>pDataInNAL\<close> is the list of the bytes of the NAL; the moving pointer \<open>pData\<close> is the list from it on.
  \<open>None\<close> is as in BitStream, and a read or a fill outside the data.
\<close>

unbundle bit_operations_syntax

datatype AL_ECodec = AL_CODEC_AVC | AL_CODEC_HEVC | AL_CODEC_AV1 | AL_CODEC_VP9 | AL_CODEC_JPEG | AL_CODEC_INVALID

definition AL_AVC_NUT_PREFIX_SEI :: nat where "AL_AVC_NUT_PREFIX_SEI = 6"
definition AL_AVC_NUT_SUB_SPS :: nat where "AL_AVC_NUT_SUB_SPS = 15"
definition AL_HEVC_NUT_VPS :: nat where "AL_HEVC_NUT_VPS = 32"
definition AL_HEVC_NUT_SUFFIX_SEI :: nat where "AL_HEVC_NUT_SUFFIX_SEI = 40"

text \<open>The header is its \<open>size\<close> first bytes.\<close>

record AL_TNalHeader =
  hdr_bytes :: "u8 list"
  hdr_size :: nat

section \<open>The NAL unit\<close>

definition writeByte :: "u8 \<Rightarrow> AL_TBitStreamLite \<Rightarrow> AL_TBitStreamLite option" where
  "writeByte uByte pStream = AL_BitStreamLite_PutBits 8 (ucast uByte) pStream"

definition Matches :: "u8 \<Rightarrow> u8 \<Rightarrow> u8 \<Rightarrow> bool" where
  "Matches b0 b1 b2 \<longleftrightarrow> \<not> (b0 AND 0xFF \<noteq> 0 \<or> b1 AND 0xFF \<noteq> 0 \<or> b2 AND 0xFC \<noteq> 0)"

fun AntiEmul :: "u8 list \<Rightarrow> AL_TBitStreamLite \<Rightarrow> AL_TBitStreamLite option" where
  "AntiEmul (b0 # b1 # b2 # ps) s =
     do { s1 \<leftarrow> writeByte b0 s;
          if Matches b0 b1 b2
          then do { s2 \<leftarrow> writeByte b1 s1; s3 \<leftarrow> writeByte 3 s2; AntiEmul (b2 # ps) s3 }
          else AntiEmul (b1 # b2 # ps) s1 }"
| "AntiEmul [b0, b1] s = do { s1 \<leftarrow> writeByte b0 s; writeByte b1 s1 }"
| "AntiEmul [b0] s = writeByte b0 s"
| "AntiEmul [] s = None"

text \<open>The library as it is built outside Android (\<open>ANDROID\<close> undefined), where \<open>bZeroByte\<close> starts as false.\<close>

definition zero_byte :: "AL_ECodec \<Rightarrow> nat \<Rightarrow> bool" where
  "zero_byte eCodec nut =
     (case eCodec of
        AL_CODEC_AVC \<Rightarrow> nut \<ge> AL_AVC_NUT_PREFIX_SEI \<and> nut \<le> AL_AVC_NUT_SUB_SPS
      | AL_CODEC_HEVC \<Rightarrow> nut \<ge> AL_HEVC_NUT_VPS \<and> nut \<le> AL_HEVC_NUT_SUFFIX_SEI
      | _ \<Rightarrow> False)"

definition writeStartCode :: "AL_ECodec \<Rightarrow> nat \<Rightarrow> AL_TBitStreamLite \<Rightarrow> AL_TBitStreamLite option" where
  "writeStartCode eCodec nut s =
     do { s0 \<leftarrow> (if zero_byte eCodec nut then writeByte 0 s else Some s);
          s1 \<leftarrow> writeByte 0 s0; s2 \<leftarrow> writeByte 0 s1; writeByte 1 s2 }"

fun write_bytes :: "u8 list \<Rightarrow> AL_TBitStreamLite \<Rightarrow> AL_TBitStreamLite option" where
  "write_bytes [] s = Some s"
| "write_bytes (b # bs) s = do { s1 \<leftarrow> writeByte b s; write_bytes bs s1 }"

definition write_header :: "AL_TNalHeader \<Rightarrow> AL_TBitStreamLite \<Rightarrow> AL_TBitStreamLite option" where
  "write_header h s =
     (if hdr_size h \<le> length (hdr_bytes h) then write_bytes (take (hdr_size h) (hdr_bytes h)) s else None)"

text \<open>\<open>pDataInNAL\<close> may be null.\<close>

definition FlushNAL ::
    "AL_ECodec \<Rightarrow> nat \<Rightarrow> AL_TNalHeader \<Rightarrow> u8 list option \<Rightarrow> nat \<Rightarrow> AL_TBitStreamLite \<Rightarrow> AL_TBitStreamLite option" where
  "FlushNAL eCodec uNUT pHeader pDataInNAL iBitsInNAL pStream =
     do { s1 \<leftarrow> writeStartCode eCodec uNUT pStream;
          s2 \<leftarrow> write_header pHeader s1;
          let iBytesInNAL = BitsToBytes iBitsInNAL;
          case pDataInNAL of
            None \<Rightarrow> Some s2
          | Some d \<Rightarrow> if iBytesInNAL \<noteq> 0
                      then if iBytesInNAL \<le> length d then AntiEmul (take iBytesInNAL d) s2 else None
                      else Some s2 }"

definition store_at :: "nat \<Rightarrow> u8 list \<Rightarrow> AL_TBitStreamLite \<Rightarrow> AL_TBitStreamLite option" where
  "store_at i bs s =
     (if i + length bs \<le> length (pData s)
      then Some (s\<lparr>pData := take i (pData s) @ bs @ drop (i + length bs) (pData s)\<rparr>) else None)"

definition WriteFillerData ::
    "AL_ECodec \<Rightarrow> nat \<Rightarrow> AL_TNalHeader \<Rightarrow> int \<Rightarrow> bool \<Rightarrow> AL_TBitStreamLite \<Rightarrow> AL_TBitStreamLite option" where
  "WriteFillerData eCodec uNUT pHeader iBytesCount bDontFill pStream =
     do { let bookmark = AL_BitStreamLite_GetBitsCount pStream;
          s1 \<leftarrow> writeStartCode eCodec uNUT pStream;
          s2 \<leftarrow> write_header pHeader s1;
          let headerInBytes = int ((AL_BitStreamLite_GetBitsCount s2 - bookmark) div 8);
          let bytesToWrite = iBytesCount - headerInBytes;
          let spaceRemainingInBytes = int (iMaxBits s2 div 8) - int (AL_BitStreamLite_GetBitsCount s2 div 8);
          let bytesToWrite = Min_int spaceRemainingInBytes bytesToWrite - 1;
          s3 \<leftarrow> (if bytesToWrite > 0
                 then do { t \<leftarrow> store_at (AL_BitStreamLite_GetCurData s2)
                                  (replicate (if bDontFill then 1 else nat bytesToWrite) 0xFF) s2;
                           Some (AL_BitStreamLite_SkipBits (BytesToBits (nat bytesToWrite)) t) }
                 else Some s2);
          writeByte 0x80 s3 }"

section \<open>SEI messages\<close>

definition SliceTypeToPrimaryPicType :: "u32 list" where
  "SliceTypeToPrimaryPicType = [2, 1, 0, 4, 3, 7, 1, 7, 7]"

definition AL_RbspEncoding_CloseSEI :: "AL_TBitStreamLite \<Rightarrow> AL_TBitStreamLite option" where
  "AL_RbspEncoding_CloseSEI pBS =
     do { s1 \<leftarrow> AL_BitStreamLite_PutU 1 1 pBS; AL_BitStreamLite_AlignWithBits 0 s1 }"

definition AL_RbspEncoding_WriteAUD :: "nat \<Rightarrow> AL_TBitStreamLite \<Rightarrow> AL_TBitStreamLite option" where
  "AL_RbspEncoding_WriteAUD eSliceType pBS =
     do { v \<leftarrow> at SliceTypeToPrimaryPicType eSliceType;
          s1 \<leftarrow> AL_BitStreamLite_PutU 3 v pBS;
          s2 \<leftarrow> AL_BitStreamLite_PutU 1 1 s1;
          AL_BitStreamLite_AlignWithBits 0 s2 }"

definition AL_RbspEncoding_BeginSEI :: "u8 \<Rightarrow> AL_TBitStreamLite \<Rightarrow> (nat \<times> AL_TBitStreamLite) option" where
  "AL_RbspEncoding_BeginSEI uPayloadType pBS =
     do { s1 \<leftarrow> AL_BitStreamLite_PutBits 8 (ucast uPayloadType) pBS;
          let bookmarkSEI = AL_BitStreamLite_GetBitsCount s1;
          if bookmarkSEI mod 8 \<noteq> 0 then None
          else do { s2 \<leftarrow> AL_BitStreamLite_PutBits 8 0xFF s1; Some (bookmarkSEI, s2) } }"

function PutUV :: "int \<Rightarrow> AL_TBitStreamLite \<Rightarrow> AL_TBitStreamLite option" where
  "PutUV iValue pBS =
     (if iValue > 255 then do { s1 \<leftarrow> AL_BitStreamLite_PutU 8 0xFF pBS; PutUV (iValue - 255) s1 }
      else AL_BitStreamLite_PutU 8 (of_int iValue) pBS)"
  by pat_completeness auto
termination by (relation "measure (\<lambda>(v, s). nat v)") auto

declare PutUV.simps [simp del]

definition AL_RbspEncoding_BeginSEI2 :: "int \<Rightarrow> int \<Rightarrow> AL_TBitStreamLite \<Rightarrow> AL_TBitStreamLite option" where
  "AL_RbspEncoding_BeginSEI2 iPayloadType iPayloadSize pBS =
     do { s1 \<leftarrow> PutUV iPayloadType pBS; PutUV iPayloadSize s1 }"

definition AL_RbspEncoding_EndSEI :: "nat \<Rightarrow> AL_TBitStreamLite \<Rightarrow> AL_TBitStreamLite option" where
  "AL_RbspEncoding_EndSEI bookmarkSEI pBS =
     do { pSize \<leftarrow> at (AL_BitStreamLite_GetData pBS) (bookmarkSEI div 8);
          let bits = AL_BitStreamLite_GetBitsCount pBS - bookmarkSEI;
          if pSize \<noteq> 0xFF \<or> bits mod 8 \<noteq> 0 then None
          else Some (pBS\<lparr>pData := (pData pBS)[bookmarkSEI div 8 := of_int (int (bits div 8) - 1)]\<rparr>) }"

fun put_u_all :: "nat \<Rightarrow> u32 list \<Rightarrow> AL_TBitStreamLite \<Rightarrow> AL_TBitStreamLite option" where
  "put_u_all n [] s = Some s"
| "put_u_all n (v # vs) s = do { s1 \<leftarrow> AL_BitStreamLite_PutU n v s; put_u_all n vs s1 }"

text \<open>\<open>numSlices\<close> is signed and is converted to the 32-bit argument.\<close>

definition AL_RbspEncoding_WriteUserDataUnregistered ::
    "u8 list \<Rightarrow> u8 \<Rightarrow> AL_TBitStreamLite \<Rightarrow> AL_TBitStreamLite option" where
  "AL_RbspEncoding_WriteUserDataUnregistered uuid numSlices pBS =
     do { (bookmark, s1) \<leftarrow> AL_RbspEncoding_BeginSEI 5 pBS;
          s2 \<leftarrow> (if length uuid < 16 then None else put_u_all 8 (map ucast (take 16 uuid)) s1);
          s3 \<leftarrow> AL_BitStreamLite_PutU 8 (scast numSlices) s2;
          s4 \<leftarrow> AL_RbspEncoding_EndSEI bookmark s3;
          AL_RbspEncoding_CloseSEI s4 }"

record AL_TChromaCoordinates =
  chroma_x :: u16
  chroma_y :: u16

record AL_TMasteringDisplayColourVolume =
  display_primaries :: "AL_TChromaCoordinates list"
  white_point :: AL_TChromaCoordinates
  max_display_mastering_luminance :: u32
  min_display_mastering_luminance :: u32

record AL_TContentLightLevel =
  max_content_light_level :: u16
  max_pic_average_light_level :: u16

definition AL_RbspEncoding_WriteMasteringDisplayColourVolume ::
    "AL_TMasteringDisplayColourVolume \<Rightarrow> AL_TBitStreamLite \<Rightarrow> AL_TBitStreamLite option" where
  "AL_RbspEncoding_WriteMasteringDisplayColourVolume pMDCV pBS =
     do { (bookmark, s1) \<leftarrow> AL_RbspEncoding_BeginSEI 137 pBS;
          s2 \<leftarrow> (if length (display_primaries pMDCV) < 3 then None
                 else put_u_all 16 (concat (map (\<lambda>c. [ucast (chroma_x c), ucast (chroma_y c)])
                                             (take 3 (display_primaries pMDCV)))) s1);
          s3 \<leftarrow> put_u_all 16 [ucast (chroma_x (white_point pMDCV)), ucast (chroma_y (white_point pMDCV))] s2;
          s4 \<leftarrow> put_u_all 32 [max_display_mastering_luminance pMDCV, min_display_mastering_luminance pMDCV] s3;
          s5 \<leftarrow> AL_BitStreamLite_EndOfSEIPayload s4;
          AL_RbspEncoding_EndSEI bookmark s5 }"

definition AL_RbspEncoding_WriteContentLightLevel ::
    "AL_TContentLightLevel \<Rightarrow> AL_TBitStreamLite \<Rightarrow> AL_TBitStreamLite option" where
  "AL_RbspEncoding_WriteContentLightLevel pCLL pBS =
     do { (bookmark, s1) \<leftarrow> AL_RbspEncoding_BeginSEI 144 pBS;
          s2 \<leftarrow> put_u_all 16 [ucast (max_content_light_level pCLL), ucast (max_pic_average_light_level pCLL)] s1;
          s3 \<leftarrow> AL_BitStreamLite_EndOfSEIPayload s2;
          AL_RbspEncoding_EndSEI bookmark s3 }"

end
