(* ===== verification/RbspParser.thy ===== *)
theory RbspParser imports Utils begin

text \<open>
  lib_common_dec/RbspParser.c: the reader of syntax elements.  \<open>fetch_data\<close> copies bytes of the circular
  input buffer into the linear buffer \<open>pBuffer\<close>, at most 32 at a time, dropping the emulation
  prevention bytes and stopping at the second start code; the readers take bits from there.

  An access outside \<open>pBuffer\<close> or the input, a failed assertion and an endless loop are \<open>None\<close>.
  \<open>pBuffer\<close> has the content it had before: the code does not clear it.  Indices are natural numbers;
  the differences of 32-bit indices wrap (\<open>diff32\<close>) and the count of zero bytes is a \<open>uint8_t\<close>.
  \<open>pByte\<close> is an index into \<open>pBuffer\<close>.
\<close>

unbundle bit_operations_syntax

definition ANTI_EMUL_GRANULARITY :: nat where "ANTI_EMUL_GRANULARITY = 32"
definition NON_VCL_NAL_SIZE :: nat where "NON_VCL_NAL_SIZE = 2048"

record AL_TRbspParser =
  iTrailingBitOneIndex :: nat
  iTotalBitIndex :: nat
  iTrailingBitOneIndexConceal :: nat
  uNumScDetect :: nat
  uZeroBytesCount :: nat
  pBuffer :: "u8 list"
  pByte :: nat
  pBufIn :: "u8 list"
  iBufInSize :: nat
  iBufInOffset :: nat
  iBufInAvailSize :: nat
  bHasSC :: bool

definition diff32 :: "nat \<Rightarrow> nat \<Rightarrow> nat" where
  "diff32 a b = to_u32 (int a - int b)"

text \<open>The table of \<open>al_log2\<close>: the position of the highest bit of a byte, 0 for 0.\<close>

definition tab_log2 :: "nat list" where
  "tab_log2 = replicate 2 0 @ replicate 2 1 @ replicate 4 2 @ replicate 8 3 @ replicate 16 4 @ replicate 32 5
     @ replicate 64 6 @ replicate 128 7"

definition al_log2 :: "u32 \<Rightarrow> nat" where
  "al_log2 value =
     (let (value, n) = (if value AND 0xFF000000 \<noteq> 0 then (drop_bit 24 value, 24)
                        else if value AND 0x00FF0000 \<noteq> 0 then (drop_bit 16 value, 16)
                        else if value AND 0x0000FF00 \<noteq> 0 then (drop_bit 8 value, 8)
                        else (value, 0))
      in n + tab_log2 ! unat value)"

section \<open>Fetching\<close>

definition read_bit :: "AL_TRbspParser \<Rightarrow> nat \<Rightarrow> u8 option" where
  "read_bit pRP iBitIndex =
     do { b \<leftarrow> at (pBuffer pRP) (iBitIndex div 8);
          Some (b AND push_bit (7 - iBitIndex mod 8) 1) }"

fun trailing_loop :: "AL_TRbspParser \<Rightarrow> nat \<Rightarrow> nat option" where
  "trailing_loop pRP 0 = do { _ \<leftarrow> read_bit pRP 0; Some 0 }"
| "trailing_loop pRP (Suc i) =
     do { b \<leftarrow> read_bit pRP (Suc i); if b = 0 then trailing_loop pRP i else Some (Suc i) }"

definition remove_trailing_bits :: "AL_TRbspParser \<Rightarrow> AL_TRbspParser option" where
  "remove_trailing_bits pRP =
     do { i \<leftarrow> trailing_loop pRP (iTrailingBitOneIndex pRP);
          let t = (if i < iTotalBitIndex pRP then iTotalBitIndex pRP else i);
          Some (pRP\<lparr>iTrailingBitOneIndex := t, iTrailingBitOneIndexConceal := ((t + 8) div 8) * 8\<rparr>) }"

definition finished_fetching :: "AL_TRbspParser \<Rightarrow> bool" where
  "finished_fetching pRP \<longleftrightarrow> uNumScDetect pRP = 2 \<or> iBufInAvailSize pRP = 0"

definition fetch_emit :: "nat \<Rightarrow> u8 \<Rightarrow> AL_TRbspParser \<Rightarrow> AL_TRbspParser option" where
  "fetch_emit pos read pRP =
     (if pos < length (pBuffer pRP)
      then Some (pRP\<lparr>iTrailingBitOneIndex := iTrailingBitOneIndex pRP + 8,
                     iTrailingBitOneIndexConceal := iTrailingBitOneIndexConceal pRP + 8,
                     pBuffer := (pBuffer pRP)[pos := read]\<rparr>)
      else None)"

definition count_zero :: "u8 \<Rightarrow> AL_TRbspParser \<Rightarrow> AL_TRbspParser" where
  "count_zero read pRP =
     pRP\<lparr>uZeroBytesCount := if read = 0 then (uZeroBytesCount pRP + 1) mod 256 else 0\<rparr>"

text \<open>\<open>k\<close> turns are left; \<open>pos\<close> is the place of the next byte in \<open>pBuffer\<close>.\<close>

fun fetch_loop :: "nat \<Rightarrow> nat \<Rightarrow> nat \<Rightarrow> AL_TRbspParser \<Rightarrow> AL_TRbspParser option" where
  "fetch_loop 0 uRead pos pRP = Some pRP"
| "fetch_loop (Suc k) uRead pos pRP =
     (if iBufInAvailSize pRP > 0 then
        (if iBufInSize pRP = 0 then None else
         do { let p1 = pRP\<lparr>iBufInOffset := (iBufInOffset pRP + 1) mod iBufInSize pRP,
                           iBufInAvailSize := iBufInAvailSize pRP - 1\<rparr>;
              read \<leftarrow> at (pBufIn pRP) (uRead mod iBufInSize pRP);
              if bHasSC p1 then
                (if uZeroBytesCount p1 = 2 \<and> read = 3
                 then fetch_loop k (uRead + 1) pos (p1\<lparr>uZeroBytesCount := 0\<rparr>)
                 else
                   let sc = (uZeroBytesCount p1 \<ge> 2 \<and> read = 1);
                       p2 = (if sc then p1\<lparr>uNumScDetect := uNumScDetect p1 + 1\<rparr> else p1)
                   in if sc \<and> uNumScDetect p2 = 2 then Some p2
                      else do { p3 \<leftarrow> fetch_emit pos read (count_zero read p2);
                                fetch_loop k (uRead + 1) (pos + 1) p3 })
              else do { p3 \<leftarrow> fetch_emit pos read p1; fetch_loop k (uRead + 1) (pos + 1) p3 } })
      else Some pRP)"

definition fetch_data :: "AL_TRbspParser \<Rightarrow> (bool \<times> AL_TRbspParser) option" where
  "fetch_data pRP =
     (if finished_fetching pRP then Some (False, pRP)
      else let byte_offset = iTrailingBitOneIndex pRP div 8;
               uOffset = iBufInOffset pRP;
               uEnd = min (uOffset + ANTI_EMUL_GRANULARITY) (uOffset + NON_VCL_NAL_SIZE)
           in do { p1 \<leftarrow> fetch_loop (uEnd - uOffset) uOffset byte_offset pRP;
                   p2 \<leftarrow> (if finished_fetching p1 then remove_trailing_bits p1 else Some p1);
                   Some (True, p2) })"

definition InitRbspParser ::
    "u8 list \<Rightarrow> nat \<Rightarrow> nat \<Rightarrow> nat \<Rightarrow> u8 list \<Rightarrow> bool \<Rightarrow> AL_TRbspParser" where
  "InitRbspParser pVirtualAddr uSize iOffset iAvailSize buffer hasSC =
     \<lparr>iTrailingBitOneIndex = 0, iTotalBitIndex = 0, iTrailingBitOneIndexConceal = 0, uNumScDetect = 0,
      uZeroBytesCount = 0, pBuffer = buffer, pByte = 0, pBufIn = pVirtualAddr, iBufInSize = uSize,
      iBufInOffset = iOffset, iBufInAvailSize = iAvailSize, bHasSC = hasSC\<rparr>"

section \<open>Reading\<close>

definition byte_aligned :: "AL_TRbspParser \<Rightarrow> bool" where
  "byte_aligned pRP \<longleftrightarrow> iTotalBitIndex pRP mod 8 = 0"

definition more_rbsp_data :: "AL_TRbspParser \<Rightarrow> (bool \<times> AL_TRbspParser) option" where
  "more_rbsp_data pRP =
     do { (_, p1) \<leftarrow> fetch_data pRP; Some (iTotalBitIndex p1 < iTrailingBitOneIndex p1, p1) }"

definition more_rbsp_data_conceal :: "AL_TRbspParser \<Rightarrow> bool" where
  "more_rbsp_data_conceal pRP \<longleftrightarrow> iTotalBitIndex pRP \<le> iTrailingBitOneIndexConceal pRP"

definition getbyte :: "AL_TRbspParser \<Rightarrow> (u8 \<times> AL_TRbspParser) option" where
  "getbyte pRP =
     (if \<not> byte_aligned pRP then None
      else do { let byte_offset = iTotalBitIndex pRP div 8;
                (ok, p1) \<leftarrow> (if iTrailingBitOneIndex pRP < iTotalBitIndex pRP + 8 then fetch_data pRP
                            else Some (True, pRP));
                if \<not> ok
                then let p2 = p1\<lparr>iTotalBitIndex := iTrailingBitOneIndexConceal p1\<rparr>
                     in Some (0, p2\<lparr>pByte := iTotalBitIndex p2 div 8\<rparr>)
                else if iTotalBitIndex p1 \<le> iTrailingBitOneIndex p1
                then do { b \<leftarrow> at (pBuffer p1) byte_offset;
                          Some (b, p1\<lparr>iTotalBitIndex := iTotalBitIndex p1 + 8, pByte := pByte p1 + 1\<rparr>) }
                else None })"

definition get_raw_data :: "AL_TRbspParser \<Rightarrow> nat" where
  "get_raw_data pRP = iTotalBitIndex pRP div 8"

definition get_next_bit :: "AL_TRbspParser \<Rightarrow> (u8 \<times> AL_TRbspParser) option" where
  "get_next_bit pRP =
     do { (ok, p1) \<leftarrow> (if iTrailingBitOneIndex pRP < iTotalBitIndex pRP + 1 then fetch_data pRP
                      else Some (True, pRP));
          if \<not> ok then Some (- 1, p1)
          else do { let bit_offset = iTotalBitIndex p1 mod 8;
                    byte \<leftarrow> at (pBuffer p1) (pByte p1);
                    let v = (if byte AND drop_bit bit_offset 0x80 \<noteq> 0 then 1 else 0);
                    let p2 = p1\<lparr>iTotalBitIndex := iTotalBitIndex p1 + 1\<rparr>;
                    Some (v, if bit_offset = 7 then p2\<lparr>pByte := pByte p2 + 1\<rparr> else p2) } }"

definition get_cache_24 :: "AL_TRbspParser \<Rightarrow> (u32 \<times> AL_TRbspParser) option" where
  "get_cache_24 pRP =
     do { (_, p1) \<leftarrow> (if diff32 (iTrailingBitOneIndex pRP) (iTotalBitIndex pRP) < 32 then fetch_data pRP
                     else Some (True, pRP));
          let bit_offset = iTotalBitIndex p1 mod 8;
          let byte_offset = iTotalBitIndex p1 div 8;
          b0 \<leftarrow> at (pBuffer p1) byte_offset;
          b1 \<leftarrow> at (pBuffer p1) (byte_offset + 1);
          b2 \<leftarrow> at (pBuffer p1) (byte_offset + 2);
          b3 \<leftarrow> at (pBuffer p1) (byte_offset + 3);
          let aligned = push_bit 24 (ucast b0) OR push_bit 16 (ucast b1) OR push_bit 8 (ucast b2) OR ucast b3;
          Some (drop_bit (8 - bit_offset) aligned AND 0x00FFFFFF, p1) }"

partial_function (option) skip_loop :: "nat \<Rightarrow> AL_TRbspParser \<Rightarrow> (bool \<times> AL_TRbspParser) option" where
  "skip_loop iNumBits pRP =
     (if diff32 (iTrailingBitOneIndex pRP) (iTotalBitIndex pRP) < iNumBits
      then do { (bRes, p1) \<leftarrow> fetch_data pRP; if bRes then skip_loop iNumBits p1 else Some (False, p1) }
      else Some (True, pRP))"

definition skip :: "nat \<Rightarrow> AL_TRbspParser \<Rightarrow> AL_TRbspParser option" where
  "skip iNumBits pRP =
     do { (bRes, p1) \<leftarrow> skip_loop iNumBits pRP;
          let p2 = (if bRes then p1\<lparr>iTotalBitIndex := iTotalBitIndex p1 + iNumBits\<rparr>
                    else p1\<lparr>iTotalBitIndex := iTrailingBitOneIndex p1\<rparr>);
          Some (p2\<lparr>pByte := iTotalBitIndex p2 div 8\<rparr>) }"

definition offset :: "AL_TRbspParser \<Rightarrow> nat" where
  "offset pRP = iTotalBitIndex pRP"

fun next_bits :: "nat \<Rightarrow> u32 \<Rightarrow> AL_TRbspParser \<Rightarrow> (u32 \<times> AL_TRbspParser) option" where
  "next_bits 0 val pRP = Some (val, pRP)"
| "next_bits (Suc k) val pRP =
     do { (b, p1) \<leftarrow> get_next_bit pRP; next_bits k (push_bit 1 val OR ucast b) p1 }"

definition u :: "nat \<Rightarrow> AL_TRbspParser \<Rightarrow> (u32 \<times> AL_TRbspParser) option" where
  "u iNumBits pRP =
     (if \<not> more_rbsp_data_conceal pRP then Some (0, pRP)
      else if iNumBits = 1 then do { (b, p1) \<leftarrow> get_next_bit pRP; Some (ucast b, p1) }
      else if iNumBits \<le> 24
      then do { (c, p1) \<leftarrow> get_cache_24 pRP;
                p2 \<leftarrow> skip iNumBits p1;
                Some (drop_bit (24 - iNumBits) c AND (push_bit iNumBits 1 - 1), p2) }
      else do { (c, p1) \<leftarrow> get_cache_24 pRP;
                p2 \<leftarrow> skip 24 p1;
                next_bits (iNumBits - 24) c p2 })"

definition i_n :: "nat \<Rightarrow> AL_TRbspParser \<Rightarrow> (int \<times> AL_TRbspParser) option" where
  "i_n iNumBits pRP =
     do { let mask = (if iNumBits > 0 then push_bit (iNumBits - 1) 1 - 1 else 0);
          (val_u, p1) \<leftarrow> u iNumBits pRP;
          let abs_val = sint (val_u AND mask);
          Some (if val_u AND NOT mask \<noteq> 0 then - abs_val else abs_val, p1) }"

text \<open>The bit by bit search of a long code: \<open>None\<close> inside is the end of the data.\<close>

partial_function (option) leading_zeros :: "nat \<Rightarrow> AL_TRbspParser \<Rightarrow> (nat option \<times> AL_TRbspParser) option" where
  "leading_zeros n pRP =
     do { (b, p1) \<leftarrow> get_next_bit pRP;
          if b = 1 then Some (Some n, p1)
          else if b = 255 then Some (None, p1)
          else leading_zeros (n + 1) p1 }"

definition ue :: "AL_TRbspParser \<Rightarrow> (u32 \<times> AL_TRbspParser) option" where
  "ue pRP =
     (if \<not> more_rbsp_data_conceal pRP then Some (0, pRP)
      else do { (c, p1) \<leftarrow> get_cache_24 pRP;
                let n = 23 - al_log2 c;
                (r, p2) \<leftarrow> (if n = 23 then leading_zeros 0 p1
                           else do { p2 \<leftarrow> skip (n + 1) p1; Some (Some n, p2) });
                case r of
                  None \<Rightarrow> Some (0, p2)
                | Some n \<Rightarrow>
                    (if n \<noteq> 0
                     then (if n \<ge> 32 then Some (0, p2)
                           else do { (v, p3) \<leftarrow> u n p2; Some (push_bit n 1 - 1 + v, p3) })
                     else Some (0, p2)) })"

definition se :: "AL_TRbspParser \<Rightarrow> (int \<times> AL_TRbspParser) option" where
  "se pRP =
     (if \<not> more_rbsp_data_conceal pRP then Some (0, pRP)
      else do { (k, p1) \<leftarrow> ue pRP;
                let iValue = sint (drop_bit 1 (k + 1));
                Some (if even (k + 1) then iValue else - iValue, p1) })"

text \<open>The loops over the alignment bits; each turn reads a bit.\<close>

partial_function (option) zero_bits_loop :: "AL_TRbspParser \<Rightarrow> (bool \<times> AL_TRbspParser) option" where
  "zero_bits_loop pRP =
     (if \<not> byte_aligned pRP
      then do { (b, p1) \<leftarrow> u 1 pRP; if b \<noteq> 0 then Some (False, p1) else zero_bits_loop p1 }
      else Some (True, pRP))"

definition byte_alignment :: "AL_TRbspParser \<Rightarrow> (bool \<times> AL_TRbspParser) option" where
  "byte_alignment pRP =
     do { (b, p1) \<leftarrow> u 1 pRP; if ucast b = (0 :: u8) then Some (False, p1) else zero_bits_loop p1 }"

definition rbsp_trailing_bits :: "AL_TRbspParser \<Rightarrow> (bool \<times> AL_TRbspParser) option" where
  "rbsp_trailing_bits pRP =
     do { p1 \<leftarrow> remove_trailing_bits pRP;
          if iTotalBitIndex p1 \<noteq> iTrailingBitOneIndex p1 then Some (False, p1)
          else do { let p2 = p1\<lparr>iTrailingBitOneIndex := iTrailingBitOneIndexConceal p1\<rparr>;
                    (b, p3) \<leftarrow> u 1 p2;
                    if ucast b = (0 :: u8) then Some (False, p3) else zero_bits_loop p3 } }"

partial_function (option) skipAllZerosAndTheNextByte :: "AL_TRbspParser \<Rightarrow> AL_TRbspParser option" where
  "skipAllZerosAndTheNextByte pRP =
     do { (b, p1) \<leftarrow> u 8 pRP; if b = 0 then skipAllZerosAndTheNextByte p1 else Some p1 }"

end
