(* ===== verification/RbspFetch.thy ===== *)
theory RbspFetch imports RbspParser ExpGolomb begin

text \<open>
  What \<open>fetch_data\<close> does to the byte stream: \<open>clean\<close> is the NAL without its emulation prevention bytes,
  up to the second start code.  The invariant \<open>rp_inv\<close> says that a parser reads a given cleaned NAL; the
  buffer must have been cleared and be four bytes longer than the NAL.
\<close>

section \<open>The cleaned NAL\<close>

fun clean :: "nat \<Rightarrow> nat \<Rightarrow> u8 list \<Rightarrow> u8 list" where
  "clean z s [] = []"
| "clean z s (b # bs) =
     (if z = 2 \<and> b = 3 then clean 0 s bs
      else if z \<ge> 2 \<and> b = 1 \<and> s = 1 then []
      else b # clean (if b = 0 then (z + 1) mod 256 else 0) (if z \<ge> 2 \<and> b = 1 then s + 1 else s) bs)"

definition input :: "AL_TRbspParser \<Rightarrow> u8 list" where
  "input p = map (\<lambda>i. pBufIn p ! ((iBufInOffset p + i) mod iBufInSize p)) [0..<iBufInAvailSize p]"

definition future :: "AL_TRbspParser \<Rightarrow> u8 list" where
  "future p = (if uNumScDetect p = 2 then [] else clean (uZeroBytesCount p) (uNumScDetect p) (input p))"

definition emitted :: "AL_TRbspParser \<Rightarrow> u8 list" where
  "emitted p = take (iTrailingBitOneIndex p div 8) (pBuffer p)"

lemma input_step:
  assumes "iBufInAvailSize p = Suc n" "iBufInOffset p < iBufInSize p"
  shows "input p = pBufIn p ! iBufInOffset p
    # input (p\<lparr>iBufInOffset := (iBufInOffset p + 1) mod iBufInSize p, iBufInAvailSize := n\<rparr>)"
  using assms by (simp add: input_def map_upt_Suc mod_simps del: upt_Suc)

text \<open>The state in which bytes are still to be fetched: \<open>X\<close> is the whole cleaned NAL.\<close>

definition fetching :: "AL_TRbspParser \<Rightarrow> u8 list \<Rightarrow> bool" where
  "fetching p X \<longleftrightarrow> bHasSC p \<and> iBufInOffset p < iBufInSize p \<and> iBufInSize p \<le> length (pBufIn p)
     \<and> uNumScDetect p \<le> 2 \<and> uZeroBytesCount p < 256
     \<and> 8 dvd iTrailingBitOneIndex p \<and> iTrailingBitOneIndex p div 8 \<le> length (pBuffer p)
     \<and> emitted p @ future p = X \<and> length X \<le> length (pBuffer p)
     \<and> iTrailingBitOneIndexConceal p = iTrailingBitOneIndex p
     \<and> (\<forall>i. iTrailingBitOneIndex p div 8 \<le> i \<and> i < length (pBuffer p) \<longrightarrow> pBuffer p ! i = 0)"

lemma emitted_length: "fetching p X \<Longrightarrow> length (emitted p) = iTrailingBitOneIndex p div 8"
  by (simp add: emitted_def fetching_def)

text \<open>One byte goes to the buffer.\<close>

lemma fetch_emit_law:
  assumes f: "fetching p X" and fut: "future p = b # ys"
    and q: "bHasSC q = bHasSC p" "iBufInOffset q < iBufInSize q" "iBufInSize q \<le> length (pBufIn q)"
      "uNumScDetect q \<le> 2" "uZeroBytesCount q < 256" "iTrailingBitOneIndex q = iTrailingBitOneIndex p"
      "iTrailingBitOneIndexConceal q = iTrailingBitOneIndexConceal p" "pBuffer q = pBuffer p" "future q = ys"
  shows "\<exists>r. fetch_emit (iTrailingBitOneIndex p div 8) b q = Some r \<and> fetching r X
    \<and> iTrailingBitOneIndex r = iTrailingBitOneIndex p + 8
    \<and> r = q\<lparr>iTrailingBitOneIndex := iTrailingBitOneIndex p + 8,
            iTrailingBitOneIndexConceal := iTrailingBitOneIndexConceal p + 8,
            pBuffer := (pBuffer p)[iTrailingBitOneIndex p div 8 := b]\<rparr>"
proof -
  let ?n = "iTrailingBitOneIndex p div 8"
  from f fut have X: "X = emitted p @ b # ys" by (simp add: fetching_def)
  have l: "length (emitted p) = ?n" by (rule emitted_length [OF f])
  have n: "?n < length (pBuffer p)" using f l unfolding X fetching_def by simp
  let ?r = "q\<lparr>iTrailingBitOneIndex := iTrailingBitOneIndex p + 8,
            iTrailingBitOneIndexConceal := iTrailingBitOneIndexConceal p + 8,
            pBuffer := (pBuffer p)[?n := b]\<rparr>"
  have e: "fetch_emit ?n b q = Some ?r" using n q by (simp add: fetch_emit_def)
  have k: "(iTrailingBitOneIndex p + 8) div 8 = Suc ?n" by simp
  have em: "emitted ?r = emitted p @ [b]"
    using n by (simp add: emitted_def k take_Suc_conv_app_nth)
  have "future ?r = future q" by (simp add: future_def input_def)
  with q(9) have fu: "future ?r = ys" by simp
  have "fetching ?r X"
    using f q n em fu unfolding fetching_def X by (simp add: k nth_list_update)
  with e show ?thesis by simp
qed


text \<open>One byte is consumed without being copied.\<close>

definition consume :: "AL_TRbspParser \<Rightarrow> AL_TRbspParser" where
  "consume p = p\<lparr>iBufInOffset := (iBufInOffset p + 1) mod iBufInSize p, iBufInAvailSize := iBufInAvailSize p - 1\<rparr>"

lemma consume_simps [simp]:
  "pBufIn (consume p) = pBufIn p" "iBufInSize (consume p) = iBufInSize p" "bHasSC (consume p) = bHasSC p"
  "uNumScDetect (consume p) = uNumScDetect p" "uZeroBytesCount (consume p) = uZeroBytesCount p"
  "pBuffer (consume p) = pBuffer p" "iTotalBitIndex (consume p) = iTotalBitIndex p" "pByte (consume p) = pByte p"
  "iTrailingBitOneIndex (consume p) = iTrailingBitOneIndex p"
  "iTrailingBitOneIndexConceal (consume p) = iTrailingBitOneIndexConceal p"
  "iBufInAvailSize (consume p) = iBufInAvailSize p - 1"
  "iBufInOffset (consume p) = (iBufInOffset p + 1) mod iBufInSize p"
  by (simp_all add: consume_def)

text \<open>What a turn of the loop keeps, whatever it does with the byte.\<close>

definition same_frame :: "AL_TRbspParser \<Rightarrow> AL_TRbspParser \<Rightarrow> bool" where
  "same_frame p q \<longleftrightarrow> iTotalBitIndex q = iTotalBitIndex p \<and> pByte q = pByte p \<and> length (pBuffer q) = length (pBuffer p)
     \<and> iBufInSize q = iBufInSize p \<and> iBufInAvailSize q \<le> iBufInAvailSize p
     \<and> iTrailingBitOneIndex p \<le> iTrailingBitOneIndex q"

lemma same_frame_trans: "same_frame p q \<Longrightarrow> same_frame q r \<Longrightarrow> same_frame p r"
  by (auto simp: same_frame_def)

lemma fetching_cong:
  assumes "fetching p X" "bHasSC q" "iBufInOffset q < iBufInSize q" "iBufInSize q \<le> length (pBufIn q)"
    "uNumScDetect q \<le> 2" "uZeroBytesCount q < 256" "iTrailingBitOneIndex q = iTrailingBitOneIndex p"
    "iTrailingBitOneIndexConceal q = iTrailingBitOneIndexConceal p" "pBuffer q = pBuffer p" "future q = future p"
  shows "fetching q X"
  using assms by (simp add: fetching_def emitted_def)

lemma future_cons:
  assumes "uNumScDetect p \<noteq> 2" "iBufInAvailSize p > 0" "iBufInOffset p < iBufInSize p"
  shows "future p = clean (uZeroBytesCount p) (uNumScDetect p) (pBufIn p ! iBufInOffset p # input (consume p))"
  using assms input_step [of p "iBufInAvailSize p - 1"] by (simp add: future_def consume_def)

lemma fetch_step:
  assumes "iBufInAvailSize p > 0" "iBufInSize p \<noteq> 0" "bHasSC p" "at (pBufIn p) (uRead mod iBufInSize p) = Some b"
  shows "fetch_loop (Suc k) uRead pos p =
    (if uZeroBytesCount p = 2 \<and> b = 3 then fetch_loop k (uRead + 1) pos (consume p\<lparr>uZeroBytesCount := 0\<rparr>)
     else if uZeroBytesCount p \<ge> 2 \<and> b = 1 \<and> uNumScDetect p + 1 = 2
     then Some (consume p\<lparr>uNumScDetect := uNumScDetect p + 1\<rparr>)
     else do { p3 \<leftarrow> fetch_emit pos b (consume p\<lparr>uZeroBytesCount := (if b = 0 then (uZeroBytesCount p + 1) mod 256 else 0),
                 uNumScDetect := (if uZeroBytesCount p \<ge> 2 \<and> b = 1 then uNumScDetect p + 1 else uNumScDetect p)\<rparr>);
               fetch_loop k (uRead + 1) (pos + 1) p3 })"
proof -
  let ?sc = "uZeroBytesCount p \<ge> 2 \<and> b = 1"
  have c: "p\<lparr>iBufInOffset := (iBufInOffset p + 1) mod iBufInSize p, iBufInAvailSize := iBufInAvailSize p - 1\<rparr> = consume p"
    by (simp add: consume_def)
  consider (emul) "uZeroBytesCount p = 2" "b = 3" | (sc) ?sc | (other) "\<not> ?sc" "\<not> (uZeroBytesCount p = 2 \<and> b = 3)"
    by blast
  then show ?thesis
  proof cases
    case sc
    have "count_zero b (consume p\<lparr>uNumScDetect := uNumScDetect p + 1\<rparr>)
      = consume p\<lparr>uZeroBytesCount := 0, uNumScDetect := uNumScDetect p + 1\<rparr>"
      using sc by (simp add: count_zero_def)
    with sc show ?thesis
      unfolding fetch_loop.simps c Let_def assms(4) consume_simps using assms(1-3) by simp
  next
    case other
    have "count_zero b (consume p) = consume p\<lparr>uZeroBytesCount := (if b = 0 then (uZeroBytesCount p + 1) mod 256 else 0),
      uNumScDetect := uNumScDetect p\<rparr>"
      by (cases p) (simp add: count_zero_def consume_def)
    with other show ?thesis
      unfolding fetch_loop.simps c Let_def assms(4) consume_simps using assms(1-3)
      by (auto simp del: One_nat_def)
  qed (use assms(1-3) in \<open>simp add: c assms(4) del: One_nat_def\<close>)
qed

text \<open>The loop: \<open>k\<close> turns consume \<open>k\<close> bytes unless the input or the NAL ends first, and copy at
  least two thirds of them.\<close>

lemma fetch_loop_law:
  "fetching p X \<Longrightarrow> uNumScDetect p \<noteq> 2 \<Longrightarrow> uRead mod iBufInSize p = iBufInOffset p \<Longrightarrow>
   \<exists>q. fetch_loop k uRead (iTrailingBitOneIndex p div 8) p = Some q \<and> fetching q X \<and> same_frame p q
     \<and> (0 < k \<and> 0 < iBufInAvailSize p \<longrightarrow> iBufInAvailSize q < iBufInAvailSize p)
     \<and> (\<not> finished_fetching q \<longrightarrow>
          16 * k \<le> 3 * (iTrailingBitOneIndex q - iTrailingBitOneIndex p) + 8 * min (uZeroBytesCount p) 2)"
proof (induction k arbitrary: p uRead)
  case 0
  then show ?case by (auto simp: same_frame_def)
next
  case (Suc k)
  show ?case
  proof (cases "iBufInAvailSize p = 0")
    case True
    with Suc.prems(1) show ?thesis by (auto simp: same_frame_def finished_fetching_def)
  next
    case avail: False
    let ?c = "consume p" let ?b = "pBufIn p ! iBufInOffset p" let ?z = "uZeroBytesCount p"
    from Suc.prems(1) have sc: "bHasSC p" and off: "iBufInOffset p < iBufInSize p" "iBufInSize p \<le> length (pBufIn p)"
      and z: "?z < 256" and s: "uNumScDetect p \<le> 2" by (simp_all add: fetching_def)
    have size: "iBufInSize p \<noteq> 0" using off by simp
    have rd: "at (pBufIn p) (uRead mod iBufInSize p) = Some ?b" using off Suc.prems(3) by simp
    have nxt: "(uRead + 1) mod iBufInSize p = (iBufInOffset p + 1) mod iBufInSize p"
      unfolding Suc.prems(3) [symmetric] by (simp add: mod_simps)
    have noff: "(iBufInOffset p + 1) mod iBufInSize p < iBufInSize p" using size by simp
    have fut: "future p = clean ?z (uNumScDetect p) (?b # input ?c)"
      using Suc.prems(2) avail off(1) by (intro future_cons) auto
    have input_c: "input (?c\<lparr>uZeroBytesCount := a, uNumScDetect := b'\<rparr>) = input ?c" for a b'
      by (simp add: input_def)
    have input_c1: "input (?c\<lparr>uZeroBytesCount := a\<rparr>) = input ?c" for a
      by (simp add: input_def)
    consider (emul) "?z = 2" "?b = 3" | (second) "\<not> (?z = 2 \<and> ?b = 3)" "?z \<ge> 2" "?b = 1" "uNumScDetect p = 1"
      | (copy) "\<not> (?z = 2 \<and> ?b = 3)" "\<not> (?z \<ge> 2 \<and> ?b = 1 \<and> uNumScDetect p = 1)" by blast
    then show ?thesis
    proof cases
      case emul
      let ?q = "?c\<lparr>uZeroBytesCount := 0\<rparr>"
      have "future ?q = future p"
        using fut emul Suc.prems(2) by (simp add: future_def input_c1)
      then have fq: "fetching ?q X"
        by (intro fetching_cong [OF Suc.prems(1)]) (use sc off noff s in simp_all)
      have "fetch_loop (Suc k) uRead (iTrailingBitOneIndex p div 8) p
          = fetch_loop k (uRead + 1) (iTrailingBitOneIndex ?q div 8) ?q"
        unfolding fetch_step [OF _ size sc rd, unfolded neq0_conv [symmetric], OF avail] using emul by simp
      with Suc.IH [OF fq, of "uRead + 1"] Suc.prems(2) nxt avail emul(1) obtain r where
        r: "fetch_loop (Suc k) uRead (iTrailingBitOneIndex p div 8) p = Some r" "fetching r X" "same_frame ?q r"
          "\<not> finished_fetching r \<longrightarrow> 16 * k \<le> 3 * (iTrailingBitOneIndex r - iTrailingBitOneIndex p)"
        by auto
      have "same_frame p ?q" by (simp add: same_frame_def)
      from same_frame_trans [OF this r(3)] r avail emul(1) show ?thesis
        by (auto simp: same_frame_def)
    next
      case second
      let ?q = "?c\<lparr>uNumScDetect := 2\<rparr>"
      have "future ?q = future p"
        using fut second by (simp add: future_def)
      then have fq: "fetching ?q X"
        by (intro fetching_cong [OF Suc.prems(1)]) (use sc off noff z in simp_all)
      have "fetch_loop (Suc k) uRead (iTrailingBitOneIndex p div 8) p = Some ?q"
        unfolding fetch_step [OF _ size sc rd, unfolded neq0_conv [symmetric], OF avail]
        using second by (simp add: numeral_2_eq_2)
      with fq avail show ?thesis by (auto simp: same_frame_def finished_fetching_def)
    next
      case copy
      let ?sc = "?z \<ge> 2 \<and> ?b = 1"
      let ?q = "?c\<lparr>uZeroBytesCount := (if ?b = 0 then (?z + 1) mod 256 else 0),
        uNumScDetect := (if ?sc then uNumScDetect p + 1 else uNumScDetect p)\<rparr>"
      have s1: "uNumScDetect ?q \<le> 1" using copy(2) Suc.prems(2) s by auto
      have fp: "future p = ?b # future ?q"
        using fut copy s1 unfolding future_def input_c by auto
      from fetch_emit_law [OF Suc.prems(1) fp, of ?q] obtain r where
        r: "fetch_emit (iTrailingBitOneIndex p div 8) ?b ?q = Some r" "fetching r X"
          "iTrailingBitOneIndex r = iTrailingBitOneIndex p + 8"
          "r = ?q\<lparr>iTrailingBitOneIndex := iTrailingBitOneIndex p + 8,
            iTrailingBitOneIndexConceal := iTrailingBitOneIndexConceal p + 8,
            pBuffer := (pBuffer p)[iTrailingBitOneIndex p div 8 := ?b]\<rparr>"
        using sc off noff s1 by auto
      have run: "fetch_loop (Suc k) uRead (iTrailingBitOneIndex p div 8) p
          = fetch_loop k (uRead + 1) (iTrailingBitOneIndex r div 8) r"
      proof -
        have n: "(?z = 2 \<and> ?b = 3) = False" "(?z \<ge> 2 \<and> ?b = 1 \<and> uNumScDetect p + 1 = 2) = False"
          using copy by auto
        have d: "iTrailingBitOneIndex r div 8 = iTrailingBitOneIndex p div 8 + 1" using r(3) by simp
        show ?thesis
          unfolding fetch_step [OF _ size sc rd, unfolded neq0_conv [symmetric], OF avail] n if_False r(1) d
          by simp
      qed
      have fr: "same_frame p r" using r(4) by (simp add: same_frame_def)
      have "uNumScDetect r \<noteq> 2" "(uRead + 1) mod iBufInSize r = iBufInOffset r" using r(4) s1 nxt by auto
      from Suc.IH [OF r(2) this] obtain t where
        t: "fetch_loop k (uRead + 1) (iTrailingBitOneIndex r div 8) r = Some t" "fetching t X" "same_frame r t"
          "\<not> finished_fetching t \<longrightarrow>
            16 * k \<le> 3 * (iTrailingBitOneIndex t - iTrailingBitOneIndex r) + 8 * min (uZeroBytesCount r) 2"
        by blast
      have "min (uZeroBytesCount r) 2 \<le> min ?z 2 + 1" using r(4) by auto
      moreover have "iTrailingBitOneIndex r \<le> iTrailingBitOneIndex t" using t(3) by (simp add: same_frame_def)
      ultimately have "\<not> finished_fetching t \<longrightarrow>
          16 * Suc k \<le> 3 * (iTrailingBitOneIndex t - iTrailingBitOneIndex p) + 8 * min ?z 2"
        using t(4) r(3) by auto
      moreover have "iBufInAvailSize t < iBufInAvailSize p" using t(3) r(4) avail by (auto simp: same_frame_def)
      ultimately show ?thesis
        unfolding run using t(1,2) same_frame_trans [OF fr t(3)] by auto
    qed
  qed
qed


section \<open>The end of the data\<close>

fun last_bit :: "(nat \<Rightarrow> bool) \<Rightarrow> nat \<Rightarrow> nat" where
  "last_bit f 0 = 0"
| "last_bit f (Suc k) = (if f (Suc k) then Suc k else last_bit f k)"

lemma last_bit_le: "last_bit f k \<le> k"
  by (induction k) auto

lemma last_bit_cong: "(\<And>i. i \<le> k \<Longrightarrow> f i = g i) \<Longrightarrow> last_bit f k = last_bit g k"
  by (induction k) auto

lemma last_bit_skip: "(\<And>i. j < i \<Longrightarrow> i \<le> k \<Longrightarrow> \<not> f i) \<Longrightarrow> j \<le> k \<Longrightarrow> last_bit f k = last_bit f j"
proof (induction k)
  case (Suc k)
  then show ?case by (cases "j = Suc k") auto
qed simp

lemma last_bit_eq: "f j \<Longrightarrow> (\<And>i. j < i \<Longrightarrow> i \<le> k \<Longrightarrow> \<not> f i) \<Longrightarrow> j \<le> k \<Longrightarrow> last_bit f k = j"
  by (subst last_bit_skip [of j k f]) (auto, cases j, auto)

text \<open>The index of the last set bit of the cleaned NAL, 0 when it has none.\<close>

definition last_one :: "u8 list \<Rightarrow> nat" where
  "last_one X = last_bit (\<lambda>k. k < 8 * length X \<and> bit_at X k) (8 * length X)"

lemma last_one_less: "last_one X = 0 \<or> last_one X < 8 * length X"
proof (cases X)
  case (Cons x xs)
  then obtain k where k: "8 * length X = Suc k" by (metis length_Cons mult_Suc_right add_Suc numeral_nat(2) add.commute gr0_conv_Suc zero_less_mult_iff zero_less_Suc zero_less_numeral)
  have "last_one X = last_bit (\<lambda>k. k < 8 * length X \<and> bit_at X k) k"
    unfolding last_one_def k by simp
  with last_bit_le [of _ k] k show ?thesis by (metis less_Suc_eq_le)
qed (simp add: last_one_def)

lemma mask_bit: "(b AND 2 ^ k = (0 :: u8)) = (\<not> bit b k)"
proof
  assume z: "b AND 2 ^ k = 0"
  have "bit (b AND 2 ^ k) k" if "bit b k"
    using that bit_imp_le_length [OF that] by (simp add: bit_and_iff bit_exp_iff)
  with z show "\<not> bit b k" by auto
next
  assume "\<not> bit b k"
  then show "b AND 2 ^ k = 0"
    by (intro bit_word_eqI) (auto simp: bit_and_iff bit_exp_iff)
qed

lemma read_bit_eq:
  "k div 8 < length (pBuffer p) \<Longrightarrow> \<exists>b. read_bit p k = Some b \<and> (b = 0 \<longleftrightarrow> \<not> bit_at (pBuffer p) k)"
  by (auto simp: read_bit_def bit_at_def mask_bit)

lemma trailing_loop_eq:
  "k div 8 < length (pBuffer p) \<Longrightarrow> trailing_loop p k = Some (last_bit (bit_at (pBuffer p)) k)"
proof (induction k)
  case 0
  with read_bit_eq [of 0 p] show ?case by auto
next
  case (Suc k)
  then have "k div 8 < length (pBuffer p)" by (meson div_le_mono le_less_trans le_SucI order_refl)
  with Suc.IH read_bit_eq [OF Suc.prems] show ?case by auto
qed

text \<open>The buffer holds the cleaned NAL and zeros behind it.\<close>

definition holds :: "u8 list \<Rightarrow> u8 list \<Rightarrow> bool" where
  "holds d X \<longleftrightarrow> length X < length d \<and> take (length X) d = X \<and> (\<forall>i. length X \<le> i \<and> i < length d \<longrightarrow> d ! i = 0)"

lemma holds_bit:
  assumes "holds d X" "k < 8 * length d"
  shows "bit_at d k \<longleftrightarrow> k < 8 * length X \<and> bit_at X k"
proof (cases "k < 8 * length X")
  case True
  then have "k div 8 < length X" by auto
  with assms(1) have "d ! (k div 8) = X ! (k div 8)" unfolding holds_def by (metis nth_take)
  with True show ?thesis by (simp add: bit_at_def)
next
  case False
  then have "length X \<le> k div 8" "k div 8 < length d" using assms(2) by auto
  with assms(1) False show ?thesis by (simp add: holds_def bit_at_def)
qed

lemma remove_trailing_law:
  assumes "holds (pBuffer p) X" "iTrailingBitOneIndex p = 8 * length X" "iTotalBitIndex p \<le> last_one X"
  shows "remove_trailing_bits p = Some (p\<lparr>iTrailingBitOneIndex := last_one X,
    iTrailingBitOneIndexConceal := ((last_one X + 8) div 8) * 8\<rparr>)"
proof -
  have l: "length X < length (pBuffer p)" using assms(1) by (simp add: holds_def)
  then have "trailing_loop p (iTrailingBitOneIndex p) = Some (last_bit (bit_at (pBuffer p)) (8 * length X))"
    by (subst trailing_loop_eq) (simp_all add: assms(2))
  moreover have "last_bit (bit_at (pBuffer p)) (8 * length X) = last_one X"
    unfolding last_one_def by (rule last_bit_cong) (use l holds_bit [OF assms(1)] in auto)
  ultimately show ?thesis using assms(3) by (simp add: remove_trailing_bits_def Let_def)
qed

section \<open>Fetching\<close>

text \<open>The reader of the NAL \<open>X\<close>.\<close>

definition rp_inv :: "AL_TRbspParser \<Rightarrow> u8 list \<Rightarrow> bool" where
  "rp_inv p X \<longleftrightarrow> length X + 4 \<le> length (pBuffer p) \<and> 8 * length (pBuffer p) < 4294967296
     \<and> pByte p = iTotalBitIndex p div 8 \<and> iTotalBitIndex p \<le> last_one X
     \<and> (if finished_fetching p
        then holds (pBuffer p) X \<and> iTrailingBitOneIndex p = last_one X
          \<and> iTrailingBitOneIndexConceal p = ((last_one X + 8) div 8) * 8
        else fetching p X \<and> iTotalBitIndex p \<le> iTrailingBitOneIndex p)"

lemma fetch_data_finished: "finished_fetching p \<Longrightarrow> fetch_data p = Some (False, p)"
  by (simp add: fetch_data_def)

lemma finished_holds:
  assumes "fetching p X" "finished_fetching p" "length X + 4 \<le> length (pBuffer p)"
  shows "holds (pBuffer p) X" "iTrailingBitOneIndex p = 8 * length X"
proof -
  have "future p = []" using assms(2) by (auto simp: future_def finished_fetching_def input_def)
  then have X: "X = emitted p" using assms(1) by (simp add: fetching_def)
  with emitted_length [OF assms(1)] have l: "length X = iTrailingBitOneIndex p div 8" by simp
  with assms(1) show "iTrailingBitOneIndex p = 8 * length X" by (simp add: fetching_def)
  show "holds (pBuffer p) X"
    using assms l X by (auto simp: holds_def emitted_def fetching_def)
qed

lemma fetch_data_law:
  assumes "rp_inv p X" "\<not> finished_fetching p"
  shows "\<exists>q. fetch_data p = Some (True, q) \<and> rp_inv q X \<and> iTotalBitIndex q = iTotalBitIndex p
    \<and> iBufInAvailSize q < iBufInAvailSize p
    \<and> (finished_fetching q \<or> iTrailingBitOneIndex p + 160 \<le> iTrailingBitOneIndex q)"
proof -
  from assms have f: "fetching p X" and le: "iTotalBitIndex p \<le> iTrailingBitOneIndex p"
    and b: "length X + 4 \<le> length (pBuffer p)" "8 * length (pBuffer p) < 4294967296"
      "pByte p = iTotalBitIndex p div 8" "iTotalBitIndex p \<le> last_one X"
    by (simp_all add: rp_inv_def)
  from assms(2) have n: "uNumScDetect p \<noteq> 2" "0 < iBufInAvailSize p" by (simp_all add: finished_fetching_def)
  have m: "iBufInOffset p mod iBufInSize p = iBufInOffset p" using f by (simp add: fetching_def)
  have k: "min (iBufInOffset p + ANTI_EMUL_GRANULARITY) (iBufInOffset p + NON_VCL_NAL_SIZE) - iBufInOffset p = 32"
    by (simp add: ANTI_EMUL_GRANULARITY_def NON_VCL_NAL_SIZE_def)
  from fetch_loop_law [OF f n(1) m, of 32] obtain q where
    q: "fetch_loop 32 (iBufInOffset p) (iTrailingBitOneIndex p div 8) p = Some q" "fetching q X" "same_frame p q"
      "iBufInAvailSize q < iBufInAvailSize p"
      "\<not> finished_fetching q \<longrightarrow>
        16 * 32 \<le> 3 * (iTrailingBitOneIndex q - iTrailingBitOneIndex p) + 8 * min (uZeroBytesCount p) 2"
    using n(2) by auto
  from q(3) b have qb: "length X + 4 \<le> length (pBuffer q)" "8 * length (pBuffer q) < 4294967296"
      "pByte q = iTotalBitIndex q div 8" "iTotalBitIndex q \<le> last_one X" "iTotalBitIndex q = iTotalBitIndex p"
    by (simp_all add: same_frame_def)
  show ?thesis
  proof (cases "finished_fetching q")
    case True
    note h = finished_holds [OF q(2) True qb(1)]
    let ?r = "q\<lparr>iTrailingBitOneIndex := last_one X, iTrailingBitOneIndexConceal := ((last_one X + 8) div 8) * 8\<rparr>"
    have "fetch_data p = Some (True, ?r)"
      using assms(2) q(1) True remove_trailing_law [OF h qb(4)] by (simp add: fetch_data_def Let_def k)
    moreover have "rp_inv ?r X" using qb h(1) True by (simp add: rp_inv_def finished_fetching_def)
    ultimately show ?thesis using q(4) qb(5) True by (auto simp: finished_fetching_def)
  next
    case False
    then have "fetch_data p = Some (True, q)"
      using assms(2) q(1) by (simp add: fetch_data_def Let_def k)
    moreover have "rp_inv q X"
      using qb q(2,3) le False by (simp add: rp_inv_def same_frame_def)
    ultimately show ?thesis using q(4,5) qb(5) False by auto
  qed
qed

end
