(* ===== verification/RbspReaders.thy ===== *)
theory RbspReaders imports RbspFetch begin

text \<open>
  The readers against their contract: a source from which fields of bits are taken.  \<open>rest\<close> is what is
  still to be read, the bits of the cleaned NAL up to its stop bit.  The contract is the locale
  \<open>bit_source\<close>; the readers of the parser are shown to be one, whatever the fill level of its buffer.
\<close>

section \<open>The contract\<close>

fun get_all :: "(nat \<Rightarrow> 's \<Rightarrow> (u32 \<times> 's) option) \<Rightarrow> nat list \<Rightarrow> 's \<Rightarrow> (u32 list \<times> 's) option" where
  "get_all get [] s = Some ([], s)"
| "get_all get (n # ns) s = do { (v, t) \<leftarrow> get n s; (vs, r) \<leftarrow> get_all get ns t; Some (v # vs, r) }"

definition small :: "nat \<times> u32 \<Rightarrow> bool" where
  "small = (\<lambda>(n, v). n \<le> 32 \<and> drop_bit n v = 0)"

locale bit_source =
  fixes inv :: "'s \<Rightarrow> bool"
    and rest :: "'s \<Rightarrow> bool list"
    and get :: "nat \<Rightarrow> 's \<Rightarrow> (u32 \<times> 's) option"
  assumes get_law: "inv s \<Longrightarrow> rest s = field n v @ r \<Longrightarrow> small (n, v) \<Longrightarrow>
    \<exists>t. get n s = Some (v, t) \<and> inv t \<and> rest t = r"
begin

lemma get_all_law:
  "inv s \<Longrightarrow> rest s = fields fs @ r \<Longrightarrow> \<forall>f \<in> set fs. small f \<Longrightarrow>
   \<exists>t. get_all get (map fst fs) s = Some (map snd fs, t) \<and> inv t \<and> rest t = r"
proof (induction fs arbitrary: s)
  case (Cons f fs)
  obtain n v where f: "f = (n, v)" by (cases f)
  with Cons.prems get_law [of s n v "fields fs @ r"] obtain t where
    t: "get n s = Some (v, t)" "inv t" "rest t = fields fs @ r" by auto
  from Cons.IH [OF t(2,3)] Cons.prems(3) obtain q where
    "get_all get (map fst fs) t = Some (map snd fs, q)" "inv q" "rest q = r" by auto
  with t(1) f show ?case by auto
qed simp

end

section \<open>Moving on\<close>

definition rest :: "u8 list \<Rightarrow> AL_TRbspParser \<Rightarrow> bool list" where
  "rest X p = map (bit_at X) [iTotalBitIndex p..<last_one X]"

lemma rest_take: "length (rest X p) = last_one X - iTotalBitIndex p"
  "n \<le> last_one X - iTotalBitIndex p \<Longrightarrow>
   rest X p = map (bit_at X) [iTotalBitIndex p..<iTotalBitIndex p + n] @ map (bit_at X) [iTotalBitIndex p + n..<last_one X]"
proof -
  show "length (rest X p) = last_one X - iTotalBitIndex p" by (simp add: rest_def)
  assume n: "n \<le> last_one X - iTotalBitIndex p"
  show "rest X p = map (bit_at X) [iTotalBitIndex p..<iTotalBitIndex p + n] @ map (bit_at X) [iTotalBitIndex p + n..<last_one X]"
  proof (cases "iTotalBitIndex p \<le> last_one X")
    case True
    with n obtain m where "last_one X = iTotalBitIndex p + n + m" by (metis add.assoc le_Suc_ex le_add_diff_inverse)
    then show ?thesis
      by (simp add: rest_def upt_add_eq_append [of "iTotalBitIndex p" "iTotalBitIndex p + n" m])
  qed (use n in \<open>simp add: rest_def\<close>)
qed

lemma finished_total [simp]:
  "finished_fetching (p\<lparr>iTotalBitIndex := a, pByte := b\<rparr>) = finished_fetching p"
  by (simp add: finished_fetching_def)

lemma fetching_total [simp]: "fetching (p\<lparr>iTotalBitIndex := a, pByte := b\<rparr>) X = fetching p X"
  by (simp add: fetching_def future_def input_def emitted_def)

lemma rp_advance:
  assumes "rp_inv p X" "iTotalBitIndex p + n \<le> last_one X" "iTotalBitIndex p + n \<le> iTrailingBitOneIndex p"
  shows "rp_inv (p\<lparr>iTotalBitIndex := iTotalBitIndex p + n, pByte := (iTotalBitIndex p + n) div 8\<rparr>) X"
  using assms by (auto simp: rp_inv_def)

lemma rp_bounds:
  assumes "rp_inv p X"
  shows "iTotalBitIndex p \<le> last_one X" "iTotalBitIndex p \<le> iTrailingBitOneIndex p"
    "iTrailingBitOneIndex p \<le> 8 * length (pBuffer p)" "8 * length (pBuffer p) < 4294967296"
    "pByte p = iTotalBitIndex p div 8" "more_rbsp_data_conceal p" "length X + 4 \<le> length (pBuffer p)"
proof -
  from assms show a: "iTotalBitIndex p \<le> last_one X" "8 * length (pBuffer p) < 4294967296"
    "pByte p = iTotalBitIndex p div 8" "length X + 4 \<le> length (pBuffer p)" by (simp_all add: rp_inv_def)
  from assms show "iTotalBitIndex p \<le> iTrailingBitOneIndex p" by (auto simp: rp_inv_def split: if_splits)
  have t: "last_one X \<le> 8 * length (pBuffer p)" using last_one_less [of X] a(4) by auto
  show "iTrailingBitOneIndex p \<le> 8 * length (pBuffer p)"
    using assms t by (auto simp: rp_inv_def fetching_def split: if_splits)
  show "more_rbsp_data_conceal p"
  proof (cases "finished_fetching p")
    case True
    with assms have "iTrailingBitOneIndexConceal p = (last_one X + 8) div 8 * 8" by (simp add: rp_inv_def)
    then show ?thesis using a(1) by (simp add: more_rbsp_data_conceal_def)
  next
    case False
    with assms show ?thesis by (simp add: rp_inv_def more_rbsp_data_conceal_def fetching_def)
  qed
qed

text \<open>The bits the buffer has already.\<close>

lemma buffered_bit:
  assumes "rp_inv p X" "finished_fetching p \<and> k < 8 * length (pBuffer p) \<or> k < iTrailingBitOneIndex p"
  shows "bit_at (pBuffer p) k \<longleftrightarrow> k < 8 * length X \<and> bit_at X k"
proof (cases "finished_fetching p")
  case True
  then have "holds (pBuffer p) X" using assms(1) by (simp add: rp_inv_def)
  moreover have "k < 8 * length (pBuffer p)" using assms(2) rp_bounds(3) [OF assms(1)] by auto
  ultimately show ?thesis by (rule holds_bit)
next
  case False
  then have f: "fetching p X" using assms(1) by (simp add: rp_inv_def)
  have k: "k < iTrailingBitOneIndex p" using False assms(2) by simp
  from f have "8 dvd iTrailingBitOneIndex p" by (simp add: fetching_def)
  with k have kd: "k div 8 < iTrailingBitOneIndex p div 8" by auto
  have X: "X = emitted p @ future p" using f by (simp add: fetching_def)
  have le: "length (emitted p) = iTrailingBitOneIndex p div 8" by (rule emitted_length [OF f])
  have "X ! (k div 8) = pBuffer p ! (k div 8)"
    using kd le unfolding X by (simp add: nth_append emitted_def)
  moreover have "k < 8 * length X" using kd le unfolding X by auto
  ultimately show ?thesis by (simp add: bit_at_def)
qed

section \<open>One bit\<close>

lemma high_bit: "k < 8 \<Longrightarrow> drop_bit k (0x80 :: u8) = 2 ^ (7 - k)"
proof -
  assume "k < 8"
  then have "drop_bit k (2 ^ 7 :: u8) = 2 ^ (7 - k)" by (simp only: drop_bit_exp_eq) simp
  then show ?thesis by simp
qed

text \<open>What a reader needs: at least one fetch has brought the next bits or all of them.\<close>

lemma fetch_if_law:
  assumes "rp_inv p X" "b \<longrightarrow> \<not> finished_fetching p"
  shows "\<exists>q. (if b then fetch_data p else Some (True, p)) = Some (True, q) \<and> rp_inv q X
    \<and> iTotalBitIndex q = iTotalBitIndex p
    \<and> (b \<longrightarrow> finished_fetching q \<or> iTotalBitIndex p + 160 \<le> iTrailingBitOneIndex q) \<and> (\<not> b \<longrightarrow> q = p)"
proof (cases b)
  case True
  with fetch_data_law [OF assms(1)] assms(2) obtain q where
    "fetch_data p = Some (True, q)" "rp_inv q X" "iTotalBitIndex q = iTotalBitIndex p"
    "finished_fetching q \<or> iTrailingBitOneIndex p + 160 \<le> iTrailingBitOneIndex q" by blast
  with True rp_bounds(2) [OF assms(1)] show ?thesis by auto
qed (use assms in simp)

lemma get_next_bit_law:
  assumes "rp_inv p X" "rest X p = b # r"
  shows "\<exists>q. get_next_bit p = Some (if b then 1 else 0, q) \<and> rp_inv q X \<and> rest X q = r"
proof -
  have lt: "iTotalBitIndex p < last_one X" using rest_take(1) [of X p] assms(2) by simp
  have br: "b = bit_at X (iTotalBitIndex p)" "r = map (bit_at X) [Suc (iTotalBitIndex p)..<last_one X]"
    using assms(2) lt by (simp_all add: rest_def upt_conv_Cons)
  have nf: "iTrailingBitOneIndex p < iTotalBitIndex p + 1 \<longrightarrow> \<not> finished_fetching p"
    using assms(1) lt by (auto simp: rp_inv_def)
  from fetch_if_law [OF assms(1) nf] obtain q where
    q: "(if iTrailingBitOneIndex p < iTotalBitIndex p + 1 then fetch_data p else Some (True, p)) = Some (True, q)"
      "rp_inv q X" "iTotalBitIndex q = iTotalBitIndex p"
      "iTrailingBitOneIndex p < iTotalBitIndex p + 1 \<longrightarrow>
        finished_fetching q \<or> iTotalBitIndex p + 160 \<le> iTrailingBitOneIndex q"
      "\<not> iTrailingBitOneIndex p < iTotalBitIndex p + 1 \<longrightarrow> q = p" by auto
  have av: "iTotalBitIndex q < iTrailingBitOneIndex q"
  proof (cases "finished_fetching q")
    case True
    then show ?thesis using q(2,3) lt by (simp add: rp_inv_def)
  next
    case False
    then show ?thesis using q(3-5) by (cases "iTrailingBitOneIndex p < iTotalBitIndex p + 1") auto
  qed
  let ?t = "iTotalBitIndex q"
  note rb = rp_bounds [OF q(2)]
  have "?t < 8 * length (pBuffer q)" using av rb(3) by simp
  then have d: "?t div 8 < length (pBuffer q)" by auto
  have "b = bit_at (pBuffer q) ?t"
    using buffered_bit [OF q(2), of ?t] av br(1) q(3) lt last_one_less [of X] by auto
  then have v: "pBuffer q ! (?t div 8) AND drop_bit (?t mod 8) 0x80 \<noteq> 0 \<longleftrightarrow> b"
    by (simp add: high_bit mask_bit bit_at_def)
  let ?r = "q\<lparr>iTotalBitIndex := ?t + 1, pByte := (?t + 1) div 8\<rparr>"
  have s7: "Suc ?t div 8 = (if ?t mod 8 = 7 then Suc (?t div 8) else ?t div 8)" by presburger
  have same: "q\<lparr>iTotalBitIndex := a\<rparr> = q\<lparr>iTotalBitIndex := a, pByte := ?t div 8\<rparr>" for a
    using rb(5) by (cases q) simp
  have "get_next_bit p = Some (if b then 1 else 0, ?r)"
    unfolding get_next_bit_def q(1) using d v same by (simp add: Let_def rb(5) s7)
  moreover have "rp_inv ?r X" using rp_advance [OF q(2), of 1] av lt q(3) by simp
  moreover have "rest X ?r = r" using br(2) q(3) by (simp add: rest_def)
  ultimately show ?thesis by blast
qed

section \<open>The cache\<close>

lemma byte_index: "i < 32 \<Longrightarrow> \<exists>q r. i = 8 * q + r \<and> r < 8 \<and> q < (4 :: nat)"
  by (rule exI [of _ "i div 8"], rule exI [of _ "i mod 8"]) auto

lemma byte_pos: "m < 8 \<Longrightarrow> (8 * n + m) div 8 = n \<and> (8 * n + m) mod 8 = (m :: nat)"
  by auto

lemma aligned_bit:
  assumes "i < 32"
  shows "bit (push_bit 24 (ucast b0) OR push_bit 16 (ucast b1) OR push_bit 8 (ucast b2) OR ucast b3 :: u32) i
    = bit ([b0, b1, b2, b3 :: u8] ! (3 - i div 8)) (i mod 8)"
proof -
  obtain q r where i: "i = 8 * q + r" "r < 8" "q < 4" using byte_index [OF assms] by blast
  have u: "\<not> bit (b :: u8) j" if "8 \<le> j" for b j using that bit_imp_le_length [of b j] by auto
  consider "q = 0" | "q = 1" | "q = 2" | "q = 3" using i(3) by linarith
  moreover have d: "i div 8 = q" "i mod 8 = r" using i(1,2) by simp_all
  ultimately show ?thesis
    unfolding d by cases (use i(1,2) u in \<open>auto simp: bit_or_iff bit_push_bit_iff bit_ucast_iff\<close>)
qed

definition cached :: "u8 list \<Rightarrow> nat \<Rightarrow> u32 \<Rightarrow> bool" where
  "cached X t c \<longleftrightarrow> (\<forall>i. bit c i \<longleftrightarrow> i < 24 \<and> t + (23 - i) < 8 * length X \<and> bit_at X (t + (23 - i)))"

lemma cache_bits:
  assumes "off < 8" "bo + 3 < length d"
  shows "bit (drop_bit (8 - off) (push_bit 24 (ucast (d ! bo)) OR push_bit 16 (ucast (d ! (bo + 1)))
      OR push_bit 8 (ucast (d ! (bo + 2))) OR ucast (d ! (bo + 3)) :: u32) AND 0x00FFFFFF) i
    \<longleftrightarrow> i < 24 \<and> bit_at d (8 * bo + off + (23 - i))"
proof -
  have m: "(0x00FFFFFF :: u32) = mask 24" by (simp add: mask_eq_exp_minus_1)
  show ?thesis
  proof (cases "i < 24")
    case True
    let ?j = "8 - off + i"
    have j: "?j < 32" using True assms(1) by simp
    define k where "k = 8 * bo + off + (23 - i)"
    have kj: "k + ?j = 8 * bo + 31" using True assms(1) by (simp add: k_def)
    obtain q r where q: "?j = 8 * q + r" "r < 8" "q < 4" using byte_index [OF j] by blast
    have k: "k = 8 * (bo + (3 - q)) + (7 - r)" using kj q by simp
    have kd: "k div 8 = bo + (3 - q)" "k mod 8 = 7 - r" unfolding k using byte_pos [of "7 - r" "bo + (3 - q)"] by simp_all
    have nth: "[d ! bo, d ! (bo + 1), d ! (bo + 2), d ! (bo + 3)] ! (3 - q) = d ! (bo + (3 - q))"
    proof -
      consider "q = 0" | "q = 1" | "q = 2" | "q = 3" using q(3) by linarith
      then show ?thesis by cases (simp_all add: eval_nat_numeral)
    qed
    have qq: "?j div 8 = q" "?j mod 8 = r" unfolding q(1) using q(2) by simp_all
    have "7 - k mod 8 = r" using kd(2) q(2) by simp
    then show ?thesis
      using True unfolding m bit_and_iff bit_mask_iff bit_drop_bit_eq comp_apply aligned_bit [OF j] qq nth k_def [symmetric]
      by (simp add: bit_at_def kd(1))
  qed (simp add: m bit_and_iff bit_mask_iff)
qed

lemma diff32_id: "b \<le> a \<Longrightarrow> a < 4294967296 \<Longrightarrow> diff32 a b = a - b"
  by (simp add: diff32_def to_u32_id flip: of_nat_diff)

lemma get_cache_law:
  assumes "rp_inv p X"
  shows "\<exists>c q. get_cache_24 p = Some (c, q) \<and> rp_inv q X \<and> iTotalBitIndex q = iTotalBitIndex p
    \<and> cached X (iTotalBitIndex p) c"
proof -
  note rb = rp_bounds [OF assms]
  let ?few = "diff32 (iTrailingBitOneIndex p) (iTotalBitIndex p) < 32"
  have few: "?few \<longleftrightarrow> iTrailingBitOneIndex p < iTotalBitIndex p + 32"
    using rb(2-4) by (subst diff32_id) auto
  have "\<exists>ok q. (if ?few then fetch_data p else Some (True, p)) = Some (ok, q) \<and> rp_inv q X
    \<and> iTotalBitIndex q = iTotalBitIndex p
    \<and> (finished_fetching q \<or> iTotalBitIndex q + 32 \<le> iTrailingBitOneIndex q)"
  proof (cases "?few \<and> \<not> finished_fetching p")
    case True
    with fetch_data_law [OF assms] rb(2) show ?thesis by fastforce
  next
    case False
    with assms few show ?thesis by (auto simp: fetch_data_finished)
  qed
  then obtain ok q where q: "(if ?few then fetch_data p else Some (True, p)) = Some (ok, q)" "rp_inv q X"
    "iTotalBitIndex q = iTotalBitIndex p" "finished_fetching q \<or> iTotalBitIndex q + 32 \<le> iTrailingBitOneIndex q"
    by blast
  let ?t = "iTotalBitIndex q"
  note qb = rp_bounds [OF q(2)]
  have room: "?t div 8 + 3 < length (pBuffer q)"
  proof (cases "length X = 0")
    case True
    then have "?t = 0" using qb(1) last_one_less [of X] by simp
    then show ?thesis using qb(7) by simp
  next
    case False
    then have "?t < 8 * length X" using qb(1) last_one_less [of X] by auto
    then show ?thesis using qb(7) by auto
  qed
  let ?c = "drop_bit (8 - ?t mod 8) (push_bit 24 (ucast (pBuffer q ! (?t div 8)))
      OR push_bit 16 (ucast (pBuffer q ! (?t div 8 + 1))) OR push_bit 8 (ucast (pBuffer q ! (?t div 8 + 2)))
      OR ucast (pBuffer q ! (?t div 8 + 3)) :: u32) AND 0x00FFFFFF"
  have run: "get_cache_24 p = Some (?c, q)"
    unfolding get_cache_24_def q(1) using room by (simp add: Let_def)
  have "bit ?c i \<longleftrightarrow> i < 24 \<and> ?t + (23 - i) < 8 * length X \<and> bit_at X (?t + (23 - i))" for i
  proof -
    have e: "8 * (?t div 8) + ?t mod 8 = ?t" by simp
    have "?t + (23 - i) < 8 * length (pBuffer q)" using room by (simp add: less_mult_imp_div_less)
    moreover have "finished_fetching q \<or> ?t + (23 - i) < iTrailingBitOneIndex q" using q(4) by auto
    ultimately have "bit_at (pBuffer q) (?t + (23 - i)) \<longleftrightarrow> ?t + (23 - i) < 8 * length X \<and> bit_at X (?t + (23 - i))"
      by (intro buffered_bit [OF q(2)]) auto
    then show ?thesis
      using cache_bits [of "?t mod 8" "?t div 8" "pBuffer q" i, OF _ room] unfolding e by simp
  qed
  with run q(2,3) show ?thesis unfolding cached_def by metis
qed

section \<open>Skipping\<close>

lemma skip_loop_law:
  "rp_inv p X \<Longrightarrow> iTotalBitIndex p + n \<le> last_one X \<Longrightarrow>
   \<exists>q. skip_loop n p = Some (True, q) \<and> rp_inv q X \<and> iTotalBitIndex q = iTotalBitIndex p
     \<and> iTotalBitIndex q + n \<le> iTrailingBitOneIndex q"
proof (induction "iBufInAvailSize p" arbitrary: p rule: less_induct)
  case less
  note rb = rp_bounds [OF less.prems(1)]
  have few: "diff32 (iTrailingBitOneIndex p) (iTotalBitIndex p) < n \<longleftrightarrow> iTrailingBitOneIndex p < iTotalBitIndex p + n"
    using rb(2-4) by (subst diff32_id) auto
  show ?case
  proof (cases "iTrailingBitOneIndex p < iTotalBitIndex p + n")
    case True
    then have "\<not> finished_fetching p" using less.prems by (auto simp: rp_inv_def)
    with fetch_data_law [OF less.prems(1)] obtain q where
      q: "fetch_data p = Some (True, q)" "rp_inv q X" "iTotalBitIndex q = iTotalBitIndex p"
        "iBufInAvailSize q < iBufInAvailSize p" by blast
    from less.hyps [OF q(4,2)] less.prems(2) q(3) obtain r where
      "skip_loop n q = Some (True, r)" "rp_inv r X" "iTotalBitIndex r = iTotalBitIndex q"
      "iTotalBitIndex r + n \<le> iTrailingBitOneIndex r" by auto
    with q(1,3) True few show ?thesis by (simp add: skip_loop.simps [of n p])
  next
    case False
    with few less.prems show ?thesis by (simp add: skip_loop.simps [of n p])
  qed
qed

lemma skip_law:
  assumes "rp_inv p X" "iTotalBitIndex p + n \<le> last_one X"
  shows "\<exists>q. skip n p = Some q \<and> rp_inv q X \<and> iTotalBitIndex q = iTotalBitIndex p + n"
proof -
  from skip_loop_law [OF assms] obtain q where
    q: "skip_loop n p = Some (True, q)" "rp_inv q X" "iTotalBitIndex q = iTotalBitIndex p"
      "iTotalBitIndex q + n \<le> iTrailingBitOneIndex q" by blast
  then have "skip n p = Some (q\<lparr>iTotalBitIndex := iTotalBitIndex q + n, pByte := (iTotalBitIndex q + n) div 8\<rparr>)"
    by (simp add: skip_def Let_def)
  with rp_advance [OF q(2), of n] q(3,4) assms(2) show ?thesis by simp
qed

lemma rest_skip:
  assumes "rp_inv p X" "rest X p = bs @ r"
  shows "iTotalBitIndex p + length bs \<le> last_one X" "bs = map (bit_at X) [iTotalBitIndex p..<iTotalBitIndex p + length bs]"
    "iTotalBitIndex q = iTotalBitIndex p + length bs \<Longrightarrow> rest X q = r"
proof -
  have l: "length bs + length r = last_one X - iTotalBitIndex p" using assms(2) rest_take(1) [of X p] by simp
  with rp_bounds(1) [OF assms(1)] show "iTotalBitIndex p + length bs \<le> last_one X" by simp
  from l have "length bs \<le> last_one X - iTotalBitIndex p" by simp
  from rest_take(2) [OF this] assms(2)
  have e: "bs @ r = map (bit_at X) [iTotalBitIndex p..<iTotalBitIndex p + length bs]
      @ map (bit_at X) [iTotalBitIndex p + length bs..<last_one X]" by simp
  then show "bs = map (bit_at X) [iTotalBitIndex p..<iTotalBitIndex p + length bs]" by (simp add: append_eq_append_conv)
  show "iTotalBitIndex q = iTotalBitIndex p + length bs \<Longrightarrow> rest X q = r"
    using e by (simp add: append_eq_append_conv rest_def)
qed

section \<open>Fixed-length codes\<close>

lemma field_inj: "field n v = field n w \<Longrightarrow> drop_bit n v = 0 \<Longrightarrow> drop_bit n w = 0 \<Longrightarrow> v = w"
proof (rule bit_word_eqI)
  fix i assume f: "field n v = field n w" "drop_bit n v = 0" "drop_bit n w = 0" "i < LENGTH(32)"
  show "bit v i = bit w i"
  proof (cases "i < n")
    case True
    then have "field n v ! (n - 1 - i) = field n w ! (n - 1 - i)" by (simp add: f(1))
    with True show ?thesis by (simp add: field_nth)
  next
    case False
    then have "\<not> bit v i" "\<not> bit w i" using f(2,3) unfolding small_bits by blast+
    then show ?thesis by simp
  qed
qed

text \<open>The first bits of the cache.\<close>

lemma cache_field:
  assumes "cached X t c" "n \<le> 24" "t + n \<le> 8 * length X"
  shows "field n (drop_bit (24 - n) c) = map (bit_at X) [t..<t + n]"
proof (rule nth_equalityI)
  fix i assume "i < length (field n (drop_bit (24 - n) c))"
  then have i: "i < n" by simp
  have e: "24 - n + (n - 1 - i) = 23 - i" "23 - (23 - i) = i" "23 - i < 24" using i assms(2) by simp_all
  have "field n (drop_bit (24 - n) c) ! i = bit c (23 - i)"
    unfolding field_nth [OF i] bit_drop_bit_eq comp_apply e(1) ..
  also have "\<dots> = bit_at X (t + i)" using assms(1,3) i e(2,3) by (simp add: cached_def)
  finally show "field n (drop_bit (24 - n) c) ! i = map (bit_at X) [t..<t + n] ! i" using i by simp
qed simp

lemma last_one_len: "last_one X \<le> 8 * length X"
  using last_one_less [of X] by auto

lemma u_cache_law:
  assumes "rp_inv p X" "rest X p = field n v @ r" "n \<le> 24" "drop_bit n v = 0"
  shows "\<exists>c q. get_cache_24 p = Some (c, q) \<and> rp_inv q X \<and> iTotalBitIndex q = iTotalBitIndex p
    \<and> drop_bit (24 - n) c AND (push_bit n 1 - 1) = v"
proof -
  from get_cache_law [OF assms(1)] obtain c q where
    q: "get_cache_24 p = Some (c, q)" "rp_inv q X" "iTotalBitIndex q = iTotalBitIndex p" "cached X (iTotalBitIndex p) c"
    by blast
  note rs = rest_skip [OF assms(1,2)]
  let ?w = "drop_bit (24 - n) c AND (push_bit n 1 - 1)"
  have m: "push_bit n 1 - 1 = (mask n :: u32)" by (simp add: mask_eq_exp_minus_1)
  have "field n ?w = field n (drop_bit (24 - n) c)"
    unfolding m by (rule field_cong) (use assms(3) in \<open>auto simp: bit_and_iff bit_mask_iff\<close>)
  also have "\<dots> = field n v"
    using cache_field [OF q(4) assms(3)] rs(1,2) last_one_len [of X] by simp
  finally have "?w = v"
    by (rule field_inj) (use assms(4) in \<open>auto simp only: small_bits m bit_and_iff bit_mask_iff\<close>)
  with q show ?thesis by blast
qed

lemma field_snoc:
  assumes "\<And>i. bit w i = (if i = 0 then b else i < 32 \<and> bit val (i - 1))" "m < 32"
  shows "field (Suc m) w = field m val @ [b]"
proof (rule nth_equalityI)
  fix i assume "i < length (field (Suc m) w)"
  then have "i < Suc m" by simp
  then show "field (Suc m) w ! i = (field m val @ [b]) ! i"
    using assms(2) by (simp add: field_nth nth_append assms(1)) auto
qed simp

lemma next_bits_law:
  "rp_inv p X \<Longrightarrow> rest X p = bs @ r \<Longrightarrow> m + length bs \<le> 32 \<Longrightarrow> drop_bit m val = 0 \<Longrightarrow>
   \<exists>v q. next_bits (length bs) val p = Some (v, q) \<and> rp_inv q X \<and> rest X q = r
     \<and> field (m + length bs) v = field m val @ bs \<and> drop_bit (m + length bs) v = 0"
proof (induction bs arbitrary: p m val)
  case (Cons b bs)
  let ?val = "push_bit 1 val OR ucast (if b then 1 else 0 :: u8)"
  from Cons.prems(2) have "rest X p = b # (bs @ r)" by simp
  from get_next_bit_law [OF Cons.prems(1) this] obtain q where
    q: "get_next_bit p = Some (if b then 1 else 0, q)" "rp_inv q X" "rest X q = bs @ r" by blast
  have m: "Suc m \<le> 32" using Cons.prems(3) by simp
  have bits: "bit ?val i = (if i = 0 then b else i < 32 \<and> bit val (i - 1))" for i
    unfolding bit_or_iff bit_push_bit_iff bit_ucast_iff by (auto simp: bit_1_iff)
  have sm: "\<forall>i. bit val i \<longrightarrow> i < m" using Cons.prems(4) by (simp add: small_bits)
  have "drop_bit (Suc m) ?val = 0" unfolding small_bits
    using sm by (auto simp only: bits split: if_splits)
  from Cons.IH [OF q(2,3) _ this] Cons.prems(3) obtain v t where
    t: "next_bits (length bs) ?val q = Some (v, t)" "rp_inv t X" "rest X t = r"
      "field (Suc m + length bs) v = field (Suc m) ?val @ bs" "drop_bit (Suc m + length bs) v = 0" by auto
  have "field (Suc m) ?val = field m val @ [b]" by (rule field_snoc [OF bits]) (use m in simp)
  with t q(1) show ?case by (intro exI [of _ v] exI [of _ t]) simp
qed auto

lemma u_law:
  assumes "rp_inv p X" "rest X p = field n v @ r" "small (n, v)"
  shows "\<exists>q. u n p = Some (v, q) \<and> rp_inv q X \<and> rest X q = r"
proof -
  note rs = rest_skip [OF assms(1,2)]
  from assms(3) have n: "n \<le> 32" "drop_bit n v = 0" by (simp_all add: small_def)
  have c: "more_rbsp_data_conceal p" by (rule rp_bounds [OF assms(1)])
  consider "n = 1" | "n \<noteq> 1" "n \<le> 24" | "n > 24" by linarith
  then show ?thesis
  proof cases
    case 1
    have f: "field n v = [bit v 0]" using 1 by (simp add: field_def)
    have "v = (if bit v 0 then 1 else 0)"
      using n(2) 1 by (intro bit_word_eqI) (auto simp: small_bits bit_1_iff)
    moreover from get_next_bit_law [OF assms(1)] assms(2) f obtain q where
      "get_next_bit p = Some (if bit v 0 then 1 else 0, q)" "rp_inv q X" "rest X q = r" by auto
    ultimately show ?thesis using 1 c by (auto simp: u_def)
  next
    case 2
    from u_cache_law [OF assms(1,2) 2(2) n(2)] obtain c q where
      q: "get_cache_24 p = Some (c, q)" "rp_inv q X" "iTotalBitIndex q = iTotalBitIndex p"
        "drop_bit (24 - n) c AND (push_bit n 1 - 1) = v" by blast
    from skip_law [OF q(2), of n] rs(1) q(3) obtain t where
      "skip n q = Some t" "rp_inv t X" "iTotalBitIndex t = iTotalBitIndex q + n" by auto
    with q rs(3) [of t] 2 c show ?thesis by (auto simp: u_def)
  next
    case 3
    have sp: "field n v = field 24 (drop_bit (n - 24) v) @ field (n - 24) v"
      using field_split [of "n - 24" n v] 3 by simp
    have d: "drop_bit 24 (drop_bit (n - 24) v) = 0"
      using n(2) 3 by (simp add: drop_bit_drop_bit)
    from assms(2) have r1: "rest X p = field 24 (drop_bit (n - 24) v) @ (field (n - 24) v @ r)" unfolding sp by simp
    from u_cache_law [OF assms(1) r1 _ d] obtain c q where
      q: "get_cache_24 p = Some (c, q)" "rp_inv q X" "iTotalBitIndex q = iTotalBitIndex p"
        "c AND (push_bit 24 1 - 1) = drop_bit (n - 24) v" by auto
    have c24: "c = drop_bit (n - 24) v"
    proof -
      from get_cache_law [OF assms(1)] q(1) have "cached X (iTotalBitIndex p) c" by auto
      then have "c AND mask 24 = c" by (intro bit_word_eqI) (auto simp: bit_and_iff bit_mask_iff cached_def)
      with q(4) show ?thesis by (simp add: mask_eq_exp_minus_1)
    qed
    note r2 = rest_skip [OF assms(1) r1]
    from skip_law [OF q(2), of 24] r2(1) q(3) obtain t where
      t: "skip 24 q = Some t" "rp_inv t X" "iTotalBitIndex t = iTotalBitIndex q + 24" by auto
    with r2(3) [of t] q(3) have rt: "rest X t = field (n - 24) v @ r" by simp
    from next_bits_law [OF t(2) rt, of 24 c] 3 n(1) d c24 obtain w z where
      w: "next_bits (n - 24) c t = Some (w, z)" "rp_inv z X" "rest X z = r"
        "field n w = field 24 c @ field (n - 24) v" "drop_bit n w = 0" by auto
    have "w = v" by (rule field_inj [OF _ w(5) n(2)]) (use w(4) sp c24 in simp)
    with w q(1) t(1) 3 c show ?thesis by (auto simp: u_def)
  qed
qed

interpretation rp: bit_source "\<lambda>p. rp_inv p X" "rest X" u for X
  by unfold_locales (rule u_law)

end
