(* ===== verification/RbspGolomb.thy ===== *)
theory RbspGolomb imports RbspReaders begin

text \<open>
  The Exp-Golomb readers \<open>ue\<close> and \<open>se\<close> are inverse to the code of the writer, on both paths: the search for
  the first one in the cached bits with \<open>al_log2\<close>, and the search bit by bit for codes with more than
  22 leading zeros.
\<close>

section \<open>The highest bit\<close>

lemma tab_log2_eq:
  assumes "2 ^ s \<le> m" "m < 2 ^ (s + 1)" "s < 8"
  shows "tab_log2 ! m = s"
proof -
  consider "s = 0" | "s = 1" | "s = 2" | "s = 3" | "s = 4" | "s = 5" | "s = 6" | "s = 7" using assms(3) by linarith
  then show ?thesis
    by cases (use assms(1,2) in \<open>simp add: tab_log2_def nth_append_right nth_append_left\<close>)+
qed

lemma top_bit_bounds:
  assumes "bit (c :: u32) t" "\<And>i. t < i \<Longrightarrow> \<not> bit c i"
  shows "2 ^ t \<le> unat c" "unat c < 2 ^ (t + 1)"
proof -
  have "bit (unat c) t" using assms(1) bit_imp_le_length [OF assms(1)] by (simp add: bit_unsigned_iff)
  then have "odd (unat c div 2 ^ t)" by (simp add: bit_iff_odd)
  then have "unat c div 2 ^ t \<noteq> 0" by (metis even_zero)
  then show "2 ^ t \<le> unat c" by (metis div_less not_le_imp_less)
  have "take_bit (t + 1) (unat c) = unat c"
    by (rule bit_eqI) (use assms(2) in \<open>auto simp: bit_take_bit_iff bit_unsigned_iff less_Suc_eq not_less\<close>,
      metis less_antisym not_less_eq)
  then show "unat c < 2 ^ (t + 1)" by (metis take_bit_nat_less_exp)
qed

lemma mask_zero:
  assumes "t < m \<or> m + 8 \<le> t" "\<And>i. t < i \<Longrightarrow> \<not> bit (c :: u32) i" "t < m"
  shows "c AND push_bit m (mask 8) = 0"
  by (rule bit_eqI) (use assms in \<open>auto simp: bit_and_iff bit_push_bit_iff bit_mask_iff\<close>)

lemma mask_nonzero:
  assumes "bit (c :: u32) t" "m \<le> t" "t < m + 8"
  shows "c AND push_bit m (mask 8) \<noteq> 0"
proof
  assume z: "c AND push_bit m (mask 8) = 0"
  have "t - m < 8" using assms(2,3) by linarith
  then have "bit (c AND push_bit m (mask 8)) t"
    using assms bit_imp_le_length [OF assms(1)] by (simp add: bit_and_iff bit_push_bit_iff bit_mask_iff)
  with z show False by simp
qed

lemma al_log2_eq:
  assumes "bit c t" "\<And>i. t < i \<Longrightarrow> \<not> bit c i"
  shows "al_log2 c = t"
proof -
  have masks: "(0xFF000000 :: u32) = push_bit 24 (mask 8)" "(0x00FF0000 :: u32) = push_bit 16 (mask 8)"
    "(0x0000FF00 :: u32) = push_bit 8 (mask 8)" by (simp_all add: mask_eq_exp_minus_1 push_bit_eq_mult)
  have t: "t < 32" using bit_imp_le_length [OF assms(1)] by simp
  have part: "tab_log2 ! unat (drop_bit s c) = t - s" if "s \<le> t" "t < s + 8" for s
  proof (rule tab_log2_eq)
    have b: "bit (drop_bit s c) (t - s)" "\<And>i. t - s < i \<Longrightarrow> \<not> bit (drop_bit s c) i"
      using that assms by (auto simp: bit_drop_bit_eq)
    from top_bit_bounds [OF b] show "2 ^ (t - s) \<le> unat (drop_bit s c)" "unat (drop_bit s c) < 2 ^ (t - s + 1)"
      by simp_all
  qed (use that in simp)
  consider "t < 8" | "8 \<le> t" "t < 16" | "16 \<le> t" "t < 24" | "24 \<le> t" by linarith
  then show ?thesis
  proof cases
    case 1
    then show ?thesis using part [of 0] assms(2)
      unfolding al_log2_def masks by (simp add: mask_zero [of t])
  next
    case 2
    then show ?thesis using part [of 8] mask_nonzero [OF assms(1), of 8] assms(2)
      unfolding al_log2_def masks by (simp add: mask_zero [of t])
  next
    case 3
    then show ?thesis using part [of 16] mask_nonzero [OF assms(1), of 16] assms(2)
      unfolding al_log2_def masks by (simp add: mask_zero [of t])
  next
    case 4
    then show ?thesis using part [of 24] mask_nonzero [OF assms(1), of 24] t
      unfolding al_log2_def masks by simp
  qed
qed

lemma al_log2_small: "al_log2 0 = 0" "al_log2 1 = 0"
  by (simp_all add: al_log2_def tab_log2_def nth_append_left)

section \<open>Reading a code\<close>

lemma leading_zeros_law:
  "rp_inv p X \<Longrightarrow> rest X p = replicate k False @ True # r \<Longrightarrow>
   \<exists>q. leading_zeros n p = Some (Some (n + k), q) \<and> rp_inv q X \<and> rest X q = r"
proof (induction k arbitrary: p n)
  case 0
  from get_next_bit_law [OF 0(1), of True r] 0(2) show ?case
    by (auto simp: leading_zeros.simps [of n p])
next
  case (Suc k)
  from get_next_bit_law [OF Suc.prems(1), of False "replicate k False @ True # r"] Suc.prems(2) obtain q where
    q: "get_next_bit p = Some (0, q)" "rp_inv q X" "rest X q = replicate k False @ True # r" by auto
  from Suc.IH [OF q(2,3), of "n + 1"] q(1) show ?case by (auto simp: leading_zeros.simps [of n p])
qed

text \<open>What the cache shows of a code.\<close>

lemma cached_prefix:
  assumes "rp_inv p X" "rest X p = bs @ r" "cached X (iTotalBitIndex p) c" "i < length bs" "i < 24"
  shows "bit c (23 - i) = bs ! i"
proof -
  note rs = rest_skip [OF assms(1,2)]
  have "bs ! i = bit_at X (iTotalBitIndex p + i)" using assms(4) by (subst rs(2)) simp
  moreover have "iTotalBitIndex p + i < 8 * length X" using rs(1) assms(4) last_one_len [of X] by simp
  moreover have "23 - (23 - i) = i" "23 - i < 24" using assms(5) by simp_all
  ultimately show ?thesis using assms(3,5) by (simp add: cached_def)
qed

lemma find_first_one:
  assumes "rp_inv p X" "rest X p = replicate k False @ True # r"
  shows "\<exists>c p1 q n. get_cache_24 p = Some (c, p1) \<and> n = 23 - al_log2 c
    \<and> (if n = 23 then leading_zeros 0 p1 else do { p2 \<leftarrow> skip (n + 1) p1; Some (Some n, p2) }) = Some (Some k, q)
    \<and> rp_inv q X \<and> rest X q = r"
proof -
  from get_cache_law [OF assms(1)] obtain c p1 where
    c: "get_cache_24 p = Some (c, p1)" "rp_inv p1 X" "iTotalBitIndex p1 = iTotalBitIndex p" "cached X (iTotalBitIndex p) c"
    by blast
  have r1: "rest X p1 = (replicate k False @ [True]) @ r" using assms(2) c(3) by (simp add: rest_def)
  have c1: "cached X (iTotalBitIndex p1) c" using c(3,4) by simp
  note pre = cached_prefix [OF c(2) r1 c1]
  have high: "\<not> bit c i" if "24 \<le> i" for i using c1 that by (simp add: cached_def)
  have zero: "\<not> bit c i" if "23 - k < i" "k \<le> 23" for i
  proof (cases "i < 24")
    case True
    with that have "23 - i < k" by simp
    with pre [of "23 - i"] True show ?thesis by (auto simp: nth_append)
  qed (use high in simp)
  show ?thesis
  proof (cases "k \<le> 22")
    case True
    have one: "bit c (23 - k)" using pre [of k] True by (simp add: nth_append)
    have "al_log2 c = 23 - k" by (rule al_log2_eq [OF one]) (use zero True in simp)
    then have n: "23 - al_log2 c = k" "k \<noteq> 23" using True by simp_all
    note rs = rest_skip [OF c(2) r1]
    from skip_law [OF c(2), of "k + 1"] rs(1) obtain q where
      q: "skip (k + 1) p1 = Some q" "rp_inv q X" "iTotalBitIndex q = iTotalBitIndex p1 + (k + 1)" by auto
    from rs(3) [of q] q(3) have "rest X q = r" by simp
    with c(1) q(1,2) n show ?thesis by (intro exI [of _ c] exI [of _ p1] exI [of _ q] exI [of _ k]) simp
  next
    case False
    have "c = 0 \<or> c = 1"
    proof -
      have "\<not> bit c i" if "0 < i" for i
      proof (cases "i < 24")
        case True
        with that False have "23 - i < k" by simp
        with pre [of "23 - i"] True show ?thesis by (auto simp: nth_append)
      qed (use high in simp)
      then have e: "bit c i = (i = 0 \<and> bit c 0)" for i by (cases "i = 0") auto
      have "c = (if bit c 0 then 1 else 0)"
      proof (rule bit_word_eqI)
        fix i show "bit c i = bit (if bit c 0 then 1 else 0 :: u32) i"
          unfolding e [of i] by (simp add: bit_1_iff)
      qed
      then show ?thesis by (metis (full_types))
    qed
    then have n: "23 - al_log2 c = 23" using al_log2_small by auto
    from leading_zeros_law [OF c(2), of k r 0] r1 obtain q where
      "leading_zeros 0 p1 = Some (Some k, q)" "rp_inv q X" "rest X q = r" by auto
    with c(1) n show ?thesis by (intro exI [of _ c] exI [of _ p1] exI [of _ q] exI [of _ 23]) simp
  qed
qed

lemma ue_law:
  assumes "rp_inv p X" "rest X p = ue_bits v @ r" "v < 4294967295"
  shows "\<exists>q. ue p = Some (of_nat v, q) \<and> rp_inv q X \<and> rest X q = r"
proof -
  define w :: u32 where "w = of_nat (v + 1)"
  define k where "k = nat (floor_log2 (v + 1))"
  have uw: "unat w = v + 1" unfolding w_def unat_of_nat using assms(3) by (simp add: take_bit_nat_eq_self_iff)
  have b: "2 ^ k \<le> v + 1" "v + 1 < 2 ^ (k + 1)" using floor_log2_bounds [of "v + 1"] by (simp_all add: k_def)
  have k: "k < 32" unfolding k_def by (rule floor_log2_less) (use assms(3) in simp_all)
  note T = field_top [of k w, unfolded uw, OF b k]
  have r1: "rest X p = replicate k False @ True # (field k w @ r)"
  proof -
    have "ue_bits v = replicate k False @ field (k + 1) w" unfolding ue_bits_def k_def w_def ..
    then show ?thesis using assms(2) T(1) by (simp add: field_Suc)
  qed
  from find_first_one [OF assms(1) r1] obtain c p1 q n where
    f: "get_cache_24 p = Some (c, p1)" "n = 23 - al_log2 c"
      "(if n = 23 then leading_zeros 0 p1 else do { p2 \<leftarrow> skip (n + 1) p1; Some (Some n, p2) }) = Some (Some k, q)"
      "rp_inv q X" "rest X q = field k w @ r" by blast
  note cn = rp_bounds(6) [OF assms(1)]
  have run: "ue p = (if k \<noteq> 0 then if k \<ge> 32 then Some (0, q)
      else do { (v, p3) \<leftarrow> u k q; Some (push_bit k 1 - 1 + v, p3) } else Some (0, q))"
    unfolding ue_def f(1) Let_def Option.bind.bind_lunit prod.case f(2) [symmetric] f(3) using cn by simp
  show ?thesis
  proof (cases "k = 0")
    case True
    then have "v = 0" using b(2) by simp
    with True run f(4,5) show ?thesis by simp
  next
    case False
    have "small (k, w - push_bit k 1)" using T(3) k by (simp add: small_def)
    from u_law [OF f(4) _ this, of r] f(5) T(2) obtain t where
      t: "u k q = Some (w - push_bit k 1, t)" "rp_inv t X" "rest X t = r" by auto
    have "push_bit k 1 - 1 + (w - push_bit k 1) = of_nat v" by (simp add: w_def)
    with t run False k show ?thesis by simp
  qed
qed

lemma se_law:
  assumes "rp_inv p X" "rest X p = ue_bits (se_code i) @ r" "\<bar>i\<bar> < 2147483648" 
  shows "\<exists>q. se p = Some (i, q) \<and> rp_inv q X \<and> rest X q = r"
proof -
  let ?k = "se_code i"
  define w :: u32 where "w = of_nat ?k + 1"
  have "?k < 4294967295" using assms(3) by (auto simp: se_code_def)
  with ue_law [OF assms(1,2)] obtain q where q: "ue p = Some (of_nat ?k, q)" "rp_inv q X" "rest X q = r" by blast
  have uw: "unat w = ?k + 1"
    unfolding w_def by (subst unat_suc) (use \<open>?k < 4294967295\<close> in \<open>simp_all add: unat_of_nat take_bit_nat_eq_self_iff\<close>)
  have "(?k + 1) div 2 = nat \<bar>i\<bar>" by (auto simp: se_code_def)
  moreover have "unat (drop_bit 1 w) = drop_bit 1 (?k + 1)" by (simp only: unat_drop_bit_eq uw)
  ultimately have "unat (drop_bit 1 w) = nat \<bar>i\<bar>" by (simp only: drop_bit_eq_div) simp
  then have "uint (drop_bit 1 w) = \<bar>i\<bar>" by (simp add: uint_nat)
  then have s: "sint (drop_bit 1 w) = \<bar>i\<bar>"
    using assms(3) by (simp only: sint_uint) (simp add: signed_take_bit_int_eq_self_iff)
  have e: "even w \<longleftrightarrow> i > 0"
  proof -
    have "bit w 0 = bit (unat w) 0" by (simp add: bit_unsigned_iff)
    then have "even w = even (?k + 1)" unfolding bit_0 uw by blast
    then show ?thesis by (auto simp: se_code_def even_nat_iff)
  qed
  have "se p = Some (i, q)"
    unfolding se_def q(1) Option.bind.bind_lunit prod.case w_def [symmetric] s e
    using rp_bounds(6) [OF assms(1)] by (simp add: Let_def)
  with q(2,3) show ?thesis by blast
qed

end
