(* ===== verification/NalRoundtrip.thy ===== *)
theory NalRoundtrip imports IpStream RbspGolomb begin

text \<open>
  The encoder's side and the decoder's side of a NAL unit put together: what \<open>FlushNAL\<close> writes around an
  RBSP, what the parser makes of it, and the round trip of a list of syntax elements.
\<close>

section \<open>Emulation prevention\<close>

text \<open>The bytes \<open>AntiEmul\<close> writes.\<close>

fun escaped :: "u8 list \<Rightarrow> u8 list" where
  "escaped (b0 # b1 # b2 # bs) =
     (if Matches b0 b1 b2 then b0 # b1 # 3 # escaped (b2 # bs) else b0 # escaped (b1 # b2 # bs))"
| "escaped bs = bs"

lemmas escaped_induct = escaped.induct [case_names 1 none one two]

lemma matches_iff: "Matches b0 b1 b2 \<longleftrightarrow> b0 = 0 \<and> b1 = 0 \<and> b2 AND 0xFC = 0"
proof -
  have "(0xFF :: u8) = - 1" by simp
  then have "b AND 0xFF = b" for b :: u8 by (simp only: and.right_neutral)
  then show ?thesis by (auto simp: Matches_def)
qed

lemma not_matches: "\<not> Matches 0 0 b \<Longrightarrow> b \<noteq> 0 \<and> b \<noteq> 1 \<and> b \<noteq> 3"
  by (auto simp: matches_iff)

text \<open>How far the reader has counted zeros when the writer is at \<open>bs\<close>.\<close>

definition sync :: "nat \<Rightarrow> u8 list \<Rightarrow> bool" where
  "sync z bs \<longleftrightarrow> z = 0 \<or> z = 1 \<and> (\<forall>b r. bs = 0 # b # r \<longrightarrow> \<not> Matches 0 0 b)
     \<or> z = 2 \<and> (\<forall>b r. bs = b # r \<longrightarrow> \<not> Matches 0 0 b)"

lemma clean_escaped:
  "bs \<noteq> [] \<Longrightarrow> last bs \<noteq> 0 \<Longrightarrow> sync z bs \<Longrightarrow> clean z s (escaped bs @ t) = bs @ clean 0 s t"
proof (induction bs arbitrary: z rule: escaped_induct)
  case (1 b0 b1 b2 bs)
  show ?case
  proof (cases "Matches b0 b1 b2")
    case True
    then have b: "b0 = 0" "b1 = 0" by (simp_all add: matches_iff)
    have z: "z = 0"
    proof (rule ccontr)
      assume "z \<noteq> 0"
      with 1(5) b consider "\<not> Matches 0 0 b1" | "\<not> Matches 0 0 b0" unfolding sync_def by auto
      then show False by cases (use b in \<open>simp_all add: matches_iff\<close>)
    qed
    have "clean 0 s (escaped (b2 # bs) @ t) = (b2 # bs) @ clean 0 s t"
      using 1(1) [OF True, of 0] 1(4) by (simp add: sync_def)
    with True b z show ?thesis by simp
  next
    case False
    let ?z = "if b0 = 0 then (z + 1) mod 256 else 0"
    have keep: "clean z s (b0 # us) = b0 # clean ?z s us" for us
      using 1(5) not_matches [of b0] unfolding sync_def by auto
    have sy: "sync ?z (b1 # b2 # bs)"
    proof (cases "b0 = 0")
      case True
      consider "z = 0" | "z = 1" | "z = 2" using 1(5) unfolding sync_def by auto
      then show ?thesis
      proof cases
        case 1
        with False True show ?thesis by (auto simp: sync_def)
      next
        case 2
        with \<open>sync z (b0 # b1 # b2 # bs)\<close> True show ?thesis by (auto simp: sync_def)
      next
        case 3
        with \<open>sync z (b0 # b1 # b2 # bs)\<close> True not_matches [of b0] show ?thesis by (auto simp: sync_def)
      qed
    qed (simp add: sync_def)
    have "clean ?z s (escaped (b1 # b2 # bs) @ t) = (b1 # b2 # bs) @ clean 0 s t"
      by (rule 1(2) [OF False _ _ sy]) (use 1(4) in simp_all)
    with False show ?thesis by (simp only: escaped.simps if_False append_Cons keep)
  qed
next
  case (two b0 b1)
  then show ?case
    using not_matches [of b0] not_matches [of b1] by (auto simp: sync_def)
next
  case (one b0)
  then show ?case using not_matches [of b0] by (auto simp: sync_def)
qed simp

section \<open>Writing\<close>

text \<open>A writer that appends the same bits to every stream with room for them.\<close>

definition emits :: "(AL_TBitStreamLite \<Rightarrow> AL_TBitStreamLite option) \<Rightarrow> bool list \<Rightarrow> bool" where
  "emits f bits \<longleftrightarrow> (\<forall>s. bs_ok s \<and> length bits \<le> bs_room s \<longrightarrow>
     (\<exists>t. f s = Some t \<and> bs_ok t \<and> written t = written s @ bits \<and> bs_room t + length bits = bs_room s))"

lemma emitsD:
  "emits f bits \<Longrightarrow> bs_ok s \<Longrightarrow> length bits \<le> bs_room s \<Longrightarrow>
   \<exists>t. f s = Some t \<and> bs_ok t \<and> written t = written s @ bits \<and> bs_room t + length bits = bs_room s"
  by (simp add: emits_def)

lemma emits_nothing: "emits Some []"
  by (simp add: emits_def)

lemma emits_bind: "emits f a \<Longrightarrow> emits g b \<Longrightarrow> emits (\<lambda>s. do { t \<leftarrow> f s; g t }) (a @ b)"
proof -
  assume f: "emits f a" and g: "emits g b"
  show "emits (\<lambda>s. do { t \<leftarrow> f s; g t }) (a @ b)"
    unfolding emits_def
  proof (intro allI impI, elim conjE)
    fix s assume s: "bs_ok s" "length (a @ b) \<le> bs_room s"
    with emitsD [OF f s(1)] obtain t where
      t: "f s = Some t" "bs_ok t" "written t = written s @ a" "bs_room t + length a = bs_room s" by auto
    with s emitsD [OF g t(2)] obtain r where
      "g t = Some r" "bs_ok r" "written r = written t @ b" "bs_room r + length b = bs_room t" by auto
    with t show "\<exists>r. do { t \<leftarrow> f s; g t } = Some r \<and> bs_ok r \<and> written r = written s @ a @ b
        \<and> bs_room r + length (a @ b) = bs_room s" by auto
  qed
qed

lemma emits_field: "field_ok (n, v) \<Longrightarrow> emits (AL_BitStreamLite_PutBits n v) (field n v)"
  using bs.put_law by (simp add: emits_def)

definition byte_bits :: "u8 list \<Rightarrow> bool list" where
  "byte_bits bs = concat (map (\<lambda>b. field 8 (ucast b)) bs)"

lemma byte_bits_simps [simp]: "byte_bits [] = []" "byte_bits (b # bs) = field 8 (ucast b) @ byte_bits bs"
  "byte_bits (as @ bs) = byte_bits as @ byte_bits bs" "length (byte_bits bs) = 8 * length bs"
proof -
  show "length (byte_bits bs) = 8 * length bs" by (induction bs) (simp_all add: byte_bits_def)
qed (simp_all add: byte_bits_def)

lemma byte_ok: "field_ok (8, ucast (b :: u8))"
  by (auto simp: field_ok_def small_bits bit_ucast_iff dest: bit_imp_le_length)

lemma emits_byte: "emits (writeByte b) (byte_bits [b])"
  unfolding writeByte_def using emits_field [OF byte_ok [of b]] by simp

lemma emits_bytes: "emits (write_bytes bs) (byte_bits bs)"
proof (induction bs)
  case Nil
  have "write_bytes [] = Some" by (rule ext) simp
  with emits_nothing show ?case by simp
next
  case (Cons b bs)
  have "write_bytes (b # bs) = (\<lambda>s. do { t \<leftarrow> writeByte b s; write_bytes bs t })" by (rule ext) simp
  with emits_bind [OF emits_byte [of b] Cons.IH] show ?case by simp
qed

lemma AntiEmul_eq: "bs \<noteq> [] \<Longrightarrow> AntiEmul bs s = write_bytes (escaped bs) s"
  by (induction bs s rule: AntiEmul.induct) (auto split: bind_split)

definition start_code :: "AL_ECodec \<Rightarrow> nat \<Rightarrow> u8 list" where
  "start_code eCodec nut = (if zero_byte eCodec nut then [0] else []) @ [0, 0, 1]"

lemma writeStartCode_eq: "writeStartCode c nut s = write_bytes (start_code c nut) s"
  by (auto simp: writeStartCode_def start_code_def split: bind_split)

definition nal_bytes :: "AL_ECodec \<Rightarrow> nat \<Rightarrow> AL_TNalHeader \<Rightarrow> u8 list \<Rightarrow> u8 list" where
  "nal_bytes c nut h d = start_code c nut @ take (hdr_size h) (hdr_bytes h) @ (if d = [] then [] else escaped d)"

lemma write_bytes_append: "write_bytes (as @ bs) s = do { t \<leftarrow> write_bytes as s; write_bytes bs t }"
proof (induction as arbitrary: s)
  case (Cons a as)
  then show ?case by (cases "writeByte a s") auto
qed simp

lemma FlushNAL_law:
  assumes "BitsToBytes n \<le> length d" "hdr_size h \<le> length (hdr_bytes h)"
  shows "emits (FlushNAL c nut h (Some d) n) (byte_bits (nal_bytes c nut h (take (BitsToBytes n) d)))"
proof -
  have "FlushNAL c nut h (Some d) n = write_bytes (nal_bytes c nut h (take (BitsToBytes n) d))"
  proof (rule ext)
    fix s
    show "FlushNAL c nut h (Some d) n s = write_bytes (nal_bytes c nut h (take (BitsToBytes n) d)) s"
    proof (cases "BitsToBytes n = 0")
      case True
      with assms show ?thesis
        by (simp add: FlushNAL_def nal_bytes_def writeStartCode_eq write_header_def write_bytes_append Let_def)
    next
      case False
      then have "take (BitsToBytes n) d \<noteq> []" using assms(1) by auto
      with assms False show ?thesis
        by (simp add: FlushNAL_def nal_bytes_def writeStartCode_eq write_header_def write_bytes_append AntiEmul_eq Let_def)
    qed
  qed
  then show ?thesis by (simp add: emits_bytes)
qed

text \<open>The bits of an aligned stream as bytes.\<close>

lemma bit_at_bytes: "k < 8 * length bs \<Longrightarrow> byte_bits bs ! k = bit_at bs k"
proof (induction bs arbitrary: k)
  case (Cons b bs)
  show ?case
  proof (cases "k < 8")
    case True
    then have "7 - k < 32" by simp
    with True show ?thesis by (simp add: nth_append field_nth bit_at_def bit_ucast_iff)
  next
    case False
    then obtain j where j: "k = 8 + j" using le_Suc_ex [of 8 k] by auto
    then have "byte_bits (b # bs) ! k = byte_bits bs ! j" by (simp add: nth_append)
    also have "\<dots> = bit_at bs j" using Cons j by simp
    also have "\<dots> = bit_at (b # bs) k"
    proof -
      have "k div 8 = Suc (j div 8)" "k mod 8 = j mod 8" by (simp_all add: j)
      then show ?thesis by (simp add: bit_at_def)
    qed
    finally show ?thesis .
  qed
qed simp

lemma byte_bits_eq: "byte_bits bs = map (bit_at bs) [0..<8 * length bs]"
  by (rule nth_equalityI) (simp_all add: bit_at_bytes)

lemma byte_bits_inj:
  assumes "byte_bits as = byte_bits bs"
  shows "as = bs"
proof (rule nth_equalityI)
  have "length (byte_bits as) = length (byte_bits bs)" using assms by simp
  then show l: "length as = length bs" by simp
  fix i assume i: "i < length as"
  show "as ! i = bs ! i"
  proof (rule bit_word_eqI)
    fix n assume "n < LENGTH(8)"
    then have n: "n < 8" by simp
    let ?k = "8 * i + (7 - n)"
    have k: "?k < 8 * length as" "?k div 8 = i" "7 - ?k mod 8 = n"
      using i n byte_pos [of "7 - n" i] by simp_all
    have "bit_at as ?k = bit_at bs ?k"
      using bit_at_bytes [of ?k as] bit_at_bytes [of ?k bs] k(1) l assms by simp
    then show "bit (as ! i) n = bit (bs ! i) n" unfolding bit_at_def k .
  qed
qed

lemma written_bytes:
  assumes "bs_ok s" "written s = byte_bits bs"
  shows "iBitCount s = 8 * length bs" "take (length bs) (pData s) = bs"
proof -
  from assms(2) have "length (written s) = 8 * length bs" by simp
  then show c: "iBitCount s = 8 * length bs" by (simp add: written_def)
  have le: "length bs \<le> length (pData s)" using assms(1) c by (simp add: bs_ok_def)
  have "byte_bits (take (length bs) (pData s)) = map (bit_at (pData s)) [0..<8 * length bs]"
    unfolding byte_bits_eq using le by (simp add: bit_at_def)
  also have "\<dots> = byte_bits bs" using assms(2) c by (simp add: written_def)
  finally show "take (length bs) (pData s) = bs" by (rule byte_bits_inj)
qed

section \<open>The end of an RBSP\<close>

lemma align_loop_law:
  "bs_ok s \<Longrightarrow> (8 - iBitCount s mod 8) mod 8 < fuel \<Longrightarrow>
   \<exists>t. align_loop fuel 0 s = Some t \<and> bs_ok t \<and> iBitCount t mod 8 = 0
     \<and> written t = written s @ replicate ((8 - iBitCount s mod 8) mod 8) False"
proof (induction fuel arbitrary: s)
  case (Suc fuel)
  show ?case
  proof (cases "iBitCount s mod 8 = 0")
    case True
    with Suc.prems(1) show ?thesis by simp
  next
    case False
    have room: "1 \<le> bs_room s"
    proof -
      have "8 dvd iMaxBits s" "iBitCount s \<le> iMaxBits s" using Suc.prems(1) by (simp_all add: bs_ok_def)
      moreover from this(1) False have "iBitCount s \<noteq> iMaxBits s" by auto
      ultimately show ?thesis by (simp add: bs_room_def)
    qed
    have "field_ok (1, 0)" by (simp add: field_ok_def)
    from emitsD [OF emits_field [OF this] Suc.prems(1)] room obtain t where
      t: "AL_BitStreamLite_PutBits 1 0 s = Some t" "bs_ok t" "written t = written s @ [False]" by auto
    then have "length (written t) = length (written s) + 1" by simp
    then have c: "iBitCount t = iBitCount s + 1" by (simp add: written_def)
    define m where "m = iBitCount s mod 8"
    have m: "0 < m" "m < 8" using False by (simp_all add: m_def)
    have mt: "iBitCount t mod 8 = (m + 1) mod 8" unfolding c m_def by (simp add: mod_simps)
    have k: "(8 - m) mod 8 = Suc ((8 - (m + 1) mod 8) mod 8)"
    proof -
      consider "m = 1" | "m = 2" | "m = 3" | "m = 4" | "m = 5" | "m = 6" | "m = 7" using m by linarith
      then show ?thesis by cases simp_all
    qed
    from Suc.prems(2) have "(8 - iBitCount t mod 8) mod 8 < fuel" unfolding mt using k m_def by simp
    from Suc.IH [OF t(2) this] obtain r where
      r: "align_loop fuel 0 t = Some r" "bs_ok r" "iBitCount r mod 8 = 0"
      "written r = written t @ replicate ((8 - iBitCount t mod 8) mod 8) False" by (elim exE conjE)
    have "align_loop (Suc fuel) 0 s = Some r"
      using False t(1) r(1) by (simp add: AL_BitStreamLite_PutBit_def)
    moreover have "written r = written s @ replicate ((8 - iBitCount s mod 8) mod 8) False"
      unfolding r(4) t(3) mt m_def [symmetric] k by simp
    ultimately show ?thesis using r(2,3) by (intro exI [of _ r] conjI)
  qed
qed simp

lemma close_law:
  assumes "bs_ok s" "1 \<le> bs_room s"
  shows "\<exists>t m. AL_RbspEncoding_CloseSEI s = Some t \<and> bs_ok t \<and> iBitCount t mod 8 = 0 \<and> m < 8
    \<and> written t = written s @ True # replicate m False"
proof -
  have one: "field_ok (1, 1)" by (simp add: field_ok_def small_bits bit_1_iff)
  from emitsD [OF emits_field [OF one] assms(1)] assms(2) obtain t where
    t: "AL_BitStreamLite_PutBits 1 1 s = Some t" "bs_ok t" "written t = written s @ [True]"
    by (auto simp: field_one simp del: One_nat_def)
  from align_loop_law [OF t(2), of 8] obtain r where
    r: "align_loop 8 0 t = Some r" "bs_ok r" "iBitCount r mod 8 = 0"
    "written r = written t @ replicate ((8 - iBitCount t mod 8) mod 8) False" by auto
  have "AL_RbspEncoding_CloseSEI s = Some r"
    using t(1) r(1) by (simp add: AL_RbspEncoding_CloseSEI_def AL_BitStreamLite_PutU_def AL_BitStreamLite_AlignWithBits_def)
  then show ?thesis
    using r t(3) by (intro exI [of _ r] exI [of _ "(8 - iBitCount t mod 8) mod 8"] conjI) simp_all
qed

section \<open>Syntax structures\<close>

text \<open>The shapes of syntax elements: fixed length, unsigned and signed Exp-Golomb.  A structure is a list of
  shapes with their values; the reader gets the shapes only.\<close>

datatype shape = Fixed nat | Unsigned | Signed

fun put_elem :: "shape \<times> int \<Rightarrow> AL_TBitStreamLite \<Rightarrow> AL_TBitStreamLite option" where
  "put_elem (Fixed n, v) = AL_BitStreamLite_PutU n (of_int v)"
| "put_elem (Unsigned, v) = AL_BitStreamLite_PutUE (of_int v)"
| "put_elem (Signed, v) = AL_BitStreamLite_PutSE v"

fun put_elems :: "(shape \<times> int) list \<Rightarrow> AL_TBitStreamLite \<Rightarrow> AL_TBitStreamLite option" where
  "put_elems [] s = Some s"
| "put_elems (e # es) s = do { t \<leftarrow> put_elem e s; put_elems es t }"

fun get_elem :: "shape \<Rightarrow> AL_TRbspParser \<Rightarrow> (int \<times> AL_TRbspParser) option" where
  "get_elem (Fixed n) p = do { (v, q) \<leftarrow> u n p; Some (uint v, q) }"
| "get_elem Unsigned p = do { (v, q) \<leftarrow> ue p; Some (uint v, q) }"
| "get_elem Signed p = se p"

fun get_elems :: "shape list \<Rightarrow> AL_TRbspParser \<Rightarrow> (int list \<times> AL_TRbspParser) option" where
  "get_elems [] p = Some ([], p)"
| "get_elems (k # ks) p = do { (v, q) \<leftarrow> get_elem k p; (vs, r) \<leftarrow> get_elems ks q; Some (v # vs, r) }"

fun elem_ok :: "shape \<times> int \<Rightarrow> bool" where
  "elem_ok (Fixed n, v) \<longleftrightarrow> 0 < n \<and> n \<le> 32 \<and> 0 \<le> v \<and> v < 2 ^ n"
| "elem_ok (Unsigned, v) \<longleftrightarrow> 0 \<le> v \<and> v < 2147483647"
| "elem_ok (Signed, v) \<longleftrightarrow> \<bar>v\<bar> < 1073741824"

fun elem_bits :: "shape \<times> int \<Rightarrow> bool list" where
  "elem_bits (Fixed n, v) = field n (of_int v)"
| "elem_bits (Unsigned, v) = ue_bits (nat v)"
| "elem_bits (Signed, v) = ue_bits (se_code v)"

definition elems_bits :: "(shape \<times> int) list \<Rightarrow> bool list" where
  "elems_bits es = concat (map elem_bits es)"

lemma fixed_value:
  assumes "0 \<le> v" "v < 2 ^ n" "n \<le> 32"
  shows "uint (of_int v :: u32) = v" "drop_bit n (of_int v :: u32) = 0"
proof -
  have "v < 2 ^ 32" using assms(2,3) power_increasing [of n 32 "2 :: int"] by simp
  with assms(1) show uv: "uint (of_int v :: u32) = v" by (simp add: uint_word_of_int)
  have "\<not> bit (of_int v :: u32) i" if "n \<le> i" for i
  proof -
    have "(2 :: int) ^ n \<le> 2 ^ i" using that by (intro power_increasing) simp_all
    then have "v < 2 ^ i" using assms(2) by linarith
    with assms(1) have "v div 2 ^ i = 0" by (intro div_pos_pos_trivial)
    then have "\<not> bit v i" by (simp add: bit_iff_odd)
    then show ?thesis by (simp add: bit_word_of_int_iff)
  qed
  then show "drop_bit n (of_int v :: u32) = 0" unfolding small_bits by (meson not_le_imp_less)
qed

lemma unsigned_value:
  assumes "0 \<le> v" "v < 2147483647"
  shows "unat (of_int v :: u32) = nat v" "(of_nat (nat v) :: u32) = of_int v"
proof -
  have "uint (of_int v :: u32) = v" using assms by (intro fixed_value(1) [of v 31]) simp_all
  then show "unat (of_int v :: u32) = nat v" by (simp add: unat_eq_nat_uint)
  show "(of_nat (nat v) :: u32) = of_int v" using assms(1) by (simp add: of_nat_nat)
qed

lemma put_elem_law: "elem_ok e \<Longrightarrow> emits (put_elem e) (elem_bits e)"
proof (induction e rule: elem_ok.induct)
  case (1 n v)
  then have n: "n mod 256 = n" "field_ok (n, of_int v)" using fixed_value(2) [of v n] by (auto simp: field_ok_def)
  have "put_elem (Fixed n, v) = AL_BitStreamLite_PutBits n (of_int v)"
    by (rule ext) (simp add: AL_BitStreamLite_PutU_def n(1))
  with emits_field [OF n(2)] show ?case by simp
next
  case (2 v)
  then have v: "0 \<le> v" "v < 2147483647" "nat v < 2147483647" by (simp_all add: nat_less_iff)
  show ?case
    using PutUE_law [of _ "of_int v"] v(3) by (simp add: emits_def unsigned_value [OF v(1,2)])
next
  case (3 v)
  then have v: "\<bar>v\<bar> < 2147483648" "se_code v < 2147483647" by (auto simp: se_code_def)
  show ?case
    using PutUE_law [of _ "of_nat (se_code v)", unfolded PutSE_eq(2) [OF v(1)]] v(2)
    by (simp add: emits_def PutSE_eq(1) [OF v(1)])
qed

lemma put_elems_law: "\<forall>e \<in> set es. elem_ok e \<Longrightarrow> emits (put_elems es) (elems_bits es)"
proof (induction es)
  case Nil
  have "put_elems [] = Some" by (rule ext) simp
  with emits_nothing show ?case by (simp add: elems_bits_def)
next
  case (Cons e es)
  have "put_elems (e # es) = (\<lambda>s. do { t \<leftarrow> put_elem e s; put_elems es t })" by (rule ext) simp
  with emits_bind [OF put_elem_law [of e] Cons.IH] Cons.prems show ?case by (simp add: elems_bits_def)
qed

lemma get_elem_law:
  assumes "elem_ok e" "rp_inv p X" "rest X p = elem_bits e @ r"
  shows "\<exists>q. get_elem (fst e) p = Some (snd e, q) \<and> rp_inv q X \<and> rest X q = r"
proof (cases e rule: elem_bits.cases)
  case (1 n v)
  with assms(1) have ok: "0 \<le> v" "v < 2 ^ n" "n \<le> 32" by simp_all
  have "small (n, of_int v)" using fixed_value(2) [OF ok] ok(3) by (simp add: small_def)
  with u_law [OF assms(2), of n "of_int v" r] assms(3) 1 fixed_value(1) [OF ok] show ?thesis by auto
next
  case (2 v)
  with assms(1) have v: "0 \<le> v" "v < 2147483647" by simp_all
  from v have n: "nat v < 4294967295" by simp
  have uv: "uint (of_int v :: u32) = v" using v by (intro fixed_value(1) [of v 31]) simp_all
  from ue_law [OF assms(2) _ n, of r] assms(3) 2 show ?thesis by (auto simp: unsigned_value(2) [OF v] uv)
next
  case (3 v)
  with assms(1) have "\<bar>v\<bar> < 2147483648" by simp
  with se_law [OF assms(2), of v r] assms(3) 3 show ?thesis by auto
qed

lemma get_elems_law:
  "\<forall>e \<in> set es. elem_ok e \<Longrightarrow> rp_inv p X \<Longrightarrow> rest X p = elems_bits es @ r \<Longrightarrow>
   \<exists>q. get_elems (map fst es) p = Some (map snd es, q) \<and> rp_inv q X \<and> rest X q = r"
proof (induction es arbitrary: p)
  case (Cons e es)
  then have "rest X p = elem_bits e @ (elems_bits es @ r)" by (simp add: elems_bits_def)
  from get_elem_law [OF _ Cons.prems(2) this] Cons.prems(1) obtain q where
    q: "get_elem (fst e) p = Some (snd e, q)" "rp_inv q X" "rest X q = elems_bits es @ r" by auto
  from Cons.IH [OF _ q(2,3)] Cons.prems(1) obtain t where
    "get_elems (map fst es) q = Some (map snd es, t)" "rp_inv t X" "rest X t = r" by auto
  with q(1) show ?case by simp
qed (simp add: elems_bits_def)

lemma skip_zeros_law:
  "rp_inv p X \<Longrightarrow> rest X p = byte_bits (replicate k 0 @ [b]) @ r \<Longrightarrow> b \<noteq> 0 \<Longrightarrow>
   \<exists>q. skipAllZerosAndTheNextByte p = Some q \<and> rp_inv q X \<and> rest X q = r"
proof (induction k arbitrary: p)
  case 0
  have sm: "small (8, ucast b)" using byte_ok [of b] by (simp add: small_def field_ok_def)
  from u_law [OF 0(1) _ sm, of r] 0(2) obtain q where
    q: "u 8 p = Some (ucast b, q)" "rp_inv q X" "rest X q = r" by auto
  have "b = 0" if z: "(ucast b :: u32) = 0"
  proof (rule bit_word_eqI)
    fix n assume "n < LENGTH(8)"
    then have "bit b n = bit (ucast b :: u32) n" by (simp add: bit_ucast_iff)
    with z show "bit b n = bit 0 n" by simp
  qed
  with 0(3) have "(ucast b :: u32) \<noteq> 0" by blast
  with q show ?case by (simp add: skipAllZerosAndTheNextByte.simps [of p])
next
  case (Suc k)
  have "small (8, 0)" by (simp add: small_def)
  from u_law [OF Suc.prems(1) _ this, of "byte_bits (replicate k 0 @ [b]) @ r"] Suc.prems(2) obtain q where
    q: "u 8 p = Some (0, q)" "rp_inv q X" "rest X q = byte_bits (replicate k 0 @ [b]) @ r" by auto
  from Suc.IH [OF q(2,3) Suc.prems(3)] q(1) show ?case
    by (auto simp: skipAllZerosAndTheNextByte.simps [of p])
qed

section \<open>The round trip\<close>

text \<open>A header byte and the start code of the next NAL do not disturb the cleaning.\<close>

lemma clean_nonzero: "\<forall>b \<in> set hs. b \<noteq> 0 \<Longrightarrow> clean 0 1 (hs @ t) = hs @ clean 0 1 t"
  by (induction hs) auto

lemma clean_start: "clean 0 0 (start_code c nut @ t) = start_code c nut @ clean 0 1 t"
  by (simp add: start_code_def)

text \<open>What may follow a NAL: nothing, or a start code.\<close>

definition follows :: "u8 list \<Rightarrow> bool" where
  "follows t \<longleftrightarrow> t = [] \<or> take 3 t = [0, 0, 1] \<or> take 4 t = [0, 0, 0, 1]"

lemma clean_follows: "follows t \<Longrightarrow> \<exists>k \<le> 3. clean 0 1 t = replicate k 0"
proof -
  assume f: "follows t"
  consider "t = []" | r where "t = 0 # 0 # 1 # r" | r where "t = 0 # 0 # 0 # 1 # r"
    using f append_take_drop_id [of 3 t] append_take_drop_id [of 4 t] unfolding follows_def
    by (metis append_Cons append_Nil)
  then show ?thesis
  proof cases
    case 1
    then show ?thesis by (intro exI [of _ 0]) simp
  next
    case (2 r)
    then have "clean 0 1 t = [0, 0]" by simp
    moreover have "replicate 2 (0 :: u8) = [0, 0]" by (simp add: numeral_eq_Suc)
    ultimately show ?thesis by (intro exI [of _ 2]) simp
  next
    case (3 r)
    then have "clean 0 1 t = [0, 0, 0]" by simp
    moreover have "replicate 3 (0 :: u8) = [0, 0, 0]" by (simp add: numeral_eq_Suc)
    ultimately show ?thesis by (intro exI [of _ 3]) simp
  qed
qed

text \<open>The cleaned NAL.\<close>

lemma clean_nal:
  assumes "d \<noteq> []" "last d \<noteq> 0" "\<forall>b \<in> set (take (hdr_size h) (hdr_bytes h)). b \<noteq> 0" "follows t"
  shows "\<exists>k \<le> 3. clean 0 0 (nal_bytes c nut h d @ t)
    = start_code c nut @ take (hdr_size h) (hdr_bytes h) @ d @ replicate k 0"
proof -
  have "clean 0 0 (nal_bytes c nut h d @ t)
      = start_code c nut @ take (hdr_size h) (hdr_bytes h) @ clean 0 1 (escaped d @ t)"
    using assms(1) clean_nonzero [OF assms(3)] by (simp add: nal_bytes_def clean_start)
  also have "clean 0 1 (escaped d @ t) = d @ clean 0 1 t"
    by (rule clean_escaped [OF assms(1,2)]) (simp add: sync_def)
  finally show ?thesis using clean_follows [OF assms(4)] by auto
qed

text \<open>The data bits of a NAL end at its stop bit.\<close>

lemma stop_bit:
  assumes "byte_bits X = A @ True # replicate m False"
  shows "last_one X = length A" "map (bit_at X) [0..<last_one X] = A"
proof -
  have l: "8 * length X = length A + 1 + m" using arg_cong [OF assms, of length] by simp
  have b: "bit_at X k = (A @ True # replicate m False) ! k" if "k < 8 * length X" for k
    using bit_at_bytes [OF that] assms by simp
  show lo: "last_one X = length A"
    unfolding last_one_def
  proof (rule last_bit_eq)
    show "length A < 8 * length X \<and> bit_at X (length A)" using b [of "length A"] l by simp
    fix i assume i: "length A < i" "i \<le> 8 * length X"
    show "\<not> (i < 8 * length X \<and> bit_at X i)"
    proof
      assume h: "i < 8 * length X \<and> bit_at X i"
      then have "i - Suc (length A) < m" using i l by linarith
      then have "(A @ True # replicate m False) ! i = False" using i by (simp add: nth_append nth_Cons')
      with b [of i] h show False by blast
    qed
  qed (use l in simp)
  show "map (bit_at X) [0..<last_one X] = A"
    unfolding lo by (rule nth_equalityI) (use b l in \<open>simp_all add: nth_append\<close>)
qed

lemma last_byte:
  assumes "byte_bits d = A @ True # replicate m False" "m < 8"
  shows "d \<noteq> []" "last d \<noteq> 0"
proof -
  show ne: "d \<noteq> []" using assms(1) by auto
  show "last d \<noteq> 0"
  proof
    assume z: "last d = 0"
    from ne obtain e where e: "d = e @ [0]" using z by (metis append_butlast_last_id)
    have "byte_bits d = byte_bits e @ replicate 8 False" by (simp add: e)
    then have r: "byte_bits e @ replicate 8 False = A @ True # replicate m False" using assms(1) by simp
    have l: "length (byte_bits e) + 8 = length A + 1 + m" using arg_cong [OF r, of length] by simp
    have "(byte_bits e @ replicate 8 False) ! length A = True" unfolding r by simp
    moreover have "length (byte_bits e) \<le> length A" "length A < length (byte_bits e) + 8" using l assms(2) by linarith+
    ultimately show False by (simp add: nth_append)
  qed
qed

lemma init_inv:
  assumes "clean 0 0 (input p) = X" "p = InitRbspParser ring sz off avail (replicate n 0) True"
    "off < sz" "sz \<le> length ring" "0 < avail" "length X + 4 \<le> n" "8 * n < 4294967296"
  shows "rp_inv p X" "rest X p = map (bit_at X) [0..<last_one X]"
proof -
  have "\<not> finished_fetching p" using assms(2,5) by (simp add: finished_fetching_def InitRbspParser_def)
  moreover have "future p = X" using assms(1,2) by (simp add: future_def InitRbspParser_def)
  ultimately show "rp_inv p X"
    using assms(2-) by (simp add: rp_inv_def fetching_def emitted_def InitRbspParser_def)
  show "rest X p = map (bit_at X) [0..<last_one X]" using assms(2) by (simp add: rest_def InitRbspParser_def)
qed

text \<open>At the end of the data the parser knows it, if less than 20 bytes of the cleaned NAL are left.\<close>

lemma more_rbsp_data_end:
  assumes "rp_inv p X" "rest X p = []" "8 * length X < last_one X + 160"
  shows "\<exists>q. more_rbsp_data p = Some (False, q) \<and> rp_inv q X"
proof -
  have t: "iTotalBitIndex p = last_one X" using rest_take(1) [of X p] assms(2) rp_bounds(1) [OF assms(1)] by simp
  show ?thesis
  proof (cases "finished_fetching p")
    case True
    with assms(1) t show ?thesis by (simp add: more_rbsp_data_def fetch_data_finished rp_inv_def)
  next
    case False
    from fetch_data_law [OF assms(1) False] obtain q where
      q: "fetch_data p = Some (True, q)" "rp_inv q X" "iTotalBitIndex q = iTotalBitIndex p"
        "finished_fetching q \<or> iTrailingBitOneIndex p + 160 \<le> iTrailingBitOneIndex q" by blast
    have "finished_fetching q"
    proof (rule ccontr)
      assume n: "\<not> finished_fetching q"
      with q(2) have f: "fetching q X" by (simp add: rp_inv_def)
      then have "length (emitted q) \<le> length X" by (auto simp: fetching_def)
      moreover have "8 * (iTrailingBitOneIndex q div 8) = iTrailingBitOneIndex q" using f by (simp add: fetching_def)
      ultimately have "iTrailingBitOneIndex q \<le> 8 * length X" using emitted_length [OF f] by linarith
      moreover have "iTrailingBitOneIndex p + 160 \<le> iTrailingBitOneIndex q" using q(4) n by blast
      ultimately show False using assms(3) t rp_bounds(2) [OF assms(1)] by linarith
    qed
    with q t show ?thesis by (simp add: more_rbsp_data_def rp_inv_def)
  qed
qed

lemma escaped_length: "length (escaped bs) \<le> 2 * length bs"
  by (induction bs rule: escaped_induct) auto

text \<open>No three bytes that the standard forbids inside a NAL.\<close>

fun no_emulation :: "u8 list \<Rightarrow> bool" where
  "no_emulation (b0 # b1 # b2 # bs) \<longleftrightarrow> \<not> (b0 = 0 \<and> b1 = 0 \<and> (b2 = 0 \<or> b2 = 1 \<or> b2 = 2)) \<and> no_emulation (b1 # b2 # bs)"
| "no_emulation bs \<longleftrightarrow> True"

lemma not_matches2: "\<not> Matches 0 0 b \<Longrightarrow> b \<noteq> 2"
  by (auto simp: matches_iff)

lemma no_emulation_nonzero: "b \<noteq> 0 \<Longrightarrow> no_emulation (b # bs) = no_emulation bs"
  by (cases bs rule: no_emulation.cases) auto

lemma no_emulation_skip: "b \<noteq> 0 \<Longrightarrow> b \<noteq> 1 \<Longrightarrow> b \<noteq> 2 \<Longrightarrow> no_emulation (a # b # bs) = no_emulation bs"
  "b \<noteq> 0 \<Longrightarrow> b \<noteq> 1 \<Longrightarrow> b \<noteq> 2 \<Longrightarrow> no_emulation (a0 # a # b # bs) = no_emulation bs"
  by (cases bs rule: no_emulation.cases; auto simp: no_emulation_nonzero)+

lemma no_emulation_one: "b \<noteq> 0 \<Longrightarrow> no_emulation (a # b # bs) = no_emulation bs"
  by (cases bs rule: no_emulation.cases) (auto simp: no_emulation_nonzero)

lemma no_emulation_escaped: "sync z bs \<Longrightarrow> no_emulation (replicate z 0 @ escaped bs)"
proof (induction bs arbitrary: z rule: escaped_induct)
  case (1 b0 b1 b2 bs)
  show ?case
  proof (cases "Matches b0 b1 b2")
    case True
    then have b: "b0 = 0" "b1 = 0" by (simp_all add: matches_iff)
    have z: "z = 0"
    proof (rule ccontr)
      assume "z \<noteq> 0"
      with 1(3) b consider "\<not> Matches 0 0 b1" | "\<not> Matches 0 0 b0" unfolding sync_def by auto
      then show False by cases (use b in \<open>simp_all add: matches_iff\<close>)
    qed
    have "no_emulation (escaped (b2 # bs))" using 1(1) [OF True, of 0] by (simp add: sync_def)
    with True z show ?thesis by (simp add: no_emulation_skip)
  next
    case False
    note IH = 1(2) [OF False]
    consider "b0 \<noteq> 0" | "b0 = 0" "z = 0" | "b0 = 0" "z = 1" | "b0 = 0" "z = 2"
      using 1(3) unfolding sync_def by auto
    then show ?thesis
    proof cases
      case 1
      have n: "no_emulation (escaped (b1 # b2 # bs))" using IH [of 0] by (simp add: sync_def)
      consider "z = 0" | "z = 1" | "z = 2" "b0 \<noteq> 1" "b0 \<noteq> 2"
        using \<open>sync z (b0 # b1 # b2 # bs)\<close> not_matches [of b0] not_matches2 [of b0] unfolding sync_def by auto
      then show ?thesis
        using n False 1 no_emulation_nonzero [of b0]
        by cases (simp_all add: numeral_2_eq_2 no_emulation_one no_emulation_skip)
    next
      case 2
      with IH [of 1] False show ?thesis by (auto simp: sync_def)
    next
      case 3
      with \<open>sync z (b0 # b1 # b2 # bs)\<close> have "sync 2 (b1 # b2 # bs)" by (auto simp: sync_def)
      from IH [OF this] 3 False show ?thesis by (simp add: numeral_2_eq_2)
    next
      case 4
      with \<open>sync z (b0 # b1 # b2 # bs)\<close> show ?thesis by (auto simp: sync_def matches_iff)
    qed
  qed
next
  case (two b0 b1)
  then show ?case
    using not_matches [of b0] not_matches [of b1] not_matches2 [of b0] not_matches2 [of b1]
    by (auto simp: sync_def numeral_2_eq_2)
next
  case (one b0)
  then show ?case using not_matches [of b0] not_matches2 [of b0] by (auto simp: sync_def numeral_2_eq_2)
qed (auto simp: sync_def numeral_2_eq_2)

section \<open>Properties\<close>

text \<open>C32: \<open>FlushNAL\<close> writes, on a stream with room, the start code, the header and the data with emulation
  prevention bytes: no three bytes behind the header form a forbidden sequence, and removing the
  emulation prevention bytes the way the parser does gives the header and the data back.\<close>

theorem flush_nal:
  assumes "0 < iBitsInNAL" "BitsToBytes iBitsInNAL = length d" "last d \<noteq> 0"
    and "hdr_size h \<le> length (hdr_bytes h)" "\<forall>b \<in> set (take (hdr_size h) (hdr_bytes h)). b \<noteq> 0"
    and "bs_ok s" "8 * length (nal_bytes c nut h d) \<le> bs_room s"
  shows "\<exists>t out. FlushNAL c nut h (Some d) iBitsInNAL s = Some t \<and> bs_ok t \<and> written t = written s @ byte_bits out
    \<and> out = start_code c nut @ take (hdr_size h) (hdr_bytes h) @ escaped d
    \<and> no_emulation (escaped d)
    \<and> clean 0 0 out = start_code c nut @ take (hdr_size h) (hdr_bytes h) @ d"
proof -
  have d: "d \<noteq> []" using assms(1,2) by (auto simp: BitsToBytes_def)
  let ?N = "nal_bytes c nut h d"
  have "emits (FlushNAL c nut h (Some d) iBitsInNAL) (byte_bits ?N)"
    using FlushNAL_law [of iBitsInNAL d h c nut] assms(2,4) by simp
  from emitsD [OF this assms(6)] assms(7) obtain t where
    t: "FlushNAL c nut h (Some d) iBitsInNAL s = Some t" "bs_ok t" "written t = written s @ byte_bits ?N" by auto
  have n: "?N = start_code c nut @ take (hdr_size h) (hdr_bytes h) @ escaped d" using d by (simp add: nal_bytes_def)
  have e: "no_emulation (escaped d)" using no_emulation_escaped [of 0 d] by (simp add: sync_def)
  have "clean 0 1 (escaped d) = d" using clean_escaped [OF d assms(3), of 0 1 "[]"] by (simp add: sync_def)
  then have "clean 0 0 ?N = start_code c nut @ take (hdr_size h) (hdr_bytes h) @ d"
    using clean_nonzero [OF assms(5)] by (simp add: n clean_start)
  with t e n show ?thesis by blast
qed

definition aud_header :: AL_TNalHeader where "aud_header = \<lparr>hdr_bytes = [9, 0], hdr_size = 1\<rparr>"

theorem flush_nal_witness:
  "\<exists>t. FlushNAL AL_CODEC_AVC 9 aud_header (Some [0, 0, 1, 0x80]) 32 (AL_BitStreamLite_Init (replicate 20 0) 20) = Some t
    \<and> written t = byte_bits [0, 0, 0, 1, 9, 0, 0, 3, 1, 0x80]"
proof -
  have m: "Matches 0 0 1" "\<not> Matches 0 1 0x80" by (simp_all add: matches_iff)
  have e: "escaped [0, 0, 1, 0x80] = [0, 0, 3, 1, 0x80]" using m by simp
  have sc: "start_code AL_CODEC_AVC 9 = [0, 0, 0, 1]"
    by (simp add: start_code_def zero_byte_def AL_AVC_NUT_PREFIX_SEI_def AL_AVC_NUT_SUB_SPS_def)
  have n: "nal_bytes AL_CODEC_AVC 9 aud_header [0, 0, 1, 0x80] = [0, 0, 0, 1, 9, 0, 0, 3, 1, 0x80]"
    unfolding nal_bytes_def sc e by (simp add: aud_header_def)
  show ?thesis
    using flush_nal [of 32 "[0, 0, 1, 0x80]" aud_header "AL_BitStreamLite_Init (replicate 20 0) 20" AL_CODEC_AVC 9]
    unfolding n sc e by (auto simp: init_ok BitsToBytes_def aud_header_def)
qed

text \<open>The encoder's path: elements, stop bit and alignment, NAL unit; the decoder's path: start code, header,
  elements, end of data.\<close>

definition write_nal ::
    "AL_ECodec \<Rightarrow> nat \<Rightarrow> AL_TNalHeader \<Rightarrow> (shape \<times> int) list \<Rightarrow> AL_TBitStreamLite \<Rightarrow> AL_TBitStreamLite
      \<Rightarrow> AL_TBitStreamLite option" where
  "write_nal c nut h es rbsp stream =
     do { r1 \<leftarrow> put_elems es rbsp;
          r2 \<leftarrow> AL_RbspEncoding_CloseSEI r1;
          FlushNAL c nut h (Some (AL_BitStreamLite_GetData r2)) (AL_BitStreamLite_GetBitsCount r2) stream }"

definition read_nal :: "nat \<Rightarrow> shape list \<Rightarrow> AL_TRbspParser \<Rightarrow> (int list \<times> bool) option" where
  "read_nal k ks p =
     do { p1 \<leftarrow> skipAllZerosAndTheNextByte p;
          (_, p2) \<leftarrow> get_elems (replicate k (Fixed 8)) p1;
          (vs, p3) \<leftarrow> get_elems ks p2;
          (more, _) \<leftarrow> more_rbsp_data p3;
          Some (vs, more) }"

lemma aligned_bytes:
  assumes "bs_ok s" "iBitCount s mod 8 = 0"
  shows "byte_bits (take (BitsToBytes (iBitCount s)) (pData s)) = written s"
    "length (take (BitsToBytes (iBitCount s)) (pData s)) = iBitCount s div 8" "BitsToBytes (iBitCount s) = iBitCount s div 8"
proof -
  obtain k where k: "iBitCount s = 8 * k" using assms(2) by auto
  then show b: "BitsToBytes (iBitCount s) = iBitCount s div 8" by (simp add: BitsToBytes_def)
  have le: "k \<le> length (pData s)" using assms(1) k by (simp add: bs_ok_def)
  then show "length (take (BitsToBytes (iBitCount s)) (pData s)) = iBitCount s div 8" by (simp add: BitsToBytes_def k)
  show "byte_bits (take (BitsToBytes (iBitCount s)) (pData s)) = written s"
    unfolding byte_bits_eq written_def b using k le by (simp add: bit_at_def)
qed

lemma write_nal_law:
  assumes "\<forall>e \<in> set es. elem_ok e" "hdr_size h \<le> length (hdr_bytes h)"
    "bs_ok s" "written s = []" "length (elems_bits es) < bs_room s"
    "bs_ok s2" "written s2 = []" "8 * (hdr_size h + 4) + 2 * (length (elems_bits es) + 8) \<le> bs_room s2"
  shows "\<exists>d nal m. write_nal c nut h es s s2 = Some nal \<and> bs_ok nal \<and> m < 8
    \<and> byte_bits d = elems_bits es @ True # replicate m False
    \<and> BitsToBytes (AL_BitStreamLite_GetBitsCount nal) = length (nal_bytes c nut h d)
    \<and> take (length (nal_bytes c nut h d)) (pData nal) = nal_bytes c nut h d"
proof -
  from emitsD [OF put_elems_law [OF assms(1)] assms(3)] assms(5) obtain r1 where
    r1: "put_elems es s = Some r1" "bs_ok r1" "written r1 = elems_bits es"
      "bs_room r1 + length (elems_bits es) = bs_room s" using assms(4) by auto
  from close_law [OF r1(2)] r1(4) assms(5) obtain r2 m where
    r2: "AL_RbspEncoding_CloseSEI r1 = Some r2" "bs_ok r2" "iBitCount r2 mod 8 = 0" "m < 8"
      "written r2 = elems_bits es @ True # replicate m False" unfolding r1(3) by auto
  define d where "d = take (BitsToBytes (iBitCount r2)) (pData r2)"
  note al = aligned_bytes [OF r2(2,3), folded d_def]
  let ?N = "nal_bytes c nut h d"
  have bd: "byte_bits d = elems_bits es @ True # replicate m False" using al(1) r2(5) by simp
  have ld: "8 * length d = length (elems_bits es) + 1 + m" using arg_cong [OF bd, of length] by simp
  have "length (start_code c nut) \<le> 4" by (simp add: start_code_def)
  then have "length ?N \<le> 4 + hdr_size h + 2 * length d"
    using escaped_length [of d] assms(2) by (simp add: nal_bytes_def)
  then have room: "length (byte_bits ?N) \<le> bs_room s2" using ld r2(4) assms(8) by simp
  have le: "BitsToBytes (iBitCount r2) \<le> length (pData r2)"
    using r2(2) unfolding al(3) by (auto simp: bs_ok_def)
  from emitsD [OF FlushNAL_law [OF le assms(2), of c nut, folded d_def] assms(6) room] obtain nal where
    nal: "FlushNAL c nut h (Some (pData r2)) (iBitCount r2) s2 = Some nal" "bs_ok nal" "written nal = byte_bits ?N"
    using assms(7) by auto
  note w = written_bytes [OF nal(2,3)]
  have "write_nal c nut h es s s2 = Some nal"
    using r1(1) r2(1) nal(1) by (simp add: write_nal_def AL_BitStreamLite_GetData_def AL_BitStreamLite_GetBitsCount_def)
  moreover have "BitsToBytes (AL_BitStreamLite_GetBitsCount nal) = length ?N"
    by (simp add: AL_BitStreamLite_GetBitsCount_def w(1) BitsToBytes_def)
  ultimately show ?thesis using nal(2) r2(4) bd w(2) by blast
qed

lemma header_law:
  assumes "rp_inv p X" "rest X p = byte_bits (start_code c n) @ byte_bits hs @ bits"
  shows "\<exists>p1 vs p2. skipAllZerosAndTheNextByte p = Some p1 \<and> get_elems (replicate (length hs) (Fixed 8)) p1 = Some (vs, p2)
    \<and> rp_inv p2 X \<and> rest X p2 = bits"
proof -
  have "start_code c n = replicate (length (start_code c n) - 1) 0 @ [1]"
    by (simp add: start_code_def numeral_eq_Suc)
  then obtain k where k: "start_code c n = replicate k 0 @ [1]" ..
  from skip_zeros_law [OF assms(1), of k 1 "byte_bits hs @ bits"] assms(2) k obtain p1 where
    p1: "skipAllZerosAndTheNextByte p = Some p1" "rp_inv p1 X" "rest X p1 = byte_bits hs @ bits" by auto
  let ?hs = "map (\<lambda>b. (Fixed 8, uint b)) hs"
  have wb: "(of_int (uint b) :: u32) = ucast b" for b :: u8
    by (rule bit_word_eqI) (simp add: bit_word_of_int_iff bit_ucast_iff bit_unsigned_iff)
  have hb: "elems_bits ?hs = byte_bits hs" by (induction hs) (simp_all add: elems_bits_def wb)
  have "uint b < 2 ^ 8" for b :: u8 using uint_lt2p [of b] by simp
  then have "\<forall>e \<in> set ?hs. elem_ok e" by auto
  from get_elems_law [OF this p1(2), of bits] p1(3) hb obtain p2 where
    p2: "get_elems (map fst ?hs) p1 = Some (map snd ?hs, p2)" "rp_inv p2 X" "rest X p2 = bits" by auto
  have "map fst ?hs = replicate (length hs) (Fixed 8)" by (induction hs) simp_all
  with p1(1) p2 show ?thesis by auto
qed

lemma read_nal_law:
  assumes "\<forall>e \<in> set es. elem_ok e" "rp_inv p X"
    "rest X p = byte_bits (start_code c nut) @ byte_bits hs @ elems_bits es" "8 * length X < last_one X + 160"
  shows "read_nal (length hs) (map fst es) p = Some (map snd es, False)"
proof -
  from header_law [OF assms(2,3)] obtain p1 vs p2 where
    h: "skipAllZerosAndTheNextByte p = Some p1" "get_elems (replicate (length hs) (Fixed 8)) p1 = Some (vs, p2)"
      "rp_inv p2 X" "rest X p2 = elems_bits es" by blast
  from get_elems_law [OF assms(1) h(3), of "[]"] h(4) obtain p3 where
    p3: "get_elems (map fst es) p2 = Some (map snd es, p3)" "rp_inv p3 X" "rest X p3 = []" by auto
  from more_rbsp_data_end [OF p3(2,3) assms(4)] obtain p4 where "more_rbsp_data p3 = Some (False, p4)" by blast
  with h(1,2) p3(1) show ?thesis by (simp add: read_nal_def)
qed

text \<open>A parser on the NAL in the ring is a source of the NAL's bits.\<close>

lemma nal_source:
  assumes "hdr_size h \<le> length (hdr_bytes h)" "\<forall>b \<in> set (take (hdr_size h) (hdr_bytes h)). b \<noteq> 0"
    and "byte_bits d = elems_bits es @ True # replicate j False" "j < 8" "length (elems_bits es) < 8 * m"
    and r: "off < sz" "sz \<le> length ring" "follows t" "hdr_size h + m + 12 \<le> n" "n < 2 ^ 29"
      "p = InitRbspParser ring sz off avail (replicate n 0) True" "input p = nal_bytes c nut h d @ t"
  shows "\<exists>X. rp_inv p X \<and> 8 * length X < last_one X + 160
    \<and> rest X p = byte_bits (start_code c nut) @ byte_bits (take (hdr_size h) (hdr_bytes h)) @ elems_bits es"
proof -
  let ?hs = "take (hdr_size h) (hdr_bytes h)"
  have ld: "8 * length d = length (elems_bits es) + 1 + j" using arg_cong [OF assms(3), of length] by simp
  from clean_nal [OF last_byte [OF assms(3,4)] assms(2) r(3), of c nut] obtain k where
    k: "k \<le> 3" "clean 0 0 (input p) = start_code c nut @ ?hs @ d @ replicate k 0" unfolding r(7) by blast
  define X where "X = clean 0 0 (input p)"
  have X: "X = start_code c nut @ ?hs @ d @ replicate k 0" using k(2) by (simp add: X_def)
  have sc: "length (start_code c nut) \<le> 4" by (simp add: start_code_def)
  have "byte_bits (replicate k 0) = replicate (8 * k) False" by (induction k) (simp_all flip: replicate_add)
  then have "byte_bits X = (byte_bits (start_code c nut) @ byte_bits ?hs @ elems_bits es)
      @ True # replicate (j + 8 * k) False"
    unfolding X by (simp add: assms(3) replicate_add)
  note st = stop_bit [OF this]
  have "length X \<le> 4 + hdr_size h + length d + 3" unfolding X using sc k(1) assms(1) by simp
  moreover have "8 * length d \<le> 8 * m + 7" using ld assms(4,5) by linarith
  ultimately have n: "length X + 4 \<le> n" "8 * n < 4294967296" using r(4,5) by simp_all
  have "0 < length (input p)" unfolding r(7) nal_bytes_def by (simp add: start_code_def)
  then have av: "0 < avail" by (simp add: r(6) input_def InitRbspParser_def)
  note I = init_inv [OF X_def [symmetric] r(6,1,2) av n]
  have "8 * length X < last_one X + 160"
    unfolding st(1) using ld assms(4) k(1) by (simp add: X)
  with I st(2) show ?thesis by auto
qed

lemma nal_parsed:
  assumes "\<forall>e \<in> set es. elem_ok e"
    and h: "hdr_size h \<le> length (hdr_bytes h)" "\<forall>b \<in> set (take (hdr_size h) (hdr_bytes h)). b \<noteq> 0"
    and d: "byte_bits d = elems_bits es @ True # replicate j False" "j < 8" "length (elems_bits es) < 8 * m"
    and r: "off < sz" "sz \<le> length ring" "follows t" "hdr_size h + m + 12 \<le> n" "n < 2 ^ 29"
      "p = InitRbspParser ring sz off avail (replicate n 0) True" "input p = nal_bytes c nut h d @ t"
  shows "read_nal (hdr_size h) (map fst es) p = Some (map snd es, False)"
proof -
  from nal_source [OF h d r] obtain X where
    X: "rp_inv p X" "8 * length X < last_one X + 160"
      "rest X p = byte_bits (start_code c nut) @ byte_bits (take (hdr_size h) (hdr_bytes h)) @ elems_bits es" by blast
  from read_nal_law [OF assms(1) X(1,3,2)] h(1) show ?thesis by simp
qed

text \<open>C1: The round trip of a NAL unit.  Any list of fixed-length and Exp-Golomb coded syntax elements in range,
  written with the encoder's bit writer, closed with the stop bit and packed into a NAL unit by
  \<open>FlushNAL\<close>, is read back by the decoder's parser element by element, and the parser then sees the end of
  the data.  The NAL may lie anywhere in the circular input buffer, wrap around its end and be followed
  by another start code; the parser's buffer must be cleared and a little longer than the NAL.\<close>

theorem nal_round_trip:
  assumes "\<forall>e \<in> set es. elem_ok e"
    and "hdr_size h \<le> length (hdr_bytes h)" "\<forall>b \<in> set (take (hdr_size h) (hdr_bytes h)). b \<noteq> 0"
    and "m \<le> length buf" "length (elems_bits es) < 8 * m"
    and "om \<le> length obuf" "hdr_size h + 6 + length (elems_bits es) \<le> om"
  shows "\<exists>nal. write_nal c nut h es (AL_BitStreamLite_Init buf m) (AL_BitStreamLite_Init obuf om) = Some nal
    \<and> \<not> isOverflow nal
    \<and> (\<forall>ring sz off avail n t.
         off < sz \<and> sz \<le> length ring \<and> follows t \<and> hdr_size h + m + 12 \<le> n \<and> n < 2 ^ 29
         \<and> input (InitRbspParser ring sz off avail (replicate n 0) True)
           = take (BitsToBytes (AL_BitStreamLite_GetBitsCount nal)) (AL_BitStreamLite_GetData nal) @ t
         \<longrightarrow> read_nal (hdr_size h) (map fst es) (InitRbspParser ring sz off avail (replicate n 0) True)
             = Some (map snd es, False))"
proof -
  let ?s = "AL_BitStreamLite_Init buf m" let ?s2 = "AL_BitStreamLite_Init obuf om"
  have s: "bs_ok ?s" "written ?s = []" "bs_room ?s = 8 * m" "bs_ok ?s2" "written ?s2 = []" "bs_room ?s2 = 8 * om"
    using assms(4,6) by (simp_all add: init_ok)
  have room: "length (elems_bits es) < bs_room ?s"
    "8 * (hdr_size h + 4) + 2 * (length (elems_bits es) + 8) \<le> bs_room ?s2" unfolding s using assms(5,7) by simp_all
  from write_nal_law [OF assms(1,2) s(1,2) room(1) s(4,5) room(2), of c nut] obtain d nal j where
    w: "write_nal c nut h es ?s ?s2 = Some nal" "bs_ok nal" "j < 8"
      "byte_bits d = elems_bits es @ True # replicate j False"
      "BitsToBytes (AL_BitStreamLite_GetBitsCount nal) = length (nal_bytes c nut h d)"
      "take (length (nal_bytes c nut h d)) (pData nal) = nal_bytes c nut h d" by (elim exE conjE)
  from nal_parsed [OF assms(1-3) w(4,3) assms(5)] w show ?thesis
    by (intro exI [of _ nal] conjI) (auto simp: bs_ok_def AL_BitStreamLite_GetData_def)
qed

theorem nal_round_trip_witness:
  "\<exists>nal. write_nal AL_CODEC_AVC 9 aud_header [(Unsigned, 3), (Signed, - 2)] (AL_BitStreamLite_Init (replicate 2 0) 2)
     (AL_BitStreamLite_Init (replicate 40 0) 40) = Some nal \<and> \<not> isOverflow nal"
proof -
  have e: "elems_bits [(Unsigned, 3), (Signed, - 2)] = ue_bits 3 @ ue_bits 4" by (simp add: elems_bits_def se_code_def)
  have "length (ue_bits 3) = 5" "length (ue_bits 4) = 5" by code_simp+
  then have l: "length (elems_bits [(Unsigned, 3), (Signed, - 2)]) = 10" unfolding e by simp
  from nal_round_trip [of "[(Unsigned, 3), (Signed, - 2)]" aud_header 2 "replicate 2 0" 40 "replicate 40 0"
      AL_CODEC_AVC 9] l
  show ?thesis by (auto simp: aud_header_def)
qed

end
