(* ===== verification/NalUnitParser.thy ===== *)
theory NalUnitParser imports NalRoundtrip begin

text \<open>
  lib_decode/NalUnitParser.c: the sizes of a NAL unit in the circular input buffer, and the step past a
  slice header.  A read outside the memory is \<open>None\<close>.  Read positions are not reduced modulo \<open>2^32\<close>;
  \<open>z\<close> is \<open>uZeroBytesCount\<close>, and a parser is created on a size that is not negative.
\<close>

record TCircBuffer =
  pVirtualAddr :: "u8 list"
  uSize :: nat
  iOffset :: nat
  iAvailSize :: int

definition read_ring :: "TCircBuffer \<Rightarrow> nat \<Rightarrow> u8 option" where
  "read_ring s i = (if uSize s = 0 then None else at (pVirtualAddr s) (i mod uSize s))"

text \<open>\<open>left\<close> is \<open>uEnd - uRead\<close>; an emulation prevention byte moves both.\<close>

function count_ae :: "TCircBuffer \<Rightarrow> nat \<Rightarrow> nat \<Rightarrow> nat \<Rightarrow> nat \<Rightarrow> nat \<Rightarrow> nat option" where
  "count_ae s uRead left z uSCDetect uNumAE =
     (if left = 0 then Some uNumAE
      else case read_ring s uRead of
             None \<Rightarrow> None
           | Some b \<Rightarrow>
               if z = 2 \<and> b = 3
               then count_ae s (uRead + 1) left 0 uSCDetect (uNumAE + 1)
               else let sc = (z \<ge> 2 \<and> b = 1);
                        found = (if sc then uSCDetect + 1 else uSCDetect)
                    in if sc \<and> found = 2 then Some uNumAE
                       else count_ae s (uRead + 1) (left - 1) (if b = 0 then z + 1 else 0) found uNumAE)"
  by pat_completeness auto
termination
  by (relation "measure (\<lambda>(s, r, left, z, c, n). 2 * left + (if z = 2 then 1 else 0))") auto

declare count_ae.simps [simp del]

definition AL_sCount_AntiEmulBytes :: "TCircBuffer \<Rightarrow> nat \<Rightarrow> nat option" where
  "AL_sCount_AntiEmulBytes pStream uLength = count_ae pStream (iOffset pStream) uLength 0 0 0"

text \<open>The NAL's length up to the zeros of the next start code; \<open>n\<close> bytes are left.\<close>

fun nal_length :: "TCircBuffer \<Rightarrow> nat \<Rightarrow> nat \<Rightarrow> nat \<Rightarrow> nat \<Rightarrow> nat \<Rightarrow> nat option" where
  "nal_length s 0 i iNumZeros iNumNALFound uLengthNAL = Some uLengthNAL"
| "nal_length s (Suc n) i iNumZeros iNumNALFound uLengthNAL =
     do { uRead \<leftarrow> read_ring s i;
          let sc = (iNumZeros \<ge> 2 \<and> uRead = 1);
          let found = (if sc then iNumNALFound + 1 else iNumNALFound);
          if sc \<and> found = 2 then Some (uLengthNAL - iNumZeros)
          else let zeros = (if sc then 0 else iNumZeros)
               in nal_length s n (i + 1) (if uRead = 0 then zeros + 1 else 0) found (uLengthNAL + 1) }"

definition GetNonVclSize :: "TCircBuffer \<Rightarrow> nat option" where
  "GetNonVclSize s =
     do { n \<leftarrow> nal_length s (nat (iAvailSize s)) (iOffset s) 0 0 0;
          r \<leftarrow> RoundUp (int n) (int ANTI_EMUL_GRANULARITY);
          Some (nat r) }"

text \<open>The buffer of the parser is the list; a larger one is allocated when the NAL needs it.\<close>

definition InitNonVclBuf :: "TCircBuffer \<Rightarrow> u8 list \<Rightarrow> u8 list option" where
  "InitNonVclBuf s BufNoAE =
     do { uLengthNAL \<leftarrow> GetNonVclSize s;
          Some (replicate (if uLengthNAL > length BufNoAE then uLengthNAL else length BufNoAE) 0) }"

definition getParserOnNonVclNal :: "TCircBuffer \<Rightarrow> u8 list \<Rightarrow> AL_TRbspParser" where
  "getParserOnNonVclNal s pBufNoAE =
     InitRbspParser (pVirtualAddr s) (uSize s) (iOffset s) (nat (iAvailSize s)) pBufNoAE True"

definition getParserOnNonVclNalInternalBuf :: "TCircBuffer \<Rightarrow> u8 list \<Rightarrow> AL_TRbspParser option" where
  "getParserOnNonVclNalInternalBuf s BufNoAE =
     do { buf \<leftarrow> InitNonVclBuf s BufNoAE; Some (getParserOnNonVclNal s buf) }"

definition GetSliceHdrSize :: "AL_TRbspParser \<Rightarrow> TCircBuffer \<Rightarrow> nat option" where
  "GetSliceHdrSize pRP s =
     do { let uLengthNAL = (offset pRP + 7) div 8;
          iNumAE \<leftarrow> AL_sCount_AntiEmulBytes s uLengthNAL;
          Some (uLengthNAL + iNumAE) }"

definition UpdateCircBuffer :: "AL_TRbspParser \<Rightarrow> TCircBuffer \<Rightarrow> (nat \<times> TCircBuffer) option" where
  "UpdateCircBuffer pRP s =
     do { uLengthNAL \<leftarrow> GetSliceHdrSize pRP s;
          let pSliceHdrLength = (if iTotalBitIndex pRP mod 8 \<noteq> 0 then 16 + iTotalBitIndex pRP mod 8 else 24);
          let uLengthNAL = to_u32 (int uLengthNAL - int ((pSliceHdrLength + 7) div 8));
          if uSize s = 0 then None
          else Some (pSliceHdrLength,
                     s\<lparr>iAvailSize := to_i32 (iAvailSize s - int uLengthNAL),
                       iOffset := to_u32 (int (iOffset s) + int uLengthNAL) mod uSize s\<rparr>) }"

section \<open>The length of a NAL\<close>

text \<open>The bytes the buffer offers.\<close>

definition available :: "TCircBuffer \<Rightarrow> u8 list" where
  "available s = map (\<lambda>i. pVirtualAddr s ! ((iOffset s + i) mod uSize s)) [0..<nat (iAvailSize s)]"

definition circ_ok :: "TCircBuffer \<Rightarrow> bool" where
  "circ_ok s \<longleftrightarrow> iOffset s < uSize s \<and> uSize s \<le> length (pVirtualAddr s)"

fun list_length :: "u8 list \<Rightarrow> nat \<Rightarrow> nat \<Rightarrow> nat \<Rightarrow> nat" where
  "list_length [] z found L = L"
| "list_length (b # bs) z found L =
     (let sc = (z \<ge> 2 \<and> b = 1); found' = (if sc then found + 1 else found)
      in if sc \<and> found' = 2 then L - z
         else list_length bs (if b = 0 then (if sc then 0 else z) + 1 else 0) found' (L + 1))"

lemma nal_length_eq:
  "circ_ok s \<Longrightarrow> nal_length s n i z found L
     = Some (list_length (map (\<lambda>k. pVirtualAddr s ! ((i + k) mod uSize s)) [0..<n]) z found L)"
proof (induction n arbitrary: i z found L)
  case (Suc n)
  have m: "i mod uSize s < length (pVirtualAddr s)" "uSize s \<noteq> 0"
  proof -
    show u: "uSize s \<noteq> 0" using Suc.prems by (simp add: circ_ok_def)
    then have "i mod uSize s < uSize s" by simp
    with Suc.prems show "i mod uSize s < length (pVirtualAddr s)" unfolding circ_ok_def by linarith
  qed
  have "map (\<lambda>k. pVirtualAddr s ! ((i + k) mod uSize s)) [0..<Suc n]
      = pVirtualAddr s ! (i mod uSize s) # map (\<lambda>k. pVirtualAddr s ! ((i + 1 + k) mod uSize s)) [0..<n]"
    by (simp add: map_upt_Suc del: upt_Suc)
  with Suc m show ?case by (cases "found = 2") (auto simp: read_ring_def Let_def)
qed simp

lemma list_length_skip:
  "no_emulation (replicate (min z 2) 0 @ w) \<Longrightarrow> w \<noteq> [] \<Longrightarrow> last w \<noteq> 0 \<Longrightarrow>
   list_length (w @ t) z 1 L = list_length t 0 1 (L + length w)"
proof (induction w arbitrary: z L)
  case (Cons b w)
  have sc: "\<not> (z \<ge> 2 \<and> b = 1)"
  proof
    assume "z \<ge> 2 \<and> b = 1"
    then have "min z 2 = 2" "b = 1" by simp_all
    with Cons.prems(1) show False by (simp add: numeral_2_eq_2)
  qed
  show ?case
  proof (cases "w = []")
    case True
    with Cons.prems(3) sc show ?thesis by auto
  next
    case False
    have "no_emulation (replicate (min (if b = 0 then z + 1 else 0) 2) 0 @ w)"
    proof (cases "b = 0")
      case True
      have "z < 2"
      proof (rule ccontr)
        assume "\<not> z < 2"
        then have "min z 2 = 2" by simp
        with Cons.prems(1) True show False by (simp add: numeral_2_eq_2)
      qed
      then consider "z = 0" | "z = 1" by linarith
      then show ?thesis using Cons.prems(1) True by cases (simp_all add: numeral_2_eq_2)
    next
      case nz: False
      consider "min z 2 = 0" | "min z 2 = 1" | "min z 2 = 2" by linarith
      then have "no_emulation w"
      proof cases
        case 3
        with Cons.prems(1) nz show ?thesis by (simp add: numeral_2_eq_2 no_emulation_one)
      qed (use Cons.prems(1) nz no_emulation_nonzero no_emulation_one in \<open>simp_all\<close>)
      with nz show ?thesis by simp
    qed
    from Cons.IH [OF this False, of "L + 1"] Cons.prems(3) False sc show ?thesis by auto
  qed
qed simp

lemma list_length_nal:
  assumes "d \<noteq> []" "last d \<noteq> 0" "\<forall>b \<in> set (take (hdr_size h) (hdr_bytes h)). b \<noteq> 0" "follows t"
  shows "list_length (nal_bytes c nut h d @ t) 0 0 0 = length (nal_bytes c nut h d)"
proof -
  let ?hs = "take (hdr_size h) (hdr_bytes h)"
  have e: "escaped d \<noteq> [] \<and> last (escaped d) = last d" using assms(1) by (induction d rule: escaped.induct) auto
  have hdr: "list_length (hs @ us) 0 1 L = list_length us 0 1 (L + length hs)" if "\<forall>b \<in> set hs. b \<noteq> 0" for hs us L
    using that by (induction hs arbitrary: L) auto
  have start: "list_length (start_code c nut @ us) 0 0 0 = list_length us 0 1 (length (start_code c nut))" for us
    by (simp add: start_code_def)
  have body: "list_length (escaped d @ t) 0 1 L = list_length t 0 1 (L + length (escaped d))" for L
    by (rule list_length_skip) (use no_emulation_escaped [of 0 d] e assms(2) in \<open>simp_all add: sync_def\<close>)
  have fol: "list_length t 0 1 L = L" for L
  proof -
    consider "t = []" | r where "t = 0 # 0 # 1 # r" | r where "t = 0 # 0 # 0 # 1 # r"
      using assms(4) append_take_drop_id [of 3 t] append_take_drop_id [of 4 t] unfolding follows_def
      by (metis append_Cons append_Nil)
    then show ?thesis by cases (simp_all add: Let_def)
  qed
  show ?thesis
    unfolding nal_bytes_def append_assoc start hdr [OF assms(3)] using assms(1) by (simp only: body fol if_False) simp
qed

text \<open>C33: On a buffer that holds a NAL written by \<open>FlushNAL\<close> and then the end or another start code,
  \<open>GetNonVclSize\<close> is the length of the NAL rounded up to 32, and the parser on the internal buffer, whatever
  that buffer held before, reads back every syntax element of the NAL, provided that the buffer's initial
  size exceeds the NAL by a few bytes.\<close>

theorem non_vcl_nal_parsed:
  assumes "\<forall>e \<in> set es. elem_ok e"
    and "hdr_size h \<le> length (hdr_bytes h)" "\<forall>b \<in> set (take (hdr_size h) (hdr_bytes h)). b \<noteq> 0"
    and "m \<le> length buf" "length (elems_bits es) < 8 * m"
    and "om \<le> length obuf" "hdr_size h + 6 + length (elems_bits es) \<le> om"
    and "hdr_size h + 2 * m + 16 \<le> length BufNoAE" "length BufNoAE + 32 < 2 ^ 29"
    and "circ_ok s" "follows t"
    and "write_nal c nut h es (AL_BitStreamLite_Init buf m) (AL_BitStreamLite_Init obuf om) = Some nal"
    and "available s = take (BitsToBytes (AL_BitStreamLite_GetBitsCount nal)) (AL_BitStreamLite_GetData nal) @ t"
  shows "\<exists>p. GetNonVclSize s = Some ((BitsToBytes (AL_BitStreamLite_GetBitsCount nal) + 31) div 32 * 32)
    \<and> getParserOnNonVclNalInternalBuf s BufNoAE = Some p
    \<and> read_nal (hdr_size h) (map fst es) p = Some (map snd es, False)"
proof -
  let ?s = "AL_BitStreamLite_Init buf m" let ?s2 = "AL_BitStreamLite_Init obuf om"
  let ?n = "BitsToBytes (AL_BitStreamLite_GetBitsCount nal)"
  have s: "bs_ok ?s" "written ?s = []" "bs_room ?s = 8 * m" "bs_ok ?s2" "written ?s2 = []" "bs_room ?s2 = 8 * om"
    using assms(4,6) by (simp_all add: init_ok)
  have room: "length (elems_bits es) < bs_room ?s"
    "8 * (hdr_size h + 4) + 2 * (length (elems_bits es) + 8) \<le> bs_room ?s2" unfolding s using assms(5,7) by simp_all
  from write_nal_law [OF assms(1,2) s(1,2) room(1) s(4,5) room(2), of c nut] assms(12) obtain d j where
    w: "j < 8" "byte_bits d = elems_bits es @ True # replicate j False"
      "?n = length (nal_bytes c nut h d)" "take (length (nal_bytes c nut h d)) (pData nal) = nal_bytes c nut h d"
    by auto
  note dn = last_byte [OF w(2,1)]
  have av: "available s = nal_bytes c nut h d @ t"
    using assms(13) w(3,4) by (simp add: AL_BitStreamLite_GetData_def)
  have "nal_length s (nat (iAvailSize s)) (iOffset s) 0 0 0 = Some ?n"
    unfolding nal_length_eq [OF assms(10)] available_def [symmetric] av list_length_nal [OF dn assms(3,11)] w(3) ..
  moreover have "RoundUp (int ?n) (int ANTI_EMUL_GRANULARITY) = Some (int ((?n + 31) div 32 * 32))"
    by (simp add: RoundUp_def ANTI_EMUL_GRANULARITY_def signed_divide_int_def zdiv_int)
  ultimately have size: "GetNonVclSize s = Some ((?n + 31) div 32 * 32)" by (simp add: GetNonVclSize_def)
  have "8 * length d = length (elems_bits es) + 1 + j" using arg_cong [OF w(2), of length] by simp
  then have "length d \<le> m" using assms(5) w(1) by linarith
  moreover have "?n \<le> 4 + hdr_size h + 2 * length d"
    unfolding w(3) using escaped_length [of d] assms(2) by (simp add: nal_bytes_def start_code_def)
  ultimately have nb: "?n \<le> length BufNoAE" using assms(8) by linarith
  define k where "k = (if (?n + 31) div 32 * 32 > length BufNoAE then (?n + 31) div 32 * 32 else length BufNoAE)"
  have k: "hdr_size h + m + 12 \<le> k" "k < 2 ^ 29" using nb assms(8,9) by (auto simp: k_def)
  define p where "p = getParserOnNonVclNal s (replicate k 0)"
  have "getParserOnNonVclNalInternalBuf s BufNoAE = Some p"
    using size by (simp add: getParserOnNonVclNalInternalBuf_def InitNonVclBuf_def p_def k_def)
  moreover have "read_nal (hdr_size h) (map fst es) p = Some (map snd es, False)"
  proof (rule nal_parsed [OF assms(1-3) w(2,1) assms(5)])
    show "p = InitRbspParser (pVirtualAddr s) (uSize s) (iOffset s) (nat (iAvailSize s)) (replicate k 0) True"
      by (simp add: p_def getParserOnNonVclNal_def)
    then show "input p = nal_bytes c nut h d @ t"
      using av by (simp add: input_def available_def InitRbspParser_def)
  qed (use assms(10,11) k in \<open>simp_all add: circ_ok_def\<close>)
  ultimately show ?thesis using size by blast
qed

text \<open>An access unit delimiter of AVC, whose \<open>primary_pic_type\<close> is 1, in a buffer that wraps.\<close>

theorem non_vcl_nal_parsed_witness:
  "\<exists>p. getParserOnNonVclNalInternalBuf \<lparr>pVirtualAddr = [1, 9, 0x30, 7, 0, 0, 0], uSize = 7, iOffset = 4, iAvailSize = 6\<rparr>
      (replicate 2048 5) = Some p \<and> read_nal 1 [Fixed 3] p = Some ([1], False)"
proof -
  let ?s = "\<lparr>pVirtualAddr = [1, 9, 0x30, 7, 0, 0, 0], uSize = 7, iOffset = 4, iAvailSize = 6\<rparr>"
  let ?es = "[(Fixed 3, 1)]"
  have n: "nal_bytes AL_CODEC_AVC 9 aud_header [0x30] = [0, 0, 0, 1, 9, 0x30]"
    by (simp add: nal_bytes_def start_code_def zero_byte_def AL_AVC_NUT_PREFIX_SEI_def AL_AVC_NUT_SUB_SPS_def aud_header_def)
  have e: "elems_bits ?es = [False, False, True]"
  proof -
    have "field 3 (1 :: u32) = [False, False, True]" by code_simp
    then show ?thesis by (simp add: elems_bits_def)
  qed
  have up: "[0..<6] = [0, 1, 2, 3, 4, 5 :: nat]" by (simp add: upt_rec)
  have av: "available ?s = [0, 0, 0, 1, 9, 0x30]"
    by (simp add: available_def up)
  have sb: "bs_ok (AL_BitStreamLite_Init [0] 1)" "bs_room (AL_BitStreamLite_Init [0] 1) = 8"
    "bs_ok (AL_BitStreamLite_Init (replicate 20 0) 20)" "bs_room (AL_BitStreamLite_Init (replicate 20 0) 20) = 160"
    "written (AL_BitStreamLite_Init [0] 1) = []" "written (AL_BitStreamLite_Init (replicate 20 0) 20) = []"
    by (simp_all add: init_ok)
  from write_nal_law [of ?es aud_header "AL_BitStreamLite_Init [0] 1" "AL_BitStreamLite_Init (replicate 20 0) 20"
      AL_CODEC_AVC 9] sb e obtain d nal j where
    w: "write_nal AL_CODEC_AVC 9 aud_header ?es (AL_BitStreamLite_Init [0] 1) (AL_BitStreamLite_Init (replicate 20 0) 20) = Some nal"
      "j < 8" "byte_bits d = elems_bits ?es @ True # replicate j False"
      "BitsToBytes (AL_BitStreamLite_GetBitsCount nal) = length (nal_bytes AL_CODEC_AVC 9 aud_header d)"
      "take (length (nal_bytes AL_CODEC_AVC 9 aud_header d)) (pData nal) = nal_bytes AL_CODEC_AVC 9 aud_header d"
    by (auto simp: aud_header_def)
  have "d = [0x30]"
  proof (rule byte_bits_inj)
    have "length (byte_bits d) = 4 + j" unfolding w(3) e by simp
    then have "8 * length d = 4 + j" by simp
    then have "j = 4" using w(2) by presburger
    moreover have "field 8 (0x30 :: u32) = [False, False, True, True, False, False, False, False]" by code_simp
    moreover have "replicate 4 False = [False, False, False, False]" by (simp add: numeral_eq_Suc)
    ultimately show "byte_bits d = byte_bits [0x30]" unfolding w(3) e by simp
  qed
  with w(4,5) n have o: "take (BitsToBytes (AL_BitStreamLite_GetBitsCount nal)) (AL_BitStreamLite_GetData nal) = [0, 0, 0, 1, 9, 0x30]"
    by (simp add: AL_BitStreamLite_GetData_def)
  from non_vcl_nal_parsed [of ?es aud_header 1 "[0]" 20 "replicate 20 0" "replicate 2048 5" ?s "[]" AL_CODEC_AVC 9 nal]
  show ?thesis using w(1) o av e by (auto simp: aud_header_def circ_ok_def follows_def)
qed

end
