(* ===== verification/KMem.thy ===== *)
theory KMem imports Mail begin

text \<open>
  vcu-modules/common/al_alloc.c, al_dmabuf.c and al_buffers_pool.c: DMA buffers, their export as dma-buf
  objects and the pools of an encoder channel.

  The kernel is a parameter.  Whether a call of it that can fail succeeds is the next of \<open>answers\<close> (and
  success when there is none left); the resources it hands out and takes back are recorded in \<open>trace\<close>,
  newest first.  A pointer is the number of its allocation, 0 is null.  \<open>bus\<close> is the bus address of the
  memory behind a pointer; \<open>fd_info\<close> gives what a file descriptor refers to, and \<open>others\<close> the dma-buf objects
  somebody else has a reference to.  The callbacks by which the kernel maps a buffer for another device
  are not modelled.
\<close>

datatype resource = Mem nat | Dma nat | DevRef nat | DmaBuf nat | BufRef nat | Fd nat

datatype kcall = Acquire resource | Release resource

record buffer_info =
  bus_address :: u32
  info_size :: u32

record kworld =
  answers :: "bool list"
  trace :: "kcall list"
  next_ptr :: nat
  bus :: "nat \<Rightarrow> u32"
  fd_info :: "u32 \<Rightarrow> nat \<times> buffer_info"
  others :: "nat \<Rightarrow> bool"

section \<open>The kernel\<close>

definition answer :: "'a kworld_scheme \<Rightarrow> bool \<times> 'a kworld_scheme" where
  "answer w = (case answers w of [] \<Rightarrow> (True, w) | a # as \<Rightarrow> (a, w\<lparr>answers := as\<rparr>))"

definition acquire :: "resource \<Rightarrow> 'a kworld_scheme \<Rightarrow> 'a kworld_scheme" where
  "acquire r w = w\<lparr>trace := Acquire r # trace w\<rparr>"

definition release :: "resource \<Rightarrow> 'a kworld_scheme \<Rightarrow> 'a kworld_scheme" where
  "release r w = w\<lparr>trace := Release r # trace w\<rparr>"

text \<open>A new number for an object of the kernel.\<close>

definition new_ptr :: "'a kworld_scheme \<Rightarrow> nat \<times> 'a kworld_scheme" where
  "new_ptr w = (next_ptr w, w\<lparr>next_ptr := next_ptr w + 1\<rparr>)"

definition kalloc :: "'a kworld_scheme \<Rightarrow> nat \<times> 'a kworld_scheme" where
  "kalloc w = (let (ok, w1) = answer w in
     if ok then let (p, w2) = new_ptr w1 in (p, acquire (Mem p) w2) else (0, w1))"

text \<open>An array of \<open>cnt\<close> pointers; a count that is negative as an \<open>int\<close> asks for more than there is.\<close>

definition kcalloc :: "nat \<Rightarrow> 'a kworld_scheme \<Rightarrow> nat \<times> 'a kworld_scheme" where
  "kcalloc cnt w = (if int cnt < 2147483648 then kalloc w else (0, w))"

definition kfree :: "nat \<Rightarrow> 'a kworld_scheme \<Rightarrow> 'a kworld_scheme" where
  "kfree p w = (if p = 0 then w else release (Mem p) w)"

section \<open>al_alloc.c\<close>

record al5_dma_buffer =
  buf_ptr :: nat
  buf_size :: u32
  dma_handle :: u32

definition al5_alloc_dma :: "u32 \<Rightarrow> 'a kworld_scheme \<Rightarrow> al5_dma_buffer option \<times> 'a kworld_scheme" where
  "al5_alloc_dma sz w =
     (let (buf, w1) = kalloc w in
      if buf = 0 then (None, w1)
      else let (cpu_handle, w2) = answer w1 in
           if \<not> cpu_handle then (None, kfree buf w2)
           else (Some \<lparr>buf_ptr = buf, buf_size = sz, dma_handle = bus w2 buf\<rparr>, acquire (Dma buf) w2))"

definition al5_free_dma :: "al5_dma_buffer option \<Rightarrow> 'a kworld_scheme \<Rightarrow> 'a kworld_scheme" where
  "al5_free_dma buf w =
     (case buf of None \<Rightarrow> kfree 0 w | Some b \<Rightarrow> kfree (buf_ptr b) (release (Dma (buf_ptr b)) w))"

section \<open>al_dmabuf.c\<close>

record al5_dmabuf_priv =
  dinfo_ptr :: nat
  dinfo_buffer :: al5_dma_buffer
  sgt_base :: nat

record dma_buf =
  dbuf_id :: nat
  dbuf_priv :: al5_dmabuf_priv

definition al5_get_base_sgt :: "'a kworld_scheme \<Rightarrow> nat \<times> 'a kworld_scheme" where
  "al5_get_base_sgt w =
     (let (sgt, w1) = kalloc w in
      if sgt = 0 then (0, w1)
      else let (ok, w2) = answer w1 in if \<not> ok then (0, kfree sgt w2) else (sgt, w2))"

text \<open>\<open>dma_buf_export\<close> makes the object; the result is null when it fails.\<close>

definition al5_get_dmabuf :: "al5_dmabuf_priv \<Rightarrow> 'a kworld_scheme \<Rightarrow> dma_buf option \<times> al5_dmabuf_priv \<times> 'a kworld_scheme" where
  "al5_get_dmabuf dinfo w =
     (let (dinfo1, w1) = (if sgt_base dinfo = 0
                          then let (sgt, w1) = al5_get_base_sgt w in (dinfo\<lparr>sgt_base := sgt\<rparr>, w1)
                          else (dinfo, w))
      in if sgt_base dinfo1 = 0 then (None, dinfo1, w1)
         else let (ok, w2) = answer w1 in
              if \<not> ok then (None, dinfo1, w2)
              else let (h, w3) = new_ptr w2 in
                   (Some \<lparr>dbuf_id = h, dbuf_priv = dinfo1\<rparr>, dinfo1, acquire (DmaBuf h) w3))"

definition al5_dmabuf_wrap :: "al5_dma_buffer \<Rightarrow> 'a kworld_scheme \<Rightarrow> (int + dma_buf) \<times> 'a kworld_scheme" where
  "al5_dmabuf_wrap buffer w =
     (let (p, w1) = kalloc w in
      if p = 0 then (Inl (- ENOMEM), w1)
      else let w2 = acquire (DevRef p) w1;
               (sgt, w3) = al5_get_base_sgt w2;
               (dbuf, _, w4) = al5_get_dmabuf \<lparr>dinfo_ptr = p, dinfo_buffer = buffer, sgt_base = sgt\<rparr> w3
           in case dbuf of None \<Rightarrow> (Inl (- EINVAL), w4) | Some d \<Rightarrow> (Inr d, w4))"

text \<open>The callback for the last reference.\<close>

definition al5_dmabuf_release :: "dma_buf \<Rightarrow> 'a kworld_scheme \<Rightarrow> 'a kworld_scheme" where
  "al5_dmabuf_release buf w =
     (let dinfo = dbuf_priv buf; p = buf_ptr (dinfo_buffer dinfo);
          w1 = (if sgt_base dinfo \<noteq> 0 then kfree (sgt_base dinfo) w else w);
          w2 = release (Dma p) w1;
          w3 = release (DevRef (dinfo_ptr dinfo)) w2
      in kfree (dinfo_ptr dinfo) (kfree p w3))"

text \<open>The driver gives its reference back.\<close>

definition dma_buf_put :: "dma_buf \<Rightarrow> 'a kworld_scheme \<Rightarrow> 'a kworld_scheme" where
  "dma_buf_put buf w =
     (let w1 = release (DmaBuf (dbuf_id buf)) w
      in if others w (dbuf_id buf) then w1 else al5_dmabuf_release buf w1)"

text \<open>A descriptor for the object; a negative result is an error.\<close>

definition dma_buf_fd :: "nat \<Rightarrow> 'a kworld_scheme \<Rightarrow> int \<times> 'a kworld_scheme" where
  "dma_buf_fd h w =
     (let (ok, w1) = answer w in
      if \<not> ok then (- ENOMEM, w1) else let (fd, w2) = new_ptr w1 in (int fd, acquire (Fd fd) w2))"

definition al5_create_dmabuf_fd :: "al5_dma_buffer \<Rightarrow> 'a kworld_scheme \<Rightarrow> int \<times> 'a kworld_scheme" where
  "al5_create_dmabuf_fd buffer w =
     (let (d, w1) = al5_dmabuf_wrap buffer w in
      case d of Inl err \<Rightarrow> (err, w1) | Inr dbuf \<Rightarrow> dma_buf_fd (dbuf_id dbuf) w1)"

definition al5_allocate_dmabuf :: "u32 \<Rightarrow> u32 \<Rightarrow> 'a kworld_scheme \<Rightarrow> int \<times> u32 \<times> 'a kworld_scheme" where
  "al5_allocate_dmabuf sz fd w =
     (let (buffer, w1) = al5_alloc_dma sz w in
      case buffer of
        None \<Rightarrow> (- ENOMEM, fd, w1)
      | Some b \<Rightarrow> let (r, w2) = al5_create_dmabuf_fd b w1 in (0, of_int r, w2))"

text \<open>A reference to the object of a descriptor; attaching and mapping it may fail.\<close>

definition al5_get_dmabuf_info :: "u32 \<Rightarrow> 'a kworld_scheme \<Rightarrow> (int \<times> buffer_info option) \<times> 'a kworld_scheme" where
  "al5_get_dmabuf_info fd w =
     (let (got, w1) = answer w in
      if \<not> got then ((- EINVAL, None), w1)
      else let h = fst (fd_info w1 fd);
               w2 = acquire (BufRef h) w1;
               (attached, w3) = answer w2
           in if \<not> attached then ((- EINVAL, None), release (BufRef h) w3)
              else let (mapped, w4) = answer w3
                   in if \<not> mapped then ((- EINVAL, None), release (BufRef h) w4)
                      else ((0, Some (snd (fd_info w4 fd))), release (BufRef h) w4))"

definition al5_dmabuf_get_address :: "u32 \<Rightarrow> 'a kworld_scheme \<Rightarrow> (int \<times> u32 option) \<times> 'a kworld_scheme" where
  "al5_dmabuf_get_address fd w =
     (let (got, w1) = answer w in
      if \<not> got then ((- EINVAL, None), w1)
      else let h = fst (fd_info w1 fd);
               w2 = acquire (BufRef h) w1;
               (attached, w3) = answer w2
           in if \<not> attached then ((- EINVAL, None), release (BufRef h) w3)
              else let (mapped, w4) = answer w3
                   in if \<not> mapped then ((- EINVAL, None), release (BufRef h) w4)
                      else ((0, Some (bus_address (snd (fd_info w4 fd)))), release (BufRef h) w4))"

section \<open>al_buffers_pool.c\<close>

text \<open>\<open>buffers\<close> and \<open>handles\<close> are the arrays' pointers, \<open>buf_arr\<close> and \<open>handle_arr\<close> their content.\<close>

record al5_buffers_pool =
  pool_count :: nat
  buffers :: nat
  handles :: nat
  buf_arr :: "al5_dma_buffer option list"
  handle_arr :: "dma_buf option list"

definition al5_bufpool_init :: "al5_buffers_pool" where
  "al5_bufpool_init = \<lparr>pool_count = 0, buffers = 0, handles = 0, buf_arr = [], handle_arr = []\<rparr>"

text \<open>The handle of every counted buffer is put; a missing one is dereferenced.\<close>

fun put_handles :: "dma_buf option list \<Rightarrow> 'a kworld_scheme \<Rightarrow> 'a kworld_scheme option" where
  "put_handles [] w = Some w"
| "put_handles (None # hs) w = None"
| "put_handles (Some h # hs) w = put_handles hs (dma_buf_put h w)"

definition al5_bufpool_free ::
    "al5_buffers_pool \<Rightarrow> 'a kworld_scheme \<Rightarrow> (al5_buffers_pool \<times> 'a kworld_scheme) option" where
  "al5_bufpool_free pool w =
     (if length (handle_arr pool) < pool_count pool then None
      else do { w1 \<leftarrow> put_handles (take (pool_count pool) (handle_arr pool)) w;
                Some (al5_bufpool_init, kfree (handles pool) (kfree (buffers pool) w1)) })"

text \<open>The loop: \<open>k\<close> buffers are still to be made; \<open>False\<close> is the jump to the failure label.\<close>

fun allocate_loop ::
    "nat \<Rightarrow> u32 \<Rightarrow> al5_buffers_pool \<Rightarrow> 'a kworld_scheme \<Rightarrow> bool \<times> al5_buffers_pool \<times> 'a kworld_scheme" where
  "allocate_loop 0 sz pool w = (True, pool, w)"
| "allocate_loop (Suc k) sz pool w =
     (let i = pool_count pool;
          (b, w1) = al5_alloc_dma sz w;
          pool1 = pool\<lparr>buf_arr := (buf_arr pool)[i := b]\<rparr>
      in case b of
           None \<Rightarrow> (False, pool1, w1)
         | Some buf \<Rightarrow>
             let (h, w2) = al5_dmabuf_wrap buf w1 in
             case h of
               Inl err \<Rightarrow> (False, pool1, al5_free_dma b w2)
             | Inr dbuf \<Rightarrow> allocate_loop k sz (pool1\<lparr>handle_arr := (handle_arr pool1)[i := Some dbuf],
                                                   pool_count := i + 1\<rparr>) w2)"

definition al5_bufpool_allocate ::
    "al5_buffers_pool \<Rightarrow> nat \<Rightarrow> u32 \<Rightarrow> 'a kworld_scheme \<Rightarrow> (int \<times> al5_buffers_pool \<times> 'a kworld_scheme) option" where
  "al5_bufpool_allocate pool cnt sz w =
     (let (b, w1) = kcalloc cnt w;
          pool1 = pool\<lparr>pool_count := 0, buffers := b, buf_arr := replicate cnt None\<rparr>
      in if b = 0 then Some (- ENOMEM, pool1, w1)
         else let (h, w2) = kcalloc cnt w1;
                  pool2 = pool1\<lparr>handles := h, handle_arr := replicate cnt None\<rparr>
              in if h = 0 then Some (- ENOMEM, pool2, kfree (buffers pool2) w2)
                 else let (ok, pool3, w3) = allocate_loop cnt sz pool2 w2
                      in if ok then Some (0, pool3, w3)
                         else do { (pool4, w4) \<leftarrow> al5_bufpool_free pool3 w3; Some (- ENOMEM, pool4, w4) })"

fun find_handle :: "nat \<Rightarrow> dma_buf option list \<Rightarrow> nat \<Rightarrow> int" where
  "find_handle h [] i = - 1"
| "find_handle h (d # ds) i =
     (if map_option dbuf_id d = Some h then int i else find_handle h ds (i + 1))"

definition al5_bufpool_get_id :: "al5_buffers_pool \<Rightarrow> u32 \<Rightarrow> 'a kworld_scheme \<Rightarrow> int \<times> 'a kworld_scheme" where
  "al5_bufpool_get_id pool fd w =
     (let (got, w1) = answer w in
      if \<not> got then (- 1, w1)
      else let h = fst (fd_info w1 fd)
           in (find_handle h (take (pool_count pool) (handle_arr pool)) 0, release (BufRef h) (acquire (BufRef h) w1)))"

text \<open>The second reference is taken whatever the descriptor is; from then on the process has one, behind its
  descriptor.\<close>

definition al5_bufpool_reserve_fd :: "al5_buffers_pool \<Rightarrow> nat \<Rightarrow> 'a kworld_scheme \<Rightarrow> (int \<times> 'a kworld_scheme) option" where
  "al5_bufpool_reserve_fd pool i w =
     do { d \<leftarrow> at (handle_arr pool) i;
          dbuf \<leftarrow> d;
          let (fd, w1) = dma_buf_fd (dbuf_id dbuf) w;
          Some (fd, if fd < 0 then w1
                    else let w2 = acquire (BufRef (dbuf_id dbuf)) w1
                         in w2\<lparr>others := (others w2)(dbuf_id dbuf := True)\<rparr>) }"

section \<open>What is held\<close>

text \<open>The resources held after a trace, starting from \<open>S\<close>; \<open>None\<close> when something is released that is not
  held.\<close>

fun held :: "resource set \<Rightarrow> kcall list \<Rightarrow> resource set option" where
  "held S [] = Some S"
| "held S (Acquire r # tr) = map_option (insert r) (held S tr)"
| "held S (Release r # tr) =
     (case held S tr of None \<Rightarrow> None | Some H \<Rightarrow> if r \<in> H then Some (H - {r}) else None)"

fun number :: "resource \<Rightarrow> nat" where
  "number (Mem n) = n" | "number (Dma n) = n" | "number (DevRef n) = n" | "number (DmaBuf n) = n"
| "number (BufRef n) = n" | "number (Fd n) = n"

text \<open>The world holds exactly \<open>H\<close>, all of it from allocations that were made, and nobody else has references.\<close>

definition holds_res :: "'a kworld_scheme \<Rightarrow> resource set \<Rightarrow> bool" where
  "holds_res w H \<longleftrightarrow> held {} (trace w) = Some H \<and> (\<forall>r \<in> H. number r < next_ptr w) \<and> 0 < next_ptr w
     \<and> others w = (\<lambda>_. False)"

named_theorems kworld_defs

lemmas [kworld_defs] = answer_def acquire_def release_def new_ptr_def kalloc_def kfree_def

lemma answer_cases:
  obtains a as where "answer w = (a, w\<lparr>answers := as\<rparr>)"
proof (cases "answers w")
  case Nil
  then have "w\<lparr>answers := []\<rparr> = w" by (cases w) simp
  with Nil show ?thesis using that [of True "[]"] by (simp add: answer_def)
next
  case (Cons a as)
  then show ?thesis using that [of a as] by (simp add: answer_def)
qed

lemma holds_answers [simp]: "holds_res (w\<lparr>answers := as\<rparr>) H = holds_res w H"
  by (simp add: holds_res_def)

lemma holds_acquire:
  "holds_res w H \<Longrightarrow> number r < next_ptr w \<Longrightarrow> holds_res (acquire r w) (insert r H)"
  by (simp add: holds_res_def acquire_def)

lemma holds_release: "holds_res w H \<Longrightarrow> r \<in> H \<Longrightarrow> holds_res (release r w) (H - {r})"
  by (simp add: holds_res_def release_def)

lemma holds_new_ptr:
  assumes "holds_res w H" "new_ptr w = (p, w1)"
  shows "holds_res w1 H" "p = next_ptr w" "next_ptr w1 = p + 1" "0 < p" "\<forall>r \<in> H. number r < p"
  using assms by (auto simp: holds_res_def new_ptr_def)

lemma next_ptr_simps [simp]:
  "next_ptr (w\<lparr>answers := as\<rparr>) = next_ptr w" "next_ptr (acquire r w) = next_ptr w" "next_ptr (release r w) = next_ptr w"
  by (simp_all add: acquire_def release_def)

lemma kalloc_law:
  assumes "holds_res w H" "kalloc w = (p, w1)"
  shows "(p = 0 \<and> holds_res w1 H \<or> 0 < p \<and> holds_res w1 (insert (Mem p) H) \<and> (\<forall>r \<in> H. number r < p))
    \<and> next_ptr w \<le> next_ptr w1 \<and> p < next_ptr w1"
proof (cases rule: answer_cases [of w])
  case (1 a as)
  show ?thesis
  proof (cases a)
    case True
    obtain q w2 where q: "new_ptr (w\<lparr>answers := as\<rparr>) = (q, w2)" by fastforce
    have h: "holds_res (w\<lparr>answers := as\<rparr>) H" using assms(1) by simp
    note n = holds_new_ptr [OF h q]
    have "kalloc w = (q, acquire (Mem q) w2)" using 1 True q by (simp add: kalloc_def)
    with assms(2) have r: "q = p" "w1 = acquire (Mem p) w2" by auto
    note n = n [unfolded r(1)]
    have "holds_res w1 (insert (Mem p) H)" unfolding r by (rule holds_acquire) (use n in simp_all)
    then show ?thesis using n r by simp
  next
    case False
    with assms 1 have r: "p = 0" "w1 = w\<lparr>answers := as\<rparr>" by (simp_all add: kalloc_def)
    have "0 < next_ptr w" using assms(1) by (simp add: holds_res_def)
    with r assms(1) show ?thesis by simp
  qed
qed

lemma kfree_law: "holds_res w H \<Longrightarrow> Mem p \<in> H \<Longrightarrow> 0 < p \<Longrightarrow> holds_res (kfree p w) (H - {Mem p})"
  by (simp add: kfree_def holds_release)

lemma kfree_null [simp]: "kfree 0 w = w"
  by (simp add: kfree_def)

lemma kfree_next [simp]: "next_ptr (kfree p w) = next_ptr w"
  by (simp add: kfree_def)

section \<open>DMA buffers\<close>

definition dma_res :: "al5_dma_buffer \<Rightarrow> resource set" where
  "dma_res b = {Mem (buf_ptr b), Dma (buf_ptr b)}"

lemma fresh_notin: "\<forall>r \<in> H. number r < p \<Longrightarrow> p \<le> number s \<Longrightarrow> s \<notin> H"
  by auto

lemma alloc_dma_law:
  assumes "holds_res w H" "al5_alloc_dma sz w = (b, w1)"
  shows "next_ptr w \<le> next_ptr w1 \<and>
    (case b of None \<Rightarrow> holds_res w1 H
     | Some buf \<Rightarrow> holds_res w1 (dma_res buf \<union> H) \<and> dma_res buf \<inter> H = {} \<and> 0 < buf_ptr buf \<and> buf_size buf = sz)"
proof -
  obtain p w2 where p: "kalloc w = (p, w2)" by fastforce
  note k = kalloc_law [OF assms(1) p]
  show ?thesis
  proof (cases "p = 0")
    case True
    with assms(2) p k show ?thesis by (auto simp: al5_alloc_dma_def)
  next
    case False
    with k have h: "holds_res w2 (insert (Mem p) H)" "\<forall>r \<in> H. number r < p" by auto
    show ?thesis
    proof (cases rule: answer_cases [of w2])
      case (1 a as)
      show ?thesis
      proof (cases a)
        case True
        with assms(2) p False 1 have r: "w1 = acquire (Dma p) (w2\<lparr>answers := as\<rparr>)"
          "b = Some \<lparr>buf_ptr = p, buf_size = sz, dma_handle = bus w2 p\<rparr>"
          by (simp_all add: al5_alloc_dma_def)
        have "holds_res w1 (insert (Dma p) (insert (Mem p) H))"
          unfolding r(1) by (rule holds_acquire) (use h k in simp_all)
        moreover have "Mem p \<notin> H" "Dma p \<notin> H" using h(2) by auto
        ultimately show ?thesis using r k False by (simp add: dma_res_def insert_commute)
      next
        case f: False
        with assms(2) p False 1 have r: "w1 = kfree p (w2\<lparr>answers := as\<rparr>)" "b = None"
          by (simp_all add: al5_alloc_dma_def)
        have "holds_res w1 (insert (Mem p) H - {Mem p})"
          unfolding r(1) by (rule kfree_law) (use h False in simp_all)
        moreover have "Mem p \<notin> H" using h(2) by auto
        ultimately show ?thesis using r k by simp
      qed
    qed
  qed
qed

lemma free_dma_law:
  assumes "holds_res w (dma_res b \<union> H)" "dma_res b \<inter> H = {}" "0 < buf_ptr b"
  shows "holds_res (al5_free_dma (Some b) w) H"
proof -
  have "holds_res (release (Dma (buf_ptr b)) w) (dma_res b \<union> H - {Dma (buf_ptr b)})"
    by (rule holds_release [OF assms(1)]) (simp add: dma_res_def)
  then have "holds_res (kfree (buf_ptr b) (release (Dma (buf_ptr b)) w)) (dma_res b \<union> H - {Dma (buf_ptr b)} - {Mem (buf_ptr b)})"
    by (rule kfree_law) (use assms(3) in \<open>auto simp: dma_res_def\<close>)
  moreover have "dma_res b \<union> H - {Dma (buf_ptr b)} - {Mem (buf_ptr b)} = H"
    using assms(2) by (auto simp: dma_res_def)
  ultimately show ?thesis by (simp add: al5_free_dma_def)
qed

lemma kalloc_cases [consumes 1, case_names null ptr]:
  assumes "holds_res w H"
  obtains w1 where "kalloc w = (0, w1)" "holds_res w1 H"
    | p w1 where "kalloc w = (p, w1)" "0 < p" "holds_res w1 (insert (Mem p) H)" "\<forall>r \<in> H. number r < p"
proof -
  obtain p w1 where k: "kalloc w = (p, w1)" by fastforce
  with kalloc_law [OF assms k] that show ?thesis by (cases "p = 0") auto
qed

lemma kcalloc_cases [consumes 1, case_names null ptr]:
  assumes "holds_res w H"
  obtains w1 where "kcalloc cnt w = (0, w1)" "holds_res w1 H"
    | p w1 where "kcalloc cnt w = (p, w1)" "0 < p" "holds_res w1 (insert (Mem p) H)" "\<forall>r \<in> H. number r < p"
proof (cases "int cnt < 2147483648")
  case True
  with assms that show ?thesis by (cases rule: kalloc_cases) (auto simp: kcalloc_def)
next
  case False
  with assms that show ?thesis by (auto simp: kcalloc_def)
qed

section \<open>Exported buffers\<close>

text \<open>What an export takes, and what belongs to an exported buffer, its memory included.\<close>

definition wrap_res :: "dma_buf \<Rightarrow> resource set" where
  "wrap_res d = {Mem (dinfo_ptr (dbuf_priv d)), DevRef (dinfo_ptr (dbuf_priv d)), Mem (sgt_base (dbuf_priv d)),
     DmaBuf (dbuf_id d)}"

definition unit_res :: "dma_buf \<Rightarrow> resource set" where
  "unit_res d = dma_res (dinfo_buffer (dbuf_priv d)) \<union> wrap_res d"

definition unit_ok :: "dma_buf \<Rightarrow> bool" where
  "unit_ok d \<longleftrightarrow> 0 < sgt_base (dbuf_priv d) \<and> 0 < dinfo_ptr (dbuf_priv d) \<and> 0 < buf_ptr (dinfo_buffer (dbuf_priv d))
     \<and> distinct [sgt_base (dbuf_priv d), dinfo_ptr (dbuf_priv d), buf_ptr (dinfo_buffer (dbuf_priv d))]"

text \<open>What a failed export leaves behind.\<close>

definition leaked :: "resource set \<Rightarrow> bool" where
  "leaked L \<longleftrightarrow> L = {} \<or> (\<exists>p. L = {Mem p, DevRef p}) \<or> (\<exists>p s. L = {Mem p, DevRef p, Mem s})"

lemma base_sgt_cases [consumes 1, case_names null ptr]:
  assumes "holds_res w H"
  obtains w1 where "al5_get_base_sgt w = (0, w1)" "holds_res w1 H"
    | p w1 where "al5_get_base_sgt w = (p, w1)" "0 < p" "holds_res w1 (insert (Mem p) H)" "\<forall>r \<in> H. number r < p"
  using assms
proof (cases rule: kalloc_cases)
  case (null w1)
  with that(1) show ?thesis by (simp add: al5_get_base_sgt_def)
next
  case (ptr p w1)
  show ?thesis
  proof (cases rule: answer_cases [of w1])
    case (1 a as)
    show ?thesis
    proof (cases a)
      case True
      with 1 ptr that(2) show ?thesis by (simp add: al5_get_base_sgt_def)
    next
      case False
      have "holds_res (kfree p (w1\<lparr>answers := as\<rparr>)) (insert (Mem p) H - {Mem p})"
        by (rule kfree_law) (use ptr in simp_all)
      moreover have "Mem p \<notin> H" using ptr(4) by auto
      ultimately show ?thesis using False 1 ptr that(1) by (simp add: al5_get_base_sgt_def)
    qed
  qed
qed

lemma get_dmabuf_cases [consumes 2, case_names null ptr]:
  assumes "holds_res w H" "0 < sgt_base di"
  obtains w1 where "al5_get_dmabuf di w = (None, di, w1)" "holds_res w1 H"
    | h w1 where "al5_get_dmabuf di w = (Some \<lparr>dbuf_id = h, dbuf_priv = di\<rparr>, di, w1)"
        "holds_res w1 (insert (DmaBuf h) H)" "DmaBuf h \<notin> H"
proof (cases rule: answer_cases [of w])
  case (1 a as)
  show ?thesis
  proof (cases a)
    case True
    obtain h w2 where h: "new_ptr (w\<lparr>answers := as\<rparr>) = (h, w2)" by fastforce
    have "holds_res (w\<lparr>answers := as\<rparr>) H" using assms(1) by simp
    note n = holds_new_ptr [OF this h]
    have "holds_res (acquire (DmaBuf h) w2) (insert (DmaBuf h) H)" by (rule holds_acquire) (use n in simp_all)
    moreover have "DmaBuf h \<notin> H" using n(5) by auto
    ultimately show ?thesis using that(2) 1 True h assms(2) by (simp add: al5_get_dmabuf_def)
  next
    case False
    with that(1) 1 assms show ?thesis by (simp add: al5_get_dmabuf_def)
  qed
qed

lemma wrap_law:
  assumes "holds_res w H" "al5_dmabuf_wrap b w = (r, w1)"
  shows "case r of
      Inl e \<Rightarrow> e < 0 \<and> (\<exists>L. leaked L \<and> holds_res w1 (L \<union> H) \<and> L \<inter> H = {})
    | Inr d \<Rightarrow> holds_res w1 (wrap_res d \<union> H) \<and> wrap_res d \<inter> H = {} \<and> dinfo_buffer (dbuf_priv d) = b
        \<and> 0 < dinfo_ptr (dbuf_priv d) \<and> dinfo_ptr (dbuf_priv d) < sgt_base (dbuf_priv d)"
  using assms(1)
proof (cases rule: kalloc_cases)
  case (null w2)
  with assms(2) show ?thesis by (auto simp: al5_dmabuf_wrap_def leaked_def ENOMEM_def intro!: exI [of _ "{}"])
next
  case (ptr p w2)
  let ?H = "insert (DevRef p) (insert (Mem p) H)"
  let ?di = "\<lambda>s. \<lparr>dinfo_ptr = p, dinfo_buffer = b, sgt_base = s\<rparr>"
  have p: "Mem p \<notin> H" "DevRef p \<notin> H" using ptr(4) by auto
  then have leak: "leaked {Mem p, DevRef p}" "?H = {Mem p, DevRef p} \<union> H" "{Mem p, DevRef p} \<inter> H = {}"
    by (auto simp: leaked_def)
  have "holds_res (acquire (DevRef p) w2) ?H"
    by (rule holds_acquire) (use ptr in \<open>simp_all add: holds_res_def\<close>)
  then show ?thesis
  proof (cases rule: base_sgt_cases)
    case n1: (null w3)
    from n1(2) show ?thesis
    proof (cases rule: base_sgt_cases)
      case (null w4)
      then have "al5_get_dmabuf (?di 0) w3 = (None, ?di 0, w4)" by (simp add: al5_get_dmabuf_def)
      with assms(2) ptr n1 have "r = Inl (- EINVAL)" "w1 = w4" by (simp_all add: al5_dmabuf_wrap_def)
      with null leak show ?thesis by (auto simp: EINVAL_def intro!: exI [of _ "{Mem p, DevRef p}"])
    next
      case s: (ptr s w4)
      have pos: "0 < sgt_base (?di s)" using s by simp
      have eq: "al5_get_dmabuf (?di 0) w3 = al5_get_dmabuf (?di s) w4" using s by (simp add: al5_get_dmabuf_def)
      have sn: "Mem s \<notin> H" "p < s" using s(4) by auto
      from s(3) pos show ?thesis
      proof (cases rule: get_dmabuf_cases)
        case (null w5)
        with assms(2) ptr n1 eq have "r = Inl (- EINVAL)" "w1 = w5" by (simp_all add: al5_dmabuf_wrap_def)
        moreover have "insert (Mem s) ?H = {Mem p, DevRef p, Mem s} \<union> H" by auto
        ultimately show ?thesis using null p sn
          by (auto simp: EINVAL_def leaked_def intro!: exI [of _ "{Mem p, DevRef p, Mem s}"])
      next
        case d: (ptr h w5)
        with assms(2) ptr n1 eq have "r = Inr \<lparr>dbuf_id = h, dbuf_priv = ?di s\<rparr>" "w1 = w5"
          by (simp_all add: al5_dmabuf_wrap_def)
        moreover have "insert (DmaBuf h) (insert (Mem s) ?H) = {Mem p, DevRef p, Mem s, DmaBuf h} \<union> H" by auto
        ultimately show ?thesis using d p sn ptr(2) by (auto simp: wrap_res_def)
      qed
    qed
  next
    case s: (ptr s w3)
    have pos: "0 < sgt_base (?di s)" using s by simp
    have sn: "Mem s \<notin> H" "p < s" using s(4) by auto
    from s(3) pos show ?thesis
    proof (cases rule: get_dmabuf_cases)
      case (null w5)
      with assms(2) ptr s have "r = Inl (- EINVAL)" "w1 = w5" by (simp_all add: al5_dmabuf_wrap_def)
      moreover have "insert (Mem s) ?H = {Mem p, DevRef p, Mem s} \<union> H" by auto
      ultimately show ?thesis using null p sn
        by (auto simp: EINVAL_def leaked_def intro!: exI [of _ "{Mem p, DevRef p, Mem s}"])
    next
      case d: (ptr h w5)
      with assms(2) ptr s have "r = Inr \<lparr>dbuf_id = h, dbuf_priv = ?di s\<rparr>" "w1 = w5"
        by (simp_all add: al5_dmabuf_wrap_def)
      moreover have "insert (DmaBuf h) (insert (Mem s) ?H) = {Mem p, DevRef p, Mem s, DmaBuf h} \<union> H" by auto
      ultimately show ?thesis using d p sn ptr(2) by (auto simp: wrap_res_def)
    qed
  qed
qed

text \<open>Giving the last reference back frees the export and the memory of the buffer.\<close>

lemma put_law:
  assumes "holds_res w (unit_res d \<union> H)" "unit_res d \<inter> H = {}" "unit_ok d"
  shows "holds_res (dma_buf_put d w) H"
proof -
  let ?s = "sgt_base (dbuf_priv d)" and ?i = "dinfo_ptr (dbuf_priv d)" and ?b = "buf_ptr (dinfo_buffer (dbuf_priv d))"
  let ?A = "unit_res d \<union> H"
  have pos: "0 < ?s" "0 < ?i" "0 < ?b" and dis: "?s \<noteq> ?i" "?s \<noteq> ?b" "?i \<noteq> ?b"
    using assms(3) by (auto simp: unit_ok_def)
  have o: "\<not> others w (dbuf_id d)" using assms(1) by (simp add: holds_res_def)
  let ?w1 = "release (DmaBuf (dbuf_id d)) w"
  have "holds_res ?w1 (?A - {DmaBuf (dbuf_id d)})"
    by (rule holds_release [OF assms(1)]) (simp add: unit_res_def wrap_res_def)
  then have "holds_res (kfree ?s ?w1) (?A - {DmaBuf (dbuf_id d)} - {Mem ?s})"
    by (rule kfree_law) (use pos in \<open>simp_all add: unit_res_def wrap_res_def\<close>)
  then have "holds_res (release (Dma ?b) (kfree ?s ?w1)) (?A - {DmaBuf (dbuf_id d)} - {Mem ?s} - {Dma ?b})"
    by (rule holds_release) (simp add: unit_res_def dma_res_def)
  then have "holds_res (release (DevRef ?i) (release (Dma ?b) (kfree ?s ?w1)))
      (?A - {DmaBuf (dbuf_id d)} - {Mem ?s} - {Dma ?b} - {DevRef ?i})"
    by (rule holds_release) (simp add: unit_res_def wrap_res_def)
  then have "holds_res (kfree ?b (release (DevRef ?i) (release (Dma ?b) (kfree ?s ?w1))))
      (?A - {DmaBuf (dbuf_id d)} - {Mem ?s} - {Dma ?b} - {DevRef ?i} - {Mem ?b})"
    by (rule kfree_law) (use pos dis in \<open>auto simp: unit_res_def dma_res_def\<close>)
  then have "holds_res (kfree ?i (kfree ?b (release (DevRef ?i) (release (Dma ?b) (kfree ?s ?w1)))))
      (?A - {DmaBuf (dbuf_id d)} - {Mem ?s} - {Dma ?b} - {DevRef ?i} - {Mem ?b} - {Mem ?i})"
    by (rule kfree_law) (use pos dis in \<open>auto simp: unit_res_def wrap_res_def\<close>)
  moreover have "?A - {DmaBuf (dbuf_id d)} - {Mem ?s} - {Dma ?b} - {DevRef ?i} - {Mem ?b} - {Mem ?i} = H"
    using assms(2) by (auto simp: unit_res_def wrap_res_def dma_res_def)
  ultimately show ?thesis using o pos by (simp add: dma_buf_put_def al5_dmabuf_release_def Let_def)
qed

section \<open>The pool\<close>

definition units_res :: "dma_buf list \<Rightarrow> resource set" where
  "units_res ds = (\<Union>d \<in> set ds. unit_res d)"

fun units_ok :: "dma_buf list \<Rightarrow> bool" where
  "units_ok [] = True"
| "units_ok (d # ds) = (unit_ok d \<and> unit_res d \<inter> units_res ds = {} \<and> units_ok ds)"

lemma units_res_simps [simp]:
  "units_res [] = {}" "units_res (d # ds) = unit_res d \<union> units_res ds" "units_res (ds @ es) = units_res ds \<union> units_res es"
  by (auto simp: units_res_def)

lemma units_ok_snoc: "units_ok (ds @ [d]) = (units_ok ds \<and> unit_ok d \<and> units_res ds \<inter> unit_res d = {})"
  by (induction ds) auto

text \<open>The pool holds the exported buffers \<open>ds\<close>; its arrays have room for \<open>cnt\<close>.\<close>

definition pool_has :: "nat \<Rightarrow> dma_buf list \<Rightarrow> al5_buffers_pool \<Rightarrow> bool" where
  "pool_has cnt ds pool \<longleftrightarrow> pool_count pool = length ds \<and> length ds \<le> cnt
     \<and> handle_arr pool = map Some ds @ replicate (cnt - length ds) None
     \<and> length (buf_arr pool) = cnt \<and> take (length ds) (buf_arr pool) = map (\<lambda>d. Some (dinfo_buffer (dbuf_priv d))) ds"

definition arrays_res :: "al5_buffers_pool \<Rightarrow> resource set" where
  "arrays_res pool = {Mem (buffers pool), Mem (handles pool)}"

definition arrays_ok :: "al5_buffers_pool \<Rightarrow> bool" where
  "arrays_ok pool \<longleftrightarrow> 0 < buffers pool \<and> 0 < handles pool \<and> buffers pool \<noteq> handles pool"

lemma put_handles_law:
  "holds_res w (units_res ds \<union> H) \<Longrightarrow> units_ok ds \<Longrightarrow> units_res ds \<inter> H = {} \<Longrightarrow>
   \<exists>w1. put_handles (map Some ds) w = Some w1 \<and> holds_res w1 H"
proof (induction ds arbitrary: w)
  case (Cons d ds)
  have "holds_res (dma_buf_put d w) (units_res ds \<union> H)"
    by (rule put_law) (use Cons.prems in \<open>auto simp: Un_assoc\<close>)
  from Cons.IH [OF this] Cons.prems show ?case by auto
qed simp

lemma bufpool_free_law:
  assumes "holds_res w (units_res ds \<union> (arrays_res pool \<union> H))" "units_ok ds" "pool_has cnt ds pool" "arrays_ok pool"
    "units_res ds \<inter> (arrays_res pool \<union> H) = {}" "arrays_res pool \<inter> H = {}"
  shows "\<exists>w1. al5_bufpool_free pool w = Some (al5_bufpool_init, w1) \<and> holds_res w1 H"
proof -
  have t: "take (pool_count pool) (handle_arr pool) = map Some ds" "length (handle_arr pool) = cnt" "pool_count pool \<le> cnt"
    using assms(3) by (simp_all add: pool_has_def)
  from put_handles_law [OF assms(1,2,5)] obtain w1 where
    w1: "put_handles (map Some ds) w = Some w1" "holds_res w1 (arrays_res pool \<union> H)" by auto
  from w1(2) have "holds_res (kfree (buffers pool) w1) (arrays_res pool \<union> H - {Mem (buffers pool)})"
    by (rule kfree_law) (use assms(4) in \<open>auto simp: arrays_res_def arrays_ok_def\<close>)
  then have "holds_res (kfree (handles pool) (kfree (buffers pool) w1))
      (arrays_res pool \<union> H - {Mem (buffers pool)} - {Mem (handles pool)})"
    by (rule kfree_law) (use assms(4) in \<open>auto simp: arrays_res_def arrays_ok_def\<close>)
  moreover have "arrays_res pool \<union> H - {Mem (buffers pool)} - {Mem (handles pool)} = H"
    using assms(6) by (auto simp: arrays_res_def)
  ultimately show ?thesis using w1(1) t by (simp add: al5_bufpool_free_def)
qed

text \<open>One buffer more.\<close>

lemma allocate_loop_law:
  assumes "holds_res w (units_res ds \<union> H)" "units_ok ds" "units_res ds \<inter> H = {}" "pool_has cnt ds pool"
    "length ds + k = cnt" "allocate_loop k sz pool w = (ok, pool1, w1)"
  shows "\<exists>ds1 L. buffers pool1 = buffers pool \<and> handles pool1 = handles pool \<and> pool_has cnt ds1 pool1 \<and> units_ok ds1
     \<and> leaked L \<and> holds_res w1 (units_res ds1 \<union> (L \<union> H)) \<and> units_res ds1 \<inter> (L \<union> H) = {} \<and> L \<inter> H = {}
     \<and> (ok \<longrightarrow> L = {} \<and> length ds1 = cnt \<and> (\<forall>d \<in> set ds1. d \<in> set ds \<or> buf_size (dinfo_buffer (dbuf_priv d)) = sz))"
  using assms
proof (induction k arbitrary: ds pool w)
  case 0
  then show ?case by (auto simp: leaked_def intro!: exI [of _ ds])
next
  case (Suc k)
  let ?G = "units_res ds \<union> H" and ?i = "pool_count pool"
  have i: "?i = length ds" "length ds < cnt" using Suc.prems by (simp_all add: pool_has_def)
  obtain b w2 where b: "al5_alloc_dma sz w = (b, w2)" by fastforce
  note a = alloc_dma_law [OF Suc.prems(1) b]
  let ?p = "pool\<lparr>buf_arr := (buf_arr pool)[?i := b]\<rparr>"
  have has: "pool_has cnt ds ?p" using Suc.prems(4) by (simp add: pool_has_def)
  show ?case
  proof (cases b)
    case None
    with a b Suc.prems has show ?thesis
      by (auto simp: leaked_def intro!: exI [of _ ds] exI [of _ "{}"])
  next
    case (Some buf)
    with a have h2: "holds_res w2 (dma_res buf \<union> ?G)" "dma_res buf \<inter> ?G = {}" "0 < buf_ptr buf" "buf_size buf = sz"
      by auto
    obtain h w3 where h: "al5_dmabuf_wrap buf w2 = (h, w3)" by fastforce
    note w = wrap_law [OF h2(1) h]
    show ?thesis
    proof (cases h)
      case (Inl e)
      with w obtain L where L: "leaked L" "holds_res w3 (L \<union> (dma_res buf \<union> ?G))" "L \<inter> (dma_res buf \<union> ?G) = {}" by auto
      have "L \<union> (dma_res buf \<union> ?G) = dma_res buf \<union> (units_res ds \<union> (L \<union> H))" by auto
      with L(2) have "holds_res w3 (dma_res buf \<union> (units_res ds \<union> (L \<union> H)))" by simp
      from free_dma_law [OF this _ h2(3)] L(3) h2(2)
      have "holds_res (al5_free_dma (Some buf) w3) (units_res ds \<union> (L \<union> H))" by auto
      moreover have "ok = False" "pool1 = ?p" "w1 = al5_free_dma (Some buf) w3"
        using Suc.prems(6) b h Some Inl by simp_all
      ultimately show ?thesis using L has Suc.prems(2,3) by (intro exI [of _ ds] exI [of _ L]) auto
    next
      case (Inr d)
      let ?p2 = "?p\<lparr>handle_arr := (handle_arr ?p)[?i := Some d], pool_count := ?i + 1\<rparr>"
      from w Inr have d: "holds_res w3 (wrap_res d \<union> (dma_res buf \<union> ?G))" "wrap_res d \<inter> (dma_res buf \<union> ?G) = {}"
        "dinfo_buffer (dbuf_priv d) = buf" "0 < dinfo_ptr (dbuf_priv d)" "dinfo_ptr (dbuf_priv d) < sgt_base (dbuf_priv d)"
        by auto
      have u: "unit_res d = wrap_res d \<union> dma_res buf" using d(3) by (auto simp: unit_res_def)
      have "buf_ptr buf \<noteq> dinfo_ptr (dbuf_priv d) \<and> buf_ptr buf \<noteq> sgt_base (dbuf_priv d)"
        using d(2) by (auto simp: wrap_res_def dma_res_def)
      then have ok: "unit_ok d" using d(3-5) h2(3) by (auto simp: unit_ok_def)
      have "units_res (ds @ [d]) \<union> H = wrap_res d \<union> (dma_res buf \<union> ?G)" using u by auto
      with d(1) have 1: "holds_res w3 (units_res (ds @ [d]) \<union> H)" by simp
      have 2: "units_ok (ds @ [d])" using Suc.prems(2) ok u d(2) h2(2) by (auto simp: units_ok_snoc)
      have 3: "units_res (ds @ [d]) \<inter> H = {}" using Suc.prems(3) u d(2) h2(2) by auto
      have r: "replicate (cnt - length ds) None = None # replicate (cnt - length (ds @ [d])) None"
        using i(2) by (metis Suc_diff_Suc length_append_singleton replicate_Suc)
      have "take (Suc (length ds)) ((buf_arr pool)[length ds := b]) = take (length ds) (buf_arr pool) @ [b]"
        using Suc.prems(4) i by (simp add: pool_has_def take_Suc_conv_app_nth)
      moreover have "(map Some ds @ replicate (cnt - length ds) None)[length ds := Some d]
          = map Some (ds @ [d]) @ replicate (cnt - length (ds @ [d])) None"
        unfolding r using list_update_length [of "map Some ds"] by simp
      ultimately have 4: "pool_has cnt (ds @ [d]) ?p2"
        using Suc.prems(4) i d(3) Some by (simp add: pool_has_def)
      have 5: "length (ds @ [d]) + k = cnt" using Suc.prems(5) by simp
      have "allocate_loop k sz ?p2 w3 = (ok, pool1, w1)" using Suc.prems(6) b h Some Inr by (simp add: Let_def)
      from Suc.IH [OF 1 2 3 4 5 this] obtain ds1 L where
        x: "buffers pool1 = buffers ?p2 \<and> handles pool1 = handles ?p2 \<and> pool_has cnt ds1 pool1 \<and> units_ok ds1
         \<and> leaked L \<and> holds_res w1 (units_res ds1 \<union> (L \<union> H)) \<and> units_res ds1 \<inter> (L \<union> H) = {} \<and> L \<inter> H = {}
         \<and> (ok \<longrightarrow> L = {} \<and> length ds1 = cnt \<and> (\<forall>e \<in> set ds1. e \<in> set (ds @ [d]) \<or> buf_size (dinfo_buffer (dbuf_priv e)) = sz))"
        by (elim exE) (rule that)
      show ?thesis by (rule exI [of _ ds1], rule exI [of _ L]) (use x d(3) h2(4) in auto)
    qed
  qed
qed

text \<open>What a pool with the buffers \<open>ds\<close> holds.\<close>

definition pool_res :: "dma_buf list \<Rightarrow> al5_buffers_pool \<Rightarrow> resource set" where
  "pool_res ds pool = units_res ds \<union> arrays_res pool"

definition pool_ok :: "nat \<Rightarrow> u32 \<Rightarrow> dma_buf list \<Rightarrow> al5_buffers_pool \<Rightarrow> bool" where
  "pool_ok cnt sz ds pool \<longleftrightarrow> length ds = cnt \<and> pool_has cnt ds pool \<and> arrays_ok pool \<and> units_ok ds
     \<and> units_res ds \<inter> arrays_res pool = {} \<and> (\<forall>d \<in> set ds. buf_size (dinfo_buffer (dbuf_priv d)) = sz)"

lemma bufpool_free_ok:
  assumes "holds_res w (pool_res ds pool \<union> H)" "pool_ok cnt sz ds pool" "pool_res ds pool \<inter> H = {}"
  shows "\<exists>w1. al5_bufpool_free pool w = Some (al5_bufpool_init, w1) \<and> holds_res w1 H"
  by (rule bufpool_free_law [where ds = ds and cnt = cnt])
    (use assms in \<open>auto simp: pool_res_def pool_ok_def Un_assoc\<close>)

lemma bufpool_init_simps [simp]:
  "pool_count al5_bufpool_init = 0" "buffers al5_bufpool_init = 0" "handles al5_bufpool_init = 0"
  by (simp_all add: al5_bufpool_init_def)

lemma bufpool_free_init: "al5_bufpool_free al5_bufpool_init w = Some (al5_bufpool_init, w)"
  by (simp add: al5_bufpool_free_def al5_bufpool_init_def)

lemma bufpool_allocate_cases [consumes 1, case_names made second_array failed]:
  assumes "holds_res w H"
  obtains ds pool1 w1 where "al5_bufpool_allocate pool cnt sz w = Some (0, pool1, w1)" "pool_ok cnt sz ds pool1"
      "holds_res w1 (pool_res ds pool1 \<union> H)" "pool_res ds pool1 \<inter> H = {}"
    | p w1 w2 pool1 where "kcalloc cnt w = (p, w1)" "0 < p" "kcalloc cnt w1 = (0, w2)"
        "al5_bufpool_allocate pool cnt sz w = Some (- ENOMEM, pool1, kfree p w2)" "holds_res (kfree p w2) H"
        "Mem p \<notin> H" "pool_count pool1 = 0" "buffers pool1 = p"
    | L pool1 w1 where "al5_bufpool_allocate pool cnt sz w = Some (- ENOMEM, pool1, w1)" "leaked L" "L \<inter> H = {}"
        "holds_res w1 (L \<union> H)" "pool_count pool1 = 0" "buffers pool1 = 0"
        "pool1 = al5_bufpool_init \<or> handles pool1 = handles pool"
  using assms
proof (cases rule: kcalloc_cases [where cnt = cnt])
  case (null w1)
  then show ?thesis using that(3) [of _ w1 "{}"] by (simp add: al5_bufpool_allocate_def leaked_def)
next
  case b: (ptr p w1)
  let ?p1 = "pool\<lparr>pool_count := 0, buffers := p, buf_arr := replicate cnt None\<rparr>"
  have bn: "Mem p \<notin> H" using b(4) by auto
  from b(3) show ?thesis
  proof (cases rule: kcalloc_cases [where cnt = cnt])
    case (null w2)
    have "holds_res (kfree p w2) (insert (Mem p) H - {Mem p})" by (rule kfree_law) (use null b in simp_all)
    with bn have "holds_res (kfree p w2) H" by simp
    with b null bn show ?thesis
      by (intro that(2) [of p w1 w2 "?p1\<lparr>handles := 0, handle_arr := replicate cnt None\<rparr>"])
        (simp_all add: al5_bufpool_allocate_def)
  next
    case h: (ptr q w2)
    let ?p2 = "?p1\<lparr>handles := q, handle_arr := replicate cnt None\<rparr>"
    have qn: "Mem q \<notin> H" "p < q" using h(4) by auto
    let ?G = "{Mem p, Mem q} \<union> H"
    have "holds_res w2 (units_res [] \<union> ?G)" using h(3) by (simp add: insert_commute)
    moreover have "pool_has cnt [] ?p2" by (simp add: pool_has_def)
    moreover obtain ok p3 w3 where l: "allocate_loop cnt sz ?p2 w2 = (ok, p3, w3)" by (metis prod_cases3)
    ultimately obtain ds L where ds: "buffers p3 = p" "handles p3 = q" "pool_has cnt ds p3" "units_ok ds" "leaked L"
      "holds_res w3 (units_res ds \<union> (L \<union> ?G))" "units_res ds \<inter> (L \<union> ?G) = {}" "L \<inter> ?G = {}"
      "ok \<longrightarrow> L = {} \<and> length ds = cnt \<and> (\<forall>d \<in> set ds. buf_size (dinfo_buffer (dbuf_priv d)) = sz)"
      using allocate_loop_law [of w2 "[]" ?G cnt ?p2 cnt sz ok p3 w3] by fastforce
    have arr: "arrays_res p3 = {Mem p, Mem q}" "arrays_ok p3" using ds(1,2) b h qn by (simp_all add: arrays_res_def arrays_ok_def)
    show ?thesis
    proof (cases ok)
      case True
      have "pool_res ds p3 \<union> H = units_res ds \<union> (L \<union> ?G)" using True ds(9) arr by (auto simp: pool_res_def)
      with ds(6) have "holds_res w3 (pool_res ds p3 \<union> H)" by simp
      moreover have "pool_ok cnt sz ds p3" using True ds arr by (auto simp: pool_ok_def)
      moreover have "pool_res ds p3 \<inter> H = {}" using ds(7) bn qn arr by (auto simp: pool_res_def)
      moreover have "al5_bufpool_allocate pool cnt sz w = Some (0, p3, w3)"
        using b h l True by (simp add: al5_bufpool_allocate_def)
      ultimately show ?thesis by (intro that(1))
    next
      case False
      have "units_res ds \<union> (L \<union> ?G) = units_res ds \<union> (arrays_res p3 \<union> (L \<union> H))" using arr by auto
      with ds(6) have "holds_res w3 (units_res ds \<union> (arrays_res p3 \<union> (L \<union> H)))" by simp
      then have "\<exists>w4. al5_bufpool_free p3 w3 = Some (al5_bufpool_init, w4) \<and> holds_res w4 (L \<union> H)"
        by (rule bufpool_free_law) (use ds arr bn qn in auto)
      then obtain w4 where f: "al5_bufpool_free p3 w3 = Some (al5_bufpool_init, w4)" "holds_res w4 (L \<union> H)" by blast
      moreover have "al5_bufpool_allocate pool cnt sz w = Some (- ENOMEM, al5_bufpool_init, w4)"
        using b h l False f by (simp add: al5_bufpool_allocate_def)
      moreover have "L \<inter> H = {}" using ds(8) by auto
      ultimately show ?thesis using ds(5) by (intro that(3) [of al5_bufpool_init w4 L]) simp_all
    qed
  qed
qed

section \<open>Properties\<close>

definition fresh_world :: "bool list \<Rightarrow> kworld" where
  "fresh_world as = \<lparr>answers = as, trace = [], next_ptr = 1, bus = of_nat,
     fd_info = (\<lambda>_. (0, \<lparr>bus_address = 0, info_size = 0\<rparr>)), others = (\<lambda>_. False)\<rparr>"

lemma fresh_world_holds: "holds_res (fresh_world as) {}"
  by (simp add: fresh_world_def holds_res_def)

text \<open>C13: whatever the kernel answers, al5_bufpool_allocate returns 0 with all the buffers made, each of the size
  asked for, all of which al5_bufpool_free gives back, or it returns -ENOMEM having given back everything but what
  the failed export of one buffer leaks: its private structure with the reference to the device, and its table.\<close>

theorem bufpool_allocate_all_or_nothing:
  assumes "holds_res w H"
  shows "\<exists>r pool1 w1. al5_bufpool_allocate pool cnt sz w = Some (r, pool1, w1) \<and>
     (r = 0 \<and> (\<exists>ds w2. length ds = cnt \<and> (\<forall>i < cnt. handle_arr pool1 ! i = Some (ds ! i)
              \<and> buf_arr pool1 ! i = Some (dinfo_buffer (dbuf_priv (ds ! i))) \<and> buf_size (dinfo_buffer (dbuf_priv (ds ! i))) = sz)
            \<and> pool_count pool1 = cnt \<and> holds_res w1 (pool_res ds pool1 \<union> H)
            \<and> al5_bufpool_free pool1 w1 = Some (al5_bufpool_init, w2) \<and> holds_res w2 H)
      \<or> r = - ENOMEM \<and> pool_count pool1 = 0 \<and> (\<exists>L. leaked L \<and> L \<inter> H = {} \<and> holds_res w1 (L \<union> H)))"
  using assms
proof (cases rule: bufpool_allocate_cases [of w H pool cnt sz])
  case (made ds pool1 w1)
  obtain w2 where "al5_bufpool_free pool1 w1 = Some (al5_bufpool_init, w2)" "holds_res w2 H"
    using bufpool_free_ok [OF made(3,2,4)] by auto
  moreover have "handle_arr pool1 ! i = Some (ds ! i) \<and> buf_arr pool1 ! i = Some (dinfo_buffer (dbuf_priv (ds ! i)))
      \<and> buf_size (dinfo_buffer (dbuf_priv (ds ! i))) = sz" if "i < cnt" for i
  proof -
    have e: "take cnt (buf_arr pool1) = map (\<lambda>d. Some (dinfo_buffer (dbuf_priv d))) ds" "length ds = cnt"
      using made(2) by (auto simp: pool_ok_def pool_has_def)
    have "buf_arr pool1 ! i = map (\<lambda>d. Some (dinfo_buffer (dbuf_priv d))) ds ! i"
      unfolding e(1) [symmetric] using that by simp
    then have "buf_arr pool1 ! i = Some (dinfo_buffer (dbuf_priv (ds ! i)))" using that e(2) by simp
    with made(2) e(2) show ?thesis using that by (simp add: pool_ok_def pool_has_def nth_append)
  qed
  moreover have "length ds = cnt" "pool_count pool1 = cnt" using made(2) by (simp_all add: pool_ok_def pool_has_def)
  ultimately show ?thesis using made(1,3) by blast
next
  case (second_array p w1 w2 pool1)
  then show ?thesis by (intro exI conjI disjI2) (auto simp: leaked_def intro!: exI [of _ "{}"])
next
  case (failed L pool1 w1)
  then show ?thesis by blast
qed

lemma bufpool_allocate_all_or_nothing_witness:
  "\<exists>r pool1 w1. al5_bufpool_allocate al5_bufpool_init 3 (4096 :: u32) (fresh_world [True, True, True, False]) = Some (r, pool1, w1) \<and>
     (r = 0 \<or> (\<exists>L. leaked L \<and> holds_res w1 L))"
  using bufpool_allocate_all_or_nothing [OF fresh_world_holds, of al5_bufpool_init 3 4096 "[True, True, True, False]"]
  by auto

end
