(* ===== verification/KUser.thy ===== *)
theory KUser imports KMem MailQueue Mailbox begin

text \<open>
  vcu-modules/common/al_user.c: a user is one opening of the device file; it owns the queues of the mails
  the MCU sends it, the locks of its operations and, for the encoder, the pools of its channel.

  A call runs in one thread; what the rest of the system does meanwhile is a parameter.  \<open>sleeps\<close> has, for
  every wait for a mail, the mails that are delivered to the user until it ends and the result of the wait (a
  signal when there is no entry left); an interruptible wait for a lock asks \<open>answers\<close> whether it got the lock.
  The locks of the model are those the calling thread holds, so a second lock of one of them is a deadlock
  (\<open>None\<close>), and so is the unlock of one it does not hold.  Mails are allocated by \<open>km\<close>, which may answer
  differently at each of the \<open>mails_made\<close>.
\<close>

record kdev = kworld +
  km :: "nat \<Rightarrow> kmalloc"
  mails_made :: nat
  mcu :: mcu_mailbox_interface
  sleeps :: "(al5_mail list \<times> int) list"

definition next_km :: "kdev \<Rightarrow> kmalloc \<times> kdev" where
  "next_km w = (km w (mails_made w), w\<lparr>mails_made := mails_made w + 1\<rparr>)"

definition EFAULT :: int where "EFAULT = 14"

section \<open>The user\<close>

definition AL5_USER_MAIL_INIT :: nat where "AL5_USER_MAIL_INIT = 0"
definition AL5_USER_MAIL_CREATE :: nat where "AL5_USER_MAIL_CREATE = 1"
definition AL5_USER_MAIL_DESTROY :: nat where "AL5_USER_MAIL_DESTROY = 2"
definition AL5_USER_MAIL_STATUS :: nat where "AL5_USER_MAIL_STATUS = 3"
definition AL5_USER_MAIL_SC :: nat where "AL5_USER_MAIL_SC = 4"
definition AL5_USER_MAIL_DEBUG :: nat where "AL5_USER_MAIL_DEBUG = 5"
definition AL5_USER_MAIL_REC :: nat where "AL5_USER_MAIL_REC = 6"
definition AL5_USER_MAIL_NUMBER :: nat where "AL5_USER_MAIL_NUMBER = 7"

definition AL5_USER_INIT :: nat where "AL5_USER_INIT = 0"
definition AL5_USER_CREATE :: nat where "AL5_USER_CREATE = 1"
definition AL5_USER_DESTROY :: nat where "AL5_USER_DESTROY = 2"
definition AL5_USER_XCODE :: nat where "AL5_USER_XCODE = 3"
definition AL5_USER_STATUS :: nat where "AL5_USER_STATUS = 4"
definition AL5_USER_SC :: nat where "AL5_USER_SC = 5"
definition AL5_USER_DEBUG :: nat where "AL5_USER_DEBUG = 6"
definition AL5_USER_REC :: nat where "AL5_USER_REC = 7"
definition AL5_USER_OPS_NUMBER :: nat where "AL5_USER_OPS_NUMBER = 8"

lemmas user_mails = AL5_USER_MAIL_INIT_def AL5_USER_MAIL_CREATE_def AL5_USER_MAIL_DESTROY_def AL5_USER_MAIL_STATUS_def
  AL5_USER_MAIL_SC_def AL5_USER_MAIL_DEBUG_def AL5_USER_MAIL_REC_def AL5_USER_MAIL_NUMBER_def

lemmas user_ops = AL5_USER_INIT_def AL5_USER_CREATE_def AL5_USER_DESTROY_def AL5_USER_XCODE_def AL5_USER_STATUS_def
  AL5_USER_SC_def AL5_USER_DEBUG_def AL5_USER_REC_def AL5_USER_OPS_NUMBER_def

definition NO_CHECKPOINT :: int where "NO_CHECKPOINT = - 1"
definition BAD_CHAN :: u32 where "BAD_CHAN = 0xff"

record al5_user =
  user_uid :: int
  chan_uid :: u32
  checkpoint :: int
  queues :: "al5_mail al5_queue list"
  locks :: "bool list"
  int_buffers :: al5_buffers_pool
  rec_buffers :: al5_buffers_pool

definition mail_to_queue :: "u32 \<Rightarrow> nat" where
  "mail_to_queue mail_uid =
     (if mail_uid = AL_MCU_MSG_INIT then AL5_USER_MAIL_INIT
      else if mail_uid = AL_MCU_MSG_CREATE_CHANNEL then AL5_USER_MAIL_CREATE
      else if mail_uid = AL_MCU_MSG_DESTROY_CHANNEL then AL5_USER_MAIL_DESTROY
      else if mail_uid = AL_MCU_MSG_ENCODE_ONE_FRM \<or> mail_uid = AL_MCU_MSG_DECODE_ONE_FRM then AL5_USER_MAIL_STATUS
      else if mail_uid = AL_MCU_MSG_SEARCH_START_CODE then AL5_USER_MAIL_SC
      else if mail_uid = AL_MCU_MSG_GET_RECONSTRUCTED_PICTURE \<or> mail_uid = AL_MCU_MSG_RELEASE_RECONSTRUCTED_PICTURE
      then AL5_USER_MAIL_REC
      else AL5_USER_MAIL_DEBUG)"

definition on_queue :: "nat \<Rightarrow> (al5_mail al5_queue \<Rightarrow> al5_mail al5_queue) \<Rightarrow> al5_user \<Rightarrow> al5_user" where
  "on_queue i f user = user\<lparr>queues := (queues user)[i := f (queues user ! i)]\<rparr>"

section \<open>Sending\<close>

definition send_msg :: "al5_mail \<Rightarrow> kdev \<Rightarrow> (int \<times> kdev) option" where
  "send_msg mail w =
     do { (err, m) \<leftarrow> al5_mcu_send (mcu w) mail;
          Some (if err \<noteq> 0 then (err, w\<lparr>mcu := m\<rparr>) else (0, w\<lparr>mcu := al5_signal_mcu m\<rparr>)) }"

text \<open>The mail is freed whatever the result.\<close>

definition al5_check_and_send :: "al5_mail option \<Rightarrow> kdev \<Rightarrow> (int \<times> kdev) option" where
  "al5_check_and_send mail w =
     (case mail of
        None \<Rightarrow> Some (- ENOMEM, w)
      | Some m \<Rightarrow> do { (err, w1) \<leftarrow> send_msg m w; Some (if err \<noteq> 0 then (err, w1) else (0, w1)) })"

section \<open>Receiving\<close>

definition al5_user_deliver :: "bool \<Rightarrow> al5_mail \<Rightarrow> al5_user \<Rightarrow> int \<times> al5_user" where
  "al5_user_deliver alloc mail user =
     (let i = mail_to_queue (al5_mail_get_uid mail);
          (err, q) = al5_queue_push alloc (queues user ! i) mail
      in (err, user\<lparr>queues := (queues user)[i := q]\<rparr>))"

text \<open>A wait: the mails delivered meanwhile, and its result.\<close>

definition sleep :: "al5_user \<Rightarrow> kdev \<Rightarrow> int \<times> al5_user \<times> kdev" where
  "sleep user w =
     (case sleeps w of
        [] \<Rightarrow> (- ERESTARTSYS, user, w)
      | (ms, res) # ss \<Rightarrow> (res, fold (\<lambda>m u. snd (al5_user_deliver True m u)) ms user, w\<lparr>sleeps := ss\<rparr>))"

definition user_pop :: "nat \<Rightarrow> al5_user \<Rightarrow> kdev \<Rightarrow> al5_mail option \<times> al5_user \<times> kdev" where
  "user_pop i user w =
     (let (user1, w1) = (if mail_is_available (queues user ! i) then (user, w) else snd (sleep user w));
          (mail, q) = al5_queue_pop (queues user1 ! i)
      in (mail, user1\<lparr>queues := (queues user1)[i := q]\<rparr>, w1))"

definition user_pop_timeout :: "nat \<Rightarrow> al5_user \<Rightarrow> kdev \<Rightarrow> int \<times> al5_mail option \<times> al5_user \<times> kdev" where
  "user_pop_timeout i user w =
     (let (res, user1, w1) = (if mail_is_available (queues user ! i) then (1, user, w) else sleep user w);
          (err, mail, q) = al5_queue_pop_timeout res (queues user1 ! i)
      in (err, mail, user1\<lparr>queues := (queues user1)[i := q]\<rparr>, w1))"

definition user_queues_unlock :: "al5_user \<Rightarrow> al5_user" where
  "user_queues_unlock user =
     on_queue AL5_USER_MAIL_REC al5_queue_unlock (on_queue AL5_USER_MAIL_CREATE al5_queue_unlock
       (on_queue AL5_USER_MAIL_SC al5_queue_unlock (on_queue AL5_USER_MAIL_STATUS al5_queue_unlock user)))"

definition user_queues_lock :: "al5_user \<Rightarrow> al5_user" where
  "user_queues_lock user =
     on_queue AL5_USER_MAIL_REC al5_queue_lock (on_queue AL5_USER_MAIL_CREATE al5_queue_lock
       (on_queue AL5_USER_MAIL_SC al5_queue_lock (on_queue AL5_USER_MAIL_STATUS al5_queue_lock user)))"

text \<open>An unlocked queue does not make its reader wait.\<close>

function pop_all :: "al5_mail al5_queue \<Rightarrow> al5_mail al5_queue" where
  "pop_all q = (case al5_queue_pop q of (None, q1) \<Rightarrow> q1 | (Some mail, q1) \<Rightarrow> pop_all q1)"
  by pat_completeness auto
termination
  by (relation "measure (\<lambda>q. length (qlist q))")
    (auto simp: al5_queue_pop_def al5_list_pop_def split: list.splits)

definition al5_user_remove_residual_messages :: "al5_user \<Rightarrow> al5_user" where
  "al5_user_remove_residual_messages user =
     user\<lparr>queues := map (\<lambda>q. pop_all (al5_queue_unlock q)) (queues user)\<rparr>"

definition al5_user_init :: "int \<Rightarrow> al5_user" where
  "al5_user_init uid =
     \<lparr>user_uid = uid, chan_uid = BAD_CHAN, checkpoint = NO_CHECKPOINT,
      queues = replicate AL5_USER_MAIL_NUMBER al5_queue_init, locks = replicate AL5_USER_OPS_NUMBER False,
      int_buffers = al5_bufpool_init, rec_buffers = al5_bufpool_init\<rparr>"

definition al5_chan_is_created :: "al5_user \<Rightarrow> bool" where
  "al5_chan_is_created user \<longleftrightarrow> chan_uid user \<noteq> BAD_CHAN"

definition al5_have_checkpoint :: "al5_user \<Rightarrow> bool" where
  "al5_have_checkpoint user \<longleftrightarrow> checkpoint user \<noteq> NO_CHECKPOINT"

definition al5_user_get_mail :: "u32 \<Rightarrow> al5_user \<Rightarrow> kdev \<Rightarrow> al5_mail option \<times> al5_user \<times> kdev" where
  "al5_user_get_mail mail_uid user w =
     (let i = mail_to_queue mail_uid;
          (mail, user1, w1) = user_pop i (on_queue i al5_queue_unlock user) w
      in (mail, on_queue i al5_queue_lock user1, w1))"

section \<open>Locks\<close>

definition mutex_lock_killable :: "nat \<Rightarrow> al5_user \<Rightarrow> kdev \<Rightarrow> (int \<times> al5_user \<times> kdev) option" where
  "mutex_lock_killable i user w =
     (if locks user ! i then None
      else let (got, w1) = answer w
           in Some (if got then (0, user\<lparr>locks := (locks user)[i := True]\<rparr>, w1) else (- EINTR, user, w1)))"

definition mutex_trylock :: "nat \<Rightarrow> al5_user \<Rightarrow> kdev \<Rightarrow> bool \<times> al5_user \<times> kdev" where
  "mutex_trylock i user w =
     (if locks user ! i then (False, user, w)
      else let (got, w1) = answer w
           in (got, if got then user\<lparr>locks := (locks user)[i := True]\<rparr> else user, w1))"

definition mutex_unlock :: "nat \<Rightarrow> al5_user \<Rightarrow> al5_user option" where
  "mutex_unlock i user = (if locks user ! i then Some (user\<lparr>locks := (locks user)[i := False]\<rparr>) else None)"

text \<open>The locks \<open>i\<close> to \<open>i + n - 1\<close> are unlocked.\<close>

fun unlock_ops :: "nat \<Rightarrow> nat \<Rightarrow> al5_user \<Rightarrow> al5_user option" where
  "unlock_ops 0 i user = Some user"
| "unlock_ops (Suc n) i user = do { u \<leftarrow> mutex_unlock i user; unlock_ops n (i + 1) u }"

text \<open>The locks from \<open>i\<close> on are taken; when one wait is interrupted those before it are given back.\<close>

fun lock_ops :: "nat \<Rightarrow> nat \<Rightarrow> al5_user \<Rightarrow> kdev \<Rightarrow> (int \<times> al5_user \<times> kdev) option" where
  "lock_ops 0 i user w = Some (0, user, w)"
| "lock_ops (Suc n) i user w =
     do { (err, u1, w1) \<leftarrow> mutex_lock_killable i user w;
          if err = - EINTR then do { u2 \<leftarrow> unlock_ops i 0 u1; Some (err, u2, w1) }
          else lock_ops n (i + 1) u1 w1 }"

section \<open>Destroying the channel\<close>

definition al5_user_destroy_channel_resources :: "al5_user \<Rightarrow> kdev \<Rightarrow> (al5_user \<times> kdev) option" where
  "al5_user_destroy_channel_resources user w =
     do { (ib, w1) \<leftarrow> al5_bufpool_free (int_buffers user) w;
          (rb, w2) \<leftarrow> al5_bufpool_free (rec_buffers user) w1;
          Some (user\<lparr>int_buffers := ib, rec_buffers := rb\<rparr>, w2) }"

text \<open>The exchange with the MCU, with all locks held.\<close>

definition destroy_exchange :: "bool \<Rightarrow> al5_user \<Rightarrow> kdev \<Rightarrow> (int \<times> al5_user \<times> kdev) option" where
  "destroy_exchange quiet user w =
     (let (alloc, w0) = next_km w in
      if quiet
      then do { m \<leftarrow> create_quiet_destroy_channel_msg alloc (chan_uid user);
                (err, w1) \<leftarrow> al5_check_and_send m w0;
                Some (err, user, w1) }
      else do { m \<leftarrow> create_destroy_channel_msg alloc (chan_uid user);
                (err, w1) \<leftarrow> al5_check_and_send m w0;
                if err \<noteq> 0 then Some (err, user, w1)
                else let (mail, user1, w2) = user_pop AL5_USER_MAIL_DESTROY user w1
                     in Some (if mail = None then - EINTR else 0, user1, w2) })"

definition al5_user_destroy_channel :: "bool \<Rightarrow> al5_user \<Rightarrow> kdev \<Rightarrow> (int \<times> al5_user \<times> kdev) option" where
  "al5_user_destroy_channel quiet user w =
     (if \<not> al5_chan_is_created user then Some (- EPERM, user, w)
      else do { (err, u1, w1) \<leftarrow> lock_ops AL5_USER_OPS_NUMBER 0 (user_queues_unlock user) w;
                if err = - EINTR then Some (err, user_queues_lock u1, w1)
                else do { (err2, u2, w2) \<leftarrow> destroy_exchange quiet u1 w1;
                          (u3, w3) \<leftarrow> (if err2 \<noteq> 0 then Some (u2, w2)
                            else al5_user_destroy_channel_resources
                                   (u2\<lparr>chan_uid := BAD_CHAN, checkpoint := NO_CHECKPOINT\<rparr>) w2);
                          u4 \<leftarrow> unlock_ops AL5_USER_OPS_NUMBER 0 u3;
                          Some (err2, user_queues_lock u4, w3) } })"

end
