(* ===== verification/EncUser.thy ===== *)
theory EncUser imports KUser begin

text \<open>
  vcu-modules/al5e/enc_user.c and enc_mails_factory.c: the operations of a user of the encoder.
\<close>

section \<open>Messages\<close>

definition AL_MCU_MSG_PUSH_BUFFER_INTERMEDIATE :: u32 where "AL_MCU_MSG_PUSH_BUFFER_INTERMEDIATE = 14"
definition AL_MCU_MSG_PUSH_BUFFER_REFERENCE :: u32 where "AL_MCU_MSG_PUSH_BUFFER_REFERENCE = 15"
definition AL_MCU_MSG_PUT_STREAM_BUFFER :: u32 where "AL_MCU_MSG_PUT_STREAM_BUFFER = 18"

text \<open>The opaque words as their 512 bytes.\<close>

record al5_params =
  params_size :: u32
  opaque_params :: "u8 list"

record al5_encode_msg =
  params :: al5_params
  addresses :: al5_params

record al5_channel_buffers =
  int_buffers_count :: u32
  int_buffers_size :: u32
  rec_buffers_count :: u32
  rec_buffers_size :: u32

record al5e_feedback_channel =
  fb_chan_uid :: u32
  buffers_needed :: al5_channel_buffers
  fb_error_code :: u32

record al5_stream_buffer =
  stream_buffer_ptr :: "64 word"
  sb_handle :: u32
  sb_offset :: u32
  sb_size :: u32

record al5_buffer =
  stream_buffer :: al5_stream_buffer
  external_mv_handle :: u32

record al5_reconstructed_info =
  rec_fd :: u32
  pic_struct :: u32
  poc :: u32
  rec_width :: u32
  rec_height :: u32

text \<open>\<open>memcpy\<close> from the 512 bytes of a message of the caller: its size is the caller's, a larger one reads past
  the array.\<close>

definition params_bytes :: "al5_params \<Rightarrow> u8 list option" where
  "params_bytes p =
     (if unat (params_size p) \<le> length (opaque_params p) then Some (take (unat (params_size p)) (opaque_params p))
      else None)"

text \<open>The copy to the 512 bytes of the status.\<close>

definition al5e_mail_get_status :: "al5_params \<Rightarrow> al5_mail \<Rightarrow> al5_params option" where
  "al5e_mail_get_status status mail =
     (let sz = al5_mail_get_size mail - 4; n = unat sz
      in if 4 + n \<le> length (al5_mail_get_body mail) \<and> n \<le> length (opaque_params status)
         then Some (status\<lparr>params_size := sz,
                opaque_params := take n (drop 4 (al5_mail_get_body mail)) @ drop n (opaque_params status)\<rparr>)
         else None)"

text \<open>No result of the allocation is tested: a failed one is written through.\<close>

definition al5e_create_encode_one_frame_msg :: "kmalloc \<Rightarrow> u32 \<Rightarrow> al5_encode_msg \<Rightarrow> al5_mail option option" where
  "al5e_create_encode_one_frame_msg alloc chan msg =
     do { mail \<leftarrow> al5_mail_create alloc AL_MCU_MSG_ENCODE_ONE_FRM
                    (8 + params_size (params msg) + params_size (addresses msg));
          m1 \<leftarrow> al5_mail_write_word mail chan;
          m2 \<leftarrow> al5_mail_write_word m1 0;
          p \<leftarrow> params_bytes (params msg);
          m3 \<leftarrow> al5_mail_write m2 p;
          a \<leftarrow> params_bytes (addresses msg);
          m4 \<leftarrow> al5_mail_write m3 a;
          Some (Some m4) }"

text \<open>\<open>al5_create_classic_mail\<close> on the 512 bytes of the caller: they are read by the copy, behind the test of the allocation.\<close>

definition al5e_create_channel_param_msg :: "kmalloc \<Rightarrow> u32 \<Rightarrow> al5_params \<Rightarrow> al5_mail option option" where
  "al5e_create_channel_param_msg alloc uid msg =
     (case al5_mail_create alloc AL_MCU_MSG_CREATE_CHANNEL (4 + params_size msg) of
        None \<Rightarrow> Some None
      | Some mail \<Rightarrow> do { m1 \<leftarrow> al5_mail_write_word mail uid;
                          p \<leftarrow> params_bytes msg;
                          m2 \<leftarrow> al5_mail_write m1 p;
                          Some (Some m2) })"

section \<open>Creating a channel\<close>

definition CHECKPOINT_ALLOCATE_BUFFERS :: int where "CHECKPOINT_ALLOCATE_BUFFERS = 1"
definition CHECKPOINT_SEND_INTERMEDIATE_BUFFERS :: int where "CHECKPOINT_SEND_INTERMEDIATE_BUFFERS = 2"
definition CHECKPOINT_SEND_REFERENCE_BUFFERS :: int where "CHECKPOINT_SEND_REFERENCE_BUFFERS = 3"

lemmas checkpoints = CHECKPOINT_ALLOCATE_BUFFERS_def CHECKPOINT_SEND_INTERMEDIATE_BUFFERS_def
  CHECKPOINT_SEND_REFERENCE_BUFFERS_def NO_CHECKPOINT_def

text \<open>The error code is all there is in the status of a channel.\<close>

definition update_chan_param :: "u32 \<Rightarrow> al5e_feedback_channel \<Rightarrow> u32" where
  "update_chan_param status message = fb_error_code message"

definition check_and_affect_chan_uid :: "al5_user \<Rightarrow> u32 \<Rightarrow> int \<times> al5_user" where
  "check_and_affect_chan_uid user uid =
     (if uid = BAD_CHAN then (- EINVAL, user) else (0, user\<lparr>chan_uid := uid\<rparr>))"

fun write_buffers :: "al5_dma_buffer option list \<Rightarrow> al5_mail \<Rightarrow> al5_mail option" where
  "write_buffers [] mail = Some mail"
| "write_buffers (b # bs) mail =
     do { buffer \<leftarrow> b;
          let mcu_vaddr = al5_mcu_get_virtual_address (dma_handle buffer);
          m1 \<leftarrow> al5_mail_write_word mail (dma_handle buffer);
          m2 \<leftarrow> al5_mail_write_word m1 mcu_vaddr;
          m3 \<leftarrow> al5_mail_write_word m2 (buf_size buffer);
          write_buffers bs m3 }"

definition create_mail_from_bufpool :: "kmalloc \<Rightarrow> u32 \<Rightarrow> u32 \<Rightarrow> al5_buffers_pool \<Rightarrow> al5_mail option option" where
  "create_mail_from_bufpool alloc uid chan bufpool =
     do { mail \<leftarrow> al5_mail_create alloc uid (4 + of_nat (pool_count bufpool) * 12);
          m1 \<leftarrow> al5_mail_write_word mail chan;
          m2 \<leftarrow> write_buffers (take (pool_count bufpool) (buf_arr bufpool)) m1;
          Some (Some m2) }"

text \<open>Pages of 4 KiB.\<close>

definition pagesize :: u32 where "pagesize = 4096"

definition allocate_channel_buffers :: "al5_channel_buffers \<Rightarrow> al5_user \<Rightarrow> kdev \<Rightarrow> (int \<times> al5_user \<times> kdev) option" where
  "allocate_channel_buffers bufs user w =
     (let rec_size = rec_buffers_size bufs + (pagesize - rec_buffers_size bufs mod pagesize)
      in do { (err, ib, w1) \<leftarrow> al5_bufpool_allocate (int_buffers user) (unat (int_buffers_count bufs)) (int_buffers_size bufs) w;
              if err \<noteq> 0 then Some (err, user\<lparr>int_buffers := ib\<rparr>, w1)
              else do { (err2, rb, w2) \<leftarrow> al5_bufpool_allocate (rec_buffers user) (unat (rec_buffers_count bufs)) rec_size w1;
                        Some (err2, user\<lparr>int_buffers := ib, rec_buffers := rb\<rparr>, w2) } })"

definition send_intermediate_buffers :: "al5_user \<Rightarrow> kdev \<Rightarrow> (int \<times> kdev) option" where
  "send_intermediate_buffers user w =
     (let (alloc, w0) = next_km w
      in do { m \<leftarrow> create_mail_from_bufpool alloc AL_MCU_MSG_PUSH_BUFFER_INTERMEDIATE (chan_uid user) (int_buffers user);
              al5_check_and_send m w0 })"

definition send_reference_buffers :: "al5_user \<Rightarrow> kdev \<Rightarrow> (int \<times> kdev) option" where
  "send_reference_buffers user w =
     (let (alloc, w0) = next_km w
      in do { m \<leftarrow> create_mail_from_bufpool alloc AL_MCU_MSG_PUSH_BUFFER_REFERENCE (chan_uid user) (rec_buffers user);
              al5_check_and_send m w0 })"

text \<open>The structure the MCU sends, read from the words of the body.\<close>

definition read_feedback :: "al5_mail \<Rightarrow> al5e_feedback_channel option" where
  "read_feedback mail =
     do { c \<leftarrow> al5_mail_get_word mail 0;
          ic \<leftarrow> al5_mail_get_word mail 2;
          isz \<leftarrow> al5_mail_get_word mail 3;
          rc \<leftarrow> al5_mail_get_word mail 4;
          rsz \<leftarrow> al5_mail_get_word mail 5;
          e \<leftarrow> al5_mail_get_word mail 7;
          Some \<lparr>fb_chan_uid = c, buffers_needed = \<lparr>int_buffers_count = ic, int_buffers_size = isz,
                  rec_buffers_count = rc, rec_buffers_size = rsz\<rparr>, fb_error_code = e\<rparr> }"

definition no_feedback :: al5e_feedback_channel where
  "no_feedback = \<lparr>fb_chan_uid = 0, buffers_needed = \<lparr>int_buffers_count = 0, int_buffers_size = 0,
     rec_buffers_count = 0, rec_buffers_size = 0\<rparr>, fb_error_code = 0\<rparr>"

definition try_to_create_channel ::
    "al5_params \<Rightarrow> u32 \<Rightarrow> al5_user \<Rightarrow> kdev \<Rightarrow> (int \<times> u32 \<times> al5e_feedback_channel \<times> al5_user \<times> kdev) option" where
  "try_to_create_channel param status user w =
     (let (alloc, w0) = next_km w
      in do { m \<leftarrow> al5e_create_channel_param_msg alloc (of_int (user_uid user)) param;
              (err, w1) \<leftarrow> al5_check_and_send m w0;
              if err \<noteq> 0 then Some (err, status, no_feedback, user, w1)
              else let (err2, feedback, user1, w2) = user_pop_timeout AL5_USER_MAIL_CREATE user w1
                   in if err2 \<noteq> 0 then Some (err2, status, no_feedback, user1, w2)
                      else do { f \<leftarrow> feedback;
                                fb \<leftarrow> read_feedback f;
                                let (err3, user2) = check_and_affect_chan_uid user1 (fb_chan_uid fb);
                                Some (err3, update_chan_param status fb, fb, user2, w2) } })"

definition channel_is_fully_created :: "al5_user \<Rightarrow> bool" where
  "channel_is_fully_created user \<longleftrightarrow> al5_chan_is_created user \<and> \<not> al5_have_checkpoint user"

text \<open>The steps of the creation, with the lock held; each is skipped unless the checkpoint asks for it.\<close>

definition step_create ::
    "al5_params \<Rightarrow> u32 \<Rightarrow> al5_user \<Rightarrow> kdev \<Rightarrow> (int \<times> u32 \<times> al5e_feedback_channel \<times> al5_user \<times> kdev) option" where
  "step_create param status user w =
     (if \<not> al5_have_checkpoint user
      then do { (err, st, fb, u, w1) \<leftarrow> try_to_create_channel param status user w;
                Some (err, st, fb, if err \<noteq> 0 then u else u\<lparr>checkpoint := CHECKPOINT_ALLOCATE_BUFFERS\<rparr>, w1) }
      else Some (0, status, no_feedback, user, w))"

definition step_allocate :: "al5e_feedback_channel \<Rightarrow> al5_user \<Rightarrow> kdev \<Rightarrow> (int \<times> al5_user \<times> kdev) option" where
  "step_allocate fb user w =
     (if checkpoint user = CHECKPOINT_ALLOCATE_BUFFERS
      then do { (err, u, w1) \<leftarrow> allocate_channel_buffers (buffers_needed fb) user w;
                Some (err, if err \<noteq> 0 then u else u\<lparr>checkpoint := CHECKPOINT_SEND_INTERMEDIATE_BUFFERS\<rparr>, w1) }
      else Some (0, user, w))"

definition step_intermediate :: "al5_user \<Rightarrow> kdev \<Rightarrow> (int \<times> al5_user \<times> kdev) option" where
  "step_intermediate user w =
     (if checkpoint user = CHECKPOINT_SEND_INTERMEDIATE_BUFFERS
      then do { (err, w1) \<leftarrow> send_intermediate_buffers user w;
                Some (err, if err \<noteq> 0 then user else user\<lparr>checkpoint := CHECKPOINT_SEND_REFERENCE_BUFFERS\<rparr>, w1) }
      else Some (0, user, w))"

definition step_reference :: "al5_user \<Rightarrow> kdev \<Rightarrow> (int \<times> al5_user \<times> kdev) option" where
  "step_reference user w =
     (if checkpoint user = CHECKPOINT_SEND_REFERENCE_BUFFERS
      then do { (err, w1) \<leftarrow> send_reference_buffers user w;
                Some (err, if err \<noteq> 0 then user else user\<lparr>checkpoint := NO_CHECKPOINT\<rparr>, w1) }
      else Some (0, user, w))"

definition unlock_with :: "nat \<Rightarrow> int \<times> 'r \<times> al5_user \<times> kdev \<Rightarrow> (int \<times> 'r \<times> al5_user \<times> kdev) option" where
  "unlock_with i r = (case r of (err, x, user, w) \<Rightarrow> do { u \<leftarrow> mutex_unlock i user; Some (err, x, u, w) })"

definition al5e_user_create_channel ::
    "al5_params \<Rightarrow> u32 \<Rightarrow> al5_user \<Rightarrow> kdev \<Rightarrow> (int \<times> u32 \<times> al5_user \<times> kdev) option" where
  "al5e_user_create_channel param status user w =
     do { (err, u0, w0) \<leftarrow> mutex_lock_killable AL5_USER_CREATE user w;
          if err = - EINTR then Some (err, status, u0, w0)
          else if channel_is_fully_created u0 then unlock_with AL5_USER_CREATE (- EPERM, status, u0, w0)
          else do {
            (err1, st, fb, u1, w1) \<leftarrow> step_create param status u0 w0;
            if err1 \<noteq> 0 then unlock_with AL5_USER_CREATE (err1, st, u1, w1)
            else do {
              (err2, u2, w2) \<leftarrow> step_allocate fb u1 w1;
              if err2 \<noteq> 0
              then do { u3 \<leftarrow> mutex_unlock AL5_USER_CREATE (u2\<lparr>checkpoint := NO_CHECKPOINT\<rparr>);
                        (_, u4, w4) \<leftarrow> al5_user_destroy_channel False u3 w2;
                        Some (err2, st, u4, w4) }
              else do {
                (err3, u3, w3) \<leftarrow> step_intermediate u2 w2;
                if err3 \<noteq> 0 then unlock_with AL5_USER_CREATE (err3, st, u3, w3)
                else do { (err4, u4, w4) \<leftarrow> step_reference u3 w3;
                          unlock_with AL5_USER_CREATE (err4, st, u4, w4) } } } } }"

section \<open>Encoding\<close>

definition al5e_user_encode_one_frame :: "al5_encode_msg \<Rightarrow> al5_user \<Rightarrow> kdev \<Rightarrow> (int \<times> unit \<times> al5_user \<times> kdev) option" where
  "al5e_user_encode_one_frame msg user w =
     do { (err, u0, w0) \<leftarrow> mutex_lock_killable AL5_USER_XCODE user w;
          if err = - EINTR then Some (err, (), u0, w0)
          else if \<not> al5_chan_is_created u0 then unlock_with AL5_USER_XCODE (- EPERM, (), u0, w0)
          else let (alloc, w1) = next_km w0
               in do { m \<leftarrow> al5e_create_encode_one_frame_msg alloc (chan_uid u0) msg;
                       (err2, w2) \<leftarrow> al5_check_and_send m w1;
                       unlock_with AL5_USER_XCODE (err2, (), u0, w2) } }"

definition al5e_user_wait_for_status :: "al5_params \<Rightarrow> al5_user \<Rightarrow> kdev \<Rightarrow> (int \<times> al5_params \<times> al5_user \<times> kdev) option" where
  "al5e_user_wait_for_status msg user w =
     (let (got, u0, w0) = mutex_trylock AL5_USER_STATUS user w in
      if \<not> got then Some (- EINTR, msg, u0, w0)
      else if \<not> al5_chan_is_created u0 then unlock_with AL5_USER_STATUS (- EPERM, msg, u0, w0)
      else let (feedback, u1, w1) = user_pop AL5_USER_MAIL_STATUS u0 w0
           in case feedback of
                None \<Rightarrow> unlock_with AL5_USER_STATUS (- EINTR, msg, u1, w1)
              | Some f \<Rightarrow> do { st \<leftarrow> al5e_mail_get_status msg f; unlock_with AL5_USER_STATUS (0, st, u1, w1) })"

text \<open>The buffer's addresses are looked up without a lock; the mail is not tested for null.\<close>

definition al5e_user_put_stream_buffer :: "al5_buffer \<Rightarrow> al5_user \<Rightarrow> kdev \<Rightarrow> (int \<times> kdev) option" where
  "al5e_user_put_stream_buffer buffer user w =
     (if \<not> al5_chan_is_created user then Some (- EPERM, w)
      else let ((error, info), w1) = al5_get_dmabuf_info (sb_handle (stream_buffer buffer)) w in
        if error \<noteq> 0 then Some (error, w1)
        else do { sinfo \<leftarrow> info;
          if sb_size (stream_buffer buffer) > info_size sinfo then Some (- EFAULT, w1)
          else let ((error2, info2), w2) = (if external_mv_handle buffer \<noteq> 0
                      then al5_get_dmabuf_info (external_mv_handle buffer) w1 else ((0, None), w1))
            in if error2 \<noteq> 0 then Some (error2, w2)
               else let mv_vaddr = (case info2 of None \<Rightarrow> 0 | Some i \<Rightarrow> al5_mcu_get_virtual_address (bus_address i));
                        (alloc, w3) = next_km w2
                    in do { mail \<leftarrow> al5_mail_create alloc AL_MCU_MSG_PUT_STREAM_BUFFER 32;
                            m1 \<leftarrow> al5_mail_write_word mail (chan_uid user);
                            m2 \<leftarrow> al5_mail_write_word m1 (bus_address sinfo);
                            m3 \<leftarrow> al5_mail_write_word m2 (al5_mcu_get_virtual_address (bus_address sinfo));
                            m4 \<leftarrow> al5_mail_write_word m3 (sb_size (stream_buffer buffer));
                            m5 \<leftarrow> al5_mail_write_word m4 (sb_offset (stream_buffer buffer));
                            m6 \<leftarrow> al5_mail_write m5 (word_bytes (ucast (stream_buffer_ptr (stream_buffer buffer)))
                                  @ word_bytes (ucast (drop_bit 32 (stream_buffer_ptr (stream_buffer buffer)))));
                            m7 \<leftarrow> al5_mail_write_word m6 mv_vaddr;
                            al5_check_and_send (Some m7) w3 } })"

section \<open>Reconstructed pictures\<close>

definition get_user_rec_buffer :: "al5_user \<Rightarrow> int \<Rightarrow> kdev \<Rightarrow> (int \<times> kdev) option" where
  "get_user_rec_buffer user i w =
     (if i > int (pool_count (rec_buffers user)) \<or> i < 0 then Some (- 1, w)
      else al5_bufpool_reserve_fd (rec_buffers user) (nat i) w)"

text \<open>The words of the mail after the buffer number; the descriptor is compared as the 32-bit -1.\<close>

definition al5e_user_get_rec ::
    "al5_reconstructed_info \<Rightarrow> al5_user \<Rightarrow> kdev \<Rightarrow> (int \<times> al5_reconstructed_info \<times> al5_user \<times> kdev) option" where
  "al5e_user_get_rec msg user w =
     (let (got, u0, w0) = mutex_trylock AL5_USER_REC user w in
      if \<not> got then Some (- EINTR, msg, u0, w0)
      else if \<not> al5_chan_is_created u0 then unlock_with AL5_USER_REC (- EPERM, msg, u0, w0)
      else let (alloc, w1) = next_km w0 in
        do { mail \<leftarrow> al5_create_empty_mail alloc (chan_uid u0) AL_MCU_MSG_GET_RECONSTRUCTED_PICTURE;
             (err, w2) \<leftarrow> al5_check_and_send mail w1;
             if err \<noteq> 0 then unlock_with AL5_USER_REC (err, msg, u0, w2)
             else let (feedback, u1, w3) = user_pop AL5_USER_MAIL_REC u0 w2 in
               case feedback of
                 None \<Rightarrow> unlock_with AL5_USER_REC (- EINTR, msg, u1, w3)
               | Some f \<Rightarrow> do {
                   wd \<leftarrow> al5_mail_get_word f 1;
                   (fd, w4) \<leftarrow> get_user_rec_buffer u1 (sint wd) w3;
                   let msg1 = msg\<lparr>rec_fd := of_int fd\<rparr>;
                   if rec_fd msg1 = - 1 then unlock_with AL5_USER_REC (- EINVAL, msg1, u1, w4)
                   else do { ps \<leftarrow> al5_mail_get_word f 2;
                             pc \<leftarrow> al5_mail_get_word f 3;
                             let msg2 = msg1\<lparr>pic_struct := ps, poc := pc\<rparr>;
                             if al5_mail_get_size f > 12
                             then do { wi \<leftarrow> al5_mail_get_word f 4;
                                       he \<leftarrow> al5_mail_get_word f 5;
                                       unlock_with AL5_USER_REC (0, msg2\<lparr>rec_width := wi, rec_height := he\<rparr>, u1, w4) }
                             else unlock_with AL5_USER_REC (0, msg2, u1, w4) } } })"

definition al5e_user_release_rec :: "u32 \<Rightarrow> al5_user \<Rightarrow> kdev \<Rightarrow> (int \<times> unit \<times> al5_user \<times> kdev) option" where
  "al5e_user_release_rec fd user w =
     (let (got, u0, w0) = mutex_trylock AL5_USER_REC user w in
      if \<not> got then Some (- EINTR, (), u0, w0)
      else if \<not> al5_chan_is_created u0 then unlock_with AL5_USER_REC (- EPERM, (), u0, w0)
      else let (i, w1) = al5_bufpool_get_id (rec_buffers u0) fd w0 in
        if i < 0 then unlock_with AL5_USER_REC (- EINVAL, (), u0, w1)
        else let (alloc, w2) = next_km w1 in
          do { mail \<leftarrow> al5_create_classic_mail alloc (chan_uid u0) AL_MCU_MSG_RELEASE_RECONSTRUCTED_PICTURE
                         (word_bytes (of_int i));
               (err, w3) \<leftarrow> al5_check_and_send mail w2;
               unlock_with AL5_USER_REC (err, (), u0, w3) })"

end
