(* ===== verification/DecUser.thy ===== *)
theory DecUser imports EncUser begin

text \<open>
  vcu-modules/al5d/dec_user.c and dec_mails_factory.c: the operations of a user of the decoder.  Its parameters
  have the same members as those of the encoder, so \<open>al5_params\<close> and \<open>params_bytes\<close> are shared.
\<close>

definition AL_MCU_MSG_DECODE_ONE_SLICE :: u32 where "AL_MCU_MSG_DECODE_ONE_SLICE = 23"

record al5_decode_msg =
  dec_params :: al5_params
  dec_addresses :: al5_params
  slice_param_v :: u32

record al5_search_sc_msg =
  sc_param :: al5_params
  buffer_addrs :: al5_params

text \<open>Two bytes, two of padding and four: the structure is copied as a whole.\<close>

record al5_scstatus =
  num_sc :: u16
  num_bytes :: u32

section \<open>Messages\<close>

definition al5d_mail_get_status :: "al5_params \<Rightarrow> al5_mail \<Rightarrow> al5_params option" where
  "al5d_mail_get_status status mail =
     (let sz = ucast (body_size mail) - 4; n = unat sz
      in if 4 + n \<le> length (body mail) \<and> n \<le> length (opaque_params status)
         then Some (status\<lparr>params_size := sz, opaque_params := take n (drop 4 (body mail)) @ drop n (opaque_params status)\<rparr>)
         else None)"

definition al5d_mail_get_sc_status :: "al5_mail \<Rightarrow> al5_scstatus option" where
  "al5d_mail_get_sc_status mail =
     do { w1 \<leftarrow> al5_mail_get_word mail 1;
          w2 \<leftarrow> al5_mail_get_word mail 2;
          Some \<lparr>num_sc = ucast w1, num_bytes = w2\<rparr> }"

definition write_decode_mail :: "al5_mail \<Rightarrow> u32 \<Rightarrow> al5_decode_msg \<Rightarrow> al5_mail option" where
  "write_decode_mail mail chan msg =
     do { m1 \<leftarrow> al5_mail_write_word mail chan;
          p \<leftarrow> params_bytes (dec_params msg);
          m2 \<leftarrow> al5_mail_write m1 p;
          a \<leftarrow> params_bytes (dec_addresses msg);
          m3 \<leftarrow> al5_mail_write m2 a;
          al5_mail_write_word m3 (slice_param_v msg) }"

text \<open>None of the results of the allocations is tested.\<close>

definition al5d_create_decode_one_slice_msg :: "kmalloc \<Rightarrow> u32 \<Rightarrow> al5_decode_msg \<Rightarrow> al5_mail option option" where
  "al5d_create_decode_one_slice_msg alloc chan msg =
     do { mail \<leftarrow> al5_mail_create alloc AL_MCU_MSG_DECODE_ONE_SLICE
                    (4 + params_size (dec_params msg) + params_size (dec_addresses msg) + 4);
          m \<leftarrow> write_decode_mail mail chan msg;
          Some (Some m) }"

definition al5d_create_decode_one_frame_msg :: "kmalloc \<Rightarrow> u32 \<Rightarrow> al5_decode_msg \<Rightarrow> al5_mail option option" where
  "al5d_create_decode_one_frame_msg alloc chan msg =
     do { mail \<leftarrow> al5_mail_create alloc AL_MCU_MSG_DECODE_ONE_FRM
                    (4 + params_size (dec_params msg) + params_size (dec_addresses msg) + 4);
          m \<leftarrow> write_decode_mail mail chan msg;
          Some (Some m) }"

definition al5d_create_channel_param_msg :: "kmalloc \<Rightarrow> u32 \<Rightarrow> al5_params \<Rightarrow> al5_mail option option" where
  "al5d_create_channel_param_msg alloc uid msg =
     do { mail \<leftarrow> al5_mail_create alloc AL_MCU_MSG_CREATE_CHANNEL (4 + params_size msg);
          m1 \<leftarrow> al5_mail_write_word mail uid;
          p \<leftarrow> params_bytes msg;
          m2 \<leftarrow> al5_mail_write m1 p;
          Some (Some m2) }"

definition al5d_create_search_sc_mail :: "kmalloc \<Rightarrow> u32 \<Rightarrow> al5_search_sc_msg \<Rightarrow> al5_mail option option" where
  "al5d_create_search_sc_mail alloc uid msg =
     do { mail \<leftarrow> al5_mail_create alloc AL_MCU_MSG_SEARCH_START_CODE
                    (4 + params_size (sc_param msg) + params_size (buffer_addrs msg));
          m1 \<leftarrow> al5_mail_write_word mail uid;
          p \<leftarrow> params_bytes (sc_param msg);
          m2 \<leftarrow> al5_mail_write m1 p;
          a \<leftarrow> params_bytes (buffer_addrs msg);
          m3 \<leftarrow> al5_mail_write m2 a;
          Some (Some m3) }"

section \<open>Operations\<close>

text \<open>The error code is the third word of the feedback.\<close>

definition dec_update_chan_param :: "al5_mail \<Rightarrow> u32 option" where
  "dec_update_chan_param mail = al5_mail_get_word mail 2"

text \<open>The channel of the user is overwritten before it is looked at.\<close>

definition init_chan :: "al5_user \<Rightarrow> al5_mail \<Rightarrow> (int \<times> al5_user) option" where
  "init_chan user mail =
     do { c \<leftarrow> al5_mail_get_chan_uid mail;
          let user1 = user\<lparr>chan_uid := c\<rparr>;
          Some (if \<not> al5_chan_is_created user1 then - EINVAL else 0, user1) }"

definition al5d_user_create_channel :: "al5_params \<Rightarrow> u32 \<Rightarrow> al5_user \<Rightarrow> kdev \<Rightarrow> (int \<times> u32 \<times> al5_user \<times> kdev) option" where
  "al5d_user_create_channel param status user w =
     do { (err, u0, w0) \<leftarrow> mutex_lock_killable AL5_USER_CREATE user w;
          if err = - EINTR then Some (err, status, u0, w0)
          else if al5_chan_is_created u0 then unlock_with AL5_USER_CREATE (- EPERM, status, u0, w0)
          else let (alloc, w1) = next_km w0 in
            do { m \<leftarrow> al5d_create_channel_param_msg alloc (of_int (user_uid u0)) param;
                 (err1, w2) \<leftarrow> al5_check_and_send m w1;
                 if err1 \<noteq> 0 then unlock_with AL5_USER_CREATE (err1, status, u0, w2)
                 else let (err2, feedback, u1, w3) = user_pop_timeout AL5_USER_MAIL_CREATE u0 w2 in
                   if err2 \<noteq> 0 then unlock_with AL5_USER_CREATE (err2, status, u1, w3)
                   else do { f \<leftarrow> feedback;
                             st \<leftarrow> dec_update_chan_param f;
                             (err3, u2) \<leftarrow> init_chan u1 f;
                             unlock_with AL5_USER_CREATE (err3, st, u2, w3) } } }"

definition al5d_user_decode_one_slice :: "al5_decode_msg \<Rightarrow> al5_user \<Rightarrow> kdev \<Rightarrow> (int \<times> unit \<times> al5_user \<times> kdev) option" where
  "al5d_user_decode_one_slice msg user w =
     do { (err, u0, w0) \<leftarrow> mutex_lock_killable AL5_USER_XCODE user w;
          if err = - EINTR then Some (err, (), u0, w0)
          else if \<not> al5_chan_is_created u0 then unlock_with AL5_USER_XCODE (- EPERM, (), u0, w0)
          else let (alloc, w1) = next_km w0
               in do { m \<leftarrow> al5d_create_decode_one_slice_msg alloc (chan_uid u0) msg;
                       (err2, w2) \<leftarrow> al5_check_and_send m w1;
                       unlock_with AL5_USER_XCODE (err2, (), u0, w2) } }"

definition al5d_user_decode_one_frame :: "al5_decode_msg \<Rightarrow> al5_user \<Rightarrow> kdev \<Rightarrow> (int \<times> unit \<times> al5_user \<times> kdev) option" where
  "al5d_user_decode_one_frame msg user w =
     do { (err, u0, w0) \<leftarrow> mutex_lock_killable AL5_USER_XCODE user w;
          if err = - EINTR then Some (err, (), u0, w0)
          else if \<not> al5_chan_is_created u0 then unlock_with AL5_USER_XCODE (- EPERM, (), u0, w0)
          else let (alloc, w1) = next_km w0
               in do { m \<leftarrow> al5d_create_decode_one_frame_msg alloc (chan_uid u0) msg;
                       (err2, w2) \<leftarrow> al5_check_and_send m w1;
                       unlock_with AL5_USER_XCODE (err2, (), u0, w2) } }"

definition al5d_user_search_start_code :: "al5_search_sc_msg \<Rightarrow> al5_user \<Rightarrow> kdev \<Rightarrow> (int \<times> kdev) option" where
  "al5d_user_search_start_code msg user w =
     (let (alloc, w1) = next_km w
      in do { m \<leftarrow> al5d_create_search_sc_mail alloc (of_int (user_uid user)) msg; al5_check_and_send m w1 })"

definition al5d_user_wait_for_status :: "al5_params \<Rightarrow> al5_user \<Rightarrow> kdev \<Rightarrow> (int \<times> al5_params \<times> al5_user \<times> kdev) option" where
  "al5d_user_wait_for_status msg user w =
     (let (got, u0, w0) = mutex_trylock AL5_USER_STATUS user w in
      if \<not> got then Some (- EINTR, msg, u0, w0)
      else if \<not> al5_chan_is_created u0 then unlock_with AL5_USER_STATUS (- EPERM, msg, u0, w0)
      else let (feedback, u1, w1) = user_pop AL5_USER_MAIL_STATUS u0 w0
           in case feedback of
                None \<Rightarrow> unlock_with AL5_USER_STATUS (- EINTR, msg, u1, w1)
              | Some f \<Rightarrow> do { st \<leftarrow> al5d_mail_get_status msg f; unlock_with AL5_USER_STATUS (0, st, u1, w1) })"

definition al5d_user_wait_for_start_code ::
    "al5_scstatus \<Rightarrow> al5_user \<Rightarrow> kdev \<Rightarrow> (int \<times> al5_scstatus \<times> al5_user \<times> kdev) option" where
  "al5d_user_wait_for_start_code msg user w =
     (let (got, u0, w0) = mutex_trylock AL5_USER_SC user w in
      if \<not> got then Some (- EINTR, msg, u0, w0)
      else let (feedback, u1, w1) = user_pop AL5_USER_MAIL_SC u0 w0
           in case feedback of
                None \<Rightarrow> unlock_with AL5_USER_SC (- EINTR, msg, u1, w1)
              | Some f \<Rightarrow> do { st \<leftarrow> al5d_mail_get_sc_status f; unlock_with AL5_USER_SC (0, st, u1, w1) })"

end
