(* ===== verification/EncUserProofs.thy ===== *)
theory EncUserProofs imports EncUser begin

text \<open>
  The locks of a user and the memory of an encoder channel through the operations of \<open>al_user.c\<close> and
  \<open>enc_user.c\<close>.
\<close>

section \<open>Locks\<close>

definition idle :: "al5_user \<Rightarrow> bool" where
  "idle user \<longleftrightarrow> locks user = replicate 8 False"

named_theorems user_frame

lemma on_queue_frame [user_frame]:
  "locks (on_queue i f u) = locks u" "int_buffers (on_queue i f u) = int_buffers u"
  "rec_buffers (on_queue i f u) = rec_buffers u" "chan_uid (on_queue i f u) = chan_uid u"
  "checkpoint (on_queue i f u) = checkpoint u" "user_uid (on_queue i f u) = user_uid u"
  by (simp_all add: on_queue_def)

lemma queues_frame [user_frame]:
  "locks (user_queues_unlock u) = locks u" "int_buffers (user_queues_unlock u) = int_buffers u"
  "rec_buffers (user_queues_unlock u) = rec_buffers u" "chan_uid (user_queues_unlock u) = chan_uid u"
  "checkpoint (user_queues_unlock u) = checkpoint u"
  "locks (user_queues_lock u) = locks u" "int_buffers (user_queues_lock u) = int_buffers u"
  "rec_buffers (user_queues_lock u) = rec_buffers u" "chan_uid (user_queues_lock u) = chan_uid u"
  "checkpoint (user_queues_lock u) = checkpoint u"
  by (simp_all add: user_queues_unlock_def user_queues_lock_def user_frame)

text \<open>Two users that differ in their queues only, and two systems that hold the same.\<close>

definition same_user :: "al5_user \<Rightarrow> al5_user \<Rightarrow> bool" where
  "same_user u v \<longleftrightarrow> u\<lparr>queues := []\<rparr> = v\<lparr>queues := []\<rparr>"

lemma same_userD:
  "same_user u v \<Longrightarrow> locks v = locks u \<and> int_buffers v = int_buffers u \<and> rec_buffers v = rec_buffers u
     \<and> chan_uid v = chan_uid u \<and> checkpoint v = checkpoint u \<and> user_uid v = user_uid u"
  unfolding same_user_def by (metis al5_user.select_convs al5_user.surjective al5_user.update_convs(4))

lemma same_user_refl [simp]: "same_user u u"
  by (simp add: same_user_def)

lemma same_user_trans: "same_user u v \<Longrightarrow> same_user v x \<Longrightarrow> same_user u x"
  by (simp add: same_user_def)

lemma same_user_queues [simp]: "same_user u (v\<lparr>queues := qs\<rparr>) = same_user u v" "same_user (v\<lparr>queues := qs\<rparr>) u = same_user v u"
  by (simp_all add: same_user_def)

lemma same_user_deliver: "same_user u (snd (al5_user_deliver a m u))"
  by (simp add: al5_user_deliver_def Let_def split: prod.splits)

lemma same_user_fold: "same_user u (fold (\<lambda>m v. snd (al5_user_deliver a m v)) ms u)"
proof (induction ms arbitrary: u)
  case (Cons m ms)
  from same_user_trans [OF same_user_deliver Cons.IH] show ?case by simp
qed simp

definition same_held :: "kdev \<Rightarrow> kdev \<Rightarrow> bool" where
  "same_held w v \<longleftrightarrow> (\<forall>H. holds_res w H \<longrightarrow> holds_res v H)"

lemma same_held_refl [simp]: "same_held w w"
  by (simp add: same_held_def)

lemma same_held_trans: "same_held w v \<Longrightarrow> same_held v x \<Longrightarrow> same_held w x"
  by (simp add: same_held_def)

lemma same_held_updates [simp]:
  "same_held w (v\<lparr>sleeps := ss\<rparr>) = same_held w v" "same_held w (v\<lparr>mcu := m\<rparr>) = same_held w v"
  "same_held w (v\<lparr>answers := as\<rparr>) = same_held w v" "same_held w (v\<lparr>mails_made := k\<rparr>) = same_held w v"
  by (simp_all add: same_held_def holds_res_def)

lemma same_held_answer: "answer w = (a, w1) \<Longrightarrow> same_held w w1"
  by (auto simp: answer_def split: list.splits)

lemma same_held_next_km: "next_km w = (a, w1) \<Longrightarrow> same_held w w1"
  by (auto simp: next_km_def)

lemma sleep_same: "sleep u w = (r, u1, w1) \<Longrightarrow> same_user u u1 \<and> same_held w w1"
  using same_user_fold by (auto simp: sleep_def split: list.splits)

lemma user_pop_same: "user_pop i u w = (m, u1, w1) \<Longrightarrow> same_user u u1 \<and> same_held w w1"
  by (auto simp: user_pop_def Let_def split: prod.splits if_splits dest: sleep_same)
    (metis prod.collapse sleep_same)+

lemma user_pop_timeout_same: "user_pop_timeout i u w = (e, m, u1, w1) \<Longrightarrow> same_user u u1 \<and> same_held w w1"
  by (auto simp: user_pop_timeout_def Let_def split: prod.splits if_splits dest: sleep_same)

lemma check_and_send_same: "al5_check_and_send m w = Some (e, w1) \<Longrightarrow> same_held w w1"
  by (auto simp: al5_check_and_send_def send_msg_def split: option.splits Option.bind_splits if_splits prod.splits)

lemma lock_cases:
  assumes "mutex_lock_killable i u w = Some (e, u1, w1)" "i < length (locks u)"
  obtains "e = 0" "\<not> locks u ! i" "u1 = u\<lparr>locks := (locks u)[i := True]\<rparr>" "same_held w w1" | "e = - EINTR" "u1 = u" "same_held w w1"
  using assms by (auto simp: mutex_lock_killable_def split: if_splits prod.splits dest: same_held_answer)

lemma trylock_cases:
  assumes "mutex_trylock i u w = (got, u1, w1)"
  obtains "got" "\<not> locks u ! i" "u1 = u\<lparr>locks := (locks u)[i := True]\<rparr>" "same_held w w1" | "\<not> got" "u1 = u" "same_held w w1"
  using assms by (auto simp: mutex_trylock_def split: if_splits prod.splits dest: same_held_answer)

section \<open>One lock\<close>

definition only_lock :: "nat \<Rightarrow> al5_user \<Rightarrow> bool" where
  "only_lock i u \<longleftrightarrow> i < 8 \<and> locks u = (replicate 8 False)[i := True]"

lemma idle_lock: "idle u \<Longrightarrow> i < 8 \<Longrightarrow> only_lock i (u\<lparr>locks := (locks u)[i := True]\<rparr>)"
  by (simp add: idle_def only_lock_def)

lemma idle_not_locked: "idle u \<Longrightarrow> i < 8 \<Longrightarrow> \<not> locks u ! i"
  by (simp add: idle_def)

lemma only_lock_same: "only_lock i u \<Longrightarrow> same_user u v \<Longrightarrow> only_lock i v"
  by (auto simp: only_lock_def dest: same_userD)

lemma only_lock_unlock:
  "only_lock i u \<Longrightarrow> mutex_unlock i u = Some (u\<lparr>locks := replicate 8 False\<rparr>)"
  by (simp add: only_lock_def mutex_unlock_def list_update_same_conv)

lemma unlock_with_eq:
  "only_lock i u \<Longrightarrow> unlock_with i (e, x, u, w) = Some (e, x, u\<lparr>locks := replicate 8 False\<rparr>, w)"
  by (simp add: unlock_with_def only_lock_unlock)

lemma idle_unlocked [simp]: "idle (u\<lparr>locks := replicate 8 False\<rparr>)"
  by (simp add: idle_def)

text \<open>An operation that locks, works on a user it leaves with the lock, and unlocks.\<close>

lemma lock_idle_cases [consumes 2, case_names locked interrupted]:
  assumes "idle u" "i < 8"
  obtains w1 where "mutex_lock_killable i u w = Some (0, u\<lparr>locks := (locks u)[i := True]\<rparr>, w1)"
      "only_lock i (u\<lparr>locks := (locks u)[i := True]\<rparr>)" "same_held w w1"
    | w1 where "mutex_lock_killable i u w = Some (- EINTR, u, w1)" "same_held w w1"
proof -
  obtain a w1 where a: "answer w = (a, w1)" by fastforce
  note idle_not_locked [OF assms] idle_lock [OF assms] same_held_answer [OF a]
  with a that show ?thesis by (cases a) (auto simp: mutex_lock_killable_def)
qed

lemma trylock_idle_cases [consumes 2, case_names locked interrupted]:
  assumes "idle u" "i < 8"
  obtains w1 where "mutex_trylock i u w = (True, u\<lparr>locks := (locks u)[i := True]\<rparr>, w1)"
      "only_lock i (u\<lparr>locks := (locks u)[i := True]\<rparr>)" "same_held w w1"
    | w1 where "mutex_trylock i u w = (False, u, w1)" "same_held w w1"
proof -
  obtain a w1 where a: "answer w = (a, w1)" by fastforce
  note idle_not_locked [OF assms] idle_lock [OF assms] same_held_answer [OF a]
  with a that show ?thesis by (cases a) (auto simp: mutex_trylock_def)
qed

section \<open>All locks\<close>

lemma unlock_ops_law:
  "locks u = replicate i False @ replicate n True @ ls \<Longrightarrow>
   unlock_ops n i u = Some (u\<lparr>locks := replicate (i + n) False @ ls\<rparr>)"
proof (induction n arbitrary: i u)
  case (Suc n)
  have l: "locks u = replicate i False @ True # replicate n True @ ls" using Suc.prems by (simp add: replicate_append_same)
  have "(locks u)[i := False] = replicate (i + 1) False @ replicate n True @ ls"
    using list_update_length [of "replicate i False" True "replicate n True @ ls" False]
    by (simp add: l replicate_append_same [symmetric])
  moreover have "locks u ! i" by (simp add: l nth_append)
  ultimately have "mutex_unlock i u = Some (u\<lparr>locks := replicate (i + 1) False @ replicate n True @ ls\<rparr>)"
    by (simp add: mutex_unlock_def)
  then show ?case by (simp add: Suc.IH)
qed simp

lemma lock_ops_law:
  "locks u = replicate i True @ replicate n False \<Longrightarrow>
   \<exists>w1. same_held w w1 \<and> (lock_ops n i u w = Some (0, u\<lparr>locks := replicate (i + n) True\<rparr>, w1)
     \<or> lock_ops n i u w = Some (- EINTR, u\<lparr>locks := replicate (i + n) False\<rparr>, w1))"
proof (induction n arbitrary: i u w)
  case 0
  then have "u\<lparr>locks := replicate (i + 0) True\<rparr> = u" by simp
  then show ?case by (intro exI [of _ w]) simp
next
  case (Suc n)
  obtain a w1 where a: "answer w = (a, w1)" by fastforce
  have nl: "\<not> locks u ! i" using Suc.prems by (simp add: nth_append)
  show ?case
  proof (cases a)
    case True
    let ?u = "u\<lparr>locks := replicate (i + 1) True @ replicate n False\<rparr>"
    have "mutex_lock_killable i u w = Some (0, ?u, w1)"
      using True a nl Suc.prems list_update_length [of "replicate i True" False "replicate n False" True]
      by (simp add: mutex_lock_killable_def replicate_append_same [symmetric])
    then have "lock_ops (Suc n) i u w = lock_ops n (i + 1) ?u w1" by (simp add: EINTR_def)
    moreover from Suc.IH [of ?u "i + 1" w1] obtain w2 where "same_held w1 w2"
      "lock_ops n (i + 1) ?u w1 = Some (0, u\<lparr>locks := replicate (i + Suc n) True\<rparr>, w2)
       \<or> lock_ops n (i + 1) ?u w1 = Some (- EINTR, u\<lparr>locks := replicate (i + Suc n) False\<rparr>, w2)" by auto
    ultimately show ?thesis using same_held_trans [OF same_held_answer [OF a]] by metis
  next
    case False
    have "unlock_ops i 0 u = Some (u\<lparr>locks := replicate i False @ replicate (Suc n) False\<rparr>)"
      using unlock_ops_law [of u 0 i "replicate (Suc n) False"] Suc.prems by simp
    moreover have "replicate i False @ replicate (Suc n) False = replicate (i + Suc n) False"
      by (simp only: replicate_add [symmetric])
    ultimately have "unlock_ops i 0 u = Some (u\<lparr>locks := replicate (i + Suc n) False\<rparr>)" by simp
    with False a nl have "lock_ops (Suc n) i u w = Some (- EINTR, u\<lparr>locks := replicate (i + Suc n) False\<rparr>, w1)"
      by (simp add: mutex_lock_killable_def del: replicate_Suc)
    then show ?thesis using same_held_answer [OF a] by blast
  qed
qed

section \<open>What a user owns\<close>

definition pool_owns :: "al5_buffers_pool \<Rightarrow> resource set \<Rightarrow> bool" where
  "pool_owns pool R \<longleftrightarrow> pool = al5_bufpool_init \<and> R = {} \<or> (\<exists>cnt sz ds. pool_ok cnt sz ds pool \<and> R = pool_res ds pool)"

definition user_owns :: "al5_user \<Rightarrow> resource set \<Rightarrow> bool" where
  "user_owns u R \<longleftrightarrow> (\<exists>R1 R2. pool_owns (int_buffers u) R1 \<and> pool_owns (rec_buffers u) R2 \<and> R1 \<inter> R2 = {} \<and> R = R1 \<union> R2)"

lemma pool_owns_free:
  assumes "pool_owns pool R" "holds_res w (R \<union> H)" "R \<inter> H = {}"
  shows "\<exists>w1. al5_bufpool_free pool w = Some (al5_bufpool_init, w1) \<and> holds_res w1 H"
  using assms bufpool_free_init bufpool_free_ok unfolding pool_owns_def by fastforce

lemma free_resources_law:
  assumes "user_owns u R" "holds_res w (R \<union> H)" "R \<inter> H = {}"
  shows "\<exists>w1. al5_user_destroy_channel_resources u w
      = Some (u\<lparr>int_buffers := al5_bufpool_init, rec_buffers := al5_bufpool_init\<rparr>, w1) \<and> holds_res w1 H"
proof -
  from assms(1) obtain R1 R2 where R: "pool_owns (int_buffers u) R1" "pool_owns (rec_buffers u) R2" "R1 \<inter> R2 = {}"
    "R = R1 \<union> R2" unfolding user_owns_def by blast
  have "holds_res w (R1 \<union> (R2 \<union> H))" using assms(2) R(4) by (simp add: Un_assoc)
  then obtain w1 where w1: "al5_bufpool_free (int_buffers u) w = Some (al5_bufpool_init, w1)" "holds_res w1 (R2 \<union> H)"
    using pool_owns_free [OF R(1), of w "R2 \<union> H"] R assms(3) by auto
  then obtain w2 where "al5_bufpool_free (rec_buffers u) w1 = Some (al5_bufpool_init, w2)" "holds_res w2 H"
    using pool_owns_free [OF R(2), of w1 H] R assms(3) by auto
  with w1 show ?thesis by (simp add: al5_user_destroy_channel_resources_def)
qed

lemma destroy_exchange_same:
  "destroy_exchange q u w = Some (e, u1, w1) \<Longrightarrow> same_user u u1 \<and> same_held w w1"
  unfolding destroy_exchange_def
  by (auto simp: Let_def split: prod.splits if_splits Option.bind_splits
      dest!: user_pop_same check_and_send_same same_held_next_km intro: same_held_trans)

lemma destroy_channel_idle:
  assumes "al5_user_destroy_channel quiet u w = Some (err, u1, w1)" "idle u"
  shows "idle u1"
proof (cases "al5_chan_is_created u")
  case False
  with assms show ?thesis by (auto simp: al5_user_destroy_channel_def)
next
  case True
  let ?v = "user_queues_unlock u"
  have "locks ?v = replicate 0 True @ replicate 8 False" using assms(2) by (simp add: user_frame idle_def)
  from lock_ops_law [OF this, of w] obtain w2 where
    "lock_ops 8 0 ?v w = Some (0, ?v\<lparr>locks := replicate 8 True\<rparr>, w2)
     \<or> lock_ops 8 0 ?v w = Some (- EINTR, ?v\<lparr>locks := replicate 8 False\<rparr>, w2)" by auto
  then show ?thesis
  proof
    assume "lock_ops 8 0 ?v w = Some (- EINTR, ?v\<lparr>locks := replicate 8 False\<rparr>, w2)"
    with assms True show ?thesis by (auto simp: al5_user_destroy_channel_def AL5_USER_OPS_NUMBER_def idle_def user_frame)
  next
    let ?x = "?v\<lparr>locks := replicate 8 True\<rparr>"
    assume "lock_ops 8 0 ?v w = Some (0, ?x, w2)"
    with assms True obtain err2 u2 w3 u3 w4 u4 where e: "destroy_exchange quiet ?x w2 = Some (err2, u2, w3)"
      "(if err2 \<noteq> 0 then Some (u2, w3) else al5_user_destroy_channel_resources
          (u2\<lparr>chan_uid := BAD_CHAN, checkpoint := NO_CHECKPOINT\<rparr>) w3) = Some (u3, w4)"
      "unlock_ops 8 0 u3 = Some u4" "u1 = user_queues_lock u4"
      by (auto simp: al5_user_destroy_channel_def AL5_USER_OPS_NUMBER_def EINTR_def split: Option.bind_splits)
    from destroy_exchange_same [OF e(1)] have "locks u2 = replicate 8 True" by (auto dest: same_userD)
    then have "locks u3 = replicate 8 True"
      using e(2) by (auto simp: al5_user_destroy_channel_resources_def split: if_splits Option.bind_splits)
    with unlock_ops_law [of u3 0 8 "[]"] e(3,4) show ?thesis by (auto simp: idle_def user_frame)
  qed
qed

lemma destroy_channel_law:
  assumes "idle u" "user_owns u R" "holds_res w (R \<union> H)" "R \<inter> H = {}"
    "al5_user_destroy_channel quiet u w = Some (err, u1, w1)"
  shows "idle u1 \<and>
    (if err = 0 then al5_chan_is_created u \<and> \<not> al5_chan_is_created u1 \<and> \<not> al5_have_checkpoint u1
        \<and> int_buffers u1 = al5_bufpool_init \<and> rec_buffers u1 = al5_bufpool_init \<and> holds_res w1 H
     else chan_uid u1 = chan_uid u \<and> checkpoint u1 = checkpoint u \<and> user_owns u1 R \<and> holds_res w1 (R \<union> H))"
proof (cases "al5_chan_is_created u")
  case False
  with assms show ?thesis by (auto simp: al5_user_destroy_channel_def EPERM_def)
next
  case True
  let ?v = "user_queues_unlock u"
  have l: "locks ?v = replicate 0 True @ replicate 8 False" using assms(1) by (simp add: user_frame idle_def)
  from lock_ops_law [OF l, of w] obtain w2 where w2: "same_held w w2"
    "lock_ops 8 0 ?v w = Some (0, ?v\<lparr>locks := replicate 8 True\<rparr>, w2)
     \<or> lock_ops 8 0 ?v w = Some (- EINTR, ?v\<lparr>locks := replicate 8 False\<rparr>, w2)" by auto
  from w2(2) show ?thesis
  proof
    assume "lock_ops 8 0 ?v w = Some (- EINTR, ?v\<lparr>locks := replicate 8 False\<rparr>, w2)"
    with assms(5) True have r: "err = - EINTR" "u1 = user_queues_lock (?v\<lparr>locks := replicate 8 False\<rparr>)" "w1 = w2"
      by (auto simp: al5_user_destroy_channel_def AL5_USER_OPS_NUMBER_def)
    have "user_owns u1 R" using assms(2) unfolding r user_owns_def by (simp add: user_frame)
    then show ?thesis using w2(1) assms(3) unfolding r by (simp add: user_frame idle_def EINTR_def same_held_def)
  next
    let ?x = "?v\<lparr>locks := replicate 8 True\<rparr>"
    assume "lock_ops 8 0 ?v w = Some (0, ?x, w2)"
    with assms(5) True obtain err2 u2 w3 u3 w4 u4 where e: "destroy_exchange quiet ?x w2 = Some (err2, u2, w3)"
      "(if err2 \<noteq> 0 then Some (u2, w3) else al5_user_destroy_channel_resources
          (u2\<lparr>chan_uid := BAD_CHAN, checkpoint := NO_CHECKPOINT\<rparr>) w3) = Some (u3, w4)"
      "unlock_ops 8 0 u3 = Some u4" "err = err2" "u1 = user_queues_lock u4" "w1 = w4"
      by (auto simp: al5_user_destroy_channel_def AL5_USER_OPS_NUMBER_def EINTR_def split: Option.bind_splits)
    from destroy_exchange_same [OF e(1)] have s: "same_user ?x u2" "same_held w2 w3" by auto
    have f: "locks u2 = replicate 8 True" "int_buffers u2 = int_buffers u" "rec_buffers u2 = rec_buffers u"
      "chan_uid u2 = chan_uid u" "checkpoint u2 = checkpoint u"
      using same_userD [OF s(1)] by (simp_all add: user_frame)
    have h: "holds_res w3 (R \<union> H)" using assms(3) w2(1) s(2) by (simp add: same_held_def)
    show ?thesis
    proof (cases "err2 = 0")
      case True
      let ?y = "u2\<lparr>chan_uid := BAD_CHAN, checkpoint := NO_CHECKPOINT\<rparr>"
      have "user_owns ?y R" using assms(2) f by (simp add: user_owns_def)
      from free_resources_law [OF this h assms(4)] e(2) True
      have u3: "u3 = ?y\<lparr>int_buffers := al5_bufpool_init, rec_buffers := al5_bufpool_init\<rparr>" "holds_res w4 H" by auto
      have "unlock_ops 8 0 u3 = Some (u3\<lparr>locks := replicate 8 False\<rparr>)"
        using unlock_ops_law [of u3 0 8 "[]"] u3 f by simp
      with e(3) have "u4 = u3\<lparr>locks := replicate 8 False\<rparr>" by simp
      with e(4-6) True u3 \<open>al5_chan_is_created u\<close> show ?thesis
        by (simp add: user_frame idle_def al5_chan_is_created_def al5_have_checkpoint_def)
    next
      case False
      with e(2) have u3: "u3 = u2" "w4 = w3" by auto
      have "unlock_ops 8 0 u3 = Some (u3\<lparr>locks := replicate 8 False\<rparr>)"
        using unlock_ops_law [of u3 0 8 "[]"] u3 f by simp
      with e(3) have u4: "u4 = u2\<lparr>locks := replicate 8 False\<rparr>" using u3 by simp
      have "user_owns u1 R" using assms(2) e(5) u4 f by (simp add: user_owns_def user_frame)
      with e(4-6) False u3 u4 f h show ?thesis by (simp add: user_frame idle_def)
    qed
  qed
qed

section \<open>The steps of a creation\<close>

lemma try_to_create_law:
  assumes "try_to_create_channel p st u w = Some (e, st1, fb, u1, w1)"
  shows "same_held w w1 \<and> (if e = 0 then \<exists>c. c \<noteq> BAD_CHAN \<and> same_user (u\<lparr>chan_uid := c\<rparr>) u1 else same_user u u1)"
proof -
  obtain al w0 where k: "next_km w = (al, w0)" by fastforce
  from assms obtain m e1 w2 where m: "al5e_create_channel_param_msg al (of_int (user_uid u)) p = Some m"
    "al5_check_and_send m w0 = Some (e1, w2)" by (auto simp: try_to_create_channel_def k split: Option.bind_splits)
  have h2: "same_held w w2" using same_held_trans [OF same_held_next_km [OF k] check_and_send_same [OF m(2)]] .
  show ?thesis
  proof (cases "e1 = 0")
    case False
    with assms m k h2 show ?thesis by (auto simp: try_to_create_channel_def)
  next
    case e1: True
    obtain e2 f u2 w3 where f: "user_pop_timeout AL5_USER_MAIL_CREATE u w2 = (e2, f, u2, w3)" by (metis prod_cases4)
    from user_pop_timeout_same [OF f] h2 have s: "same_user u u2" "same_held w w3" by (auto intro: same_held_trans)
    show ?thesis
    proof (cases "e2 = 0")
      case False
      with assms m k e1 f s show ?thesis by (auto simp: try_to_create_channel_def)
    next
      case True
      with assms m k e1 f obtain fm b where fm: "f = Some fm" "read_feedback fm = Some b"
        by (auto simp: try_to_create_channel_def split: Option.bind_splits)
      have "same_user (u\<lparr>chan_uid := c\<rparr>) (u2\<lparr>chan_uid := c\<rparr>)" for c
        using s(1) unfolding same_user_def by (metis al5_user.surjective al5_user.update_convs(2,4))
      with assms m k e1 f s True fm show ?thesis
        by (auto simp: try_to_create_channel_def check_and_affect_chan_uid_def EINVAL_def split: if_splits)
    qed
  qed
qed

lemma step_create_law:
  assumes "step_create p st u w = Some (e, st1, fb, u1, w1)"
  shows "same_held w w1 \<and> locks u1 = locks u \<and> int_buffers u1 = int_buffers u \<and> rec_buffers u1 = rec_buffers u
    \<and> (if al5_have_checkpoint u then e = 0 \<and> u1 = u
       else if e = 0 then al5_chan_is_created u1 \<and> checkpoint u1 = CHECKPOINT_ALLOCATE_BUFFERS
       else chan_uid u1 = chan_uid u \<and> checkpoint u1 = checkpoint u)"
proof (cases "al5_have_checkpoint u")
  case True
  with assms show ?thesis by (simp add: step_create_def)
next
  case False
  with assms obtain u2 where u2: "try_to_create_channel p st u w = Some (e, st1, fb, u2, w1)"
    "u1 = (if e \<noteq> 0 then u2 else u2\<lparr>checkpoint := CHECKPOINT_ALLOCATE_BUFFERS\<rparr>)"
    by (auto simp: step_create_def split: Option.bind_splits)
  note t = try_to_create_law [OF u2(1)]
  show ?thesis
  proof (cases "e = 0")
    case True
    with t obtain c where c: "c \<noteq> BAD_CHAN" "same_user (u\<lparr>chan_uid := c\<rparr>) u2" by auto
    from same_userD [OF c(2)] c(1) t True u2(2) False show ?thesis by (simp add: al5_chan_is_created_def)
  next
    case e: False
    with t have "same_user u u2" by simp
    from same_userD [OF this] t e u2(2) False show ?thesis by simp
  qed
qed

lemma allocate_law:
  assumes "int_buffers u = al5_bufpool_init" "rec_buffers u = al5_bufpool_init" "holds_res w H"
    "allocate_channel_buffers b u w = Some (e, u1, w1)"
  shows "locks u1 = locks u \<and> chan_uid u1 = chan_uid u \<and> checkpoint u1 = checkpoint u \<and>
    (if e = 0 then pool_count (int_buffers u1) = unat (int_buffers_count b)
         \<and> pool_count (rec_buffers u1) = unat (rec_buffers_count b)
         \<and> (\<exists>R. user_owns u1 R \<and> R \<inter> H = {} \<and> holds_res w1 (R \<union> H)) else e = - ENOMEM)"
  using assms(3)
proof (cases rule: bufpool_allocate_cases [where pool = "int_buffers u" and cnt = "unat (int_buffers_count b)" and sz = "int_buffers_size b"])
  case (made ds ib w2)
  let ?sz = "rec_buffers_size b + (pagesize - rec_buffers_size b mod pagesize)"
  from made(3) show ?thesis
  proof (cases rule: bufpool_allocate_cases [where pool = "rec_buffers u" and cnt = "unat (rec_buffers_count b)" and sz = ?sz])
    case m2: (made es rb w3)
    with made assms(4) have r: "e = 0" "u1 = u\<lparr>int_buffers := ib, rec_buffers := rb\<rparr>" "w1 = w3"
      by (auto simp: allocate_channel_buffers_def Let_def)
    have "user_owns u1 (pool_res ds ib \<union> pool_res es rb)"
      unfolding user_owns_def pool_owns_def r(2) using made(2) m2(2,4) by (intro exI conjI) auto
    moreover have "holds_res w1 ((pool_res ds ib \<union> pool_res es rb) \<union> H)"
      using m2(3) r by (simp add: Un_assoc Un_left_commute)
    moreover have "(pool_res ds ib \<union> pool_res es rb) \<inter> H = {}" using made(4) m2(4) by auto
    moreover have "pool_count ib = unat (int_buffers_count b)" "pool_count rb = unat (rec_buffers_count b)"
      using made(2) m2(2) by (auto simp: pool_ok_def pool_has_def)
    ultimately show ?thesis using r by auto
  qed (use made assms(4) in \<open>auto simp: allocate_channel_buffers_def Let_def ENOMEM_def\<close>)
qed (use assms(4) in \<open>auto simp: allocate_channel_buffers_def Let_def ENOMEM_def\<close>)

lemma send_steps_law:
  "step_intermediate u w = Some (e, u1, w1) \<Longrightarrow> same_held w w1 \<and>
     u1 = (if checkpoint u = CHECKPOINT_SEND_INTERMEDIATE_BUFFERS \<and> e = 0 then u\<lparr>checkpoint := CHECKPOINT_SEND_REFERENCE_BUFFERS\<rparr> else u)"
  "step_reference u w = Some (e, u1, w1) \<Longrightarrow> same_held w w1 \<and>
     u1 = (if checkpoint u = CHECKPOINT_SEND_REFERENCE_BUFFERS \<and> e = 0 then u\<lparr>checkpoint := NO_CHECKPOINT\<rparr> else u)"
  by (auto simp: step_intermediate_def step_reference_def send_intermediate_buffers_def send_reference_buffers_def Let_def
      split: if_splits Option.bind_splits prod.splits dest!: check_and_send_same same_held_next_km intro: same_held_trans)

section \<open>A pool whose second array could not be allocated\<close>

text \<open>The first array of a pool is there and the second is not; \<open>al5_bufpool_allocate\<close> frees the first one.\<close>

definition second_array_fails :: "nat \<Rightarrow> kdev \<Rightarrow> bool" where
  "second_array_fails cnt w \<longleftrightarrow> (let (p, w1) = kcalloc cnt w in p \<noteq> 0 \<and> fst (kcalloc cnt w1) = 0)"

definition dangling_pool :: "al5_buffers_pool \<Rightarrow> resource set \<Rightarrow> bool" where
  "dangling_pool pool G \<longleftrightarrow> pool_count pool = 0 \<and> 0 < buffers pool \<and> Mem (buffers pool) \<notin> G"

lemma second_array_law:
  assumes "holds_res w H" "second_array_fails cnt w"
  shows "\<exists>pool1 w1. al5_bufpool_allocate pool cnt sz w = Some (- ENOMEM, pool1, w1) \<and> holds_res w1 H \<and> dangling_pool pool1 H"
  using assms(1)
proof (cases rule: kcalloc_cases [where cnt = cnt])
  case (null w1)
  with assms(2) show ?thesis by (simp add: second_array_fails_def)
next
  case b: (ptr p w1)
  from b assms(2) obtain w2 where h: "kcalloc cnt w1 = (0, w2)"
    by (cases "kcalloc cnt w1") (simp add: second_array_fails_def)
  have n: "Mem p \<notin> H" using b(4) by auto
  from b(3) have "holds_res w2 (insert (Mem p) H)"
    by (cases rule: kcalloc_cases [where cnt = cnt]) (use h in auto)
  then have "holds_res (kfree p w2) (insert (Mem p) H - {Mem p})" by (rule kfree_law) (use b in simp_all)
  with n have "holds_res (kfree p w2) H" by simp
  with b h n show ?thesis by (simp add: al5_bufpool_allocate_def dangling_pool_def)
qed

lemma held_bad:
  "held {} (trace w) = None \<Longrightarrow> held {} (trace (kfree p w)) = None"
  "held {} (trace w) = None \<Longrightarrow> held {} (trace (release r w)) = None"
  by (simp_all add: kfree_def release_def)

lemma put_handles_bad: "put_handles hs w = Some w1 \<Longrightarrow> held {} (trace w) = None \<Longrightarrow> held {} (trace w1) = None"
  by (induction hs w rule: put_handles.induct)
    (auto simp: dma_buf_put_def al5_dmabuf_release_def Let_def held_bad)

lemma bufpool_free_bad:
  "al5_bufpool_free pool w = Some (pool1, w1) \<Longrightarrow> held {} (trace w) = None \<Longrightarrow> held {} (trace w1) = None"
  by (auto simp: al5_bufpool_free_def held_bad put_handles_bad split: if_splits Option.bind_splits)

lemma dangling_free:
  assumes "dangling_pool pool G" "holds_res w G" "al5_bufpool_free pool w = Some (pool1, w1)"
  shows "held {} (trace w1) = None"
proof -
  have "held {} (trace (kfree (buffers pool) w)) = None"
    using assms(1,2) by (simp add: kfree_def release_def dangling_pool_def holds_res_def)
  with assms(1,3) show ?thesis by (auto simp: al5_bufpool_free_def dangling_pool_def held_bad)
qed

text \<open>The memory of the user is \<open>R\<close>, and one of its pools has a pointer to memory that was freed.\<close>

definition dangling_user :: "al5_user \<Rightarrow> resource set \<Rightarrow> resource set \<Rightarrow> bool" where
  "dangling_user u R G \<longleftrightarrow> dangling_pool (int_buffers u) (R \<union> G)
     \<or> pool_owns (int_buffers u) R \<and> R \<inter> G = {} \<and> dangling_pool (rec_buffers u) (R \<union> G)"

lemma dangling_resources:
  assumes "dangling_user u R G" "holds_res w (R \<union> G)" "al5_user_destroy_channel_resources u w = Some (u1, w1)"
  shows "held {} (trace w1) = None"
proof -
  from assms(3) obtain ib w2 rb where f: "al5_bufpool_free (int_buffers u) w = Some (ib, w2)"
    "al5_bufpool_free (rec_buffers u) w2 = Some (rb, w1)"
    by (auto simp: al5_user_destroy_channel_resources_def split: Option.bind_splits)
  from assms(1) consider "dangling_pool (int_buffers u) (R \<union> G)"
    | "pool_owns (int_buffers u) R" "R \<inter> G = {}" "dangling_pool (rec_buffers u) (R \<union> G)"
    unfolding dangling_user_def by blast
  then show ?thesis
  proof cases
    case 1
    from dangling_free [OF 1 assms(2) f(1)] show ?thesis by (rule bufpool_free_bad [OF f(2)])
  next
    case 2
    from pool_owns_free [OF 2(1) assms(2) 2(2)] f(1) have "holds_res w2 G" by auto
    moreover have "dangling_pool (rec_buffers u) G" using 2(3) by (simp add: dangling_pool_def)
    ultimately show ?thesis using dangling_free f(2) by blast
  qed
qed

lemma destroy_dangling:
  assumes "idle u" "dangling_user u R G" "holds_res w (R \<union> G)" "al5_chan_is_created u"
    "al5_user_destroy_channel quiet u w = Some (err, u1, w1)"
  shows "if al5_chan_is_created u1 then dangling_user u1 R G \<and> holds_res w1 (R \<union> G) else held {} (trace w1) = None"
proof -
  let ?v = "user_queues_unlock u"
  have l: "locks ?v = replicate 0 True @ replicate 8 False" using assms(1) by (simp add: user_frame idle_def)
  from lock_ops_law [OF l, of w] obtain w2 where w2: "same_held w w2"
    "lock_ops 8 0 ?v w = Some (0, ?v\<lparr>locks := replicate 8 True\<rparr>, w2)
     \<or> lock_ops 8 0 ?v w = Some (- EINTR, ?v\<lparr>locks := replicate 8 False\<rparr>, w2)" by auto
  from w2(2) show ?thesis
  proof
    assume "lock_ops 8 0 ?v w = Some (- EINTR, ?v\<lparr>locks := replicate 8 False\<rparr>, w2)"
    with assms(4,5) have r: "u1 = user_queues_lock (?v\<lparr>locks := replicate 8 False\<rparr>)" "w1 = w2"
      by (auto simp: al5_user_destroy_channel_def AL5_USER_OPS_NUMBER_def)
    show ?thesis using assms(2-4) w2(1) unfolding r
      by (simp add: user_frame dangling_user_def same_held_def al5_chan_is_created_def)
  next
    let ?x = "?v\<lparr>locks := replicate 8 True\<rparr>"
    assume "lock_ops 8 0 ?v w = Some (0, ?x, w2)"
    with assms(4,5) obtain err2 u2 w3 u3 w4 u4 where e: "destroy_exchange quiet ?x w2 = Some (err2, u2, w3)"
      "(if err2 \<noteq> 0 then Some (u2, w3) else al5_user_destroy_channel_resources
          (u2\<lparr>chan_uid := BAD_CHAN, checkpoint := NO_CHECKPOINT\<rparr>) w3) = Some (u3, w4)"
      "unlock_ops 8 0 u3 = Some u4" "u1 = user_queues_lock u4" "w1 = w4"
      by (auto simp: al5_user_destroy_channel_def AL5_USER_OPS_NUMBER_def EINTR_def split: Option.bind_splits)
    from destroy_exchange_same [OF e(1)] have s: "same_user ?x u2" "same_held w2 w3" by auto
    have f: "locks u2 = replicate 8 True" "int_buffers u2 = int_buffers u" "rec_buffers u2 = rec_buffers u"
      "chan_uid u2 = chan_uid u"
      using same_userD [OF s(1)] by (simp_all add: user_frame)
    have h: "holds_res w3 (R \<union> G)" using assms(3) w2(1) s(2) by (simp add: same_held_def)
    show ?thesis
    proof (cases "err2 = 0")
      case True
      let ?y = "u2\<lparr>chan_uid := BAD_CHAN, checkpoint := NO_CHECKPOINT\<rparr>"
      have r: "al5_user_destroy_channel_resources ?y w3 = Some (u3, w4)" using e(2) True by simp
      have "dangling_user ?y R G" using assms(2) f by (simp add: dangling_user_def)
      from dangling_resources [OF this h r] have "held {} (trace w4) = None" .
      moreover have "locks u3 = replicate 8 True" "chan_uid u3 = BAD_CHAN"
        using r f by (auto simp: al5_user_destroy_channel_resources_def split: Option.bind_splits)
      then have "chan_uid u4 = BAD_CHAN" using unlock_ops_law [of u3 0 8 "[]"] e(3) by auto
      ultimately show ?thesis using e(4,5) by (simp add: user_frame al5_chan_is_created_def)
    next
      case False
      with e(2) have u3: "u3 = u2" "w4 = w3" by auto
      have "unlock_ops 8 0 u3 = Some (u3\<lparr>locks := replicate 8 False\<rparr>)"
        using unlock_ops_law [of u3 0 8 "[]"] u3 f by simp
      with e(3) have u4: "u4 = u2\<lparr>locks := replicate 8 False\<rparr>" using u3 by simp
      show ?thesis using assms(2,4) e(4,5) u3 u4 f h
        by (simp add: user_frame dangling_user_def al5_chan_is_created_def)
    qed
  qed
qed

text \<open>The allocation of the pools of a channel, when the second array of one of them fails.\<close>

definition a_second_array_fails :: "al5_channel_buffers \<Rightarrow> al5_user \<Rightarrow> kdev \<Rightarrow> bool" where
  "a_second_array_fails b u w \<longleftrightarrow> second_array_fails (unat (int_buffers_count b)) w
     \<or> (case al5_bufpool_allocate (int_buffers u) (unat (int_buffers_count b)) (int_buffers_size b) w of
          Some (e, ib, w1) \<Rightarrow> e = 0 \<and> second_array_fails (unat (rec_buffers_count b)) w1
        | None \<Rightarrow> False)"

lemma allocate_dangling:
  assumes "holds_res w H" "a_second_array_fails b u w"
  shows "\<exists>u1 w1 R. allocate_channel_buffers b u w = Some (- ENOMEM, u1, w1) \<and> dangling_user u1 R H \<and> holds_res w1 (R \<union> H)
    \<and> locks u1 = locks u \<and> chan_uid u1 = chan_uid u"
proof (cases "second_array_fails (unat (int_buffers_count b)) w")
  case True
  from second_array_law [OF assms(1) True, of "int_buffers u" "int_buffers_size b"] obtain pool1 w1 where
    "al5_bufpool_allocate (int_buffers u) (unat (int_buffers_count b)) (int_buffers_size b) w = Some (- ENOMEM, pool1, w1)"
    "holds_res w1 H" "dangling_pool pool1 H" by blast
  then show ?thesis
    by (intro exI [of _ "u\<lparr>int_buffers := pool1\<rparr>"] exI [of _ w1] exI [of _ "{}"])
      (simp add: allocate_channel_buffers_def dangling_user_def Let_def ENOMEM_def)
next
  case False
  let ?sz = "rec_buffers_size b + (pagesize - rec_buffers_size b mod pagesize)"
  from False assms(2) obtain ib w1 where ib:
    "al5_bufpool_allocate (int_buffers u) (unat (int_buffers_count b)) (int_buffers_size b) w = Some (0, ib, w1)"
    "second_array_fails (unat (rec_buffers_count b)) w1"
    by (auto simp: a_second_array_fails_def split: option.splits)
  from assms(1) obtain ds where ds: "pool_ok (unat (int_buffers_count b)) (int_buffers_size b) ds ib"
    "holds_res w1 (pool_res ds ib \<union> H)" "pool_res ds ib \<inter> H = {}"
    by (cases rule: bufpool_allocate_cases [where pool = "int_buffers u" and cnt = "unat (int_buffers_count b)" and sz = "int_buffers_size b"])
      (use ib(1) in \<open>auto simp: ENOMEM_def\<close>)
  from second_array_law [OF ds(2) ib(2), of "rec_buffers u" ?sz] obtain rb w2 where
    "al5_bufpool_allocate (rec_buffers u) (unat (rec_buffers_count b)) ?sz w1 = Some (- ENOMEM, rb, w2)"
    "holds_res w2 (pool_res ds ib \<union> H)" "dangling_pool rb (pool_res ds ib \<union> H)" by blast
  moreover have "pool_owns ib (pool_res ds ib)" using ds(1) by (auto simp: pool_owns_def)
  ultimately show ?thesis using ib(1) ds(3)
    by (intro exI [of _ "u\<lparr>int_buffers := ib, rec_buffers := rb\<rparr>"] exI [of _ w2] exI [of _ "pool_res ds ib"])
      (simp add: allocate_channel_buffers_def dangling_user_def Let_def ENOMEM_def)
qed

section \<open>Properties\<close>

text \<open>What holds of a user between its calls: no lock is held, a channel is absent, complete or waits for one
  of its two messages, and the pools are all the user holds.\<close>

definition chan_inv :: "al5_user \<Rightarrow> kdev \<Rightarrow> resource set \<Rightarrow> bool" where
  "chan_inv u w H \<longleftrightarrow> idle u
     \<and> checkpoint u \<in> {NO_CHECKPOINT, CHECKPOINT_SEND_INTERMEDIATE_BUFFERS, CHECKPOINT_SEND_REFERENCE_BUFFERS}
     \<and> (\<not> al5_chan_is_created u \<longrightarrow> \<not> al5_have_checkpoint u \<and> int_buffers u = al5_bufpool_init \<and> rec_buffers u = al5_bufpool_init)
     \<and> (\<exists>R. user_owns u R \<and> R \<inter> H = {} \<and> holds_res w (R \<union> H))"

lemma chan_inv_same: "chan_inv u w H \<Longrightarrow> same_held w w1 \<Longrightarrow> chan_inv u w1 H"
  unfolding chan_inv_def same_held_def by blast

lemma chan_inv_unlocked:
  assumes "chan_inv u w H" "same_held w w1" "chan_uid v = chan_uid u" "checkpoint v = checkpoint u"
    "int_buffers v = int_buffers u" "rec_buffers v = rec_buffers u"
  shows "chan_inv (v\<lparr>locks := replicate 8 False\<rparr>) w1 H"
  using assms unfolding chan_inv_def user_owns_def same_held_def
  by (simp add: idle_def al5_chan_is_created_def al5_have_checkpoint_def) blast

lemma pool_owns_init: "pool_owns al5_bufpool_init R \<Longrightarrow> R = {}"
  by (auto simp: pool_owns_def pool_ok_def arrays_ok_def)

lemma owns_nothing:
  "user_owns u R \<Longrightarrow> int_buffers u = al5_bufpool_init \<Longrightarrow> rec_buffers u = al5_bufpool_init \<Longrightarrow> R = {}"
  by (auto simp: user_owns_def dest: pool_owns_init)

text \<open>The last two steps and the end of the call.\<close>

lemma send_phase:
  assumes "only_lock AL5_USER_CREATE u" "al5_chan_is_created u" "user_owns u R" "R \<inter> H = {}" "holds_res w (R \<union> H)"
    "checkpoint u \<in> {CHECKPOINT_SEND_INTERMEDIATE_BUFFERS, CHECKPOINT_SEND_REFERENCE_BUFFERS}"
    "do { (err3, u3, w3) \<leftarrow> step_intermediate u w;
          if err3 \<noteq> 0 then unlock_with AL5_USER_CREATE (err3, st, u3, w3)
          else do { (err4, u4, w4) \<leftarrow> step_reference u3 w3; unlock_with AL5_USER_CREATE (err4, st, u4, w4) } }
     = Some (err, st1, u1, w1)"
  shows "chan_inv u1 w1 H \<and> (err = 0 \<longrightarrow> channel_is_fully_created u1)"
proof -
  have inv: "chan_inv (v\<lparr>locks := replicate 8 False\<rparr>) w2 H \<and> only_lock AL5_USER_CREATE v"
    if "checkpoint v \<in> {NO_CHECKPOINT, CHECKPOINT_SEND_INTERMEDIATE_BUFFERS, CHECKPOINT_SEND_REFERENCE_BUFFERS}"
      "v = u\<lparr>checkpoint := c\<rparr>" "same_held w w2" for v w2 c
    using that assms(1-5) unfolding chan_inv_def user_owns_def only_lock_def same_held_def
    by (simp add: idle_def al5_chan_is_created_def) blast
  from assms(7) obtain e3 u3 w3 where s3: "step_intermediate u w = Some (e3, u3, w3)" by (auto split: Option.bind_splits)
  note l3 = send_steps_law(1) [OF s3]
  have u3: "u3 = u\<lparr>checkpoint := checkpoint u3\<rparr>" "checkpoint u3 \<in> {CHECKPOINT_SEND_INTERMEDIATE_BUFFERS, CHECKPOINT_SEND_REFERENCE_BUFFERS}"
    "e3 = 0 \<longrightarrow> checkpoint u3 = CHECKPOINT_SEND_REFERENCE_BUFFERS" using l3 assms(6) by (auto simp: checkpoints)
  have i3: "chan_inv (u3\<lparr>locks := replicate 8 False\<rparr>) w3 H" "only_lock AL5_USER_CREATE u3"
    using inv [OF _ u3(1)] u3(2) l3 by auto
  show ?thesis
  proof (cases "e3 = 0")
    case False
    with assms(7) s3 i3 show ?thesis by (auto simp: unlock_with_eq)
  next
    case True
    with assms(7) s3 obtain e4 u4 w4 where s4: "step_reference u3 w3 = Some (e4, u4, w4)"
      "unlock_with AL5_USER_CREATE (e4, st, u4, w4) = Some (err, st1, u1, w1)" by (auto split: Option.bind_splits)
    note l4 = send_steps_law(2) [OF s4(1)]
    have u4: "u4 = u\<lparr>checkpoint := checkpoint u4\<rparr>" using l4 u3(1) by (auto split: if_splits)
    have c4: "checkpoint u4 \<in> {NO_CHECKPOINT, CHECKPOINT_SEND_REFERENCE_BUFFERS}" "e4 = 0 \<longrightarrow> checkpoint u4 = NO_CHECKPOINT"
      using l4 u3(3) True by (auto simp: checkpoints split: if_splits)
    have "same_held w w4" using l3 l4 by (auto intro: same_held_trans)
    with inv [OF _ u4] c4(1) have i4: "chan_inv (u4\<lparr>locks := replicate 8 False\<rparr>) w4 H" "only_lock AL5_USER_CREATE u4" by auto
    have "al5_chan_is_created u4" using u4 assms(2) unfolding al5_chan_is_created_def
      by (metis al5_user.select_convs(2) al5_user.surjective al5_user.update_convs(3))
    with s4(2) i4 c4(2) show ?thesis
      by (auto simp: unlock_with_eq channel_is_fully_created_def al5_chan_is_created_def al5_have_checkpoint_def)
  qed
qed

text \<open>What is left of the creation after its first step.\<close>

definition create_rest :: "al5e_feedback_channel \<Rightarrow> u32 \<Rightarrow> al5_user \<Rightarrow> kdev \<Rightarrow> (int \<times> u32 \<times> al5_user \<times> kdev) option" where
  "create_rest fb st v w =
     do { (err2, u2, w2) \<leftarrow> step_allocate fb v w;
          if err2 \<noteq> 0
          then do { u3 \<leftarrow> mutex_unlock AL5_USER_CREATE (u2\<lparr>checkpoint := NO_CHECKPOINT\<rparr>);
                    (_, u4, w4) \<leftarrow> al5_user_destroy_channel False u3 w2;
                    Some (err2, st, u4, w4) }
          else do {
            (err3, u3, w3) \<leftarrow> step_intermediate u2 w2;
            if err3 \<noteq> 0 then unlock_with AL5_USER_CREATE (err3, st, u3, w3)
            else do { (err4, u4, w4) \<leftarrow> step_reference u3 w3; unlock_with AL5_USER_CREATE (err4, st, u4, w4) } } }"

lemma resumed_rest:
  assumes "only_lock AL5_USER_CREATE v" "chan_inv u w H" "same_held w w3" "v = u\<lparr>locks := l\<rparr>"
    "al5_have_checkpoint u" "create_rest fb st v w3 = Some (err, st1, u1, w1)"
  shows "chan_inv u1 w1 H \<and> (err = 0 \<longrightarrow> channel_is_fully_created u1)"
proof -
  have c: "checkpoint v \<in> {CHECKPOINT_SEND_INTERMEDIATE_BUFFERS, CHECKPOINT_SEND_REFERENCE_BUFFERS}"
    using assms(2,4,5) by (auto simp: chan_inv_def al5_have_checkpoint_def)
  then have x: "step_allocate fb v w3 = Some (0, v, w3)" by (auto simp: step_allocate_def checkpoints)
  have cr: "al5_chan_is_created v" using assms(2,4,5) by (auto simp: chan_inv_def al5_chan_is_created_def)
  obtain R where R: "user_owns v R" "R \<inter> H = {}" "holds_res w3 (R \<union> H)"
    using assms(2-4) by (auto simp: chan_inv_def user_owns_def same_held_def)
  show ?thesis
    by (rule send_phase [OF assms(1) cr R c, of st err st1]) (use assms(6) x in \<open>simp add: create_rest_def\<close>)
qed

lemma fresh_rest:
  assumes "only_lock AL5_USER_CREATE v" "al5_chan_is_created v" "checkpoint v = CHECKPOINT_ALLOCATE_BUFFERS"
    "int_buffers v = al5_bufpool_init" "rec_buffers v = al5_bufpool_init" "holds_res w3 H"
    "create_rest fb st v w3 = Some (err, st1, u1, w1)"
  shows "idle u1 \<and> (err \<noteq> - ENOMEM \<longrightarrow> chan_inv u1 w1 H) \<and> (err = 0 \<longrightarrow> channel_is_fully_created u1)"
proof -
  from assms(7) obtain e2 x w4 where s2: "step_allocate fb v w3 = Some (e2, x, w4)" by (auto simp: create_rest_def split: Option.bind_splits)
  from s2 assms(3) obtain y where y: "allocate_channel_buffers (buffers_needed fb) v w3 = Some (e2, y, w4)"
    "x = (if e2 \<noteq> 0 then y else y\<lparr>checkpoint := CHECKPOINT_SEND_INTERMEDIATE_BUFFERS\<rparr>)"
    by (auto simp: step_allocate_def split: Option.bind_splits)
  note al = allocate_law [OF assms(4-6) y(1)]
  show ?thesis
  proof (cases "e2 = 0")
    case True
    with al y assms(2) obtain R where R: "user_owns x R" "R \<inter> H = {}" "holds_res w4 (R \<union> H)"
      by (auto simp: user_owns_def)
    have "only_lock AL5_USER_CREATE x" "al5_chan_is_created x"
      "checkpoint x \<in> {CHECKPOINT_SEND_INTERMEDIATE_BUFFERS, CHECKPOINT_SEND_REFERENCE_BUFFERS}"
      using al y(2) True assms(1,2) by (auto simp: only_lock_def al5_chan_is_created_def)
    from send_phase [OF this(1,2) R this(3), of st err st1 u1 w1] assms(7) s2 True
    show ?thesis by (simp add: chan_inv_def create_rest_def)
  next
    case False
    with al have e2: "e2 = - ENOMEM" and lx: "only_lock AL5_USER_CREATE (x\<lparr>checkpoint := NO_CHECKPOINT\<rparr>)"
      using y(2) assms(1) by (auto simp: only_lock_def)
    with assms(7) s2 False obtain e5 w5 where
      "al5_user_destroy_channel False (x\<lparr>checkpoint := NO_CHECKPOINT, locks := replicate 8 False\<rparr>) w4 = Some (e5, u1, w5)"
      "err = e2" by (auto simp: create_rest_def only_lock_unlock split: Option.bind_splits)
    then show ?thesis using e2 destroy_channel_idle by (auto simp: ENOMEM_def)
  qed
qed

text \<open>C10: whatever the MCU, the allocators and the signals do, a call of al5e_user_create_channel on a user that
  meets the invariant holds no lock when it returns, returns 0 only with a complete channel, and never returns 0
  when the channel was complete already.  Unless it reports -ENOMEM it keeps the invariant: the memory held is
  exactly the memory of the user's pools, a channel that was refused holds none, and one that could not send a
  message is one the next call completes.  Nothing is claimed of the memory when it reports -ENOMEM: a failed
  allocation of a pool breaks the invariant (see the double free below).\<close>

theorem enc_create_channel:
  assumes "chan_inv u w H" "al5e_user_create_channel param st u w = Some (err, st1, u1, w1)"
  shows "idle u1 \<and> (err \<noteq> - ENOMEM \<longrightarrow> chan_inv u1 w1 H) \<and> (err = 0 \<longrightarrow> channel_is_fully_created u1)
    \<and> (channel_is_fully_created u \<longrightarrow> err \<noteq> 0)"
proof -
  have id: "idle u" and i1: "AL5_USER_CREATE < 8" using assms(1) by (simp_all add: chan_inv_def user_ops)
  from id i1 show ?thesis
  proof (cases rule: lock_idle_cases [where w = w])
    case (interrupted w2)
    with assms id chan_inv_same show ?thesis by (auto simp: al5e_user_create_channel_def EINTR_def)
  next
    case (locked w2)
    let ?u = "u\<lparr>locks := (locks u)[AL5_USER_CREATE := True]\<rparr>"
    note ass = assms(2) [unfolded al5e_user_create_channel_def locked(1), simplified]
    have un: "u\<lparr>locks := replicate 8 False\<rparr> = u" using id by (simp add: idle_def)
    have full: "channel_is_fully_created ?u = channel_is_fully_created u"
      by (simp add: channel_is_fully_created_def al5_chan_is_created_def al5_have_checkpoint_def)
    show ?thesis
    proof (cases "channel_is_fully_created u")
      case True
      with ass full locked(2) un have "err = - EPERM" "u1 = u" "w1 = w2" by (auto simp: unlock_with_eq EINTR_def)
      with chan_inv_same [OF assms(1) locked(3)] True id show ?thesis by (simp add: EPERM_def)
    next
      case nf: False
      with ass full obtain e1 st2 fb v w3 where s1: "step_create param st ?u w2 = Some (e1, st2, fb, v, w3)"
        by (auto simp: EINTR_def split: Option.bind_splits)
      note l1 = step_create_law [OF s1]
      have h3: "same_held w w3" using l1 locked(3) by (auto intro: same_held_trans)
      have ol: "only_lock AL5_USER_CREATE v" using l1 locked(2) by (simp add: only_lock_def)
      show ?thesis
      proof (cases "e1 = 0")
        case False
        with ass full nf s1 ol have r: "err = e1" "u1 = v\<lparr>locks := replicate 8 False\<rparr>" "w1 = w3"
          by (auto simp: unlock_with_eq EINTR_def)
        have "chan_inv (v\<lparr>locks := replicate 8 False\<rparr>) w3 H"
          by (rule chan_inv_unlocked [OF assms(1) h3]) (use l1 False in \<open>auto split: if_splits\<close>)
        with r False nf show ?thesis by simp
      next
        case e1: True
        have rest: "create_rest fb st2 v w3 = Some (err, st1, u1, w1)"
          using ass full nf s1 e1 by (simp add: EINTR_def create_rest_def)
        show ?thesis
        proof (cases "al5_have_checkpoint u")
          case True
          then have "v = ?u" using l1 by (auto simp: al5_have_checkpoint_def)
          from resumed_rest [OF ol assms(1) h3 this True rest] nf show ?thesis by (simp add: chan_inv_def)
        next
          case nc: False
          then have v: "al5_chan_is_created v" "checkpoint v = CHECKPOINT_ALLOCATE_BUFFERS"
            using l1 e1 by (auto simp: al5_have_checkpoint_def)
          have "int_buffers u = al5_bufpool_init" "rec_buffers u = al5_bufpool_init"
            using assms(1) nc nf by (auto simp: chan_inv_def channel_is_fully_created_def)
          then have "int_buffers v = al5_bufpool_init" "rec_buffers v = al5_bufpool_init" "holds_res w3 H"
            using assms(1) l1 h3 owns_nothing by (fastforce simp: chan_inv_def same_held_def)+
          from fresh_rest [OF ol v this rest] nf show ?thesis by simp
        qed
      qed
    qed
  qed
qed

text \<open>A system whose MCU accepts the channel 3 with a buffer of each kind, and confirms its destruction.\<close>

definition example_dev :: "bool list \<Rightarrow> kdev" where
  "example_dev as = \<lparr>answers = as, trace = [], next_ptr = 1, bus = of_nat,
     fd_info = (\<lambda>_. (0, \<lparr>bus_address = 0, info_size = 0\<rparr>)), others = (\<lambda>_. False),
     km = (\<lambda>_ n. Some (replicate n 0)), mails_made = 0,
     mcu = \<lparr>mcu_to_cpu = al5_mailbox_init (replicate 128 0) 128, cpu_to_mcu = al5_mailbox_init (replicate 128 0) 128,
            interrupts = 0\<rparr>,
     sleeps = [([\<lparr>body_offset = 0, msg_uid = 5, body_size = 32, body = concat (map word_bytes [3, 1, 1, 4096, 1, 4096, 0, 0])\<rparr>], 1),
               ([\<lparr>body_offset = 0, msg_uid = 6, body_size = 4, body = word_bytes 3\<rparr>], 1)]\<rparr>"

definition example_params :: al5_params where
  "example_params = \<lparr>params_size = 4, opaque_params = [1, 2, 3, 4]\<rparr>"

lemma example_inv: "chan_inv (al5_user_init 1) (example_dev as) {}"
  by (auto simp: chan_inv_def al5_user_init_def user_ops user_owns_def pool_owns_def holds_res_def example_dev_def
      idle_def al5_have_checkpoint_def)

lemma enc_create_channel_witness:
  "\<exists>st1 u1 w1. al5e_user_create_channel example_params 0 (al5_user_init 1) (example_dev []) = Some (0, st1, u1, w1)
     \<and> chan_inv u1 w1 {} \<and> channel_is_fully_created u1"
proof -
  have "map_option fst (al5e_user_create_channel example_params 0 (al5_user_init 1) (example_dev [])) = Some 0" by code_simp
  then obtain st1 u1 w1 where r: "al5e_user_create_channel example_params 0 (al5_user_init 1) (example_dev []) = Some (0, st1, u1, w1)"
    by auto
  from enc_create_channel [OF example_inv r] r show ?thesis by (auto simp: ENOMEM_def)
qed

text \<open>C12: destroying a channel gives back every buffer of its pools exactly once, and every lock; when the call
  fails, because of a signal or of the MCU, the channel, its pools and the memory they hold stay as they were.\<close>

theorem destroy_channel:
  assumes "idle u" "user_owns u R" "holds_res w (R \<union> H)" "R \<inter> H = {}"
    "al5_user_destroy_channel quiet u w = Some (err, u1, w1)"
  shows "idle u1 \<and>
    (if err = 0 then \<not> al5_chan_is_created u1 \<and> \<not> al5_have_checkpoint u1
        \<and> int_buffers u1 = al5_bufpool_init \<and> rec_buffers u1 = al5_bufpool_init \<and> holds_res w1 H
     else chan_uid u1 = chan_uid u \<and> checkpoint u1 = checkpoint u \<and> user_owns u1 R \<and> holds_res w1 (R \<union> H))"
  using destroy_channel_law [OF assms] by (simp split: if_splits)

lemma destroy_channel_witness:
  "\<exists>u1 w1. al5_user_destroy_channel True ((al5_user_init 1)\<lparr>chan_uid := 3\<rparr>) (example_dev []) = Some (0, u1, w1)
     \<and> idle u1 \<and> \<not> al5_chan_is_created u1 \<and> holds_res w1 {}"
proof -
  let ?u = "(al5_user_init 1)\<lparr>chan_uid := 3\<rparr>"
  have "map_option fst (al5_user_destroy_channel True ?u (example_dev [])) = Some 0" by code_simp
  then obtain u1 w1 where r: "al5_user_destroy_channel True ?u (example_dev []) = Some (0, u1, w1)" by auto
  have "idle ?u" "user_owns ?u {}" "holds_res (example_dev []) ({} \<union> {})"
    by (auto simp: al5_user_init_def user_ops idle_def user_owns_def pool_owns_def holds_res_def example_dev_def)
  from destroy_channel [OF this _ r] r show ?thesis by auto
qed

text \<open>C14: when the MCU has accepted a new channel and the second array of one of its two pools cannot be
  allocated, al5_bufpool_allocate frees the first array and keeps its pointer, and the clean-up of
  al5e_user_create_channel destroys the channel: the call returns -ENOMEM, and either the channel is gone and
  that pointer was freed twice (the trace releases memory that is not held), or the clean-up was interrupted or
  refused and the channel is left with the pointer to freed memory in its pool.\<close>

theorem enc_create_channel_double_free:
  assumes "chan_inv u w H" "\<not> al5_chan_is_created u"
    "mutex_lock_killable AL5_USER_CREATE u w = Some (0, u0, w0)"
    "step_create param st u0 w0 = Some (0, st1, fb, v, w1)"
    "a_second_array_fails (buffers_needed fb) v w1"
    "al5e_user_create_channel param st u w = Some (err, st2, u2, w2)"
  shows "err = - ENOMEM
    \<and> (if al5_chan_is_created u2
       then \<exists>G. held {} (trace w2) = Some G \<and> (\<exists>pool \<in> {int_buffers u2, rec_buffers u2}. buffers pool \<noteq> 0 \<and> Mem (buffers pool) \<notin> G)
       else held {} (trace w2) = None)"
proof -
  have id: "idle u" and i1: "AL5_USER_CREATE < 8" and nc: "\<not> al5_have_checkpoint u"
    and init: "int_buffers u = al5_bufpool_init" "rec_buffers u = al5_bufpool_init"
    using assms(1,2) by (simp_all add: chan_inv_def user_ops)
  then have hw: "holds_res w H" using assms(1) owns_nothing unfolding chan_inv_def by fastforce
  from id i1 have u0: "u0 = u\<lparr>locks := (locks u)[AL5_USER_CREATE := True]\<rparr>" "only_lock AL5_USER_CREATE u0" "same_held w w0"
    by (cases rule: lock_idle_cases [where w = w]; use assms(3) in \<open>simp add: EINTR_def\<close>)+
  note l1 = step_create_law [OF assms(4)]
  have v: "al5_chan_is_created v" "checkpoint v = CHECKPOINT_ALLOCATE_BUFFERS" "only_lock AL5_USER_CREATE v"
    using l1 nc u0(1,2) by (auto simp: al5_have_checkpoint_def only_lock_def)
  have hw1: "holds_res w1 H" using hw u0(3) l1 by (simp add: same_held_def)
  from allocate_dangling [OF hw1 assms(5)] obtain x w3 R where x:
    "allocate_channel_buffers (buffers_needed fb) v w1 = Some (- ENOMEM, x, w3)" "dangling_user x R H" "holds_res w3 (R \<union> H)"
    "locks x = locks v" "chan_uid x = chan_uid v" by blast
  let ?y = "x\<lparr>checkpoint := NO_CHECKPOINT, locks := replicate 8 False\<rparr>"
  have "only_lock AL5_USER_CREATE (x\<lparr>checkpoint := NO_CHECKPOINT\<rparr>)" using v(3) x(4) by (simp add: only_lock_def)
  then have "err = - ENOMEM \<and> (\<exists>e. al5_user_destroy_channel False ?y w3 = Some (e, u2, w2))"
    using assms(6) assms(2-4) x(1) v(2) u0(1)
    by (auto simp: al5e_user_create_channel_def step_allocate_def only_lock_unlock ENOMEM_def EINTR_def
        channel_is_fully_created_def al5_chan_is_created_def split: Option.bind_splits)
  then obtain e where e: "err = - ENOMEM" "al5_user_destroy_channel False ?y w3 = Some (e, u2, w2)" by blast
  have "idle ?y" "dangling_user ?y R H" "al5_chan_is_created ?y"
    using x(2,5) v(1) by (simp_all add: idle_def dangling_user_def al5_chan_is_created_def)
  from destroy_dangling [OF this(1,2) x(3) this(3) e(2)] e(1) show ?thesis
    unfolding dangling_user_def dangling_pool_def holds_res_def by (auto split: if_splits)
qed

lemma enc_create_channel_double_free_witness:
  "\<exists>st2 u2 w2. al5e_user_create_channel example_params 0 (al5_user_init 1) (example_dev [True, True, False])
      = Some (- ENOMEM, st2, u2, w2) \<and> held {} (trace w2) = None"
proof -
  let ?u = "al5_user_init 1" and ?w = "example_dev [True, True, False]"
  have path: "case mutex_lock_killable AL5_USER_CREATE ?u ?w of None \<Rightarrow> False
    | Some (e, u0, w0) \<Rightarrow> e = 0 \<and> (case step_create example_params 0 u0 w0 of None \<Rightarrow> False
      | Some (e1, st1, fb, v, w1) \<Rightarrow> e1 = 0 \<and> a_second_array_fails (buffers_needed fb) v w1)" by code_simp
  have run: "case al5e_user_create_channel example_params 0 ?u ?w of None \<Rightarrow> False
    | Some (e, st2, u2, w2) \<Rightarrow> \<not> al5_chan_is_created u2" by code_simp
  from path obtain u0 w0 st1 fb v w1 where p: "mutex_lock_killable AL5_USER_CREATE ?u ?w = Some (0, u0, w0)"
    "step_create example_params 0 u0 w0 = Some (0, st1, fb, v, w1)" "a_second_array_fails (buffers_needed fb) v w1"
    by (auto split: option.splits)
  from run obtain err st2 u2 w2 where r: "al5e_user_create_channel example_params 0 ?u ?w = Some (err, st2, u2, w2)"
    "\<not> al5_chan_is_created u2" by (auto split: option.splits)
  have "\<not> al5_chan_is_created ?u" by (simp add: al5_user_init_def al5_chan_is_created_def)
  from enc_create_channel_double_free [OF example_inv this p r(1)] r show ?thesis by auto
qed

text \<open>The other operations of the encoder.\<close>

lemma unlock_after:
  "only_lock i u \<Longrightarrow> unlock_with i (e, x, u, w) = Some (err, r, u1, w1) \<Longrightarrow> idle u1"
  by (auto simp: unlock_with_eq)

lemma unlock_after_pop:
  "only_lock i u \<Longrightarrow> user_pop k u w = (m, v, w2) \<Longrightarrow> unlock_with i (e, x, v, w3) = Some (err, r, u1, w1) \<Longrightarrow> idle u1"
  by (auto dest!: user_pop_same intro: unlock_after only_lock_same)

lemma encode_idle:
  assumes "idle u" "al5e_user_encode_one_frame em u w = Some (err, x, u1, w1)"
  shows "idle u1"
proof -
  have "AL5_USER_XCODE < 8" by (simp add: user_ops)
  from assms(1) this show ?thesis
    by (cases rule: lock_idle_cases [where w = w])
      (use assms in \<open>auto simp: al5e_user_encode_one_frame_def EINTR_def Let_def
        split: if_splits prod.splits Option.bind_splits intro: unlock_after\<close>)
qed

lemma wait_idle:
  assumes "idle u" "al5e_user_wait_for_status sm u w = Some (err, x, u1, w1)"
  shows "idle u1"
proof -
  have "AL5_USER_STATUS < 8" by (simp add: user_ops)
  from assms(1) this show ?thesis
    by (cases rule: trylock_idle_cases [where w = w])
      (use assms in \<open>auto simp: al5e_user_wait_for_status_def Let_def
        split: if_splits prod.splits Option.bind_splits option.splits intro: unlock_after unlock_after_pop\<close>)
qed

lemma get_rec_idle:
  assumes "idle u" "al5e_user_get_rec ri u w = Some (err, x, u1, w1)"
  shows "idle u1"
proof -
  have "AL5_USER_REC < 8" by (simp add: user_ops)
  from assms(1) this show ?thesis
    by (cases rule: trylock_idle_cases [where w = w])
      (use assms in \<open>auto simp: al5e_user_get_rec_def Let_def
        split: if_splits prod.splits Option.bind_splits option.splits intro: unlock_after unlock_after_pop\<close>)
qed

lemma release_rec_idle:
  assumes "idle u" "al5e_user_release_rec fd u w = Some (err, x, u1, w1)"
  shows "idle u1"
proof -
  have "AL5_USER_REC < 8" by (simp add: user_ops)
  from assms(1) this show ?thesis
    by (cases rule: trylock_idle_cases [where w = w])
      (use assms in \<open>auto simp: al5e_user_release_rec_def Let_def
        split: if_splits prod.splits Option.bind_splits intro: unlock_after\<close>)
qed

text \<open>C16: every operation of an encoder user that finds its locks free leaves them free, whatever it returns: no
  early return keeps a lock.\<close>

theorem enc_locks_released:
  assumes "idle u"
  shows "(\<forall>err x u1 w1. al5e_user_encode_one_frame em u w = Some (err, x, u1, w1) \<longrightarrow> idle u1)
    \<and> (\<forall>err x u1 w1. al5e_user_wait_for_status sm u w = Some (err, x, u1, w1) \<longrightarrow> idle u1)
    \<and> (\<forall>err x u1 w1. al5e_user_get_rec ri u w = Some (err, x, u1, w1) \<longrightarrow> idle u1)
    \<and> (\<forall>err x u1 w1. al5e_user_release_rec fd u w = Some (err, x, u1, w1) \<longrightarrow> idle u1)
    \<and> (\<forall>err u1 w1. al5_user_destroy_channel q u w = Some (err, u1, w1) \<longrightarrow> idle u1)"
  by (intro conjI allI impI)
    (erule encode_idle [OF assms] wait_idle [OF assms] get_rec_idle [OF assms] release_rec_idle [OF assms]
       destroy_channel_idle [OF _ assms])+

lemma enc_locks_released_witness:
  "\<exists>u1 w1. al5e_user_wait_for_status example_params ((al5_user_init 1)\<lparr>chan_uid := 3\<rparr>) ((example_dev [])\<lparr>sleeps := []\<rparr>)
      = Some (- EINTR, example_params, u1, w1) \<and> idle u1"
proof -
  let ?u = "(al5_user_init 1)\<lparr>chan_uid := 3\<rparr>" and ?w = "(example_dev [])\<lparr>sleeps := []\<rparr>"
  have "map_option (\<lambda>(e, s, _). (e, s)) (al5e_user_wait_for_status example_params ?u ?w) = Some (- EINTR, example_params)"
    by code_simp
  then obtain u1 w1 where r: "al5e_user_wait_for_status example_params ?u ?w = Some (- EINTR, example_params, u1, w1)" by auto
  have "idle ?u" by (simp add: al5_user_init_def user_ops idle_def)
  from enc_locks_released [OF this, where sm = example_params and w = ?w] r have "idle u1" by blast
  with r show ?thesis by blast
qed

end
