(* ===== verification/KGroup.thy ===== *)
theory KGroup imports EncUserProofs MailboxProofs begin

text \<open>
  vcu-modules/common/al_group.c and the opening and closing of the device in al_codec.c: the users of a device
  and the delivery of the mails of the MCU to them.

  \<open>users\<close> is the array of pointers; the memory behind a pointer is the \<open>al5_user\<close>.  A user whose memory is
  gone is not in \<open>live\<close>: following a pointer to it is an error (\<open>None\<close>).
\<close>

record al5_group =
  users :: "nat option list"
  store :: "nat \<Rightarrow> al5_user"
  live :: "nat \<Rightarrow> bool"

text \<open>The array of pointers is not tested for null.\<close>

definition al5_group_init :: "nat \<Rightarrow> al5_group" where
  "al5_group_init max_users_nb =
     \<lparr>users = replicate max_users_nb None, store = (\<lambda>_. al5_user_init 0), live = (\<lambda>_. False)\<rparr>"

fun free_slot :: "nat option list \<Rightarrow> nat \<Rightarrow> int" where
  "free_slot [] i = - 1"
| "free_slot (p # ps) i = (if p = None then int i else free_slot ps (i + 1))"

definition al5_group_bind_user :: "al5_group \<Rightarrow> nat \<Rightarrow> int \<times> al5_group" where
  "al5_group_bind_user grp ptr =
     (let uid = free_slot (users grp) 0 in
      if uid = - 1 then (- EAGAIN, grp)
      else (0, grp\<lparr>users := (users grp)[nat uid := Some ptr], store := (store grp)(ptr := al5_user_init uid)\<rparr>))"

definition al5_group_unbind_user :: "al5_group \<Rightarrow> nat \<Rightarrow> al5_group option" where
  "al5_group_unbind_user grp ptr =
     (let uid = user_uid (store grp ptr) in
      if 0 \<le> uid \<and> nat uid < length (users grp) \<and> live grp ptr
      then Some (grp\<lparr>users := (users grp)[nat uid := None]\<rparr>) else None)"

definition al5_group_user_from_uid :: "al5_group \<Rightarrow> int \<Rightarrow> nat option" where
  "al5_group_user_from_uid grp uid =
     (if uid \<ge> int (length (users grp)) \<or> uid < 0 then None else users grp ! nat uid)"

definition hasChannelId :: "al5_group \<Rightarrow> nat option \<Rightarrow> u32 \<Rightarrow> bool option" where
  "hasChannelId grp p channel_id =
     (case p of None \<Rightarrow> Some False
      | Some ptr \<Rightarrow> if live grp ptr then Some (chan_uid (store grp ptr) = channel_id) else None)"

fun find_channel :: "al5_group \<Rightarrow> nat option list \<Rightarrow> u32 \<Rightarrow> nat option option" where
  "find_channel grp [] c = Some None"
| "find_channel grp (p # ps) c =
     do { h \<leftarrow> hasChannelId grp p c; if h then Some p else find_channel grp ps c }"

definition al5_group_user_from_chan_uid :: "al5_group \<Rightarrow> u32 \<Rightarrow> nat option option" where
  "al5_group_user_from_chan_uid grp c = find_channel grp (users grp) c"

definition destroy_orphan_channel :: "u32 \<Rightarrow> kdev \<Rightarrow> kdev option" where
  "destroy_orphan_channel c w =
     (let (alloc, w1) = next_km w in
      do { mail \<leftarrow> create_quiet_destroy_channel_msg alloc c;
           case mail of
             None \<Rightarrow> Some w1
           | Some m \<Rightarrow> do { (err, mc) \<leftarrow> al5_mcu_send (mcu w1) m;
                            Some (w1\<lparr>mcu := if err \<noteq> 0 then mc else al5_signal_mcu mc\<rparr>) } })"

definition should_destroy_channel_on_bad_feedback :: "u32 \<Rightarrow> bool" where
  "should_destroy_channel_on_bad_feedback mail_uid \<longleftrightarrow>
     mail_uid \<notin> {AL_MCU_MSG_INIT, AL_MCU_MSG_SEARCH_START_CODE, AL_MCU_MSG_DESTROY_CHANNEL}"

definition retrieve_user :: "al5_group \<Rightarrow> al5_mail \<Rightarrow> nat option option" where
  "retrieve_user grp mail =
     (let uid = al5_mail_get_uid mail in
      if uid = AL_MCU_MSG_CREATE_CHANNEL
      then do { user_uid \<leftarrow> al5_mail_get_word mail 1; Some (al5_group_user_from_uid grp (sint user_uid)) }
      else if uid = AL_MCU_MSG_INIT \<or> uid = AL_MCU_MSG_SEARCH_START_CODE
      then do { user_uid \<leftarrow> al5_mail_get_word mail 0; Some (al5_group_user_from_uid grp (sint user_uid)) }
      else do { chan \<leftarrow> al5_mail_get_word mail 0; al5_group_user_from_chan_uid grp chan })"

definition AL_NO_USER :: int where "AL_NO_USER = - 1"

definition try_to_deliver_to_user :: "al5_group \<Rightarrow> al5_mail \<Rightarrow> kdev \<Rightarrow> (int \<times> al5_group \<times> kdev) option" where
  "try_to_deliver_to_user grp mail w =
     do { user \<leftarrow> retrieve_user grp mail;
          case user of
            None \<Rightarrow> Some (AL_NO_USER, grp, w)
          | Some ptr \<Rightarrow>
              if \<not> live grp ptr then None
              else let (alloc, w1) = answer w;
                       (ret, u) = al5_user_deliver alloc mail (store grp ptr)
                   in Some (ret, grp\<lparr>store := (store grp)(ptr := u)\<rparr>, w1) }"

text \<open>A mail whose delivery runs out of memory is dropped (and its memory lost).\<close>

definition handle_mail :: "al5_group \<Rightarrow> al5_mail \<Rightarrow> kdev \<Rightarrow> (al5_group \<times> kdev) option" where
  "handle_mail grp mail w =
     (let mail_uid = al5_mail_get_uid mail in
      if mail_uid = AL_MCU_MSG_TRACE then Some (grp, w)
      else do { (error, group1, w1) \<leftarrow> try_to_deliver_to_user grp mail w;
                if error = AL_NO_USER \<and> should_destroy_channel_on_bad_feedback mail_uid
                then do { c \<leftarrow> al5_mail_get_chan_uid mail;
                          w2 \<leftarrow> destroy_orphan_channel c w1;
                          Some (group1, w2) }
                else Some (group1, w1) })"

text \<open>\<open>junk\<close> is the content of the words of the stack the header is read into.\<close>

definition read_mail :: "u8 list \<Rightarrow> al5_group \<Rightarrow> kdev \<Rightarrow> (al5_group \<times> kdev) option" where
  "read_mail junk grp w =
     (let (alloc, w1) = next_km w in
      do { (mail, mc) \<leftarrow> al5_mcu_recv alloc junk (mcu w1);
           let w2 = w1\<lparr>mcu := mc\<rparr>;
           case mail of None \<Rightarrow> Some (grp, w2) | Some m \<Rightarrow> handle_mail grp m w2 })"

definition MAX_MAILBOX_MSG :: nat where "MAX_MAILBOX_MSG = 100"

fun read_mails_loop :: "nat \<Rightarrow> u8 list \<Rightarrow> al5_group \<Rightarrow> kdev \<Rightarrow> (al5_group \<times> kdev) option" where
  "read_mails_loop 0 junk grp w = Some (grp, w)"
| "read_mails_loop (Suc n) junk grp w =
     (if al5_mcu_is_empty (mcu w) then Some (grp, w)
      else do { (group1, w1) \<leftarrow> read_mail junk grp w; read_mails_loop n junk group1 w1 })"

definition al5_group_read_mails :: "u8 list \<Rightarrow> al5_group \<Rightarrow> kdev \<Rightarrow> (al5_group \<times> kdev) option" where
  "al5_group_read_mails junk grp w = read_mails_loop MAX_MAILBOX_MSG junk grp w"

section \<open>al_codec.c: opening and closing the device\<close>

text \<open>The private data of the file is the pair of its pointer and the user's; its allocation is not tested before
  it is written, nor freed when the call fails.\<close>

definition al5_codec_open :: "al5_group \<Rightarrow> kdev \<Rightarrow> (int \<times> (nat \<times> nat) option \<times> al5_group \<times> kdev) option" where
  "al5_codec_open grp w =
     (let (private_data, w1) = kalloc w;
          (user, w2) = kalloc w1
      in if user = 0 then Some (- ENOMEM, None, grp, w2)
         else let (err, grp1) = al5_group_bind_user grp user
              in if err \<noteq> 0 then Some (err, None, grp, kfree user w2)
                 else if private_data = 0 then None
                 else Some (0, Some (private_data, user), grp1\<lparr>live := (live grp1)(user := True)\<rparr>, w2))"

definition ENOENT :: int where "ENOENT = 2"

text \<open>At most \<open>n\<close> tries to destroy the channel.\<close>

fun destroy_tries :: "nat \<Rightarrow> al5_user \<Rightarrow> kdev \<Rightarrow> (int \<times> al5_user \<times> kdev) option" where
  "destroy_tries 0 user w = Some (- 1, user, w)"
| "destroy_tries (Suc n) user w =
     do { (ret, u, w1) \<leftarrow> al5_user_destroy_channel True user w;
          if ret = 0 \<or> n = 0 then Some (ret, u, w1) else destroy_tries n u w1 }"

definition al5_codec_release :: "nat \<times> nat \<Rightarrow> al5_group \<Rightarrow> kdev \<Rightarrow> (al5_group \<times> kdev) option" where
  "al5_codec_release filp grp w =
     (let (private_data, ptr) = filp; user = store grp ptr in
      do { (u, w1) \<leftarrow> (if al5_chan_is_created user
             then do { (ret, u, w1) \<leftarrow> destroy_tries 10000 user w; al5_user_destroy_channel_resources u w1 }
             else Some (user, w));
           let u1 = al5_user_remove_residual_messages u;
           grp1 \<leftarrow> al5_group_unbind_user (grp\<lparr>store := (store grp)(ptr := u1)\<rparr>) ptr;
           Some (grp1\<lparr>live := (live grp1)(ptr := False)\<rparr>, kfree private_data (kfree ptr w1)) })"

section \<open>al_codec.c: starting the MCU\<close>

definition AL5_ICACHE_SIZE :: nat where "AL5_ICACHE_SIZE = 614400"
definition MCU_SRAM_SIZE :: nat where "MCU_SRAM_SIZE = 32768"
definition MCU_CACHE_OFFSET :: u32 where "MCU_CACHE_OFFSET = 0x80000000"
definition AL5_RC_PLUGIN_CODE_START :: nat where "AL5_RC_PLUGIN_CODE_START = 524288"

text \<open>The sizes the copy of the firmware checks; the copy and the registers are not modelled.\<close>

definition copy_firmware :: "nat \<Rightarrow> nat \<Rightarrow> int" where
  "copy_firmware fw_size bl_size =
     (if fw_size > AL5_ICACHE_SIZE then - EINVAL else if bl_size > MCU_SRAM_SIZE then - EINVAL else 0)"

text \<open>The messages by which the MCU starts; \<open>pool\<close> is the size of the memory of the MCU and \<open>l2\<close> has the
  members of the message that describe the hardware.\<close>

definition init_mcu ::
    "u32 \<Rightarrow> mcu_init_msg \<Rightarrow> bool \<Rightarrow> al5_dma_buffer option \<Rightarrow> al5_user \<Rightarrow> kdev
       \<Rightarrow> (int \<times> al5_dma_buffer option \<times> al5_user \<times> kdev) option" where
  "init_mcu pool l2 plugin suballoc root w =
     do { (err, u0, w0) \<leftarrow> mutex_lock_killable AL5_USER_INIT root w;
          if err = - EINTR then Some (err, suballoc, u0, w0)
          else let (err1, ping, u1, w1) = user_pop_timeout AL5_USER_MAIL_INIT u0 w0 in
            if err1 \<noteq> 0 then unlock_with AL5_USER_INIT (err1, suballoc, u1, w1)
            else let (buf, w2) = al5_alloc_dma pool w1 in
              case buf of
                None \<Rightarrow> unlock_with AL5_USER_INIT (- ENOMEM, None, u1, w2)
              | Some b \<Rightarrow>
                  let msg = l2\<lparr>addr := dma_handle b + MCU_CACHE_OFFSET, init_size := buf_size b,
                               plugin_enabled := if plugin then 1 else 0\<rparr>;
                      (alloc, w3) = next_km w2
                  in do { m \<leftarrow> create_init_msg alloc (of_int (user_uid u1)) msg;
                          (err2, w4) \<leftarrow> al5_check_and_send m w3;
                          if err2 \<noteq> 0 then unlock_with AL5_USER_INIT (err2, None, u1, al5_free_dma buf w4)
                          else let (err3, ack, u2, w5) = user_pop_timeout AL5_USER_MAIL_INIT u1 w4 in
                            if err3 \<noteq> 0 then unlock_with AL5_USER_INIT (err3, None, u2, al5_free_dma buf w5)
                            else unlock_with AL5_USER_INIT (0, buf, u2, w5) } }"

text \<open>\<open>root\<close> is a variable of the function: it is gone when the function returns.  Only the last path removes it
  from the group.\<close>

definition al5_codec_set_firmware ::
    "nat \<Rightarrow> nat \<Rightarrow> u32 \<Rightarrow> mcu_init_msg \<Rightarrow> al5_dma_buffer option \<Rightarrow> al5_group \<Rightarrow> kdev
       \<Rightarrow> (int \<times> al5_dma_buffer option \<times> al5_group \<times> kdev) option" where
  "al5_codec_set_firmware fw_size bl_size pool l2 suballoc grp w =
     (let (found, w1) = answer w in
      if \<not> found then Some (- ENOENT, suballoc, grp, w1)
      else let (bl_found, w2) = answer w1 in
      if \<not> bl_found then Some (- ENOENT, suballoc, grp, w2)
      else let (root, w3) = new_ptr w2;
               (err, grp1) = al5_group_bind_user grp root;
               gone = (\<lambda>g. g\<lparr>live := (live g)(root := False)\<rparr>)
      in if err \<noteq> 0 then Some (err, suballoc, gone grp1, w3)
         else let grp2 = grp1\<lparr>live := (live grp1)(root := True)\<rparr>;
                  w4 = w3\<lparr>mcu := al5_signal_mcu (mcu w3)\<rparr>;
                  err1 = copy_firmware fw_size bl_size
              in if err1 \<noteq> 0 then Some (err1, suballoc, gone grp2, w4)
                 else do { (err2, sub, u, w5) \<leftarrow> init_mcu pool l2 (fw_size > AL5_RC_PLUGIN_CODE_START) suballoc (store grp2 root) w4;
                           let grp3 = grp2\<lparr>store := (store grp2)(root := u)\<rparr>;
                           if err2 \<noteq> 0 then Some (err2, sub, gone grp3, w5\<lparr>mcu := al5_signal_mcu (mcu w5)\<rparr>)
                           else do { grp4 \<leftarrow> al5_group_unbind_user grp3 root; Some (0, sub, gone grp4, w5) } })"

definition al5_codec_tear_down :: "al5_dma_buffer option \<Rightarrow> al5_dma_buffer option \<Rightarrow> kdev \<Rightarrow> kdev" where
  "al5_codec_tear_down suballoc icache w = al5_free_dma icache (al5_free_dma suballoc w)"

section \<open>Delivery\<close>

text \<open>The user a message is for, from its bytes.\<close>

definition addressed :: "al5_group \<Rightarrow> message \<Rightarrow> nat option" where
  "addressed grp m =
     (let uid = ucast (fst m) :: u32; wd = (\<lambda>i. bytes_word (take 4 (drop (4 * i) (snd m)))) in
      if uid = AL_MCU_MSG_CREATE_CHANNEL then al5_group_user_from_uid grp (sint (wd 1))
      else if uid = AL_MCU_MSG_INIT \<or> uid = AL_MCU_MSG_SEARCH_START_CODE then al5_group_user_from_uid grp (sint (wd 0))
      else the (al5_group_user_from_chan_uid grp (wd 0)))"

definition grp_ok :: "al5_group \<Rightarrow> bool" where
  "grp_ok grp \<longleftrightarrow> (\<forall>p. Some p \<in> set (users grp) \<longrightarrow> live grp p) \<and> (\<forall>p. length (queues (store grp p)) = 7)"

definition same_grp :: "al5_group \<Rightarrow> al5_group \<Rightarrow> bool" where
  "same_grp g h \<longleftrightarrow> users h = users g \<and> live h = live g \<and> (\<forall>p. chan_uid (store h p) = chan_uid (store g p))"

lemma find_channel_same: "same_grp g h \<Longrightarrow> find_channel h ps c = find_channel g ps c"
  by (induction ps) (auto simp: same_grp_def hasChannelId_def split: option.splits)

lemma addressed_same:
  assumes "same_grp g h" shows "addressed h m = addressed g m"
proof -
  have "al5_group_user_from_uid h = al5_group_user_from_uid g"
    using assms by (auto simp: same_grp_def al5_group_user_from_uid_def fun_eq_iff)
  moreover have "al5_group_user_from_chan_uid h = al5_group_user_from_chan_uid g"
    using assms by (auto simp: al5_group_user_from_chan_uid_def find_channel_same fun_eq_iff) (simp add: same_grp_def)
  ultimately show ?thesis by (simp only: addressed_def)
qed

lemma find_channel_some:
  "(\<forall>p. Some p \<in> set ps \<longrightarrow> live g p) \<Longrightarrow> \<exists>r. find_channel g ps c = Some r \<and> (\<forall>p. r = Some p \<longrightarrow> Some p \<in> set ps)"
  by (induction ps) (auto simp: hasChannelId_def split: option.splits)

text \<open>Long enough for the words its reader looks at.\<close>

definition complete :: "message \<Rightarrow> bool" where
  "complete m \<longleftrightarrow> 4 \<le> length (snd m) \<and> (ucast (fst m) = AL_MCU_MSG_CREATE_CHANNEL \<longrightarrow> 8 \<le> length (snd m))"

lemma get_word_payload:
  assumes "mail_ok m" "4 * i + 4 \<le> length (payload m)"
  shows "al5_mail_get_word m i = Some (bytes_word (take 4 (drop (4 * i) (payload m))))"
proof -
  have "4 * i + 4 \<le> unat (body_size m)" using assms payload_length [of m] by simp
  then have "take 4 (drop (4 * i) (payload m)) = take 4 (drop (4 * i) (body m))"
    by (simp add: payload_def drop_take min_def)
  moreover have "4 * i + 4 \<le> length (body m)" using assms by (simp add: mail_ok_def)
  ultimately show ?thesis by (simp add: al5_mail_get_word_def)
qed

lemma retrieve_law:
  assumes "grp_ok grp" "mail_ok m" "complete (msg_uid m, payload m)"
  shows "retrieve_user grp m = Some (addressed grp (msg_uid m, payload m))"
proof -
  have w0: "al5_mail_get_word m 0 = Some (bytes_word (take 4 (payload m)))"
    using get_word_payload [OF assms(2), of 0] assms(3) by (simp add: complete_def)
  have w1: "al5_mail_get_word m 1 = Some (bytes_word (take 4 (drop 4 (payload m))))"
    if "al5_mail_get_uid m = AL_MCU_MSG_CREATE_CHANNEL"
    using get_word_payload [OF assms(2), of 1] assms(3) that by (simp add: complete_def al5_mail_get_uid_def)
  obtain r where "find_channel grp (users grp) (bytes_word (take 4 (payload m))) = Some r"
    using find_channel_some [of "users grp" grp] assms(1) unfolding grp_ok_def by blast
  then show ?thesis using w0 w1
    by (auto simp: retrieve_user_def addressed_def Let_def al5_group_user_from_chan_uid_def al5_mail_get_uid_def)
qed

lemma addressed_live:
  assumes "grp_ok grp" "addressed grp m = Some p"
  shows "live grp p"
proof -
  have "Some p \<in> set (users grp)"
    using assms find_channel_some [of "users grp" grp]
    unfolding addressed_def al5_group_user_from_uid_def al5_group_user_from_chan_uid_def grp_ok_def
    by (auto simp: Let_def split: if_splits) (metis nat_less_iff nth_mem linorder_not_le option.sel)+
  then show ?thesis using assms(1) by (simp add: grp_ok_def)
qed

text \<open>No allocation fails.\<close>

definition plenty :: "kdev \<Rightarrow> bool" where
  "plenty w \<longleftrightarrow> answers w = [] \<and> (\<forall>i. kmalloc_ok (km w i) \<and> (\<forall>n. \<exists>blk. km w i n = Some blk)) \<and> mb_inv (cpu_to_mcu (mcu w))"

definition gets :: "al5_group \<Rightarrow> nat \<Rightarrow> nat \<Rightarrow> message \<Rightarrow> bool" where
  "gets grp p i m \<longleftrightarrow> ucast (fst m) \<noteq> AL_MCU_MSG_TRACE \<and> addressed grp m = Some p \<and> mail_to_queue (ucast (fst m)) = i"

text \<open>The messages waiting in a queue.\<close>

definition waiting :: "al5_group \<Rightarrow> nat \<Rightarrow> nat \<Rightarrow> message list" where
  "waiting grp p i = map (\<lambda>m. (msg_uid m, payload m)) (qlist (queues (store grp p) ! i))"

lemma gets_same: "same_grp g h \<Longrightarrow> gets h p i m = gets g p i m"
  by (simp add: gets_def addressed_same)

lemma same_grp_refl [simp]: "same_grp g g" and same_grp_trans: "same_grp g h \<Longrightarrow> same_grp h k \<Longrightarrow> same_grp g k"
  by (simp_all add: same_grp_def)

lemma mcu_send_some:
  assumes "mb_inv (cpu_to_mcu mc)" "mail_ok m" "msg_ok (msg_uid m, payload m)"
  shows "\<exists>e mc1. al5_mcu_send mc m = Some (e, mc1) \<and> mcu_to_cpu mc1 = mcu_to_cpu mc \<and> mb_inv (cpu_to_mcu mc1)"
proof (cases "used_size (cpu_to_mcu mc) + (length (payload m) + 4) + 4 \<le> mb_size (cpu_to_mcu mc)")
  case True
  from mailbox_write_law [OF assms True] obtain b where "al5_mailbox_write (cpu_to_mcu mc) m = Some (0, b)" "mb_inv b" by blast
  then show ?thesis by (simp add: al5_mcu_send_def)
next
  case False
  then show ?thesis using mailbox_write_full [OF mb_invE(1) [OF assms(1)] assms(2)] assms(1) by (simp add: al5_mcu_send_def)
qed

lemma orphan_law:
  assumes "plenty w"
  shows "\<exists>w1. destroy_orphan_channel c w = Some w1 \<and> plenty w1 \<and> mcu_to_cpu (mcu w1) = mcu_to_cpu (mcu w)"
proof -
  let ?km = "km w (mails_made w)"
  obtain blk where "?km 20 = Some blk" "kmalloc_ok ?km" using assms by (auto simp: plenty_def)
  from empty_mail_some [OF this(2,1)] obtain m where m: "create_quiet_destroy_channel_msg ?km c = Some (Some m)"
    "payload m = word_bytes c" "mail_ok m" by (auto simp: create_quiet_destroy_channel_msg_def)
  then have "msg_ok (msg_uid m, payload m)" by (simp add: msg_ok_def)
  from mcu_send_some [OF _ m(3) this, of "mcu w"] assms obtain e mc where
    "al5_mcu_send (mcu w) m = Some (e, mc)" "mcu_to_cpu mc = mcu_to_cpu (mcu w)" "mb_inv (cpu_to_mcu mc)"
    by (auto simp: plenty_def)
  with m(1) assms show ?thesis by (simp add: destroy_orphan_channel_def next_km_def plenty_def al5_signal_mcu_def)
qed

lemma mail_to_queue_bound: "mail_to_queue u < 7"
  by (simp add: mail_to_queue_def user_mails)

lemma deliver_law:
  assumes "length (queues u) = 7"
  shows "al5_user_deliver True m u =
    (0, u\<lparr>queues := (queues u)[mail_to_queue (ucast (msg_uid m)) :=
       (queues u ! mail_to_queue (ucast (msg_uid m)))\<lparr>qlist := qlist (queues u ! mail_to_queue (ucast (msg_uid m))) @ [m]\<rparr>]\<rparr>)"
  by (simp add: al5_user_deliver_def queue_push_ok al5_mail_get_uid_def Let_def)

lemma handle_mail_law:
  assumes "grp_ok grp" "plenty w" "mail_ok m" "complete (msg_uid m, payload m)"
  shows "\<exists>g w1. handle_mail grp m w = Some (g, w1) \<and> same_grp grp g \<and> grp_ok g \<and> plenty w1
    \<and> mcu_to_cpu (mcu w1) = mcu_to_cpu (mcu w)
    \<and> (\<forall>p i. i < 7 \<longrightarrow> waiting g p i = waiting grp p i @ filter (gets grp p i) [(msg_uid m, payload m)])"
proof -
  let ?m = "(msg_uid m, payload m)"
  have uid: "al5_mail_get_uid m = ucast (fst ?m)" by (simp add: al5_mail_get_uid_def)
  show ?thesis
  proof (cases "al5_mail_get_uid m = AL_MCU_MSG_TRACE")
    case True
    then show ?thesis using assms uid by (auto simp: handle_mail_def gets_def)
  next
    case nt: False
    note r = retrieve_law [OF assms(1,3,4)]
    show ?thesis
    proof (cases "addressed grp ?m")
      case None
      have t: "try_to_deliver_to_user grp m w = Some (AL_NO_USER, grp, w)" using r None by (simp add: try_to_deliver_to_user_def)
      have "al5_mail_get_word m 0 \<noteq> None"
        using get_word_payload [OF assms(3), of 0] assms(4) by (simp add: complete_def)
      then have "al5_mail_get_chan_uid m \<noteq> None" by (simp add: al5_mail_get_chan_uid_def Let_def)
      then obtain c where c: "al5_mail_get_chan_uid m = Some c" by blast
      obtain w1 where w1: "destroy_orphan_channel c w = Some w1" "plenty w1" "mcu_to_cpu (mcu w1) = mcu_to_cpu (mcu w)"
        using orphan_law [OF assms(2)] by blast
      have "\<exists>w1. handle_mail grp m w = Some (grp, w1) \<and> plenty w1 \<and> mcu_to_cpu (mcu w1) = mcu_to_cpu (mcu w)"
        using w1 t c nt assms(2) by (simp add: handle_mail_def Let_def)
      then obtain w2 where "handle_mail grp m w = Some (grp, w2)" "plenty w2" "mcu_to_cpu (mcu w2) = mcu_to_cpu (mcu w)" by blast
      then show ?thesis using assms(1) None by (intro exI [of _ grp] exI [of _ w2]) (simp add: gets_def)
    next
      case (Some p)
      let ?q = "mail_to_queue (ucast (msg_uid m))"
      have l7: "length (queues (store grp p)) = 7" using assms(1) by (simp add: grp_ok_def)
      let ?u = "snd (al5_user_deliver True m (store grp p))"
      let ?g = "grp\<lparr>store := (store grp)(p := ?u)\<rparr>"
      have "try_to_deliver_to_user grp m w = Some (0, ?g, w)"
        using r Some addressed_live [OF assms(1) Some] assms(2)
        by (simp add: try_to_deliver_to_user_def plenty_def answer_def deliver_law [OF l7])
      then have h: "handle_mail grp m w = Some (?g, w)" using nt by (simp add: handle_mail_def AL_NO_USER_def)
      have "same_grp grp ?g" by (simp add: same_grp_def deliver_law [OF l7])
      moreover have "grp_ok ?g" using assms(1) by (simp add: grp_ok_def deliver_law [OF l7])
      moreover have "waiting ?g k i = waiting grp k i @ filter (gets grp k i) [?m]" if "i < 7" for k i
        using that l7 nt uid Some by (cases "k = p"; cases "?q = i") (auto simp: waiting_def gets_def deliver_law [OF l7])
      ultimately show ?thesis using h assms(2) by blast
    qed
  qed
qed

lemma recv_law:
  assumes "mb_inv (mcu_to_cpu mc)" "mb_content (mcu_to_cpu mc) = x # ms" "kmalloc_ok k" "k 528 = Some blk" "length junk = 4"
  shows "\<exists>m box. al5_mcu_recv k junk mc = Some (Some m, mc\<lparr>mcu_to_cpu := box\<rparr>) \<and> (msg_uid m, payload m) = x \<and> mail_ok m
    \<and> mb_inv box \<and> mb_content box = ms"
proof -
  obtain uid d where x: "x = (uid, d)" by fastforce
  have "length d \<le> 512" using assms(1,2) x by (auto elim!: mb_invE simp: msg_ok_def)
  then show ?thesis using mailbox_read_law [OF assms(1) _ assms(5), of uid d ms blk 528] assms x
    by (auto simp: al5_mcu_recv_def mcu_mail_size_eq kmalloc_ok_def)
qed

lemma read_mails_loop_law:
  assumes "grp_ok grp" "plenty w" "mb_inv (mcu_to_cpu (mcu w))" "length junk = 4"
    "\<forall>m \<in> set (mb_content (mcu_to_cpu (mcu w))). complete m"
  shows "\<exists>g w1. read_mails_loop n junk grp w = Some (g, w1) \<and> same_grp grp g \<and> grp_ok g
    \<and> mb_inv (mcu_to_cpu (mcu w1)) \<and> mb_content (mcu_to_cpu (mcu w1)) = drop n (mb_content (mcu_to_cpu (mcu w)))
    \<and> (\<forall>p i. i < 7 \<longrightarrow> waiting g p i = waiting grp p i @ filter (gets grp p i) (take n (mb_content (mcu_to_cpu (mcu w)))))"
  using assms
proof (induction n arbitrary: grp w)
  case 0
  then show ?case by auto
next
  case (Suc n)
  let ?c = "\<lambda>w. mb_content (mcu_to_cpu (mcu w))"
  show ?case
  proof (cases "?c w")
    case Nil
    with Suc.prems mailbox_empty_iff show ?thesis by (auto simp: al5_mcu_is_empty_def)
  next
    case (Cons x ms)
    have ne: "\<not> al5_mcu_is_empty (mcu w)" using Cons Suc.prems(3) mailbox_empty_iff by (simp add: al5_mcu_is_empty_def)
    obtain blk where b: "km w (mails_made w) 528 = Some blk" "kmalloc_ok (km w (mails_made w))"
      using Suc.prems(2) by (auto simp: plenty_def)
    from recv_law [OF Suc.prems(3) Cons b(2,1) Suc.prems(4)] obtain m box where
      m: "al5_mcu_recv (km w (mails_made w)) junk (mcu w) = Some (Some m, (mcu w)\<lparr>mcu_to_cpu := box\<rparr>)"
      "(msg_uid m, payload m) = x" "mail_ok m" "mb_inv box" "mb_content box = ms" by blast
    let ?w = "w\<lparr>mails_made := mails_made w + 1, mcu := (mcu w)\<lparr>mcu_to_cpu := box\<rparr>\<rparr>"
    have "plenty ?w" using Suc.prems(2) by (simp add: plenty_def)
    moreover have "complete (msg_uid m, payload m)" using Suc.prems(5) Cons m(2) by simp
    ultimately obtain g w1 where h: "handle_mail grp m ?w = Some (g, w1)" "same_grp grp g" "grp_ok g" "plenty w1"
      "mcu_to_cpu (mcu w1) = box"
      "\<forall>p i. i < 7 \<longrightarrow> waiting g p i = waiting grp p i @ filter (gets grp p i) [x]"
      using handle_mail_law [OF Suc.prems(1) _ m(3)] m(2) by fastforce
    have rd: "read_mail junk grp w = Some (g, w1)" using m(1) h(1) by (simp add: read_mail_def next_km_def)
    have ms: "mb_inv (mcu_to_cpu (mcu w1))" "?c w1 = ms" "\<forall>m \<in> set (?c w1). complete m" using h(5) m Suc.prems(5) Cons by auto
    from Suc.IH [OF h(3,4) ms(1) Suc.prems(4) ms(3)] obtain g2 w2 where
      g2: "read_mails_loop n junk g w1 = Some (g2, w2)" "same_grp g g2" "grp_ok g2" "mb_inv (mcu_to_cpu (mcu w2))"
      "?c w2 = drop n ms" "\<forall>p i. i < 7 \<longrightarrow> waiting g2 p i = waiting g p i @ filter (gets g p i) (take n ms)"
      using ms(2) by auto
    have "gets g p i = gets grp p i" for p i using gets_same [OF h(2)] by blast
    with g2(6) h(6) have "\<forall>p i. i < 7 \<longrightarrow> waiting g2 p i = waiting grp p i @ filter (gets grp p i) (x # take n ms)" by auto
    moreover have "read_mails_loop (Suc n) junk grp w = Some (g2, w2)" using ne rd g2(1) by simp
    ultimately show ?thesis using g2(3-5) same_grp_trans [OF h(2) g2(2)] Cons by auto
  qed
qed

text \<open>C11: an interrupt of the MCU takes the first hundred messages out of the mailbox and puts each, complete and in
  order, into the queue of its kind of the user it is addressed to: the user whose number or whose channel it
  carries.  Traces and messages for nobody reach no queue, and nothing else changes in any queue.\<close>

theorem group_read_mails:
  assumes "grp_ok grp" "plenty w" "mb_inv (mcu_to_cpu (mcu w))" "length junk = 4"
    "mb_content (mcu_to_cpu (mcu w)) = ms" "\<forall>m \<in> set ms. complete m"
  shows "\<exists>g w1. al5_group_read_mails junk grp w = Some (g, w1)
    \<and> mb_content (mcu_to_cpu (mcu w1)) = drop 100 ms \<and> users g = users grp
    \<and> (\<forall>p i. i < 7 \<longrightarrow> waiting g p i = waiting grp p i @ filter (gets grp p i) (take 100 ms))"
  using read_mails_loop_law [OF assms(1-4), of 100] assms(5,6)
  by (auto simp: al5_group_read_mails_def MAX_MAILBOX_MSG_def same_grp_def)

lemma group_read_mails_witness:
  "\<exists>g w1. al5_group_read_mails [0, 0, 0, 0]
      \<lparr>users = [Some 7], store = (\<lambda>_. (al5_user_init 0)\<lparr>chan_uid := 0x04030201\<rparr>), live = (\<lambda>p. p = 7)\<rparr>
      ((example_dev [])\<lparr>mcu := \<lparr>mcu_to_cpu = the (mailbox_enq (6, [1, 2, 3, 4]) (al5_mailbox_init (replicate 64 0) 64)),
         cpu_to_mcu = al5_mailbox_init (replicate 64 0) 64, interrupts = 0\<rparr>\<rparr>) = Some (g, w1)
    \<and> mb_content (mcu_to_cpu (mcu w1)) = [] \<and> waiting g 7 2 = [(6, [1, 2, 3, 4])]"
proof -
  from mailbox_one_mail obtain b where b:
    "mailbox_enq (6, [1, 2, 3, 4]) (al5_mailbox_init (replicate 64 0) 64) = Some b" "mb_inv b"
    "mb_content b = [(6, [1, 2, 3, 4])]" .
  let ?u = "(al5_user_init 0)\<lparr>chan_uid := 0x04030201\<rparr>"
  let ?g = "\<lparr>users = [Some 7], store = (\<lambda>_. ?u), live = (\<lambda>p. p = 7)\<rparr>"
  let ?w = "(example_dev [])\<lparr>mcu := \<lparr>mcu_to_cpu = b, cpu_to_mcu = al5_mailbox_init (replicate 64 0) 64, interrupts = 0\<rparr>\<rparr>"
  have "grp_ok ?g" by (simp add: grp_ok_def al5_user_init_def user_mails)
  moreover have "plenty ?w" using mailbox_init_64 by (simp add: plenty_def example_dev_def kmalloc_ok_def)
  moreover have "\<forall>m \<in> set [(6, [1, 2, 3, 4])]. complete m" by (simp add: complete_def msg_uids)
  ultimately obtain g w1 where g: "al5_group_read_mails [0, 0, 0, 0] ?g ?w = Some (g, w1)"
    "mb_content (mcu_to_cpu (mcu w1)) = []"
    "\<forall>p i. i < 7 \<longrightarrow> waiting g p i = waiting ?g p i @ filter (gets ?g p i) [(6, [1, 2, 3, 4])]"
    using group_read_mails [of ?g ?w "[0, 0, 0, 0]" "[(6, [1, 2, 3, 4])]"] b by auto
  have "waiting ?g 7 2 = []" by (simp add: waiting_def al5_user_init_def user_mails al5_queue_init_def al5_list_init_def)
  moreover have "gets ?g 7 2 (6, [1, 2, 3, 4])"
  proof -
    have "bytes_word [1, 2, 3, 4] = 0x04030201" by code_simp
    then show ?thesis
      by (simp add: gets_def addressed_def msg_uids mail_to_queue_def user_mails al5_group_user_from_chan_uid_def hasChannelId_def)
  qed
  ultimately show ?thesis using g b(1) by auto
qed

section \<open>Closing\<close>

lemma destroy_tries_law:
  assumes "idle u" "user_owns u R" "holds_res w (R \<union> H)" "R \<inter> H = {}" "destroy_tries n u w = Some (ret, u1, w1)"
  shows "\<exists>S. user_owns u1 S \<and> holds_res w1 (S \<union> H) \<and> S \<inter> H = {}"
  using assms
proof (induction n arbitrary: u w R)
  case (Suc n)
  from Suc.prems(5) obtain r v w2 where d: "al5_user_destroy_channel True u w = Some (r, v, w2)"
    "(if r = 0 \<or> n = 0 then Some (r, v, w2) else destroy_tries n v w2) = Some (ret, u1, w1)"
    by (auto split: Option.bind_splits)
  note l = destroy_channel_law [OF Suc.prems(1-4) d(1)]
  show ?case
  proof (cases "r = 0")
    case True
    with l d(2) have "user_owns u1 {}" "holds_res w1 ({} \<union> H)" by (auto simp: user_owns_def pool_owns_def)
    then show ?thesis by blast
  next
    case False
    with l have v: "idle v" "user_owns v R" "holds_res w2 (R \<union> H)" by auto
    show ?thesis
    proof (cases "n = 0")
      case True
      with d(2) v Suc.prems(4) show ?thesis by auto
    next
      case n: False
      with False d(2) have "destroy_tries n v w2 = Some (ret, u1, w1)" by simp
      from Suc.IH [OF v Suc.prems(4) this] show ?thesis .
    qed
  qed
qed auto

text \<open>C15: closing the device gives back everything the user holds, the memory of its channel and its own included,
  even when the MCU never confirms the destruction of the channel or a signal interrupts every try.\<close>

theorem codec_release_frees:
  assumes "chan_inv (store grp ptr) w ({Mem ptr, Mem priv} \<union> H)" "{Mem ptr, Mem priv} \<inter> H = {}" "ptr \<noteq> priv"
    "0 < ptr" "0 < priv" "al5_codec_release (priv, ptr) grp w = Some (grp1, w1)"
  shows "holds_res w1 H \<and> \<not> live grp1 ptr"
proof -
  let ?H = "{Mem ptr, Mem priv} \<union> H" and ?u = "store grp ptr"
  from assms(1) obtain R where R: "user_owns ?u R" "R \<inter> ?H = {}" "holds_res w (R \<union> ?H)" "idle ?u"
    by (auto simp: chan_inv_def)
  from assms(6) obtain u w2 grp2 where r:
    "(if al5_chan_is_created ?u
      then do { (ret, u, w1) \<leftarrow> destroy_tries 10000 ?u w; al5_user_destroy_channel_resources u w1 } else Some (?u, w)) = Some (u, w2)"
    "al5_group_unbind_user (grp\<lparr>store := (store grp)(ptr := al5_user_remove_residual_messages u)\<rparr>) ptr = Some grp2"
    "grp1 = grp2\<lparr>live := (live grp2)(ptr := False)\<rparr>" "w1 = kfree priv (kfree ptr w2)"
    by (auto simp: al5_codec_release_def Let_def split: Option.bind_splits)
  have h2: "holds_res w2 ?H"
  proof (cases "al5_chan_is_created ?u")
    case True
    with r(1) obtain ret v w3 where t: "destroy_tries 10000 ?u w = Some (ret, v, w3)"
      "al5_user_destroy_channel_resources v w3 = Some (u, w2)" by (auto split: Option.bind_splits)
    from destroy_tries_law [OF R(4,1,3,2) t(1)] obtain S where S: "user_owns v S" "holds_res w3 (S \<union> ?H)" "S \<inter> ?H = {}" by blast
    from free_resources_law [OF S] t(2) show ?thesis by auto
  next
    case False
    with assms(1) R(1) have "R = {}" using owns_nothing by (auto simp: chan_inv_def)
    with False r(1) R(3) show ?thesis by simp
  qed
  have "holds_res (kfree ptr w2) (?H - {Mem ptr})" by (rule kfree_law [OF h2]) (use assms(4) in simp_all)
  then have "holds_res (kfree priv (kfree ptr w2)) (?H - {Mem ptr} - {Mem priv})"
    by (rule kfree_law) (use assms(3,5) in simp_all)
  moreover have "?H - {Mem ptr} - {Mem priv} = H" using assms(2) by auto
  ultimately show ?thesis using r(3,4) by simp
qed

lemma codec_release_frees_witness:
  "\<exists>grp1 w1. al5_codec_release (1, 2) \<lparr>users = [Some 2], store = (\<lambda>_. al5_user_init 0), live = (\<lambda>p. p = 2)\<rparr>
      ((example_dev [])\<lparr>trace := [Acquire (Mem 2), Acquire (Mem 1)], next_ptr := 3\<rparr>) = Some (grp1, w1)
    \<and> holds_res w1 {} \<and> \<not> live grp1 2"
proof -
  let ?g = "\<lparr>users = [Some 2], store = (\<lambda>_. al5_user_init 0), live = (\<lambda>p. p = 2)\<rparr>"
  let ?w = "(example_dev [])\<lparr>trace := [Acquire (Mem 2), Acquire (Mem 1)], next_ptr := 3\<rparr>"
  have "holds_res ?w {Mem 2, Mem 1}" by (simp add: holds_res_def example_dev_def)
  then have c: "chan_inv (store ?g 2) ?w ({Mem 2, Mem 1} \<union> {})"
    by (auto simp: chan_inv_def al5_user_init_def user_ops user_owns_def pool_owns_def idle_def al5_have_checkpoint_def
        al5_chan_is_created_def)
  have "al5_codec_release (1, 2) ?g ?w \<noteq> None"
    by (simp add: al5_codec_release_def al5_user_init_def al5_chan_is_created_def al5_group_unbind_user_def
        al5_user_remove_residual_messages_def)
  then obtain grp1 w1 where r: "al5_codec_release (1, 2) ?g ?w = Some (grp1, w1)" by auto
  from codec_release_frees [OF c _ _ _ _ r] r show ?thesis by auto
qed

section \<open>Starting\<close>

text \<open>C17: when the firmware is refused, al5_codec_set_firmware returns the error with its local user still in the
  group: the slot points at a variable of a function that has returned, and the first message for that number
  follows the pointer.\<close>

theorem set_firmware_dangling_user:
  assumes "free_slot (users grp) 0 = int i" "i < length (users grp)" "answers w = []" "AL5_ICACHE_SIZE < fw_size"
  shows "\<exists>grp1 w1 root. al5_codec_set_firmware fw_size bl_size pool l2 sub grp w = Some (- EINVAL, sub, grp1, w1)
    \<and> users grp1 ! i = Some root \<and> \<not> live grp1 root
    \<and> (\<forall>m c v. al5_mail_get_uid m = AL_MCU_MSG_INIT \<longrightarrow> al5_mail_get_word m 0 = Some c \<longrightarrow> sint c = int i \<longrightarrow> handle_mail grp1 m v = None)"
proof -
  let ?g = "(snd (al5_group_bind_user grp (next_ptr w)))\<lparr>live := ((live grp)(next_ptr w := True))(next_ptr w := False)\<rparr>"
  have b: "al5_group_bind_user grp (next_ptr w) =
      (0, grp\<lparr>users := (users grp)[i := Some (next_ptr w)], store := (store grp)(next_ptr w := al5_user_init (int i))\<rparr>)"
    using assms(1) by (simp add: al5_group_bind_user_def)
  have "\<exists>w1. al5_codec_set_firmware fw_size bl_size pool l2 sub grp w = Some (- EINVAL, sub, ?g, w1)"
    using assms(3,4) b by (simp add: al5_codec_set_firmware_def answer_def new_ptr_def copy_firmware_def EINVAL_def)
  moreover have u: "users ?g ! i = Some (next_ptr w)" "\<not> live ?g (next_ptr w)" "i < length (users ?g)"
    using b assms(2) by simp_all
  moreover have "handle_mail ?g m v = None"
    if "al5_mail_get_uid m = AL_MCU_MSG_INIT" "al5_mail_get_word m 0 = Some c" "sint c = int i" for m c v
    using that u by (simp add: handle_mail_def try_to_deliver_to_user_def retrieve_user_def msg_uids
        al5_group_user_from_uid_def Let_def)
  ultimately show ?thesis by blast
qed

lemma set_firmware_dangling_user_witness:
  "\<exists>grp1 w1 root. al5_codec_set_firmware 700000 100 4096
      \<lparr>addr = 0, init_size = 0, l2_size_in_bits = 0, l2_color_bitdepth = 0, num_cores = 1, core_frequency = 0, plugin_enabled = 0\<rparr>
      None (al5_group_init 4) (example_dev []) = Some (- EINVAL, None, grp1, w1) \<and> users grp1 ! 0 = Some root \<and> \<not> live grp1 root"
proof -
  have "replicate 4 (None :: nat option) = None # replicate 3 None" by (simp add: numeral_eq_Suc)
  then have "free_slot (users (al5_group_init 4)) 0 = int 0" "0 < length (users (al5_group_init 4))"
    by (simp_all add: al5_group_init_def)
  moreover have "answers (example_dev []) = []" by (simp add: example_dev_def)
  moreover have "AL5_ICACHE_SIZE < 700000" by (simp add: AL5_ICACHE_SIZE_def)
  ultimately show ?thesis using set_firmware_dangling_user [of "al5_group_init 4" 0 "example_dev []" 700000 100 4096] by blast
qed

end
