(* ===== verification/StreamMeta.thy ===== *)
theory StreamMeta imports BitStream begin

text \<open>
  lib_common/BufferStreamMeta.c, StreamSection.h and \<open>AddFlagsToAllSections\<close> of lib_encode/IP_Stream.c: the table of the
  sections of a stream buffer.  The array has \<open>uMaxNumSection\<close> entries, the first \<open>uNumSection\<close> of which are in use;
  \<open>sections\<close> is the list of those, and every operation is described on it.

  \<open>None\<close> is a failed assertion or an access outside the array; a null metadata is the outer option of the operations
  that test for it.  Memory that the allocator returns is the argument \<open>junk\<close>, an allocation that fails the argument
  \<open>False\<close>.
\<close>

definition AL_SECTION_NO_FLAG :: u32 where "AL_SECTION_NO_FLAG = 0"
definition AL_SECTION_SEI_PREFIX_FLAG :: u32 where "AL_SECTION_SEI_PREFIX_FLAG = 0x1"
definition AL_SECTION_SYNC_FLAG :: u32 where "AL_SECTION_SYNC_FLAG = 0x2"
definition AL_SECTION_END_FRAME_FLAG :: u32 where "AL_SECTION_END_FRAME_FLAG = 0x4"
definition AL_SECTION_CONFIG_FLAG :: u32 where "AL_SECTION_CONFIG_FLAG = 0x8"
definition AL_SECTION_FILLER_FLAG :: u32 where "AL_SECTION_FILLER_FLAG = 0x10"
definition AL_SECTION_APP_FILLER_FLAG :: u32 where "AL_SECTION_APP_FILLER_FLAG = 0x20"

record AL_TStreamSection =
  uOffset :: u32
  uLength :: u32
  eFlags :: u32

record AL_TStreamMetaData =
  uTemporalID :: u8
  pSections :: "AL_TStreamSection list"
  uNumSection :: nat
  uMaxNumSection :: nat

section \<open>The operations\<close>

definition AL_StreamMetaData_Create ::
    "bool \<Rightarrow> bool \<Rightarrow> AL_TStreamSection list \<Rightarrow> u16 \<Rightarrow> AL_TStreamMetaData option" where
  "AL_StreamMetaData_Create ok_meta ok_sections junk uMax =
     (if uMax = 0 then None else if \<not> ok_meta then None else if \<not> ok_sections then None
      else Some \<lparr>uTemporalID = 0, pSections = junk, uNumSection = 0, uMaxNumSection = unat uMax\<rparr>)"

text \<open>The copy is not tested for null.\<close>

definition AL_StreamMetaData_Clone ::
    "bool \<Rightarrow> bool \<Rightarrow> AL_TStreamSection list \<Rightarrow> AL_TStreamMetaData \<Rightarrow> AL_TStreamMetaData option" where
  "AL_StreamMetaData_Clone ok_meta ok_sections junk pMeta =
     do { pNewMeta \<leftarrow> AL_StreamMetaData_Create ok_meta ok_sections junk (of_nat (uMaxNumSection pMeta));
          if uNumSection pMeta \<le> length (pSections pMeta) \<and> uNumSection pMeta \<le> length (pSections pNewMeta)
          then Some (pNewMeta\<lparr>uTemporalID := uTemporalID pMeta, uMaxNumSection := uMaxNumSection pMeta,
                              uNumSection := uNumSection pMeta,
                              pSections := take (uNumSection pMeta) (pSections pMeta)
                                           @ drop (uNumSection pMeta) (pSections pNewMeta)\<rparr>)
          else None }"

definition SetSection :: "nat \<Rightarrow> u32 \<Rightarrow> u32 \<Rightarrow> u32 \<Rightarrow> AL_TStreamSection list \<Rightarrow> AL_TStreamSection list option" where
  "SetSection uSectionID off len flags ps = set_at ps uSectionID \<lparr>uOffset = off, uLength = len, eFlags = flags\<rparr>"

definition AL_StreamMetaData_AddSection ::
    "u32 \<Rightarrow> u32 \<Rightarrow> u32 \<Rightarrow> AL_TStreamMetaData option \<Rightarrow> (int \<times> AL_TStreamMetaData option) option" where
  "AL_StreamMetaData_AddSection off len flags pMetaData =
     (case pMetaData of
        None \<Rightarrow> Some (- 1, None)
      | Some m \<Rightarrow>
          let uSectionID = uNumSection m in
          if uSectionID \<ge> uMaxNumSection m then Some (- 1, Some m)
          else do { ps \<leftarrow> SetSection uSectionID off len flags (pSections m);
                    Some (int uSectionID, Some (m\<lparr>pSections := ps, uNumSection := uNumSection m + 1\<rparr>)) })"

definition AL_StreamMetaData_ChangeSection ::
    "nat \<Rightarrow> u32 \<Rightarrow> u32 \<Rightarrow> AL_TStreamMetaData \<Rightarrow> AL_TStreamMetaData option" where
  "AL_StreamMetaData_ChangeSection uSectionID off len m =
     (if uSectionID < uNumSection m
      then do { s \<leftarrow> at (pSections m) uSectionID;
                ps \<leftarrow> set_at (pSections m) uSectionID (s\<lparr>uOffset := off, uLength := len\<rparr>);
                Some (m\<lparr>pSections := ps\<rparr>) }
      else None)"

definition AL_StreamMetaData_SetSectionFlags :: "nat \<Rightarrow> u32 \<Rightarrow> AL_TStreamMetaData \<Rightarrow> AL_TStreamMetaData option" where
  "AL_StreamMetaData_SetSectionFlags uSectionID flags m =
     (if uSectionID < uNumSection m
      then do { s \<leftarrow> at (pSections m) uSectionID;
                ps \<leftarrow> set_at (pSections m) uSectionID (s\<lparr>eFlags := flags\<rparr>);
                Some (m\<lparr>pSections := ps\<rparr>) }
      else None)"

definition AL_StreamMetaData_ClearAllSections :: "AL_TStreamMetaData \<Rightarrow> AL_TStreamMetaData" where
  "AL_StreamMetaData_ClearAllSections m = m\<lparr>uNumSection := 0\<rparr>"

text \<open>The loop of \<open>GetLastSectionOfFlag\<close>, \<open>k\<close> being the identifier plus one.\<close>

fun last_flag_loop :: "u32 \<Rightarrow> AL_TStreamSection list \<Rightarrow> nat \<Rightarrow> int option" where
  "last_flag_loop flag ps 0 = Some (- 1)"
| "last_flag_loop flag ps (Suc k) =
     do { s \<leftarrow> at ps k; if eFlags s AND flag \<noteq> 0 then Some (int k) else last_flag_loop flag ps k }"

definition AL_StreamMetaData_GetLastSectionOfFlag :: "u32 \<Rightarrow> AL_TStreamMetaData \<Rightarrow> int option" where
  "AL_StreamMetaData_GetLastSectionOfFlag flag m = last_flag_loop flag (pSections m) (uNumSection m)"

text \<open>The loop of \<open>InsertSectionAtId\<close>: \<open>k\<close> turns are left, the section at \<open>targetId + k - 1\<close> moves up.\<close>

fun move_up_loop :: "nat \<Rightarrow> nat \<Rightarrow> AL_TStreamSection list \<Rightarrow> AL_TStreamSection list option" where
  "move_up_loop targetId 0 ps = Some ps"
| "move_up_loop targetId (Suc k) ps =
     do { cur \<leftarrow> at ps (targetId + k);
          qs \<leftarrow> SetSection (targetId + k + 1) (uOffset cur) (uLength cur) (eFlags cur) ps;
          move_up_loop targetId k qs }"

definition InsertSectionAtId ::
    "nat \<Rightarrow> u32 \<Rightarrow> u32 \<Rightarrow> u32 \<Rightarrow> AL_TStreamMetaData option \<Rightarrow> (int \<times> AL_TStreamMetaData option) option" where
  "InsertSectionAtId targetId off len flags pMetaData =
     (case pMetaData of
        None \<Rightarrow> Some (- 1, None)
      | Some m \<Rightarrow>
          if uNumSection m \<ge> uMaxNumSection m then Some (- 1, Some m)
          else do { ps \<leftarrow> move_up_loop targetId (uNumSection m - targetId) (pSections m);
                    qs \<leftarrow> SetSection targetId off len flags ps;
                    Some (int targetId, Some (m\<lparr>pSections := qs, uNumSection := uNumSection m + 1\<rparr>)) })"

definition AddPrefixSei :: "u32 \<Rightarrow> u32 \<Rightarrow> AL_TStreamMetaData \<Rightarrow> (int \<times> AL_TStreamMetaData option) option" where
  "AddPrefixSei off len m =
     do { i \<leftarrow> AL_StreamMetaData_GetLastSectionOfFlag AL_SECTION_CONFIG_FLAG m;
          InsertSectionAtId (nat (i + 1)) off len AL_SECTION_SEI_PREFIX_FLAG (Some m) }"

definition AL_StreamMetaData_AddSeiSection ::
    "bool \<Rightarrow> u32 \<Rightarrow> u32 \<Rightarrow> AL_TStreamMetaData \<Rightarrow> (int \<times> AL_TStreamMetaData option) option" where
  "AL_StreamMetaData_AddSeiSection isPrefix off len m =
     (if isPrefix then AddPrefixSei off len m
      else AL_StreamMetaData_AddSection off len AL_SECTION_NO_FLAG (Some m))"

text \<open>The ends are sums of 32 bits.\<close>

definition AL_StreamMetaData_GetUnusedStreamPart :: "AL_TStreamMetaData \<Rightarrow> u32 option" where
  "AL_StreamMetaData_GetUnusedStreamPart m =
     (if uNumSection m \<le> length (pSections m)
      then Some (fold (\<lambda>s maxOffset. let curOffset = uOffset s + uLength s in if curOffset > maxOffset then curOffset else maxOffset)
                   (take (uNumSection m) (pSections m)) 0)
      else None)"

fun add_flags_loop :: "nat \<Rightarrow> nat \<Rightarrow> u32 \<Rightarrow> AL_TStreamMetaData \<Rightarrow> AL_TStreamMetaData option" where
  "add_flags_loop 0 i flags m = Some m"
| "add_flags_loop (Suc k) i flags m =
     do { s \<leftarrow> at (pSections m) i;
          m1 \<leftarrow> AL_StreamMetaData_SetSectionFlags i (flags OR eFlags s) m;
          add_flags_loop k (i + 1) flags m1 }"

definition AddFlagsToAllSections :: "u32 \<Rightarrow> AL_TStreamMetaData \<Rightarrow> AL_TStreamMetaData option" where
  "AddFlagsToAllSections flags m = add_flags_loop (uNumSection m) 0 flags m"

section \<open>The list of the sections in use\<close>

definition meta_ok :: "AL_TStreamMetaData \<Rightarrow> bool" where
  "meta_ok m \<longleftrightarrow> uNumSection m \<le> uMaxNumSection m \<and> uMaxNumSection m = length (pSections m) \<and> length (pSections m) < 65536"

definition sections :: "AL_TStreamMetaData \<Rightarrow> AL_TStreamSection list" where
  "sections m = take (uNumSection m) (pSections m)"

definition has_flag :: "u32 \<Rightarrow> AL_TStreamSection \<Rightarrow> bool" where
  "has_flag flag s \<longleftrightarrow> eFlags s AND flag \<noteq> 0"

text \<open>One behind the last element with the property.\<close>

fun last_index :: "('a \<Rightarrow> bool) \<Rightarrow> 'a list \<Rightarrow> nat" where
  "last_index P [] = 0"
| "last_index P (x # xs) = (if last_index P xs > 0 then Suc (last_index P xs) else if P x then 1 else 0)"

definition insert_at :: "nat \<Rightarrow> 'a \<Rightarrow> 'a list \<Rightarrow> 'a list" where
  "insert_at i x xs = take i xs @ x # drop i xs"

lemma last_index_le: "last_index P xs \<le> length xs"
  by (induction xs) auto

lemma last_index_snoc: "last_index P (xs @ [x]) = (if P x then Suc (length xs) else last_index P xs)"
  by (induction xs) auto

lemma last_index_zero: "last_index P xs = 0 \<longleftrightarrow> (\<forall>x \<in> set xs. \<not> P x)"
  by (induction xs) auto

lemma last_index_P: "0 < last_index P xs \<Longrightarrow> P (xs ! (last_index P xs - 1))"
  by (induction xs) (auto simp: nth_Cons' split: if_splits)

lemma last_index_append:
  "last_index P (xs @ ys) = (if last_index P ys > 0 then length xs + last_index P ys else last_index P xs)"
  by (induction xs) auto

lemma sections_length: "meta_ok m \<Longrightarrow> length (sections m) = uNumSection m"
  by (simp add: meta_ok_def sections_def)

lemma last_flag_law: "k \<le> length ps \<Longrightarrow> last_flag_loop flag ps k = Some (int (last_index (has_flag flag) (take k ps)) - 1)"
proof (induction k)
  case (Suc k)
  then have k: "k < length ps" by simp
  with Suc show ?case
    by (simp add: at_def take_Suc_conv_app_nth [OF k] last_index_snoc has_flag_def)
qed simp

lemma last_section_law:
  "meta_ok m \<Longrightarrow> AL_StreamMetaData_GetLastSectionOfFlag flag m = Some (int (last_index (has_flag flag) (sections m)) - 1)"
  by (simp add: AL_StreamMetaData_GetLastSectionOfFlag_def last_flag_law meta_ok_def sections_def)

lemma add_section_law:
  assumes "meta_ok m"
  shows "AL_StreamMetaData_AddSection off len flags (Some m) =
    (if uNumSection m < uMaxNumSection m
     then Some (int (uNumSection m), Some (m\<lparr>pSections := (pSections m)[uNumSection m := \<lparr>uOffset = off, uLength = len, eFlags = flags\<rparr>],
                                           uNumSection := uNumSection m + 1\<rparr>))
     else Some (- 1, Some m))"
  using assms by (simp add: AL_StreamMetaData_AddSection_def SetSection_def set_at_def meta_ok_def Let_def)

lemma added_sections:
  assumes "meta_ok m" "uNumSection m < uMaxNumSection m"
  shows "meta_ok (m\<lparr>pSections := (pSections m)[uNumSection m := s], uNumSection := uNumSection m + 1\<rparr>)"
    "sections (m\<lparr>pSections := (pSections m)[uNumSection m := s], uNumSection := uNumSection m + 1\<rparr>) = sections m @ [s]"
  using assms by (simp_all add: meta_ok_def sections_def take_Suc_conv_app_nth)

lemma shift_law:
  "targetId + k < length ps \<Longrightarrow>
   move_up_loop targetId k ps = Some (take (targetId + 1) ps @ take k (drop targetId ps) @ drop (targetId + k + 1) ps)"
proof (induction k arbitrary: ps)
  case 0
  then show ?case by simp
next
  case (Suc k)
  let ?i = "targetId + k" let ?q = "ps[?i + 1 := ps ! ?i]"
  have i: "?i < length ps" "?i + 1 < length ps" using Suc.prems by simp_all
  have s: "\<lparr>uOffset = uOffset (ps ! ?i), uLength = uLength (ps ! ?i), eFlags = eFlags (ps ! ?i)\<rparr> = ps ! ?i" by simp
  have "move_up_loop targetId (Suc k) ps = move_up_loop targetId k ?q"
    using i by (simp add: at_def SetSection_def set_at_def s)
  also have "\<dots> = Some (take (targetId + 1) ?q @ take k (drop targetId ?q) @ drop (?i + 1) ?q)"
    using Suc.IH [of ?q] i by simp
  also have "take (targetId + 1) ?q = take (targetId + 1) ps" by simp
  also have "take k (drop targetId ?q) = take k (drop targetId ps)" by (simp add: take_drop drop_update_swap)
  also have "drop (?i + 1) ?q = ps ! ?i # drop (Suc (Suc ?i)) ps"
    using i(2) by (simp add: drop_update_swap Cons_nth_drop_Suc [symmetric])
  also have "take k (drop targetId ps) @ ps ! ?i # drop (Suc (Suc ?i)) ps = take (Suc k) (drop targetId ps) @ drop (Suc (Suc ?i)) ps"
  proof -
    have "take (Suc k) (drop targetId ps) = take k (drop targetId ps) @ [drop targetId ps ! k]"
      using i by (intro take_Suc_conv_app_nth) simp
    then show ?thesis using i by simp
  qed
  finally show ?case by simp
qed

lemma insert_section_law:
  assumes m: "meta_ok m" "uNumSection m < uMaxNumSection m" and t: "targetId \<le> uNumSection m"
  shows "\<exists>n. InsertSectionAtId targetId off len flags (Some m) = Some (int targetId, Some n) \<and> meta_ok n
    \<and> uMaxNumSection n = uMaxNumSection m \<and> uNumSection n = uNumSection m + 1 \<and> uTemporalID n = uTemporalID m
    \<and> sections n = insert_at targetId \<lparr>uOffset = off, uLength = len, eFlags = flags\<rparr> (sections m)"
proof -
  let ?n = "uNumSection m" let ?s = "\<lparr>uOffset = off, uLength = len, eFlags = flags\<rparr>" let ?ps = "pSections m"
  have l: "targetId + (?n - targetId) < length ?ps" "?n < length ?ps" using m t by (simp_all add: meta_ok_def)
  define qs where "qs = take (targetId + 1) ?ps @ take (?n - targetId) (drop targetId ?ps) @ drop (?n + 1) ?ps"
  have sh: "move_up_loop targetId (?n - targetId) ?ps = Some qs" using shift_law [OF l(1)] t by (simp add: qs_def)
  have lq: "length qs = length ?ps" using l t by (simp add: qs_def)
  have q: "qs[targetId := ?s] = take targetId ?ps @ ?s # take (?n - targetId) (drop targetId ?ps) @ drop (?n + 1) ?ps"
  proof -
    have "qs = take targetId ?ps @ ?ps ! targetId # take (?n - targetId) (drop targetId ?ps) @ drop (?n + 1) ?ps"
      using l t by (simp add: qs_def take_Suc_conv_app_nth)
    then show ?thesis using l t by (simp add: list_update_append)
  qed
  let ?r = "m\<lparr>pSections := qs[targetId := ?s], uNumSection := ?n + 1\<rparr>"
  have "InsertSectionAtId targetId off len flags (Some m) = Some (int targetId, Some ?r)"
    using m(2) sh lq l t by (simp add: InsertSectionAtId_def SetSection_def set_at_def)
  moreover have "meta_ok ?r" using m lq by (simp add: meta_ok_def)
  moreover have "sections ?r = insert_at targetId ?s (sections m)"
    unfolding sections_def insert_at_def using l t by (simp add: q drop_take Suc_diff_le min_absorb1)
  ultimately show ?thesis by (intro exI [of _ ?r]) simp
qed

lemma add_sei_section_law:
  assumes m: "meta_ok m" "uNumSection m < uMaxNumSection m"
  shows "\<exists>n. AL_StreamMetaData_AddSeiSection True off len m
      = Some (int (last_index (has_flag AL_SECTION_CONFIG_FLAG) (sections m)), Some n) \<and> meta_ok n
    \<and> uMaxNumSection n = uMaxNumSection m \<and> uNumSection n = uNumSection m + 1 \<and> uTemporalID n = uTemporalID m
    \<and> sections n = insert_at (last_index (has_flag AL_SECTION_CONFIG_FLAG) (sections m))
        \<lparr>uOffset = off, uLength = len, eFlags = AL_SECTION_SEI_PREFIX_FLAG\<rparr> (sections m)"
proof -
  let ?i = "last_index (has_flag AL_SECTION_CONFIG_FLAG) (sections m)"
  have "?i \<le> uNumSection m" using last_index_le [of _ "sections m"] sections_length [OF m(1)] by simp
  from insert_section_law [OF m this, of off len AL_SECTION_SEI_PREFIX_FLAG] show ?thesis
    by (simp add: AL_StreamMetaData_AddSeiSection_def AddPrefixSei_def last_section_law [OF m(1)])
qed

lemma add_section_full: "uNumSection m \<ge> uMaxNumSection m \<Longrightarrow>
    AL_StreamMetaData_AddSection off len flags (Some m) = Some (- 1, Some m)"
  by (simp add: AL_StreamMetaData_AddSection_def)

lemma add_sei_section_full: "meta_ok m \<Longrightarrow> uNumSection m \<ge> uMaxNumSection m \<Longrightarrow>
    AL_StreamMetaData_AddSeiSection prefix off len m = Some (- 1, Some m)"
  by (simp add: AL_StreamMetaData_AddSeiSection_def AddPrefixSei_def last_section_law InsertSectionAtId_def add_section_full)

lemma change_section_law:
  assumes "meta_ok m" "i < uNumSection m"
  shows "\<exists>n. AL_StreamMetaData_ChangeSection i off len m = Some n \<and> meta_ok n \<and> uNumSection n = uNumSection m
    \<and> sections n = (sections m)[i := (sections m ! i)\<lparr>uOffset := off, uLength := len\<rparr>]"
  using assms by (simp add: AL_StreamMetaData_ChangeSection_def set_at_def meta_ok_def sections_def take_update_swap)

lemma set_flags_law:
  assumes "meta_ok m" "i < uNumSection m"
  shows "\<exists>n. AL_StreamMetaData_SetSectionFlags i flags m = Some n \<and> meta_ok n \<and> uNumSection n = uNumSection m
    \<and> uMaxNumSection n = uMaxNumSection m \<and> uTemporalID n = uTemporalID m
    \<and> sections n = (sections m)[i := (sections m ! i)\<lparr>eFlags := flags\<rparr>]"
  using assms by (simp add: AL_StreamMetaData_SetSectionFlags_def set_at_def meta_ok_def sections_def take_update_swap)

lemma add_flags_loop_law:
  "meta_ok m \<Longrightarrow> i + k = uNumSection m \<Longrightarrow>
   \<exists>n. add_flags_loop k i flags m = Some n \<and> meta_ok n \<and> uNumSection n = uNumSection m \<and> uMaxNumSection n = uMaxNumSection m
     \<and> uTemporalID n = uTemporalID m
     \<and> sections n = take i (sections m) @ map (\<lambda>s. s\<lparr>eFlags := flags OR eFlags s\<rparr>) (drop i (sections m))"
proof (induction k arbitrary: i m)
  case 0
  then show ?case using sections_length [of m] by simp
next
  case (Suc k)
  then have i: "i < uNumSection m" "i < length (pSections m)" by (simp_all add: meta_ok_def)
  have p: "pSections m ! i = sections m ! i" using i by (simp add: sections_def)
  from set_flags_law [OF Suc.prems(1) i(1), of "flags OR eFlags (sections m ! i)"] obtain m1 where
    m1: "AL_StreamMetaData_SetSectionFlags i (flags OR eFlags (sections m ! i)) m = Some m1" "meta_ok m1"
      "uNumSection m1 = uNumSection m" "uMaxNumSection m1 = uMaxNumSection m" "uTemporalID m1 = uTemporalID m"
      "sections m1 = (sections m)[i := (sections m ! i)\<lparr>eFlags := flags OR eFlags (sections m ! i)\<rparr>]" by blast
  have l: "i < length (sections m)" using i(1) sections_length [OF Suc.prems(1)] by simp
  from Suc.IH [OF m1(2), of "i + 1"] Suc.prems(2) m1(3) obtain n where
    n: "add_flags_loop k (i + 1) flags m1 = Some n" "meta_ok n" "uNumSection n = uNumSection m" "uMaxNumSection n = uMaxNumSection m"
      "uTemporalID n = uTemporalID m"
      "sections n = take (i + 1) (sections m1) @ map (\<lambda>s. s\<lparr>eFlags := flags OR eFlags s\<rparr>) (drop (i + 1) (sections m1))"
    using m1(4,5) by auto
  have "sections n = take i (sections m) @ map (\<lambda>s. s\<lparr>eFlags := flags OR eFlags s\<rparr>) (drop i (sections m))"
    unfolding n(6) m1(6) using l by (simp add: take_Suc_conv_app_nth Cons_nth_drop_Suc [symmetric])
  with n m1(1) i(2) p show ?case by simp
qed

lemma add_flags_law:
  assumes "meta_ok m"
  shows "\<exists>n. AddFlagsToAllSections flags m = Some n \<and> meta_ok n \<and> uMaxNumSection n = uMaxNumSection m
    \<and> uNumSection n = uNumSection m \<and> uTemporalID n = uTemporalID m
    \<and> sections n = map (\<lambda>s. s\<lparr>eFlags := flags OR eFlags s\<rparr>) (sections m)"
proof -
  have "0 + uNumSection m = uNumSection m" by simp
  from add_flags_loop_law [OF assms this, of flags] show ?thesis unfolding AddFlagsToAllSections_def take_0 drop_0 append_Nil by blast
qed

text \<open>The biggest end; the sums must not wrap for it to be the end of the data.\<close>

lemma fold_ends:
  "let r = fold (\<lambda>s maxOffset. let curOffset = uOffset s + uLength s in if curOffset > maxOffset then curOffset else maxOffset) ss (x :: u32)
   in x \<le> r \<and> (\<forall>s \<in> set ss. uOffset s + uLength s \<le> r) \<and> (r = x \<or> (\<exists>s \<in> set ss. r = uOffset s + uLength s))"
proof (induction ss arbitrary: x)
  case (Cons s ss)
  let ?c = "uOffset s + uLength s"
  have c: "(if ?c > x then ?c else x) = x \<or> (if ?c > x then ?c else x) = ?c" "x \<le> (if ?c > x then ?c else x)"
    "?c \<le> (if ?c > x then ?c else x)" by auto
  from Cons [of "if ?c > x then ?c else x"] c show ?case
    unfolding Let_def fold_simps comp_apply by (auto intro: order_trans)
qed simp

lemma unused_part_law:
  assumes "meta_ok m"
  shows "\<exists>r. AL_StreamMetaData_GetUnusedStreamPart m = Some r \<and> (\<forall>s \<in> set (sections m). uOffset s + uLength s \<le> r)
    \<and> (r = 0 \<or> (\<exists>s \<in> set (sections m). r = uOffset s + uLength s))"
  using fold_ends [of "sections m" 0] assms
  by (simp add: AL_StreamMetaData_GetUnusedStreamPart_def meta_ok_def sections_def Let_def)

lemma unused_part_max:
  assumes "meta_ok m"
  shows "AL_StreamMetaData_GetUnusedStreamPart m
    = Some (Max (insert 0 ((\<lambda>s. uOffset s + uLength s) ` set (sections m))))"
proof -
  from unused_part_law [OF assms] obtain r where r: "AL_StreamMetaData_GetUnusedStreamPart m = Some r"
    "\<forall>s \<in> set (sections m). uOffset s + uLength s \<le> r"
    "r = 0 \<or> (\<exists>s \<in> set (sections m). r = uOffset s + uLength s)" by blast
  have "Max (insert 0 ((\<lambda>s. uOffset s + uLength s) ` set (sections m))) = r"
    using r(2,3) by (intro Max_eqI) auto
  with r(1) show ?thesis by simp
qed

lemma last_index_behind: "last_index P xs \<le> k \<Longrightarrow> k < length xs \<Longrightarrow> \<not> P (xs ! k)"
  by (induction xs arbitrary: k) (auto simp: nth_Cons' split: if_splits)

lemma last_section_spec:
  assumes "meta_ok m"
  shows "\<exists>j. AL_StreamMetaData_GetLastSectionOfFlag flag m = Some j
    \<and> (if \<exists>s \<in> set (sections m). has_flag flag s
       then 0 \<le> j \<and> j < int (length (sections m)) \<and> has_flag flag (sections m ! nat j)
         \<and> (\<forall>k < length (sections m). j < int k \<longrightarrow> \<not> has_flag flag (sections m ! k))
       else j = - 1)"
proof -
  let ?i = "last_index (has_flag flag) (sections m)"
  have "?i \<le> length (sections m)" by (rule last_index_le)
  moreover have "0 < ?i \<longleftrightarrow> (\<exists>s \<in> set (sections m). has_flag flag s)"
    using last_index_zero [of "has_flag flag" "sections m"] by auto
  moreover have "0 < ?i \<Longrightarrow> has_flag flag (sections m ! nat (int ?i - 1))"
    using last_index_P [of "has_flag flag" "sections m"] by (simp add: nat_diff_distrib)
  moreover have "\<forall>k < length (sections m). int ?i - 1 < int k \<longrightarrow> \<not> has_flag flag (sections m ! k)"
    using last_index_behind [of "has_flag flag" "sections m"] by simp
  ultimately show ?thesis
    by (intro exI [of _ "int ?i - 1"] conjI last_section_law [OF assms]) (auto split: if_splits)
qed

section \<open>The table as a list\<close>

lemma added_law:
  assumes "meta_ok m"
  shows "if length (sections m) < uMaxNumSection m
     then (\<exists>n. AL_StreamMetaData_AddSection off len flags (Some m) = Some (int (length (sections m)), Some n) \<and> meta_ok n
             \<and> sections n = sections m @ [\<lparr>uOffset = off, uLength = len, eFlags = flags\<rparr>])
        \<and> (\<exists>n. AL_StreamMetaData_AddSeiSection True off len m
               = Some (int (last_index (has_flag AL_SECTION_CONFIG_FLAG) (sections m)), Some n) \<and> meta_ok n
             \<and> sections n = insert_at (last_index (has_flag AL_SECTION_CONFIG_FLAG) (sections m))
                 \<lparr>uOffset = off, uLength = len, eFlags = AL_SECTION_SEI_PREFIX_FLAG\<rparr> (sections m))
        \<and> (\<exists>n. AL_StreamMetaData_AddSeiSection False off len m = Some (int (length (sections m)), Some n) \<and> meta_ok n
             \<and> sections n = sections m @ [\<lparr>uOffset = off, uLength = len, eFlags = AL_SECTION_NO_FLAG\<rparr>])
     else AL_StreamMetaData_AddSection off len flags (Some m) = Some (- 1, Some m)
        \<and> AL_StreamMetaData_AddSeiSection prefix off len m = Some (- 1, Some m)"
proof -
  note l = sections_length [OF assms]
  show ?thesis
  proof (cases "uNumSection m < uMaxNumSection m")
    case True
    have a: "\<exists>n. AL_StreamMetaData_AddSection off len flags (Some m) = Some (int (uNumSection m), Some n) \<and> meta_ok n
        \<and> sections n = sections m @ [\<lparr>uOffset = off, uLength = len, eFlags = flags\<rparr>]"
      using added_sections [OF assms True] True by (simp add: add_section_law [OF assms])
    from add_sei_section_law [OF assms True, of off len]
    have "\<exists>n. AL_StreamMetaData_AddSeiSection True off len m
               = Some (int (last_index (has_flag AL_SECTION_CONFIG_FLAG) (sections m)), Some n) \<and> meta_ok n
             \<and> sections n = insert_at (last_index (has_flag AL_SECTION_CONFIG_FLAG) (sections m))
                 \<lparr>uOffset = off, uLength = len, eFlags = AL_SECTION_SEI_PREFIX_FLAG\<rparr> (sections m)" by blast
    moreover have "\<exists>n. AL_StreamMetaData_AddSeiSection False off len m = Some (int (length (sections m)), Some n) \<and> meta_ok n
             \<and> sections n = sections m @ [\<lparr>uOffset = off, uLength = len, eFlags = AL_SECTION_NO_FLAG\<rparr>]"
      using added_sections [OF assms True] True
      by (simp add: AL_StreamMetaData_AddSeiSection_def add_section_law [OF assms] l)
    ultimately show ?thesis using a True by (simp add: l)
  next
    case False
    then show ?thesis using add_section_full [of m] add_sei_section_full [OF assms] l by simp
  qed
qed

lemma changed_law:
  assumes "meta_ok m"
  shows "if i < length (sections m)
      then (\<exists>n. AL_StreamMetaData_ChangeSection i off len m = Some n \<and> meta_ok n
           \<and> sections n = (sections m)[i := (sections m ! i)\<lparr>uOffset := off, uLength := len\<rparr>])
      \<and> (\<exists>n. AL_StreamMetaData_SetSectionFlags i flags m = Some n \<and> meta_ok n
           \<and> sections n = (sections m)[i := (sections m ! i)\<lparr>eFlags := flags\<rparr>])
      else AL_StreamMetaData_ChangeSection i off len m = None \<and> AL_StreamMetaData_SetSectionFlags i flags m = None"
proof -
  note l = sections_length [OF assms]
  show ?thesis
  proof (cases "i < length (sections m)")
    case True
    then have "i < uNumSection m" unfolding l .
    have "\<exists>n. AL_StreamMetaData_ChangeSection i off len m = Some n \<and> meta_ok n
           \<and> sections n = (sections m)[i := (sections m ! i)\<lparr>uOffset := off, uLength := len\<rparr>]"
      using change_section_law [OF assms \<open>i < uNumSection m\<close>, of off len] by blast
    moreover have "\<exists>n. AL_StreamMetaData_SetSectionFlags i flags m = Some n \<and> meta_ok n
           \<and> sections n = (sections m)[i := (sections m ! i)\<lparr>eFlags := flags\<rparr>]"
      using set_flags_law [OF assms \<open>i < uNumSection m\<close>, of flags] by blast
    ultimately show ?thesis using True by (simp only: if_True simp_thms)
  next
    case False
    then show ?thesis unfolding l
      by (simp add: AL_StreamMetaData_ChangeSection_def AL_StreamMetaData_SetSectionFlags_def)
  qed
qed

text \<open>C6: The section table of a stream buffer behaves as a bounded list.  A new section goes to the end, a prefix SEI
  behind the last configuration section, and its index is returned; when the table is full the result is -1 and nothing
  changes; a suffix SEI goes to the end without a flag; changing a section, or its flags, changes that one only, and is a
  failed assertion when there is no such section; clearing leaves none, flags are added to all.  The last section of a flag
  is the last that has one of its bits, -1 if there is none.  The unused part of the stream starts at the biggest end of a
  section, or at 0 when there is no section; the ends are 32-bit sums, which may wrap.\<close>

theorem stream_meta_refines_list:
  assumes "meta_ok m"
  shows "(if length (sections m) < uMaxNumSection m
     then (\<exists>n. AL_StreamMetaData_AddSection off len flags (Some m) = Some (int (length (sections m)), Some n) \<and> meta_ok n
             \<and> sections n = sections m @ [\<lparr>uOffset = off, uLength = len, eFlags = flags\<rparr>])
        \<and> (\<exists>n. AL_StreamMetaData_AddSeiSection True off len m
               = Some (int (last_index (has_flag AL_SECTION_CONFIG_FLAG) (sections m)), Some n) \<and> meta_ok n
             \<and> sections n = insert_at (last_index (has_flag AL_SECTION_CONFIG_FLAG) (sections m))
                 \<lparr>uOffset = off, uLength = len, eFlags = AL_SECTION_SEI_PREFIX_FLAG\<rparr> (sections m))
        \<and> (\<exists>n. AL_StreamMetaData_AddSeiSection False off len m = Some (int (length (sections m)), Some n) \<and> meta_ok n
             \<and> sections n = sections m @ [\<lparr>uOffset = off, uLength = len, eFlags = AL_SECTION_NO_FLAG\<rparr>])
     else AL_StreamMetaData_AddSection off len flags (Some m) = Some (- 1, Some m)
        \<and> AL_StreamMetaData_AddSeiSection prefix off len m = Some (- 1, Some m))
   \<and> (if i < length (sections m)
      then (\<exists>n. AL_StreamMetaData_ChangeSection i off len m = Some n \<and> meta_ok n
           \<and> sections n = (sections m)[i := (sections m ! i)\<lparr>uOffset := off, uLength := len\<rparr>])
      \<and> (\<exists>n. AL_StreamMetaData_SetSectionFlags i flags m = Some n \<and> meta_ok n
           \<and> sections n = (sections m)[i := (sections m ! i)\<lparr>eFlags := flags\<rparr>])
      else AL_StreamMetaData_ChangeSection i off len m = None \<and> AL_StreamMetaData_SetSectionFlags i flags m = None)
   \<and> meta_ok (AL_StreamMetaData_ClearAllSections m) \<and> sections (AL_StreamMetaData_ClearAllSections m) = []
   \<and> (\<exists>n. AddFlagsToAllSections flags m = Some n \<and> meta_ok n
        \<and> sections n = map (\<lambda>s. s\<lparr>eFlags := flags OR eFlags s\<rparr>) (sections m))
   \<and> (\<exists>j. AL_StreamMetaData_GetLastSectionOfFlag flags m = Some j
        \<and> (if \<exists>s \<in> set (sections m). has_flag flags s
           then 0 \<le> j \<and> j < int (length (sections m)) \<and> has_flag flags (sections m ! nat j)
             \<and> (\<forall>k < length (sections m). j < int k \<longrightarrow> \<not> has_flag flags (sections m ! k))
           else j = - 1))
   \<and> AL_StreamMetaData_GetUnusedStreamPart m
       = Some (Max (insert 0 ((\<lambda>s. uOffset s + uLength s) ` set (sections m))))"
proof (intro conjI added_law [OF assms] changed_law [OF assms] last_section_spec [OF assms] unused_part_max [OF assms])
  show "meta_ok (AL_StreamMetaData_ClearAllSections m)" "sections (AL_StreamMetaData_ClearAllSections m) = []"
    using assms by (simp_all add: AL_StreamMetaData_ClearAllSections_def meta_ok_def sections_def)
  show "\<exists>n. AddFlagsToAllSections flags m = Some n \<and> meta_ok n
        \<and> sections n = map (\<lambda>s. s\<lparr>eFlags := flags OR eFlags s\<rparr>) (sections m)"
    using add_flags_law [OF assms] by blast
qed

definition example_meta :: AL_TStreamMetaData where
  "example_meta = \<lparr>uTemporalID = 0,
     pSections = [\<lparr>uOffset = 0, uLength = 20, eFlags = 8\<rparr>, \<lparr>uOffset = 20, uLength = 9, eFlags = 8\<rparr>,
                  \<lparr>uOffset = 12288, uLength = 700, eFlags = 0\<rparr>, \<lparr>uOffset = 0, uLength = 0, eFlags = 0\<rparr>],
     uNumSection = 3, uMaxNumSection = 4\<rparr>"

theorem stream_meta_refines_list_witness:
  "\<exists>n. AL_StreamMetaData_AddSeiSection True 29 12 example_meta = Some (2, Some n)
     \<and> map uOffset (sections n) = [0, 20, 29, 12288]"
proof -
  have m: "meta_ok example_meta" by (simp add: meta_ok_def example_meta_def)
  have s: "sections example_meta = [\<lparr>uOffset = 0, uLength = 20, eFlags = 8\<rparr>, \<lparr>uOffset = 20, uLength = 9, eFlags = 8\<rparr>,
      \<lparr>uOffset = 12288, uLength = 700, eFlags = 0\<rparr>]" "uMaxNumSection example_meta = 4"
    by (simp_all add: sections_def example_meta_def)
  have i: "last_index (has_flag AL_SECTION_CONFIG_FLAG) (sections example_meta) = 2"
    by (simp add: s has_flag_def AL_SECTION_CONFIG_FLAG_def)
  from stream_meta_refines_list [OF m, of 29 12 0 True 0] show ?thesis
    unfolding i by (auto simp: s insert_at_def)
qed

end
