(* ===== verification/Profiles.thy ===== *)
theory Profiles imports IpStream begin

text \<open>
  include/lib_common/Profiles.h: the profile identifiers, 32-bit words with the codec in the highest byte, flags in the
  middle and the \<open>profile_idc\<close> in the lowest byte, and the predicates on them.
\<close>

definition AL_CS_FLAGS :: "u32 \<Rightarrow> u32" where "AL_CS_FLAGS Flags = push_bit 8 (Flags AND 0xFFFF)"
definition AL_RExt_FLAGS :: "u32 \<Rightarrow> u32" where "AL_RExt_FLAGS Flags = push_bit 8 (Flags AND 0xFFFF)"

definition AL_PROFILE_AVC :: u32 where "AL_PROFILE_AVC = push_bit 24 0"
definition AL_PROFILE_AVC_CAVLC_444 :: u32 where "AL_PROFILE_AVC_CAVLC_444 = AL_PROFILE_AVC OR 44"
definition AL_PROFILE_AVC_BASELINE :: u32 where "AL_PROFILE_AVC_BASELINE = AL_PROFILE_AVC OR 66"
definition AL_PROFILE_AVC_MAIN :: u32 where "AL_PROFILE_AVC_MAIN = AL_PROFILE_AVC OR 77"
definition AL_PROFILE_AVC_EXTENDED :: u32 where "AL_PROFILE_AVC_EXTENDED = AL_PROFILE_AVC OR 88"
definition AL_PROFILE_AVC_HIGH :: u32 where "AL_PROFILE_AVC_HIGH = AL_PROFILE_AVC OR 100"
definition AL_PROFILE_AVC_HIGH10 :: u32 where "AL_PROFILE_AVC_HIGH10 = AL_PROFILE_AVC OR 110"
definition AL_PROFILE_AVC_HIGH_422 :: u32 where "AL_PROFILE_AVC_HIGH_422 = AL_PROFILE_AVC OR 122"
definition AL_PROFILE_AVC_HIGH_444_PRED :: u32 where "AL_PROFILE_AVC_HIGH_444_PRED = AL_PROFILE_AVC OR 244"
definition AL_PROFILE_AVC_C_BASELINE :: u32 where "AL_PROFILE_AVC_C_BASELINE = AL_PROFILE_AVC_BASELINE OR AL_CS_FLAGS 0x0002"
definition AL_PROFILE_AVC_PROG_HIGH :: u32 where "AL_PROFILE_AVC_PROG_HIGH = AL_PROFILE_AVC_HIGH OR AL_CS_FLAGS 0x0010"
definition AL_PROFILE_AVC_C_HIGH :: u32 where "AL_PROFILE_AVC_C_HIGH = AL_PROFILE_AVC_HIGH OR AL_CS_FLAGS 0x0030"
definition AL_PROFILE_AVC_HIGH10_INTRA :: u32 where "AL_PROFILE_AVC_HIGH10_INTRA = AL_PROFILE_AVC_HIGH10 OR AL_CS_FLAGS 0x0008"
definition AL_PROFILE_AVC_HIGH_422_INTRA :: u32 where "AL_PROFILE_AVC_HIGH_422_INTRA = AL_PROFILE_AVC_HIGH_422 OR AL_CS_FLAGS 0x0008"
definition AL_PROFILE_AVC_HIGH_444_INTRA :: u32 where "AL_PROFILE_AVC_HIGH_444_INTRA = AL_PROFILE_AVC_HIGH_444_PRED OR AL_CS_FLAGS 0x0008"
definition AL_PROFILE_XAVC_HIGH10_INTRA_CBG :: u32 where "AL_PROFILE_XAVC_HIGH10_INTRA_CBG = AL_PROFILE_AVC_HIGH10 OR AL_CS_FLAGS 0x1008"
definition AL_PROFILE_XAVC_HIGH10_INTRA_VBR :: u32 where "AL_PROFILE_XAVC_HIGH10_INTRA_VBR = AL_PROFILE_AVC_HIGH10 OR AL_CS_FLAGS 0x3008"
definition AL_PROFILE_XAVC_HIGH_422_INTRA_CBG :: u32 where "AL_PROFILE_XAVC_HIGH_422_INTRA_CBG = AL_PROFILE_AVC_HIGH_422 OR AL_CS_FLAGS 0x1008"
definition AL_PROFILE_XAVC_HIGH_422_INTRA_VBR :: u32 where "AL_PROFILE_XAVC_HIGH_422_INTRA_VBR = AL_PROFILE_AVC_HIGH_422 OR AL_CS_FLAGS 0x3008"
definition AL_PROFILE_XAVC_LONG_GOP_MAIN_MP4 :: u32 where "AL_PROFILE_XAVC_LONG_GOP_MAIN_MP4 = AL_PROFILE_AVC_MAIN OR AL_CS_FLAGS 0x1000"
definition AL_PROFILE_XAVC_LONG_GOP_HIGH_MP4 :: u32 where "AL_PROFILE_XAVC_LONG_GOP_HIGH_MP4 = AL_PROFILE_AVC_HIGH OR AL_CS_FLAGS 0x1000"
definition AL_PROFILE_XAVC_LONG_GOP_HIGH_MXF :: u32 where "AL_PROFILE_XAVC_LONG_GOP_HIGH_MXF = AL_PROFILE_AVC_HIGH OR AL_CS_FLAGS 0x5000"
definition AL_PROFILE_XAVC_LONG_GOP_HIGH_422_MXF :: u32 where "AL_PROFILE_XAVC_LONG_GOP_HIGH_422_MXF = AL_PROFILE_AVC_HIGH_422 OR AL_CS_FLAGS 0x5000"
definition AL_PROFILE_HEVC :: u32 where "AL_PROFILE_HEVC = push_bit 24 1"
definition AL_PROFILE_HEVC_MAIN :: u32 where "AL_PROFILE_HEVC_MAIN = AL_PROFILE_HEVC OR 1"
definition AL_PROFILE_HEVC_MAIN10 :: u32 where "AL_PROFILE_HEVC_MAIN10 = AL_PROFILE_HEVC OR 2"
definition AL_PROFILE_HEVC_MAIN_STILL :: u32 where "AL_PROFILE_HEVC_MAIN_STILL = AL_PROFILE_HEVC OR 3"
definition AL_PROFILE_HEVC_RExt :: u32 where "AL_PROFILE_HEVC_RExt = AL_PROFILE_HEVC OR 4"
definition AL_PROFILE_HEVC_MONO :: u32 where "AL_PROFILE_HEVC_MONO = AL_PROFILE_HEVC_RExt OR AL_RExt_FLAGS 0xFC80"
definition AL_PROFILE_HEVC_MONO10 :: u32 where "AL_PROFILE_HEVC_MONO10 = AL_PROFILE_HEVC_RExt OR AL_RExt_FLAGS 0xDC80"
definition AL_PROFILE_HEVC_MONO12 :: u32 where "AL_PROFILE_HEVC_MONO12 = AL_PROFILE_HEVC_RExt OR AL_RExt_FLAGS 0x9C80"
definition AL_PROFILE_HEVC_MONO16 :: u32 where "AL_PROFILE_HEVC_MONO16 = AL_PROFILE_HEVC_RExt OR AL_RExt_FLAGS 0x1C80"
definition AL_PROFILE_HEVC_MAIN12 :: u32 where "AL_PROFILE_HEVC_MAIN12 = AL_PROFILE_HEVC_RExt OR AL_RExt_FLAGS 0x9880"
definition AL_PROFILE_HEVC_MAIN_422 :: u32 where "AL_PROFILE_HEVC_MAIN_422 = AL_PROFILE_HEVC_RExt OR AL_RExt_FLAGS 0xF080"
definition AL_PROFILE_HEVC_MAIN_422_10 :: u32 where "AL_PROFILE_HEVC_MAIN_422_10 = AL_PROFILE_HEVC_RExt OR AL_RExt_FLAGS 0xD080"
definition AL_PROFILE_HEVC_MAIN_422_12 :: u32 where "AL_PROFILE_HEVC_MAIN_422_12 = AL_PROFILE_HEVC_RExt OR AL_RExt_FLAGS 0x9080"
definition AL_PROFILE_HEVC_MAIN_444 :: u32 where "AL_PROFILE_HEVC_MAIN_444 = AL_PROFILE_HEVC_RExt OR AL_RExt_FLAGS 0xE080"
definition AL_PROFILE_HEVC_MAIN_444_10 :: u32 where "AL_PROFILE_HEVC_MAIN_444_10 = AL_PROFILE_HEVC_RExt OR AL_RExt_FLAGS 0xC080"
definition AL_PROFILE_HEVC_MAIN_444_12 :: u32 where "AL_PROFILE_HEVC_MAIN_444_12 = AL_PROFILE_HEVC_RExt OR AL_RExt_FLAGS 0x8080"
definition AL_PROFILE_HEVC_MAIN_INTRA :: u32 where "AL_PROFILE_HEVC_MAIN_INTRA = AL_PROFILE_HEVC_RExt OR AL_RExt_FLAGS 0xFA00"
definition AL_PROFILE_HEVC_MAIN10_INTRA :: u32 where "AL_PROFILE_HEVC_MAIN10_INTRA = AL_PROFILE_HEVC_RExt OR AL_RExt_FLAGS 0xDA00"
definition AL_PROFILE_HEVC_MAIN12_INTRA :: u32 where "AL_PROFILE_HEVC_MAIN12_INTRA = AL_PROFILE_HEVC_RExt OR AL_RExt_FLAGS 0x9A00"
definition AL_PROFILE_HEVC_MAIN_422_INTRA :: u32 where "AL_PROFILE_HEVC_MAIN_422_INTRA = AL_PROFILE_HEVC_RExt OR AL_RExt_FLAGS 0xF200"
definition AL_PROFILE_HEVC_MAIN_422_10_INTRA :: u32 where "AL_PROFILE_HEVC_MAIN_422_10_INTRA = AL_PROFILE_HEVC_RExt OR AL_RExt_FLAGS 0xD200"
definition AL_PROFILE_HEVC_MAIN_422_12_INTRA :: u32 where "AL_PROFILE_HEVC_MAIN_422_12_INTRA = AL_PROFILE_HEVC_RExt OR AL_RExt_FLAGS 0x9200"
definition AL_PROFILE_HEVC_MAIN_444_INTRA :: u32 where "AL_PROFILE_HEVC_MAIN_444_INTRA = AL_PROFILE_HEVC_RExt OR AL_RExt_FLAGS 0xE200"
definition AL_PROFILE_HEVC_MAIN_444_10_INTRA :: u32 where "AL_PROFILE_HEVC_MAIN_444_10_INTRA = AL_PROFILE_HEVC_RExt OR AL_RExt_FLAGS 0xC200"
definition AL_PROFILE_HEVC_MAIN_444_12_INTRA :: u32 where "AL_PROFILE_HEVC_MAIN_444_12_INTRA = AL_PROFILE_HEVC_RExt OR AL_RExt_FLAGS 0x8200"
definition AL_PROFILE_HEVC_MAIN_444_16_INTRA :: u32 where "AL_PROFILE_HEVC_MAIN_444_16_INTRA = AL_PROFILE_HEVC_RExt OR AL_RExt_FLAGS 0x0200"
definition AL_PROFILE_HEVC_MAIN_444_STILL :: u32 where "AL_PROFILE_HEVC_MAIN_444_STILL = AL_PROFILE_HEVC_RExt OR AL_RExt_FLAGS 0xE300"
definition AL_PROFILE_HEVC_MAIN_444_16_STILL :: u32 where "AL_PROFILE_HEVC_MAIN_444_16_STILL = AL_PROFILE_HEVC_RExt OR AL_RExt_FLAGS 0x0300"
definition AL_PROFILE_UNKNOWN :: u32 where "AL_PROFILE_UNKNOWN = 0xFFFFFFFF"

text \<open>A value that is no constant of the enumeration is the sentinel here.\<close>

definition codec_of :: "u32 \<Rightarrow> AL_ECodec" where
  "codec_of v = (if v = 0 then AL_CODEC_AVC else if v = 1 then AL_CODEC_HEVC else if v = 2 then AL_CODEC_AV1
     else if v = 3 then AL_CODEC_VP9 else if v = 4 then AL_CODEC_JPEG else AL_CODEC_INVALID)"

definition AL_GET_CODEC :: "u32 \<Rightarrow> AL_ECodec" where
  "AL_GET_CODEC eProfile = codec_of (drop_bit 24 (eProfile AND 0xFF000000))"

definition AL_GET_PROFILE_IDC :: "u32 \<Rightarrow> int" where
  "AL_GET_PROFILE_IDC eProfile = sint (eProfile AND 0x000000FF)"

definition AL_GET_PROFILE_CODEC_AND_IDC :: "u32 \<Rightarrow> u32" where
  "AL_GET_PROFILE_CODEC_AND_IDC Prof = Prof AND 0xFF0000FF"

definition AL_GET_RExt_FLAGS :: "u32 \<Rightarrow> u32" where
  "AL_GET_RExt_FLAGS Prof = drop_bit 8 (Prof AND 0x00FFFF00)"

definition AL_GET_CS_FLAGS :: "u32 \<Rightarrow> u32" where
  "AL_GET_CS_FLAGS Prof = drop_bit 8 (Prof AND 0x00FFFF00)"

definition AL_IS_AVC :: "u32 \<Rightarrow> bool" where
  "AL_IS_AVC eProfile \<longleftrightarrow> AL_GET_CODEC eProfile = AL_CODEC_AVC"

definition AL_IS_HEVC :: "u32 \<Rightarrow> bool" where
  "AL_IS_HEVC eProfile \<longleftrightarrow> AL_GET_CODEC eProfile = AL_CODEC_HEVC"

definition AL_IS_MONO_PROFILE :: "u32 \<Rightarrow> bool" where
  "AL_IS_MONO_PROFILE eProfile \<longleftrightarrow>
     (AL_GET_PROFILE_CODEC_AND_IDC eProfile = AL_PROFILE_AVC_HIGH
      \<or> AL_GET_PROFILE_CODEC_AND_IDC eProfile = AL_PROFILE_AVC_HIGH10
      \<or> AL_GET_PROFILE_CODEC_AND_IDC eProfile = AL_PROFILE_AVC_HIGH_422)
     \<or> AL_GET_PROFILE_CODEC_AND_IDC eProfile = AL_PROFILE_HEVC_RExt"

definition AL_IS_LOW_BITRATE_PROFILE :: "u32 \<Rightarrow> bool" where
  "AL_IS_LOW_BITRATE_PROFILE eProfile \<longleftrightarrow>
     AL_GET_PROFILE_CODEC_AND_IDC eProfile = AL_PROFILE_HEVC_RExt \<and> AL_GET_RExt_FLAGS eProfile AND 0x0080 \<noteq> 0"

definition AL_IS_STILL_PROFILE :: "u32 \<Rightarrow> bool" where
  "AL_IS_STILL_PROFILE eProfile \<longleftrightarrow>
     (AL_GET_PROFILE_CODEC_AND_IDC eProfile = AL_PROFILE_HEVC_RExt \<and> AL_GET_RExt_FLAGS eProfile AND 0x0100 \<noteq> 0)
     \<or> AL_GET_PROFILE_CODEC_AND_IDC eProfile = AL_PROFILE_HEVC_MAIN_STILL"

definition AL_IS_10BIT_PROFILE :: "u32 \<Rightarrow> bool" where
  "AL_IS_10BIT_PROFILE eProfile \<longleftrightarrow>
     (AL_GET_PROFILE_CODEC_AND_IDC eProfile = AL_PROFILE_AVC_HIGH10
      \<or> AL_GET_PROFILE_CODEC_AND_IDC eProfile = AL_PROFILE_AVC_HIGH_422)
     \<or> (AL_GET_PROFILE_CODEC_AND_IDC eProfile = AL_PROFILE_HEVC_MAIN10
         \<or> AL_GET_PROFILE_CODEC_AND_IDC eProfile = AL_PROFILE_HEVC_RExt \<and> AL_GET_RExt_FLAGS eProfile AND 0x2000 = 0)"

definition AL_IS_420_PROFILE :: "u32 \<Rightarrow> bool" where
  "AL_IS_420_PROFILE eProfile \<longleftrightarrow>
     \<not> (AL_GET_PROFILE_CODEC_AND_IDC eProfile = AL_PROFILE_HEVC_RExt \<and> AL_GET_RExt_FLAGS eProfile AND 0x0400 \<noteq> 0)"

definition AL_IS_422_PROFILE :: "u32 \<Rightarrow> bool" where
  "AL_IS_422_PROFILE eProfile \<longleftrightarrow>
     AL_GET_PROFILE_CODEC_AND_IDC eProfile = AL_PROFILE_AVC_HIGH_422
     \<or> AL_GET_PROFILE_CODEC_AND_IDC eProfile = AL_PROFILE_HEVC_RExt \<and> AL_GET_RExt_FLAGS eProfile AND 0x0C00 = 0"

definition AL_IS_INTRA_PROFILE :: "u32 \<Rightarrow> bool" where
  "AL_IS_INTRA_PROFILE eProfile \<longleftrightarrow>
     AL_IS_AVC eProfile \<and> AL_GET_CS_FLAGS eProfile AND 0x0008 \<noteq> 0
     \<or> AL_GET_PROFILE_CODEC_AND_IDC eProfile = AL_PROFILE_HEVC_RExt \<and> AL_GET_RExt_FLAGS eProfile AND 0x0200 \<noteq> 0"

definition AL_IS_XAVC :: "u32 \<Rightarrow> bool" where
  "AL_IS_XAVC eProfile \<longleftrightarrow> AL_IS_AVC eProfile \<and> AL_GET_CS_FLAGS eProfile AND 0x1000 \<noteq> 0"

definition AL_IS_XAVC_CBG :: "u32 \<Rightarrow> bool" where
  "AL_IS_XAVC_CBG eProfile \<longleftrightarrow> AL_IS_XAVC eProfile \<and> AL_GET_CS_FLAGS eProfile AND 0x2000 = 0"

definition AL_IS_XAVC_VBR :: "u32 \<Rightarrow> bool" where
  "AL_IS_XAVC_VBR eProfile \<longleftrightarrow> AL_IS_XAVC eProfile \<and> AL_GET_CS_FLAGS eProfile AND 0x2000 \<noteq> 0"

definition AL_IS_XAVC_MP4 :: "u32 \<Rightarrow> bool" where
  "AL_IS_XAVC_MP4 eProfile \<longleftrightarrow> AL_IS_XAVC eProfile \<and> AL_GET_CS_FLAGS eProfile AND 0x4000 = 0"

definition AL_IS_XAVC_MXF :: "u32 \<Rightarrow> bool" where
  "AL_IS_XAVC_MXF eProfile \<longleftrightarrow> AL_IS_XAVC eProfile \<and> AL_GET_CS_FLAGS eProfile AND 0x4000 \<noteq> 0"

end
