(* ===== verification/CommonSyntax.thy ===== *)
theory CommonSyntax imports NalRoundtrip begin

text \<open>
  vcu-ctrl-sw/lib_parsing/common_syntax.c and lib_common/common_syntax_elements.h: the syntax structures AVC
  and HEVC share, and their parsing.  A value a reader returns is converted to the type of the member it is
  assigned to: \<open>get_u\<close> and \<open>get_ue\<close> give a word of any length, \<open>get_ue_int\<close> an \<open>int\<close>.  An assignment past
  the end of an array has no result.
\<close>

section \<open>Reading into members\<close>

definition get_u :: "nat \<Rightarrow> AL_TRbspParser \<Rightarrow> ('a::len word \<times> AL_TRbspParser) option" where
  "get_u n p = do { (v, q) \<leftarrow> u n p; Some (ucast v, q) }"

definition get_ue :: "AL_TRbspParser \<Rightarrow> ('a::len word \<times> AL_TRbspParser) option" where
  "get_ue p = do { (v, q) \<leftarrow> ue p; Some (ucast v, q) }"

definition get_ue_int :: "AL_TRbspParser \<Rightarrow> (int \<times> AL_TRbspParser) option" where
  "get_ue_int p = do { (v, q) \<leftarrow> ue p; Some (sint v, q) }"

section \<open>Structures\<close>

definition MAX_NUM_CPB :: nat where "MAX_NUM_CPB = 32"

record AL_TSubHrdParam =
  bit_rate_value_minus1 :: "u32 list"
  cpb_size_value_minus1 :: "u32 list"
  cpb_size_du_value_minus1 :: "u32 list"
  bit_rate_du_value_minus1 :: "u32 list"
  cbr_flag :: "u8 list"

record AL_THrdParam =
  nal_hrd_parameters_present_flag :: u8
  vcl_hrd_parameters_present_flag :: u8
  sub_pic_hrd_params_present_flag :: u8
  tick_divisor_minus2 :: u8
  du_cpb_removal_delay_increment_length_minus1 :: u8
  sub_pic_cpb_params_in_pic_timing_sei_flag :: u8
  dpb_output_delay_du_length_minus1 :: u8
  bit_rate_scale :: u8
  cpb_size_scale :: u8
  cpb_size_du_scale :: u8
  initial_cpb_removal_delay_length_minus1 :: u8
  au_cpb_removal_delay_length_minus1 :: u8
  dpb_output_delay_length_minus1 :: u8
  time_offset_length :: u8
  fixed_pic_rate_general_flag :: "u8 list"
  fixed_pic_rate_within_cvs_flag :: "u8 list"
  elemental_duration_in_tc_minus1 :: "u32 list"
  hrd_low_delay_hrd_flag :: "u8 list"
  cpb_cnt_minus1 :: "u32 list"
  nal_sub_hrd_param :: AL_TSubHrdParam
  vcl_sub_hrd_param :: AL_TSubHrdParam

record AL_TVuiParam =
  aspect_ratio_info_present_flag :: u8
  aspect_ratio_idc :: u8
  sar_width :: u16
  sar_height :: u16
  overscan_info_present_flag :: u8
  overscan_appropriate_flag :: u8
  video_signal_type_present_flag :: u8
  video_format :: u8
  video_full_range_flag :: u8
  colour_description_present_flag :: u8
  colour_primaries :: u8
  transfer_characteristics :: u8
  matrix_coefficients :: u8
  chroma_loc_info_present_flag :: u8
  chroma_sample_loc_type_top_field :: u8
  chroma_sample_loc_type_bottom_field :: u8
  neutral_chroma_indication_flag :: u8
  field_seq_flag :: u8
  frame_field_info_present_flag :: u8
  default_display_window_flag :: u8
  def_disp_win_left_offset :: u32
  def_disp_win_right_offset :: u32
  def_disp_win_top_offset :: u32
  def_disp_win_bottom_offset :: u32
  vui_timing_info_present_flag :: u8
  vui_num_units_in_tick :: u32
  vui_time_scale :: u32
  vui_poc_proportional_to_timing_flag :: u8
  vui_num_ticks_poc_diff_one_minus1 :: u32
  vui_hrd_parameters_present_flag :: u8
  hrd_param :: AL_THrdParam
  poc_proportional_to_timing_flag :: u8
  fixed_frame_rate_flag :: u8
  low_delay_hrd_flag :: u8
  pic_struct_present_flag :: u8
  num_reorder_frames :: u32
  max_dec_frame_buffering :: u32
  bitstream_restriction_flag :: u8
  tiles_fixed_structure_flag :: u8
  motion_vectors_over_pic_boundaries_flag :: u8
  restricted_ref_pic_lists_flag :: u8
  min_spatial_segmentation_idc :: u8
  max_bytes_per_pic_denom :: u8
  max_bits_per_min_cu_denom :: u8
  log2_max_mv_length_horizontal :: u8
  log2_max_mv_length_vertical :: u8

record AL_TSCLParam =
  scaling_list_pred_mode_flag :: "u8 list list"
  scaling_list_pred_matrix_id_delta :: "u8 list list"
  scaling_list_dc_coeff :: "u8 list list"
  ScalingList :: "u8 list list list"
  UseDefaultScalingMatrixFlag :: "u8 list"

text \<open>lib_parsing/Concealment.h\<close>

datatype AL_PARSE_RESULT = AL_CONCEAL | AL_OK | AL_UNSUPPORTED

text \<open>The structures after \<open>memset\<close>.\<close>

definition scl_0 :: AL_TSCLParam where
  "scl_0 = \<lparr>scaling_list_pred_mode_flag = replicate 4 (replicate 6 0),
     scaling_list_pred_matrix_id_delta = replicate 4 (replicate 6 0), scaling_list_dc_coeff = replicate 2 (replicate 6 0),
     ScalingList = replicate 4 (replicate 6 (replicate 64 0)), UseDefaultScalingMatrixFlag = replicate 20 0\<rparr>"

definition sub_hrd_0 :: AL_TSubHrdParam where
  "sub_hrd_0 = \<lparr>bit_rate_value_minus1 = replicate 32 0, cpb_size_value_minus1 = replicate 32 0,
     cpb_size_du_value_minus1 = replicate 32 0, bit_rate_du_value_minus1 = replicate 32 0, cbr_flag = replicate 32 0\<rparr>"

definition hrd_0 :: AL_THrdParam where
  "hrd_0 = \<lparr>nal_hrd_parameters_present_flag = 0, vcl_hrd_parameters_present_flag = 0,
     sub_pic_hrd_params_present_flag = 0, tick_divisor_minus2 = 0,
     du_cpb_removal_delay_increment_length_minus1 = 0, sub_pic_cpb_params_in_pic_timing_sei_flag = 0,
     dpb_output_delay_du_length_minus1 = 0, bit_rate_scale = 0, cpb_size_scale = 0, cpb_size_du_scale = 0,
     initial_cpb_removal_delay_length_minus1 = 0, au_cpb_removal_delay_length_minus1 = 0,
     dpb_output_delay_length_minus1 = 0, time_offset_length = 0,
     fixed_pic_rate_general_flag = replicate 8 0, fixed_pic_rate_within_cvs_flag = replicate 8 0,
     elemental_duration_in_tc_minus1 = replicate 8 0, hrd_low_delay_hrd_flag = replicate 8 0,
     cpb_cnt_minus1 = replicate 8 0, nal_sub_hrd_param = sub_hrd_0, vcl_sub_hrd_param = sub_hrd_0\<rparr>"

definition vui_0 :: AL_TVuiParam where
  "vui_0 = \<lparr>aspect_ratio_info_present_flag = 0, aspect_ratio_idc = 0, sar_width = 0, sar_height = 0,
     overscan_info_present_flag = 0, overscan_appropriate_flag = 0, video_signal_type_present_flag = 0,
     video_format = 0, video_full_range_flag = 0, colour_description_present_flag = 0, colour_primaries = 0,
     transfer_characteristics = 0, matrix_coefficients = 0, chroma_loc_info_present_flag = 0,
     chroma_sample_loc_type_top_field = 0, chroma_sample_loc_type_bottom_field = 0,
     neutral_chroma_indication_flag = 0, field_seq_flag = 0, frame_field_info_present_flag = 0,
     default_display_window_flag = 0, def_disp_win_left_offset = 0, def_disp_win_right_offset = 0,
     def_disp_win_top_offset = 0, def_disp_win_bottom_offset = 0, vui_timing_info_present_flag = 0,
     vui_num_units_in_tick = 0, vui_time_scale = 0, vui_poc_proportional_to_timing_flag = 0,
     vui_num_ticks_poc_diff_one_minus1 = 0, vui_hrd_parameters_present_flag = 0, hrd_param = hrd_0,
     poc_proportional_to_timing_flag = 0, fixed_frame_rate_flag = 0, low_delay_hrd_flag = 0,
     pic_struct_present_flag = 0, num_reorder_frames = 0, max_dec_frame_buffering = 0,
     bitstream_restriction_flag = 0, tiles_fixed_structure_flag = 0,
     motion_vectors_over_pic_boundaries_flag = 0, restricted_ref_pic_lists_flag = 0,
     min_spatial_segmentation_idc = 0, max_bytes_per_pic_denom = 0, max_bits_per_min_cu_denom = 0,
     log2_max_mv_length_horizontal = 0, log2_max_mv_length_vertical = 0\<rparr>"

section \<open>AVC\<close>

definition pDecScanBlock4x4 :: "nat list" where
  "pDecScanBlock4x4 = [0, 1, 4, 8, 5, 2, 3, 6, 9, 12, 13, 10, 7, 11, 14, 15]"

definition pDecScanBlock8x8 :: "nat list" where
  "pDecScanBlock8x8 =
    [0, 1, 8, 16, 9, 2, 3, 10, 17, 24, 32, 25, 18, 11, 4, 5,
     12, 19, 26, 33, 40, 48, 41, 34, 27, 20, 13, 6, 7, 14, 21, 28,
     35, 42, 49, 56, 57, 50, 43, 36, 29, 22, 15, 23, 30, 37, 44, 51,
     58, 59, 52, 45, 38, 31, 39, 46, 53, 60, 61, 54, 47, 55, 62, 63]"

text \<open>\<open>js\<close> are the positions still to be read, \<open>first\<close> says that none was.\<close>

fun scaling_list_loop ::
    "nat list \<Rightarrow> bool \<Rightarrow> int \<Rightarrow> int \<Rightarrow> u8 \<Rightarrow> u8 list \<Rightarrow> AL_TRbspParser \<Rightarrow> ((u8 list \<times> u8) \<times> AL_TRbspParser) option" where
  "scaling_list_loop [] first iLastScale iNextScale dflt xs p = Some ((xs, dflt), p)"
| "scaling_list_loop (i # is) first iLastScale iNextScale dflt xs p =
     do { ((next, dflt1), p1) \<leftarrow>
            (if iNextScale \<noteq> 0
             then do { (d, q) \<leftarrow> se p;
                       let next = (iLastScale + Clip3 d (- 128) 127 + 256) mod 256;
                       Some ((next, if first \<and> next = 0 then 1 else 0), q) }
             else Some ((iNextScale, dflt), p));
          let v = (if next = 0 then iLastScale else next);
          xs1 \<leftarrow> set_at xs i (of_int v);
          scaling_list_loop is False (v mod 256) next dflt1 xs1 p1 }"

definition avc_scaling_list_data ::
    "u8 list \<Rightarrow> nat \<Rightarrow> u8 \<Rightarrow> AL_TRbspParser \<Rightarrow> ((u8 list \<times> u8) \<times> AL_TRbspParser) option" where
  "avc_scaling_list_data xs iSize dflt p =
     scaling_list_loop (if iSize = 16 then pDecScanBlock4x4 else pDecScanBlock8x8) True 8 8 dflt xs p"

text \<open>The loop over the CPBs; \<open>k\<close> are left.\<close>

fun cpb_loop :: "nat \<Rightarrow> nat \<Rightarrow> AL_TSubHrdParam \<Rightarrow> AL_TRbspParser \<Rightarrow> (AL_TSubHrdParam \<times> AL_TRbspParser) option" where
  "cpb_loop 0 i s p = Some (s, p)"
| "cpb_loop (Suc k) i s p =
     do { (br, p1) \<leftarrow> get_ue p;
          brs \<leftarrow> set_at (bit_rate_value_minus1 s) i br;
          (cs, p2) \<leftarrow> get_ue p1;
          css \<leftarrow> set_at (cpb_size_value_minus1 s) i cs;
          (cf, p3) \<leftarrow> get_u 1 p2;
          cfs \<leftarrow> set_at (cbr_flag s) i cf;
          cpb_loop k (i + 1) (s\<lparr>bit_rate_value_minus1 := brs, cpb_size_value_minus1 := css, cbr_flag := cfs\<rparr>) p3 }"

definition avc_hrd_parameters ::
    "AL_THrdParam \<Rightarrow> AL_TSubHrdParam \<Rightarrow> AL_TRbspParser \<Rightarrow> ((bool \<times> AL_THrdParam \<times> AL_TSubHrdParam) \<times> AL_TRbspParser) option" where
  "avc_hrd_parameters h sub p =
     (let sub0 = sub\<lparr>bit_rate_value_minus1 := replicate 32 0, cpb_size_value_minus1 := replicate 32 0, cbr_flag := replicate 32 0\<rparr>
      in do { (cnt, p1) \<leftarrow> get_ue p;
              let h1 = h\<lparr>cpb_cnt_minus1 := (cpb_cnt_minus1 h)[0 := cnt]\<rparr>;
              if cnt > 31 then Some ((False, h1, sub0), p1)
              else do { (bs, p2) \<leftarrow> get_u 4 p1;
                        (cs, p3) \<leftarrow> get_u 4 p2;
                        (sub1, p4) \<leftarrow> cpb_loop (unat cnt + 1) 0 sub0 p3;
                        (il, p5) \<leftarrow> get_u 5 p4;
                        (al, p6) \<leftarrow> get_u 5 p5;
                        (dl, p7) \<leftarrow> get_u 5 p6;
                        (tl, p8) \<leftarrow> get_u 5 p7;
                        Some ((True, h1\<lparr>bit_rate_scale := bs, cpb_size_scale := cs,
                                 initial_cpb_removal_delay_length_minus1 := il, au_cpb_removal_delay_length_minus1 := al,
                                 dpb_output_delay_length_minus1 := dl, time_offset_length := tl\<rparr>, sub1), p8) } })"

text \<open>The parts of the video usability information, in the order of the syntax; the first three are the same in
  HEVC.\<close>

definition vui_aspect_ratio :: "AL_TVuiParam \<Rightarrow> AL_TRbspParser \<Rightarrow> (AL_TVuiParam \<times> AL_TRbspParser) option" where
  "vui_aspect_ratio v p =
     do { (f, p1) \<leftarrow> get_u 1 p;
          if f \<noteq> 0
          then do { (idc, p2) \<leftarrow> get_u 8 p1;
                    if idc = 255
                    then do { (sw, p3) \<leftarrow> get_u 16 p2;
                              (sh, p4) \<leftarrow> get_u 16 p3;
                              Some (v\<lparr>aspect_ratio_info_present_flag := f, aspect_ratio_idc := idc, sar_width := sw, sar_height := sh\<rparr>, p4) }
                    else Some (v\<lparr>aspect_ratio_info_present_flag := f, aspect_ratio_idc := idc\<rparr>, p2) }
          else Some (v\<lparr>aspect_ratio_info_present_flag := f\<rparr>, p1) }"

definition vui_overscan :: "AL_TVuiParam \<Rightarrow> AL_TRbspParser \<Rightarrow> (AL_TVuiParam \<times> AL_TRbspParser) option" where
  "vui_overscan v p =
     do { (f, p1) \<leftarrow> get_u 1 p;
          if f \<noteq> 0
          then do { (a, p2) \<leftarrow> get_u 1 p1; Some (v\<lparr>overscan_info_present_flag := f, overscan_appropriate_flag := a\<rparr>, p2) }
          else Some (v\<lparr>overscan_info_present_flag := f\<rparr>, p1) }"

definition vui_video_signal :: "AL_TVuiParam \<Rightarrow> AL_TRbspParser \<Rightarrow> (AL_TVuiParam \<times> AL_TRbspParser) option" where
  "vui_video_signal v p =
     do { (f, p1) \<leftarrow> get_u 1 p;
          if f \<noteq> 0
          then do { (vf, p2) \<leftarrow> get_u 3 p1;
                    (fr, p3) \<leftarrow> get_u 1 p2;
                    (cd, p4) \<leftarrow> get_u 1 p3;
                    let v1 = v\<lparr>video_signal_type_present_flag := f, video_format := vf, video_full_range_flag := fr,
                               colour_description_present_flag := cd\<rparr>;
                    if cd \<noteq> 0
                    then do { (cp, p5) \<leftarrow> get_u 8 p4;
                              (tc, p6) \<leftarrow> get_u 8 p5;
                              (mc, p7) \<leftarrow> get_u 8 p6;
                              Some (v1\<lparr>colour_primaries := cp, transfer_characteristics := tc, matrix_coefficients := mc\<rparr>, p7) }
                    else Some (v1, p4) }
          else Some (v\<lparr>video_signal_type_present_flag := f\<rparr>, p1) }"

definition vui_chroma_loc :: "AL_TVuiParam \<Rightarrow> AL_TRbspParser \<Rightarrow> (AL_TVuiParam \<times> AL_TRbspParser) option" where
  "vui_chroma_loc v p =
     do { (f, p1) \<leftarrow> get_u 1 p;
          if f \<noteq> 0
          then do { (t, p2) \<leftarrow> get_ue p1;
                    (b, p3) \<leftarrow> get_ue p2;
                    Some (v\<lparr>chroma_loc_info_present_flag := f, chroma_sample_loc_type_top_field := t,
                            chroma_sample_loc_type_bottom_field := b\<rparr>, p3) }
          else Some (v\<lparr>chroma_loc_info_present_flag := f\<rparr>, p1) }"

definition avc_vui_timing :: "AL_TVuiParam \<Rightarrow> AL_TRbspParser \<Rightarrow> (AL_TVuiParam \<times> AL_TRbspParser) option" where
  "avc_vui_timing v p =
     do { (f, p1) \<leftarrow> get_u 1 p;
          if f \<noteq> 0
          then do { (n, p2) \<leftarrow> get_u 32 p1;
                    (t, p3) \<leftarrow> get_u 32 p2;
                    (x, p4) \<leftarrow> get_u 1 p3;
                    Some (v\<lparr>vui_timing_info_present_flag := f, vui_num_units_in_tick := n, vui_time_scale := t,
                            fixed_frame_rate_flag := x\<rparr>, p4) }
          else Some (v\<lparr>vui_timing_info_present_flag := f\<rparr>, p1) }"

text \<open>The two HRD blocks share everything but the tables of the CPBs.\<close>

definition avc_nal_hrd :: "AL_TVuiParam \<Rightarrow> AL_TRbspParser \<Rightarrow> ((bool \<times> AL_TVuiParam) \<times> AL_TRbspParser) option" where
  "avc_nal_hrd v p =
     do { (f, p1) \<leftarrow> get_u 1 p;
          let h = (hrd_param v)\<lparr>nal_hrd_parameters_present_flag := f\<rparr>;
          if f \<noteq> 0
          then do { ((ok, h1, sub), p2) \<leftarrow> avc_hrd_parameters h (nal_sub_hrd_param h) p1;
                    Some ((ok, v\<lparr>hrd_param := h1\<lparr>nal_sub_hrd_param := sub\<rparr>\<rparr>), p2) }
          else Some ((True, v\<lparr>hrd_param := h\<rparr>), p1) }"

definition avc_vcl_hrd :: "AL_TVuiParam \<Rightarrow> AL_TRbspParser \<Rightarrow> ((bool \<times> AL_TVuiParam) \<times> AL_TRbspParser) option" where
  "avc_vcl_hrd v p =
     do { (f, p1) \<leftarrow> get_u 1 p;
          let h = (hrd_param v)\<lparr>vcl_hrd_parameters_present_flag := f\<rparr>;
          if f \<noteq> 0
          then do { ((ok, h1, sub), p2) \<leftarrow> avc_hrd_parameters h (vcl_sub_hrd_param h) p1;
                    Some ((ok, v\<lparr>hrd_param := h1\<lparr>vcl_sub_hrd_param := sub\<rparr>\<rparr>), p2) }
          else Some ((True, v\<lparr>hrd_param := h\<rparr>), p1) }"

definition avc_vui_tail :: "AL_TVuiParam \<Rightarrow> AL_TRbspParser \<Rightarrow> (AL_TVuiParam \<times> AL_TRbspParser) option" where
  "avc_vui_tail v p =
     do { (v1, p1) \<leftarrow> (if nal_hrd_parameters_present_flag (hrd_param v) \<noteq> 0 \<or> vcl_hrd_parameters_present_flag (hrd_param v) \<noteq> 0
                       then do { (l, q) \<leftarrow> get_u 1 p; Some (v\<lparr>low_delay_hrd_flag := l\<rparr>, q) }
                       else Some (v, p));
          (ps, p2) \<leftarrow> get_u 1 p1;
          (br, p3) \<leftarrow> get_u 1 p2;
          let v2 = v1\<lparr>pic_struct_present_flag := ps, bitstream_restriction_flag := br\<rparr>;
          if br \<noteq> 0
          then do { (mv, p4) \<leftarrow> get_u 1 p3;
                    (by', p5) \<leftarrow> get_ue p4;
                    (bi, p6) \<leftarrow> get_ue p5;
                    (lh, p7) \<leftarrow> get_ue p6;
                    (lv, p8) \<leftarrow> get_ue p7;
                    (nr, p9) \<leftarrow> get_ue p8;
                    (md, p10) \<leftarrow> get_ue p9;
                    Some (v2\<lparr>motion_vectors_over_pic_boundaries_flag := mv, max_bytes_per_pic_denom := by',
                             max_bits_per_min_cu_denom := bi, log2_max_mv_length_horizontal := lh,
                             log2_max_mv_length_vertical := lv, num_reorder_frames := nr, max_dec_frame_buffering := md\<rparr>, p10) }
          else Some (v2, p3) }"

definition avc_vui_parameters :: "AL_TVuiParam \<Rightarrow> AL_TRbspParser \<Rightarrow> ((bool \<times> AL_TVuiParam) \<times> AL_TRbspParser) option" where
  "avc_vui_parameters v p =
     do { (v1, p1) \<leftarrow> vui_aspect_ratio v p;
          (v2, p2) \<leftarrow> vui_overscan v1 p1;
          (v3, p3) \<leftarrow> vui_video_signal v2 p2;
          (v4, p4) \<leftarrow> vui_chroma_loc v3 p3;
          (v5, p5) \<leftarrow> avc_vui_timing v4 p4;
          ((ok1, v6), p6) \<leftarrow> avc_nal_hrd v5 p5;
          if \<not> ok1 then Some ((False, v6), p6)
          else do { ((ok2, v7), p7) \<leftarrow> avc_vcl_hrd v6 p6;
                    if \<not> ok2 then Some ((False, v7), p7)
                    else do { (v8, p8) \<leftarrow> avc_vui_tail v7 p7; Some ((True, v8), p8) } } }"

end
