(* ===== verification/AvcSyntax.thy ===== *)
theory AvcSyntax imports CommonSyntax begin

text \<open>
  The AVC sequence and picture parameter sets (lib_common/SPS.h and PPS.h), the encoder's writer of them
  (lib_bitstream/AVC_RbspEncod.c) and the decoder's parser (lib_parsing/AvcParser.c).  A failed assertion of the
  writer and an access past an array have no result.  A parser is split at the ends of its blocks; a block that
  can stop the parser gives the result code, and the blocks after it run only on \<open>AL_OK\<close>.  The pointer to
  the active SPS is its index in the table.
\<close>

section \<open>Structures\<close>

definition MAX_BIT_DEPTH :: u8 where "MAX_BIT_DEPTH = 2"
definition MAX_POC_LSB :: u8 where "MAX_POC_LSB = 12"
definition AL_AVC_MAX_SPS :: u8 where "AL_AVC_MAX_SPS = 32"
definition MAX_FRAME_NUM :: u8 where "MAX_FRAME_NUM = 12"
definition MAX_POC_TYPE :: u8 where "MAX_POC_TYPE = 2"

record AL_TAvcSps =
  profile_idc :: int
  constraint_set0_flag :: u8
  constraint_set1_flag :: u8
  constraint_set2_flag :: u8
  constraint_set3_flag :: u8
  constraint_set4_flag :: u8
  constraint_set5_flag :: u8
  reserved_zero_2bits :: u8
  level_idc :: int
  seq_parameter_set_id :: u8
  chroma_format_idc :: u8
  separate_colour_plane_flag :: u8
  bit_depth_luma_minus8 :: u8
  bit_depth_chroma_minus8 :: u8
  qpprime_y_zero_transform_bypass_flag :: u8
  seq_scaling_matrix_present_flag :: u8
  seq_scaling_list_present_flag :: "u8 list"
  ScalingList4x4 :: "u8 list list"
  ScalingList8x8 :: "u8 list list"
  scaling_list_param :: AL_TSCLParam
  log2_max_frame_num_minus4 :: u8
  pic_order_cnt_type :: u8
  log2_max_pic_order_cnt_lsb_minus4 :: u8
  delta_pic_order_always_zero_flag :: u8
  offset_for_non_ref_pic :: int
  offset_for_top_to_bottom_field :: int
  num_ref_frames_in_pic_order_cnt_cycle :: u8
  offset_for_ref_frame :: "int list"
  max_num_ref_frames :: u32
  gaps_in_frame_num_value_allowed_flag :: u8
  pic_width_in_mbs_minus1 :: u16
  pic_height_in_map_units_minus1 :: u16
  frame_mbs_only_flag :: u8
  mb_adaptive_frame_field_flag :: u8
  direct_8x8_inference_flag :: u8
  frame_cropping_flag :: u8
  frame_crop_left_offset :: int
  frame_crop_right_offset :: int
  frame_crop_top_offset :: int
  frame_crop_bottom_offset :: int
  vui_parameters_present_flag :: u8
  vui_param :: AL_TVuiParam
  iCurrInitialCpbRemovalDelay :: int
  UseDefaultScalingMatrix4x4Flag :: "u8 list"
  UseDefaultScalingMatrix8x8Flag :: "u8 list"
  bConceal :: bool

definition sps_0 :: AL_TAvcSps where
  "sps_0 = \<lparr>profile_idc = 0, constraint_set0_flag = 0, constraint_set1_flag = 0, constraint_set2_flag = 0,
     constraint_set3_flag = 0, constraint_set4_flag = 0, constraint_set5_flag = 0, reserved_zero_2bits = 0,
     level_idc = 0, seq_parameter_set_id = 0, chroma_format_idc = 0, separate_colour_plane_flag = 0,
     bit_depth_luma_minus8 = 0, bit_depth_chroma_minus8 = 0, qpprime_y_zero_transform_bypass_flag = 0,
     seq_scaling_matrix_present_flag = 0, seq_scaling_list_present_flag = replicate 8 0,
     ScalingList4x4 = replicate 6 (replicate 16 0), ScalingList8x8 = replicate 2 (replicate 64 0),
     scaling_list_param = scl_0, log2_max_frame_num_minus4 = 0, pic_order_cnt_type = 0,
     log2_max_pic_order_cnt_lsb_minus4 = 0, delta_pic_order_always_zero_flag = 0, offset_for_non_ref_pic = 0,
     offset_for_top_to_bottom_field = 0, num_ref_frames_in_pic_order_cnt_cycle = 0,
     offset_for_ref_frame = replicate 256 0, max_num_ref_frames = 0, gaps_in_frame_num_value_allowed_flag = 0,
     pic_width_in_mbs_minus1 = 0, pic_height_in_map_units_minus1 = 0, frame_mbs_only_flag = 0,
     mb_adaptive_frame_field_flag = 0, direct_8x8_inference_flag = 0, frame_cropping_flag = 0,
     frame_crop_left_offset = 0, frame_crop_right_offset = 0, frame_crop_top_offset = 0,
     frame_crop_bottom_offset = 0, vui_parameters_present_flag = 0, vui_param = vui_0,
     iCurrInitialCpbRemovalDelay = 0, UseDefaultScalingMatrix4x4Flag = replicate 6 0,
     UseDefaultScalingMatrix8x8Flag = replicate 2 0, bConceal = False\<rparr>"

section \<open>The writer\<close>

text \<open>A member goes to the bit writer as a 32-bit argument.\<close>

definition put_u :: "nat \<Rightarrow> 'a::len word \<Rightarrow> AL_TBitStreamLite \<Rightarrow> AL_TBitStreamLite option" where
  "put_u n v = AL_BitStreamLite_PutU n (ucast v)"

definition put_ue :: "'a::len word \<Rightarrow> AL_TBitStreamLite \<Rightarrow> AL_TBitStreamLite option" where
  "put_ue v = AL_BitStreamLite_PutUE (ucast v)"

definition assert_that :: "bool \<Rightarrow> AL_TBitStreamLite \<Rightarrow> AL_TBitStreamLite option" where
  "assert_that b s = (if b then Some s else None)"

fun write_scaling_loop ::
    "nat list \<Rightarrow> u8 list \<Rightarrow> int \<Rightarrow> u8 \<Rightarrow> AL_TBitStreamLite \<Rightarrow> AL_TBitStreamLite option" where
  "write_scaling_loop [] pScalingList iLastScale iNextScale pBS = Some pBS"
| "write_scaling_loop (i # is) pScalingList iLastScale iNextScale pBS =
     do { v \<leftarrow> at pScalingList i;
          if iNextScale \<noteq> 0
          then do { let d = uint v - iLastScale;
                    let iDeltaScale = (if d > 127 then d - 256 else if d < - 128 then d + 256 else d);
                    s1 \<leftarrow> AL_BitStreamLite_PutSE iDeltaScale pBS;
                    write_scaling_loop is pScalingList (uint v) v s1 }
          else write_scaling_loop is pScalingList (uint v) iNextScale pBS }"

definition writeScalingList :: "u8 list \<Rightarrow> nat \<Rightarrow> AL_TBitStreamLite \<Rightarrow> AL_TBitStreamLite option" where
  "writeScalingList pScalingList iSize pBS =
     write_scaling_loop (take iSize (if iSize = 16 then pDecScanBlock4x4 else pDecScanBlock8x8)) pScalingList 8 8 pBS"

definition AL_SL_INTRA :: nat where "AL_SL_INTRA = 0"
definition AL_SL_INTER :: nat where "AL_SL_INTER = 1"

definition scaling_column :: "nat \<Rightarrow> nat option" where
  "scaling_column i =
     (if i \<in> {0, 1, 2} then Some (3 * AL_SL_INTRA + i)
      else if i \<in> {3, 4, 5} then Some (3 * AL_SL_INTER + (i - 3))
      else if i = 6 then Some (3 * AL_SL_INTRA)
      else if i = 7 then Some (3 * AL_SL_INTER) else None)"

fun write_matrices :: "nat list \<Rightarrow> AL_TAvcSps \<Rightarrow> AL_TBitStreamLite \<Rightarrow> AL_TBitStreamLite option" where
  "write_matrices [] pSps pBS = Some pBS"
| "write_matrices (i # is) pSps pBS =
     do { f \<leftarrow> at (seq_scaling_list_present_flag pSps) i;
          s1 \<leftarrow> put_u 1 f pBS;
          if f = 0 then write_matrices is pSps s1
          else do { column \<leftarrow> scaling_column i;
                    row \<leftarrow> at (ScalingList (scaling_list_param pSps)) (if i < 6 then 0 else 1);
                    l \<leftarrow> at row column;
                    s2 \<leftarrow> writeScalingList l (if i < 6 then 16 else 64) s1;
                    write_matrices is pSps s2 } }"

definition writeScalingMatrix :: "u8 \<Rightarrow> AL_TAvcSps \<Rightarrow> AL_TBitStreamLite \<Rightarrow> AL_TBitStreamLite option" where
  "writeScalingMatrix isScalingMatrixPresent pSps pBS =
     (if isScalingMatrixPresent = 0 then Some pBS else write_matrices [0..<8] pSps pBS)"

fun write_cpbs :: "nat \<Rightarrow> nat \<Rightarrow> AL_TSubHrdParam \<Rightarrow> AL_TBitStreamLite \<Rightarrow> AL_TBitStreamLite option" where
  "write_cpbs 0 i pSubHrd pBS = Some pBS"
| "write_cpbs (Suc k) i pSubHrd pBS =
     do { br \<leftarrow> at (bit_rate_value_minus1 pSubHrd) i;
          s1 \<leftarrow> put_ue br pBS;
          cs \<leftarrow> at (cpb_size_value_minus1 pSubHrd) i;
          s2 \<leftarrow> put_ue cs s1;
          cf \<leftarrow> at (cbr_flag pSubHrd) i;
          s3 \<leftarrow> put_u 1 cf s2;
          write_cpbs k (i + 1) pSubHrd s3 }"

definition writeHrdParam :: "AL_THrdParam \<Rightarrow> AL_TSubHrdParam \<Rightarrow> AL_TBitStreamLite \<Rightarrow> AL_TBitStreamLite option" where
  "writeHrdParam pHrd pSubHrd pBS =
     do { cnt \<leftarrow> at (cpb_cnt_minus1 pHrd) 0;
          s0 \<leftarrow> assert_that (unat cnt < MAX_NUM_CPB) pBS;
          s1 \<leftarrow> put_ue cnt s0;
          s2 \<leftarrow> put_u 4 (bit_rate_scale pHrd) s1;
          s3 \<leftarrow> put_u 4 (cpb_size_scale pHrd) s2;
          s4 \<leftarrow> write_cpbs (unat cnt + 1) 0 pSubHrd s3;
          s5 \<leftarrow> put_u 5 (initial_cpb_removal_delay_length_minus1 pHrd) s4;
          s6 \<leftarrow> put_u 5 (au_cpb_removal_delay_length_minus1 pHrd) s5;
          s7 \<leftarrow> put_u 5 (dpb_output_delay_length_minus1 pHrd) s6;
          put_u 5 (time_offset_length pHrd) s7 }"

definition is_high :: "int \<Rightarrow> bool" where
  "is_high p \<longleftrightarrow> p \<in> {100, 110, 122, 244, 44, 83, 86, 118, 128}"

definition write_sps_head :: "AL_TAvcSps \<Rightarrow> AL_TBitStreamLite \<Rightarrow> AL_TBitStreamLite option" where
  "write_sps_head pSps pBS =
     do { s1 \<leftarrow> AL_BitStreamLite_PutU 8 (of_int (profile_idc pSps)) pBS;
          s2 \<leftarrow> put_u 1 (constraint_set0_flag pSps) s1;
          s3 \<leftarrow> put_u 1 (constraint_set1_flag pSps) s2;
          s4 \<leftarrow> put_u 1 (constraint_set2_flag pSps) s3;
          s5 \<leftarrow> put_u 1 (constraint_set3_flag pSps) s4;
          s6 \<leftarrow> put_u 1 (constraint_set4_flag pSps) s5;
          s7 \<leftarrow> put_u 1 (constraint_set5_flag pSps) s6;
          s8 \<leftarrow> AL_BitStreamLite_PutU 2 0 s7;
          s9 \<leftarrow> AL_BitStreamLite_PutU 8 (of_int (level_idc pSps)) s8;
          put_ue (seq_parameter_set_id pSps) s9 }"

definition write_sps_high :: "AL_TAvcSps \<Rightarrow> AL_TBitStreamLite \<Rightarrow> AL_TBitStreamLite option" where
  "write_sps_high pSps pBS =
     (if is_high (profile_idc pSps)
      then do { s1 \<leftarrow> put_ue (chroma_format_idc pSps) pBS;
                s2 \<leftarrow> assert_that (chroma_format_idc pSps \<noteq> 3) s1;
                s3 \<leftarrow> put_ue (bit_depth_luma_minus8 pSps) s2;
                s4 \<leftarrow> put_ue (bit_depth_chroma_minus8 pSps) s3;
                s5 \<leftarrow> put_u 1 (qpprime_y_zero_transform_bypass_flag pSps) s4;
                s6 \<leftarrow> put_u 1 (seq_scaling_matrix_present_flag pSps) s5;
                writeScalingMatrix (seq_scaling_matrix_present_flag pSps) pSps s6 }
      else Some pBS)"

definition write_sps_frames :: "AL_TAvcSps \<Rightarrow> AL_TBitStreamLite \<Rightarrow> AL_TBitStreamLite option" where
  "write_sps_frames pSps pBS =
     do { s1 \<leftarrow> put_ue (log2_max_frame_num_minus4 pSps) pBS;
          s2 \<leftarrow> put_ue (pic_order_cnt_type pSps) s1;
          s3 \<leftarrow> (if pic_order_cnt_type pSps = 0 then put_ue (log2_max_pic_order_cnt_lsb_minus4 pSps) s2 else Some s2);
          s4 \<leftarrow> assert_that (pic_order_cnt_type pSps \<noteq> 1) s3;
          s5 \<leftarrow> put_ue (max_num_ref_frames pSps) s4;
          s6 \<leftarrow> put_u 1 (gaps_in_frame_num_value_allowed_flag pSps) s5;
          s7 \<leftarrow> put_ue (pic_width_in_mbs_minus1 pSps) s6;
          s8 \<leftarrow> put_ue (pic_height_in_map_units_minus1 pSps) s7;
          s9 \<leftarrow> put_u 1 (frame_mbs_only_flag pSps) s8;
          s10 \<leftarrow> (if frame_mbs_only_flag pSps = 0 then put_u 1 (mb_adaptive_frame_field_flag pSps) s9 else Some s9);
          s11 \<leftarrow> put_u 1 (direct_8x8_inference_flag pSps) s10;
          s12 \<leftarrow> put_u 1 (frame_cropping_flag pSps) s11;
          s13 \<leftarrow> (if frame_cropping_flag pSps \<noteq> 0
                  then do { t1 \<leftarrow> AL_BitStreamLite_PutUE (of_int (frame_crop_left_offset pSps)) s12;
                            t2 \<leftarrow> AL_BitStreamLite_PutUE (of_int (frame_crop_right_offset pSps)) t1;
                            t3 \<leftarrow> AL_BitStreamLite_PutUE (of_int (frame_crop_top_offset pSps)) t2;
                            AL_BitStreamLite_PutUE (of_int (frame_crop_bottom_offset pSps)) t3 }
                  else Some s12);
          put_u 1 (vui_parameters_present_flag pSps) s13 }"

definition write_vui_signal :: "AL_TVuiParam \<Rightarrow> AL_TBitStreamLite \<Rightarrow> AL_TBitStreamLite option" where
  "write_vui_signal v pBS =
     do { s1 \<leftarrow> put_u 1 (aspect_ratio_info_present_flag v) pBS;
          s2 \<leftarrow> (if aspect_ratio_info_present_flag v \<noteq> 0
                 then do { t1 \<leftarrow> put_u 8 (aspect_ratio_idc v) s1;
                           if aspect_ratio_idc v = 255
                           then do { t2 \<leftarrow> put_u 16 (sar_width v) t1; put_u 16 (sar_height v) t2 }
                           else Some t1 }
                 else Some s1);
          s3 \<leftarrow> put_u 1 (overscan_info_present_flag v) s2;
          s4 \<leftarrow> (if overscan_info_present_flag v \<noteq> 0 then put_u 1 (overscan_appropriate_flag v) s3 else Some s3);
          s5 \<leftarrow> put_u 1 (video_signal_type_present_flag v) s4;
          s6 \<leftarrow> (if video_signal_type_present_flag v \<noteq> 0
                 then do { t1 \<leftarrow> put_u 3 (video_format v) s5;
                           t2 \<leftarrow> put_u 1 (video_full_range_flag v) t1;
                           t3 \<leftarrow> put_u 1 (colour_description_present_flag v) t2;
                           if colour_description_present_flag v \<noteq> 0
                           then do { t4 \<leftarrow> put_u 8 (colour_primaries v) t3;
                                     t5 \<leftarrow> put_u 8 (transfer_characteristics v) t4;
                                     put_u 8 (matrix_coefficients v) t5 }
                           else Some t3 }
                 else Some s5);
          s7 \<leftarrow> put_u 1 (chroma_loc_info_present_flag v) s6;
          if chroma_loc_info_present_flag v \<noteq> 0
          then do { t1 \<leftarrow> put_ue (chroma_sample_loc_type_top_field v) s7; put_ue (chroma_sample_loc_type_bottom_field v) t1 }
          else Some s7 }"

definition write_vui_timing :: "AL_TVuiParam \<Rightarrow> AL_TBitStreamLite \<Rightarrow> AL_TBitStreamLite option" where
  "write_vui_timing v pBS =
     do { s1 \<leftarrow> put_u 1 (vui_timing_info_present_flag v) pBS;
          s2 \<leftarrow> (if vui_timing_info_present_flag v \<noteq> 0
                 then do { t1 \<leftarrow> put_u 32 (vui_num_units_in_tick v) s1;
                           t2 \<leftarrow> put_u 32 (vui_time_scale v) t1;
                           put_u 1 (fixed_frame_rate_flag v) t2 }
                 else Some s1);
          let h = hrd_param v;
          s3 \<leftarrow> put_u 1 (nal_hrd_parameters_present_flag h) s2;
          s4 \<leftarrow> (if nal_hrd_parameters_present_flag h \<noteq> 0 then writeHrdParam h (nal_sub_hrd_param h) s3 else Some s3);
          s5 \<leftarrow> put_u 1 (vcl_hrd_parameters_present_flag h) s4;
          s6 \<leftarrow> (if vcl_hrd_parameters_present_flag h \<noteq> 0 then writeHrdParam h (vcl_sub_hrd_param h) s5 else Some s5);
          s7 \<leftarrow> (if nal_hrd_parameters_present_flag h \<noteq> 0 \<or> vcl_hrd_parameters_present_flag h \<noteq> 0
                 then do { l \<leftarrow> at (hrd_low_delay_hrd_flag h) 0; put_u 1 l s6 } else Some s6);
          s8 \<leftarrow> put_u 1 (pic_struct_present_flag v) s7;
          s9 \<leftarrow> put_u 1 (bitstream_restriction_flag v) s8;
          assert_that (bitstream_restriction_flag v = 0) s9 }"

definition writeSpsData :: "AL_TAvcSps \<Rightarrow> AL_TBitStreamLite \<Rightarrow> AL_TBitStreamLite option" where
  "writeSpsData pSps pBS =
     do { s1 \<leftarrow> write_sps_head pSps pBS;
          s2 \<leftarrow> write_sps_high pSps s1;
          s3 \<leftarrow> write_sps_frames pSps s2;
          if vui_parameters_present_flag pSps \<noteq> 0
          then do { s4 \<leftarrow> write_vui_signal (vui_param pSps) s3; write_vui_timing (vui_param pSps) s4 }
          else Some s3 }"

definition writeSps :: "AL_TAvcSps \<Rightarrow> int \<Rightarrow> AL_TBitStreamLite \<Rightarrow> AL_TBitStreamLite option" where
  "writeSps pSps iLayerId pBS =
     do { s1 \<leftarrow> writeSpsData pSps pBS;
          s2 \<leftarrow> AL_BitStreamLite_PutU 1 1 s1;
          AL_BitStreamLite_AlignWithBits 0 s2 }"

end
