(* ===== verification/AvcParser.thy ===== *)
theory AvcParser imports AvcSyntax begin

text \<open>
  lib_parsing/AvcParser.c: the decoder's parser of the AVC sequence parameter set.  \<open>skip\<close> and the reads of
  values that are not kept appear at their places.
\<close>

section \<open>The sequence parameter set\<close>

definition initSps :: "AL_TAvcSps \<Rightarrow> AL_TAvcSps" where
  "initSps s =
     (let v = vui_param s;
          h = (hrd_param v)\<lparr>initial_cpb_removal_delay_length_minus1 := 23, au_cpb_removal_delay_length_minus1 := 23,
                            dpb_output_delay_length_minus1 := 23\<rparr>
      in s\<lparr>vui_param := v\<lparr>hrd_param := h, max_bytes_per_pic_denom := 2, max_bits_per_min_cu_denom := 1,
                           log2_max_mv_length_horizontal := 16, log2_max_mv_length_vertical := 16\<rparr>,
           UseDefaultScalingMatrix4x4Flag := replicate 6 0, UseDefaultScalingMatrix8x8Flag := replicate 2 0,
           mb_adaptive_frame_field_flag := 0, chroma_format_idc := 1, bit_depth_chroma_minus8 := 0,
           bit_depth_luma_minus8 := 0, seq_scaling_matrix_present_flag := 0,
           qpprime_y_zero_transform_bypass_flag := 0, bConceal := True\<rparr>)"

definition HW_IP_BIT_DEPTH :: nat where "HW_IP_BIT_DEPTH = 10"

definition isProfileSupported :: "u8 \<Rightarrow> bool" where
  "isProfileSupported idc =
     (if idc \<in> {66, 77, 100} then True else if idc \<in> {122, 110} then HW_IP_BIT_DEPTH \<ge> 10 else False)"

definition fieldToFrameHeight :: "u16 \<Rightarrow> int" where
  "fieldToFrameHeight iFieldHeight = (uint iFieldHeight + 1) * 2 - 1"

text \<open>One of the eight scaling lists.\<close>

definition sps_fall_back :: "nat \<Rightarrow> AL_TAvcSps \<Rightarrow> AL_TAvcSps option" where
  "sps_fall_back i s =
     (if i < 6
      then if i = 0 \<or> i = 3
           then do { d \<leftarrow> set_at (UseDefaultScalingMatrix4x4Flag s) i 1; Some (s\<lparr>UseDefaultScalingMatrix4x4Flag := d\<rparr>) }
           else do { f \<leftarrow> at (UseDefaultScalingMatrix4x4Flag s) (i - 1);
                     if f \<noteq> 0
                     then do { d \<leftarrow> set_at (UseDefaultScalingMatrix4x4Flag s) i 1;
                               Some (s\<lparr>UseDefaultScalingMatrix4x4Flag := d\<rparr>) }
                     else do { l \<leftarrow> at (ScalingList4x4 s) (i - 1);
                               ls \<leftarrow> set_at (ScalingList4x4 s) i l;
                               Some (s\<lparr>ScalingList4x4 := ls\<rparr>) } }
      else do { d \<leftarrow> set_at (UseDefaultScalingMatrix8x8Flag s) (i - 6) 1; Some (s\<lparr>UseDefaultScalingMatrix8x8Flag := d\<rparr>) })"

definition sps_read_list :: "nat \<Rightarrow> AL_TAvcSps \<Rightarrow> AL_TRbspParser \<Rightarrow> (AL_TAvcSps \<times> AL_TRbspParser) option" where
  "sps_read_list i s p =
     (if i < 6
      then do { l \<leftarrow> at (ScalingList4x4 s) i;
                d \<leftarrow> at (UseDefaultScalingMatrix4x4Flag s) i;
                ((l1, d1), q) \<leftarrow> avc_scaling_list_data l 16 d p;
                Some (s\<lparr>ScalingList4x4 := (ScalingList4x4 s)[i := l1],
                        UseDefaultScalingMatrix4x4Flag := (UseDefaultScalingMatrix4x4Flag s)[i := d1]\<rparr>, q) }
      else do { l \<leftarrow> at (ScalingList8x8 s) (i - 6);
                d \<leftarrow> at (UseDefaultScalingMatrix8x8Flag s) (i - 6);
                ((l1, d1), q) \<leftarrow> avc_scaling_list_data l 64 d p;
                Some (s\<lparr>ScalingList8x8 := (ScalingList8x8 s)[i - 6 := l1],
                        UseDefaultScalingMatrix8x8Flag := (UseDefaultScalingMatrix8x8Flag s)[i - 6 := d1]\<rparr>, q) })"

definition sps_scaling_list :: "nat \<Rightarrow> AL_TAvcSps \<Rightarrow> AL_TRbspParser \<Rightarrow> (AL_TAvcSps \<times> AL_TRbspParser) option" where
  "sps_scaling_list i s p =
     do { (f, p1) \<leftarrow> get_u 1 p;
          fs \<leftarrow> set_at (seq_scaling_list_present_flag s) i f;
          if f \<noteq> 0 then sps_read_list i (s\<lparr>seq_scaling_list_present_flag := fs\<rparr>) p1
          else do { t \<leftarrow> sps_fall_back i (s\<lparr>seq_scaling_list_present_flag := fs\<rparr>); Some (t, p1) } }"

fun sps_scaling_lists :: "nat list \<Rightarrow> AL_TAvcSps \<Rightarrow> AL_TRbspParser \<Rightarrow> (AL_TAvcSps \<times> AL_TRbspParser) option" where
  "sps_scaling_lists [] s p = Some (s, p)"
| "sps_scaling_lists (i # is) s p =
     do { (s1, p1) \<leftarrow> sps_scaling_list i s p; sps_scaling_lists is s1 p1 }"

text \<open>The parts of the SPS.  The head ends with \<open>initSps\<close>.\<close>

definition sps_head :: "AL_TRbspParser \<Rightarrow> ((AL_PARSE_RESULT \<times> AL_TAvcSps) \<times> AL_TRbspParser) option" where
  "sps_head p =
     do { (idc, p1) \<leftarrow> (get_u 8 p :: (u8 \<times> AL_TRbspParser) option);
          p2 \<leftarrow> skip 1 p1;
          (c1, p3) \<leftarrow> (get_u 1 p2 :: (u8 \<times> AL_TRbspParser) option);
          if \<not> isProfileSupported idc \<and> c1 = 0 then Some ((AL_UNSUPPORTED, sps_0), p3)
          else do { p4 \<leftarrow> skip 1 p3;
                    (c3, p5) \<leftarrow> get_u 1 p4;
                    p6 \<leftarrow> skip 1 p5;
                    p7 \<leftarrow> skip 1 p6;
                    p8 \<leftarrow> skip 2 p7;
                    (lvl, p9) \<leftarrow> (get_u 8 p8 :: (u8 \<times> AL_TRbspParser) option);
                    (sid, p10) \<leftarrow> get_ue p9;
                    if \<not> sid < AL_AVC_MAX_SPS then Some ((AL_CONCEAL, sps_0), p10)
                    else Some ((AL_OK, (initSps sps_0)\<lparr>profile_idc := uint idc, constraint_set3_flag := c3,
                                         level_idc := uint lvl, seq_parameter_set_id := sid\<rparr>), p10) } }"

definition parser_high :: "int \<Rightarrow> bool" where
  "parser_high p \<longleftrightarrow> p \<in> {44, 83, 86, 100, 110, 118, 122, 128, 244}"

definition clip_depth :: "u32 \<Rightarrow> u8" where
  "clip_depth v = of_int (Clip3 (sint v) 0 (uint MAX_BIT_DEPTH))"

definition sps_high :: "AL_TAvcSps \<Rightarrow> AL_TRbspParser \<Rightarrow> ((AL_PARSE_RESULT \<times> AL_TAvcSps) \<times> AL_TRbspParser) option" where
  "sps_high s p =
     (if parser_high (profile_idc s)
      then do { (more, p1) \<leftarrow> more_rbsp_data p;
                if \<not> more then Some ((AL_CONCEAL, s), p1)
                else do { (cf, p2) \<leftarrow> get_ue p1;
                          (sp, p3) \<leftarrow> (if cf = 3 then get_u 1 p2 else Some (separate_colour_plane_flag s, p2));
                          (bl, p4) \<leftarrow> ue p3;
                          (bc, p5) \<leftarrow> ue p4;
                          (qz, p6) \<leftarrow> get_u 1 p5;
                          (sm, p7) \<leftarrow> get_u 1 p6;
                          let s1 = s\<lparr>chroma_format_idc := cf, separate_colour_plane_flag := sp,
                                     bit_depth_luma_minus8 := clip_depth bl, bit_depth_chroma_minus8 := clip_depth bc,
                                     qpprime_y_zero_transform_bypass_flag := qz, seq_scaling_matrix_present_flag := sm\<rparr>;
                          (s2, p8) \<leftarrow> (if sm \<noteq> 0 then sps_scaling_lists [0..<8] s1 p7
                                      else Some (s1\<lparr>ScalingList4x4 := replicate 6 (replicate 16 16),
                                                    ScalingList8x8 := replicate 2 (replicate 64 16)\<rparr>, p7));
                          Some ((AL_OK, s2), p8) } }
      else Some ((AL_OK, s), p))"

fun offsets_loop :: "nat \<Rightarrow> nat \<Rightarrow> int list \<Rightarrow> AL_TRbspParser \<Rightarrow> (int list \<times> AL_TRbspParser) option" where
  "offsets_loop 0 i xs p = Some (xs, p)"
| "offsets_loop (Suc k) i xs p =
     do { (v, p1) \<leftarrow> se p; ys \<leftarrow> set_at xs i v; offsets_loop k (i + 1) ys p1 }"

definition sps_poc :: "AL_TAvcSps \<Rightarrow> AL_TRbspParser \<Rightarrow> ((AL_PARSE_RESULT \<times> AL_TAvcSps) \<times> AL_TRbspParser) option" where
  "sps_poc s p =
     do { (fn, p1) \<leftarrow> get_ue p;
          let s1 = s\<lparr>log2_max_frame_num_minus4 := fn\<rparr>;
          if \<not> fn \<le> MAX_FRAME_NUM then Some ((AL_CONCEAL, s1), p1)
          else do { (pt, p2) \<leftarrow> get_ue p1;
                    let s2 = s1\<lparr>pic_order_cnt_type := pt\<rparr>;
                    if \<not> pt \<le> MAX_POC_TYPE then Some ((AL_CONCEAL, s2), p2)
                    else if pt = 0
                    then do { (lsb, p3) \<leftarrow> get_ue p2;
                              let s3 = s2\<lparr>log2_max_pic_order_cnt_lsb_minus4 := lsb\<rparr>;
                              if \<not> lsb \<le> MAX_POC_LSB then Some ((AL_CONCEAL, s3), p3)
                              else Some ((AL_OK, s3\<lparr>delta_pic_order_always_zero_flag := 1\<rparr>), p3) }
                    else if pt = 1
                    then do { (dz, p3) \<leftarrow> get_u 1 p2;
                              (o1, p4) \<leftarrow> se p3;
                              (o2, p5) \<leftarrow> se p4;
                              (n, p6) \<leftarrow> get_ue p5;
                              (os, p7) \<leftarrow> offsets_loop (unat n) 0 (offset_for_ref_frame s2) p6;
                              Some ((AL_OK, s2\<lparr>delta_pic_order_always_zero_flag := dz, offset_for_non_ref_pic := o1,
                                               offset_for_top_to_bottom_field := o2,
                                               num_ref_frames_in_pic_order_cnt_cycle := n, offset_for_ref_frame := os\<rparr>), p7) }
                    else Some ((AL_OK, s2), p2) } }"

definition sps_size :: "AL_TAvcSps \<Rightarrow> AL_TRbspParser \<Rightarrow> ((AL_PARSE_RESULT \<times> AL_TAvcSps) \<times> AL_TRbspParser) option" where
  "sps_size s p =
     do { (nr, p1) \<leftarrow> get_ue p;
          (gaps, p2) \<leftarrow> get_u 1 p1;
          (w, p3) \<leftarrow> get_ue p2;
          (h, p4) \<leftarrow> get_ue p3;
          let s1 = s\<lparr>max_num_ref_frames := nr, gaps_in_frame_num_value_allowed_flag := gaps,
                     pic_width_in_mbs_minus1 := w, pic_height_in_map_units_minus1 := h\<rparr>;
          if \<not> w \<ge> 1 \<or> \<not> h \<ge> 1 then Some ((AL_CONCEAL, s1), p4)
          else do { (fmo, p5) \<leftarrow> get_u 1 p4;
                    let s2 = s1\<lparr>frame_mbs_only_flag := fmo\<rparr>;
                    if fmo = 0
                    then do { (af, p6) \<leftarrow> get_u 1 p5;
                              let s3 = s2\<lparr>mb_adaptive_frame_field_flag := af\<rparr>;
                              if af \<noteq> 0 then Some ((AL_UNSUPPORTED, s3), p6)
                              else Some ((AL_OK, s3\<lparr>pic_height_in_map_units_minus1 := of_int (fieldToFrameHeight h)\<rparr>), p6) }
                    else Some ((AL_OK, s2), p5) } }"

definition sps_crop :: "AL_TAvcSps \<Rightarrow> AL_TRbspParser \<Rightarrow> ((AL_PARSE_RESULT \<times> AL_TAvcSps) \<times> AL_TRbspParser) option" where
  "sps_crop s p =
     do { (more, p1) \<leftarrow> more_rbsp_data p;
          if \<not> more then Some ((AL_CONCEAL, s), p1)
          else do { (d8, p2) \<leftarrow> get_u 1 p1;
                    (fc, p3) \<leftarrow> get_u 1 p2;
                    let s1 = s\<lparr>direct_8x8_inference_flag := d8, frame_cropping_flag := fc\<rparr>;
                    if fc \<noteq> 0
                    then do { (l, p4) \<leftarrow> get_ue_int p3;
                              (r, p5) \<leftarrow> get_ue_int p4;
                              (t, p6) \<leftarrow> get_ue_int p5;
                              (b, p7) \<leftarrow> get_ue_int p6;
                              Some ((AL_OK, s1\<lparr>frame_crop_left_offset := l, frame_crop_right_offset := r,
                                               frame_crop_top_offset := t, frame_crop_bottom_offset := b\<rparr>), p7) }
                    else Some ((AL_OK, s1), p3) } }"

definition sps_vui :: "AL_TAvcSps \<Rightarrow> AL_TRbspParser \<Rightarrow> ((AL_PARSE_RESULT \<times> AL_TAvcSps) \<times> AL_TRbspParser) option" where
  "sps_vui s p =
     do { (f, p1) \<leftarrow> get_u 1 p;
          let s1 = s\<lparr>vui_parameters_present_flag := f\<rparr>;
          if f \<noteq> 0
          then do { (more, p2) \<leftarrow> more_rbsp_data p1;
                    if \<not> more then Some ((AL_CONCEAL, s1), p2)
                    else do { ((ok, v), p3) \<leftarrow> avc_vui_parameters (vui_param s1) p2;
                              if \<not> ok then Some ((AL_CONCEAL, s1\<lparr>vui_param := v\<rparr>), p3)
                              else Some ((AL_OK, s1\<lparr>vui_param := v, bConceal := False\<rparr>), p3) } }
          else Some ((AL_OK, s1\<lparr>bConceal := False\<rparr>), p1) }"

definition AL_AVC_ParseSPS :: "AL_TRbspParser \<Rightarrow> ((AL_PARSE_RESULT \<times> AL_TAvcSps) \<times> AL_TRbspParser) option" where
  "AL_AVC_ParseSPS p =
     do { p0 \<leftarrow> skipAllZerosAndTheNextByte p;
          (_, p1) \<leftarrow> u 8 p0;
          ((r1, s1), p2) \<leftarrow> sps_head p1;
          if r1 \<noteq> AL_OK then Some ((r1, s1), p2)
          else do { ((r2, s2), p3) \<leftarrow> sps_high s1 p2;
                    if r2 \<noteq> AL_OK then Some ((r2, s2), p3)
                    else do { ((r3, s3), p4) \<leftarrow> sps_poc s2 p3;
                              if r3 \<noteq> AL_OK then Some ((r3, s3), p4)
                              else do { ((r4, s4), p5) \<leftarrow> sps_size s3 p4;
                                        if r4 \<noteq> AL_OK then Some ((r4, s4), p5)
                                        else do { ((r5, s5), p6) \<leftarrow> sps_crop s4 p5;
                                                  if r5 \<noteq> AL_OK then Some ((r5, s5), p6)
                                                  else sps_vui s5 p6 } } } } }"

end
