(* ===== verification/SyntaxReads.thy ===== *)
theory SyntaxReads imports CommonSyntax begin

text \<open>
  The rules that prove what a syntax parser makes of a list of written elements.  \<open>reads f es v\<close>: on any NAL
  whose next bits are those of \<open>es\<close>, \<open>f\<close> returns \<open>v\<close> and stops behind them.  The rules follow the parsers'
  shape: a reader and what comes after it, a branch, a test for more data.
\<close>

section \<open>Readers\<close>

definition src :: "u8 list \<Rightarrow> AL_TRbspParser \<Rightarrow> bool list \<Rightarrow> bool" where
  "src X p bs \<longleftrightarrow> rp_inv p X \<and> rest X p = bs \<and> 8 * length X < last_one X + 160 \<and> 0 < last_one X"

definition reads :: "(AL_TRbspParser \<Rightarrow> ('a \<times> AL_TRbspParser) option) \<Rightarrow> (shape \<times> int) list \<Rightarrow> 'a \<Rightarrow> bool" where
  "reads f es v \<longleftrightarrow> (\<forall>X p r. src X p (elems_bits es @ r) \<longrightarrow> (\<exists>q. f p = Some (v, q) \<and> src X q r))"

named_theorems reads_intros

lemma readsI:
  "(\<And>X p r. src X p (elems_bits es @ r) \<Longrightarrow> \<exists>q. f p = Some (v, q) \<and> src X q r) \<Longrightarrow> reads f es v"
  by (simp add: reads_def)

lemma readsD: "reads f es v \<Longrightarrow> src X p (elems_bits es @ r) \<Longrightarrow> \<exists>q. f p = Some (v, q) \<and> src X q r"
  by (simp add: reads_def)

lemma elems_bits_simps [simp]: "elems_bits [] = []" "elems_bits (e # es) = elem_bits e @ elems_bits es"
  "elems_bits (as @ bs) = elems_bits as @ elems_bits bs"
  by (simp_all add: elems_bits_def)

lemma reads_return: "reads (\<lambda>p. Some (v, p)) [] v"
  by (rule readsI) simp

lemma reads_bind:
  assumes "reads f as v" "reads (g v) bs w"
  shows "reads (\<lambda>p. do { (x, q) \<leftarrow> f p; g x q }) (as @ bs) w"
proof (rule readsI)
  fix X p r assume "src X p (elems_bits (as @ bs) @ r)"
  then have "src X p (elems_bits as @ elems_bits bs @ r)" by simp
  from readsD [OF assms(1) this] obtain q where q: "f p = Some (v, q)" "src X q (elems_bits bs @ r)" by blast
  from readsD [OF assms(2) q(2)] q(1) show "\<exists>q. do { (x, q) \<leftarrow> f p; g x q } = Some (w, q) \<and> src X q r" by auto
qed

lemma reads_if:
  "(c \<Longrightarrow> reads f as v) \<Longrightarrow> (\<not> c \<Longrightarrow> reads g bs w) \<Longrightarrow>
   reads (\<lambda>p. if c then f p else g p) (if c then as else bs) (if c then v else w)"
  by simp

lemma reads_elem:
  assumes "elem_ok e"
  shows "reads (get_elem (fst e)) [e] (snd e)"
proof (rule readsI)
  fix X p r assume s: "src X p (elems_bits [e] @ r)"
  then have p: "rp_inv p X" "rest X p = elems_bits [e] @ r"
    "8 * length X < last_one X + 160 \<and> 0 < last_one X" by (simp_all add: src_def)
  from get_elems_law [OF _ p(1,2)] assms obtain q where
    "get_elems (map fst [e]) p = Some (map snd [e], q)" "rp_inv q X" "rest X q = r" by auto
  with p(3) show "\<exists>q. get_elem (fst e) p = Some (snd e, q) \<and> src X q r"
    by (auto simp: src_def split: bind_split_asm)
qed

section \<open>Members\<close>

definition fits :: "nat \<Rightarrow> 'a::len word \<Rightarrow> bool" where
  "fits n v \<longleftrightarrow> 0 < n \<and> n \<le> 32 \<and> uint v < 2 ^ n"

definition golomb :: "'a::len word \<Rightarrow> bool" where
  "golomb v \<longleftrightarrow> LENGTH('a) \<le> 32 \<and> uint v < 2147483647"

lemma uint_back: "uint (w :: u32) = uint (v :: 'a::len word) \<Longrightarrow> ucast w = v"
  by (metis ucast_eq word_of_int_uint)

lemma reads_get_u: "fits n v \<Longrightarrow> reads (get_u n) [(Fixed n, uint v)] v"
proof (rule readsI)
  fix X p r assume f: "fits n v" and s: "src X p (elems_bits [(Fixed n, uint v)] @ r)"
  from f have "elem_ok (Fixed n, uint v)" by (simp add: fits_def)
  from readsD [OF reads_elem [OF this] s] obtain w q where
    "u n p = Some (w, q)" "uint w = uint v" "src X q r" by (auto split: bind_split_asm)
  then show "\<exists>q. get_u n p = Some (v, q) \<and> src X q r" by (auto simp: get_u_def uint_back)
qed

lemma reads_u: "fits n (v :: u32) \<Longrightarrow> reads (u n) [(Fixed n, uint v)] v"
proof (rule readsI)
  fix X p r assume f: "fits n v" and s: "src X p (elems_bits [(Fixed n, uint v)] @ r)"
  from readsD [OF reads_get_u [OF f] s] show "\<exists>q. u n p = Some (v, q) \<and> src X q r"
    by (auto simp: get_u_def split: bind_split_asm)
qed

lemma reads_get_ue: "golomb v \<Longrightarrow> reads get_ue [(Unsigned, uint v)] v"
proof (rule readsI)
  fix X p r assume f: "golomb v" and s: "src X p (elems_bits [(Unsigned, uint v)] @ r)"
  from f have "elem_ok (Unsigned, uint v)" by (simp add: golomb_def)
  from readsD [OF reads_elem [OF this] s] obtain w q where
    "ue p = Some (w, q)" "uint w = uint v" "src X q r" by (auto split: bind_split_asm)
  then show "\<exists>q. get_ue p = Some (v, q) \<and> src X q r" by (auto simp: get_ue_def uint_back)
qed

lemma reads_get_ue_int: "0 \<le> v \<Longrightarrow> v < 2147483647 \<Longrightarrow> reads get_ue_int [(Unsigned, v)] v"
proof (rule readsI)
  fix X p r assume f: "0 \<le> v" "v < 2147483647" and s: "src X p (elems_bits [(Unsigned, v)] @ r)"
  then have "elem_ok (Unsigned, v)" by simp
  from readsD [OF reads_elem [OF this] s] obtain w q where
    w: "ue p = Some (w, q)" "uint w = v" "src X q r" by (auto split: bind_split_asm)
  have "sint w = v" using f w(2) by (simp only: sint_uint) (simp add: signed_take_bit_int_eq_self_iff)
  with w show "\<exists>q. get_ue_int p = Some (v, q) \<and> src X q r" by (simp add: get_ue_int_def)
qed

lemma reads_se: "\<bar>v\<bar> < 1073741824 \<Longrightarrow> reads se [(Signed, v)] v"
proof -
  have "get_elem Signed = se" by (rule ext) simp
  then show "\<bar>v\<bar> < 1073741824 \<Longrightarrow> reads se [(Signed, v)] v" using reads_elem [of "(Signed, v)"] by simp
qed

text \<open>A member read and what comes after it.\<close>

lemmas reads_u_then [reads_intros] = reads_bind [OF reads_get_u, where bs = bs for bs, simplified]
  and reads_ue_then [reads_intros] = reads_bind [OF reads_get_ue, where bs = bs for bs, simplified]
  and reads_ue_int_then [reads_intros] = reads_bind [OF reads_get_ue_int, where bs = bs for bs, simplified]
  and reads_se_then [reads_intros] = reads_bind [OF reads_se, where bs = bs for bs, simplified]

lemmas [reads_intros] = reads_return reads_if

lemma reads_skip: "reads g es w \<Longrightarrow> reads (\<lambda>p. do { q \<leftarrow> skip n p; g q }) ((Fixed n, v) # es) w"
proof (rule readsI)
  fix X p r assume g: "reads g es w" and s: "src X p (elems_bits ((Fixed n, v) # es) @ r)"
  then have p: "rp_inv p X" "rest X p = field n (of_int v) @ elems_bits es @ r"
    "8 * length X < last_one X + 160 \<and> 0 < last_one X"
    by (simp_all add: src_def)
  note rs = rest_skip [OF p(1,2)]
  from skip_law [OF p(1), of n] rs(1) obtain q where
    q: "skip n p = Some q" "rp_inv q X" "iTotalBitIndex q = iTotalBitIndex p + n" by auto
  then have "src X q (elems_bits es @ r)" using rs(3) [of q] p(3) by (simp add: src_def)
  from readsD [OF g this] q(1) show "\<exists>q. do { q \<leftarrow> skip n p; g q } = Some (w, q) \<and> src X q r" by auto
qed

section \<open>More data\<close>

lemma elem_bits_nonempty: "elem_ok e \<Longrightarrow> elem_bits e \<noteq> []"
  by (induction e rule: elem_ok.induct) (auto simp: ue_bits_def simp flip: length_greater_0_conv)

lemma more_data:
  assumes "src X p (b # r)"
  shows "\<exists>q. more_rbsp_data p = Some (True, q) \<and> src X q (b # r)"
proof -
  from assms have p: "rp_inv p X" "rest X p = b # r"
    "8 * length X < last_one X + 160 \<and> 0 < last_one X" by (simp_all add: src_def)
  have lt: "iTotalBitIndex p < last_one X" using rest_take(1) [of X p] p(2) by simp
  show ?thesis
  proof (cases "finished_fetching p")
    case True
    with p lt show ?thesis by (simp add: more_rbsp_data_def fetch_data_finished rp_inv_def src_def)
  next
    case False
    from fetch_data_law [OF p(1) False] obtain q where
      q: "fetch_data p = Some (True, q)" "rp_inv q X" "iTotalBitIndex q = iTotalBitIndex p"
        "finished_fetching q \<or> iTrailingBitOneIndex p + 160 \<le> iTrailingBitOneIndex q" by blast
    have "iTotalBitIndex q < iTrailingBitOneIndex q"
      using q lt rp_bounds(2) [OF p(1)] by (cases "finished_fetching q") (auto simp: rp_inv_def)
    moreover have "rest X q = b # r" using p(2) q(3) by (simp add: rest_def)
    ultimately show ?thesis using q(1,2) p(3) by (simp add: more_rbsp_data_def src_def)
  qed
qed

lemma reads_more [reads_intros]:
  assumes "elem_ok e" "reads (g True) (e # es) v"
  shows "reads (\<lambda>p. do { (m, q) \<leftarrow> more_rbsp_data p; g m q }) (e # es) v"
proof (rule readsI)
  fix X p r assume s: "src X p (elems_bits (e # es) @ r)"
  obtain b t where bt: "elems_bits (e # es) @ r = b # t"
    using elem_bits_nonempty [OF assms(1)] by (cases "elem_bits e") auto
  from more_data [OF s [unfolded bt]] obtain q where
    q: "more_rbsp_data p = Some (True, q)" "src X q (elems_bits (e # es) @ r)" unfolding bt by blast
  from readsD [OF assms(2) q(2)] q(1) show "\<exists>q. do { (m, q) \<leftarrow> more_rbsp_data p; g m q } = Some (v, q) \<and> src X q r"
    by auto
qed

section \<open>The end of the data\<close>

text \<open>\<open>ends f es P\<close>: on a NAL whose last bits before the stop bit are those of \<open>es\<close>, \<open>f\<close> returns a value with \<open>P\<close>.\<close>

definition ends :: "(AL_TRbspParser \<Rightarrow> ('a \<times> AL_TRbspParser) option) \<Rightarrow> (shape \<times> int) list \<Rightarrow> ('a \<Rightarrow> bool) \<Rightarrow> bool" where
  "ends f es P \<longleftrightarrow> (\<forall>X p. src X p (elems_bits es) \<longrightarrow> (\<exists>v q. f p = Some (v, q) \<and> P v))"

lemma endsI: "(\<And>X p. src X p (elems_bits es) \<Longrightarrow> \<exists>v q. f p = Some (v, q) \<and> P v) \<Longrightarrow> ends f es P"
  by (simp add: ends_def)

lemma endsD: "ends f es P \<Longrightarrow> src X p (elems_bits es) \<Longrightarrow> \<exists>v q. f p = Some (v, q) \<and> P v"
  by (simp add: ends_def)

lemma ends_return: "P v \<Longrightarrow> ends (\<lambda>p. Some (v, p)) [] P"
  by (simp add: ends_def)

lemma reads_ends:
  assumes "reads f es v" "P v"
  shows "ends f es P"
proof (rule endsI)
  fix X p assume "src X p (elems_bits es)"
  then have "src X p (elems_bits es @ [])" by simp
  from readsD [OF assms(1) this] assms(2) show "\<exists>v q. f p = Some (v, q) \<and> P v" by blast
qed

lemma ends_bind:
  assumes "reads f as v" "ends (g v) bs P"
  shows "ends (\<lambda>p. do { (x, q) \<leftarrow> f p; g x q }) (as @ bs) P"
proof (rule endsI)
  fix X p assume "src X p (elems_bits (as @ bs))"
  then have "src X p (elems_bits as @ elems_bits bs)" by simp
  from readsD [OF assms(1) this] obtain q where q: "f p = Some (v, q)" "src X q (elems_bits bs)" by blast
  from endsD [OF assms(2) q(2)] q(1) show "\<exists>v q. do { (x, q) \<leftarrow> f p; g x q } = Some (v, q) \<and> P v" by auto
qed

lemma ends_if: "(c \<Longrightarrow> ends f as P) \<Longrightarrow> (\<not> c \<Longrightarrow> ends g bs P) \<Longrightarrow>
   ends (\<lambda>p. if c then f p else g p) (if c then as else bs) P"
  by simp

lemma ends_skip:
  assumes "ends g es P"
  shows "ends (\<lambda>p. do { q \<leftarrow> skip n p; g q }) ((Fixed n, v) # es) P"
proof (rule endsI)
  fix X p assume s: "src X p (elems_bits ((Fixed n, v) # es))"
  have "reads (\<lambda>p. do { q \<leftarrow> skip n p; Some ((), q) }) [(Fixed n, v)] ()" by (rule reads_skip) (rule reads_return)
  from readsD [OF this, of X p "elems_bits es"] s obtain q where
    q: "skip n p = Some q" "src X q (elems_bits es)" by (auto split: bind_split_asm)
  from endsD [OF assms q(2)] q(1) show "\<exists>v q. do { q \<leftarrow> skip n p; g q } = Some (v, q) \<and> P v" by auto
qed

lemma ends_more:
  assumes "elem_ok e" "ends (g True) (e # es) P"
  shows "ends (\<lambda>p. do { (m, q) \<leftarrow> more_rbsp_data p; g m q }) (e # es) P"
proof (rule endsI)
  fix X p assume s: "src X p (elems_bits (e # es))"
  obtain b t where bt: "elems_bits (e # es) = b # t"
    using elem_bits_nonempty [OF assms(1)] by (cases "elem_bits e") auto
  from more_data [OF s [unfolded bt]] obtain q where
    q: "more_rbsp_data p = Some (True, q)" "src X q (elems_bits (e # es))" unfolding bt by blast
  from endsD [OF assms(2) q(2)] q(1) show "\<exists>v q. do { (m, q) \<leftarrow> more_rbsp_data p; g m q } = Some (v, q) \<and> P v"
    by auto
qed

text \<open>No more data: then everything has been fetched.\<close>

lemma no_more_data:
  assumes "src X p []"
  shows "\<exists>q. more_rbsp_data p = Some (False, q) \<and> src X q [] \<and> finished_fetching q"
proof -
  from assms have p: "rp_inv p X" "rest X p = []" "8 * length X < last_one X + 160" "0 < last_one X" by (simp_all add: src_def)
  have t: "iTotalBitIndex p = last_one X" using rest_take(1) [of X p] p(2) rp_bounds(1) [OF p(1)] by simp
  from more_rbsp_data_end [OF p(1-3)] obtain q where q: "more_rbsp_data p = Some (False, q)" "rp_inv q X" by blast
  show ?thesis
  proof (cases "finished_fetching p")
    case True
    with q p show ?thesis by (auto simp: more_rbsp_data_def fetch_data_finished src_def)
  next
    case False
    from fetch_data_law [OF p(1) False] q(1) have i: "iTotalBitIndex q = iTotalBitIndex p" "iTrailingBitOneIndex q \<le> iTotalBitIndex q"
      by (auto simp: more_rbsp_data_def)
    have "finished_fetching q"
    proof (rule ccontr)
      assume n: "\<not> finished_fetching q"
      from fetch_data_law [OF p(1) False] q(1) n have "iTrailingBitOneIndex p + 160 \<le> iTrailingBitOneIndex q"
        by (auto simp: more_rbsp_data_def)
      with rp_bounds(2) [OF p(1)] i show False by simp
    qed
    moreover have "rest X q = []" using t i(1) by (simp add: rest_def)
    ultimately show ?thesis using q p(3,4) by (simp add: src_def)
  qed
qed

end
