(* ===== verification/AvcElems.thy ===== *)
theory AvcElems imports AvcParser SyntaxReads begin

text \<open>
  The syntax elements of the AVC video usability information: the writer puts exactly these, the parser
  reads them back.
\<close>

section \<open>Writers as lists of elements\<close>

definition writes :: "(AL_TBitStreamLite \<Rightarrow> AL_TBitStreamLite option) \<Rightarrow> (shape \<times> int) list \<Rightarrow> bool" where
  "writes f es \<longleftrightarrow> (\<forall>s. f s = put_elems es s)"

named_theorems writes_intros

lemma put_elems_append: "put_elems (as @ bs) s = Option.bind (put_elems as s) (put_elems bs)"
  by (induction as arbitrary: s) (auto split: bind_split)

lemma put_elems_none [simp]: "put_elems [] = Some"
  by (rule ext) simp

lemma writes_return [writes_intros]: "writes Some []"
  by (simp add: writes_def)

lemma writes_bind: "writes f as \<Longrightarrow> writes g bs \<Longrightarrow> writes (\<lambda>s. do { t \<leftarrow> f s; g t }) (as @ bs)"
  unfolding writes_def put_elems_append by (auto intro: arg_cong2 [where f = Option.bind])

lemma writes_if: "(c \<Longrightarrow> writes f as) \<Longrightarrow> (\<not> c \<Longrightarrow> writes g bs) \<Longrightarrow>
   writes (\<lambda>s. if c then f s else g s) (if c then as else bs)"
  by simp

lemma writes_put_u: "writes (put_u n v) [(Fixed n, uint v)]"
  by (simp add: writes_def put_u_def)

lemma writes_put_ue: "writes (put_ue v) [(Unsigned, uint v)]"
  by (simp add: writes_def put_ue_def)

lemma writes_PutU: "writes (AL_BitStreamLite_PutU n (of_int v)) [(Fixed n, v)]"
  by (simp add: writes_def)

lemma writes_PutUE: "writes (AL_BitStreamLite_PutUE (of_int v)) [(Unsigned, v)]"
  by (simp add: writes_def)

lemma writes_PutSE: "writes (AL_BitStreamLite_PutSE v) [(Signed, v)]"
  by (simp add: writes_def)

lemma writes_assert [writes_intros]: "b \<Longrightarrow> writes g es \<Longrightarrow> writes (\<lambda>s. do { t \<leftarrow> assert_that b s; g t }) es"
  "b \<Longrightarrow> writes (assert_that b) []"
  by (simp_all add: writes_def assert_that_def)

lemma writes_bind_cons: "writes f [e] \<Longrightarrow> writes g bs \<Longrightarrow> writes (\<lambda>s. do { t \<leftarrow> f s; g t }) (e # bs)"
  using writes_bind [of f "[e]" g bs] by simp

lemmas [writes_intros] = writes_put_u writes_put_ue writes_PutU writes_PutUE writes_PutSE
  writes_bind_cons [OF writes_put_u] writes_bind_cons [OF writes_put_ue]
  writes_bind_cons [OF writes_PutU] writes_bind_cons [OF writes_PutUE] writes_bind_cons [OF writes_PutSE]
  writes_bind [OF writes_if] writes_if

section \<open>Elements\<close>

definition vui_aspect_elems :: "AL_TVuiParam \<Rightarrow> (shape \<times> int) list" where
  "vui_aspect_elems v =
     (Fixed 1, uint (aspect_ratio_info_present_flag v)) #
     (if aspect_ratio_info_present_flag v \<noteq> 0
      then (Fixed 8, uint (aspect_ratio_idc v)) #
           (if aspect_ratio_idc v = 255 then [(Fixed 16, uint (sar_width v)), (Fixed 16, uint (sar_height v))] else [])
      else [])"

definition vui_overscan_elems :: "AL_TVuiParam \<Rightarrow> (shape \<times> int) list" where
  "vui_overscan_elems v =
     (Fixed 1, uint (overscan_info_present_flag v)) #
     (if overscan_info_present_flag v \<noteq> 0 then [(Fixed 1, uint (overscan_appropriate_flag v))] else [])"

definition vui_video_elems :: "AL_TVuiParam \<Rightarrow> (shape \<times> int) list" where
  "vui_video_elems v =
     (Fixed 1, uint (video_signal_type_present_flag v)) #
     (if video_signal_type_present_flag v \<noteq> 0
      then (Fixed 3, uint (video_format v)) # (Fixed 1, uint (video_full_range_flag v)) #
           (Fixed 1, uint (colour_description_present_flag v)) #
           (if colour_description_present_flag v \<noteq> 0
            then [(Fixed 8, uint (colour_primaries v)), (Fixed 8, uint (transfer_characteristics v)),
                  (Fixed 8, uint (matrix_coefficients v))] else [])
      else [])"

definition vui_chroma_elems :: "AL_TVuiParam \<Rightarrow> (shape \<times> int) list" where
  "vui_chroma_elems v =
     (Fixed 1, uint (chroma_loc_info_present_flag v)) #
     (if chroma_loc_info_present_flag v \<noteq> 0
      then [(Unsigned, uint (chroma_sample_loc_type_top_field v)), (Unsigned, uint (chroma_sample_loc_type_bottom_field v))]
      else [])"

lemma write_vui_signal_eq:
  "writes (write_vui_signal v) (vui_aspect_elems v @ vui_overscan_elems v @ vui_video_elems v @ vui_chroma_elems v)"
  unfolding write_vui_signal_def vui_aspect_elems_def vui_overscan_elems_def vui_video_elems_def vui_chroma_elems_def
    append_Cons append_assoc
  by (rule writes_intros | simp only: if_cancel)+

definition vui_tick_elems :: "AL_TVuiParam \<Rightarrow> (shape \<times> int) list" where
  "vui_tick_elems v =
     (Fixed 1, uint (vui_timing_info_present_flag v)) #
     (if vui_timing_info_present_flag v \<noteq> 0
      then [(Fixed 32, uint (vui_num_units_in_tick v)), (Fixed 32, uint (vui_time_scale v)), (Fixed 1, uint (fixed_frame_rate_flag v))]
      else [])"

fun cpb_elems :: "nat \<Rightarrow> nat \<Rightarrow> AL_TSubHrdParam \<Rightarrow> (shape \<times> int) list" where
  "cpb_elems 0 i s = []"
| "cpb_elems (Suc k) i s =
     (Unsigned, uint (bit_rate_value_minus1 s ! i)) # (Unsigned, uint (cpb_size_value_minus1 s ! i)) #
     (Fixed 1, uint (cbr_flag s ! i)) # cpb_elems k (i + 1) s"

definition hrd_elems :: "AL_THrdParam \<Rightarrow> AL_TSubHrdParam \<Rightarrow> (shape \<times> int) list" where
  "hrd_elems h s =
     (let cnt = cpb_cnt_minus1 h ! 0
      in (Unsigned, uint cnt) # (Fixed 4, uint (bit_rate_scale h)) # (Fixed 4, uint (cpb_size_scale h)) #
         cpb_elems (unat cnt + 1) 0 s @
         [(Fixed 5, uint (initial_cpb_removal_delay_length_minus1 h)), (Fixed 5, uint (au_cpb_removal_delay_length_minus1 h)),
          (Fixed 5, uint (dpb_output_delay_length_minus1 h)), (Fixed 5, uint (time_offset_length h))])"

definition nal_hrd_elems :: "AL_TVuiParam \<Rightarrow> (shape \<times> int) list" where
  "nal_hrd_elems v =
     (let h = hrd_param v
      in (Fixed 1, uint (nal_hrd_parameters_present_flag h)) #
         (if nal_hrd_parameters_present_flag h \<noteq> 0 then hrd_elems h (nal_sub_hrd_param h) else []))"

definition vcl_hrd_elems :: "AL_TVuiParam \<Rightarrow> (shape \<times> int) list" where
  "vcl_hrd_elems v =
     (let h = hrd_param v
      in (Fixed 1, uint (vcl_hrd_parameters_present_flag h)) #
         (if vcl_hrd_parameters_present_flag h \<noteq> 0 then hrd_elems h (vcl_sub_hrd_param h) else []))"

definition has_hrd :: "AL_THrdParam \<Rightarrow> bool" where
  "has_hrd h \<longleftrightarrow> nal_hrd_parameters_present_flag h \<noteq> 0 \<or> vcl_hrd_parameters_present_flag h \<noteq> 0"

definition vui_tail_elems :: "AL_TVuiParam \<Rightarrow> (shape \<times> int) list" where
  "vui_tail_elems v =
     (if has_hrd (hrd_param v) then [(Fixed 1, uint (hrd_low_delay_hrd_flag (hrd_param v) ! 0))] else []) @
     [(Fixed 1, uint (pic_struct_present_flag v)), (Fixed 1, 0)]"

text \<open>The arrays have the lengths of their declarations.\<close>

definition sub_shape :: "AL_TSubHrdParam \<Rightarrow> bool" where
  "sub_shape s \<longleftrightarrow> length (bit_rate_value_minus1 s) = 32 \<and> length (cpb_size_value_minus1 s) = 32 \<and> length (cbr_flag s) = 32"

definition hrd_shape :: "AL_THrdParam \<Rightarrow> bool" where
  "hrd_shape h \<longleftrightarrow> length (cpb_cnt_minus1 h) = 8 \<and> length (hrd_low_delay_hrd_flag h) = 8
     \<and> sub_shape (nal_sub_hrd_param h) \<and> sub_shape (vcl_sub_hrd_param h) \<and> cpb_cnt_minus1 h ! 0 < 32"

lemma writes_at: "i < length xs \<Longrightarrow> writes (f (xs ! i)) es \<Longrightarrow> writes (\<lambda>s. do { x \<leftarrow> at xs i; f x s }) es"
  by (simp add: writes_def at_def)

lemma writes_at2: "i < length xs \<Longrightarrow> writes (\<lambda>s. do { t \<leftarrow> g s; f (xs ! i) t }) es \<Longrightarrow>
    writes (\<lambda>s. do { t \<leftarrow> g s; x \<leftarrow> at xs i; f x t }) es"
  by (simp add: writes_def at_def)

lemma write_cpbs_eq: "sub_shape s \<Longrightarrow> i + k \<le> 32 \<Longrightarrow> writes (write_cpbs k i s) (cpb_elems k i s)"
proof (induction k arbitrary: i)
  case 0
  have "write_cpbs 0 i s = Some" by (rule ext) simp
  then show ?case by (simp add: writes_return)
next
  case (Suc k)
  then have i: "i < length (bit_rate_value_minus1 s)" "i < length (cpb_size_value_minus1 s)" "i < length (cbr_flag s)"
    "writes (write_cpbs k (i + 1) s) (cpb_elems k (i + 1) s)"
    by (simp_all add: sub_shape_def)
  show ?case
    unfolding write_cpbs.simps cpb_elems.simps by (assumption | rule i writes_at writes_intros)+
qed

lemma writeHrdParam_eq:
  assumes "sub_shape s" "length (cpb_cnt_minus1 h) = 8" "cpb_cnt_minus1 h ! 0 < 32"
  shows "writes (writeHrdParam h s) (hrd_elems h s)"
proof -
  have n: "unat (cpb_cnt_minus1 h ! 0) < 32" using assms(3) by (simp add: word_less_nat_alt)
  then have c: "0 < length (cpb_cnt_minus1 h)" "unat (cpb_cnt_minus1 h ! 0) < MAX_NUM_CPB"
    using assms(2) by (simp_all add: MAX_NUM_CPB_def)
  have w: "writes (write_cpbs (unat (cpb_cnt_minus1 h ! 0) + 1) 0 s) (cpb_elems (unat (cpb_cnt_minus1 h ! 0) + 1) 0 s)"
    by (rule write_cpbs_eq [OF assms(1)]) (use n in simp)
  show ?thesis
    unfolding writeHrdParam_def hrd_elems_def Let_def
    by (rule c w writes_at writes_intros writes_bind [OF w])+
qed

lemma writes_cong: "writes f es \<Longrightarrow> es = es' \<Longrightarrow> writes f es'"
  by simp

lemma write_vui_timing_eq:
  assumes "hrd_shape (hrd_param v)" "bitstream_restriction_flag v = 0"
  shows "writes (write_vui_timing v) (vui_tick_elems v @ nal_hrd_elems v @ vcl_hrd_elems v @ vui_tail_elems v)"
proof -
  from assms(1) have h: "sub_shape (nal_sub_hrd_param (hrd_param v))" "sub_shape (vcl_sub_hrd_param (hrd_param v))"
    "length (cpb_cnt_minus1 (hrd_param v)) = 8" "cpb_cnt_minus1 (hrd_param v) ! 0 < 32" by (simp_all add: hrd_shape_def)
  have z: "uint (0 :: u8) = 0" by simp
  have l: "0 < length (hrd_low_delay_hrd_flag (hrd_param v))" using assms(1) by (simp add: hrd_shape_def)
  have b: "writes (\<lambda>s. do { t \<leftarrow> put_u 1 (bitstream_restriction_flag v) s; assert_that (bitstream_restriction_flag v = 0) t }) [(Fixed 1, 0)]"
    unfolding assms(2) by (rule writes_bind_cons [OF writes_put_u [of 1 "0 :: u8", unfolded z]] writes_intros refl)+
  show ?thesis
    unfolding write_vui_timing_def vui_tick_elems_def nal_hrd_elems_def vcl_hrd_elems_def vui_tail_elems_def
      append_Cons append_assoc Let_def has_hrd_def append_Nil
    by (rule writes_at l b writeHrdParam_eq h writes_intros)+
qed

section \<open>Members in range\<close>

lemma fits_all: "fits 8 (v :: u8)" "fits 16 (x :: u16)" "fits 32 (y :: u32)"
  using uint_lt2p [of v] uint_lt2p [of x] uint_lt2p [of y] by (simp_all add: fits_def)

lemma golomb_all: "golomb (v :: u8)" "golomb (x :: u16)"
  using uint_lt2p [of v] uint_lt2p [of x] by (simp_all add: golomb_def)

lemmas [reads_intros] = fits_all golomb_all

definition sub_ok :: "nat \<Rightarrow> AL_TSubHrdParam \<Rightarrow> bool" where
  "sub_ok k s \<longleftrightarrow> (\<forall>i < k. golomb (bit_rate_value_minus1 s ! i) \<and> golomb (cpb_size_value_minus1 s ! i) \<and> fits 1 (cbr_flag s ! i))"

definition hrd_ok :: "AL_THrdParam \<Rightarrow> AL_TSubHrdParam \<Rightarrow> bool" where
  "hrd_ok h s \<longleftrightarrow> fits 4 (bit_rate_scale h) \<and> fits 4 (cpb_size_scale h)
     \<and> sub_ok (unat (cpb_cnt_minus1 h ! 0) + 1) s
     \<and> fits 5 (initial_cpb_removal_delay_length_minus1 h) \<and> fits 5 (au_cpb_removal_delay_length_minus1 h)
     \<and> fits 5 (dpb_output_delay_length_minus1 h) \<and> fits 5 (time_offset_length h)"

definition vui_ok :: "AL_TVuiParam \<Rightarrow> bool" where
  "vui_ok v \<longleftrightarrow> fits 1 (aspect_ratio_info_present_flag v) \<and> fits 1 (overscan_info_present_flag v)
     \<and> fits 1 (overscan_appropriate_flag v) \<and> fits 1 (video_signal_type_present_flag v) \<and> fits 3 (video_format v)
     \<and> fits 1 (video_full_range_flag v) \<and> fits 1 (colour_description_present_flag v)
     \<and> fits 1 (chroma_loc_info_present_flag v) \<and> fits 1 (vui_timing_info_present_flag v) \<and> fits 1 (fixed_frame_rate_flag v)
     \<and> fits 1 (nal_hrd_parameters_present_flag (hrd_param v)) \<and> fits 1 (vcl_hrd_parameters_present_flag (hrd_param v))
     \<and> (nal_hrd_parameters_present_flag (hrd_param v) \<noteq> 0 \<longrightarrow> hrd_ok (hrd_param v) (nal_sub_hrd_param (hrd_param v)))
     \<and> (vcl_hrd_parameters_present_flag (hrd_param v) \<noteq> 0 \<longrightarrow> hrd_ok (hrd_param v) (vcl_sub_hrd_param (hrd_param v)))
     \<and> fits 1 (hrd_low_delay_hrd_flag (hrd_param v) ! 0) \<and> fits 1 (pic_struct_present_flag v)
     \<and> bitstream_restriction_flag v = 0 \<and> hrd_shape (hrd_param v)"

section \<open>What the parser reads\<close>

text \<open>\<open>v\<close> is what was written, \<open>w\<close> the structure before the block.\<close>

definition vui_aspect_of :: "AL_TVuiParam \<Rightarrow> AL_TVuiParam \<Rightarrow> AL_TVuiParam" where
  "vui_aspect_of v w =
     (if aspect_ratio_info_present_flag v \<noteq> 0
      then if aspect_ratio_idc v = 255
           then w\<lparr>aspect_ratio_info_present_flag := aspect_ratio_info_present_flag v, aspect_ratio_idc := aspect_ratio_idc v,
                  sar_width := sar_width v, sar_height := sar_height v\<rparr>
           else w\<lparr>aspect_ratio_info_present_flag := aspect_ratio_info_present_flag v, aspect_ratio_idc := aspect_ratio_idc v\<rparr>
      else w\<lparr>aspect_ratio_info_present_flag := aspect_ratio_info_present_flag v\<rparr>)"

definition vui_overscan_of :: "AL_TVuiParam \<Rightarrow> AL_TVuiParam \<Rightarrow> AL_TVuiParam" where
  "vui_overscan_of v w =
     (if overscan_info_present_flag v \<noteq> 0
      then w\<lparr>overscan_info_present_flag := overscan_info_present_flag v, overscan_appropriate_flag := overscan_appropriate_flag v\<rparr>
      else w\<lparr>overscan_info_present_flag := overscan_info_present_flag v\<rparr>)"

definition vui_video_of :: "AL_TVuiParam \<Rightarrow> AL_TVuiParam \<Rightarrow> AL_TVuiParam" where
  "vui_video_of v w =
     (if video_signal_type_present_flag v \<noteq> 0
      then let w1 = w\<lparr>video_signal_type_present_flag := video_signal_type_present_flag v, video_format := video_format v,
                      video_full_range_flag := video_full_range_flag v,
                      colour_description_present_flag := colour_description_present_flag v\<rparr>
           in if colour_description_present_flag v \<noteq> 0
              then w1\<lparr>colour_primaries := colour_primaries v, transfer_characteristics := transfer_characteristics v,
                      matrix_coefficients := matrix_coefficients v\<rparr>
              else w1
      else w\<lparr>video_signal_type_present_flag := video_signal_type_present_flag v\<rparr>)"

definition vui_chroma_of :: "AL_TVuiParam \<Rightarrow> AL_TVuiParam \<Rightarrow> AL_TVuiParam" where
  "vui_chroma_of v w =
     (if chroma_loc_info_present_flag v \<noteq> 0
      then w\<lparr>chroma_loc_info_present_flag := chroma_loc_info_present_flag v,
             chroma_sample_loc_type_top_field := chroma_sample_loc_type_top_field v,
             chroma_sample_loc_type_bottom_field := chroma_sample_loc_type_bottom_field v\<rparr>
      else w\<lparr>chroma_loc_info_present_flag := chroma_loc_info_present_flag v\<rparr>)"

definition vui_tick_of :: "AL_TVuiParam \<Rightarrow> AL_TVuiParam \<Rightarrow> AL_TVuiParam" where
  "vui_tick_of v w =
     (if vui_timing_info_present_flag v \<noteq> 0
      then w\<lparr>vui_timing_info_present_flag := vui_timing_info_present_flag v, vui_num_units_in_tick := vui_num_units_in_tick v,
             vui_time_scale := vui_time_scale v, fixed_frame_rate_flag := fixed_frame_rate_flag v\<rparr>
      else w\<lparr>vui_timing_info_present_flag := vui_timing_info_present_flag v\<rparr>)"

lemma reads_aspect: "vui_ok v \<Longrightarrow> reads (vui_aspect_ratio w) (vui_aspect_elems v) (vui_aspect_of v w)"
  unfolding vui_aspect_ratio_def vui_aspect_elems_def vui_aspect_of_def vui_ok_def
  by (assumption | rule reads_intros | elim conjE)+

lemma reads_overscan: "vui_ok v \<Longrightarrow> reads (vui_overscan w) (vui_overscan_elems v) (vui_overscan_of v w)"
  unfolding vui_overscan_def vui_overscan_elems_def vui_overscan_of_def vui_ok_def
  by (assumption | rule reads_intros | elim conjE)+

lemma reads_video: "vui_ok v \<Longrightarrow> reads (vui_video_signal w) (vui_video_elems v) (vui_video_of v w)"
  unfolding vui_video_signal_def vui_video_elems_def vui_video_of_def vui_ok_def Let_def
  by (assumption | rule reads_intros | elim conjE)+

lemma reads_chroma: "vui_ok v \<Longrightarrow> reads (vui_chroma_loc w) (vui_chroma_elems v) (vui_chroma_of v w)"
  unfolding vui_chroma_loc_def vui_chroma_elems_def vui_chroma_of_def vui_ok_def
  by (assumption | rule reads_intros | elim conjE)+

lemma reads_tick: "vui_ok v \<Longrightarrow> reads (avc_vui_timing w) (vui_tick_elems v) (vui_tick_of v w)"
  unfolding avc_vui_timing_def vui_tick_elems_def vui_tick_of_def vui_ok_def
  by (assumption | rule reads_intros | elim conjE)+

end
