(* ===== verification/AvcVui.thy ===== *)
theory AvcVui imports AvcElems begin

text \<open>
  The hypothetical reference decoder parameters and the video usability information as a whole: what the
  writer put is what the parser returns.
\<close>

section \<open>HRD parameters\<close>

lemma reads_set_at:
  "i < length xs \<Longrightarrow> reads (g (xs[i := v])) es w \<Longrightarrow> reads (\<lambda>p. do { ys \<leftarrow> set_at xs i v; g ys p }) es w"
  by (simp add: set_at_def)

fun cpb_of :: "nat \<Rightarrow> nat \<Rightarrow> AL_TSubHrdParam \<Rightarrow> AL_TSubHrdParam \<Rightarrow> AL_TSubHrdParam" where
  "cpb_of 0 i s d = d"
| "cpb_of (Suc k) i s d =
     cpb_of k (i + 1) s (d\<lparr>bit_rate_value_minus1 := (bit_rate_value_minus1 d)[i := bit_rate_value_minus1 s ! i],
       cpb_size_value_minus1 := (cpb_size_value_minus1 d)[i := cpb_size_value_minus1 s ! i],
       cbr_flag := (cbr_flag d)[i := cbr_flag s ! i]\<rparr>)"

lemma reads_cpbs:
  "sub_ok (i + k) s \<Longrightarrow> sub_shape d \<Longrightarrow> i + k \<le> 32 \<Longrightarrow> reads (cpb_loop k i d) (cpb_elems k i s) (cpb_of k i s d)"
proof (induction k arbitrary: i d)
  case 0
  have "cpb_loop 0 i d = (\<lambda>p. Some (d, p))" by (rule ext) simp
  then show ?case by (simp add: reads_return)
next
  case (Suc k)
  let ?d = "d\<lparr>bit_rate_value_minus1 := (bit_rate_value_minus1 d)[i := bit_rate_value_minus1 s ! i],
       cpb_size_value_minus1 := (cpb_size_value_minus1 d)[i := cpb_size_value_minus1 s ! i],
       cbr_flag := (cbr_flag d)[i := cbr_flag s ! i]\<rparr>"
  have r: "reads (cpb_loop k (i + 1) ?d) (cpb_elems k (i + 1) s) (cpb_of k (i + 1) s ?d)"
    by (rule Suc.IH) (use Suc.prems in \<open>simp_all add: sub_shape_def\<close>)
  have l: "i < length (bit_rate_value_minus1 d)" "i < length (cpb_size_value_minus1 d)" "i < length (cbr_flag d)"
    using Suc.prems(2,3) by (simp_all add: sub_shape_def)
  have o: "golomb (bit_rate_value_minus1 s ! i)" "golomb (cpb_size_value_minus1 s ! i)" "fits 1 (cbr_flag s ! i)"
    using Suc.prems(1) by (simp_all add: sub_ok_def)
  show ?case
    unfolding cpb_loop.simps cpb_elems.simps cpb_of.simps by (rule r l o reads_set_at reads_intros)+
qed

definition hrd_of :: "AL_THrdParam \<Rightarrow> AL_THrdParam \<Rightarrow> AL_THrdParam" where
  "hrd_of h d = d\<lparr>cpb_cnt_minus1 := (cpb_cnt_minus1 d)[0 := cpb_cnt_minus1 h ! 0], bit_rate_scale := bit_rate_scale h,
     cpb_size_scale := cpb_size_scale h,
     initial_cpb_removal_delay_length_minus1 := initial_cpb_removal_delay_length_minus1 h,
     au_cpb_removal_delay_length_minus1 := au_cpb_removal_delay_length_minus1 h,
     dpb_output_delay_length_minus1 := dpb_output_delay_length_minus1 h, time_offset_length := time_offset_length h\<rparr>"

definition sub_of :: "AL_THrdParam \<Rightarrow> AL_TSubHrdParam \<Rightarrow> AL_TSubHrdParam \<Rightarrow> AL_TSubHrdParam" where
  "sub_of h s d = cpb_of (unat (cpb_cnt_minus1 h ! 0) + 1) 0 s
     (d\<lparr>bit_rate_value_minus1 := replicate 32 0, cpb_size_value_minus1 := replicate 32 0, cbr_flag := replicate 32 0\<rparr>)"

lemma reads_hrd:
  assumes "hrd_ok h s" "cpb_cnt_minus1 h ! 0 < 32"
  shows "reads (avc_hrd_parameters d e) (hrd_elems h s) (True, hrd_of h d, sub_of h s e)"
proof -
  let ?n = "cpb_cnt_minus1 h ! 0"
  have n: "unat ?n < 32" using assms(2) by (simp add: word_less_nat_alt)
  have "uint ?n < 32" using assms(2) by (simp add: word_less_def)
  then have g: "golomb ?n" by (simp add: golomb_def)
  have c: "\<not> ?n > 31" using n by (simp add: word_less_nat_alt)
  have r: "reads (cpb_loop (unat ?n + 1) 0 (e\<lparr>bit_rate_value_minus1 := replicate 32 0, cpb_size_value_minus1 := replicate 32 0,
      cbr_flag := replicate 32 0\<rparr>)) (cpb_elems (unat ?n + 1) 0 s) (sub_of h s e)"
    unfolding sub_of_def
  proof (rule reads_cpbs)
    show "sub_ok (0 + (unat ?n + 1)) s" using assms(1) unfolding hrd_ok_def add_0 by blast
    show "0 + (unat ?n + 1) \<le> 32" using n by linarith
  qed (simp add: sub_shape_def)
  show ?thesis
    using assms(1) unfolding avc_hrd_parameters_def hrd_elems_def hrd_of_def hrd_ok_def Let_def
    apply (elim conjE)
    apply (rule reads_intros g)+
    apply (simp only: c if_False)
    apply (assumption | rule reads_intros reads_bind [OF r])+
    done
qed

section \<open>The whole\<close>

definition vui_nal_of :: "AL_TVuiParam \<Rightarrow> AL_TVuiParam \<Rightarrow> AL_TVuiParam" where
  "vui_nal_of v w =
     (let h = hrd_param v; d = (hrd_param w)\<lparr>nal_hrd_parameters_present_flag := nal_hrd_parameters_present_flag h\<rparr>
      in w\<lparr>hrd_param := if nal_hrd_parameters_present_flag h \<noteq> 0
             then (hrd_of h d)\<lparr>nal_sub_hrd_param := sub_of h (nal_sub_hrd_param h) (nal_sub_hrd_param d)\<rparr> else d\<rparr>)"

definition vui_vcl_of :: "AL_TVuiParam \<Rightarrow> AL_TVuiParam \<Rightarrow> AL_TVuiParam" where
  "vui_vcl_of v w =
     (let h = hrd_param v; d = (hrd_param w)\<lparr>vcl_hrd_parameters_present_flag := vcl_hrd_parameters_present_flag h\<rparr>
      in w\<lparr>hrd_param := if vcl_hrd_parameters_present_flag h \<noteq> 0
             then (hrd_of h d)\<lparr>vcl_sub_hrd_param := sub_of h (vcl_sub_hrd_param h) (vcl_sub_hrd_param d)\<rparr> else d\<rparr>)"

definition vui_tail_of :: "AL_TVuiParam \<Rightarrow> AL_TVuiParam \<Rightarrow> AL_TVuiParam" where
  "vui_tail_of v w =
     w\<lparr>low_delay_hrd_flag := if has_hrd (hrd_param v) then hrd_low_delay_hrd_flag (hrd_param v) ! 0 else low_delay_hrd_flag w,
       pic_struct_present_flag := pic_struct_present_flag v, bitstream_restriction_flag := 0\<rparr>"

lemma reads_val: "reads f es v \<Longrightarrow> v = v' \<Longrightarrow> reads f es v'"
  by simp

lemma reads_bind_last: "reads f es v \<Longrightarrow> reads (g v) [] w \<Longrightarrow> reads (\<lambda>p. do { (x, q) \<leftarrow> f p; g x q }) es w"
  using reads_bind [of f es v g "[]" w] by simp

lemma reads_nal: 
  assumes v: "vui_ok v"
  shows "reads (avc_nal_hrd w) (nal_hrd_elems v) (True, vui_nal_of v w)"
proof -
  let ?h = "hrd_param v"
  have c: "fits 1 (nal_hrd_parameters_present_flag ?h)" "cpb_cnt_minus1 ?h ! 0 < 32"
    and h: "nal_hrd_parameters_present_flag ?h \<noteq> 0 \<Longrightarrow> hrd_ok ?h (nal_sub_hrd_param ?h)"
    using v by (simp_all add: vui_ok_def hrd_shape_def)
  show ?thesis
    unfolding avc_nal_hrd_def nal_hrd_elems_def Let_def
    apply (rule reads_val)
     apply (rule reads_intros c)+
      apply (rule reads_bind_last [OF reads_hrd])
        apply (erule h)
       apply (rule c)
      apply (simp only: prod.case)
      apply (rule reads_intros)+
    apply (simp add: vui_nal_of_def Let_def)
    done
qed

lemma reads_vcl: 
  assumes v: "vui_ok v"
  shows "reads (avc_vcl_hrd w) (vcl_hrd_elems v) (True, vui_vcl_of v w)"
proof -
  let ?h = "hrd_param v"
  have c: "fits 1 (vcl_hrd_parameters_present_flag ?h)" "cpb_cnt_minus1 ?h ! 0 < 32"
    and h: "vcl_hrd_parameters_present_flag ?h \<noteq> 0 \<Longrightarrow> hrd_ok ?h (vcl_sub_hrd_param ?h)"
    using v by (simp_all add: vui_ok_def hrd_shape_def)
  show ?thesis
    unfolding avc_vcl_hrd_def vcl_hrd_elems_def Let_def
    apply (rule reads_val)
     apply (rule reads_intros c)+
      apply (rule reads_bind_last [OF reads_hrd])
        apply (erule h)
       apply (rule c)
      apply (simp only: prod.case)
      apply (rule reads_intros)+
    apply (simp add: vui_vcl_of_def Let_def)
    done
qed

lemma reads_tail:
  assumes "vui_ok v" "has_hrd (hrd_param w) = has_hrd (hrd_param v)"
  shows "reads (avc_vui_tail w) (vui_tail_elems v) (vui_tail_of v w)"
proof -
  have c: "fits 1 (hrd_low_delay_hrd_flag (hrd_param v) ! 0)" "fits 1 (pic_struct_present_flag v)"
    using assms(1) by (simp_all add: vui_ok_def)
  have z: "[(Fixed 1, 0)] = [(Fixed 1, uint (0 :: u8))]" "fits 1 (0 :: u8)" by (simp_all add: fits_def)
  have low: "reads (\<lambda>p. if has_hrd (hrd_param w) then do { (l, q) \<leftarrow> get_u 1 p; Some (w\<lparr>low_delay_hrd_flag := l\<rparr>, q) } else Some (w, p))
      (if has_hrd (hrd_param v) then [(Fixed 1, uint (hrd_low_delay_hrd_flag (hrd_param v) ! 0))] else [])
      (if has_hrd (hrd_param v) then w\<lparr>low_delay_hrd_flag := hrd_low_delay_hrd_flag (hrd_param v) ! 0\<rparr> else w)"
    unfolding assms(2) by (rule reads_intros c)+
  show ?thesis
    unfolding avc_vui_tail_def vui_tail_elems_def has_hrd_def [symmetric] Let_def z(1)
    apply (rule reads_val)
     apply (rule reads_bind [OF low])
     apply (rule reads_intros c z(2))+
     apply (simp only: not_True_eq_False simp_thms if_False)
     apply (rule reads_intros)
    apply (simp add: vui_tail_of_def)
    done
qed

definition vui_elems :: "AL_TVuiParam \<Rightarrow> (shape \<times> int) list" where
  "vui_elems v = vui_aspect_elems v @ vui_overscan_elems v @ vui_video_elems v @ vui_chroma_elems v
     @ vui_tick_elems v @ nal_hrd_elems v @ vcl_hrd_elems v @ vui_tail_elems v"

definition vui_of :: "AL_TVuiParam \<Rightarrow> AL_TVuiParam \<Rightarrow> AL_TVuiParam" where
  "vui_of v w = vui_tail_of v (vui_vcl_of v (vui_nal_of v (vui_tick_of v (vui_chroma_of v (vui_video_of v
     (vui_overscan_of v (vui_aspect_of v w)))))))"

lemma has_hrd_of: "has_hrd (hrd_param (vui_vcl_of v (vui_nal_of v w))) = has_hrd (hrd_param v)"
  by (simp add: has_hrd_def vui_vcl_of_def vui_nal_of_def hrd_of_def Let_def)

lemma reads_vui:
  assumes "vui_ok v"
  shows "reads (avc_vui_parameters w) (vui_elems v) (True, vui_of v w)"
  unfolding avc_vui_parameters_def vui_elems_def vui_of_def
  apply (rule reads_bind [OF reads_aspect [OF assms]] reads_bind [OF reads_overscan [OF assms]]
      reads_bind [OF reads_video [OF assms]] reads_bind [OF reads_chroma [OF assms]] reads_bind [OF reads_tick [OF assms]]
      reads_bind [OF reads_nal [OF assms]])+
  apply (simp only: prod.case not_True_eq_False if_False)
  apply (rule reads_bind [OF reads_vcl [OF assms]])
  apply (simp only: prod.case not_True_eq_False if_False)
  apply (rule reads_bind_last [OF reads_tail [OF assms has_hrd_of]] reads_intros)+
  done

text \<open>The writer's side.\<close>

lemma write_vui_eq:
  assumes "vui_ok v"
  shows "writes (\<lambda>s. do { t \<leftarrow> write_vui_signal v s; write_vui_timing v t }) (vui_elems v)"
proof (rule writes_cong)
  have b: "hrd_shape (hrd_param v)" "bitstream_restriction_flag v = 0" using assms by (simp_all add: vui_ok_def)
  show "writes (\<lambda>s. do { t \<leftarrow> write_vui_signal v s; write_vui_timing v t })
     ((vui_aspect_elems v @ vui_overscan_elems v @ vui_video_elems v @ vui_chroma_elems v)
      @ (vui_tick_elems v @ nal_hrd_elems v @ vcl_hrd_elems v @ vui_tail_elems v))"
    by (rule writes_bind [OF write_vui_signal_eq write_vui_timing_eq [OF b]])
qed (simp add: vui_elems_def)

end
