(* ===== verification/AvcScaling.thy ===== *)
theory AvcScaling imports AvcVui begin

text \<open>
  The round trip of the AVC scaling lists: differences modulo 256 in the scanning order on the writer's
  side, accumulated by the parser.  A list without zeros comes back; a list that is not sent is replaced by the
  one before it or by the default.
\<close>

section \<open>One list\<close>

fun scaling_elems :: "nat list \<Rightarrow> u8 list \<Rightarrow> int \<Rightarrow> (shape \<times> int) list" where
  "scaling_elems [] l prev = []"
| "scaling_elems (i # is) l prev =
     (let d = uint (l ! i) - prev
      in (Signed, if d > 127 then d - 256 else if d < - 128 then d + 256 else d) # scaling_elems is l (uint (l ! i)))"

text \<open>A list that can be sent: long enough and without zeros.\<close>

definition sendable :: "nat \<Rightarrow> u8 list \<Rightarrow> bool" where
  "sendable n l \<longleftrightarrow> n \<le> length l \<and> (\<forall>i < n. l ! i \<noteq> 0)"

lemma write_scaling_eq:
  "sendable n l \<Longrightarrow> \<forall>i \<in> set is. i < n \<Longrightarrow> nx \<noteq> 0 \<Longrightarrow>
   writes (write_scaling_loop is l prev nx) (scaling_elems is l prev)"
proof (induction "is" arbitrary: prev nx)
  case Nil
  have "write_scaling_loop [] l prev nx = Some" by (rule ext) simp
  then show ?case by (simp add: writes_return)
next
  case (Cons i "is")
  then have i: "i < length l" "l ! i \<noteq> 0" by (auto simp: sendable_def)
  have w: "writes (write_scaling_loop is l (uint (l ! i)) (l ! i)) (scaling_elems is l (uint (l ! i)))"
    by (rule Cons.IH [OF Cons.prems(1) _ i(2)]) (use Cons.prems(2) in simp)
  have n: "(nx \<noteq> 0) = True" using Cons.prems(3) by simp
  show ?case
    unfolding write_scaling_loop.simps scaling_elems.simps Let_def n if_True
    by (rule i w writes_at writes_intros)+
qed

definition copy_list :: "nat list \<Rightarrow> u8 list \<Rightarrow> u8 list \<Rightarrow> u8 list" where
  "copy_list is l xs = fold (\<lambda>i xs. xs[i := l ! i]) is xs"

lemma copy_list_nth:
  "length (copy_list is l xs) = length xs"
  "j < length xs \<Longrightarrow> copy_list is l xs ! j = (if j \<in> set is then l ! j else xs ! j)"
proof -
  show "length (copy_list is l xs) = length xs"
    unfolding copy_list_def by (induction "is" arbitrary: xs) simp_all
  show "j < length xs \<Longrightarrow> copy_list is l xs ! j = (if j \<in> set is then l ! j else xs ! j)"
    unfolding copy_list_def by (induction "is" arbitrary: xs) (auto simp: nth_list_update)
qed

lemma delta_range:
  assumes "0 \<le> prev" "prev < 256" "0 \<le> v" "v < (256 :: int)"
  shows "(prev + Clip3 (if v - prev > 127 then v - prev - 256 else if v - prev < - 128 then v - prev + 256 else v - prev) (- 128) 127
      + 256) mod 256 = v"
    "\<bar>if v - prev > 127 then v - prev - 256 else if v - prev < - 128 then v - prev + 256 else v - prev\<bar> < 1073741824"
proof -
  have m: "(v + 256 * k) mod 256 = v" for k :: int using assms(3,4) by simp
  show "(prev + Clip3 (if v - prev > 127 then v - prev - 256 else if v - prev < - 128 then v - prev + 256 else v - prev) (- 128) 127
      + 256) mod 256 = v"
    using m [of 0] m [of 1] m [of 2] assms by (simp add: Clip3_def algebra_simps)
qed (use assms in \<open>auto simp: abs_less_iff\<close>)

lemma reads_scaling:
  "sendable n l \<Longrightarrow> length xs = n \<Longrightarrow> \<forall>i \<in> set is. i < n \<Longrightarrow> nx \<noteq> 0 \<Longrightarrow> 0 \<le> prev \<Longrightarrow> prev < 256 \<Longrightarrow>
   reads (scaling_list_loop is first prev nx dflt xs) (scaling_elems is l prev)
     (copy_list is l xs, if is = [] then dflt else 0)"
proof (induction "is" arbitrary: prev "nx" xs dflt first)
  case Nil
  have "scaling_list_loop [] first prev nx dflt xs = (\<lambda>p. Some ((xs, dflt), p))" by (rule ext) simp
  then show ?case by (simp add: reads_return copy_list_def)
next
  case (Cons i "is")
  let ?v = "uint (l ! i)"
  from Cons.prems have i: "i < length xs" "l ! i \<noteq> 0" by (auto simp: sendable_def)
  have v: "0 \<le> ?v" "?v < 256" "?v \<noteq> 0"
    using uint_lt2p [of "l ! i"] i(2) by (simp_all add: uint_0_iff)
  note d = delta_range [OF Cons.prems(5,6) v(1,2)]
  have r: "reads (scaling_list_loop is False ?v ?v 0 (xs[i := l ! i])) (scaling_elems is l ?v)
      (copy_list is l (xs[i := l ! i]), 0)"
    using Cons.IH [of "xs[i := l ! i]" ?v ?v False 0] Cons.prems v by auto
  have n: "(nx \<noteq> 0) = True" using Cons.prems(4) by simp
  have c: "copy_list (i # is) l xs = copy_list is l (xs[i := l ! i])" by (simp add: copy_list_def)
  have st: "reads (\<lambda>p. do { (d, q) \<leftarrow> se p; Some (((prev + Clip3 d (- 128) 127 + 256) mod 256,
        if first \<and> (prev + Clip3 d (- 128) 127 + 256) mod 256 = 0 then 1 else 0), q) })
      [(Signed, if ?v - prev > 127 then ?v - prev - 256 else if ?v - prev < - 128 then ?v - prev + 256 else ?v - prev)]
      (?v, if first \<and> ?v = 0 then 1 else 0 :: u8)"
    by (rule reads_val, (rule reads_intros d(2))+) (simp only: d(1))
  have m: "?v mod 256 = ?v" using v by simp
  have e: "[x] @ xs = x # xs" for x and xs :: "'z list" by simp
  show ?case
    unfolding scaling_list_loop.simps scaling_elems.simps Let_def n if_True c
    apply (rule reads_bind [OF st, unfolded e])
    apply (simp only: prod.case v if_False m word_of_int_uint of_int_uint ucast_id simp_thms list.distinct)
    apply (rule reads_set_at [OF i(1)])
    apply (rule r)
    done
qed

text \<open>The two scanning orders reach every position.\<close>

lemma scan_sets: "set pDecScanBlock4x4 = {..<16}" "set pDecScanBlock8x8 = {..<64}"
  by code_simp+

definition scan :: "nat \<Rightarrow> nat list" where
  "scan n = (if n = 16 then pDecScanBlock4x4 else pDecScanBlock8x8)"

lemma copy_scan: "n = 16 \<or> n = 64 \<Longrightarrow> sendable n l \<Longrightarrow> length xs = n \<Longrightarrow> copy_list (scan n) l xs = take n l"
  by (rule nth_equalityI) (auto simp: copy_list_nth scan_def scan_sets sendable_def)

lemma reads_scaling_list:
  assumes "n = 16 \<or> n = 64" "sendable n l" "length xs = n"
  shows "reads (avc_scaling_list_data xs n dflt) (scaling_elems (scan n) l 8) (take n l, 0)"
proof (rule reads_val)
  have "\<forall>i \<in> set (scan n). i < n" using assms(1) by (auto simp: scan_def scan_sets)
  then show "reads (avc_scaling_list_data xs n dflt) (scaling_elems (scan n) l 8)
      (copy_list (scan n) l xs, if scan n = [] then dflt else 0)"
    unfolding avc_scaling_list_data_def scan_def [symmetric]
    by (intro reads_scaling [OF assms(2,3)]) simp_all
  have "scan n \<noteq> []" by (simp add: scan_def pDecScanBlock4x4_def pDecScanBlock8x8_def)
  then show "(copy_list (scan n) l xs, if scan n = [] then dflt else 0) = (take n l, 0)"
    using copy_scan [OF assms] by simp
qed

lemma writes_scaling_list:
  assumes "n = 16 \<or> n = 64" "sendable n l"
  shows "writes (writeScalingList l n) (scaling_elems (scan n) l 8)"
proof -
  have "\<forall>i \<in> set (scan n). i < n" using assms(1) by (auto simp: scan_def scan_sets)
  moreover have "take n (scan n) = scan n"
    using assms(1) by (auto simp: scan_def pDecScanBlock4x4_def pDecScanBlock8x8_def)
  ultimately show ?thesis
    unfolding writeScalingList_def scan_def [symmetric] by (simp add: write_scaling_eq [OF assms(2)])
qed

end
