(* ===== verification/AvcLists.thy ===== *)
theory AvcLists imports AvcScaling begin

text \<open>
  The eight scaling lists of an AVC SPS: those that are sent come back, the others fall back.
\<close>

definition list_size :: "nat \<Rightarrow> nat" where
  "list_size i = (if i < 6 then 16 else 64)"

definition matrix_of :: "AL_TAvcSps \<Rightarrow> nat \<Rightarrow> u8 list" where
  "matrix_of s i = ScalingList (scaling_list_param s) ! (if i < 6 then 0 else 1) ! the (scaling_column i)"

fun matrices_elems :: "nat list \<Rightarrow> AL_TAvcSps \<Rightarrow> (shape \<times> int) list" where
  "matrices_elems [] s = []"
| "matrices_elems (i # is) s =
     (Fixed 1, uint (seq_scaling_list_present_flag s ! i)) #
     (if seq_scaling_list_present_flag s ! i \<noteq> 0 then scaling_elems (scan (list_size i)) (matrix_of s i) 8 else []) @
     matrices_elems is s"

definition lists_ok :: "AL_TAvcSps \<Rightarrow> bool" where
  "lists_ok s \<longleftrightarrow> length (seq_scaling_list_present_flag s) = 8
     \<and> length (ScalingList (scaling_list_param s)) = 4 \<and> (\<forall>r \<in> set (ScalingList (scaling_list_param s)). length r = 6)
     \<and> (\<forall>i < 8. fits 1 (seq_scaling_list_present_flag s ! i))
     \<and> (\<forall>i < 8. seq_scaling_list_present_flag s ! i \<noteq> 0 \<longrightarrow> sendable (list_size i) (matrix_of s i))"

lemma column: "i < 8 \<Longrightarrow> \<exists>c < 6. scaling_column i = Some c"
proof -
  assume "i < 8"
  then consider "i \<in> {0, 1, 2}" | "i \<in> {3, 4, 5}" | "i = 6" | "i = 7" by fastforce
  then show ?thesis by cases (auto simp: scaling_column_def AL_SL_INTRA_def AL_SL_INTER_def)
qed

lemma write_matrices_eq:
  "lists_ok s \<Longrightarrow> \<forall>i \<in> set is. i < 8 \<Longrightarrow> writes (write_matrices is s) (matrices_elems is s)"
proof (induction "is")
  case Nil
  have "write_matrices [] s = Some" by (rule ext) simp
  then show ?case by (simp add: writes_return)
next
  case (Cons i "is")
  then have i: "i < length (seq_scaling_list_present_flag s)" "i < 8" by (auto simp: lists_ok_def)
  have w: "writes (write_matrices is s) (matrices_elems is s)" using Cons by simp
  obtain c where c: "scaling_column i = Some c" "c < 6" using column [OF i(2)] by blast
  let ?l = "ScalingList (scaling_list_param s)" let ?k = "if i < 6 then 0 else 1 :: nat"
  have k: "?k < length ?l" using Cons.prems(1) by (simp add: lists_ok_def)
  have c2: "c < length (?l ! ?k)" using Cons.prems(1) c(2) nth_mem [OF k] by (auto simp: lists_ok_def)
  have m: "?l ! ?k ! c = matrix_of s i" by (simp add: matrix_of_def c)
  have z: "(if i < 6 then 16 else 64) = list_size i" "list_size i = 16 \<or> list_size i = 64" by (auto simp: list_size_def)
  show ?case
  proof (cases "seq_scaling_list_present_flag s ! i = 0")
    case True
    show ?thesis
      unfolding write_matrices.simps matrices_elems.simps
      apply (rule writes_at [OF i(1)])
      unfolding True
      apply (rule writes_bind_cons [OF writes_put_u])
      apply (simp add: w)
      done
  next
    case False
    then have "sendable (list_size i) (matrix_of s i)" using Cons.prems(1) i(2) by (simp add: lists_ok_def)
    note ws = writes_scaling_list [OF z(2) this]
    have f: "(seq_scaling_list_present_flag s ! i = 0) = False" using False by simp
    show ?thesis
      unfolding write_matrices.simps matrices_elems.simps z(1) c Option.bind.bind_lunit
      apply (rule writes_at [OF i(1)])
      unfolding f if_False not_False_eq_True if_True
      apply (rule writes_bind_cons [OF writes_put_u])
      apply (rule writes_at [OF k])
      apply (rule writes_at [OF c2])
      unfolding m
      apply (rule writes_bind [OF ws w])
      done
  qed
qed

text \<open>The parser's side.\<close>

definition lists_shape :: "AL_TAvcSps \<Rightarrow> bool" where
  "lists_shape t \<longleftrightarrow> length (seq_scaling_list_present_flag t) = 8
     \<and> length (ScalingList4x4 t) = 6 \<and> (\<forall>i < 6. length (ScalingList4x4 t ! i) = 16)
     \<and> length (ScalingList8x8 t) = 2 \<and> (\<forall>i < 2. length (ScalingList8x8 t ! i) = 64)
     \<and> length (UseDefaultScalingMatrix4x4Flag t) = 6 \<and> length (UseDefaultScalingMatrix8x8Flag t) = 2"

text \<open>Every list behaves as sent or as fallen back; a turn of the loop changes its own list only.\<close>

definition got_list :: "AL_TAvcSps \<Rightarrow> AL_TAvcSps \<Rightarrow> nat \<Rightarrow> bool" where
  "got_list s t i \<longleftrightarrow> seq_scaling_list_present_flag t ! i = seq_scaling_list_present_flag s ! i
     \<and> (seq_scaling_list_present_flag s ! i \<noteq> 0 \<longrightarrow>
          (if i < 6 then ScalingList4x4 t ! i = take 16 (matrix_of s i) \<and> UseDefaultScalingMatrix4x4Flag t ! i = 0
           else ScalingList8x8 t ! (i - 6) = take 64 (matrix_of s i) \<and> UseDefaultScalingMatrix8x8Flag t ! (i - 6) = 0))
     \<and> (seq_scaling_list_present_flag s ! i = 0 \<longrightarrow>
          (if i \<in> {0, 3} then UseDefaultScalingMatrix4x4Flag t ! i = 1
           else if i < 6 then if UseDefaultScalingMatrix4x4Flag t ! (i - 1) \<noteq> 0
                              then UseDefaultScalingMatrix4x4Flag t ! i = 1
                              else ScalingList4x4 t ! i = ScalingList4x4 t ! (i - 1)
           else UseDefaultScalingMatrix8x8Flag t ! (i - 6) = 1))"

text \<open>The SPS without its lists.\<close>

definition no_lists :: "AL_TAvcSps \<Rightarrow> AL_TAvcSps" where
  "no_lists t = t\<lparr>seq_scaling_list_present_flag := [], ScalingList4x4 := [], ScalingList8x8 := [],
     UseDefaultScalingMatrix4x4Flag := [], UseDefaultScalingMatrix8x8Flag := []\<rparr>"

text \<open>What a turn for list \<open>i\<close> leaves as it was.\<close>

definition others_kept :: "nat \<Rightarrow> AL_TAvcSps \<Rightarrow> AL_TAvcSps \<Rightarrow> bool" where
  "others_kept i t t' \<longleftrightarrow> lists_shape t' \<and> no_lists t' = no_lists t \<and> (\<forall>j < i. \<forall>s. got_list s t j \<longrightarrow> got_list s t' j)"

lemma others_kept_trans: "others_kept i t a \<Longrightarrow> others_kept i a b \<Longrightarrow> others_kept i t b"
  by (simp add: others_kept_def)

lemma nth_other: "j < i \<Longrightarrow> xs[i := v] ! j = xs ! j"
  by simp

lemma set_flag_law:
  "lists_shape t \<Longrightarrow> i < 8 \<Longrightarrow>
   others_kept i t (t\<lparr>seq_scaling_list_present_flag := (seq_scaling_list_present_flag t)[i := f]\<rparr>)"
  by (simp add: others_kept_def lists_shape_def no_lists_def got_list_def)

lemma set_list4_law:
  assumes "lists_shape t" "i < 6" "length l = 16"
  shows "others_kept i t (t\<lparr>ScalingList4x4 := (ScalingList4x4 t)[i := l],
    UseDefaultScalingMatrix4x4Flag := (UseDefaultScalingMatrix4x4Flag t)[i := d]\<rparr>)"
  using assms unfolding others_kept_def
  by (auto simp: lists_shape_def no_lists_def got_list_def nth_list_update)

lemma set_list8_law:
  assumes "lists_shape t" "6 \<le> i" "i < 8" "length l = 64"
  shows "others_kept i t (t\<lparr>ScalingList8x8 := (ScalingList8x8 t)[i - 6 := l],
    UseDefaultScalingMatrix8x8Flag := (UseDefaultScalingMatrix8x8Flag t)[i - 6 := d]\<rparr>)"
  using assms unfolding others_kept_def
  by (auto simp: lists_shape_def no_lists_def got_list_def nth_list_update)

lemma fall_back_law:
  assumes t: "lists_shape t" "i < 8"
    and f: "seq_scaling_list_present_flag t ! i = 0" "seq_scaling_list_present_flag s ! i = 0"
  shows "\<exists>t'. sps_fall_back i t = Some t' \<and> others_kept i t t' \<and> got_list s t' i"
proof -
  have l: "length (ScalingList4x4 t) = 6" "length (UseDefaultScalingMatrix4x4Flag t) = 6"
    "length (UseDefaultScalingMatrix8x8Flag t) = 2" using t(1) by (simp_all add: lists_shape_def)
  consider "i \<in> {0, 3}" | "i < 6" "i \<notin> {0, 3}" "UseDefaultScalingMatrix4x4Flag t ! (i - 1) \<noteq> 0"
    | "i < 6" "i \<notin> {0, 3}" "UseDefaultScalingMatrix4x4Flag t ! (i - 1) = 0" | "6 \<le> i" by linarith
  then show ?thesis
  proof cases
    case 1
    then have i: "i < 6" "i = 0 \<or> i = 3" by auto
    have n: "length (ScalingList4x4 t ! i) = 16" using t(1) i(1) by (simp add: lists_shape_def)
    from set_list4_law [OF t(1) i(1) n, of 1] show ?thesis
      using i l f by (auto simp: sps_fall_back_def set_at_def got_list_def list_update_id)
  next
    case 2
    have n: "length (ScalingList4x4 t ! i) = 16" using t(1) 2(1) by (simp add: lists_shape_def)
    from set_list4_law [OF t(1) 2(1) n, of 1] show ?thesis
      using 2 l f by (auto simp: sps_fall_back_def set_at_def at_def got_list_def list_update_id)
  next
    case 3
    have n: "length (ScalingList4x4 t ! (i - 1)) = 16" using t(1) 3(1) by (simp add: lists_shape_def)
    from set_list4_law [OF t(1) 3(1) n, of "UseDefaultScalingMatrix4x4Flag t ! i"] show ?thesis
      using 3 l f by (auto simp: sps_fall_back_def set_at_def at_def got_list_def list_update_id)
  next
    case 4
    have n: "length (ScalingList8x8 t ! (i - 6)) = 64" using t 4 by (simp add: lists_shape_def)
    from set_list8_law [OF t(1) 4 t(2) n, of 1] show ?thesis
      using 4 t(2) l f by (auto simp: sps_fall_back_def set_at_def got_list_def list_update_id)
  qed
qed

text \<open>A list that was sent.\<close>

lemma reads_at: "i < length xs \<Longrightarrow> reads (g (xs ! i)) es w \<Longrightarrow> reads (\<lambda>p. do { x \<leftarrow> at xs i; g x p }) es w"
  by (simp add: at_def)

lemma read_list_law:
  assumes t: "lists_shape t" "i < 8" "seq_scaling_list_present_flag t ! i = seq_scaling_list_present_flag s ! i"
    and s: "seq_scaling_list_present_flag s ! i \<noteq> 0" "sendable (list_size i) (matrix_of s i)"
  shows "\<exists>t'. reads (sps_read_list i t) (scaling_elems (scan (list_size i)) (matrix_of s i) 8) t'
    \<and> others_kept i t t' \<and> got_list s t' i"
proof (cases "i < 6")
  case True
  then have k: "i < length (ScalingList4x4 t)" "i < length (UseDefaultScalingMatrix4x4Flag t)"
      "length (ScalingList4x4 t ! i) = 16" "list_size i = 16"
    using t(1) by (simp_all add: lists_shape_def list_size_def)
  let ?t = "t\<lparr>ScalingList4x4 := (ScalingList4x4 t)[i := take 16 (matrix_of s i)],
      UseDefaultScalingMatrix4x4Flag := (UseDefaultScalingMatrix4x4Flag t)[i := 0]\<rparr>"
  have d: "sendable 16 (matrix_of s i)" using s(2) k(4) by simp
  have c: "(i < 6) = True" using True by simp
  have r: "reads (sps_read_list i t) (scaling_elems (scan (list_size i)) (matrix_of s i) 8) ?t"
    unfolding sps_read_list_def k(4) c if_True
    apply (rule reads_at [OF k(1)])
    apply (rule reads_at [OF k(2)])
    apply (rule reads_bind_last [OF reads_scaling_list [OF _ d k(3)]])
     apply simp
    apply (simp only: prod.case)
    apply (rule reads_return)
    done
  have "length (take 16 (matrix_of s i)) = 16" using d by (simp add: sendable_def)
  from set_list4_law [OF t(1) True this, of 0] r True k(1,2) s t(3) show ?thesis
    by (intro exI [of _ ?t] conjI) (auto simp: got_list_def)
next
  case False
  then have k: "i - 6 < length (ScalingList8x8 t)" "i - 6 < length (UseDefaultScalingMatrix8x8Flag t)"
      "length (ScalingList8x8 t ! (i - 6)) = 64" "list_size i = 64"
    using t(1,2) by (simp_all add: lists_shape_def list_size_def)
  let ?t = "t\<lparr>ScalingList8x8 := (ScalingList8x8 t)[i - 6 := take 64 (matrix_of s i)],
      UseDefaultScalingMatrix8x8Flag := (UseDefaultScalingMatrix8x8Flag t)[i - 6 := 0]\<rparr>"
  have d: "sendable 64 (matrix_of s i)" using s(2) k(4) by simp
  have c: "(i < 6) = False" "6 \<le> i" using False by simp_all
  have r: "reads (sps_read_list i t) (scaling_elems (scan (list_size i)) (matrix_of s i) 8) ?t"
    unfolding sps_read_list_def k(4) c(1) if_False
    apply (rule reads_at [OF k(1)])
    apply (rule reads_at [OF k(2)])
    apply (rule reads_bind_last [OF reads_scaling_list [OF _ d k(3)]])
     apply simp
    apply (simp only: prod.case)
    apply (rule reads_return)
    done
  have "length (take 64 (matrix_of s i)) = 64" using d by (simp add: sendable_def)
  from set_list8_law [OF t(1) c(2) t(2) this, of 0] r False k(1,2) s t(3) show ?thesis
    by (intro exI [of _ ?t] conjI) (auto simp: got_list_def)
qed

lemma others_keptD: "others_kept i t t' \<Longrightarrow> j < i \<Longrightarrow> got_list s t j \<Longrightarrow> got_list s t' j"
  by (simp add: others_kept_def)

lemma lists_turn:
  assumes "lists_ok s" "lists_shape t" "i < 8"
  shows "\<exists>t'. reads (sps_scaling_list i t)
      ((Fixed 1, uint (seq_scaling_list_present_flag s ! i)) #
       (if seq_scaling_list_present_flag s ! i \<noteq> 0 then scaling_elems (scan (list_size i)) (matrix_of s i) 8 else [])) t'
    \<and> others_kept i t t' \<and> got_list s t' i"
proof -
  let ?f = "seq_scaling_list_present_flag s ! i"
  let ?t = "t\<lparr>seq_scaling_list_present_flag := (seq_scaling_list_present_flag t)[i := ?f]\<rparr>"
  note k = set_flag_law [OF assms(2,3), of ?f]
  have l: "i < length (seq_scaling_list_present_flag t)" "seq_scaling_list_present_flag ?t ! i = ?f" "lists_shape ?t"
    using assms(2,3) by (simp_all add: lists_shape_def)
  have f: "fits 1 ?f" using assms(1,3) by (simp add: lists_ok_def)
  show ?thesis
  proof (cases "?f = 0")
    case True
    from fall_back_law [OF l(3) assms(3) _ True] l(2) True obtain t' where
      t': "sps_fall_back i ?t = Some t'" "others_kept i ?t t'" "got_list s t' i" by auto
    have "reads (sps_scaling_list i t) [(Fixed 1, uint ?f)] t'"
      unfolding sps_scaling_list_def
      apply (rule reads_intros f reads_set_at l(1))+
      using t'(1) True by (simp add: reads_return)
    with others_kept_trans [OF k t'(2)] t'(3) True show ?thesis by auto
  next
    case False
    have d: "sendable (list_size i) (matrix_of s i)" using assms(1,3) False by (simp add: lists_ok_def)
    from read_list_law [OF l(3) assms(3) l(2) False d] obtain t' where
      t': "reads (sps_read_list i ?t) (scaling_elems (scan (list_size i)) (matrix_of s i) 8) t'"
        "others_kept i ?t t'" "got_list s t' i" by blast
    have "reads (sps_scaling_list i t) ((Fixed 1, uint ?f) # scaling_elems (scan (list_size i)) (matrix_of s i) 8) t'"
      unfolding sps_scaling_list_def
      apply (rule reads_intros f reads_set_at l(1))+
      using t'(1) False by simp
    with others_kept_trans [OF k t'(2)] t'(3) False show ?thesis by auto
  qed
qed

lemma reads_lists:
  "lists_ok s \<Longrightarrow> lists_shape t \<Longrightarrow> i \<le> 8 \<Longrightarrow> \<forall>j < i. got_list s t j \<Longrightarrow>
   \<exists>t'. reads (sps_scaling_lists [i..<8] t) (matrices_elems [i..<8] s) t' \<and> lists_shape t' \<and> no_lists t' = no_lists t
     \<and> (\<forall>j < 8. got_list s t' j)"
proof (induction "8 - i" arbitrary: i t)
  case 0
  then have i: "i = 8" by simp
  have "sps_scaling_lists [] t = (\<lambda>p. Some (t, p))" by (rule ext) simp
  with 0 show ?case unfolding i by (auto intro!: exI [of _ t] reads_return)
next
  case (Suc n)
  then have i: "i < 8" by simp
  from lists_turn [OF Suc.prems(1,2) i] obtain t1 where
    t1: "reads (sps_scaling_list i t)
      ((Fixed 1, uint (seq_scaling_list_present_flag s ! i)) #
       (if seq_scaling_list_present_flag s ! i \<noteq> 0 then scaling_elems (scan (list_size i)) (matrix_of s i) 8 else [])) t1"
      "others_kept i t t1" "got_list s t1 i" by blast
  have g: "\<forall>j < i + 1. got_list s t1 j"
    using others_keptD [OF t1(2)] Suc.prems(4) t1(3) by (auto simp: less_Suc_eq)
  have sh: "lists_shape t1" "no_lists t1 = no_lists t" using t1(2) by (simp_all add: others_kept_def)
  have n: "n = 8 - (i + 1)" "i + 1 \<le> 8" using Suc.hyps(2) by arith+
  from Suc.hyps(1) [OF n(1) Suc.prems(1) sh(1) n(2) g] obtain t2 where
    t2: "reads (sps_scaling_lists [i + 1..<8] t1) (matrices_elems [i + 1..<8] s) t2" "lists_shape t2"
      "no_lists t2 = no_lists t1" "\<forall>j < 8. got_list s t2 j" by blast
  have u: "[i..<8] = i # [i + 1..<8]" using i by (simp add: upt_conv_Cons)
  have "reads (sps_scaling_lists [i..<8] t) (matrices_elems [i..<8] s) t2"
    unfolding u sps_scaling_lists.simps matrices_elems.simps append_Cons [symmetric]
    by (rule reads_bind [OF t1(1)], rule t2(1))
  with t2 sh(2) show ?case by auto
qed

end
