(* ===== verification/NalWriters.thy ===== *)
theory NalWriters imports SyntaxReads begin

text \<open>
  lib_encode/NalWriters.c, Sections.c and the NAL headers of AVC_Sections.c and HEVC_Sections.c: a NAL unit
  with its payload writer, and its way into the stream.  A payload writer is a function on the bit stream; the
  parameter and the layer it gets in C are the values it was made from.
\<close>

record AL_TNalUnit =
  Write :: "AL_TBitStreamLite \<Rightarrow> AL_TBitStreamLite option"
  nut :: int
  nalRefIdc :: int
  layerId :: int
  tempId :: int
  header :: AL_TNalHeader

definition AL_CreateNalUnit ::
    "(AL_TBitStreamLite \<Rightarrow> AL_TBitStreamLite option) \<Rightarrow> int \<Rightarrow> int \<Rightarrow> int \<Rightarrow> int \<Rightarrow> AL_TNalUnit" where
  "AL_CreateNalUnit write n ref layer temp =
     \<lparr>Write = write, nut = n, nalRefIdc = ref, layerId = layer, tempId = temp, header = \<lparr>hdr_bytes = [0, 0], hdr_size = 0\<rparr>\<rparr>"

text \<open>The bytes of the headers; a second byte of an AVC header is not written.\<close>

definition GetNalHeaderAvc :: "u8 \<Rightarrow> u8 \<Rightarrow> u8 \<Rightarrow> u8 \<Rightarrow> AL_TNalHeader" where
  "GetNalHeaderAvc uNUT uNalRefIdc uLayerId uTempId =
     \<lparr>hdr_bytes = [push_bit 5 (uNalRefIdc AND 0x03) OR (uNUT AND 0x1F), 0], hdr_size = 1\<rparr>"

definition GetNalHeaderHevc :: "u8 \<Rightarrow> u8 \<Rightarrow> u8 \<Rightarrow> u8 \<Rightarrow> AL_TNalHeader" where
  "GetNalHeaderHevc uNUT uNalRefIdc uLayerId uTempId =
     \<lparr>hdr_bytes = [drop_bit 5 (uLayerId AND 0x20) OR push_bit 1 (uNUT AND 0x3F),
                   (uTempId + 1) OR push_bit 3 (uLayerId AND 0x1F)], hdr_size = 2\<rparr>"

definition getBytesOffset :: "AL_TBitStreamLite \<Rightarrow> nat" where
  "getBytesOffset pStream = AL_BitStreamLite_GetBitsCount pStream div 8"

text \<open>\<open>buffer\<close> is the content of the temporary buffer before; the result is the size in bits, or negative, and
  the buffer.\<close>

definition writeNalInBuffer :: "u8 list \<Rightarrow> nat \<Rightarrow> AL_TNalUnit \<Rightarrow> (int \<times> u8 list) option" where
  "writeNalInBuffer buffer bufSize nal =
     do { bs \<leftarrow> Write nal (AL_BitStreamLite_Init buffer bufSize);
          if isOverflow bs then Some (- 1, AL_BitStreamLite_GetData bs)
          else Some (int (AL_BitStreamLite_GetBitsCount bs), AL_BitStreamLite_GetData bs) }"

definition WriteNal ::
    "AL_ECodec \<Rightarrow> u8 list \<Rightarrow> nat \<Rightarrow> AL_TNalUnit \<Rightarrow> AL_TBitStreamLite \<Rightarrow> (int \<times> AL_TBitStreamLite) option" where
  "WriteNal eCodec tmpBuffer bitstreamSize nal bitstream =
     do { (sizeInBits, tmp) \<leftarrow> writeNalInBuffer tmpBuffer bitstreamSize nal;
          if sizeInBits < 0 then Some (- 1, bitstream)
          else do { let start = getBytesOffset bitstream;
                    bs \<leftarrow> FlushNAL eCodec (nat (nut nal)) (header nal) (Some tmp) (nat sizeInBits) bitstream;
                    let end' = getBytesOffset bs;
                    if isOverflow bs then Some (- 1, bs) else Some (int end' - int start, bs) } }"

section \<open>A NAL unit of syntax elements\<close>

text \<open>A payload writer that puts elements and closes the RBSP appends one NAL unit to an aligned stream with room;
  \<open>d\<close> is the RBSP.\<close>

definition payload :: "(shape \<times> int) list \<Rightarrow> AL_TBitStreamLite \<Rightarrow> AL_TBitStreamLite option" where
  "payload es s = do { r \<leftarrow> put_elems es s; AL_RbspEncoding_CloseSEI r }"

definition rbsp_of :: "(shape \<times> int) list \<Rightarrow> u8 list \<Rightarrow> bool" where
  "rbsp_of es d \<longleftrightarrow> (\<exists>j < 8. byte_bits d = elems_bits es @ True # replicate j False)"

text \<open>A payload writer that puts the elements and the stop bit into the temporary buffer.\<close>

definition writes_rbsp ::
    "(AL_TBitStreamLite \<Rightarrow> AL_TBitStreamLite option) \<Rightarrow> u8 list \<Rightarrow> nat \<Rightarrow> (shape \<times> int) list \<Rightarrow> bool" where
  "writes_rbsp W tmp sz es \<longleftrightarrow> (\<exists>r. W (AL_BitStreamLite_Init tmp sz) = Some r \<and> bs_ok r
     \<and> rbsp_of es (take (BitsToBytes (iBitCount r)) (pData r)) \<and> BitsToBytes (iBitCount r) \<le> length (pData r))"

lemma payload_law:
  assumes "\<forall>e \<in> set es. elem_ok e" "sz \<le> length tmp" "length (elems_bits es) < 8 * sz"
  shows "writes_rbsp (payload es) tmp sz es"
proof -
  let ?s = "AL_BitStreamLite_Init tmp sz"
  have s: "bs_ok ?s" "written ?s = []" "bs_room ?s = 8 * sz" using assms(2) by (simp_all add: init_ok)
  from emitsD [OF put_elems_law [OF assms(1)] s(1)] assms(3) s obtain r1 where
    r1: "put_elems es ?s = Some r1" "bs_ok r1" "written r1 = elems_bits es" "bs_room r1 + length (elems_bits es) = 8 * sz"
    by auto
  from close_law [OF r1(2)] r1(4) assms(3) obtain r2 m where
    r2: "AL_RbspEncoding_CloseSEI r1 = Some r2" "bs_ok r2" "iBitCount r2 mod 8 = 0" "m < 8"
      "written r2 = elems_bits es @ True # replicate m False" unfolding r1(3) by auto
  note al = aligned_bytes [OF r2(2,3)]
  have "BitsToBytes (iBitCount r2) \<le> length (pData r2)" using r2(2) unfolding al(3) by (auto simp: bs_ok_def)
  with r1(1) r2 al(1) show ?thesis unfolding writes_rbsp_def by (intro exI [of _ r2] conjI) (auto simp: payload_def rbsp_of_def)
qed

text \<open>An upper bound of the bits of the NAL unit.\<close>

definition nal_room :: "AL_TNalUnit \<Rightarrow> (shape \<times> int) list \<Rightarrow> nat" where
  "nal_room nal es = 8 * (hdr_size (header nal) + 4) + 2 * (length (elems_bits es) + 8)"

lemma nal_bytes_room:
  assumes "rbsp_of es d" "hdr_size (header nal) \<le> length (hdr_bytes (header nal))"
  shows "8 * length (nal_bytes c n (header nal) d) \<le> nal_room nal es"
proof -
  from assms(1) obtain j where j: "j < 8" "byte_bits d = elems_bits es @ True # replicate j False" unfolding rbsp_of_def by blast
  have ld: "8 * length d = length (elems_bits es) + 1 + j" using arg_cong [OF j(2), of length] by simp
  have "length (start_code c n) \<le> 4" by (simp add: start_code_def)
  then have "length (nal_bytes c n (header nal) d) \<le> 4 + hdr_size (header nal) + 2 * length d"
    using escaped_length [of d] assms(2) by (simp add: nal_bytes_def)
  with ld j(1) show ?thesis by (simp add: nal_room_def)
qed

lemma WriteNal_law:
  assumes n: "writes_rbsp (Write nal) tmp sz es" "hdr_size (header nal) \<le> length (hdr_bytes (header nal))"
    and s: "bs_ok s" "iBitCount s mod 8 = 0" "8 * (hdr_size (header nal) + 4) + 2 * (length (elems_bits es) + 8) \<le> bs_room s"
  shows "\<exists>bs d. WriteNal c tmp sz nal s = Some (int (length (nal_bytes c (nat (nut nal)) (header nal) d)), bs)
    \<and> bs_ok bs \<and> iBitCount bs mod 8 = 0 \<and> rbsp_of es d
    \<and> written bs = written s @ byte_bits (nal_bytes c (nat (nut nal)) (header nal) d)"
proof -
  from n(1) [unfolded writes_rbsp_def] obtain r where
    r: "Write nal (AL_BitStreamLite_Init tmp sz) = Some r" "bs_ok r"
      "rbsp_of es (take (BitsToBytes (iBitCount r)) (pData r))" "BitsToBytes (iBitCount r) \<le> length (pData r)" by blast
  define d where "d = take (BitsToBytes (iBitCount r)) (pData r)"
  let ?h = "header nal" let ?N = "nal_bytes c (nat (nut nal)) ?h d"
  have room: "length (byte_bits ?N) \<le> bs_room s"
    using nal_bytes_room [OF r(3) [folded d_def] n(2), of c "nat (nut nal)"] s(3) by (simp add: nal_room_def)
  from emitsD [OF FlushNAL_law [OF r(4) n(2), of c "nat (nut nal)", folded d_def] s(1) room] obtain bs where
    bs: "FlushNAL c (nat (nut nal)) ?h (Some (pData r)) (iBitCount r) s = Some bs" "bs_ok bs"
      "written bs = written s @ byte_bits ?N" by blast
  have l: "iBitCount bs = iBitCount s + 8 * length ?N" using arg_cong [OF bs(3), of length] by (simp add: written_def)
  have al: "(a + 8 * k) div 8 = a div 8 + k" "(a + 8 * k) mod 8 = a mod 8" for a k :: nat by simp_all
  have o: "\<not> isOverflow r" "\<not> isOverflow bs" using r(2) bs(2) by (simp_all add: bs_ok_def)
  have "writeNalInBuffer tmp sz nal = Some (int (iBitCount r), pData r)"
    using r(1) o(1) by (simp add: writeNalInBuffer_def AL_BitStreamLite_GetData_def AL_BitStreamLite_GetBitsCount_def)
  then have "WriteNal c tmp sz nal s = Some (int (length ?N), bs)"
    using bs(1) o(2) by (simp add: WriteNal_def getBytesOffset_def AL_BitStreamLite_GetBitsCount_def l al)
  with bs r(3) d_def l al(2) s(2) show ?thesis by auto
qed

section \<open>The NAL unit in the decoder's buffer\<close>

definition ring_holds :: "u8 list \<Rightarrow> nat \<Rightarrow> nat \<Rightarrow> nat \<Rightarrow> u8 list \<Rightarrow> bool" where
  "ring_holds ring sz off avail bs \<longleftrightarrow> off < sz \<and> sz \<le> length ring
     \<and> map (\<lambda>i. ring ! ((off + i) mod sz)) [0..<avail] = bs"

definition header_ok :: "AL_TNalHeader \<Rightarrow> bool" where
  "header_ok h \<longleftrightarrow> hdr_size h \<le> length (hdr_bytes h) \<and> (\<forall>b \<in> set (take (hdr_size h) (hdr_bytes h)). b \<noteq> 0)"

text \<open>A parser that skips the start code and \<open>k\<close> header bytes and then reads the elements.\<close>

definition after_header :: "nat \<Rightarrow> (AL_TRbspParser \<Rightarrow> ('a \<times> AL_TRbspParser) option) \<Rightarrow> AL_TRbspParser \<Rightarrow> ('a \<times> AL_TRbspParser) option" where
  "after_header k f p = do { p1 \<leftarrow> skipAllZerosAndTheNextByte p; (_, p2) \<leftarrow> get_elems (replicate k (Fixed 8)) p1; f p2 }"

text \<open>The parser behind the header stands on the elements.\<close>

lemma after_header_src:
  assumes d: "rbsp_of es d" "length (elems_bits es) < 8 * m" and h: "header_ok h"
    and r: "ring_holds ring sz off avail (nal_bytes c n h d @ t)" "follows t" "hdr_size h + m + 12 \<le> k" "k < 2 ^ 29"
  shows "\<exists>X q. src X q (elems_bits es) \<and> last_one X mod 8 = length (elems_bits es) mod 8
    \<and> after_header (hdr_size h) f (InitRbspParser ring sz off avail (replicate k 0) True) = f q"
proof -
  let ?p = "InitRbspParser ring sz off avail (replicate k 0) True"
  from d(1) obtain j where j: "byte_bits d = elems_bits es @ True # replicate j False" "j < 8" by (auto simp: rbsp_of_def)
  from h have hh: "hdr_size h \<le> length (hdr_bytes h)" "\<forall>b \<in> set (take (hdr_size h) (hdr_bytes h)). b \<noteq> 0"
    by (simp_all add: header_ok_def)
  from r(1) have rr: "off < sz" "sz \<le> length ring" "input ?p = nal_bytes c n h d @ t"
    by (simp_all add: ring_holds_def input_def InitRbspParser_def)
  from nal_source [OF hh j d(2) rr(1,2) r(2-4) refl rr(3)] obtain X where
    X: "rp_inv ?p X" "8 * length X < last_one X + 160"
      "rest X ?p = byte_bits (start_code c n) @ byte_bits (take (hdr_size h) (hdr_bytes h)) @ elems_bits es" by blast
  have l: "length (take (hdr_size h) (hdr_bytes h)) = hdr_size h" using hh(1) by simp
  from header_law [OF X(1,3), unfolded l] obtain p1 vs p2 where
    p: "skipAllZerosAndTheNextByte ?p = Some p1" "get_elems (replicate (hdr_size h) (Fixed 8)) p1 = Some (vs, p2)"
      "rp_inv p2 X" "rest X p2 = elems_bits es" by blast
  have "length (byte_bits (start_code c n)) \<le> last_one X - iTotalBitIndex ?p" using rest_take(1) [of X ?p] X(3) by simp
  then have "0 < last_one X" by (simp add: start_code_def)
  with p X(2) have "src X p2 (elems_bits es)" by (simp add: src_def)
  moreover have "last_one X mod 8 = length (elems_bits es) mod 8"
  proof -
    have "iTotalBitIndex ?p = 0" by (simp add: InitRbspParser_def)
    then have "last_one X = length (rest X ?p)" by (simp add: rest_def)
    also have "\<dots> = length (elems_bits es) + 8 * (length (start_code c n) + hdr_size h)" unfolding X(3) by (simp add: min_absorb2 hh(1))
    finally show ?thesis by (simp only: mod_mult_self2)
  qed
  ultimately show ?thesis using p(1,2) by (intro exI [of _ X] exI [of _ p2]) (simp add: after_header_def)
qed

text \<open>\<open>ends_at\<close>: as \<open>ends\<close>, for a parser that depends on where the bytes begin.\<close>

definition ends_at :: "(AL_TRbspParser \<Rightarrow> ('a \<times> AL_TRbspParser) option) \<Rightarrow> (shape \<times> int) list \<Rightarrow> ('a \<Rightarrow> bool) \<Rightarrow> bool" where
  "ends_at f es P \<longleftrightarrow> (\<forall>X q. src X q (elems_bits es) \<and> last_one X mod 8 = length (elems_bits es) mod 8 \<longrightarrow>
     (\<exists>v r. f q = Some (v, r) \<and> P v))"

lemma after_header_ends:
  assumes f: "ends_at f es P"
    and d: "rbsp_of es d" "length (elems_bits es) < 8 * m" and h: "header_ok h"
    and r: "ring_holds ring sz off avail (nal_bytes c n h d @ t)" "follows t" "hdr_size h + m + 12 \<le> k" "k < 2 ^ 29"
  shows "\<exists>v q. after_header (hdr_size h) f (InitRbspParser ring sz off avail (replicate k 0) True) = Some (v, q) \<and> P v"
proof -
  from after_header_src [OF d h r, of f] obtain X q where
    q: "src X q (elems_bits es)" "last_one X mod 8 = length (elems_bits es) mod 8"
      "after_header (hdr_size h) f (InitRbspParser ring sz off avail (replicate k 0) True) = f q" by blast
  with f show ?thesis by (auto simp: ends_at_def)
qed

text \<open>A NAL unit whose payload is a list of elements goes into the stream, and the parser that stops at the end of the
  data gets it back from the decoder's ring.\<close>

lemma nal_delivered_by:
  assumes n: "writes_rbsp (Write nal) tmp sz es" "length (elems_bits es) < 8 * sz" "header_ok (header nal)"
    and s: "bs_ok s" "iBitCount s mod 8 = 0" "8 * (hdr_size (header nal) + 4) + 2 * (length (elems_bits es) + 8) \<le> bs_room s"
    and f: "ends_at f es P"
  shows "\<exists>N s'. WriteNal c tmp sz nal s = Some (int (length N), s') \<and> bs_ok s' \<and> iBitCount s' mod 8 = 0
    \<and> written s' = written s @ byte_bits N
    \<and> (\<forall>ring rsz off avail t k. ring_holds ring rsz off avail (N @ t) \<and> follows t
          \<and> hdr_size (header nal) + sz + 12 \<le> k \<and> k < 2 ^ 29 \<longrightarrow>
         (\<exists>v q. after_header (hdr_size (header nal)) f (InitRbspParser ring rsz off avail (replicate k 0) True) = Some (v, q)
            \<and> P v))"
proof -
  have h: "hdr_size (header nal) \<le> length (hdr_bytes (header nal))" using n(3) by (simp add: header_ok_def)
  from WriteNal_law [OF n(1) h s, of c] obtain s' d where
    s': "WriteNal c tmp sz nal s = Some (int (length (nal_bytes c (nat (nut nal)) (header nal) d)), s')"
      "bs_ok s'" "iBitCount s' mod 8 = 0" "rbsp_of es d"
      "written s' = written s @ byte_bits (nal_bytes c (nat (nut nal)) (header nal) d)"
    by (elim exE conjE) (rule that)
  have r: "\<exists>v q. after_header (hdr_size (header nal)) f (InitRbspParser ring rsz off avail (replicate k 0) True) = Some (v, q) \<and> P v"
    if "ring_holds ring rsz off avail (nal_bytes c (nat (nut nal)) (header nal) d @ t)" "follows t"
      "hdr_size (header nal) + sz + 12 \<le> k" "k < 2 ^ 29" for ring rsz off avail t k
    by (rule after_header_ends [OF f s'(4) n(2,3) that])
  show ?thesis
    using s'(1-3,5) r by (intro exI [of _ "nal_bytes c (nat (nut nal)) (header nal) d"] exI [of _ s'] conjI) auto
qed

lemma nal_delivered:
  assumes es: "\<forall>e \<in> set es. elem_ok e" "sz \<le> length tmp" "length (elems_bits es) < 8 * sz"
    and n: "Write nal = payload es" "header_ok (header nal)"
    and s: "bs_ok s" "iBitCount s mod 8 = 0" "8 * (hdr_size (header nal) + 4) + 2 * (length (elems_bits es) + 8) \<le> bs_room s"
    and f: "ends f es P"
  shows "\<exists>N s'. WriteNal c tmp sz nal s = Some (int (length N), s') \<and> bs_ok s' \<and> iBitCount s' mod 8 = 0
    \<and> written s' = written s @ byte_bits N
    \<and> (\<forall>ring rsz off avail t k. ring_holds ring rsz off avail (N @ t) \<and> follows t
          \<and> hdr_size (header nal) + sz + 12 \<le> k \<and> k < 2 ^ 29 \<longrightarrow>
         (\<exists>v q. after_header (hdr_size (header nal)) f (InitRbspParser ring rsz off avail (replicate k 0) True) = Some (v, q)
            \<and> P v))"
proof (rule nal_delivered_by [OF _ es(3) n(2) s])
  show "writes_rbsp (Write nal) tmp sz es" unfolding n(1) by (rule payload_law [OF es])
  show "ends_at f es P" using f by (auto simp: ends_at_def ends_def)
qed

end
