(* ===== verification/AvcSps.thy ===== *)
theory AvcSps imports AvcLists NalWriters begin

text \<open>
  The round trip of the AVC sequence parameter set: what \<open>writeSps\<close> writes, packed into a NAL unit, is
  what \<open>AL_AVC_ParseSPS\<close> finds.
\<close>

section \<open>Elements\<close>

definition sps_head_elems :: "AL_TAvcSps \<Rightarrow> (shape \<times> int) list" where
  "sps_head_elems s =
     [(Fixed 8, profile_idc s), (Fixed 1, uint (constraint_set0_flag s)), (Fixed 1, uint (constraint_set1_flag s)),
      (Fixed 1, uint (constraint_set2_flag s)), (Fixed 1, uint (constraint_set3_flag s)), (Fixed 1, uint (constraint_set4_flag s)),
      (Fixed 1, uint (constraint_set5_flag s)), (Fixed 2, 0), (Fixed 8, level_idc s), (Unsigned, uint (seq_parameter_set_id s))]"

definition sps_high_elems :: "AL_TAvcSps \<Rightarrow> (shape \<times> int) list" where
  "sps_high_elems s =
     (if is_high (profile_idc s)
      then (Unsigned, uint (chroma_format_idc s)) # (Unsigned, uint (bit_depth_luma_minus8 s)) #
           (Unsigned, uint (bit_depth_chroma_minus8 s)) # (Fixed 1, uint (qpprime_y_zero_transform_bypass_flag s)) #
           (Fixed 1, uint (seq_scaling_matrix_present_flag s)) #
           (if seq_scaling_matrix_present_flag s \<noteq> 0 then matrices_elems [0..<8] s else [])
      else [])"

definition sps_poc_elems :: "AL_TAvcSps \<Rightarrow> (shape \<times> int) list" where
  "sps_poc_elems s =
     (Unsigned, uint (log2_max_frame_num_minus4 s)) # (Unsigned, uint (pic_order_cnt_type s)) #
     (if pic_order_cnt_type s = 0 then [(Unsigned, uint (log2_max_pic_order_cnt_lsb_minus4 s))] else [])"

definition sps_size_elems :: "AL_TAvcSps \<Rightarrow> (shape \<times> int) list" where
  "sps_size_elems s =
     (Unsigned, uint (max_num_ref_frames s)) # (Fixed 1, uint (gaps_in_frame_num_value_allowed_flag s)) #
     (Unsigned, uint (pic_width_in_mbs_minus1 s)) # (Unsigned, uint (pic_height_in_map_units_minus1 s)) #
     (Fixed 1, uint (frame_mbs_only_flag s)) #
     (if frame_mbs_only_flag s = 0 then [(Fixed 1, uint (mb_adaptive_frame_field_flag s))] else [])"

definition sps_crop_elems :: "AL_TAvcSps \<Rightarrow> (shape \<times> int) list" where
  "sps_crop_elems s =
     (Fixed 1, uint (direct_8x8_inference_flag s)) # (Fixed 1, uint (frame_cropping_flag s)) #
     (if frame_cropping_flag s \<noteq> 0
      then [(Unsigned, frame_crop_left_offset s), (Unsigned, frame_crop_right_offset s),
            (Unsigned, frame_crop_top_offset s), (Unsigned, frame_crop_bottom_offset s)] else [])"

definition sps_vui_elems :: "AL_TAvcSps \<Rightarrow> (shape \<times> int) list" where
  "sps_vui_elems s =
     (Fixed 1, uint (vui_parameters_present_flag s)) #
     (if vui_parameters_present_flag s \<noteq> 0 then vui_elems (vui_param s) else [])"

definition sps_elems :: "AL_TAvcSps \<Rightarrow> (shape \<times> int) list" where
  "sps_elems s = sps_head_elems s @ sps_high_elems s @ (sps_poc_elems s @ sps_size_elems s @ sps_crop_elems s) @ sps_vui_elems s"

text \<open>The parameter sets an encoder of a supported profile writes.\<close>

definition sps_ok :: "AL_TAvcSps \<Rightarrow> bool" where
  "sps_ok s \<longleftrightarrow> 0 \<le> profile_idc s \<and> profile_idc s < 256 \<and> 0 \<le> level_idc s \<and> level_idc s < 256
     \<and> fits 1 (constraint_set0_flag s) \<and> fits 1 (constraint_set1_flag s) \<and> fits 1 (constraint_set2_flag s)
     \<and> fits 1 (constraint_set3_flag s) \<and> fits 1 (constraint_set4_flag s) \<and> fits 1 (constraint_set5_flag s)
     \<and> (isProfileSupported (of_int (profile_idc s)) \<or> constraint_set1_flag s \<noteq> 0)
     \<and> seq_parameter_set_id s < AL_AVC_MAX_SPS
     \<and> (is_high (profile_idc s) \<longrightarrow> chroma_format_idc s \<noteq> 3 \<and> bit_depth_luma_minus8 s \<le> MAX_BIT_DEPTH
          \<and> bit_depth_chroma_minus8 s \<le> MAX_BIT_DEPTH \<and> fits 1 (qpprime_y_zero_transform_bypass_flag s)
          \<and> fits 1 (seq_scaling_matrix_present_flag s) \<and> (seq_scaling_matrix_present_flag s \<noteq> 0 \<longrightarrow> lists_ok s))
     \<and> log2_max_frame_num_minus4 s \<le> MAX_FRAME_NUM \<and> pic_order_cnt_type s \<in> {0, 2}
     \<and> log2_max_pic_order_cnt_lsb_minus4 s \<le> MAX_POC_LSB
     \<and> golomb (max_num_ref_frames s) \<and> fits 1 (gaps_in_frame_num_value_allowed_flag s)
     \<and> 1 \<le> pic_width_in_mbs_minus1 s \<and> 1 \<le> pic_height_in_map_units_minus1 s \<and> fits 1 (frame_mbs_only_flag s)
     \<and> (frame_mbs_only_flag s = 0 \<longrightarrow> mb_adaptive_frame_field_flag s = 0)
     \<and> fits 1 (direct_8x8_inference_flag s) \<and> fits 1 (frame_cropping_flag s)
     \<and> (\<forall>c \<in> {frame_crop_left_offset s, frame_crop_right_offset s, frame_crop_top_offset s, frame_crop_bottom_offset s}.
          0 \<le> c \<and> c < 2147483647)
     \<and> fits 1 (vui_parameters_present_flag s) \<and> (vui_parameters_present_flag s \<noteq> 0 \<longrightarrow> vui_ok (vui_param s))"

section \<open>The writer\<close>

lemma writes_matrix:
  "(f \<noteq> 0 \<Longrightarrow> lists_ok s) \<Longrightarrow> writes (writeScalingMatrix f s) (if f \<noteq> 0 then matrices_elems [0..<8] s else [])"
proof -
  assume l: "f \<noteq> 0 \<Longrightarrow> lists_ok s"
  have "writeScalingMatrix f s = (if f = 0 then Some else write_matrices [0..<8] s)"
    by (rule ext) (simp add: writeScalingMatrix_def)
  with l show ?thesis by (auto simp: writes_return intro!: write_matrices_eq)
qed

lemma writes_sps_head: "writes (write_sps_head s) (sps_head_elems s)"
proof -
  have z: "AL_BitStreamLite_PutU 2 0 = AL_BitStreamLite_PutU 2 (of_int 0)" by simp
  show ?thesis
    unfolding write_sps_head_def sps_head_elems_def z by (rule writes_intros)+
qed

lemma writes_sps_high: "sps_ok s \<Longrightarrow> writes (write_sps_high s) (sps_high_elems s)"
proof -
  assume s: "sps_ok s"
  have h: "is_high (profile_idc s) \<Longrightarrow> chroma_format_idc s \<noteq> 3"
    "is_high (profile_idc s) \<Longrightarrow> seq_scaling_matrix_present_flag s \<noteq> 0 \<Longrightarrow> lists_ok s"
    using s by (simp_all add: sps_ok_def)
  show ?thesis
    unfolding write_sps_high_def sps_high_elems_def by (rule writes_matrix h writes_intros | assumption)+
qed

lemma writes_sps_frames:
  "sps_ok s \<Longrightarrow> writes (write_sps_frames s)
     ((sps_poc_elems s @ sps_size_elems s @ sps_crop_elems s) @ [(Fixed 1, uint (vui_parameters_present_flag s))])"
proof -
  assume s: "sps_ok s"
  have p: "pic_order_cnt_type s \<noteq> 1" using s by (auto simp: sps_ok_def)
  show ?thesis
    unfolding write_sps_frames_def sps_poc_elems_def sps_size_elems_def sps_crop_elems_def append_Cons append_assoc append_Nil
    by (rule p writes_intros)+
qed

lemma writes_sps: "sps_ok s \<Longrightarrow> writes (writeSpsData s) (sps_elems s)"
proof (rule writes_cong)
  assume s: "sps_ok s"
  have v: "vui_parameters_present_flag s \<noteq> 0 \<Longrightarrow> vui_ok (vui_param s)" using s by (simp add: sps_ok_def)
  show "writes (writeSpsData s) (sps_head_elems s @ sps_high_elems s @
      ((sps_poc_elems s @ sps_size_elems s @ sps_crop_elems s) @ [(Fixed 1, uint (vui_parameters_present_flag s))])
      @ (if vui_parameters_present_flag s \<noteq> 0 then vui_elems (vui_param s) else []))"
    unfolding writeSpsData_def
    by (rule writes_bind [OF writes_sps_head] writes_bind [OF writes_sps_high [OF s]] writes_bind [OF writes_sps_frames [OF s]]
        writes_if write_vui_eq v writes_return | assumption)+
qed (simp add: sps_elems_def sps_vui_elems_def)

section \<open>The parser\<close>

definition head_of :: "AL_TAvcSps \<Rightarrow> AL_TAvcSps" where
  "head_of s = (initSps sps_0)\<lparr>profile_idc := profile_idc s, constraint_set3_flag := constraint_set3_flag s,
     level_idc := level_idc s, seq_parameter_set_id := seq_parameter_set_id s\<rparr>"

lemma byte_back: "0 \<le> v \<Longrightarrow> v < 256 \<Longrightarrow> uint (of_int v :: u8) = v"
  by (simp add: uint_word_of_int)

lemma reads_head:
  assumes "sps_ok s"
  shows "reads sps_head (sps_head_elems s) (AL_OK, head_of s)"
proof -
  have b: "uint (of_int (profile_idc s) :: u8) = profile_idc s" "uint (of_int (level_idc s) :: u8) = level_idc s"
    using assms by (simp_all add: sps_ok_def byte_back)
  have e: "[(Fixed 8, profile_idc s)] = [(Fixed 8, uint (of_int (profile_idc s) :: u8))]"
    "(Fixed 8, level_idc s) = (Fixed 8, uint (of_int (level_idc s) :: u8))" by (simp_all add: b)
  have k: "fits 1 (constraint_set1_flag s)" "fits 1 (constraint_set3_flag s)"
    "(\<not> isProfileSupported (of_int (profile_idc s)) \<and> constraint_set1_flag s = 0) = False"
    "(\<not> seq_parameter_set_id s < AL_AVC_MAX_SPS) = False"
    using assms by (auto simp: sps_ok_def)
  show ?thesis
    unfolding sps_head_def sps_head_elems_def
    apply (rule reads_val)
     apply (subst b(1) [symmetric], subst b(2) [symmetric])
     apply (rule reads_u_then [OF fits_all(1)] reads_skip reads_u_then [OF k(1)])+
     apply (simp only: k if_False)
     apply (rule reads_skip reads_u_then [OF fits_all(1)] reads_u_then [OF k(2)] reads_ue_then [OF golomb_all(1)])+
     apply (simp only: k if_False)
     apply (rule reads_return)
    apply (simp add: head_of_def b)
    done
qed

definition high_of :: "AL_TAvcSps \<Rightarrow> AL_TAvcSps \<Rightarrow> AL_TAvcSps" where
  "high_of s t = t\<lparr>chroma_format_idc := chroma_format_idc s, bit_depth_luma_minus8 := bit_depth_luma_minus8 s,
     bit_depth_chroma_minus8 := bit_depth_chroma_minus8 s,
     qpprime_y_zero_transform_bypass_flag := qpprime_y_zero_transform_bypass_flag s,
     seq_scaling_matrix_present_flag := seq_scaling_matrix_present_flag s\<rparr>"

lemma uint_wide: "uint (ucast (b :: u8) :: u32) = uint b"
  using uint_lt2p [of b] by (simp add: unsigned_ucast_eq take_bit_int_eq_self_iff)

lemma clip_back: "b \<le> MAX_BIT_DEPTH \<Longrightarrow> clip_depth (ucast b) = b"
proof -
  assume b: "b \<le> MAX_BIT_DEPTH"
  then have u: "uint b \<le> 2" by (simp add: MAX_BIT_DEPTH_def word_le_def)
  have "- 2147483648 \<le> uint b" using uint_ge_0 [of b] by linarith
  with u have "sint (ucast b :: u32) = uint b"
    by (simp only: sint_uint uint_wide) (simp add: signed_take_bit_int_eq_self_iff)
  with u show ?thesis by (simp add: clip_depth_def Clip3_def MAX_BIT_DEPTH_def)
qed

lemma reads_ue8: "reads ue [(Unsigned, uint (b :: u8))] (ucast b)"
proof (rule readsI)
  fix X p r assume s: "src X p (elems_bits [(Unsigned, uint b)] @ r)"
  have "elem_ok (Unsigned, uint b)" using golomb_all(1) [of b] by (simp add: golomb_def)
  from readsD [OF reads_elem [OF this] s] obtain w q where
    q: "ue p = Some (w, q)" "uint w = uint b" "src X q r" by (auto split: bind_split_asm)
  have "w = ucast b" using q(2) by (simp add: uint_wide word_uint_eqI)
  with q show "\<exists>q. ue p = Some (ucast b, q) \<and> src X q r" by auto
qed

lemma profiles: "parser_high p = is_high p"
  by (auto simp: parser_high_def is_high_def)

lemma reads_high:
  assumes "sps_ok s" "profile_idc t = profile_idc s" "lists_shape t"
  shows "\<exists>t'. reads (sps_high t) (sps_high_elems s) (AL_OK, t')
    \<and> (is_high (profile_idc s) \<longrightarrow> no_lists t' = no_lists (high_of s t)
        \<and> (seq_scaling_matrix_present_flag s \<noteq> 0 \<longrightarrow> (\<forall>j < 8. got_list s t' j)))
    \<and> (\<not> is_high (profile_idc s) \<longrightarrow> t' = t)"
proof (cases "is_high (profile_idc s)")
  case False
  then have "sps_high t = (\<lambda>p. Some ((AL_OK, t), p))"
    by (intro ext) (simp add: sps_high_def assms(2) profiles)
  then have "reads (sps_high t) (sps_high_elems s) (AL_OK, t)"
    using False by (simp add: sps_high_elems_def reads_return)
  with False show ?thesis by blast
next
  case True
  then have k: "chroma_format_idc s \<noteq> 3" "bit_depth_luma_minus8 s \<le> MAX_BIT_DEPTH" "bit_depth_chroma_minus8 s \<le> MAX_BIT_DEPTH"
    "fits 1 (qpprime_y_zero_transform_bypass_flag s)" "fits 1 (seq_scaling_matrix_present_flag s)"
    "seq_scaling_matrix_present_flag s \<noteq> 0 \<longrightarrow> lists_ok s"
    using assms(1) by (simp_all add: sps_ok_def)
  have c: "(chroma_format_idc s = 3) = False" using k(1) by simp
  note d = clip_back [OF k(2)] clip_back [OF k(3)]
  let ?h = "high_of s t"
  have h: "t\<lparr>chroma_format_idc := chroma_format_idc s, separate_colour_plane_flag := separate_colour_plane_flag t,
      bit_depth_luma_minus8 := bit_depth_luma_minus8 s, bit_depth_chroma_minus8 := bit_depth_chroma_minus8 s,
      qpprime_y_zero_transform_bypass_flag := qpprime_y_zero_transform_bypass_flag s,
      seq_scaling_matrix_present_flag := seq_scaling_matrix_present_flag s\<rparr> = ?h"
    by (simp add: high_of_def)
  have sh: "lists_shape ?h" using assms(3) by (simp add: lists_shape_def high_of_def)
  have n: "elem_ok (Unsigned, uint b)" for b :: u8 using golomb_all(1) [of b] by (simp add: golomb_def)
  define ok where "ok t' \<longleftrightarrow> no_lists t' = no_lists ?h \<and> (seq_scaling_matrix_present_flag s \<noteq> 0 \<longrightarrow> (\<forall>j < 8. got_list s t' j))" for t'
  have "\<exists>t'. reads (\<lambda>p. if seq_scaling_matrix_present_flag s \<noteq> 0 then sps_scaling_lists [0..<8] ?h p
        else Some (?h\<lparr>ScalingList4x4 := replicate 6 (replicate 16 16), ScalingList8x8 := replicate 2 (replicate 64 16)\<rparr>, p))
      (if seq_scaling_matrix_present_flag s \<noteq> 0 then matrices_elems [0..<8] s else []) t' \<and> ok t'"
  proof (cases "seq_scaling_matrix_present_flag s = 0")
    case True
    then show ?thesis by (auto simp: ok_def no_lists_def intro!: exI reads_return)
  next
    case False
    with reads_lists [OF _ sh, of s 0] k(6) show ?thesis by (auto simp: ok_def)
  qed
  then obtain t' where
    t': "reads (\<lambda>p. if seq_scaling_matrix_present_flag s \<noteq> 0 then sps_scaling_lists [0..<8] ?h p
        else Some (?h\<lparr>ScalingList4x4 := replicate 6 (replicate 16 16), ScalingList8x8 := replicate 2 (replicate 64 16)\<rparr>, p))
      (if seq_scaling_matrix_present_flag s \<noteq> 0 then matrices_elems [0..<8] s else []) t'" "ok t'" by blast
  have "reads (sps_high t) (sps_high_elems s) (AL_OK, t')"
    unfolding sps_high_def sps_high_elems_def assms(2) profiles Let_def
    apply (simp only: True if_True)
    apply (rule reads_more [OF n])
    apply (simp only: not_True_eq_False if_False)
    apply (rule reads_ue_then [OF golomb_all(1)])
    apply (simp only: c if_False Option.bind.bind_lunit prod.case)
    apply (rule reads_bind [OF reads_ue8, unfolded append_Cons append_Nil] reads_u_then [OF k(4)] reads_u_then [OF k(5)])+
    unfolding d h
    apply (rule reads_bind_last [OF t'(1)])
    apply (rule reads_return)
    done
  with t'(2) True show ?thesis by (auto simp: ok_def)
qed

definition poc_of :: "AL_TAvcSps \<Rightarrow> AL_TAvcSps \<Rightarrow> AL_TAvcSps" where
  "poc_of s t =
     (let t1 = t\<lparr>log2_max_frame_num_minus4 := log2_max_frame_num_minus4 s, pic_order_cnt_type := pic_order_cnt_type s\<rparr>
      in if pic_order_cnt_type s = 0
         then t1\<lparr>log2_max_pic_order_cnt_lsb_minus4 := log2_max_pic_order_cnt_lsb_minus4 s, delta_pic_order_always_zero_flag := 1\<rparr>
         else t1)"

lemma reads_poc:
  assumes "sps_ok s"
  shows "reads (sps_poc t) (sps_poc_elems s) (AL_OK, poc_of s t)"
proof -
  have k: "(\<not> log2_max_frame_num_minus4 s \<le> MAX_FRAME_NUM) = False" "(\<not> pic_order_cnt_type s \<le> MAX_POC_TYPE) = False"
    "(\<not> log2_max_pic_order_cnt_lsb_minus4 s \<le> MAX_POC_LSB) = False" "(pic_order_cnt_type s = 1) = False"
    using assms by (auto simp: sps_ok_def MAX_POC_TYPE_def)
  show ?thesis
    unfolding sps_poc_def sps_poc_elems_def Let_def
    apply (rule reads_val)
     apply (rule reads_ue_then [OF golomb_all(1)])
     apply (simp only: k if_False)
     apply (rule reads_ue_then [OF golomb_all(1)])
     apply (simp only: k if_False)
     apply (rule reads_if)
      apply (rule reads_ue_then [OF golomb_all(1)])
      apply (simp only: k if_False)
      apply (rule reads_return)+
    apply (simp add: poc_of_def Let_def)
    done
qed

definition size_of :: "AL_TAvcSps \<Rightarrow> AL_TAvcSps \<Rightarrow> AL_TAvcSps" where
  "size_of s t =
     (let t1 = t\<lparr>max_num_ref_frames := max_num_ref_frames s,
                 gaps_in_frame_num_value_allowed_flag := gaps_in_frame_num_value_allowed_flag s,
                 pic_width_in_mbs_minus1 := pic_width_in_mbs_minus1 s, frame_mbs_only_flag := frame_mbs_only_flag s\<rparr>
      in if frame_mbs_only_flag s = 0
         then t1\<lparr>mb_adaptive_frame_field_flag := 0,
                 pic_height_in_map_units_minus1 := of_int (fieldToFrameHeight (pic_height_in_map_units_minus1 s))\<rparr>
         else t1\<lparr>pic_height_in_map_units_minus1 := pic_height_in_map_units_minus1 s\<rparr>)"

lemma reads_size:
  assumes "sps_ok s"
  shows "reads (sps_size t) (sps_size_elems s) (AL_OK, size_of s t)"
proof -
  have k: "golomb (max_num_ref_frames s)" "fits 1 (gaps_in_frame_num_value_allowed_flag s)" "fits 1 (frame_mbs_only_flag s)"
    "(\<not> pic_width_in_mbs_minus1 s \<ge> 1 \<or> \<not> pic_height_in_map_units_minus1 s \<ge> 1) = False"
    "frame_mbs_only_flag s = 0 \<Longrightarrow> mb_adaptive_frame_field_flag s = 0"
    using assms by (simp_all add: sps_ok_def)
  have z: "fits 1 (0 :: u8)" "\<not> (0 :: u8) \<noteq> 0" by (simp_all add: fits_def)
  show ?thesis
    unfolding sps_size_def sps_size_elems_def Let_def
    apply (rule reads_val)
     apply (rule reads_u_then [OF k(2)] reads_ue_then [OF golomb_all(2)] reads_ue_then [OF k(1)])+
     apply (simp only: k(4) if_False)
     apply (rule reads_u_then [OF k(3)])
     apply (rule reads_if)
      apply (simp only: k(5))
      apply (rule reads_u_then [OF z(1)])
      apply (simp only: z(2) if_False)
      apply (rule reads_return)+
    apply (simp add: size_of_def Let_def)
    done
qed

definition crop_of :: "AL_TAvcSps \<Rightarrow> AL_TAvcSps \<Rightarrow> AL_TAvcSps" where
  "crop_of s t =
     (let t1 = t\<lparr>direct_8x8_inference_flag := direct_8x8_inference_flag s, frame_cropping_flag := frame_cropping_flag s\<rparr>
      in if frame_cropping_flag s \<noteq> 0
         then t1\<lparr>frame_crop_left_offset := frame_crop_left_offset s, frame_crop_right_offset := frame_crop_right_offset s,
                 frame_crop_top_offset := frame_crop_top_offset s, frame_crop_bottom_offset := frame_crop_bottom_offset s\<rparr>
         else t1)"

lemma elem_ok_u: "fits n v \<Longrightarrow> elem_ok (Fixed n, uint v)"
  by (simp add: fits_def)

lemma reads_crop:
  assumes "sps_ok s"
  shows "reads (sps_crop t) (sps_crop_elems s) (AL_OK, crop_of s t)"
proof -
  have k: "fits 1 (direct_8x8_inference_flag s)" "fits 1 (frame_cropping_flag s)"
    and c: "0 \<le> frame_crop_left_offset s" "frame_crop_left_offset s < 2147483647"
      "0 \<le> frame_crop_right_offset s" "frame_crop_right_offset s < 2147483647"
      "0 \<le> frame_crop_top_offset s" "frame_crop_top_offset s < 2147483647"
      "0 \<le> frame_crop_bottom_offset s" "frame_crop_bottom_offset s < 2147483647"
    using assms by (simp_all add: sps_ok_def)
  show ?thesis
    unfolding sps_crop_def sps_crop_elems_def Let_def
    apply (rule reads_val)
     apply (rule reads_more [OF elem_ok_u [OF k(1)]])
     apply (simp only: not_True_eq_False if_False)
     apply (rule reads_u_then [OF k(1)] reads_u_then [OF k(2)] reads_if reads_ue_int_then c reads_return)+
    apply (simp add: crop_of_def Let_def)
    done
qed

definition with_vui_of :: "AL_TAvcSps \<Rightarrow> AL_TAvcSps \<Rightarrow> AL_TAvcSps" where
  "with_vui_of s t = t\<lparr>vui_parameters_present_flag := vui_parameters_present_flag s, bConceal := False,
     vui_param := if vui_parameters_present_flag s \<noteq> 0 then vui_of (vui_param s) (vui_param t) else vui_param t\<rparr>"

lemma vui_elems_Cons: "\<exists>es. vui_elems v = (Fixed 1, uint (aspect_ratio_info_present_flag v)) # es"
  by (simp add: vui_elems_def vui_aspect_elems_def)

lemma reads_sps_vui:
  assumes "sps_ok s"
  shows "reads (sps_vui t) (sps_vui_elems s) (AL_OK, with_vui_of s t)"
proof -
  have k: "fits 1 (vui_parameters_present_flag s)" "vui_parameters_present_flag s \<noteq> 0 \<Longrightarrow> vui_ok (vui_param s)"
    using assms by (simp_all add: sps_ok_def)
  have f: "vui_ok v \<Longrightarrow> fits 1 (aspect_ratio_info_present_flag v)" for v by (simp add: vui_ok_def)
  obtain es where es: "vui_elems (vui_param s) = (Fixed 1, uint (aspect_ratio_info_present_flag (vui_param s))) # es"
    using vui_elems_Cons by blast
  show ?thesis
    unfolding sps_vui_def sps_vui_elems_def Let_def
    apply (rule reads_val)
     apply (rule reads_u_then [OF k(1)])
     apply (rule reads_if)
      apply (subst es)
      apply (rule reads_more [OF elem_ok_u [OF f [OF k(2)]]], assumption)
      apply (simp only: not_True_eq_False if_False flip: es)
      apply (rule reads_bind_last [OF reads_vui [OF k(2)]], assumption)
      apply (simp only: prod.case not_True_eq_False if_False)
      apply (rule reads_return)+
    apply (simp add: with_vui_of_def)
    done
qed

section \<open>The whole\<close>

definition sps_body :: "AL_TRbspParser \<Rightarrow> ((AL_PARSE_RESULT \<times> AL_TAvcSps) \<times> AL_TRbspParser) option" where
  "sps_body p1 =
     do { ((r1, s1), p2) \<leftarrow> sps_head p1;
          if r1 \<noteq> AL_OK then Some ((r1, s1), p2)
          else do { ((r2, s2), p3) \<leftarrow> sps_high s1 p2;
                    if r2 \<noteq> AL_OK then Some ((r2, s2), p3)
                    else do { ((r3, s3), p4) \<leftarrow> sps_poc s2 p3;
                              if r3 \<noteq> AL_OK then Some ((r3, s3), p4)
                              else do { ((r4, s4), p5) \<leftarrow> sps_size s3 p4;
                                        if r4 \<noteq> AL_OK then Some ((r4, s4), p5)
                                        else do { ((r5, s5), p6) \<leftarrow> sps_crop s4 p5;
                                                  if r5 \<noteq> AL_OK then Some ((r5, s5), p6)
                                                  else sps_vui s5 p6 } } } } }"

lemma ParseSPS_eq: "AL_AVC_ParseSPS p = after_header 1 sps_body p"
  by (simp add: AL_AVC_ParseSPS_def after_header_def sps_body_def Option.bind_assoc split_def)

text \<open>What comes after the lists does not look at them.\<close>

definition tail_of :: "AL_TAvcSps \<Rightarrow> AL_TAvcSps \<Rightarrow> AL_TAvcSps" where
  "tail_of s t = with_vui_of s (crop_of s (size_of s (poc_of s t)))"

lemma reads_body:
  assumes "sps_ok s"
  shows "\<exists>t. reads sps_body (sps_elems s) (AL_OK, tail_of s t)
    \<and> (is_high (profile_idc s) \<longrightarrow> no_lists t = no_lists (high_of s (head_of s))
        \<and> (seq_scaling_matrix_present_flag s \<noteq> 0 \<longrightarrow> (\<forall>j < 8. got_list s t j)))
    \<and> (\<not> is_high (profile_idc s) \<longrightarrow> t = head_of s)"
proof -
  have "lists_shape (head_of s)" by (simp add: lists_shape_def head_of_def initSps_def sps_0_def Let_def)
  from reads_high [OF assms _ this] obtain t where
    t: "reads (sps_high (head_of s)) (sps_high_elems s) (AL_OK, t)"
      "is_high (profile_idc s) \<longrightarrow> no_lists t = no_lists (high_of s (head_of s))
        \<and> (seq_scaling_matrix_present_flag s \<noteq> 0 \<longrightarrow> (\<forall>j < 8. got_list s t j))"
      "\<not> is_high (profile_idc s) \<longrightarrow> t = head_of s" by (auto simp: head_of_def)
  have "reads sps_body (sps_elems s) (AL_OK, tail_of s t)"
    unfolding sps_body_def sps_elems_def tail_of_def append_assoc
    apply (rule reads_bind [OF reads_head [OF assms]], simp only: prod.case if_False simp_thms)
    apply (rule reads_bind [OF t(1)], simp only: prod.case if_False simp_thms)
    apply (rule reads_bind [OF reads_poc [OF assms]], simp only: prod.case if_False simp_thms)
    apply (rule reads_bind [OF reads_size [OF assms]], simp only: prod.case if_False simp_thms)
    apply (rule reads_bind [OF reads_crop [OF assms]], simp only: prod.case if_False simp_thms)
    apply (rule reads_sps_vui [OF assms])
    done
  with t show ?thesis by blast
qed

text \<open>The parameter set the decoder gets: the members that were sent, in terms of those that make them present.\<close>

definition hrd_same :: "AL_THrdParam \<Rightarrow> AL_TSubHrdParam \<Rightarrow> AL_THrdParam \<Rightarrow> AL_TSubHrdParam \<Rightarrow> bool" where
  "hrd_same h s h' s' \<longleftrightarrow> cpb_cnt_minus1 h' ! 0 = cpb_cnt_minus1 h ! 0 \<and> bit_rate_scale h' = bit_rate_scale h
     \<and> cpb_size_scale h' = cpb_size_scale h
     \<and> initial_cpb_removal_delay_length_minus1 h' = initial_cpb_removal_delay_length_minus1 h
     \<and> au_cpb_removal_delay_length_minus1 h' = au_cpb_removal_delay_length_minus1 h
     \<and> dpb_output_delay_length_minus1 h' = dpb_output_delay_length_minus1 h \<and> time_offset_length h' = time_offset_length h
     \<and> (\<forall>i \<le> unat (cpb_cnt_minus1 h ! 0). bit_rate_value_minus1 s' ! i = bit_rate_value_minus1 s ! i
          \<and> cpb_size_value_minus1 s' ! i = cpb_size_value_minus1 s ! i \<and> cbr_flag s' ! i = cbr_flag s ! i)"

definition vui_same :: "AL_TVuiParam \<Rightarrow> AL_TVuiParam \<Rightarrow> bool" where
  "vui_same v w \<longleftrightarrow> aspect_ratio_info_present_flag w = aspect_ratio_info_present_flag v
     \<and> (aspect_ratio_info_present_flag v \<noteq> 0 \<longrightarrow> aspect_ratio_idc w = aspect_ratio_idc v
          \<and> (aspect_ratio_idc v = 255 \<longrightarrow> sar_width w = sar_width v \<and> sar_height w = sar_height v))
     \<and> overscan_info_present_flag w = overscan_info_present_flag v
     \<and> (overscan_info_present_flag v \<noteq> 0 \<longrightarrow> overscan_appropriate_flag w = overscan_appropriate_flag v)
     \<and> video_signal_type_present_flag w = video_signal_type_present_flag v
     \<and> (video_signal_type_present_flag v \<noteq> 0 \<longrightarrow> video_format w = video_format v
          \<and> video_full_range_flag w = video_full_range_flag v
          \<and> colour_description_present_flag w = colour_description_present_flag v
          \<and> (colour_description_present_flag v \<noteq> 0 \<longrightarrow> colour_primaries w = colour_primaries v
               \<and> transfer_characteristics w = transfer_characteristics v \<and> matrix_coefficients w = matrix_coefficients v))
     \<and> chroma_loc_info_present_flag w = chroma_loc_info_present_flag v
     \<and> (chroma_loc_info_present_flag v \<noteq> 0 \<longrightarrow> chroma_sample_loc_type_top_field w = chroma_sample_loc_type_top_field v
          \<and> chroma_sample_loc_type_bottom_field w = chroma_sample_loc_type_bottom_field v)
     \<and> vui_timing_info_present_flag w = vui_timing_info_present_flag v
     \<and> (vui_timing_info_present_flag v \<noteq> 0 \<longrightarrow> vui_num_units_in_tick w = vui_num_units_in_tick v
          \<and> vui_time_scale w = vui_time_scale v \<and> fixed_frame_rate_flag w = fixed_frame_rate_flag v)
     \<and> nal_hrd_parameters_present_flag (hrd_param w) = nal_hrd_parameters_present_flag (hrd_param v)
     \<and> vcl_hrd_parameters_present_flag (hrd_param w) = vcl_hrd_parameters_present_flag (hrd_param v)
     \<and> (nal_hrd_parameters_present_flag (hrd_param v) \<noteq> 0 \<longrightarrow>
          hrd_same (hrd_param v) (nal_sub_hrd_param (hrd_param v)) (hrd_param w) (nal_sub_hrd_param (hrd_param w)))
     \<and> (vcl_hrd_parameters_present_flag (hrd_param v) \<noteq> 0 \<longrightarrow>
          hrd_same (hrd_param v) (vcl_sub_hrd_param (hrd_param v)) (hrd_param w) (vcl_sub_hrd_param (hrd_param w)))
     \<and> (has_hrd (hrd_param v) \<longrightarrow> low_delay_hrd_flag w = hrd_low_delay_hrd_flag (hrd_param v) ! 0)
     \<and> pic_struct_present_flag w = pic_struct_present_flag v \<and> bitstream_restriction_flag w = bitstream_restriction_flag v"

lemma cpb_of_shape:
  "length (bit_rate_value_minus1 (cpb_of k i s d)) = length (bit_rate_value_minus1 d)"
  "length (cpb_size_value_minus1 (cpb_of k i s d)) = length (cpb_size_value_minus1 d)"
  "length (cbr_flag (cpb_of k i s d)) = length (cbr_flag d)"
  by (induction k arbitrary: i d) simp_all

lemma cpb_of_nth:
  "sub_shape d \<Longrightarrow> j < 32 \<Longrightarrow>
   (j < i \<longrightarrow> bit_rate_value_minus1 (cpb_of k i s d) ! j = bit_rate_value_minus1 d ! j
     \<and> cpb_size_value_minus1 (cpb_of k i s d) ! j = cpb_size_value_minus1 d ! j \<and> cbr_flag (cpb_of k i s d) ! j = cbr_flag d ! j)
   \<and> (i \<le> j \<and> j < i + k \<longrightarrow> bit_rate_value_minus1 (cpb_of k i s d) ! j = bit_rate_value_minus1 s ! j
     \<and> cpb_size_value_minus1 (cpb_of k i s d) ! j = cpb_size_value_minus1 s ! j \<and> cbr_flag (cpb_of k i s d) ! j = cbr_flag s ! j)"
proof (induction k arbitrary: i d)
  case (Suc k)
  let ?d = "d\<lparr>bit_rate_value_minus1 := (bit_rate_value_minus1 d)[i := bit_rate_value_minus1 s ! i],
       cpb_size_value_minus1 := (cpb_size_value_minus1 d)[i := cpb_size_value_minus1 s ! i],
       cbr_flag := (cbr_flag d)[i := cbr_flag s ! i]\<rparr>"
  have "sub_shape ?d" using Suc.prems(1) by (simp add: sub_shape_def)
  note IH = Suc.IH [OF this Suc.prems(2), of "i + 1"]
  have l: "j < length (bit_rate_value_minus1 d)" "j < length (cpb_size_value_minus1 d)" "j < length (cbr_flag d)"
    using Suc.prems by (simp_all add: sub_shape_def)
  consider "j < i" | "j = i" | "i + 1 \<le> j" by linarith
  then show ?case
    by cases (use IH l in simp_all)
qed auto

lemma sub_of_nth:
  assumes "cpb_cnt_minus1 h ! 0 < 32" "i \<le> unat (cpb_cnt_minus1 h ! 0)"
  shows "bit_rate_value_minus1 (sub_of h s d) ! i = bit_rate_value_minus1 s ! i"
    "cpb_size_value_minus1 (sub_of h s d) ! i = cpb_size_value_minus1 s ! i" "cbr_flag (sub_of h s d) ! i = cbr_flag s ! i"
proof -
  let ?d = "d\<lparr>bit_rate_value_minus1 := replicate 32 0, cpb_size_value_minus1 := replicate 32 0, cbr_flag := replicate 32 0\<rparr>"
  have "sub_shape ?d" by (simp add: sub_shape_def)
  moreover have "i < 32" using assms by (simp add: word_less_nat_alt)
  ultimately have "bit_rate_value_minus1 (sub_of h s d) ! i = bit_rate_value_minus1 s ! i
    \<and> cpb_size_value_minus1 (sub_of h s d) ! i = cpb_size_value_minus1 s ! i \<and> cbr_flag (sub_of h s d) ! i = cbr_flag s ! i"
    using cpb_of_nth [of ?d i 0 "unat (cpb_cnt_minus1 h ! 0) + 1" s] assms(2) by (simp add: sub_of_def)
  then show "bit_rate_value_minus1 (sub_of h s d) ! i = bit_rate_value_minus1 s ! i"
    "cpb_size_value_minus1 (sub_of h s d) ! i = cpb_size_value_minus1 s ! i" "cbr_flag (sub_of h s d) ! i = cbr_flag s ! i"
    by blast+
qed

lemma hrd_of_same:
  assumes "cpb_cnt_minus1 h ! 0 < 32" "cpb_cnt_minus1 d \<noteq> []"
  shows "hrd_same h s (hrd_of h d) (sub_of h s e)"
  using assms by (simp add: hrd_same_def hrd_of_def sub_of_nth)

lemma hrd_of_simps [simp]: "nal_hrd_parameters_present_flag (hrd_of h d) = nal_hrd_parameters_present_flag d"
  "vcl_hrd_parameters_present_flag (hrd_of h d) = vcl_hrd_parameters_present_flag d"
  "nal_sub_hrd_param (hrd_of h d) = nal_sub_hrd_param d" "vcl_sub_hrd_param (hrd_of h d) = vcl_sub_hrd_param d"
  "length (cpb_cnt_minus1 (hrd_of h d)) = length (cpb_cnt_minus1 d)"
  by (simp_all add: hrd_of_def)

text \<open>The HRD blocks leave the signal members alone and the other way round.\<close>

lemma hrd_blocks:
  assumes "vui_ok v" "cpb_cnt_minus1 (hrd_param w) \<noteq> []"
  defines "h' \<equiv> hrd_param (vui_vcl_of v (vui_nal_of v w))"
  shows "nal_hrd_parameters_present_flag h' = nal_hrd_parameters_present_flag (hrd_param v)"
    "vcl_hrd_parameters_present_flag h' = vcl_hrd_parameters_present_flag (hrd_param v)"
    "nal_hrd_parameters_present_flag (hrd_param v) \<noteq> 0 \<Longrightarrow>
       hrd_same (hrd_param v) (nal_sub_hrd_param (hrd_param v)) h' (nal_sub_hrd_param h')"
    "vcl_hrd_parameters_present_flag (hrd_param v) \<noteq> 0 \<Longrightarrow>
       hrd_same (hrd_param v) (vcl_sub_hrd_param (hrd_param v)) h' (vcl_sub_hrd_param h')"
proof -
  have c: "cpb_cnt_minus1 (hrd_param v) ! 0 < 32" using assms(1) by (simp add: vui_ok_def hrd_shape_def)
  note hs = hrd_of_same [OF c]
  show "nal_hrd_parameters_present_flag h' = nal_hrd_parameters_present_flag (hrd_param v)"
    "vcl_hrd_parameters_present_flag h' = vcl_hrd_parameters_present_flag (hrd_param v)"
    by (simp_all add: h'_def vui_vcl_of_def vui_nal_of_def Let_def)
  show "hrd_same (hrd_param v) (nal_sub_hrd_param (hrd_param v)) h' (nal_sub_hrd_param h')"
    if "nal_hrd_parameters_present_flag (hrd_param v) \<noteq> 0"
    using that assms(2) hs [of "hrd_param w"] unfolding h'_def vui_vcl_of_def vui_nal_of_def Let_def
    by (simp add: hrd_same_def hrd_of_def sub_of_nth c)
  show "hrd_same (hrd_param v) (vcl_sub_hrd_param (hrd_param v)) h' (vcl_sub_hrd_param h')"
    if "vcl_hrd_parameters_present_flag (hrd_param v) \<noteq> 0"
    using that assms(2) unfolding h'_def vui_vcl_of_def vui_nal_of_def Let_def
    by (simp add: hrd_same_def hrd_of_def sub_of_nth c)
qed

lemma signal_of_hrd:
  "hrd_param (vui_tick_of v w) = hrd_param w" "hrd_param (vui_chroma_of v w) = hrd_param w"
  "hrd_param (vui_video_of v w) = hrd_param w" "hrd_param (vui_overscan_of v w) = hrd_param w"
  "hrd_param (vui_aspect_of v w) = hrd_param w" "hrd_param (vui_tail_of v w) = hrd_param w"
  by (simp_all add: vui_tick_of_def vui_chroma_of_def vui_video_of_def vui_overscan_of_def vui_aspect_of_def
      vui_tail_of_def Let_def)

lemma vui_of_same:
  assumes "vui_ok v" "cpb_cnt_minus1 (hrd_param w) \<noteq> []"
  shows "vui_same v (vui_of v w)"
proof -
  let ?w = "vui_tick_of v (vui_chroma_of v (vui_video_of v (vui_overscan_of v (vui_aspect_of v w))))"
  have "cpb_cnt_minus1 (hrd_param ?w) \<noteq> []" using assms(2) by (simp add: signal_of_hrd)
  note hb = hrd_blocks [OF assms(1) this]
  have b: "bitstream_restriction_flag v = 0" using assms(1) by (simp add: vui_ok_def)
  define x where "x = vui_vcl_of v (vui_nal_of v ?w)"
  have x: "\<exists>h. x = ?w\<lparr>hrd_param := h\<rparr>"
    by (simp add: x_def vui_vcl_of_def vui_nal_of_def Let_def) blast
  then obtain h where h: "x = ?w\<lparr>hrd_param := h\<rparr>" ..
  have hh: "hrd_param (vui_of v w) = h" unfolding vui_of_def x_def [symmetric] h by (simp add: signal_of_hrd)
  note hb' = hb [folded x_def, unfolded h, simplified]
  show ?thesis
    unfolding vui_same_def hh
    by (simp add: hb' vui_of_def x_def [symmetric]) (simp add: h vui_tail_of_def b vui_tick_of_def vui_chroma_of_def
        vui_video_of_def vui_overscan_of_def vui_aspect_of_def Let_def)
qed

end
