(* ===== verification/AvcRoundtrip.thy ===== *)
theory AvcRoundtrip imports AvcSps begin

text \<open>
  The AVC sequence parameter set from the encoder's structure to the decoder's, through the NAL unit.
\<close>

definition AL_AVC_NUT_SPS :: int where "AL_AVC_NUT_SPS = 7"

definition AL_CreateSps :: "int \<Rightarrow> AL_TAvcSps \<Rightarrow> int \<Rightarrow> int \<Rightarrow> AL_TNalUnit" where
  "AL_CreateSps n sps layer temp = AL_CreateNalUnit (writeSps sps layer) n 1 layer temp"

text \<open>The header is set by \<open>GenerateSections\<close>.\<close>

definition with_header_avc :: "AL_TNalUnit \<Rightarrow> AL_TNalUnit" where
  "with_header_avc n = n\<lparr>header := GetNalHeaderAvc (of_int (nut n)) (of_int (nalRefIdc n)) (of_int (layerId n)) (of_int (tempId n))\<rparr>"

definition sps_same :: "AL_TAvcSps \<Rightarrow> AL_TAvcSps \<Rightarrow> bool" where
  "sps_same s r \<longleftrightarrow> \<not> bConceal r \<and> profile_idc r = profile_idc s \<and> level_idc r = level_idc s
     \<and> constraint_set3_flag r = constraint_set3_flag s \<and> seq_parameter_set_id r = seq_parameter_set_id s
     \<and> (is_high (profile_idc s) \<longrightarrow> chroma_format_idc r = chroma_format_idc s
          \<and> bit_depth_luma_minus8 r = bit_depth_luma_minus8 s \<and> bit_depth_chroma_minus8 r = bit_depth_chroma_minus8 s
          \<and> qpprime_y_zero_transform_bypass_flag r = qpprime_y_zero_transform_bypass_flag s
          \<and> seq_scaling_matrix_present_flag r = seq_scaling_matrix_present_flag s
          \<and> (seq_scaling_matrix_present_flag s \<noteq> 0 \<longrightarrow> (\<forall>i < 8. got_list s r i)))
     \<and> (\<not> is_high (profile_idc s) \<longrightarrow> chroma_format_idc r = 1 \<and> bit_depth_luma_minus8 r = 0
          \<and> bit_depth_chroma_minus8 r = 0 \<and> seq_scaling_matrix_present_flag r = 0)
     \<and> log2_max_frame_num_minus4 r = log2_max_frame_num_minus4 s \<and> pic_order_cnt_type r = pic_order_cnt_type s
     \<and> (pic_order_cnt_type s = 0 \<longrightarrow> log2_max_pic_order_cnt_lsb_minus4 r = log2_max_pic_order_cnt_lsb_minus4 s)
     \<and> max_num_ref_frames r = max_num_ref_frames s
     \<and> gaps_in_frame_num_value_allowed_flag r = gaps_in_frame_num_value_allowed_flag s
     \<and> pic_width_in_mbs_minus1 r = pic_width_in_mbs_minus1 s \<and> frame_mbs_only_flag r = frame_mbs_only_flag s
     \<and> pic_height_in_map_units_minus1 r
       = (if frame_mbs_only_flag s = 0 then of_int (fieldToFrameHeight (pic_height_in_map_units_minus1 s))
          else pic_height_in_map_units_minus1 s)
     \<and> direct_8x8_inference_flag r = direct_8x8_inference_flag s \<and> frame_cropping_flag r = frame_cropping_flag s
     \<and> (frame_cropping_flag s \<noteq> 0 \<longrightarrow> frame_crop_left_offset r = frame_crop_left_offset s
          \<and> frame_crop_right_offset r = frame_crop_right_offset s \<and> frame_crop_top_offset r = frame_crop_top_offset s
          \<and> frame_crop_bottom_offset r = frame_crop_bottom_offset s)
     \<and> vui_parameters_present_flag r = vui_parameters_present_flag s
     \<and> (vui_parameters_present_flag s \<noteq> 0 \<longrightarrow> vui_same (vui_param s) (vui_param r))"

lemma got_list_cong:
  "seq_scaling_list_present_flag r = seq_scaling_list_present_flag t \<Longrightarrow> ScalingList4x4 r = ScalingList4x4 t \<Longrightarrow>
   ScalingList8x8 r = ScalingList8x8 t \<Longrightarrow> UseDefaultScalingMatrix4x4Flag r = UseDefaultScalingMatrix4x4Flag t \<Longrightarrow>
   UseDefaultScalingMatrix8x8Flag r = UseDefaultScalingMatrix8x8Flag t \<Longrightarrow> got_list s r i = got_list s t i"
  by (simp add: got_list_def)

text \<open>A member of the parameter set before the tail.\<close>

lemma no_listsD:
  assumes "no_lists t = no_lists x"
  shows "profile_idc t = profile_idc x" "level_idc t = level_idc x" "constraint_set3_flag t = constraint_set3_flag x"
    "seq_parameter_set_id t = seq_parameter_set_id x" "chroma_format_idc t = chroma_format_idc x"
    "bit_depth_luma_minus8 t = bit_depth_luma_minus8 x" "bit_depth_chroma_minus8 t = bit_depth_chroma_minus8 x"
    "qpprime_y_zero_transform_bypass_flag t = qpprime_y_zero_transform_bypass_flag x"
    "seq_scaling_matrix_present_flag t = seq_scaling_matrix_present_flag x" "vui_param t = vui_param x"
proof -
  have e: "f (no_lists t) = f (no_lists x)" for f :: "AL_TAvcSps \<Rightarrow> 'b" using assms by simp
  show "profile_idc t = profile_idc x" using e [of profile_idc] by (simp add: no_lists_def)
  show "level_idc t = level_idc x" using e [of level_idc] by (simp add: no_lists_def)
  show "constraint_set3_flag t = constraint_set3_flag x" using e [of constraint_set3_flag] by (simp add: no_lists_def)
  show "seq_parameter_set_id t = seq_parameter_set_id x" using e [of seq_parameter_set_id] by (simp add: no_lists_def)
  show "chroma_format_idc t = chroma_format_idc x" using e [of chroma_format_idc] by (simp add: no_lists_def)
  show "bit_depth_luma_minus8 t = bit_depth_luma_minus8 x" using e [of bit_depth_luma_minus8] by (simp add: no_lists_def)
  show "bit_depth_chroma_minus8 t = bit_depth_chroma_minus8 x" using e [of bit_depth_chroma_minus8] by (simp add: no_lists_def)
  show "qpprime_y_zero_transform_bypass_flag t = qpprime_y_zero_transform_bypass_flag x"
    using e [of qpprime_y_zero_transform_bypass_flag] by (simp add: no_lists_def)
  show "seq_scaling_matrix_present_flag t = seq_scaling_matrix_present_flag x"
    using e [of seq_scaling_matrix_present_flag] by (simp add: no_lists_def)
  show "vui_param t = vui_param x" using e [of vui_param] by (simp add: no_lists_def)
qed

lemma tail_of_simps:
  "profile_idc (tail_of s t) = profile_idc t" "level_idc (tail_of s t) = level_idc t"
  "constraint_set3_flag (tail_of s t) = constraint_set3_flag t" "seq_parameter_set_id (tail_of s t) = seq_parameter_set_id t"
  "chroma_format_idc (tail_of s t) = chroma_format_idc t" "bit_depth_luma_minus8 (tail_of s t) = bit_depth_luma_minus8 t"
  "bit_depth_chroma_minus8 (tail_of s t) = bit_depth_chroma_minus8 t"
  "qpprime_y_zero_transform_bypass_flag (tail_of s t) = qpprime_y_zero_transform_bypass_flag t"
  "seq_scaling_matrix_present_flag (tail_of s t) = seq_scaling_matrix_present_flag t"
  "got_list s (tail_of s t) i = got_list s t i"
  "vui_param (tail_of s t) = (if vui_parameters_present_flag s \<noteq> 0 then vui_of (vui_param s) (vui_param t) else vui_param t)"
  by (simp_all add: tail_of_def with_vui_of_def crop_of_def size_of_def poc_of_def got_list_def Let_def)

lemma head_vui: "cpb_cnt_minus1 (hrd_param (vui_param (head_of s))) \<noteq> []"
  by (simp add: head_of_def initSps_def sps_0_def vui_0_def hrd_0_def Let_def)

lemma tail_same:
  assumes "sps_ok s"
    and "is_high (profile_idc s) \<longrightarrow> no_lists t = no_lists (high_of s (head_of s))
        \<and> (seq_scaling_matrix_present_flag s \<noteq> 0 \<longrightarrow> (\<forall>j < 8. got_list s t j))"
    and "\<not> is_high (profile_idc s) \<longrightarrow> t = head_of s"
  shows "sps_same s (tail_of s t)"
proof -
  have v: "vui_param t = vui_param (head_of s)"
    using assms(2,3) no_listsD(10) [of t "high_of s (head_of s)"] by (cases "is_high (profile_idc s)") (auto simp: high_of_def)
  have vs: "vui_parameters_present_flag s \<noteq> 0 \<Longrightarrow> vui_same (vui_param s) (vui_of (vui_param s) (vui_param t))"
    by (rule vui_of_same) (use assms(1) head_vui in \<open>simp_all add: sps_ok_def v\<close>)
  have hd: "profile_idc t = profile_idc s" "level_idc t = level_idc s" "constraint_set3_flag t = constraint_set3_flag s"
    "seq_parameter_set_id t = seq_parameter_set_id s"
    using assms(2,3) no_listsD(1-4) [of t "high_of s (head_of s)"]
    by (cases "is_high (profile_idc s)"; simp add: high_of_def head_of_def)+
  have hi: "is_high (profile_idc s) \<longrightarrow> chroma_format_idc t = chroma_format_idc s
      \<and> bit_depth_luma_minus8 t = bit_depth_luma_minus8 s \<and> bit_depth_chroma_minus8 t = bit_depth_chroma_minus8 s
      \<and> qpprime_y_zero_transform_bypass_flag t = qpprime_y_zero_transform_bypass_flag s
      \<and> seq_scaling_matrix_present_flag t = seq_scaling_matrix_present_flag s"
    using assms(2) no_listsD(5-9) [of t "high_of s (head_of s)"] by (simp add: high_of_def)
  have lo: "\<not> is_high (profile_idc s) \<longrightarrow> chroma_format_idc t = 1 \<and> bit_depth_luma_minus8 t = 0
      \<and> bit_depth_chroma_minus8 t = 0 \<and> seq_scaling_matrix_present_flag t = 0"
    using assms(3) by (auto simp: head_of_def initSps_def Let_def)
  have tl: "\<not> bConceal (tail_of s t)" "log2_max_frame_num_minus4 (tail_of s t) = log2_max_frame_num_minus4 s"
    "pic_order_cnt_type (tail_of s t) = pic_order_cnt_type s"
    "pic_order_cnt_type s = 0 \<longrightarrow> log2_max_pic_order_cnt_lsb_minus4 (tail_of s t) = log2_max_pic_order_cnt_lsb_minus4 s"
    "max_num_ref_frames (tail_of s t) = max_num_ref_frames s"
    "gaps_in_frame_num_value_allowed_flag (tail_of s t) = gaps_in_frame_num_value_allowed_flag s"
    "pic_width_in_mbs_minus1 (tail_of s t) = pic_width_in_mbs_minus1 s"
    "frame_mbs_only_flag (tail_of s t) = frame_mbs_only_flag s"
    "direct_8x8_inference_flag (tail_of s t) = direct_8x8_inference_flag s"
    "frame_cropping_flag (tail_of s t) = frame_cropping_flag s"
    "vui_parameters_present_flag (tail_of s t) = vui_parameters_present_flag s"
    by (simp_all add: tail_of_def with_vui_of_def crop_of_def size_of_def poc_of_def Let_def)
  have tl2: "pic_height_in_map_units_minus1 (tail_of s t)
      = (if frame_mbs_only_flag s = 0 then of_int (fieldToFrameHeight (pic_height_in_map_units_minus1 s))
         else pic_height_in_map_units_minus1 s)"
    "frame_cropping_flag s \<noteq> 0 \<longrightarrow> frame_crop_left_offset (tail_of s t) = frame_crop_left_offset s
      \<and> frame_crop_right_offset (tail_of s t) = frame_crop_right_offset s
      \<and> frame_crop_top_offset (tail_of s t) = frame_crop_top_offset s
      \<and> frame_crop_bottom_offset (tail_of s t) = frame_crop_bottom_offset s"
    by (simp_all add: tail_of_def with_vui_of_def crop_of_def size_of_def poc_of_def Let_def)
  show ?thesis
    unfolding sps_same_def tail_of_simps using hd hi lo tl tl2 vs assms(2) by simp
qed

lemma writeSps_eq: "sps_ok s \<Longrightarrow> writeSps s layer = payload (sps_elems s)"
  using writes_sps [of s]
  by (intro ext) (simp add: writeSps_def payload_def AL_RbspEncoding_CloseSEI_def writes_def)

lemma avc_sps_header: "header_ok (header (with_header_avc (AL_CreateSps AL_AVC_NUT_SPS s layer temp)))"
  "hdr_size (header (with_header_avc (AL_CreateSps AL_AVC_NUT_SPS s layer temp))) = 1"
  by (simp_all add: header_ok_def with_header_avc_def GetNalHeaderAvc_def AL_CreateSps_def AL_CreateNalUnit_def
      AL_AVC_NUT_SPS_def)

text \<open>The elements are in range.\<close>

definition all_ok :: "(shape \<times> int) list \<Rightarrow> bool" where
  "all_ok es \<longleftrightarrow> (\<forall>e \<in> set es. elem_ok e)"

lemma all_okI: "all_ok []" "elem_ok e \<Longrightarrow> all_ok es \<Longrightarrow> all_ok (e # es)" "all_ok as \<Longrightarrow> all_ok bs \<Longrightarrow> all_ok (as @ bs)"
  "(c \<Longrightarrow> all_ok as) \<Longrightarrow> (\<not> c \<Longrightarrow> all_ok bs) \<Longrightarrow> all_ok (if c then as else bs)"
  by (auto simp: all_ok_def)

lemma elem_ok_ue: "golomb v \<Longrightarrow> elem_ok (Unsigned, uint v)"
  by (simp add: golomb_def)

lemmas ok_intros = all_okI elem_ok_u elem_ok_ue fits_all golomb_all

lemma all_ok_cpb: "sub_ok (i + k) s \<Longrightarrow> all_ok (cpb_elems k i s)"
proof (induction k arbitrary: i)
  case (Suc k)
  then have o: "golomb (bit_rate_value_minus1 s ! i)" "golomb (cpb_size_value_minus1 s ! i)" "fits 1 (cbr_flag s ! i)"
    by (simp_all add: sub_ok_def)
  have r: "all_ok (cpb_elems k (i + 1) s)" by (rule Suc.IH) (use Suc.prems in simp)
  show ?case unfolding cpb_elems.simps by (rule r o ok_intros)+
qed (simp add: all_ok_def)

lemma all_ok_hrd: 
  assumes "hrd_ok h s" "cpb_cnt_minus1 h ! 0 < 32"
  shows "all_ok (hrd_elems h s)"
proof -
  have "uint (cpb_cnt_minus1 h ! 0) < 32" using assms(2) by (simp add: word_less_def)
  then have g: "golomb (cpb_cnt_minus1 h ! 0)" by (simp add: golomb_def)
  have c: "all_ok (cpb_elems (unat (cpb_cnt_minus1 h ! 0) + 1) 0 s)"
    by (rule all_ok_cpb) (use assms(1) in \<open>simp add: hrd_ok_def\<close>)
  show ?thesis
    using assms(1) unfolding hrd_elems_def hrd_ok_def Let_def by (elim conjE) (assumption | rule g c ok_intros)+
qed

lemma all_ok_vui: "vui_ok v \<Longrightarrow> all_ok (vui_elems v)"
proof -
  assume v: "vui_ok v"
  let ?h = "hrd_param v"
  have c: "cpb_cnt_minus1 ?h ! 0 < 32" using v by (simp add: vui_ok_def hrd_shape_def)
  have n: "nal_hrd_parameters_present_flag ?h \<noteq> 0 \<Longrightarrow> all_ok (hrd_elems ?h (nal_sub_hrd_param ?h))"
    "vcl_hrd_parameters_present_flag ?h \<noteq> 0 \<Longrightarrow> all_ok (hrd_elems ?h (vcl_sub_hrd_param ?h))"
    using v c by (simp_all add: vui_ok_def all_ok_hrd)
  have z: "elem_ok (Fixed 1, 0)" by simp
  show ?thesis
    using v unfolding vui_elems_def vui_aspect_elems_def vui_overscan_elems_def vui_video_elems_def vui_chroma_elems_def
      vui_tick_elems_def nal_hrd_elems_def vcl_hrd_elems_def vui_tail_elems_def vui_ok_def Let_def
    by (elim conjE) (assumption | rule z n ok_intros)+
qed

lemma all_ok_scaling: "0 \<le> prev \<Longrightarrow> prev < 256 \<Longrightarrow> all_ok (scaling_elems is l prev)"
proof (induction "is" arbitrary: prev)
  case (Cons i "is")
  have v: "0 \<le> uint (l ! i)" "uint (l ! i) < 256" using uint_lt2p [of "l ! i"] by simp_all
  from delta_range(2) [OF Cons.prems v] Cons.IH [OF v] show ?case
    by (simp only: scaling_elems.simps Let_def all_ok_def list.set ball_simps elem_ok.simps simp_thms)
qed (simp add: all_ok_def)

lemma all_ok_matrices: "lists_ok s \<Longrightarrow> \<forall>i \<in> set is. i < 8 \<Longrightarrow> all_ok (matrices_elems is s)"
proof (induction "is")
  case (Cons i "is")
  then have f: "fits 1 (seq_scaling_list_present_flag s ! i)" by (simp add: lists_ok_def)
  have r: "all_ok (matrices_elems is s)" using Cons by simp
  have e: "all_ok (scaling_elems (scan (list_size i)) (matrix_of s i) 8)" by (rule all_ok_scaling) simp_all
  show ?case unfolding matrices_elems.simps by (rule r f e ok_intros)+
qed (simp add: all_ok_def)

lemma all_ok_sps:
  assumes s: "sps_ok s"
  shows "all_ok (sps_elems s)"
proof -
  have m: "is_high (profile_idc s) \<Longrightarrow> seq_scaling_matrix_present_flag s \<noteq> 0 \<Longrightarrow> all_ok (matrices_elems [0..<8] s)"
    using s by (intro all_ok_matrices) (simp_all add: sps_ok_def)
  have v: "vui_parameters_present_flag s \<noteq> 0 \<Longrightarrow> all_ok (vui_elems (vui_param s))"
    using s by (intro all_ok_vui) (simp add: sps_ok_def)
  have hf: "is_high (profile_idc s) \<Longrightarrow> fits 1 (qpprime_y_zero_transform_bypass_flag s)"
    "is_high (profile_idc s) \<Longrightarrow> fits 1 (seq_scaling_matrix_present_flag s)"
    "frame_mbs_only_flag s = 0 \<Longrightarrow> fits 1 (mb_adaptive_frame_field_flag s)"
    using s by (simp_all add: sps_ok_def fits_def)
  have c: "frame_cropping_flag s \<noteq> 0 \<Longrightarrow> elem_ok (Unsigned, frame_crop_left_offset s)"
    "frame_cropping_flag s \<noteq> 0 \<Longrightarrow> elem_ok (Unsigned, frame_crop_right_offset s)"
    "frame_cropping_flag s \<noteq> 0 \<Longrightarrow> elem_ok (Unsigned, frame_crop_top_offset s)"
    "frame_cropping_flag s \<noteq> 0 \<Longrightarrow> elem_ok (Unsigned, frame_crop_bottom_offset s)"
    using s by (simp_all add: sps_ok_def)
  have k: "elem_ok (Fixed 8, profile_idc s)" "elem_ok (Fixed 8, level_idc s)" "elem_ok (Fixed 2, 0)"
    using s by (simp_all add: sps_ok_def)
  show ?thesis
    using s unfolding sps_elems_def sps_head_elems_def sps_high_elems_def sps_poc_elems_def sps_size_elems_def
      sps_crop_elems_def sps_vui_elems_def sps_ok_def
    by (elim conjE) (assumption | rule k m v hf c ok_intros)+
qed

section \<open>The round trip\<close>

text \<open>C2: An AVC sequence parameter set in range (scaling lists without zeros, HRD and video usability information
  included), written by \<open>writeSps\<close> and put into the stream as a NAL unit by \<open>WriteNal\<close>, is accepted by
  \<open>AL_AVC_ParseSPS\<close>, which returns a parameter set with the same members; members that are not sent have the values the
  standard infers.  The NAL may lie anywhere in the decoder's circular buffer and be followed by another start
  code.\<close>

theorem avc_sps_round_trip:
  assumes "sps_ok s" "sz \<le> length tmp" "length (elems_bits (sps_elems s)) < 8 * sz"
    and "bs_ok st" "iBitCount st mod 8 = 0" "2 * length (elems_bits (sps_elems s)) + 56 \<le> bs_room st"
  shows "\<exists>N st'. WriteNal AL_CODEC_AVC tmp sz (with_header_avc (AL_CreateSps AL_AVC_NUT_SPS s layer temp)) st
        = Some (int (length N), st')
    \<and> bs_ok st' \<and> written st' = written st @ byte_bits N
    \<and> (\<forall>ring rsz off avail t k. ring_holds ring rsz off avail (N @ t) \<and> follows t \<and> sz + 13 \<le> k \<and> k < 2 ^ 29 \<longrightarrow>
         (\<exists>r q. AL_AVC_ParseSPS (InitRbspParser ring rsz off avail (replicate k 0) True) = Some ((AL_OK, r), q)
            \<and> sps_same s r))"
proof -
  let ?nal = "with_header_avc (AL_CreateSps AL_AVC_NUT_SPS s layer temp)"
  note h = avc_sps_header [of s layer temp]
  have ok: "\<forall>e \<in> set (sps_elems s). elem_ok e" using all_ok_sps [OF assms(1)] by (simp add: all_ok_def)
  have w: "Write ?nal = payload (sps_elems s)"
    by (simp add: with_header_avc_def AL_CreateSps_def AL_CreateNalUnit_def writeSps_eq [OF assms(1)])
  have room: "8 * (hdr_size (header ?nal) + 4) + 2 * (length (elems_bits (sps_elems s)) + 8) \<le> bs_room st"
    using assms(6) h(2) by simp
  from reads_body [OF assms(1)] obtain t where
    t: "reads sps_body (sps_elems s) (AL_OK, tail_of s t)" "sps_same s (tail_of s t)"
    using tail_same [OF assms(1)] by blast
  have e: "ends sps_body (sps_elems s) (\<lambda>(c, r). c = AL_OK \<and> sps_same s r)"
    by (rule reads_ends [OF t(1)]) (simp add: t(2))
  have k: "1 + sz + 12 = sz + 13" by simp
  from nal_delivered [OF ok assms(2,3) w h(1) assms(4,5) room e, of AL_CODEC_AVC]
  show ?thesis unfolding ParseSPS_eq h(2) k by fastforce
qed

text \<open>A parameter set of the main profile for 64 x 64 samples, with the VUI and one HRD.\<close>

definition example_sps :: AL_TAvcSps where
  "example_sps = sps_0\<lparr>profile_idc := 77, level_idc := 30, constraint_set1_flag := 1, seq_parameter_set_id := 3,
     log2_max_pic_order_cnt_lsb_minus4 := 4, max_num_ref_frames := 2, pic_width_in_mbs_minus1 := 3,
     pic_height_in_map_units_minus1 := 3, frame_mbs_only_flag := 1, direct_8x8_inference_flag := 1,
     frame_cropping_flag := 1, frame_crop_right_offset := 5, vui_parameters_present_flag := 1,
     vui_param := vui_0\<lparr>aspect_ratio_info_present_flag := 1, aspect_ratio_idc := 255, sar_width := 4, sar_height := 3,
       pic_struct_present_flag := 1,
       hrd_param := hrd_0\<lparr>nal_hrd_parameters_present_flag := 1, bit_rate_scale := 2\<rparr>\<rparr>\<rparr>"

lemma example_sps_ok: "sps_ok example_sps" "length (elems_bits (sps_elems example_sps)) \<le> 700"
proof -
  have f: "fits (Suc 0) (1 :: u8)" "fits 4 (2 :: u8)" "fits n (0 :: u8) \<longleftrightarrow> 0 < n \<and> n \<le> 32" for n
    by (simp_all add: fits_def)
  show "sps_ok example_sps"
    unfolding sps_ok_def
    by (intro conjI) (simp_all add: example_sps_def sps_0_def f is_high_def isProfileSupported_def golomb_def vui_ok_def
        AL_AVC_MAX_SPS_def MAX_FRAME_NUM_def MAX_POC_LSB_def vui_0_def hrd_0_def sub_hrd_0_def hrd_ok_def sub_ok_def
        hrd_shape_def sub_shape_def)
  show "length (elems_bits (sps_elems example_sps)) \<le> 700" by code_simp
qed

theorem avc_sps_round_trip_witness:
  "\<exists>N :: u8 list. \<exists>st'. WriteNal AL_CODEC_AVC (replicate 100 0) 100
        (with_header_avc (AL_CreateSps AL_AVC_NUT_SPS example_sps 0 0)) (AL_BitStreamLite_Init (replicate 200 0) 200)
      = Some (int (length N), st') \<and> written st' = byte_bits N"
proof -
  note o = example_sps_ok(1) and l = example_sps_ok(2)
  have b: "bs_ok (AL_BitStreamLite_Init (replicate 200 0) 200)"
    "iBitCount (AL_BitStreamLite_Init (replicate 200 0) 200) mod 8 = 0"
    "2 * length (elems_bits (sps_elems example_sps)) + 56 \<le> bs_room (AL_BitStreamLite_Init (replicate 200 0) 200)"
    using l by (simp_all add: init_ok) (simp add: AL_BitStreamLite_Init_def)
  have n: "100 \<le> length (replicate 100 (0 :: u8))" "length (elems_bits (sps_elems example_sps)) < 8 * 100"
    using l by simp_all
  have "written (AL_BitStreamLite_Init (replicate 200 0) 200) = []" by (simp add: init_ok)
  with avc_sps_round_trip [OF o n b, of 0 0] show ?thesis by auto
qed

end
