(* ===== verification/TrailingBits.thy ===== *)
theory TrailingBits imports SyntaxReads begin

text \<open>
  The end of an RBSP in the parser: \<open>rbsp_trailing_bits\<close> always returns on a NAL that was read to its stop bit,
  and it accepts the NAL once everything has been fetched.
\<close>

lemma buffered_next_bit:
  assumes "iTotalBitIndex p < iTrailingBitOneIndex p" "iTrailingBitOneIndex p \<le> 8 * length (pBuffer p)"
    and "pByte p = iTotalBitIndex p div 8"
  shows "get_next_bit p = Some (if bit_at (pBuffer p) (iTotalBitIndex p) then 1 else 0,
    p\<lparr>iTotalBitIndex := iTotalBitIndex p + 1, pByte := (iTotalBitIndex p + 1) div 8\<rparr>)"
proof -
  let ?t = "iTotalBitIndex p"
  have d: "?t div 8 < length (pBuffer p)" using assms(1,2) by auto
  have v: "pBuffer p ! (?t div 8) AND drop_bit (?t mod 8) 0x80 \<noteq> 0 \<longleftrightarrow> bit_at (pBuffer p) ?t"
    by (simp add: high_bit mask_bit bit_at_def)
  have s7: "Suc ?t div 8 = (if ?t mod 8 = 7 then Suc (?t div 8) else ?t div 8)" by presburger
  have same: "p\<lparr>iTotalBitIndex := a\<rparr> = p\<lparr>iTotalBitIndex := a, pByte := ?t div 8\<rparr>" for a
    using assms(3) by (cases p) simp
  show ?thesis
    unfolding get_next_bit_def using d v same assms(1,3) by (simp add: Let_def s7)
qed

lemma buffered_u1:
  assumes "iTotalBitIndex p < iTrailingBitOneIndex p" "iTrailingBitOneIndex p \<le> 8 * length (pBuffer p)"
    and "pByte p = iTotalBitIndex p div 8" "iTrailingBitOneIndexConceal p = iTrailingBitOneIndex p"
  shows "u 1 p = Some (if bit_at (pBuffer p) (iTotalBitIndex p) then 1 else 0,
    p\<lparr>iTotalBitIndex := iTotalBitIndex p + 1, pByte := (iTotalBitIndex p + 1) div 8\<rparr>)"
  using buffered_next_bit [OF assms(1-3)] assms(1,4) by (simp add: u_def more_rbsp_data_conceal_def)

lemma zero_bits_law:
  "iTotalBitIndex p \<le> iTrailingBitOneIndex p \<Longrightarrow> iTrailingBitOneIndex p \<le> 8 * length (pBuffer p) \<Longrightarrow>
   pByte p = iTotalBitIndex p div 8 \<Longrightarrow> iTrailingBitOneIndexConceal p = iTrailingBitOneIndex p \<Longrightarrow>
   8 dvd iTrailingBitOneIndex p \<Longrightarrow>
   \<exists>b q. zero_bits_loop p = Some (b, q)
     \<and> ((\<forall>k. iTotalBitIndex p \<le> k \<and> k < iTrailingBitOneIndex p \<longrightarrow> \<not> bit_at (pBuffer p) k) \<longrightarrow> b)"
proof (induction "iTrailingBitOneIndex p - iTotalBitIndex p" arbitrary: p rule: less_induct)
  case less
  show ?case
  proof (cases "byte_aligned p")
    case True
    then show ?thesis by (intro exI [of _ True]) (simp add: zero_bits_loop.simps [of p])
  next
    case False
    then have lt: "iTotalBitIndex p < iTrailingBitOneIndex p"
      using less.prems(1,5) by (metis byte_aligned_def dvd_imp_mod_0 le_neq_implies_less)
    let ?q = "p\<lparr>iTotalBitIndex := iTotalBitIndex p + 1, pByte := (iTotalBitIndex p + 1) div 8\<rparr>"
    note u1 = buffered_u1 [OF lt less.prems(2-4)]
    show ?thesis
    proof (cases "bit_at (pBuffer p) (iTotalBitIndex p)")
      case True
      with False u1 lt show ?thesis by (auto simp: zero_bits_loop.simps [of p])
    next
      case z: False
      have d: "iTrailingBitOneIndex ?q - iTotalBitIndex ?q < iTrailingBitOneIndex p - iTotalBitIndex p" using lt by simp
      from less.hyps [OF d] less.prems lt obtain b q where
        bq: "zero_bits_loop ?q = Some (b, q)"
          "(\<forall>k. iTotalBitIndex ?q \<le> k \<and> k < iTrailingBitOneIndex ?q \<longrightarrow> \<not> bit_at (pBuffer ?q) k) \<longrightarrow> b" by auto
      with False u1 z show ?thesis by (auto simp: zero_bits_loop.simps [of p])
    qed
  qed
qed

text \<open>Everything was fetched: the bits behind the data are the stop bit and zeros.\<close>

lemma last_one_bit: "0 < last_one X \<Longrightarrow> bit_at X (last_one X)"
proof -
  have "0 < last_bit f k \<Longrightarrow> f (last_bit f k)" for f k by (induction k) (auto split: if_splits)
  then show "0 < last_one X \<Longrightarrow> bit_at X (last_one X)" unfolding last_one_def by blast
qed

lemma beyond_last_one: "last_one X < k \<Longrightarrow> k < 8 * length X \<Longrightarrow> \<not> bit_at X k"
proof -
  have "last_bit f n < k \<Longrightarrow> k \<le> n \<Longrightarrow> \<not> f k" for f n by (induction n) (auto split: if_splits simp: le_Suc_eq)
  from this [of "\<lambda>k. k < 8 * length X \<and> bit_at X k" "8 * length X"]
  show "last_one X < k \<Longrightarrow> k < 8 * length X \<Longrightarrow> \<not> bit_at X k" unfolding last_one_def by simp
qed

lemma rbsp_trailing_law:
  assumes s: "src X p []" "0 < last_one X"
  shows "\<exists>b q. rbsp_trailing_bits p = Some (b, q) \<and> (finished_fetching p \<longrightarrow> b)"
proof -
  from s(1) have p: "rp_inv p X" "rest X p = []" by (simp_all add: src_def)
  note rb = rp_bounds [OF p(1)]
  have t: "iTotalBitIndex p = last_one X" using rest_take(1) [of X p] p(2) rb(1) by simp
  let ?d = "pBuffer p" let ?e = "((last_one X + 8) div 8) * 8"
  have ll: "last_one X < 8 * length X" using last_one_less [of X] s(2) by simp
  have le: "?e \<le> 8 * length X" using ll by presburger
  have eb: "last_one X < ?e" by presburger
  have len: "iTrailingBitOneIndex p div 8 < length ?d"
  proof (cases "finished_fetching p")
    case True
    then show ?thesis using p(1) ll rb(7) by (auto simp: rp_inv_def)
  next
    case False
    then have f: "fetching p X" using p(1) by (simp add: rp_inv_def)
    then have "length (emitted p) \<le> length X" by (auto simp: fetching_def)
    with emitted_length [OF f] rb(7) show ?thesis by simp
  qed
  define i where "i = last_bit (bit_at ?d) (iTrailingBitOneIndex p)"
  define e where "e = (if i < last_one X then last_one X else i)"
  have rm: "remove_trailing_bits p = Some (p\<lparr>iTrailingBitOneIndex := e, iTrailingBitOneIndexConceal := ((e + 8) div 8) * 8\<rparr>)"
    using trailing_loop_eq [OF len] by (simp add: remove_trailing_bits_def i_def e_def t Let_def)
  show ?thesis
  proof (cases "e = last_one X")
    case False
    have "\<not> finished_fetching p"
    proof
      assume fin: "finished_fetching p"
      then have "iTrailingBitOneIndex p = last_one X" using p(1) by (simp add: rp_inv_def)
      then have "i \<le> last_one X" using last_bit_le [of "bit_at ?d" "last_one X"] by (simp add: i_def)
      with False show False by (auto simp: e_def split: if_splits)
    qed
    with False t rm show ?thesis by (intro exI [of _ False]) (simp add: rbsp_trailing_bits_def)
  next
    case True
    let ?p = "p\<lparr>iTrailingBitOneIndexConceal := ?e, iTrailingBitOneIndex := ?e\<rparr>"
    have dl: "?e \<le> 8 * length ?d" using le rb(7) by linarith
    have u1: "u 1 ?p = Some (if bit_at ?d (last_one X) then 1 else 0,
        ?p\<lparr>iTotalBitIndex := last_one X + 1, pByte := (last_one X + 1) div 8\<rparr>)"
      using buffered_u1 [of ?p] eb dl rb(5) t by simp
    let ?q = "?p\<lparr>iTotalBitIndex := last_one X + 1, pByte := (last_one X + 1) div 8\<rparr>"
    have "\<exists>b q. zero_bits_loop ?q = Some (b, q)
      \<and> ((\<forall>k. last_one X + 1 \<le> k \<and> k < ?e \<longrightarrow> \<not> bit_at ?d k) \<longrightarrow> b)"
      using zero_bits_law [of ?q] eb dl by simp
    then obtain b q where z: "zero_bits_loop ?q = Some (b, q)"
      "(\<forall>k. last_one X + 1 \<le> k \<and> k < ?e \<longrightarrow> \<not> bit_at ?d k) \<longrightarrow> b" by blast
    have fin: "bit_at ?d (last_one X) \<and> b" if f: "finished_fetching p"
    proof -
      have h: "holds ?d X" using p(1) f by (simp add: rp_inv_def)
      have "bit_at ?d (last_one X)" using holds_bit [OF h, of "last_one X"] ll last_one_bit [OF s(2)] rb(7) by auto
      moreover have "\<not> bit_at ?d k" if "last_one X + 1 \<le> k" "k < ?e" for k
        using holds_bit [OF h, of k] beyond_last_one [of X k] that dl by auto
      ultimately show ?thesis using z(2) by blast
    qed
    have run: "rbsp_trailing_bits p = (if bit_at ?d (last_one X) then Some (b, q) else Some (False, ?q))"
      using rm True t u1 z(1) by (simp add: rbsp_trailing_bits_def Let_def)
    show ?thesis using fin by (cases "bit_at ?d (last_one X)") (auto simp: run)
  qed
qed

end
