(* ===== verification/AvcPps.thy ===== *)
theory AvcPps imports AvcRoundtrip TrailingBits begin

text \<open>
  The AVC picture parameter set: the writer of lib_bitstream/AVC_RbspEncod.c and the parser of
  lib_parsing/AvcParser.c.  Members whose names the SPS has too carry the prefix \<open>pps_\<close>.  The parser's local
  structure is not initialised: its content before is the argument \<open>tempPPS\<close>.  The pointer to the SPS is its
  index in the decoder's table; the writer gets the SPS it points to, or none.
\<close>

section \<open>Structures\<close>

definition AL_AVC_MAX_PPS :: nat where "AL_AVC_MAX_PPS = 256"
definition AL_AVC_MAX_REF_IDX :: int where "AL_AVC_MAX_REF_IDX = 15"
definition AL_MAX_WP_IDC :: int where "AL_MAX_WP_IDC = 2"
definition AL_MIN_INIT_QP :: int where "AL_MIN_INIT_QP = - 26"
definition AL_MAX_INIT_QP :: int where "AL_MAX_INIT_QP = 25"
definition AL_MIN_QP_OFFSET :: int where "AL_MIN_QP_OFFSET = - 12"
definition AL_MAX_QP_OFFSET :: int where "AL_MAX_QP_OFFSET = 12"

text \<open>A value assigned to an \<open>int8_t\<close>.\<close>

definition int8 :: "int \<Rightarrow> int" where
  "int8 v = sint (of_int v :: 8 word)"

record AL_TAvcPps =
  pic_parameter_set_id :: u8
  pps_seq_parameter_set_id :: u8
  entropy_coding_mode_flag :: u8
  bottom_field_pic_order_in_frame_present_flag :: u8
  num_slice_groups_minus1 :: int
  slice_group_map_type :: u8
  run_length_minus1 :: "u16 list"
  top_left :: "u16 list"
  bottom_right :: "u16 list"
  slice_group_change_direction_flag :: u8
  slice_group_change_rate_minus1 :: u16
  pic_size_in_map_units_minus1 :: u16
  slice_group_id :: "int list"
  num_ref_idx_l0_active_minus1 :: u8
  num_ref_idx_l1_active_minus1 :: u8
  weighted_pred_flag :: u8
  weighted_bipred_idc :: u8
  pic_init_qp_minus26 :: int
  pic_init_qs_minus26 :: int
  chroma_qp_index_offset :: int
  second_chroma_qp_index_offset :: int
  deblocking_filter_control_present_flag :: u8
  constrained_intra_pred_flag :: u8
  redundant_pic_cnt_present_flag :: u8
  transform_8x8_mode_flag :: u8
  pic_scaling_matrix_present_flag :: u8
  pic_scaling_list_present_flag :: "u8 list"
  pps_ScalingList4x4 :: "u8 list list"
  pps_ScalingList8x8 :: "u8 list list"
  pps_UseDefaultScalingMatrix4x4Flag :: "u8 list"
  pps_UseDefaultScalingMatrix8x8Flag :: "u8 list"
  pps_pSPS :: nat
  pps_bConceal :: bool

section \<open>The writer\<close>

definition write_pps_data :: "AL_TAvcPps \<Rightarrow> AL_TAvcSps option \<Rightarrow> AL_TBitStreamLite \<Rightarrow> AL_TBitStreamLite option" where
  "write_pps_data pPps pSPS pBS =
     do { s1 \<leftarrow> put_ue (pic_parameter_set_id pPps) pBS;
          s2 \<leftarrow> put_ue (pps_seq_parameter_set_id pPps) s1;
          s3 \<leftarrow> put_u 1 (entropy_coding_mode_flag pPps) s2;
          s4 \<leftarrow> put_u 1 (bottom_field_pic_order_in_frame_present_flag pPps) s3;
          s5 \<leftarrow> AL_BitStreamLite_PutUE (of_int (num_slice_groups_minus1 pPps)) s4;
          s6 \<leftarrow> assert_that (num_slice_groups_minus1 pPps = 0) s5;
          s7 \<leftarrow> put_ue (num_ref_idx_l0_active_minus1 pPps) s6;
          s8 \<leftarrow> put_ue (num_ref_idx_l1_active_minus1 pPps) s7;
          s9 \<leftarrow> put_u 1 (weighted_pred_flag pPps) s8;
          s10 \<leftarrow> put_u 2 (weighted_bipred_idc pPps) s9;
          s11 \<leftarrow> AL_BitStreamLite_PutSE (pic_init_qp_minus26 pPps) s10;
          s12 \<leftarrow> AL_BitStreamLite_PutSE (pic_init_qs_minus26 pPps) s11;
          s13 \<leftarrow> assert_that (chroma_qp_index_offset pPps \<ge> - 12 \<and> chroma_qp_index_offset pPps \<le> 12) s12;
          s14 \<leftarrow> AL_BitStreamLite_PutSE (chroma_qp_index_offset pPps) s13;
          s15 \<leftarrow> put_u 1 (deblocking_filter_control_present_flag pPps) s14;
          s16 \<leftarrow> put_u 1 (constrained_intra_pred_flag pPps) s15;
          s17 \<leftarrow> put_u 1 (redundant_pic_cnt_present_flag pPps) s16;
          if transform_8x8_mode_flag pPps \<noteq> 0 \<or> second_chroma_qp_index_offset pPps \<noteq> chroma_qp_index_offset pPps
          then do { t1 \<leftarrow> put_u 1 (transform_8x8_mode_flag pPps) s17;
                            t2 \<leftarrow> put_u 1 (pic_scaling_matrix_present_flag pPps) t1;
                            sps \<leftarrow> pSPS;
                            t3 \<leftarrow> writeScalingMatrix (pic_scaling_matrix_present_flag pPps) sps t2;
                            t4 \<leftarrow> assert_that (second_chroma_qp_index_offset pPps \<ge> - 12
                                             \<and> second_chroma_qp_index_offset pPps \<le> 12) t3;
                            AL_BitStreamLite_PutSE (second_chroma_qp_index_offset pPps) t4 }
          else Some s17 }"

definition writePps :: "AL_TAvcPps \<Rightarrow> AL_TAvcSps option \<Rightarrow> AL_TBitStreamLite \<Rightarrow> AL_TBitStreamLite option" where
  "writePps pPps pSPS pBS =
     do { s1 \<leftarrow> write_pps_data pPps pSPS pBS;
          s2 \<leftarrow> AL_BitStreamLite_PutU 1 1 s1;
          AL_BitStreamLite_AlignWithBits 0 s2 }"

section \<open>The parser\<close>

definition initPps :: "AL_TAvcPps \<Rightarrow> AL_TAvcPps" where
  "initPps t = t\<lparr>pps_UseDefaultScalingMatrix4x4Flag := replicate 6 0, pps_UseDefaultScalingMatrix8x8Flag := replicate 2 0,
     transform_8x8_mode_flag := 0, pic_scaling_matrix_present_flag := 0, pps_bConceal := True\<rparr>"

text \<open>The loops over the slice groups; \<open>k\<close> turns are left.\<close>

fun run_length_loop :: "nat \<Rightarrow> nat \<Rightarrow> u16 list \<Rightarrow> AL_TRbspParser \<Rightarrow> (u16 list \<times> AL_TRbspParser) option" where
  "run_length_loop 0 i xs p = Some (xs, p)"
| "run_length_loop (Suc k) i xs p =
     do { (v, p1) \<leftarrow> get_ue p; ys \<leftarrow> set_at xs i v; run_length_loop k (i + 1) ys p1 }"

fun rectangles_loop ::
    "nat \<Rightarrow> nat \<Rightarrow> u16 list \<Rightarrow> u16 list \<Rightarrow> AL_TRbspParser \<Rightarrow> ((u16 list \<times> u16 list) \<times> AL_TRbspParser) option" where
  "rectangles_loop 0 i xs ys p = Some ((xs, ys), p)"
| "rectangles_loop (Suc k) i xs ys p =
     do { (v, p1) \<leftarrow> get_ue p; xs1 \<leftarrow> set_at xs i v;
          (w, p2) \<leftarrow> get_ue p1; ys1 \<leftarrow> set_at ys i w;
          rectangles_loop k (i + 1) xs1 ys1 p2 }"

text \<open>The number of bits is the argument of type \<open>uint8_t\<close>.\<close>

fun group_id_loop :: "nat \<Rightarrow> nat \<Rightarrow> nat \<Rightarrow> int list \<Rightarrow> AL_TRbspParser \<Rightarrow> (int list \<times> AL_TRbspParser) option" where
  "group_id_loop 0 i bits xs p = Some (xs, p)"
| "group_id_loop (Suc k) i bits xs p =
     do { (v, p1) \<leftarrow> u (bits mod 256) p; ys \<leftarrow> set_at xs i (sint v); group_id_loop k (i + 1) bits ys p1 }"

definition pps_slice_groups :: "AL_TAvcPps \<Rightarrow> AL_TRbspParser \<Rightarrow> (AL_TAvcPps \<times> AL_TRbspParser) option" where
  "pps_slice_groups t p =
     (if num_slice_groups_minus1 t > 0
      then do { (mt, p1) \<leftarrow> get_ue p;
                let t1 = t\<lparr>slice_group_map_type := mt\<rparr>;
                let n = nat (num_slice_groups_minus1 t + 1);
                if mt = 0
                then do { (xs, p2) \<leftarrow> run_length_loop n 0 (run_length_minus1 t) p1;
                          Some (t1\<lparr>run_length_minus1 := xs\<rparr>, p2) }
                else if mt = 2
                then do { ((xs, ys), p2) \<leftarrow> rectangles_loop n 0 (top_left t) (bottom_right t) p1;
                          Some (t1\<lparr>top_left := xs, bottom_right := ys\<rparr>, p2) }
                else if mt = 3 \<or> mt = 4 \<or> mt = 5
                then do { (d, p2) \<leftarrow> get_u 1 p1;
                          (r, p3) \<leftarrow> get_ue p2;
                          Some (t1\<lparr>slice_group_change_direction_flag := d, slice_group_change_rate_minus1 := r\<rparr>, p3) }
                else if mt = 6
                then do { (s, p2) \<leftarrow> get_ue p1;
                          (xs, p3) \<leftarrow> group_id_loop (unat s + 1) 0 (unat s + 1) (slice_group_id t) p2;
                          Some (t1\<lparr>pic_size_in_map_units_minus1 := s, slice_group_id := xs\<rparr>, p3) }
                else Some (t1, p1) }
      else Some (t, p))"

definition pps_read_list :: "nat \<Rightarrow> AL_TAvcPps \<Rightarrow> AL_TRbspParser \<Rightarrow> (AL_TAvcPps \<times> AL_TRbspParser) option" where
  "pps_read_list i t p =
     (if i < 6
      then do { l \<leftarrow> at (pps_ScalingList4x4 t) i;
                d \<leftarrow> at (pps_UseDefaultScalingMatrix4x4Flag t) i;
                ((l1, d1), q) \<leftarrow> avc_scaling_list_data l 16 d p;
                Some (t\<lparr>pps_ScalingList4x4 := (pps_ScalingList4x4 t)[i := l1],
                        pps_UseDefaultScalingMatrix4x4Flag := (pps_UseDefaultScalingMatrix4x4Flag t)[i := d1]\<rparr>, q) }
      else do { l \<leftarrow> at (pps_ScalingList8x8 t) (i - 6);
                d \<leftarrow> at (pps_UseDefaultScalingMatrix8x8Flag t) (i - 6);
                ((l1, d1), q) \<leftarrow> avc_scaling_list_data l 64 d p;
                Some (t\<lparr>pps_ScalingList8x8 := (pps_ScalingList8x8 t)[i - 6 := l1],
                        pps_UseDefaultScalingMatrix8x8Flag := (pps_UseDefaultScalingMatrix8x8Flag t)[i - 6 := d1]\<rparr>, q) })"

definition pps_default4 :: "nat \<Rightarrow> AL_TAvcPps \<Rightarrow> AL_TAvcPps option" where
  "pps_default4 i t =
     do { d \<leftarrow> set_at (pps_UseDefaultScalingMatrix4x4Flag t) i 1; Some (t\<lparr>pps_UseDefaultScalingMatrix4x4Flag := d\<rparr>) }"

definition pps_default8 :: "nat \<Rightarrow> AL_TAvcPps \<Rightarrow> AL_TAvcPps option" where
  "pps_default8 i t =
     do { d \<leftarrow> set_at (pps_UseDefaultScalingMatrix8x8Flag t) i 1; Some (t\<lparr>pps_UseDefaultScalingMatrix8x8Flag := d\<rparr>) }"

text \<open>The list before it.\<close>

definition pps_previous :: "nat \<Rightarrow> AL_TAvcPps \<Rightarrow> AL_TAvcPps option" where
  "pps_previous i t =
     do { f \<leftarrow> at (pps_UseDefaultScalingMatrix4x4Flag t) (i - 1);
          if f \<noteq> 0 then pps_default4 i t
          else do { l \<leftarrow> at (pps_ScalingList4x4 t) (i - 1);
                    ls \<leftarrow> set_at (pps_ScalingList4x4 t) i l;
                    Some (t\<lparr>pps_ScalingList4x4 := ls\<rparr>) } }"

text \<open>The list of the SPS.\<close>

definition pps_from_sps :: "nat \<Rightarrow> AL_TAvcSps \<Rightarrow> AL_TAvcPps \<Rightarrow> AL_TAvcPps option" where
  "pps_from_sps i s t =
     (if i < 6
      then do { f \<leftarrow> at (UseDefaultScalingMatrix4x4Flag s) i;
                if f \<noteq> 0 then pps_default4 i t
                else do { l \<leftarrow> at (ScalingList4x4 s) i;
                          ls \<leftarrow> set_at (pps_ScalingList4x4 t) i l;
                          Some (t\<lparr>pps_ScalingList4x4 := ls\<rparr>) } }
      else do { f \<leftarrow> at (UseDefaultScalingMatrix8x8Flag s) (i - 6);
                if f \<noteq> 0 then pps_default8 (i - 6) t
                else do { l \<leftarrow> at (ScalingList8x8 s) (i - 6);
                          ls \<leftarrow> set_at (pps_ScalingList8x8 t) (i - 6) l;
                          Some (t\<lparr>pps_ScalingList8x8 := ls\<rparr>) } })"

definition pps_fall_back :: "nat \<Rightarrow> AL_TAvcSps \<Rightarrow> AL_TAvcPps \<Rightarrow> AL_TAvcPps option" where
  "pps_fall_back i s t =
     (if seq_scaling_matrix_present_flag s = 0
      then if i < 6 then if i = 0 \<or> i = 3 then pps_default4 i t else pps_previous i t else pps_default8 (i - 6) t
      else if i < 6 \<and> \<not> (i = 0 \<or> i = 3) then pps_previous i t else pps_from_sps i s t)"

definition pps_scaling_list :: "nat \<Rightarrow> AL_TAvcSps \<Rightarrow> AL_TAvcPps \<Rightarrow> AL_TRbspParser \<Rightarrow> (AL_TAvcPps \<times> AL_TRbspParser) option" where
  "pps_scaling_list i s t p =
     do { t1 \<leftarrow> (if i < 6
                 then do { d \<leftarrow> set_at (pps_UseDefaultScalingMatrix4x4Flag t) i 0;
                           Some (t\<lparr>pps_UseDefaultScalingMatrix4x4Flag := d\<rparr>) }
                 else do { d \<leftarrow> set_at (pps_UseDefaultScalingMatrix8x8Flag t) (i - 6) 0;
                           Some (t\<lparr>pps_UseDefaultScalingMatrix8x8Flag := d\<rparr>) });
          (f, p1) \<leftarrow> get_u 1 p;
          fs \<leftarrow> set_at (pic_scaling_list_present_flag t1) i f;
          if f \<noteq> 0 then pps_read_list i (t1\<lparr>pic_scaling_list_present_flag := fs\<rparr>) p1
          else do { t2 \<leftarrow> pps_fall_back i s (t1\<lparr>pic_scaling_list_present_flag := fs\<rparr>); Some (t2, p1) } }"

fun pps_scaling_lists :: "nat list \<Rightarrow> AL_TAvcSps \<Rightarrow> AL_TAvcPps \<Rightarrow> AL_TRbspParser \<Rightarrow> (AL_TAvcPps \<times> AL_TRbspParser) option" where
  "pps_scaling_lists [] s t p = Some (t, p)"
| "pps_scaling_lists (i # is) s t p =
     do { (t1, p1) \<leftarrow> pps_scaling_list i s t p; pps_scaling_lists is s t1 p1 }"

fun pps_all_from_sps :: "nat list \<Rightarrow> AL_TAvcSps \<Rightarrow> AL_TAvcPps \<Rightarrow> AL_TAvcPps option" where
  "pps_all_from_sps [] s t = Some t"
| "pps_all_from_sps (i # is) s t = do { t1 \<leftarrow> pps_from_sps i s t; pps_all_from_sps is s t1 }"

text \<open>From \<open>num_ref_idx_l0_active_minus1\<close> to the flags; \<open>Clip3\<close> takes signed numbers.\<close>

definition pps_qp :: "AL_TAvcSps \<Rightarrow> AL_TAvcPps \<Rightarrow> AL_TRbspParser \<Rightarrow> (AL_TAvcPps \<times> AL_TRbspParser) option" where
  "pps_qp s t p =
     do { (l0, p1) \<leftarrow> get_ue_int p;
          (l1, p2) \<leftarrow> get_ue_int p1;
          (wp, p3) \<leftarrow> get_u 1 p2;
          (wb, p4) \<leftarrow> u 2 p3;
          let QpBdOffset = (6 * uint (bit_depth_luma_minus8 s)) mod 65536;
          (qp, p5) \<leftarrow> se p4;
          (qs, p6) \<leftarrow> se p5;
          (co, p7) \<leftarrow> se p6;
          (df, p8) \<leftarrow> get_u 1 p7;
          (ci, p9) \<leftarrow> get_u 1 p8;
          p10 \<leftarrow> skip 1 p9;
          let cqo = int8 (Clip3 co AL_MIN_QP_OFFSET AL_MAX_QP_OFFSET);
          Some (t\<lparr>num_ref_idx_l0_active_minus1 := of_int (Clip3 l0 0 AL_AVC_MAX_REF_IDX),
                  num_ref_idx_l1_active_minus1 := of_int (Clip3 l1 0 AL_AVC_MAX_REF_IDX),
                  weighted_pred_flag := wp, weighted_bipred_idc := of_int (Clip3 (sint wb) 0 AL_MAX_WP_IDC),
                  pic_init_qp_minus26 := int8 (Clip3 qp (- (26 + QpBdOffset)) AL_MAX_INIT_QP),
                  pic_init_qs_minus26 := int8 (Clip3 qs AL_MIN_INIT_QP AL_MAX_INIT_QP),
                  chroma_qp_index_offset := cqo, second_chroma_qp_index_offset := cqo,
                  deblocking_filter_control_present_flag := df, constrained_intra_pred_flag := ci,
                  redundant_pic_cnt_present_flag := 0\<rparr>, p10) }"

text \<open>The part that needs more data.\<close>

definition pps_extension :: "AL_TAvcSps \<Rightarrow> AL_TAvcPps \<Rightarrow> AL_TRbspParser \<Rightarrow> (AL_TAvcPps \<times> AL_TRbspParser) option" where
  "pps_extension s t p =
     do { (tm, p1) \<leftarrow> get_u 1 p;
          (sm, p2) \<leftarrow> get_u 1 p1;
          let t1 = t\<lparr>transform_8x8_mode_flag := tm, pic_scaling_matrix_present_flag := sm\<rparr>;
          (t2, p3) \<leftarrow> (if sm \<noteq> 0 then pps_scaling_lists [0..<6 + 2 * unat tm] s t1 p2
                      else do { t3 \<leftarrow> pps_all_from_sps [0..<8] s t1; Some (t3, p2) });
          (co, p4) \<leftarrow> se p3;
          Some (t2\<lparr>second_chroma_qp_index_offset := int8 (Clip3 co AL_MIN_INIT_QP AL_MAX_INIT_QP)\<rparr>, p4) }"

definition pps_tail :: "AL_TAvcSps \<Rightarrow> AL_TAvcPps \<Rightarrow> AL_TRbspParser \<Rightarrow> ((AL_PARSE_RESULT \<times> AL_TAvcPps) \<times> AL_TRbspParser) option" where
  "pps_tail s t p =
     do { (more, p1) \<leftarrow> more_rbsp_data p;
          (t1, p2) \<leftarrow> (if more then pps_extension s t p1
                      else do { t3 \<leftarrow> pps_all_from_sps [0..<8] s t; Some (t3, p1) });
          let t2 = (if transform_8x8_mode_flag t1 = 0
                    then t1\<lparr>pps_UseDefaultScalingMatrix8x8Flag := (pps_UseDefaultScalingMatrix8x8Flag t1)[1 := 1, 0 := 1]\<rparr>
                    else t1);
          (b, p3) \<leftarrow> rbsp_trailing_bits p2;
          let t3 = t2\<lparr>pps_bConceal := \<not> b\<rparr>;
          if num_slice_groups_minus1 t3 \<noteq> 0 then Some ((AL_CONCEAL, t3), p3) else Some ((AL_OK, t3), p3) }"

text \<open>The function returns what it parsed into \<open>tempPPS\<close>; the table changes only on \<open>AL_OK\<close>.  The identifier is
  reported as soon as it is in range.\<close>

record AL_TAvcAup =
  pSPS :: "AL_TAvcSps list"
  pPPS :: "AL_TAvcPps list"
  pActiveSPS :: "nat option"

definition pps_body ::
    "AL_TAvcPps \<Rightarrow> AL_TAvcAup \<Rightarrow> AL_TRbspParser \<Rightarrow> ((AL_PARSE_RESULT \<times> AL_TAvcAup \<times> nat option) \<times> AL_TRbspParser) option" where
  "pps_body tempPPS pIAup p1 =
     do { (ppid, p2) \<leftarrow> (get_ue p1 :: (u16 \<times> AL_TRbspParser) option);
          if \<not> unat ppid < AL_AVC_MAX_PPS then Some ((AL_CONCEAL, pIAup, None), p2)
          else do { let pid = Some (unat ppid);
                    (sid, p3) \<leftarrow> (get_ue p2 :: (u8 \<times> AL_TRbspParser) option);
                    if \<not> sid < AL_AVC_MAX_SPS then Some ((AL_CONCEAL, pIAup, pid), p3)
                    else do { sps \<leftarrow> at (pSPS pIAup) (unat sid);
                              if bConceal sps then Some ((AL_CONCEAL, pIAup, pid), p3)
                              else do { (ec, p4) \<leftarrow> get_u 1 p3;
                                        (bf, p5) \<leftarrow> get_u 1 p4;
                                        (ng, p6) \<leftarrow> get_ue_int p5;
                                        let t1 = (initPps tempPPS)\<lparr>pic_parameter_set_id := ucast ppid,
                                                    pps_seq_parameter_set_id := sid, pps_pSPS := unat sid,
                                                    entropy_coding_mode_flag := ec,
                                                    bottom_field_pic_order_in_frame_present_flag := bf,
                                                    num_slice_groups_minus1 := ng\<rparr>;
                                        (t2, p7) \<leftarrow> pps_slice_groups t1 p6;
                                        (more, p8) \<leftarrow> more_rbsp_data p7;
                                        if \<not> more then Some ((AL_CONCEAL, pIAup, pid), p8)
                                        else do { (t3, p9) \<leftarrow> pps_qp sps t2 p8;
                                                  ((r, t4), p10) \<leftarrow> pps_tail sps t3 p9;
                                                  if r \<noteq> AL_OK then Some ((r, pIAup, pid), p10)
                                                  else do { tab \<leftarrow> set_at (pPPS pIAup) (unat ppid) t4;
                                                            Some ((AL_OK, pIAup\<lparr>pPPS := tab\<rparr>, pid), p10) } } } } } }"

definition AL_AVC_ParsePPS ::
    "AL_TAvcPps \<Rightarrow> AL_TAvcAup \<Rightarrow> AL_TRbspParser \<Rightarrow> ((AL_PARSE_RESULT \<times> AL_TAvcAup \<times> nat option) \<times> AL_TRbspParser) option" where
  "AL_AVC_ParsePPS tempPPS pIAup p =
     do { p0 \<leftarrow> skipAllZerosAndTheNextByte p; (_, p1) \<leftarrow> u 8 p0; pps_body tempPPS pIAup p1 }"

end
