(* ===== verification/AvcPpsLists.thy ===== *)
theory AvcPpsLists imports AvcPps begin

text \<open>
  The scaling lists of an AVC picture parameter set: the lists that are sent come back, the others fall back to
  the list before, the SPS or the default.
\<close>

definition pps_shape :: "AL_TAvcPps \<Rightarrow> bool" where
  "pps_shape t \<longleftrightarrow> length (pic_scaling_list_present_flag t) = 8
     \<and> length (pps_ScalingList4x4 t) = 6 \<and> (\<forall>i < 6. length (pps_ScalingList4x4 t ! i) = 16)
     \<and> length (pps_ScalingList8x8 t) = 2 \<and> (\<forall>i < 2. length (pps_ScalingList8x8 t ! i) = 64)
     \<and> length (pps_UseDefaultScalingMatrix4x4Flag t) = 6 \<and> length (pps_UseDefaultScalingMatrix8x8Flag t) = 2"

text \<open>The list of the SPS \<open>s\<close>, or its default.\<close>

definition from_sps :: "AL_TAvcSps \<Rightarrow> AL_TAvcPps \<Rightarrow> nat \<Rightarrow> bool" where
  "from_sps s t i \<longleftrightarrow>
     (if i < 6
      then if UseDefaultScalingMatrix4x4Flag s ! i \<noteq> 0 then pps_UseDefaultScalingMatrix4x4Flag t ! i = 1
           else pps_ScalingList4x4 t ! i = ScalingList4x4 s ! i \<and> pps_UseDefaultScalingMatrix4x4Flag t ! i = 0
      else if UseDefaultScalingMatrix8x8Flag s ! (i - 6) \<noteq> 0 then pps_UseDefaultScalingMatrix8x8Flag t ! (i - 6) = 1
           else pps_ScalingList8x8 t ! (i - 6) = ScalingList8x8 s ! (i - 6)
             \<and> pps_UseDefaultScalingMatrix8x8Flag t ! (i - 6) = 0)"

definition like_previous :: "AL_TAvcPps \<Rightarrow> nat \<Rightarrow> bool" where
  "like_previous t i \<longleftrightarrow>
     (if pps_UseDefaultScalingMatrix4x4Flag t ! (i - 1) \<noteq> 0 then pps_UseDefaultScalingMatrix4x4Flag t ! i = 1
      else pps_ScalingList4x4 t ! i = pps_ScalingList4x4 t ! (i - 1) \<and> pps_UseDefaultScalingMatrix4x4Flag t ! i = 0)"

text \<open>\<open>w\<close> holds the lists that were written, \<open>s\<close> is the SPS of the decoder.\<close>

definition pps_got :: "AL_TAvcSps \<Rightarrow> AL_TAvcSps \<Rightarrow> AL_TAvcPps \<Rightarrow> nat \<Rightarrow> bool" where
  "pps_got w s t i \<longleftrightarrow> pic_scaling_list_present_flag t ! i = seq_scaling_list_present_flag w ! i
     \<and> (seq_scaling_list_present_flag w ! i \<noteq> 0 \<longrightarrow>
          (if i < 6 then pps_ScalingList4x4 t ! i = take 16 (matrix_of w i) \<and> pps_UseDefaultScalingMatrix4x4Flag t ! i = 0
           else pps_ScalingList8x8 t ! (i - 6) = take 64 (matrix_of w i) \<and> pps_UseDefaultScalingMatrix8x8Flag t ! (i - 6) = 0))
     \<and> (seq_scaling_list_present_flag w ! i = 0 \<longrightarrow>
          (if i < 6 \<and> i \<notin> {0, 3} then like_previous t i
           else if seq_scaling_matrix_present_flag s \<noteq> 0 then from_sps s t i
           else if i < 6 then pps_UseDefaultScalingMatrix4x4Flag t ! i = 1
           else pps_UseDefaultScalingMatrix8x8Flag t ! (i - 6) = 1))"

definition no_pps_lists :: "AL_TAvcPps \<Rightarrow> AL_TAvcPps" where
  "no_pps_lists t = t\<lparr>pic_scaling_list_present_flag := [], pps_ScalingList4x4 := [], pps_ScalingList8x8 := [],
     pps_UseDefaultScalingMatrix4x4Flag := [], pps_UseDefaultScalingMatrix8x8Flag := []\<rparr>"

definition pps_kept :: "nat \<Rightarrow> AL_TAvcPps \<Rightarrow> AL_TAvcPps \<Rightarrow> bool" where
  "pps_kept i t t' \<longleftrightarrow> pps_shape t' \<and> no_pps_lists t' = no_pps_lists t
     \<and> (\<forall>j < i. \<forall>w s. (pps_got w s t j \<longrightarrow> pps_got w s t' j) \<and> (from_sps s t j \<longrightarrow> from_sps s t' j))
     \<and> (\<forall>j < 6. j \<noteq> i \<longrightarrow> pps_ScalingList4x4 t' ! j = pps_ScalingList4x4 t ! j
          \<and> pps_UseDefaultScalingMatrix4x4Flag t' ! j = pps_UseDefaultScalingMatrix4x4Flag t ! j)
     \<and> (\<forall>j < 8. 6 \<le> j \<and> j \<noteq> i \<longrightarrow> pps_UseDefaultScalingMatrix8x8Flag t' ! (j - 6) = pps_UseDefaultScalingMatrix8x8Flag t ! (j - 6))"

lemma pps_kept_trans: "pps_kept i t a \<Longrightarrow> pps_kept i a b \<Longrightarrow> pps_kept i t b"
  by (simp add: pps_kept_def)

lemma pps_set_flag_law:
  "pps_shape t \<Longrightarrow> i < 8 \<Longrightarrow>
   pps_kept i t (t\<lparr>pic_scaling_list_present_flag := (pic_scaling_list_present_flag t)[i := f]\<rparr>)"
  by (simp add: pps_kept_def pps_shape_def no_pps_lists_def pps_got_def from_sps_def like_previous_def)

lemma pps_set_list4_law:
  assumes "pps_shape t" "i < 6" "length l = 16"
  shows "pps_kept i t (t\<lparr>pps_ScalingList4x4 := (pps_ScalingList4x4 t)[i := l],
    pps_UseDefaultScalingMatrix4x4Flag := (pps_UseDefaultScalingMatrix4x4Flag t)[i := d]\<rparr>)"
  using assms unfolding pps_kept_def
  by (auto simp: pps_shape_def no_pps_lists_def pps_got_def from_sps_def like_previous_def nth_list_update)

lemma pps_set_list8_law:
  assumes "pps_shape t" "6 \<le> i" "i < 8" "length l = 64"
  shows "pps_kept i t (t\<lparr>pps_ScalingList8x8 := (pps_ScalingList8x8 t)[i - 6 := l],
    pps_UseDefaultScalingMatrix8x8Flag := (pps_UseDefaultScalingMatrix8x8Flag t)[i - 6 := d]\<rparr>)"
  using assms unfolding pps_kept_def
  by (auto simp: pps_shape_def no_pps_lists_def pps_got_def from_sps_def like_previous_def nth_list_update)

text \<open>One list: set the default, copy, or take the SPS's list.\<close>

lemma default4_law:
  assumes "pps_shape t" "i < 6"
  shows "\<exists>t'. pps_default4 i t = Some t' \<and> pps_kept i t t' \<and> pps_UseDefaultScalingMatrix4x4Flag t' ! i = 1
    \<and> pic_scaling_list_present_flag t' = pic_scaling_list_present_flag t"
proof -
  have "length (pps_ScalingList4x4 t ! i) = 16" "i < length (pps_UseDefaultScalingMatrix4x4Flag t)"
    using assms by (simp_all add: pps_shape_def)
  with pps_set_list4_law [OF assms, of "pps_ScalingList4x4 t ! i" 1] show ?thesis
    by (simp add: pps_default4_def set_at_def list_update_id)
qed

lemma default8_law:
  assumes "pps_shape t" "6 \<le> i" "i < 8"
  shows "\<exists>t'. pps_default8 (i - 6) t = Some t' \<and> pps_kept i t t' \<and> pps_UseDefaultScalingMatrix8x8Flag t' ! (i - 6) = 1
    \<and> pic_scaling_list_present_flag t' = pic_scaling_list_present_flag t"
proof -
  have "length (pps_ScalingList8x8 t ! (i - 6)) = 64" "i - 6 < length (pps_UseDefaultScalingMatrix8x8Flag t)"
    using assms by (simp_all add: pps_shape_def)
  with pps_set_list8_law [OF assms, of "pps_ScalingList8x8 t ! (i - 6)" 1] show ?thesis
    by (simp add: pps_default8_def set_at_def list_update_id)
qed

lemma previous_law:
  assumes t: "pps_shape t" "i < 6" "i \<notin> {0, 3}" "pps_UseDefaultScalingMatrix4x4Flag t ! i = 0"
  shows "\<exists>t'. pps_previous i t = Some t' \<and> pps_kept i t t' \<and> like_previous t' i
    \<and> pic_scaling_list_present_flag t' = pic_scaling_list_present_flag t"
proof (cases "pps_UseDefaultScalingMatrix4x4Flag t ! (i - 1) = 0")
  case True
  have l: "length (pps_ScalingList4x4 t ! (i - 1)) = 16" "i < length (pps_ScalingList4x4 t)"
    "i - 1 < length (pps_UseDefaultScalingMatrix4x4Flag t)" "i < length (pps_UseDefaultScalingMatrix4x4Flag t)"
    using t by (simp_all add: pps_shape_def)
  let ?t = "t\<lparr>pps_ScalingList4x4 := (pps_ScalingList4x4 t)[i := pps_ScalingList4x4 t ! (i - 1)]\<rparr>"
  have "pps_UseDefaultScalingMatrix4x4Flag t = (pps_UseDefaultScalingMatrix4x4Flag t)[i := pps_UseDefaultScalingMatrix4x4Flag t ! i]"
    by simp
  with pps_set_list4_law [OF t(1,2) l(1), of "pps_UseDefaultScalingMatrix4x4Flag t ! i"] have k: "pps_kept i t ?t" by simp
  have "pps_previous i t = Some ?t" using True l t by (simp add: pps_previous_def at_def set_at_def)
  moreover have "like_previous ?t i" using True t l by (auto simp: like_previous_def)
  ultimately show ?thesis using k by auto
next
  case False
  have l: "i - 1 < length (pps_UseDefaultScalingMatrix4x4Flag t)" "i - 1 < 6" "i - 1 \<noteq> i" using t by (auto simp: pps_shape_def)
  from default4_law [OF t(1,2)] obtain t' where
    t': "pps_default4 i t = Some t'" "pps_kept i t t'" "pps_UseDefaultScalingMatrix4x4Flag t' ! i = 1"
      "pic_scaling_list_present_flag t' = pic_scaling_list_present_flag t" by blast
  have "pps_UseDefaultScalingMatrix4x4Flag t' ! (i - 1) = pps_UseDefaultScalingMatrix4x4Flag t ! (i - 1)"
    using t'(2) l(2,3) unfolding pps_kept_def by blast
  with t' False l show ?thesis by (auto simp: pps_previous_def at_def like_previous_def)
qed

lemma from_sps_law:
  assumes t: "pps_shape t" "i < 8" "lists_shape s"
    and d: "i < 6 \<Longrightarrow> pps_UseDefaultScalingMatrix4x4Flag t ! i = 0" "6 \<le> i \<Longrightarrow> pps_UseDefaultScalingMatrix8x8Flag t ! (i - 6) = 0"
  shows "\<exists>t'. pps_from_sps i s t = Some t' \<and> pps_kept i t t' \<and> from_sps s t' i
    \<and> pic_scaling_list_present_flag t' = pic_scaling_list_present_flag t"
proof (cases "i < 6")
  case True
  have l: "i < length (UseDefaultScalingMatrix4x4Flag s)" "i < length (ScalingList4x4 s)" "length (ScalingList4x4 s ! i) = 16"
    "i < length (pps_ScalingList4x4 t)" "i < length (pps_UseDefaultScalingMatrix4x4Flag t)"
    using t True by (simp_all add: lists_shape_def pps_shape_def)
  show ?thesis
  proof (cases "UseDefaultScalingMatrix4x4Flag s ! i = 0")
    case f: True
    let ?t = "t\<lparr>pps_ScalingList4x4 := (pps_ScalingList4x4 t)[i := ScalingList4x4 s ! i]\<rparr>"
    from pps_set_list4_law [OF t(1) True l(3), of "pps_UseDefaultScalingMatrix4x4Flag t ! i"]
    have k: "pps_kept i t ?t" by simp
    have "pps_from_sps i s t = Some ?t" using True f l by (simp add: pps_from_sps_def at_def set_at_def)
    with k True f l d show ?thesis by (auto simp: from_sps_def)
  next
    case False
    from default4_law [OF t(1) True] False True l(1) show ?thesis by (auto simp: pps_from_sps_def at_def from_sps_def)
  qed
next
  case False
  then have i: "6 \<le> i" by simp
  have l: "i - 6 < length (UseDefaultScalingMatrix8x8Flag s)" "i - 6 < length (ScalingList8x8 s)"
    "length (ScalingList8x8 s ! (i - 6)) = 64"
    "i - 6 < length (pps_ScalingList8x8 t)" "i - 6 < length (pps_UseDefaultScalingMatrix8x8Flag t)"
    using t False by (simp_all add: lists_shape_def pps_shape_def)
  show ?thesis
  proof (cases "UseDefaultScalingMatrix8x8Flag s ! (i - 6) = 0")
    case f: True
    let ?t = "t\<lparr>pps_ScalingList8x8 := (pps_ScalingList8x8 t)[i - 6 := ScalingList8x8 s ! (i - 6)]\<rparr>"
    from pps_set_list8_law [OF t(1) i t(2) l(3), of "pps_UseDefaultScalingMatrix8x8Flag t ! (i - 6)"]
    have k: "pps_kept i t ?t" by simp
    have "pps_from_sps i s t = Some ?t" using False f l by (simp add: pps_from_sps_def at_def set_at_def)
    with k False f l d show ?thesis by (auto simp: from_sps_def)
  next
    case f: False
    from default8_law [OF t(1) i t(2)] f False l(1) show ?thesis by (auto simp: pps_from_sps_def at_def from_sps_def)
  qed
qed

lemma pps_fall_back_law:
  assumes t: "pps_shape t" "i < 8" "lists_shape s"
    and f: "pic_scaling_list_present_flag t ! i = 0" "seq_scaling_list_present_flag w ! i = 0"
    and d: "i < 6 \<Longrightarrow> pps_UseDefaultScalingMatrix4x4Flag t ! i = 0" "6 \<le> i \<Longrightarrow> pps_UseDefaultScalingMatrix8x8Flag t ! (i - 6) = 0"
  shows "\<exists>t'. pps_fall_back i s t = Some t' \<and> pps_kept i t t' \<and> pps_got w s t' i"
proof -
  consider "i < 6" "i \<notin> {0, 3}" | "\<not> (i < 6 \<and> i \<notin> {0, 3})" "seq_scaling_matrix_present_flag s \<noteq> 0"
    | "i < 6" "i \<in> {0, 3}" "seq_scaling_matrix_present_flag s = 0" | "6 \<le> i" "seq_scaling_matrix_present_flag s = 0"
    by (cases "i < 6"; cases "seq_scaling_matrix_present_flag s = 0"; cases "i \<in> {0, 3}") auto
  then show ?thesis
  proof cases
    case 1
    with previous_law [OF t(1) 1 d(1)] f show ?thesis by (auto simp: pps_fall_back_def pps_got_def)
  next
    case 2
    with from_sps_law [OF t d] f show ?thesis by (auto simp: pps_fall_back_def pps_got_def)
  next
    case 3
    with default4_law [OF t(1) 3(1)] f show ?thesis by (auto simp: pps_fall_back_def pps_got_def)
  next
    case 4
    with default8_law [OF t(1) 4(1) t(2)] f show ?thesis by (auto simp: pps_fall_back_def pps_got_def)
  qed
qed

lemma pps_read_list_law:
  assumes t: "pps_shape t" "i < 8" "pic_scaling_list_present_flag t ! i = seq_scaling_list_present_flag w ! i"
    and w: "seq_scaling_list_present_flag w ! i \<noteq> 0" "sendable (list_size i) (matrix_of w i)"
  shows "\<exists>t'. reads (pps_read_list i t) (scaling_elems (scan (list_size i)) (matrix_of w i) 8) t'
    \<and> pps_kept i t t' \<and> pps_got w s t' i"
proof (cases "i < 6")
  case True
  then have k: "i < length (pps_ScalingList4x4 t)" "i < length (pps_UseDefaultScalingMatrix4x4Flag t)"
      "length (pps_ScalingList4x4 t ! i) = 16" "list_size i = 16"
    using t(1) by (simp_all add: pps_shape_def list_size_def)
  let ?t = "t\<lparr>pps_ScalingList4x4 := (pps_ScalingList4x4 t)[i := take 16 (matrix_of w i)],
      pps_UseDefaultScalingMatrix4x4Flag := (pps_UseDefaultScalingMatrix4x4Flag t)[i := 0]\<rparr>"
  have d: "sendable 16 (matrix_of w i)" using w(2) k(4) by simp
  have c: "(i < 6) = True" using True by simp
  have r: "reads (pps_read_list i t) (scaling_elems (scan (list_size i)) (matrix_of w i) 8) ?t"
    unfolding pps_read_list_def k(4) c if_True
    by (rule reads_at [OF k(1)], rule reads_at [OF k(2)], rule reads_bind_last [OF reads_scaling_list [OF _ d k(3)]], simp)
      (simp only: prod.case reads_return)
  have "length (take 16 (matrix_of w i)) = 16" using d by (simp add: sendable_def)
  from pps_set_list4_law [OF t(1) True this, of 0] r True k(1,2) w t(3) show ?thesis
    by (intro exI [of _ ?t] conjI) (auto simp: pps_got_def)
next
  case False
  then have k: "i - 6 < length (pps_ScalingList8x8 t)" "i - 6 < length (pps_UseDefaultScalingMatrix8x8Flag t)"
      "length (pps_ScalingList8x8 t ! (i - 6)) = 64" "list_size i = 64"
    using t(1,2) by (simp_all add: pps_shape_def list_size_def)
  let ?t = "t\<lparr>pps_ScalingList8x8 := (pps_ScalingList8x8 t)[i - 6 := take 64 (matrix_of w i)],
      pps_UseDefaultScalingMatrix8x8Flag := (pps_UseDefaultScalingMatrix8x8Flag t)[i - 6 := 0]\<rparr>"
  have d: "sendable 64 (matrix_of w i)" using w(2) k(4) by simp
  have c: "(i < 6) = False" "6 \<le> i" using False by simp_all
  have r: "reads (pps_read_list i t) (scaling_elems (scan (list_size i)) (matrix_of w i) 8) ?t"
    unfolding pps_read_list_def k(4) c(1) if_False
    by (rule reads_at [OF k(1)], rule reads_at [OF k(2)], rule reads_bind_last [OF reads_scaling_list [OF _ d k(3)]], simp)
      (simp only: prod.case reads_return)
  have "length (take 64 (matrix_of w i)) = 64" using d by (simp add: sendable_def)
  from pps_set_list8_law [OF t(1) c(2) t(2) this, of 0] r False k(1,2) w t(3) show ?thesis
    by (intro exI [of _ ?t] conjI) (auto simp: pps_got_def)
qed

text \<open>A turn of the loop first takes the default mark away.\<close>

definition unmarked :: "nat \<Rightarrow> AL_TAvcPps \<Rightarrow> AL_TAvcPps" where
  "unmarked i t =
     (if i < 6 then t\<lparr>pps_UseDefaultScalingMatrix4x4Flag := (pps_UseDefaultScalingMatrix4x4Flag t)[i := 0]\<rparr>
      else t\<lparr>pps_UseDefaultScalingMatrix8x8Flag := (pps_UseDefaultScalingMatrix8x8Flag t)[i - 6 := 0]\<rparr>)"

lemma unmarked_law:
  assumes "pps_shape t" "i < 8"
  shows "pps_kept i t (unmarked i t)" "i < 6 \<Longrightarrow> pps_UseDefaultScalingMatrix4x4Flag (unmarked i t) ! i = 0"
    "6 \<le> i \<Longrightarrow> pps_UseDefaultScalingMatrix8x8Flag (unmarked i t) ! (i - 6) = 0"
    "pic_scaling_list_present_flag (unmarked i t) = pic_scaling_list_present_flag t"
proof -
  show "pps_kept i t (unmarked i t)"
  proof (cases "i < 6")
    case True
    then have "length (pps_ScalingList4x4 t ! i) = 16" using assms(1) by (simp add: pps_shape_def)
    from pps_set_list4_law [OF assms(1) True this, of 0] True show ?thesis by (simp add: unmarked_def)
  next
    case False
    then have l: "6 \<le> i" "length (pps_ScalingList8x8 t ! (i - 6)) = 64" using assms by (simp_all add: pps_shape_def)
    from pps_set_list8_law [OF assms(1) l(1) assms(2) l(2), of 0] False show ?thesis by (simp add: unmarked_def)
  qed
  show "pps_UseDefaultScalingMatrix4x4Flag (unmarked i t) ! i = 0" if "i < 6"
    using that assms by (simp add: unmarked_def pps_shape_def)
  show "pps_UseDefaultScalingMatrix8x8Flag (unmarked i t) ! (i - 6) = 0" if "6 \<le> i"
    using that assms by (simp add: unmarked_def pps_shape_def)
  show "pic_scaling_list_present_flag (unmarked i t) = pic_scaling_list_present_flag t" by (simp add: unmarked_def)
qed

lemma pps_turn:
  assumes w: "lists_ok w" and t: "pps_shape t" "i < 8" "lists_shape s"
  shows "\<exists>t'. reads (pps_scaling_list i s t)
      ((Fixed 1, uint (seq_scaling_list_present_flag w ! i)) #
       (if seq_scaling_list_present_flag w ! i \<noteq> 0 then scaling_elems (scan (list_size i)) (matrix_of w i) 8 else [])) t'
    \<and> pps_kept i t t' \<and> pps_got w s t' i"
proof -
  let ?f = "seq_scaling_list_present_flag w ! i" let ?u = "unmarked i t"
  note um = unmarked_law [OF t(1,2)]
  have us: "pps_shape ?u" using um(1) by (simp add: pps_kept_def)
  let ?t = "?u\<lparr>pic_scaling_list_present_flag := (pic_scaling_list_present_flag ?u)[i := ?f]\<rparr>"
  have k: "pps_kept i t ?t" by (rule pps_kept_trans [OF um(1) pps_set_flag_law [OF us t(2)]])
  have l: "i < length (pic_scaling_list_present_flag ?u)" "pic_scaling_list_present_flag ?t ! i = ?f" "pps_shape ?t"
    using us t(2) by (simp_all add: pps_shape_def)
  have d: "i < 6 \<Longrightarrow> pps_UseDefaultScalingMatrix4x4Flag ?t ! i = 0"
    "6 \<le> i \<Longrightarrow> pps_UseDefaultScalingMatrix8x8Flag ?t ! (i - 6) = 0" using um(2,3) by simp_all
  have f: "fits 1 ?f" using w t(2) by (simp add: lists_ok_def)
  have start: "(if i < 6
      then do { d \<leftarrow> set_at (pps_UseDefaultScalingMatrix4x4Flag t) i 0; Some (t\<lparr>pps_UseDefaultScalingMatrix4x4Flag := d\<rparr>) }
      else do { d \<leftarrow> set_at (pps_UseDefaultScalingMatrix8x8Flag t) (i - 6) 0;
                Some (t\<lparr>pps_UseDefaultScalingMatrix8x8Flag := d\<rparr>) }) = Some ?u"
    using t(1,2) by (cases "i < 6") (simp_all add: unmarked_def set_at_def pps_shape_def)
  show ?thesis
  proof (cases "?f = 0")
    case True
    from pps_fall_back_law [OF l(3) t(2,3) _ True d] l(2) True obtain t' where
      t': "pps_fall_back i s ?t = Some t'" "pps_kept i ?t t'" "pps_got w s t' i" by auto
    have "reads (pps_scaling_list i s t) [(Fixed 1, uint ?f)] t'"
      unfolding pps_scaling_list_def start Option.bind.bind_lunit
      by (rule reads_intros f reads_set_at l(1))+ (use t'(1) True in \<open>simp add: reads_return\<close>)
    with pps_kept_trans [OF k t'(2)] t'(3) True show ?thesis by auto
  next
    case False
    have sd: "sendable (list_size i) (matrix_of w i)" using w t(2) False by (simp add: lists_ok_def)
    from pps_read_list_law [OF l(3) t(2) l(2) False sd] obtain t' where
      t': "reads (pps_read_list i ?t) (scaling_elems (scan (list_size i)) (matrix_of w i) 8) t'"
        "pps_kept i ?t t'" "pps_got w s t' i" by blast
    have "reads (pps_scaling_list i s t) ((Fixed 1, uint ?f) # scaling_elems (scan (list_size i)) (matrix_of w i) 8) t'"
      unfolding pps_scaling_list_def start Option.bind.bind_lunit
      by (rule reads_intros f reads_set_at l(1))+ (use t'(1) False in simp)
    with pps_kept_trans [OF k t'(2)] t'(3) False show ?thesis by auto
  qed
qed

lemma pps_keptD: "pps_kept i t t' \<Longrightarrow> j < i \<Longrightarrow> pps_got w s t j \<Longrightarrow> pps_got w s t' j"
  "pps_kept i t t' \<Longrightarrow> j < i \<Longrightarrow> from_sps s t j \<Longrightarrow> from_sps s t' j"
  by (simp_all add: pps_kept_def)

lemma reads_pps_lists:
  "lists_ok w \<Longrightarrow> lists_shape s \<Longrightarrow> pps_shape t \<Longrightarrow> i \<le> 8 \<Longrightarrow> \<forall>j < i. pps_got w s t j \<Longrightarrow>
   \<exists>t'. reads (pps_scaling_lists [i..<8] s t) (matrices_elems [i..<8] w) t' \<and> pps_shape t'
     \<and> no_pps_lists t' = no_pps_lists t \<and> (\<forall>j < 8. pps_got w s t' j)"
proof (induction "8 - i" arbitrary: i t)
  case 0
  then have i: "i = 8" by simp
  have "pps_scaling_lists [] s t = (\<lambda>p. Some (t, p))" by (rule ext) simp
  with 0 show ?case unfolding i by (auto intro!: exI [of _ t] reads_return)
next
  case (Suc n)
  then have i: "i < 8" by simp
  from pps_turn [OF Suc.prems(1,3) i Suc.prems(2)] obtain t1 where
    t1: "reads (pps_scaling_list i s t)
      ((Fixed 1, uint (seq_scaling_list_present_flag w ! i)) #
       (if seq_scaling_list_present_flag w ! i \<noteq> 0 then scaling_elems (scan (list_size i)) (matrix_of w i) 8 else [])) t1"
      "pps_kept i t t1" "pps_got w s t1 i" by blast
  have g: "\<forall>j < i + 1. pps_got w s t1 j"
    using pps_keptD(1) [OF t1(2)] Suc.prems(5) t1(3) by (auto simp: less_Suc_eq)
  have sh: "pps_shape t1" "no_pps_lists t1 = no_pps_lists t" using t1(2) by (simp_all add: pps_kept_def)
  have n: "n = 8 - (i + 1)" "i + 1 \<le> 8" using Suc.hyps(2) by arith+
  from Suc.hyps(1) [OF n(1) Suc.prems(1,2) sh(1) n(2) g] obtain t2 where
    t2: "reads (pps_scaling_lists [i + 1..<8] s t1) (matrices_elems [i + 1..<8] w) t2" "pps_shape t2"
      "no_pps_lists t2 = no_pps_lists t1" "\<forall>j < 8. pps_got w s t2 j" by blast
  have c: "[i..<8] = i # [i + 1..<8]" using i by (simp add: upt_conv_Cons)
  have "reads (pps_scaling_lists [i..<8] s t) (matrices_elems [i..<8] w) t2"
    unfolding c pps_scaling_lists.simps matrices_elems.simps append_Cons [symmetric]
    by (rule reads_bind [OF t1(1)], rule t2(1))
  with t2 sh(2) show ?case by auto
qed

lemma all_from_sps_law:
  "lists_shape s \<Longrightarrow> pps_shape t \<Longrightarrow> i \<le> 8 \<Longrightarrow> \<forall>j < i. from_sps s t j \<Longrightarrow>
   \<forall>j. i \<le> j \<and> j < 6 \<longrightarrow> pps_UseDefaultScalingMatrix4x4Flag t ! j = 0 \<Longrightarrow>
   \<forall>j. i \<le> j \<and> 6 \<le> j \<and> j < 8 \<longrightarrow> pps_UseDefaultScalingMatrix8x8Flag t ! (j - 6) = 0 \<Longrightarrow>
   \<exists>t'. pps_all_from_sps [i..<8] s t = Some t' \<and> pps_shape t' \<and> no_pps_lists t' = no_pps_lists t \<and> (\<forall>j < 8. from_sps s t' j)"
proof (induction "8 - i" arbitrary: i t)
  case 0
  then show ?case by simp
next
  case (Suc n)
  then have i: "i < 8" by simp
  have d: "i < 6 \<Longrightarrow> pps_UseDefaultScalingMatrix4x4Flag t ! i = 0"
    "6 \<le> i \<Longrightarrow> pps_UseDefaultScalingMatrix8x8Flag t ! (i - 6) = 0" using Suc.prems(5,6) i by auto
  from from_sps_law [OF Suc.prems(2) i Suc.prems(1) d] obtain t1 where
    t1: "pps_from_sps i s t = Some t1" "pps_kept i t t1" "from_sps s t1 i" by blast
  have g: "\<forall>j < i + 1. from_sps s t1 j" using pps_keptD(2) [OF t1(2)] Suc.prems(4) t1(3) by (auto simp: less_Suc_eq)
  have sh: "pps_shape t1" "no_pps_lists t1 = no_pps_lists t" using t1(2) by (simp_all add: pps_kept_def)
  have z: "\<forall>j. i + 1 \<le> j \<and> j < 6 \<longrightarrow> pps_UseDefaultScalingMatrix4x4Flag t1 ! j = 0"
    "\<forall>j. i + 1 \<le> j \<and> 6 \<le> j \<and> j < 8 \<longrightarrow> pps_UseDefaultScalingMatrix8x8Flag t1 ! (j - 6) = 0"
    using t1(2) Suc.prems(5,6) by (auto simp: pps_kept_def)
  have n: "n = 8 - (i + 1)" "i + 1 \<le> 8" using Suc.hyps(2) by arith+
  have c: "[i..<8] = i # [i + 1..<8]" using i by (simp add: upt_conv_Cons)
  from Suc.hyps(1) [OF n(1) Suc.prems(1) sh(1) n(2) g z] t1(1) sh(2) show ?case unfolding c by auto
qed

end
