(* ===== verification/AvcPpsRoundtrip.thy ===== *)
theory AvcPpsRoundtrip imports AvcPpsLists begin

text \<open>
  The AVC picture parameter set from the encoder's structure into the decoder's table.
\<close>

section \<open>Elements\<close>

definition pps_extended :: "AL_TAvcPps \<Rightarrow> bool" where
  "pps_extended t \<longleftrightarrow> transform_8x8_mode_flag t \<noteq> 0 \<or> second_chroma_qp_index_offset t \<noteq> chroma_qp_index_offset t"

definition pps_head_elems :: "AL_TAvcPps \<Rightarrow> (shape \<times> int) list" where
  "pps_head_elems t =
     [(Unsigned, uint (pic_parameter_set_id t)), (Unsigned, uint (pps_seq_parameter_set_id t)),
      (Fixed 1, uint (entropy_coding_mode_flag t)), (Fixed 1, uint (bottom_field_pic_order_in_frame_present_flag t)),
      (Unsigned, num_slice_groups_minus1 t)]"

definition pps_qp_elems :: "AL_TAvcPps \<Rightarrow> (shape \<times> int) list" where
  "pps_qp_elems t =
     [(Unsigned, uint (num_ref_idx_l0_active_minus1 t)), (Unsigned, uint (num_ref_idx_l1_active_minus1 t)),
      (Fixed 1, uint (weighted_pred_flag t)), (Fixed 2, uint (weighted_bipred_idc t)), (Signed, pic_init_qp_minus26 t),
      (Signed, pic_init_qs_minus26 t), (Signed, chroma_qp_index_offset t),
      (Fixed 1, uint (deblocking_filter_control_present_flag t)), (Fixed 1, uint (constrained_intra_pred_flag t)),
      (Fixed 1, uint (redundant_pic_cnt_present_flag t))]"

definition pps_ext_elems :: "AL_TAvcPps \<Rightarrow> AL_TAvcSps \<Rightarrow> (shape \<times> int) list" where
  "pps_ext_elems t w =
     (Fixed 1, uint (transform_8x8_mode_flag t)) # (Fixed 1, uint (pic_scaling_matrix_present_flag t)) #
     (if pic_scaling_matrix_present_flag t \<noteq> 0 then matrices_elems [0..<8] w else []) @
     [(Signed, second_chroma_qp_index_offset t)]"

definition pps_elems :: "AL_TAvcPps \<Rightarrow> AL_TAvcSps \<Rightarrow> (shape \<times> int) list" where
  "pps_elems t w = pps_head_elems t @ pps_qp_elems t @ (if pps_extended t then pps_ext_elems t w else [])"

text \<open>The picture parameter sets an encoder writes; \<open>w\<close> is the SPS with the lists, \<open>s\<close> the decoder's SPS.  The
  writer sends eight lists, so the 8x8 transform must be on when lists are sent.\<close>

definition pps_ok :: "AL_TAvcPps \<Rightarrow> AL_TAvcSps \<Rightarrow> AL_TAvcSps \<Rightarrow> bool" where
  "pps_ok t w s \<longleftrightarrow> pps_seq_parameter_set_id t < AL_AVC_MAX_SPS
     \<and> fits 1 (entropy_coding_mode_flag t) \<and> fits 1 (bottom_field_pic_order_in_frame_present_flag t)
     \<and> num_slice_groups_minus1 t = 0
     \<and> num_ref_idx_l0_active_minus1 t \<le> 15 \<and> num_ref_idx_l1_active_minus1 t \<le> 15
     \<and> fits 1 (weighted_pred_flag t) \<and> weighted_bipred_idc t \<le> 2
     \<and> bit_depth_luma_minus8 s \<le> MAX_BIT_DEPTH
     \<and> - (26 + 6 * uint (bit_depth_luma_minus8 s)) \<le> pic_init_qp_minus26 t \<and> pic_init_qp_minus26 t \<le> 25
     \<and> - 26 \<le> pic_init_qs_minus26 t \<and> pic_init_qs_minus26 t \<le> 25
     \<and> - 12 \<le> chroma_qp_index_offset t \<and> chroma_qp_index_offset t \<le> 12
     \<and> - 12 \<le> second_chroma_qp_index_offset t \<and> second_chroma_qp_index_offset t \<le> 12
     \<and> fits 1 (deblocking_filter_control_present_flag t) \<and> fits 1 (constrained_intra_pred_flag t)
     \<and> fits 1 (redundant_pic_cnt_present_flag t)
     \<and> fits 1 (transform_8x8_mode_flag t) \<and> fits 1 (pic_scaling_matrix_present_flag t)
     \<and> (pic_scaling_matrix_present_flag t \<noteq> 0 \<longrightarrow> transform_8x8_mode_flag t \<noteq> 0 \<and> lists_ok w)"

section \<open>The writer\<close>

lemma writePps_eq:
  assumes "pps_ok t w s"
  shows "writePps t (Some w) = payload (pps_elems t w)"
proof -
  have k: "num_slice_groups_minus1 t = 0" "chroma_qp_index_offset t \<ge> - 12 \<and> chroma_qp_index_offset t \<le> 12"
    "second_chroma_qp_index_offset t \<ge> - 12 \<and> second_chroma_qp_index_offset t \<le> 12"
    "pic_scaling_matrix_present_flag t \<noteq> 0 \<Longrightarrow> lists_ok w"
    using assms by (simp_all add: pps_ok_def)
  have "writes (write_pps_data t (Some w)) (pps_elems t w)"
    unfolding write_pps_data_def pps_elems_def pps_head_elems_def pps_qp_elems_def pps_ext_elems_def append_Cons append_Nil
      pps_extended_def Option.bind.bind_lunit
    by (rule k(1-3) writes_bind [OF writes_matrix] writes_intros | erule k(4))+
  then show ?thesis
    by (intro ext) (simp add: writes_def writePps_def payload_def AL_RbspEncoding_CloseSEI_def)
qed

lemma all_ok_pps:
  assumes "pps_ok t w s"
  shows "all_ok (pps_elems t w)"
proof -
  have m: "pic_scaling_matrix_present_flag t \<noteq> 0 \<Longrightarrow> all_ok (matrices_elems [0..<8] w)"
    using assms by (intro all_ok_matrices) (simp_all add: pps_ok_def)
  have wb: "uint (weighted_bipred_idc t) \<le> 2" and bd: "uint (bit_depth_luma_minus8 s) \<le> 2"
    using assms by (simp_all add: pps_ok_def word_le_def MAX_BIT_DEPTH_def)
  have f: "fits 2 (weighted_bipred_idc t)" using wb by (simp add: fits_def)
  have sg: "elem_ok (Signed, pic_init_qp_minus26 t)" "elem_ok (Signed, pic_init_qs_minus26 t)"
    "elem_ok (Signed, chroma_qp_index_offset t)" "elem_ok (Signed, second_chroma_qp_index_offset t)"
    "elem_ok (Unsigned, num_slice_groups_minus1 t)"
    using assms bd by (auto simp: pps_ok_def)
  show ?thesis
    using assms unfolding pps_elems_def pps_head_elems_def pps_qp_elems_def pps_ext_elems_def pps_ok_def
    by (elim conjE) (assumption | rule f sg ok_intros | erule m)+
qed

section \<open>The parser\<close>

lemma int8_small: "- 128 \<le> v \<Longrightarrow> v < 128 \<Longrightarrow> int8 v = v"
  by (simp add: int8_def sint_sbintrunc' signed_take_bit_int_eq_self_iff)

definition qp_of :: "AL_TAvcPps \<Rightarrow> AL_TAvcPps \<Rightarrow> AL_TAvcPps" where
  "qp_of t r = r\<lparr>num_ref_idx_l0_active_minus1 := num_ref_idx_l0_active_minus1 t,
     num_ref_idx_l1_active_minus1 := num_ref_idx_l1_active_minus1 t, weighted_pred_flag := weighted_pred_flag t,
     weighted_bipred_idc := weighted_bipred_idc t, pic_init_qp_minus26 := pic_init_qp_minus26 t,
     pic_init_qs_minus26 := pic_init_qs_minus26 t, chroma_qp_index_offset := chroma_qp_index_offset t,
     second_chroma_qp_index_offset := chroma_qp_index_offset t,
     deblocking_filter_control_present_flag := deblocking_filter_control_present_flag t,
     constrained_intra_pred_flag := constrained_intra_pred_flag t, redundant_pic_cnt_present_flag := 0\<rparr>"

lemma reads_qp:
  assumes "pps_ok t w s"
  shows "reads (pps_qp s r) (pps_qp_elems t) (qp_of t r)"
proof -
  let ?b = "uint (bit_depth_luma_minus8 s)"
  have u: "uint (num_ref_idx_l0_active_minus1 t) \<le> 15" "uint (num_ref_idx_l1_active_minus1 t) \<le> 15"
    "uint (weighted_bipred_idc t) \<le> 2" "?b \<le> 2"
    using assms by (simp_all add: pps_ok_def word_le_def MAX_BIT_DEPTH_def)
  have r: "0 \<le> uint (num_ref_idx_l0_active_minus1 t)" "uint (num_ref_idx_l0_active_minus1 t) < 2147483647"
    "0 \<le> uint (num_ref_idx_l1_active_minus1 t)" "uint (num_ref_idx_l1_active_minus1 t) < 2147483647"
    using u by simp_all
  have uw: "uint (ucast (weighted_bipred_idc t) :: u32) = uint (weighted_bipred_idc t)" by (rule uint_wide)
  have wf: "fits 2 (ucast (weighted_bipred_idc t) :: u32)" using u(3) by (simp add: fits_def uw)
  have "- 2147483648 \<le> uint (weighted_bipred_idc t)" using uint_ge_0 [of "weighted_bipred_idc t"] by linarith
  with u(3) have "sint (ucast (weighted_bipred_idc t) :: u32) = uint (weighted_bipred_idc t)"
    by (simp only: sint_uint uw) (simp add: signed_take_bit_int_eq_self_iff)
  then have wb: "(of_int (Clip3 (sint (ucast (weighted_bipred_idc t) :: u32)) 0 AL_MAX_WP_IDC) :: u8) = weighted_bipred_idc t"
    using u(3) by (simp add: Clip3_def AL_MAX_WP_IDC_def)
  have l: "(of_int (Clip3 (uint (num_ref_idx_l0_active_minus1 t)) 0 AL_AVC_MAX_REF_IDX) :: u8) = num_ref_idx_l0_active_minus1 t"
    "(of_int (Clip3 (uint (num_ref_idx_l1_active_minus1 t)) 0 AL_AVC_MAX_REF_IDX) :: u8) = num_ref_idx_l1_active_minus1 t"
    using u by (simp_all add: Clip3_def AL_AVC_MAX_REF_IDX_def)
  have b: "6 * ?b mod 65536 = 6 * ?b" using u(4) by simp
  have q: "int8 (Clip3 (pic_init_qp_minus26 t) (- (26 + 6 * ?b)) AL_MAX_INIT_QP) = pic_init_qp_minus26 t"
    "int8 (Clip3 (pic_init_qs_minus26 t) AL_MIN_INIT_QP AL_MAX_INIT_QP) = pic_init_qs_minus26 t"
    "int8 (Clip3 (chroma_qp_index_offset t) AL_MIN_QP_OFFSET AL_MAX_QP_OFFSET) = chroma_qp_index_offset t"
    using assms u(4) by (simp_all add: pps_ok_def Clip3_def AL_MAX_INIT_QP_def AL_MIN_INIT_QP_def AL_MIN_QP_OFFSET_def
        AL_MAX_QP_OFFSET_def int8_small)
  have sg: "\<bar>pic_init_qp_minus26 t\<bar> < 1073741824" "\<bar>pic_init_qs_minus26 t\<bar> < 1073741824"
    "\<bar>chroma_qp_index_offset t\<bar> < 1073741824"
    using assms u(4) by (auto simp: pps_ok_def)
  have f: "fits 1 (weighted_pred_flag t)" "fits 1 (deblocking_filter_control_present_flag t)"
    "fits 1 (constrained_intra_pred_flag t)"
    using assms by (simp_all add: pps_ok_def)
  note rs = reads_ue_int_then [OF r(1,2)] reads_ue_int_then [OF r(3,4)] reads_u_then [OF f(1)]
    reads_bind [OF reads_u [OF wf, unfolded uw], unfolded append_Cons append_Nil]
    reads_se_then [OF sg(1)] reads_se_then [OF sg(2)] reads_se_then [OF sg(3)] reads_u_then [OF f(2)] reads_u_then [OF f(3)]
    reads_skip reads_return
  show ?thesis
    unfolding pps_qp_def pps_qp_elems_def Let_def
    by (rule reads_val, (rule rs)+) (simp only: qp_of_def wb l q b)
qed

definition ext_of :: "AL_TAvcPps \<Rightarrow> AL_TAvcPps \<Rightarrow> AL_TAvcPps" where
  "ext_of t r = r\<lparr>transform_8x8_mode_flag := transform_8x8_mode_flag t,
     pic_scaling_matrix_present_flag := pic_scaling_matrix_present_flag t\<rparr>"

definition pps_unmarked :: "AL_TAvcPps \<Rightarrow> bool" where
  "pps_unmarked t \<longleftrightarrow> (\<forall>j < 6. pps_UseDefaultScalingMatrix4x4Flag t ! j = 0) \<and> (\<forall>j < 2. pps_UseDefaultScalingMatrix8x8Flag t ! j = 0)"

lemma all_from_sps:
  assumes "lists_shape s" "pps_shape t" "pps_unmarked t"
  shows "\<exists>t'. pps_all_from_sps [0..<8] s t = Some t' \<and> pps_shape t' \<and> no_pps_lists t' = no_pps_lists t
    \<and> (\<forall>j < 8. from_sps s t' j)"
  by (rule all_from_sps_law) (use assms in \<open>auto simp: pps_unmarked_def\<close>)

text \<open>The lists after the parser: those that were sent or, if none was sent, those of the SPS.\<close>

definition pps_lists :: "nat \<Rightarrow> AL_TAvcPps \<Rightarrow> AL_TAvcSps \<Rightarrow> AL_TAvcSps \<Rightarrow> AL_TAvcPps \<Rightarrow> bool" where
  "pps_lists n t w s r \<longleftrightarrow>
     (if pps_extended t \<and> pic_scaling_matrix_present_flag t \<noteq> 0 then \<forall>j < n. pps_got w s r j else \<forall>j < n. from_sps s r j)"

lemma reads_ext:
  assumes "pps_ok t w s" "lists_shape s" "pps_shape r" "pps_unmarked r" "pps_extended t"
  shows "\<exists>r'. reads (pps_extension s r) (pps_ext_elems t w) (r'\<lparr>second_chroma_qp_index_offset := second_chroma_qp_index_offset t\<rparr>)
    \<and> no_pps_lists r' = no_pps_lists (ext_of t r) \<and> pps_shape r' \<and> pps_lists 8 t w s r'"
proof -
  let ?r = "ext_of t r"
  have sh: "pps_shape ?r" "pps_unmarked ?r" using assms(3,4) by (simp_all add: ext_of_def pps_shape_def pps_unmarked_def)
  have e: "r\<lparr>transform_8x8_mode_flag := transform_8x8_mode_flag t,
     pic_scaling_matrix_present_flag := pic_scaling_matrix_present_flag t\<rparr> = ?r" by (simp add: ext_of_def)
  have f: "fits 1 (transform_8x8_mode_flag t)" "fits 1 (pic_scaling_matrix_present_flag t)"
    "pic_scaling_matrix_present_flag t \<noteq> 0 \<Longrightarrow> transform_8x8_mode_flag t \<noteq> 0"
    "pic_scaling_matrix_present_flag t \<noteq> 0 \<Longrightarrow> lists_ok w"
    and c: "- 12 \<le> second_chroma_qp_index_offset t" "second_chroma_qp_index_offset t \<le> 12"
    using assms(1) by (simp_all add: pps_ok_def)
  have tm: "pic_scaling_matrix_present_flag t \<noteq> 0 \<Longrightarrow> 6 + 2 * unat (transform_8x8_mode_flag t) = 8"
  proof -
    assume "pic_scaling_matrix_present_flag t \<noteq> 0"
    then have "uint (transform_8x8_mode_flag t) \<noteq> 0" using f(3) by (simp add: uint_0_iff)
    moreover have "uint (transform_8x8_mode_flag t) < 2" using f(1) by (simp add: fits_def)
    ultimately have "uint (transform_8x8_mode_flag t) = 1" using uint_ge_0 [of "transform_8x8_mode_flag t"] by linarith
    then show "6 + 2 * unat (transform_8x8_mode_flag t) = 8" by (simp add: unat_eq_nat_uint)
  qed
  have lists: "\<exists>r'. reads (\<lambda>p. if pic_scaling_matrix_present_flag t \<noteq> 0
          then pps_scaling_lists [0..<6 + 2 * unat (transform_8x8_mode_flag t)] s ?r p
          else do { t3 \<leftarrow> pps_all_from_sps [0..<8] s ?r; Some (t3, p) })
      (if pic_scaling_matrix_present_flag t \<noteq> 0 then matrices_elems [0..<8] w else []) r'
    \<and> no_pps_lists r' = no_pps_lists ?r \<and> pps_shape r' \<and> pps_lists 8 t w s r'"
  proof (cases "pic_scaling_matrix_present_flag t = 0")
    case True
    from all_from_sps [OF assms(2) sh] obtain r' where
      "pps_all_from_sps [0..<8] s ?r = Some r'" "pps_shape r'" "no_pps_lists r' = no_pps_lists ?r" "\<forall>j < 8. from_sps s r' j"
      by blast
    with True show ?thesis by (intro exI [of _ r']) (simp add: pps_lists_def reads_return)
  next
    case False
    from reads_pps_lists [OF f(4) assms(2) sh(1), of 0] False tm assms(5) show ?thesis by (auto simp: pps_lists_def)
  qed
  then obtain r' where
    r': "reads (\<lambda>p. if pic_scaling_matrix_present_flag t \<noteq> 0
          then pps_scaling_lists [0..<6 + 2 * unat (transform_8x8_mode_flag t)] s ?r p
          else do { t3 \<leftarrow> pps_all_from_sps [0..<8] s ?r; Some (t3, p) })
      (if pic_scaling_matrix_present_flag t \<noteq> 0 then matrices_elems [0..<8] w else []) r'"
      "no_pps_lists r' = no_pps_lists ?r" "pps_shape r'" "pps_lists 8 t w s r'" by blast
  have sc: "\<bar>second_chroma_qp_index_offset t\<bar> < 1073741824" using c by auto
  have cl: "int8 (Clip3 (second_chroma_qp_index_offset t) AL_MIN_INIT_QP AL_MAX_INIT_QP) = second_chroma_qp_index_offset t"
    using c by (simp add: Clip3_def AL_MAX_INIT_QP_def AL_MIN_INIT_QP_def int8_small)
  have "reads (pps_extension s r) (pps_ext_elems t w) (r'\<lparr>second_chroma_qp_index_offset := second_chroma_qp_index_offset t\<rparr>)"
    unfolding pps_extension_def pps_ext_elems_def Let_def
    apply (rule reads_u_then [OF f(1)] reads_u_then [OF f(2)])+
    unfolding e
    apply (rule reads_bind [OF r'(1)])
    apply (rule reads_val)
     apply (rule reads_se_then [OF sc])
     apply (rule reads_return)
    apply (simp add: cl)
    done
  with r' show ?thesis by blast
qed

definition marked :: "AL_TAvcPps \<Rightarrow> AL_TAvcPps" where
  "marked t = (if transform_8x8_mode_flag t = 0
     then t\<lparr>pps_UseDefaultScalingMatrix8x8Flag := (pps_UseDefaultScalingMatrix8x8Flag t)[1 := 1, 0 := 1]\<rparr> else t)"

text \<open>The parameter set the decoder stores.\<close>

definition pps_same :: "AL_TAvcPps \<Rightarrow> AL_TAvcSps \<Rightarrow> AL_TAvcSps \<Rightarrow> AL_TAvcPps \<Rightarrow> bool" where
  "pps_same t w s r \<longleftrightarrow> pic_parameter_set_id r = pic_parameter_set_id t
     \<and> pps_seq_parameter_set_id r = pps_seq_parameter_set_id t \<and> pps_pSPS r = unat (pps_seq_parameter_set_id t)
     \<and> entropy_coding_mode_flag r = entropy_coding_mode_flag t
     \<and> bottom_field_pic_order_in_frame_present_flag r = bottom_field_pic_order_in_frame_present_flag t
     \<and> num_slice_groups_minus1 r = 0
     \<and> num_ref_idx_l0_active_minus1 r = num_ref_idx_l0_active_minus1 t
     \<and> num_ref_idx_l1_active_minus1 r = num_ref_idx_l1_active_minus1 t
     \<and> weighted_pred_flag r = weighted_pred_flag t \<and> weighted_bipred_idc r = weighted_bipred_idc t
     \<and> pic_init_qp_minus26 r = pic_init_qp_minus26 t \<and> pic_init_qs_minus26 r = pic_init_qs_minus26 t
     \<and> chroma_qp_index_offset r = chroma_qp_index_offset t
     \<and> second_chroma_qp_index_offset r = second_chroma_qp_index_offset t
     \<and> deblocking_filter_control_present_flag r = deblocking_filter_control_present_flag t
     \<and> constrained_intra_pred_flag r = constrained_intra_pred_flag t
     \<and> redundant_pic_cnt_present_flag r = 0
     \<and> transform_8x8_mode_flag r = transform_8x8_mode_flag t
     \<and> pps_lists (if transform_8x8_mode_flag t \<noteq> 0 then 8 else 6) t w s r
     \<and> (transform_8x8_mode_flag t = 0 \<longrightarrow> pps_UseDefaultScalingMatrix8x8Flag r = [1, 1])"

lemma four_by_four: "j < 6 \<Longrightarrow> pps_got w s (t\<lparr>pps_UseDefaultScalingMatrix8x8Flag := a\<rparr>) j = pps_got w s t j"
  "j < 6 \<Longrightarrow> from_sps s (t\<lparr>pps_UseDefaultScalingMatrix8x8Flag := a\<rparr>) j = from_sps s t j"
  by (simp_all add: pps_got_def from_sps_def like_previous_def)

lemma pps_lists_marked:
  assumes "pps_lists 8 t w s r" "transform_8x8_mode_flag r = transform_8x8_mode_flag t"
  shows "pps_lists (if transform_8x8_mode_flag t \<noteq> 0 then 8 else 6) t w s (marked r)"
proof (cases "transform_8x8_mode_flag t = 0")
  case True
  then have m: "marked r = r\<lparr>pps_UseDefaultScalingMatrix8x8Flag := (pps_UseDefaultScalingMatrix8x8Flag r)[1 := 1, 0 := 1]\<rparr>"
    using assms(2) by (simp add: marked_def)
  have "pps_lists 6 t w s r" using assms(1) by (simp add: pps_lists_def split: if_splits)
  then have "pps_lists 6 t w s (marked r)" unfolding m pps_lists_def by (simp add: four_by_four cong: conj_cong)
  with True show ?thesis by simp
qed (use assms in \<open>simp add: marked_def\<close>)

lemma pps_lists_conceal [simp]: "pps_lists n t w s (r\<lparr>pps_bConceal := b\<rparr>) = pps_lists n t w s r"
  "pps_lists n t w s (r\<lparr>second_chroma_qp_index_offset := c\<rparr>) = pps_lists n t w s r"
  by (simp_all add: pps_lists_def pps_got_def from_sps_def like_previous_def)

lemma marked_two: "length xs = 2 \<Longrightarrow> xs[Suc 0 := a, 0 := b] = [b, a]"
  by (cases xs; cases "tl xs") auto

definition pps_core where
  "pps_core t = (pic_parameter_set_id t, pps_seq_parameter_set_id t, pps_pSPS t, entropy_coding_mode_flag t,
     bottom_field_pic_order_in_frame_present_flag t, num_slice_groups_minus1 t, num_ref_idx_l0_active_minus1 t,
     num_ref_idx_l1_active_minus1 t, weighted_pred_flag t, weighted_bipred_idc t, pic_init_qp_minus26 t,
     pic_init_qs_minus26 t, chroma_qp_index_offset t, deblocking_filter_control_present_flag t,
     constrained_intra_pred_flag t, redundant_pic_cnt_present_flag t, transform_8x8_mode_flag t)"

lemma pps_core_eq: "no_pps_lists r = no_pps_lists x \<Longrightarrow> pps_core r = pps_core x"
proof -
  have "pps_core t = pps_core (no_pps_lists t)" for t by (simp add: pps_core_def no_pps_lists_def)
  then show "no_pps_lists r = no_pps_lists x \<Longrightarrow> pps_core r = pps_core x" by metis
qed

lemma pps_core_simps [simp]: "pps_core (t\<lparr>pps_bConceal := b\<rparr>) = pps_core t"
  "pps_core (t\<lparr>second_chroma_qp_index_offset := c\<rparr>) = pps_core t"
  "pps_core (marked t) = pps_core t"
  by (simp_all add: pps_core_def marked_def)

definition head_pps :: "AL_TAvcPps \<Rightarrow> AL_TAvcPps \<Rightarrow> AL_TAvcPps" where
  "head_pps t temp = (initPps temp)\<lparr>pic_parameter_set_id := pic_parameter_set_id t,
     pps_seq_parameter_set_id := pps_seq_parameter_set_id t, pps_pSPS := unat (pps_seq_parameter_set_id t),
     entropy_coding_mode_flag := entropy_coding_mode_flag t,
     bottom_field_pic_order_in_frame_present_flag := bottom_field_pic_order_in_frame_present_flag t,
     num_slice_groups_minus1 := 0\<rparr>"

text \<open>The end of the PPS.\<close>

lemma ends_trailing:
  assumes "\<And>b. P (h b)"
  shows "ends (\<lambda>p. do { (b, q) \<leftarrow> rbsp_trailing_bits p; Some (h b, q) }) [] P"
proof (rule endsI)
  fix X p assume s: "src X p (elems_bits [])"
  then have "src X p []" "0 < last_one X" by (simp_all add: src_def)
  from rbsp_trailing_law [OF this] assms show "\<exists>v q. do { (b, q) \<leftarrow> rbsp_trailing_bits p; Some (h b, q) } = Some (v, q) \<and> P v"
    by auto
qed

lemma ends_tail:
  assumes ok: "pps_ok t w s" "lists_shape s" "pps_shape temp"
  defines "r \<equiv> qp_of t (head_pps t temp)"
  shows "ends (pps_tail s r) (if pps_extended t then pps_ext_elems t w else [])
    (\<lambda>(c, x). c = AL_OK \<and> pps_same t w s x \<and> (\<not> pps_extended t \<longrightarrow> \<not> pps_bConceal x))"
proof -
  have sh: "pps_shape r" "pps_unmarked r"
    using ok(3) by (auto simp: r_def qp_of_def head_pps_def initPps_def pps_shape_def pps_unmarked_def)
  have n: "num_slice_groups_minus1 t = 0" "fits 1 (transform_8x8_mode_flag t)" using ok(1) by (simp_all add: pps_ok_def)
  have core: "pps_core (ext_of t r) = pps_core (r\<lparr>transform_8x8_mode_flag := transform_8x8_mode_flag t\<rparr>)"
    by (simp add: pps_core_def ext_of_def)
  have same: "pps_same t w s (marked x)"
    if x: "pps_core x = pps_core (r\<lparr>transform_8x8_mode_flag := transform_8x8_mode_flag t\<rparr>)"
      "second_chroma_qp_index_offset x = second_chroma_qp_index_offset t" "pps_shape x" "pps_lists 8 t w s x" for x
  proof -
    have tr: "transform_8x8_mode_flag x = transform_8x8_mode_flag t" using x(1) by (simp add: pps_core_def)
    have c: "pps_core (marked x) = pps_core (r\<lparr>transform_8x8_mode_flag := transform_8x8_mode_flag t\<rparr>)"
      using x(1) by simp
    have m: "second_chroma_qp_index_offset (marked x) = second_chroma_qp_index_offset t" using x(2) by (simp add: marked_def)
    have d: "transform_8x8_mode_flag t = 0 \<longrightarrow> pps_UseDefaultScalingMatrix8x8Flag (marked x) = [1, 1]"
      using x(3) tr by (simp add: marked_def pps_shape_def marked_two)
    from c m d pps_lists_marked [OF x(4) tr] show ?thesis
      by (simp add: pps_same_def pps_core_def r_def qp_of_def head_pps_def)
  qed
  have num: "num_slice_groups_minus1 (marked x\<lparr>pps_bConceal := b\<rparr>) = 0"
    if "pps_core x = pps_core (r\<lparr>transform_8x8_mode_flag := transform_8x8_mode_flag t\<rparr>)" for x b
    using that by (simp add: pps_core_def marked_def r_def qp_of_def head_pps_def split: if_splits)
  have sc: "pps_same t w s (x\<lparr>pps_bConceal := b\<rparr>) = pps_same t w s x" for x b by (simp add: pps_same_def)
  show ?thesis
  proof (cases "pps_extended t")
    case True
    from reads_ext [OF ok(1,2) sh True] obtain r' where
      r': "reads (pps_extension s r) (pps_ext_elems t w) (r'\<lparr>second_chroma_qp_index_offset := second_chroma_qp_index_offset t\<rparr>)"
        "no_pps_lists r' = no_pps_lists (ext_of t r)" "pps_shape r'" "pps_lists 8 t w s r'" by blast
    let ?x = "r'\<lparr>second_chroma_qp_index_offset := second_chroma_qp_index_offset t\<rparr>"
    have x: "pps_core ?x = pps_core (r\<lparr>transform_8x8_mode_flag := transform_8x8_mode_flag t\<rparr>)"
      "second_chroma_qp_index_offset ?x = second_chroma_qp_index_offset t" "pps_shape ?x" "pps_lists 8 t w s ?x"
      using pps_core_eq [OF r'(2)] core r'(3,4) by (simp_all add: pps_shape_def)
    obtain es where es: "pps_ext_elems t w = (Fixed 1, uint (transform_8x8_mode_flag t)) # es" by (simp add: pps_ext_elems_def)
    have "ends (pps_tail s r) (pps_ext_elems t w) (\<lambda>(c, x). c = AL_OK \<and> pps_same t w s x)"
      unfolding pps_tail_def es
      apply (rule ends_more [OF elem_ok_u [OF n(2)]])
      unfolding es [symmetric]
      apply (simp only: if_True)
      apply (rule ends_bind [OF r'(1), of _ "[]", unfolded append_Nil2])
      apply (simp only: Let_def num [OF x(1)] marked_def [symmetric] simp_thms if_False)
      apply (rule ends_trailing)
      apply (simp add: sc same [OF x])
      done
    with True show ?thesis by simp
  next
    case False
    from all_from_sps [OF ok(2) sh] obtain r' where
      r': "pps_all_from_sps [0..<8] s r = Some r'" "pps_shape r'" "no_pps_lists r' = no_pps_lists r" "\<forall>j < 8. from_sps s r' j"
      by blast
    have tz: "transform_8x8_mode_flag t = 0" "second_chroma_qp_index_offset t = chroma_qp_index_offset t"
      using False by (simp_all add: pps_extended_def)
    have "second_chroma_qp_index_offset r' = second_chroma_qp_index_offset r"
    proof -
      have "second_chroma_qp_index_offset (no_pps_lists x) = second_chroma_qp_index_offset x" for x by (simp add: no_pps_lists_def)
      then show ?thesis using r'(3) by metis
    qed
    then have x: "pps_core r' = pps_core (r\<lparr>transform_8x8_mode_flag := transform_8x8_mode_flag t\<rparr>)"
      "second_chroma_qp_index_offset r' = second_chroma_qp_index_offset t" "pps_shape r'" "pps_lists 8 t w s r'"
      using pps_core_eq [OF r'(3)] r'(2,4) tz False
      by (simp_all add: pps_lists_def) (simp_all add: pps_core_def r_def qp_of_def head_pps_def initPps_def)
    have "ends (pps_tail s r) [] (\<lambda>(c, x). c = AL_OK \<and> pps_same t w s x \<and> \<not> pps_bConceal x)"
    proof (rule endsI)
      fix X p assume "src X p (elems_bits [])"
      then have "src X p []" by simp
      from no_more_data [OF this] obtain q where
        q: "more_rbsp_data p = Some (False, q)" "src X q []" "finished_fetching q" by blast
      from rbsp_trailing_law [OF q(2)] q(2,3) obtain q2 where
        q2: "rbsp_trailing_bits q = Some (True, q2)" by (auto simp: src_def)
      have "pps_tail s r p = Some ((AL_OK, marked r'\<lparr>pps_bConceal := False\<rparr>), q2)"
        unfolding pps_tail_def q(1) Option.bind.bind_lunit prod.case if_False r'(1) Let_def marked_def [symmetric] q2
        using num [OF x(1)] by simp
      then show "\<exists>v q. pps_tail s r p = Some (v, q) \<and> (case v of (c, x) \<Rightarrow> c = AL_OK \<and> pps_same t w s x \<and> \<not> pps_bConceal x)"
        using same [OF x] by (simp add: sc)
    qed
    with False show ?thesis by simp
  qed
qed

section \<open>The round trip\<close>

definition pps_stored :: "AL_TAvcPps \<Rightarrow> AL_TAvcSps \<Rightarrow> AL_TAvcAup \<Rightarrow> AL_PARSE_RESULT \<times> AL_TAvcAup \<times> nat option \<Rightarrow> bool" where
  "pps_stored t w pIAup = (\<lambda>(c, aup, pid). c = AL_OK \<and> pid = Some (unat (pic_parameter_set_id t))
     \<and> (\<exists>r. aup = pIAup\<lparr>pPPS := (pPPS pIAup)[unat (pic_parameter_set_id t) := r]\<rparr>
          \<and> pps_same t w (pSPS pIAup ! unat (pps_seq_parameter_set_id t)) r
          \<and> (\<not> pps_extended t \<longrightarrow> \<not> pps_bConceal r)))"

lemma ends_map:
  assumes "ends f es P" "\<And>v. P v \<Longrightarrow> \<exists>w. h v = Some w \<and> Q w"
  shows "ends (\<lambda>p. do { (v, q) \<leftarrow> f p; w \<leftarrow> h v; Some (w, q) }) es Q"
proof (rule endsI)
  fix X p assume "src X p (elems_bits es)"
  from endsD [OF assms(1) this] obtain v q where v: "f p = Some (v, q)" "P v" by blast
  from assms(2) [OF v(2)] v(1) show "\<exists>w q. do { (v, q) \<leftarrow> f p; w \<leftarrow> h v; Some (w, q) } = Some (w, q) \<and> Q w" by auto
qed

text \<open>The decoder's tables.\<close>

definition aup_ok :: "AL_TAvcAup \<Rightarrow> bool" where
  "aup_ok a \<longleftrightarrow> length (pSPS a) = 32 \<and> length (pPPS a) = 256 \<and> (\<forall>s \<in> set (pSPS a). lists_shape s)"

lemma ends_pps_body:
  assumes ok: "pps_ok t w (pSPS a ! unat (pps_seq_parameter_set_id t))" "aup_ok a" "pps_shape temp"
    and c: "\<not> bConceal (pSPS a ! unat (pps_seq_parameter_set_id t))"
  shows "ends (pps_body temp a) (pps_elems t w) (pps_stored t w a)"
proof -
  let ?sid = "pps_seq_parameter_set_id t" let ?s = "pSPS a ! unat ?sid" let ?id = "pic_parameter_set_id t"
  have sid: "?sid < AL_AVC_MAX_SPS" "unat ?sid < length (pSPS a)"
    using ok(1,2) by (auto simp: pps_ok_def AL_AVC_MAX_SPS_def word_less_nat_alt aup_ok_def)
  have sh: "lists_shape ?s" using ok(2) nth_mem [OF sid(2)] by (simp add: aup_ok_def)
  have ui: "uint (ucast ?id :: u16) = uint ?id"
    using uint_lt2p [of ?id] by (simp add: unsigned_ucast_eq take_bit_int_eq_self_iff)
  then have uid: "uint (ucast ?id :: u16) = uint ?id" "unat (ucast ?id :: u16) = unat ?id"
    by (simp_all only: unat_eq_nat_uint)
  have idl: "unat ?id < 256" using unsigned_less [of ?id] by simp
  have id16: "(\<not> unat (ucast ?id :: u16) < AL_AVC_MAX_PPS) = False" using idl by (simp add: uid AL_AVC_MAX_PPS_def)
  have f: "fits 1 (entropy_coding_mode_flag t)" "fits 1 (bottom_field_pic_order_in_frame_present_flag t)"
    "num_slice_groups_minus1 t = 0" "num_ref_idx_l0_active_minus1 t \<le> 15"
    using ok(1) by (simp_all add: pps_ok_def)
  have g16: "reads get_ue [(Unsigned, uint ?id)] (ucast ?id :: u16)"
    using reads_get_ue [OF golomb_all(2) [of "ucast ?id"]] by (simp only: uid)
  have at: "at (pSPS a) (unat ?sid) = Some ?s" using sid(2) by (simp add: at_def)
  have uc: "(ucast (ucast ?id :: u16) :: u8) = ?id" by (simp only: ucast_eq [of "ucast ?id :: u16"] ui word_of_int_uint)
  have hp: "(initPps temp)\<lparr>pic_parameter_set_id := ?id, pps_seq_parameter_set_id := ?sid, pps_pSPS := unat ?sid,
      entropy_coding_mode_flag := entropy_coding_mode_flag t,
      bottom_field_pic_order_in_frame_present_flag := bottom_field_pic_order_in_frame_present_flag t,
      num_slice_groups_minus1 := 0\<rparr> = head_pps t temp" by (simp add: head_pps_def)
  have sg: "pps_slice_groups (head_pps t temp) p = Some (head_pps t temp, p)" for p
    by (simp add: pps_slice_groups_def head_pps_def)
  have z: "reads get_ue_int [(Unsigned, 0)] 0" by (rule reads_get_ue_int) simp_all
  have qe: "\<exists>es. pps_qp_elems t = (Unsigned, uint (num_ref_idx_l0_active_minus1 t)) # es" by (simp add: pps_qp_elems_def)
  then obtain es where es: "pps_qp_elems t = (Unsigned, uint (num_ref_idx_l0_active_minus1 t)) # es" ..
  have e0: "elem_ok (Unsigned, uint (num_ref_idx_l0_active_minus1 t))" by (rule elem_ok_ue [OF golomb_all(1)])
  have fin: "ends (\<lambda>p. do { ((r, t4), p10) \<leftarrow> pps_tail ?s (qp_of t (head_pps t temp)) p;
        if r \<noteq> AL_OK then Some ((r, a, Some (unat ?id)), p10)
        else do { tab \<leftarrow> set_at (pPPS a) (unat (ucast ?id :: u16)) t4; Some ((AL_OK, a\<lparr>pPPS := tab\<rparr>, Some (unat ?id)), p10) } })
      (if pps_extended t then pps_ext_elems t w else []) (pps_stored t w a)"
  proof (rule endsI)
    fix X p assume s: "src X p (elems_bits (if pps_extended t then pps_ext_elems t w else []))"
    from endsD [OF ends_tail [OF ok(1) sh ok(3)] s] obtain x q where
      x: "pps_tail ?s (qp_of t (head_pps t temp)) p = Some ((AL_OK, x), q)" "pps_same t w ?s x"
        "\<not> pps_extended t \<longrightarrow> \<not> pps_bConceal x" by auto
    have "set_at (pPPS a) (unat (ucast ?id :: u16)) x = Some ((pPPS a)[unat ?id := x])"
      using ok(2) idl by (simp add: set_at_def aup_ok_def uid)
    with x show "\<exists>v q. do { ((r, t4), p10) \<leftarrow> pps_tail ?s (qp_of t (head_pps t temp)) p;
        if r \<noteq> AL_OK then Some ((r, a, Some (unat ?id)), p10)
        else do { tab \<leftarrow> set_at (pPPS a) (unat (ucast ?id :: u16)) t4; Some ((AL_OK, a\<lparr>pPPS := tab\<rparr>, Some (unat ?id)), p10) } }
      = Some (v, q) \<and> pps_stored t w a v" by (auto simp: pps_stored_def)
  qed
  have cons: "x # xs = [x] @ xs" for x :: "shape \<times> int" and xs by simp
  note b = ends_bind [OF g16] ends_bind [OF reads_get_ue [OF golomb_all(1) [of ?sid]]] ends_bind [OF reads_get_u [OF f(1)]]
    ends_bind [OF reads_get_u [OF f(2)]] ends_bind [OF z]
  have he: "pps_elems t w = [(Unsigned, uint ?id)] @ [(Unsigned, uint ?sid)] @ [(Fixed 1, uint (entropy_coding_mode_flag t))]
      @ [(Fixed 1, uint (bottom_field_pic_order_in_frame_present_flag t))] @ [(Unsigned, 0)]
      @ pps_qp_elems t @ (if pps_extended t then pps_ext_elems t w else [])"
    by (simp add: pps_elems_def pps_head_elems_def f(3))
  show ?thesis
    unfolding pps_body_def he Let_def
    apply (rule b(1))
    apply (simp only: id16 if_False)
    apply (rule b(2))
    apply (simp only: sid(1) not_True_eq_False if_False at Option.bind.bind_lunit c uid(2))
    apply (rule b(3))
    apply (rule b(4))
    apply (rule b(5))
    apply (simp only: hp sg uc Option.bind.bind_lunit prod.case)
    unfolding es append_Cons
    apply (rule ends_more [OF e0])
    apply (simp only: not_True_eq_False if_False)
    unfolding append_Cons [symmetric] es [symmetric]
    apply (rule ends_bind [OF reads_qp [OF ok(1)]])
    using fin unfolding uid(2) .
qed

definition AL_AVC_NUT_PPS :: int where "AL_AVC_NUT_PPS = 8"

definition AL_CreatePps :: "int \<Rightarrow> AL_TAvcPps \<Rightarrow> AL_TAvcSps option \<Rightarrow> int \<Rightarrow> int \<Rightarrow> AL_TNalUnit" where
  "AL_CreatePps n pps sps layer temp = AL_CreateNalUnit (writePps pps sps) n 1 layer temp"

lemma ParsePPS_eq: "AL_AVC_ParsePPS temp a p = after_header 1 (pps_body temp a) p"
  by (cases "skipAllZerosAndTheNextByte p") (auto simp: AL_AVC_ParsePPS_def after_header_def split: bind_splits)

lemma avc_pps_header: "header_ok (header (with_header_avc (AL_CreatePps AL_AVC_NUT_PPS t s layer temp)))"
  "hdr_size (header (with_header_avc (AL_CreatePps AL_AVC_NUT_PPS t s layer temp))) = 1"
  by (simp_all add: header_ok_def with_header_avc_def GetNalHeaderAvc_def AL_CreatePps_def AL_CreateNalUnit_def
      AL_AVC_NUT_PPS_def)

text \<open>C3: An AVC picture parameter set in range, written by \<open>writePps\<close> with the scaling lists of its SPS and put into
  the stream by \<open>WriteNal\<close>, is accepted by \<open>AL_AVC_ParsePPS\<close> when the decoder's table has an SPS of its
  identifier that is not concealed: the entry of its identifier gets the same members, the scaling lists are those
  sent or the fall-back of the standard, no other entry changes, whatever the parser's local structure holds.\<close>

theorem avc_pps_round_trip:
  assumes "pps_ok t w (pSPS a ! unat (pps_seq_parameter_set_id t))" "aup_ok a" "pps_shape local"
    and "\<not> bConceal (pSPS a ! unat (pps_seq_parameter_set_id t))"
    and "sz \<le> length tmp" "length (elems_bits (pps_elems t w)) < 8 * sz"
    and "bs_ok st" "iBitCount st mod 8 = 0" "2 * length (elems_bits (pps_elems t w)) + 56 \<le> bs_room st"
  shows "\<exists>N st'. WriteNal AL_CODEC_AVC tmp sz (with_header_avc (AL_CreatePps AL_AVC_NUT_PPS t (Some w) layer temp)) st
        = Some (int (length N), st')
    \<and> bs_ok st' \<and> written st' = written st @ byte_bits N
    \<and> (\<forall>ring rsz off avail x k. ring_holds ring rsz off avail (N @ x) \<and> follows x \<and> sz + 13 \<le> k \<and> k < 2 ^ 29 \<longrightarrow>
         (\<exists>v q. AL_AVC_ParsePPS local a (InitRbspParser ring rsz off avail (replicate k 0) True) = Some (v, q)
            \<and> pps_stored t w a v))"
proof -
  let ?nal = "with_header_avc (AL_CreatePps AL_AVC_NUT_PPS t (Some w) layer temp)"
  note h = avc_pps_header [of t "Some w" layer temp]
  have ok: "\<forall>e \<in> set (pps_elems t w). elem_ok e" using all_ok_pps [OF assms(1)] by (simp add: all_ok_def)
  have w: "Write ?nal = payload (pps_elems t w)"
    by (simp add: with_header_avc_def AL_CreatePps_def AL_CreateNalUnit_def writePps_eq [OF assms(1)])
  have room: "8 * (hdr_size (header ?nal) + 4) + 2 * (length (elems_bits (pps_elems t w)) + 8) \<le> bs_room st"
    using assms(9) h(2) by simp
  have k: "1 + sz + 12 = sz + 13" by simp
  from nal_delivered [OF ok assms(5,6) w h(1) assms(7,8) room ends_pps_body [OF assms(1-4)], of AL_CODEC_AVC]
  show ?thesis unfolding ParsePPS_eq h(2) k by blast
qed

text \<open>A PPS of a high profile with the 8x8 transform and one flat list, for \<open>example_sps\<close> in every entry.\<close>

definition pps_0 :: AL_TAvcPps where
  "pps_0 = \<lparr>pic_parameter_set_id = 0, pps_seq_parameter_set_id = 0, entropy_coding_mode_flag = 0,
     bottom_field_pic_order_in_frame_present_flag = 0, num_slice_groups_minus1 = 0, slice_group_map_type = 0,
     run_length_minus1 = replicate 8 0, top_left = replicate 8 0, bottom_right = replicate 8 0,
     slice_group_change_direction_flag = 0, slice_group_change_rate_minus1 = 0, pic_size_in_map_units_minus1 = 0,
     slice_group_id = replicate 8160 0, num_ref_idx_l0_active_minus1 = 0, num_ref_idx_l1_active_minus1 = 0,
     weighted_pred_flag = 0, weighted_bipred_idc = 0, pic_init_qp_minus26 = 0, pic_init_qs_minus26 = 0,
     chroma_qp_index_offset = 0, second_chroma_qp_index_offset = 0, deblocking_filter_control_present_flag = 0,
     constrained_intra_pred_flag = 0, redundant_pic_cnt_present_flag = 0, transform_8x8_mode_flag = 0,
     pic_scaling_matrix_present_flag = 0, pic_scaling_list_present_flag = replicate 8 0,
     pps_ScalingList4x4 = replicate 6 (replicate 16 0), pps_ScalingList8x8 = replicate 2 (replicate 64 0),
     pps_UseDefaultScalingMatrix4x4Flag = replicate 6 0, pps_UseDefaultScalingMatrix8x8Flag = replicate 2 0,
     pps_pSPS = 0, pps_bConceal = True\<rparr>"

definition example_pps :: AL_TAvcPps where
  "example_pps = pps_0\<lparr>pic_parameter_set_id := 5, pps_seq_parameter_set_id := 3, entropy_coding_mode_flag := 1,
     num_ref_idx_l0_active_minus1 := 1, weighted_bipred_idc := 2, pic_init_qp_minus26 := 4, chroma_qp_index_offset := - 2,
     second_chroma_qp_index_offset := 3, transform_8x8_mode_flag := 1\<rparr>"

definition example_aup :: AL_TAvcAup where
  "example_aup = \<lparr>pSPS = replicate 32 (sps_0\<lparr>bConceal := False\<rparr>), pPPS = replicate 256 pps_0, pActiveSPS = None\<rparr>"

theorem avc_pps_round_trip_witness:
  "\<exists>N :: u8 list. \<exists>st'. WriteNal AL_CODEC_AVC (replicate 50 0) 50
        (with_header_avc (AL_CreatePps AL_AVC_NUT_PPS example_pps (Some example_sps) 0 0))
        (AL_BitStreamLite_Init (replicate 100 0) 100)
      = Some (int (length N), st') \<and> written st' = byte_bits N"
proof -
  have l: "length (elems_bits (pps_elems example_pps example_sps)) \<le> 100" by code_simp
  have f: "fits (Suc 0) (1 :: u8)" "fits n (0 :: u8) \<longleftrightarrow> 0 < n \<and> n \<le> 32" for n
    by (simp_all add: fits_def)
  have s: "pSPS example_aup ! unat (pps_seq_parameter_set_id example_pps) = sps_0\<lparr>bConceal := False\<rparr>"
    by (simp add: example_aup_def example_pps_def)
  have o: "pps_ok example_pps example_sps (pSPS example_aup ! unat (pps_seq_parameter_set_id example_pps))"
    unfolding s pps_ok_def
    by (intro conjI) (simp_all add: example_pps_def pps_0_def f AL_AVC_MAX_SPS_def MAX_BIT_DEPTH_def sps_0_def)
  have a: "aup_ok example_aup" "pps_shape pps_0" "\<not> bConceal (pSPS example_aup ! unat (pps_seq_parameter_set_id example_pps))"
    unfolding s by (simp_all add: aup_ok_def example_aup_def lists_shape_def sps_0_def pps_shape_def pps_0_def)
  have b: "bs_ok (AL_BitStreamLite_Init (replicate 100 0) 100)"
    "iBitCount (AL_BitStreamLite_Init (replicate 100 0) 100) mod 8 = 0"
    "2 * length (elems_bits (pps_elems example_pps example_sps)) + 56 \<le> bs_room (AL_BitStreamLite_Init (replicate 100 0) 100)"
    using l by (simp_all add: init_ok) (simp add: AL_BitStreamLite_Init_def)
  have n: "50 \<le> length (replicate 50 (0 :: u8))" "length (elems_bits (pps_elems example_pps example_sps)) < 8 * 50"
    using l by simp_all
  have "written (AL_BitStreamLite_Init (replicate 100 0) 100) = []" by (simp add: init_ok)
  with avc_pps_round_trip [OF o a n b, of 0 0] show ?thesis by auto
qed

end
