(* ===== verification/SeiMessages.thy ===== *)
theory SeiMessages imports NalRoundtrip begin

text \<open>
  The numbers in the header of an SEI message: the writer \<open>PutUV\<close> of RbspEncod.c against the reader of
  lib_parsing/AvcParser.c (\<open>AL_AVC_ParseSEI\<close>, the loops for the payload type and the payload size).
\<close>

text \<open>\<open>getbyte\<close> until a byte other than \<open>0xff\<close>; 255 is added for every \<open>0xff\<close>.\<close>

partial_function (option) sei_number :: "nat \<Rightarrow> AL_TRbspParser \<Rightarrow> (nat \<times> AL_TRbspParser) option" where
  "sei_number v pRP =
     do { (byte, p1) \<leftarrow> getbyte pRP;
          if byte = 0xff then sei_number (v + 255) p1 else Some (v + unat byte, p1) }"

section \<open>Reading a byte\<close>

lemma byte_at:
  assumes "8 * k + 8 \<le> 8 * length d" "8 * k + 8 \<le> 8 * length X" "\<And>i. i < 8 \<Longrightarrow> bit_at d (8 * k + i) = bit_at X (8 * k + i)"
  shows "d ! k = X ! k"
proof (rule bit_word_eqI)
  fix n assume "n < LENGTH(8)"
  then have n: "n < 8" by simp
  have p: "(8 * k + (7 - n)) div 8 = k" "7 - (8 * k + (7 - n)) mod 8 = n" using byte_pos [of "7 - n" k] n by simp_all
  from assms(3) [of "7 - n"] show "bit (d ! k) n = bit (X ! k) n" unfolding bit_at_def p by simp
qed

lemma getbyte_law:
  assumes "rp_inv p X" "byte_aligned p" "rest X p = byte_bits [b] @ r"
  shows "\<exists>q. getbyte p = Some (b, q) \<and> rp_inv q X \<and> byte_aligned q \<and> rest X q = r"
proof -
  note rs = rest_skip [OF assms(1,3)]
  obtain k where k: "iTotalBitIndex p = 8 * k" using assms(2) by (auto simp: byte_aligned_def)
  have t8: "iTotalBitIndex p + 8 \<le> last_one X" using rs(1) by simp
  have nf: "iTrailingBitOneIndex p < iTotalBitIndex p + 8 \<longrightarrow> \<not> finished_fetching p"
    using assms(1) t8 by (auto simp: rp_inv_def)
  from fetch_if_law [OF assms(1) nf] obtain q where
    q: "(if iTrailingBitOneIndex p < iTotalBitIndex p + 8 then fetch_data p else Some (True, p)) = Some (True, q)"
      "rp_inv q X" "iTotalBitIndex q = iTotalBitIndex p"
      "iTrailingBitOneIndex p < iTotalBitIndex p + 8 \<longrightarrow>
        finished_fetching q \<or> iTotalBitIndex p + 160 \<le> iTrailingBitOneIndex q"
      "\<not> iTrailingBitOneIndex p < iTotalBitIndex p + 8 \<longrightarrow> q = p" by auto
  have av: "iTotalBitIndex q + 8 \<le> iTrailingBitOneIndex q"
  proof (cases "finished_fetching q")
    case True
    then show ?thesis using q(2,3) t8 by (simp add: rp_inv_def)
  next
    case False
    then show ?thesis using q(3-5) by (cases "iTrailingBitOneIndex p < iTotalBitIndex p + 8") auto
  qed
  note rb = rp_bounds [OF q(2)]
  have len: "8 * k + 8 \<le> 8 * length (pBuffer q)" "8 * k + 8 \<le> 8 * length X"
    using av rb(3) q(3) k t8 last_one_len [of X] by simp_all
  have "pBuffer q ! k = X ! k"
  proof (rule byte_at [OF len])
    fix i assume "i < (8 :: nat)"
    then have "8 * k + i < iTrailingBitOneIndex q" "8 * k + i < 8 * length X" using av q(3) k len by simp_all
    with buffered_bit [OF q(2), of "8 * k + i"] show "bit_at (pBuffer q) (8 * k + i) = bit_at X (8 * k + i)" by simp
  qed
  moreover have "X ! k = b"
  proof -
    have "byte_bits [b] = map (bit_at X) [8 * k..<8 * k + 8]" using rs(2) k by simp
    also have "\<dots> = byte_bits [X ! k]"
    proof (rule nth_equalityI)
      fix i assume "i < length (map (bit_at X) [8 * k..<8 * k + 8])"
      then have i: "i < 8" by simp
      have "byte_bits [X ! k] ! i = bit (X ! k) (7 - i)"
        using i bit_at_bytes [of i "[X ! k]"] by (simp add: bit_at_def)
      also have "\<dots> = bit_at X (8 * k + i)" using byte_pos [OF i, of k] by (simp add: bit_at_def)
      finally show "map (bit_at X) [8 * k..<8 * k + 8] ! i = byte_bits [X ! k] ! i" using i by simp
    qed simp
    finally show ?thesis by (metis byte_bits_inj list.inject)
  qed
  ultimately have b: "pBuffer q ! k = b" by simp
  let ?r = "q\<lparr>iTotalBitIndex := iTotalBitIndex q + 8, pByte := (iTotalBitIndex q + 8) div 8\<rparr>"
  have pb: "pByte q + 1 = (iTotalBitIndex q + 8) div 8" using rb(5) by simp
  have "getbyte p = Some (b, ?r)"
    unfolding getbyte_def Let_def q(1) using assms(2) b len(1) av k pb by (simp add: q(3))
  moreover have "rp_inv ?r X" using rp_advance [OF q(2), of 8] av t8 q(3) by simp
  moreover have "byte_aligned ?r" using k q(3) by (simp add: byte_aligned_def)
  moreover have "rest X ?r = r" using rs(3) [of ?r] q(3) by simp
  ultimately show ?thesis by blast
qed

section \<open>The numbers\<close>

text \<open>What the writer writes, and what the standard asks for.\<close>

function uv_bytes :: "nat \<Rightarrow> u8 list" where
  "uv_bytes v = (if v > 255 then 0xff # uv_bytes (v - 255) else [of_nat v])"
  by pat_completeness auto
termination by (relation "measure id") auto

declare uv_bytes.simps [simp del]

lemma PutUV_law: "emits (PutUV (int v)) (byte_bits (uv_bytes v))"
proof (induction v rule: uv_bytes.induct)
  case (1 v)
  have p: "AL_BitStreamLite_PutU 8 w = AL_BitStreamLite_PutBits 8 w" for w
    by (rule ext) (simp add: AL_BitStreamLite_PutU_def)
  show ?case
  proof (cases "v > 255")
    case True
    have "PutUV (int v) = (\<lambda>s. do { t \<leftarrow> writeByte 0xff s; PutUV (int (v - 255)) t })"
      by (rule ext) (use True in \<open>simp add: PutUV.simps [of "int v"] p writeByte_def of_nat_diff\<close>)
    moreover have "uv_bytes v = [0xff] @ uv_bytes (v - 255)" using True by (simp add: uv_bytes.simps [of v])
    ultimately show ?thesis using emits_bind [OF emits_byte [of "0xff"] 1 [OF True]] by simp
  next
    case False
    have w: "(of_int (int v) :: u32) = ucast (of_nat v :: u8)"
    proof (rule unsigned_word_eqI [where ?'a = nat])
      show "unat (of_int (int v) :: u32) = unat (ucast (of_nat v :: u8) :: u32)"
      proof -
        have "take_bit 32 v = v" "v mod 256 = v" "v mod 4294967296 = v"
          using False by (simp_all add: take_bit_nat_eq_self_iff)
        then show ?thesis by (simp add: unsigned_ucast_eq unat_of_nat)
      qed
    qed
    have "PutUV (int v) = writeByte (of_nat v)"
      by (rule ext) (use False w in \<open>simp add: PutUV.simps [of "int v"] p writeByte_def\<close>)
    then show ?thesis using False emits_byte [of "of_nat v"] by (simp add: uv_bytes.simps [of v])
  qed
qed

lemma sei_number_law:
  "rp_inv p X \<Longrightarrow> byte_aligned p \<Longrightarrow> rest X p = byte_bits (replicate n 0xff @ [b]) @ r \<Longrightarrow> b \<noteq> 0xff \<Longrightarrow>
   \<exists>q. sei_number v p = Some (v + 255 * n + unat b, q) \<and> rp_inv q X \<and> byte_aligned q \<and> rest X q = r"
proof (induction n arbitrary: p v)
  case 0
  from getbyte_law [OF 0(1,2), of b r] 0(3) obtain q where
    "getbyte p = Some (b, q)" "rp_inv q X" "byte_aligned q" "rest X q = r" by auto
  with 0(4) show ?case by (simp add: sei_number.simps [of v p])
next
  case (Suc n)
  from getbyte_law [OF Suc.prems(1,2), of "0xff" "byte_bits (replicate n 0xff @ [b]) @ r"] Suc.prems(3) obtain q where
    q: "getbyte p = Some (0xff, q)" "rp_inv q X" "byte_aligned q" "rest X q = byte_bits (replicate n 0xff @ [b]) @ r"
    by auto
  from Suc.IH [OF q(2-4) Suc.prems(4), of "v + 255"] q(1) show ?case
    by (auto simp: sei_number.simps [of v p])
qed

lemma uv_bytes_eq:
  "0 < v \<Longrightarrow> uv_bytes v = replicate ((v - 1) div 255) 0xff @ [of_nat ((v - 1) mod 255 + 1)]"
proof (induction v rule: uv_bytes.induct)
  case (1 v)
  show ?case
  proof (cases "v > 255")
    case True
    obtain u where u: "v = 256 + u" using True le_Suc_ex [of 256 v] by auto
    have d: "(v - 1) div 255 = Suc ((v - 255 - 1) div 255)" "(v - 1) mod 255 = (v - 255 - 1) mod 255"
      unfolding u by (simp_all add: div_add_self1)
    show ?thesis using 1 True unfolding d by (simp add: uv_bytes.simps [of v])
  next
    case False
    with 1(2) show ?thesis by (simp add: uv_bytes.simps [of v])
  qed
qed

text \<open>C34: A number \<open>v\<close> that \<open>PutUV\<close> writes in an SEI header is read back, unless it is a positive multiple of 255:
  then the writer's last byte is \<open>0xff\<close>, which announces a further byte, and the reader adds the first
  byte of what follows to the number.\<close>

theorem sei_number_round_trip:
  assumes "rp_inv p X" "byte_aligned p" "rest X p = byte_bits (uv_bytes v @ [b]) @ r"
  shows "emits (PutUV (int v)) (byte_bits (uv_bytes v))
    \<and> (v = 0 \<or> v mod 255 \<noteq> 0 \<longrightarrow> (\<exists>q. sei_number 0 p = Some (v, q) \<and> rest X q = byte_bits [b] @ r))
    \<and> (0 < v \<and> v mod 255 = 0 \<and> b \<noteq> 0xff \<longrightarrow>
         (\<exists>q. sei_number 0 p = Some (v + unat b, q) \<and> rest X q = r))"
proof (intro conjI impI)
  show "emits (PutUV (int v)) (byte_bits (uv_bytes v))" by (rule PutUV_law)
next
  assume v: "v = 0 \<or> v mod 255 \<noteq> 0"
  obtain n c where n: "uv_bytes v = replicate n 0xff @ [of_nat c]" "c < 255" "v = 255 * n + c"
  proof (cases "v = 0")
    case True
    then show ?thesis using that [of 0 0] by (simp add: uv_bytes.simps [of 0])
  next
    case False
    with v have m: "v mod 255 \<noteq> 0" by simp
    have d: "(v - 1) div 255 = v div 255" "(v - 1) mod 255 + 1 = v mod 255"
    proof -
      obtain a e where a: "v = 255 * a + e" "e < 255" "e \<noteq> 0"
        using m by (metis mod_less_divisor mult_div_mod_eq zero_less_numeral)
      then obtain g where g: "e = Suc g" using not0_implies_Suc by blast
      have "v - 1 = 255 * a + g" using a(1) g by simp
      then show "(v - 1) div 255 = v div 255" "(v - 1) mod 255 + 1 = v mod 255" using a(2) g unfolding a(1) by simp_all
    qed
    have "uv_bytes v = replicate (v div 255) 0xff @ [of_nat (v mod 255)]"
      using uv_bytes_eq [of v] False unfolding d by simp
    then show ?thesis using that [of "v div 255" "v mod 255"] by simp
  qed
  have c: "of_nat c \<noteq> (0xff :: u8)" "unat (of_nat c :: u8) = c"
  proof -
    show u: "unat (of_nat c :: u8) = c" using n(2) by (simp add: unat_of_nat take_bit_nat_eq_self_iff)
    show "of_nat c \<noteq> (0xff :: u8)"
    proof
      assume "of_nat c = (0xff :: u8)"
      then have "unat (of_nat c :: u8) = 255" by simp
      with u n(2) show False by simp
    qed
  qed
  have "rest X p = byte_bits (replicate n 0xff @ [of_nat c]) @ (byte_bits [b] @ r)" using assms(3) n(1) by simp
  from sei_number_law [OF assms(1,2) this c(1), of 0] c(2) n(3)
  show "\<exists>q. sei_number 0 p = Some (v, q) \<and> rest X q = byte_bits [b] @ r" by auto
next
  assume v: "0 < v \<and> v mod 255 = 0 \<and> b \<noteq> 0xff"
  then obtain k where k: "v = 255 * Suc k" by (metis dvd_def mod_0_imp_dvd mult_0_right not0_implies_Suc less_irrefl)
  have "uv_bytes v = replicate (Suc k) 0xff"
  proof -
    have "v - 1 = 255 * k + 254" using k by simp
    then have d: "(v - 1) div 255 = k" "(v - 1) mod 255 + 1 = 255" by simp_all
    show ?thesis using uv_bytes_eq [of v] v unfolding d by (simp add: replicate_append_same)
  qed
  then have "rest X p = byte_bits (replicate (Suc k) 0xff @ [b]) @ r" using assms(3) by simp
  from sei_number_law [OF assms(1,2) this, of 0] v k
  show "\<exists>q. sei_number 0 p = Some (v + unat b, q) \<and> rest X q = r" by auto
qed

text \<open>A NAL of the bytes \<open>0xff 0x02\<close> and a stop bit: the size 255 is read as 257.\<close>

theorem sei_number_round_trip_witness:
  "\<exists>q. sei_number 0 (InitRbspParser [0xff, 2, 0x80] 3 0 3 (replicate 8 0) True) = Some (257, q)"
proof -
  let ?p = "InitRbspParser [0xff, 2, 0x80] 3 0 3 (replicate 8 0) True"
  let ?X = "[0xff, 2, 0x80] :: u8 list"
  have "[0..<3] = [0, 1, 2 :: nat]" by (simp add: upt_rec)
  then have i: "input ?p = ?X" by (simp add: input_def InitRbspParser_def)
  have c: "clean 0 0 (input ?p) = ?X" unfolding i by simp
  have b: "byte_bits ?X = byte_bits [0xff, 2] @ True # replicate 7 False"
  proof -
    have "field 8 (0x80 :: u32) = True # replicate 7 False" by code_simp
    then show ?thesis by simp
  qed
  note st = stop_bit [OF b]
  have inv: "rp_inv ?p ?X" "rest ?X ?p = map (bit_at ?X) [0..<last_one ?X]"
    by (rule init_inv [OF c refl]; simp)+
  have u: "uv_bytes 255 = [0xff]" by (simp add: uv_bytes.simps [of 255])
  have "rest ?X ?p = byte_bits (uv_bytes 255 @ [2]) @ []" unfolding inv(2) st(2) u by simp
  moreover have "byte_aligned ?p" by (simp add: byte_aligned_def InitRbspParser_def)
  ultimately have "\<exists>q. sei_number 0 ?p = Some (255 + unat (2 :: u8), q)"
    using sei_number_round_trip [OF inv(1), of 255 2 "[]"] by auto
  then show ?thesis by simp
qed

end
