(* ===== verification/AvcSei.thy ===== *)
theory AvcSei imports AvcPpsRoundtrip SeiMessages begin

text \<open>
  Supplemental enhancement information of AVC: the structures of lib_common/SeiInternal.h and HDR.h, the writers of
  lib_bitstream/AVC_RbspEncod.c and lib_encode/NalWriters.c, and the parser of lib_parsing/AvcParser.c with the
  shared messages of common_syntax.c.  Addresses are numbers; the parser's buffer starts at \<open>base\<close>.  The callback is a
  log of its calls, newest last.  The local \<open>sei\<close> of the parser is not initialised: its content before is an argument.
\<close>

section \<open>Structures\<close>

record AL_TAvcBufPeriod =
  bp_seq_parameter_set_id :: u8
  initial_cpb_removal_delay :: "u32 list"
  initial_cpb_removal_delay_offset :: "u32 list"

record AL_TSeiClockTS =
  clock_time_stamp_flag :: u8
  ct_type :: u8
  nuit_field_based_flag :: u8
  counting_type :: u8
  full_time_stamp_flag :: u8
  discontinuity_flag :: u8
  cnt_dropped_flag :: u8
  n_frames :: u8
  seconds_value :: u8
  minutes_value :: u8
  hours_value :: u8
  seconds_flag :: u8
  minutes_flag :: u8
  hours_flag :: u8
  time_offset :: int

record AL_TAvcPicTiming =
  cpb_removal_delay :: u32
  dpb_output_delay :: u32
  pic_struct :: u8
  clock_ts :: "AL_TSeiClockTS list"

record AL_TRecoveryPoint =
  recovery_cnt :: int
  exact_match :: bool
  broken_link :: bool

record AL_TAvcSei =
  present_flags :: u32
  picture_timing :: AL_TAvcPicTiming
  buffering_period :: AL_TAvcBufPeriod
  recovery_point :: AL_TRecoveryPoint

record AL_THDRSEIs =
  bHasMDCV :: bool
  tMDCV :: AL_TMasteringDisplayColourVolume
  bHasCLL :: bool
  tCLL :: AL_TContentLightLevel

definition AL_HDRSEIs_Reset :: "AL_THDRSEIs option \<Rightarrow> AL_THDRSEIs option" where
  "AL_HDRSEIs_Reset pHDRSEIs =
     (case pHDRSEIs of None \<Rightarrow> None | Some h \<Rightarrow> Some (h\<lparr>bHasMDCV := False, bHasCLL := False\<rparr>))"

record AL_TAup =
  avcAup :: AL_TAvcAup
  iRecoveryCnt :: int
  tHDRSEIs :: AL_THDRSEIs

definition AL_SEI_NONE :: u32 where "AL_SEI_NONE = 0x00000000"
definition AL_SEI_BP :: u32 where "AL_SEI_BP = 0x00000001"
definition AL_SEI_PT :: u32 where "AL_SEI_PT = 0x00000002"
definition AL_SEI_RP :: u32 where "AL_SEI_RP = 0x00000004"
definition AL_SEI_MDCV :: u32 where "AL_SEI_MDCV = 0x0000008"
definition AL_SEI_CLL :: u32 where "AL_SEI_CLL = 0x00000010"

definition AL_HAS_SEI_PREFIX :: "u32 \<Rightarrow> bool" where
  "AL_HAS_SEI_PREFIX seiFlag \<longleftrightarrow> seiFlag AND 0x0000FFFF \<noteq> 0"

definition AL_HAS_SEI_SUFFIX :: "u32 \<Rightarrow> bool" where
  "AL_HAS_SEI_SUFFIX seiFlag \<longleftrightarrow> seiFlag AND 0xFFFF0000 \<noteq> 0"

section \<open>The metadata of the messages (lib_common/BufferSeiMeta.c)\<close>

record AL_TSeiMessage =
  bPrefix :: bool
  sei_type :: nat
  sei_pData :: nat
  sei_size :: nat

text \<open>The buffer is its address and its content; allocations that fail are the arguments \<open>False\<close>.\<close>

record AL_TSeiMetaData =
  numPayload :: nat
  maxPayload :: nat
  payload_of :: "AL_TSeiMessage list"
  pBuf :: nat
  pBuf_data :: "u8 list"
  maxBufSize :: nat

definition AL_SeiMetaData_Reset :: "AL_TSeiMetaData \<Rightarrow> AL_TSeiMetaData" where
  "AL_SeiMetaData_Reset pMeta = pMeta\<lparr>numPayload := 0, pBuf_data := replicate (maxBufSize pMeta) 0\<rparr>"

text \<open>\<open>address\<close> and \<open>junk\<close> are what the allocator returns: an address, and the content of the array.\<close>

definition AL_SeiMetaData_Create ::
    "bool \<Rightarrow> bool \<Rightarrow> bool \<Rightarrow> nat \<Rightarrow> AL_TSeiMessage list \<Rightarrow> nat \<Rightarrow> nat \<Rightarrow> AL_TSeiMetaData option" where
  "AL_SeiMetaData_Create ok_meta ok_buf ok_payload address junk uMaxPayload uMaxBufSize =
     (if \<not> ok_meta then None else if \<not> ok_buf then None else if \<not> ok_payload then None
      else Some (AL_SeiMetaData_Reset \<lparr>numPayload = 0, maxPayload = uMaxPayload, payload_of = junk, pBuf = address,
                   pBuf_data = [], maxBufSize = uMaxBufSize\<rparr>))"

definition AL_SeiMetaData_AddPayload :: "AL_TSeiMetaData \<Rightarrow> AL_TSeiMessage \<Rightarrow> (bool \<times> AL_TSeiMetaData) option" where
  "AL_SeiMetaData_AddPayload pMeta payl =
     (if numPayload pMeta + 1 > maxPayload pMeta then Some (False, pMeta)
      else do { ps \<leftarrow> set_at (payload_of pMeta) (numPayload pMeta) payl;
                Some (True, pMeta\<lparr>payload_of := ps, numPayload := numPayload pMeta + 1\<rparr>) })"

definition AL_SeiMetaData_GetBuffer :: "AL_TSeiMetaData \<Rightarrow> nat option" where
  "AL_SeiMetaData_GetBuffer pMeta =
     (if numPayload pMeta = 0 then Some (pBuf pMeta)
      else do { pLast \<leftarrow> at (payload_of pMeta) (numPayload pMeta - 1); Some (sei_pData pLast + sei_size pLast) })"

section \<open>The writers\<close>

definition writeSeiBufferingPeriod :: "AL_TAvcSps \<Rightarrow> int \<Rightarrow> int \<Rightarrow> AL_TBitStreamLite \<Rightarrow> AL_TBitStreamLite option" where
  "writeSeiBufferingPeriod pSps iCpbInitialDelay iCpbInitialOffset pBS =
     do { (bookmark, s1) \<leftarrow> AL_RbspEncoding_BeginSEI 0 pBS;
          s2 \<leftarrow> put_ue (seq_parameter_set_id pSps) s1;
          let iIniCPBLength = unat (initial_cpb_removal_delay_length_minus1 (hrd_param (vui_param pSps))) + 1;
          s3 \<leftarrow> AL_BitStreamLite_PutU iIniCPBLength (of_int iCpbInitialDelay) s2;
          s4 \<leftarrow> AL_BitStreamLite_PutU iIniCPBLength 0 s3;
          s5 \<leftarrow> AL_BitStreamLite_EndOfSEIPayload s4;
          AL_RbspEncoding_EndSEI bookmark s5 }"

definition writeSeiRecoveryPoint :: "int \<Rightarrow> AL_TBitStreamLite \<Rightarrow> AL_TBitStreamLite option" where
  "writeSeiRecoveryPoint iRecoveryFrameCnt pBS =
     do { (bookmark, s1) \<leftarrow> AL_RbspEncoding_BeginSEI 6 pBS;
          s2 \<leftarrow> AL_BitStreamLite_PutUE (of_int iRecoveryFrameCnt) s1;
          s3 \<leftarrow> AL_BitStreamLite_PutBit 1 s2;
          s4 \<leftarrow> AL_BitStreamLite_PutBit 0 s3;
          s5 \<leftarrow> AL_BitStreamLite_PutBits 2 0 s4;
          s6 \<leftarrow> AL_BitStreamLite_EndOfSEIPayload s5;
          AL_RbspEncoding_EndSEI bookmark s6 }"

definition PicStructToNumClockTS :: "nat list" where
  "PicStructToNumClockTS = [1, 1, 1, 2, 2, 3, 3, 2, 3]"

definition hrd_present :: "AL_TAvcSps \<Rightarrow> bool" where
  "hrd_present s \<longleftrightarrow> nal_hrd_parameters_present_flag (hrd_param (vui_param s)) \<noteq> 0
     \<or> vcl_hrd_parameters_present_flag (hrd_param (vui_param s)) \<noteq> 0"

definition writeSeiPictureTiming :: "AL_TAvcSps \<Rightarrow> int \<Rightarrow> int \<Rightarrow> int \<Rightarrow> AL_TBitStreamLite \<Rightarrow> AL_TBitStreamLite option" where
  "writeSeiPictureTiming pSps iCpbRemovalDelay iDpbOutputDelay iPicStruct pBS =
     do { (bookmark, s1) \<leftarrow> AL_RbspEncoding_BeginSEI 1 pBS;
          s2 \<leftarrow> (if hrd_present pSps
                 then do { t1 \<leftarrow> AL_BitStreamLite_PutU 32 (of_int iCpbRemovalDelay) s1;
                           AL_BitStreamLite_PutU 32 (of_int iDpbOutputDelay) t1 }
                 else Some s1);
          s3 \<leftarrow> (if pic_struct_present_flag (vui_param pSps) \<noteq> 0
                 then do { t1 \<leftarrow> AL_BitStreamLite_PutU 4 (of_int iPicStruct) s2;
                           t2 \<leftarrow> assert_that (iPicStruct \<le> 8 \<and> iPicStruct \<ge> 0) t1;
                           n \<leftarrow> at PicStructToNumClockTS (nat iPicStruct);
                           AL_BitStreamLite_PutBits n 0 t2 }
                 else Some s2);
          s4 \<leftarrow> AL_BitStreamLite_EndOfSEIPayload s3;
          AL_RbspEncoding_EndSEI bookmark s4 }"

text \<open>The status of the picture: the members the writers use.\<close>

record AL_TEncPicStatus =
  uDpbOutputDelay :: u32
  iFiller :: int
  uStreamPartOffset :: u32
  iNumParts :: int
  eType :: nat
  ePicStruct :: int
  bIsIDR :: bool
  bIsFirstSlice :: bool
  bIsLastSlice :: bool
  st_iRecoveryCnt :: int
  uTempId :: u8

text \<open>The writers of a codec (lib_bitstream/IRbspWriter.h); those a codec may leave out are options.\<close>

record ('vps, 'sps, 'pps) IRbspWriter =
  GetCodec :: AL_ECodec
  WriteAUD :: "nat \<Rightarrow> AL_TBitStreamLite \<Rightarrow> AL_TBitStreamLite option"
  WriteVPS :: "('vps \<Rightarrow> AL_TBitStreamLite \<Rightarrow> AL_TBitStreamLite option) option"
  WriteSPS :: "'sps \<Rightarrow> int \<Rightarrow> AL_TBitStreamLite \<Rightarrow> AL_TBitStreamLite option"
  WritePPS :: "'pps \<Rightarrow> AL_TBitStreamLite \<Rightarrow> AL_TBitStreamLite option"
  WriteSEI_ActiveParameterSets :: "('vps \<Rightarrow> 'sps \<Rightarrow> AL_TBitStreamLite \<Rightarrow> AL_TBitStreamLite option) option"
  WriteSEI_BufferingPeriod :: "'sps \<Rightarrow> int \<Rightarrow> int \<Rightarrow> AL_TBitStreamLite \<Rightarrow> AL_TBitStreamLite option"
  WriteSEI_RecoveryPoint :: "int \<Rightarrow> AL_TBitStreamLite \<Rightarrow> AL_TBitStreamLite option"
  WriteSEI_PictureTiming :: "'sps \<Rightarrow> int \<Rightarrow> int \<Rightarrow> int \<Rightarrow> AL_TBitStreamLite \<Rightarrow> AL_TBitStreamLite option"
  WriteSEI_MasteringDisplayColourVolume ::
    "AL_TMasteringDisplayColourVolume \<Rightarrow> AL_TBitStreamLite \<Rightarrow> AL_TBitStreamLite option"
  WriteSEI_ContentLightLevel :: "AL_TContentLightLevel \<Rightarrow> AL_TBitStreamLite \<Rightarrow> AL_TBitStreamLite option"
  WriteSEI_UserDataUnregistered :: "u8 list \<Rightarrow> u8 \<Rightarrow> AL_TBitStreamLite \<Rightarrow> AL_TBitStreamLite option"

text \<open>The PPS of AVC points to its SPS, which may be missing.\<close>

definition avc_writer :: "(unit, AL_TAvcSps, AL_TAvcPps \<times> AL_TAvcSps option) IRbspWriter" where
  "avc_writer = \<lparr>GetCodec = AL_CODEC_AVC, WriteAUD = AL_RbspEncoding_WriteAUD, WriteVPS = None, WriteSPS = writeSps,
     WritePPS = (\<lambda>(pps, sps). writePps pps sps), WriteSEI_ActiveParameterSets = None,
     WriteSEI_BufferingPeriod = writeSeiBufferingPeriod, WriteSEI_RecoveryPoint = writeSeiRecoveryPoint,
     WriteSEI_PictureTiming = writeSeiPictureTiming,
     WriteSEI_MasteringDisplayColourVolume = AL_RbspEncoding_WriteMasteringDisplayColourVolume,
     WriteSEI_ContentLightLevel = AL_RbspEncoding_WriteContentLightLevel,
     WriteSEI_UserDataUnregistered = AL_RbspEncoding_WriteUserDataUnregistered\<rparr>"

record 'sps AL_TSeiPrefixCtx =
  ctx_sps :: 'sps
  cpbInitialRemovalDelay :: int
  cpbRemovalDelay :: int
  uFlags :: u32
  pPicStatus :: AL_TEncPicStatus
  pHDRSEIs :: AL_THDRSEIs

text \<open>One turn writes one message and clears its flag.  A flag that is none of the five stays, and the loop does not
  end.\<close>

definition sei_turn ::
    "('vps, 'sps, 'pps) IRbspWriter \<Rightarrow> 'sps AL_TSeiPrefixCtx \<Rightarrow> u32 \<Rightarrow> AL_TBitStreamLite \<Rightarrow> (u32 \<times> AL_TBitStreamLite) option" where
  "sei_turn w pCtx f bs =
     (if f AND AL_SEI_BP \<noteq> 0
      then do { t \<leftarrow> WriteSEI_BufferingPeriod w (ctx_sps pCtx) (cpbInitialRemovalDelay pCtx) 0 bs;
                Some (f AND NOT AL_SEI_BP, t) }
      else if f AND AL_SEI_RP \<noteq> 0
      then do { t \<leftarrow> WriteSEI_RecoveryPoint w (st_iRecoveryCnt (pPicStatus pCtx)) bs; Some (f AND NOT AL_SEI_RP, t) }
      else if f AND AL_SEI_PT \<noteq> 0
      then do { t \<leftarrow> WriteSEI_PictureTiming w (ctx_sps pCtx) (cpbRemovalDelay pCtx)
                       (sint (uDpbOutputDelay (pPicStatus pCtx))) (ePicStruct (pPicStatus pCtx)) bs;
                Some (f AND NOT AL_SEI_PT, t) }
      else if f AND AL_SEI_MDCV \<noteq> 0
      then do { t \<leftarrow> WriteSEI_MasteringDisplayColourVolume w (tMDCV (pHDRSEIs pCtx)) bs; Some (f AND NOT AL_SEI_MDCV, t) }
      else if f AND AL_SEI_CLL \<noteq> 0
      then do { t \<leftarrow> WriteSEI_ContentLightLevel w (tCLL (pHDRSEIs pCtx)) bs; Some (f AND NOT AL_SEI_CLL, t) }
      else Some (f, bs))"

partial_function (option) sei_turns ::
    "('vps, 'sps, 'pps) IRbspWriter \<Rightarrow> 'sps AL_TSeiPrefixCtx \<Rightarrow> u32 \<Rightarrow> AL_TBitStreamLite \<Rightarrow> AL_TBitStreamLite option" where
  "sei_turns w pCtx f bs =
     (if f = 0 then Some bs
      else do { (f1, s1) \<leftarrow> sei_turn w pCtx f bs;
                s2 \<leftarrow> (if f1 = 0 then AL_RbspEncoding_CloseSEI s1 else Some s1);
                sei_turns w pCtx f1 s2 })"

definition seiPrefixWrite ::
    "('vps, 'sps, 'pps) IRbspWriter \<Rightarrow> 'sps AL_TSeiPrefixCtx \<Rightarrow> AL_TBitStreamLite \<Rightarrow> AL_TBitStreamLite option" where
  "seiPrefixWrite w pCtx bitstream = sei_turns w pCtx (uFlags pCtx) bitstream"

definition AL_CreateSeiPrefix ::
    "('vps, 'sps, 'pps) IRbspWriter \<Rightarrow> 'sps AL_TSeiPrefixCtx \<Rightarrow> int \<Rightarrow> int \<Rightarrow> AL_TNalUnit" where
  "AL_CreateSeiPrefix w ctx n temp = AL_CreateNalUnit (seiPrefixWrite w ctx) n 0 0 temp"

end
