(* ===== verification/AvcSeiParser.thy ===== *)
theory AvcSeiParser imports AvcSei begin

text \<open>
  lib_parsing/AvcParser.c, \<open>AL_AVC_ParseSEI\<close>, and the HDR messages of common_syntax.c.
\<close>

section \<open>Payloads\<close>

text \<open>\<open>k\<close> turns are left; the counter and the number of bits are of type \<open>uint8_t\<close>.\<close>

fun delays_loop :: "nat \<Rightarrow> nat \<Rightarrow> nat \<Rightarrow> AL_TAvcBufPeriod \<Rightarrow> AL_TRbspParser \<Rightarrow> (AL_TAvcBufPeriod \<times> AL_TRbspParser) option" where
  "delays_loop 0 i syntax_size b p = Some (b, p)"
| "delays_loop (Suc k) i syntax_size b p =
     do { (d, p1) \<leftarrow> u syntax_size p;
          ds \<leftarrow> set_at (initial_cpb_removal_delay b) i d;
          (e, p2) \<leftarrow> u syntax_size p1;
          es \<leftarrow> set_at (initial_cpb_removal_delay_offset b) i e;
          delays_loop k (i + 1) syntax_size (b\<lparr>initial_cpb_removal_delay := ds, initial_cpb_removal_delay_offset := es\<rparr>) p2 }"

definition delays :: "u8 \<Rightarrow> AL_TAvcSps \<Rightarrow> AL_TAvcBufPeriod \<Rightarrow> AL_TRbspParser \<Rightarrow> (AL_TAvcBufPeriod \<times> AL_TRbspParser) option" where
  "delays flag s b p =
     (if flag \<noteq> 0
      then do { n \<leftarrow> at (cpb_cnt_minus1 (hrd_param (vui_param s))) 0;
                delays_loop (unat n + 1) 0 (unat (initial_cpb_removal_delay_length_minus1 (hrd_param (vui_param s)) + 1)) b p }
      else Some (b, p))"

text \<open>The SPS it belongs to becomes the active one; the table is the decoder's.\<close>

definition sei_buffering_period ::
    "AL_TAvcSps list \<Rightarrow> nat option \<Rightarrow> AL_TAvcBufPeriod \<Rightarrow> AL_TRbspParser \<Rightarrow>
     ((bool \<times> nat option \<times> AL_TAvcBufPeriod) \<times> AL_TRbspParser) option" where
  "sei_buffering_period pSpsTable pActiveSps pBufPeriod p =
     do { (sid, p1) \<leftarrow> (get_ue p :: (u8 \<times> AL_TRbspParser) option);
          let b = pBufPeriod\<lparr>bp_seq_parameter_set_id := sid\<rparr>;
          if sid \<ge> 32 then Some ((False, pActiveSps, b), p1)
          else do { s \<leftarrow> at pSpsTable (unat sid);
                    if bConceal s then Some ((False, pActiveSps, b), p1)
                    else do { (b1, p2) \<leftarrow> delays (nal_hrd_parameters_present_flag (hrd_param (vui_param s))) s b p1;
                              (b2, p3) \<leftarrow> delays (vcl_hrd_parameters_present_flag (hrd_param (vui_param s))) s b1 p2;
                              (r, p4) \<leftarrow> byte_alignment p3;
                              Some ((r, Some (unat sid), b2), p4) } } }"

definition clock_short :: "AL_TSeiClockTS \<Rightarrow> AL_TRbspParser \<Rightarrow> (AL_TSeiClockTS \<times> AL_TRbspParser) option" where
  "clock_short c p =
     do { (sf, p1) \<leftarrow> get_u 1 p;
          let c1 = c\<lparr>seconds_flag := sf\<rparr>;
          if sf \<noteq> 0
          then do { (s, p2) \<leftarrow> get_u 6 p1;
                    (mf, p3) \<leftarrow> get_u 1 p2;
                    let c2 = c1\<lparr>seconds_value := s, minutes_flag := mf\<rparr>;
                    if mf \<noteq> 0
                    then do { (mi, p4) \<leftarrow> get_u 6 p3;
                              (hf, p5) \<leftarrow> get_u 1 p4;
                              let c3 = c2\<lparr>minutes_value := mi, hours_flag := hf\<rparr>;
                              if hf \<noteq> 0 then do { (h, p6) \<leftarrow> get_u 5 p5; Some (c3\<lparr>hours_value := h\<rparr>, p6) }
                              else Some (c3, p5) }
                    else Some (c2, p3) }
          else Some (c1, p1) }"

definition clock_time :: "nat \<Rightarrow> AL_TSeiClockTS \<Rightarrow> AL_TRbspParser \<Rightarrow> (AL_TSeiClockTS \<times> AL_TRbspParser) option" where
  "clock_time offset_length c p =
     do { (f, p0) \<leftarrow> get_u 1 p;
          let c0 = c\<lparr>clock_time_stamp_flag := f\<rparr>;
          if f \<noteq> 0
          then do { (ct, p1) \<leftarrow> get_u 2 p0;
                    (nf, p2) \<leftarrow> get_u 1 p1;
                    (cn, p3) \<leftarrow> get_u 5 p2;
                    (ff, p4) \<leftarrow> get_u 1 p3;
                    (df, p5) \<leftarrow> get_u 1 p4;
                    (cd, p6) \<leftarrow> get_u 1 p5;
                    (nfr, p7) \<leftarrow> get_u 8 p6;
                    let c1 = c0\<lparr>ct_type := ct, nuit_field_based_flag := nf, counting_type := cn,
                                full_time_stamp_flag := ff, discontinuity_flag := df, cnt_dropped_flag := cd, n_frames := nfr\<rparr>;
                    (c2, p8) \<leftarrow> (if ff \<noteq> 0
                                then do { (s, q1) \<leftarrow> get_u 6 p7;
                                          (mi, q2) \<leftarrow> get_u 6 q1;
                                          (h, q3) \<leftarrow> get_u 5 q2;
                                          Some (c1\<lparr>seconds_value := s, minutes_value := mi, hours_value := h\<rparr>, q3) }
                                else clock_short c1 p7);
                    (t, p9) \<leftarrow> i_n offset_length p8;
                    Some (c2\<lparr>time_offset := t\<rparr>, p9) }
          else Some (c0, p0) }"

fun clocks_loop ::
    "nat \<Rightarrow> nat \<Rightarrow> nat \<Rightarrow> AL_TSeiClockTS list \<Rightarrow> AL_TRbspParser \<Rightarrow> (AL_TSeiClockTS list \<times> AL_TRbspParser) option" where
  "clocks_loop 0 i offset_length cs p = Some (cs, p)"
| "clocks_loop (Suc k) i offset_length cs p =
     do { c \<leftarrow> at cs i;
          (c1, p1) \<leftarrow> clock_time offset_length c p;
          clocks_loop k (i + 1) offset_length (cs[i := c1]) p1 }"

definition timing_delays :: "AL_TAvcSps \<Rightarrow> AL_TAvcPicTiming \<Rightarrow> AL_TRbspParser \<Rightarrow> ((nat \<times> AL_TAvcPicTiming) \<times> AL_TRbspParser) option" where
  "timing_delays s t p =
     (if hrd_present s
      then do { (c, p1) \<leftarrow> u (unat (au_cpb_removal_delay_length_minus1 (hrd_param (vui_param s)) + 1)) p;
                (d, p2) \<leftarrow> u (unat (dpb_output_delay_length_minus1 (hrd_param (vui_param s)) + 1)) p1;
                Some ((unat (time_offset_length (hrd_param (vui_param s))),
                       t\<lparr>cpb_removal_delay := c, dpb_output_delay := d\<rparr>), p2) }
      else Some ((0, t), p))"

definition sei_pic_timing ::
    "AL_TAvcSps option \<Rightarrow> AL_TAvcPicTiming \<Rightarrow> AL_TRbspParser \<Rightarrow> ((bool \<times> AL_TAvcPicTiming) \<times> AL_TRbspParser) option" where
  "sei_pic_timing sps pPicTiming p =
     (case sps of
        None \<Rightarrow> Some ((False, pPicTiming), p)
      | Some s \<Rightarrow>
          if bConceal s then Some ((False, pPicTiming), p)
          else do { ((offset_length, t1), p1) \<leftarrow> timing_delays s pPicTiming p;
                    (t2, p2) \<leftarrow> (if pic_struct_present_flag (vui_param s) \<noteq> 0
                                then do { (ps, q1) \<leftarrow> get_u 4 p1;
                                          n \<leftarrow> at PicStructToNumClockTS (unat ps);
                                          (cs, q2) \<leftarrow> clocks_loop n 0 offset_length (clock_ts t1) q1;
                                          Some (t1\<lparr>pic_struct := ps, clock_ts := cs\<rparr>, q2) }
                                else Some (t1, p1));
                    (r, p3) \<leftarrow> byte_alignment p2;
                    Some ((r, t2), p3) })"

definition sei_recovery_point :: "AL_TRbspParser \<Rightarrow> ((bool \<times> AL_TRecoveryPoint) \<times> AL_TRbspParser) option" where
  "sei_recovery_point p =
     do { (c, p1) \<leftarrow> get_ue_int p;
          (e, p2) \<leftarrow> u 1 p1;
          (b, p3) \<leftarrow> u 1 p2;
          (_, p4) \<leftarrow> u 2 p3;
          (r, p5) \<leftarrow> byte_alignment p4;
          Some ((r, \<lparr>recovery_cnt = c, exact_match = (e \<noteq> 0), broken_link = (b \<noteq> 0)\<rparr>), p5) }"

text \<open>The tail of the HDR messages.\<close>

definition aligned_end :: "AL_TRbspParser \<Rightarrow> (bool \<times> AL_TRbspParser) option" where
  "aligned_end p = (if byte_aligned p then Some (True, p) else byte_alignment p)"

fun coordinates_loop :: "nat \<Rightarrow> AL_TChromaCoordinates list \<Rightarrow> AL_TRbspParser \<Rightarrow> (AL_TChromaCoordinates list \<times> AL_TRbspParser) option" where
  "coordinates_loop 0 cs p = Some (cs, p)"
| "coordinates_loop (Suc k) cs p =
     do { (x, p1) \<leftarrow> get_u 16 p; (y, p2) \<leftarrow> get_u 16 p1;
          coordinates_loop k (cs @ [\<lparr>chroma_x = x, chroma_y = y\<rparr>]) p2 }"

definition sei_mastering_display_colour_volume ::
    "AL_TRbspParser \<Rightarrow> ((bool \<times> AL_TMasteringDisplayColourVolume) \<times> AL_TRbspParser) option" where
  "sei_mastering_display_colour_volume p =
     do { (cs, p1) \<leftarrow> coordinates_loop 3 [] p;
          (x, p2) \<leftarrow> get_u 16 p1; (y, p3) \<leftarrow> get_u 16 p2;
          (ma, p4) \<leftarrow> u 32 p3; (mi, p5) \<leftarrow> u 32 p4;
          (r, p6) \<leftarrow> aligned_end p5;
          Some ((r, \<lparr>display_primaries = cs, white_point = \<lparr>chroma_x = x, chroma_y = y\<rparr>,
                     max_display_mastering_luminance = ma, min_display_mastering_luminance = mi\<rparr>), p6) }"

definition sei_content_light_level :: "AL_TRbspParser \<Rightarrow> ((bool \<times> AL_TContentLightLevel) \<times> AL_TRbspParser) option" where
  "sei_content_light_level p =
     do { (a, p1) \<leftarrow> get_u 16 p; (b, p2) \<leftarrow> get_u 16 p1;
          (r, p3) \<leftarrow> aligned_end p2;
          Some ((r, \<lparr>max_content_light_level = a, max_pic_average_light_level = b\<rparr>), p3) }"

section \<open>Messages\<close>

definition SEI_PTYPE_BUFFERING_PERIOD :: nat where "SEI_PTYPE_BUFFERING_PERIOD = 0"
definition SEI_PTYPE_PIC_TIMING :: nat where "SEI_PTYPE_PIC_TIMING = 1"
definition SEI_PTYPE_USER_DATA_UNREGISTERED :: nat where "SEI_PTYPE_USER_DATA_UNREGISTERED = 5"
definition SEI_PTYPE_RECOVERY_POINT :: nat where "SEI_PTYPE_RECOVERY_POINT = 6"
definition SEI_PTYPE_MASTERING_DISPLAY_COLOUR_VOLUME :: nat where "SEI_PTYPE_MASTERING_DISPLAY_COLOUR_VOLUME = 137"
definition SEI_PTYPE_CONTENT_LIGHT_LEVEL :: nat where "SEI_PTYPE_CONTENT_LIGHT_LEVEL = 144"

text \<open>What the macro \<open>PARSE_OR_SKIP\<close> does with a payload of \<open>payload_size\<close> bytes: it was parsed, the rest of it is
  skipped, or the function returns \<open>false\<close>.\<close>

datatype parse_outcome = Parsed | Skipped | Returned

definition payload_bits :: "nat \<Rightarrow> nat" where
  "payload_bits payload_size = (payload_size * 8) mod 2 ^ 32"

definition parse_or_skip ::
    "nat \<Rightarrow> (AL_TRbspParser \<Rightarrow> ((bool \<times> 'a) \<times> AL_TRbspParser) option) \<Rightarrow> AL_TRbspParser \<Rightarrow>
     ((parse_outcome \<times> 'a) \<times> AL_TRbspParser) option" where
  "parse_or_skip payload_size f p =
     do { ((bRet, x), p1) \<leftarrow> f p;
          if bRet then Some ((Parsed, x), p1)
          else do { let uOffset = diff32 (offset p1) (offset p);
                    if uOffset > payload_bits payload_size then Some ((Returned, x), p1)
                    else do { p2 \<leftarrow> skip (payload_bits payload_size - uOffset) p1; Some ((Skipped, x), p2) } } }"

text \<open>What the loop works on: the local structure, the access unit, the metadata if there is any, the calls.\<close>

record sei_state =
  ss_sei :: AL_TAvcSei
  ss_aup :: AL_TAup
  ss_meta :: "AL_TSeiMetaData option"
  ss_calls :: "AL_TSeiMessage list"

definition case_buffering_period :: "nat \<Rightarrow> sei_state \<Rightarrow> AL_TRbspParser \<Rightarrow> ((bool \<times> bool \<times> sei_state) \<times> AL_TRbspParser) option" where
  "case_buffering_period payload_size st p =
     do { let aup = avcAup (ss_aup st);
          ((res, act, b), p1) \<leftarrow> parse_or_skip payload_size
             (sei_buffering_period (pSPS aup) (pActiveSPS aup) (buffering_period (ss_sei st))) p;
          let sei = (ss_sei st)\<lparr>buffering_period := b\<rparr>;
          Some ((res \<noteq> Returned, True,
                 st\<lparr>ss_aup := (ss_aup st)\<lparr>avcAup := aup\<lparr>pActiveSPS := act\<rparr>\<rparr>,
                    ss_sei := (if res = Parsed then sei\<lparr>present_flags := present_flags sei OR AL_SEI_BP\<rparr> else sei)\<rparr>), p1) }"

definition active_sps :: "AL_TAvcAup \<Rightarrow> AL_TAvcSps option option" where
  "active_sps aup =
     (case pActiveSPS aup of None \<Rightarrow> Some None | Some i \<Rightarrow> do { s \<leftarrow> at (pSPS aup) i; Some (Some s) })"

definition case_pic_timing :: "nat \<Rightarrow> sei_state \<Rightarrow> AL_TRbspParser \<Rightarrow> ((bool \<times> bool \<times> sei_state) \<times> AL_TRbspParser) option" where
  "case_pic_timing payload_size st p =
     do { act \<leftarrow> active_sps (avcAup (ss_aup st));
          ((res, t), p1) \<leftarrow> parse_or_skip payload_size (sei_pic_timing act (picture_timing (ss_sei st))) p;
          let sei = (ss_sei st)\<lparr>picture_timing := t\<rparr>;
          Some ((res \<noteq> Returned, True,
                 st\<lparr>ss_sei := (if res = Parsed then sei\<lparr>present_flags := present_flags sei OR AL_SEI_PT\<rparr> else sei)\<rparr>), p1) }"

text \<open>The counter of the access unit is of type \<open>int\<close>.\<close>

definition case_recovery_point :: "nat \<Rightarrow> sei_state \<Rightarrow> AL_TRbspParser \<Rightarrow> ((bool \<times> bool \<times> sei_state) \<times> AL_TRbspParser) option" where
  "case_recovery_point payload_size st p =
     do { ((res, r), p1) \<leftarrow> parse_or_skip payload_size sei_recovery_point p;
          let st1 = st\<lparr>ss_sei := (ss_sei st)\<lparr>recovery_point := r\<rparr>\<rparr>;
          Some ((res \<noteq> Returned, True,
                 (if res = Parsed
                  then st1\<lparr>ss_aup := (ss_aup st1)\<lparr>iRecoveryCnt := sint (of_int (recovery_cnt r + 1) :: u32)\<rparr>\<rparr>
                  else st1)), p1) }"

definition case_mdcv :: "nat \<Rightarrow> sei_state \<Rightarrow> AL_TRbspParser \<Rightarrow> ((bool \<times> bool \<times> sei_state) \<times> AL_TRbspParser) option" where
  "case_mdcv payload_size st p =
     do { ((res, v), p1) \<leftarrow> parse_or_skip payload_size sei_mastering_display_colour_volume p;
          let h = (tHDRSEIs (ss_aup st))\<lparr>tMDCV := v\<rparr>;
          Some ((res \<noteq> Returned, res \<noteq> Parsed,
                 st\<lparr>ss_aup := (ss_aup st)\<lparr>tHDRSEIs := (if res = Parsed then h\<lparr>bHasMDCV := True\<rparr> else h)\<rparr>\<rparr>), p1) }"

definition case_cll :: "nat \<Rightarrow> sei_state \<Rightarrow> AL_TRbspParser \<Rightarrow> ((bool \<times> bool \<times> sei_state) \<times> AL_TRbspParser) option" where
  "case_cll payload_size st p =
     do { ((res, v), p1) \<leftarrow> parse_or_skip payload_size sei_content_light_level p;
          let h = (tHDRSEIs (ss_aup st))\<lparr>tCLL := v\<rparr>;
          Some ((res \<noteq> Returned, res \<noteq> Parsed,
                 st\<lparr>ss_aup := (ss_aup st)\<lparr>tHDRSEIs := (if res = Parsed then h\<lparr>bHasCLL := True\<rparr> else h)\<rparr>\<rparr>), p1) }"

text \<open>The switch: whether the function goes on, whether the message is passed on, and the state.\<close>

definition sei_payload :: "nat \<Rightarrow> nat \<Rightarrow> sei_state \<Rightarrow> AL_TRbspParser \<Rightarrow> ((bool \<times> bool \<times> sei_state) \<times> AL_TRbspParser) option" where
  "sei_payload payload_type payload_size st p =
     (if payload_type = SEI_PTYPE_BUFFERING_PERIOD then case_buffering_period payload_size st p
      else if payload_type = SEI_PTYPE_PIC_TIMING then case_pic_timing payload_size st p
      else if payload_type = SEI_PTYPE_RECOVERY_POINT then case_recovery_point payload_size st p
      else if payload_type = SEI_PTYPE_MASTERING_DISPLAY_COLOUR_VOLUME then case_mdcv payload_size st p
      else if payload_type = SEI_PTYPE_CONTENT_LIGHT_LEVEL then case_cll payload_size st p
      else do { p1 \<leftarrow> skip (payload_bits payload_size) p; Some ((True, True, st), p1) })"

definition pass_on :: "AL_TSeiMessage \<Rightarrow> bool \<Rightarrow> sei_state \<Rightarrow> (bool \<times> sei_state) option" where
  "pass_on msg hasCb st =
     do { (ok, m) \<leftarrow> (case ss_meta st of None \<Rightarrow> Some (True, None)
                      | Some m \<Rightarrow> do { (ok, m1) \<leftarrow> AL_SeiMetaData_AddPayload m msg; Some (ok, Some m1) });
          let st1 = st\<lparr>ss_meta := m\<rparr>;
          if \<not> ok then Some (False, st1)
          else Some (True, if hasCb then st1\<lparr>ss_calls := ss_calls st1 @ [msg]\<rparr> else st1) }"

definition sei_message ::
    "nat \<Rightarrow> bool \<Rightarrow> bool \<Rightarrow> sei_state \<Rightarrow> AL_TRbspParser \<Rightarrow> ((bool \<times> sei_state) \<times> AL_TRbspParser) option" where
  "sei_message base bIsPrefix hasCb st p =
     (if \<not> byte_aligned p then Some ((False, st), p)
      else do { (payload_type, p1) \<leftarrow> sei_number 0 p;
                (payload_size, p2) \<leftarrow> sei_number 0 p1;
                let msg = \<lparr>bPrefix = bIsPrefix, sei_type = payload_type, sei_pData = base + get_raw_data p2,
                           sei_size = payload_size\<rparr>;
                ((go, bCB, st1), p3) \<leftarrow> sei_payload payload_type payload_size st p2;
                if \<not> go then Some ((False, st1), p3)
                else if bCB then do { (ok, st2) \<leftarrow> pass_on msg hasCb st1; Some ((ok, st2), p3) }
                else Some ((True, st1), p3) })"

partial_function (option) sei_loop ::
    "nat \<Rightarrow> bool \<Rightarrow> bool \<Rightarrow> sei_state \<Rightarrow> AL_TRbspParser \<Rightarrow> ((bool \<times> sei_state) \<times> AL_TRbspParser) option" where
  "sei_loop base bIsPrefix hasCb st p =
     do { (more, p1) \<leftarrow> more_rbsp_data p;
          if \<not> more then Some ((True, st), p1)
          else do { ((ok, st1), p2) \<leftarrow> sei_message base bIsPrefix hasCb st p1;
                    if ok then sei_loop base bIsPrefix hasCb st1 p2 else Some ((False, st1), p2) } }"

definition sei_start :: "AL_TAvcSei \<Rightarrow> AL_TAup \<Rightarrow> AL_TSeiMetaData option \<Rightarrow> sei_state" where
  "sei_start local pIAup pMeta =
     \<lparr>ss_sei = local\<lparr>present_flags := 0\<rparr>, ss_aup = pIAup, ss_meta = pMeta, ss_calls = []\<rparr>"

definition AL_AVC_ParseSEI ::
    "AL_TAvcSei \<Rightarrow> nat \<Rightarrow> AL_TAup \<Rightarrow> bool \<Rightarrow> bool \<Rightarrow> AL_TSeiMetaData option \<Rightarrow> AL_TRbspParser \<Rightarrow>
     ((bool \<times> sei_state) \<times> AL_TRbspParser) option" where
  "AL_AVC_ParseSEI local base pIAup bIsPrefix hasCb pMeta p =
     do { p0 \<leftarrow> skipAllZerosAndTheNextByte p; (_, p1) \<leftarrow> u 8 p0;
          sei_loop base bIsPrefix hasCb (sei_start local pIAup pMeta) p1 }"

end
