(* ===== verification/SeiWriterProofs.thy ===== *)
theory SeiWriterProofs imports AvcSeiParser begin

text \<open>
  What the SEI writers put into the stream: from a byte boundary on, every message is its type, its size in bytes, its
  elements and the bits that fill the last byte.
\<close>

section \<open>Writers that start and stop at a byte boundary\<close>

definition emits_bytes_of :: "(AL_TBitStreamLite \<Rightarrow> AL_TBitStreamLite option) \<Rightarrow> bool list \<Rightarrow> bool" where
  "emits_bytes_of f bits \<longleftrightarrow> (\<forall>s. bs_ok s \<and> iBitCount s mod 8 = 0 \<and> length bits \<le> bs_room s \<longrightarrow>
     (\<exists>t. f s = Some t \<and> bs_ok t \<and> iBitCount t mod 8 = 0 \<and> written t = written s @ bits
        \<and> bs_room t + length bits = bs_room s))"

lemma emits_bytes_ofD:
  "emits_bytes_of f bits \<Longrightarrow> bs_ok s \<Longrightarrow> iBitCount s mod 8 = 0 \<Longrightarrow> length bits \<le> bs_room s \<Longrightarrow>
   \<exists>t. f s = Some t \<and> bs_ok t \<and> iBitCount t mod 8 = 0 \<and> written t = written s @ bits \<and> bs_room t + length bits = bs_room s"
  by (simp add: emits_bytes_of_def)

lemma emits_bytes_of_nothing: "emits_bytes_of Some []"
  by (simp add: emits_bytes_of_def)

lemma emits_bytes_of_bind:
  assumes f: "emits_bytes_of f a" and g: "emits_bytes_of g b"
  shows "emits_bytes_of (\<lambda>s. do { t \<leftarrow> f s; g t }) (a @ b)"
  unfolding emits_bytes_of_def
proof (intro allI impI, elim conjE)
  fix s assume s: "bs_ok s" "iBitCount s mod 8 = 0" "length (a @ b) \<le> bs_room s"
  then have "length a \<le> bs_room s" by simp
  from emits_bytes_ofD [OF f s(1,2) this] obtain t where
    t: "f s = Some t" "bs_ok t" "iBitCount t mod 8 = 0" "written t = written s @ a" "bs_room t + length a = bs_room s"
    by (elim exE conjE) (rule that)
  then have "length b \<le> bs_room t" using s(3) by simp
  from emits_bytes_ofD [OF g t(2,3) this] obtain r where
    r: "g t = Some r" "bs_ok r" "iBitCount r mod 8 = 0" "written r = written t @ b" "bs_room r + length b = bs_room t"
    by (elim exE conjE) (rule that)
  show "\<exists>r. do { t \<leftarrow> f s; g t } = Some r \<and> bs_ok r \<and> iBitCount r mod 8 = 0 \<and> written r = written s @ a @ b
      \<and> bs_room r + length (a @ b) = bs_room s"
    using t r by (intro exI [of _ r]) simp
qed

lemma written_length: "length (written s) = iBitCount s"
  by (simp add: written_def)

section \<open>The bits that fill a byte\<close>

lemma PutInByte_max: "PutInByte n v s = Some t \<Longrightarrow> iMaxBits t = iMaxBits s"
  by (auto simp: PutInByte_def writeData_def Let_def split: bind_split_asm if_splits)

lemma put_loop_max: "put_loop n v s = Some t \<Longrightarrow> iMaxBits t = iMaxBits s"
proof (induction n v s arbitrary: t rule: put_loop.induct)
  case (1 n v s)
  let ?k = "8 - iBitCount s mod 8"
  show ?case
  proof (cases "n > ?k")
    case True
    with 1(2) obtain r where
      r: "PutInByte ?k (ucast (ucast (drop_bit (n - ?k) v) :: u8)) s = Some r"
        "put_loop (n - ?k) (v AND drop_bit ?k 0xffffffff) r = Some t"
      by (auto simp: put_loop.simps [of n v s] Let_def split: bind_split_asm)
    from "1.IH" [OF refl True refl r] PutInByte_max [OF r(1)] show ?thesis by simp
  next
    case False
    with 1(2) show ?thesis by (simp add: put_loop.simps [of n v s] PutInByte_max)
  qed
qed

lemma PutBits_max: "AL_BitStreamLite_PutBits n v s = Some t \<Longrightarrow> iMaxBits t = iMaxBits s"
  by (auto simp: AL_BitStreamLite_PutBits_def intro: put_loop_max split: if_splits)

lemma align_loop_max: "align_loop fuel b s = Some t \<Longrightarrow> iMaxBits t = iMaxBits s"
proof (induction fuel arbitrary: s)
  case (Suc fuel)
  then show ?case
    by (auto simp: AL_BitStreamLite_PutBit_def split: if_splits bind_split_asm dest!: PutBits_max)
qed simp

definition pad_bits :: "nat \<Rightarrow> bool list" where
  "pad_bits n = (if n mod 8 = 0 then [] else True # replicate (7 - n mod 8) False)"

lemma pad_bits_length: "(n + length (pad_bits n)) mod 8 = 0"
proof -
  have "n mod 8 < 8" by simp
  then have "n mod 8 = 0 \<or> (n mod 8 + (1 + (7 - n mod 8))) = 8" by linarith
  moreover have "n + k = 8 * (n div 8) + (n mod 8 + k)" for k :: nat by simp
  ultimately have "n mod 8 = 0 \<or> n + (1 + (7 - n mod 8)) = 8 * (n div 8) + 8" by metis
  then show ?thesis by (auto simp: pad_bits_def)
qed

lemma EndOfSEIPayload_law:
  assumes "bs_ok s"
  shows "\<exists>t. AL_BitStreamLite_EndOfSEIPayload s = Some t \<and> bs_ok t \<and> iBitCount t mod 8 = 0
    \<and> written t = written s @ pad_bits (iBitCount s) \<and> iMaxBits t = iMaxBits s"
proof (cases "iBitCount s mod 8 = 0")
  case True
  with assms show ?thesis by (simp add: AL_BitStreamLite_EndOfSEIPayload_def pad_bits_def)
next
  case False
  have "1 \<le> bs_room s"
  proof -
    have "8 dvd iMaxBits s" "iBitCount s \<le> iMaxBits s" using assms by (simp_all add: bs_ok_def)
    moreover from this(1) False have "iBitCount s \<noteq> iMaxBits s" by auto
    ultimately show ?thesis by (simp add: bs_room_def)
  qed
  from close_law [OF assms this] obtain t m where
    t: "AL_RbspEncoding_CloseSEI s = Some t" "bs_ok t" "iBitCount t mod 8 = 0" "m < 8"
      "written t = written s @ True # replicate m False" by (elim exE conjE) (rule that)
  have e: "AL_BitStreamLite_EndOfSEIPayload s = Some t"
    using t(1) False by (simp add: AL_BitStreamLite_EndOfSEIPayload_def AL_RbspEncoding_CloseSEI_def AL_BitStreamLite_PutU_def)
  have "iBitCount t = iBitCount s + 1 + m" using arg_cong [OF t(5), of length] by (simp add: written_length)
  then have "(iBitCount s mod 8 + (1 + m)) mod 8 = 0" using t(3) by (simp only: mod_add_left_eq add.assoc)
  then obtain q where "iBitCount s mod 8 + (1 + m) = 8 * q" by blast
  moreover have "0 < iBitCount s mod 8" "iBitCount s mod 8 < 8" using False by simp_all
  moreover have "c + (1 + n) = 8 * d \<Longrightarrow> 0 < c \<Longrightarrow> c < 8 \<Longrightarrow> n < 8 \<Longrightarrow> n = 7 - c" for c d n :: nat by arith
  ultimately have "m = 7 - iBitCount s mod 8" using t(4) by blast
  then have w: "written t = written s @ pad_bits (iBitCount s)" using t(5) False by (simp add: pad_bits_def)
  have al: "AL_BitStreamLite_AlignWithBits 0 = align_loop 8 0"
    by (rule ext) (simp add: AL_BitStreamLite_AlignWithBits_def)
  have "Option.bind (AL_BitStreamLite_PutBits 1 1 s) (align_loop 8 0) = Some t"
    using e False by (simp add: AL_BitStreamLite_EndOfSEIPayload_def al)
  then obtain x where x: "AL_BitStreamLite_PutBits 1 1 s = Some x" "align_loop 8 0 x = Some t"
    unfolding bind_eq_Some_conv by blast
  have "iMaxBits t = iMaxBits s" using PutBits_max [OF x(1)] align_loop_max [OF x(2)] by simp
  with e t(2,3) w show ?thesis by (intro exI [of _ t] conjI)
qed

section \<open>The size of a message\<close>

lemma middle_nth: "length A = a \<Longrightarrow> j < length F \<Longrightarrow> (A @ F @ B) ! (a + j) = F ! j"
  by (auto simp: nth_append)

lemma behind_nth: "length A = a \<Longrightarrow> length F = n \<Longrightarrow> (A @ F @ B) ! (a + n + j) = B ! j"
  by (auto simp: nth_append)

text \<open>\<open>EndSEI\<close> replaces the byte at the bookmark.\<close>

lemma EndSEI_law:
  assumes r: "bs_ok r" "iBitCount r mod 8 = 0" "written r = A @ field 8 0xff @ B"
    and b: "length A = bm" "bm mod 8 = 0"
  shows "\<exists>t. AL_RbspEncoding_EndSEI bm r = Some t \<and> bs_ok t \<and> iBitCount t = iBitCount r \<and> iMaxBits t = iMaxBits r
    \<and> written t = A @ field 8 (ucast (of_nat (length B div 8) :: u8)) @ B"
proof -
  obtain k where k: "bm = 8 * k" using b(2) by auto
  have c: "iBitCount r = bm + 8 + length B" using arg_cong [OF r(3), of length] b(1) by (simp add: written_length)
  have kl: "k < length (pData r)" using r(1) c k by (simp add: bs_ok_def)
  have at_bits: "bit_at (pData r) i = (A @ field 8 0xff @ B) ! i" if "i < iBitCount r" for i
    using arg_cong [OF r(3), of "\<lambda>l. l ! i"] that by (simp add: written_def)
  have ff: "pData r ! k = 0xff"
  proof (rule bit_word_eqI)
    fix n assume "n < LENGTH(8)"
    then have n: "n < 8" by simp
    have p: "(8 * k + (7 - n)) div 8 = k" "7 - (8 * k + (7 - n)) mod 8 = n" using byte_pos [of "7 - n" k] n by simp_all
    have "bit (pData r ! k) n = (A @ field 8 0xff @ B) ! (8 * k + (7 - n))"
      using at_bits [of "8 * k + (7 - n)"] p n c k by (simp add: bit_at_def)
    also have "\<dots> = bit (0xff :: u32) n"
      using middle_nth [of A "8 * k" "7 - n" "field 8 0xff" B] b(1) k n by (simp add: field_nth)
    also have "\<dots> = bit (0xff :: u8) n"
    proof -
      consider "n = 0" | "n = 1" | "n = 2" | "n = 3" | "n = 4" | "n = 5" | "n = 6" | "n = 7" using n by linarith
      then show ?thesis by cases simp_all
    qed
    finally show "bit (pData r ! k) n = bit (0xff :: u8) n" .
  qed
  define v where "v = (of_nat (length B div 8) :: u8)"
  have "(8 * k + (8 + length B)) mod 8 = 0" using r(2) c k by (simp only: add.assoc)
  then have lb: "(8 + length B) mod 8 = 0" "(8 + length B) div 8 = 1 + length B div 8"
    by simp_all
  have sz: "of_int (int ((8 + length B) div 8) - 1) = v" unfolding lb(2) v_def by simp
  let ?t = "r\<lparr>pData := (pData r)[k := v]\<rparr>"
  have e: "AL_RbspEncoding_EndSEI bm r = Some ?t"
    using kl ff lb(1) sz c k by (simp add: AL_RbspEncoding_EndSEI_def at_def AL_BitStreamLite_GetData_def AL_BitStreamLite_GetBitsCount_def)
  have "written ?t = A @ field 8 (ucast v) @ B"
  proof (rule nth_equalityI)
    show "length (written ?t) = length (A @ field 8 (ucast v) @ B)" using c b(1) by (simp add: written_length)
  next
    fix i assume "i < length (written ?t)"
    then have i: "i < iBitCount r" by (simp add: written_length)
    then have w: "written ?t ! i = bit_at ((pData r)[k := v]) i" by (simp add: written_def)
    show "written ?t ! i = (A @ field 8 (ucast v) @ B) ! i"
    proof (cases "i div 8 = k")
      case True
      then obtain j where j: "i = 8 * k + j" "j < 8" by (metis mod_less_divisor mult_div_mod_eq zero_less_numeral)
      have "bit_at ((pData r)[k := v]) i = bit v (7 - j)" using byte_pos [OF j(2), of k] j(1) kl by (simp add: bit_at_def)
      also have "\<dots> = (A @ field 8 (ucast v) @ B) ! i"
        using middle_nth [of A "8 * k" j "field 8 (ucast v)" B] b(1) k j by (auto simp: field_nth bit_ucast_iff)
      finally show ?thesis using w by simp
    next
      case False
      then have "bit_at ((pData r)[k := v]) i = (A @ field 8 0xff @ B) ! i"
        using at_bits [OF i] by (simp add: bit_at_def nth_list_update)
      also have "\<dots> = (A @ field 8 (ucast v) @ B) ! i"
      proof (cases "i < 8 * k")
        case True
        then show ?thesis using b(1) k by (simp add: nth_append)
      next
        case ge: False
        have "k \<le> i div 8" using div_le_mono [of "8 * k" i 8] ge by simp
        then have "k + 1 \<le> i div 8" using False by simp
        then have "8 * (k + 1) \<le> 8 * (i div 8)" by (rule mult_le_mono2)
        also have "\<dots> \<le> i" by simp
        finally have "8 * k + 8 \<le> i" by simp
        then obtain j where j: "i = 8 * k + 8 + j" using le_Suc_ex by blast
        show ?thesis using b(1) k unfolding j by (simp only: behind_nth field_length)
      qed
      finally show ?thesis using w by simp
    qed
  qed
  with e r(1,2) show ?thesis by (intro exI [of _ ?t]) (simp add: v_def bs_ok_def)
qed

section \<open>A message\<close>

definition sei_pad :: "nat \<Rightarrow> (shape \<times> int) list" where
  "sei_pad n = (if n mod 8 = 0 then [] else [(Fixed (8 - n mod 8), 2 ^ (7 - n mod 8))])"

definition message_elems :: "u8 \<Rightarrow> (shape \<times> int) list \<Rightarrow> (shape \<times> int) list" where
  "message_elems t es =
     (Fixed 8, uint t) # (Fixed 8, int ((length (elems_bits es) + 7) div 8)) # es @ sei_pad (length (elems_bits es))"

definition write_message ::
    "u8 \<Rightarrow> (AL_TBitStreamLite \<Rightarrow> AL_TBitStreamLite option) \<Rightarrow> AL_TBitStreamLite \<Rightarrow> AL_TBitStreamLite option" where
  "write_message t f s =
     do { (bm, s1) \<leftarrow> AL_RbspEncoding_BeginSEI t s;
          s2 \<leftarrow> f s1;
          s3 \<leftarrow> AL_BitStreamLite_EndOfSEIPayload s2;
          AL_RbspEncoding_EndSEI bm s3 }"

lemma sei_pad_bits: "elems_bits (sei_pad n) = pad_bits n"
proof -
  have "n mod 8 < 8" by simp
  then consider "n mod 8 = 0" | "n mod 8 = 1" | "n mod 8 = 2" | "n mod 8 = 3" | "n mod 8 = 4" | "n mod 8 = 5"
    | "n mod 8 = 6" | "n mod 8 = 7" by linarith
  then show ?thesis by cases (simp_all add: sei_pad_def pad_bits_def, code_simp+)
qed

lemma sei_pad_ok: "\<forall>e \<in> set (sei_pad n). elem_ok e"
proof -
  have "n mod 8 < 8" by simp
  then consider "n mod 8 = 0" | "n mod 8 = 1" | "n mod 8 = 2" | "n mod 8 = 3" | "n mod 8 = 4" | "n mod 8 = 5"
    | "n mod 8 = 6" | "n mod 8 = 7" by linarith
  then show ?thesis by cases (simp_all add: sei_pad_def)
qed

lemma write_message_law:
  assumes f: "\<And>s. f s = put_elems es s" and ok: "\<forall>e \<in> set es. elem_ok e" "(length (elems_bits es) + 7) div 8 < 256"
  shows "emits_bytes_of (write_message t f) (elems_bits (message_elems t es))"
  unfolding emits_bytes_of_def
proof (intro allI impI, elim conjE)
  fix s
  let ?L = "length (elems_bits es)" let ?n = "(?L + 7) div 8"
  assume s: "bs_ok s" "iBitCount s mod 8 = 0" "length (elems_bits (message_elems t es)) \<le> bs_room s"
  have mb: "elems_bits (message_elems t es) = field 8 (of_int (uint t)) @ field 8 (of_int (int ?n)) @ elems_bits es @ pad_bits ?L"
    by (simp only: message_elems_def elems_bits_simps elem_bits.simps sei_pad_bits)
  have ut: "of_int (uint t) = (ucast t :: u32)" by (simp only: ucast_eq)
  have len: "length (elems_bits (message_elems t es)) = 16 + ?L + length (pad_bits ?L)"
    unfolding mb length_append field_length by simp
  have room: "16 + ?L + length (pad_bits ?L) \<le> bs_room s" using s(3) unfolding len .
  have f8: "field_ok (8, ucast t)" by (rule byte_ok)
  have ff: "field_ok (8, 0xff)" using byte_ok [of "0xff"] by simp
  from emitsD [OF emits_field [OF f8] s(1)] room obtain s1 where
    s1: "AL_BitStreamLite_PutBits 8 (ucast t) s = Some s1" "bs_ok s1" "written s1 = written s @ field 8 (ucast t)"
      "bs_room s1 + 8 = bs_room s" by auto
  from emitsD [OF emits_field [OF ff] s1(2)] room s1(4) obtain s2 where
    s2: "AL_BitStreamLite_PutBits 8 0xff s1 = Some s2" "bs_ok s2" "written s2 = written s1 @ field 8 0xff"
      "bs_room s2 + 8 = bs_room s1" by auto
  from emitsD [OF put_elems_law [OF ok(1)] s2(2)] room s1(4) s2(4) obtain s3 where
    s3: "put_elems es s2 = Some s3" "bs_ok s3" "written s3 = written s2 @ elems_bits es" "bs_room s3 + ?L = bs_room s2" by auto
  from EndOfSEIPayload_law [OF s3(2)] obtain s4 where
    s4: "AL_BitStreamLite_EndOfSEIPayload s3 = Some s4" "bs_ok s4" "iBitCount s4 mod 8 = 0"
      "written s4 = written s3 @ pad_bits (iBitCount s3)" "iMaxBits s4 = iMaxBits s3" by (elim exE conjE) (rule that)
  note cnt = arg_cong [where f = length, OF s1(3)] arg_cong [where f = length, OF s2(3)] arg_cong [where f = length, OF s3(3)]
  have c1: "iBitCount s1 = iBitCount s + 8" "iBitCount s2 = iBitCount s1 + 8" "iBitCount s3 = iBitCount s2 + ?L"
    using cnt by (simp_all add: written_length)
  obtain k where k: "iBitCount s = 8 * k" using s(2) by auto
  have pb: "pad_bits (iBitCount s3) = pad_bits ?L"
  proof -
    have e: "iBitCount s3 = ?L + 8 * (k + 2)" using c1 k by simp
    show ?thesis unfolding pad_bits_def e mod_mult_self2 ..
  qed
  have al1: "iBitCount s1 mod 8 = 0" using c1(1) k by simp
  have w4: "written s4 = (written s @ field 8 (ucast t)) @ field 8 0xff @ (elems_bits es @ pad_bits ?L)"
    using s1(3) s2(3) s3(3) s4(4) pb by simp
  have lb: "length (written s @ field 8 (ucast t)) = iBitCount s1" using c1(1) by (simp add: written_length)
  from EndSEI_law [OF s4(2,3) w4 lb al1] obtain r where
    r: "AL_RbspEncoding_EndSEI (iBitCount s1) s4 = Some r" "bs_ok r" "iBitCount r = iBitCount s4" "iMaxBits r = iMaxBits s4"
      "written r = (written s @ field 8 (ucast t))
        @ field 8 (ucast (of_nat (length (elems_bits es @ pad_bits ?L) div 8) :: u8)) @ (elems_bits es @ pad_bits ?L)"
    by (elim exE conjE) (rule that)
  have b: "AL_RbspEncoding_BeginSEI t s = Some (iBitCount s1, s2)"
    using s1(1) s2(1) al1 by (simp add: AL_RbspEncoding_BeginSEI_def AL_BitStreamLite_GetBitsCount_def)
  have e: "write_message t f s = Some r" using b f s3(1) s4(1) r(1) by (simp add: write_message_def)
  have n: "length (elems_bits es @ pad_bits ?L) div 8 = ?n"
  proof -
    define q m where "q = ?L div 8" and "m = ?L mod 8"
    have L: "?L = 8 * q + m" "m < 8" by (simp_all add: q_def m_def)
    have "length (pad_bits ?L) = (if m = 0 then 0 else 1 + (7 - m))" by (simp add: pad_bits_def m_def)
    then have "length (pad_bits ?L) = (if m = 0 then 0 else 8 - m)" using L(2) by auto
    then show ?thesis unfolding length_append L(1) using L(2) by (cases "m = 0") simp_all
  qed
  have v: "(ucast (of_nat ?n :: u8) :: u32) = of_int (int ?n)"
  proof -
    have "uint (of_nat ?n :: u8) = int ?n" using ok(2) by (simp add: uint_nat unat_of_nat take_bit_nat_eq_self_iff)
    then show ?thesis by (simp only: ucast_eq)
  qed
  have w: "written r = written s @ elems_bits (message_elems t es)" unfolding r(5) n v mb ut by (simp only: append_assoc)
  have "iBitCount r = iBitCount s + length (elems_bits (message_elems t es))"
    using arg_cong [OF w, of length] by (simp only: written_length length_append)
  moreover have "iMaxBits r = iMaxBits s"
    using s1(1) s2(1) s3(4) s4(5) r(4) PutBits_max c1 s2(2) s3(2) by (auto simp: bs_room_def bs_ok_def)
  ultimately have "bs_room r + length (elems_bits (message_elems t es)) = bs_room s" using s(3) by (simp add: bs_room_def)
  with e r(2,3) s4(3) w
  show "\<exists>r. write_message t f s = Some r \<and> bs_ok r \<and> iBitCount r mod 8 = 0 \<and> written r = written s @ elems_bits (message_elems t es)
      \<and> bs_room r + length (elems_bits (message_elems t es)) = bs_room s" by simp
qed

end
