(* ===== verification/AvcSeiElems.thy ===== *)
theory AvcSeiElems imports SeiWriterProofs begin

text \<open>
  The SEI messages of the AVC encoder as lists of elements, and the loop over the flags that writes them.
\<close>

section \<open>The messages\<close>

definition as_u32 :: "int \<Rightarrow> int" where
  "as_u32 v = uint (of_int v :: u32)"

definition initial_length :: "AL_TAvcSps \<Rightarrow> nat" where
  "initial_length s = unat (initial_cpb_removal_delay_length_minus1 (hrd_param (vui_param s))) + 1"

definition bp_elems :: "AL_TAvcSps AL_TSeiPrefixCtx \<Rightarrow> (shape \<times> int) list" where
  "bp_elems c = [(Unsigned, uint (seq_parameter_set_id (ctx_sps c))),
     (Fixed (initial_length (ctx_sps c)), as_u32 (cpbInitialRemovalDelay c)), (Fixed (initial_length (ctx_sps c)), 0)]"

definition rp_elems :: "AL_TAvcSps AL_TSeiPrefixCtx \<Rightarrow> (shape \<times> int) list" where
  "rp_elems c = [(Unsigned, st_iRecoveryCnt (pPicStatus c)), (Fixed 1, 1), (Fixed 1, 0), (Fixed 2, 0)]"

definition clocks :: "int \<Rightarrow> nat" where
  "clocks ps = PicStructToNumClockTS ! nat ps"

definition pt_elems :: "AL_TAvcSps AL_TSeiPrefixCtx \<Rightarrow> (shape \<times> int) list" where
  "pt_elems c =
     (if hrd_present (ctx_sps c)
      then [(Fixed 32, as_u32 (cpbRemovalDelay c)), (Fixed 32, as_u32 (sint (uDpbOutputDelay (pPicStatus c))))] else []) @
     [(Fixed 4, ePicStruct (pPicStatus c)), (Fixed (clocks (ePicStruct (pPicStatus c))), 0)]"

definition coordinates :: "AL_TChromaCoordinates \<Rightarrow> (shape \<times> int) list" where
  "coordinates c = [(Fixed 16, uint (chroma_x c)), (Fixed 16, uint (chroma_y c))]"

definition mdcv_elems :: "AL_TMasteringDisplayColourVolume \<Rightarrow> (shape \<times> int) list" where
  "mdcv_elems m = concat (map coordinates (take 3 (display_primaries m))) @ coordinates (white_point m) @
     [(Fixed 32, uint (max_display_mastering_luminance m)), (Fixed 32, uint (min_display_mastering_luminance m))]"

definition cll_elems :: "AL_TContentLightLevel \<Rightarrow> (shape \<times> int) list" where
  "cll_elems l = [(Fixed 16, uint (max_content_light_level l)), (Fixed 16, uint (max_pic_average_light_level l))]"

text \<open>The bits of the flags with the type and the elements of their messages, in the order the loop takes them.\<close>

definition sei_table :: "AL_TAvcSps AL_TSeiPrefixCtx \<Rightarrow> (nat \<times> u8 \<times> (shape \<times> int) list) list" where
  "sei_table c = [(0, 0, bp_elems c), (2, 6, rp_elems c), (1, 1, pt_elems c), (3, 137, mdcv_elems (tMDCV (pHDRSEIs c))),
     (4, 144, cll_elems (tCLL (pHDRSEIs c)))]"

definition sei_sent :: "AL_TAvcSps AL_TSeiPrefixCtx \<Rightarrow> u32 \<Rightarrow> (u8 \<times> (shape \<times> int) list) list" where
  "sei_sent c f = map snd (filter (\<lambda>m. bit f (fst m)) (sei_table c))"

definition sei_elems :: "AL_TAvcSps AL_TSeiPrefixCtx \<Rightarrow> u32 \<Rightarrow> (shape \<times> int) list" where
  "sei_elems c f = concat (map (\<lambda>(t, es). message_elems t es) (sei_sent c f))"

text \<open>What the encoder may send: known flags, values that fit the members of the SPS.  A picture timing message without
  the picture structure would end on a byte boundary.\<close>

definition sei_ok :: "AL_TAvcSps AL_TSeiPrefixCtx \<Rightarrow> u32 \<Rightarrow> bool" where
  "sei_ok c f \<longleftrightarrow> f AND NOT 0x1F = 0
     \<and> (bit f 0 \<longrightarrow> seq_parameter_set_id (ctx_sps c) < 32 \<and> fits 5 (initial_cpb_removal_delay_length_minus1 (hrd_param (vui_param (ctx_sps c))))
          \<and> as_u32 (cpbInitialRemovalDelay c) < 2 ^ initial_length (ctx_sps c))
     \<and> (bit f 2 \<longrightarrow> 0 \<le> st_iRecoveryCnt (pPicStatus c) \<and> st_iRecoveryCnt (pPicStatus c) < 2147483646)
     \<and> (bit f 1 \<longrightarrow> pic_struct_present_flag (vui_param (ctx_sps c)) \<noteq> 0
          \<and> 0 \<le> ePicStruct (pPicStatus c) \<and> ePicStruct (pPicStatus c) \<le> 8)
     \<and> (bit f 3 \<longrightarrow> length (display_primaries (tMDCV (pHDRSEIs c))) = 3)"

section \<open>In range\<close>

lemma as_u32_range: "0 \<le> as_u32 v" "as_u32 v < 4294967296" "(of_int (as_u32 v) :: u32) = of_int v"
  using uint_lt2p [of "of_int v :: u32"] by (simp_all add: as_u32_def)

lemma ue_length: "0 \<le> v \<Longrightarrow> v < 2147483647 \<Longrightarrow> length (ue_bits (nat v)) \<le> 61"
proof -
  assume v: "0 \<le> v" "v < 2147483647"
  then have "nat v + 1 < 2 ^ 31" by simp
  then have "nat (floor_log2 (nat v + 1)) < 31" by (intro floor_log2_less) simp_all
  then show ?thesis by (simp add: ue_bits_def)
qed

lemma clocks_cases:
  assumes "0 \<le> ps" "ps \<le> 8"
  shows "at PicStructToNumClockTS (nat ps) = Some (clocks ps)" "1 \<le> clocks ps" "clocks ps \<le> 3"
proof -
  have l: "nat ps < length PicStructToNumClockTS" using assms by (simp add: PicStructToNumClockTS_def)
  then show "at PicStructToNumClockTS (nat ps) = Some (clocks ps)" by (simp add: at_def clocks_def)
  have "\<forall>n \<in> set PicStructToNumClockTS. 1 \<le> n \<and> n \<le> 3" by (simp add: PicStructToNumClockTS_def)
  with nth_mem [OF l] show "1 \<le> clocks ps" "clocks ps \<le> 3" by (simp_all add: clocks_def)
qed

lemma initial_length_range:
  "fits 5 (initial_cpb_removal_delay_length_minus1 (hrd_param (vui_param s))) \<Longrightarrow> 1 \<le> initial_length s \<and> initial_length s \<le> 32"
proof -
  assume "fits 5 (initial_cpb_removal_delay_length_minus1 (hrd_param (vui_param s)))"
  then have "uint (initial_cpb_removal_delay_length_minus1 (hrd_param (vui_param s))) < 32" by (simp add: fits_def)
  then have "unat (initial_cpb_removal_delay_length_minus1 (hrd_param (vui_param s))) < 32"
    unfolding uint_nat by linarith
  then show ?thesis by (simp add: initial_length_def)
qed

lemma concat_three: "length xs = 3 \<Longrightarrow> concat (map g (take 3 xs)) = g (xs ! 0) @ g (xs ! 1) @ g (xs ! 2)"
  by (auto simp: numeral_eq_Suc length_Suc_conv)

text \<open>The elements of a message and the size of its payload.\<close>

lemma message_ok:
  assumes "sei_ok c f" "(b, t, es) \<in> set (sei_table c)" "bit f b"
  shows "(\<forall>e \<in> set es. elem_ok e) \<and> length (elems_bits es) \<le> 512"
proof -
  have u: "uint w < 65536" "uint x < 4294967296" for w :: u16 and x :: u32
    using uint_lt2p [of w] uint_lt2p [of x] by simp_all
  consider (bp) "b = 0" "es = bp_elems c" | (rp) "b = 2" "es = rp_elems c" | (pt) "b = 1" "es = pt_elems c"
    | (mdcv) "b = 3" "es = mdcv_elems (tMDCV (pHDRSEIs c))" | (cll) "b = 4" "es = cll_elems (tCLL (pHDRSEIs c))"
    using assms(2) by (auto simp: sei_table_def)
  then show ?thesis
  proof cases
    case bp
    then have k: "seq_parameter_set_id (ctx_sps c) < 32" "1 \<le> initial_length (ctx_sps c) \<and> initial_length (ctx_sps c) \<le> 32"
      "as_u32 (cpbInitialRemovalDelay c) < 2 ^ initial_length (ctx_sps c)"
      using assms(1,3) initial_length_range by (auto simp: sei_ok_def)
    have "uint (seq_parameter_set_id (ctx_sps c)) < 2147483647" using k(1) by (simp add: word_less_def)
    with ue_length [of "uint (seq_parameter_set_id (ctx_sps c))"] k(2,3) as_u32_range(1) [of "cpbInitialRemovalDelay c"]
    show ?thesis by (simp add: bp(2) bp_elems_def)
  next
    case rp
    then have k: "0 \<le> st_iRecoveryCnt (pPicStatus c)" "st_iRecoveryCnt (pPicStatus c) < 2147483647"
      using assms(1,3) by (auto simp: sei_ok_def)
    with ue_length [OF k] show ?thesis by (simp add: rp(2) rp_elems_def)
  next
    case pt
    then have k: "0 \<le> ePicStruct (pPicStatus c)" "ePicStruct (pPicStatus c) \<le> 8"
      using assms(1,3) by (auto simp: sei_ok_def)
    show ?thesis
      using clocks_cases(2,3) [OF k] k as_u32_range(1,2) by (auto simp: pt(2) pt_elems_def)
  next
    case mdcv
    then have l: "length (display_primaries (tMDCV (pHDRSEIs c))) = 3" using assms(1,3) by (simp add: sei_ok_def)
    show ?thesis unfolding mdcv(2) mdcv_elems_def concat_three [OF l] by (simp add: coordinates_def u)
  next
    case cll
    then show ?thesis by (simp add: cll_elems_def u)
  qed
qed

section \<open>The writers\<close>

lemma put_elems_Cons_u: "put_elems ((Fixed n, uint (w :: 'a::len word)) # es) s
    = do { t \<leftarrow> AL_BitStreamLite_PutU n (ucast w) s; put_elems es t }"
  by simp

lemma PutU_PutBits: "n < 256 \<Longrightarrow> AL_BitStreamLite_PutU n v = AL_BitStreamLite_PutBits n v"
  by (rule ext) (simp add: AL_BitStreamLite_PutU_def)

lemma as_u32_back: "word_of_int (as_u32 v) = (of_int v :: u32)"
  by (simp add: as_u32_def)

lemma writeSeiBufferingPeriod_eq:
  "writeSeiBufferingPeriod (ctx_sps c) (cpbInitialRemovalDelay c) z = write_message 0 (put_elems (bp_elems c))"
  by (rule ext) (simp add: writeSeiBufferingPeriod_def write_message_def bp_elems_def put_ue_def initial_length_def as_u32_back
      Let_def cong: option.case_cong)

lemma writeSeiRecoveryPoint_eq:
  "writeSeiRecoveryPoint (st_iRecoveryCnt (pPicStatus c)) = write_message 6 (put_elems (rp_elems c))"
  by (rule ext) (simp add: writeSeiRecoveryPoint_def write_message_def rp_elems_def AL_BitStreamLite_PutBit_def PutU_PutBits)

lemma writeSeiPictureTiming_eq:
  assumes "pic_struct_present_flag (vui_param (ctx_sps c)) \<noteq> 0" "0 \<le> ePicStruct (pPicStatus c)" "ePicStruct (pPicStatus c) \<le> 8"
  shows "writeSeiPictureTiming (ctx_sps c) (cpbRemovalDelay c) (sint (uDpbOutputDelay (pPicStatus c))) (ePicStruct (pPicStatus c))
    = write_message 1 (put_elems (pt_elems c))"
proof -
  note k = clocks_cases [OF assms(2,3)]
  have p: "AL_BitStreamLite_PutU (clocks (ePicStruct (pPicStatus c))) 0 = AL_BitStreamLite_PutBits (clocks (ePicStruct (pPicStatus c))) 0"
    using k(3) by (intro PutU_PutBits) simp
  show ?thesis
    by (rule ext) (use assms in \<open>simp add: writeSeiPictureTiming_def write_message_def pt_elems_def assert_that_def k(1) p as_u32_back
        put_elems_append\<close>)
qed

lemma put_u_all_eq: "put_u_all n vs = put_elems (map (\<lambda>v. (Fixed n, uint v)) vs)"
proof (rule ext)
  fix s show "put_u_all n vs s = put_elems (map (\<lambda>v. (Fixed n, uint v)) vs) s"
    by (induction vs arbitrary: s) (auto split: bind_split)
qed

lemma uint_wide16: "uint (ucast (w :: u16) :: u32) = uint w"
  using uint_lt2p [of w] by (simp add: unsigned_ucast_eq take_bit_int_eq_self_iff)

lemma writeMDCV_eq:
  assumes "length (display_primaries m) = 3"
  shows "AL_RbspEncoding_WriteMasteringDisplayColourVolume m = write_message 137 (put_elems (mdcv_elems m))"
proof -
  have c: "map (\<lambda>v. (Fixed 16, uint v)) (concat (map (\<lambda>c. [ucast (chroma_x c) :: u32, ucast (chroma_y c)]) cs))
      = concat (map coordinates cs)" for cs
    by (induction cs) (simp_all add: coordinates_def uint_wide16)
  show ?thesis
    by (rule ext) (use assms in \<open>simp add: AL_RbspEncoding_WriteMasteringDisplayColourVolume_def write_message_def
        mdcv_elems_def put_u_all_eq c put_elems_append coordinates_def uint_wide16\<close>)
qed

lemma writeCLL_eq: "AL_RbspEncoding_WriteContentLightLevel l = write_message 144 (put_elems (cll_elems l))"
  by (rule ext) (simp add: AL_RbspEncoding_WriteContentLightLevel_def write_message_def cll_elems_def)

section \<open>The loop\<close>

lemma flag_bits: "f AND AL_SEI_BP \<noteq> 0 \<longleftrightarrow> bit f 0" "f AND AL_SEI_PT \<noteq> 0 \<longleftrightarrow> bit f 1" "f AND AL_SEI_RP \<noteq> 0 \<longleftrightarrow> bit f 2"
  "f AND AL_SEI_MDCV \<noteq> 0 \<longleftrightarrow> bit f 3" "f AND AL_SEI_CLL \<noteq> 0 \<longleftrightarrow> bit f 4"
proof -
  have "f AND (2 :: u32) ^ n \<noteq> 0 \<longleftrightarrow> bit f n" if "n < 32" for n
    using that by (simp add: bit_iff_and_push_bit_not_eq_0 push_bit_eq_mult)
  from this [of 0] this [of 1] this [of 2] this [of 3] this [of 4]
  show "f AND AL_SEI_BP \<noteq> 0 \<longleftrightarrow> bit f 0" "f AND AL_SEI_PT \<noteq> 0 \<longleftrightarrow> bit f 1" "f AND AL_SEI_RP \<noteq> 0 \<longleftrightarrow> bit f 2"
    "f AND AL_SEI_MDCV \<noteq> 0 \<longleftrightarrow> bit f 3" "f AND AL_SEI_CLL \<noteq> 0 \<longleftrightarrow> bit f 4"
    by (simp_all add: AL_SEI_BP_def AL_SEI_PT_def AL_SEI_RP_def AL_SEI_MDCV_def AL_SEI_CLL_def)
qed

definition sei_flag :: "nat \<Rightarrow> u32" where
  "sei_flag b = 2 ^ b"

lemma sei_flags: "AL_SEI_BP = sei_flag 0" "AL_SEI_PT = sei_flag 1" "AL_SEI_RP = sei_flag 2" "AL_SEI_MDCV = sei_flag 3"
  "AL_SEI_CLL = sei_flag 4"
  by (simp_all add: sei_flag_def AL_SEI_BP_def AL_SEI_PT_def AL_SEI_RP_def AL_SEI_MDCV_def AL_SEI_CLL_def)

lemma bit_cleared: "bit (f AND NOT (sei_flag b)) n \<longleftrightarrow> bit f n \<and> n \<noteq> b"
  by (cases "n < 32") (auto simp: sei_flag_def bit_and_iff bit_not_iff bit_exp_iff impossible_bit)

lemma known_flags:
  assumes "f AND NOT 0x1F = (0 :: u32)"
  shows "f = 0 \<longleftrightarrow> \<not> bit f 0 \<and> \<not> bit f 1 \<and> \<not> bit f 2 \<and> \<not> bit f 3 \<and> \<not> bit f 4"
proof
  assume n: "\<not> bit f 0 \<and> \<not> bit f 1 \<and> \<not> bit f 2 \<and> \<not> bit f 3 \<and> \<not> bit f 4"
  have m: "(0x1F :: u32) = mask 5" by (simp add: mask_eq_exp_minus_1)
  show "f = 0"
  proof (rule bit_word_eqI)
    fix k assume k: "k < LENGTH(32)"
    have "\<not> bit f k"
    proof (cases "k < 5")
      case True
      then have "k = 0 \<or> k = 1 \<or> k = 2 \<or> k = 3 \<or> k = 4" by linarith
      with n show ?thesis by auto
    next
      case False
      have "bit (f AND NOT 0x1F) k = bit f k" using False k unfolding m by (simp add: bit_and_iff bit_not_iff bit_mask_iff)
      with assms show ?thesis by simp
    qed
    then show "bit f k = bit (0 :: u32) k" by simp
  qed
qed simp

lemma known_cleared: "f AND NOT 0x1F = 0 \<Longrightarrow> (f AND NOT g) AND NOT 0x1F = (0 :: u32)"
proof -
  have "(f AND NOT g) AND NOT 0x1F = (f AND NOT 0x1F) AND NOT g" by (simp only: and.assoc and.commute and.left_commute)
  then show "f AND NOT 0x1F = 0 \<Longrightarrow> (f AND NOT g) AND NOT 0x1F = (0 :: u32)" by simp
qed

lemma close_aligned: "emits_bytes_of AL_RbspEncoding_CloseSEI (True # replicate 7 False)"
  unfolding emits_bytes_of_def
proof (intro allI impI, elim conjE)
  fix s assume s: "bs_ok s" "iBitCount s mod 8 = 0" "length (True # replicate 7 False) \<le> bs_room s"
  then have "1 \<le> bs_room s" by simp
  from close_law [OF s(1) this] obtain t m where
    t: "AL_RbspEncoding_CloseSEI s = Some t" "bs_ok t" "iBitCount t mod 8 = 0" "m < 8"
      "written t = written s @ True # replicate m False" by (elim exE conjE) (rule that)
  have c: "iBitCount t = iBitCount s + 1 + m" using arg_cong [OF t(5), of length] by (simp add: written_length)
  have m: "m = 7"
  proof -
    obtain k where k: "iBitCount s = 8 * k" using s(2) by auto
    have "(8 * k + (1 + m)) mod 8 = 0" using t(3) unfolding c k by (simp only: add.assoc)
    then have "(1 + m) mod 8 = 0" by simp
    with t(4) show ?thesis by (cases "m = 7") simp_all
  qed
  have al: "AL_BitStreamLite_AlignWithBits 0 = align_loop 8 0"
    by (rule ext) (simp add: AL_BitStreamLite_AlignWithBits_def)
  have "Option.bind (AL_BitStreamLite_PutBits 1 1 s) (align_loop 8 0) = Some t"
    using t(1) by (simp add: AL_RbspEncoding_CloseSEI_def AL_BitStreamLite_PutU_def al)
  then obtain x where x: "AL_BitStreamLite_PutBits 1 1 s = Some x" "align_loop 8 0 x = Some t"
    unfolding bind_eq_Some_conv by blast
  have "iMaxBits t = iMaxBits s" using PutBits_max [OF x(1)] align_loop_max [OF x(2)] by simp
  then have "bs_room t + length (True # replicate 7 False) = bs_room s" using s(3) c m by (simp add: bs_room_def)
  with t(1-3,5) m show "\<exists>t. AL_RbspEncoding_CloseSEI s = Some t \<and> bs_ok t \<and> iBitCount t mod 8 = 0
      \<and> written t = written s @ True # replicate 7 False \<and> bs_room t + length (True # replicate 7 False) = bs_room s"
    by (intro exI [of _ t] conjI) simp_all
qed

lemma sei_ok_cleared: "sei_ok c f \<Longrightarrow> sei_ok c (f AND NOT (sei_flag b))"
  unfolding sei_ok_def bit_cleared by (elim conjE, intro conjI impI, erule known_cleared, simp_all)

text \<open>One turn.\<close>

lemma sei_turn_law:
  assumes "sei_ok c f" "f \<noteq> 0"
  shows "\<exists>t es b. sei_turn avc_writer c f = (\<lambda>s. do { r \<leftarrow> write_message t (put_elems es) s; Some (f AND NOT (sei_flag b), r) })
    \<and> sei_sent c f = (t, es) # sei_sent c (f AND NOT (sei_flag b)) \<and> (b, t, es) \<in> set (sei_table c) \<and> bit f b"
proof -
  have k: "f AND NOT 0x1F = 0" using assms(1) by (simp add: sei_ok_def)
  have "bit f 0 \<or> bit f 2 \<or> bit f 1 \<or> bit f 3 \<or> bit f 4" using known_flags [OF k] assms(2) by blast
  then consider (bp) "bit f 0" | (rp) "\<not> bit f 0" "bit f 2" | (pt) "\<not> bit f 0" "\<not> bit f 2" "bit f 1"
    | (mdcv) "\<not> bit f 0" "\<not> bit f 2" "\<not> bit f 1" "bit f 3"
    | (cll) "\<not> bit f 0" "\<not> bit f 2" "\<not> bit f 1" "\<not> bit f 3" "bit f 4" by blast
  then show ?thesis
  proof cases
    case bp
    show ?thesis
      by (rule exI [of _ 0], rule exI [of _ "bp_elems c"], rule exI [of _ 0], intro conjI ext)
        (use bp in \<open>simp_all add: sei_turn_def flag_bits avc_writer_def writeSeiBufferingPeriod_eq sei_flags [symmetric] sei_sent_def
          sei_table_def, simp_all add: sei_flags bit_cleared\<close>)
  next
    case rp
    show ?thesis
      by (rule exI [of _ 6], rule exI [of _ "rp_elems c"], rule exI [of _ 2], intro conjI ext)
        (use rp in \<open>simp_all add: sei_turn_def flag_bits avc_writer_def writeSeiRecoveryPoint_eq sei_flags [symmetric] sei_sent_def
          sei_table_def, simp_all add: sei_flags bit_cleared\<close>)
  next
    case pt
    then have p: "pic_struct_present_flag (vui_param (ctx_sps c)) \<noteq> 0" "0 \<le> ePicStruct (pPicStatus c)" "ePicStruct (pPicStatus c) \<le> 8"
      using assms(1) by (auto simp: sei_ok_def)
    show ?thesis
      by (rule exI [of _ 1], rule exI [of _ "pt_elems c"], rule exI [of _ 1], intro conjI ext)
        (use pt in \<open>simp_all add: sei_turn_def flag_bits avc_writer_def writeSeiPictureTiming_eq [OF p] sei_flags [symmetric]
          sei_sent_def sei_table_def, simp_all add: sei_flags bit_cleared\<close>)
  next
    case mdcv
    then have p: "length (display_primaries (tMDCV (pHDRSEIs c))) = 3" using assms(1) by (simp add: sei_ok_def)
    show ?thesis
      by (rule exI [of _ 137], rule exI [of _ "mdcv_elems (tMDCV (pHDRSEIs c))"], rule exI [of _ 3], intro conjI ext)
        (use mdcv in \<open>simp_all add: sei_turn_def flag_bits avc_writer_def writeMDCV_eq [OF p] sei_flags [symmetric] sei_sent_def
          sei_table_def, simp_all add: sei_flags bit_cleared\<close>)
  next
    case cll
    show ?thesis
      by (rule exI [of _ 144], rule exI [of _ "cll_elems (tCLL (pHDRSEIs c))"], rule exI [of _ 4], intro conjI ext)
        (use cll in \<open>simp_all add: sei_turn_def flag_bits avc_writer_def writeCLL_eq sei_flags [symmetric] sei_sent_def
          sei_table_def, simp_all add: sei_flags bit_cleared\<close>)
  qed
qed

text \<open>With known flags the loop ends: one turn per flag, then the stop bit.\<close>

lemma sei_turns_law:
  "sei_ok c f \<Longrightarrow> emits_bytes_of (sei_turns avc_writer c f)
     (elems_bits (sei_elems c f) @ (if f = 0 then [] else True # replicate 7 False))"
proof (induction "sei_sent c f" arbitrary: f rule: length_induct)
  case (1 f)
  show ?case
  proof (cases "f = 0")
    case True
    have "sei_turns avc_writer c 0 = Some" by (rule ext) (simp add: sei_turns.simps [of _ _ 0])
    then show ?thesis using True emits_bytes_of_nothing by (simp add: sei_elems_def sei_sent_def sei_table_def)
  next
    case False
    from sei_turn_law [OF 1(2) False] obtain t es b where
      w: "sei_turn avc_writer c f = (\<lambda>s. do { r \<leftarrow> write_message t (put_elems es) s; Some (f AND NOT (sei_flag b), r) })"
        "sei_sent c f = (t, es) # sei_sent c (f AND NOT (sei_flag b))" "(b, t, es) \<in> set (sei_table c)" "bit f b" by blast
    let ?f = "f AND NOT (sei_flag b)"
    from message_ok [OF 1(2) w(3,4)] have m: "\<forall>e \<in> set es. elem_ok e" "(length (elems_bits es) + 7) div 8 < 256" by auto
    have e1: "emits_bytes_of (write_message t (put_elems es)) (elems_bits (message_elems t es))"
      by (rule write_message_law [OF refl m])
    have ok: "sei_ok c ?f" by (rule sei_ok_cleared [OF 1(2)])
    have rest: "emits_bytes_of (sei_turns avc_writer c ?f) (elems_bits (sei_elems c ?f) @ (if ?f = 0 then [] else True # replicate 7 False))"
      by (rule "1.hyps" [rule_format, OF _ refl ok]) (simp add: w(2))
    have e2: "emits_bytes_of (\<lambda>s. do { t \<leftarrow> (if ?f = 0 then AL_RbspEncoding_CloseSEI s else Some s); sei_turns avc_writer c ?f t })
        (elems_bits (sei_elems c ?f) @ True # replicate 7 False)"
    proof (cases "?f = 0")
      case z: True
      have "elems_bits (sei_elems c ?f) = []" by (simp add: z sei_elems_def sei_sent_def sei_table_def)
      moreover have "(\<lambda>s. do { t \<leftarrow> (if ?f = 0 then AL_RbspEncoding_CloseSEI s else Some s); sei_turns avc_writer c ?f t })
          = (\<lambda>s. do { t \<leftarrow> AL_RbspEncoding_CloseSEI s; sei_turns avc_writer c ?f t })" using z by (intro ext) simp
      ultimately show ?thesis using emits_bytes_of_bind [OF close_aligned rest] z by simp
    next
      case n: False
      have "(\<lambda>s. do { t \<leftarrow> (if ?f = 0 then AL_RbspEncoding_CloseSEI s else Some s); sei_turns avc_writer c ?f t })
          = sei_turns avc_writer c ?f" using n by (intro ext) simp
      with rest n show ?thesis by simp
    qed
    have "sei_turns avc_writer c f = (\<lambda>s. do { x \<leftarrow> write_message t (put_elems es) s;
        r \<leftarrow> (if ?f = 0 then AL_RbspEncoding_CloseSEI x else Some x); sei_turns avc_writer c ?f r })"
      by (rule ext) (simp add: sei_turns.simps [of _ _ f] False w(1))
    moreover have "elems_bits (sei_elems c f) = elems_bits (message_elems t es) @ elems_bits (sei_elems c ?f)"
      by (simp add: sei_elems_def w(2))
    ultimately show ?thesis using emits_bytes_of_bind [OF e1 e2] False by simp
  qed
qed

end
