(* ===== verification/AvcSeiReads.thy ===== *)
theory AvcSeiReads imports AvcSeiElems begin

text \<open>
  Reading a message of the SEI from a byte boundary: the rules of \<open>SyntaxReads\<close> for data that ends on a byte boundary,
  the payloads of the five messages, and what the decoder makes of each.
\<close>

section \<open>Data that ends on a byte boundary\<close>

definition asrc :: "u8 list \<Rightarrow> AL_TRbspParser \<Rightarrow> bool list \<Rightarrow> bool" where
  "asrc X p bs \<longleftrightarrow> src X p bs \<and> last_one X mod 8 = 0"

definition areads :: "(AL_TRbspParser \<Rightarrow> ('a \<times> AL_TRbspParser) option) \<Rightarrow> (shape \<times> int) list \<Rightarrow> 'a \<Rightarrow> bool" where
  "areads f es v \<longleftrightarrow> (\<forall>X p r. asrc X p (elems_bits es @ r) \<and> length r mod 8 = 0 \<longrightarrow> (\<exists>q. f p = Some (v, q) \<and> asrc X q r))"

lemma areadsI:
  "(\<And>X p r. asrc X p (elems_bits es @ r) \<Longrightarrow> length r mod 8 = 0 \<Longrightarrow> \<exists>q. f p = Some (v, q) \<and> asrc X q r) \<Longrightarrow> areads f es v"
  by (simp add: areads_def)

lemma areadsD: "areads f es v \<Longrightarrow> asrc X p (elems_bits es @ r) \<Longrightarrow> length r mod 8 = 0 \<Longrightarrow> \<exists>q. f p = Some (v, q) \<and> asrc X q r"
  by (simp add: areads_def)

lemma reads_asrc: "reads f es v \<Longrightarrow> asrc X p (elems_bits es @ r) \<Longrightarrow> \<exists>q. f p = Some (v, q) \<and> asrc X q r"
  using readsD [of f es v X p r] by (auto simp: asrc_def)

lemma areads_bind:
  assumes "reads f as v" "areads (g v) bs w"
  shows "areads (\<lambda>p. do { (x, q) \<leftarrow> f p; g x q }) (as @ bs) w"
proof (rule areadsI)
  fix X p r assume "asrc X p (elems_bits (as @ bs) @ r)" and l: "length r mod 8 = 0"
  then have "asrc X p (elems_bits as @ elems_bits bs @ r)" by simp
  from reads_asrc [OF assms(1) this] obtain q where q: "f p = Some (v, q)" "asrc X q (elems_bits bs @ r)" by blast
  from areadsD [OF assms(2) q(2) l] q(1) show "\<exists>q. do { (x, q) \<leftarrow> f p; g x q } = Some (w, q) \<and> asrc X q r" by auto
qed

lemma areads_then:
  assumes "areads f es v"
  shows "areads (\<lambda>p. do { (x, q) \<leftarrow> f p; Some (g x, q) }) es (g v)"
proof (rule areadsI)
  fix X p r assume s: "asrc X p (elems_bits es @ r)" "length r mod 8 = 0"
  from areadsD [OF assms s] show "\<exists>q. do { (x, q) \<leftarrow> f p; Some (g x, q) } = Some (g v, q) \<and> asrc X q r" by auto
qed

lemma asrc_aligned:
  assumes "asrc X p bs"
  shows "byte_aligned p \<longleftrightarrow> length bs mod 8 = 0"
proof -
  from assms have p: "rp_inv p X" "rest X p = bs" "last_one X mod 8 = 0" by (simp_all add: asrc_def src_def)
  have "iTotalBitIndex p + length bs = last_one X" using rest_take(1) [of X p] p(2) rp_bounds(1) [OF p(1)] by simp
  then have e: "(iTotalBitIndex p + length bs) mod 8 = 0" using p(3) by simp
  have "(a + b) mod 8 = 0 \<Longrightarrow> (a mod 8 = 0) = (b mod 8 = 0)" for a b :: nat by presburger
  from this [OF e] show ?thesis by (simp add: byte_aligned_def)
qed

lemma read_bit: "asrc X p (b # r) \<Longrightarrow> \<exists>q. u 1 p = Some (if b then 1 else 0, q) \<and> asrc X q r"
proof -
  assume s: "asrc X p (b # r)"
  have r: "reads (u 1) [(Fixed 1, uint (if b then 1 else 0 :: u32))] (if b then 1 else 0)"
    by (rule reads_u) (simp add: fits_def)
  have "field 1 (if b then 1 else 0 :: u32) = [b]" by (cases b) (simp_all add: field_def)
  with s have "asrc X p (elems_bits [(Fixed 1, uint (if b then 1 else 0 :: u32))] @ r)" by (cases b) simp_all
  from reads_asrc [OF r this] show ?thesis .
qed

lemma zero_bits_read:
  "asrc X p (replicate k False @ r) \<Longrightarrow> k < 8 \<Longrightarrow> length r mod 8 = 0 \<Longrightarrow>
   \<exists>q. zero_bits_loop p = Some (True, q) \<and> asrc X q r"
proof (induction k arbitrary: p)
  case 0
  then have "byte_aligned p" using asrc_aligned [of X p r] by simp
  with 0 show ?case by (simp add: zero_bits_loop.simps [of p])
next
  case (Suc k)
  have "length (replicate (Suc k) False @ r) mod 8 \<noteq> 0"
  proof -
    obtain n where n: "length r = 8 * n" using Suc.prems(3) by auto
    show ?thesis using Suc.prems(2) by (simp add: n)
  qed
  with asrc_aligned [OF Suc.prems(1)] have na: "\<not> byte_aligned p" by simp
  from read_bit [of X p False "replicate k False @ r"] Suc.prems(1) obtain q where
    q: "u 1 p = Some (0, q)" "asrc X q (replicate k False @ r)" by auto
  from Suc.IH [OF q(2) _ Suc.prems(3)] Suc.prems(2) q(1) na show ?case by (simp add: zero_bits_loop.simps [of p])
qed

text \<open>The bits that fill the last byte, behind \<open>n\<close> bits.\<close>

lemma byte_alignment_read: "n mod 8 \<noteq> 0 \<Longrightarrow> areads byte_alignment (sei_pad n) True"
proof (rule areadsI)
  fix X p r assume n: "n mod 8 \<noteq> 0" and s: "asrc X p (elems_bits (sei_pad n) @ r)" "length r mod 8 = 0"
  then have "asrc X p (True # replicate (7 - n mod 8) False @ r)" by (simp add: sei_pad_bits pad_bits_def)
  from read_bit [OF this] obtain q where q: "u 1 p = Some (1, q)" "asrc X q (replicate (7 - n mod 8) False @ r)" by auto
  from zero_bits_read [OF q(2) _ s(2)] q(1) n
  show "\<exists>q. byte_alignment p = Some (True, q) \<and> asrc X q r" by (simp add: byte_alignment_def)
qed

lemma aligned_end_read: "n mod 8 = 0 \<Longrightarrow> areads aligned_end (sei_pad n) True"
proof (rule areadsI)
  fix X p r assume n: "n mod 8 = 0" and s: "asrc X p (elems_bits (sei_pad n) @ r)" "length r mod 8 = 0"
  then have r: "asrc X p r" by (simp add: sei_pad_bits pad_bits_def)
  with asrc_aligned [OF r] s(2) show "\<exists>q. aligned_end p = Some (True, q) \<and> asrc X q r" by (simp add: aligned_end_def)
qed

lemma parse_or_skip_read: "areads f es (True, x) \<Longrightarrow> areads (parse_or_skip n f) es (Parsed, x)"
proof (rule areadsI)
  fix X p r assume f: "areads f es (True, x)" and s: "asrc X p (elems_bits es @ r)" "length r mod 8 = 0"
  from areadsD [OF f s] show "\<exists>q. parse_or_skip n f p = Some ((Parsed, x), q) \<and> asrc X q r" by (auto simp: parse_or_skip_def)
qed

section \<open>The payloads\<close>

lemma ue_odd: "(length (ue_bits n) + 2 * m) mod 8 \<noteq> 0"
proof -
  have "(a + (a + 1) + 2 * m) mod 8 \<noteq> 0" for a :: nat by presburger
  then show ?thesis by (simp add: ue_bits_def)
qed

definition rp_received :: "AL_TAvcSps AL_TSeiPrefixCtx \<Rightarrow> AL_TRecoveryPoint" where
  "rp_received c = \<lparr>recovery_cnt = st_iRecoveryCnt (pPicStatus c), exact_match = True, broken_link = False\<rparr>"

definition bp_received :: "AL_TAvcSps AL_TSeiPrefixCtx \<Rightarrow> AL_TAvcBufPeriod \<Rightarrow> AL_TAvcBufPeriod" where
  "bp_received c b = b\<lparr>bp_seq_parameter_set_id := seq_parameter_set_id (ctx_sps c),
     initial_cpb_removal_delay := (initial_cpb_removal_delay b)[0 := of_int (cpbInitialRemovalDelay c)],
     initial_cpb_removal_delay_offset := (initial_cpb_removal_delay_offset b)[0 := 0]\<rparr>"

definition clocks_off :: "nat \<Rightarrow> AL_TSeiClockTS list \<Rightarrow> AL_TSeiClockTS list" where
  "clocks_off n cs = map (\<lambda>c. c\<lparr>clock_time_stamp_flag := 0\<rparr>) (take n cs) @ drop n cs"

definition pt_received :: "AL_TAvcSps AL_TSeiPrefixCtx \<Rightarrow> AL_TAvcPicTiming \<Rightarrow> AL_TAvcPicTiming" where
  "pt_received c t =
     (if hrd_present (ctx_sps c)
      then t\<lparr>cpb_removal_delay := of_int (cpbRemovalDelay c), dpb_output_delay := uDpbOutputDelay (pPicStatus c)\<rparr> else t)
     \<lparr>pic_struct := of_int (ePicStruct (pPicStatus c)), clock_ts := clocks_off (clocks (ePicStruct (pPicStatus c))) (clock_ts t)\<rparr>"

lemma rp_read:
  assumes "0 \<le> st_iRecoveryCnt (pPicStatus c)" "st_iRecoveryCnt (pPicStatus c) < 2147483646"
  shows "areads sei_recovery_point (rp_elems c @ sei_pad (length (elems_bits (rp_elems c)))) (True, rp_received c)"
proof -
  let ?n = "length (elems_bits (rp_elems c))"
  have n: "?n mod 8 \<noteq> 0"
    using ue_odd [of "nat (st_iRecoveryCnt (pPicStatus c))" 2] by (simp add: rp_elems_def)
  have f: "fits 1 (1 :: u32)" "fits 1 (0 :: u32)" "fits 2 (0 :: u32)" by (simp_all add: fits_def)
  have u: "uint (1 :: u32) = 1" "uint (0 :: u32) = 0" by simp_all
  have e: "rp_elems c @ sei_pad ?n = [(Unsigned, st_iRecoveryCnt (pPicStatus c))] @ [(Fixed 1, uint (1 :: u32))]
      @ [(Fixed 1, uint (0 :: u32))] @ [(Fixed 2, uint (0 :: u32))] @ sei_pad ?n" by (simp add: rp_elems_def)
  have w: "(1 :: u32) \<noteq> 0" by simp
  show ?thesis
    unfolding e sei_recovery_point_def
    apply (rule areads_bind [OF reads_get_ue_int])
      apply (use assms in simp_all)[2]
    apply (rule areads_bind [OF reads_u [OF f(1)]])
    apply (rule areads_bind [OF reads_u [OF f(2)]])
    apply (rule areads_bind [OF reads_u [OF f(3)]])
    using areads_then [OF byte_alignment_read [OF n], of "\<lambda>r. (r, rp_received c)"] by (simp add: rp_received_def)
qed

text \<open>The decoder's SPS: what the messages depend on is as the encoder has it.\<close>

definition hrd_alike :: "AL_TAvcSps \<Rightarrow> AL_TAvcSps \<Rightarrow> bool" where
  "hrd_alike s t \<longleftrightarrow> hrd_param (vui_param s) = hrd_param (vui_param t)
     \<and> pic_struct_present_flag (vui_param s) = pic_struct_present_flag (vui_param t)"

definition one_delay :: "AL_TAvcSps \<Rightarrow> bool" where
  "one_delay t \<longleftrightarrow> (nal_hrd_parameters_present_flag (hrd_param (vui_param t)) = 0)
       \<noteq> (vcl_hrd_parameters_present_flag (hrd_param (vui_param t)) = 0)
     \<and> at (cpb_cnt_minus1 (hrd_param (vui_param t))) 0 = Some 0"

definition buf_shape :: "AL_TAvcBufPeriod \<Rightarrow> bool" where
  "buf_shape b \<longleftrightarrow> initial_cpb_removal_delay b \<noteq> [] \<and> initial_cpb_removal_delay_offset b \<noteq> []"

lemma unat_plus_1: "fits 5 (w :: u8) \<Longrightarrow> unat (w + 1) = unat w + 1"
proof -
  assume "fits 5 w"
  then have "uint w < 32" by (simp add: fits_def)
  then have "unat w < 32" unfolding uint_nat by linarith
  then show ?thesis by (simp add: unat_word_ariths)
qed

lemma fits_5_bound: "fits 5 (w :: u8) \<Longrightarrow> unat w < 32"
proof -
  assume "fits 5 w"
  then have "uint w < 32" by (simp add: fits_def)
  then show ?thesis unfolding uint_nat by linarith
qed

lemma as_u32_word: "as_u32 v = uint (of_int v :: u32)"
  by (simp add: as_u32_def)

lemma delays_read:
  assumes s: "at (cpb_cnt_minus1 (hrd_param (vui_param s))) 0 = Some 0" "fits 5 (initial_cpb_removal_delay_length_minus1 (hrd_param (vui_param s)))"
    and b: "buf_shape b" and v: "as_u32 v < 2 ^ initial_length s"
  shows "reads (delays flag s b) (if flag \<noteq> 0 then [(Fixed (initial_length s), as_u32 v), (Fixed (initial_length s), 0)] else [])
    (if flag \<noteq> 0 then b\<lparr>initial_cpb_removal_delay := (initial_cpb_removal_delay b)[0 := of_int v],
       initial_cpb_removal_delay_offset := (initial_cpb_removal_delay_offset b)[0 := 0]\<rparr> else b)"
proof (cases "flag \<noteq> 0")
  case True
  let ?n = "initial_length s"
  have n: "1 \<le> ?n \<and> ?n \<le> 32" by (rule initial_length_range [OF s(2)])
  have l: "unat (initial_cpb_removal_delay_length_minus1 (hrd_param (vui_param s)) + 1) = ?n"
    using unat_plus_1 [OF s(2)] by (simp add: initial_length_def)
  have f: "fits ?n (of_int v :: u32)" "fits ?n (0 :: u32)"
    using n v by (simp_all add: fits_def as_u32_word [symmetric])
  have z: "uint (0 :: u32) = 0" by simp
  have e: "[(Fixed ?n, as_u32 v), (Fixed ?n, 0)] = [(Fixed ?n, uint (of_int v :: u32))] @ [(Fixed ?n, uint (0 :: u32))] @ []"
    by (simp add: as_u32_word)
  have d: "delays flag s b = delays_loop 1 0 ?n b" by (rule ext) (use True s(1) l in \<open>simp add: delays_def\<close>)
  have b2: "0 < length (initial_cpb_removal_delay b)" "0 < length (initial_cpb_removal_delay_offset b)"
    using b by (simp_all add: buf_shape_def)
  have r: "reads (delays_loop 1 0 ?n b) ([(Fixed ?n, uint (of_int v :: u32))] @ [(Fixed ?n, uint (0 :: u32))] @ [])
      (b\<lparr>initial_cpb_removal_delay := (initial_cpb_removal_delay b)[0 := of_int v],
         initial_cpb_removal_delay_offset := (initial_cpb_removal_delay_offset b)[0 := 0]\<rparr>)"
    unfolding One_nat_def delays_loop.simps
    apply (rule reads_bind [OF reads_u [OF f(1)]])
    apply (simp only: set_at_def b2 if_True Option.bind.bind_lunit)
    apply (rule reads_bind [OF reads_u [OF f(2)]])
    by (rule reads_return)
  show ?thesis using r True unfolding d e by simp
next
  case False
  then have "delays flag s b = (\<lambda>p. Some (b, p))" by (intro ext) (simp add: delays_def)
  with False show ?thesis by (simp add: reads_return)
qed

lemma bp_read:
  assumes id: "seq_parameter_set_id (ctx_sps c) < 32" "at (pSPS a) (unat (seq_parameter_set_id (ctx_sps c))) = Some s" "\<not> bConceal s"
    and h: "hrd_alike s (ctx_sps c)" "one_delay (ctx_sps c)"
      "fits 5 (initial_cpb_removal_delay_length_minus1 (hrd_param (vui_param (ctx_sps c))))"
      "as_u32 (cpbInitialRemovalDelay c) < 2 ^ initial_length (ctx_sps c)"
    and b: "buf_shape b"
  shows "areads (sei_buffering_period (pSPS a) act b) (bp_elems c @ sei_pad (length (elems_bits (bp_elems c))))
    (True, Some (unat (seq_parameter_set_id (ctx_sps c))), bp_received c b)"
proof -
  let ?t = "ctx_sps c" let ?id = "seq_parameter_set_id ?t" let ?n = "length (elems_bits (bp_elems c))"
  let ?b = "b\<lparr>bp_seq_parameter_set_id := ?id\<rparr>"
  let ?f = "nal_hrd_parameters_present_flag (hrd_param (vui_param ?t))"
  let ?g = "vcl_hrd_parameters_present_flag (hrd_param (vui_param ?t))"
  let ?two = "[(Fixed (initial_length ?t), as_u32 (cpbInitialRemovalDelay c)), (Fixed (initial_length ?t), 0)]"
  have hs: "hrd_param (vui_param s) = hrd_param (vui_param ?t)" using h(1) by (simp add: hrd_alike_def)
  have il: "initial_length s = initial_length ?t" by (simp add: initial_length_def hs)
  have n: "?n mod 8 \<noteq> 0"
    using ue_odd [of "nat (uint ?id)" "initial_length ?t"] by (simp add: bp_elems_def mult_2)
  have cp: "at (cpb_cnt_minus1 (hrd_param (vui_param s))) 0 = Some 0" using h(2) by (simp add: hs one_delay_def)
  have sh: "buf_shape ?b" using b by (simp add: buf_shape_def)
  have d: "reads (delays fl s x) (if fl \<noteq> 0 then ?two else [])
      (if fl \<noteq> 0 then x\<lparr>initial_cpb_removal_delay := (initial_cpb_removal_delay x)[0 := of_int (cpbInitialRemovalDelay c)],
         initial_cpb_removal_delay_offset := (initial_cpb_removal_delay_offset x)[0 := 0]\<rparr> else x)" if "buf_shape x" for fl x
    by (rule delays_read [OF cp, unfolded il hs, OF h(3) that h(4)])
  define b1 where "b1 = (if ?f \<noteq> 0 then ?b\<lparr>initial_cpb_removal_delay := (initial_cpb_removal_delay ?b)[0 := of_int (cpbInitialRemovalDelay c)],
         initial_cpb_removal_delay_offset := (initial_cpb_removal_delay_offset ?b)[0 := 0]\<rparr> else ?b)"
  have sh1: "buf_shape b1" using sh by (simp add: b1_def buf_shape_def)
  have r: "(if ?g \<noteq> 0 then b1\<lparr>initial_cpb_removal_delay := (initial_cpb_removal_delay b1)[0 := of_int (cpbInitialRemovalDelay c)],
         initial_cpb_removal_delay_offset := (initial_cpb_removal_delay_offset b1)[0 := 0]\<rparr> else b1) = bp_received c b"
    using h(2) by (auto simp: b1_def bp_received_def one_delay_def)
  have e: "bp_elems c @ sei_pad ?n = [(Unsigned, uint ?id)] @ (if ?f \<noteq> 0 then ?two else []) @ (if ?g \<noteq> 0 then ?two else []) @ sei_pad ?n"
    using h(2) by (auto simp: bp_elems_def one_delay_def)
  have g: "golomb ?id" using id(1) by (simp add: golomb_def word_less_def)
  have na: "\<not> ?id \<ge> 32" using id(1) by simp
  show ?thesis
    unfolding e sei_buffering_period_def
    apply (rule areads_bind [OF reads_get_ue [OF g]])
    apply (simp only: Let_def na if_False id(2) Option.bind.bind_lunit id(3) hs)
    apply (rule areads_bind [OF d [OF sh]])
    apply (fold b1_def)
    apply (rule areads_bind [OF d [OF sh1]])
    unfolding r by (rule areads_then [OF byte_alignment_read [OF n], of "\<lambda>r. (r, Some (unat ?id), bp_received c b)"])
qed

text \<open>Clock time stamps that are not sent.\<close>

lemma reads_bits: "reads f es v \<Longrightarrow> elems_bits es = elems_bits fs \<Longrightarrow> reads f fs v"
  by (simp add: reads_def)

lemma fixed_zeros: "elems_bits (replicate k (Fixed 1, 0)) = elems_bits [(Fixed k, 0)]"
proof -
  have f: "field n (0 :: u32) = replicate n False" for n by (induction n) (simp_all add: field_def replicate_append_same [symmetric])
  have "elems_bits (replicate k (Fixed 1, 0)) = replicate k False" by (induction k) (simp_all add: f)
  then show ?thesis by (simp add: f)
qed

lemma clock_read: "reads (clock_time n c) [(Fixed 1, 0)] (c\<lparr>clock_time_stamp_flag := 0\<rparr>)"
proof -
  have f: "fits 1 (0 :: u8)" by (simp add: fits_def)
  have "reads (clock_time n c) ([(Fixed 1, uint (0 :: u8))] @ []) (c\<lparr>clock_time_stamp_flag := 0\<rparr>)"
    unfolding clock_time_def Let_def
    apply (rule reads_bind [OF reads_get_u [OF f]])
    by (simp add: reads_return)
  then show ?thesis by simp
qed

lemma clocks_read:
  "i + k \<le> length cs \<Longrightarrow>
   reads (clocks_loop k i n cs) (replicate k (Fixed 1, 0)) (take i cs @ clocks_off k (drop i cs))"
proof (induction k arbitrary: i cs)
  case 0
  have "clocks_loop 0 i n cs = (\<lambda>p. Some (cs, p))" by (rule ext) simp
  then show ?case by (simp add: clocks_off_def reads_return)
next
  case (Suc k)
  then have i: "i < length cs" by simp
  let ?c = "(cs ! i)\<lparr>clock_time_stamp_flag := 0\<rparr>"
  have l: "clocks_loop (Suc k) i n cs = (\<lambda>p. do { (x, q) \<leftarrow> clock_time n (cs ! i) p; clocks_loop k (i + 1) n (cs[i := x]) q })"
    by (rule ext) (simp add: at_def i)
  have r: "take (i + 1) (cs[i := ?c]) @ clocks_off k (drop (i + 1) (cs[i := ?c])) = take i cs @ clocks_off (Suc k) (drop i cs)"
    using i by (simp add: clocks_off_def take_Suc_conv_app_nth Cons_nth_drop_Suc [symmetric] drop_update_cancel)
  have "reads (clocks_loop k (i + 1) n (cs[i := ?c])) (replicate k (Fixed 1, 0)) (take i cs @ clocks_off (Suc k) (drop i cs))"
    using Suc.IH [of "i + 1" "cs[i := ?c]"] Suc.prems unfolding r by simp
  from reads_bind [OF clock_read, of "\<lambda>x. clocks_loop k (i + 1) n (cs[i := x])", OF this] show ?case unfolding l by simp
qed

definition long_delays :: "AL_TAvcSps \<Rightarrow> bool" where
  "long_delays t \<longleftrightarrow> au_cpb_removal_delay_length_minus1 (hrd_param (vui_param t)) = 31
     \<and> dpb_output_delay_length_minus1 (hrd_param (vui_param t)) = 31"

lemma pt_read:
  assumes s: "\<not> bConceal s" "hrd_alike s (ctx_sps c)" "hrd_present (ctx_sps c) \<longrightarrow> long_delays (ctx_sps c)"
    and p: "pic_struct_present_flag (vui_param (ctx_sps c)) \<noteq> 0" "0 \<le> ePicStruct (pPicStatus c)" "ePicStruct (pPicStatus c) \<le> 8"
    and t: "length (clock_ts t) = 4"
  shows "areads (sei_pic_timing (Some s) t) (pt_elems c @ sei_pad (length (elems_bits (pt_elems c)))) (True, pt_received c t)"
proof -
  let ?t = "ctx_sps c" let ?n = "length (elems_bits (pt_elems c))" let ?ps = "ePicStruct (pPicStatus c)"
  let ?d = "uDpbOutputDelay (pPicStatus c)"
  have hs: "hrd_param (vui_param s) = hrd_param (vui_param ?t)" "hrd_present s = hrd_present ?t"
    "pic_struct_present_flag (vui_param s) = pic_struct_present_flag (vui_param ?t)"
    using s(2) by (simp_all add: hrd_alike_def hrd_present_def)
  note k = clocks_cases [OF p(2,3)]
  have n: "?n mod 8 \<noteq> 0"
  proof -
    have "clocks ?ps = 1 \<or> clocks ?ps = 2 \<or> clocks ?ps = 3" using k(2,3) by linarith
    then show ?thesis by (auto simp: pt_elems_def)
  qed
  let ?two = "if hrd_present ?t then [(Fixed 32, as_u32 (cpbRemovalDelay c)), (Fixed 32, as_u32 (sint ?d))] else []"
  let ?t1 = "if hrd_present ?t then t\<lparr>cpb_removal_delay := of_int (cpbRemovalDelay c), dpb_output_delay := ?d\<rparr> else t"
  let ?ol = "if hrd_present ?t then unat (time_offset_length (hrd_param (vui_param ?t))) else 0"
  have dd: "(of_int (sint ?d) :: u32) = ?d" by simp
  have w32: "unat (31 + 1 :: u8) = 32" by simp
  have td: "reads (timing_delays s t) ?two (?ol, ?t1)"
  proof (cases "hrd_present ?t")
    case True
    then have ld: "au_cpb_removal_delay_length_minus1 (hrd_param (vui_param ?t)) = 31"
      "dpb_output_delay_length_minus1 (hrd_param (vui_param ?t)) = 31" using s(3) by (simp_all add: long_delays_def)
    have e: "[(Fixed 32, as_u32 (cpbRemovalDelay c)), (Fixed 32, as_u32 (sint ?d))]
        = [(Fixed 32, uint (of_int (cpbRemovalDelay c) :: u32))] @ [(Fixed 32, uint ?d)] @ []"
      by (simp add: as_u32_def)
    have "reads (timing_delays s t) ([(Fixed 32, uint (of_int (cpbRemovalDelay c) :: u32))] @ [(Fixed 32, uint ?d)] @ []) (?ol, ?t1)"
      unfolding timing_delays_def hs if_P [OF True] ld w32
      by (rule reads_bind [OF reads_u [OF fits_all(3)]]) (rule reads_bind [OF reads_u [OF fits_all(3)]], rule reads_return)
    then show ?thesis unfolding e [symmetric] using True by simp
  next
    case False
    then have "timing_delays s t = (\<lambda>p. Some ((0, t), p))" by (intro ext) (simp add: timing_delays_def hs)
    with False show ?thesis by (simp add: reads_return)
  qed
  have psw: "fits 4 (of_int ?ps :: u8)" "uint (of_int ?ps :: u8) = ?ps" "unat (of_int ?ps :: u8) = nat ?ps"
  proof -
    show u: "uint (of_int ?ps :: u8) = ?ps" using p(2,3) by (simp add: uint_word_of_int take_bit_int_eq_self_iff)
    then show "fits 4 (of_int ?ps :: u8)" using p(3) by (simp add: fits_def)
    show "unat (of_int ?ps :: u8) = nat ?ps" unfolding unat_eq_nat_uint u ..
  qed
  have ct: "clock_ts ?t1 = clock_ts t" by simp
  have cl: "reads (clocks_loop (clocks ?ps) 0 ?ol (clock_ts t)) [(Fixed (clocks ?ps), 0)] (clocks_off (clocks ?ps) (clock_ts t))"
    using clocks_read [of 0 "clocks ?ps" "clock_ts t" ?ol] k(3) t by (intro reads_bits [OF _ fixed_zeros]) simp
  let ?t2 = "?t1\<lparr>pic_struct := of_int ?ps, clock_ts := clocks_off (clocks ?ps) (clock_ts t)\<rparr>"
  have sec: "reads (\<lambda>p1. do { (ps, q1) \<leftarrow> get_u 4 p1; n \<leftarrow> at PicStructToNumClockTS (unat ps);
        (cs, q2) \<leftarrow> clocks_loop n 0 ?ol (clock_ts ?t1) q1; Some (?t1\<lparr>pic_struct := ps, clock_ts := cs\<rparr>, q2) })
      ([(Fixed 4, uint (of_int ?ps :: u8))] @ [(Fixed (clocks ?ps), 0)] @ []) ?t2"
    apply (rule reads_bind [OF reads_get_u [OF psw(1)]])
    apply (simp only: psw(3) k(1) Option.bind.bind_lunit ct)
    by (rule reads_bind [OF cl], rule reads_return)
  have e: "pt_elems c @ sei_pad ?n = ?two @ ([(Fixed 4, uint (of_int ?ps :: u8))] @ [(Fixed (clocks ?ps), 0)] @ []) @ sei_pad ?n"
    unfolding psw(2) pt_elems_def by simp
  have r: "?t2 = pt_received c t" by (simp add: pt_received_def)
  show ?thesis
    unfolding e sei_pic_timing_def option.case if_not_P [OF s(1)]
    apply (rule areads_bind [OF td])
    apply (simp only: prod.case hs if_P [OF p(1)])
    apply (rule areads_bind [OF sec])
    unfolding r by (rule areads_then [OF byte_alignment_read [OF n], of "\<lambda>r. (r, pt_received c t)"])
qed

text \<open>The HDR messages.\<close>

lemma fits_16: "fits 16 (v :: u16)"
  using uint_lt2p [of v] by (simp add: fits_def)

lemma coordinates_read:
  "reads (coordinates_loop (length cs) ds) (concat (map coordinates cs)) (ds @ cs)"
proof (induction cs arbitrary: ds)
  case Nil
  have "coordinates_loop 0 ds = (\<lambda>p. Some (ds, p))" by (rule ext) simp
  then show ?case by (simp add: reads_return)
next
  case (Cons c cs)
  have e: "concat (map coordinates (c # cs)) = [(Fixed 16, uint (chroma_x c))] @ [(Fixed 16, uint (chroma_y c))] @ concat (map coordinates cs)"
    by (simp add: coordinates_def)
  have c: "\<lparr>chroma_x = chroma_x c, chroma_y = chroma_y c\<rparr> = c" by simp
  have r: "ds @ c # cs = (ds @ [c]) @ cs" by simp
  have l: "coordinates_loop (length (c # cs)) ds = (\<lambda>p. do { (x, p1) \<leftarrow> get_u 16 p; (y, p2) \<leftarrow> get_u 16 p1;
      coordinates_loop (length cs) (ds @ [\<lparr>chroma_x = x, chroma_y = y\<rparr>]) p2 })" by (rule ext) simp
  show ?case
    unfolding e l r
    apply (rule reads_bind [OF reads_get_u [OF fits_16]])
    apply (rule reads_bind [OF reads_get_u [OF fits_16]])
    unfolding c by (rule Cons)
qed

lemma mdcv_read:
  assumes "length (display_primaries m) = 3"
  shows "areads sei_mastering_display_colour_volume (mdcv_elems m @ sei_pad (length (elems_bits (mdcv_elems m)))) (True, m)"
proof -
  let ?n = "length (elems_bits (mdcv_elems m))"
  have tk: "take 3 (display_primaries m) = display_primaries m" using assms by simp
  have n: "?n mod 8 = 0" unfolding mdcv_elems_def concat_three [OF assms] by (simp add: coordinates_def)
  have e: "mdcv_elems m @ sei_pad ?n = concat (map coordinates (display_primaries m)) @ [(Fixed 16, uint (chroma_x (white_point m)))]
      @ [(Fixed 16, uint (chroma_y (white_point m)))] @ [(Fixed 32, uint (max_display_mastering_luminance m))]
      @ [(Fixed 32, uint (min_display_mastering_luminance m))] @ sei_pad ?n"
    by (simp add: mdcv_elems_def tk coordinates_def)
  have cl: "reads (coordinates_loop 3 []) (concat (map coordinates (display_primaries m))) (display_primaries m)"
    using coordinates_read [of "display_primaries m" "[]"] assms by simp
  have r: "\<lparr>display_primaries = display_primaries m, white_point = \<lparr>chroma_x = chroma_x (white_point m), chroma_y = chroma_y (white_point m)\<rparr>,
      max_display_mastering_luminance = max_display_mastering_luminance m,
      min_display_mastering_luminance = min_display_mastering_luminance m\<rparr> = m" by simp
  show ?thesis
    unfolding e sei_mastering_display_colour_volume_def
    apply (rule areads_bind [OF cl])
    apply (rule areads_bind [OF reads_get_u [OF fits_16]])
    apply (rule areads_bind [OF reads_get_u [OF fits_16]])
    apply (rule areads_bind [OF reads_u [OF fits_all(3)]])
    apply (rule areads_bind [OF reads_u [OF fits_all(3)]])
    unfolding r by (rule areads_then [OF aligned_end_read [OF n], of "\<lambda>r. (r, m)"])
qed

lemma cll_read: "areads sei_content_light_level (cll_elems l @ sei_pad (length (elems_bits (cll_elems l)))) (True, l)"
proof -
  let ?n = "length (elems_bits (cll_elems l))"
  have n: "?n mod 8 = 0" by (simp add: cll_elems_def)
  have e: "cll_elems l @ sei_pad ?n = [(Fixed 16, uint (max_content_light_level l))] @ [(Fixed 16, uint (max_pic_average_light_level l))] @ sei_pad ?n"
    by (simp add: cll_elems_def)
  have r: "\<lparr>max_content_light_level = max_content_light_level l, max_pic_average_light_level = max_pic_average_light_level l\<rparr> = l" by simp
  show ?thesis
    unfolding e sei_content_light_level_def
    apply (rule areads_bind [OF reads_get_u [OF fits_16]])
    apply (rule areads_bind [OF reads_get_u [OF fits_16]])
    unfolding r by (rule areads_then [OF aligned_end_read [OF n], of "\<lambda>r. (r, l)"])
qed

section \<open>What the decoder makes of a message\<close>

text \<open>The type of the message, and its effect on the structures of the decoder.\<close>

definition received :: "AL_TAvcSps AL_TSeiPrefixCtx \<Rightarrow> u8 \<Rightarrow> AL_TAvcSei \<times> AL_TAup \<Rightarrow> AL_TAvcSei \<times> AL_TAup" where
  "received c t = (\<lambda>(sei, aup).
     if t = 0 then (sei\<lparr>buffering_period := bp_received c (buffering_period sei), present_flags := present_flags sei OR AL_SEI_BP\<rparr>,
                    aup\<lparr>avcAup := (avcAup aup)\<lparr>pActiveSPS := Some (unat (seq_parameter_set_id (ctx_sps c)))\<rparr>\<rparr>)
     else if t = 6 then (sei\<lparr>recovery_point := rp_received c\<rparr>, aup\<lparr>iRecoveryCnt := st_iRecoveryCnt (pPicStatus c) + 1\<rparr>)
     else if t = 1 then (sei\<lparr>picture_timing := pt_received c (picture_timing sei), present_flags := present_flags sei OR AL_SEI_PT\<rparr>, aup)
     else if t = 137 then (sei, aup\<lparr>tHDRSEIs := (tHDRSEIs aup)\<lparr>tMDCV := tMDCV (pHDRSEIs c), bHasMDCV := True\<rparr>\<rparr>)
     else (sei, aup\<lparr>tHDRSEIs := (tHDRSEIs aup)\<lparr>tCLL := tCLL (pHDRSEIs c), bHasCLL := True\<rparr>\<rparr>))"

text \<open>The decoder's side: its SPS is not concealed and agrees, and it is active where no buffering period makes it so.\<close>

definition sps_alike :: "AL_TAvcSps AL_TSeiPrefixCtx \<Rightarrow> AL_TAvcAup \<Rightarrow> bool" where
  "sps_alike c a \<longleftrightarrow> seq_parameter_set_id (ctx_sps c) < 32 \<and> length (pSPS a) = 32
     \<and> \<not> bConceal (pSPS a ! unat (seq_parameter_set_id (ctx_sps c)))
     \<and> hrd_alike (pSPS a ! unat (seq_parameter_set_id (ctx_sps c))) (ctx_sps c)"

definition sei_shape :: "AL_TAvcSei \<Rightarrow> bool" where
  "sei_shape sei \<longleftrightarrow> buf_shape (buffering_period sei) \<and> length (clock_ts (picture_timing sei)) = 4"

definition payload_ok :: "AL_TAvcSps AL_TSeiPrefixCtx \<Rightarrow> u8 \<Rightarrow> AL_TAvcAup \<Rightarrow> bool" where
  "payload_ok c t a \<longleftrightarrow>
     (t = 0 \<longrightarrow> one_delay (ctx_sps c) \<and> fits 5 (initial_cpb_removal_delay_length_minus1 (hrd_param (vui_param (ctx_sps c))))
        \<and> as_u32 (cpbInitialRemovalDelay c) < 2 ^ initial_length (ctx_sps c))
     \<and> (t = 6 \<longrightarrow> 0 \<le> st_iRecoveryCnt (pPicStatus c) \<and> st_iRecoveryCnt (pPicStatus c) < 2147483646)
     \<and> (t = 1 \<longrightarrow> pic_struct_present_flag (vui_param (ctx_sps c)) \<noteq> 0
          \<and> 0 \<le> ePicStruct (pPicStatus c) \<and> ePicStruct (pPicStatus c) \<le> 8
          \<and> (hrd_present (ctx_sps c) \<longrightarrow> long_delays (ctx_sps c))
          \<and> pActiveSPS a = Some (unat (seq_parameter_set_id (ctx_sps c))))
     \<and> (t = 137 \<longrightarrow> length (display_primaries (tMDCV (pHDRSEIs c))) = 3)"

definition payload_elems :: "AL_TAvcSps AL_TSeiPrefixCtx \<Rightarrow> u8 \<Rightarrow> (shape \<times> int) list" where
  "payload_elems c t =
     (if t = 0 then bp_elems c else if t = 6 then rp_elems c else if t = 1 then pt_elems c
      else if t = 137 then mdcv_elems (tMDCV (pHDRSEIs c)) else cll_elems (tCLL (pHDRSEIs c)))"

definition sei_types :: "u8 set" where
  "sei_types = {0, 6, 1, 137, 144}"

definition after_receipt :: "AL_TAvcSps AL_TSeiPrefixCtx \<Rightarrow> u8 \<Rightarrow> sei_state \<Rightarrow> sei_state" where
  "after_receipt c t st =
     st\<lparr>ss_sei := fst (received c t (ss_sei st, ss_aup st)), ss_aup := snd (received c t (ss_sei st, ss_aup st))\<rparr>"

text \<open>The messages that the parser only hands on to the callback when it could not use them.\<close>

definition kept :: "u8 \<Rightarrow> bool" where
  "kept t \<longleftrightarrow> t \<noteq> 137 \<and> t \<noteq> 144"

lemma areads_parse:
  assumes "areads f es (True, x)"
  shows "areads (\<lambda>p. do { ((res, v), p1) \<leftarrow> parse_or_skip n f p; Some (g res v, p1) }) es (g Parsed x)"
  using areads_then [OF parse_or_skip_read [OF assms, of n], of "\<lambda>(res, v). g res v"] by (simp add: case_prod_beta' split_def)

lemma payload_read:
  assumes t: "t \<in> sei_types" and a: "sps_alike c (avcAup (ss_aup st))" "sei_shape (ss_sei st)"
    and ok: "payload_ok c t (avcAup (ss_aup st))"
  shows "areads (sei_payload (unat t) n st) (payload_elems c t @ sei_pad (length (elems_bits (payload_elems c t))))
    (True, kept t, after_receipt c t st)"
proof -
  let ?id = "seq_parameter_set_id (ctx_sps c)" let ?a = "avcAup (ss_aup st)"
  have id: "unat ?id < length (pSPS ?a)"
  proof -
    have "?id < 32" "length (pSPS ?a) = 32" using a(1) by (simp_all add: sps_alike_def)
    then show ?thesis by (simp add: word_less_nat_alt)
  qed
  then have s: "at (pSPS ?a) (unat ?id) = Some (pSPS ?a ! unat ?id)" by (simp add: at_def)
  have al: "?id < 32" "\<not> bConceal (pSPS ?a ! unat ?id)" "hrd_alike (pSPS ?a ! unat ?id) (ctx_sps c)"
    using a(1) by (simp_all add: sps_alike_def)
  have sh: "buf_shape (buffering_period (ss_sei st))" "length (clock_ts (picture_timing (ss_sei st))) = 4"
    using a(2) by (simp_all add: sei_shape_def)
  have ne: "Parsed \<noteq> Returned" by simp
  note types = SEI_PTYPE_BUFFERING_PERIOD_def SEI_PTYPE_PIC_TIMING_def SEI_PTYPE_RECOVERY_POINT_def
    SEI_PTYPE_MASTERING_DISPLAY_COLOUR_VOLUME_def SEI_PTYPE_CONTENT_LIGHT_LEVEL_def
  note effects = payload_elems_def kept_def after_receipt_def received_def
  consider (bp) "t = 0" | (rp) "t = 6" | (pt) "t = 1" | (mdcv) "t = 137" | (cll) "t = 144" using t by (auto simp: sei_types_def)
  then show ?thesis
  proof cases
    case bp
    have o: "one_delay (ctx_sps c)" "fits 5 (initial_cpb_removal_delay_length_minus1 (hrd_param (vui_param (ctx_sps c))))"
      "as_u32 (cpbInitialRemovalDelay c) < 2 ^ initial_length (ctx_sps c)" using ok bp by (simp_all add: payload_ok_def)
    let ?g = "\<lambda>res (act, b). (res \<noteq> Returned, True, st\<lparr>ss_aup := (ss_aup st)\<lparr>avcAup := ?a\<lparr>pActiveSPS := act\<rparr>\<rparr>,
        ss_sei := (let sei = (ss_sei st)\<lparr>buffering_period := b\<rparr>
                   in if res = Parsed then sei\<lparr>present_flags := present_flags sei OR AL_SEI_BP\<rparr> else sei)\<rparr>)"
    have e: "sei_payload (unat t) n st = (\<lambda>p. do { ((res, v), p1) \<leftarrow> parse_or_skip n
        (sei_buffering_period (pSPS ?a) (pActiveSPS ?a) (buffering_period (ss_sei st))) p; Some (?g res v, p1) })"
      by (rule ext) (simp add: sei_payload_def bp types case_buffering_period_def Let_def split_def)
    have v: "?g Parsed (Some (unat ?id), bp_received c (buffering_period (ss_sei st))) = (True, kept t, after_receipt c t st)"
      by (cases st) (simp add: bp effects)
    from areads_parse [where g = ?g, OF bp_read [OF al(1) s al(2,3) o sh(1)]] show ?thesis
      unfolding e v by (simp add: bp payload_elems_def)
  next
    case rp
    have o: "0 \<le> st_iRecoveryCnt (pPicStatus c)" "st_iRecoveryCnt (pPicStatus c) < 2147483646"
      using ok rp by (simp_all add: payload_ok_def)
    have cnt: "sint (of_int (st_iRecoveryCnt (pPicStatus c) + 1) :: u32) = st_iRecoveryCnt (pPicStatus c) + 1"
      using o by (simp only: sint_sbintrunc') (simp add: signed_take_bit_int_eq_self_iff)
    let ?g = "\<lambda>res r. (res \<noteq> Returned, True, let st1 = st\<lparr>ss_sei := (ss_sei st)\<lparr>recovery_point := r\<rparr>\<rparr>
        in if res = Parsed then st1\<lparr>ss_aup := (ss_aup st1)\<lparr>iRecoveryCnt := sint (of_int (recovery_cnt r + 1) :: u32)\<rparr>\<rparr> else st1)"
    have e: "sei_payload (unat t) n st = (\<lambda>p. do { ((res, v), p1) \<leftarrow> parse_or_skip n sei_recovery_point p; Some (?g res v, p1) })"
      by (rule ext) (simp add: sei_payload_def rp types case_recovery_point_def Let_def split_def)
    have v: "?g Parsed (rp_received c) = (True, kept t, after_receipt c t st)"
      using cnt by (cases st) (simp add: rp effects rp_received_def)
    from areads_parse [where g = ?g, OF rp_read [OF o]] show ?thesis unfolding e v by (simp add: rp payload_elems_def)
  next
    case pt
    have o: "pic_struct_present_flag (vui_param (ctx_sps c)) \<noteq> 0" "0 \<le> ePicStruct (pPicStatus c)" "ePicStruct (pPicStatus c) \<le> 8"
      "hrd_present (ctx_sps c) \<longrightarrow> long_delays (ctx_sps c)" "pActiveSPS ?a = Some (unat ?id)"
      using ok pt by (simp_all add: payload_ok_def)
    have act: "active_sps ?a = Some (Some (pSPS ?a ! unat ?id))" by (simp add: active_sps_def o(5) s)
    let ?g = "\<lambda>res v. (res \<noteq> Returned, True, st\<lparr>ss_sei := (let sei = (ss_sei st)\<lparr>picture_timing := v\<rparr>
        in if res = Parsed then sei\<lparr>present_flags := present_flags sei OR AL_SEI_PT\<rparr> else sei)\<rparr>)"
    have e: "sei_payload (unat t) n st = (\<lambda>p. do { ((res, v), p1) \<leftarrow> parse_or_skip n
        (sei_pic_timing (Some (pSPS ?a ! unat ?id)) (picture_timing (ss_sei st))) p; Some (?g res v, p1) })"
      by (rule ext) (simp add: sei_payload_def pt types case_pic_timing_def act Let_def split_def)
    have v: "?g Parsed (pt_received c (picture_timing (ss_sei st))) = (True, kept t, after_receipt c t st)"
      by (cases st) (simp add: pt effects)
    from areads_parse [where g = ?g, OF pt_read [OF al(2,3) o(4,1-3) sh(2)]] show ?thesis
      unfolding e v by (simp add: pt payload_elems_def)
  next
    case mdcv
    have o: "length (display_primaries (tMDCV (pHDRSEIs c))) = 3" using ok mdcv by (simp add: payload_ok_def)
    let ?g = "\<lambda>res v. (res \<noteq> Returned, res \<noteq> Parsed, st\<lparr>ss_aup := (ss_aup st)\<lparr>tHDRSEIs := (let h = (tHDRSEIs (ss_aup st))\<lparr>tMDCV := v\<rparr>
        in if res = Parsed then h\<lparr>bHasMDCV := True\<rparr> else h)\<rparr>\<rparr>)"
    have e: "sei_payload (unat t) n st = (\<lambda>p. do { ((res, v), p1) \<leftarrow> parse_or_skip n sei_mastering_display_colour_volume p;
        Some (?g res v, p1) })"
      by (rule ext) (simp add: sei_payload_def mdcv types case_mdcv_def Let_def split_def)
    have v: "?g Parsed (tMDCV (pHDRSEIs c)) = (True, kept t, after_receipt c t st)"
      by (cases st) (simp add: mdcv effects)
    from areads_parse [where g = ?g, OF mdcv_read [OF o]] show ?thesis unfolding e v by (simp add: mdcv payload_elems_def)
  next
    case cll
    let ?g = "\<lambda>res v. (res \<noteq> Returned, res \<noteq> Parsed, st\<lparr>ss_aup := (ss_aup st)\<lparr>tHDRSEIs := (let h = (tHDRSEIs (ss_aup st))\<lparr>tCLL := v\<rparr>
        in if res = Parsed then h\<lparr>bHasCLL := True\<rparr> else h)\<rparr>\<rparr>)"
    have e: "sei_payload (unat t) n st = (\<lambda>p. do { ((res, v), p1) \<leftarrow> parse_or_skip n sei_content_light_level p;
        Some (?g res v, p1) })"
      by (rule ext) (simp add: sei_payload_def cll types case_cll_def Let_def split_def)
    have v: "?g Parsed (tCLL (pHDRSEIs c)) = (True, kept t, after_receipt c t st)"
      by (cases st) (simp add: cll effects)
    from areads_parse [where g = ?g, OF cll_read [of "tCLL (pHDRSEIs c)"]] show ?thesis unfolding e v by (simp add: cll payload_elems_def)
  qed
qed

end
