(* ===== verification/AvcSeiRoundtrip.thy ===== *)
theory AvcSeiRoundtrip imports AvcSeiReads begin

text \<open>
  The SEI NAL unit of the AVC encoder, from \<open>seiPrefixWrite\<close> (lib_encode/NalWriters.c) through \<open>WriteNal\<close> and the ring of
  the decoder to \<open>AL_AVC_ParseSEI\<close> (lib_parsing/AvcParser.c).
\<close>

section \<open>A message\<close>

lemma number_read:
  assumes "asrc X p (field 8 (ucast (b :: u8)) @ r)" "length r mod 8 = 0" "b \<noteq> 0xff"
  shows "\<exists>q. sei_number 0 p = Some (unat b, q) \<and> asrc X q r"
proof -
  from assms(1) have p: "rp_inv p X" "rest X p = byte_bits (replicate 0 (0xff :: u8) @ [b]) @ r"
    "8 * length X < last_one X + 160" "0 < last_one X" "last_one X mod 8 = 0" by (simp_all add: asrc_def src_def)
  have "byte_aligned p" using asrc_aligned [OF assms(1)] assms(2) by simp
  from sei_number_law [OF p(1) this p(2) assms(3), of 0] p(3-5) show ?thesis by (auto simp: asrc_def src_def)
qed

definition payload_bytes :: "AL_TAvcSps AL_TSeiPrefixCtx \<Rightarrow> u8 \<Rightarrow> nat" where
  "payload_bytes c t = (length (elems_bits (payload_elems c t)) + 7) div 8"

lemma message_bits: "elems_bits (message_elems t (payload_elems c t)) = field 8 (ucast t)
    @ field 8 (ucast (of_nat (payload_bytes c t) :: u8))
    @ elems_bits (payload_elems c t @ sei_pad (length (elems_bits (payload_elems c t))))" if "payload_bytes c t < 256"
proof -
  have "uint (of_nat (payload_bytes c t) :: u8) = int (payload_bytes c t)"
    using that by (simp add: uint_nat unat_of_nat take_bit_nat_eq_self_iff)
  then have "(ucast (of_nat (payload_bytes c t) :: u8) :: u32) = of_int (int (payload_bytes c t))" by (simp only: ucast_eq)
  moreover have "(ucast t :: u32) = of_int (uint t)" by (simp only: ucast_eq)
  ultimately show ?thesis by (simp only: message_elems_def payload_bytes_def elems_bits_simps elem_bits.simps append_assoc)
qed

lemma padded: "length (elems_bits (es @ sei_pad (length (elems_bits es)))) mod 8 = 0"
  using pad_bits_length [of "length (elems_bits es)"] by (simp add: sei_pad_bits)

lemma messages_bytes: "length (elems_bits (concat (map (\<lambda>t. message_elems t (payload_elems c t)) ts))) mod 8 = 0"
proof (induction ts)
  case (Cons t ts)
  have "length (elems_bits (message_elems t (payload_elems c t)))
      = 16 + length (elems_bits (payload_elems c t @ sei_pad (length (elems_bits (payload_elems c t)))))"
    by (simp add: message_elems_def)
  with padded [of "payload_elems c t"] have "length (elems_bits (message_elems t (payload_elems c t))) mod 8 = 0" by presburger
  with Cons show ?case by auto
qed simp

text \<open>The state after a message; \<open>d\<close> is the address of its payload.\<close>

definition noted :: "AL_TAvcSps AL_TSeiPrefixCtx \<Rightarrow> bool \<Rightarrow> bool \<Rightarrow> u8 \<Rightarrow> nat \<Rightarrow> sei_state \<Rightarrow> sei_state" where
  "noted c pfx cb t d st = (after_receipt c t st)\<lparr>ss_calls := ss_calls st @
     (if kept t \<and> cb then [\<lparr>bPrefix = pfx, sei_type = unat t, sei_pData = d, sei_size = payload_bytes c t\<rparr>] else [])\<rparr>"

lemma message_read:
  assumes t: "t \<in> sei_types" and a: "sps_alike c (avcAup (ss_aup st))" "sei_shape (ss_sei st)"
    and ok: "payload_ok c t (avcAup (ss_aup st))" "payload_bytes c t < 255" and m: "ss_meta st = None"
    and s: "asrc X p (elems_bits (message_elems t (payload_elems c t)) @ r)" "length r mod 8 = 0"
  shows "\<exists>q d. sei_message base pfx cb st p = Some ((True, noted c pfx cb t d st), q) \<and> asrc X q r"
proof -
  let ?es = "payload_elems c t @ sei_pad (length (elems_bits (payload_elems c t)))"
  let ?n = "payload_bytes c t"
  have len: "length (elems_bits ?es) mod 8 = 0" by (rule padded)
  have n: "unat (of_nat ?n :: u8) = ?n" "of_nat ?n \<noteq> (0xff :: u8)"
  proof -
    show u: "unat (of_nat ?n :: u8) = ?n" using ok(2) by (simp add: unat_of_nat take_bit_nat_eq_self_iff)
    show "of_nat ?n \<noteq> (0xff :: u8)"
    proof
      assume "of_nat ?n = (0xff :: u8)"
      then have "unat (of_nat ?n :: u8) = 255" by simp
      with u ok(2) show False by simp
    qed
  qed
  have t255: "t \<noteq> 0xff" using t by (auto simp: sei_types_def)
  have s1: "asrc X p (field 8 (ucast t) @ field 8 (ucast (of_nat ?n :: u8)) @ elems_bits ?es @ r)"
    using s(1) ok(2) message_bits [of c t] by simp
  have m8: "(a + b) mod 8 = 0" if "a mod 8 = 0" "b mod 8 = 0" for a b :: nat using that by auto
  have l2: "length (elems_bits ?es @ r) mod 8 = 0" unfolding length_append by (rule m8 [OF len s(2)])
  have l1: "length (field 8 (ucast (of_nat ?n :: u8)) @ elems_bits ?es @ r) mod 8 = 0"
    unfolding length_append [of "field 8 _"] by (rule m8) (use l2 in simp_all)
  have l0: "length (field 8 (ucast t) @ field 8 (ucast (of_nat ?n :: u8)) @ elems_bits ?es @ r) mod 8 = 0"
    unfolding length_append [of "field 8 (ucast t)"] by (rule m8) (use l1 in simp_all)
  have al: "byte_aligned p" using asrc_aligned [OF s1] l0 by simp
  from number_read [OF s1 l1 t255] obtain p1 where
    p1: "sei_number 0 p = Some (unat t, p1)" "asrc X p1 (field 8 (ucast (of_nat ?n :: u8)) @ elems_bits ?es @ r)" by blast
  from number_read [OF p1(2) l2 n(2)] n(1) obtain p2 where
    p2: "sei_number 0 p1 = Some (?n, p2)" "asrc X p2 (elems_bits ?es @ r)" by auto
  from areadsD [OF payload_read [OF t a ok(1), of ?n] p2(2) s(2)] obtain q where
    q: "sei_payload (unat t) ?n st p2 = Some ((True, kept t, after_receipt c t st), q)" "asrc X q r" by blast
  have m1: "ss_meta (after_receipt c t st) = None" "ss_calls (after_receipt c t st) = ss_calls st"
    using m by (simp_all add: after_receipt_def)
  have "sei_message base pfx cb st p = Some ((True, noted c pfx cb t (base + get_raw_data p2) st), q)"
    using al p1(1) p2(1) q(1) m1 by (cases "kept t"; cases cb) (simp_all add: sei_message_def Let_def pass_on_def noted_def)
  with q(2) show ?thesis by blast
qed

section \<open>All messages\<close>

fun able :: "AL_TAvcSps AL_TSeiPrefixCtx \<Rightarrow> u8 list \<Rightarrow> AL_TAvcSei \<times> AL_TAup \<Rightarrow> bool" where
  "able c [] x = True"
| "able c (t # ts) x \<longleftrightarrow> t \<in> sei_types \<and> payload_ok c t (avcAup (snd x)) \<and> payload_bytes c t < 255 \<and> able c ts (received c t x)"

definition call_view :: "AL_TSeiMessage \<Rightarrow> bool \<times> nat \<times> nat" where
  "call_view m = (bPrefix m, sei_type m, sei_size m)"

lemma received_keeps:
  "sps_alike c (avcAup a) \<Longrightarrow> sps_alike c (avcAup (snd (received c t (s, a))))"
  "sei_shape s \<Longrightarrow> sei_shape (fst (received c t (s, a)))"
  by (auto simp: received_def sps_alike_def sei_shape_def buf_shape_def bp_received_def pt_received_def clocks_off_def)

lemma loop_read:
  "able c ts (ss_sei st, ss_aup st) \<Longrightarrow> sps_alike c (avcAup (ss_aup st)) \<Longrightarrow> sei_shape (ss_sei st) \<Longrightarrow> ss_meta st = None \<Longrightarrow>
   asrc X p (elems_bits (concat (map (\<lambda>t. message_elems t (payload_elems c t)) ts))) \<Longrightarrow>
   \<exists>st' q. sei_loop base pfx cb st p = Some ((True, st'), q)
     \<and> (ss_sei st', ss_aup st') = fold (received c) ts (ss_sei st, ss_aup st)
     \<and> map call_view (ss_calls st') = map call_view (ss_calls st)
         @ (if cb then map (\<lambda>t. (pfx, unat t, payload_bytes c t)) (filter kept ts) else [])"
proof (induction ts arbitrary: st p)
  case Nil
  then have "src X p []" by (simp add: asrc_def)
  from no_more_data [OF this] show ?case by (auto simp: sei_loop.simps [of base pfx cb st p])
next
  case (Cons t ts)
  let ?r = "elems_bits (concat (map (\<lambda>t. message_elems t (payload_elems c t)) ts))"
  let ?m = "elems_bits (message_elems t (payload_elems c t))"
  have t: "t \<in> sei_types" "payload_ok c t (avcAup (ss_aup st))" "payload_bytes c t < 255" using Cons.prems(1) by simp_all
  have s: "asrc X p (?m @ ?r)" using Cons.prems(5) by simp
  have r8: "length ?r mod 8 = 0" by (rule messages_bytes)
  obtain b bs where b: "?m @ ?r = b # bs" by (cases "?m @ ?r") (simp_all add: message_elems_def field_def)
  from more_data [of X p b bs] s b obtain p1 where
    p1: "more_rbsp_data p = Some (True, p1)" "asrc X p1 (?m @ ?r)" by (auto simp: asrc_def)
  from message_read [OF t(1) Cons.prems(2,3) t(2,3) Cons.prems(4) p1(2) r8, of base pfx cb] obtain q d where
    q: "sei_message base pfx cb st p1 = Some ((True, noted c pfx cb t d st), q)" "asrc X q ?r" by blast
  let ?st = "noted c pfx cb t d st"
  have e: "(ss_sei ?st, ss_aup ?st) = received c t (ss_sei st, ss_aup st)" "ss_meta ?st = None"
    using Cons.prems(4) by (simp_all add: noted_def after_receipt_def)
  have v: "map call_view (ss_calls ?st) = map call_view (ss_calls st) @ (if kept t \<and> cb then [(pfx, unat t, payload_bytes c t)] else [])"
    by (simp add: noted_def call_view_def)
  have k: "sps_alike c (avcAup (ss_aup ?st))" "sei_shape (ss_sei ?st)"
    using received_keeps(1) [OF Cons.prems(2), of t "ss_sei st"] received_keeps(2) [OF Cons.prems(3), of c t "ss_aup st"]
    unfolding e(1) [symmetric] by simp_all
  have ab: "able c ts (ss_sei ?st, ss_aup ?st)" unfolding e(1) using Cons.prems(1) by simp
  from Cons.IH [OF ab k e(2) q(2)] obtain st' q' where
    i: "sei_loop base pfx cb ?st q = Some ((True, st'), q')" "(ss_sei st', ss_aup st') = fold (received c) ts (ss_sei ?st, ss_aup ?st)"
      "map call_view (ss_calls st') = map call_view (ss_calls ?st)
         @ (if cb then map (\<lambda>t. (pfx, unat t, payload_bytes c t)) (filter kept ts) else [])" by blast
  have "sei_loop base pfx cb st p = Some ((True, st'), q')" using p1(1) q(1) i(1) by (simp add: sei_loop.simps [of base pfx cb st p])
  moreover have "(ss_sei st', ss_aup st') = fold (received c) (t # ts) (ss_sei st, ss_aup st)" using i(2) unfolding e(1) by simp
  moreover have "map call_view (ss_calls st') = map call_view (ss_calls st)
      @ (if cb then map (\<lambda>t. (pfx, unat t, payload_bytes c t)) (filter kept (t # ts)) else [])"
    using i(3) v by simp
  ultimately show ?case by blast
qed

section \<open>The NAL unit\<close>

definition sent_types :: "u32 \<Rightarrow> u8 list" where
  "sent_types f = (if bit f 0 then [0] else []) @ (if bit f 2 then [6] else []) @ (if bit f 1 then [1] else [])
     @ (if bit f 3 then [137] else []) @ (if bit f 4 then [144] else [])"

lemma sei_sent_types: "sei_sent c f = map (\<lambda>t. (t, payload_elems c t)) (sent_types f)"
  by (simp add: sei_sent_def sei_table_def sent_types_def payload_elems_def)

lemma sei_elems_types: "sei_elems c f = concat (map (\<lambda>t. message_elems t (payload_elems c t)) (sent_types f))"
  by (simp add: sei_elems_def sei_sent_types comp_def)

text \<open>What the decoder needs to follow: the delays of one set of HRD parameters, of 32 bits in the picture timing, and an
  SPS of the same parameters, which is active unless the message itself makes it so.\<close>

definition sei_followed :: "AL_TAvcSps AL_TSeiPrefixCtx \<Rightarrow> u32 \<Rightarrow> AL_TAvcAup \<Rightarrow> bool" where
  "sei_followed c f a \<longleftrightarrow> sps_alike c a
     \<and> (bit f 0 \<longrightarrow> one_delay (ctx_sps c))
     \<and> (bit f 1 \<longrightarrow> (hrd_present (ctx_sps c) \<longrightarrow> long_delays (ctx_sps c))
          \<and> (bit f 0 \<or> pActiveSPS a = Some (unat (seq_parameter_set_id (ctx_sps c)))))"

lemma able_append: "able c (xs @ ys) x \<longleftrightarrow> able c xs x \<and> able c ys (fold (received c) xs x)"
  by (induction xs arbitrary: x) simp_all

lemma sent_bytes: "sei_ok c f \<Longrightarrow> t \<in> set (sent_types f) \<Longrightarrow> payload_bytes c t < 255"
proof -
  assume ok: "sei_ok c f" and t: "t \<in> set (sent_types f)"
  then have "(t, payload_elems c t) \<in> set (sei_sent c f)" by (simp add: sei_sent_types)
  then obtain b where b: "(b, t, payload_elems c t) \<in> set (sei_table c)" "bit f b" by (auto simp: sei_sent_def)
  from message_ok [OF ok b] show ?thesis by (auto simp: payload_bytes_def)
qed

lemma active_after_bp: "pActiveSPS (avcAup (snd (received c 0 x))) = Some (unat (seq_parameter_set_id (ctx_sps c)))"
  by (cases x) (simp add: received_def)

lemma active_after_rp: "pActiveSPS (avcAup (snd (received c 6 x))) = pActiveSPS (avcAup (snd x))"
  by (cases x) (simp add: received_def)

lemma able_if:
  "t \<in> sei_types \<Longrightarrow> (b \<Longrightarrow> payload_ok c t (avcAup (snd x)) \<and> payload_bytes c t < 255) \<Longrightarrow> able c (if b then [t] else []) x"
  by simp

lemma able_sent:
  assumes "sei_ok c f" "sei_followed c f (avcAup (snd x))"
  shows "able c (sent_types f) x"
proof -
  note b = sent_bytes [OF assms(1)]
  have s: "b \<Longrightarrow> t \<in> set (if b then [t] else [])" for b and t :: u8 by simp
  have in_sent: "bit f 0 \<Longrightarrow> 0 \<in> set (sent_types f)" "bit f 2 \<Longrightarrow> 6 \<in> set (sent_types f)" "bit f 1 \<Longrightarrow> 1 \<in> set (sent_types f)"
    "bit f 3 \<Longrightarrow> 137 \<in> set (sent_types f)" "bit f 4 \<Longrightarrow> 144 \<in> set (sent_types f)"
    by (simp_all add: sent_types_def)
  have p: "payload_ok c 0 a" if "bit f 0" for a using assms that by (simp add: sei_ok_def sei_followed_def payload_ok_def)
  have r: "payload_ok c 6 a" if "bit f 2" for a using assms that by (simp add: sei_ok_def payload_ok_def)
  have m: "payload_ok c 137 a" if "bit f 3" for a using assms that by (simp add: sei_ok_def payload_ok_def)
  have l: "payload_ok c 144 a" for a by (simp add: payload_ok_def)
  have t: "payload_ok c 1 a" if "bit f 1" "pActiveSPS a = Some (unat (seq_parameter_set_id (ctx_sps c)))" for a
    using assms that by (simp add: sei_ok_def sei_followed_def payload_ok_def)
  let ?y = "fold (received c) (if bit f 2 then [6] else []) (fold (received c) (if bit f 0 then [0] else []) x)"
  have a: "pActiveSPS (avcAup (snd ?y)) = Some (unat (seq_parameter_set_id (ctx_sps c)))" if "bit f 1"
  proof (cases "bit f 0")
    case True
    then show ?thesis by (cases "bit f 2") (simp_all add: active_after_bp active_after_rp)
  next
    case False
    with assms(2) that have "pActiveSPS (avcAup (snd x)) = Some (unat (seq_parameter_set_id (ctx_sps c)))" by (simp add: sei_followed_def)
    with False show ?thesis by (cases "bit f 2") (simp_all add: active_after_rp)
  qed
  show ?thesis
    unfolding sent_types_def able_append
  proof (intro conjI)
    show "able c (if bit f 0 then [0] else []) x"
      by (rule able_if) (simp add: sei_types_def, intro conjI p b in_sent)
    show "able c (if bit f 2 then [6] else []) y" for y
      by (rule able_if) (simp add: sei_types_def, intro conjI r b in_sent)
    show "able c (if bit f 1 then [1] else []) ?y"
      by (rule able_if) (simp add: sei_types_def, intro conjI t a b in_sent)
    show "able c (if bit f 3 then [137] else []) y" for y
      by (rule able_if) (simp add: sei_types_def, intro conjI m b in_sent)
    show "able c (if bit f 4 then [144] else []) y" for y
      by (rule able_if) (simp add: sei_types_def, intro conjI l b in_sent)
  qed
qed

lemma sei_writes_rbsp:
  assumes ok: "sei_ok c f" "f = uFlags c" "f \<noteq> 0" and sz: "sz \<le> length tmp" "length (elems_bits (sei_elems c f)) < 8 * sz"
  shows "writes_rbsp (seiPrefixWrite avc_writer c) tmp sz (sei_elems c f)"
proof -
  let ?s = "AL_BitStreamLite_Init tmp sz"
  let ?b = "elems_bits (sei_elems c f) @ True # replicate 7 False"
  have s: "bs_ok ?s" "iBitCount ?s mod 8 = 0" "written ?s = []" "bs_room ?s = 8 * sz"
    using sz(1) by (simp_all add: init_ok) (simp add: AL_BitStreamLite_Init_def)
  have "length ?b \<le> bs_room ?s"
  proof -
    have "length (elems_bits (sei_elems c f)) mod 8 = 0" unfolding sei_elems_types by (rule messages_bytes)
    moreover have "n mod 8 = 0 \<Longrightarrow> n < 8 * k \<Longrightarrow> n + 8 \<le> 8 * k" for n k :: nat by presburger
    ultimately show ?thesis using sz(2) s(4) by simp
  qed
  from emits_bytes_ofD [OF sei_turns_law [OF ok(1)] s(1,2)] ok(3) this obtain t where
    t: "sei_turns avc_writer c f ?s = Some t" "bs_ok t" "iBitCount t mod 8 = 0" "written t = ?b" using s(3) by auto
  note al = aligned_bytes [OF t(2,3)]
  have "BitsToBytes (iBitCount t) \<le> length (pData t)" using t(2) unfolding al(3) by (auto simp: bs_ok_def)
  with t al(1) ok(2) show ?thesis
    unfolding writes_rbsp_def by (intro exI [of _ t] conjI) (auto simp: seiPrefixWrite_def rbsp_of_def)
qed

lemma avc_sei_header:
  "header_ok (header (with_header_avc (AL_CreateSeiPrefix avc_writer c (int AL_AVC_NUT_PREFIX_SEI) temp)))"
  "hdr_size (header (with_header_avc (AL_CreateSeiPrefix avc_writer c (int AL_AVC_NUT_PREFIX_SEI) temp))) = 1"
  by (simp_all add: header_ok_def with_header_avc_def GetNalHeaderAvc_def AL_CreateSeiPrefix_def AL_CreateNalUnit_def
      AL_AVC_NUT_PREFIX_SEI_def)

lemma ParseSEI_eq: "AL_AVC_ParseSEI local base aup pfx cb meta p
    = after_header 1 (sei_loop base pfx cb (sei_start local aup meta)) p"
  by (cases "skipAllZerosAndTheNextByte p") (auto simp: AL_AVC_ParseSEI_def after_header_def split: bind_splits)

text \<open>What the parser has when it is done: the structures, and the calls of the callback but for the addresses.\<close>

definition sei_understood :: "AL_TAvcSps AL_TSeiPrefixCtx \<Rightarrow> AL_TAvcSei \<Rightarrow> AL_TAup \<Rightarrow> bool \<Rightarrow> bool \<Rightarrow> bool \<times> sei_state \<Rightarrow> bool" where
  "sei_understood c local aup pfx cb v \<longleftrightarrow> fst v
     \<and> (ss_sei (snd v), ss_aup (snd v)) = fold (received c) (sent_types (uFlags c)) (local\<lparr>present_flags := 0\<rparr>, aup)
     \<and> map call_view (ss_calls (snd v))
         = (if cb then map (\<lambda>t. (pfx, unat t, payload_bytes c t)) (filter kept (sent_types (uFlags c))) else [])"

text \<open>C4: The SEI messages that \<open>seiPrefixWrite\<close> writes for the flags of the encoder, put into the stream by \<open>WriteNal\<close>,
  are understood by \<open>AL_AVC_ParseSEI\<close>: it accepts the NAL, its structures get the delays, the picture structure, the
  recovery point, the mastering display and the light levels that were sent, message by message in the order of the
  writer, and the callback is called once for every message but the HDR ones, with its type and size.  This needs the
  decoder's SPS to agree with the encoder's, one set of HRD parameters, and 32 bits for the delays of the picture timing.\<close>

theorem avc_sei_round_trip:
  assumes "sei_ok c (uFlags c)" "uFlags c \<noteq> 0" "sei_followed c (uFlags c) (avcAup aup)" "sei_shape local"
    and "sz \<le> length tmp" "length (elems_bits (sei_elems c (uFlags c))) < 8 * sz"
    and "bs_ok st" "iBitCount st mod 8 = 0" "2 * length (elems_bits (sei_elems c (uFlags c))) + 56 \<le> bs_room st"
  shows "\<exists>N st'. WriteNal AL_CODEC_AVC tmp sz (with_header_avc (AL_CreateSeiPrefix avc_writer c (int AL_AVC_NUT_PREFIX_SEI) temp)) st
        = Some (int (length N), st')
    \<and> bs_ok st' \<and> written st' = written st @ byte_bits N
    \<and> (\<forall>ring rsz off avail x k. ring_holds ring rsz off avail (N @ x) \<and> follows x \<and> sz + 13 \<le> k \<and> k < 2 ^ 29 \<longrightarrow>
         (\<exists>v q. AL_AVC_ParseSEI local base aup pfx cb None (InitRbspParser ring rsz off avail (replicate k 0) True) = Some (v, q)
            \<and> sei_understood c local aup pfx cb v))"
proof -
  let ?nal = "with_header_avc (AL_CreateSeiPrefix avc_writer c (int AL_AVC_NUT_PREFIX_SEI) temp)"
  let ?es = "sei_elems c (uFlags c)" let ?x = "(local\<lparr>present_flags := 0\<rparr>, aup)"
  note h = avc_sei_header [of c temp]
  have w: "writes_rbsp (Write ?nal) tmp sz ?es"
    using sei_writes_rbsp [OF assms(1) refl assms(2,5,6)]
    by (simp add: with_header_avc_def AL_CreateSeiPrefix_def AL_CreateNalUnit_def)
  have room: "8 * (hdr_size (header ?nal) + 4) + 2 * (length (elems_bits ?es) + 8) \<le> bs_room st"
    using assms(9) h(2) by simp
  have ab: "able c (sent_types (uFlags c)) ?x" by (rule able_sent [OF assms(1)]) (simp add: assms(3))
  have f: "ends_at (sei_loop base pfx cb (sei_start local aup None)) ?es (sei_understood c local aup pfx cb)"
    unfolding ends_at_def
  proof (intro allI impI, elim conjE)
    fix X q assume s: "src X q (elems_bits ?es)" and l: "last_one X mod 8 = length (elems_bits ?es) mod 8"
    have "length (elems_bits ?es) mod 8 = 0" unfolding sei_elems_types by (rule messages_bytes)
    with s l have as: "asrc X q (elems_bits (concat (map (\<lambda>t. message_elems t (payload_elems c t)) (sent_types (uFlags c)))))"
      by (simp add: asrc_def sei_elems_types)
    have i: "able c (sent_types (uFlags c)) (ss_sei (sei_start local aup None), ss_aup (sei_start local aup None))"
      "sps_alike c (avcAup (ss_aup (sei_start local aup None)))" "sei_shape (ss_sei (sei_start local aup None))"
      "ss_meta (sei_start local aup None) = None"
      using ab assms(3,4) by (simp_all add: sei_start_def sei_followed_def sei_shape_def)
    from loop_read [OF i as, of base pfx cb]
    show "\<exists>v r. sei_loop base pfx cb (sei_start local aup None) q = Some (v, r) \<and> sei_understood c local aup pfx cb v" by (auto simp: sei_understood_def sei_start_def)
  qed
  have k: "1 + sz + 12 = sz + 13" by simp
  from nal_delivered_by [where c = AL_CODEC_AVC, OF w assms(6) h(1) assms(7,8) room f]
  show ?thesis unfolding ParseSEI_eq h(2) k by blast
qed

text \<open>A stream with one HRD, all five messages.\<close>

definition hrd_sps :: AL_TAvcSps where
  "hrd_sps = sps_0\<lparr>seq_parameter_set_id := 2, bConceal := False, vui_parameters_present_flag := 1,
     vui_param := vui_0\<lparr>pic_struct_present_flag := 1,
       hrd_param := hrd_0\<lparr>nal_hrd_parameters_present_flag := 1, initial_cpb_removal_delay_length_minus1 := 22,
         au_cpb_removal_delay_length_minus1 := 31, dpb_output_delay_length_minus1 := 31\<rparr>\<rparr>\<rparr>"

definition example_hdr :: AL_THDRSEIs where
  "example_hdr = \<lparr>bHasMDCV = True,
     tMDCV = \<lparr>display_primaries = [\<lparr>chroma_x = 8500, chroma_y = 39850\<rparr>, \<lparr>chroma_x = 6550, chroma_y = 2300\<rparr>,
                                    \<lparr>chroma_x = 35400, chroma_y = 14600\<rparr>],
              white_point = \<lparr>chroma_x = 15635, chroma_y = 16450\<rparr>, max_display_mastering_luminance = 10000000,
              min_display_mastering_luminance = 1\<rparr>,
     bHasCLL = True, tCLL = \<lparr>max_content_light_level = 1000, max_pic_average_light_level = 400\<rparr>\<rparr>"

definition example_ctx :: "AL_TAvcSps AL_TSeiPrefixCtx" where
  "example_ctx = \<lparr>ctx_sps = hrd_sps, cpbInitialRemovalDelay = 27000, cpbRemovalDelay = 3, uFlags = 0x1F,
     pPicStatus = \<lparr>uDpbOutputDelay = 2, iFiller = 0, uStreamPartOffset = 0, iNumParts = 1, eType = 2, ePicStruct = 3, bIsIDR = True,
       bIsFirstSlice = True, bIsLastSlice = True, st_iRecoveryCnt = 4, uTempId = 0\<rparr>,
     pHDRSEIs = example_hdr\<rparr>"

definition clock_0 :: AL_TSeiClockTS where
  "clock_0 = \<lparr>clock_time_stamp_flag = 1, ct_type = 0, nuit_field_based_flag = 0, counting_type = 0, full_time_stamp_flag = 0,
     discontinuity_flag = 0, cnt_dropped_flag = 0, n_frames = 0, seconds_value = 0, minutes_value = 0, hours_value = 0,
     seconds_flag = 0, minutes_flag = 0, hours_flag = 0, time_offset = 0\<rparr>"

definition example_sei :: AL_TAvcSei where
  "example_sei = \<lparr>present_flags = 0,
     picture_timing = \<lparr>cpb_removal_delay = 0, dpb_output_delay = 0, pic_struct = 0, clock_ts = replicate 4 clock_0\<rparr>,
     buffering_period = \<lparr>bp_seq_parameter_set_id = 0, initial_cpb_removal_delay = replicate 32 0,
       initial_cpb_removal_delay_offset = replicate 32 0\<rparr>,
     recovery_point = \<lparr>recovery_cnt = 0, exact_match = False, broken_link = False\<rparr>\<rparr>"

definition sei_aup :: AL_TAup where
  "sei_aup = \<lparr>avcAup = \<lparr>pSPS = replicate 32 hrd_sps, pPPS = [], pActiveSPS = None\<rparr>, iRecoveryCnt = 0, tHDRSEIs = example_hdr\<rparr>"

lemma example_ctx_ok: "sei_ok example_ctx (uFlags example_ctx)" "uFlags example_ctx = 0x1F"
  "sei_followed example_ctx (uFlags example_ctx) (avcAup sei_aup)"
proof -
  have c: "uFlags example_ctx = 0x1F" "ctx_sps example_ctx = hrd_sps" "cpbInitialRemovalDelay example_ctx = 27000"
    "st_iRecoveryCnt (pPicStatus example_ctx) = 4" "ePicStruct (pPicStatus example_ctx) = 3" "pHDRSEIs example_ctx = example_hdr"
    by (simp_all add: example_ctx_def)
  have n: "initial_length hrd_sps = 23" "fits 5 (initial_cpb_removal_delay_length_minus1 (hrd_param (vui_param hrd_sps)))"
    "pic_struct_present_flag (vui_param hrd_sps) \<noteq> 0" "seq_parameter_set_id hrd_sps = 2" "\<not> bConceal hrd_sps"
    by (simp_all add: initial_length_def hrd_sps_def fits_def)
  have a: "as_u32 27000 = 27000" by (simp add: as_u32_def)
  have p: "length (display_primaries (tMDCV example_hdr)) = 3" by (simp add: example_hdr_def)
  show "sei_ok example_ctx (uFlags example_ctx)" unfolding sei_ok_def c a by (simp add: n p)
  show "uFlags example_ctx = 0x1F" by (rule c(1))
  have d: "one_delay hrd_sps" "long_delays hrd_sps" by (simp_all add: one_delay_def long_delays_def hrd_sps_def hrd_0_def)
  show "sei_followed example_ctx (uFlags example_ctx) (avcAup sei_aup)"
    unfolding sei_followed_def sps_alike_def c by (simp add: d n sei_aup_def hrd_alike_def)
qed

lemma example_sei_length: "length (elems_bits (sei_elems example_ctx 0x1F)) \<le> 600"
  by code_simp

theorem avc_sei_round_trip_witness:
  "\<exists>N :: u8 list. \<exists>st'. WriteNal AL_CODEC_AVC (replicate 100 0) 100
        (with_header_avc (AL_CreateSeiPrefix avc_writer example_ctx (int AL_AVC_NUT_PREFIX_SEI) 0))
        (AL_BitStreamLite_Init (replicate 200 0) 200)
      = Some (int (length N), st') \<and> written st' = byte_bits N"
proof -
  note o = example_ctx_ok and l = example_sei_length
  have s: "sei_shape example_sei" by (simp add: sei_shape_def example_sei_def buf_shape_def)
  have b: "bs_ok (AL_BitStreamLite_Init (replicate 200 0) 200)"
    "iBitCount (AL_BitStreamLite_Init (replicate 200 0) 200) mod 8 = 0"
    "2 * length (elems_bits (sei_elems example_ctx (uFlags example_ctx))) + 56 \<le> bs_room (AL_BitStreamLite_Init (replicate 200 0) 200)"
    using l by (simp_all add: init_ok o(2)) (simp add: AL_BitStreamLite_Init_def)
  have m: "100 \<le> length (replicate 100 (0 :: u8))" "length (elems_bits (sei_elems example_ctx (uFlags example_ctx))) < 8 * 100"
    using l by (simp_all add: o(2))
  have z: "uFlags example_ctx \<noteq> 0" by (simp add: o(2))
  have "written (AL_BitStreamLite_Init (replicate 200 0) 200) = []" by (simp add: init_ok)
  with avc_sei_round_trip [OF o(1) z o(3) s m b, of 0 0 True True] show ?thesis by auto
qed

section \<open>The loop over the flags ends\<close>

lemma turn_unknown: "sei_turn w c f s = Some (g, t) \<Longrightarrow> f AND NOT 0x1F \<noteq> 0 \<Longrightarrow> g AND NOT 0x1F \<noteq> 0"
proof -
  have k: "(f AND NOT x) AND NOT 0x1F = (f AND NOT 0x1F) AND NOT x" for x by (simp only: and.assoc and.commute and.left_commute)
  have flags: "(AL_SEI_BP OR 0x1F) = 0x1F" "(AL_SEI_RP OR 0x1F) = 0x1F" "(AL_SEI_PT OR 0x1F) = 0x1F" "(AL_SEI_MDCV OR 0x1F) = 0x1F"
    "(AL_SEI_CLL OR 0x1F) = 0x1F"
    by (simp_all add: AL_SEI_BP_def AL_SEI_PT_def AL_SEI_RP_def AL_SEI_MDCV_def AL_SEI_CLL_def)
  have "(f AND NOT x) AND NOT 0x1F = f AND NOT 0x1F" if "x OR 0x1F = 0x1F" for x
    using that by (metis and.assoc bit.de_Morgan_disj)
  from this [OF flags(1)] this [OF flags(2)] this [OF flags(3)] this [OF flags(4)] this [OF flags(5)]
  show "sei_turn w c f s = Some (g, t) \<Longrightarrow> f AND NOT 0x1F \<noteq> 0 \<Longrightarrow> g AND NOT 0x1F \<noteq> 0"
    by (auto simp: sei_turn_def split: bind_split_asm if_splits)
qed

lemma turns_known: "sei_turns w c f s = Some t \<Longrightarrow> f AND NOT 0x1F = 0"
proof (rule sei_turns.raw_induct [of "\<lambda>w c f s t. f AND NOT 0x1F = 0" w c f s t])
  fix rec w c f s t
  assume h: "\<And>w c f s t. rec w c f s = Some t \<Longrightarrow> f AND NOT 0x1F = 0"
    and r: "(if f = 0 then Some s else do { (f1, s1) \<leftarrow> sei_turn w c f s;
       s2 \<leftarrow> (if f1 = 0 then AL_RbspEncoding_CloseSEI s1 else Some s1); rec w c f1 s2 }) = Some t"
  show "f AND NOT 0x1F = 0"
  proof (cases "f = 0")
    case False
    with r obtain g r r' where g: "sei_turn w c f s = Some (g, r)" "rec w c g r' = Some t"
      by (auto split: bind_split_asm if_splits)
    from h [OF g(2)] turn_unknown [OF g(1)] show ?thesis by blast
  qed simp
qed

text \<open>C40: \<open>seiPrefixWrite\<close> returns for every set of the five known flags and values in range, on a stream at a byte boundary
  with room for the messages and the stop bit; with any other flag set it does not return, whatever the writers of the
  codec do.\<close>

theorem sei_prefix_write_returns:
  "(sei_ok c (uFlags c) \<and> uFlags c \<noteq> 0 \<and> bs_ok s \<and> iBitCount s mod 8 = 0
      \<and> length (elems_bits (sei_elems c (uFlags c))) + 8 \<le> bs_room s \<longrightarrow>
     (\<exists>t. seiPrefixWrite avc_writer c s = Some t \<and> bs_ok t
        \<and> written t = written s @ elems_bits (sei_elems c (uFlags c)) @ True # replicate 7 False))
   \<and> (uFlags d AND NOT 0x1F \<noteq> 0 \<longrightarrow> seiPrefixWrite w d s = None)"
proof (intro conjI impI)
  assume a: "sei_ok c (uFlags c) \<and> uFlags c \<noteq> 0 \<and> bs_ok s \<and> iBitCount s mod 8 = 0
      \<and> length (elems_bits (sei_elems c (uFlags c))) + 8 \<le> bs_room s"
  then have l: "length (elems_bits (sei_elems c (uFlags c)) @ (if uFlags c = 0 then [] else True # replicate 7 False)) \<le> bs_room s"
    by simp
  from a have "sei_ok c (uFlags c)" "bs_ok s" "iBitCount s mod 8 = 0" by simp_all
  from emits_bytes_ofD [OF sei_turns_law [OF this(1)] this(2,3) l] a
  show "\<exists>t. seiPrefixWrite avc_writer c s = Some t \<and> bs_ok t
        \<and> written t = written s @ elems_bits (sei_elems c (uFlags c)) @ True # replicate 7 False"
    by (auto simp: seiPrefixWrite_def)
next
  assume "uFlags d AND NOT 0x1F \<noteq> 0"
  with turns_known [of w d "uFlags d" s] show "seiPrefixWrite w d s = None"
    by (cases "seiPrefixWrite w d s") (auto simp: seiPrefixWrite_def)
qed

theorem sei_prefix_write_returns_witness:
  "\<exists>t. seiPrefixWrite avc_writer example_ctx (AL_BitStreamLite_Init (replicate 100 0) 100) = Some t"
proof -
  note o = example_ctx_ok
  have b: "bs_ok (AL_BitStreamLite_Init (replicate 100 0) 100)"
    "iBitCount (AL_BitStreamLite_Init (replicate 100 0) 100) mod 8 = 0"
    "length (elems_bits (sei_elems example_ctx (uFlags example_ctx))) + 8 \<le> bs_room (AL_BitStreamLite_Init (replicate 100 0) 100)"
    using example_sei_length by (simp_all add: init_ok o(2)) (simp add: AL_BitStreamLite_Init_def)
  have z: "uFlags example_ctx \<noteq> 0" by (simp add: o(2))
  show ?thesis
    using sei_prefix_write_returns [of example_ctx "AL_BitStreamLite_Init (replicate 100 0) 100" example_ctx avc_writer] o(1) z b by blast
qed

end
