(* ===== verification/Sections.thy ===== *)
theory Sections imports StreamMeta Profiles AvcSeiRoundtrip begin

text \<open>
  lib_encode/Sections.c, the rest of NalWriters.c, AVC_Sections.c, and the values they are called with
  (\<open>AL_ExtractNalsData\<close> of Com_Encoder.c): the NAL units around the slices of a picture, in the stream buffer and in its
  section table.

  The stream buffer is its content and its section table.  The temporary buffer of \<open>WriteNal\<close> is on the stack and not
  initialised: its content for the \<open>i\<close>-th NAL is the argument \<open>junk i\<close>.  The stream parts that the hardware leaves in the
  buffer are read as little-endian words.  \<open>None\<close> is a failed assertion or an access outside the buffers.
\<close>

definition AL_ENC_MAX_SEI_SIZE :: nat where "AL_ENC_MAX_SEI_SIZE = 10 * 1024"
definition AL_ENC_MAX_CONFIG_HEADER_SIZE :: nat where "AL_ENC_MAX_CONFIG_HEADER_SIZE = 2 * 1024"
definition AL_ENC_MAX_HEADER_SIZE :: nat where "AL_ENC_MAX_HEADER_SIZE = AL_ENC_MAX_CONFIG_HEADER_SIZE + AL_ENC_MAX_SEI_SIZE"

definition SEI_PREFIX_USER_DATA_UNREGISTERED_UUID :: "u8 list" where
  "SEI_PREFIX_USER_DATA_UNREGISTERED_UUID =
    [0xb1, 0xe1, 0x67, 0xa4, 0xd9, 0xca, 0x11, 0xe7,
     0xb1, 0x9b, 0x00, 0x50, 0xc2, 0x49, 0x00, 0x48]"

section \<open>NAL units\<close>

record AL_TNuts =
  GetNalHeader :: "u8 \<Rightarrow> u8 \<Rightarrow> u8 \<Rightarrow> u8 \<Rightarrow> AL_TNalHeader"
  spsNut :: int
  ppsNut :: int
  audNut :: int
  fdNut :: int
  seiPrefixNut :: int
  seiSuffixNut :: int

definition CreateAvcNuts :: AL_TNuts where
  "CreateAvcNuts = \<lparr>GetNalHeader = GetNalHeaderAvc, spsNut = 7, ppsNut = 8, audNut = 9, fdNut = 12, seiPrefixNut = 6, seiSuffixNut = 6\<rparr>"

definition AL_CreateAud :: "('vps, 'sps, 'pps) IRbspWriter \<Rightarrow> int \<Rightarrow> nat \<Rightarrow> int \<Rightarrow> AL_TNalUnit" where
  "AL_CreateAud w n eSliceType temp = AL_CreateNalUnit (WriteAUD w eSliceType) n 0 0 temp"

definition create_sps :: "('vps, 'sps, 'pps) IRbspWriter \<Rightarrow> int \<Rightarrow> 'sps \<Rightarrow> int \<Rightarrow> int \<Rightarrow> AL_TNalUnit" where
  "create_sps w n sps layer temp = AL_CreateNalUnit (WriteSPS w sps layer) n 1 layer temp"

definition create_pps :: "('vps, 'sps, 'pps) IRbspWriter \<Rightarrow> int \<Rightarrow> 'pps \<Rightarrow> int \<Rightarrow> int \<Rightarrow> AL_TNalUnit" where
  "create_pps w n pps layer temp = AL_CreateNalUnit (WritePPS w pps) n 1 layer temp"

text \<open>A writer that the codec does not have is a null pointer.\<close>

definition AL_CreateVps :: "('vps, 'sps, 'pps) IRbspWriter \<Rightarrow> 'vps \<Rightarrow> int \<Rightarrow> AL_TNalUnit" where
  "AL_CreateVps w vps temp =
     AL_CreateNalUnit (case WriteVPS w of None \<Rightarrow> (\<lambda>bs. None) | Some f \<Rightarrow> f vps) (int AL_HEVC_NUT_VPS) 0 0 temp"

definition AL_CreateSeiPrefixAPS :: "('vps, 'sps, 'pps) IRbspWriter \<Rightarrow> 'sps \<Rightarrow> 'vps \<Rightarrow> int \<Rightarrow> int \<Rightarrow> AL_TNalUnit" where
  "AL_CreateSeiPrefixAPS w sps vps n temp =
     AL_CreateNalUnit (case WriteSEI_ActiveParameterSets w of None \<Rightarrow> (\<lambda>bs. None) | Some f \<Rightarrow> f vps sps) n 0 0 temp"

definition AL_CreateSeiPrefixUDU :: "('vps, 'sps, 'pps) IRbspWriter \<Rightarrow> u8 list \<Rightarrow> u8 \<Rightarrow> int \<Rightarrow> int \<Rightarrow> AL_TNalUnit" where
  "AL_CreateSeiPrefixUDU w uuid numSlices n temp = AL_CreateNalUnit (WriteSEI_UserDataUnregistered w uuid numSlices) n 0 0 temp"

text \<open>The payload of a message of the application is copied as it is; \<open>iPayloadSize\<close> bytes are read from it.\<close>

definition seiExternalWrite :: "u8 list \<Rightarrow> int \<Rightarrow> nat \<Rightarrow> AL_TBitStreamLite \<Rightarrow> AL_TBitStreamLite option" where
  "seiExternalWrite pPayload iPayloadType iPayloadSize bitstream =
     do { s1 \<leftarrow> AL_RbspEncoding_BeginSEI2 iPayloadType (int iPayloadSize) bitstream;
          let curData = AL_BitStreamLite_GetCurData s1;
          let s2 = AL_BitStreamLite_SkipBits (8 * iPayloadSize) s1;
          s3 \<leftarrow> (if \<not> isOverflow s2
                 then (if iPayloadSize \<le> length pPayload then store_at curData (take iPayloadSize pPayload) s2 else None)
                 else Some s2);
          AL_RbspEncoding_CloseSEI s3 }"

definition AL_CreateExternalSei :: "u8 list \<Rightarrow> int \<Rightarrow> nat \<Rightarrow> int \<Rightarrow> int \<Rightarrow> AL_TNalUnit" where
  "AL_CreateExternalSei pPayload iPayloadType iPayloadSize n temp =
     AL_CreateNalUnit (seiExternalWrite pPayload iPayloadType iPayloadSize) n 0 0 temp"

definition with_header :: "AL_TNuts \<Rightarrow> AL_TNalUnit \<Rightarrow> AL_TNalUnit" where
  "with_header nuts n = n\<lparr>header := GetNalHeader nuts (of_int (nut n)) (of_int (nalRefIdc n)) (of_int (layerId n)) (of_int (tempId n))\<rparr>"

section \<open>Sections of the stream\<close>

definition AddSection :: "u32 \<Rightarrow> u32 \<Rightarrow> u32 \<Rightarrow> AL_TStreamMetaData \<Rightarrow> AL_TStreamMetaData option" where
  "AddSection off len flags pMeta =
     do { (iSection, m) \<leftarrow> AL_StreamMetaData_AddSection off len flags (Some pMeta);
          if iSection \<ge> 0 then m else None }"

definition GenerateNal ::
    "AL_ECodec \<Rightarrow> u8 list \<Rightarrow> nat \<Rightarrow> AL_TNalUnit \<Rightarrow> u32 \<Rightarrow> AL_TBitStreamLite \<times> AL_TStreamMetaData \<Rightarrow>
     (AL_TBitStreamLite \<times> AL_TStreamMetaData) option" where
  "GenerateNal eCodec tmp bitstreamSize nal flags st =
     (case st of (bitstream, pMeta) \<Rightarrow>
        do { let start = getBytesOffset bitstream;
             (sz, bs) \<leftarrow> WriteNal eCodec tmp bitstreamSize nal bitstream;
             if sz < 0 then None
             else do { m \<leftarrow> AddSection (of_nat start) (of_int sz) flags pMeta; Some (bs, m) } })"

fun generate_nals ::
    "AL_ECodec \<Rightarrow> (nat \<Rightarrow> u8 list) \<Rightarrow> nat \<Rightarrow> nat \<Rightarrow> (AL_TNalUnit \<times> u32) list \<Rightarrow> AL_TBitStreamLite \<times> AL_TStreamMetaData \<Rightarrow>
     (AL_TBitStreamLite \<times> AL_TStreamMetaData) option" where
  "generate_nals eCodec junk i bitstreamSize [] st = Some st"
| "generate_nals eCodec junk i bitstreamSize ((nal, flags) # nals) st =
     do { st1 \<leftarrow> GenerateNal eCodec (junk i) bitstreamSize nal flags st;
          generate_nals eCodec junk (i + 1) bitstreamSize nals st1 }"

type_synonym stream = "u8 list \<times> AL_TStreamMetaData"

definition GenerateConfigNalUnits ::
    "AL_ECodec \<Rightarrow> (nat \<Rightarrow> u8 list) \<Rightarrow> (AL_TNalUnit \<times> u32) list \<Rightarrow> stream \<Rightarrow> stream option" where
  "GenerateConfigNalUnits eCodec junk nals pStream =
     (case pStream of (data, pMetaData) \<Rightarrow>
        do { (bs, m) \<leftarrow> generate_nals eCodec junk 0 AL_ENC_MAX_CONFIG_HEADER_SIZE nals
                          (AL_BitStreamLite_Init data AL_ENC_MAX_CONFIG_HEADER_SIZE, pMetaData);
             Some (pData bs, m) })"

text \<open>The sum of 32 bits, returned as an \<open>int\<close>.\<close>

definition getOffsetAfterLastSection :: "AL_TStreamMetaData \<Rightarrow> int option" where
  "getOffsetAfterLastSection pMeta =
     (if uNumSection pMeta = 0 then Some 0
      else do { lastSection \<leftarrow> at (pSections pMeta) (uNumSection pMeta - 1); Some (sint (uOffset lastSection + uLength lastSection)) })"

datatype AL_EFillerCtrlMode = AL_FILLER_DISABLE | AL_FILLER_ENC | AL_FILLER_APP

definition AL_SLICE_I :: nat where "AL_SLICE_I = 2"

record AL_TSeiData =
  sd_initialCpbRemovalDelay :: int
  sd_cpbRemovalDelay :: int
  sd_tHDRSEIs :: AL_THDRSEIs

record ('vps, 'sps, 'pps) AL_TNalsData =
  nd_vps :: 'vps
  nd_sps :: 'sps
  nd_pps :: 'pps
  shouldWriteAud :: bool
  fillerCtrlMode :: AL_EFillerCtrlMode
  forceWritePPS :: bool
  seiData :: "AL_TSeiData option"
  seiFlags :: u32

text \<open>The settings and the context of the encoder are arguments; the flags of HDR messages without content are cleared.\<close>

definition AL_ExtractNalsData ::
    "'vps \<Rightarrow> 'sps \<Rightarrow> 'pps \<Rightarrow> AL_TSeiData \<Rightarrow> bool \<Rightarrow> AL_EFillerCtrlMode \<Rightarrow> u32 \<Rightarrow> bool \<Rightarrow> int \<Rightarrow> ('vps, 'sps, 'pps) AL_TNalsData" where
  "AL_ExtractNalsData vps sps pps ctx_seiData bEnableAUD eEnableFillerData uEnableSEI bSubframeLatency iLayerID =
     (let f = uEnableSEI;
          f = (if \<not> bHasMDCV (sd_tHDRSEIs ctx_seiData) then f AND NOT AL_SEI_MDCV else f);
          f = (if \<not> bHasCLL (sd_tHDRSEIs ctx_seiData) then f AND NOT AL_SEI_CLL else f)
      in \<lparr>nd_vps = vps, nd_sps = sps, nd_pps = pps, shouldWriteAud = (bEnableAUD \<and> iLayerID = 0),
          fillerCtrlMode = (if bSubframeLatency then AL_FILLER_ENC else eEnableFillerData), forceWritePPS = False,
          seiData = (if f \<noteq> AL_SEI_NONE then Some ctx_seiData else None), seiFlags = f\<rparr>)"

definition generateSeiFlags :: "AL_TEncPicStatus \<Rightarrow> bool \<Rightarrow> u32" where
  "generateSeiFlags ps bWriteSPS =
     (let f = AL_SEI_PT;
          f = (if eType ps = AL_SLICE_I
               then (let g = f OR AL_SEI_BP in if \<not> bIsIDR ps then g OR AL_SEI_RP else g)
               else if st_iRecoveryCnt ps \<noteq> 0 then f OR AL_SEI_RP else f)
      in if bWriteSPS then f OR (AL_SEI_MDCV OR AL_SEI_CLL) else f)"

text \<open>The NAL units before the first slice, with the flags of their sections.\<close>

definition aud_nals :: "('vps, 'sps, 'pps) IRbspWriter \<Rightarrow> AL_TNuts \<Rightarrow> ('vps, 'sps, 'pps) AL_TNalsData \<Rightarrow> AL_TEncPicStatus \<Rightarrow>
     (AL_TNalUnit \<times> u32) list" where
  "aud_nals writer nuts nd ps =
     (if shouldWriteAud nd then [(AL_CreateAud writer (audNut nuts) (eType ps) (uint (uTempId ps)), AL_SECTION_CONFIG_FLAG)] else [])"

definition random_access :: "AL_TEncPicStatus \<Rightarrow> bool" where
  "random_access ps \<longleftrightarrow> bIsIDR ps \<or> st_iRecoveryCnt ps \<noteq> 0"

definition parameter_nals :: "('vps, 'sps, 'pps) IRbspWriter \<Rightarrow> AL_TNuts \<Rightarrow> ('vps, 'sps, 'pps) AL_TNalsData \<Rightarrow> AL_TEncPicStatus \<Rightarrow> int \<Rightarrow>
     (AL_TNalUnit \<times> u32) list" where
  "parameter_nals writer nuts nd ps iLayerID =
     (if random_access ps \<and> iLayerID = 0 \<and> WriteVPS writer \<noteq> None
      then [(AL_CreateVps writer (nd_vps nd) (uint (uTempId ps)), AL_SECTION_CONFIG_FLAG)] else [])
     @ (if random_access ps
        then [(create_sps writer (spsNut nuts) (nd_sps nd) iLayerID (uint (uTempId ps)), AL_SECTION_CONFIG_FLAG)] else [])
     @ (if random_access ps \<or> forceWritePPS nd
        then [(create_pps writer (ppsNut nuts) (nd_pps nd) iLayerID (uint (uTempId ps)), AL_SECTION_CONFIG_FLAG)] else [])"

definition sei_nals :: "('vps, 'sps, 'pps) IRbspWriter \<Rightarrow> AL_TNuts \<Rightarrow> ('vps, 'sps, 'pps) AL_TNalsData \<Rightarrow> AL_TEncPicStatus \<Rightarrow>
     (AL_TNalUnit \<times> u32) list option" where
  "sei_nals writer nuts nd ps =
     (if AL_HAS_SEI_PREFIX (seiFlags nd)
      then do { let f = generateSeiFlags ps (random_access ps) AND seiFlags nd;
                let aps = (if f AND (AL_SEI_BP OR AL_SEI_PT) \<noteq> 0 \<and> WriteSEI_ActiveParameterSets writer \<noteq> None
                           then [(AL_CreateSeiPrefixAPS writer (nd_sps nd) (nd_vps nd) (seiPrefixNut nuts) (uint (uTempId ps)),
                                  AL_SECTION_SEI_PREFIX_FLAG)] else []);
                if f \<noteq> 0
                then do { d \<leftarrow> seiData nd;
                          Some (aps @ [(AL_CreateSeiPrefix writer
                                          \<lparr>ctx_sps = nd_sps nd, cpbInitialRemovalDelay = sd_initialCpbRemovalDelay d,
                                           cpbRemovalDelay = sd_cpbRemovalDelay d, uFlags = f, pPicStatus = ps,
                                           pHDRSEIs = sd_tHDRSEIs d\<rparr> (seiPrefixNut nuts) (uint (uTempId ps)),
                                        AL_SECTION_SEI_PREFIX_FLAG)]) }
                else Some aps }
      else Some [])"

definition udu_nals :: "('vps, 'sps, 'pps) IRbspWriter \<Rightarrow> AL_TNuts \<Rightarrow> AL_TEncPicStatus \<Rightarrow> int \<Rightarrow> bool \<Rightarrow> (AL_TNalUnit \<times> u32) list" where
  "udu_nals writer nuts ps iNumSlices bSubframeLatency =
     (if bSubframeLatency
      then [(AL_CreateSeiPrefixUDU writer SEI_PREFIX_USER_DATA_UNREGISTERED_UUID (of_int iNumSlices) (seiPrefixNut nuts)
               (uint (uTempId ps)), AL_SECTION_SEI_PREFIX_FLAG)] else [])"

definition first_slice_nals ::
    "('vps, 'sps, 'pps) IRbspWriter \<Rightarrow> AL_TNuts \<Rightarrow> ('vps, 'sps, 'pps) AL_TNalsData \<Rightarrow> AL_TEncPicStatus \<Rightarrow> int \<Rightarrow> int \<Rightarrow> bool \<Rightarrow>
     (AL_TNalUnit \<times> u32) list option" where
  "first_slice_nals writer nuts nd ps iLayerID iNumSlices bSubframeLatency =
     do { sei \<leftarrow> sei_nals writer nuts nd ps;
          Some (map (\<lambda>(n, f). (with_header nuts n, f))
                 (aud_nals writer nuts nd ps @ parameter_nals writer nuts nd ps iLayerID @ sei
                  @ udu_nals writer nuts ps iNumSlices bSubframeLatency)) }"

definition le32 :: "u8 list \<Rightarrow> nat \<Rightarrow> u32 option" where
  "le32 data i =
     (if i + 4 \<le> length data
      then Some (ucast (data ! i) OR push_bit 8 (ucast (data ! (i + 1))) OR push_bit 16 (ucast (data ! (i + 2)))
                 OR push_bit 24 (ucast (data ! (i + 3)))) else None)"

fun part_sections :: "nat \<Rightarrow> nat \<Rightarrow> stream \<Rightarrow> stream option" where
  "part_sections 0 address st = Some st"
| "part_sections (Suc k) address (data, m) =
     do { off \<leftarrow> le32 data address; len \<leftarrow> le32 data (address + 4);
          m1 \<leftarrow> AddSection off len 0 m;
          part_sections k (address + 8) (data, m1) }"

text \<open>A stream at a negative offset would write in front of the buffer.\<close>

definition filler_section ::
    "AL_ECodec \<Rightarrow> AL_TNuts \<Rightarrow> AL_EFillerCtrlMode \<Rightarrow> AL_TEncPicStatus \<Rightarrow> bool \<Rightarrow> stream \<Rightarrow> stream option" where
  "filler_section eCodec nuts mode ps bSubframeLatency st =
     (case st of (data, m) \<Rightarrow>
        do { off \<leftarrow> getOffsetAfterLastSection m;
             let bs = AL_BitStreamLite_SkipBits (BytesToBits (nat off)) (AL_BitStreamLite_Init data (length data));
             if (mode \<noteq> AL_FILLER_DISABLE \<and> iFiller ps \<noteq> 0) \<or> (bSubframeLatency \<and> bIsLastSlice ps)
             then if off < 0 then None
             else do { let bDontFill = (mode = AL_FILLER_APP);
                       let iBookmark = AL_BitStreamLite_GetBitsCount bs;
                       let h = GetNalHeader nuts (of_int (fdNut nuts)) 0 0 (uTempId ps);
                       bs1 \<leftarrow> WriteFillerData eCodec (nat (fdNut nuts)) h (iFiller ps) bDontFill bs;
                       let iWritten = (AL_BitStreamLite_GetBitsCount bs1 - iBookmark) div 8;
                       m1 \<leftarrow> AddSection (of_int off) (of_nat iWritten) (if bDontFill then AL_SECTION_APP_FILLER_FLAG else AL_SECTION_FILLER_FLAG) m;
                       Some (pData bs1, m1) }
             else Some (data, m) })"

definition end_sections :: "AL_TEncPicStatus \<Rightarrow> AL_TStreamMetaData \<Rightarrow> AL_TStreamMetaData option" where
  "end_sections ps m =
     do { m1 \<leftarrow> (if bIsLastSlice ps then AddSection 0 0 AL_SECTION_END_FRAME_FLAG m else Some m);
          if bIsIDR ps then AddFlagsToAllSections AL_SECTION_SYNC_FLAG m1 else Some m1 }"

definition GenerateSections ::
    "('vps, 'sps, 'pps) IRbspWriter \<Rightarrow> AL_TNuts \<Rightarrow> ('vps, 'sps, 'pps) AL_TNalsData \<Rightarrow> AL_TEncPicStatus \<Rightarrow> int \<Rightarrow> int \<Rightarrow> bool \<Rightarrow>
     (nat \<Rightarrow> u8 list) \<Rightarrow> stream \<Rightarrow> stream option" where
  "GenerateSections writer nuts nd ps iLayerID iNumSlices bSubframeLatency junk pStream =
     do { st1 \<leftarrow> (if bIsFirstSlice ps
                  then do { nals \<leftarrow> first_slice_nals writer nuts nd ps iLayerID iNumSlices bSubframeLatency;
                            GenerateConfigNalUnits (GetCodec writer) junk nals pStream }
                  else Some pStream);
          st2 \<leftarrow> part_sections (nat (iNumParts ps)) (unat (uStreamPartOffset ps)) st1;
          (data, m) \<leftarrow> filler_section (GetCodec writer) nuts (fillerCtrlMode nd) ps bSubframeLatency st2;
          m1 \<leftarrow> end_sections ps m;
          Some (data, m1) }"

section \<open>Messages of the application\<close>

text \<open>The stream of the message has the size of the biggest message, or of the whole buffer if that is smaller, wherever in
  the buffer it begins.\<close>

definition createExternalSei ::
    "AL_ECodec \<Rightarrow> AL_TNuts \<Rightarrow> u8 list \<Rightarrow> u8 list \<Rightarrow> nat \<Rightarrow> bool \<Rightarrow> int \<Rightarrow> u8 list \<Rightarrow> nat \<Rightarrow> int \<Rightarrow> (int \<times> u8 list) option" where
  "createExternalSei eCodec nuts tmp data off isPrefix iPayloadType pPayload iPayloadSize iTempId =
     (if eCodec \<noteq> AL_CODEC_AVC \<and> eCodec \<noteq> AL_CODEC_HEVC then None
      else do { let n = AL_CreateExternalSei pPayload iPayloadType iPayloadSize
                          (if isPrefix then seiPrefixNut nuts else seiSuffixNut nuts) iTempId;
                let bitstreamSize = nat (Min_int (int AL_ENC_MAX_SEI_SIZE) (int (length data)));
                (sz, bs) \<leftarrow> WriteNal eCodec tmp bitstreamSize (with_header nuts n)
                                (AL_BitStreamLite_Init (drop off data) bitstreamSize);
                Some (sz, take off data @ pData bs) })"

definition getUserSeiPrefixOffset :: "AL_TStreamMetaData \<Rightarrow> u32 option" where
  "getUserSeiPrefixOffset pStreamMeta =
     do { iSEIPrefixSectionID \<leftarrow> AL_StreamMetaData_GetLastSectionOfFlag AL_SECTION_SEI_PREFIX_FLAG pStreamMeta;
          if iSEIPrefixSectionID = - 1 then Some (of_nat (AL_ENC_MAX_HEADER_SIZE - AL_ENC_MAX_SEI_SIZE))
          else do { s \<leftarrow> at (pSections pStreamMeta) (nat iSEIPrefixSectionID); Some (uOffset s + uLength s) } }"

definition AL_WriteSeiSection ::
    "AL_ECodec \<Rightarrow> AL_TNuts \<Rightarrow> u8 list \<Rightarrow> bool \<Rightarrow> int \<Rightarrow> u8 list \<Rightarrow> nat \<Rightarrow> int \<Rightarrow> stream \<Rightarrow> (int \<times> stream) option" where
  "AL_WriteSeiSection eCodec nuts tmp isPrefix iPayloadType pPayload iPayloadSize iTempId pStream =
     (case pStream of (data, m) \<Rightarrow>
        if iPayloadType < 0 then None
        else do { off \<leftarrow> (if isPrefix then getUserSeiPrefixOffset m else AL_StreamMetaData_GetUnusedStreamPart m);
                  (iTotalSize, data1) \<leftarrow> createExternalSei eCodec nuts tmp data (unat off) isPrefix iPayloadType pPayload
                                           iPayloadSize iTempId;
                  if iTotalSize < 0 then Some (- 1, (data1, m))
                  else do { (sectionId, m1) \<leftarrow> AL_StreamMetaData_AddSeiSection isPrefix off (of_int iTotalSize) m;
                            m2 \<leftarrow> m1;
                            if sectionId < 0 then Some (- 1, (data1, m2)) else Some (sectionId, (data1, m2)) } })"

section \<open>The padding of XAVC\<close>

fun section_sizes :: "u32 \<Rightarrow> AL_TStreamSection list \<Rightarrow> u32" where
  "section_sizes flags [] = 0"
| "section_sizes flags (s # ss) = (if eFlags s AND flags \<noteq> 0 then uLength s else 0) + section_sizes flags ss"

definition getSectionSize :: "AL_TStreamMetaData \<Rightarrow> u32 \<Rightarrow> int option" where
  "getSectionSize pMetaData flags =
     (if uNumSection pMetaData \<le> length (pSections pMetaData)
      then Some (sint (section_sizes flags (take (uNumSection pMetaData) (pSections pMetaData)))) else None)"

definition memset_zero :: "nat \<Rightarrow> nat \<Rightarrow> u8 list \<Rightarrow> u8 list option" where
  "memset_zero i n data = (if i + n \<le> length data then Some (take i data @ replicate n 0 @ drop (i + n) data) else None)"

text \<open>Zeros behind a section, which become part of it.\<close>

definition pad_section :: "nat \<Rightarrow> nat \<Rightarrow> stream \<Rightarrow> stream option" where
  "pad_section i n st =
     (case st of (data, m) \<Rightarrow>
        do { s \<leftarrow> at (pSections m) i;
             d \<leftarrow> memset_zero (unat (uOffset s) + unat (uLength s)) n data;
             ps \<leftarrow> set_at (pSections m) i (s\<lparr>uLength := uLength s + of_nat n\<rparr>);
             Some (d, m\<lparr>pSections := ps\<rparr>) })"

definition padConfig :: "stream \<Rightarrow> stream option" where
  "padConfig pStream =
     (case pStream of (data, m) \<Rightarrow>
        do { iConfigSize \<leftarrow> getSectionSize m AL_SECTION_CONFIG_FLAG;
             if iConfigSize \<ge> 512 then Some (data, m)
             else do { i \<leftarrow> AL_StreamMetaData_GetLastSectionOfFlag AL_SECTION_CONFIG_FLAG m;
                       if i < 0 then Some (data, m) else pad_section (nat i) (nat (512 - iConfigSize)) (data, m) } })"

definition padSeiPrefix :: "int \<Rightarrow> stream \<Rightarrow> stream option" where
  "padSeiPrefix uEncHeight pStream =
     (case pStream of (data, m) \<Rightarrow>
        do { let iSeiMandatorySize = (if uEncHeight \<le> 720 then 512 * 10 else 512 * 18 :: int);
             if iSeiMandatorySize > int AL_ENC_MAX_SEI_SIZE then None
             else do { iSeiSize \<leftarrow> getSectionSize m AL_SECTION_SEI_PREFIX_FLAG;
                       if iSeiSize \<ge> iSeiMandatorySize then Some (data, m)
                       else do { let iPaddingSize = nat (iSeiMandatorySize - iSeiSize);
                                 i \<leftarrow> AL_StreamMetaData_GetLastSectionOfFlag AL_SECTION_SEI_PREFIX_FLAG m;
                                 if i < 0
                                 then do { let iOffset = AL_ENC_MAX_CONFIG_HEADER_SIZE + 1;
                                           d \<leftarrow> memset_zero iOffset iPaddingSize data;
                                           (_, m1) \<leftarrow> AL_StreamMetaData_AddSeiSection True (of_nat iOffset) (of_nat iPaddingSize) m;
                                           m2 \<leftarrow> m1;
                                           Some (d, m2) }
                                 else pad_section (nat i) iPaddingSize (data, m) } } })"

definition AVC_GenerateSections ::
    "u32 \<Rightarrow> int \<Rightarrow> (unit, AL_TAvcSps, AL_TAvcPps \<times> AL_TAvcSps option) AL_TNalsData \<Rightarrow> AL_TEncPicStatus \<Rightarrow> bool \<Rightarrow> int \<Rightarrow> bool \<Rightarrow>
     (nat \<Rightarrow> u8 list) \<Rightarrow> stream \<Rightarrow> stream option" where
  "AVC_GenerateSections eProfile uEncHeight nalsData ps bForceWritePPS uNumSlices bSubframeLatency junk pStream =
     do { st1 \<leftarrow> GenerateSections avc_writer CreateAvcNuts (nalsData\<lparr>forceWritePPS := bForceWritePPS\<rparr>) ps 0 uNumSlices
                   bSubframeLatency junk pStream;
          if AL_IS_XAVC_CBG eProfile \<and> AL_IS_INTRA_PROFILE eProfile
          then do { st2 \<leftarrow> padConfig st1; if bIsFirstSlice ps then padSeiPrefix uEncHeight st2 else Some st2 }
          else Some st1 }"

end
