(* ===== verification/SectionsProofs.thy ===== *)
theory SectionsProofs imports Sections begin

text \<open>
  The NAL units that are generated before the slices: they lie one behind the other from the start of the buffer, each has
  a section of its own, and nothing behind the space reserved for them is touched.
\<close>

section \<open>What the writers leave alone\<close>

definition framed :: "AL_TBitStreamLite \<Rightarrow> AL_TBitStreamLite \<Rightarrow> bool" where
  "framed s t \<longleftrightarrow> iMaxBits t = iMaxBits s \<and> length (pData t) = length (pData s)
     \<and> iBitCount s \<le> iBitCount t
     \<and> (\<forall>i. iMaxBits s \<le> 8 * i \<or> iBitCount t \<le> 8 * i \<longrightarrow> pData t ! i = pData s ! i)"

lemma framed_refl: "framed s s"
  by (simp add: framed_def)

lemma framed_trans: "framed s t \<Longrightarrow> framed t v \<Longrightarrow> framed s v"
  unfolding framed_def by (metis order_trans)

lemma PutInByte_framed:
  assumes "PutInByte n v s = Some t" "0 < n"
  shows "framed s t"
proof (cases "iBitCount s + n \<le> iMaxBits s")
  case True
  with assms(1) obtain r where r: "writeData n v s = Some r" "t = r\<lparr>iBitCount := iBitCount r + n\<rparr>"
    by (auto simp: PutInByte_def split: bind_split_asm)
  have ne: "xs[iBitCount s div 8 := x] ! i = xs ! i" if "iMaxBits s \<le> 8 * i \<or> iBitCount s + n \<le> 8 * i" for i and xs :: "u8 list" and x
  proof -
    have "i \<noteq> iBitCount s div 8"
    proof
      assume "i = iBitCount s div 8"
      then have "8 * i \<le> iBitCount s" by simp
      with that True assms(2) show False by auto
    qed
    then show ?thesis by simp
  qed
  from r show ?thesis
    unfolding framed_def by (auto simp: writeData_def Let_def ne split: if_splits)
next
  case False
  with assms(1) show ?thesis by (auto simp: PutInByte_def framed_def)
qed

lemma put_loop_framed: "put_loop n v s = Some t \<Longrightarrow> 0 < n \<Longrightarrow> framed s t"
proof (induction n v s arbitrary: t rule: put_loop.induct)
  case (1 n v s)
  let ?k = "8 - iBitCount s mod 8"
  have k: "0 < ?k" by simp
  show ?case
  proof (cases "n > ?k")
    case True
    with 1(2) obtain r where
      r: "PutInByte ?k (ucast (ucast (drop_bit (n - ?k) v) :: u8)) s = Some r"
        "put_loop (n - ?k) (v AND drop_bit ?k 0xffffffff) r = Some t"
      by (auto simp: put_loop.simps [of n v s] Let_def split: bind_split_asm)
    from "1.IH" [OF refl True refl r] True have "framed r t" by simp
    with PutInByte_framed [OF r(1) k] show ?thesis by (rule framed_trans)
  next
    case False
    with 1(2) have "PutInByte n v s = Some t" by (simp add: put_loop.simps [of n v s])
    with 1(3) show ?thesis by (intro PutInByte_framed)
  qed
qed

lemma write_bytes_framed: "write_bytes bs s = Some t \<Longrightarrow> framed s t"
proof (induction bs arbitrary: s)
  case (Cons b bs)
  then obtain r where r: "writeByte b s = Some r" "write_bytes bs r = Some t" by (auto split: bind_split_asm)
  then have "put_loop 8 (ucast b) s = Some r" by (auto simp: writeByte_def AL_BitStreamLite_PutBits_def split: if_splits)
  then have "framed s r" by (rule put_loop_framed) simp
  with Cons.IH [OF r(2)] show ?case by (intro framed_trans [of s r t])
qed (simp add: framed_refl)

lemma writeByte_framed: "writeByte b s = Some t \<Longrightarrow> framed s t"
  using write_bytes_framed [of "[b]" s t] by simp

lemma AntiEmul_framed: "AntiEmul bs s = Some t \<Longrightarrow> framed s t"
proof (induction bs s arbitrary: t rule: AntiEmul.induct)
  case (1 b0 b1 b2 ps s)
  then obtain s1 where s1: "writeByte b0 s = Some s1" by (auto split: bind_split_asm)
  show ?case
  proof (cases "Matches b0 b1 b2")
    case True
    with 1(3) s1 obtain s2 s3 where s2: "writeByte b1 s1 = Some s2" "writeByte 3 s2 = Some s3" "AntiEmul (b2 # ps) s3 = Some t"
      by (auto split: bind_split_asm)
    from "1.IH"(1) [OF s1 True s2] writeByte_framed [OF s1] writeByte_framed [OF s2(1)] writeByte_framed [OF s2(2)]
    show ?thesis by (blast intro: framed_trans)
  next
    case False
    with 1(3) s1 have "AntiEmul (b1 # b2 # ps) s1 = Some t" by simp
    from "1.IH"(2) [OF s1 False this] writeByte_framed [OF s1] show ?thesis by (blast intro: framed_trans)
  qed
qed (auto split: bind_split_asm dest!: writeByte_framed intro: framed_trans)

lemma FlushNAL_framed: "FlushNAL c n h d k s = Some t \<Longrightarrow> framed s t"
proof -
  assume a: "FlushNAL c n h d k s = Some t"
  then obtain s1 s2 where s: "writeStartCode c n s = Some s1" "write_header h s1 = Some s2"
    "t = s2 \<or> (\<exists>bs. AntiEmul bs s2 = Some t)"
    by (auto simp: FlushNAL_def Let_def split: bind_split_asm option.splits if_splits)
  have "framed s s1" using s(1) by (auto simp: writeStartCode_def split: bind_split_asm if_splits dest!: writeByte_framed intro: framed_trans)
  moreover have "framed s1 s2" using s(2) by (auto simp: write_header_def split: if_splits dest: write_bytes_framed)
  moreover have "framed s2 t" using s(3) by (auto intro: AntiEmul_framed framed_refl)
  ultimately show ?thesis by (blast intro: framed_trans)
qed

lemma WriteNal_framed: "WriteNal c tmp k nal s = Some (r, t) \<Longrightarrow> framed s t"
  by (auto simp: WriteNal_def Let_def split: bind_split_asm if_splits dest: FlushNAL_framed intro: framed_refl)

lemma GenerateNal_framed: "GenerateNal c tmp k nal flags (s, m) = Some (t, n) \<Longrightarrow> framed s t"
  by (auto simp: GenerateNal_def Let_def split: bind_split_asm if_splits dest: WriteNal_framed)

lemma generate_nals_framed: "generate_nals c junk i k nals (s, m) = Some (t, n) \<Longrightarrow> framed s t"
proof (induction nals arbitrary: i s m)
  case (Cons a nals)
  obtain nal flags where a: "a = (nal, flags)" by (cases a)
  with Cons.prems obtain s1 m1 where s1: "GenerateNal c (junk i) k nal flags (s, m) = Some (s1, m1)"
    "generate_nals c junk (i + 1) k nals (s1, m1) = Some (t, n)" by (auto split: bind_split_asm)
  from GenerateNal_framed [OF s1(1)] Cons.IH [OF s1(2)] show ?case by (rule framed_trans)
qed (simp add: framed_refl)

lemma GenerateConfigNalUnits_frame:
  assumes "GenerateConfigNalUnits c junk nals (data, m) = Some (d, n)"
  shows "length d = length data" "drop AL_ENC_MAX_CONFIG_HEADER_SIZE d = drop AL_ENC_MAX_CONFIG_HEADER_SIZE data"
proof -
  from assms obtain t where
    "generate_nals c junk 0 AL_ENC_MAX_CONFIG_HEADER_SIZE nals (AL_BitStreamLite_Init data AL_ENC_MAX_CONFIG_HEADER_SIZE, m) = Some (t, n)"
    "d = pData t" by (auto simp: GenerateConfigNalUnits_def split: bind_split_asm)
  with generate_nals_framed [OF this(1)]
  have f: "length d = length data" "\<And>i. AL_ENC_MAX_CONFIG_HEADER_SIZE * 8 \<le> 8 * i \<Longrightarrow> d ! i = data ! i"
    by (auto simp: framed_def AL_BitStreamLite_Init_def)
  then show "length d = length data" by simp
  show "drop AL_ENC_MAX_CONFIG_HEADER_SIZE d = drop AL_ENC_MAX_CONFIG_HEADER_SIZE data"
    by (rule nth_equalityI) (use f in auto)
qed

section \<open>Where the NAL units lie\<close>

fun laid :: "nat \<Rightarrow> (u8 list \<times> u32) list \<Rightarrow> AL_TStreamSection list" where
  "laid off [] = []"
| "laid off ((N, f) # Ns) = \<lparr>uOffset = of_nat off, uLength = of_nat (length N), eFlags = f\<rparr> # laid (off + length N) Ns"

text \<open>A NAL unit with what its writer puts into any temporary buffer.\<close>

type_synonym planned = "AL_TNalUnit \<times> u32 \<times> (shape \<times> int) list"

definition unit_ok :: "(nat \<Rightarrow> u8 list) \<Rightarrow> nat \<Rightarrow> planned \<Rightarrow> bool" where
  "unit_ok junk k x \<longleftrightarrow> (case x of (nal, f, es) \<Rightarrow> (\<forall>j. writes_rbsp (Write nal) (junk j) k es) \<and> header_ok (header nal))"

definition unit_room :: "planned \<Rightarrow> nat" where
  "unit_room x = (case x of (nal, f, es) \<Rightarrow> nal_room nal es)"

definition unit_of :: "planned \<Rightarrow> AL_TNalUnit \<times> u32" where
  "unit_of x = (case x of (nal, f, es) \<Rightarrow> (nal, f))"

definition unit_flags :: "planned \<Rightarrow> u32" where
  "unit_flags x = (case x of (nal, f, es) \<Rightarrow> f)"

definition unit_bytes :: "AL_ECodec \<Rightarrow> planned \<Rightarrow> u8 list \<Rightarrow> bool" where
  "unit_bytes c x N \<longleftrightarrow> (case x of (nal, f, es) \<Rightarrow> \<exists>d. rbsp_of es d \<and> N = nal_bytes c (nat (nut nal)) (header nal) d)"

lemma generate_nal_law:
  assumes x: "unit_ok junk k (nal, f, es)" and s: "bs_ok s" "iBitCount s mod 8 = 0" "nal_room nal es \<le> bs_room s"
    and m: "meta_ok m" "uNumSection m < uMaxNumSection m"
  shows "\<exists>t n N. GenerateNal c (junk i) k nal f (s, m) = Some (t, n) \<and> bs_ok t \<and> iBitCount t mod 8 = 0
    \<and> bs_room s \<le> bs_room t + nal_room nal es
    \<and> meta_ok n \<and> uMaxNumSection n = uMaxNumSection m \<and> uNumSection n = uNumSection m + 1 \<and> uTemporalID n = uTemporalID m
    \<and> unit_bytes c (nal, f, es) N \<and> written t = written s @ byte_bits N \<and> iBitCount t = iBitCount s + 8 * length N
    \<and> sections n = sections m @ [\<lparr>uOffset = of_nat (iBitCount s div 8), uLength = of_nat (length N), eFlags = f\<rparr>]"
proof -
  from x have w: "writes_rbsp (Write nal) (junk i) k es" and h: "header_ok (header nal)" by (simp_all add: unit_ok_def)
  have hl: "hdr_size (header nal) \<le> length (hdr_bytes (header nal))" using h by (simp add: header_ok_def)
  from WriteNal_law [OF w hl s(1,2) s(3) [unfolded nal_room_def], of c] obtain t d where
    t: "WriteNal c (junk i) k nal s = Some (int (length (nal_bytes c (nat (nut nal)) (header nal) d)), t)" "bs_ok t"
      "iBitCount t mod 8 = 0" "rbsp_of es d"
      "written t = written s @ byte_bits (nal_bytes c (nat (nut nal)) (header nal) d)" by (elim exE conjE) (rule that)
  let ?N = "nal_bytes c (nat (nut nal)) (header nal) d"
  let ?s = "\<lparr>uOffset = of_nat (iBitCount s div 8), uLength = of_nat (length ?N), eFlags = f\<rparr>"
  let ?n = "m\<lparr>pSections := (pSections m)[uNumSection m := ?s], uNumSection := uNumSection m + 1\<rparr>"
  have cnt: "iBitCount t = iBitCount s + 8 * length ?N" using arg_cong [OF t(5), of length] by (simp add: written_length)
  have mx: "iMaxBits t = iMaxBits s" using WriteNal_framed [OF t(1)] by (simp add: framed_def)
  have room: "bs_room s \<le> bs_room t + nal_room nal es"
    using nal_bytes_room [OF t(4) hl, of c "nat (nut nal)"] cnt mx t(2) by (simp add: bs_room_def bs_ok_def)
  have "GenerateNal c (junk i) k nal f (s, m) = Some (t, ?n)"
    using t(1) m(2) by (simp add: GenerateNal_def getBytesOffset_def AL_BitStreamLite_GetBitsCount_def AddSection_def
        add_section_law [OF m(1)])
  moreover have "unit_bytes c (nal, f, es) ?N" using t(4) by (auto simp: unit_bytes_def)
  ultimately show ?thesis using t cnt room added_sections [OF m, of ?s] by (intro exI [of _ t] exI [of _ ?n] exI [of _ ?N]) simp
qed

lemma generate_nals_law:
  "(\<forall>x \<in> set xs. unit_ok junk k x) \<Longrightarrow> bs_ok s \<Longrightarrow> iBitCount s mod 8 = 0 \<Longrightarrow> sum_list (map unit_room xs) \<le> bs_room s \<Longrightarrow>
   meta_ok m \<Longrightarrow> uNumSection m + length xs \<le> uMaxNumSection m \<Longrightarrow>
   \<exists>t n Ns. generate_nals c junk i k (map unit_of xs) (s, m) = Some (t, n) \<and> bs_ok t \<and> iBitCount t mod 8 = 0
     \<and> meta_ok n \<and> uMaxNumSection n = uMaxNumSection m \<and> uNumSection n = uNumSection m + length xs \<and> uTemporalID n = uTemporalID m
     \<and> list_all2 (unit_bytes c) xs Ns \<and> written t = written s @ byte_bits (concat Ns)
     \<and> sections n = sections m @ laid (iBitCount s div 8) (zip Ns (map unit_flags xs))"
proof (induction xs arbitrary: i s m)
  case Nil
  then show ?case by (intro exI [of _ s] exI [of _ m] exI [of _ "[]"]) simp
next
  case (Cons x xs)
  obtain nal f es where x: "x = (nal, f, es)" by (cases x)
  have ur: "unit_room (nal, f, es) = nal_room nal es" by (simp add: unit_room_def)
  have p: "unit_ok junk k (nal, f, es)" "nal_room nal es + sum_list (map unit_room xs) \<le> bs_room s"
    "uNumSection m < uMaxNumSection m" using Cons.prems x ur by simp_all
  then have "nal_room nal es \<le> bs_room s" by simp
  from generate_nal_law [OF p(1) Cons.prems(2,3) this Cons.prems(5) p(3), of c i] obtain t n N where
    t: "GenerateNal c (junk i) k nal f (s, m) = Some (t, n)" "bs_ok t" "iBitCount t mod 8 = 0"
      "bs_room s \<le> bs_room t + nal_room nal es" "meta_ok n" "uMaxNumSection n = uMaxNumSection m" "uNumSection n = uNumSection m + 1"
      "uTemporalID n = uTemporalID m" "unit_bytes c (nal, f, es) N" "written t = written s @ byte_bits N"
      "iBitCount t = iBitCount s + 8 * length N"
      "sections n = sections m @ [\<lparr>uOffset = of_nat (iBitCount s div 8), uLength = of_nat (length N), eFlags = f\<rparr>]"
    by (elim exE conjE) (rule that)
  have q: "\<forall>x \<in> set xs. unit_ok junk k x" "sum_list (map unit_room xs) \<le> bs_room t" "uNumSection n + length xs \<le> uMaxNumSection n"
    using Cons.prems(1,6) p(2) t(4,6,7) by simp_all
  from Cons.IH [OF q(1) t(2,3) q(2) t(5) q(3), of "i + 1"] obtain t' n' Ns where
    r: "generate_nals c junk (i + 1) k (map unit_of xs) (t, n) = Some (t', n')" "bs_ok t'" "iBitCount t' mod 8 = 0" "meta_ok n'"
      "uMaxNumSection n' = uMaxNumSection n" "uNumSection n' = uNumSection n + length xs" "uTemporalID n' = uTemporalID n"
      "list_all2 (unit_bytes c) xs Ns" "written t' = written t @ byte_bits (concat Ns)"
      "sections n' = sections n @ laid (iBitCount t div 8) (zip Ns (map unit_flags xs))" by (elim exE conjE) (rule that)
  have o: "iBitCount t div 8 = iBitCount s div 8 + length N" using t(11) by simp
  have "generate_nals c junk i k (map unit_of (x # xs)) (s, m) = Some (t', n')"
    using t(1) r(1) by (simp add: x unit_of_def)
  moreover have "unit_flags x = f" by (simp add: x unit_flags_def)
  ultimately show ?case using t r o x
    by (intro exI [of _ t'] exI [of _ n'] exI [of _ "N # Ns"]) (simp add: add.commute)
qed

text \<open>The buffer holds the NAL units one behind the other from its start.\<close>

lemma config_nals_law:
  assumes x: "\<forall>x \<in> set xs. unit_ok junk AL_ENC_MAX_CONFIG_HEADER_SIZE x" "sum_list (map unit_room xs) \<le> 8 * AL_ENC_MAX_CONFIG_HEADER_SIZE"
    and d: "AL_ENC_MAX_CONFIG_HEADER_SIZE \<le> length data" and m: "meta_ok m" "uNumSection m + length xs \<le> uMaxNumSection m"
  shows "\<exists>Ns d n. GenerateConfigNalUnits c junk (map unit_of xs) (data, m) = Some (d, n)
    \<and> list_all2 (unit_bytes c) xs Ns \<and> d = concat Ns @ drop (length (concat Ns)) data \<and> length (concat Ns) \<le> AL_ENC_MAX_CONFIG_HEADER_SIZE
    \<and> length d = length data \<and> drop AL_ENC_MAX_CONFIG_HEADER_SIZE d = drop AL_ENC_MAX_CONFIG_HEADER_SIZE data
    \<and> meta_ok n \<and> uMaxNumSection n = uMaxNumSection m \<and> uNumSection n = uNumSection m + length xs \<and> uTemporalID n = uTemporalID m
    \<and> sections n = sections m @ laid 0 (zip Ns (map unit_flags xs))"
proof -
  let ?k = AL_ENC_MAX_CONFIG_HEADER_SIZE let ?s = "AL_BitStreamLite_Init data ?k"
  have s: "bs_ok ?s" "iBitCount ?s mod 8 = 0" "bs_room ?s = 8 * ?k" "written ?s = []" "iBitCount ?s = 0"
    using d by (simp_all add: init_ok) (simp_all add: AL_BitStreamLite_Init_def)
  from generate_nals_law [OF x(1) s(1,2) x(2) [folded s(3)] m, of c 0] obtain t n Ns where
    t: "generate_nals c junk 0 ?k (map unit_of xs) (?s, m) = Some (t, n)" "bs_ok t" "iBitCount t mod 8 = 0" "meta_ok n"
      "uMaxNumSection n = uMaxNumSection m" "uNumSection n = uNumSection m + length xs" "uTemporalID n = uTemporalID m"
      "list_all2 (unit_bytes c) xs Ns" "written t = written ?s @ byte_bits (concat Ns)"
      "sections n = sections m @ laid (iBitCount ?s div 8) (zip Ns (map unit_flags xs))" by (elim exE conjE) (rule that)
  have g: "GenerateConfigNalUnits c junk (map unit_of xs) (data, m) = Some (pData t, n)"
    using t(1) by (simp add: GenerateConfigNalUnits_def)
  have w: "written t = byte_bits (concat Ns)" using t(9) s(4) by simp
  have c: "iBitCount t = 8 * length (concat Ns)" using arg_cong [OF w, of length] by (simp add: written_length)
  have "byte_bits (take (BitsToBytes (iBitCount t)) (pData t)) = byte_bits (concat Ns)"
    using aligned_bytes(1) [OF t(2,3)] w by simp
  moreover have "BitsToBytes (iBitCount t) = length (concat Ns)" using aligned_bytes(3) [OF t(2,3)] c by simp
  ultimately have tk: "take (length (concat Ns)) (pData t) = concat Ns" by (simp add: byte_bits_inj)
  have mx: "iMaxBits t = 8 * ?k" using generate_nals_framed [OF t(1)] by (simp add: framed_def AL_BitStreamLite_Init_def)
  have l: "length (concat Ns) \<le> ?k" using t(2) c mx by (simp add: bs_ok_def)
  note fr = GenerateConfigNalUnits_frame [OF g]
  have "drop (length (concat Ns)) (pData t) = drop (length (concat Ns)) data"
  proof (rule nth_equalityI)
    fix i assume "i < length (drop (length (concat Ns)) (pData t))"
    moreover have "\<forall>i. iBitCount t \<le> 8 * i \<longrightarrow> pData t ! i = data ! i"
      using generate_nals_framed [OF t(1)] by (simp add: framed_def AL_BitStreamLite_Init_def)
    ultimately show "drop (length (concat Ns)) (pData t) ! i = drop (length (concat Ns)) data ! i"
      using c fr(1) by simp
  qed (use fr(1) in simp)
  with tk have whole: "pData t = concat Ns @ drop (length (concat Ns)) data" by (metis append_take_drop_id)
  show ?thesis
    using g fr t(4-8,10) whole l s(5)
    by (intro exI [of _ Ns] exI [of _ "pData t"] exI [of _ n] conjI) simp_all
qed

end
