(* ===== verification/SectionsProps.thy ===== *)
theory SectionsProps imports SectionsProofs begin

text \<open>
  The sections of a picture of the AVC encoder: \<open>AVC_GenerateSections\<close> writes the access unit delimiter, the parameter
  sets and the SEI messages, and makes the section table.  Then the two places where sections overwrite each other: the
  messages of the application, and the padding of the XAVC profiles.
\<close>

section \<open>The stream parts\<close>

fun stream_parts :: "nat \<Rightarrow> nat \<Rightarrow> u8 list \<Rightarrow> AL_TStreamSection list option" where
  "stream_parts 0 address data = Some []"
| "stream_parts (Suc k) address data =
     do { off \<leftarrow> le32 data address; len \<leftarrow> le32 data (address + 4); ps \<leftarrow> stream_parts k (address + 8) data;
          Some (\<lparr>uOffset = off, uLength = len, eFlags = 0\<rparr> # ps) }"

lemma add_section_ok:
  assumes "meta_ok m" "uNumSection m < uMaxNumSection m"
  shows "\<exists>n. AddSection off len flags m = Some n \<and> meta_ok n \<and> uMaxNumSection n = uMaxNumSection m
    \<and> uNumSection n = uNumSection m + 1 \<and> sections n = sections m @ [\<lparr>uOffset = off, uLength = len, eFlags = flags\<rparr>]"
  using assms added_sections [OF assms] by (simp add: AddSection_def add_section_law)

lemma part_sections_law:
  "stream_parts k address data = Some ps \<Longrightarrow> meta_ok m \<Longrightarrow> uNumSection m + k \<le> uMaxNumSection m \<Longrightarrow>
   \<exists>n. part_sections k address (data, m) = Some (data, n) \<and> meta_ok n \<and> uMaxNumSection n = uMaxNumSection m
     \<and> uNumSection n = uNumSection m + k \<and> sections n = sections m @ ps"
proof (induction k arbitrary: address m ps)
  case (Suc k)
  from Suc.prems(1) obtain off len qs where
    p: "le32 data address = Some off" "le32 data (address + 4) = Some len" "stream_parts k (address + 8) data = Some qs"
      "ps = \<lparr>uOffset = off, uLength = len, eFlags = 0\<rparr> # qs" by (auto split: bind_split_asm)
  have "uNumSection m < uMaxNumSection m" using Suc.prems(3) by simp
  from add_section_ok [OF Suc.prems(2) this, of off len 0] obtain m1 where
    m1: "AddSection off len 0 m = Some m1" "meta_ok m1" "uMaxNumSection m1 = uMaxNumSection m" "uNumSection m1 = uNumSection m + 1"
      "sections m1 = sections m @ [\<lparr>uOffset = off, uLength = len, eFlags = 0\<rparr>]" by blast
  have "uNumSection m1 + k \<le> uMaxNumSection m1" using Suc.prems(3) m1(3,4) by simp
  from Suc.IH [OF p(3) m1(2) this] p m1 show ?case by auto
qed auto

lemma le32_behind:
  assumes "length d = length data" "drop b d = drop b data" "b \<le> i"
  shows "le32 d i = le32 data i"
proof -
  have "d ! j = data ! j" if "b \<le> j" "j < length data" for j
  proof -
    have "d ! j = drop b d ! (j - b)" "data ! j = drop b data ! (j - b)" using that assms(1) by simp_all
    with assms(2) show ?thesis by simp
  qed
  then show ?thesis using assms(1,3) by (simp add: le32_def)
qed

lemma stream_parts_behind:
  "length d = length data \<Longrightarrow> drop b d = drop b data \<Longrightarrow> b \<le> i \<Longrightarrow> stream_parts k i d = stream_parts k i data"
  by (induction k arbitrary: i) (simp_all add: le32_behind [of d data b])

section \<open>The NAL units of a picture\<close>

type_synonym avc_nals = "(unit, AL_TAvcSps, AL_TAvcPps \<times> AL_TAvcSps option) AL_TNalsData"

definition sent_flags :: "avc_nals \<Rightarrow> AL_TEncPicStatus \<Rightarrow> u32" where
  "sent_flags nd ps = (if AL_HAS_SEI_PREFIX (seiFlags nd) then generateSeiFlags ps (random_access ps) AND seiFlags nd else 0)"

definition sei_ctx :: "avc_nals \<Rightarrow> AL_TEncPicStatus \<Rightarrow> AL_TSeiData \<Rightarrow> AL_TAvcSps AL_TSeiPrefixCtx" where
  "sei_ctx nd ps d = \<lparr>ctx_sps = nd_sps nd, cpbInitialRemovalDelay = sd_initialCpbRemovalDelay d,
     cpbRemovalDelay = sd_cpbRemovalDelay d, uFlags = sent_flags nd ps, pPicStatus = ps, pHDRSEIs = sd_tHDRSEIs d\<rparr>"

definition aud_elems :: "nat \<Rightarrow> (shape \<times> int) list" where
  "aud_elems eSliceType = [(Fixed 3, uint (SliceTypeToPrimaryPicType ! eSliceType))]"

text \<open>What is written, with the flags of the sections and the elements.\<close>

definition avc_units :: "avc_nals \<Rightarrow> AL_TEncPicStatus \<Rightarrow> planned list" where
  "avc_units nd ps =
     (if shouldWriteAud nd
      then [(with_header CreateAvcNuts (AL_CreateAud avc_writer 9 (eType ps) (uint (uTempId ps))), AL_SECTION_CONFIG_FLAG,
             aud_elems (eType ps))] else [])
     @ (if random_access ps
        then [(with_header CreateAvcNuts (create_sps avc_writer 7 (nd_sps nd) 0 (uint (uTempId ps))), AL_SECTION_CONFIG_FLAG,
               sps_elems (nd_sps nd))] else [])
     @ (if random_access ps \<or> forceWritePPS nd
        then [(with_header CreateAvcNuts (create_pps avc_writer 8 (nd_pps nd) 0 (uint (uTempId ps))), AL_SECTION_CONFIG_FLAG,
               pps_elems (fst (nd_pps nd)) (nd_sps nd))] else [])
     @ (if sent_flags nd ps \<noteq> 0
        then [(with_header CreateAvcNuts (AL_CreateSeiPrefix avc_writer (sei_ctx nd ps (the (seiData nd))) 6 (uint (uTempId ps))),
               AL_SECTION_SEI_PREFIX_FLAG, sei_elems (sei_ctx nd ps (the (seiData nd))) (sent_flags nd ps))] else [])"

definition picture_ok :: "avc_nals \<Rightarrow> AL_TEncPicStatus \<Rightarrow> bool" where
  "picture_ok nd ps \<longleftrightarrow>
     (shouldWriteAud nd \<longrightarrow> eType ps < 9)
     \<and> (random_access ps \<longrightarrow> sps_ok (nd_sps nd))
     \<and> (random_access ps \<or> forceWritePPS nd \<longrightarrow>
          snd (nd_pps nd) = Some (nd_sps nd) \<and> pps_ok (fst (nd_pps nd)) (nd_sps nd) (nd_sps nd))
     \<and> (sent_flags nd ps \<noteq> 0 \<longrightarrow> seiData nd \<noteq> None \<and> sei_ok (sei_ctx nd ps (the (seiData nd))) (sent_flags nd ps))"

lemma aud_writer: "eSliceType < 9 \<Longrightarrow> AL_RbspEncoding_WriteAUD eSliceType = payload (aud_elems eSliceType)"
  by (rule ext) (simp add: AL_RbspEncoding_WriteAUD_def payload_def aud_elems_def AL_RbspEncoding_CloseSEI_def
      SliceTypeToPrimaryPicType_def AL_BitStreamLite_PutU_def)

lemma aud_ok: "eSliceType < 9 \<Longrightarrow> \<forall>e \<in> set (aud_elems eSliceType). elem_ok e"
proof -
  have "\<forall>v \<in> set SliceTypeToPrimaryPicType. v < 8" by (simp add: SliceTypeToPrimaryPicType_def)
  moreover assume "eSliceType < 9"
  then have "SliceTypeToPrimaryPicType ! eSliceType \<in> set SliceTypeToPrimaryPicType"
    by (intro nth_mem) (simp add: SliceTypeToPrimaryPicType_def)
  ultimately have "SliceTypeToPrimaryPicType ! eSliceType < 8" by blast
  then show ?thesis by (simp add: aud_elems_def word_less_def)
qed

lemma avc_headers: "header_ok (header (with_header CreateAvcNuts (AL_CreateNalUnit W 9 0 l t)))"
  "header_ok (header (with_header CreateAvcNuts (AL_CreateNalUnit W 7 1 l t)))"
  "header_ok (header (with_header CreateAvcNuts (AL_CreateNalUnit W 8 1 l t)))"
  "header_ok (header (with_header CreateAvcNuts (AL_CreateNalUnit W 6 0 l t)))"
  "Write (with_header n (AL_CreateNalUnit W u' r l t)) = W"
  by (simp_all add: header_ok_def with_header_def CreateAvcNuts_def GetNalHeaderAvc_def AL_CreateNalUnit_def)

lemma first_slice_units:
  assumes "picture_ok nd ps"
  shows "first_slice_nals avc_writer CreateAvcNuts nd ps 0 k False = Some (map unit_of (avc_units nd ps))"
proof -
  have s: "sei_nals avc_writer CreateAvcNuts nd ps = Some (if sent_flags nd ps \<noteq> 0
      then [(AL_CreateSeiPrefix avc_writer (sei_ctx nd ps (the (seiData nd))) 6 (uint (uTempId ps)), AL_SECTION_SEI_PREFIX_FLAG)] else [])"
  proof (cases "sent_flags nd ps = 0")
    case True
    then show ?thesis by (auto simp: sei_nals_def sent_flags_def avc_writer_def Let_def split: if_splits)
  next
    case False
    then obtain d where d: "seiData nd = Some d" using assms by (auto simp: picture_ok_def)
    have h: "AL_HAS_SEI_PREFIX (seiFlags nd)" using False by (auto simp: sent_flags_def split: if_splits)
    then have f: "generateSeiFlags ps (random_access ps) AND seiFlags nd = sent_flags nd ps" by (simp add: sent_flags_def)
    show ?thesis
      unfolding sei_nals_def f if_P [OF h] Let_def using False d
      by (simp add: sei_ctx_def) (simp add: avc_writer_def CreateAvcNuts_def)
  qed
  show ?thesis
    unfolding first_slice_nals_def s avc_units_def
    by (simp add: aud_nals_def parameter_nals_def udu_nals_def unit_of_def avc_writer_def [THEN arg_cong, of WriteVPS] cong: if_cong)
      (simp add: CreateAvcNuts_def unit_of_def)
qed

lemma unit_okI:
  assumes "\<And>tmp. k \<le> length tmp \<Longrightarrow> writes_rbsp W tmp k es" "\<And>j. k \<le> length (junk j)"
    and "Write n = W" "header_ok (header n)"
  shows "unit_ok junk k (n, f, es)"
  using assms by (simp add: unit_ok_def)

lemma units_ok:
  assumes p: "picture_ok nd ps" and j: "\<And>j. k \<le> length (junk j)"
    and l: "\<And>x. x \<in> set (avc_units nd ps) \<Longrightarrow> unit_room x \<le> 8 * k"
  shows "\<forall>x \<in> set (avc_units nd ps). unit_ok junk k x"
proof
  fix x assume x: "x \<in> set (avc_units nd ps)"
  obtain n f es where n: "x = (n, f, es)" by (cases x)
  have len: "length (elems_bits es) < 8 * k" using l [OF x] unfolding n unit_room_def nal_room_def by simp
  have pay: "writes_rbsp (payload es) tmp k es" if "\<forall>e \<in> set es. elem_ok e" "k \<le> length tmp" for tmp
    by (rule payload_law [OF that len])
  consider
      (aud) "shouldWriteAud nd" "n = with_header CreateAvcNuts (AL_CreateAud avc_writer 9 (eType ps) (uint (uTempId ps)))" "es = aud_elems (eType ps)"
    | (sps) "random_access ps" "n = with_header CreateAvcNuts (create_sps avc_writer 7 (nd_sps nd) 0 (uint (uTempId ps)))" "es = sps_elems (nd_sps nd)"
    | (pps) "random_access ps \<or> forceWritePPS nd"
        "n = with_header CreateAvcNuts (create_pps avc_writer 8 (nd_pps nd) 0 (uint (uTempId ps)))" "es = pps_elems (fst (nd_pps nd)) (nd_sps nd)"
    | (sei) "sent_flags nd ps \<noteq> 0"
        "n = with_header CreateAvcNuts (AL_CreateSeiPrefix avc_writer (sei_ctx nd ps (the (seiData nd))) 6 (uint (uTempId ps)))"
        "es = sei_elems (sei_ctx nd ps (the (seiData nd))) (sent_flags nd ps)"
    using x unfolding avc_units_def n by (auto split: if_splits)
  then show "unit_ok junk k x"
    unfolding n
  proof cases
    case aud
    have e: "eType ps < 9" using p aud(1) by (simp add: picture_ok_def)
    have w: "WriteAUD avc_writer (eType ps) = payload es" by (simp add: avc_writer_def aud_writer [OF e] aud(3))
    show "unit_ok junk k (n, f, es)"
      unfolding aud(2) AL_CreateAud_def w
      by (rule unit_okI [OF pay j avc_headers(5) avc_headers(1)]) (use aud_ok [OF e] in \<open>simp_all add: aud(3)\<close>)
  next
    case sps
    have e: "sps_ok (nd_sps nd)" using p sps(1) by (simp add: picture_ok_def)
    have w: "WriteSPS avc_writer (nd_sps nd) 0 = payload es" by (simp add: avc_writer_def writeSps_eq [OF e] sps(3))
    show "unit_ok junk k (n, f, es)"
      unfolding sps(2) create_sps_def w
      by (rule unit_okI [OF pay j avc_headers(5) avc_headers(2)]) (use all_ok_sps [OF e] in \<open>simp_all add: sps(3) all_ok_def\<close>)
  next
    case pps
    have e: "snd (nd_pps nd) = Some (nd_sps nd)" "pps_ok (fst (nd_pps nd)) (nd_sps nd) (nd_sps nd)"
      using p pps(1) by (auto simp: picture_ok_def)
    have w: "WritePPS avc_writer (nd_pps nd) = payload es"
      by (simp add: avc_writer_def case_prod_unfold e(1) writePps_eq [OF e(2)] pps(3))
    show "unit_ok junk k (n, f, es)"
      unfolding pps(2) create_pps_def w
      by (rule unit_okI [OF pay j avc_headers(5) avc_headers(3)]) (use all_ok_pps [OF e(2)] in \<open>simp_all add: pps(3) all_ok_def\<close>)
  next
    case sei
    let ?c = "sei_ctx nd ps (the (seiData nd))"
    have e: "sei_ok ?c (sent_flags nd ps)" using p sei(1) by (simp add: picture_ok_def)
    have u: "sent_flags nd ps = uFlags ?c" by (simp add: sei_ctx_def)
    have w: "writes_rbsp (seiPrefixWrite avc_writer ?c) tmp k es" if "k \<le> length tmp" for tmp
      unfolding sei(3) by (rule sei_writes_rbsp [OF e u sei(1) that]) (use len in \<open>simp add: sei(3)\<close>)
    show "unit_ok junk k (n, f, es)"
      unfolding sei(2) AL_CreateSeiPrefix_def by (rule unit_okI [OF w j avc_headers(5) avc_headers(4)])
  qed
qed

lemma offset_after_last: "meta_ok m \<Longrightarrow> \<exists>off. getOffsetAfterLastSection m = Some off"
proof -
  assume m: "meta_ok m"
  show ?thesis
  proof (cases "uNumSection m = 0")
    case False
    with m have "uNumSection m - 1 < length (pSections m)" by (auto simp: meta_ok_def)
    with False show ?thesis by (simp add: getOffsetAfterLastSection_def)
  qed (simp add: getOffsetAfterLastSection_def)
qed

definition end_list :: "AL_TEncPicStatus \<Rightarrow> AL_TStreamSection list" where
  "end_list ps = (if bIsLastSlice ps then [\<lparr>uOffset = 0, uLength = 0, eFlags = AL_SECTION_END_FRAME_FLAG\<rparr>] else [])"

definition sync :: "AL_TEncPicStatus \<Rightarrow> AL_TStreamSection \<Rightarrow> AL_TStreamSection" where
  "sync ps s = (if bIsIDR ps then s\<lparr>eFlags := AL_SECTION_SYNC_FLAG OR eFlags s\<rparr> else s)"

lemma end_sections_law:
  assumes "meta_ok m" "uNumSection m + length (end_list ps) \<le> uMaxNumSection m"
  shows "\<exists>n. end_sections ps m = Some n \<and> meta_ok n \<and> sections n = map (sync ps) (sections m @ end_list ps)"
proof -
  obtain m1 where m1: "(if bIsLastSlice ps then AddSection 0 0 AL_SECTION_END_FRAME_FLAG m else Some m) = Some m1" "meta_ok m1"
    "sections m1 = sections m @ end_list ps"
  proof (cases "bIsLastSlice ps")
    case True
    with assms(2) have "uNumSection m < uMaxNumSection m" by (simp add: end_list_def)
    from add_section_ok [OF assms(1) this, of 0 0 AL_SECTION_END_FRAME_FLAG] True that show ?thesis by (auto simp: end_list_def)
  qed (use assms that in \<open>simp add: end_list_def\<close>)
  show ?thesis
  proof (cases "bIsIDR ps")
    case True
    from add_flags_law [OF m1(2), of AL_SECTION_SYNC_FLAG] obtain n where
      n: "AddFlagsToAllSections AL_SECTION_SYNC_FLAG m1 = Some n" "meta_ok n"
        "sections n = map (\<lambda>s. s\<lparr>eFlags := AL_SECTION_SYNC_FLAG OR eFlags s\<rparr>) (sections m1)" by blast
    have s: "sync ps = (\<lambda>s. s\<lparr>eFlags := AL_SECTION_SYNC_FLAG OR eFlags s\<rparr>)" by (rule ext) (simp add: sync_def True)
    show ?thesis using m1(1) n True unfolding end_sections_def m1(3) s by simp
  next
    case False
    have s: "sync ps = id" by (rule ext) (simp add: sync_def False)
    show ?thesis using m1 False unfolding end_sections_def s by simp
  qed
qed

text \<open>Nothing is due but before the first slice of a picture.\<close>

definition due_units :: "avc_nals \<Rightarrow> AL_TEncPicStatus \<Rightarrow> planned list" where
  "due_units nd ps = (if bIsFirstSlice ps then avc_units nd ps else [])"

lemma due_nals_law:
  assumes p: "bIsFirstSlice ps \<longrightarrow> picture_ok nd ps" and j: "\<forall>i. AL_ENC_MAX_HEADER_SIZE \<le> length (junk i)"
    and r: "sum_list (map unit_room (due_units nd ps)) \<le> 8 * AL_ENC_MAX_CONFIG_HEADER_SIZE"
    and d: "AL_ENC_MAX_CONFIG_HEADER_SIZE \<le> length data"
    and m: "meta_ok m" "uNumSection m + length (due_units nd ps) \<le> uMaxNumSection m"
  shows "\<exists>Ns d n. (if bIsFirstSlice ps
       then do { nals \<leftarrow> first_slice_nals avc_writer CreateAvcNuts nd ps 0 k False;
                 GenerateConfigNalUnits AL_CODEC_AVC junk nals (data, m) }
       else Some (data, m)) = Some (d, n)
    \<and> list_all2 (unit_bytes AL_CODEC_AVC) (due_units nd ps) Ns
    \<and> d = concat Ns @ drop (length (concat Ns)) data \<and> length (concat Ns) \<le> AL_ENC_MAX_CONFIG_HEADER_SIZE
    \<and> length d = length data \<and> drop AL_ENC_MAX_CONFIG_HEADER_SIZE d = drop AL_ENC_MAX_CONFIG_HEADER_SIZE data
    \<and> meta_ok n \<and> uMaxNumSection n = uMaxNumSection m \<and> uNumSection n = uNumSection m + length (due_units nd ps)
    \<and> sections n = sections m @ laid 0 (zip Ns (map unit_flags (due_units nd ps)))"
proof (cases "bIsFirstSlice ps")
  case False
  then show ?thesis using m(1)
    by (intro exI [of _ "[]"] exI [of _ data] exI [of _ m]) (simp add: due_units_def)
next
  case True
  let ?us = "avc_units nd ps" let ?k = AL_ENC_MAX_CONFIG_HEADER_SIZE
  have u: "due_units nd ps = ?us" and q: "picture_ok nd ps" using True p by (simp_all add: due_units_def)
  have jk: "?k \<le> length (junk i)" for i using j by (auto simp: AL_ENC_MAX_HEADER_SIZE_def intro: order_trans [rotated])
  have l: "unit_room y \<le> 8 * ?k" if "y \<in> set ?us" for y
    using member_le_sum_list [of "unit_room y" "map unit_room ?us"] that r unfolding u by simp
  have uo: "\<forall>y \<in> set ?us. unit_ok junk ?k y" by (rule units_ok [OF q jk l])
  from config_nals_law [OF uo r [unfolded u] d m(1) m(2) [unfolded u], of AL_CODEC_AVC]
  show ?thesis unfolding u if_P [OF True] first_slice_units [OF q] bind.bind_lunit by blast
qed

text \<open>C5: \<open>AVC_GenerateSections\<close> returns for a slice of the AVC encoder, outside the sub-frame latency mode and the
  XAVC intra profiles (which pad the buffer afterwards), without filler data to write, when the parameter sets and SEI
  values that are due are in range and the units fit into the 2048 bytes reserved for them and the sections into the
  table.  Before the first slice of the picture the buffer starts with exactly the NAL units that are due, one behind the
  other: the delimiter if it is enabled, SPS and PPS at a random access point, the enabled SEI messages, each the escaped
  NAL of its elements; before another slice nothing is written.  Every byte behind them is as it was.  The section table
  gets one section for every NAL unit, with its place and its flag, then the parts of the slices, then the end of the
  frame; an IDR picture marks all sections.\<close>

theorem avc_generate_sections:
  assumes p: "bIsFirstSlice ps \<longrightarrow> picture_ok (nd\<lparr>forceWritePPS := b\<rparr>) ps"
    and j: "\<forall>i. AL_ENC_MAX_HEADER_SIZE \<le> length (junk i)"
    and f: "fillerCtrlMode nd = AL_FILLER_DISABLE \<or> iFiller ps = 0"
    and x: "\<not> (AL_IS_XAVC_CBG eProfile \<and> AL_IS_INTRA_PROFILE eProfile)"
    and r: "sum_list (map unit_room (due_units (nd\<lparr>forceWritePPS := b\<rparr>) ps)) \<le> 8 * AL_ENC_MAX_CONFIG_HEADER_SIZE"
    and d: "AL_ENC_MAX_CONFIG_HEADER_SIZE \<le> unat (uStreamPartOffset ps)" "AL_ENC_MAX_CONFIG_HEADER_SIZE \<le> length data"
      "stream_parts (nat (iNumParts ps)) (unat (uStreamPartOffset ps)) data = Some parts"
    and m: "meta_ok m"
      "uNumSection m + length (due_units (nd\<lparr>forceWritePPS := b\<rparr>) ps) + nat (iNumParts ps) + length (end_list ps) \<le> uMaxNumSection m"
  shows "\<exists>Ns d n. AVC_GenerateSections eProfile h nd ps b k False junk (data, m) = Some (d, n)
    \<and> list_all2 (unit_bytes AL_CODEC_AVC) (due_units (nd\<lparr>forceWritePPS := b\<rparr>) ps) Ns
    \<and> d = concat Ns @ drop (length (concat Ns)) data \<and> length d = length data
    \<and> length (concat Ns) \<le> AL_ENC_MAX_CONFIG_HEADER_SIZE
    \<and> meta_ok n
    \<and> sections n = map (sync ps) (sections m @ laid 0 (zip Ns (map unit_flags (due_units (nd\<lparr>forceWritePPS := b\<rparr>) ps)))
        @ parts @ end_list ps)"
proof -
  let ?nd = "nd\<lparr>forceWritePPS := b\<rparr>" let ?us = "due_units ?nd ps" let ?k = AL_ENC_MAX_CONFIG_HEADER_SIZE
  have mu: "uNumSection m + length ?us \<le> uMaxNumSection m" using m(2) by simp
  have c: "GetCodec avc_writer = AL_CODEC_AVC" by (simp add: avc_writer_def)
  from due_nals_law [OF p j r d(2) m(1) mu, of k] obtain Ns d1 m1 where
    g: "(if bIsFirstSlice ps
         then do { nals \<leftarrow> first_slice_nals avc_writer CreateAvcNuts ?nd ps 0 k False;
                   GenerateConfigNalUnits AL_CODEC_AVC junk nals (data, m) }
         else Some (data, m)) = Some (d1, m1)"
      "list_all2 (unit_bytes AL_CODEC_AVC) ?us Ns" "d1 = concat Ns @ drop (length (concat Ns)) data" "length (concat Ns) \<le> ?k"
      "length d1 = length data" "drop ?k d1 = drop ?k data" "meta_ok m1" "uMaxNumSection m1 = uMaxNumSection m"
      "uNumSection m1 = uNumSection m + length ?us"
      "sections m1 = sections m @ laid 0 (zip Ns (map unit_flags ?us))" by (elim exE conjE) (rule that)
  have sp: "stream_parts (nat (iNumParts ps)) (unat (uStreamPartOffset ps)) d1 = Some parts"
    using stream_parts_behind [OF g(5,6) d(1)] d(3) by simp
  have "uNumSection m1 + nat (iNumParts ps) \<le> uMaxNumSection m1" using m(2) g(8,9) by simp
  from part_sections_law [OF sp g(7) this] obtain m2 where
    m2: "part_sections (nat (iNumParts ps)) (unat (uStreamPartOffset ps)) (d1, m1) = Some (d1, m2)" "meta_ok m2"
      "uMaxNumSection m2 = uMaxNumSection m1" "uNumSection m2 = uNumSection m1 + nat (iNumParts ps)"
      "sections m2 = sections m1 @ parts" by blast
  obtain off where off: "getOffsetAfterLastSection m2 = Some off" using offset_after_last [OF m2(2)] by blast
  have fs: "filler_section AL_CODEC_AVC CreateAvcNuts (fillerCtrlMode ?nd) ps False (d1, m2) = Some (d1, m2)"
    using f off by (auto simp: filler_section_def Let_def)
  have "uNumSection m2 + length (end_list ps) \<le> uMaxNumSection m2" using m(2) g(8,9) m2(3,4) by simp
  from end_sections_law [OF m2(2) this] obtain n where
    n: "end_sections ps m2 = Some n" "meta_ok n" "sections n = map (sync ps) (sections m2 @ end_list ps)" by blast
  have "AVC_GenerateSections eProfile h nd ps b k False junk (data, m) = Some (d1, n)"
    unfolding AVC_GenerateSections_def GenerateSections_def if_not_P [OF x] c g(1)
    using m2(1) fs n(1) by simp
  with g n m2(5) show ?thesis by (intro exI [of _ Ns] exI [of _ d1] exI [of _ n]) simp
qed

lemma laid_length: "length (laid off Ns) = length Ns"
  by (induction off Ns rule: laid.induct) simp_all

definition status_0 :: AL_TEncPicStatus where
  "status_0 = \<lparr>uDpbOutputDelay = 0, iFiller = 0, uStreamPartOffset = 2048, iNumParts = 1, eType = 2, ePicStruct = 0, bIsIDR = True,
     bIsFirstSlice = True, bIsLastSlice = True, st_iRecoveryCnt = 0, uTempId = 0\<rparr>"

definition nals_0 :: avc_nals where
  "nals_0 = \<lparr>nd_vps = (), nd_sps = example_sps, nd_pps = (example_pps, Some example_sps), shouldWriteAud = True,
     fillerCtrlMode = AL_FILLER_DISABLE, forceWritePPS = False, seiData = None, seiFlags = 0\<rparr>"

lemma nals_0_ok: "picture_ok (nals_0\<lparr>forceWritePPS := False\<rparr>) status_0"
  "map unit_flags (avc_units (nals_0\<lparr>forceWritePPS := False\<rparr>) status_0) = [8, 8, 8]"
  "sum_list (map unit_room (avc_units (nals_0\<lparr>forceWritePPS := False\<rparr>) status_0)) \<le> 8 * AL_ENC_MAX_CONFIG_HEADER_SIZE"
proof -
  have l: "length (elems_bits (pps_elems example_pps example_sps)) \<le> 100" "length (elems_bits (aud_elems 2)) \<le> 3"
    by code_simp+
  note l = l example_sps_ok(2)
  have f: "fits (Suc 0) (1 :: u8)" "fits n (0 :: u8) \<longleftrightarrow> 0 < n \<and> n \<le> 32" for n
    by (simp_all add: fits_def)
  note s = example_sps_ok(1)
  have p: "pps_ok example_pps example_sps example_sps"
    unfolding pps_ok_def
    by (intro conjI) (simp_all add: example_pps_def pps_0_def f AL_AVC_MAX_SPS_def MAX_BIT_DEPTH_def sps_0_def example_sps_def)
  have z: "sent_flags (nals_0\<lparr>forceWritePPS := False\<rparr>) status_0 = 0"
    by (simp add: sent_flags_def nals_0_def AL_HAS_SEI_PREFIX_def)
  have r: "random_access status_0" by (simp add: random_access_def status_0_def)
  show "picture_ok (nals_0\<lparr>forceWritePPS := False\<rparr>) status_0"
    unfolding picture_ok_def z using s p by (simp add: nals_0_def status_0_def)
  show "map unit_flags (avc_units (nals_0\<lparr>forceWritePPS := False\<rparr>) status_0) = [8, 8, 8]"
    unfolding avc_units_def z by (simp add: r unit_flags_def AL_SECTION_CONFIG_FLAG_def) (simp add: nals_0_def)
  have h: "hdr_size (header (with_header CreateAvcNuts n)) = 1" for n
    by (simp add: with_header_def CreateAvcNuts_def GetNalHeaderAvc_def)
  show "sum_list (map unit_room (avc_units (nals_0\<lparr>forceWritePPS := False\<rparr>) status_0)) \<le> 8 * AL_ENC_MAX_CONFIG_HEADER_SIZE"
    unfolding avc_units_def z using l
    by (simp add: r unit_room_def nal_room_def h AL_ENC_MAX_CONFIG_HEADER_SIZE_def) (simp add: nals_0_def status_0_def)
qed

theorem avc_generate_sections_witness:
  "\<exists>d n. AVC_GenerateSections AL_PROFILE_AVC_MAIN 64 nals_0 status_0 False 1 False (\<lambda>i. replicate 12288 0)
      (replicate 2056 0, \<lparr>uTemporalID = 0, pSections = replicate 8 \<lparr>uOffset = 0, uLength = 0, eFlags = 0\<rparr>, uNumSection = 0, uMaxNumSection = 8\<rparr>)
    = Some (d, n) \<and> length (sections n) = 5"
proof -
  let ?m = "\<lparr>uTemporalID = 0, pSections = replicate 8 \<lparr>uOffset = 0, uLength = 0, eFlags = 0\<rparr>, uNumSection = 0, uMaxNumSection = 8\<rparr> :: AL_TStreamMetaData"
  let ?nd = "nals_0\<lparr>forceWritePPS := False\<rparr>"
  have du: "due_units ?nd status_0 = avc_units ?nd status_0" by (simp add: due_units_def status_0_def)
  note ok = nals_0_ok [folded du]
  have lu: "length (due_units ?nd status_0) = 3" using arg_cong [OF ok(2), of length] by simp
  have p: "\<exists>parts. stream_parts (nat (iNumParts status_0)) (unat (uStreamPartOffset status_0)) (replicate 2056 0) = Some parts \<and> length parts = 1"
    by (simp add: status_0_def le32_def)
  then obtain parts where
    parts: "stream_parts (nat (iNumParts status_0)) (unat (uStreamPartOffset status_0)) (replicate 2056 0) = Some parts" "length parts = 1" by blast
  have j: "\<forall>i. AL_ENC_MAX_HEADER_SIZE \<le> length ((\<lambda>i. replicate 12288 (0 :: u8)) i)"
    by (simp add: AL_ENC_MAX_HEADER_SIZE_def AL_ENC_MAX_CONFIG_HEADER_SIZE_def AL_ENC_MAX_SEI_SIZE_def)
  have x: "\<not> (AL_IS_XAVC_CBG AL_PROFILE_AVC_MAIN \<and> AL_IS_INTRA_PROFILE AL_PROFILE_AVC_MAIN)"
    by (simp add: AL_IS_XAVC_CBG_def AL_IS_XAVC_def AL_GET_CS_FLAGS_def AL_PROFILE_AVC_MAIN_def AL_PROFILE_AVC_def)
  have f: "fillerCtrlMode nals_0 = AL_FILLER_DISABLE \<or> iFiller status_0 = 0"
    "AL_ENC_MAX_CONFIG_HEADER_SIZE \<le> unat (uStreamPartOffset status_0)" "AL_ENC_MAX_CONFIG_HEADER_SIZE \<le> length (replicate 2056 (0 :: u8))"
    by (simp_all add: status_0_def nals_0_def AL_ENC_MAX_CONFIG_HEADER_SIZE_def)
  have e: "length (end_list status_0) = 1" by (simp add: end_list_def status_0_def)
  have m: "meta_ok ?m" "uNumSection ?m + length (due_units ?nd status_0) + nat (iNumParts status_0) + length (end_list status_0) \<le> uMaxNumSection ?m"
    using lu e by (simp_all add: meta_ok_def status_0_def)
  have p0: "bIsFirstSlice status_0 \<longrightarrow> picture_ok ?nd status_0" using nals_0_ok(1) by simp
  from avc_generate_sections [OF p0 j f(1) x ok(3) f(2,3) parts(1) m, of 64 1] obtain Ns d n where
    r: "AVC_GenerateSections AL_PROFILE_AVC_MAIN 64 nals_0 status_0 False 1 False (\<lambda>i. replicate 12288 0) (replicate 2056 0, ?m) = Some (d, n)"
      "list_all2 (unit_bytes AL_CODEC_AVC) (due_units ?nd status_0) Ns"
      "sections n = map (sync status_0) (sections ?m @ laid 0 (zip Ns (map unit_flags (due_units ?nd status_0))) @ parts @ end_list status_0)"
    by blast
  have "length Ns = 3" using list_all2_lengthD [OF r(2)] lu by simp
  then have "length (sections n) = 5" unfolding r(3) using parts(2) e ok(2) by (simp add: laid_length sections_def)
  with r(1) show ?thesis by blast
qed

section \<open>Messages of the application\<close>

lemma insert_behind:
  "c \<le> length xs \<Longrightarrow> 0 < last_index P (drop c xs) \<Longrightarrow>
   last_index P (insert_at c x xs) = last_index P xs + 1
   \<and> insert_at c x xs ! last_index P xs = xs ! (last_index P xs - 1)"
proof -
  assume c: "c \<le> length xs" and p: "0 < last_index P (drop c xs)"
  let ?k = "last_index P (drop c xs)"
  have l: "last_index P xs = c + ?k"
    using last_index_append [of P "take c xs" "drop c xs"] c p by simp
  have "last_index P (insert_at c x xs) = c + (1 + ?k)"
    unfolding insert_at_def last_index_append using c p by simp
  moreover have "insert_at c x xs ! (c + ?k) = xs ! (c + ?k - 1)"
    unfolding insert_at_def using c p by (simp add: nth_append min_absorb2 nth_Cons')
  ultimately show ?thesis unfolding l by simp
qed

lemma prefix_offset:
  assumes "meta_ok m"
  shows "getUserSeiPrefixOffset m = (let i = last_index (has_flag AL_SECTION_SEI_PREFIX_FLAG) (sections m) in
    if i = 0 then Some (of_nat AL_ENC_MAX_CONFIG_HEADER_SIZE) else Some (uOffset (sections m ! (i - 1)) + uLength (sections m ! (i - 1))))"
proof -
  let ?i = "last_index (has_flag AL_SECTION_SEI_PREFIX_FLAG) (sections m)"
  have l: "?i \<le> uNumSection m" "uNumSection m \<le> length (pSections m)"
    using last_index_le [of "has_flag AL_SECTION_SEI_PREFIX_FLAG" "sections m"] sections_length [OF assms] assms by (simp_all add: meta_ok_def)
  show ?thesis
  proof (cases "?i = 0")
    case True
    then show ?thesis by (simp add: getUserSeiPrefixOffset_def last_section_law [OF assms] AL_ENC_MAX_HEADER_SIZE_def)
  next
    case False
    then have k: "nat (int ?i - 1) = ?i - 1" "?i - 1 < length (pSections m)" "int ?i - 1 \<noteq> - 1" using l by simp_all
    have "pSections m ! (?i - 1) = sections m ! (?i - 1)" using False l by (simp add: sections_def)
    with False k show ?thesis by (simp add: getUserSeiPrefixOffset_def last_section_law [OF assms] Let_def)
  qed
qed

text \<open>C39: A second prefix SEI message of the application overwrites the first one when the picture already has a prefix SEI
  section behind its configuration: \<open>AL_StreamMetaData_AddSeiSection\<close> inserts the new section before that one, so
  \<open>getUserSeiPrefixOffset\<close>, which looks at the last of them, returns the same place again.  After two successful calls of
  \<open>AL_WriteSeiSection\<close> two sections start at the same byte.\<close>

theorem user_sei_overwritten:
  assumes m: "meta_ok m" and c: "last_index (has_flag AL_SECTION_CONFIG_FLAG) (sections m)
      < last_index (has_flag AL_SECTION_SEI_PREFIX_FLAG) (sections m)"
    and a: "AL_WriteSeiSection eCodec nuts tmp True t1 p1 s1 d1 (data, m) = Some (i, (data1, m1))" "0 \<le> i"
    and b: "AL_WriteSeiSection eCodec nuts tmp' True t2 p2 s2 d2 (data1, m1) = Some (j, (data2, m2))" "0 \<le> j"
  shows "i = j \<and> uOffset (sections m2 ! nat j) = uOffset (sections m2 ! (nat j + 1))
    \<and> nat j + 1 < length (sections m2)"
proof -
  let ?C = "has_flag AL_SECTION_CONFIG_FLAG" let ?S = "has_flag AL_SECTION_SEI_PREFIX_FLAG"
  have step: "\<exists>off len. getUserSeiPrefixOffset x = Some off \<and> i = int (last_index ?C (sections x)) \<and> meta_ok y
      \<and> sections y = insert_at (last_index ?C (sections x)) \<lparr>uOffset = off, uLength = len, eFlags = AL_SECTION_SEI_PREFIX_FLAG\<rparr> (sections x)"
    if "meta_ok x" "AL_WriteSeiSection eCodec nuts tmp True t p s d (e, x) = Some (i, (f, y))" "0 \<le> i" for x y e f t p s d i tmp
  proof -
    from that(2,3) obtain off len where o: "getUserSeiPrefixOffset x = Some off"
      "AL_StreamMetaData_AddSeiSection True off len x = Some (i, Some y)"
      by (auto simp: AL_WriteSeiSection_def split: bind_split_asm if_splits)
    have full: "uNumSection x < uMaxNumSection x"
    proof (rule ccontr)
      assume "\<not> ?thesis"
      with add_sei_section_full [OF that(1), of True off len] o(2) that(3) show False by simp
    qed
    from add_sei_section_law [OF that(1) full, of off len] o show ?thesis by auto
  qed
  from step [OF m a] obtain off len where
    s1: "getUserSeiPrefixOffset m = Some off" "i = int (last_index ?C (sections m))" "meta_ok m1"
      "sections m1 = insert_at (last_index ?C (sections m)) \<lparr>uOffset = off, uLength = len, eFlags = AL_SECTION_SEI_PREFIX_FLAG\<rparr> (sections m)"
    by blast
  from step [OF s1(3) b] obtain off' len' where
    s2: "getUserSeiPrefixOffset m1 = Some off'" "j = int (last_index ?C (sections m1))" "meta_ok m2"
      "sections m2 = insert_at (last_index ?C (sections m1)) \<lparr>uOffset = off', uLength = len', eFlags = AL_SECTION_SEI_PREFIX_FLAG\<rparr> (sections m1)"
    by blast
  let ?k = "last_index ?C (sections m)" let ?s = "\<lparr>uOffset = off, uLength = len, eFlags = AL_SECTION_SEI_PREFIX_FLAG\<rparr>"
  have kl: "?k \<le> length (sections m)" by (rule last_index_le)
  have split: "sections m = take ?k (sections m) @ drop ?k (sections m)" by simp
  have dC: "last_index ?C (drop ?k (sections m)) = 0"
    using last_index_append [of ?C "take ?k (sections m)" "drop ?k (sections m)"] kl by (auto split: if_splits)
  have dS: "0 < last_index ?S (drop ?k (sections m))"
  proof (rule ccontr)
    assume "\<not> ?thesis"
    then have "last_index ?S (sections m) = last_index ?S (take ?k (sections m))"
      using last_index_append [of ?S "take ?k (sections m)" "drop ?k (sections m)"] by simp
    with c last_index_le [of ?S "take ?k (sections m)"] show False by simp
  qed
  have tC: "last_index ?C (take ?k (sections m)) = ?k"
    using last_index_append [of ?C "take ?k (sections m)" "drop ?k (sections m)"] dC by simp
  have nC: "\<not> ?C ?s" by (simp add: has_flag_def AL_SECTION_CONFIG_FLAG_def AL_SECTION_SEI_PREFIX_FLAG_def)
  have k1: "last_index ?C (sections m1) = ?k"
    unfolding s1(4) insert_at_def last_index_append using dC tC nC by simp
  note ib = insert_behind [OF kl dS, of ?s]
  have "off' = off"
    using s1(1) s2(1) ib dS c unfolding prefix_offset [OF m] prefix_offset [OF s1(3)] s1(4) by (simp add: Let_def)
  then show ?thesis
    unfolding s2(4) k1 s1(2) s2(2) using kl s1(4) by (simp add: insert_at_def nth_append)
qed

definition sei_meta :: AL_TStreamMetaData where
  "sei_meta = \<lparr>uTemporalID = 0,
     pSections = [\<lparr>uOffset = 0, uLength = 4, eFlags = 8\<rparr>, \<lparr>uOffset = 4, uLength = 3, eFlags = 1\<rparr>,
                  \<lparr>uOffset = 0, uLength = 0, eFlags = 0\<rparr>, \<lparr>uOffset = 0, uLength = 0, eFlags = 0\<rparr>],
     uNumSection = 2, uMaxNumSection = 4\<rparr>"

definition first_message :: "(int \<times> stream) option" where
  "first_message = AL_WriteSeiSection AL_CODEC_AVC CreateAvcNuts (replicate 40 0) True 5 [1, 2] 2 0 (replicate 40 0, sei_meta)"

definition second_message :: "(int \<times> stream) option" where
  "second_message = (case first_message of None \<Rightarrow> None
     | Some (i, st) \<Rightarrow> AL_WriteSeiSection AL_CODEC_AVC CreateAvcNuts (replicate 40 0) True 5 [7] 1 0 st)"

theorem user_sei_overwritten_witness:
  "\<exists>i st j d m. first_message = Some (i, st) \<and> second_message = Some (j, (d, m))
     \<and> uOffset (sections m ! nat j) = uOffset (sections m ! (nat j + 1))"
proof -
  have s: "case first_message of Some (i, st) \<Rightarrow> 0 \<le> i | None \<Rightarrow> False" "case second_message of Some (i, st) \<Rightarrow> 0 \<le> i | None \<Rightarrow> False"
    by code_simp+
  obtain i d1 m1 where f: "first_message = Some (i, (d1, m1))" "0 \<le> i" using s(1) by (auto split: option.splits)
  obtain j d2 m2 where g: "second_message = Some (j, (d2, m2))" "0 \<le> j" using s(2) by (auto split: option.splits)
  have m: "meta_ok sei_meta" by (simp add: meta_ok_def sei_meta_def)
  have c: "last_index (has_flag AL_SECTION_CONFIG_FLAG) (sections sei_meta)
      < last_index (has_flag AL_SECTION_SEI_PREFIX_FLAG) (sections sei_meta)"
    by (simp add: sei_meta_def sections_def has_flag_def AL_SECTION_CONFIG_FLAG_def AL_SECTION_SEI_PREFIX_FLAG_def)
  have b: "AL_WriteSeiSection AL_CODEC_AVC CreateAvcNuts (replicate 40 0) True 5 [7] 1 0 (d1, m1) = Some (j, (d2, m2))"
    using g(1) by (simp add: second_message_def f(1))
  from user_sei_overwritten [OF m c f(1) [unfolded first_message_def] f(2) b g(2)] f(1) g(1) show ?thesis by blast
qed

section \<open>The padding of XAVC\<close>

lemma section_sizes_insert: "section_sizes flags (xs @ ys) = section_sizes flags xs + section_sizes flags ys"
  by (induction xs) simp_all

text \<open>When the configuration of an XAVC picture is shorter than 512 bytes, \<open>padConfig\<close> fills it up with zeros behind its
  last section.  If SEI messages follow there, as \<open>GenerateSections\<close> lays them out, their first bytes become zero, start
  code and header included, although their section stays in the table.\<close>

theorem pad_config_overwrites_sei:
  assumes m: "meta_ok m" and i: "last_index (has_flag AL_SECTION_CONFIG_FLAG) (sections m) = Suc i"
    and z: "section_sizes AL_SECTION_CONFIG_FLAG (sections m) < 512"
    and e: "unat (uOffset (sections m ! i)) + unat (uLength (sections m ! i)) = unat (uOffset s)" "unat (uOffset s) + 512 \<le> length data"
    and s: "s \<in> set (sections m)" "has_flag AL_SECTION_SEI_PREFIX_FLAG s" "\<not> has_flag AL_SECTION_CONFIG_FLAG s"
  shows "\<exists>d n. padConfig (data, m) = Some (d, n) \<and> s \<in> set (sections n)
    \<and> section_sizes AL_SECTION_CONFIG_FLAG (sections n) = 512
    \<and> (\<forall>k. k < unat (512 - section_sizes AL_SECTION_CONFIG_FLAG (sections m)) \<longrightarrow> d ! (unat (uOffset s) + k) = 0)"
proof -
  let ?C = "has_flag AL_SECTION_CONFIG_FLAG" let ?z = "section_sizes AL_SECTION_CONFIG_FLAG (sections m)"
  let ?ps = "pSections m" let ?x = "sections m ! i"
  have il: "i < length (sections m)" using last_index_le [of ?C "sections m"] i by simp
  have len: "length (sections m) = uNumSection m" "uNumSection m \<le> length ?ps" using sections_length [OF m] m by (simp_all add: meta_ok_def)
  have x: "?ps ! i = ?x" using il by (simp add: sections_def)
  have zu: "uint ?z < 512" using z by (simp add: word_less_def)
  have sz: "getSectionSize m AL_SECTION_CONFIG_FLAG = Some (uint ?z)"
  proof -
    have "0 \<le> uint ?z" by simp
    with zu have "- 2147483648 \<le> uint ?z" "uint ?z < 2147483648" by linarith+
    then have "sint ?z = uint ?z" by (simp only: sint_uint) (simp add: signed_take_bit_int_eq_self_iff)
    with len show ?thesis by (simp add: getSectionSize_def sections_def)
  qed
  let ?n = "nat (512 - uint ?z)"
  have n: "?n \<le> 512" "unat (512 - ?z) = ?n" "(of_nat ?n :: u32) = 512 - ?z"
  proof -
    have "0 \<le> uint ?z" by simp
    then show "?n \<le> 512" by linarith
    have "?z \<le> 512" using z by simp
    then have "uint (512 - ?z) = 512 - uint ?z" using uint_sub_ge [of ?z 512] by (simp add: uint_minus_simple_alt)
    then show w: "unat (512 - ?z) = ?n" by (simp only: unat_eq_nat_uint)
    have "(of_nat (unat (512 - ?z)) :: u32) = 512 - ?z" by (simp only: of_nat_unat ucast_id)
    then show "(of_nat ?n :: u32) = 512 - ?z" unfolding w .
  qed
  let ?d = "take (unat (uOffset s)) data @ replicate ?n 0 @ drop (unat (uOffset s) + ?n) data"
  let ?y = "?x\<lparr>uLength := uLength ?x + of_nat ?n\<rparr>"
  let ?m = "m\<lparr>pSections := ?ps[i := ?y]\<rparr>"
  have run: "padConfig (data, m) = Some (?d, ?m)"
    using zu il len e n(1)
    by (simp add: padConfig_def sz last_section_law [OF m] i pad_section_def x memset_zero_def set_at_def)
  have sec: "sections ?m = (sections m)[i := ?y]" using il by (simp add: sections_def take_update_swap)
  have Cx: "?C ?x" using last_index_P [of ?C "sections m"] i by simp
  have "s \<in> set (sections ?m)"
  proof -
    obtain k where k: "k < length (sections m)" "sections m ! k = s" using s(1) by (auto simp: in_set_conv_nth)
    have "k \<noteq> i" using k(2) Cx s(3) by auto
    with k show ?thesis unfolding sec by (metis length_list_update nth_list_update_neq nth_mem)
  qed
  moreover have "section_sizes AL_SECTION_CONFIG_FLAG (sections ?m) = 512"
  proof -
    have split: "sections m = take i (sections m) @ ?x # drop (Suc i) (sections m)" using il by (simp add: id_take_nth_drop)
    have "section_sizes AL_SECTION_CONFIG_FLAG ((sections m)[i := ?y]) = section_sizes AL_SECTION_CONFIG_FLAG (sections m) + of_nat ?n"
      using Cx by (subst split, subst (5) split) (simp add: section_sizes_insert list_update_append has_flag_def il min_absorb2)
    also have "\<dots> = 512" unfolding n(3) by simp
    finally show ?thesis unfolding sec .
  qed
  moreover have "?d ! (unat (uOffset s) + k) = 0" if "k < unat (512 - ?z)" for k
    using that e(2) unfolding n(2) by (simp add: nth_append min_absorb2)
  ultimately show ?thesis using run by (intro exI [of _ ?d] exI [of _ ?m]) blast
qed

definition xavc_meta :: AL_TStreamMetaData where
  "xavc_meta = \<lparr>uTemporalID = 0,
     pSections = [\<lparr>uOffset = 0, uLength = 30, eFlags = 8\<rparr>, \<lparr>uOffset = 30, uLength = 13, eFlags = 1\<rparr>],
     uNumSection = 2, uMaxNumSection = 2\<rparr>"

theorem pad_config_overwrites_sei_witness:
  "\<exists>d n. padConfig (replicate 600 1, xavc_meta) = Some (d, n) \<and> d ! 30 = 0"
proof -
  have s: "sections xavc_meta = [\<lparr>uOffset = 0, uLength = 30, eFlags = 8\<rparr>, \<lparr>uOffset = 30, uLength = 13, eFlags = 1\<rparr>]"
    by (simp add: sections_def xavc_meta_def)
  have m: "meta_ok xavc_meta" by (simp add: meta_ok_def xavc_meta_def)
  let ?s = "\<lparr>uOffset = 30, uLength = 13, eFlags = 1\<rparr> :: AL_TStreamSection"
  have i: "last_index (has_flag AL_SECTION_CONFIG_FLAG) (sections xavc_meta) = Suc 0"
    by (simp add: s has_flag_def AL_SECTION_CONFIG_FLAG_def)
  have z: "section_sizes AL_SECTION_CONFIG_FLAG (sections xavc_meta) = 30" by (simp add: s AL_SECTION_CONFIG_FLAG_def)
  have e: "unat (uOffset (sections xavc_meta ! 0)) + unat (uLength (sections xavc_meta ! 0)) = unat (uOffset ?s)"
    "unat (uOffset ?s) + 512 \<le> length (replicate 600 (1 :: u8))" by (simp_all add: s)
  have f: "?s \<in> set (sections xavc_meta)" "has_flag AL_SECTION_SEI_PREFIX_FLAG ?s" "\<not> has_flag AL_SECTION_CONFIG_FLAG ?s"
    by (simp_all add: s has_flag_def AL_SECTION_SEI_PREFIX_FLAG_def AL_SECTION_CONFIG_FLAG_def)
  have "section_sizes AL_SECTION_CONFIG_FLAG (sections xavc_meta) < 512" by (simp add: z)
  from pad_config_overwrites_sei [OF m i this e f] obtain d n where
    r: "padConfig (replicate 600 1, xavc_meta) = Some (d, n)" "\<forall>k. k < unat (512 - 30 :: u32) \<longrightarrow> d ! (unat (uOffset ?s) + k) = 0"
    unfolding z by blast
  from r(2) [rule_format, of 0] have "d ! 30 = 0" by simp
  with r(1) show ?thesis by blast
qed

end
