(* ===== verification/Spec2Isabelle.thy ===== *)
theory Spec2Isabelle
  imports IntVector Fifo MailListHeap MailboxProofs DpbProps Levels ExpGolomb NalUnitParser DecUser KGroup
    SectionsProps
begin

text \<open>
  A verification of the control software and the kernel modules of the Zynq UltraScale+ video codec unit (VCU).

  \<^bold>\<open>The program.\<close>  An application calls the control software (vcu-ctrl-sw), directly or through the OpenMAX layer
  (vcu-omx-il).  The encoder library builds the parameter sets and SEI messages, writes them bit by bit, wraps them into
  NAL units and lays them and the slices the hardware produced into a stream buffer described by a table of sections.
  The decoder library takes NAL units out of a circular stream buffer, removes the emulation prevention, parses the
  parameter sets and SEI and manages the decoded pictures.  Both talk to the kernel modules (vcu-modules: al5e, al5d),
  which own the users, channels and DMA buffers and exchange mails with the microcontroller (MCU) of the codec through
  rings in shared memory.

  \<^bold>\<open>Conventions\<close> (\<open>Prelude\<close>).  A C structure is a record, an enumeration a datatype or its numbers, an integer a word of its
  width where it can wrap.  Memory that is read and written is a list, and every access is checked: an access outside,
  a failed assertion or a loop that never ends is \<open>None\<close>; a value \<open>Some\<close> is a run without any of them.  Where two
  theorems could say "if it returns", the ones here say that it returns \<open>Some\<close>.  Code outside the repository (memory
  allocators, the Linux kernel, the MCU, the hardware) is a parameter: a list of answers, a stream of environment
  reactions, or the bytes found in memory that is not initialised.

  \<^bold>\<open>Shared contracts.\<close>  \<open>Fifo_Spec\<close>: the locales \<open>fifo_spec\<close> and \<open>bounded_fifo_spec\<close> of a first-in first-out store, interpreted by
  the thread FIFO, the wait queue of mails and the mailbox.  \<open>Dll\<close>: the locale \<open>linked_list\<close> of doubly linked lists in
  an array, interpreted three times by the picture buffer.  \<open>BitStreamProofs\<close> and \<open>RbspReaders\<close>: the locales \<open>bit_sink\<close> and
  \<open>bit_source\<close>, interpreted by the bit writer and by the RBSP parser.

  \<^bold>\<open>Containers\<close> of lib_common.  \<open>IntVector\<close> (IntVector.c: a list, but for what it does with an
  absent element or when it is full), \<open>Fifo\<close> (Fifo.c: the operations
  and, as an inductive step relation, any interleaving of the atomic steps of any number of threads; the invariant
  counts the semaphores), \<open>Utils\<close> (Utils.h, Utils.c), \<open>Levels\<close> (LevelLimit.c, AvcLevelsLimit.c, HevcLevelsLimit.c: the
  tables agree with the limit functions).

  \<^bold>\<open>Kernel modules.\<close>  \<open>Mail\<close> (al_mail.c, al_codec_mails.c), \<open>MailQueue\<close> (al_list.c, al_queue.c over the sequence
  of the mails) and \<open>MailListHeap\<close> (the same code on the cells in memory, which refines it), \<open>Mailbox\<close> and \<open>MailboxProofs\<close>
  (al_mailbox.c, mcu_utils.c, mcu_interface.c: the ring of words with its wrap refines a queue of messages), \<open>KMem\<close> (al_alloc.c,
  al_dmabuf.c, al_buffers_pool.c: what is held is a function of the trace of the calls, so leaks and double
  releases are statements), \<open>KUser\<close> (al_user.c), \<open>EncUser\<close> and \<open>EncUserProofs\<close> (al5e/enc_user.c, enc_mails_factory.c: creation in four
  resumable steps, locks, memory), \<open>DecUser\<close> (al5d/dec_user.c, dec_mails_factory.c), \<open>KGroup\<close> (al_group.c and the opening,
  closing and firmware loading of al_codec.c: delivery of the mails to the users they are addressed to).

  \<^bold>\<open>Decoded picture buffer\<close> (lib_parsing/DPB.c).  \<open>Dpb\<close> (structures, pools, display queue), \<open>DpbOps\<close> (insertion, display, removal,
  flush, clean-up) and \<open>DpbMark\<close> (AVC marking and reference lists) are the code; \<open>DpbLists\<close>, \<open>DpbInv\<close>, \<open>DpbUpdate\<close>, \<open>DpbOutput\<close>,
  \<open>DpbClean\<close> and \<open>DpbMarkProofs\<close> prove the invariant (three lists of the same nodes, two sorted; counters; picture identifiers;
  deferred releases) and what every operation does to the lists; \<open>DpbProps\<close> states it for the operations.  The callbacks
  to the picture manager are a log.

  \<^bold>\<open>Bits and NAL units.\<close>  \<open>BitStream\<close> (BitStreamLite.c), \<open>BitStreamProofs\<close>, \<open>ExpGolomb\<close>: the writer appends exactly the bits of
  its fields or sets the overflow flag.  \<open>IpStream\<close> (IP_Stream.c, RbspEncod.c): start codes, emulation prevention, filler data,
  SEI framing.  \<open>RbspParser\<close> (RbspParser.c), \<open>RbspFetch\<close>, \<open>RbspReaders\<close>, \<open>RbspGolomb\<close>, \<open>TrailingBits\<close>: the parser fetches, removes the
  prevention bytes and reads the bits in order.  \<open>NalRoundtrip\<close>: writer and parser composed.  \<open>NalUnitParser\<close> (NalUnitParser.c): a
  unit is found and read wherever it starts in the circular buffer.  \<open>NalWriters\<close> (NalWriters.c and the unit writing of
  Sections.c).

  \<^bold>\<open>AVC parameter sets.\<close>  \<open>CommonSyntax\<close> (common_syntax.c), \<open>AvcSyntax\<close> (SPS.h, AVC_RbspEncod.c), \<open>AvcParser\<close> (AvcParser.c) and \<open>AvcPps\<close>
  (PPS.h and both sides) are the code.  \<open>SyntaxReads\<close> has the composable rules: a writer puts a list of elements, a parser reads a
  list of elements.  \<open>AvcElems\<close>, \<open>AvcVui\<close>, \<open>AvcScaling\<close>, \<open>AvcLists\<close>, \<open>AvcSps\<close>, \<open>AvcRoundtrip\<close>, \<open>AvcPpsLists\<close> and \<open>AvcPpsRoundtrip\<close> apply
  them: what the encoder writes, the decoder stores.

  \<^bold>\<open>SEI and the sections of a picture.\<close>  \<open>SeiMessages\<close> (the numbers of a message header), \<open>AvcSei\<close> (SeiInternal.h, the writers,
  BufferSeiMeta.c), \<open>AvcSeiParser\<close> (\<open>AL_AVC_ParseSEI\<close>); \<open>SeiWriterProofs\<close>, \<open>AvcSeiElems\<close>, \<open>AvcSeiReads\<close> and \<open>AvcSeiRoundtrip\<close> prove the round
  trip of every message the encoder sends.  \<open>StreamMeta\<close> (BufferStreamMeta.c) refines a bounded list.  \<open>Profiles\<close> (Profiles.h).
  \<open>Sections\<close> (Sections.c, AVC_Sections.c, \<open>AL_ExtractNalsData\<close>); \<open>SectionsProofs\<close> and \<open>SectionsProps\<close>: the units of a picture and their
  sections as they come to lie in the buffer.

  \<^bold>\<open>Bounds and fuel.\<close>  Loops over a structure are primitive recursive; other loops are \<open>while_option\<close> or \<open>partial_function\<close>, so
  not returning is \<open>None\<close>, and the theorems prove \<open>Some\<close>; a loop of C that runs a counted number of times recurses on the count.
  No fuel is used.  Buffer sizes in hypotheses are what the code reserves (\<open>AL_ENC_MAX_CONFIG_HEADER_SIZE\<close>,
  \<open>NON_VCL_NAL_SIZE\<close>); the pictures in the buffer are at most \<open>MAX_DPB_SIZE\<close>, whose check is the code's.

  \<^bold>\<open>Defects shown.\<close>  Theorems that end in a wrong state are stated as such: \<open>enc_create_channel_double_free\<close>,
  \<open>set_firmware_dangling_user\<close>, \<open>bufpool_allocate_all_or_nothing\<close> (the leak of a failed export), \<open>dpb_switch_long_term_loses\<close>,
  \<open>exp_golomb_written\<close> (values for which the writer hangs), \<open>sei_number_round_trip\<close>, \<open>sei_prefix_write_returns\<close>, \<open>user_sei_overwritten\<close>,
  \<open>pad_config_overwrites_sei\<close>, \<open>max_slices\<close>, \<open>hevc_dpb_size_mismatch\<close>, \<open>int_vector_out_of_bounds\<close>, \<open>list_push_result\<close>,
  \<open>mailbox_oversize_desynchronises\<close>.

  \<^bold>\<open>Not modelled.\<close>  vcu-omx-il and the applications (exe_encoder, exe_decoder, lib_app, lib_cfg_parsing, lib_conv_yuv): C++ adapters
  over the libraries.  The HEVC parameter sets, slice headers, picture managers and the concealment; CABAC and the skipped
  pictures; the settings of the encoder and their validation; the threads and hardware sessions of both libraries
  (Com_Encoder.c, DefaultDecoder.c, the schedulers, the feeders), whose calls are asynchronous exchanges with the hardware; buffers,
  metadata and pixel maps other than the section table and the SEI metadata; lib_rtos and lib_fpga; in the kernel the ioctl
  entry points, which copy arguments and call one modelled operation each, the registration of devices, clocks and registers
  and the DMA proxy.  Freeing of memory in user space is not modelled.
\<close>

end
